(* ===== verification/Prelude.thy ===== *)
theory Prelude
  imports Main "HOL-Library.Word" "HOL-Library.Monad_Syntax"
begin

unbundle bit_operations_syntax

text \<open>
  The vocabulary every other theory shares: the C integer types, byte buffers, the reading of
  a buffer as a list of bits (most significant bit of the first byte first, the order of the
  big-endian bitstream of the compressor), big-endian loads and stores of machine words, and
  generic facts about them.
\<close>

section \<open>C types\<close>

type_synonym u8 = "8 word"
type_synonym u16 = "16 word"
type_synonym u32 = "32 word"
type_synonym u64 = "64 word"

text \<open>
  A function that dereferences a pointer returns an \<open>option\<close>: \<open>None\<close> is undefined behaviour
  (an access outside of the buffer), so that "the result is \<open>Some\<close>" is memory safety.
  A pointer argument that may be NULL is a buffer \<open>option\<close>.
\<close>

type_synonym buffer = "u8 list"

named_theorems bits_simps \<open>lengths and elements of the bit-list views\<close>

section \<open>Bit lists\<close>

definition bits_msb :: "nat \<Rightarrow> 'a::semiring_bit_operations \<Rightarrow> bool list" where
  "bits_msb n w = map (bit w) (rev [0..<n])"

definition bits_of_bytes :: "buffer \<Rightarrow> bool list" where
  "bits_of_bytes bs = concat (map (bits_msb 8) bs)"

lemma length_bits_msb [simp, bits_simps]: "length (bits_msb n w) = n"
  by (simp add: bits_msb_def)

lemma nth_bits_msb [bits_simps]: "i < n \<Longrightarrow> bits_msb n w ! i = bit w (n - 1 - i)"
  by (simp add: bits_msb_def rev_nth)

lemma bits_msb_0 [simp]: "bits_msb 0 w = []"
  by (simp add: bits_msb_def)

lemma bits_msb_Suc: "bits_msb (Suc n) w = bit w n # bits_msb n w"
  by (simp add: bits_msb_def)

lemma bits_msb_zero: "bits_msb n 0 = replicate n False"
  by (rule nth_equalityI) (simp_all add: nth_bits_msb)

lemma bits_msb_append:
  "bits_msb (m + n) w = bits_msb m (drop_bit n w) @ bits_msb n w"
  by (rule nth_equalityI)
    (auto simp: nth_append nth_bits_msb bit_drop_bit_eq intro!: arg_cong [where f = "bit w"])

lemma take_bits_msb: "k \<le> n \<Longrightarrow> take k (bits_msb n w) = bits_msb k (drop_bit (n - k) w)"
  by (rule nth_equalityI)
    (auto simp: nth_bits_msb bit_drop_bit_eq intro!: arg_cong [where f = "bit w"])

lemma drop_bits_msb: "drop k (bits_msb n w) = bits_msb (n - k) w"
  by (rule nth_equalityI) (auto simp: nth_bits_msb intro!: arg_cong [where f = "bit w"])

lemma bits_msb_take_bit: "n \<le> m \<Longrightarrow> bits_msb n (take_bit m w) = bits_msb n w"
  by (rule nth_equalityI) (auto simp: nth_bits_msb bit_take_bit_iff)

lemma bits_msb_cong:
  "(\<And>i. i < n \<Longrightarrow> bit v i = bit w i) \<Longrightarrow> bits_msb n v = bits_msb n w"
  by (rule nth_equalityI) (auto simp: nth_bits_msb)

lemma bits_msb_eqD: "bits_msb n v = bits_msb n w \<Longrightarrow> i < n \<Longrightarrow> bit v i = bit w i"
proof -
  assume eq: "bits_msb n v = bits_msb n w" and i: "i < n"
  then have "bits_msb n v ! (n - 1 - i) = bits_msb n w ! (n - 1 - i)" by simp
  then show ?thesis using i by (simp add: nth_bits_msb)
qed

lemma bits_msb_ucast:
  fixes w :: "'a::len word"
  shows "n \<le> LENGTH('b) \<Longrightarrow> bits_msb n (ucast w :: 'b::len word) = bits_msb n w"
  by (rule bits_msb_cong) (simp add: bit_ucast_iff)

lemma bits_msb_unat: "bits_msb n (unat (w :: 'a::len word)) = bits_msb n w"
  by (rule bits_msb_cong) (auto simp: bit_unsigned_iff)

lemma length_bits_of_bytes [simp, bits_simps]: "length (bits_of_bytes bs) = 8 * length bs"
  by (induction bs) (simp_all add: bits_of_bytes_def)

lemma bits_of_bytes_Nil [simp]: "bits_of_bytes [] = []"
  by (simp add: bits_of_bytes_def)

lemma bits_of_bytes_Cons: "bits_of_bytes (b # bs) = bits_msb 8 b @ bits_of_bytes bs"
  by (simp add: bits_of_bytes_def)

lemma bits_of_bytes_append [simp]:
  "bits_of_bytes (bs @ cs) = bits_of_bytes bs @ bits_of_bytes cs"
  by (simp add: bits_of_bytes_def)

lemma bits_of_bytes_take: "bits_of_bytes (take n bs) = take (8 * n) (bits_of_bytes bs)"
proof (induction bs arbitrary: n)
  case (Cons b bs)
  then show ?case by (cases n) (simp_all add: bits_of_bytes_Cons)
qed simp

lemma bits_of_bytes_drop: "bits_of_bytes (drop n bs) = drop (8 * n) (bits_of_bytes bs)"
proof (induction bs arbitrary: n)
  case (Cons b bs)
  then show ?case by (cases n) (simp_all add: bits_of_bytes_Cons)
qed simp

lemma bits_msb_8_inj: "bits_msb 8 (v :: u8) = bits_msb 8 w \<Longrightarrow> v = w"
  by (rule bit_word_eqI) (auto dest: bits_msb_eqD)

lemma bits_of_bytes_inj: "bits_of_bytes bs = bits_of_bytes cs \<Longrightarrow> bs = cs"
proof (induction bs arbitrary: cs)
  case Nil
  have "length (bits_of_bytes cs) = 0" unfolding Nil.prems [symmetric] by simp
  then show ?case by simp
next
  case (Cons b bs)
  have "length (bits_of_bytes (b # bs)) = length (bits_of_bytes cs)"
    by (rule arg_cong [OF Cons.prems])
  then obtain c cs' where cs: "cs = c # cs'" by (cases cs) auto
  with Cons.prems have "bits_msb 8 b = bits_msb 8 c" "bits_of_bytes bs = bits_of_bytes cs'"
    by (auto simp: bits_of_bytes_Cons)
  then show ?case using Cons.IH cs by (auto dest: bits_msb_8_inj)
qed

section \<open>Big-endian words in byte buffers\<close>

definition be_word :: "buffer \<Rightarrow> 'a::len word" where
  "be_word bs = foldl (\<lambda>a b. push_bit 8 a OR ucast b) 0 bs"

definition be_bytes :: "nat \<Rightarrow> 'a::len word \<Rightarrow> buffer" where
  "be_bytes n w = map (\<lambda>i. ucast (drop_bit (8 * i) w)) (rev [0..<n])"

lemma be_word_Nil [simp]: "be_word [] = 0"
  by (simp add: be_word_def)

lemma be_word_snoc: "be_word (bs @ [b]) = push_bit 8 (be_word bs) OR ucast b"
  by (simp add: be_word_def)

lemma bits_msb_be_word:
  "8 * length bs \<le> LENGTH('a) \<Longrightarrow>
    bits_msb (8 * length bs) (be_word bs :: 'a::len word) = bits_of_bytes bs"
proof (induction bs rule: rev_induct)
  case (snoc b bs)
  let ?w = "be_word bs :: 'a word" and ?v = "push_bit 8 (be_word bs) OR ucast b :: 'a word"
  have "bits_msb (8 * length bs + 8) ?v = bits_msb (8 * length bs) (drop_bit 8 ?v) @ bits_msb 8 ?v"
    by (rule bits_msb_append)
  moreover have "bits_msb (8 * length bs) (drop_bit 8 ?v) = bits_msb (8 * length bs) ?w"
    using snoc.prems by (intro bits_msb_cong)
      (auto simp: bit_drop_bit_eq bit_or_iff bit_push_bit_iff bit_ucast_iff dest: bit_imp_le_length)
  moreover have "bits_msb 8 ?v = bits_msb 8 b"
    using snoc.prems by (intro bits_msb_cong)
      (auto simp: bit_or_iff bit_push_bit_iff bit_ucast_iff)
  ultimately show ?case using snoc
    by (simp add: be_word_snoc bits_of_bytes_Cons add.commute)
qed simp

lemma length_be_bytes [simp]: "length (be_bytes n w) = n"
  by (simp add: be_bytes_def)

lemma be_bytes_Suc: "be_bytes (Suc n) w = ucast (drop_bit (8 * n) w) # be_bytes n w"
  by (simp add: be_bytes_def)

lemma be_bytes_numeral:
  "be_bytes (numeral k) w = ucast (drop_bit (8 * pred_numeral k) w) # be_bytes (pred_numeral k) w"
  "be_bytes (Suc 0) w = [ucast w]"
  by (simp_all add: numeral_eq_Suc be_bytes_Suc be_bytes_def)

lemma bits_of_bytes_be_bytes: "bits_of_bytes (be_bytes n w) = bits_msb (8 * n) w"
proof (induction n)
  case (Suc n)
  have "bits_msb 8 (ucast (drop_bit (8 * n) w) :: u8) = bits_msb 8 (drop_bit (8 * n) w)"
    by (rule bits_msb_ucast) simp
  then show ?case
    using Suc bits_msb_append [of 8 "8 * n" w]
    by (simp add: be_bytes_Suc bits_of_bytes_Cons)
qed (simp add: be_bytes_def)

lemma be_bytes_be_word [simp]:
  "8 * length bs \<le> LENGTH('a) \<Longrightarrow> be_bytes (length bs) (be_word bs :: 'a::len word) = bs"
  by (rule bits_of_bytes_inj) (simp add: bits_of_bytes_be_bytes bits_msb_be_word)

lemma bit_be_word_high:
  "8 * length bs \<le> k \<Longrightarrow> \<not> bit (be_word bs :: 'a::len word) k"
proof (induction bs arbitrary: k rule: rev_induct)
  case (snoc b bs)
  then show ?case
    by (auto simp: be_word_snoc bit_or_iff bit_push_bit_iff bit_ucast_iff dest: bit_imp_le_length)
qed simp

lemma be_word_be_bytes:
  fixes w :: "'a::len word"
  assumes "8 * n \<le> LENGTH('a)" and "\<And>k. 8 * n \<le> k \<Longrightarrow> \<not> bit w k"
  shows "be_word (be_bytes n w) = w"
proof (rule bit_word_eqI)
  fix k assume "k < LENGTH('a)"
  have eq: "bits_msb (8 * n) (be_word (be_bytes n w) :: 'a word) = bits_msb (8 * n) w"
    using bits_msb_be_word [of "be_bytes n w"] assms(1) by (simp add: bits_of_bytes_be_bytes)
  show "bit (be_word (be_bytes n w) :: 'a word) k = bit w k"
  proof (cases "k < 8 * n")
    case True then show ?thesis by (rule bits_msb_eqD [OF eq])
  next
    case False then show ?thesis
      using assms(2) bit_be_word_high [of "be_bytes n w" k, where 'a = 'a] by simp
  qed
qed

section \<open>Loads and stores\<close>

definition load_be :: "nat \<Rightarrow> nat \<Rightarrow> buffer \<Rightarrow> 'a::len word option" where
  "load_be n off bs =
     (if off + n \<le> length bs then Some (be_word (take n (drop off bs))) else None)"

definition store_bytes :: "nat \<Rightarrow> buffer \<Rightarrow> buffer \<Rightarrow> buffer option" where
  "store_bytes off xs bs =
     (if off + length xs \<le> length bs
      then Some (take off bs @ xs @ drop (off + length xs) bs) else None)"

definition store_be :: "nat \<Rightarrow> nat \<Rightarrow> 'a::len word \<Rightarrow> buffer \<Rightarrow> buffer option" where
  "store_be n off w bs = store_bytes off (be_bytes n w) bs"

lemma store_bytes_length: "store_bytes off xs bs = Some bs' \<Longrightarrow> length bs' = length bs"
  by (auto simp: store_bytes_def split: if_splits)

lemma bits_msb_load_be:
  "load_be n off bs = Some (w :: 'a::len word) \<Longrightarrow> 8 * n \<le> LENGTH('a) \<Longrightarrow>
    bits_msb (8 * n) w = take (8 * n) (drop (8 * off) (bits_of_bytes bs))"
  using bits_msb_be_word [of "take n (drop off bs)", where 'a = 'a]
  by (auto simp: load_be_def bits_of_bytes_take bits_of_bytes_drop min_absorb2 split: if_splits)

lemma bits_store_be:
  "store_be n off w bs = Some bs' \<Longrightarrow>
    bits_of_bytes bs' =
      take (8 * off) (bits_of_bytes bs) @ bits_msb (8 * n) w @ drop (8 * off + 8 * n) (bits_of_bytes bs)"
  by (auto simp: store_be_def store_bytes_def bits_of_bytes_take bits_of_bytes_drop
      bits_of_bytes_be_bytes algebra_simps split: if_splits)

lemma splice_window:
  assumes "k \<le> n"
  shows "drop k (take n (drop a bs)) @ drop (a + n) bs = drop (a + k) bs"
proof -
  have "drop k (take n (drop a bs)) = take (n - k) (drop (a + k) bs)"
    by (simp add: drop_take ac_simps)
  moreover have "drop (a + n) bs = drop (n - k) (drop (a + k) bs)"
    using assms by (simp add: add.commute)
  ultimately show ?thesis by (simp only: append_take_drop_id)
qed

lemma load_be_Some: "a + n \<le> length buf \<Longrightarrow> \<exists>w. load_be n a buf = Some w"
  by (simp add: load_be_def)

lemma store_be_Some: "a + n \<le> length buf \<Longrightarrow> \<exists>b. store_be n a w buf = Some b"
  by (simp add: store_be_def store_bytes_def)

lemma store_be_length: "store_be n a w buf = Some b \<Longrightarrow> length b = length buf"
  unfolding store_be_def by (rule store_bytes_length)

section \<open>Numbers and bits\<close>

lemma unat_less_2p: "unat (w :: 'a::len word) < 2 ^ LENGTH('a)"
  by (rule unsigned_less)

lemma unat_drop_bit: "unat (drop_bit n (w :: 'a::len word)) = unat w div 2 ^ n"
  by (simp only: unsigned_drop_bit_eq) (simp add: drop_bit_eq_div take_bit_nat_eq_self)

lemma unat_push_bit:
  fixes w :: "'a::len word"
  assumes "unat w * 2 ^ n < 2 ^ LENGTH('a)"
  shows "unat (push_bit n w) = unat w * 2 ^ n"
  using assms
  by (simp only: unsigned_push_bit_eq) (simp add: push_bit_eq_mult take_bit_nat_eq_self_iff)

lemma take_bit_word_eq_self_iff:
  fixes w :: "'a::len word"
  shows "take_bit n w = w \<longleftrightarrow> unat w < 2 ^ n"
  by (metis take_bit_nat_eq_self_iff unsigned_take_bit_eq unsigned_word_eqI)

lemma unat_less_iff_bits:
  fixes w :: "'a::len word"
  shows "unat w < 2 ^ n \<longleftrightarrow> (\<forall>k \<ge> n. \<not> bit w k)"
proof -
  have "take_bit n w = w \<longleftrightarrow> (\<forall>k \<ge> n. \<not> bit w k)"
    by (metis bit_eqI bit_take_bit_iff not_less)
  then show ?thesis by (simp add: take_bit_word_eq_self_iff)
qed

lemma unat_and_31: "unat (x AND 0x1F :: u32) = unat x mod 32"
proof -
  have "x AND 0x1F = take_bit 5 x" by (simp add: take_bit_eq_mask mask_numeral)
  then show ?thesis by (simp add: take_bit_eq_mod unat_mod)
qed

lemma unat_add_small: "unat a + unat b < 2 ^ 32 \<Longrightarrow> unat (a + b :: u32) = unat a + unat b"
  by (simp add: unat_word_ariths)

lemma unat_of_nat_small [simp]: "k < 2 ^ 32 \<Longrightarrow> unat (word_of_nat k :: u32) = k"
  by (simp add: unat_of_nat take_bit_nat_eq_self)

lemma unat_ucast_8_32: "unat (ucast (w :: u8) :: u32) = unat w"
  using unat_less_2p [of w] by (simp add: unsigned_ucast_eq take_bit_nat_eq_self_iff)

lemma and_NOT_mask:
  fixes x :: "'a::len word"
  shows "x AND NOT (mask n) = push_bit n (drop_bit n x)"
  by (rule bit_word_eqI) (auto simp: bit_and_iff bit_not_iff bit_mask_iff bit_push_bit_iff bit_drop_bit_eq)

lemma unat_and_not_3: "unat (x AND NOT 3 :: u32) = 4 * (unat x div 4)"
proof -
  have "(3 :: u32) = mask 2" by (simp add: mask_numeral)
  then have "x AND NOT 3 = push_bit 2 (drop_bit 2 x)" by (simp only: and_NOT_mask)
  moreover have "unat (drop_bit 2 x) = unat x div 4" by (simp add: unat_drop_bit)
  moreover have "unat x div 4 < 2 ^ 30" using unat_less_2p [of x] by (simp add: div_less_iff_less_mult)
  ultimately show ?thesis by (simp add: unat_push_bit)
qed

lemma and_3_mod_4: "x AND 3 = 0 \<longleftrightarrow> unat (x :: 'a::len word) mod 4 = 0"
proof -
  have "x AND 3 = take_bit 2 x" by (simp add: take_bit_eq_mask mask_numeral)
  moreover have "unat (take_bit 2 x) = unat x mod 4"
    unfolding unsigned_take_bit_eq by (simp add: take_bit_eq_mod)
  ultimately show ?thesis by (simp add: unat_eq_0 [symmetric])
qed

end
