(* ===== verification/Cmp_Error.thy ===== *)
theory Cmp_Error
  imports Prelude
begin

text \<open>
  The error codes of the library (\<open>lib/common/cmp_error_list.h\<close>, \<open>cmp_error.h\<close>,
  \<open>cmp_error.c\<close>). A function that returns a size returns an error as the negated code in the
  same 32-bit word; a caller tells the two apart with \<open>cmp_is_error\<close>.
\<close>

datatype cmp_error =
    CMP_ERROR_NO_ERROR
  | CMP_ERROR_GENERIC
  | CMP_ERROR_SMALL_BUFFER
  | CMP_ERROR_DATA_VALUE_TOO_LARGE
  | CMP_ERROR_PAR_GENERIC
  | CMP_ERROR_PAR_SPECIFIC
  | CMP_ERROR_PAR_BUFFERS
  | CMP_ERROR_PAR_NULL
  | CMP_ERROR_PAR_NO_MODEL
  | CMP_ERROR_CHUNK_NULL
  | CMP_ERROR_CHUNK_TOO_LARGE
  | CMP_ERROR_CHUNK_TOO_SMALL
  | CMP_ERROR_CHUNK_SIZE_INCONSISTENT
  | CMP_ERROR_CHUNK_SUBSERVICE_INCONSISTENT
  | CMP_ERROR_COL_SUBSERVICE_UNSUPPORTED
  | CMP_ERROR_COL_SIZE_INCONSISTENT
  | CMP_ERROR_ENTITY_NULL
  | CMP_ERROR_ENTITY_TOO_SMALL
  | CMP_ERROR_ENTITY_HEADER
  | CMP_ERROR_ENTITY_TIMESTAMP
  | CMP_ERROR_INT_DECODER
  | CMP_ERROR_INT_DATA_TYPE_UNSUPPORTED
  | CMP_ERROR_INT_CMP_COL_TOO_LARGE
  | CMP_ERROR_MAX_CODE

fun cmp_error_value :: "cmp_error \<Rightarrow> u32" where
  "cmp_error_value CMP_ERROR_NO_ERROR = 0"
| "cmp_error_value CMP_ERROR_GENERIC = 1"
| "cmp_error_value CMP_ERROR_SMALL_BUFFER = 2"
| "cmp_error_value CMP_ERROR_DATA_VALUE_TOO_LARGE = 3"
| "cmp_error_value CMP_ERROR_PAR_GENERIC = 20"
| "cmp_error_value CMP_ERROR_PAR_SPECIFIC = 21"
| "cmp_error_value CMP_ERROR_PAR_BUFFERS = 22"
| "cmp_error_value CMP_ERROR_PAR_NULL = 24"
| "cmp_error_value CMP_ERROR_PAR_NO_MODEL = 25"
| "cmp_error_value CMP_ERROR_CHUNK_NULL = 40"
| "cmp_error_value CMP_ERROR_CHUNK_TOO_LARGE = 41"
| "cmp_error_value CMP_ERROR_CHUNK_TOO_SMALL = 42"
| "cmp_error_value CMP_ERROR_CHUNK_SIZE_INCONSISTENT = 43"
| "cmp_error_value CMP_ERROR_CHUNK_SUBSERVICE_INCONSISTENT = 44"
| "cmp_error_value CMP_ERROR_COL_SUBSERVICE_UNSUPPORTED = 60"
| "cmp_error_value CMP_ERROR_COL_SIZE_INCONSISTENT = 61"
| "cmp_error_value CMP_ERROR_ENTITY_NULL = 80"
| "cmp_error_value CMP_ERROR_ENTITY_TOO_SMALL = 81"
| "cmp_error_value CMP_ERROR_ENTITY_HEADER = 82"
| "cmp_error_value CMP_ERROR_ENTITY_TIMESTAMP = 83"
| "cmp_error_value CMP_ERROR_INT_DECODER = 100"
| "cmp_error_value CMP_ERROR_INT_DATA_TYPE_UNSUPPORTED = 101"
| "cmp_error_value CMP_ERROR_INT_CMP_COL_TOO_LARGE = 102"
| "cmp_error_value CMP_ERROR_MAX_CODE = 127"

text \<open>The macro \<open>CMP_ERROR(name)\<close>, which casts the negated enumerator to \<open>uint32_t\<close>.\<close>

definition CMP_ERROR :: "cmp_error \<Rightarrow> u32" where
  "CMP_ERROR e = - cmp_error_value e"

definition cmp_is_error :: "u32 \<Rightarrow> bool" where
  "cmp_is_error code \<longleftrightarrow> code > CMP_ERROR CMP_ERROR_MAX_CODE"

text \<open>
  The cast \<open>(enum cmp_error)(0 - code)\<close> may give an integer that is no enumerator; the model
  keeps the integer.
\<close>

definition cmp_get_error_code :: "u32 \<Rightarrow> u32" where
  "cmp_get_error_code code =
     (if cmp_is_error code then 0 - code else cmp_error_value CMP_ERROR_NO_ERROR)"

lemma cmp_is_error_iff: "cmp_is_error c \<longleftrightarrow> 4294967169 < unat c"
  by (simp add: cmp_is_error_def CMP_ERROR_def word_less_nat_alt)

lemma cmp_is_error_NO_ERROR [simp]: "\<not> cmp_is_error (CMP_ERROR CMP_ERROR_NO_ERROR)"
  and cmp_is_error_0 [simp]: "\<not> cmp_is_error 0"
  by (simp_all add: cmp_is_error_iff CMP_ERROR_def)

lemma cmp_is_error_CMP_ERROR [simp]:
  "cmp_is_error (CMP_ERROR e) \<longleftrightarrow> e \<noteq> CMP_ERROR_NO_ERROR \<and> e \<noteq> CMP_ERROR_MAX_CODE"
  by (cases e) (simp_all add: cmp_is_error_def CMP_ERROR_def)

lemma cmp_error_value_inj [simp]: "cmp_error_value e = cmp_error_value f \<longleftrightarrow> e = f"
  by (cases e; cases f) simp_all

lemma CMP_ERROR_inj [simp]: "CMP_ERROR e = CMP_ERROR f \<longleftrightarrow> e = f"
  by (simp add: CMP_ERROR_def)

lemma cmp_get_error_code_CMP_ERROR:
  "e \<noteq> CMP_ERROR_MAX_CODE \<Longrightarrow> cmp_get_error_code (CMP_ERROR e) = cmp_error_value e"
  by (cases "e = CMP_ERROR_NO_ERROR")
    (simp_all only: cmp_get_error_code_def cmp_is_error_CMP_ERROR, simp_all add: CMP_ERROR_def)

lemma not_cmp_is_errorI: "unat c \<le> 4294967169 \<Longrightarrow> \<not> cmp_is_error c"
  by (simp add: cmp_is_error_iff)

lemma cmp_get_error_code_small:
  "cmp_get_error_code c = cmp_error_value CMP_ERROR_SMALL_BUFFER \<longleftrightarrow>
     c = CMP_ERROR CMP_ERROR_SMALL_BUFFER"
proof
  assume "cmp_get_error_code c = cmp_error_value CMP_ERROR_SMALL_BUFFER"
  then have "- c = 2" by (simp add: cmp_get_error_code_def split: if_splits)
  then have "- (- c) = - 2" by (rule arg_cong)
  then show "c = CMP_ERROR CMP_ERROR_SMALL_BUFFER" by (simp add: CMP_ERROR_def)
qed (simp add: cmp_get_error_code_CMP_ERROR del: cmp_error_value.simps)

end
