(* ===== verification/Error_Strings.thy ===== *)
theory Error_Strings
  imports Cmp_Error
begin

text \<open>
  The descriptions of the error codes (\<open>cmp_get_error_string\<close> and \<open>cmp_get_error_name\<close> of
  \<open>lib/common/cmp_error.c\<close>, compiled without \<open>CMP_STRIP_ERROR_STRINGS\<close>). The argument of the first is an
  integer that may be no enumerator, as the result of \<open>cmp_get_error_code\<close> is.
\<close>

abbreviation (input) "notErrorCode \<equiv> ''Unspecified error code''"

fun error_description :: "cmp_error \<Rightarrow> string" where
  "error_description CMP_ERROR_NO_ERROR =
     ''No error detected''"
| "error_description CMP_ERROR_GENERIC =
     ''Error (generic)''"
| "error_description CMP_ERROR_SMALL_BUFFER =
     ''Destination buffer is too small to hold the whole compressed data''"
| "error_description CMP_ERROR_DATA_VALUE_TOO_LARGE =
     ''Data value is larger than expected''"
| "error_description CMP_ERROR_PAR_GENERIC =
     ''Compression mode or model value or lossy rounding parameter is unsupported''"
| "error_description CMP_ERROR_PAR_SPECIFIC =
     ''Specific compression parameters or combination is unsupported''"
| "error_description CMP_ERROR_PAR_BUFFERS =
     ''Buffer related parameter is not valid''"
| "error_description CMP_ERROR_PAR_NULL =
     ''Pointer to the compression parameters structure is NULL''"
| "error_description CMP_ERROR_PAR_NO_MODEL =
     ''Model need for model mode compression''"
| "error_description CMP_ERROR_CHUNK_NULL =
     ''Pointer to the chunk is NULL. No data, no compression''"
| "error_description CMP_ERROR_CHUNK_TOO_LARGE =
     ''Chunk size too large''"
| "error_description CMP_ERROR_CHUNK_TOO_SMALL =
     ''Chunk size too small. Minimum size is the size of a collection header''"
| "error_description CMP_ERROR_CHUNK_SIZE_INCONSISTENT =
     ''Chunk size is not consistent with the sum of the sizes in the compression headers. Chunk size may be wrong?''"
| "error_description CMP_ERROR_CHUNK_SUBSERVICE_INCONSISTENT =
     ''The chunk contains collections with an incompatible combination of subservices''"
| "error_description CMP_ERROR_COL_SUBSERVICE_UNSUPPORTED =
     ''Unsupported collection subservice''"
| "error_description CMP_ERROR_COL_SIZE_INCONSISTENT =
     ''Inconsistency detected between the collection subservice and data length''"
| "error_description CMP_ERROR_ENTITY_NULL =
     ''Compression entity pointer is NULL''"
| "error_description CMP_ERROR_ENTITY_TOO_SMALL =
     ''Compression entity size is too small''"
| "error_description CMP_ERROR_ENTITY_HEADER =
     ''An error occurred while generating the compression entity header''"
| "error_description CMP_ERROR_ENTITY_TIMESTAMP =
     ''Timestamp too large for the compression entity header''"
| "error_description CMP_ERROR_INT_DECODER =
     ''Internal decoder error occurred''"
| "error_description CMP_ERROR_INT_DATA_TYPE_UNSUPPORTED =
     ''Internal error: Data type not supported''"
| "error_description CMP_ERROR_INT_CMP_COL_TOO_LARGE =
     ''Internal error: compressed collection to large''"
| "error_description CMP_ERROR_MAX_CODE = notErrorCode"

definition cmp_errors :: "cmp_error list" where
  "cmp_errors =
     [CMP_ERROR_NO_ERROR,
      CMP_ERROR_GENERIC,
      CMP_ERROR_SMALL_BUFFER,
      CMP_ERROR_DATA_VALUE_TOO_LARGE,
      CMP_ERROR_PAR_GENERIC,
      CMP_ERROR_PAR_SPECIFIC,
      CMP_ERROR_PAR_BUFFERS,
      CMP_ERROR_PAR_NULL,
      CMP_ERROR_PAR_NO_MODEL,
      CMP_ERROR_CHUNK_NULL,
      CMP_ERROR_CHUNK_TOO_LARGE,
      CMP_ERROR_CHUNK_TOO_SMALL,
      CMP_ERROR_CHUNK_SIZE_INCONSISTENT,
      CMP_ERROR_CHUNK_SUBSERVICE_INCONSISTENT,
      CMP_ERROR_COL_SUBSERVICE_UNSUPPORTED,
      CMP_ERROR_COL_SIZE_INCONSISTENT,
      CMP_ERROR_ENTITY_NULL,
      CMP_ERROR_ENTITY_TOO_SMALL,
      CMP_ERROR_ENTITY_HEADER,
      CMP_ERROR_ENTITY_TIMESTAMP,
      CMP_ERROR_INT_DECODER,
      CMP_ERROR_INT_DATA_TYPE_UNSUPPORTED,
      CMP_ERROR_INT_CMP_COL_TOO_LARGE,
      CMP_ERROR_MAX_CODE]"

definition cmp_get_error_string :: "u32 \<Rightarrow> string" where
  "cmp_get_error_string code =
     (case List.find (\<lambda>e. cmp_error_value e = code) cmp_errors of
        Some e \<Rightarrow> error_description e
      | None \<Rightarrow> notErrorCode)"

definition cmp_get_error_name :: "u32 \<Rightarrow> string" where
  "cmp_get_error_name code = cmp_get_error_string (cmp_get_error_code code)"

lemma find_error: "List.find (\<lambda>f. cmp_error_value f = cmp_error_value e) cmp_errors = Some e"
  by (cases e) (simp_all add: cmp_errors_def)

lemma error_string_of: "cmp_get_error_string (cmp_error_value e) = error_description e"
  by (simp add: cmp_get_error_string_def find_error del: cmp_error_value_inj)

lemma error_name_of:
  "cmp_get_error_name (CMP_ERROR e) =
    error_description (if e = CMP_ERROR_MAX_CODE then CMP_ERROR_NO_ERROR else e)"
  using cmp_get_error_code_CMP_ERROR [of e]
  by (auto simp: cmp_get_error_name_def error_string_of cmp_get_error_code_def simp del: cmp_error_value.simps)

lemma error_description_inj: "error_description e = error_description f \<longleftrightarrow> e = f"
  by (cases e; cases f) simp_all

text \<open>The description of a return value tells the error; every other return value gets the text of no error.\<close>

lemma error_names_distinct:
  "e \<noteq> CMP_ERROR_MAX_CODE \<Longrightarrow> f \<noteq> CMP_ERROR_MAX_CODE \<Longrightarrow>
    cmp_get_error_name (CMP_ERROR e) = error_description e \<and>
    (cmp_get_error_name (CMP_ERROR e) = cmp_get_error_name (CMP_ERROR f) \<longleftrightarrow> e = f) \<and>
    (\<not> cmp_is_error r \<longrightarrow> cmp_get_error_name r = error_description CMP_ERROR_NO_ERROR)"
  by (simp add: error_name_of error_description_inj)
    (simp add: cmp_get_error_name_def cmp_get_error_code_def error_string_of del: cmp_error_value.simps)

end
