(* ===== verification/Cmp_Support.thy ===== *)
theory Cmp_Support
  imports Cmp_Error
begin

text \<open>
  Parameters shared by compression and decompression (\<open>lib/common/cmp_support.h\<close>,
  \<open>cmp_support.c\<close>, \<open>cmp_max_used_bits.h\<close>): data types, compression modes, the
  configuration structure, the checks of its parameters and the largest spillover thresholds.

  A C enum can hold an integer that is none of its enumerators; the last constructor of each
  enum keeps such a value. The unions of \<open>struct cmp_cfg\<close> are one field with a name each; the
  other names are abbreviations. The four buffer pointers of \<open>struct cmp_cfg\<close> are arguments of
  the functions that use them.
\<close>

section \<open>Enumerations\<close>

datatype cmp_data_type =
    DATA_TYPE_UNKNOWN
  | DATA_TYPE_IMAGETTE
  | DATA_TYPE_IMAGETTE_ADAPTIVE
  | DATA_TYPE_SAT_IMAGETTE
  | DATA_TYPE_SAT_IMAGETTE_ADAPTIVE
  | DATA_TYPE_OFFSET
  | DATA_TYPE_BACKGROUND
  | DATA_TYPE_SMEARING
  | DATA_TYPE_S_FX
  | DATA_TYPE_S_FX_EFX
  | DATA_TYPE_S_FX_NCOB
  | DATA_TYPE_S_FX_EFX_NCOB_ECOB
  | DATA_TYPE_L_FX
  | DATA_TYPE_L_FX_EFX
  | DATA_TYPE_L_FX_NCOB
  | DATA_TYPE_L_FX_EFX_NCOB_ECOB
  | DATA_TYPE_F_FX
  | DATA_TYPE_F_FX_EFX
  | DATA_TYPE_F_FX_NCOB
  | DATA_TYPE_F_FX_EFX_NCOB_ECOB
  | DATA_TYPE_F_CAM_IMAGETTE
  | DATA_TYPE_F_CAM_IMAGETTE_ADAPTIVE
  | DATA_TYPE_F_CAM_OFFSET
  | DATA_TYPE_F_CAM_BACKGROUND
  | DATA_TYPE_CHUNK
  | DATA_TYPE_OTHER u32

datatype cmp_mode =
    CMP_MODE_RAW
  | CMP_MODE_MODEL_ZERO
  | CMP_MODE_DIFF_ZERO
  | CMP_MODE_MODEL_MULTI
  | CMP_MODE_DIFF_MULTI
  | CMP_MODE_OTHER u32

section \<open>Configuration\<close>

record cmp_cfg =
  samples :: u32
  stream_size :: u32
  data_type :: cmp_data_type
  cmp_mode :: cmp_mode
  model_value :: u32
  round_par :: u32
  cmp_par_1 :: u32
  spill_par_1 :: u32
  cmp_par_2 :: u32
  spill_par_2 :: u32
  cmp_par_3 :: u32
  spill_par_3 :: u32
  cmp_par_4 :: u32
  spill_par_4 :: u32
  cmp_par_5 :: u32
  spill_par_5 :: u32
  cmp_par_6 :: u32
  spill_par_6 :: u32

abbreviation "cmp_par_imagette \<equiv> cmp_par_1"
abbreviation "cmp_par_exp_flags \<equiv> cmp_par_1"
abbreviation "spill_imagette \<equiv> spill_par_1"
abbreviation "spill_exp_flags \<equiv> spill_par_1"
abbreviation "cmp_par_fx \<equiv> cmp_par_2"
abbreviation "cmp_par_offset_mean \<equiv> cmp_par_2"
abbreviation "spill_fx \<equiv> spill_par_2"
abbreviation "spill_offset_mean \<equiv> spill_par_2"
abbreviation "cmp_par_ncob \<equiv> cmp_par_3"
abbreviation "cmp_par_offset_variance \<equiv> cmp_par_3"
abbreviation "spill_ncob \<equiv> spill_par_3"
abbreviation "spill_offset_variance \<equiv> spill_par_3"
abbreviation "cmp_par_efx \<equiv> cmp_par_4"
abbreviation "cmp_par_background_mean \<equiv> cmp_par_4"
abbreviation "cmp_par_smearing_mean \<equiv> cmp_par_4"
abbreviation "spill_efx \<equiv> spill_par_4"
abbreviation "spill_background_mean \<equiv> spill_par_4"
abbreviation "spill_smearing_mean \<equiv> spill_par_4"
abbreviation "cmp_par_ecob \<equiv> cmp_par_5"
abbreviation "cmp_par_background_variance \<equiv> cmp_par_5"
abbreviation "cmp_par_smearing_variance \<equiv> cmp_par_5"
abbreviation "spill_ecob \<equiv> spill_par_5"
abbreviation "spill_background_variance \<equiv> spill_par_5"
abbreviation "spill_smearing_variance \<equiv> spill_par_5"
abbreviation "cmp_par_fx_cob_variance \<equiv> cmp_par_6"
abbreviation "cmp_par_background_pixels_error \<equiv> cmp_par_6"
abbreviation "cmp_par_smearing_pixels_error \<equiv> cmp_par_6"
abbreviation "spill_fx_cob_variance \<equiv> spill_par_6"
abbreviation "spill_background_pixels_error \<equiv> spill_par_6"
abbreviation "spill_smearing_pixels_error \<equiv> spill_par_6"

definition MAX_MODEL_VALUE :: u32 where "MAX_MODEL_VALUE = 16"
definition MAX_ICU_ROUND :: u32 where "MAX_ICU_ROUND = 3"
definition MIN_NON_IMA_GOLOMB_PAR :: u32 where "MIN_NON_IMA_GOLOMB_PAR = 1"
definition MAX_NON_IMA_GOLOMB_PAR :: u32 where "MAX_NON_IMA_GOLOMB_PAR = 65535"
definition MIN_NON_IMA_SPILL :: u32 where "MIN_NON_IMA_SPILL = 2"
definition MAX_IMA_GOLOMB_PAR :: u32 where "MAX_IMA_GOLOMB_PAR = 63"

named_theorems limits \<open>the numeric limits of the parameters\<close>

lemmas limits_defs [limits] =
  MAX_MODEL_VALUE_def MAX_ICU_ROUND_def MIN_NON_IMA_GOLOMB_PAR_def MAX_NON_IMA_GOLOMB_PAR_def
  MIN_NON_IMA_SPILL_def MAX_IMA_GOLOMB_PAR_def

text \<open>\<open>MAX_USED_BITS\<close>: the number of bits of every field of the data products.\<close>

record cmp_max_used_bits =
  bits_s_exp_flags :: u32
  bits_s_fx :: u32
  bits_s_efx :: u32
  bits_s_ncob :: u32
  bits_s_ecob :: u32
  bits_f_fx :: u32
  bits_f_efx :: u32
  bits_f_ncob :: u32
  bits_f_ecob :: u32
  bits_l_exp_flags :: u32
  bits_l_fx :: u32
  bits_l_fx_cob_variance :: u32
  bits_l_efx :: u32
  bits_l_ncob :: u32
  bits_l_ecob :: u32
  bits_nc_imagette :: u32
  bits_saturated_imagette :: u32
  bits_nc_offset_mean :: u32
  bits_nc_offset_variance :: u32
  bits_nc_background_mean :: u32
  bits_nc_background_variance :: u32
  bits_nc_background_outlier_pixels :: u32
  bits_smearing_mean :: u32
  bits_smearing_variance_mean :: u32
  bits_smearing_outlier_pixels :: u32
  bits_fc_imagette :: u32
  bits_fc_offset_mean :: u32
  bits_fc_offset_variance :: u32
  bits_fc_background_mean :: u32
  bits_fc_background_variance :: u32
  bits_fc_background_outlier_pixels :: u32

definition MAX_USED_BITS :: cmp_max_used_bits where
  "MAX_USED_BITS = \<lparr>
     bits_s_exp_flags = 8, bits_s_fx = 32, bits_s_efx = 32, bits_s_ncob = 32, bits_s_ecob = 32,
     bits_f_fx = 32, bits_f_efx = 32, bits_f_ncob = 32, bits_f_ecob = 32,
     bits_l_exp_flags = 24, bits_l_fx = 32, bits_l_fx_cob_variance = 32,
     bits_l_efx = 32, bits_l_ncob = 32, bits_l_ecob = 32,
     bits_nc_imagette = 16, bits_saturated_imagette = 16,
     bits_nc_offset_mean = 32, bits_nc_offset_variance = 32,
     bits_nc_background_mean = 32, bits_nc_background_variance = 32,
     bits_nc_background_outlier_pixels = 16,
     bits_smearing_mean = 32, bits_smearing_variance_mean = 32, bits_smearing_outlier_pixels = 16,
     bits_fc_imagette = 16, bits_fc_offset_mean = 32, bits_fc_offset_variance = 32,
     bits_fc_background_mean = 32, bits_fc_background_variance = 32,
     bits_fc_background_outlier_pixels = 16\<rparr>"

section \<open>Helper functions\<close>

text \<open>
  \<open>__builtin_clz\<close> (clz in the model) of a non-zero word counts its leading zero bits; the
  compiler leaves it undefined at zero, and every caller checks for zero first.
\<close>

fun clz_from :: "nat \<Rightarrow> 'a::len word \<Rightarrow> nat" where
  "clz_from 0 x = 0"
| "clz_from (Suc n) x = (if bit x n then 0 else Suc (clz_from n x))"

definition clz :: "'a::len word \<Rightarrow> nat" where
  "clz x = clz_from LENGTH('a) x"

definition ilog_2 :: "u32 \<Rightarrow> u32" where
  "ilog_2 x = (if x = 0 then - 1 else 31 - word_of_nat (clz x))"

definition is_a_pow_of_2 :: "u32 \<Rightarrow> bool" where
  "is_a_pow_of_2 v \<longleftrightarrow> v AND (v - 1) = 0"

definition cmp_data_type_is_invalid :: "cmp_data_type \<Rightarrow> bool" where
  "cmp_data_type_is_invalid t =
     (case t of DATA_TYPE_UNKNOWN \<Rightarrow> True | DATA_TYPE_OTHER _ \<Rightarrow> True | _ \<Rightarrow> False)"

definition model_mode_is_used :: "cmp_mode \<Rightarrow> bool" where
  "model_mode_is_used m \<longleftrightarrow> m = CMP_MODE_MODEL_ZERO \<or> m = CMP_MODE_MODEL_MULTI"

definition raw_mode_is_used :: "cmp_mode \<Rightarrow> bool" where
  "raw_mode_is_used m \<longleftrightarrow> m = CMP_MODE_RAW"

definition zero_escape_mech_is_used :: "cmp_mode \<Rightarrow> bool" where
  "zero_escape_mech_is_used m \<longleftrightarrow> m = CMP_MODE_MODEL_ZERO \<or> m = CMP_MODE_DIFF_ZERO"

definition multi_escape_mech_is_used :: "cmp_mode \<Rightarrow> bool" where
  "multi_escape_mech_is_used m \<longleftrightarrow> m = CMP_MODE_MODEL_MULTI \<or> m = CMP_MODE_DIFF_MULTI"

definition cmp_mode_is_supported :: "cmp_mode \<Rightarrow> bool" where
  "cmp_mode_is_supported m = (case m of
      CMP_MODE_RAW \<Rightarrow> True | CMP_MODE_MODEL_ZERO \<Rightarrow> True | CMP_MODE_DIFF_ZERO \<Rightarrow> True
    | CMP_MODE_MODEL_MULTI \<Rightarrow> True | CMP_MODE_DIFF_MULTI \<Rightarrow> True | _ \<Rightarrow> False)"

definition rdcu_supported_data_type_is_used :: "cmp_data_type \<Rightarrow> bool" where
  "rdcu_supported_data_type_is_used t = (case t of
      DATA_TYPE_IMAGETTE \<Rightarrow> True | DATA_TYPE_IMAGETTE_ADAPTIVE \<Rightarrow> True
    | DATA_TYPE_SAT_IMAGETTE \<Rightarrow> True | DATA_TYPE_SAT_IMAGETTE_ADAPTIVE \<Rightarrow> True
    | DATA_TYPE_F_CAM_IMAGETTE \<Rightarrow> True | DATA_TYPE_F_CAM_IMAGETTE_ADAPTIVE \<Rightarrow> True
    | _ \<Rightarrow> False)"

definition cmp_imagette_data_type_is_used :: "cmp_data_type \<Rightarrow> bool" where
  "cmp_imagette_data_type_is_used t = rdcu_supported_data_type_is_used t"

definition cmp_ap_imagette_data_type_is_used :: "cmp_data_type \<Rightarrow> bool" where
  "cmp_ap_imagette_data_type_is_used t = (case t of
      DATA_TYPE_IMAGETTE_ADAPTIVE \<Rightarrow> True | DATA_TYPE_SAT_IMAGETTE_ADAPTIVE \<Rightarrow> True
    | DATA_TYPE_F_CAM_IMAGETTE_ADAPTIVE \<Rightarrow> True | _ \<Rightarrow> False)"

definition cmp_fx_cob_data_type_is_used :: "cmp_data_type \<Rightarrow> bool" where
  "cmp_fx_cob_data_type_is_used t = (case t of
      DATA_TYPE_S_FX \<Rightarrow> True | DATA_TYPE_S_FX_EFX \<Rightarrow> True
    | DATA_TYPE_S_FX_NCOB \<Rightarrow> True | DATA_TYPE_S_FX_EFX_NCOB_ECOB \<Rightarrow> True
    | DATA_TYPE_L_FX \<Rightarrow> True | DATA_TYPE_L_FX_EFX \<Rightarrow> True
    | DATA_TYPE_L_FX_NCOB \<Rightarrow> True | DATA_TYPE_L_FX_EFX_NCOB_ECOB \<Rightarrow> True
    | DATA_TYPE_F_FX \<Rightarrow> True | DATA_TYPE_F_FX_EFX \<Rightarrow> True
    | DATA_TYPE_F_FX_NCOB \<Rightarrow> True | DATA_TYPE_F_FX_EFX_NCOB_ECOB \<Rightarrow> True
    | _ \<Rightarrow> False)"

definition cmp_aux_data_type_is_used :: "cmp_data_type \<Rightarrow> bool" where
  "cmp_aux_data_type_is_used t = (case t of
      DATA_TYPE_OFFSET \<Rightarrow> True | DATA_TYPE_BACKGROUND \<Rightarrow> True | DATA_TYPE_SMEARING \<Rightarrow> True
    | DATA_TYPE_F_CAM_OFFSET \<Rightarrow> True | DATA_TYPE_F_CAM_BACKGROUND \<Rightarrow> True | _ \<Rightarrow> False)"

definition cmp_bit_to_byte :: "u32 \<Rightarrow> u32" where
  "cmp_bit_to_byte cmp_size_bit = (cmp_size_bit + 7) div 8"

section \<open>Spillover thresholds\<close>

definition LUT_MAX_RDCU :: "u32 list" where
  "LUT_MAX_RDCU = [0, 8, 22, 35, 48,
     60, 72, 84, 96, 107, 118, 129, 140, 151, 162, 173, 184, 194,
     204, 214, 224, 234, 244, 254, 264, 274, 284, 294, 304, 314, 324,
     334, 344, 353, 362, 371, 380, 389, 398, 407, 416, 425, 434, 443,
     452, 461, 470, 479, 488, 497, 506, 515, 524, 533, 542, 551, 560,
     569, 578, 587, 596, 605, 614, 623]"

definition cmp_ima_max_spill :: "u32 \<Rightarrow> u32" where
  "cmp_ima_max_spill golomb_par =
     (if unat golomb_par \<ge> length LUT_MAX_RDCU then 0 else LUT_MAX_RDCU ! unat golomb_par)"

definition cmp_icu_max_spill :: "u32 \<Rightarrow> u32" where
  "cmp_icu_max_spill cmp_par =
     (let max_cw_bits = 32;
          cutoff = push_bit (unat (ilog_2 cmp_par AND 0x1F)) 2 - cmp_par;
          max_n_sym_offset = max_cw_bits div 2 - 1
      in if cmp_par = 0 \<or> cmp_par > MAX_NON_IMA_GOLOMB_PAR then 0
         else (max_cw_bits - 1 - ilog_2 cmp_par) * cmp_par + cutoff - max_n_sym_offset - 1)"

section \<open>Parameter checks\<close>

text \<open>The C functions count the violations; a non-zero count is "invalid".\<close>

definition cmp_cfg_gen_par_is_invalid :: "cmp_cfg option \<Rightarrow> nat" where
  "cmp_cfg_gen_par_is_invalid cfg_p = (case cfg_p of None \<Rightarrow> 1 | Some cfg \<Rightarrow>
     (if cmp_data_type_is_invalid (data_type cfg) then 1 else 0) +
     (if \<not> cmp_mode_is_supported (cmp_mode cfg) then 1 else 0) +
     (if model_mode_is_used (cmp_mode cfg) then
        (if model_value cfg > MAX_MODEL_VALUE then 1 else 0) else 0) +
     (if round_par cfg > MAX_ICU_ROUND then 1 else 0))"

definition cmp_pars_are_invalid :: "u32 \<Rightarrow> u32 \<Rightarrow> cmp_mode \<Rightarrow> nat" where
  "cmp_pars_are_invalid cmp_par spill mode = (case mode of
      CMP_MODE_RAW \<Rightarrow> 0
    | CMP_MODE_OTHER _ \<Rightarrow> 1
    | _ \<Rightarrow>
      (if cmp_par < MIN_NON_IMA_GOLOMB_PAR \<or> cmp_par > MAX_NON_IMA_GOLOMB_PAR then 1 else 0) +
      (if spill < MIN_NON_IMA_SPILL then 1 else 0) +
      (if spill > cmp_icu_max_spill cmp_par then 1 else 0))"

definition cmp_cfg_imagette_is_invalid :: "cmp_cfg option \<Rightarrow> nat" where
  "cmp_cfg_imagette_is_invalid cfg_p = (case cfg_p of None \<Rightarrow> 1 | Some cfg \<Rightarrow>
     (if \<not> cmp_imagette_data_type_is_used (data_type cfg) then 1 else 0) +
     cmp_pars_are_invalid (cmp_par_imagette cfg) (spill_imagette cfg) (cmp_mode cfg))"

record fx_cob_par =
  need_exp_flags :: bool
  need_fx :: bool
  need_ncob :: bool
  need_efx :: bool
  need_ecob :: bool
  need_fx_cob_variance :: bool

text \<open>The pair is the structure after the call and the return value.\<close>

definition cmp_cfg_fx_cob_get_need_pars :: "cmp_data_type \<Rightarrow> fx_cob_par \<times> int" where
  "cmp_cfg_fx_cob_get_need_pars t =
     (let par = \<lparr>need_exp_flags = False, need_fx = True, need_ncob = False, need_efx = False,
                 need_ecob = False, need_fx_cob_variance = False\<rparr>
      in case t of
        DATA_TYPE_S_FX \<Rightarrow> (par\<lparr>need_exp_flags := True\<rparr>, 0)
      | DATA_TYPE_S_FX_EFX \<Rightarrow> (par\<lparr>need_exp_flags := True, need_efx := True\<rparr>, 0)
      | DATA_TYPE_S_FX_NCOB \<Rightarrow> (par\<lparr>need_exp_flags := True, need_ncob := True\<rparr>, 0)
      | DATA_TYPE_S_FX_EFX_NCOB_ECOB \<Rightarrow>
          (par\<lparr>need_exp_flags := True, need_ncob := True, need_efx := True, need_ecob := True\<rparr>, 0)
      | DATA_TYPE_L_FX \<Rightarrow> (par\<lparr>need_exp_flags := True, need_fx_cob_variance := True\<rparr>, 0)
      | DATA_TYPE_L_FX_EFX \<Rightarrow>
          (par\<lparr>need_exp_flags := True, need_efx := True, need_fx_cob_variance := True\<rparr>, 0)
      | DATA_TYPE_L_FX_NCOB \<Rightarrow>
          (par\<lparr>need_exp_flags := True, need_ncob := True, need_fx_cob_variance := True\<rparr>, 0)
      | DATA_TYPE_L_FX_EFX_NCOB_ECOB \<Rightarrow>
          (par\<lparr>need_exp_flags := True, need_ncob := True, need_efx := True, need_ecob := True,
               need_fx_cob_variance := True\<rparr>, 0)
      | DATA_TYPE_F_FX \<Rightarrow> (par, 0)
      | DATA_TYPE_F_FX_EFX \<Rightarrow> (par\<lparr>need_efx := True\<rparr>, 0)
      | DATA_TYPE_F_FX_NCOB \<Rightarrow> (par\<lparr>need_ncob := True\<rparr>, 0)
      | DATA_TYPE_F_FX_EFX_NCOB_ECOB \<Rightarrow>
          (par\<lparr>need_ncob := True, need_efx := True, need_ecob := True\<rparr>, 0)
      | _ \<Rightarrow> (par, - 1))"

definition cmp_cfg_fx_cob_is_invalid :: "cmp_cfg option \<Rightarrow> nat" where
  "cmp_cfg_fx_cob_is_invalid cfg_p = (case cfg_p of None \<Rightarrow> 1 | Some cfg \<Rightarrow>
     (let needed_pars = fst (cmp_cfg_fx_cob_get_need_pars (data_type cfg)); mode = cmp_mode cfg in
     (if \<not> cmp_fx_cob_data_type_is_used (data_type cfg) then 1 else 0) +
     (if need_fx needed_pars
      then cmp_pars_are_invalid (cmp_par_fx cfg) (spill_fx cfg) mode else 0) +
     (if need_exp_flags needed_pars
      then cmp_pars_are_invalid (cmp_par_exp_flags cfg) (spill_exp_flags cfg) mode else 0) +
     (if need_ncob needed_pars
      then cmp_pars_are_invalid (cmp_par_ncob cfg) (spill_ncob cfg) mode else 0) +
     (if need_efx needed_pars
      then cmp_pars_are_invalid (cmp_par_efx cfg) (spill_efx cfg) mode else 0) +
     (if need_ecob needed_pars
      then cmp_pars_are_invalid (cmp_par_ecob cfg) (spill_ecob cfg) mode else 0) +
     (if need_fx_cob_variance needed_pars
      then cmp_pars_are_invalid (cmp_par_fx_cob_variance cfg) (spill_fx_cob_variance cfg) mode
      else 0)))"

definition cmp_cfg_aux_is_invalid :: "cmp_cfg option \<Rightarrow> nat" where
  "cmp_cfg_aux_is_invalid cfg_p = (case cfg_p of None \<Rightarrow> 1 | Some cfg \<Rightarrow>
     (let mode = cmp_mode cfg;
          chk_offset =
            cmp_pars_are_invalid (cmp_par_offset_mean cfg) (spill_offset_mean cfg) mode +
            cmp_pars_are_invalid (cmp_par_offset_variance cfg) (spill_offset_variance cfg) mode;
          chk_background =
            cmp_pars_are_invalid (cmp_par_background_mean cfg) (spill_background_mean cfg) mode +
            cmp_pars_are_invalid (cmp_par_background_variance cfg) (spill_background_variance cfg) mode +
            cmp_pars_are_invalid (cmp_par_background_pixels_error cfg) (spill_background_pixels_error cfg) mode;
          chk_smearing =
            cmp_pars_are_invalid (cmp_par_smearing_mean cfg) (spill_smearing_mean cfg) mode +
            cmp_pars_are_invalid (cmp_par_smearing_variance cfg) (spill_smearing_variance cfg) mode +
            cmp_pars_are_invalid (cmp_par_smearing_pixels_error cfg) (spill_smearing_pixels_error cfg) mode
      in case data_type cfg of
        DATA_TYPE_OFFSET \<Rightarrow> chk_offset
      | DATA_TYPE_F_CAM_OFFSET \<Rightarrow> chk_offset
      | DATA_TYPE_BACKGROUND \<Rightarrow> chk_background
      | DATA_TYPE_F_CAM_BACKGROUND \<Rightarrow> chk_background
      | DATA_TYPE_SMEARING \<Rightarrow> chk_smearing
      | _ \<Rightarrow> 1))"

section \<open>Logarithm and powers of two\<close>

lemma clz_from_spec:
  "k < n \<Longrightarrow> bit x k \<Longrightarrow>
     clz_from n x < n \<and> bit x (n - 1 - clz_from n x) \<and>
     (\<forall>j. n - 1 - clz_from n x < j \<and> j < n \<longrightarrow> \<not> bit x j)"
proof (induction n)
  case (Suc n)
  show ?case
  proof (cases "bit x n")
    case False
    with Suc.prems have "k < n" by (auto simp: less_Suc_eq)
    from Suc.IH [OF this Suc.prems(2)] False show ?thesis
      by (auto simp: less_Suc_eq Suc_diff_le)
  qed auto
qed simp

lemma clz_bounds:
  fixes x :: "'a::len word"
  assumes "x \<noteq> 0"
  shows "clz x < LENGTH('a)" and "2 ^ (LENGTH('a) - 1 - clz x) \<le> unat x"
    and "unat x < 2 ^ (LENGTH('a) - clz x)"
proof -
  obtain k where k: "k < LENGTH('a)" "bit x k"
    using assms by (metis bit_0_eq bit_imp_le_length bit_word_eqI bot_apply bot_bool_def)
  note spec = clz_from_spec [OF k]
  show lt: "clz x < LENGTH('a)" using spec by (simp add: clz_def)
  have "bit x (LENGTH('a) - 1 - clz x)" using spec by (simp add: clz_def)
  then show "2 ^ (LENGTH('a) - 1 - clz x) \<le> unat x"
    using unat_less_iff_bits [of x "LENGTH('a) - 1 - clz x"] by (auto simp: not_less [symmetric])
  have "\<not> bit x j" if "LENGTH('a) - clz x \<le> j" for j
  proof (cases "j < LENGTH('a)")
    case True
    then show ?thesis using spec lt that by (auto simp: clz_def)
  qed (auto dest: bit_imp_le_length)
  then show "unat x < 2 ^ (LENGTH('a) - clz x)"
    unfolding unat_less_iff_bits by blast
qed

text \<open>The exponent \<open>ilog_2\<close> computes, as a natural number.\<close>

definition ilog :: "u32 \<Rightarrow> nat" where
  "ilog x = unat (ilog_2 x)"

lemma ilog_eq: "x \<noteq> 0 \<Longrightarrow> ilog x = 31 - clz x"
proof -
  assume "x \<noteq> 0"
  then have "clz x < 32" using clz_bounds(1) [of x] by simp
  then show ?thesis using \<open>x \<noteq> 0\<close>
    by (simp add: ilog_def ilog_2_def unat_sub word_le_nat_alt unat_of_nat take_bit_nat_eq_self)
qed

lemma ilog_le: "x \<noteq> 0 \<Longrightarrow> ilog x \<le> 31"
  by (simp add: ilog_eq)

lemma ilog_lower: "x \<noteq> 0 \<Longrightarrow> 2 ^ ilog x \<le> unat x"
  using clz_bounds(2) [of x] by (simp add: ilog_eq)

lemma ilog_upper: "x \<noteq> 0 \<Longrightarrow> unat x < 2 ^ (ilog x + 1)"
  using clz_bounds(1,3) [of x] by (simp add: ilog_eq Suc_diff_le flip: Suc_diff_le)

lemma ilog_less: "x \<noteq> 0 \<Longrightarrow> unat x < 2 ^ n \<Longrightarrow> ilog x < n"
proof -
  assume "x \<noteq> 0" "unat x < 2 ^ n"
  then have "2 ^ ilog x < (2 ^ n :: nat)" using ilog_lower [of x] by linarith
  then show ?thesis by (rule power_less_imp_less_exp [rotated]) simp
qed

lemma ilog_unique:
  assumes "2 ^ n \<le> unat x" and "unat x < 2 ^ (n + 1)"
  shows "ilog x = n"
proof -
  have nz: "x \<noteq> 0" using assms(1) by (auto intro: ccontr)
  have "ilog x < n + 1" using ilog_less [OF nz assms(2)] .
  moreover have "2 ^ n < (2 ^ (ilog x + 1) :: nat)" using assms(1) ilog_upper [OF nz] by linarith
  then have "n < ilog x + 1" by (rule power_less_imp_less_exp [rotated]) simp
  ultimately show ?thesis by simp
qed

lemma is_a_pow_of_2_iff:
  assumes "x \<noteq> 0"
  shows "is_a_pow_of_2 x \<longleftrightarrow> unat x = 2 ^ ilog x"
proof
  let ?b = "ilog x"
  have top: "bit y ?b \<longleftrightarrow> 2 ^ ?b \<le> unat y" if "unat y < 2 ^ (?b + 1)" for y :: u32
    using that ilog_unique [of ?b y] clz_bounds unat_less_iff_bits [of y ?b]
      unat_less_iff_bits [of y "?b + 1"]
    by (metis Suc_eq_plus1 le_antisym not_less not_less_eq_eq)
  have pred: "unat (x - 1) = unat x - 1"
    using assms by (simp add: unat_minus_one)
  show "unat x = 2 ^ ?b" if "is_a_pow_of_2 x"
  proof (rule ccontr)
    assume "unat x \<noteq> 2 ^ ?b"
    then have "2 ^ ?b \<le> unat (x - 1)" "unat (x - 1) < 2 ^ (?b + 1)"
      using ilog_lower [OF assms] ilog_upper [OF assms] pred by auto
    then have "bit (x - 1) ?b" "bit x ?b"
      using top ilog_lower [OF assms] ilog_upper [OF assms] by auto
    then have "bit (x AND (x - 1)) ?b" by (simp add: bit_and_iff)
    then show False using that by (simp add: is_a_pow_of_2_def)
  qed
  show "is_a_pow_of_2 x" if eq: "unat x = 2 ^ ?b"
  proof -
    have "unat (x - 1) < 2 ^ ?b" using pred eq by simp
    then have low: "\<not> bit (x - 1) k" if "?b \<le> k" for k
      using that unat_less_iff_bits by blast
    have "x = word_of_nat (2 ^ ?b)" by (simp flip: eq)
    then have "x = 2 ^ ?b" by (simp only: of_nat_power of_nat_numeral)
    then have "bit x k \<Longrightarrow> k = ?b" for k by (metis bit_exp_iff)
    with low show ?thesis
      unfolding is_a_pow_of_2_def by (intro bit_word_eqI) (auto simp: bit_and_iff)
  qed
qed

section \<open>The largest spillover threshold\<close>

text \<open>The threshold over the natural numbers: no intermediate step wraps around.\<close>

lemma shift_two_ilog:
  assumes "x \<noteq> 0" and "unat x \<le> 65535"
  shows "unat (push_bit (ilog x) (2 :: u32) - x) = 2 ^ (ilog x + 1) - unat x"
    and "unat (push_bit (ilog x) (2 :: u32)) = 2 ^ (ilog x + 1)"
proof -
  have "ilog x < 16" using ilog_less [of x 16] assms by simp
  then have "(2::nat) ^ ilog x \<le> 2 ^ 15" by (intro power_increasing) auto
  then show eq: "unat (push_bit (ilog x) (2 :: u32)) = 2 ^ (ilog x + 1)"
    by (subst unat_push_bit) auto
  have "unat x \<le> 2 ^ (ilog x + 1)" using ilog_upper [OF assms(1)] by simp
  then show "unat (push_bit (ilog x) (2 :: u32) - x) = 2 ^ (ilog x + 1) - unat x"
    by (subst unat_sub) (simp_all add: word_le_nat_alt eq)
qed

lemma ilog_16: "x \<noteq> 0 \<Longrightarrow> unat x \<le> 65535 \<Longrightarrow> ilog x \<le> 15"
  using ilog_less [of x 16] by simp

lemma cmp_icu_max_spill_0: "cmp_icu_max_spill x = 0" if "x = 0 \<or> unat x > 65535"
  using that by (auto simp: cmp_icu_max_spill_def limits word_less_nat_alt Let_def)

lemma unat_cmp_icu_max_spill:
  assumes "x \<noteq> 0" and "unat x \<le> 65535"
  shows "unat (cmp_icu_max_spill x) =
    (31 - ilog x) * unat x + (2 ^ (ilog x + 1) - unat x) - 16"
proof -
  let ?b = "ilog x" and ?c = "push_bit (ilog x) (2 :: u32) - x"
  have b: "?b \<le> 15" using ilog_16 assms by blast
  have mask: "unat (ilog_2 x AND 0x1F) = ?b"
  proof -
    have "ilog_2 x AND 0x1F = take_bit 5 (ilog_2 x)"
      by (simp add: take_bit_eq_mask mask_numeral)
    then show ?thesis using b
      by (simp add: unsigned_take_bit_eq ilog_def take_bit_nat_eq_self)
  qed
  have k: "unat (31 - ilog_2 x) = 31 - ?b"
    using b by (subst unat_sub) (simp_all add: word_le_nat_alt ilog_def)
  have c: "unat ?c = 2 ^ (?b + 1) - unat x" using shift_two_ilog assms by blast
  have pow: "(2::nat) ^ (?b + 1) \<le> 2 ^ 16" using b by (intro power_increasing) auto
  have le: "(31 - ?b) * unat x \<le> 31 * 65535" using assms(2) by (intro mult_le_mono) auto
  then have prod: "unat ((31 - ilog_2 x) * x) = (31 - ?b) * unat x"
    by (subst unat_mult_lem [THEN iffD1]) (simp_all add: k)
  have sum: "unat ((31 - ilog_2 x) * x + ?c) = (31 - ?b) * unat x + (2 ^ (?b + 1) - unat x)"
    using le pow by (subst unat_add_lem [THEN iffD1]) (simp_all add: prod c)
  have "16 * 1 \<le> (31 - ?b) * unat x"
    using b assms(1) by (intro mult_le_mono) (auto simp: Suc_leI unat_gt_0)
  then have "unat ((31 - ilog_2 x) * x + ?c - 15 - 1) =
      (31 - ?b) * unat x + (2 ^ (?b + 1) - unat x) - 16"
    by (simp add: unat_sub word_le_nat_alt sum)
  moreover have "cmp_icu_max_spill x = (31 - ilog_2 x) * x + ?c - 15 - 1"
    using assms by (simp add: cmp_icu_max_spill_def limits mask Let_def word_less_nat_alt)
  ultimately show ?thesis by simp
qed

lemma cmp_icu_max_spill_less: "unat (cmp_icu_max_spill x) < 2 ^ 22"
proof (cases "x = 0 \<or> unat x > 65535")
  case True
  then show ?thesis using cmp_icu_max_spill_0 [of x] by simp
next
  case False
  then have b: "ilog x \<le> 15" using ilog_16 by auto
  have "(31 - ilog x) * unat x \<le> 31 * 65535" using False by (intro mult_le_mono) auto
  moreover have "(2::nat) ^ (ilog x + 1) \<le> 2 ^ 16" using b by (intro power_increasing) auto
  ultimately show ?thesis using unat_cmp_icu_max_spill [of x] False by simp
qed

text \<open>What the parameter checks guarantee of a pair of parameters.\<close>

definition valid_pars :: "u32 \<Rightarrow> u32 \<Rightarrow> bool" where
  "valid_pars cmp_par spill \<longleftrightarrow> 1 \<le> unat cmp_par \<and> unat cmp_par \<le> 65535 \<and>
     2 \<le> unat spill \<and> unat spill \<le> unat (cmp_icu_max_spill cmp_par)"

lemma cmp_pars_are_invalid_0_iff:
  "cmp_pars_are_invalid cmp_par spill mode = 0 \<longleftrightarrow>
     mode = CMP_MODE_RAW \<or>
     (zero_escape_mech_is_used mode \<or> multi_escape_mech_is_used mode) \<and> valid_pars cmp_par spill"
  by (cases mode)
    (auto simp: cmp_pars_are_invalid_def valid_pars_def zero_escape_mech_is_used_def
      multi_escape_mech_is_used_def limits word_less_nat_alt not_less split: if_splits)

end
