(* ===== verification/Data_Types.thy ===== *)
theory Data_Types
  imports Cmp_Support
begin

text \<open>
  The entries of the science data products and their types (\<open>lib/common/cmp_data_types.h\<close>,
  \<open>cmp_data_types.c\<close>): the packed structures, the size of a sample, the subservice of a
  collection and the data type it stands for.

  The fields of a structure carry its name as a prefix. The 24-bit field of the long cadence
  structures is a 24-bit word.
\<close>

section \<open>Structures\<close>

type_synonym u24 = "24 word"

record s_fx =
  s_fx_exp_flags :: u8
  s_fx_fx :: u32

record s_fx_efx =
  s_fx_efx_exp_flags :: u8
  s_fx_efx_fx :: u32
  s_fx_efx_efx :: u32

record s_fx_ncob =
  s_fx_ncob_exp_flags :: u8
  s_fx_ncob_fx :: u32
  s_fx_ncob_ncob_x :: u32
  s_fx_ncob_ncob_y :: u32

record s_fx_efx_ncob_ecob =
  s_fx_efx_ncob_ecob_exp_flags :: u8
  s_fx_efx_ncob_ecob_fx :: u32
  s_fx_efx_ncob_ecob_ncob_x :: u32
  s_fx_efx_ncob_ecob_ncob_y :: u32
  s_fx_efx_ncob_ecob_efx :: u32
  s_fx_efx_ncob_ecob_ecob_x :: u32
  s_fx_efx_ncob_ecob_ecob_y :: u32

record f_fx =
  f_fx_fx :: u32

record f_fx_efx =
  f_fx_efx_fx :: u32
  f_fx_efx_efx :: u32

record f_fx_ncob =
  f_fx_ncob_fx :: u32
  f_fx_ncob_ncob_x :: u32
  f_fx_ncob_ncob_y :: u32

record f_fx_efx_ncob_ecob =
  f_fx_efx_ncob_ecob_fx :: u32
  f_fx_efx_ncob_ecob_ncob_x :: u32
  f_fx_efx_ncob_ecob_ncob_y :: u32
  f_fx_efx_ncob_ecob_efx :: u32
  f_fx_efx_ncob_ecob_ecob_x :: u32
  f_fx_efx_ncob_ecob_ecob_y :: u32

record l_fx =
  l_fx_exp_flags :: u24
  l_fx_fx :: u32
  l_fx_fx_variance :: u32

record l_fx_efx =
  l_fx_efx_exp_flags :: u24
  l_fx_efx_fx :: u32
  l_fx_efx_efx :: u32
  l_fx_efx_fx_variance :: u32

record l_fx_ncob =
  l_fx_ncob_exp_flags :: u24
  l_fx_ncob_fx :: u32
  l_fx_ncob_ncob_x :: u32
  l_fx_ncob_ncob_y :: u32
  l_fx_ncob_fx_variance :: u32
  l_fx_ncob_cob_x_variance :: u32
  l_fx_ncob_cob_y_variance :: u32

record l_fx_efx_ncob_ecob =
  l_fx_efx_ncob_ecob_exp_flags :: u24
  l_fx_efx_ncob_ecob_fx :: u32
  l_fx_efx_ncob_ecob_ncob_x :: u32
  l_fx_efx_ncob_ecob_ncob_y :: u32
  l_fx_efx_ncob_ecob_efx :: u32
  l_fx_efx_ncob_ecob_ecob_x :: u32
  l_fx_efx_ncob_ecob_ecob_y :: u32
  l_fx_efx_ncob_ecob_fx_variance :: u32
  l_fx_efx_ncob_ecob_cob_x_variance :: u32
  l_fx_efx_ncob_ecob_cob_y_variance :: u32

record offset_entry =
  off_mean :: u32
  off_variance :: u32

record background_entry =
  bkg_mean :: u32
  bkg_variance :: u32
  bkg_outlier_pixels :: u16

record smearing_entry =
  smr_mean :: u32
  smr_variance_mean :: u32
  smr_outlier_pixels :: u16

section \<open>Subservices\<close>

text \<open>The subservice types of the services 212 and 228.\<close>

definition SST_NCxx_S_SCIENCE_IMAGETTE :: u8 where "SST_NCxx_S_SCIENCE_IMAGETTE = 3"
definition SST_NCxx_S_SCIENCE_SAT_IMAGETTE :: u8 where "SST_NCxx_S_SCIENCE_SAT_IMAGETTE = 4"
definition SST_NCxx_S_SCIENCE_OFFSET :: u8 where "SST_NCxx_S_SCIENCE_OFFSET = 5"
definition SST_NCxx_S_SCIENCE_BACKGROUND :: u8 where "SST_NCxx_S_SCIENCE_BACKGROUND = 6"
definition SST_NCxx_S_SCIENCE_SMEARING :: u8 where "SST_NCxx_S_SCIENCE_SMEARING = 7"
definition SST_NCxx_S_SCIENCE_S_FX :: u8 where "SST_NCxx_S_SCIENCE_S_FX = 9"
definition SST_NCxx_S_SCIENCE_S_FX_EFX :: u8 where "SST_NCxx_S_SCIENCE_S_FX_EFX = 10"
definition SST_NCxx_S_SCIENCE_S_FX_NCOB :: u8 where "SST_NCxx_S_SCIENCE_S_FX_NCOB = 11"
definition SST_NCxx_S_SCIENCE_S_FX_EFX_NCOB_ECOB :: u8 where "SST_NCxx_S_SCIENCE_S_FX_EFX_NCOB_ECOB = 12"
definition SST_NCxx_S_SCIENCE_L_FX :: u8 where "SST_NCxx_S_SCIENCE_L_FX = 13"
definition SST_NCxx_S_SCIENCE_L_FX_EFX :: u8 where "SST_NCxx_S_SCIENCE_L_FX_EFX = 14"
definition SST_NCxx_S_SCIENCE_L_FX_NCOB :: u8 where "SST_NCxx_S_SCIENCE_L_FX_NCOB = 15"
definition SST_NCxx_S_SCIENCE_L_FX_EFX_NCOB_ECOB :: u8 where "SST_NCxx_S_SCIENCE_L_FX_EFX_NCOB_ECOB = 16"
definition SST_NCxx_S_SCIENCE_F_FX :: u8 where "SST_NCxx_S_SCIENCE_F_FX = 17"
definition SST_NCxx_S_SCIENCE_F_FX_EFX :: u8 where "SST_NCxx_S_SCIENCE_F_FX_EFX = 18"
definition SST_NCxx_S_SCIENCE_F_FX_NCOB :: u8 where "SST_NCxx_S_SCIENCE_F_FX_NCOB = 19"
definition SST_NCxx_S_SCIENCE_F_FX_EFX_NCOB_ECOB :: u8 where "SST_NCxx_S_SCIENCE_F_FX_EFX_NCOB_ECOB = 20"
definition SST_FCx_S_SCIENCE_IMAGETTE :: u8 where "SST_FCx_S_SCIENCE_IMAGETTE = 1"
definition SST_FCx_S_SCIENCE_OFFSET_VALUES :: u8 where "SST_FCx_S_SCIENCE_OFFSET_VALUES = 2"
definition SST_FCx_S_BACKGROUND_VALUES :: u8 where "SST_FCx_S_BACKGROUND_VALUES = 25"

named_theorems sst \<open>the numbers of the subservices\<close>

lemmas sst_defs [sst] =
  SST_NCxx_S_SCIENCE_IMAGETTE_def
  SST_NCxx_S_SCIENCE_SAT_IMAGETTE_def
  SST_NCxx_S_SCIENCE_OFFSET_def
  SST_NCxx_S_SCIENCE_BACKGROUND_def
  SST_NCxx_S_SCIENCE_SMEARING_def
  SST_NCxx_S_SCIENCE_S_FX_def
  SST_NCxx_S_SCIENCE_S_FX_EFX_def
  SST_NCxx_S_SCIENCE_S_FX_NCOB_def
  SST_NCxx_S_SCIENCE_S_FX_EFX_NCOB_ECOB_def
  SST_NCxx_S_SCIENCE_L_FX_def
  SST_NCxx_S_SCIENCE_L_FX_EFX_def
  SST_NCxx_S_SCIENCE_L_FX_NCOB_def
  SST_NCxx_S_SCIENCE_L_FX_EFX_NCOB_ECOB_def
  SST_NCxx_S_SCIENCE_F_FX_def
  SST_NCxx_S_SCIENCE_F_FX_EFX_def
  SST_NCxx_S_SCIENCE_F_FX_NCOB_def
  SST_NCxx_S_SCIENCE_F_FX_EFX_NCOB_ECOB_def
  SST_FCx_S_SCIENCE_IMAGETTE_def
  SST_FCx_S_SCIENCE_OFFSET_VALUES_def
  SST_FCx_S_BACKGROUND_VALUES_def

definition convert_subservice_to_cmp_data_type :: "u8 \<Rightarrow> cmp_data_type" where
  "convert_subservice_to_cmp_data_type subservice =
     (if subservice = SST_NCxx_S_SCIENCE_IMAGETTE then DATA_TYPE_IMAGETTE else
      if subservice = SST_NCxx_S_SCIENCE_SAT_IMAGETTE then DATA_TYPE_SAT_IMAGETTE else
      if subservice = SST_NCxx_S_SCIENCE_OFFSET then DATA_TYPE_OFFSET else
      if subservice = SST_NCxx_S_SCIENCE_BACKGROUND then DATA_TYPE_BACKGROUND else
      if subservice = SST_NCxx_S_SCIENCE_SMEARING then DATA_TYPE_SMEARING else
      if subservice = SST_NCxx_S_SCIENCE_S_FX then DATA_TYPE_S_FX else
      if subservice = SST_NCxx_S_SCIENCE_S_FX_EFX then DATA_TYPE_S_FX_EFX else
      if subservice = SST_NCxx_S_SCIENCE_S_FX_NCOB then DATA_TYPE_S_FX_NCOB else
      if subservice = SST_NCxx_S_SCIENCE_S_FX_EFX_NCOB_ECOB then DATA_TYPE_S_FX_EFX_NCOB_ECOB else
      if subservice = SST_NCxx_S_SCIENCE_L_FX then DATA_TYPE_L_FX else
      if subservice = SST_NCxx_S_SCIENCE_L_FX_EFX then DATA_TYPE_L_FX_EFX else
      if subservice = SST_NCxx_S_SCIENCE_L_FX_NCOB then DATA_TYPE_L_FX_NCOB else
      if subservice = SST_NCxx_S_SCIENCE_L_FX_EFX_NCOB_ECOB then DATA_TYPE_L_FX_EFX_NCOB_ECOB else
      if subservice = SST_NCxx_S_SCIENCE_F_FX then DATA_TYPE_F_FX else
      if subservice = SST_NCxx_S_SCIENCE_F_FX_EFX then DATA_TYPE_F_FX_EFX else
      if subservice = SST_NCxx_S_SCIENCE_F_FX_NCOB then DATA_TYPE_F_FX_NCOB else
      if subservice = SST_NCxx_S_SCIENCE_F_FX_EFX_NCOB_ECOB then DATA_TYPE_F_FX_EFX_NCOB_ECOB else
      if subservice = SST_FCx_S_SCIENCE_IMAGETTE then DATA_TYPE_F_CAM_IMAGETTE else
      if subservice = SST_FCx_S_SCIENCE_OFFSET_VALUES then DATA_TYPE_F_CAM_OFFSET else
      if subservice = SST_FCx_S_BACKGROUND_VALUES then DATA_TYPE_F_CAM_BACKGROUND else
      DATA_TYPE_UNKNOWN)"

fun convert_cmp_data_type_to_subservice :: "cmp_data_type \<Rightarrow> u8" where
  "convert_cmp_data_type_to_subservice DATA_TYPE_IMAGETTE = SST_NCxx_S_SCIENCE_IMAGETTE"
| "convert_cmp_data_type_to_subservice DATA_TYPE_IMAGETTE_ADAPTIVE = SST_NCxx_S_SCIENCE_IMAGETTE"
| "convert_cmp_data_type_to_subservice DATA_TYPE_SAT_IMAGETTE = SST_NCxx_S_SCIENCE_SAT_IMAGETTE"
| "convert_cmp_data_type_to_subservice DATA_TYPE_SAT_IMAGETTE_ADAPTIVE = SST_NCxx_S_SCIENCE_SAT_IMAGETTE"
| "convert_cmp_data_type_to_subservice DATA_TYPE_OFFSET = SST_NCxx_S_SCIENCE_OFFSET"
| "convert_cmp_data_type_to_subservice DATA_TYPE_BACKGROUND = SST_NCxx_S_SCIENCE_BACKGROUND"
| "convert_cmp_data_type_to_subservice DATA_TYPE_SMEARING = SST_NCxx_S_SCIENCE_SMEARING"
| "convert_cmp_data_type_to_subservice DATA_TYPE_S_FX = SST_NCxx_S_SCIENCE_S_FX"
| "convert_cmp_data_type_to_subservice DATA_TYPE_S_FX_EFX = SST_NCxx_S_SCIENCE_S_FX_EFX"
| "convert_cmp_data_type_to_subservice DATA_TYPE_S_FX_NCOB = SST_NCxx_S_SCIENCE_S_FX_NCOB"
| "convert_cmp_data_type_to_subservice DATA_TYPE_S_FX_EFX_NCOB_ECOB = SST_NCxx_S_SCIENCE_S_FX_EFX_NCOB_ECOB"
| "convert_cmp_data_type_to_subservice DATA_TYPE_L_FX = SST_NCxx_S_SCIENCE_L_FX"
| "convert_cmp_data_type_to_subservice DATA_TYPE_L_FX_EFX = SST_NCxx_S_SCIENCE_L_FX_EFX"
| "convert_cmp_data_type_to_subservice DATA_TYPE_L_FX_NCOB = SST_NCxx_S_SCIENCE_L_FX_NCOB"
| "convert_cmp_data_type_to_subservice DATA_TYPE_L_FX_EFX_NCOB_ECOB = SST_NCxx_S_SCIENCE_L_FX_EFX_NCOB_ECOB"
| "convert_cmp_data_type_to_subservice DATA_TYPE_F_FX = SST_NCxx_S_SCIENCE_F_FX"
| "convert_cmp_data_type_to_subservice DATA_TYPE_F_FX_EFX = SST_NCxx_S_SCIENCE_F_FX_EFX"
| "convert_cmp_data_type_to_subservice DATA_TYPE_F_FX_NCOB = SST_NCxx_S_SCIENCE_F_FX_NCOB"
| "convert_cmp_data_type_to_subservice DATA_TYPE_F_FX_EFX_NCOB_ECOB = SST_NCxx_S_SCIENCE_F_FX_EFX_NCOB_ECOB"
| "convert_cmp_data_type_to_subservice DATA_TYPE_F_CAM_IMAGETTE = SST_FCx_S_SCIENCE_IMAGETTE"
| "convert_cmp_data_type_to_subservice DATA_TYPE_F_CAM_IMAGETTE_ADAPTIVE = SST_FCx_S_SCIENCE_IMAGETTE"
| "convert_cmp_data_type_to_subservice DATA_TYPE_F_CAM_OFFSET = SST_FCx_S_SCIENCE_OFFSET_VALUES"
| "convert_cmp_data_type_to_subservice DATA_TYPE_F_CAM_BACKGROUND = SST_FCx_S_BACKGROUND_VALUES"
| "convert_cmp_data_type_to_subservice DATA_TYPE_UNKNOWN = - 1"
| "convert_cmp_data_type_to_subservice DATA_TYPE_CHUNK = - 1"
| "convert_cmp_data_type_to_subservice (DATA_TYPE_OTHER n) = - 1"

section \<open>Sizes\<close>

text \<open>The sizes of the fields of a sample in bytes, in the order of the packed structure.\<close>

fun sample_layout :: "cmp_data_type \<Rightarrow> nat list" where
  "sample_layout DATA_TYPE_IMAGETTE = [2]"
| "sample_layout DATA_TYPE_IMAGETTE_ADAPTIVE = [2]"
| "sample_layout DATA_TYPE_SAT_IMAGETTE = [2]"
| "sample_layout DATA_TYPE_SAT_IMAGETTE_ADAPTIVE = [2]"
| "sample_layout DATA_TYPE_F_CAM_IMAGETTE = [2]"
| "sample_layout DATA_TYPE_F_CAM_IMAGETTE_ADAPTIVE = [2]"
| "sample_layout DATA_TYPE_OFFSET = [4, 4]"
| "sample_layout DATA_TYPE_F_CAM_OFFSET = [4, 4]"
| "sample_layout DATA_TYPE_BACKGROUND = [4, 4, 2]"
| "sample_layout DATA_TYPE_F_CAM_BACKGROUND = [4, 4, 2]"
| "sample_layout DATA_TYPE_SMEARING = [4, 4, 2]"
| "sample_layout DATA_TYPE_S_FX = [1, 4]"
| "sample_layout DATA_TYPE_S_FX_EFX = [1, 4, 4]"
| "sample_layout DATA_TYPE_S_FX_NCOB = [1, 4, 4, 4]"
| "sample_layout DATA_TYPE_S_FX_EFX_NCOB_ECOB = [1, 4, 4, 4, 4, 4, 4]"
| "sample_layout DATA_TYPE_L_FX = [3, 4, 4]"
| "sample_layout DATA_TYPE_L_FX_EFX = [3, 4, 4, 4]"
| "sample_layout DATA_TYPE_L_FX_NCOB = [3, 4, 4, 4, 4, 4, 4]"
| "sample_layout DATA_TYPE_L_FX_EFX_NCOB_ECOB = [3, 4, 4, 4, 4, 4, 4, 4, 4, 4]"
| "sample_layout DATA_TYPE_F_FX = [4]"
| "sample_layout DATA_TYPE_F_FX_EFX = [4, 4]"
| "sample_layout DATA_TYPE_F_FX_NCOB = [4, 4, 4]"
| "sample_layout DATA_TYPE_F_FX_EFX_NCOB_ECOB = [4, 4, 4, 4, 4, 4]"
| "sample_layout DATA_TYPE_CHUNK = []"
| "sample_layout DATA_TYPE_UNKNOWN = []"
| "sample_layout (DATA_TYPE_OTHER n) = []"

definition size_of_a_sample :: "cmp_data_type \<Rightarrow> nat" where
  "size_of_a_sample t = sum_list (sample_layout t)"

text \<open>
  A data type that a subservice stands for gives the subservice back; an adaptive imagette type
  has the subservice of the type without adaption.
\<close>

lemma subservice_data_type:
  "convert_subservice_to_cmp_data_type s \<noteq> DATA_TYPE_UNKNOWN \<Longrightarrow>
     convert_cmp_data_type_to_subservice (convert_subservice_to_cmp_data_type s) = s"
  by (simp add: convert_subservice_to_cmp_data_type_def split: if_splits)

lemma subservice_unknown_iff:
  "convert_subservice_to_cmp_data_type s = DATA_TYPE_UNKNOWN \<longleftrightarrow>
     s \<notin> {1, 2, 3, 4, 5, 6, 7, 9, 10, 11, 12, 13, 14, 15, 16, 17, 18, 19, 20, 25}"
  by (simp add: convert_subservice_to_cmp_data_type_def sst)

lemma subservice_none_iff:
  "convert_cmp_data_type_to_subservice t = 0xFF \<longleftrightarrow> t = DATA_TYPE_CHUNK \<or> cmp_data_type_is_invalid t"
  by (cases t) (simp_all add: cmp_data_type_is_invalid_def sst)

lemma subservice_data_types:
  "convert_subservice_to_cmp_data_type 3 = DATA_TYPE_IMAGETTE"
  "convert_subservice_to_cmp_data_type 4 = DATA_TYPE_SAT_IMAGETTE"
  "convert_subservice_to_cmp_data_type 5 = DATA_TYPE_OFFSET"
  "convert_subservice_to_cmp_data_type 6 = DATA_TYPE_BACKGROUND"
  "convert_subservice_to_cmp_data_type 7 = DATA_TYPE_SMEARING"
  "convert_subservice_to_cmp_data_type 9 = DATA_TYPE_S_FX"
  "convert_subservice_to_cmp_data_type 10 = DATA_TYPE_S_FX_EFX"
  "convert_subservice_to_cmp_data_type 11 = DATA_TYPE_S_FX_NCOB"
  "convert_subservice_to_cmp_data_type 12 = DATA_TYPE_S_FX_EFX_NCOB_ECOB"
  "convert_subservice_to_cmp_data_type 13 = DATA_TYPE_L_FX"
  "convert_subservice_to_cmp_data_type 14 = DATA_TYPE_L_FX_EFX"
  "convert_subservice_to_cmp_data_type 15 = DATA_TYPE_L_FX_NCOB"
  "convert_subservice_to_cmp_data_type 16 = DATA_TYPE_L_FX_EFX_NCOB_ECOB"
  "convert_subservice_to_cmp_data_type 17 = DATA_TYPE_F_FX"
  "convert_subservice_to_cmp_data_type 18 = DATA_TYPE_F_FX_EFX"
  "convert_subservice_to_cmp_data_type 19 = DATA_TYPE_F_FX_NCOB"
  "convert_subservice_to_cmp_data_type 20 = DATA_TYPE_F_FX_EFX_NCOB_ECOB"
  "convert_subservice_to_cmp_data_type 1 = DATA_TYPE_F_CAM_IMAGETTE"
  "convert_subservice_to_cmp_data_type 2 = DATA_TYPE_F_CAM_OFFSET"
  "convert_subservice_to_cmp_data_type 25 = DATA_TYPE_F_CAM_BACKGROUND"
  by (simp_all add: convert_subservice_to_cmp_data_type_def sst)

lemma size_of_a_sample_0_iff:
  "size_of_a_sample t = 0 \<longleftrightarrow> t = DATA_TYPE_CHUNK \<or> cmp_data_type_is_invalid t"
  by (cases t) (simp_all add: size_of_a_sample_def cmp_data_type_is_invalid_def)

lemma size_of_a_sample_le: "size_of_a_sample t \<le> 39"
  by (cases t) (simp_all add: size_of_a_sample_def)

end
