(* ===== verification/Codewords.thy ===== *)
theory Codewords
  imports Cmp_Support
begin

text \<open>
  The Rice and Golomb code word generators of \<open>lib/icu_compress/cmp_icu.c\<close>, and the textbook
  Golomb code they implement: the quotient in unary, ended by a zero, and the remainder in
  truncated binary.
\<close>

section \<open>The encoders\<close>

text \<open>A pair of the code word length (the return value) and the code word (stored at \<open>*cw\<close>).\<close>

definition rice_encoder :: "u32 \<Rightarrow> u32 \<Rightarrow> u32 \<Rightarrow> u32 \<times> u32" where
  "rice_encoder value m log2_m =
     (let q = drop_bit (unat log2_m) value;
          qc = push_bit (unat q) 1 - 1;
          r = value AND (m - 1);
          rl = log2_m + 1
      in (rl + q, push_bit (unat (rl AND 0x1F)) qc OR r))"

definition golomb_encoder :: "u32 \<Rightarrow> u32 \<Rightarrow> u32 \<Rightarrow> u32 \<times> u32" where
  "golomb_encoder value m log2_m =
     (let len = log2_m + 1;
          cutoff = push_bit (unat log2_m) 0x2 - m
      in if value < cutoff then (len, value)
         else
           let reg_mask = 0x1F;
               g = (value - cutoff) div m;
               r = (value - cutoff) - g * m;
               gc = push_bit (unat (g AND reg_mask)) 1 - 1;
               b = push_bit 1 cutoff;
               cw = push_bit (unat ((len + 1) AND reg_mask)) gc;
               cw = cw + (b + r);
               len = len + (1 + g)
           in (len, cw))"

section \<open>The reference code\<close>

definition golomb_cutoff :: "u32 \<Rightarrow> nat" where
  "golomb_cutoff m = 2 ^ (ilog m + 1) - unat m"

definition truncated_binary :: "u32 \<Rightarrow> nat \<Rightarrow> bool list" where
  "truncated_binary m r =
     (if r < golomb_cutoff m then bits_msb (ilog m) r
      else bits_msb (ilog m + 1) (r + golomb_cutoff m))"

definition golomb_code :: "u32 \<Rightarrow> nat \<Rightarrow> bool list" where
  "golomb_code m v =
     replicate (v div unat m) True @ [False] @ truncated_binary m (v mod unat m)"

lemma cutoff_bounds:
  assumes "m \<noteq> 0"
  shows "golomb_cutoff m \<le> 2 ^ ilog m" and "golomb_cutoff m \<le> unat m"
    and "golomb_cutoff m + unat m = 2 ^ (ilog m + 1)" and "0 < golomb_cutoff m"
  using ilog_lower [OF assms] ilog_upper [OF assms] by (auto simp: golomb_cutoff_def)

lemma length_golomb_code:
  "length (golomb_code m v) = v div unat m + 1 + ilog m +
     (if v mod unat m < golomb_cutoff m then 0 else 1)"
  by (simp add: golomb_code_def truncated_binary_def)

text \<open>
  A value up to the largest threshold plus the fifteen further escape symbols has a code word
  of at most 32 bits.
\<close>

lemma golomb_code_le_32:
  assumes m: "m \<noteq> 0" "unat m \<le> 65535" and v: "v \<le> unat (cmp_icu_max_spill m) + 15"
  shows "length (golomb_code m v) \<le> 32"
proof -
  let ?b = "ilog m" and ?m = "unat m" and ?c = "golomb_cutoff m"
  have b: "?b \<le> 15" using ilog_16 m by blast
  have m1: "1 \<le> ?m" using m(1) by (simp add: Suc_leI unat_gt_0)
  have "16 * 1 \<le> (31 - ?b) * ?m" using b m1 by (intro mult_le_mono) auto
  moreover have "unat (cmp_icu_max_spill m) = (31 - ?b) * ?m + ?c - 16"
    using unat_cmp_icu_max_spill [OF m] by (simp add: golomb_cutoff_def)
  ultimately have v': "v < (31 - ?b) * ?m + ?c" using v cutoff_bounds(4) [OF m(1)] by linarith
  have cm: "?c \<le> ?m" by (rule cutoff_bounds(2) [OF m(1)])
  have split: "v = v div ?m * ?m + v mod ?m" by simp
  show ?thesis
  proof (cases "v mod ?m < ?c")
    case True
    have "v div ?m * ?m \<le> v" by simp
    then have "v div ?m * ?m < (31 - ?b) * ?m + ?m" using v' cm by linarith
    then have "v div ?m * ?m < (31 - ?b + 1) * ?m" by (simp only: distrib_right mult_1)
    then have "v div ?m < 31 - ?b + 1" using m1 by (simp only: mult_less_cancel2)
    then show ?thesis using True b by (simp add: length_golomb_code)
  next
    case False
    then have "v div ?m * ?m < (31 - ?b) * ?m" using v' split by linarith
    then have "v div ?m < 31 - ?b" by (simp only: mult_less_cancel2)
    then show ?thesis using False b by (simp add: length_golomb_code)
  qed
qed

lemma golomb_code_33:
  assumes m: "m \<noteq> 0" "unat m \<le> 65535"
  shows "length (golomb_code m (unat (cmp_icu_max_spill m) + 16)) = 33"
proof -
  let ?b = "ilog m" and ?m = "unat m" and ?c = "golomb_cutoff m"
  have b: "?b \<le> 15" using ilog_16 m by blast
  have m1: "1 \<le> ?m" using m(1) by (simp add: Suc_leI unat_gt_0)
  have "16 * 1 \<le> (31 - ?b) * ?m" using b m1 by (intro mult_le_mono) auto
  moreover have "unat (cmp_icu_max_spill m) = (31 - ?b) * ?m + ?c - 16"
    using unat_cmp_icu_max_spill [OF m] by (simp add: golomb_cutoff_def)
  ultimately have v: "unat (cmp_icu_max_spill m) + 16 = (31 - ?b) * ?m + ?c" by linarith
  show ?thesis
  proof (cases "?c < ?m")
    case True
    then have "((31 - ?b) * ?m + ?c) div ?m = 31 - ?b" "((31 - ?b) * ?m + ?c) mod ?m = ?c" by simp_all
    then show ?thesis using b unfolding v length_golomb_code by simp
  next
    case False
    then have "?c = ?m" using cutoff_bounds(2) [OF m(1)] by simp
    moreover have "32 - ?b = Suc (31 - ?b)" using b by simp
    ultimately have "(31 - ?b) * ?m + ?c = (32 - ?b) * ?m" by simp
    moreover have "0 < ?c" by (rule cutoff_bounds(4) [OF m(1)])
    ultimately show ?thesis using b m1 unfolding v length_golomb_code by simp
  qed
qed

section \<open>Bits of a unary prefix and a tail\<close>

lemma bits_msb_ones: "bits_msb g (2 ^ g - 1 :: nat) = replicate g True"
  unfolding mask_eq_exp_minus_1 [symmetric]
  by (rule nth_equalityI) (auto simp: nth_bits_msb bit_mask_iff)

lemma bits_msb_unary:
  fixes x :: nat
  assumes "x < 2 ^ k"
  shows "bits_msb (g + k) ((2 ^ g - 1) * 2 ^ k + x) = replicate g True @ bits_msb k x"
proof -
  let ?w = "(2 ^ g - 1) * 2 ^ k + x"
  have "drop_bit k ?w = 2 ^ g - 1" using assms by (simp add: drop_bit_eq_div)
  moreover have "take_bit k ?w = x" using assms by (simp add: take_bit_eq_mod)
  ultimately show ?thesis
    using bits_msb_append [of g k ?w] bits_msb_take_bit [of k k ?w] by (simp only: bits_msb_ones)
qed

lemma bits_msb_lead0:
  fixes x :: nat
  shows "x < 2 ^ k \<Longrightarrow> bits_msb (k + 1) x = False # bits_msb k x"
  by (simp add: bits_msb_Suc bit_iff_odd_drop_bit drop_bit_eq_div)

lemma bits_msb_lead10:
  fixes x :: nat
  assumes "x < 2 ^ k"
  shows "bits_msb (k + 2) (2 ^ (k + 1) + x) = True # False # bits_msb k x"
proof -
  have "bits_msb (1 + (k + 1)) ((2 ^ 1 - 1) * 2 ^ (k + 1) + x) = [True] @ bits_msb (k + 1) x"
    using assms by (subst bits_msb_unary) (auto simp: less_le_trans [OF assms])
  then show ?thesis using bits_msb_lead0 [OF assms] by (simp add: numeral_2_eq_2)
qed

lemma div_mod_intro:
  fixes q m a :: nat
  assumes "v = q * m + a" and "a < m"
  shows "v div m = q" and "v mod m = a"
  using assms by auto

text \<open>The two groups of code words, in the form in which the encoder builds them.\<close>

lemma golomb_code_group0:
  assumes "m \<noteq> 0" and "v < golomb_cutoff m"
  shows "golomb_code m v = bits_msb (ilog m + 1) v"
proof -
  have "v < unat m" "v < 2 ^ ilog m" using assms cutoff_bounds [OF assms(1)] by auto
  then show ?thesis using assms(2) bits_msb_lead0 [of v "ilog m"]
    by (simp add: golomb_code_def truncated_binary_def)
qed

lemma golomb_code_groups:
  assumes m: "m \<noteq> 0" and v: "golomb_cutoff m \<le> v"
  defines "g \<equiv> (v - golomb_cutoff m) div unat m" and "r \<equiv> (v - golomb_cutoff m) mod unat m"
  shows "golomb_code m v = replicate g True @ bits_msb (ilog m + 2) (2 * golomb_cutoff m + r)"
    and "2 * golomb_cutoff m + r < 2 ^ (ilog m + 2)"
proof -
  let ?b = "ilog m" and ?c = "golomb_cutoff m" and ?m = "unat m"
  note c = cutoff_bounds [OF m]
  have r: "r < ?m" using m by (simp add: r_def unat_gt_0)
  have "v - ?c = g * ?m + r" by (simp add: g_def r_def)
  then have v': "v = g * ?m + (r + ?c)" using v by simp
  show "2 * ?c + r < 2 ^ (?b + 2)" using r c(2,3) by simp
  show "golomb_code m v = replicate g True @ bits_msb (?b + 2) (2 * ?c + r)"
  proof (cases "r + ?c < ?m")
    case True
    have "2 * ?c + r < 2 ^ (?b + 1)" using True c(3) by simp
    then show ?thesis
      using div_mod_intro [OF v' True] bits_msb_lead0 [of "2 * ?c + r" "?b + 1"]
      by (simp add: golomb_code_def truncated_binary_def ac_simps mult_2_right)
  next
    case False
    let ?r = "r + ?c - ?m"
    have v'': "v = (g + 1) * ?m + ?r" using v' False by simp
    have rc: "?r < ?c" using r False by linarith
    have "2 * ?c + r = 2 ^ (?b + 1) + ?r" using False c(3) by simp
    moreover have "?r < 2 ^ ?b" using rc c(1) by simp
    moreover have "?r < ?m" using rc c(2) by simp
    ultimately show ?thesis
      using div_mod_intro [OF v''] rc bits_msb_lead10 [of ?r ?b]
      by (simp add: golomb_code_def truncated_binary_def replicate_append_same)
  qed
qed

section \<open>The generators compute the reference code\<close>

definition encodes :: "u32 \<times> u32 \<Rightarrow> bool list \<Rightarrow> bool" where
  "encodes lw code \<longleftrightarrow> unat (fst lw) = length code \<and> bits_msb (length code) (snd lw) = code"

lemma encodesI:
  assumes "code = xs" and "unat l = n" and "length xs = n" and "bits_msb n w = xs"
  shows "encodes (l, w) code"
  using assms by (simp add: encodes_def)

lemma unary_word:
  assumes "unat g < 32"
  shows "unat (push_bit (unat g) 1 - 1 :: u32) = 2 ^ unat g - 1"
proof -
  have "(2::nat) ^ unat g \<le> 2 ^ 31" using assms by (intro power_increasing) auto
  then have "unat (push_bit (unat g) (1 :: u32)) = 2 ^ unat g" by (subst unat_push_bit) simp_all
  then show ?thesis by (subst unat_minus_one) (auto simp flip: unat_eq_zero)
qed

text \<open>A unary prefix of \<open>g\<close> ones in front of a \<open>k\<close>-bit tail, in one 32-bit word.\<close>

lemma bits_msb_prefix_word:
  fixes g x :: u32
  assumes "unat g + k \<le> 32" and "0 < k" and x: "unat x < 2 ^ k"
  shows "bits_msb (unat g + k) (push_bit k (push_bit (unat g) 1 - 1) + x) =
    replicate (unat g) True @ bits_msb k x"
proof -
  let ?y = "push_bit k (push_bit (unat g) 1 - 1 :: u32)" and ?u = "(2 ^ unat g - 1) * 2 ^ k :: nat"
  have g: "unat g < 32" using assms(1,2) by simp
  have "?u + 2 ^ k = 2 ^ (unat g + k)" by (simp add: power_add diff_mult_distrib)
  also have "\<dots> \<le> 2 ^ 32" using assms(1) by (intro power_increasing) auto
  finally have pw: "?u + 2 ^ k \<le> 2 ^ 32" .
  then have "?u < 2 ^ 32" by (rule less_le_trans [rotated]) simp
  then have "unat (push_bit (unat g) 1 - 1 :: u32) * 2 ^ k < 2 ^ LENGTH(32)"
    unfolding unary_word [OF g] by simp
  then have y: "unat ?y = ?u" using unary_word [OF g] by (simp only: unat_push_bit)
  have "unat ?y + unat x < 2 ^ 32" unfolding y using pw x by linarith
  then have sum: "unat (?y + x) = ?u + unat x" by (simp only: unat_add_small y)
  have "bits_msb (unat g + k) (?y + x) = bits_msb (unat g + k) (?u + unat x)"
    unfolding sum [symmetric] bits_msb_unat ..
  also have "\<dots> = replicate (unat g) True @ bits_msb k (unat x)" by (rule bits_msb_unary [OF x])
  finally show ?thesis by (simp only: bits_msb_unat)
qed

lemma golomb_encoder_code:
  assumes m: "m \<noteq> 0" "unat m \<le> 65535" and len: "length (golomb_code m (unat v)) \<le> 32"
  shows "encodes (golomb_encoder v m (ilog_2 m)) (golomb_code m (unat v))"
proof -
  let ?b = "ilog m" and ?c = "golomb_cutoff m" and ?m = "unat m" and ?v = "unat v"
  let ?cw = "push_bit ?b 2 - m :: u32"
  have b: "?b \<le> 15" using ilog_16 m by blast
  have ub: "unat (ilog_2 m) = ?b" by (simp add: ilog_def)
  have cw: "unat ?cw = ?c" using shift_two_ilog(1) [OF m] by (simp add: golomb_cutoff_def)
  have l1: "unat (ilog_2 m + 1) = ?b + 1" using b ub by (subst unat_add_small) simp_all
  show ?thesis
  proof (cases "v < ?cw")
    case True
    then have "golomb_code m ?v = bits_msb (?b + 1) ?v"
      using golomb_code_group0 [OF m(1)] by (simp add: word_less_nat_alt cw)
    then show ?thesis using True l1
      by (simp add: encodes_def golomb_encoder_def Let_def ub bits_msb_unat)
  next
    case False
    define g where "g = (v - ?cw) div m"
    define r where "r = (v - ?cw) - g * m"
    let ?x = "2 * ?c + (?v - ?c) mod ?m"
    have ge: "?c \<le> ?v" using False by (simp add: word_less_nat_alt cw not_less)
    note code = golomb_code_groups [OF m(1) ge]
    have d: "unat (v - ?cw) = ?v - ?c" using ge cw by (subst unat_sub) (simp_all add: word_le_nat_alt)
    have g: "unat g = (?v - ?c) div ?m" by (simp add: g_def unat_div d)
    have "r = (v - ?cw) mod m" by (simp add: r_def g_def minus_div_mult_eq_mod)
    then have r: "unat r = (?v - ?c) mod ?m" by (simp add: unat_mod d)
    have glen: "unat g + (?b + 2) \<le> 32" using len unfolding code(1) g by simp
    have "unat (ilog_2 m + 1 + 1) = ?b + 2" using b l1 by (subst unat_add_small) simp_all
    then have gm: "unat (g AND 0x1F) = unat g" "unat ((ilog_2 m + 1 + 1) AND 0x1F) = ?b + 2"
      using glen b by (simp_all only: unat_and_31) simp_all
    have x: "unat (push_bit 1 ?cw + r) = ?x"
    proof -
      have "unat (push_bit 1 ?cw) = ?c * 2" using cutoff_bounds(2) [OF m(1)] m(2)
        by (subst unat_push_bit) (simp_all add: cw)
      moreover have "(2::nat) ^ (?b + 2) \<le> 2 ^ 17" using b by (intro power_increasing) auto
      ultimately show ?thesis using code(2) by (subst unat_add_small) (auto simp: r)
    qed
    let ?y = "push_bit (?b + 2) (push_bit (unat g) 1 - 1 :: u32)"
    have enc: "golomb_encoder v m (ilog_2 m) = (ilog_2 m + 1 + (1 + g), ?y + (push_bit 1 ?cw + r))"
      unfolding golomb_encoder_def Let_def ub g_def [symmetric] r_def [symmetric] gm
      using False by simp
    have "unat (1 + g) = 1 + unat g" using glen by (subst unat_add_small) simp_all
    then have "unat (ilog_2 m + 1 + (1 + g)) = ?b + 2 + unat g"
      using b glen l1 by (subst unat_add_small) simp_all
    moreover have "golomb_code m ?v = replicate (unat g) True @ bits_msb (?b + 2) (push_bit 1 ?cw + r)"
      unfolding code(1) g [symmetric] x [symmetric] bits_msb_unat ..
    moreover have "bits_msb (unat g + (?b + 2)) (?y + (push_bit 1 ?cw + r)) =
        replicate (unat g) True @ bits_msb (?b + 2) (push_bit 1 ?cw + r)"
    proof (intro bits_msb_prefix_word glen)
      show "unat (push_bit 1 ?cw + r) < 2 ^ (?b + 2)" unfolding x by (rule code(2))
    qed simp
    ultimately show ?thesis unfolding enc
      by (intro encodesI [where n = "unat g + (?b + 2)"]) simp_all
  qed
qed

lemma rice_encoder_code:
  assumes m: "m \<noteq> 0" "unat m \<le> 65535" "is_a_pow_of_2 m"
    and len: "length (golomb_code m (unat v)) \<le> 32"
  shows "encodes (rice_encoder v m (ilog_2 m)) (golomb_code m (unat v))"
proof -
  let ?b = "ilog m" and ?v = "unat v"
  define q where "q = drop_bit ?b v"
  define r where "r = v AND (m - 1)"
  have b: "?b \<le> 15" using ilog_16 m by blast
  have ub: "unat (ilog_2 m) = ?b" by (simp add: ilog_def)
  have pow: "unat m = 2 ^ ?b" using is_a_pow_of_2_iff m by blast
  have c: "golomb_cutoff m = 2 ^ ?b" by (simp add: golomb_cutoff_def pow)
  have q: "unat q = ?v div unat m" by (simp add: q_def unat_drop_bit pow)
  have "m = word_of_nat (2 ^ ?b)" by (simp flip: pow)
  then have "m = 2 ^ ?b" by (simp only: of_nat_power of_nat_numeral)
  then have "m - 1 = mask ?b" by (metis mask_eq_exp_minus_1)
  then have "r = take_bit ?b v" by (simp only: r_def take_bit_eq_mask)
  then have "unat r = take_bit ?b ?v" by (simp only: unsigned_take_bit_eq)
  then have r: "unat r = ?v mod unat m" by (simp only: take_bit_eq_mod pow)
  have code: "golomb_code m ?v = replicate (unat q) True @ bits_msb (?b + 1) (unat r)"
    using bits_msb_lead0 [of "unat r" ?b]
    by (simp add: golomb_code_def truncated_binary_def c q r pow)
  have glen: "unat q + (?b + 1) \<le> 32" using len unfolding code by simp
  have l1: "unat (ilog_2 m + 1) = ?b + 1" using b ub by (subst unat_add_small) simp_all
  have rlt: "unat r < 2 ^ (?b + 1)" by (simp add: r pow trans_less_add1 mult_2)
  let ?y = "push_bit (?b + 1) (push_bit (unat q) 1 - 1 :: u32)"
  have "\<not> bit r k" if "?b + 1 \<le> k" for k using rlt that unat_less_iff_bits by blast
  moreover have "?b + 1 \<le> k" if "bit ?y k" for k using that by (simp only: bit_push_bit_iff)
  ultimately have "?y OR r = ?y + r" by (intro disjunctive_add [symmetric]) blast
  then have enc: "rice_encoder v m (ilog_2 m) = (ilog_2 m + 1 + q, ?y + r)"
    using l1 b by (simp add: rice_encoder_def Let_def ub q_def r_def unat_and_31)
  have "unat (ilog_2 m + 1 + q) = ?b + 1 + unat q"
    using b glen l1 by (subst unat_add_small) simp_all
  then show ?thesis unfolding enc encodes_def code
    using bits_msb_prefix_word [OF glen _ rlt] by (simp add: bits_msb_unat ac_simps)
qed

end
