(* ===== verification/Bit_Writer.thy ===== *)
theory Bit_Writer
  imports Cmp_Error
begin

text \<open>
  Putting up to 32 bits into the big-endian bitstream: \<open>put_n_bits32\<close> of
  \<open>lib/icu_compress/cmp_icu.c\<close>. The bitstream is a byte buffer that is read and written in
  32-bit big-endian words; \<open>None\<close> in place of the buffer is the NULL pointer, with which only
  the length is computed.
\<close>

definition put_n_bits32 ::
  "u32 \<Rightarrow> u32 \<Rightarrow> u32 \<Rightarrow> buffer option \<Rightarrow> u32 \<Rightarrow> (u32 \<times> buffer option) option" where
  "put_n_bits32 value n_bits bit_offset bitstream_adr max_stream_len =
     (let bits_left = bit_offset AND 0x1F;
          bits_right = 64 - bits_left - n_bits;
          shift_left = 32 - n_bits;
          stream_len = n_bits + bit_offset
      in if sint shift_left < 0 then Some (CMP_ERROR CMP_ERROR_INT_DECODER, bitstream_adr)
      else if n_bits = 0 then Some (stream_len, bitstream_adr)
      else (case bitstream_adr of
        None \<Rightarrow> Some (stream_len, bitstream_adr)
      | Some buf \<Rightarrow>
        if stream_len > max_stream_len then Some (CMP_ERROR CMP_ERROR_SMALL_BUFFER, bitstream_adr)
        else do {
          let local_adr = 4 * unat (drop_bit 5 bit_offset);
          let msk = drop_bit (unat bits_left) (push_bit (unat shift_left) 0xFFFFFFFF);
          word \<leftarrow> load_be 4 local_adr buf;
          let tmp = (word AND NOT msk) OR drop_bit (unat bits_left) (push_bit (unat shift_left) value);
          buf \<leftarrow> store_be 4 local_adr tmp buf;
          if bits_right < 32 then do {
            let local_adr = local_adr + 4;
            let msk = push_bit (unat bits_right) 0xFFFFFFFF;
            word \<leftarrow> load_be 4 local_adr buf;
            let tmp = (word AND NOT msk) OR push_bit (unat bits_right) value;
            buf \<leftarrow> store_be 4 local_adr tmp buf;
            Some (stream_len, Some buf)
          } else Some (stream_len, Some buf)
        }))"

text \<open>
  The buffer may be written up to \<open>lim\<close> bits, and \<open>lim\<close> is a whole number of words, as
  \<open>cmp_stream_size_to_bits\<close> makes it.
\<close>

definition writable :: "buffer \<Rightarrow> u32 \<Rightarrow> bool" where
  "writable buf lim \<longleftrightarrow> 32 dvd unat lim \<and> unat lim \<le> 8 * length buf \<and> unat lim \<le> 4294967168"

definition put_bits :: "nat \<Rightarrow> bool list \<Rightarrow> bool list \<Rightarrow> bool list" where
  "put_bits off xs bs = take off bs @ xs @ drop (off + length xs) bs"

lemma length_put_bits [simp]:
  "off + length xs \<le> length bs \<Longrightarrow> length (put_bits off xs bs) = length bs"
  by (simp add: put_bits_def)

lemma put_bits_Nil [simp]: "put_bits off [] bs = bs"
  by (simp add: put_bits_def)

lemma put_bits_append:
  assumes "off + length xs + length ys \<le> length bs"
  shows "put_bits (off + length xs) ys (put_bits off xs bs) = put_bits off (xs @ ys) bs"
  using assms by (simp add: put_bits_def ac_simps)

lemma take_put_bits: "off + length xs \<le> length bs \<Longrightarrow>
  take (off + length xs) (put_bits off xs bs) = take off bs @ xs"
  by (simp add: put_bits_def)

lemma drop_put_bits: "off + length xs \<le> length bs \<Longrightarrow>
  drop off (put_bits off xs bs) = xs @ drop (off + length xs) bs"
  by (simp add: put_bits_def)

section \<open>One word of the stream\<close>

lemma word_unsegmented:
  fixes w v ones :: u32
  assumes "l + n \<le> 32" and "0 < n" and ones: "\<And>k. bit ones k \<longleftrightarrow> k < 32"
  shows "bits_msb 32 ((w AND NOT (drop_bit l (push_bit (32 - n) ones))) OR
      drop_bit l (push_bit (32 - n) v)) = put_bits l (bits_msb n v) (bits_msb 32 w)"
  using assms(1,2)
  by (intro nth_equalityI)
    (auto simp: put_bits_def nth_append nth_bits_msb bit_or_iff bit_and_iff bit_not_iff
      bit_drop_bit_eq bit_push_bit_iff ones possible_bit_def min_def ac_simps)

lemma word_segment_left:
  fixes w v ones :: u32
  assumes "32 < l + n" and "l < 32" and "n \<le> 32" and ones: "\<And>k. bit ones k \<longleftrightarrow> k < 32"
  shows "bits_msb 32 ((w AND NOT (drop_bit l (push_bit (32 - n) ones))) OR
      drop_bit l (push_bit (32 - n) v)) = put_bits l (take (32 - l) (bits_msb n v)) (bits_msb 32 w)"
  using assms(1-3)
  by (intro nth_equalityI)
    (auto simp: put_bits_def nth_append nth_bits_msb bit_or_iff bit_and_iff bit_not_iff
      bit_drop_bit_eq bit_push_bit_iff ones possible_bit_def min_def ac_simps)

lemma word_segment_right:
  fixes w v ones :: u32
  assumes "0 < r" and "r \<le> 32" and "r \<le> n" and "n \<le> 32" and ones: "\<And>k. bit ones k \<longleftrightarrow> k < 32"
  shows "bits_msb 32 ((w AND NOT (push_bit (32 - r) ones)) OR push_bit (32 - r) v) =
    put_bits 0 (drop (n - r) (bits_msb n v)) (bits_msb 32 w)"
  using assms(1-4)
  by (intro nth_equalityI)
    (auto simp: put_bits_def nth_append nth_bits_msb bit_or_iff bit_and_iff bit_not_iff
      bit_push_bit_iff ones possible_bit_def min_def ac_simps)

lemma bit_ones32: "bit (0xFFFFFFFF :: u32) k \<longleftrightarrow> k < 32"
proof -
  have "(0xFFFFFFFF :: u32) = - 1" by simp
  then show ?thesis by (simp only: bit_minus_1_iff) (simp add: possible_bit_def)
qed

section \<open>The buffer after a call\<close>

lemma bits_patch_word:
  assumes "load_be 4 a buf = Some (w :: u32)" and "store_be 4 a t buf = Some buf'"
    and "bits_msb 32 (t :: u32) = put_bits l xs (bits_msb 32 w)" and "l + length xs \<le> 32"
  shows "bits_of_bytes buf' = put_bits (8 * a + l) xs (bits_of_bytes buf)"
proof -
  let ?bs = "bits_of_bytes buf"
  have "bits_msb 32 w = take 32 (drop (8 * a) ?bs)"
    using bits_msb_load_be [OF assms(1)] by simp
  then have "bits_of_bytes buf' =
      take (8 * a) ?bs @ put_bits l xs (take 32 (drop (8 * a) ?bs)) @ drop (8 * a + 32) ?bs"
    using bits_store_be [OF assms(2)] assms(3) by simp
  also have "\<dots> = put_bits (8 * a + l) xs ?bs"
    using assms(4) splice_window [of "l + length xs" 32 "8 * a" ?bs]
    by (simp add: put_bits_def take_add min_absorb1 add.assoc)
  finally show ?thesis .
qed

lemma put_bits_split:
  assumes "off + length xs + length ys \<le> length bs"
  shows "put_bits (off + length xs) ys (put_bits off xs bs) = put_bits off (xs @ ys) bs"
  using assms by (rule put_bits_append)

section \<open>What a call does\<close>

text \<open>
  With enough room, a call replaces exactly the \<open>n\<close> bits from the offset on by the low \<open>n\<close>
  bits of the value, most significant first, and touches no memory outside of the buffer; it
  returns the new length. Without enough room it changes nothing and reports a small buffer.
  With the NULL pointer it returns the new length only.
\<close>

lemma shift_left_not_negative: "unat n \<le> 32 \<Longrightarrow> \<not> sint (32 - n :: u32) < 0"
proof -
  assume n: "unat n \<le> 32"
  then have "unat (32 - n) = 32 - unat n" by (subst unat_sub) (simp_all add: word_le_nat_alt)
  then have "unat (32 - n) < 2 ^ 31" by simp
  then have "\<not> bit (32 - n) 31" unfolding unat_less_iff_bits by auto
  then show ?thesis by (simp add: sint_uint bit_uint_iff)
qed

lemma put_n_bits32_NULL:
  assumes "unat n \<le> 32"
  shows "put_n_bits32 v n off None lim = Some (n + off, None)"
  using assms shift_left_not_negative [of n] by (simp add: put_n_bits32_def Let_def)

lemma put_n_bits32_too_long:
  assumes "0 < unat n" and "unat n \<le> 32" and "lim < n + off"
  shows "put_n_bits32 v n off (Some buf) lim = Some (CMP_ERROR CMP_ERROR_SMALL_BUFFER, Some buf)"
  using assms shift_left_not_negative [of n] by (auto simp: put_n_bits32_def Let_def)

lemma word_room:
  fixes a l n q :: nat
  assumes "32 * a + l + n \<le> 32 * q"
  shows "0 < n \<Longrightarrow> a < q" and "32 < l + n \<Longrightarrow> a + 1 < q"
  using assms by arith+

lemma put_n_bits32_fits:
  assumes n: "0 < unat n" "unat n \<le> 32"
    and room: "unat off + unat n \<le> unat lim"
    and wr: "writable buf lim"
  shows "\<exists>buf'. put_n_bits32 v n off (Some buf) lim = Some (n + off, Some buf') \<and>
    length buf' = length buf \<and>
    bits_of_bytes buf' = put_bits (unat off) (bits_msb (unat n) v) (bits_of_bytes buf)"
proof -
  define d l where "d = unat off div 32" and "l = unat off mod 32"
  let ?a = "4 * d" and ?l = l and ?n = "unat n"
  have off: "32 * d + ?l = unat off" and l32: "?l < 32" by (simp_all add: d_def l_def)
  have lim: "unat lim mod 32 = 0" "unat lim \<le> 8 * length buf"
    using wr by (auto simp: writable_def)
  have "unat off + ?n < 2 ^ 32" using room unat_less_2p [of lim] by simp
  then have len: "unat (n + off) = unat off + ?n" by (simp add: unat_word_ariths)
  have fits: "\<not> n + off > lim" using room by (simp add: word_less_nat_alt len)
  have sl: "unat (32 - n) = 32 - ?n"
    using n by (subst unat_sub) (simp_all add: word_le_nat_alt)
  have bl: "unat (off AND 0x1F) = ?l" unfolding l_def by (rule unat_and_31)
  have br: "unat (64 - (off AND 0x1F) - n) = 64 - ?l - ?n"
  proof -
    have "unat (64 - (off AND 0x1F)) = 64 - ?l"
      using bl l32 by (subst unat_sub) (simp_all add: word_le_nat_alt)
    then show ?thesis using n l32 by (subst unat_sub) (simp_all add: word_le_nat_alt)
  qed
  have adr: "4 * unat (drop_bit 5 off) = ?a" by (simp add: unat_drop_bit d_def)
  have seg: "64 - (off AND 0x1F) - n < 32 \<longleftrightarrow> 32 < ?l + ?n"
    using n by (auto simp: word_less_nat_alt br)
  obtain q where q: "unat lim = 32 * q" using wr by (auto simp: writable_def)
  have base: "32 * d + ?l + ?n \<le> 32 * q" using room q off by simp
  have "d < q" by (rule word_room(1) [OF base n(1)])
  moreover have over: "d + 1 < q" if "32 < ?l + ?n"
    by (rule word_room(2) [OF base that])
  ultimately have room1: "?a + 4 \<le> length buf" using lim(2) q by linarith
  then obtain w where w: "load_be 4 ?a buf = Some (w :: u32)" using load_be_Some by blast
  define t where "t = (w AND NOT (drop_bit ?l (push_bit (32 - ?n) 0xFFFFFFFF)))
    OR drop_bit ?l (push_bit (32 - ?n) v)"
  obtain b1 where b1: "store_be 4 ?a t buf = Some b1" using store_be_Some [OF room1] by blast
  note len1 = store_be_length [OF b1]
  have pre: "\<not> sint (32 - n) < 0" "n \<noteq> 0"
    using n shift_left_not_negative [of n] by auto
  note unfold = put_n_bits32_def Let_def bl br sl adr seg
  show ?thesis
  proof (cases "32 < ?l + ?n")
    case False
    have "bits_msb 32 t = put_bits ?l (bits_msb ?n v) (bits_msb 32 w)"
      unfolding t_def using False n by (intro word_unsegmented bit_ones32) auto
    from bits_patch_word [OF w b1 this]
    have "bits_of_bytes b1 = put_bits (unat off) (bits_msb ?n v) (bits_of_bytes buf)"
      using False by (simp add: off)
    moreover have "put_n_bits32 v n off (Some buf) lim = Some (n + off, Some b1)"
      using pre fits False w b1 by (simp add: unfold t_def)
    ultimately show ?thesis using len1 by blast
  next
    case True
    let ?r = "?l + ?n - 32"
    have room2: "?a + 4 + 4 \<le> length b1" using over [OF True] lim(2) len1 q by linarith
    then obtain w2 where w2: "load_be 4 (?a + 4) b1 = Some (w2 :: u32)"
      using load_be_Some by blast
    define t2 where "t2 = (w2 AND NOT (push_bit (32 - ?r) 0xFFFFFFFF)) OR push_bit (32 - ?r) v"
    obtain b2 where b2: "store_be 4 (?a + 4) t2 b1 = Some b2"
      using store_be_Some [OF room2] by blast
    note len2 = store_be_length [OF b2]
    have br': "64 - ?l - ?n = 32 - ?r" using True n by simp
    have "bits_msb 32 t = put_bits ?l (take (32 - ?l) (bits_msb ?n v)) (bits_msb 32 w)"
      unfolding t_def using True n l32 by (intro word_segment_left bit_ones32) auto
    from bits_patch_word [OF w b1 this] have e1: "bits_of_bytes b1 =
        put_bits (unat off) (take (32 - ?l) (bits_msb ?n v)) (bits_of_bytes buf)"
      using l32 by (simp add: off)
    have nr: "?n - ?r = 32 - ?l" using True n l32 by simp
    have "bits_msb 32 t2 = put_bits 0 (drop (?n - ?r) (bits_msb ?n v)) (bits_msb 32 w2)"
      unfolding t2_def using True n l32 by (intro word_segment_right bit_ones32) auto
    from bits_patch_word [OF w2 b2 this] have e2: "bits_of_bytes b2 =
        put_bits (8 * (?a + 4)) (drop (32 - ?l) (bits_msb ?n v)) (bits_of_bytes b1)"
      using n unfolding nr by simp
    have len_take: "length (take (32 - ?l) (bits_msb ?n v)) = 32 - ?l" using True by simp
    have "8 * (?a + 4) = unat off + length (take (32 - ?l) (bits_msb ?n v))"
      unfolding len_take using l32 by (simp flip: off)
    moreover have "unat off + ?n \<le> length (bits_of_bytes buf)" using room lim by simp
    ultimately have "bits_of_bytes b2 = put_bits (unat off) (bits_msb ?n v) (bits_of_bytes buf)"
      unfolding e2 e1 using True n
      by (simp only:) (subst put_bits_append, auto simp: min_def)
    moreover have "put_n_bits32 v n off (Some buf) lim = Some (n + off, Some b2)"
      using pre fits True w b1 w2 b2 by (simp add: unfold t_def t2_def br')
    ultimately show ?thesis using len1 len2 by simp
  qed
qed

end
