(* ===== verification/Cal_Up_Model.thy ===== *)
theory Cal_Up_Model
  imports Prelude
begin

text \<open>
  Lossy rounding and the model update equation (\<open>lib/common/cmp_cal_up_model.h\<close>). The macro
  \<open>cmp_up_model\<close> picks the 16-bit or the 32-bit function from the size of the data and truncates
  the result to the type of the data.
\<close>

definition round_fwd :: "u32 \<Rightarrow> u32 \<Rightarrow> u32" where
  "round_fwd value round = drop_bit (unat round) value"

definition round_inv :: "u32 \<Rightarrow> u32 \<Rightarrow> u32" where
  "round_inv value round = push_bit (unat round) value"

definition cmp_up_model16 :: "u32 \<Rightarrow> u32 \<Rightarrow> u32 \<Rightarrow> u32 \<Rightarrow> u16" where
  "cmp_up_model16 data model model_val round =
     (let weighted_data = round_inv (round_fwd data round) round * (16 - model_val);
          weighted_model = model * model_val
      in ucast ((weighted_model + weighted_data) div 16))"

definition cmp_up_model32 :: "u32 \<Rightarrow> u32 \<Rightarrow> u32 \<Rightarrow> u32 \<Rightarrow> u32" where
  "cmp_up_model32 data model model_val round =
     (let weighted_data = (ucast (round_inv (round_fwd data round) round) :: u64) * ucast (16 - model_val);
          weighted_model = (ucast model :: u64) * ucast model_val
      in ucast ((weighted_model + weighted_data) div 16))"

text \<open>The macro at \<open>sizeof(data)\<close> 1, 2 and 4.\<close>

definition cmp_up_model_u8 :: "u8 \<Rightarrow> u8 \<Rightarrow> u32 \<Rightarrow> u32 \<Rightarrow> u8" where
  "cmp_up_model_u8 data model model_val round =
     ucast (cmp_up_model16 (ucast data) (ucast model) model_val round)"

definition cmp_up_model_u16 :: "u16 \<Rightarrow> u16 \<Rightarrow> u32 \<Rightarrow> u32 \<Rightarrow> u16" where
  "cmp_up_model_u16 data model model_val round =
     cmp_up_model16 (ucast data) (ucast model) model_val round"

definition cmp_up_model_u32 :: "u32 \<Rightarrow> u32 \<Rightarrow> u32 \<Rightarrow> u32 \<Rightarrow> u32" where
  "cmp_up_model_u32 data model model_val round = cmp_up_model32 data model model_val round"

section \<open>Rounding\<close>

text \<open>Dropping the low bits, the value a lossy round trip returns.\<close>

definition rounded :: "u32 \<Rightarrow> u32 \<Rightarrow> u32" where
  "rounded round value = round_inv (round_fwd value round) round"

lemma rounded_0 [simp]: "rounded 0 v = v"
  by (simp add: rounded_def round_inv_def round_fwd_def)

lemma round_fwd_0 [simp]: "round_fwd v 0 = v" and round_inv_0 [simp]: "round_inv v 0 = v"
  by (simp_all add: round_fwd_def round_inv_def)

lemma bit_rounded: "bit (rounded r v) k \<longleftrightarrow> unat r \<le> k \<and> bit v k"
  by (auto simp: rounded_def round_inv_def round_fwd_def bit_push_bit_iff bit_drop_bit_eq
      dest: bit_imp_le_length)

lemma rounded_idem [simp]: "rounded r (rounded r v) = rounded r v"
  by (rule bit_word_eqI) (simp add: bit_rounded)

lemma round_fwd_rounded [simp]: "round_fwd (rounded r v) r = round_fwd v r"
  by (rule bit_word_eqI) (simp add: round_fwd_def bit_drop_bit_eq bit_rounded)

lemma unat_round_fwd_le: "unat (round_fwd v r) \<le> unat v"
  by (simp add: round_fwd_def unat_drop_bit)

lemma unat_rounded_less: "unat v < 2 ^ n \<Longrightarrow> unat (rounded r v) < 2 ^ n"
  by (auto simp: unat_less_iff_bits bit_rounded)

lemma ucast_rounded:
  fixes x :: "'a::len word"
  assumes "LENGTH('a) \<le> 32"
  shows "ucast (ucast (rounded r (ucast x)) :: 'a word) = rounded r (ucast x)"
  using assms
  by (intro bit_word_eqI) (auto simp: bit_ucast_iff bit_rounded dest: bit_imp_le_length)

text \<open>
  The update sees the data only up to rounding, so the decompressor, which knows only the
  rounded data, computes the same new model as the compressor.
\<close>

lemma cmp_up_model16_rounded [simp]:
  "cmp_up_model16 (rounded r d) m v r = cmp_up_model16 d m v r"
  by (simp add: cmp_up_model16_def Let_def)

lemma cmp_up_model32_rounded [simp]:
  "cmp_up_model32 (rounded r d) m v r = cmp_up_model32 d m v r"
  by (simp add: cmp_up_model32_def Let_def)

section \<open>The update equation over the natural numbers\<close>

lemma unat_ucast_32_64 [simp]: "unat (ucast (x :: u32) :: u64) = unat x"
  by (simp add: unsigned_ucast_eq take_bit_nat_eq_self_iff)
    (use unat_less_2p [of x] in simp)

lemma unat_16_minus: "unat v \<le> 16 \<Longrightarrow> unat (16 - v :: u32) = 16 - unat v"
  by (subst unat_sub) (simp_all add: word_le_nat_alt)

lemma weighted_bound:
  fixes d m v n :: nat
  assumes "d < n" "m < n" "v \<le> 16"
  shows "(m * v + d * (16 - v)) div 16 < n" and "m * v + d * (16 - v) \<le> 16 * (n - 1)"
proof -
  have "m * v + d * (16 - v) \<le> (n - 1) * v + (n - 1) * (16 - v)"
    using assms by (intro add_mono mult_le_mono) auto
  also have "\<dots> = (n - 1) * 16" using assms(3) by (metis distrib_left le_add_diff_inverse)
  finally show "m * v + d * (16 - v) \<le> 16 * (n - 1)" by simp
  then show "(m * v + d * (16 - v)) div 16 < n" using assms by linarith
qed

lemma weighted_mean_between:
  fixes d m v :: nat
  assumes "v \<le> 16"
  shows "min m d \<le> (m * v + d * (16 - v)) div 16 \<and> (m * v + d * (16 - v)) div 16 \<le> max m d"
proof -
  have split: "k * 16 = k * v + k * (16 - v)" for k
    using assms by (metis distrib_left le_add_diff_inverse)
  have "min m d * 16 \<le> m * v + d * (16 - v)"
    unfolding split by (intro add_mono mult_le_mono) auto
  moreover have "m * v + d * (16 - v) \<le> max m d * 16"
    unfolding split by (intro add_mono mult_le_mono) auto
  ultimately show ?thesis by (simp add: less_eq_div_iff_mult_less_eq div_le_mono [THEN order_trans])
qed

lemma unat_cmp_up_model32:
  assumes "unat v \<le> 16"
  shows "unat (cmp_up_model32 d m v r) =
    (unat m * unat v + unat (rounded r d) * (16 - unat v)) div 16"
proof -
  let ?s = "unat m * unat v + unat (rounded r d) * (16 - unat v)"
  note wb = weighted_bound [of "unat (rounded r d)" "2 ^ 32" "unat m" "unat v"]
  have lt: "unat (rounded r d) < 2 ^ 32" "unat m < 2 ^ 32"
    using unat_less_2p [of "rounded r d"] unat_less_2p [of m] by simp_all
  then have bnd: "?s \<le> 16 * (2 ^ 32 - 1)" "?s div 16 < 2 ^ 32" using wb assms by auto
  have e1: "unat (ucast (rounded r d) * ucast (16 - v) :: u64) = unat (rounded r d) * (16 - unat v)"
    using bnd by (subst unat_mult_lem [THEN iffD1]) (simp_all add: unat_16_minus assms)
  have e2: "unat (ucast m * ucast v :: u64) = unat m * unat v"
    using bnd by (subst unat_mult_lem [THEN iffD1]) simp_all
  have "unat (ucast m * ucast v + ucast (rounded r d) * ucast (16 - v) :: u64) = ?s"
    using bnd by (subst unat_add_lem [THEN iffD1]) (simp_all add: e1 e2)
  then show ?thesis using bnd
    by (simp add: cmp_up_model32_def Let_def unsigned_ucast_eq unat_div take_bit_nat_eq_self
        flip: rounded_def)
qed

lemma unat_cmp_up_model16:
  assumes "unat v \<le> 16" and "unat d < 2 ^ 16" and "unat m < 2 ^ 16"
  shows "unat (cmp_up_model16 d m v r) =
    (unat m * unat v + unat (rounded r d) * (16 - unat v)) div 16"
proof -
  let ?s = "unat m * unat v + unat (rounded r d) * (16 - unat v)"
  have lt: "unat (rounded r d) < 2 ^ 16" using assms(2) by (rule unat_rounded_less)
  then have bnd: "?s \<le> 16 * (2 ^ 16 - 1)" "?s div 16 < 2 ^ 16"
    using weighted_bound [of "unat (rounded r d)" "2 ^ 16" "unat m" "unat v"] assms by auto
  have e1: "unat (rounded r d * (16 - v)) = unat (rounded r d) * (16 - unat v)"
    using bnd by (subst unat_mult_lem [THEN iffD1]) (simp_all add: unat_16_minus assms)
  have e2: "unat (m * v) = unat m * unat v"
    using bnd by (subst unat_mult_lem [THEN iffD1]) simp_all
  have "unat (m * v + rounded r d * (16 - v)) = ?s"
    using bnd by (subst unat_add_lem [THEN iffD1]) (simp_all add: e1 e2)
  then show ?thesis using bnd
    by (simp add: cmp_up_model16_def Let_def unsigned_ucast_eq unat_div take_bit_nat_eq_self
        flip: rounded_def)
qed

end
