(* ===== verification/Value_Encoder.thy ===== *)
theory Value_Encoder
  imports Codewords Bit_Writer Cal_Up_Model
begin

text \<open>
  Encoding one value (\<open>lib/icu_compress/cmp_icu.c\<close>, from \<open>map_to_pos\<close> to
  \<open>configure_encoder_setup\<close>): the difference to the model is mapped to a non-negative number,
  which is written as a Golomb code word, or as an escape symbol followed by the number itself.

  The encoder setup keeps the code word generator as a function; the bitstream it points to is
  the buffer argument of the functions, returned updated.
\<close>

section \<open>The encoder\<close>

definition map_to_pos :: "u32 \<Rightarrow> u32 \<Rightarrow> u32" where
  "map_to_pos value_to_map max_data_bits =
     (let msk = drop_bit (unat (32 - max_data_bits)) (NOT 0);
          v = value_to_map AND msk
      in if drop_bit (unat (max_data_bits - 1)) v \<noteq> 0
         then (let v = v OR NOT msk in (- v) * 2 - 1)
         else v * 2)"

datatype encode_method = Encode_value_zero | Encode_value_multi

record encoder_setup =
  generate_cw_f :: "u32 \<Rightarrow> u32 \<Rightarrow> u32 \<Rightarrow> u32 \<times> u32"
  encode_method_f :: encode_method
  max_stream_len :: u32
  encoder_par1 :: u32
  encoder_par2 :: u32
  spillover_par :: u32
  lossy_par :: u32
  max_data_bits :: u32

type_synonym write_result = "(u32 \<times> buffer option) option"

text \<open>\<open>if (cmp_is_error(stream_len)) return stream_len;\<close> between two steps.\<close>

definition unless_error ::
  "write_result \<Rightarrow> (u32 \<Rightarrow> buffer option \<Rightarrow> write_result) \<Rightarrow> write_result" where
  "unless_error r f = do {
     (stream_len, dst) \<leftarrow> r;
     if cmp_is_error stream_len then Some (stream_len, dst) else f stream_len dst
   }"

definition encode_normal :: "u32 \<Rightarrow> u32 \<Rightarrow> encoder_setup \<Rightarrow> buffer option \<Rightarrow> write_result" where
  "encode_normal val stream_len setup dst =
     (let (cw_len, code_word) = generate_cw_f setup val (encoder_par1 setup) (encoder_par2 setup)
      in put_n_bits32 code_word cw_len stream_len dst (max_stream_len setup))"

definition encode_value_zero ::
  "u32 \<Rightarrow> u32 \<Rightarrow> u32 \<Rightarrow> encoder_setup \<Rightarrow> buffer option \<Rightarrow> write_result" where
  "encode_value_zero data model stream_len setup dst =
     (let data = map_to_pos (data - model) (max_data_bits setup)
      in if data < spillover_par setup - 1 then encode_normal (data + 1) stream_len setup dst
         else
           let data = data + 1
           in unless_error (encode_normal 0 stream_len setup dst) (\<lambda>stream_len dst.
                put_n_bits32 data (max_data_bits setup) stream_len dst (max_stream_len setup)))"

definition encode_value_multi ::
  "u32 \<Rightarrow> u32 \<Rightarrow> u32 \<Rightarrow> encoder_setup \<Rightarrow> buffer option \<Rightarrow> write_result" where
  "encode_value_multi data model stream_len setup dst =
     (let data = map_to_pos (data - model) (max_data_bits setup)
      in if data < spillover_par setup then encode_normal data stream_len setup dst
         else
           let unencoded_data = data - spillover_par setup;
               escape_sym_offset =
                 (if unencoded_data = 0 then 0
                  else drop_bit 1 (31 - word_of_nat (clz unencoded_data)));
               escape_sym = spillover_par setup + escape_sym_offset;
               unencoded_data_len = push_bit 1 (escape_sym_offset + 1)
           in unless_error (encode_normal escape_sym stream_len setup dst) (\<lambda>stream_len dst.
                put_n_bits32 unencoded_data unencoded_data_len stream_len dst
                  (max_stream_len setup)))"

definition encode_value ::
  "u32 \<Rightarrow> u32 \<Rightarrow> u32 \<Rightarrow> encoder_setup \<Rightarrow> buffer option \<Rightarrow> write_result" where
  "encode_value data model stream_len setup dst =
     (let msk = NOT (drop_bit (unat (32 - max_data_bits setup)) 0xFFFFFFFF);
          data = round_fwd data (lossy_par setup);
          model = round_fwd model (lossy_par setup)
      in if data AND msk \<noteq> 0 \<or> model AND msk \<noteq> 0
         then Some (CMP_ERROR CMP_ERROR_DATA_VALUE_TOO_LARGE, dst)
         else (case encode_method_f setup of
             Encode_value_zero \<Rightarrow> encode_value_zero data model stream_len setup dst
           | Encode_value_multi \<Rightarrow> encode_value_multi data model stream_len setup dst))"

definition cmp_stream_size_to_bits :: "u32 \<Rightarrow> u32" where
  "cmp_stream_size_to_bits bytes = (bytes AND NOT 0x3) * 8"

definition configure_encoder_setup ::
  "u32 \<Rightarrow> u32 \<Rightarrow> u32 \<Rightarrow> u32 \<Rightarrow> cmp_cfg \<Rightarrow> encoder_setup" where
  "configure_encoder_setup cmp_par spillover lossy max_bits cfg =
     \<lparr>generate_cw_f = (if is_a_pow_of_2 cmp_par then rice_encoder else golomb_encoder),
      encode_method_f =
        (if cmp_mode cfg = CMP_MODE_MODEL_ZERO \<or> cmp_mode cfg = CMP_MODE_DIFF_ZERO
         then Encode_value_zero else Encode_value_multi),
      max_stream_len = cmp_stream_size_to_bits (stream_size cfg),
      encoder_par1 = cmp_par,
      encoder_par2 = ilog_2 cmp_par,
      spillover_par = spillover,
      lossy_par = lossy,
      max_data_bits = max_bits\<rparr>"

section \<open>Mapping to non-negative numbers\<close>

lemma drop_ones: "n \<le> 32 \<Longrightarrow> drop_bit (32 - n) (- 1 :: u32) = mask n"
  by (rule bit_word_eqI) (auto simp: bit_drop_bit_eq bit_mask_iff)

lemma unat_minus_32: "unat (n :: u32) \<le> 32 \<Longrightarrow> unat (32 - n) = 32 - unat n"
  by (subst unat_sub) (simp_all add: word_le_nat_alt)

lemma low_mask: "unat (n :: u32) \<le> 32 \<Longrightarrow> drop_bit (unat (32 - n)) (- 1 :: u32) = mask (unat n)"
  by (simp only: unat_minus_32 drop_ones)

lemma low_mask_NOT_0: "unat (n :: u32) \<le> 32 \<Longrightarrow>
    drop_bit (unat (32 - n)) (NOT 0 :: u32) = mask (unat n)"
  using low_mask [of n] by simp

lemma unat_take_bit: "unat (take_bit n (w :: 'a::len word)) = unat w mod 2 ^ n"
  by (subst unsigned_take_bit_eq) (rule take_bit_eq_mod)

lemma zigzag_less: "0 < p \<Longrightarrow> (if x < p then 2 * x else 2 * (2 * p - x) - 1) < (2 * p :: nat)"
  by auto

lemma unat_map_to_pos:
  fixes v n :: u32
  assumes n: "0 < unat n" "unat n \<le> 32"
  defines "x \<equiv> unat v mod 2 ^ unat n"
  shows "unat (map_to_pos v n) = (if x < 2 ^ (unat n - 1) then 2 * x else 2 * (2 ^ unat n - x) - 1)"
proof -
  let ?n = "unat n" and ?w = "take_bit (unat n) v"
  have w: "unat ?w = x" by (simp only: unat_take_bit x_def)
  have xlt: "x < 2 ^ ?n" by (simp add: x_def)
  have pow: "(2::nat) ^ ?n = 2 * 2 ^ (?n - 1)" using n(1) by (cases ?n) simp_all
  have le32: "(2::nat) ^ ?n \<le> 2 ^ 32" using n(2) by (intro power_increasing) auto
  have n1: "unat (n - 1) = ?n - 1" using n(1) by (subst unat_minus_one) (auto simp: unat_gt_0)
  have neg: "drop_bit (?n - 1) ?w \<noteq> 0 \<longleftrightarrow> \<not> x < 2 ^ (?n - 1)"
    by (simp add: unat_eq_zero [symmetric] unat_drop_bit w div_eq_0_iff del: unat_eq_zero)
  have def: "map_to_pos v n = (if drop_bit (?n - 1) ?w \<noteq> 0
      then - (?w OR NOT (mask ?n)) * 2 - 1 else ?w * 2)"
    by (simp only: map_to_pos_def Let_def low_mask_NOT_0 [OF n(2)] n1 take_bit_eq_mask)
  show ?thesis
  proof (cases "x < 2 ^ (?n - 1)")
    case True
    have "unat (?w * 2) = x * 2"
      using True pow le32 by (subst unat_mult_lem [THEN iffD1]) (simp_all only: w, simp_all)
    then show ?thesis using True neg by (simp add: def)
  next
    case False
    have "?w OR NOT (mask ?n) = ?w + NOT (mask ?n)"
      by (intro disjunctive_add [symmetric])
        (auto simp: bit_take_bit_iff bit_not_iff bit_mask_iff)
    also have "\<dots> = ?w - 2 ^ ?n" by (simp add: not_eq_complement mask_eq_exp_minus_1)
    finally have z: "?w OR NOT (mask ?n) = ?w - 2 ^ ?n" .
    have wx: "?w = word_of_nat x" by (simp flip: w)
    have "- (?w OR NOT (mask ?n)) * 2 - 1 = word_of_nat (2 * (2 ^ ?n - x) - 1)"
      unfolding z unfolding wx using xlt by (simp add: of_nat_diff algebra_simps)
    moreover have "2 * (2 ^ ?n - x) - 1 < 2 ^ ?n"
      using zigzag_less [of "2 ^ (?n - 1)" x] False unfolding pow by simp
    then have "2 * (2 ^ ?n - x) - 1 < (2::nat) ^ 32" using le32 by (rule less_le_trans)
    ultimately show ?thesis using False neg by (simp add: def unat_of_nat take_bit_nat_eq_self)
  qed
qed

lemma unat_map_to_pos_less:
  assumes n: "0 < unat n" "unat n \<le> 32"
  shows "unat (map_to_pos v n) < 2 ^ unat n"
proof -
  have pow: "(2::nat) ^ unat n = 2 * 2 ^ (unat n - 1)" using n(1) by (cases "unat n") simp_all
  show ?thesis
    unfolding unat_map_to_pos [OF n] pow by (rule zigzag_less) simp
qed

section \<open>The code of a value\<close>

text \<open>
  The parameters of a code that the encoder and the decoder share: the Golomb parameter, the
  spillover threshold and the number of data bits, in the range the parameter checks allow.
\<close>

record code_pars =
  cp_zero :: bool  \<comment> \<open>zero escape mechanism, otherwise multi escape\<close>
  cp_golomb :: u32
  cp_spill :: u32
  cp_bits :: u32

definition code_pars_ok :: "code_pars \<Rightarrow> bool" where
  "code_pars_ok p \<longleftrightarrow> valid_pars (cp_golomb p) (cp_spill p) \<and>
     0 < unat (cp_bits p) \<and> unat (cp_bits p) \<le> 32"

definition escape_offset :: "u32 \<Rightarrow> nat" where
  "escape_offset u = (if u = 0 then 0 else ilog u div 2)"

definition value_code :: "code_pars \<Rightarrow> u32 \<Rightarrow> bool list" where
  "value_code p x =
     (if cp_zero p
      then if unat x < unat (cp_spill p) - 1 then golomb_code (cp_golomb p) (unat x + 1)
           else golomb_code (cp_golomb p) 0 @ bits_msb (unat (cp_bits p)) (x + 1)
      else if x < cp_spill p then golomb_code (cp_golomb p) (unat x)
           else let u = x - cp_spill p; off = escape_offset u
                in golomb_code (cp_golomb p) (unat (cp_spill p) + off) @ bits_msb (2 * (off + 1)) u)"

definition setup_pars :: "encoder_setup \<Rightarrow> code_pars" where
  "setup_pars s = \<lparr>cp_zero = (encode_method_f s = Encode_value_zero),
     cp_golomb = encoder_par1 s, cp_spill = spillover_par s, cp_bits = max_data_bits s\<rparr>"

text \<open>A setup that \<open>configure_encoder_setup\<close> makes from valid parameters.\<close>

definition encoder_ok :: "encoder_setup \<Rightarrow> bool" where
  "encoder_ok s \<longleftrightarrow> code_pars_ok (setup_pars s) \<and> encoder_par2 s = ilog_2 (encoder_par1 s) \<and>
     generate_cw_f s = (if is_a_pow_of_2 (encoder_par1 s) then rice_encoder else golomb_encoder)"

lemma configure_encoder_setup_ok:
  "valid_pars m spill \<Longrightarrow> 0 < unat n \<Longrightarrow> unat n \<le> 32 \<Longrightarrow>
     encoder_ok (configure_encoder_setup m spill lossy n cfg)"
  by (simp add: encoder_ok_def code_pars_ok_def setup_pars_def configure_encoder_setup_def)

section \<open>Writing a code\<close>

text \<open>
  \<open>wrote code off lim dst r\<close>: the result \<open>r\<close> of an operation on \<open>dst\<close> is that of appending
  \<open>code\<close> to the \<open>off\<close> bits written so far, in a stream of at most \<open>lim\<close> bits.
\<close>

definition wrote :: "bool list \<Rightarrow> u32 \<Rightarrow> u32 \<Rightarrow> buffer option \<Rightarrow> write_result \<Rightarrow> bool" where
  "wrote code off lim dst r \<longleftrightarrow> (case dst of
     None \<Rightarrow> unat off + length code \<le> 4294967168 \<longrightarrow>
       r = Some (off + word_of_nat (length code), None)
   | Some buf \<Rightarrow> writable buf lim \<longrightarrow> \<not> cmp_is_error off \<longrightarrow>
       (\<exists>buf'. length buf' = length buf \<and>
          (if unat off + length code \<le> unat lim
           then r = Some (off + word_of_nat (length code), Some buf') \<and>
             bits_of_bytes buf' = put_bits (unat off) code (bits_of_bytes buf)
           else r = Some (CMP_ERROR CMP_ERROR_SMALL_BUFFER, Some buf') \<and>
             take (unat off) (bits_of_bytes buf') = take (unat off) (bits_of_bytes buf))))"

lemma unat_off_add:
  assumes "unat off + k \<le> 4294967168"
  shows "unat (off + word_of_nat k :: u32) = unat off + k"
    and "\<not> cmp_is_error (off + word_of_nat k)"
proof -
  have "unat (word_of_nat k :: u32) = k" using assms by (simp add: unat_of_nat take_bit_nat_eq_self)
  then show "unat (off + word_of_nat k) = unat off + k"
    using assms by (subst unat_add_small) simp_all
  then show "\<not> cmp_is_error (off + word_of_nat k)" using assms by (simp add: cmp_is_error_iff)
qed

lemma wrote_NULL:
  "wrote code off lim None r \<longleftrightarrow>
     (unat off + length code \<le> 4294967168 \<longrightarrow> r = Some (off + word_of_nat (length code), None))"
  by (simp add: wrote_def)

lemma wroteE:
  assumes "wrote code off lim (Some buf) r" and "writable buf lim" and "\<not> cmp_is_error off"
  obtains (fits) buf' where "unat off + length code \<le> unat lim" "length buf' = length buf"
      "r = Some (off + word_of_nat (length code), Some buf')"
      "bits_of_bytes buf' = put_bits (unat off) code (bits_of_bytes buf)"
  | (small) buf' where "unat lim < unat off + length code" "length buf' = length buf"
      "r = Some (CMP_ERROR CMP_ERROR_SMALL_BUFFER, Some buf')"
      "take (unat off) (bits_of_bytes buf') = take (unat off) (bits_of_bytes buf)"
proof (cases "unat off + length code \<le> unat lim")
  case True
  then show ?thesis using assms fits by (auto simp: wrote_def)
next
  case False
  then show ?thesis using assms small by (auto simp: wrote_def)
qed

lemma wrote_put_n_bits32:
  assumes "0 < unat n" and "unat n \<le> 32"
  shows "wrote (bits_msb (unat n) v) off lim dst (put_n_bits32 v n off dst lim)"
proof (cases dst)
  case None
  then show ?thesis using assms by (simp add: wrote_NULL put_n_bits32_NULL add.commute)
next
  case (Some buf)
  have n: "word_of_nat (unat n) = n" by simp
  show ?thesis unfolding Some wrote_def option.case length_bits_msb n
  proof (intro impI)
    assume wr: "writable buf lim" and ok: "\<not> cmp_is_error off"
    show "\<exists>buf'. length buf' = length buf \<and>
      (if unat off + unat n \<le> unat lim
       then put_n_bits32 v n off (Some buf) lim = Some (off + n, Some buf') \<and>
         bits_of_bytes buf' = put_bits (unat off) (bits_msb (unat n) v) (bits_of_bytes buf)
       else put_n_bits32 v n off (Some buf) lim = Some (CMP_ERROR CMP_ERROR_SMALL_BUFFER, Some buf') \<and>
         take (unat off) (bits_of_bytes buf') = take (unat off) (bits_of_bytes buf))"
    proof (cases "unat off + unat n \<le> unat lim")
      case True
      then show ?thesis
        using put_n_bits32_fits [OF assms True wr, of v] by (auto simp: add.commute)
    next
      case False
      have "unat (n + off) = unat n + unat off"
        using ok assms(2) by (subst unat_add_small) (simp_all add: cmp_is_error_iff)
      then have "lim < n + off" using False by (simp add: word_less_nat_alt)
      then show ?thesis using put_n_bits32_too_long [OF assms] False by auto
    qed
  qed
qed

lemma wrote_unless_error:
  assumes c: "wrote c off lim dst r"
    and d: "\<And>off' dst'. unat off' = unat off + length c \<Longrightarrow> \<not> cmp_is_error off' \<Longrightarrow>
      wrote d off' lim dst' (f off' dst')"
  shows "wrote (c @ d) off lim dst (unless_error r f)"
proof (cases dst)
  case None
  show ?thesis
  proof (cases "unat off + length (c @ d) \<le> 4294967168")
    case True
    then have "unat off + length c \<le> 4294967168" by simp
    note off = unat_off_add [OF this]
    from c True None have "r = Some (off + word_of_nat (length c), None)" by (simp add: wrote_NULL)
    then show ?thesis using d [OF off, of None] None True off
      by (simp add: wrote_NULL unless_error_def add.assoc)
  qed (simp add: None wrote_NULL)
next
  case (Some buf)
  have ?thesis if wr: "writable buf lim" and ok: "\<not> cmp_is_error off"
    using c [unfolded Some] wr ok
  proof (cases rule: wroteE)
    case (fits b1)
    have lim: "unat lim \<le> 4294967168" using wr by (simp add: writable_def)
    with fits(1) have "unat off + length c \<le> 4294967168" by linarith
    note off = unat_off_add [OF this]
    have wr1: "writable b1 lim" using wr fits(2) by (simp add: writable_def)
    have len: "unat off + length c \<le> length (bits_of_bytes buf)"
      using fits(1) wr by (simp add: writable_def)
    from d [OF off, of "Some b1"] wr1 off(2) show ?thesis
    proof (cases rule: wroteE)
      case (fits b2)
      have "unat off + length (c @ d) \<le> length (bits_of_bytes buf)"
        using fits(1) off(1) wr by (simp add: writable_def)
      then have "bits_of_bytes b2 = put_bits (unat off) (c @ d) (bits_of_bytes buf)"
        unfolding fits(4) \<open>bits_of_bytes b1 = _\<close> off(1) by (subst put_bits_append) simp_all
      then show ?thesis using fits \<open>r = _\<close> \<open>length b1 = _\<close> off Some
        by (simp add: wrote_def unless_error_def add.assoc)
    next
      case (small b2)
      have "take (unat off) (take (unat off + length c) (bits_of_bytes b2)) =
          take (unat off) (take (unat off + length c) (bits_of_bytes b1))"
        using small(4) off(1) by simp
      then have "take (unat off) (bits_of_bytes b2) = take (unat off) (bits_of_bytes buf)"
        using len by (simp add: min_def \<open>bits_of_bytes b1 = _\<close> put_bits_def)
      then show ?thesis using small \<open>r = _\<close> \<open>length b1 = _\<close> off Some
        by (simp add: wrote_def unless_error_def)
    qed
  next
    case (small b1)
    then show ?thesis using Some by (simp add: wrote_def unless_error_def)
  qed
  then show ?thesis using Some by (auto simp: wrote_def)
qed

section \<open>Encoding a value writes its code\<close>

lemma encoder_okD:
  assumes "encoder_ok s"
  shows "valid_pars (encoder_par1 s) (spillover_par s)"
    and "0 < unat (max_data_bits s)" and "unat (max_data_bits s) \<le> 32"
  using assms by (auto simp: encoder_ok_def code_pars_ok_def setup_pars_def)

lemma length_golomb_code_pos: "0 < length (golomb_code m v)"
  by (simp add: golomb_code_def)

lemma wrote_encode_normal:
  assumes ok: "encoder_ok s" and v: "unat v \<le> unat (spillover_par s) + 15"
  shows "wrote (golomb_code (encoder_par1 s) (unat v)) off (max_stream_len s) dst
    (encode_normal v off s dst)"
proof -
  let ?m = "encoder_par1 s" and ?code = "golomb_code (encoder_par1 s) (unat v)"
  have m: "?m \<noteq> 0" "unat ?m \<le> 65535"
    and sp: "unat (spillover_par s) \<le> unat (cmp_icu_max_spill ?m)"
    using encoder_okD(1) [OF ok] by (auto simp: valid_pars_def)
  have len: "length ?code \<le> 32" using v sp by (intro golomb_code_le_32 m) linarith
  obtain l w where lw: "generate_cw_f s v ?m (encoder_par2 s) = (l, w)" by fastforce
  moreover have "encodes (generate_cw_f s v ?m (encoder_par2 s)) ?code"
    using ok golomb_encoder_code [OF m len] rice_encoder_code [OF m _ len]
    by (simp add: encoder_ok_def)
  ultimately have l: "unat l = length ?code" and w: "bits_msb (length ?code) w = ?code"
    by (simp_all add: encodes_def)
  have "wrote (bits_msb (unat l) w) off (max_stream_len s) dst
      (put_n_bits32 w l off dst (max_stream_len s))"
    using len l length_golomb_code_pos [of ?m "unat v"] by (intro wrote_put_n_bits32) linarith+
  then show ?thesis by (simp add: encode_normal_def lw l w)
qed

lemma wrote_encode_value_zero:
  assumes ok: "encoder_ok s" and z: "encode_method_f s = Encode_value_zero"
  shows "wrote (value_code (setup_pars s) (map_to_pos (data - model) (max_data_bits s)))
    off (max_stream_len s) dst (encode_value_zero data model off s dst)"
proof -
  let ?x = "map_to_pos (data - model) (max_data_bits s)"
  have sp: "2 \<le> unat (spillover_par s)" using encoder_okD(1) [OF ok] by (simp add: valid_pars_def)
  then have sp1: "unat (spillover_par s - 1) = unat (spillover_par s) - 1"
    by (subst unat_minus_one) auto
  show ?thesis
  proof (cases "?x < spillover_par s - 1")
    case True
    then have "unat ?x < unat (spillover_par s) - 1" by (simp add: word_less_nat_alt sp1)
    moreover from this have "unat (?x + 1) = unat ?x + 1"
      using unat_less_2p [of "spillover_par s"] by (subst unat_add_small) auto
    ultimately show ?thesis
      using True wrote_encode_normal [OF ok, of "?x + 1" off dst] z
      by (simp add: encode_value_zero_def Let_def value_code_def setup_pars_def)
  next
    case False
    then have "\<not> unat ?x < unat (spillover_par s) - 1" by (simp add: word_less_nat_alt sp1)
    moreover have "wrote (golomb_code (encoder_par1 s) 0 @ bits_msb (unat (max_data_bits s)) (?x + 1))
        off (max_stream_len s) dst (encode_value_zero data model off s dst)"
      using False wrote_encode_normal [OF ok, of 0 off dst] encoder_okD [OF ok]
      by (simp add: encode_value_zero_def Let_def) (intro wrote_unless_error wrote_put_n_bits32, auto)
    ultimately show ?thesis using z by (simp add: value_code_def setup_pars_def)
  qed
qed

lemma escape_symbol:
  fixes u :: u32
  defines "off \<equiv> (if u = 0 then 0 else drop_bit 1 (31 - word_of_nat (clz u))) :: u32"
  shows "unat off = escape_offset u" and "escape_offset u \<le> 15"
    and "unat (push_bit 1 (off + 1)) = 2 * (escape_offset u + 1)"
proof -
  have "31 - word_of_nat (clz u) = ilog_2 u" if "u \<noteq> 0" using that by (simp add: ilog_2_def)
  then have "u \<noteq> 0 \<Longrightarrow> off = drop_bit 1 (ilog_2 u)" by (simp add: off_def)
  then show off: "unat off = escape_offset u"
    by (auto simp: escape_offset_def off_def unat_drop_bit ilog_def)
  have "ilog u \<le> 31" if "u \<noteq> 0" using that by (rule ilog_le)
  then show le: "escape_offset u \<le> 15" by (auto simp: escape_offset_def)
  have "unat (off + 1) = escape_offset u + 1" using off le by (subst unat_add_small) simp_all
  then show "unat (push_bit 1 (off + 1)) = 2 * (escape_offset u + 1)"
    using le by (subst unat_push_bit) simp_all
qed

lemma wrote_encode_value_multi:
  assumes ok: "encoder_ok s" and z: "encode_method_f s = Encode_value_multi"
  shows "wrote (value_code (setup_pars s) (map_to_pos (data - model) (max_data_bits s)))
    off (max_stream_len s) dst (encode_value_multi data model off s dst)"
proof -
  let ?x = "map_to_pos (data - model) (max_data_bits s)"
  show ?thesis
  proof (cases "?x < spillover_par s")
    case True
    then show ?thesis using wrote_encode_normal [OF ok, of ?x off dst] z
      by (simp add: encode_value_multi_def Let_def value_code_def setup_pars_def word_less_nat_alt)
  next
    case False
    define u where "u = ?x - spillover_par s"
    define o1 where "o1 = (if u = 0 then 0 else drop_bit 1 (31 - word_of_nat (clz u)) :: u32)"
    note esc = escape_symbol [of u, folded o1_def]
    have "unat (spillover_par s) \<le> 2 ^ 22"
    proof -
      have v: "valid_pars (encoder_par1 s) (spillover_par s)" by (rule encoder_okD(1) [OF ok])
      then show ?thesis using cmp_icu_max_spill_less [of "encoder_par1 s"] by (simp add: valid_pars_def)
    qed
    then have sym: "unat (spillover_par s + o1) = unat (spillover_par s) + escape_offset u"
      using esc by (subst unat_add_small) simp_all
    have "wrote (golomb_code (encoder_par1 s) (unat (spillover_par s + o1)) @
          bits_msb (unat (push_bit 1 (o1 + 1))) u) off (max_stream_len s) dst
        (encode_value_multi data model off s dst)"
      unfolding encode_value_multi_def Let_def u_def [symmetric] o1_def [symmetric] if_not_P [OF False]
      using esc by (intro wrote_unless_error wrote_put_n_bits32 wrote_encode_normal ok) (simp_all add: sym)
    moreover have "value_code (setup_pars s) ?x =
        golomb_code (encoder_par1 s) (unat (spillover_par s) + escape_offset u) @
          bits_msb (2 * (escape_offset u + 1)) u"
      using False z by (simp add: value_code_def setup_pars_def Let_def flip: u_def)
    ultimately show ?thesis by (simp only: sym esc(3))
  qed
qed

text \<open>
  Whether a value fits the number of bits the setup allows, and the code word of a value and its
  model. A value that does not fit is an error, and nothing is written.
\<close>

definition fits_setup :: "encoder_setup \<Rightarrow> u32 \<Rightarrow> bool" where
  "fits_setup s v \<longleftrightarrow> unat (round_fwd v (lossy_par s)) < 2 ^ unat (max_data_bits s)"

definition sample_code :: "encoder_setup \<Rightarrow> u32 \<Rightarrow> u32 \<Rightarrow> bool list" where
  "sample_code s data model =
     value_code (setup_pars s)
       (map_to_pos (round_fwd data (lossy_par s) - round_fwd model (lossy_par s)) (max_data_bits s))"

lemma and_high_mask:
  fixes x n :: u32
  assumes "unat n \<le> 32"
  shows "x AND NOT (drop_bit (unat (32 - n)) 0xFFFFFFFF) = 0 \<longleftrightarrow> unat x < 2 ^ unat n"
proof -
  have "(0xFFFFFFFF :: u32) = - 1" by simp
  then have "x AND NOT (drop_bit (unat (32 - n)) 0xFFFFFFFF) = x AND NOT (mask (unat n))"
    using low_mask [OF assms] by (simp only:)
  moreover have "x AND NOT (mask k) = 0 \<longleftrightarrow> (\<forall>i \<ge> k. \<not> bit x i)" for k
    using bit_imp_le_length [of x]
    by (simp add: bit_eq_iff bit_and_iff bit_not_iff bit_mask_iff) (meson not_le)
  ultimately show ?thesis by (simp only: unat_less_iff_bits)
qed

lemma encode_value_too_large:
  assumes "unat (max_data_bits s) \<le> 32" and "\<not> (fits_setup s data \<and> fits_setup s model)"
  shows "encode_value data model off s dst = Some (CMP_ERROR CMP_ERROR_DATA_VALUE_TOO_LARGE, dst)"
  using assms and_high_mask [OF assms(1)] by (auto simp: encode_value_def fits_setup_def Let_def)

lemma wrote_encode_value:
  assumes ok: "encoder_ok s" and "fits_setup s data" "fits_setup s model"
  shows "wrote (sample_code s data model) off (max_stream_len s) dst (encode_value data model off s dst)"
proof -
  note mask = and_high_mask [OF encoder_okD(3) [OF ok]]
  have "encode_value data model off s dst =
      (let d = round_fwd data (lossy_par s); m = round_fwd model (lossy_par s)
       in case encode_method_f s of Encode_value_zero \<Rightarrow> encode_value_zero d m off s dst
          | Encode_value_multi \<Rightarrow> encode_value_multi d m off s dst)"
    using assms mask by (simp add: encode_value_def fits_setup_def Let_def)
  then show ?thesis
    using wrote_encode_value_zero [OF ok] wrote_encode_value_multi [OF ok]
    by (simp add: sample_code_def Let_def split: encode_method.split)
qed

end
