(* ===== verification/Bit_Reader.thy ===== *)
theory Bit_Reader
  imports Cmp_Support
begin

text \<open>
  The bitstream decoder context of \<open>lib/decompress/read_bitstream.h\<close>: a 64-bit register that
  is refilled from the stream. The pointers \<open>cursor\<close> and \<open>limit_ptr\<close> are indices into the
  stream, which the model's context carries; a load outside of it, an index beyond the table
  \<open>BIT_MASK\<close> and an assertion that fails are \<open>None\<close>.
\<close>

section \<open>The context and its operations\<close>

record bit_decoder =
  dec_buf :: buffer
  bit_container :: u64
  bits_consumed :: u32
  cursor :: nat
  limit_ptr :: nat

datatype bit_status = BIT_OVERFLOW | BIT_END_OF_BUFFER | BIT_ALL_READ_IN | BIT_UNFINISHED

definition BIT_MASK :: "u32 list" where
  "BIT_MASK = [
     0,          1,          3,         7,         0xF,       0x1F,
     0x3F,       0x7F,       0xFF,      0x1FF,     0x3FF,     0x7FF,
     0xFFF,      0x1FFF,     0x3FFF,    0x7FFF,    0xFFFF,    0x1FFFF,
     0x3FFFF,    0x7FFFF,    0xFFFFF,   0x1FFFFF,  0x3FFFFF,  0x7FFFFF,
     0xFFFFFF,   0x1FFFFFF,  0x3FFFFFF, 0x7FFFFFF, 0xFFFFFFF, 0x1FFFFFFF,
     0x3FFFFFFF, 0x7FFFFFFF, 0xFFFFFFFF]"

definition BIT_MASK_at :: "u32 \<Rightarrow> u32 option" where
  "BIT_MASK_at i = (if unat i < length BIT_MASK then Some (BIT_MASK ! unat i) else None)"

definition bit_read_unaligned_64be :: "buffer \<Rightarrow> nat \<Rightarrow> u64 option" where
  "bit_read_unaligned_64be buf ptr = load_be 8 ptr buf"

text \<open>
  \<open>bit_init_decoder\<close> with the stream \<open>buf\<close>; the bytes of a stream shorter than the register
  are gathered one by one, and moved to the low end of the register.
\<close>

definition short_container :: "buffer \<Rightarrow> u64" where
  "short_container buf =
     (let c = push_bit 56 (ucast (buf ! 0));
          c = (if 7 \<le> length buf then c + push_bit 8 (ucast (buf ! 6)) else c);
          c = (if 6 \<le> length buf then c + push_bit 16 (ucast (buf ! 5)) else c);
          c = (if 5 \<le> length buf then c + push_bit 24 (ucast (buf ! 4)) else c);
          c = (if 4 \<le> length buf then c + push_bit 32 (ucast (buf ! 3)) else c);
          c = (if 3 \<le> length buf then c + push_bit 40 (ucast (buf ! 2)) else c);
          c = (if 2 \<le> length buf then c + push_bit 48 (ucast (buf ! 1)) else c)
      in c)"

definition bit_init_decoder :: "buffer \<Rightarrow> bit_decoder option" where
  "bit_init_decoder buf =
     (let buf_size = length buf
      in if buf_size < 1 then
           Some \<lparr>dec_buf = buf, bit_container = 0, bits_consumed = 64, cursor = 0, limit_ptr = 0\<rparr>
         else if buf_size \<ge> 8 then do {
           c \<leftarrow> bit_read_unaligned_64be buf 0;
           Some \<lparr>dec_buf = buf, bit_container = c, bits_consumed = 0, cursor = 0,
                 limit_ptr = buf_size - 8\<rparr>
         } else
           let consumed = word_of_nat (8 - buf_size) * 8
           in Some \<lparr>dec_buf = buf, bit_container = drop_bit (unat consumed) (short_container buf),
                    bits_consumed = consumed, cursor = 0, limit_ptr = 0\<rparr>)"

text \<open>The result of \<open>bit_peek_bits\<close>, and the function with its assertion.\<close>

definition top_bits :: "bit_decoder \<Rightarrow> u32 \<Rightarrow> u64" where
  "top_bits dec nb_bits =
     drop_bit (unat (64 - nb_bits))
       (push_bit (unat (bits_consumed dec AND 0x3F)) (bit_container dec))"

definition bit_peek_bits :: "bit_decoder \<Rightarrow> u32 \<Rightarrow> u64 option" where
  "bit_peek_bits dec nb_bits =
     (if nb_bits \<ge> 1 \<and> nb_bits \<le> 64 - 7 then Some (top_bits dec nb_bits) else None)"

definition bit_peek_leading_ones :: "bit_decoder \<Rightarrow> u32" where
  "bit_peek_leading_ones dec =
     (let remaining_flip = NOT (push_bit (unat (bits_consumed dec AND 0x3F)) (bit_container dec))
      in if remaining_flip \<noteq> 0 then word_of_nat (clz remaining_flip) else 64)"

definition bit_consume_bits :: "bit_decoder \<Rightarrow> u32 \<Rightarrow> bit_decoder" where
  "bit_consume_bits dec nb_bits = dec\<lparr>bits_consumed := bits_consumed dec + nb_bits\<rparr>"

definition bit_read_bits :: "bit_decoder \<Rightarrow> u32 \<Rightarrow> (u64 \<times> bit_decoder) option" where
  "bit_read_bits dec nb_bits = do {
     read_bits \<leftarrow> bit_peek_bits dec nb_bits;
     Some (read_bits, bit_consume_bits dec nb_bits)
   }"

definition bit_read_bits32 :: "bit_decoder \<Rightarrow> u32 \<Rightarrow> (u32 \<times> bit_decoder) option" where
  "bit_read_bits32 dec nb_bits =
     (if nb_bits \<le> 32 then do {
        (v, dec) \<leftarrow> bit_read_bits dec nb_bits;
        Some (ucast v, dec)
      } else None)"

definition bit_read_bits32_sub_1 :: "bit_decoder \<Rightarrow> u32 \<Rightarrow> (u32 \<times> bit_decoder) option" where
  "bit_read_bits32_sub_1 dec nb_bits =
     (let shift_bits = (64 - bits_consumed dec - nb_bits) AND 63
      in if nb_bits \<le> 32 then
           let bits_unmask = ucast (drop_bit (unat shift_bits) (bit_container dec)) :: u32;
               dec = bit_consume_bits dec nb_bits
           in do {
             mask \<leftarrow> BIT_MASK_at nb_bits;
             Some ((bits_unmask - 1) AND mask, dec)
           }
         else None)"

definition bit_refill :: "bit_decoder \<Rightarrow> (bit_status \<times> bit_decoder) option" where
  "bit_refill dec =
     (let bytes_consumed = unat (drop_bit 3 (bits_consumed dec))
      in if bits_consumed dec > 64 then Some (BIT_OVERFLOW, dec)
         else if cursor dec + bytes_consumed < limit_ptr dec then do {
           let cur = cursor dec + bytes_consumed;
           c \<leftarrow> bit_read_unaligned_64be (dec_buf dec) cur;
           Some (BIT_UNFINISHED, dec\<lparr>cursor := cur, bit_container := c,
             bits_consumed := bits_consumed dec AND 0x7\<rparr>)
         } else if cursor dec = limit_ptr dec then
           Some (if bits_consumed dec = 64 then BIT_ALL_READ_IN else BIT_END_OF_BUFFER, dec)
         else do {
           let consumed = bits_consumed dec - word_of_nat (limit_ptr dec - cursor dec) * 8;
           c \<leftarrow> bit_read_unaligned_64be (dec_buf dec) (limit_ptr dec);
           Some (BIT_END_OF_BUFFER, dec\<lparr>bits_consumed := consumed, cursor := limit_ptr dec,
             bit_container := c\<rparr>)
         })"

definition bit_end_of_stream :: "bit_decoder \<Rightarrow> bool" where
  "bit_end_of_stream dec \<longleftrightarrow> cursor dec = limit_ptr dec \<and> bits_consumed dec = 64"

section \<open>The unread bits\<close>

text \<open>
  The register holds a window of the stream; the bits that are still to be read are its
  unconsumed part and the part of the buffer behind it.
\<close>

definition bit_window :: "bit_decoder \<Rightarrow> bool list" where
  "bit_window dec = drop (unat (bits_consumed dec)) (bits_msb 64 (bit_container dec))"

definition remaining :: "bit_decoder \<Rightarrow> bool list" where
  "remaining dec = bit_window dec @ drop (8 * (cursor dec + 8)) (bits_of_bytes (dec_buf dec))"

definition reader_inv :: "bit_decoder \<Rightarrow> bool" where
  "reader_inv dec \<longleftrightarrow>
     cursor dec = limit_ptr dec \<and> length (dec_buf dec) \<le> limit_ptr dec + 8 \<or>
     cursor dec < limit_ptr dec \<and> limit_ptr dec + 8 = length (dec_buf dec) \<and>
       load_be 8 (cursor dec) (dec_buf dec) = Some (bit_container dec)"

text \<open>Right after a refill the register holds 57 bits, or all that is left.\<close>

definition ready :: "bit_decoder \<Rightarrow> bool" where
  "ready dec \<longleftrightarrow> reader_inv dec \<and> unat (bits_consumed dec) \<le> 64 \<and>
     (cursor dec = limit_ptr dec \<or> unat (bits_consumed dec) \<le> 7)"

lemma length_bit_window [simp]: "length (bit_window dec) = 64 - unat (bits_consumed dec)"
  by (simp add: bit_window_def)

lemma remaining_loaded:
  assumes "load_be 8 (cursor dec) (dec_buf dec) = Some (bit_container dec)"
    and "unat (bits_consumed dec) \<le> 64"
  shows "remaining dec = drop (8 * cursor dec + unat (bits_consumed dec)) (bits_of_bytes (dec_buf dec))"
proof -
  let ?bs = "bits_of_bytes (dec_buf dec)"
  have "bits_msb 64 (bit_container dec) = take 64 (drop (8 * cursor dec) ?bs)"
    using bits_msb_load_be [OF assms(1)] by simp
  moreover have "8 * (cursor dec + 8) = 8 * cursor dec + 64" by simp
  ultimately show ?thesis
    using splice_window [OF assms(2), of "8 * cursor dec" ?bs]
    by (simp only: remaining_def bit_window_def)
qed

lemma unat_and_7: "unat (x AND 0x7 :: u32) = unat x mod 8"
proof -
  have "x AND 0x7 = take_bit 3 x" by (simp add: take_bit_eq_mask mask_numeral)
  then show ?thesis by (simp add: take_bit_eq_mod unat_mod)
qed

lemma unat_and_63: "unat (x AND 0x3F :: u32) = unat x mod 64"
proof -
  have "x AND 0x3F = take_bit 6 x" by (simp add: take_bit_eq_mask mask_numeral)
  then show ?thesis by (simp add: take_bit_eq_mod unat_mod)
qed

lemma unat_bytes_to_bits: "k \<le> 8 \<Longrightarrow> unat (word_of_nat k * 8 :: u32) = k * 8"
  by (subst unat_mult_lem [THEN iffD1]) (simp_all add: unat_of_nat take_bit_nat_eq_self)

section \<open>Refilling\<close>

lemma bit_refill_overflow:
  "bits_consumed dec > 64 \<Longrightarrow> bit_refill dec = Some (BIT_OVERFLOW, dec)"
  by (simp add: bit_refill_def Let_def)

lemma refill_step:
  assumes inv: "limit_ptr dec + 8 = length (dec_buf dec)"
    and c: "load_be 8 (cursor dec) (dec_buf dec) = Some (bit_container dec)"
      "unat (bits_consumed dec) \<le> 64"
    and c': "load_be 8 (cursor dec') (dec_buf dec) = Some (bit_container dec')"
      "unat (bits_consumed dec') \<le> 64"
    and eq: "dec_buf dec' = dec_buf dec" "limit_ptr dec' = limit_ptr dec"
      "8 * cursor dec' + unat (bits_consumed dec') = 8 * cursor dec + unat (bits_consumed dec)"
    and at: "cursor dec' = limit_ptr dec' \<or> cursor dec' < limit_ptr dec' \<and> unat (bits_consumed dec') \<le> 7"
  shows "ready dec'" and "remaining dec' = remaining dec"
  using remaining_loaded [OF c] remaining_loaded [of dec'] c' eq inv at
  by (auto simp: ready_def reader_inv_def)

lemma bit_refill_ready:
  assumes inv: "reader_inv dec" and c: "unat (bits_consumed dec) \<le> 64"
  shows "\<exists>st dec'. bit_refill dec = Some (st, dec') \<and> st \<noteq> BIT_OVERFLOW \<and> ready dec' \<and>
    remaining dec' = remaining dec \<and> (st = BIT_ALL_READ_IN \<longleftrightarrow> remaining dec = [])"
proof -
  let ?c = "unat (bits_consumed dec)" and ?cur = "cursor dec + unat (bits_consumed dec) div 8"
  have no: "\<not> bits_consumed dec > 64" using c by (simp add: word_less_nat_alt)
  have bytes: "unat (drop_bit 3 (bits_consumed dec)) = ?c div 8" by (simp add: unat_drop_bit)
  show ?thesis
  proof (cases "cursor dec = limit_ptr dec")
    case True
    then have "\<not> ?cur < limit_ptr dec" by simp
    moreover have "bits_consumed dec = 64 \<longleftrightarrow> ?c = 64" by (simp add: word_unat_eq_iff)
    moreover have "remaining dec = bit_window dec"
      using inv True by (auto simp: remaining_def reader_inv_def)
    then have "remaining dec = [] \<longleftrightarrow> ?c = 64"
      using c by (simp flip: length_0_conv)
    ultimately show ?thesis using True no c inv
      by (simp add: bit_refill_def Let_def bytes ready_def)
  next
    case False
    then have lt: "cursor dec < limit_ptr dec" and len: "limit_ptr dec + 8 = length (dec_buf dec)"
      and load: "load_be 8 (cursor dec) (dec_buf dec) = Some (bit_container dec)"
      using inv by (auto simp: reader_inv_def)
    have rem: "remaining dec \<noteq> []"
      using lt len c by (simp add: remaining_loaded [OF load c])
    show ?thesis
    proof (cases "?cur < limit_ptr dec")
      case True
      then obtain w where w: "load_be 8 ?cur (dec_buf dec) = Some (w :: u64)"
        using len load_be_Some [of ?cur 8 "dec_buf dec"] by auto
      let ?dec = "dec\<lparr>cursor := ?cur, bit_container := w, bits_consumed := bits_consumed dec AND 0x7\<rparr>"
      have "ready ?dec" "remaining ?dec = remaining dec"
        by (rule refill_step [OF len load c]; use True w in \<open>simp add: unat_and_7\<close>)+
      then show ?thesis using True no w rem
        by (simp add: bit_refill_def Let_def bytes bit_read_unaligned_64be_def)
    next
      case over: False
      obtain w where w: "load_be 8 (limit_ptr dec) (dec_buf dec) = Some (w :: u64)"
        using len load_be_Some [of "limit_ptr dec" 8 "dec_buf dec"] by auto
      let ?k = "limit_ptr dec - cursor dec"
      let ?n = "bits_consumed dec - word_of_nat ?k * 8"
      have k: "?k \<le> ?c div 8" "?k \<le> 8" using over c by auto
      have "unat (word_of_nat ?k * 8 :: u32) = ?k * 8"
        using k(2) by (rule unat_bytes_to_bits)
      then have n: "unat ?n = ?c - ?k * 8"
        using k by (subst unat_sub) (simp_all add: word_le_nat_alt)
      let ?dec = "dec\<lparr>bits_consumed := ?n, cursor := limit_ptr dec, bit_container := w\<rparr>"
      have "ready ?dec" "remaining ?dec = remaining dec"
        by (rule refill_step [OF len load c]; use w n k c lt in simp)+
      then show ?thesis using over False no w rem
        by (simp add: bit_refill_def Let_def bytes bit_read_unaligned_64be_def)
    qed
  qed
qed

text \<open>A refill never reads outside of the stream, whatever has been consumed.\<close>

lemma bit_refill_safe:
  assumes "reader_inv dec"
  shows "\<exists>st dec'. bit_refill dec = Some (st, dec') \<and> reader_inv dec' \<and>
    (st = BIT_OVERFLOW \<longrightarrow> dec' = dec)"
proof (cases "bits_consumed dec > 64")
  case True
  then show ?thesis using assms by (simp add: bit_refill_overflow)
next
  case False
  then have "unat (bits_consumed dec) \<le> 64" by (simp add: word_less_nat_alt not_less)
  from bit_refill_ready [OF assms this] show ?thesis by (auto simp: ready_def)
qed

section \<open>Starting to read\<close>

lemma plus_byte:
  fixes x :: u64 and b :: u8
  assumes "\<forall>k. bit x k \<longrightarrow> k < j \<or> j + 8 \<le> k"
  shows "x + push_bit j (ucast b) = x OR push_bit j (ucast b)"
  using assms
  by (intro disjunctive_add)
    (fastforce simp: bit_push_bit_iff bit_ucast_iff dest: bit_imp_le_length [of b])

lemma bit_byte:
  fixes b :: u8
  shows "bit (push_bit j (ucast b) :: u64) k \<longleftrightarrow> j \<le> k \<and> k < j + 8 \<and> k < 64 \<and> bit b (k - j)"
  by (auto simp: bit_push_bit_iff bit_ucast_iff dest: bit_imp_le_length)

lemmas byte_sum = plus_byte bit_byte bit_or_iff push_bit_or be_word_def ucast_0

lemma short_buffer_cases:
  assumes "0 < length buf" and "length buf < 8"
  obtains a where "buf = [a]" | a b where "buf = [a, b]" | a b c where "buf = [a, b, c]"
  | a b c d where "buf = [a, b, c, d]" | a b c d e where "buf = [a, b, c, d, e]"
  | a b c d e f where "buf = [a, b, c, d, e, f]" | a b c d e f g where "buf = [a, b, c, d, e, f, g]"
proof -
  consider "length buf = 1" | "length buf = 2" | "length buf = 3" | "length buf = 4"
    | "length buf = 5" | "length buf = 6" | "length buf = 7"
    using assms by linarith
  then show ?thesis
    by cases (use that in \<open>auto simp: length_Suc_conv numeral_eq_Suc\<close>)
qed

lemma short_container_be_word:
  assumes "0 < length buf" and "length buf < 8"
  shows "short_container buf = push_bit (64 - 8 * length buf) (be_word buf)"
  using assms
  by (cases rule: short_buffer_cases)
    (simp_all add: short_container_def Let_def byte_sum or.assoc or.left_commute or.commute)

lemma bit_init_decoder_ready:
  "\<exists>dec. bit_init_decoder buf = Some dec \<and> ready dec \<and> remaining dec = bits_of_bytes buf"
proof -
  consider "length buf = 0" | "0 < length buf" "length buf < 8" | "8 \<le> length buf" by linarith
  then show ?thesis
  proof cases
    case 1
    then show ?thesis
      by (simp add: bit_init_decoder_def ready_def reader_inv_def remaining_def bit_window_def)
  next
    case 2
    let ?c = "word_of_nat (8 - length buf) * 8 :: u32" and ?n = "8 * length buf"
    let ?w = "drop_bit (unat ?c) (short_container buf)"
    have c: "unat ?c = 64 - ?n" by (subst unat_bytes_to_bits) simp_all
    have "drop (unat ?c) (bits_msb 64 ?w) = bits_msb ?n (be_word buf :: u64)"
      unfolding c drop_bits_msb short_container_be_word [OF 2] using 2
      by (auto intro!: bits_msb_cong simp: bit_drop_bit_eq bit_push_bit_iff)
    also have "\<dots> = bits_of_bytes buf" using 2 by (intro bits_msb_be_word) simp
    finally show ?thesis using 2 c
      by (simp add: bit_init_decoder_def Let_def ready_def reader_inv_def remaining_def bit_window_def)
  next
    case 3
    then obtain w where w: "load_be 8 0 buf = Some (w :: u64)"
      using load_be_Some [of 0 8 buf] by auto
    let ?dec = "\<lparr>dec_buf = buf, bit_container = w, bits_consumed = 0, cursor = 0,
      limit_ptr = length buf - 8\<rparr>"
    have "remaining ?dec = bits_of_bytes buf" using w by (subst remaining_loaded) simp_all
    moreover have "ready ?dec" using 3 w by (auto simp: ready_def reader_inv_def)
    moreover have "bit_init_decoder buf = Some ?dec" using 3 w
      by (auto simp: bit_init_decoder_def bit_read_unaligned_64be_def Let_def)
    ultimately show ?thesis by blast
  qed
qed

section \<open>Reading\<close>

lemma bits_msb_push_bit:
  fixes w :: "'a::len word"
  assumes "c \<le> n" and "n \<le> LENGTH('a)"
  shows "bits_msb n (push_bit c w) = drop c (bits_msb n w) @ replicate c False"
  using assms
  by (intro nth_equalityI)
    (auto simp: nth_append nth_bits_msb bit_push_bit_iff add.commute)

text \<open>The register with the consumed bits shifted out.\<close>

lemma bits_shifted_container:
  assumes "unat (bits_consumed dec) < 64"
  shows "bits_msb 64 (push_bit (unat (bits_consumed dec AND 0x3F)) (bit_container dec)) =
    bit_window dec @ replicate (unat (bits_consumed dec)) False"
  using assms by (simp add: unat_and_63 bits_msb_push_bit bit_window_def)

lemma unat_64_minus: "unat n \<le> 64 \<Longrightarrow> unat (64 - n :: u32) = 64 - unat n"
  by (subst unat_sub) (simp_all add: word_le_nat_alt)

lemma bits_peek:
  assumes "unat n \<le> 64" and "unat (bits_consumed dec) < 64"
  shows "bits_msb (unat n) (top_bits dec n) =
    take (unat n) (bit_window dec @ replicate (unat (bits_consumed dec)) False)"
  using take_bits_msb [of "unat n" 64 "push_bit (unat (bits_consumed dec AND 0x3F)) (bit_container dec)"]
    assms
  by (simp only: bits_shifted_container) (simp add: top_bits_def unat_64_minus)

lemma unat_peek_less:
  assumes "unat n \<le> 64"
  shows "unat (top_bits dec n) < 2 ^ unat n"
  using assms
  by (auto simp: unat_less_iff_bits top_bits_def unat_64_minus bit_drop_bit_eq
      dest: bit_imp_le_length)

lemma clz_from_NOT:
  fixes x :: "'a::len word"
  shows "n \<le> LENGTH('a) \<Longrightarrow>
     clz_from n (NOT x) = length (takeWhile (\<lambda>b. b) (bits_msb n x))"
  by (induction n) (simp_all add: bits_msb_Suc bit_not_iff)

lemma unat_peek_leading_ones:
  assumes "unat (bits_consumed dec) < 64"
  shows "unat (bit_peek_leading_ones dec) =
    length (takeWhile (\<lambda>b. b) (bit_window dec @ replicate (unat (bits_consumed dec)) False))"
proof -
  let ?x = "push_bit (unat (bits_consumed dec AND 0x3F)) (bit_container dec)"
  have len: "length (takeWhile (\<lambda>b. b) (bits_msb 64 ?x)) \<le> 64"
    using length_takeWhile_le [of "\<lambda>b. b" "bits_msb 64 ?x"] by simp
  have clz: "clz (NOT ?x) = length (takeWhile (\<lambda>b. b) (bits_msb 64 ?x))"
    by (simp add: clz_def clz_from_NOT)
  show ?thesis
  proof (cases "NOT ?x = 0")
    case True
    then have "?x = NOT 0" by (metis bit.double_compl)
    then have "bits_msb 64 ?x = replicate 64 True"
      by (intro nth_equalityI) (auto simp: nth_bits_msb bit_not_iff)
    then show ?thesis
      using True by (simp add: bit_peek_leading_ones_def bits_shifted_container [OF assms, symmetric])
  next
    case False
    then show ?thesis
      using len by (simp add: bit_peek_leading_ones_def Let_def clz unat_of_nat take_bit_nat_eq_self
          bits_shifted_container [OF assms, symmetric])
  qed
qed

text \<open>Reads of at most 32 bits do not fail.\<close>

lemma bit_peek_bits_Some:
  "0 < unat n \<Longrightarrow> unat n \<le> 57 \<Longrightarrow> bit_peek_bits dec n = Some (top_bits dec n)"
  by (simp add: bit_peek_bits_def word_le_nat_alt)

lemma bit_read_bits32_Some:
  "0 < unat n \<Longrightarrow> unat n \<le> 32 \<Longrightarrow>
     bit_read_bits32 dec n = Some (ucast (top_bits dec n), bit_consume_bits dec n)"
  by (simp add: bit_read_bits32_def bit_read_bits_def bit_peek_bits_Some word_le_nat_alt)

lemma BIT_MASK_at_Some: "unat n \<le> 32 \<Longrightarrow> BIT_MASK_at n = Some (BIT_MASK ! unat n)"
proof -
  have "length BIT_MASK = 33" by (simp add: BIT_MASK_def)
  then show "unat n \<le> 32 \<Longrightarrow> BIT_MASK_at n = Some (BIT_MASK ! unat n)" by (simp add: BIT_MASK_at_def)
qed

lemma bit_read_bits32_sub_1_Some:
  "unat n \<le> 32 \<Longrightarrow> bit_read_bits32_sub_1 dec n =
     Some ((ucast (drop_bit (unat ((64 - bits_consumed dec - n) AND 63)) (bit_container dec)) - 1) AND
       BIT_MASK ! unat n, bit_consume_bits dec n)"
  by (simp add: bit_read_bits32_sub_1_def BIT_MASK_at_Some word_le_nat_alt Let_def)

text \<open>Words are determined by their low bits when they have no others.\<close>

lemma word_eqI_bits:
  fixes v w :: "'a::len word"
  assumes "bits_msb n v = bits_msb n w" and "unat v < 2 ^ n" and "unat w < 2 ^ n"
  shows "v = w"
proof (rule bit_word_eqI)
  fix k
  show "bit v k = bit w k"
    using bits_msb_eqD [OF assms(1), of k] assms(2,3) by (cases "k < n") (auto simp: unat_less_iff_bits)
qed

lemma bit_consume_consume [simp]:
  "bit_consume_bits (bit_consume_bits dec a) b = bit_consume_bits dec (a + b)"
  by (simp add: bit_consume_bits_def ac_simps)

lemma bit_consume_simps [simp]:
  "bits_consumed (bit_consume_bits dec n) = bits_consumed dec + n"
  "bit_container (bit_consume_bits dec n) = bit_container dec"
  "reader_inv (bit_consume_bits dec n) \<longleftrightarrow> reader_inv dec"
  by (simp_all add: bit_consume_bits_def reader_inv_def)

text \<open>A prefix of the unread bits that is at most a word long is in the register.\<close>

lemma prefix_in_window:
  assumes "ready dec" and "remaining dec = code @ rest" and "length code \<le> 57"
  obtains w where "bit_window dec = code @ w"
    and "unat (bits_consumed dec) + length code \<le> 64"
proof -
  have "length code \<le> length (bit_window dec)"
  proof (cases "cursor dec = limit_ptr dec")
    case True
    then have "remaining dec = bit_window dec"
      using assms(1) by (auto simp: ready_def reader_inv_def remaining_def)
    then show ?thesis using arg_cong [OF assms(2), of length] by simp
  next
    case False
    then show ?thesis using assms(1,3) by (auto simp: ready_def)
  qed
  moreover from this have "take (length code) (bit_window dec) = code"
    using assms(2) by (metis append_eq_conv_conj remaining_def take_append diff_is_0_eq' take_0 append_Nil2)
  ultimately show ?thesis
    using that [of "drop (length code) (bit_window dec)"] assms(1)
    by (metis append_take_drop_id length_bit_window le_diff_conv2 add.commute ready_def)
qed

lemma bit_window_consume:
  assumes "bit_window dec = code @ w" and "unat (bits_consumed dec) + length code \<le> 64"
    and n: "unat n = length code"
  shows "bit_window (bit_consume_bits dec n) = w"
    and "unat (bits_consumed (bit_consume_bits dec n)) = unat (bits_consumed dec) + length code"
proof -
  show c: "unat (bits_consumed (bit_consume_bits dec n)) = unat (bits_consumed dec) + length code"
    using assms(2) by (simp add: n [symmetric] unat_add_small)
  have "drop (length code) (bit_window dec) = w" using assms(1) by simp
  then show "bit_window (bit_consume_bits dec n) = w"
    by (simp only: bit_window_def c) (simp add: add.commute)
qed

lemma remaining_consume:
  assumes "bit_window dec = code @ w" and "remaining dec = code @ rest"
    and "unat (bits_consumed dec) + length code \<le> 64" and n: "unat n = length code"
  shows "remaining (bit_consume_bits dec n) = rest"
  using assms bit_window_consume(1) [OF assms(1,3,4)]
  by (simp add: remaining_def) (simp add: bit_consume_bits_def)

end
