(* ===== verification/Value_Decoder.thy ===== *)
theory Value_Decoder
  imports Value_Encoder Bit_Reader
begin

text \<open>
  Decoding one value (\<open>lib/decompress/decmp.c\<close>, from \<open>unary_decoder\<close> to
  \<open>configure_decoder_setup\<close>), and the round trip with the encoder: decoding the code of a value
  gives the value back, up to lossy rounding, and leaves the rest of the stream.

  The setups of one sample share a pointer to one bitstream context; the model passes the context
  as an argument and returns it. A result is the error of the C function (0 for none), the value
  at \<open>*decoded_value\<close> and the context, or \<open>None\<close> when an assertion fails or a table is read
  out of its bounds.
\<close>

section \<open>The decoder\<close>

definition unary_decoder :: "bit_decoder \<Rightarrow> u32 \<Rightarrow> u32 \<Rightarrow> u32 \<times> bit_decoder" where
  "unary_decoder dec m log2_m =
     (let decoded_cw = bit_peek_leading_ones dec;
          cw_len = decoded_cw + 1
      in (decoded_cw, bit_consume_bits dec cw_len))"

type_synonym decoder_ptr = "bit_decoder \<Rightarrow> u32 \<Rightarrow> u32 \<Rightarrow> (u32 \<times> bit_decoder) option"

definition rice_decoder :: decoder_ptr where
  "rice_decoder dec m log2_m =
     (if log2_m > 0 \<and> log2_m < 32 then do {
        let (q, dec) = unary_decoder dec m log2_m;
        (r, dec) \<leftarrow> bit_read_bits32 dec log2_m;
        Some (push_bit (unat log2_m) q + r, dec)
      } else None)"

definition golomb_decoder :: decoder_ptr where
  "golomb_decoder dec m log2_m =
     (if m > 0 \<and> log2_m = ilog_2 m then do {
        let (q, dec) = unary_decoder dec m log2_m;
        v \<leftarrow> bit_peek_bits dec (log2_m + 1);
        let r2 = (ucast v :: u32);
        let r1 = drop_bit 1 r2;
        let cutoff = push_bit (unat log2_m) 0x2 - m;
        let (r, dec) =
          (if r1 < cutoff then (r1, bit_consume_bits dec log2_m)
           else (r2 - cutoff, bit_consume_bits dec (log2_m + 1)));
        Some (q * m + r, dec)
      } else None)"

definition select_decoder :: "u32 \<Rightarrow> decoder_ptr option" where
  "select_decoder golomb_par =
     (if golomb_par > 0 then
        Some (if golomb_par = 1 then (\<lambda>dec m log2_m. Some (unary_decoder dec m log2_m))
          else if is_a_pow_of_2 golomb_par then rice_decoder else golomb_decoder)
      else None)"

datatype decode_method = Decode_zero | Decode_multi

record decoder_setup =
  decode_method_f :: decode_method
  decode_cw_f :: decoder_ptr
  dec_par1 :: u32
  dec_par2 :: u32
  outlier_par :: u32
  dec_lossy_par :: u32
  dec_max_data_bits :: u32

definition CORRUPTION_DETECTED :: int where
  "CORRUPTION_DETECTED = - 1"

type_synonym decode_result = "(int \<times> u32 \<times> bit_decoder) option"

text \<open>\<open>return bit_refill(setup->dec) == BIT_OVERFLOW;\<close>\<close>

definition refill_result :: "u32 \<Rightarrow> bit_decoder \<Rightarrow> decode_result" where
  "refill_result decoded_value dec = do {
     (status, dec) \<leftarrow> bit_refill dec;
     Some (if status = BIT_OVERFLOW then 1 else 0, decoded_value, dec)
   }"

text \<open>The status of the refill decides only whether a message is printed.\<close>

definition refill_corrupt :: "u32 \<Rightarrow> bit_decoder \<Rightarrow> decode_result" where
  "refill_corrupt decoded_value dec = do {
     (status, dec) \<leftarrow> bit_refill dec;
     Some (CORRUPTION_DETECTED, decoded_value, dec)
   }"

definition decode_zero :: "decoder_setup \<Rightarrow> bit_decoder \<Rightarrow> decode_result" where
  "decode_zero setup dec = do {
     (decoded_value, dec) \<leftarrow> decode_cw_f setup dec (dec_par1 setup) (dec_par2 setup);
     if decoded_value \<noteq> 0 then
       if decoded_value \<ge> outlier_par setup then Some (CORRUPTION_DETECTED, decoded_value, dec)
       else refill_result (decoded_value - 1) dec
     else do {
       (status, dec) \<leftarrow> bit_refill dec;
       (decoded_value, dec) \<leftarrow> bit_read_bits32_sub_1 dec (dec_max_data_bits setup);
       if decoded_value < outlier_par setup - 1 then refill_corrupt decoded_value dec
       else refill_result decoded_value dec
     }
   }"

definition decode_multi :: "decoder_setup \<Rightarrow> bit_decoder \<Rightarrow> decode_result" where
  "decode_multi setup dec = do {
     (decoded_value, dec) \<leftarrow> decode_cw_f setup dec (dec_par1 setup) (dec_par2 setup);
     if decoded_value \<ge> outlier_par setup then
       let unencoded_len = push_bit 1 (decoded_value - outlier_par setup + 1)
       in if unencoded_len > (dec_max_data_bits setup + 1) AND - 2
          then Some (CORRUPTION_DETECTED, decoded_value, dec)
          else do {
            (status, dec) \<leftarrow> bit_refill dec;
            (decoded_value, dec) \<leftarrow> bit_read_bits32 dec unencoded_len;
            if drop_bit (unat (unencoded_len - 2)) decoded_value = 0 \<and> unencoded_len > 2
            then refill_corrupt decoded_value dec
            else do {
              let decoded_value = decoded_value + outlier_par setup;
              mask \<leftarrow> BIT_MASK_at (dec_max_data_bits setup);
              if decoded_value AND mask < outlier_par setup then refill_corrupt decoded_value dec
              else refill_result decoded_value dec
            }
          }
     else refill_result decoded_value dec
   }"

definition re_map_to_pos :: "u32 \<Rightarrow> u32" where
  "re_map_to_pos value_to_unmap =
     (if value_to_unmap AND 0x1 \<noteq> 0
      then ucast (- ((ucast value_to_unmap + 1) div 2 :: u64))
      else value_to_unmap div 2)"

definition decode_value :: "decoder_setup \<Rightarrow> u32 \<Rightarrow> bit_decoder \<Rightarrow> decode_result" where
  "decode_value setup model dec = do {
     (err, decoded_value, dec) \<leftarrow> (case decode_method_f setup of
         Decode_zero \<Rightarrow> decode_zero setup dec
       | Decode_multi \<Rightarrow> decode_multi setup dec);
     let decoded_value = re_map_to_pos decoded_value;
     let decoded_value = decoded_value + round_fwd model (dec_lossy_par setup);
     mask \<leftarrow> BIT_MASK_at (dec_max_data_bits setup);
     let decoded_value = decoded_value AND mask;
     let decoded_value = round_inv decoded_value (dec_lossy_par setup);
     Some (err, decoded_value, dec)
   }"

text \<open>
  A parameter 0, a width outside of 1 to 32 and a mode that uses neither escape mechanism fail an
  assertion.
\<close>

definition configure_decoder_setup ::
  "cmp_mode \<Rightarrow> u32 \<Rightarrow> u32 \<Rightarrow> u32 \<Rightarrow> u32 \<Rightarrow> decoder_setup option" where
  "configure_decoder_setup mode cmp_par spillover lossy max_bits = (
     if cmp_par \<noteq> 0 \<and> max_bits > 0 \<and> max_bits \<le> 32 then do {
     method \<leftarrow> (if multi_escape_mech_is_used mode then Some Decode_multi
       else if zero_escape_mech_is_used mode then Some Decode_zero else None);
     cw_f \<leftarrow> select_decoder cmp_par;
     Some \<lparr>decode_method_f = method, decode_cw_f = cw_f,
       dec_par1 = cmp_par, dec_par2 = ilog_2 cmp_par, outlier_par = spillover,
       dec_lossy_par = lossy, dec_max_data_bits = max_bits\<rparr>
   } else None)"

section \<open>Code words\<close>

text \<open>What a read returns, when the register begins with the bits of a word.\<close>

lemma bit_read_bits32_word:
  fixes x :: u32
  assumes w: "bit_window dec = bits_msb (unat n) x @ w"
    and n: "0 < unat n" "unat n \<le> 32" and room: "unat (bits_consumed dec) + unat n \<le> 64"
    and x: "unat x < 2 ^ unat n"
  shows "bit_read_bits32 dec n = Some (x, bit_consume_bits dec n)"
proof -
  have n64: "unat n \<le> 64" and c: "unat (bits_consumed dec) < 64" using n room by linarith+
  let ?v = "ucast (top_bits dec n) :: u32"
  have "bits_msb (unat n) ?v = bits_msb (unat n) (top_bits dec n)"
    using n(2) by (intro bits_msb_ucast) simp
  also have "\<dots> = bits_msb (unat n) x" by (subst bits_peek [OF n64 c]) (simp add: w)
  finally have eq: "bits_msb (unat n) ?v = bits_msb (unat n) x" .
  have "unat ?v \<le> unat (top_bits dec n)"
    by (simp add: unsigned_ucast_eq take_bit_eq_mod)
  then have "unat ?v < 2 ^ unat n" using unat_peek_less [OF n64, of dec] by (rule le_less_trans)
  with eq x have "?v = x" by (intro word_eqI_bits)
  then show ?thesis by (simp only: bit_read_bits32_Some [OF n])
qed

lemma takeWhile_ones: "takeWhile (\<lambda>b. b) (replicate q True @ False # w) = replicate q True"
  by (induction q) simp_all

lemma unary_decoder_code:
  assumes w: "bit_window dec = replicate q True @ False # w"
    and room: "unat (bits_consumed dec) + q + 1 \<le> 64"
  shows "unary_decoder dec m l = (word_of_nat q, bit_consume_bits dec (word_of_nat (q + 1)))"
proof -
  have c: "unat (bits_consumed dec) < 64" using room by linarith
  have q: "unat (bit_peek_leading_ones dec) = q"
    unfolding unat_peek_leading_ones [OF c] w append_assoc append_Cons takeWhile_ones by simp
  have "word_of_nat q = bit_peek_leading_ones dec" unfolding q [symmetric] by simp
  then show ?thesis unfolding unary_decoder_def Let_def of_nat_add of_nat_1 by (simp only:)
qed

lemma after_unary:
  assumes "bit_window dec = replicate q True @ False # w"
    and "unat (bits_consumed dec) + q + 1 \<le> 64"
  shows "bit_window (bit_consume_bits dec (word_of_nat (q + 1))) = w"
    and "unat (bits_consumed (bit_consume_bits dec (word_of_nat (q + 1)))) =
      unat (bits_consumed dec) + (q + 1)"
  using bit_window_consume [of dec "replicate q True @ [False]" w "word_of_nat (q + 1)"] assms
  by (simp_all del: of_nat_add of_nat_Suc)

text \<open>
  \<open>decodes f dec code v\<close>: the code word decoder \<open>f\<close> returns \<open>v\<close> and consumes exactly the bits
  of \<open>code\<close>.
\<close>

definition decodes :: "(bit_decoder \<Rightarrow> (u32 \<times> bit_decoder) option) \<Rightarrow> bit_decoder \<Rightarrow> bool list \<Rightarrow> u32 \<Rightarrow> bool" where
  "decodes f dec code v \<longleftrightarrow>
     f dec = Some (v, bit_consume_bits dec (word_of_nat (length code)))"

lemma unat_mult_small: "unat a * unat b < 2 ^ 32 \<Longrightarrow> unat (a * b :: u32) = unat a * unat b"
  by (subst unat_mult_lem [THEN iffD1]) simp_all

lemma unary_decodes:
  assumes w: "bit_window dec = golomb_code 1 (unat v) @ w"
    and room: "unat (bits_consumed dec) + length (golomb_code 1 (unat v)) \<le> 64"
  shows "decodes (\<lambda>dec. Some (unary_decoder dec 1 l)) dec (golomb_code 1 (unat v)) v"
proof -
  have "ilog 1 = 0" by (rule ilog_unique) simp_all
  then have code: "golomb_code 1 (unat v) = replicate (unat v) True @ [False]"
    by (simp add: golomb_code_def truncated_binary_def golomb_cutoff_def)
  have "unary_decoder dec 1 l = (word_of_nat (unat v), bit_consume_bits dec (word_of_nat (unat v + 1)))"
    using w room by (intro unary_decoder_code) (simp_all add: code)
  then show ?thesis by (simp add: decodes_def code)
qed

lemma quotient_remainder:
  fixes v m :: u32
  shows "word_of_nat (unat v div unat m) * m + v mod m = v"
proof -
  have "word_of_nat (unat v div unat m) = v div m" by (simp flip: unat_div)
  then show ?thesis by (simp add: word_mod_div_equality)
qed

lemma rice_decodes:
  assumes m: "m \<noteq> 0" "m \<noteq> 1" "unat m \<le> 65535" "is_a_pow_of_2 m"
    and w: "bit_window dec = golomb_code m (unat v) @ w"
    and room: "unat (bits_consumed dec) + length (golomb_code m (unat v)) \<le> 64"
  shows "decodes (\<lambda>dec. rice_decoder dec m (ilog_2 m)) dec (golomb_code m (unat v)) v"
proof -
  let ?b = "ilog m" and ?q = "unat v div unat m" and ?r = "v mod m"
  have pow: "unat m = 2 ^ ?b" using is_a_pow_of_2_iff m by blast
  have b0: "0 < ?b" using pow m(2) by (cases "?b = 0") (auto simp: word_unat_eq_iff)
  have b: "?b \<le> 15" using ilog_16 m by blast
  have ub: "unat (ilog_2 m) = ?b" by (simp add: ilog_def)
  have r: "unat ?r = unat v mod unat m" by (rule unat_mod)
  have rlt: "unat ?r < 2 ^ ?b" by (simp only: r) (simp add: pow)
  have code: "golomb_code m (unat v) = replicate ?q True @ False # bits_msb ?b ?r"
    unfolding golomb_code_def truncated_binary_def
    by (simp add: golomb_cutoff_def pow r bits_msb_unat [of ?b ?r, symmetric])
  let ?d = "bit_consume_bits dec (word_of_nat (?q + 1))"
  have len: "length (golomb_code m (unat v)) = ?q + 1 + ?b" by (simp add: code)
  have u: "bit_window dec = replicate ?q True @ False # bits_msb ?b ?r @ w" using w by (simp add: code)
  have room1: "unat (bits_consumed dec) + ?q + 1 \<le> 64" using room len by linarith
  note un = unary_decoder_code [OF u room1]
  note au = after_unary [OF u room1]
  have "bit_read_bits32 ?d (ilog_2 m) = Some (?r, bit_consume_bits ?d (ilog_2 m))"
    using au b b0 room len rlt by (intro bit_read_bits32_word) (simp_all add: ub)
  moreover have "ilog_2 m = word_of_nat ?b" by (simp add: ilog_def)
  moreover have "unat (word_of_nat ?b :: u32) = ?b" using b by simp
  moreover have "ilog_2 m > 0 \<and> ilog_2 m < 32" using b b0 by (simp add: word_less_nat_alt ub)
  moreover have "push_bit ?b (word_of_nat ?q) + ?r = v"
  proof -
    have "m = word_of_nat (2 ^ ?b)" by (simp flip: pow)
    then have "push_bit ?b (word_of_nat ?q) = word_of_nat ?q * m" by (simp add: push_bit_eq_mult)
    then show ?thesis by (simp only: quotient_remainder)
  qed
  ultimately show ?thesis
    by (simp add: decodes_def rice_decoder_def un len ub add.commute add.left_commute)
qed

text \<open>
  The remainder: the decoder looks at one bit more than the short form has, which may lie beyond
  the end of the stream, and drops it again.
\<close>

lemma peek_remainder:
  fixes dec :: bit_decoder and k :: u32
  assumes c: "unat (bits_consumed dec) < 64" and k: "unat k \<le> 32"
  defines "r2 \<equiv> ucast (top_bits dec k) :: u32"
  shows "bits_msb (unat k) r2 = take (unat k) (bit_window dec @ replicate (unat (bits_consumed dec)) False)"
    and "unat r2 < 2 ^ unat k"
proof -
  have k64: "unat k \<le> 64" using k by simp
  have "bits_msb (unat k) r2 = bits_msb (unat k) (top_bits dec k)"
    unfolding r2_def using k by (intro bits_msb_ucast) simp
  then show "bits_msb (unat k) r2 = take (unat k) (bit_window dec @ replicate (unat (bits_consumed dec)) False)"
    by (simp only: bits_peek [OF k64 c])
  have "unat r2 \<le> unat (top_bits dec k)"
    by (simp add: r2_def unsigned_ucast_eq take_bit_eq_mod)
  then show "unat r2 < 2 ^ unat k" using unat_peek_less [OF k64, of dec] by (rule le_less_trans)
qed

lemma golomb_remainder:
  assumes m: "m \<noteq> 0" "unat m \<le> 65535" and b0: "0 < ilog m"
    and w: "bit_window dec = truncated_binary m (unat r) @ w" and r: "unat r < unat m"
    and c: "unat (bits_consumed dec) < 64"
  defines "r2 \<equiv> ucast (top_bits dec (ilog_2 m + 1)) :: u32"
    and "cutoff \<equiv> push_bit (ilog m) 2 - m"
  shows "if unat r < golomb_cutoff m then r < cutoff \<and> drop_bit 1 r2 = r
    else \<not> drop_bit 1 r2 < cutoff \<and> r2 - cutoff = r"
proof -
  let ?b = "ilog m" and ?c = "golomb_cutoff m"
  note cb = cutoff_bounds [OF m(1)]
  have b: "?b \<le> 15" using ilog_16 m by blast
  have cw: "unat cutoff = ?c" using shift_two_ilog(1) [OF m] by (simp add: cutoff_def golomb_cutoff_def)
  have k: "unat (ilog_2 m + 1) = ?b + 1"
    using b by (subst unat_add_small) (simp_all add: ilog_def [symmetric])
  have pk: "bits_msb (?b + 1) r2 = take (?b + 1) (bit_window dec @ replicate (unat (bits_consumed dec)) False)"
    "unat r2 < 2 ^ (?b + 1)"
    using peek_remainder [OF c, of "ilog_2 m + 1"] b unfolding k r2_def by simp_all
  show ?thesis
  proof (cases "unat r < ?c")
    case True
    then have tb: "truncated_binary m (unat r) = bits_msb ?b r"
      by (simp add: truncated_binary_def bits_msb_unat)
    have "bits_msb ?b (drop_bit 1 r2) = take ?b (bits_msb (?b + 1) r2)"
      by (subst take_bits_msb) simp_all
    also have "\<dots> = bits_msb ?b r" unfolding pk(1) w tb by (simp add: min_def)
    finally have "drop_bit 1 r2 = r"
      using True cb(1) pk(2) by (intro word_eqI_bits [of ?b]) (simp_all add: unat_drop_bit less_mult_imp_div_less)
    then show ?thesis using True by (simp add: word_less_nat_alt cw)
  next
    case False
    have sum: "unat (r + cutoff) = unat r + ?c"
      using r cb(3) cw b unat_less_2p [of m] m(2) cb(2) by (subst unat_add_small) simp_all
    then have "truncated_binary m (unat r) = bits_msb (?b + 1) (r + cutoff)"
      using False by (simp only: truncated_binary_def if_False sum [symmetric] bits_msb_unat)
    then have "bits_msb (?b + 1) r2 = bits_msb (?b + 1) (r + cutoff)" unfolding pk(1) w by simp
    moreover have "unat (r + cutoff) < 2 ^ (?b + 1)" unfolding sum using r cb(3) by linarith
    ultimately have r2: "r2 = r + cutoff" using pk(2) by (intro word_eqI_bits)
    have "\<not> drop_bit 1 r2 < cutoff"
      using False by (simp add: r2 word_less_nat_alt unat_drop_bit sum cw)
    then show ?thesis using False r2 by simp
  qed
qed

lemma golomb_decodes:
  assumes m: "m \<noteq> 0" "m \<noteq> 1" "unat m \<le> 65535"
    and w: "bit_window dec = golomb_code m (unat v) @ w"
    and room: "unat (bits_consumed dec) + length (golomb_code m (unat v)) \<le> 64"
  shows "decodes (\<lambda>dec. golomb_decoder dec m (ilog_2 m)) dec (golomb_code m (unat v)) v"
proof -
  let ?b = "ilog m" and ?q = "unat v div unat m" and ?r = "v mod m"
  have r: "unat ?r = unat v mod unat m" by (rule unat_mod)
  then have rlt: "unat ?r < unat m" using m(1) by (simp add: unat_gt_0)
  have "unat m \<noteq> 1" using m(2) by (simp add: word_unat_eq_iff)
  then have b0: "0 < ?b" using ilog_upper [OF m(1)] rlt by (cases "?b = 0") auto
  have ub: "unat (ilog_2 m) = ?b" "ilog_2 m = word_of_nat ?b" by (simp_all add: ilog_def)
  let ?tb = "truncated_binary m (unat ?r)" and ?d = "bit_consume_bits dec (word_of_nat (?q + 1))"
  have code: "golomb_code m (unat v) = replicate ?q True @ False # ?tb"
    by (simp add: golomb_code_def r)
  have tb: "?b \<le> length ?tb" by (simp add: truncated_binary_def)
  have len: "length (golomb_code m (unat v)) = ?q + 1 + length ?tb" by (simp add: code)
  have u: "bit_window dec = replicate ?q True @ False # ?tb @ w" using w by (simp add: code)
  have room1: "unat (bits_consumed dec) + ?q + 1 \<le> 64" using room len by linarith
  note un = unary_decoder_code [OF u room1]
  note au = after_unary [OF u room1]
  have c: "unat (bits_consumed ?d) < 64" using au(2) tb b0 room len by linarith
  have rem: "(let r2 = ucast (top_bits ?d (ilog_2 m + 1)) :: u32; r1 = drop_bit 1 r2;
        cutoff = push_bit (unat (ilog_2 m)) 0x2 - m
      in if r1 < cutoff then (r1, bit_consume_bits ?d (ilog_2 m))
         else (r2 - cutoff, bit_consume_bits ?d (ilog_2 m + 1))) =
    (?r, bit_consume_bits ?d (word_of_nat (length ?tb)))"
  proof (cases "unat ?r < golomb_cutoff m")
    case True
    then have "length ?tb = ?b" by (simp add: truncated_binary_def)
    with True golomb_remainder [OF m(1,3) b0 au(1) rlt c] show ?thesis
      unfolding Let_def ub(1) ub(2) [symmetric] by (simp only: if_True ub(2) simp_thms)
  next
    case False
    then have "word_of_nat (length ?tb) = ilog_2 m + 1" by (simp add: truncated_binary_def ub(2))
    with False golomb_remainder [OF m(1,3) b0 au(1) rlt c] show ?thesis
      unfolding Let_def ub(1) by (simp only: if_False simp_thms)
  qed
  have "unat (ilog_2 m + 1) = ?b + 1" using ilog_16 [OF m(1,3)] by (subst unat_add_small) (simp_all add: ub(1))
  then have peek: "bit_peek_bits ?d (ilog_2 m + 1) = Some (top_bits ?d (ilog_2 m + 1))"
    using ilog_16 [OF m(1,3)] by (intro bit_peek_bits_Some) simp_all
  have "m > 0" using m(1) by (simp add: word_neq_0_conv)
  then show ?thesis using rem
    unfolding golomb_decoder_def un Let_def prod.case decodes_def len peek bind.bind_lunit
    by (simp add: quotient_remainder add.assoc)
qed

section \<open>Positions in the stream\<close>

text \<open>
  \<open>positioned dec rest\<close>: nothing was consumed beyond the stream, and \<open>rest\<close> is still to be
  read. After a refill the decoder is moreover \<open>ready\<close>.
\<close>

definition positioned :: "bit_decoder \<Rightarrow> bool list \<Rightarrow> bool" where
  "positioned dec rest \<longleftrightarrow>
     reader_inv dec \<and> unat (bits_consumed dec) \<le> 64 \<and> remaining dec = rest"

definition ready_at :: "bit_decoder \<Rightarrow> bool list \<Rightarrow> bool" where
  "ready_at dec rest \<longleftrightarrow> ready dec \<and> remaining dec = rest"

lemma ready_at_positioned: "ready_at dec rest \<Longrightarrow> positioned dec rest"
  by (simp add: ready_at_def positioned_def ready_def)

lemma bit_refill_positioned:
  assumes "positioned dec rest"
  obtains st dec' where "bit_refill dec = Some (st, dec')" "st \<noteq> BIT_OVERFLOW" "ready_at dec' rest"
  using assms bit_refill_ready [of dec] by (auto simp: positioned_def ready_at_def)

lemma refill_result_positioned:
  assumes "positioned dec rest"
  shows "\<exists>dec'. refill_result v dec = Some (0, v, dec') \<and> ready_at dec' rest"
  using assms by (rule bit_refill_positioned) (simp add: refill_result_def)

lemma consume_positioned:
  assumes "ready_at dec (code @ rest)" and "length code \<le> 57" and "unat n = length code"
  shows "positioned (bit_consume_bits dec n) rest"
proof -
  have rd: "ready dec" and rem: "remaining dec = code @ rest" using assms(1) by (auto simp: ready_at_def)
  from prefix_in_window [OF rd rem assms(2)] obtain w
    where w: "bit_window dec = code @ w" and c: "unat (bits_consumed dec) + length code \<le> 64" .
  show ?thesis
    using remaining_consume [OF w rem c assms(3)] bit_window_consume(2) [OF w c assms(3)] c rd
    by (simp add: positioned_def ready_def)
qed

lemma decode_cw_positioned:
  assumes m: "m \<noteq> 0" "unat m \<le> 65535"
    and at: "ready_at dec (golomb_code m (unat v) @ rest)" and len: "length (golomb_code m (unat v)) \<le> 32"
  shows "\<exists>f dec'. select_decoder m = Some f \<and> f dec m (ilog_2 m) = Some (v, dec') \<and> positioned dec' rest"
proof -
  let ?code = "golomb_code m (unat v)"
  have rd: "ready dec" and rem: "remaining dec = ?code @ rest" using at by (auto simp: ready_at_def)
  have len57: "length ?code \<le> 57" using len by simp
  from prefix_in_window [OF rd rem this] obtain w
    where w: "bit_window dec = ?code @ w" and c: "unat (bits_consumed dec) + length ?code \<le> 64" .
  have "m > 0" using m(1) by (simp add: word_neq_0_conv)
  then obtain f where f: "select_decoder m = Some f" by (simp add: select_decoder_def)
  then have "decodes (\<lambda>dec. f dec m (ilog_2 m)) dec ?code v"
    unfolding select_decoder_def
    using unary_decodes [of dec v w] rice_decodes [OF m(1) _ m(2) _ w c] golomb_decodes [OF m(1) _ m(2) w c] w c
    by (auto split: if_splits)
  moreover have "positioned (bit_consume_bits dec (word_of_nat (length ?code))) rest"
    using at len57 by (rule consume_positioned) (use len in simp)
  ultimately show ?thesis using f by (simp add: decodes_def)
qed

lemma bit_read_bits32_positioned:
  fixes x :: u32
  assumes at: "ready_at dec (bits_msb (unat n) x @ rest)"
    and n: "0 < unat n" "unat n \<le> 32" and x: "unat x < 2 ^ unat n"
  shows "\<exists>dec'. bit_read_bits32 dec n = Some (x, dec') \<and> positioned dec' rest"
proof -
  have len: "length (bits_msb (unat n) x) \<le> 57" using n by simp
  from at have "ready dec" "remaining dec = bits_msb (unat n) x @ rest" by (auto simp: ready_at_def)
  from prefix_in_window [OF this len] obtain w where
    "bit_window dec = bits_msb (unat n) x @ w" "unat (bits_consumed dec) + length (bits_msb (unat n) x) \<le> 64" .
  then show ?thesis
    using bit_read_bits32_word [OF _ n _ x] consume_positioned [OF at len] by simp
qed

lemma BIT_MASK_nth: "n \<le> 32 \<Longrightarrow> BIT_MASK ! n = mask n"
proof -
  assume n: "n \<le> 32"
  have eq: "BIT_MASK = map mask [0..<33]" by code_simp
  show ?thesis unfolding eq using n by (subst nth_map_upt) simp_all
qed

lemma and_BIT_MASK: "n \<le> 32 \<Longrightarrow> x AND BIT_MASK ! n = take_bit n x"
  by (simp add: BIT_MASK_nth flip: take_bit_eq_mask)

lemma and_BIT_MASK_id: "n \<le> 32 \<Longrightarrow> unat x < 2 ^ n \<Longrightarrow> x AND BIT_MASK ! n = x"
  by (simp add: and_BIT_MASK take_bit_word_eq_self_iff)

lemma uint_take_bit_minus:
  fixes a b :: "'a::len word"
  shows "uint (take_bit n (a - b)) =
    take_bit (min LENGTH('a) n) (uint (take_bit n a) - uint (take_bit n b))"
proof -
  let ?l = "LENGTH('a)"
  have low: "take_bit (min ?l n) (uint (take_bit n x)) = take_bit (min ?l n) (uint x)" for x :: "'a word"
    by (simp add: unsigned_take_bit_eq min.absorb2 min.commute)
  have "uint (take_bit n (a - b)) = take_bit (min ?l n) (uint a - uint b)"
    by (simp add: unsigned_take_bit_eq uint_word_ariths flip: take_bit_eq_mod)
      (simp add: min.commute)
  also have "\<dots> = take_bit (min ?l n) (uint (take_bit n a) - uint (take_bit n b))"
    using take_bit_diff [of "min ?l n"] low by metis
  finally show ?thesis .
qed

lemma take_bit_cong_minus:
  fixes a a' b :: "'a::len word"
  assumes "take_bit n a = take_bit n a'"
  shows "take_bit n (a - b) = take_bit n (a' - b)"
  by (rule word_uint_eqI) (simp only: uint_take_bit_minus assms)

lemma take_bit_cong_minus2:
  fixes a b b' :: "'a::len word"
  assumes "take_bit n b = take_bit n b'"
  shows "take_bit n (a - b) = take_bit n (a - b')"
  by (rule word_uint_eqI) (simp only: uint_take_bit_minus assms)

lemma take_bit_cong_plus:
  fixes a a' b :: "'a::len word"
  assumes "take_bit n a = take_bit n a'"
  shows "take_bit n (a + b) = take_bit n (a' + b)"
  using take_bit_cong_minus [OF assms, of "- b"] by simp

lemma take_bit_eq_bitsI:
  fixes v w :: "'a::len word"
  assumes "bits_msb n v = bits_msb n w"
  shows "take_bit n v = take_bit n w"
  using bits_msb_eqD [OF assms] by (intro bit_word_eqI) (auto simp: bit_take_bit_iff)

lemma bit_read_bits32_sub_1_positioned:
  fixes x :: u32
  assumes at: "ready_at dec (bits_msb (unat n) (x + 1) @ rest)"
    and n: "0 < unat n" "unat n \<le> 32" and x: "unat x < 2 ^ unat n"
  shows "\<exists>dec'. bit_read_bits32_sub_1 dec n = Some (x, dec') \<and> positioned dec' rest"
proof -
  let ?c = "unat (bits_consumed dec)" and ?n = "unat n"
  have len: "length (bits_msb ?n (x + 1)) \<le> 57" using n by simp
  from at have "ready dec" "remaining dec = bits_msb ?n (x + 1) @ rest" by (auto simp: ready_at_def)
  from prefix_in_window [OF this len] obtain w where
    w: "bit_window dec = bits_msb ?n (x + 1) @ w" and "?c + length (bits_msb ?n (x + 1)) \<le> 64" .
  then have room: "?c + ?n \<le> 64" by simp
  have "unat (64 - bits_consumed dec) = 64 - ?c" using room by (intro unat_64_minus) simp
  then have "unat (64 - bits_consumed dec - n) = 64 - ?c - ?n"
    using room by (subst unat_sub) (simp_all add: word_le_nat_alt)
  then have sh: "unat ((64 - bits_consumed dec - n) AND 0x3F) = 64 - ?c - ?n"
    using n(1) by (simp only: unat_and_63) simp
  let ?v = "ucast (drop_bit (64 - ?c - ?n) (bit_container dec)) :: u32"
  have "bits_msb ?n ?v = bits_msb ?n (drop_bit (64 - ?c - ?n) (bit_container dec))"
    using n(2) by (intro bits_msb_ucast) simp
  also have "\<dots> = take ?n (bit_window dec)"
    using room by (simp add: bit_window_def drop_bits_msb take_bits_msb)
  finally have "take_bit ?n ?v = take_bit ?n (x + 1)" unfolding w by (intro take_bit_eq_bitsI) simp
  then have "take_bit ?n (?v - 1) = take_bit ?n x" using take_bit_cong_minus by fastforce
  then have "(?v - 1) AND BIT_MASK ! ?n = x"
    using x n(2) by (simp add: BIT_MASK_nth take_bit_word_eq_self_iff flip: take_bit_eq_mask)
  then show ?thesis
    using consume_positioned [OF at len] unfolding bit_read_bits32_sub_1_Some [OF n(2)] sh by simp
qed

section \<open>Decoding the code of a value\<close>

definition decoder_ok :: "decoder_setup \<Rightarrow> code_pars \<Rightarrow> bool" where
  "decoder_ok s p \<longleftrightarrow> code_pars_ok p \<and>
     decode_method_f s = (if cp_zero p then Decode_zero else Decode_multi) \<and>
     select_decoder (cp_golomb p) = Some (decode_cw_f s) \<and> dec_par1 s = cp_golomb p \<and>
     dec_par2 s = ilog_2 (cp_golomb p) \<and> outlier_par s = cp_spill p \<and>
     dec_max_data_bits s = cp_bits p"

lemma decoder_okD:
  assumes "decoder_ok s p"
  shows "decode_method_f s = (if cp_zero p then Decode_zero else Decode_multi)"
    and "outlier_par s = cp_spill p" and "dec_max_data_bits s = cp_bits p"
    and "0 < unat (cp_bits p)" and "unat (cp_bits p) \<le> 32"
    and "2 \<le> unat (cp_spill p)" and "unat (cp_spill p) < 2 ^ 22"
  using assms cmp_icu_max_spill_less [of "cp_golomb p"]
  by (auto simp: decoder_ok_def code_pars_ok_def valid_pars_def)

lemma decode_cw_setup:
  assumes ok: "decoder_ok s p" and v: "unat v \<le> unat (cp_spill p) + 15"
    and at: "ready_at dec (golomb_code (cp_golomb p) (unat v) @ rest)"
  obtains dec' where "decode_cw_f s dec (dec_par1 s) (dec_par2 s) = Some (v, dec')"
    and "positioned dec' rest"
proof -
  let ?m = "cp_golomb p"
  have m: "?m \<noteq> 0" "unat ?m \<le> 65535" and sp: "unat (cp_spill p) \<le> unat (cmp_icu_max_spill ?m)"
    using ok by (auto simp: decoder_ok_def code_pars_ok_def valid_pars_def)
  have "length (golomb_code ?m (unat v)) \<le> 32" using v sp by (intro golomb_code_le_32 m) linarith
  from decode_cw_positioned [OF m at this] that show ?thesis
    using ok by (auto simp: decoder_ok_def)
qed

lemma refill_then:
  assumes "positioned dec rest"
    and "\<And>dec'. ready_at dec' rest \<Longrightarrow> \<exists>dec''. f dec' = Some (0, x, dec'') \<and> ready_at dec'' rest'"
  shows "\<exists>dec''. (bit_refill dec \<bind> (\<lambda>(status, dec). f dec)) = Some (0, x :: u32, dec'') \<and>
    ready_at dec'' rest'"
  using assms(1) by (rule bit_refill_positioned) (use assms(2) in simp)

lemma decode_zero_code:
  assumes ok: "decoder_ok s p" and z: "cp_zero p" and x: "unat x < 2 ^ unat (cp_bits p)"
    and at: "ready_at dec (value_code p x @ rest)"
  shows "\<exists>dec'. decode_zero s dec = Some (0, x, dec') \<and> ready_at dec' rest"
proof -
  note okD = decoder_okD [OF ok]
  have sp1: "unat (cp_spill p - 1) = unat (cp_spill p) - 1"
    using okD(6) by (subst unat_minus_one) auto
  show ?thesis
  proof (cases "unat x < unat (cp_spill p) - 1")
    case True
    then have x1: "unat (x + 1) = unat x + 1" using okD(7) by (subst unat_add_small) simp_all
    have "ready_at dec (golomb_code (cp_golomb p) (unat (x + 1)) @ rest)"
      using at True z by (simp add: value_code_def x1)
    moreover have "unat (x + 1) \<le> unat (cp_spill p) + 15" using True x1 by simp
    ultimately obtain dec' where "decode_cw_f s dec (dec_par1 s) (dec_par2 s) = Some (x + 1, dec')"
      and "positioned dec' rest" using ok decode_cw_setup by blast
    moreover have "x + 1 \<noteq> 0" "\<not> cp_spill p \<le> x + 1"
      using x1 True by (auto simp: word_le_nat_alt simp flip: unat_eq_zero)
    ultimately show ?thesis
      using refill_result_positioned by (simp add: decode_zero_def okD(2))
  next
    case False
    have nl: "\<not> x < cp_spill p - 1" using False by (simp add: word_less_nat_alt sp1)
    have "ready_at dec (golomb_code (cp_golomb p) (unat 0) @ bits_msb (unat (cp_bits p)) (x + 1) @ rest)"
      using at False z by (simp add: value_code_def)
    then obtain dec1 where cw: "decode_cw_f s dec (dec_par1 s) (dec_par2 s) = Some (0, dec1)"
      and pos: "positioned dec1 (bits_msb (unat (cp_bits p)) (x + 1) @ rest)"
      using decode_cw_setup [OF ok, of 0] by force
    show ?thesis
      unfolding decode_zero_def cw okD(2,3)
      by (simp only: bind.bind_lunit prod.case simp_thms if_False, rule refill_then [OF pos])
        (use bit_read_bits32_sub_1_positioned [OF _ okD(4,5) x] refill_result_positioned nl in fastforce)
  qed
qed

lemma escape_code_bounds:
  fixes u :: u32
  assumes u: "unat u < 2 ^ n" and n: "0 < n"
  shows "2 * (escape_offset u + 1) \<le> 2 * ((n + 1) div 2)"
    and "unat u < 2 ^ (2 * (escape_offset u + 1))"
    and "0 < escape_offset u \<Longrightarrow> 2 ^ (2 * escape_offset u) \<le> unat u"
proof -
  show "2 * (escape_offset u + 1) \<le> 2 * ((n + 1) div 2)"
  proof (cases "u = 0")
    case False
    have half: "i < n \<Longrightarrow> i div 2 + 1 \<le> (n + 1) div 2" for i :: nat by arith
    show ?thesis using half [OF ilog_less [OF False u]] False by (simp only: escape_offset_def) simp
  qed (use n in \<open>simp add: escape_offset_def\<close>)
  show "unat u < 2 ^ (2 * (escape_offset u + 1))"
  proof (cases "u = 0")
    case False
    have "2 ^ (ilog u + 1) \<le> (2 ^ (2 * (ilog u div 2 + 1)) :: nat)" by (intro power_increasing) auto
    then show ?thesis using ilog_upper [OF False] False by (simp add: escape_offset_def)
  qed simp
  show "2 ^ (2 * escape_offset u) \<le> unat u" if "0 < escape_offset u"
  proof -
    have nz: "u \<noteq> 0" using that by (auto simp: escape_offset_def)
    have "2 ^ (2 * (ilog u div 2)) \<le> (2 ^ ilog u :: nat)" by (intro power_increasing) auto
    also have "\<dots> \<le> unat u" by (rule ilog_lower [OF nz])
    finally show ?thesis using nz by (simp only: escape_offset_def if_False)
  qed
qed

lemma unat_round_even: "unat (x AND - 2 :: u32) = 2 * (unat x div 2)"
proof -
  have "(- 2 :: u32) = NOT (mask 1)" by simp
  then have "x AND - 2 = push_bit 1 (drop_bit 1 x)" by (simp only: and_NOT_mask)
  moreover have "unat (push_bit 1 (drop_bit 1 x)) = unat x div 2 * 2"
    using unat_less_2p [of x] by (subst unat_push_bit) (simp_all add: unat_drop_bit)
  ultimately show ?thesis by simp
qed

lemma decode_multi_code:
  assumes ok: "decoder_ok s p" and z: "\<not> cp_zero p" and x: "unat x < 2 ^ unat (cp_bits p)"
    and at: "ready_at dec (value_code p x @ rest)"
  shows "\<exists>dec'. decode_multi s dec = Some (0, x, dec') \<and> ready_at dec' rest"
proof -
  note okD = decoder_okD [OF ok]
  show ?thesis
  proof (cases "x < cp_spill p")
    case True
    then have "ready_at dec (golomb_code (cp_golomb p) (unat x) @ rest)"
      using at z by (simp add: value_code_def)
    moreover have "unat x \<le> unat (cp_spill p) + 15" using True by (simp add: word_less_nat_alt)
    ultimately obtain dec' where "decode_cw_f s dec (dec_par1 s) (dec_par2 s) = Some (x, dec')"
      and "positioned dec' rest" using ok decode_cw_setup by blast
    then show ?thesis using True refill_result_positioned
      by (simp add: decode_multi_def okD(2) not_le [symmetric])
  next
    case False
    define u where "u = x - cp_spill p"
    define k where "k = escape_offset u"
    obtain off :: u32 where off: "unat off = k" and k15: "k \<le> 15"
      and len: "unat (push_bit 1 (off + 1)) = 2 * (k + 1)"
      using escape_symbol [of u] by (auto simp only: k_def)
    let ?v = "cp_spill p + off" and ?len = "push_bit 1 (off + 1)" and ?n = "unat (cp_bits p)"
    have ux: "unat u = unat x - unat (cp_spill p)"
      unfolding u_def using False by (subst unat_sub) (simp_all add: not_less)
    then have un: "unat u < 2 ^ ?n" using x by simp
    note esc = escape_code_bounds [OF un okD(4), folded k_def]
    have v: "unat ?v = unat (cp_spill p) + k" using off k15 okD(7) by (subst unat_add_small) simp_all
    have "ready_at dec (golomb_code (cp_golomb p) (unat ?v) @ bits_msb (2 * (k + 1)) u @ rest)"
      unfolding v using at z False by (simp add: value_code_def Let_def k_def u_def)
    moreover have "unat ?v \<le> unat (cp_spill p) + 15" using v k15 by simp
    ultimately obtain dec1 where cw: "decode_cw_f s dec (dec_par1 s) (dec_par2 s) = Some (?v, dec1)"
      and pos: "positioned dec1 (bits_msb (2 * (k + 1)) u @ rest)"
      using ok decode_cw_setup by blast
    have esc_sym: "cp_spill p \<le> ?v" using v by (simp add: word_le_nat_alt)
    have short: "\<not> ?len > (cp_bits p + 1) AND - 2"
    proof -
      have "unat (cp_bits p + 1) = ?n + 1" using okD(5) by (subst unat_add_small) simp_all
      then show ?thesis using esc(1) unfolding word_less_nat_alt unat_round_even len by simp
    qed
    have top: "\<not> (drop_bit (unat (?len - 2)) u = 0 \<and> ?len > 2)"
    proof (cases "k = 0")
      case True
      then show ?thesis using len by (simp add: word_less_nat_alt)
    next
      case False
      have "unat (?len - 2) = 2 * k" using len by (subst unat_sub) (simp_all only: word_le_nat_alt, simp_all)
      then have "unat (drop_bit (unat (?len - 2)) u) \<noteq> 0"
        using esc(3) False by (simp only: unat_drop_bit div_eq_0_iff) simp
      then show ?thesis by auto
    qed
    have xu: "u + cp_spill p = x" by (simp add: u_def)
    have nospill: "\<not> x AND BIT_MASK ! ?n < cp_spill p"
      using False by (simp add: and_BIT_MASK_id [OF okD(5) x])
    have read: "\<exists>dec''. bit_read_bits32 dec' ?len = Some (u, dec'') \<and> positioned dec'' rest"
      if "ready_at dec' (bits_msb (2 * (k + 1)) u @ rest)" for dec'
      using that esc(2) k15 by (intro bit_read_bits32_positioned) (simp_all only: len, simp_all)
    have vk: "?v - cp_spill p + 1 = off + 1" by simp
    show ?thesis
      unfolding decode_multi_def cw bind.bind_lunit Let_def okD(2,3) prod.case if_P [OF esc_sym] vk if_not_P [OF short]
        BIT_MASK_at_Some [OF okD(5)]
      by (rule refill_then [OF pos])
        (use read refill_result_positioned top nospill xu in fastforce)
  qed
qed

section \<open>The round trip of a value\<close>

lemma and_1_iff_odd: "v AND 1 \<noteq> 0 \<longleftrightarrow> odd (unat (v :: u32))"
proof -
  have "v AND 1 = take_bit 1 v" by (simp add: take_bit_eq_mask)
  then have "unat (v AND 1) = unat v mod 2" by (simp only: unat_take_bit) simp
  then show ?thesis by (metis even_iff_mod_2_eq_zero unat_eq_zero)
qed

lemma re_map_even: "even (unat v) \<Longrightarrow> re_map_to_pos v = word_of_nat (unat v div 2)"
  by (simp add: re_map_to_pos_def and_1_iff_odd) (simp add: unat_div [of v 2, simplified, symmetric])

lemma ucast_64_32_minus: "(ucast (- w :: u64) :: u32) = - ucast w"
proof -
  have low: "(word_of_int (take_bit 64 k) :: u32) = word_of_int k" for k
    by (subst word_of_int_eq_iff) simp
  have "uint (- w) = take_bit 64 (- uint w)" by (simp add: uint_word_ariths take_bit_eq_mod)
  then have "(word_of_int (uint (- w)) :: u32) = - word_of_int (uint w)" by (simp add: low)
  then show ?thesis by simp
qed

lemma re_map_odd:
  assumes "odd (unat v)"
  shows "re_map_to_pos v = - word_of_nat ((unat v + 1) div 2)"
proof -
  let ?w = "(ucast v + 1) div 2 :: u64"
  have "unat (ucast v + 1 :: u64) = unat v + 1"
    using unat_less_2p [of v] by (subst unat_add_lem [THEN iffD1]) simp_all
  then have w: "unat ?w = (unat v + 1) div 2" by (simp only: unat_div) simp
  have "(ucast (- ?w) :: u32) = - ucast ?w"
    by (rule ucast_64_32_minus)
  moreover have "(ucast ?w :: u32) = word_of_nat (unat ?w)" by simp
  ultimately have "(ucast (- ?w) :: u32) = - word_of_nat ((unat v + 1) div 2)" by (simp only: w)
  then show ?thesis using assms by (simp only: re_map_to_pos_def and_1_iff_odd not_False_eq_True if_True)
qed

lemma re_map_to_pos_map_to_pos:
  assumes n: "0 < unat n" "unat n \<le> 32"
  shows "take_bit (unat n) (re_map_to_pos (map_to_pos x n)) = take_bit (unat n) x"
proof -
  let ?n = "unat n" and ?y = "unat (map_to_pos x n)" and ?x = "unat x mod 2 ^ unat n"
  have y: "?y = (if ?x < 2 ^ (?n - 1) then 2 * ?x else 2 * (2 ^ ?n - ?x) - 1)"
    by (rule unat_map_to_pos [OF n])
  have xlt: "?x < 2 ^ ?n" by simp
  have xw: "(word_of_nat ?x :: u32) = take_bit ?n x"
    by (simp add: unat_take_bit [symmetric])
  show ?thesis
  proof (cases "?x < 2 ^ (?n - 1)")
    case True
    then have "?y = 2 * ?x" using y by simp
    then have "re_map_to_pos (map_to_pos x n) = word_of_nat ?x" by (subst re_map_even) simp_all
    then show ?thesis by (simp add: xw)
  next
    case False
    then have yy: "?y = 2 * (2 ^ ?n - ?x) - 1" using y by simp
    have pos: "0 < 2 ^ ?n - ?x" using xlt by simp
    have "odd ?y" unfolding yy using pos by (cases "2 ^ ?n - ?x") simp_all
    moreover have "(?y + 1) div 2 = 2 ^ ?n - ?x" unfolding yy using pos by simp
    ultimately have "re_map_to_pos (map_to_pos x n) = - word_of_nat (2 ^ ?n - ?x)"
      by (subst re_map_odd) simp_all
    also have "\<dots> = take_bit ?n x - 2 ^ ?n" using xlt by (simp add: of_nat_diff xw [symmetric])
    finally have eq: "re_map_to_pos (map_to_pos x n) = take_bit ?n x - 2 ^ ?n" .
    have "take_bit ?n (2 ^ ?n) = take_bit ?n (0 :: u32)"
      by (rule bit_word_eqI) (auto simp: bit_take_bit_iff bit_exp_iff)
    then show ?thesis using take_bit_cong_minus2 [of ?n "2 ^ ?n" 0 "take_bit ?n x"] by (simp add: eq)
  qed
qed

text \<open>
  The decoder, from the code of a value and the same model, returns the value up to lossy
  rounding.
\<close>

lemma decode_value_code:
  assumes ok: "decoder_ok s p" and lossy: "dec_lossy_par s = r"
    and d: "unat (round_fwd data r) < 2 ^ unat (cp_bits p)"
    and at: "ready_at dec (value_code p
      (map_to_pos (round_fwd data r - round_fwd model r) (cp_bits p)) @ rest)"
  shows "\<exists>dec'. decode_value s model dec = Some (0, rounded r data, dec') \<and> ready_at dec' rest"
proof -
  note okD = decoder_okD [OF ok]
  let ?n = "unat (cp_bits p)" and ?d = "round_fwd data r" and ?m = "round_fwd model r"
  let ?x = "map_to_pos (?d - ?m) (cp_bits p)"
  have x: "unat ?x < 2 ^ ?n" by (rule unat_map_to_pos_less [OF okD(4,5)])
  obtain dec' where meth: "(case decode_method_f s of Decode_zero \<Rightarrow> decode_zero s dec
      | Decode_multi \<Rightarrow> decode_multi s dec) = Some (0, ?x, dec')" and at': "ready_at dec' rest"
    using decode_zero_code [OF ok _ x at] decode_multi_code [OF ok _ x at] okD(1)
    by (cases "cp_zero p") auto
  have "(re_map_to_pos ?x + ?m) AND BIT_MASK ! ?n = take_bit ?n (re_map_to_pos ?x + ?m)"
    by (rule and_BIT_MASK [OF okD(5)])
  also have "\<dots> = take_bit ?n (?d - ?m + ?m)"
    by (intro take_bit_cong_plus re_map_to_pos_map_to_pos okD)
  also have "\<dots> = ?d" using d by (simp add: take_bit_word_eq_self_iff)
  finally have "(re_map_to_pos ?x + ?m) AND BIT_MASK ! ?n = ?d" .
  then show ?thesis
    using at' unfolding decode_value_def meth okD(3) lossy BIT_MASK_at_Some [OF okD(5)]
    by (simp add: rounded_def)
qed

text \<open>
  Whatever the stream holds, decoding a value fails no assertion and reads no memory outside of the
  stream and of the table. A code word decoder stays below a bound that keeps the length of an
  escaped value from wrapping around.
\<close>

definition decoder_usable :: "decoder_setup \<Rightarrow> bool" where
  "decoder_usable s \<longleftrightarrow> select_decoder (dec_par1 s) = Some (decode_cw_f s) \<and>
     unat (dec_par1 s) \<le> 65535 \<and> dec_par2 s = ilog_2 (dec_par1 s) \<and>
     0 < unat (dec_max_data_bits s) \<and> unat (dec_max_data_bits s) \<le> 32"

lemma decoder_ok_usable: "decoder_ok s p \<Longrightarrow> decoder_usable s"
  by (auto simp: decoder_ok_def decoder_usable_def code_pars_ok_def valid_pars_def)

lemma unat_sum_le: "unat (a + b :: u32) \<le> unat a + unat b"
  and unat_prod_le: "unat (a * b :: u32) \<le> unat a * unat b"
  by (simp_all add: unat_word_ariths)

lemma unat_shift_le: "unat (push_bit k a :: u32) \<le> unat a * 2 ^ k"
  by (simp add: unsigned_push_bit_eq take_bit_eq_mod) (simp add: push_bit_eq_mult)

lemma leading_ones_le: "unat (bit_peek_leading_ones dec) \<le> 64"
proof -
  have "unat (word_of_nat (clz x) :: u32) \<le> 64" if "x \<noteq> 0" for x :: u64
    using clz_bounds(1) [OF that] by (subst unat_of_nat_small) simp_all
  then show ?thesis by (simp add: bit_peek_leading_ones_def Let_def)
qed

lemma unary_decoder_safe:
  obtains q dec' where "unary_decoder dec m l = (q, dec')" and "unat q \<le> 64"
    and "reader_inv dec' = reader_inv dec"
  using leading_ones_le [of dec] by (simp add: unary_decoder_def Let_def)

lemma rice_decoder_safe:
  assumes "0 < unat l" and "unat l \<le> 15"
  obtains v dec' where "rice_decoder dec m l = Some (v, dec')" and "unat v < 2 ^ 23"
    and "reader_inv dec' = reader_inv dec"
proof -
  obtain q d where u: "unary_decoder dec m l = (q, d)" "unat q \<le> 64" "reader_inv d = reader_inv dec"
    by (rule unary_decoder_safe)
  let ?r = "ucast (top_bits d l) :: u32" and ?v = "push_bit (unat l) q + ucast (top_bits d l)"
  have p: "(2::nat) ^ unat l \<le> 2 ^ 15" using assms(2) by (intro power_increasing) simp_all
  have "unat ?r \<le> unat (top_bits d l)" by (simp add: unsigned_ucast_eq take_bit_eq_mod)
  then have "unat ?r < 2 ^ 15" using unat_peek_less [of l d] assms(2) p by linarith
  moreover have "unat q * 2 ^ unat l \<le> 64 * 2 ^ 15" using u(2) p by (intro mult_le_mono)
  ultimately have "unat ?v < 2 ^ 23"
    using unat_sum_le [of "push_bit (unat l) q" ?r] unat_shift_le [of "unat l" q] by simp
  moreover have "rice_decoder dec m l = Some (?v, bit_consume_bits d l)"
    using assms by (simp add: rice_decoder_def u(1) bit_read_bits32_Some word_less_nat_alt)
  ultimately show ?thesis using that u(3) by simp
qed

lemma golomb_decoder_safe:
  assumes "m \<noteq> 0" and "unat m \<le> 65535"
  obtains v dec' where "golomb_decoder dec m (ilog_2 m) = Some (v, dec')" and "unat v < 2 ^ 23"
    and "reader_inv dec' = reader_inv dec"
proof -
  let ?l = "ilog_2 m"
  obtain q d where u: "unary_decoder dec m ?l = (q, d)" "unat q \<le> 64" "reader_inv d = reader_inv dec"
    by (rule unary_decoder_safe)
  let ?r2 = "ucast (top_bits d (?l + 1)) :: u32" and ?c = "push_bit (unat ?l) 2 - m"
  have l: "unat ?l \<le> 15" using ilog_16 [OF assms] by (simp add: ilog_def)
  then have l1: "unat (?l + 1) = unat ?l + 1" by (subst unat_add_small) simp_all
  have "(2::nat) ^ unat (?l + 1) \<le> 2 ^ 16" unfolding l1 using l by (intro power_increasing) simp_all
  moreover have "unat ?r2 \<le> unat (top_bits d (?l + 1))" by (simp add: unsigned_ucast_eq take_bit_eq_mod)
  ultimately have r2: "unat ?r2 < 2 ^ 16" using unat_peek_less [of "?l + 1" d] l l1 by linarith
  have peek: "bit_peek_bits d (?l + 1) = Some (top_bits d (?l + 1))" using l l1 by (intro bit_peek_bits_Some) simp_all
  obtain r d' where r: "(if drop_bit 1 ?r2 < ?c then (drop_bit 1 ?r2, bit_consume_bits d ?l)
      else (?r2 - ?c, bit_consume_bits d (?l + 1))) = (r, d')" by fastforce
  have "unat (drop_bit 1 ?r2) \<le> unat ?r2" by (simp add: unat_drop_bit)
  moreover have "unat (?r2 - ?c) \<le> unat ?r2" if "\<not> drop_bit 1 ?r2 < ?c"
    using that calculation by (subst unat_sub) (simp_all add: word_le_nat_alt word_less_nat_alt)
  ultimately have "unat r < 2 ^ 16" and inv: "reader_inv d' = reader_inv d" using r r2 by (auto split: if_splits)
  moreover have "unat q * unat m \<le> 64 * 65535" using u(2) assms(2) by (intro mult_le_mono)
  ultimately have "unat (q * m + r) < 2 ^ 23"
    using unat_sum_le [of "q * m" r] unat_prod_le [of q m] by simp
  moreover have "golomb_decoder dec m ?l = Some (q * m + r, d')"
    using assms(1) unfolding golomb_decoder_def u(1) prod.case Let_def peek bind.bind_lunit r
    by (simp add: word_neq_0_conv)
  ultimately show ?thesis using that u(3) inv by simp
qed

lemma decode_cw_safe:
  assumes "decoder_usable s"
  obtains v dec' where "decode_cw_f s dec (dec_par1 s) (dec_par2 s) = Some (v, dec')"
    and "unat v < 2 ^ 23" and "reader_inv dec' = reader_inv dec"
proof -
  let ?m = "dec_par1 s"
  have u: "select_decoder ?m = Some (decode_cw_f s)" "unat ?m \<le> 65535" "dec_par2 s = ilog_2 ?m"
    using assms by (auto simp: decoder_usable_def)
  then have m: "?m \<noteq> 0" by (auto simp: select_decoder_def)
  consider "?m = 1" "decode_cw_f s = (\<lambda>dec m l. Some (unary_decoder dec m l))"
    | "?m \<noteq> 1" "is_a_pow_of_2 ?m" "decode_cw_f s = rice_decoder"
    | "decode_cw_f s = golomb_decoder"
    using u(1) by (auto simp: select_decoder_def split: if_splits)
  then show ?thesis
  proof cases
    case 1
    then show ?thesis using that by (cases rule: unary_decoder_safe [of dec "?m" "dec_par2 s"]) simp
  next
    case 2
    have "unat ?m \<noteq> 1" using 2(1) by (simp add: word_unat_eq_iff)
    then have "0 < ilog ?m" using is_a_pow_of_2_iff [OF m] 2(2) by (cases "ilog ?m") simp_all
    then show ?thesis
      using that rice_decoder_safe [of "ilog_2 ?m" dec ?m] ilog_16 [OF m u(2)] 2(3) u(3) by (auto simp: ilog_def)
  next
    case 3
    then show ?thesis using that golomb_decoder_safe [OF m u(2), of dec] u(3) by auto
  qed
qed

definition read_safe :: "decode_result \<Rightarrow> bool" where
  "read_safe r \<longleftrightarrow> (\<exists>err v dec. r = Some (err, v, dec) \<and> reader_inv dec)"

lemma read_safe_Some [simp]: "read_safe (Some (err, v, dec)) \<longleftrightarrow> reader_inv dec"
  by (simp add: read_safe_def)

lemma refill_safe [simp]:
  "reader_inv dec \<Longrightarrow> read_safe (refill_result v dec)"
  "reader_inv dec \<Longrightarrow> read_safe (refill_corrupt v dec)"
  using bit_refill_safe [of dec] by (auto simp: read_safe_def refill_result_def refill_corrupt_def)

lemma read_safe_bind_refill:
  "reader_inv dec \<Longrightarrow> (\<And>st dec'. reader_inv dec' \<Longrightarrow> read_safe (f st dec')) \<Longrightarrow>
     read_safe (bit_refill dec \<bind> (\<lambda>(st, dec'). f st dec'))"
  using bit_refill_safe [of dec] by auto

lemma unencoded_length:
  fixes v p n :: u32
  assumes "unat v < 2 ^ 23" and "\<not> push_bit 1 (v - p + 1) > (n + 1) AND - 2" and "p \<le> v"
    and "unat n \<le> 32"
  shows "0 < unat (push_bit 1 (v - p + 1))" and "unat (push_bit 1 (v - p + 1)) \<le> 32"
proof -
  have d: "unat (v - p) = unat v - unat p" using assms(3) by (subst unat_sub) simp_all
  have "unat (v - p + 1) = unat (v - p) + unat (1 :: u32)" by (rule unat_add_small) (use assms(1) d in simp)
  then have "unat (v - p + 1) = unat v - unat p + 1" using d by simp
  then have len: "unat (push_bit 1 (v - p + 1)) = 2 * (unat v - unat p + 1)"
    using assms(1) by (subst unat_push_bit) simp_all
  then show "0 < unat (push_bit 1 (v - p + 1))" by simp
  have "unat (n + 1) = unat n + 1" using assms(4) by (subst unat_add_small) simp_all
  then show "unat (push_bit 1 (v - p + 1)) \<le> 32"
    using assms(2,4) unfolding word_less_nat_alt unat_round_even len by presburger
qed

lemma decode_zero_safe:
  assumes "decoder_usable s" and "reader_inv dec"
  shows "read_safe (decode_zero s dec)"
proof -
  obtain v d where cw: "decode_cw_f s dec (dec_par1 s) (dec_par2 s) = Some (v, d)" and d: "reader_inv d"
    using decode_cw_safe [OF assms(1), of dec] assms(2) by metis
  have "unat (dec_max_data_bits s) \<le> 32" using assms(1) by (simp add: decoder_usable_def)
  then show ?thesis
    unfolding decode_zero_def cw bind.bind_lunit prod.case using d
    by (auto intro!: read_safe_bind_refill simp: bit_read_bits32_sub_1_Some)
qed

lemma decode_multi_safe:
  assumes "decoder_usable s" and "reader_inv dec"
  shows "read_safe (decode_multi s dec)"
proof -
  obtain v d where cw: "decode_cw_f s dec (dec_par1 s) (dec_par2 s) = Some (v, d)"
    and v: "unat v < 2 ^ 23" and d: "reader_inv d"
    using decode_cw_safe [OF assms(1), of dec] assms(2) by metis
  have n: "unat (dec_max_data_bits s) \<le> 32" using assms(1) by (simp add: decoder_usable_def)
  note len = unencoded_length [OF v _ _ n]
  show ?thesis
    unfolding decode_multi_def cw bind.bind_lunit prod.case Let_def BIT_MASK_at_Some [OF n] using d len
    by (auto intro!: read_safe_bind_refill simp: bit_read_bits32_Some simp del: push_bit_Suc)
qed

lemma decode_value_safe:
  assumes "decoder_usable s" and "reader_inv dec"
  shows "\<exists>err v dec'. decode_value s model dec = Some (err, v, dec') \<and> reader_inv dec'"
proof -
  have "unat (dec_max_data_bits s) \<le> 32" using assms(1) by (simp add: decoder_usable_def)
  then show ?thesis
    using decode_zero_safe [OF assms] decode_multi_safe [OF assms]
    by (auto simp: decode_value_def Let_def read_safe_def BIT_MASK_at_Some split: decode_method.split)
qed

text \<open>The two configuration functions make setups of the same code from the same parameters.\<close>

lemma select_decoder_Some:
  "m \<noteq> 0 \<Longrightarrow> \<exists>f. select_decoder m = Some f"
  by (simp add: select_decoder_def word_neq_0_conv)

lemma configure_setups_match:
  assumes pars: "valid_pars m spill" "0 < unat n" "unat n \<le> 32"
    and ds: "configure_decoder_setup (cmp_mode cfg) m spill r n = Some ds"
  shows "decoder_ok ds (setup_pars (configure_encoder_setup m spill r n cfg))"
    and "lossy_par (configure_encoder_setup m spill r n cfg) = r" and "dec_lossy_par ds = r"
  using assms
  by (auto simp: configure_decoder_setup_def configure_encoder_setup_def decoder_ok_def setup_pars_def
      code_pars_ok_def zero_escape_mech_is_used_def multi_escape_mech_is_used_def bind_eq_Some_conv
      split: if_splits)

lemma configure_decoder_setup_Some:
  "zero_escape_mech_is_used mode \<or> multi_escape_mech_is_used mode \<Longrightarrow> m \<noteq> 0 \<Longrightarrow>
     0 < unat n \<Longrightarrow> unat n \<le> 32 \<Longrightarrow> \<exists>ds. configure_decoder_setup mode m spill r n = Some ds"
  using select_decoder_Some [of m]
  by (auto simp: configure_decoder_setup_def word_less_nat_alt word_le_nat_alt)

lemma configure_decoder_setup_usable:
  "configure_decoder_setup mode m spill r n = Some ds \<Longrightarrow> unat m \<le> 65535 \<Longrightarrow> decoder_usable ds"
  by (auto simp: configure_decoder_setup_def decoder_usable_def bind_eq_Some_conv word_less_nat_alt
      word_le_nat_alt split: if_splits)

end
