(* ===== verification/Sample_Codec.thy ===== *)
theory Sample_Codec
  imports Value_Decoder
begin

text \<open>
  What the twelve \<open>compress_...\<close> functions of \<open>lib/icu_compress/cmp_icu.c\<close> and the twelve
  \<open>decompress_...\<close> functions of \<open>lib/decompress/decmp.c\<close> have in common: the fields of a
  sample are coded in a fixed order, stopping at the first error, and a loop over the samples
  picks the model of each sample and updates the model buffer.

  The loops are functions of the fields of the sample type. The theories
  \<open>Collection_Compress\<close> and \<open>Collection_Decompress\<close> instantiate them for every type.
\<close>

section \<open>Compression\<close>

type_synonym 's encode_field = "('s \<Rightarrow> u32) \<times> encoder_setup"

fun encode_fields ::
  "'s encode_field list \<Rightarrow> 's \<Rightarrow> 's \<Rightarrow> u32 \<Rightarrow> buffer option \<Rightarrow> write_result" where
  "encode_fields [] data model stream_len dst = Some (stream_len, dst)"
| "encode_fields ((field, setup) # fs) data model stream_len dst =
     unless_error (encode_value (field data) (field model) stream_len setup dst)
       (encode_fields fs data model)"

text \<open>
  The buffers of a model mode. The updated model may be the NULL pointer, a buffer of its own,
  or the model buffer itself, which is then updated in place.
\<close>

datatype 's up_target = No_up_model | Up_model "'s list" | Up_in_place

type_synonym 's model_mem = "'s list \<times> 's up_target"

definition nth_opt :: "'a list \<Rightarrow> nat \<Rightarrow> 'a option" where
  "nth_opt xs i = (if i < length xs then Some (xs ! i) else None)"

definition update_opt :: "'a list \<Rightarrow> nat \<Rightarrow> 'a \<Rightarrow> 'a list option" where
  "update_opt xs i x = (if i < length xs then Some (xs[i := x]) else None)"

fun store_up_model :: "nat \<Rightarrow> 's \<Rightarrow> 's model_mem \<Rightarrow> 's model_mem option" where
  "store_up_model i x (mb, No_up_model) = Some (mb, No_up_model)"
| "store_up_model i x (mb, Up_model ub) =
     map_option (\<lambda>ub. (mb, Up_model ub)) (update_opt ub i x)"
| "store_up_model i x (mb, Up_in_place) =
     map_option (\<lambda>mb. (mb, Up_in_place)) (update_opt mb i x)"

text \<open>
  The common loop: \<open>last_i\<close> is \<open>cfg->samples - 1\<close>. In a model mode the model of the next sample is
  \<open>model_buf[i + 1]\<close>, otherwise it is \<open>data_buf[i]\<close>.
\<close>

type_synonym 's compress_result = "(u32 \<times> buffer option \<times> 's model_mem) option"

function compress_loop ::
  "('s \<Rightarrow> 's \<Rightarrow> u32 \<Rightarrow> buffer option \<Rightarrow> write_result) \<Rightarrow> ('s \<Rightarrow> 's \<Rightarrow> 's) \<Rightarrow> bool \<Rightarrow> 's list \<Rightarrow> nat \<Rightarrow>
     nat \<Rightarrow> 's \<Rightarrow> u32 \<Rightarrow> buffer option \<Rightarrow> 's model_mem \<Rightarrow> 's compress_result" where
  "compress_loop encode up use_model data_buf last_i i model stream_len dst mem = do {
     data \<leftarrow> nth_opt data_buf i;
     (stream_len, dst) \<leftarrow> encode data model stream_len dst;
     if cmp_is_error stream_len then Some (stream_len, dst, mem)
     else do {
       mem \<leftarrow> (if use_model then store_up_model i (up data model) mem else Some mem);
       if i \<ge> last_i then Some (stream_len, dst, mem)
       else do {
         model \<leftarrow> (if use_model then nth_opt (fst mem) (i + 1) else nth_opt data_buf i);
         compress_loop encode up use_model data_buf last_i (i + 1) model stream_len dst mem
       }
     }
   }"
  by pat_completeness auto

termination by (relation "measure (\<lambda>(_, _, _, _, last_i, i, _). last_i - i)") auto

declare compress_loop.simps [simp del]

text \<open>
  \<open>zero\<close> is the sample that \<open>memset\<close> clears; it is the first model when no model is used.
\<close>

definition compress_samples ::
  "'s encode_field list \<Rightarrow> ('s \<Rightarrow> 's \<Rightarrow> 's) \<Rightarrow> 's \<Rightarrow> cmp_cfg \<Rightarrow> 's list \<Rightarrow> 's model_mem \<Rightarrow>
     u32 \<Rightarrow> buffer option \<Rightarrow> 's compress_result" where
  "compress_samples fs up zero cfg data_buf mem stream_len dst =
     (let use_model = model_mode_is_used (cmp_mode cfg)
      in do {
        model \<leftarrow> (if use_model then nth_opt (fst mem) 0 else Some zero);
        compress_loop (encode_fields fs) up use_model data_buf (unat (samples cfg - 1)) 0
          model stream_len dst mem
      })"

section \<open>Decompression\<close>

type_synonym 's decode_field = "('s \<Rightarrow> u32) \<times> (u32 \<Rightarrow> 's \<Rightarrow> 's) \<times> decoder_setup"

text \<open>Each decoded field is stored before the next one is decoded.\<close>

fun decode_fields ::
  "'s decode_field list \<Rightarrow> 's \<Rightarrow> 's \<Rightarrow> bit_decoder \<Rightarrow> (int \<times> 's \<times> bit_decoder) option" where
  "decode_fields [] model data dec = Some (0, data, dec)"
| "decode_fields ((field, store, setup) # fs) model data dec = do {
     (err, decoded_value, dec) \<leftarrow> decode_value setup (field model) dec;
     if err \<noteq> 0 then Some (err, data, dec)
     else decode_fields fs model (store decoded_value data) dec
   }"

type_synonym 's decompress_result = "(int \<times> 's list \<times> 's model_mem \<times> bit_decoder) option"

function decompress_loop ::
  "('s \<Rightarrow> 's \<Rightarrow> bit_decoder \<Rightarrow> (int \<times> 's \<times> bit_decoder) option) \<Rightarrow> ('s \<Rightarrow> 's \<Rightarrow> 's) \<Rightarrow> bool \<Rightarrow>
     nat \<Rightarrow> nat \<Rightarrow> 's \<Rightarrow> 's list \<Rightarrow> 's model_mem \<Rightarrow> bit_decoder \<Rightarrow> 's decompress_result" where
  "decompress_loop decode up use_model last_i i model data_buf mem dec = do {
     data \<leftarrow> nth_opt data_buf i;
     (err, data, dec) \<leftarrow> decode model data dec;
     data_buf \<leftarrow> update_opt data_buf i data;
     if err \<noteq> 0 then Some (err, data_buf, mem, dec)
     else do {
       mem \<leftarrow> (if use_model then store_up_model i (up data model) mem else Some mem);
       if i \<ge> last_i then Some (err, data_buf, mem, dec)
       else do {
         model \<leftarrow> (if use_model then nth_opt (fst mem) (i + 1) else nth_opt data_buf i);
         decompress_loop decode up use_model last_i (i + 1) model data_buf mem dec
       }
     }
   }"
  by pat_completeness auto

termination by (relation "measure (\<lambda>(_, _, _, last_i, i, _). last_i - i)") auto

declare decompress_loop.simps [simp del]

definition decompress_samples ::
  "'s decode_field list \<Rightarrow> ('s \<Rightarrow> 's \<Rightarrow> 's) \<Rightarrow> 's \<Rightarrow> cmp_cfg \<Rightarrow> 's list \<Rightarrow> 's model_mem \<Rightarrow>
     bit_decoder \<Rightarrow> 's decompress_result" where
  "decompress_samples fs up zero cfg data_buf mem dec =
     (let use_model = model_mode_is_used (cmp_mode cfg)
      in do {
        model \<leftarrow> (if use_model then nth_opt (fst mem) 0 else Some zero);
        decompress_loop (decode_fields fs) up use_model (unat (samples cfg - 1)) 0
          model data_buf mem dec
      })"

section \<open>Buffers of samples\<close>

definition store_range :: "nat \<Rightarrow> nat \<Rightarrow> (nat \<Rightarrow> 's) \<Rightarrow> 's list \<Rightarrow> 's list" where
  "store_range i n f xs = take i xs @ map f [i..<n] @ drop n xs"

text \<open>The model buffers after the models \<open>i\<close> up to \<open>n\<close> (exclusive) were updated.\<close>

fun put_models :: "nat \<Rightarrow> nat \<Rightarrow> (nat \<Rightarrow> 's) \<Rightarrow> 's model_mem \<Rightarrow> 's model_mem" where
  "put_models i n f (mb, No_up_model) = (mb, No_up_model)"
| "put_models i n f (mb, Up_model ub) = (mb, Up_model (store_range i n f ub))"
| "put_models i n f (mb, Up_in_place) = (store_range i n f mb, Up_in_place)"

fun mem_ok :: "nat \<Rightarrow> 's model_mem \<Rightarrow> bool" where
  "mem_ok n (mb, No_up_model) \<longleftrightarrow> n \<le> length mb"
| "mem_ok n (mb, Up_model ub) \<longleftrightarrow> n \<le> length mb \<and> n \<le> length ub"
| "mem_ok n (mb, Up_in_place) \<longleftrightarrow> n \<le> length mb"

lemma nth_opt_Some [simp]: "i < length xs \<Longrightarrow> nth_opt xs i = Some (xs ! i)"
  by (simp add: nth_opt_def)

lemma update_opt_Some [simp]: "i < length xs \<Longrightarrow> update_opt xs i x = Some (xs[i := x])"
  by (simp add: update_opt_def)

lemma mem_ok_length: "mem_ok n mem \<Longrightarrow> n \<le> length (fst mem)"
  by (cases "(n, mem)" rule: mem_ok.cases) auto

lemma store_range_update:
  assumes "i < n" and "n \<le> length xs"
  shows "store_range (i + 1) n f (xs[i := f i]) = store_range i n f xs"
  using assms by (simp add: store_range_def take_Suc_conv_app_nth upt_conv_Cons)

lemma store_range_last:
  assumes "i < length xs"
  shows "store_range i (Suc i) f xs = xs[i := f i]"
  using assms by (simp add: store_range_def upd_conv_take_nth_drop)

lemma store_up_model_ok:
  assumes "mem_ok n mem" and "i < n"
  obtains mem' where "store_up_model i x mem = Some mem'" and "mem_ok n mem'"
    and "\<And>j. j \<noteq> i \<Longrightarrow> fst mem' ! j = fst mem ! j"
    and "\<And>f. f i = x \<Longrightarrow> i + 1 < n \<Longrightarrow> put_models (i + 1) n f mem' = put_models i n f mem"
    and "\<And>f. f i = x \<Longrightarrow> n = i + 1 \<Longrightarrow> mem' = put_models i n f mem"
proof -
  obtain mb t where mem: "mem = (mb, t)" by fastforce
  let ?mem = "case t of No_up_model \<Rightarrow> (mb, t) | Up_model ub \<Rightarrow> (mb, Up_model (ub[i := x]))
    | Up_in_place \<Rightarrow> (mb[i := x], t)"
  show ?thesis
  proof (rule that [of ?mem])
    show "store_up_model i x mem = Some ?mem" using assms mem by (cases t) auto
    show "mem_ok n ?mem" using assms mem by (cases t) auto
    show "fst ?mem ! j = fst mem ! j" if "j \<noteq> i" for j using that mem by (cases t) auto
    show "put_models (i + 1) n f ?mem = put_models i n f mem" if "f i = x" "i + 1 < n" for f
      using that assms mem store_range_update [of i n _ f] by (cases t) auto
    show "?mem = put_models i n f mem" if "f i = x" "n = i + 1" for f
      using that assms mem store_range_last [of i _ f] by (cases t) auto
  qed
qed

text \<open>The model update of one turn of a loop, which leaves the models alone when none is used.\<close>

definition final_mem :: "bool \<Rightarrow> nat \<Rightarrow> nat \<Rightarrow> (nat \<Rightarrow> 's) \<Rightarrow> 's model_mem \<Rightarrow> 's model_mem" where
  "final_mem use_model i n f mem = (if use_model then put_models i n f mem else mem)"

lemma turn_model:
  assumes "use_model \<longrightarrow> mem_ok n mem" and "i < n"
  obtains mem' where "(if use_model then store_up_model i (f i) mem else Some mem) = Some mem'"
    and "use_model \<longrightarrow> mem_ok n mem'"
    and "\<And>j. j \<noteq> i \<Longrightarrow> fst mem' ! j = fst mem ! j"
    and "(if i + 1 < n then final_mem use_model (i + 1) n f mem' else mem') = final_mem use_model i n f mem"
proof (cases use_model)
  case True
  with assms have "mem_ok n mem" by simp
  from this assms(2) obtain mem' where mem': "store_up_model i (f i) mem = Some mem'" "mem_ok n mem'"
      "\<And>j. j \<noteq> i \<Longrightarrow> fst mem' ! j = fst mem ! j"
    and put: "i + 1 < n \<Longrightarrow> put_models (i + 1) n f mem' = put_models i n f mem"
      "n = i + 1 \<Longrightarrow> mem' = put_models i n f mem"
    by (rule store_up_model_ok) blast
  have "(if i + 1 < n then put_models (i + 1) n f mem' else mem') = put_models i n f mem"
    using put assms(2) by (cases "i + 1 < n") auto
  then show ?thesis using mem' True
    by (intro that [of mem']) (auto simp: final_mem_def split: if_splits)
next
  case False
  then show ?thesis using that [of mem] by (simp add: final_mem_def)
qed

section \<open>The compression loop writes the codes of the samples in order\<close>

definition fields_ok :: "u32 \<Rightarrow> 's encode_field list \<Rightarrow> bool" where
  "fields_ok lim fs \<longleftrightarrow> fs \<noteq> [] \<and> (\<forall>(g, s) \<in> set fs. encoder_ok s \<and> max_stream_len s = lim)"

definition sample_fits :: "'s encode_field list \<Rightarrow> 's \<Rightarrow> bool" where
  "sample_fits fs d \<longleftrightarrow> (\<forall>(g, s) \<in> set fs. fits_setup s (g d))"

definition sample_bits :: "'s encode_field list \<Rightarrow> 's \<Rightarrow> 's \<Rightarrow> bool list" where
  "sample_bits fs d m = concat (map (\<lambda>(g, s). sample_code s (g d) (g m)) fs)"

lemma unless_error_Some [simp]: "unless_error r (\<lambda>l d. Some (l, d)) = r"
  by (cases r) (auto simp: unless_error_def)

lemma encode_fields_Nil [simp]: "encode_fields [] d m = (\<lambda>l d. Some (l, d))"
  by (intro ext) simp

lemma wrote_encode_fields:
  assumes "fields_ok lim fs" and "sample_fits fs d" and "sample_fits fs m"
  shows "wrote (sample_bits fs d m) off lim dst (encode_fields fs d m off dst)"
proof -
  have "fs \<noteq> []" using assms(1) by (simp add: fields_ok_def)
  then show ?thesis using assms
  proof (induction fs arbitrary: off dst rule: list_nonempty_induct)
    case (single f)
    then show ?case
      using wrote_encode_value [of "snd f" "fst f d" "fst f m" off dst]
      by (cases f) (auto simp: fields_ok_def sample_fits_def sample_bits_def)
  next
    case (cons f fs)
    obtain g s where f: "f = (g, s)" by fastforce
    have fs: "fields_ok lim fs" "sample_fits fs d" "sample_fits fs m"
      using cons by (auto simp: fields_ok_def sample_fits_def)
    have "wrote (sample_code s (g d) (g m)) off lim dst (encode_value (g d) (g m) off s dst)"
      using cons.prems wrote_encode_value [of s "g d" "g m" off dst]
      by (auto simp: f fields_ok_def sample_fits_def)
    then have "wrote (sample_code s (g d) (g m) @ sample_bits fs d m) off lim dst
        (encode_fields (f # fs) d m off dst)"
      unfolding f encode_fields.simps by (rule wrote_unless_error) (rule cons.IH [OF fs])
    then show ?case by (simp add: sample_bits_def f)
  qed
qed

definition stream_of :: "'s compress_result \<Rightarrow> write_result" where
  "stream_of r = map_option (\<lambda>(l, d, mem). (l, d)) r"

lemma stream_of_bind:
  "stream_of (r \<bind> (\<lambda>(l, d). if cmp_is_error l then Some (l, d, mem) else k l d)) =
     unless_error r (\<lambda>l d. stream_of (k l d))"
  by (cases r) (auto simp: stream_of_def unless_error_def)

text \<open>The model that the loop uses for sample \<open>j + 1\<close>, as long as only earlier models change.\<close>

definition next_models :: "bool \<Rightarrow> (nat \<Rightarrow> 's) \<Rightarrow> 's model_mem \<Rightarrow> (nat \<Rightarrow> 's) \<Rightarrow> nat \<Rightarrow> nat \<Rightarrow> bool" where
  "next_models use_model data mem ms i n \<longleftrightarrow>
     (\<forall>j. i \<le> j \<and> j + 1 < n \<longrightarrow> ms (j + 1) = (if use_model then fst mem ! (j + 1) else data j))"

lemma wrote_compress_loop:
  assumes enc: "\<And>j off dst. j < n \<Longrightarrow> wrote (bits j) off lim dst (encode (data ! j) (ms j) off dst)"
    and len: "n \<le> length data" and "i < n" and "use_model \<longrightarrow> mem_ok n mem"
    and "next_models use_model ((!) data) mem ms i n"
  shows "wrote (concat (map bits [i..<n])) off lim dst
    (stream_of (compress_loop encode up use_model data (n - 1) i (ms i) off dst mem))"
  using assms(3-)
proof (induction "n - i" arbitrary: i off dst mem)
  case (Suc k)
  let ?d = "data ! i"
  have i: "i < length data" using Suc.prems len by simp
  from Suc.prems(2,1) obtain mem'
    where st: "(if use_model then store_up_model i (up ?d (ms i)) mem else Some mem) = Some mem'"
      and ok': "use_model \<longrightarrow> mem_ok n mem'" and nth: "\<And>j. j \<noteq> i \<Longrightarrow> fst mem' ! j = fst mem ! j"
    by (rule turn_model [where f = "\<lambda>_. up ?d (ms i)"]) blast
  have loop: "stream_of (compress_loop encode up use_model data (n - 1) i (ms i) off dst mem) =
      unless_error (encode ?d (ms i) off dst) (\<lambda>off dst. stream_of
        (if n - 1 \<le> i then Some (off, dst, mem')
         else (if use_model then nth_opt (fst mem') (i + 1) else nth_opt data i) \<bind>
           (\<lambda>m. compress_loop encode up use_model data (n - 1) (i + 1) m off dst mem')))"
    using i st by (subst compress_loop.simps) (simp add: stream_of_bind)
  show ?case
  proof (cases "i + 1 < n")
    case False
    then have n: "n = Suc i" using Suc.prems by simp
    then have "i = n - 1" "[i..<n] = [i]" by simp_all
    then show ?thesis using enc [OF \<open>i < n\<close>] unfolding loop by (simp add: stream_of_def)
  next
    case True
    have m: "(if use_model then nth_opt (fst mem') (i + 1) else nth_opt data i) = Some (ms (i + 1))"
      using True i ok' nth mem_ok_length [of n mem'] Suc.prems(3) by (auto simp: next_models_def)
    have nm: "next_models use_model ((!) data) mem' ms (i + 1) n"
      using Suc.prems(3) nth by (auto simp: next_models_def)
    have ih: "wrote (concat (map bits [i + 1..<n])) off' lim dst'
        (stream_of (compress_loop encode up use_model data (n - 1) (i + 1) (ms (i + 1)) off' dst' mem'))"
      for off' dst' using Suc.hyps(2) True ok' nm by (intro Suc.hyps(1)) simp_all
    have "\<not> n - 1 \<le> i" using True by simp
    moreover have "concat (map bits [i..<n]) = bits i @ concat (map bits [i + 1..<n])"
      using Suc.prems(1) by (simp add: upt_conv_Cons)
    ultimately show ?thesis
      unfolding loop m bind.bind_lunit if_False
      by (simp only: if_False bind.bind_lunit) (intro wrote_unless_error enc Suc.prems(1) ih)
  qed
qed simp

text \<open>A compression that reports no error has updated the model of every sample.\<close>

lemma compress_loop_models:
  assumes len: "n \<le> length data" and "i < n" and "use_model \<longrightarrow> mem_ok n mem"
    and "next_models use_model ((!) data) mem ms i n"
    and "compress_loop encode up use_model data (n - 1) i (ms i) off dst mem = Some (off', dst', mem')"
    and "\<not> cmp_is_error off'"
  shows "mem' = final_mem use_model i n (\<lambda>j. up (data ! j) (ms j)) mem"
  using assms(2-)
proof (induction "n - i" arbitrary: i off dst mem)
  case (Suc k)
  let ?d = "data ! i" and ?f = "\<lambda>j. up (data ! j) (ms j)"
  have i: "i < length data" using Suc.prems len by simp
  from Suc.prems(2,1) obtain mem1
    where st: "(if use_model then store_up_model i (?f i) mem else Some mem) = Some mem1"
      and ok1: "use_model \<longrightarrow> mem_ok n mem1" and nth: "\<And>j. j \<noteq> i \<Longrightarrow> fst mem1 ! j = fst mem ! j"
      and fin: "(if i + 1 < n then final_mem use_model (i + 1) n ?f mem1 else mem1) =
        final_mem use_model i n ?f mem"
    by (rule turn_model [where f = ?f]) blast
  obtain off1 dst1 where run: "encode ?d (ms i) off dst = Some (off1, dst1)" and e: "\<not> cmp_is_error off1"
    and rest: "(if n - 1 \<le> i then Some (off1, dst1, mem1)
         else (if use_model then nth_opt (fst mem1) (i + 1) else nth_opt data i) \<bind>
           (\<lambda>m. compress_loop encode up use_model data (n - 1) (i + 1) m off1 dst1 mem1)) =
       Some (off', dst', mem')"
    using Suc.prems(4,5) i st
    by (subst (asm) compress_loop.simps)
      (auto simp: bind_eq_Some_conv split: if_split_asm)
  show ?case
  proof (cases "i + 1 < n")
    case False
    then show ?thesis using rest fin Suc.prems(1) by (auto split: if_splits)
  next
    case True
    have "(if use_model then nth_opt (fst mem1) (i + 1) else nth_opt data i) = Some (ms (i + 1))"
      using True i ok1 nth mem_ok_length [of n mem1] Suc.prems(3) by (auto simp: next_models_def)
    moreover have "next_models use_model ((!) data) mem1 ms (i + 1) n"
      using Suc.prems(3) nth by (auto simp: next_models_def)
    moreover have "\<not> n - 1 \<le> i" using True by simp
    ultimately have "mem' = final_mem use_model (i + 1) n ?f mem1"
      using rest Suc.hyps(2) True ok1 Suc.prems(5) by (intro Suc.hyps(1)) simp_all
    then show ?thesis using fin True by simp
  qed
qed simp

text \<open>
  Whatever the outcome, the loops change at most the updated models of the first \<open>n\<close> samples.
\<close>

fun mem_frame :: "nat \<Rightarrow> 's model_mem \<Rightarrow> 's model_mem \<Rightarrow> bool" where
  "mem_frame n (mb, No_up_model) (mb', t') \<longleftrightarrow> mb' = mb \<and> t' = No_up_model"
| "mem_frame n (mb, Up_model ub) (mb', t') \<longleftrightarrow>
     mb' = mb \<and> (\<exists>ub'. t' = Up_model ub' \<and> length ub' = length ub \<and> drop n ub' = drop n ub)"
| "mem_frame n (mb, Up_in_place) (mb', t') \<longleftrightarrow>
     t' = Up_in_place \<and> length mb' = length mb \<and> drop n mb' = drop n mb"

lemma mem_frame_refl [simp]: "mem_frame n mem mem"
  by (cases "(n, mem, mem)" rule: mem_frame.cases) auto

lemma mem_frame_trans: "mem_frame n mem mem' \<Longrightarrow> mem_frame n mem' mem'' \<Longrightarrow> mem_frame n mem mem''"
  by (cases "(n, mem, mem')" rule: mem_frame.cases; cases mem'') auto

lemma store_up_model_frame: "store_up_model i x mem = Some mem' \<Longrightarrow> i < n \<Longrightarrow> mem_frame n mem mem'"
  by (cases "(i, x, mem)" rule: store_up_model.cases) (auto simp: update_opt_def split: if_splits)

lemma compress_loop_frame:
  assumes "compress_loop encode up use_model data last_i i m off dst mem = Some (off', dst', mem')"
    and "i < n" and "last_i < n"
  shows "mem_frame n mem mem'"
  using assms(1,2)
proof (induction "last_i - i" arbitrary: i m off dst mem rule: less_induct)
  case less
  note run = less.prems(1) [unfolded compress_loop.simps [of encode up use_model data last_i i]]
  obtain d where d: "nth_opt data i = Some d" using run by (cases "nth_opt data i") simp_all
  obtain off1 dst1 where e: "encode d m off dst = Some (off1, dst1)"
    using run by (cases "encode d m off dst") (auto simp: d)
  note run1 = run [unfolded d e bind.bind_lunit prod.case]
  show ?case
  proof (cases "cmp_is_error off1")
    case False
    note run2 = run1 [unfolded if_not_P [OF False]]
    obtain mem1 where m1: "(if use_model then store_up_model i (up d m) mem else Some mem) = Some mem1"
      using run2 by (cases "if use_model then store_up_model i (up d m) mem else Some mem") simp_all
    note run3 = run2 [unfolded m1 bind.bind_lunit]
    have f1: "mem_frame n mem mem1"
      using m1 less.prems(2) store_up_model_frame [of i "up d m" mem mem1 n] by (auto split: if_splits)
    show ?thesis
    proof (cases "i \<ge> last_i")
      case False
      then obtain m1 where "compress_loop encode up use_model data last_i (i + 1) m1 off1 dst1 mem1 = Some (off', dst', mem')"
        using run3 by (auto simp: bind_eq_Some_conv)
      then have "mem_frame n mem1 mem'"
        using False assms(3) by (intro less.hyps [of "i + 1" m1 off1 dst1]) auto
      then show ?thesis using f1 mem_frame_trans by blast
    qed (use run3 f1 in simp)
  qed (use run1 in simp)
qed

lemma compress_loop_no_model:
  "compress_loop encode up False data last_i i m off dst mem = Some (off', dst', mem') \<Longrightarrow> mem' = mem"
proof (induction "last_i - i" arbitrary: i m off dst rule: less_induct)
  case less
  note run = less.prems [unfolded compress_loop.simps [of encode up False data last_i i]]
  obtain d where d: "nth_opt data i = Some d" using run by (cases "nth_opt data i") simp_all
  obtain off1 dst1 where e: "encode d m off dst = Some (off1, dst1)"
    using run by (cases "encode d m off dst") (auto simp: d)
  note run1 = run [unfolded d e bind.bind_lunit prod.case if_False]
  show ?case
  proof (cases "cmp_is_error off1 \<or> i \<ge> last_i")
    case False
    then have "compress_loop encode up False data last_i (i + 1) d off1 dst1 mem = Some (off', dst', mem')"
      using run1 by simp
    then show ?thesis using False by (intro less.hyps [of "i + 1" d off1 dst1]) auto
  qed (use run1 in \<open>auto split: if_splits\<close>)
qed

section \<open>The decompression loop reads them back\<close>

lemma decompress_loop_reads:
  assumes dec: "\<And>j s dec rest. j < n \<Longrightarrow> ready_at dec (bits j @ rest) \<Longrightarrow>
      \<exists>dec'. decode (ms j) s dec = Some (0, out j, dec') \<and> ready_at dec' rest"
    and "n \<le> length buf" and "i < n" and "use_model \<longrightarrow> mem_ok n mem"
    and "next_models use_model out mem ms i n"
    and "ready_at dec (concat (map bits [i..<n]) @ rest)"
  shows "\<exists>dec'. decompress_loop decode up use_model (n - 1) i (ms i) buf mem dec =
      Some (0, store_range i n out buf, final_mem use_model i n (\<lambda>j. up (out j) (ms j)) mem, dec') \<and>
    ready_at dec' rest"
  using assms(2-)
proof (induction "n - i" arbitrary: i buf mem dec)
  case (Suc k)
  let ?f = "\<lambda>j. up (out j) (ms j)" and ?buf = "buf[i := out i]"
  have i: "i < length buf" using Suc.prems by simp
  have at: "ready_at dec (bits i @ concat (map bits [i + 1..<n]) @ rest)"
    using Suc.prems(2,5) by (simp add: upt_conv_Cons)
  from dec [OF Suc.prems(2) this] obtain dec1
    where d1: "decode (ms i) (buf ! i) dec = Some (0, out i, dec1)"
      and at1: "ready_at dec1 (concat (map bits [i + 1..<n]) @ rest)" by blast
  from Suc.prems(3,2) obtain mem1
    where st: "(if use_model then store_up_model i (?f i) mem else Some mem) = Some mem1"
      and ok1: "use_model \<longrightarrow> mem_ok n mem1" and nth: "\<And>j. j \<noteq> i \<Longrightarrow> fst mem1 ! j = fst mem ! j"
      and fin: "(if i + 1 < n then final_mem use_model (i + 1) n ?f mem1 else mem1) =
        final_mem use_model i n ?f mem"
    by (rule turn_model [where f = ?f]) blast
  have loop: "decompress_loop decode up use_model (n - 1) i (ms i) buf mem dec =
      (if n - 1 \<le> i then Some (0, ?buf, mem1, dec1)
       else (if use_model then nth_opt (fst mem1) (i + 1) else nth_opt ?buf i) \<bind>
         (\<lambda>m. decompress_loop decode up use_model (n - 1) (i + 1) m ?buf mem1 dec1))"
    using i st d1 by (subst decompress_loop.simps) simp
  show ?case
  proof (cases "i + 1 < n")
    case False
    then have n: "n = Suc i" using Suc.prems(2) by simp
    then show ?thesis unfolding loop using fin at1 i by (simp add: store_range_last)
  next
    case True
    have m: "(if use_model then nth_opt (fst mem1) (i + 1) else nth_opt ?buf i) = Some (ms (i + 1))"
      using True i ok1 nth mem_ok_length [of n mem1] Suc.prems(4) by (auto simp: next_models_def)
    have "next_models use_model out mem1 ms (i + 1) n"
      using Suc.prems(4) nth by (auto simp: next_models_def)
    then have "\<exists>dec'. decompress_loop decode up use_model (n - 1) (i + 1) (ms (i + 1)) ?buf mem1 dec1 =
        Some (0, store_range (i + 1) n out ?buf, final_mem use_model (i + 1) n ?f mem1, dec') \<and>
        ready_at dec' rest"
      using Suc.hyps(2) True ok1 at1 Suc.prems(1) by (intro Suc.hyps(1)) simp_all
    moreover have "\<not> n - 1 \<le> i" using True by simp
    ultimately show ?thesis unfolding loop m
      using fin True store_range_update [OF Suc.prems(2,1), of out] by simp
  qed
qed simp

text \<open>On any stream the loop stays inside of its buffers and leaves everything behind \<open>n\<close> alone.\<close>

lemma mem_frame_ok: "mem_frame n mem mem' \<Longrightarrow> mem_ok n mem \<Longrightarrow> mem_ok n mem'"
  by (cases "(n, mem, mem')" rule: mem_frame.cases) auto

lemma decode_fields_safe:
  assumes "\<And>g p s. (g, p, s) \<in> set ds \<Longrightarrow> decoder_usable s" and "reader_inv dec"
  shows "\<exists>err d dec'. decode_fields ds m s dec = Some (err, d, dec') \<and> reader_inv dec'"
  using assms
proof (induction ds arbitrary: s dec)
  case (Cons f ds)
  obtain g p st where f: "f = (g, p, st)" by (cases f) auto
  have "decoder_usable st" using Cons.prems(1) f by auto
  from decode_value_safe [OF this Cons.prems(2)] obtain err v dec1
    where v: "decode_value st (g m) dec = Some (err, v, dec1)" "reader_inv dec1" by blast
  show ?case
  proof (cases "err = 0")
    case True
    have "\<exists>err d dec'. decode_fields ds m (p v s) dec1 = Some (err, d, dec') \<and> reader_inv dec'"
      using Cons.prems(1) v(2) by (intro Cons.IH) auto
    then show ?thesis using v True by (simp add: f)
  qed (use v in \<open>simp add: f\<close>)
qed simp

lemma decompress_loop_safe:
  assumes dec: "\<And>m s dec. reader_inv dec \<Longrightarrow> \<exists>err s' dec'. decode m s dec = Some (err, s', dec') \<and> reader_inv dec'"
    and "n \<le> length buf" and "i < n" and last: "last_i < n" and "use_model \<longrightarrow> mem_ok n mem" and "reader_inv dec0"
  shows "\<exists>err buf' mem' dec'. decompress_loop decode up use_model last_i i m buf mem dec0 = Some (err, buf', mem', dec') \<and>
    reader_inv dec' \<and> length buf' = length buf \<and> drop n buf' = drop n buf \<and> mem_frame n mem mem'"
  using assms(2,3,5,6)
proof (induction "last_i - i" arbitrary: i m buf mem dec0 rule: less_induct)
  case less
  obtain err d dec1 where d: "decode m (buf ! i) dec0 = Some (err, d, dec1)" "reader_inv dec1"
    using dec [OF less.prems(4)] by blast
  let ?buf = "buf[i := d]"
  have i: "i < length buf" using less.prems by simp
  note loop = decompress_loop.simps [of decode up use_model last_i i m buf mem dec0]
  show ?case
  proof (cases "err = 0")
    case False
    then show ?thesis unfolding loop using i d less.prems by simp
  next
    case True
    have "\<exists>mem1. (if use_model then store_up_model i (up d m) mem else Some mem) = Some mem1"
      using less.prems(2,3) turn_model [of use_model n mem i "\<lambda>_. up d m"] by metis
    then obtain mem1 where st: "(if use_model then store_up_model i (up d m) mem else Some mem) = Some mem1" ..
    have f1: "mem_frame n mem mem1"
      using st less.prems(2) store_up_model_frame [of i "up d m" mem mem1 n] by (auto split: if_splits)
    have l1: "length ?buf = length buf" "drop n ?buf = drop n buf" using less.prems(2) by simp_all
    show ?thesis
    proof (cases "i \<ge> last_i")
      case True
      then show ?thesis unfolding loop using i d \<open>err = 0\<close> st f1 l1 by simp
    next
      case False
      have ok1: "use_model \<longrightarrow> mem_ok n mem1" using f1 mem_frame_ok less.prems(3) by blast
      have "i + 1 < n" using False last by simp
      then obtain m1 where m1: "(if use_model then nth_opt (fst mem1) (i + 1) else nth_opt ?buf i) = Some m1"
        using ok1 mem_ok_length [of n mem1] i by (cases use_model) auto
      have "\<exists>err buf' mem' dec'. decompress_loop decode up use_model last_i (i + 1) m1 ?buf mem1 dec1 = Some (err, buf', mem', dec') \<and>
          reader_inv dec' \<and> length buf' = length ?buf \<and> drop n buf' = drop n ?buf \<and> mem_frame n mem1 mem'"
        using False \<open>i + 1 < n\<close> ok1 d(2) less.prems(1) by (intro less.hyps) auto
      then show ?thesis unfolding loop using i d \<open>err = 0\<close> st f1 l1 m1 False mem_frame_trans [OF f1] by auto
    qed
  qed
qed

lemma decompress_loop_no_model:
  "decompress_loop decode up False last_i i m buf mem dec = Some (err, buf', mem', dec') \<Longrightarrow> mem' = mem"
proof (induction "last_i - i" arbitrary: i m buf dec rule: less_induct)
  case less
  note run = less.prems [unfolded decompress_loop.simps [of decode up False last_i i]]
  obtain d where d: "nth_opt buf i = Some d" using run by (cases "nth_opt buf i") simp_all
  obtain e v dec1 where v: "decode m d dec = Some (e, v, dec1)"
    using run by (cases "decode m d dec") (auto simp: d)
  have "i < length buf" using d by (simp add: nth_opt_def split: if_splits)
  note run1 = run [unfolded d v bind.bind_lunit prod.case if_False update_opt_Some [OF this]]
  show ?case
  proof (cases "e \<noteq> 0 \<or> i \<ge> last_i")
    case False
    then obtain m1 where "decompress_loop decode up False last_i (i + 1) m1 (buf[i := v]) mem dec1 = Some (err, buf', mem', dec')"
      using run1 by (auto simp: bind_eq_Some_conv)
    then show ?thesis using False by (intro less.hyps [of "i + 1" m1 "buf[i := v]" dec1]) auto
  qed (use run1 in \<open>auto split: if_splits\<close>)
qed

text \<open>The decode fields match the encode fields.\<close>

definition fields_match :: "u32 \<Rightarrow> 's encode_field list \<Rightarrow> 's decode_field list \<Rightarrow> bool" where
  "fields_match r fs ds \<longleftrightarrow> list_all2 (\<lambda>(g, s) (g', put, s').
     g' = g \<and> decoder_ok s' (setup_pars s) \<and> lossy_par s = r \<and> dec_lossy_par s' = r) fs ds"

text \<open>The sample that is stored field by field, each rounded.\<close>

definition restore :: "(('s \<Rightarrow> u32) \<times> (u32 \<Rightarrow> 's \<Rightarrow> 's)) list \<Rightarrow> u32 \<Rightarrow> 's \<Rightarrow> 's \<Rightarrow> 's" where
  "restore acc r d s = fold (\<lambda>(g, put). put (rounded r (g d))) acc s"

definition accessors :: "'s decode_field list \<Rightarrow> (('s \<Rightarrow> u32) \<times> (u32 \<Rightarrow> 's \<Rightarrow> 's)) list" where
  "accessors ds = map (\<lambda>(g, put, _). (g, put)) ds"

lemma decode_fields_reads:
  assumes "fields_match r fs ds" and "sample_fits fs d"
    and "ready_at dec (sample_bits fs d m @ rest)"
    and "\<And>g s. (g, s) \<in> set fs \<Longrightarrow> round_fwd (g m') r = round_fwd (g m) r"
  shows "\<exists>dec'. decode_fields ds m' s dec = Some (0, restore (accessors ds) r d s, dec') \<and>
    ready_at dec' rest"
  using assms
proof (induction fs arbitrary: ds dec s)
  case Nil
  then show ?case by (simp add: fields_match_def accessors_def restore_def sample_bits_def)
next
  case (Cons f fs)
  obtain g es where f: "f = (g, es)" by fastforce
  from Cons.prems(1) obtain put dset ds' where ds: "ds = (g, put, dset) # ds'"
    and ok: "decoder_ok dset (setup_pars es)" "lossy_par es = r" "dec_lossy_par dset = r"
    and match: "fields_match r fs ds'"
    by (cases ds) (auto simp: fields_match_def f)
  have fits: "unat (round_fwd (g d) r) < 2 ^ unat (cp_bits (setup_pars es))" "sample_fits fs d"
    using Cons.prems(2) ok by (auto simp: sample_fits_def fits_setup_def setup_pars_def f)
  have "round_fwd (g m') r = round_fwd (g m) r" using Cons.prems(4) [of g es] f by simp
  then have "ready_at dec (value_code (setup_pars es) (map_to_pos (round_fwd (g d) r - round_fwd (g m') r)
      (cp_bits (setup_pars es))) @ sample_bits fs d m @ rest)"
    using Cons.prems(3) ok by (simp add: sample_bits_def sample_code_def f) (simp add: setup_pars_def)
  from decode_value_code [OF ok(1,3) fits(1) this] obtain dec1
    where v: "decode_value dset (g m') dec = Some (0, rounded r (g d), dec1)"
      and at1: "ready_at dec1 (sample_bits fs d m @ rest)" by blast
  have "round_fwd (g m') r = round_fwd (g m) r" if "(g, s) \<in> set fs" for g s
    using Cons.prems(4) that by (meson list.set_intros(2))
  from Cons.IH [OF match fits(2) at1 this] show ?case
    by (simp add: ds v accessors_def restore_def)
qed

section \<open>Collections of samples\<close>

definition sample_models :: "bool \<Rightarrow> 's \<Rightarrow> 's list \<Rightarrow> (nat \<Rightarrow> 's) \<Rightarrow> nat \<Rightarrow> 's" where
  "sample_models use_model zero mb data i =
     (if use_model then mb ! i else if i = 0 then zero else data (i - 1))"

definition collection_bits :: "'s encode_field list \<Rightarrow> (nat \<Rightarrow> 's) \<Rightarrow> 's list \<Rightarrow> nat \<Rightarrow> bool list" where
  "collection_bits fs ms data n = concat (map (\<lambda>j. sample_bits fs (data ! j) (ms j)) [0..<n])"

text \<open>Buffers that hold all the samples of a configuration, whose values the fields can hold.\<close>

definition input_ok :: "'s encode_field list \<Rightarrow> 's \<Rightarrow> cmp_cfg \<Rightarrow> 's list \<Rightarrow> 's model_mem \<Rightarrow> bool" where
  "input_ok fs zero cfg data mem \<longleftrightarrow>
     samples cfg \<noteq> 0 \<and> unat (samples cfg) \<le> length data \<and>
     (model_mode_is_used (cmp_mode cfg) \<longrightarrow> mem_ok (unat (samples cfg)) mem) \<and>
     (\<forall>j < unat (samples cfg). sample_fits fs (data ! j) \<and>
        sample_fits fs (sample_models (model_mode_is_used (cmp_mode cfg)) zero (fst mem) ((!) data) j))"

lemma next_models_sample_models:
  "next_models use_model out mem (sample_models use_model zero (fst mem) out) 0 n"
  by (simp add: next_models_def sample_models_def)

lemma unat_samples:
  "samples cfg \<noteq> 0 \<Longrightarrow> unat (samples cfg - 1) = unat (samples cfg) - 1 \<and> 0 < unat (samples cfg)"
  by (simp add: unat_minus_one unat_gt_0)

lemma first_model:
  "samples cfg \<noteq> 0 \<Longrightarrow> (use_model \<longrightarrow> mem_ok (unat (samples cfg)) mem) \<Longrightarrow>
     (if use_model then nth_opt (fst mem) 0 else Some zero) = Some (sample_models use_model zero (fst mem) out 0)"
  using mem_ok_length [of "unat (samples cfg)" mem] unat_samples [of cfg]
  by (auto simp: sample_models_def nth_opt_def)

lemma wrote_compress_samples:
  assumes "fields_ok lim fs" and ok: "input_ok fs zero cfg data mem"
  shows "wrote (collection_bits fs (sample_models (model_mode_is_used (cmp_mode cfg)) zero (fst mem) ((!) data))
      data (unat (samples cfg))) off lim dst
    (stream_of (compress_samples fs up zero cfg data mem off dst))"
proof -
  let ?um = "model_mode_is_used (cmp_mode cfg)" and ?n = "unat (samples cfg)"
  let ?ms = "sample_models ?um zero (fst mem) ((!) data)"
  have n: "samples cfg \<noteq> 0" "?n \<le> length data" "?um \<longrightarrow> mem_ok ?n mem"
    and fits: "\<And>j. j < ?n \<Longrightarrow> sample_fits fs (data ! j)" "\<And>j. j < ?n \<Longrightarrow> sample_fits fs (?ms j)"
    using ok by (auto simp: input_ok_def)
  have "wrote (concat (map (\<lambda>j. sample_bits fs (data ! j) (?ms j)) [0..<?n])) off lim dst
      (stream_of (compress_loop (encode_fields fs) up ?um data (?n - 1) 0 (?ms 0) off dst mem))"
    using n fits unat_samples [OF n(1)] assms(1)
    by (intro wrote_compress_loop wrote_encode_fields next_models_sample_models) auto
  moreover have "compress_samples fs up zero cfg data mem off dst =
      compress_loop (encode_fields fs) up ?um data (?n - 1) 0 (?ms 0) off dst mem"
    unfolding compress_samples_def Let_def first_model [OF n(1,3), of zero "(!) data"]
    using unat_samples [OF n(1)] by simp
  ultimately show ?thesis by (simp add: collection_bits_def)
qed

lemma compress_samples_models:
  assumes ok: "input_ok fs zero cfg data mem"
    and run: "compress_samples fs up zero cfg data mem off dst = Some (off', dst', mem')"
    and "\<not> cmp_is_error off'"
  defines "um \<equiv> model_mode_is_used (cmp_mode cfg)" and "n \<equiv> unat (samples cfg)"
  shows "mem' = final_mem um 0 n
    (\<lambda>j. up (data ! j) (sample_models um zero (fst mem) ((!) data) j)) mem"
proof (rule compress_loop_models [where ms = "sample_models um zero (fst mem) ((!) data)" and up = up])
  have n: "samples cfg \<noteq> 0" "n \<le> length data" "um \<longrightarrow> mem_ok n mem"
    using ok by (auto simp: input_ok_def um_def n_def)
  then show "n \<le> length data" "um \<longrightarrow> mem_ok n mem" "0 < n"
    using unat_samples [OF n(1)] by (auto simp: n_def)
  show "compress_loop (encode_fields fs) up um data (n - 1) 0
      (sample_models um zero (fst mem) ((!) data) 0) off dst mem = Some (off', dst', mem')"
    using run unat_samples [OF n(1)] first_model [OF n(1) n(3) [unfolded n_def], of zero "(!) data"]
    unfolding compress_samples_def Let_def um_def [symmetric] by (simp add: n_def)
qed (rule next_models_sample_models, fact)

text \<open>
  The laws a sample type has to keep: its accessors store what they read, and the update of the
  model does not see the bits that lossy compression drops.
\<close>

locale sample_codec =
  fixes acc :: "(('s \<Rightarrow> u32) \<times> (u32 \<Rightarrow> 's \<Rightarrow> 's)) list"
    and up :: "u32 \<Rightarrow> u32 \<Rightarrow> 's \<Rightarrow> 's \<Rightarrow> 's"
  assumes restore_get: "(g, put) \<in> set acc \<Longrightarrow> g (restore acc r d s) = rounded r (g d)"
    and restore_0: "restore acc 0 d s = d"
    and up_restore: "up v r (restore acc r d s) m = up v r d m"
begin

lemma restore_indep: "restore acc r d s = restore acc r d s'"
proof -
  let ?d = "restore acc r d s"
  have "restore acc 0 ?d s' = restore acc r d s'"
    unfolding restore_def by (intro fold_cong refl) (auto simp: restore_get restore_def [symmetric])
  then show ?thesis by (simp add: restore_0)
qed

lemma decompress_samples_reads:
  fixes zero :: 's
  assumes match: "fields_match r fs ds" and acc: "accessors ds = acc" and fst: "map fst fs = map fst acc"
    and ok: "input_ok fs zero cfg data mem"
    and same: "cmp_mode cfg' = cmp_mode cfg" "samples cfg' = samples cfg" "fst mem' = fst mem"
    and buf: "unat (samples cfg) \<le> length buf"
    and mem': "model_mode_is_used (cmp_mode cfg) \<longrightarrow> mem_ok (unat (samples cfg)) mem'"
    and at: "ready_at dec (collection_bits fs
      (sample_models (model_mode_is_used (cmp_mode cfg)) zero (fst mem) ((!) data)) data (unat (samples cfg)) @ rest)"
  defines "um \<equiv> model_mode_is_used (cmp_mode cfg)" and "n \<equiv> unat (samples cfg)"
  shows "\<exists>dec'. decompress_samples ds (up v r) zero cfg' buf mem' dec =
    Some (0, map (\<lambda>d. restore acc r d d) (take n data) @ drop n buf,
      final_mem um 0 n (\<lambda>j. up v r (data ! j) (fst mem ! j)) mem', dec') \<and> ready_at dec' rest"
proof -
  let ?out = "\<lambda>j. restore acc r (data ! j) (data ! j)"
  let ?ms = "sample_models um zero (fst mem) ((!) data)" and ?ms' = "sample_models um zero (fst mem) ?out"
  have n: "samples cfg \<noteq> 0" "n \<le> length data"
    and fits: "\<And>j. j < n \<Longrightarrow> sample_fits fs (data ! j)"
    using ok by (auto simp: input_ok_def um_def n_def)
  have g_acc: "\<exists>put. (g, put) \<in> set acc" if "(g, s) \<in> set fs" for g s
    using that fst by (metis (no_types, lifting) image_iff list.set_map prod.exhaust_sel fst_conv)
  have ms: "round_fwd (g (?ms' j)) r = round_fwd (g (?ms j)) r" if "(g, s) \<in> set fs" for g s j
    using g_acc [OF that] restore_get [of g] by (auto simp: sample_models_def)
  have rd: "\<exists>dec'. decode_fields ds (?ms' j) s dec = Some (0, ?out j, dec') \<and> ready_at dec' rest"
    if "j < n" "ready_at dec (sample_bits fs (data ! j) (?ms j) @ rest)" for j s dec rest
    using decode_fields_reads [OF match fits [OF that(1)] that(2), where m' = "?ms' j" and s = s] ms
    unfolding acc by (simp add: restore_indep [of r "data ! j" s "data ! j"])
  have n0: "unat (samples cfg - 1) = n - 1" "0 < n" using unat_samples [OF n(1)] by (simp_all add: n_def)
  have nm: "next_models um ?out mem' ?ms' 0 n"
    using next_models_sample_models [of um ?out mem' zero n] by (simp only: same)
  have at0: "ready_at dec (concat (map (\<lambda>j. sample_bits fs (data ! j) (?ms j)) [0..<n]) @ rest)"
    using at by (simp only: collection_bits_def um_def n_def)
  have b: "n \<le> length buf" and m': "um \<longrightarrow> mem_ok n mem'" using buf mem' by (simp_all add: n_def um_def)
  have "\<exists>dec'. decompress_loop (decode_fields ds) (up v r) um (n - 1) 0 (?ms' 0) buf mem' dec =
      Some (0, store_range 0 n ?out buf, final_mem um 0 n (\<lambda>j. up v r (?out j) (?ms' j)) mem', dec') \<and>
    ready_at dec' rest"
    by (rule decompress_loop_reads [where bits = "\<lambda>j. sample_bits fs (data ! j) (?ms j)" and ms = ?ms'
        and out = ?out, OF rd b n0(2) m' nm at0])
  then obtain dec' where loop: "decompress_loop (decode_fields ds) (up v r) um (n - 1) 0 (?ms' 0) buf mem' dec =
      Some (0, store_range 0 n ?out buf, final_mem um 0 n (\<lambda>j. up v r (?out j) (?ms' j)) mem', dec')"
    and at': "ready_at dec' rest"
    by blast
  have "store_range 0 n ?out buf = map (\<lambda>d. restore acc r d d) (take n data) @ drop n buf"
    using n(2) by (auto simp: store_range_def intro!: nth_equalityI)
  moreover have "final_mem um 0 n (\<lambda>j. up v r (?out j) (?ms' j)) mem' =
      final_mem um 0 n (\<lambda>j. up v r (data ! j) (fst mem ! j)) mem'"
    by (simp add: final_mem_def up_restore sample_models_def)
  moreover have "decompress_samples ds (up v r) zero cfg' buf mem' dec =
      decompress_loop (decode_fields ds) (up v r) um (n - 1) 0 (?ms' 0) buf mem' dec"
  proof -
    have "(if um then nth_opt (fst mem') 0 else Some zero) = Some (?ms' 0)"
      using first_model [OF n(1), of um mem' zero ?out] m' by (simp only: same n_def)
    then show ?thesis
      unfolding decompress_samples_def Let_def same(1,2) um_def [symmetric] n0(1) by simp
  qed
  ultimately show ?thesis using loop at' by simp
qed

end

end
