(* ===== verification/Sample_Types.thy ===== *)
theory Sample_Types
  imports Data_Types Sample_Codec
begin

text \<open>
  The sample types of the compressed collections: for each structure of
  \<open>lib/common/cmp_data_types.h\<close> the sample that \<open>memset\<close> clears, the update of the model
  that \<open>cmp_icu.c\<close> and \<open>decmp.c\<close> both write out field by field, and the accessors of its
  fields. Every type is an instance of the sample codec.
\<close>

section \<open>Imagettes\<close>

definition imagette_up_model :: "u32 \<Rightarrow> u32 \<Rightarrow> u16 \<Rightarrow> u16 \<Rightarrow> u16" where
  "imagette_up_model model_val round d m = cmp_up_model_u16 d m model_val round"

definition imagette_acc :: "((u16 \<Rightarrow> u32) \<times> (u32 \<Rightarrow> u16 \<Rightarrow> u16)) list" where
  "imagette_acc = [(ucast, \<lambda>v s. ucast v)]"

section \<open>Structures\<close>

definition s_fx_zero :: s_fx where
  "s_fx_zero = \<lparr>s_fx_exp_flags = 0, s_fx_fx = 0\<rparr>"

definition s_fx_up_model :: "u32 \<Rightarrow> u32 \<Rightarrow> s_fx \<Rightarrow> s_fx \<Rightarrow> s_fx" where
  "s_fx_up_model model_val round d m = \<lparr>
     s_fx_exp_flags = cmp_up_model_u8 (s_fx_exp_flags d) (s_fx_exp_flags m) model_val round,
     s_fx_fx = cmp_up_model_u32 (s_fx_fx d) (s_fx_fx m) model_val round\<rparr>"

definition s_fx_acc :: "((s_fx \<Rightarrow> u32) \<times> (u32 \<Rightarrow> s_fx \<Rightarrow> s_fx)) list" where
  "s_fx_acc = [
     (\<lambda>s. ucast (s_fx_exp_flags s), \<lambda>v s. s\<lparr>s_fx_exp_flags := ucast v\<rparr>),
     (s_fx_fx, \<lambda>v s. s\<lparr>s_fx_fx := v\<rparr>)]"

definition s_fx_efx_zero :: s_fx_efx where
  "s_fx_efx_zero = \<lparr>s_fx_efx_exp_flags = 0, s_fx_efx_fx = 0, s_fx_efx_efx = 0\<rparr>"

definition s_fx_efx_up_model :: "u32 \<Rightarrow> u32 \<Rightarrow> s_fx_efx \<Rightarrow> s_fx_efx \<Rightarrow> s_fx_efx" where
  "s_fx_efx_up_model model_val round d m = \<lparr>
     s_fx_efx_exp_flags = cmp_up_model_u8 (s_fx_efx_exp_flags d) (s_fx_efx_exp_flags m) model_val round,
     s_fx_efx_fx = cmp_up_model_u32 (s_fx_efx_fx d) (s_fx_efx_fx m) model_val round,
     s_fx_efx_efx = cmp_up_model_u32 (s_fx_efx_efx d) (s_fx_efx_efx m) model_val round\<rparr>"

definition s_fx_efx_acc :: "((s_fx_efx \<Rightarrow> u32) \<times> (u32 \<Rightarrow> s_fx_efx \<Rightarrow> s_fx_efx)) list" where
  "s_fx_efx_acc = [
     (\<lambda>s. ucast (s_fx_efx_exp_flags s), \<lambda>v s. s\<lparr>s_fx_efx_exp_flags := ucast v\<rparr>),
     (s_fx_efx_fx, \<lambda>v s. s\<lparr>s_fx_efx_fx := v\<rparr>),
     (s_fx_efx_efx, \<lambda>v s. s\<lparr>s_fx_efx_efx := v\<rparr>)]"

definition s_fx_ncob_zero :: s_fx_ncob where
  "s_fx_ncob_zero = \<lparr>s_fx_ncob_exp_flags = 0, s_fx_ncob_fx = 0, s_fx_ncob_ncob_x = 0, s_fx_ncob_ncob_y = 0\<rparr>"

definition s_fx_ncob_up_model :: "u32 \<Rightarrow> u32 \<Rightarrow> s_fx_ncob \<Rightarrow> s_fx_ncob \<Rightarrow> s_fx_ncob" where
  "s_fx_ncob_up_model model_val round d m = \<lparr>
     s_fx_ncob_exp_flags = cmp_up_model_u8 (s_fx_ncob_exp_flags d) (s_fx_ncob_exp_flags m) model_val round,
     s_fx_ncob_fx = cmp_up_model_u32 (s_fx_ncob_fx d) (s_fx_ncob_fx m) model_val round,
     s_fx_ncob_ncob_x = cmp_up_model_u32 (s_fx_ncob_ncob_x d) (s_fx_ncob_ncob_x m) model_val round,
     s_fx_ncob_ncob_y = cmp_up_model_u32 (s_fx_ncob_ncob_y d) (s_fx_ncob_ncob_y m) model_val round\<rparr>"

definition s_fx_ncob_acc :: "((s_fx_ncob \<Rightarrow> u32) \<times> (u32 \<Rightarrow> s_fx_ncob \<Rightarrow> s_fx_ncob)) list" where
  "s_fx_ncob_acc = [
     (\<lambda>s. ucast (s_fx_ncob_exp_flags s), \<lambda>v s. s\<lparr>s_fx_ncob_exp_flags := ucast v\<rparr>),
     (s_fx_ncob_fx, \<lambda>v s. s\<lparr>s_fx_ncob_fx := v\<rparr>),
     (s_fx_ncob_ncob_x, \<lambda>v s. s\<lparr>s_fx_ncob_ncob_x := v\<rparr>),
     (s_fx_ncob_ncob_y, \<lambda>v s. s\<lparr>s_fx_ncob_ncob_y := v\<rparr>)]"

definition s_fx_efx_ncob_ecob_zero :: s_fx_efx_ncob_ecob where
  "s_fx_efx_ncob_ecob_zero = \<lparr>s_fx_efx_ncob_ecob_exp_flags = 0, s_fx_efx_ncob_ecob_fx = 0, s_fx_efx_ncob_ecob_ncob_x = 0, s_fx_efx_ncob_ecob_ncob_y = 0, s_fx_efx_ncob_ecob_efx = 0, s_fx_efx_ncob_ecob_ecob_x = 0, s_fx_efx_ncob_ecob_ecob_y = 0\<rparr>"

definition s_fx_efx_ncob_ecob_up_model :: "u32 \<Rightarrow> u32 \<Rightarrow> s_fx_efx_ncob_ecob \<Rightarrow> s_fx_efx_ncob_ecob \<Rightarrow> s_fx_efx_ncob_ecob" where
  "s_fx_efx_ncob_ecob_up_model model_val round d m = \<lparr>
     s_fx_efx_ncob_ecob_exp_flags = cmp_up_model_u8 (s_fx_efx_ncob_ecob_exp_flags d) (s_fx_efx_ncob_ecob_exp_flags m) model_val round,
     s_fx_efx_ncob_ecob_fx = cmp_up_model_u32 (s_fx_efx_ncob_ecob_fx d) (s_fx_efx_ncob_ecob_fx m) model_val round,
     s_fx_efx_ncob_ecob_ncob_x = cmp_up_model_u32 (s_fx_efx_ncob_ecob_ncob_x d) (s_fx_efx_ncob_ecob_ncob_x m) model_val round,
     s_fx_efx_ncob_ecob_ncob_y = cmp_up_model_u32 (s_fx_efx_ncob_ecob_ncob_y d) (s_fx_efx_ncob_ecob_ncob_y m) model_val round,
     s_fx_efx_ncob_ecob_efx = cmp_up_model_u32 (s_fx_efx_ncob_ecob_efx d) (s_fx_efx_ncob_ecob_efx m) model_val round,
     s_fx_efx_ncob_ecob_ecob_x = cmp_up_model_u32 (s_fx_efx_ncob_ecob_ecob_x d) (s_fx_efx_ncob_ecob_ecob_x m) model_val round,
     s_fx_efx_ncob_ecob_ecob_y = cmp_up_model_u32 (s_fx_efx_ncob_ecob_ecob_y d) (s_fx_efx_ncob_ecob_ecob_y m) model_val round\<rparr>"

definition s_fx_efx_ncob_ecob_acc :: "((s_fx_efx_ncob_ecob \<Rightarrow> u32) \<times> (u32 \<Rightarrow> s_fx_efx_ncob_ecob \<Rightarrow> s_fx_efx_ncob_ecob)) list" where
  "s_fx_efx_ncob_ecob_acc = [
     (\<lambda>s. ucast (s_fx_efx_ncob_ecob_exp_flags s), \<lambda>v s. s\<lparr>s_fx_efx_ncob_ecob_exp_flags := ucast v\<rparr>),
     (s_fx_efx_ncob_ecob_fx, \<lambda>v s. s\<lparr>s_fx_efx_ncob_ecob_fx := v\<rparr>),
     (s_fx_efx_ncob_ecob_ncob_x, \<lambda>v s. s\<lparr>s_fx_efx_ncob_ecob_ncob_x := v\<rparr>),
     (s_fx_efx_ncob_ecob_ncob_y, \<lambda>v s. s\<lparr>s_fx_efx_ncob_ecob_ncob_y := v\<rparr>),
     (s_fx_efx_ncob_ecob_efx, \<lambda>v s. s\<lparr>s_fx_efx_ncob_ecob_efx := v\<rparr>),
     (s_fx_efx_ncob_ecob_ecob_x, \<lambda>v s. s\<lparr>s_fx_efx_ncob_ecob_ecob_x := v\<rparr>),
     (s_fx_efx_ncob_ecob_ecob_y, \<lambda>v s. s\<lparr>s_fx_efx_ncob_ecob_ecob_y := v\<rparr>)]"

definition l_fx_zero :: l_fx where
  "l_fx_zero = \<lparr>l_fx_exp_flags = 0, l_fx_fx = 0, l_fx_fx_variance = 0\<rparr>"

definition l_fx_up_model :: "u32 \<Rightarrow> u32 \<Rightarrow> l_fx \<Rightarrow> l_fx \<Rightarrow> l_fx" where
  "l_fx_up_model model_val round d m = \<lparr>
     l_fx_exp_flags = ucast (cmp_up_model32 (ucast (l_fx_exp_flags d)) (ucast (l_fx_exp_flags m)) model_val round),
     l_fx_fx = cmp_up_model_u32 (l_fx_fx d) (l_fx_fx m) model_val round,
     l_fx_fx_variance = cmp_up_model_u32 (l_fx_fx_variance d) (l_fx_fx_variance m) model_val round\<rparr>"

definition l_fx_acc :: "((l_fx \<Rightarrow> u32) \<times> (u32 \<Rightarrow> l_fx \<Rightarrow> l_fx)) list" where
  "l_fx_acc = [
     (\<lambda>s. ucast (l_fx_exp_flags s), \<lambda>v s. s\<lparr>l_fx_exp_flags := ucast v\<rparr>),
     (l_fx_fx, \<lambda>v s. s\<lparr>l_fx_fx := v\<rparr>),
     (l_fx_fx_variance, \<lambda>v s. s\<lparr>l_fx_fx_variance := v\<rparr>)]"

definition l_fx_efx_zero :: l_fx_efx where
  "l_fx_efx_zero = \<lparr>l_fx_efx_exp_flags = 0, l_fx_efx_fx = 0, l_fx_efx_efx = 0, l_fx_efx_fx_variance = 0\<rparr>"

definition l_fx_efx_up_model :: "u32 \<Rightarrow> u32 \<Rightarrow> l_fx_efx \<Rightarrow> l_fx_efx \<Rightarrow> l_fx_efx" where
  "l_fx_efx_up_model model_val round d m = \<lparr>
     l_fx_efx_exp_flags = ucast (cmp_up_model32 (ucast (l_fx_efx_exp_flags d)) (ucast (l_fx_efx_exp_flags m)) model_val round),
     l_fx_efx_fx = cmp_up_model_u32 (l_fx_efx_fx d) (l_fx_efx_fx m) model_val round,
     l_fx_efx_efx = cmp_up_model_u32 (l_fx_efx_efx d) (l_fx_efx_efx m) model_val round,
     l_fx_efx_fx_variance = cmp_up_model_u32 (l_fx_efx_fx_variance d) (l_fx_efx_fx_variance m) model_val round\<rparr>"

definition l_fx_efx_acc :: "((l_fx_efx \<Rightarrow> u32) \<times> (u32 \<Rightarrow> l_fx_efx \<Rightarrow> l_fx_efx)) list" where
  "l_fx_efx_acc = [
     (\<lambda>s. ucast (l_fx_efx_exp_flags s), \<lambda>v s. s\<lparr>l_fx_efx_exp_flags := ucast v\<rparr>),
     (l_fx_efx_fx, \<lambda>v s. s\<lparr>l_fx_efx_fx := v\<rparr>),
     (l_fx_efx_efx, \<lambda>v s. s\<lparr>l_fx_efx_efx := v\<rparr>),
     (l_fx_efx_fx_variance, \<lambda>v s. s\<lparr>l_fx_efx_fx_variance := v\<rparr>)]"

definition l_fx_ncob_zero :: l_fx_ncob where
  "l_fx_ncob_zero = \<lparr>l_fx_ncob_exp_flags = 0, l_fx_ncob_fx = 0, l_fx_ncob_ncob_x = 0, l_fx_ncob_ncob_y = 0, l_fx_ncob_fx_variance = 0, l_fx_ncob_cob_x_variance = 0, l_fx_ncob_cob_y_variance = 0\<rparr>"

definition l_fx_ncob_up_model :: "u32 \<Rightarrow> u32 \<Rightarrow> l_fx_ncob \<Rightarrow> l_fx_ncob \<Rightarrow> l_fx_ncob" where
  "l_fx_ncob_up_model model_val round d m = \<lparr>
     l_fx_ncob_exp_flags = ucast (cmp_up_model32 (ucast (l_fx_ncob_exp_flags d)) (ucast (l_fx_ncob_exp_flags m)) model_val round),
     l_fx_ncob_fx = cmp_up_model_u32 (l_fx_ncob_fx d) (l_fx_ncob_fx m) model_val round,
     l_fx_ncob_ncob_x = cmp_up_model_u32 (l_fx_ncob_ncob_x d) (l_fx_ncob_ncob_x m) model_val round,
     l_fx_ncob_ncob_y = cmp_up_model_u32 (l_fx_ncob_ncob_y d) (l_fx_ncob_ncob_y m) model_val round,
     l_fx_ncob_fx_variance = cmp_up_model_u32 (l_fx_ncob_fx_variance d) (l_fx_ncob_fx_variance m) model_val round,
     l_fx_ncob_cob_x_variance = cmp_up_model_u32 (l_fx_ncob_cob_x_variance d) (l_fx_ncob_cob_x_variance m) model_val round,
     l_fx_ncob_cob_y_variance = cmp_up_model_u32 (l_fx_ncob_cob_y_variance d) (l_fx_ncob_cob_y_variance m) model_val round\<rparr>"

definition l_fx_ncob_acc :: "((l_fx_ncob \<Rightarrow> u32) \<times> (u32 \<Rightarrow> l_fx_ncob \<Rightarrow> l_fx_ncob)) list" where
  "l_fx_ncob_acc = [
     (\<lambda>s. ucast (l_fx_ncob_exp_flags s), \<lambda>v s. s\<lparr>l_fx_ncob_exp_flags := ucast v\<rparr>),
     (l_fx_ncob_fx, \<lambda>v s. s\<lparr>l_fx_ncob_fx := v\<rparr>),
     (l_fx_ncob_ncob_x, \<lambda>v s. s\<lparr>l_fx_ncob_ncob_x := v\<rparr>),
     (l_fx_ncob_ncob_y, \<lambda>v s. s\<lparr>l_fx_ncob_ncob_y := v\<rparr>),
     (l_fx_ncob_fx_variance, \<lambda>v s. s\<lparr>l_fx_ncob_fx_variance := v\<rparr>),
     (l_fx_ncob_cob_x_variance, \<lambda>v s. s\<lparr>l_fx_ncob_cob_x_variance := v\<rparr>),
     (l_fx_ncob_cob_y_variance, \<lambda>v s. s\<lparr>l_fx_ncob_cob_y_variance := v\<rparr>)]"

definition l_fx_efx_ncob_ecob_zero :: l_fx_efx_ncob_ecob where
  "l_fx_efx_ncob_ecob_zero = \<lparr>l_fx_efx_ncob_ecob_exp_flags = 0, l_fx_efx_ncob_ecob_fx = 0, l_fx_efx_ncob_ecob_ncob_x = 0, l_fx_efx_ncob_ecob_ncob_y = 0, l_fx_efx_ncob_ecob_efx = 0, l_fx_efx_ncob_ecob_ecob_x = 0, l_fx_efx_ncob_ecob_ecob_y = 0, l_fx_efx_ncob_ecob_fx_variance = 0, l_fx_efx_ncob_ecob_cob_x_variance = 0, l_fx_efx_ncob_ecob_cob_y_variance = 0\<rparr>"

definition l_fx_efx_ncob_ecob_up_model :: "u32 \<Rightarrow> u32 \<Rightarrow> l_fx_efx_ncob_ecob \<Rightarrow> l_fx_efx_ncob_ecob \<Rightarrow> l_fx_efx_ncob_ecob" where
  "l_fx_efx_ncob_ecob_up_model model_val round d m = \<lparr>
     l_fx_efx_ncob_ecob_exp_flags = ucast (cmp_up_model32 (ucast (l_fx_efx_ncob_ecob_exp_flags d)) (ucast (l_fx_efx_ncob_ecob_exp_flags m)) model_val round),
     l_fx_efx_ncob_ecob_fx = cmp_up_model_u32 (l_fx_efx_ncob_ecob_fx d) (l_fx_efx_ncob_ecob_fx m) model_val round,
     l_fx_efx_ncob_ecob_ncob_x = cmp_up_model_u32 (l_fx_efx_ncob_ecob_ncob_x d) (l_fx_efx_ncob_ecob_ncob_x m) model_val round,
     l_fx_efx_ncob_ecob_ncob_y = cmp_up_model_u32 (l_fx_efx_ncob_ecob_ncob_y d) (l_fx_efx_ncob_ecob_ncob_y m) model_val round,
     l_fx_efx_ncob_ecob_efx = cmp_up_model_u32 (l_fx_efx_ncob_ecob_efx d) (l_fx_efx_ncob_ecob_efx m) model_val round,
     l_fx_efx_ncob_ecob_ecob_x = cmp_up_model_u32 (l_fx_efx_ncob_ecob_ecob_x d) (l_fx_efx_ncob_ecob_ecob_x m) model_val round,
     l_fx_efx_ncob_ecob_ecob_y = cmp_up_model_u32 (l_fx_efx_ncob_ecob_ecob_y d) (l_fx_efx_ncob_ecob_ecob_y m) model_val round,
     l_fx_efx_ncob_ecob_fx_variance = cmp_up_model_u32 (l_fx_efx_ncob_ecob_fx_variance d) (l_fx_efx_ncob_ecob_fx_variance m) model_val round,
     l_fx_efx_ncob_ecob_cob_x_variance = cmp_up_model_u32 (l_fx_efx_ncob_ecob_cob_x_variance d) (l_fx_efx_ncob_ecob_cob_x_variance m) model_val round,
     l_fx_efx_ncob_ecob_cob_y_variance = cmp_up_model_u32 (l_fx_efx_ncob_ecob_cob_y_variance d) (l_fx_efx_ncob_ecob_cob_y_variance m) model_val round\<rparr>"

definition l_fx_efx_ncob_ecob_acc :: "((l_fx_efx_ncob_ecob \<Rightarrow> u32) \<times> (u32 \<Rightarrow> l_fx_efx_ncob_ecob \<Rightarrow> l_fx_efx_ncob_ecob)) list" where
  "l_fx_efx_ncob_ecob_acc = [
     (\<lambda>s. ucast (l_fx_efx_ncob_ecob_exp_flags s), \<lambda>v s. s\<lparr>l_fx_efx_ncob_ecob_exp_flags := ucast v\<rparr>),
     (l_fx_efx_ncob_ecob_fx, \<lambda>v s. s\<lparr>l_fx_efx_ncob_ecob_fx := v\<rparr>),
     (l_fx_efx_ncob_ecob_ncob_x, \<lambda>v s. s\<lparr>l_fx_efx_ncob_ecob_ncob_x := v\<rparr>),
     (l_fx_efx_ncob_ecob_ncob_y, \<lambda>v s. s\<lparr>l_fx_efx_ncob_ecob_ncob_y := v\<rparr>),
     (l_fx_efx_ncob_ecob_efx, \<lambda>v s. s\<lparr>l_fx_efx_ncob_ecob_efx := v\<rparr>),
     (l_fx_efx_ncob_ecob_ecob_x, \<lambda>v s. s\<lparr>l_fx_efx_ncob_ecob_ecob_x := v\<rparr>),
     (l_fx_efx_ncob_ecob_ecob_y, \<lambda>v s. s\<lparr>l_fx_efx_ncob_ecob_ecob_y := v\<rparr>),
     (l_fx_efx_ncob_ecob_fx_variance, \<lambda>v s. s\<lparr>l_fx_efx_ncob_ecob_fx_variance := v\<rparr>),
     (l_fx_efx_ncob_ecob_cob_x_variance, \<lambda>v s. s\<lparr>l_fx_efx_ncob_ecob_cob_x_variance := v\<rparr>),
     (l_fx_efx_ncob_ecob_cob_y_variance, \<lambda>v s. s\<lparr>l_fx_efx_ncob_ecob_cob_y_variance := v\<rparr>)]"

definition offset_zero :: offset_entry where
  "offset_zero = \<lparr>off_mean = 0, off_variance = 0\<rparr>"

definition offset_up_model :: "u32 \<Rightarrow> u32 \<Rightarrow> offset_entry \<Rightarrow> offset_entry \<Rightarrow> offset_entry" where
  "offset_up_model model_val round d m = \<lparr>
     off_mean = cmp_up_model_u32 (off_mean d) (off_mean m) model_val round,
     off_variance = cmp_up_model_u32 (off_variance d) (off_variance m) model_val round\<rparr>"

definition offset_acc :: "((offset_entry \<Rightarrow> u32) \<times> (u32 \<Rightarrow> offset_entry \<Rightarrow> offset_entry)) list" where
  "offset_acc = [
     (off_mean, \<lambda>v s. s\<lparr>off_mean := v\<rparr>),
     (off_variance, \<lambda>v s. s\<lparr>off_variance := v\<rparr>)]"

definition background_zero :: background_entry where
  "background_zero = \<lparr>bkg_mean = 0, bkg_variance = 0, bkg_outlier_pixels = 0\<rparr>"

definition background_up_model :: "u32 \<Rightarrow> u32 \<Rightarrow> background_entry \<Rightarrow> background_entry \<Rightarrow> background_entry" where
  "background_up_model model_val round d m = \<lparr>
     bkg_mean = cmp_up_model_u32 (bkg_mean d) (bkg_mean m) model_val round,
     bkg_variance = cmp_up_model_u32 (bkg_variance d) (bkg_variance m) model_val round,
     bkg_outlier_pixels = cmp_up_model_u16 (bkg_outlier_pixels d) (bkg_outlier_pixels m) model_val round\<rparr>"

definition background_acc :: "((background_entry \<Rightarrow> u32) \<times> (u32 \<Rightarrow> background_entry \<Rightarrow> background_entry)) list" where
  "background_acc = [
     (bkg_mean, \<lambda>v s. s\<lparr>bkg_mean := v\<rparr>),
     (bkg_variance, \<lambda>v s. s\<lparr>bkg_variance := v\<rparr>),
     (\<lambda>s. ucast (bkg_outlier_pixels s), \<lambda>v s. s\<lparr>bkg_outlier_pixels := ucast v\<rparr>)]"

definition smearing_zero :: smearing_entry where
  "smearing_zero = \<lparr>smr_mean = 0, smr_variance_mean = 0, smr_outlier_pixels = 0\<rparr>"

definition smearing_up_model :: "u32 \<Rightarrow> u32 \<Rightarrow> smearing_entry \<Rightarrow> smearing_entry \<Rightarrow> smearing_entry" where
  "smearing_up_model model_val round d m = \<lparr>
     smr_mean = cmp_up_model_u32 (smr_mean d) (smr_mean m) model_val round,
     smr_variance_mean = cmp_up_model_u32 (smr_variance_mean d) (smr_variance_mean m) model_val round,
     smr_outlier_pixels = cmp_up_model_u16 (smr_outlier_pixels d) (smr_outlier_pixels m) model_val round\<rparr>"

definition smearing_acc :: "((smearing_entry \<Rightarrow> u32) \<times> (u32 \<Rightarrow> smearing_entry \<Rightarrow> smearing_entry)) list" where
  "smearing_acc = [
     (smr_mean, \<lambda>v s. s\<lparr>smr_mean := v\<rparr>),
     (smr_variance_mean, \<lambda>v s. s\<lparr>smr_variance_mean := v\<rparr>),
     (\<lambda>s. ucast (smr_outlier_pixels s), \<lambda>v s. s\<lparr>smr_outlier_pixels := ucast v\<rparr>)]"

section \<open>The laws\<close>

named_theorems sample_defs \<open>the accessors and updates of the sample types\<close>

lemmas sample_types_defs [sample_defs] =
  imagette_acc_def imagette_up_model_def
  s_fx_zero_def s_fx_acc_def s_fx_up_model_def
  s_fx_efx_zero_def s_fx_efx_acc_def s_fx_efx_up_model_def
  s_fx_ncob_zero_def s_fx_ncob_acc_def s_fx_ncob_up_model_def
  s_fx_efx_ncob_ecob_zero_def s_fx_efx_ncob_ecob_acc_def s_fx_efx_ncob_ecob_up_model_def
  l_fx_zero_def l_fx_acc_def l_fx_up_model_def
  l_fx_efx_zero_def l_fx_efx_acc_def l_fx_efx_up_model_def
  l_fx_ncob_zero_def l_fx_ncob_acc_def l_fx_ncob_up_model_def
  l_fx_efx_ncob_ecob_zero_def l_fx_efx_ncob_ecob_acc_def l_fx_efx_ncob_ecob_up_model_def
  offset_zero_def offset_acc_def offset_up_model_def
  background_zero_def background_acc_def background_up_model_def
  smearing_zero_def smearing_acc_def smearing_up_model_def

lemma ucast_rounded_narrow:
  "ucast (ucast (rounded r (ucast (x :: u8))) :: u8) = rounded r (ucast x)"
  "ucast (ucast (rounded r (ucast (y :: u16))) :: u16) = rounded r (ucast y)"
  "ucast (ucast (rounded r (ucast (z :: u24))) :: u24) = rounded r (ucast z)"
  by (rule ucast_rounded, simp)+

lemma ucast_ucast_narrow:
  "ucast (ucast (x :: u8) :: u32) = x"
  "ucast (ucast (y :: u16) :: u32) = y"
  "ucast (ucast (z :: u24) :: u32) = z"
  by (rule bit_word_eqI, simp add: bit_ucast_iff)+

lemmas cmp_up_model_sizes = cmp_up_model_u8_def cmp_up_model_u16_def cmp_up_model_u32_def

named_theorems codecs \<open>how the codec laws of a type are proved\<close>

lemmas codec_rules [codecs] =
  restore_def ucast_rounded_narrow ucast_ucast_narrow cmp_up_model_sizes

interpretation imagette: sample_codec imagette_acc imagette_up_model
  by unfold_locales (auto simp: codecs sample_defs)

interpretation s_fx: sample_codec s_fx_acc s_fx_up_model
  by unfold_locales (auto simp: codecs sample_defs)

interpretation s_fx_efx: sample_codec s_fx_efx_acc s_fx_efx_up_model
  by unfold_locales (auto simp: codecs sample_defs)

interpretation s_fx_ncob: sample_codec s_fx_ncob_acc s_fx_ncob_up_model
  by unfold_locales (auto simp: codecs sample_defs)

interpretation s_fx_efx_ncob_ecob: sample_codec s_fx_efx_ncob_ecob_acc s_fx_efx_ncob_ecob_up_model
  by unfold_locales (auto simp: codecs sample_defs)

interpretation l_fx: sample_codec l_fx_acc l_fx_up_model
  by unfold_locales (auto simp: codecs sample_defs)

interpretation l_fx_efx: sample_codec l_fx_efx_acc l_fx_efx_up_model
  by unfold_locales (auto simp: codecs sample_defs)

interpretation l_fx_ncob: sample_codec l_fx_ncob_acc l_fx_ncob_up_model
  by unfold_locales (auto simp: codecs sample_defs)

interpretation l_fx_efx_ncob_ecob: sample_codec l_fx_efx_ncob_ecob_acc l_fx_efx_ncob_ecob_up_model
  by unfold_locales (auto simp: codecs sample_defs)

interpretation offset_data: sample_codec offset_acc offset_up_model
  by unfold_locales (auto simp: codecs sample_defs)

interpretation background_data: sample_codec background_acc background_up_model
  by unfold_locales (auto simp: codecs sample_defs)

interpretation smearing_data: sample_codec smearing_acc smearing_up_model
  by unfold_locales (auto simp: codecs sample_defs)

end
