(* ===== verification/Collection_Compress.thy ===== *)
theory Collection_Compress
  imports Sample_Types
begin

text \<open>
  The twelve functions of \<open>lib/icu_compress/cmp_icu.c\<close> that compress the samples of one type,
  \<open>compress_imagette\<close> to \<open>compress_smearing\<close>. The source, model and updated model buffers of
  the configuration are arguments: lists of samples of the type to which the C code casts the
  pointers.
\<close>

definition imagette_max_data_bits :: "cmp_data_type \<Rightarrow> u32" where
  "imagette_max_data_bits t =
     (if t = DATA_TYPE_F_CAM_IMAGETTE \<or> t = DATA_TYPE_F_CAM_IMAGETTE_ADAPTIVE
      then bits_fc_imagette MAX_USED_BITS
      else if t = DATA_TYPE_SAT_IMAGETTE \<or> t = DATA_TYPE_SAT_IMAGETTE_ADAPTIVE
      then bits_saturated_imagette MAX_USED_BITS
      else bits_nc_imagette MAX_USED_BITS)"

definition imagette_fields :: "cmp_cfg \<Rightarrow> u16 encode_field list" where
  "imagette_fields cfg =
     (let setup = configure_encoder_setup (cmp_par_imagette cfg) (spill_imagette cfg) (round_par cfg)
            (imagette_max_data_bits (data_type cfg)) cfg
      in [(ucast, setup)])"

definition compress_imagette ::
  "cmp_cfg \<Rightarrow> u16 list \<Rightarrow> u16 model_mem \<Rightarrow> u32 \<Rightarrow> buffer option \<Rightarrow> u16 compress_result" where
  "compress_imagette cfg =
     compress_samples (imagette_fields cfg) (imagette_up_model (model_value cfg) (round_par cfg)) 0 cfg"

text \<open>The fields in the order of the stream, each with its setup.\<close>

definition s_fx_fields :: "cmp_cfg \<Rightarrow> s_fx encode_field list" where
  "s_fx_fields cfg =
     (let setup_exp_flag = configure_encoder_setup (cmp_par_exp_flags cfg) (spill_exp_flags cfg) (round_par cfg)
            (bits_s_exp_flags MAX_USED_BITS) cfg;
          setup_fx = configure_encoder_setup (cmp_par_fx cfg) (spill_fx cfg) (round_par cfg)
            (bits_s_fx MAX_USED_BITS) cfg
      in [(\<lambda>s. ucast (s_fx_exp_flags s), setup_exp_flag),
          (s_fx_fx, setup_fx)])"

definition compress_s_fx ::
  "cmp_cfg \<Rightarrow> s_fx list \<Rightarrow> s_fx model_mem \<Rightarrow> u32 \<Rightarrow> buffer option \<Rightarrow> s_fx compress_result" where
  "compress_s_fx cfg =
     compress_samples (s_fx_fields cfg) (s_fx_up_model (model_value cfg) (round_par cfg)) s_fx_zero cfg"

definition s_fx_efx_fields :: "cmp_cfg \<Rightarrow> s_fx_efx encode_field list" where
  "s_fx_efx_fields cfg =
     (let setup_exp_flag = configure_encoder_setup (cmp_par_exp_flags cfg) (spill_exp_flags cfg) (round_par cfg)
            (bits_s_exp_flags MAX_USED_BITS) cfg;
          setup_fx = configure_encoder_setup (cmp_par_fx cfg) (spill_fx cfg) (round_par cfg)
            (bits_s_fx MAX_USED_BITS) cfg;
          setup_efx = configure_encoder_setup (cmp_par_efx cfg) (spill_efx cfg) (round_par cfg)
            (bits_s_efx MAX_USED_BITS) cfg
      in [(\<lambda>s. ucast (s_fx_efx_exp_flags s), setup_exp_flag),
          (s_fx_efx_fx, setup_fx),
          (s_fx_efx_efx, setup_efx)])"

definition compress_s_fx_efx ::
  "cmp_cfg \<Rightarrow> s_fx_efx list \<Rightarrow> s_fx_efx model_mem \<Rightarrow> u32 \<Rightarrow> buffer option \<Rightarrow> s_fx_efx compress_result" where
  "compress_s_fx_efx cfg =
     compress_samples (s_fx_efx_fields cfg) (s_fx_efx_up_model (model_value cfg) (round_par cfg)) s_fx_efx_zero cfg"

definition s_fx_ncob_fields :: "cmp_cfg \<Rightarrow> s_fx_ncob encode_field list" where
  "s_fx_ncob_fields cfg =
     (let setup_exp_flag = configure_encoder_setup (cmp_par_exp_flags cfg) (spill_exp_flags cfg) (round_par cfg)
            (bits_s_exp_flags MAX_USED_BITS) cfg;
          setup_fx = configure_encoder_setup (cmp_par_fx cfg) (spill_fx cfg) (round_par cfg)
            (bits_s_fx MAX_USED_BITS) cfg;
          setup_ncob = configure_encoder_setup (cmp_par_ncob cfg) (spill_ncob cfg) (round_par cfg)
            (bits_s_ncob MAX_USED_BITS) cfg
      in [(\<lambda>s. ucast (s_fx_ncob_exp_flags s), setup_exp_flag),
          (s_fx_ncob_fx, setup_fx),
          (s_fx_ncob_ncob_x, setup_ncob),
          (s_fx_ncob_ncob_y, setup_ncob)])"

definition compress_s_fx_ncob ::
  "cmp_cfg \<Rightarrow> s_fx_ncob list \<Rightarrow> s_fx_ncob model_mem \<Rightarrow> u32 \<Rightarrow> buffer option \<Rightarrow> s_fx_ncob compress_result" where
  "compress_s_fx_ncob cfg =
     compress_samples (s_fx_ncob_fields cfg) (s_fx_ncob_up_model (model_value cfg) (round_par cfg)) s_fx_ncob_zero cfg"

definition s_fx_efx_ncob_ecob_fields :: "cmp_cfg \<Rightarrow> s_fx_efx_ncob_ecob encode_field list" where
  "s_fx_efx_ncob_ecob_fields cfg =
     (let setup_exp_flag = configure_encoder_setup (cmp_par_exp_flags cfg) (spill_exp_flags cfg) (round_par cfg)
            (bits_s_exp_flags MAX_USED_BITS) cfg;
          setup_fx = configure_encoder_setup (cmp_par_fx cfg) (spill_fx cfg) (round_par cfg)
            (bits_s_fx MAX_USED_BITS) cfg;
          setup_ncob = configure_encoder_setup (cmp_par_ncob cfg) (spill_ncob cfg) (round_par cfg)
            (bits_s_ncob MAX_USED_BITS) cfg;
          setup_efx = configure_encoder_setup (cmp_par_efx cfg) (spill_efx cfg) (round_par cfg)
            (bits_s_efx MAX_USED_BITS) cfg;
          setup_ecob = configure_encoder_setup (cmp_par_ecob cfg) (spill_ecob cfg) (round_par cfg)
            (bits_s_ecob MAX_USED_BITS) cfg
      in [(\<lambda>s. ucast (s_fx_efx_ncob_ecob_exp_flags s), setup_exp_flag),
          (s_fx_efx_ncob_ecob_fx, setup_fx),
          (s_fx_efx_ncob_ecob_ncob_x, setup_ncob),
          (s_fx_efx_ncob_ecob_ncob_y, setup_ncob),
          (s_fx_efx_ncob_ecob_efx, setup_efx),
          (s_fx_efx_ncob_ecob_ecob_x, setup_ecob),
          (s_fx_efx_ncob_ecob_ecob_y, setup_ecob)])"

definition compress_s_fx_efx_ncob_ecob ::
  "cmp_cfg \<Rightarrow> s_fx_efx_ncob_ecob list \<Rightarrow> s_fx_efx_ncob_ecob model_mem \<Rightarrow> u32 \<Rightarrow> buffer option \<Rightarrow> s_fx_efx_ncob_ecob compress_result" where
  "compress_s_fx_efx_ncob_ecob cfg =
     compress_samples (s_fx_efx_ncob_ecob_fields cfg) (s_fx_efx_ncob_ecob_up_model (model_value cfg) (round_par cfg)) s_fx_efx_ncob_ecob_zero cfg"

definition l_fx_fields :: "cmp_cfg \<Rightarrow> l_fx encode_field list" where
  "l_fx_fields cfg =
     (let setup_exp_flag = configure_encoder_setup (cmp_par_exp_flags cfg) (spill_exp_flags cfg) (round_par cfg)
            (bits_l_exp_flags MAX_USED_BITS) cfg;
          setup_fx = configure_encoder_setup (cmp_par_fx cfg) (spill_fx cfg) (round_par cfg)
            (bits_l_fx MAX_USED_BITS) cfg;
          setup_fx_var = configure_encoder_setup (cmp_par_fx_cob_variance cfg) (spill_fx_cob_variance cfg) (round_par cfg)
            (bits_l_fx_cob_variance MAX_USED_BITS) cfg
      in [(\<lambda>s. ucast (l_fx_exp_flags s), setup_exp_flag),
          (l_fx_fx, setup_fx),
          (l_fx_fx_variance, setup_fx_var)])"

definition compress_l_fx ::
  "cmp_cfg \<Rightarrow> l_fx list \<Rightarrow> l_fx model_mem \<Rightarrow> u32 \<Rightarrow> buffer option \<Rightarrow> l_fx compress_result" where
  "compress_l_fx cfg =
     compress_samples (l_fx_fields cfg) (l_fx_up_model (model_value cfg) (round_par cfg)) l_fx_zero cfg"

definition l_fx_efx_fields :: "cmp_cfg \<Rightarrow> l_fx_efx encode_field list" where
  "l_fx_efx_fields cfg =
     (let setup_exp_flag = configure_encoder_setup (cmp_par_exp_flags cfg) (spill_exp_flags cfg) (round_par cfg)
            (bits_l_exp_flags MAX_USED_BITS) cfg;
          setup_fx = configure_encoder_setup (cmp_par_fx cfg) (spill_fx cfg) (round_par cfg)
            (bits_l_fx MAX_USED_BITS) cfg;
          setup_efx = configure_encoder_setup (cmp_par_efx cfg) (spill_efx cfg) (round_par cfg)
            (bits_l_efx MAX_USED_BITS) cfg;
          setup_fx_var = configure_encoder_setup (cmp_par_fx_cob_variance cfg) (spill_fx_cob_variance cfg) (round_par cfg)
            (bits_l_fx_cob_variance MAX_USED_BITS) cfg
      in [(\<lambda>s. ucast (l_fx_efx_exp_flags s), setup_exp_flag),
          (l_fx_efx_fx, setup_fx),
          (l_fx_efx_efx, setup_efx),
          (l_fx_efx_fx_variance, setup_fx_var)])"

definition compress_l_fx_efx ::
  "cmp_cfg \<Rightarrow> l_fx_efx list \<Rightarrow> l_fx_efx model_mem \<Rightarrow> u32 \<Rightarrow> buffer option \<Rightarrow> l_fx_efx compress_result" where
  "compress_l_fx_efx cfg =
     compress_samples (l_fx_efx_fields cfg) (l_fx_efx_up_model (model_value cfg) (round_par cfg)) l_fx_efx_zero cfg"

definition l_fx_ncob_fields :: "cmp_cfg \<Rightarrow> l_fx_ncob encode_field list" where
  "l_fx_ncob_fields cfg =
     (let setup_exp_flag = configure_encoder_setup (cmp_par_exp_flags cfg) (spill_exp_flags cfg) (round_par cfg)
            (bits_l_exp_flags MAX_USED_BITS) cfg;
          setup_fx = configure_encoder_setup (cmp_par_fx cfg) (spill_fx cfg) (round_par cfg)
            (bits_l_fx MAX_USED_BITS) cfg;
          setup_ncob = configure_encoder_setup (cmp_par_ncob cfg) (spill_ncob cfg) (round_par cfg)
            (bits_l_ncob MAX_USED_BITS) cfg;
          setup_fx_var = configure_encoder_setup (cmp_par_fx_cob_variance cfg) (spill_fx_cob_variance cfg) (round_par cfg)
            (bits_l_fx_cob_variance MAX_USED_BITS) cfg;
          setup_cob_var = configure_encoder_setup (cmp_par_fx_cob_variance cfg) (spill_fx_cob_variance cfg) (round_par cfg)
            (bits_l_fx_cob_variance MAX_USED_BITS) cfg
      in [(\<lambda>s. ucast (l_fx_ncob_exp_flags s), setup_exp_flag),
          (l_fx_ncob_fx, setup_fx),
          (l_fx_ncob_ncob_x, setup_ncob),
          (l_fx_ncob_ncob_y, setup_ncob),
          (l_fx_ncob_fx_variance, setup_fx_var),
          (l_fx_ncob_cob_x_variance, setup_cob_var),
          (l_fx_ncob_cob_y_variance, setup_cob_var)])"

definition compress_l_fx_ncob ::
  "cmp_cfg \<Rightarrow> l_fx_ncob list \<Rightarrow> l_fx_ncob model_mem \<Rightarrow> u32 \<Rightarrow> buffer option \<Rightarrow> l_fx_ncob compress_result" where
  "compress_l_fx_ncob cfg =
     compress_samples (l_fx_ncob_fields cfg) (l_fx_ncob_up_model (model_value cfg) (round_par cfg)) l_fx_ncob_zero cfg"

definition l_fx_efx_ncob_ecob_fields :: "cmp_cfg \<Rightarrow> l_fx_efx_ncob_ecob encode_field list" where
  "l_fx_efx_ncob_ecob_fields cfg =
     (let setup_exp_flag = configure_encoder_setup (cmp_par_exp_flags cfg) (spill_exp_flags cfg) (round_par cfg)
            (bits_l_exp_flags MAX_USED_BITS) cfg;
          setup_fx = configure_encoder_setup (cmp_par_fx cfg) (spill_fx cfg) (round_par cfg)
            (bits_l_fx MAX_USED_BITS) cfg;
          setup_ncob = configure_encoder_setup (cmp_par_ncob cfg) (spill_ncob cfg) (round_par cfg)
            (bits_l_ncob MAX_USED_BITS) cfg;
          setup_efx = configure_encoder_setup (cmp_par_efx cfg) (spill_efx cfg) (round_par cfg)
            (bits_l_efx MAX_USED_BITS) cfg;
          setup_ecob = configure_encoder_setup (cmp_par_ecob cfg) (spill_ecob cfg) (round_par cfg)
            (bits_l_ecob MAX_USED_BITS) cfg;
          setup_fx_var = configure_encoder_setup (cmp_par_fx_cob_variance cfg) (spill_fx_cob_variance cfg) (round_par cfg)
            (bits_l_fx_cob_variance MAX_USED_BITS) cfg;
          setup_cob_var = configure_encoder_setup (cmp_par_fx_cob_variance cfg) (spill_fx_cob_variance cfg) (round_par cfg)
            (bits_l_fx_cob_variance MAX_USED_BITS) cfg
      in [(\<lambda>s. ucast (l_fx_efx_ncob_ecob_exp_flags s), setup_exp_flag),
          (l_fx_efx_ncob_ecob_fx, setup_fx),
          (l_fx_efx_ncob_ecob_ncob_x, setup_ncob),
          (l_fx_efx_ncob_ecob_ncob_y, setup_ncob),
          (l_fx_efx_ncob_ecob_efx, setup_efx),
          (l_fx_efx_ncob_ecob_ecob_x, setup_ecob),
          (l_fx_efx_ncob_ecob_ecob_y, setup_ecob),
          (l_fx_efx_ncob_ecob_fx_variance, setup_fx_var),
          (l_fx_efx_ncob_ecob_cob_x_variance, setup_cob_var),
          (l_fx_efx_ncob_ecob_cob_y_variance, setup_cob_var)])"

definition compress_l_fx_efx_ncob_ecob ::
  "cmp_cfg \<Rightarrow> l_fx_efx_ncob_ecob list \<Rightarrow> l_fx_efx_ncob_ecob model_mem \<Rightarrow> u32 \<Rightarrow> buffer option \<Rightarrow> l_fx_efx_ncob_ecob compress_result" where
  "compress_l_fx_efx_ncob_ecob cfg =
     compress_samples (l_fx_efx_ncob_ecob_fields cfg) (l_fx_efx_ncob_ecob_up_model (model_value cfg) (round_par cfg)) l_fx_efx_ncob_ecob_zero cfg"

definition offset_fields :: "cmp_cfg \<Rightarrow> offset_entry encode_field list" where
  "offset_fields cfg =
     (let mean_bits_used = (if data_type cfg = DATA_TYPE_F_CAM_OFFSET then bits_fc_offset_mean MAX_USED_BITS else bits_nc_offset_mean MAX_USED_BITS);
          variance_bits_used = (if data_type cfg = DATA_TYPE_F_CAM_OFFSET then bits_fc_offset_variance MAX_USED_BITS else bits_nc_offset_variance MAX_USED_BITS);
          setup_mean = configure_encoder_setup (cmp_par_offset_mean cfg) (spill_offset_mean cfg) (round_par cfg)
            mean_bits_used cfg;
          setup_var = configure_encoder_setup (cmp_par_offset_variance cfg) (spill_offset_variance cfg) (round_par cfg)
            variance_bits_used cfg
      in [(off_mean, setup_mean),
          (off_variance, setup_var)])"

definition compress_offset ::
  "cmp_cfg \<Rightarrow> offset_entry list \<Rightarrow> offset_entry model_mem \<Rightarrow> u32 \<Rightarrow> buffer option \<Rightarrow> offset_entry compress_result" where
  "compress_offset cfg =
     compress_samples (offset_fields cfg) (offset_up_model (model_value cfg) (round_par cfg)) offset_zero cfg"

definition background_fields :: "cmp_cfg \<Rightarrow> background_entry encode_field list" where
  "background_fields cfg =
     (let mean_used_bits = (if data_type cfg = DATA_TYPE_F_CAM_BACKGROUND then bits_fc_background_mean MAX_USED_BITS else bits_nc_background_mean MAX_USED_BITS);
          variance_used_bits = (if data_type cfg = DATA_TYPE_F_CAM_BACKGROUND then bits_fc_background_variance MAX_USED_BITS else bits_nc_background_variance MAX_USED_BITS);
          pixels_error_used_bits = (if data_type cfg = DATA_TYPE_F_CAM_BACKGROUND then bits_fc_background_outlier_pixels MAX_USED_BITS else bits_nc_background_outlier_pixels MAX_USED_BITS);
          setup_mean = configure_encoder_setup (cmp_par_background_mean cfg) (spill_background_mean cfg) (round_par cfg)
            mean_used_bits cfg;
          setup_var = configure_encoder_setup (cmp_par_background_variance cfg) (spill_background_variance cfg) (round_par cfg)
            variance_used_bits cfg;
          setup_pix = configure_encoder_setup (cmp_par_background_pixels_error cfg) (spill_background_pixels_error cfg) (round_par cfg)
            pixels_error_used_bits cfg
      in [(bkg_mean, setup_mean),
          (bkg_variance, setup_var),
          (\<lambda>s. ucast (bkg_outlier_pixels s), setup_pix)])"

definition compress_background ::
  "cmp_cfg \<Rightarrow> background_entry list \<Rightarrow> background_entry model_mem \<Rightarrow> u32 \<Rightarrow> buffer option \<Rightarrow> background_entry compress_result" where
  "compress_background cfg =
     compress_samples (background_fields cfg) (background_up_model (model_value cfg) (round_par cfg)) background_zero cfg"

definition smearing_fields :: "cmp_cfg \<Rightarrow> smearing_entry encode_field list" where
  "smearing_fields cfg =
     (let setup_mean = configure_encoder_setup (cmp_par_smearing_mean cfg) (spill_smearing_mean cfg) (round_par cfg)
            (bits_smearing_mean MAX_USED_BITS) cfg;
          setup_var_mean = configure_encoder_setup (cmp_par_smearing_variance cfg) (spill_smearing_variance cfg) (round_par cfg)
            (bits_smearing_variance_mean MAX_USED_BITS) cfg;
          setup_pix = configure_encoder_setup (cmp_par_smearing_pixels_error cfg) (spill_smearing_pixels_error cfg) (round_par cfg)
            (bits_smearing_outlier_pixels MAX_USED_BITS) cfg
      in [(smr_mean, setup_mean),
          (smr_variance_mean, setup_var_mean),
          (\<lambda>s. ucast (smr_outlier_pixels s), setup_pix)])"

definition compress_smearing ::
  "cmp_cfg \<Rightarrow> smearing_entry list \<Rightarrow> smearing_entry model_mem \<Rightarrow> u32 \<Rightarrow> buffer option \<Rightarrow> smearing_entry compress_result" where
  "compress_smearing cfg =
     compress_samples (smearing_fields cfg) (smearing_up_model (model_value cfg) (round_par cfg)) smearing_zero cfg"

end
