(* ===== verification/Sample_Memory.thy ===== *)
theory Sample_Memory
  imports Sample_Types
begin

text \<open>
  Samples in memory. The C code casts a byte pointer to a packed structure, so the bytes of a
  field are in the byte order of the CPU; \<open>big\<close> says whether that is big-endian
  (\<open>CMP_IS_BIG_ENDIAN\<close> of \<open>lib/common/cmp_data_types.c\<close>). A buffer of samples is read as the
  list of its whole samples, and written back with the bytes behind them unchanged.
\<close>

section \<open>Host byte order\<close>

definition host_word :: "bool \<Rightarrow> buffer \<Rightarrow> 'a::len word" where
  "host_word big bs = be_word (if big then bs else rev bs)"

definition host_bytes :: "bool \<Rightarrow> nat \<Rightarrow> 'a::len word \<Rightarrow> buffer" where
  "host_bytes big n w = (if big then be_bytes n w else rev (be_bytes n w))"

lemma length_host_bytes [simp]: "length (host_bytes big n w) = n"
  by (simp add: host_bytes_def)

lemma host_bytes_host_word [simp]:
  "length bs = n \<Longrightarrow> 8 * n \<le> LENGTH('a) \<Longrightarrow> host_bytes big n (host_word big bs :: 'a::len word) = bs"
  using be_bytes_be_word [of "rev bs", where 'a = 'a]
  by (auto simp: host_bytes_def host_word_def)

lemma host_word_host_bytes [simp]:
  fixes w :: "'a::len word"
  assumes "8 * n \<le> LENGTH('a)" and "unat w < 2 ^ (8 * n)"
  shows "host_word big (host_bytes big n w) = w"
  using assms be_word_be_bytes [OF assms(1), of w]
  by (auto simp: host_bytes_def host_word_def unat_less_iff_bits)

lemma unat_host_word_less:
  fixes bs :: buffer
  assumes "length bs = n"
  shows "unat (host_word big bs :: 'a::len word) < 2 ^ (8 * n)"
  using assms bit_be_word_high [of bs] bit_be_word_high [of "rev bs"]
  by (auto simp: unat_less_iff_bits host_word_def)

section \<open>One sample\<close>

fun split_bytes :: "nat list \<Rightarrow> buffer \<Rightarrow> buffer list" where
  "split_bytes [] bs = []"
| "split_bytes (k # ks) bs = take k bs # split_bytes ks (drop k bs)"

type_synonym 's accessors = "(('s \<Rightarrow> u32) \<times> (u32 \<Rightarrow> 's \<Rightarrow> 's)) list"

definition put_fields :: "'s accessors \<Rightarrow> u32 list \<Rightarrow> 's \<Rightarrow> 's" where
  "put_fields acc ws s = fold (\<lambda>((g, put), w). put w) (zip acc ws) s"

definition get_fields :: "'s accessors \<Rightarrow> 's \<Rightarrow> u32 list" where
  "get_fields acc s = map (\<lambda>(g, put). g s) acc"

definition sample_of_bytes :: "bool \<Rightarrow> 's accessors \<Rightarrow> nat list \<Rightarrow> 's \<Rightarrow> buffer \<Rightarrow> 's" where
  "sample_of_bytes big acc layout zero bs =
     put_fields acc (map (host_word big) (split_bytes layout bs)) zero"

definition bytes_of_sample :: "bool \<Rightarrow> 's accessors \<Rightarrow> nat list \<Rightarrow> 's \<Rightarrow> buffer" where
  "bytes_of_sample big acc layout s =
     concat (map2 (host_bytes big) layout (get_fields acc s))"

lemma length_split_bytes [simp]: "length (split_bytes ks bs) = length ks"
  by (induction ks arbitrary: bs) simp_all

lemma split_bytes_concat:
  "list_all2 (\<lambda>k b. length b = k) ks bss \<Longrightarrow> split_bytes ks (concat bss) = bss"
  by (induction ks bss rule: list_all2_induct) simp_all

lemma concat_split_bytes: "length bs = sum_list ks \<Longrightarrow> concat (split_bytes ks bs) = bs"
  by (induction ks arbitrary: bs) simp_all

lemma lengths_split_bytes:
  "length bs = sum_list ks \<Longrightarrow> list_all2 (\<lambda>k b. length b = k) ks (split_bytes ks bs)"
  by (induction ks arbitrary: bs) simp_all

section \<open>Buffers of samples\<close>

definition load_samples :: "nat \<Rightarrow> (buffer \<Rightarrow> 's) \<Rightarrow> buffer \<Rightarrow> 's list" where
  "load_samples sz dec bs = map (\<lambda>i. dec (take sz (drop (i * sz) bs))) [0..<length bs div sz]"

definition store_samples :: "nat \<Rightarrow> ('s \<Rightarrow> buffer) \<Rightarrow> 's list \<Rightarrow> buffer \<Rightarrow> buffer" where
  "store_samples sz enc ss bs = concat (map enc ss) @ drop (length ss * sz) bs"

lemma length_load_samples [simp]: "length (load_samples sz dec bs) = length bs div sz"
  by (simp add: load_samples_def)

lemma concat_chunks:
  "concat (map (\<lambda>i. take sz (drop (i * sz) bs)) [0..<n]) = take (n * sz) bs"
  by (induction n) (simp_all add: add.commute flip: take_add)

lemma store_load_samples:
  assumes "0 < sz" and "\<And>b. length b = sz \<Longrightarrow> enc (dec b) = b"
  shows "store_samples sz enc (load_samples sz dec bs) bs = bs"
proof -
  let ?n = "length bs div sz"
  have chunk: "i * sz + sz \<le> length bs" if "i < ?n" for i
    using that mult_le_mono1 [of "Suc i" ?n sz] by (simp add: add.commute) (metis div_times_less_eq_dividend le_trans)
  have "enc (dec (take sz (drop (i * sz) bs))) = take sz (drop (i * sz) bs)" if "i < ?n" for i
    using chunk [OF that] by (intro assms(2)) simp
  then have "map enc (load_samples sz dec bs) = map (\<lambda>i. take sz (drop (i * sz) bs)) [0..<?n]"
    by (simp add: load_samples_def)
  then show ?thesis by (simp add: store_samples_def concat_chunks)
qed

lemma nth_chunk:
  "(\<And>s. s \<in> set ss \<Longrightarrow> length (enc s) = sz) \<Longrightarrow> i < length ss \<Longrightarrow>
     take sz (drop (i * sz) (concat (map enc ss))) = enc (ss ! i)"
proof (induction ss arbitrary: i)
  case (Cons s ss)
  then show ?case by (cases i) auto
qed simp

lemma length_concat_chunks:
  "(\<And>s. s \<in> set ss \<Longrightarrow> length (enc s) = sz) \<Longrightarrow> length (concat (map enc ss)) = length ss * sz"
  by (induction ss) simp_all

lemma load_store_samples:
  assumes "0 < sz" and "\<And>s. length (enc s) = sz" and "\<And>s. dec (enc s) = s"
  shows "load_samples sz dec (store_samples sz enc ss []) = ss"
  using assms length_concat_chunks [of ss enc sz] nth_chunk [of ss enc sz]
  by (intro nth_equalityI) (simp_all add: load_samples_def store_samples_def)

lemma length_fields_bytes:
  "length ws = length ks \<Longrightarrow> length (concat (map2 (host_bytes big) ks ws)) = sum_list ks"
  by (induction ks ws rule: list_induct2') simp_all

text \<open>A sample type with its layout in memory.\<close>

locale sample_view =
  fixes acc :: "'s accessors" and layout :: "nat list" and zero :: 's
  assumes put_get: "put_fields acc (get_fields acc d) s = d"
    and layout_length: "length layout = length acc"
    and layout_size: "k \<in> set layout \<Longrightarrow> 0 < k \<and> k \<le> 4" and layout_Nil: "layout \<noteq> []"
    and get_width: "list_all2 (\<lambda>k w. unat w < 2 ^ (8 * k)) layout (get_fields acc s)"
    and get_put: "list_all2 (\<lambda>k w. unat w < 2 ^ (8 * k)) layout ws \<Longrightarrow>
      get_fields acc (put_fields acc ws s) = ws"
begin

lemma layout_pos: "0 < sum_list layout"
  using layout_Nil layout_size by (cases layout) auto

lemma sample_of_bytes_of_sample:
  "sample_of_bytes big acc layout zero (bytes_of_sample big acc layout s) = s"
proof -
  let ?bss = "map2 (host_bytes big) layout (get_fields acc s)"
  have len: "length (get_fields acc s) = length layout" by (simp add: get_fields_def layout_length)
  have "split_bytes layout (concat ?bss) = ?bss"
    using len by (intro split_bytes_concat) (auto simp: list_all2_conv_all_nth)
  moreover have "map (host_word big) ?bss = get_fields acc s"
    using len get_width [of s] layout_size
    by (intro nth_equalityI) (auto simp: list_all2_conv_all_nth)
  ultimately show ?thesis
    by (simp add: sample_of_bytes_def bytes_of_sample_def put_get)
qed

lemma bytes_of_sample_of_bytes:
  assumes "length bs = sum_list layout"
  shows "bytes_of_sample big acc layout (sample_of_bytes big acc layout zero bs) = bs"
proof -
  let ?bss = "split_bytes layout bs"
  let ?ws = "map (host_word big) ?bss :: u32 list"
  have len: "list_all2 (\<lambda>k b. length b = k) layout ?bss" by (rule lengths_split_bytes [OF assms])
  have "list_all2 (\<lambda>k w. unat w < 2 ^ (8 * k)) layout ?ws"
    using len unat_host_word_less by (auto simp: list_all2_conv_all_nth)
  then have "get_fields acc (put_fields acc ?ws zero) = ?ws" by (rule get_put)
  moreover have "map2 (host_bytes big) layout ?ws = ?bss"
    using len layout_size
    by (intro nth_equalityI) (auto simp: list_all2_conv_all_nth intro!: host_bytes_host_word)
  ultimately show ?thesis
    by (simp add: sample_of_bytes_def bytes_of_sample_def concat_split_bytes [OF assms])
qed

lemma length_bytes_of_sample: "length (bytes_of_sample big acc layout s) = sum_list layout"
  by (simp add: bytes_of_sample_def length_fields_bytes get_fields_def layout_length)

lemma load_store:
  "load_samples (sum_list layout) (sample_of_bytes big acc layout zero)
     (store_samples (sum_list layout) (bytes_of_sample big acc layout) ss []) = ss"
  by (rule load_store_samples)
    (simp_all add: layout_pos length_bytes_of_sample sample_of_bytes_of_sample)

lemma store_load:
  "store_samples (sum_list layout) (bytes_of_sample big acc layout)
     (load_samples (sum_list layout) (sample_of_bytes big acc layout zero) bs) bs = bs"
  by (rule store_load_samples) (simp_all add: layout_pos bytes_of_sample_of_bytes)

end

section \<open>The sample types\<close>

lemma ucast_ucast_low:
  fixes w :: u32
  assumes "unat w < 2 ^ LENGTH('a)"
  shows "ucast (ucast w :: 'a::len word) = w"
proof (rule bit_word_eqI)
  fix n
  have "\<not> bit w n" if "LENGTH('a) \<le> n" using assms that unat_less_iff_bits by blast
  then show "bit (ucast (ucast w :: 'a word) :: u32) n = bit w n"
    by (auto simp: bit_ucast_iff not_le [symmetric] dest: bit_imp_le_length)
qed

lemma unat_ucast_less_low: "unat (ucast (x :: 'a::len word) :: u32) < 2 ^ LENGTH('a)"
  unfolding unat_less_iff_bits by (auto simp: bit_ucast_iff dest: bit_imp_le_length)

lemmas ucast_ucast_small = ucast_ucast_low [where 'a = 8, simplified]
  ucast_ucast_low [where 'a = 16, simplified] ucast_ucast_low [where 'a = 24, simplified]

lemmas unat_ucast_less = unat_ucast_less_low [where 'a = 8, simplified]
  unat_ucast_less_low [where 'a = 16, simplified] unat_ucast_less_low [where 'a = 24, simplified]

lemmas memory_rules = get_fields_def put_fields_def list_all2_Cons1 ucast_ucast_small ucast_ucast_narrow unat_ucast_less

text \<open>The largest word, which the simplifier writes as a number.\<close>

lemma unat_u32_less [simp]: "unat (w :: u32) < 4294967296"
  using unat_less_2p [of w] by simp

abbreviation "imagette_layout \<equiv> sample_layout DATA_TYPE_IMAGETTE"

interpretation imagette_mem: sample_view imagette_acc imagette_layout 0
  by unfold_locales (auto simp: sample_defs memory_rules)

text \<open>The fast cadence structures, which are never compressed.\<close>


definition f_fx_zero :: f_fx where
  "f_fx_zero = \<lparr>f_fx_fx = 0\<rparr>"

definition f_fx_acc :: "f_fx accessors" where
  "f_fx_acc = [(f_fx_fx, \<lambda>v s. s\<lparr>f_fx_fx := v\<rparr>)]"

abbreviation "f_fx_layout \<equiv> sample_layout DATA_TYPE_F_FX"

interpretation f_fx_mem: sample_view f_fx_acc f_fx_layout f_fx_zero
  by unfold_locales (auto simp: f_fx_acc_def f_fx_zero_def memory_rules)

definition f_fx_efx_zero :: f_fx_efx where
  "f_fx_efx_zero = \<lparr>f_fx_efx_fx = 0, f_fx_efx_efx = 0\<rparr>"

definition f_fx_efx_acc :: "f_fx_efx accessors" where
  "f_fx_efx_acc = [(f_fx_efx_fx, \<lambda>v s. s\<lparr>f_fx_efx_fx := v\<rparr>),
     (f_fx_efx_efx, \<lambda>v s. s\<lparr>f_fx_efx_efx := v\<rparr>)]"

abbreviation "f_fx_efx_layout \<equiv> sample_layout DATA_TYPE_F_FX_EFX"

interpretation f_fx_efx_mem: sample_view f_fx_efx_acc f_fx_efx_layout f_fx_efx_zero
  by unfold_locales (auto simp: f_fx_efx_acc_def f_fx_efx_zero_def memory_rules)

definition f_fx_ncob_zero :: f_fx_ncob where
  "f_fx_ncob_zero = \<lparr>f_fx_ncob_fx = 0, f_fx_ncob_ncob_x = 0, f_fx_ncob_ncob_y = 0\<rparr>"

definition f_fx_ncob_acc :: "f_fx_ncob accessors" where
  "f_fx_ncob_acc = [(f_fx_ncob_fx, \<lambda>v s. s\<lparr>f_fx_ncob_fx := v\<rparr>),
     (f_fx_ncob_ncob_x, \<lambda>v s. s\<lparr>f_fx_ncob_ncob_x := v\<rparr>),
     (f_fx_ncob_ncob_y, \<lambda>v s. s\<lparr>f_fx_ncob_ncob_y := v\<rparr>)]"

abbreviation "f_fx_ncob_layout \<equiv> sample_layout DATA_TYPE_F_FX_NCOB"

interpretation f_fx_ncob_mem: sample_view f_fx_ncob_acc f_fx_ncob_layout f_fx_ncob_zero
  by unfold_locales (auto simp: f_fx_ncob_acc_def f_fx_ncob_zero_def memory_rules)

definition f_fx_efx_ncob_ecob_zero :: f_fx_efx_ncob_ecob where
  "f_fx_efx_ncob_ecob_zero = \<lparr>f_fx_efx_ncob_ecob_fx = 0, f_fx_efx_ncob_ecob_ncob_x = 0, f_fx_efx_ncob_ecob_ncob_y = 0, f_fx_efx_ncob_ecob_efx = 0, f_fx_efx_ncob_ecob_ecob_x = 0, f_fx_efx_ncob_ecob_ecob_y = 0\<rparr>"

definition f_fx_efx_ncob_ecob_acc :: "f_fx_efx_ncob_ecob accessors" where
  "f_fx_efx_ncob_ecob_acc = [(f_fx_efx_ncob_ecob_fx, \<lambda>v s. s\<lparr>f_fx_efx_ncob_ecob_fx := v\<rparr>),
     (f_fx_efx_ncob_ecob_ncob_x, \<lambda>v s. s\<lparr>f_fx_efx_ncob_ecob_ncob_x := v\<rparr>),
     (f_fx_efx_ncob_ecob_ncob_y, \<lambda>v s. s\<lparr>f_fx_efx_ncob_ecob_ncob_y := v\<rparr>),
     (f_fx_efx_ncob_ecob_efx, \<lambda>v s. s\<lparr>f_fx_efx_ncob_ecob_efx := v\<rparr>),
     (f_fx_efx_ncob_ecob_ecob_x, \<lambda>v s. s\<lparr>f_fx_efx_ncob_ecob_ecob_x := v\<rparr>),
     (f_fx_efx_ncob_ecob_ecob_y, \<lambda>v s. s\<lparr>f_fx_efx_ncob_ecob_ecob_y := v\<rparr>)]"

abbreviation "f_fx_efx_ncob_ecob_layout \<equiv> sample_layout DATA_TYPE_F_FX_EFX_NCOB_ECOB"

interpretation f_fx_efx_ncob_ecob_mem: sample_view f_fx_efx_ncob_ecob_acc f_fx_efx_ncob_ecob_layout f_fx_efx_ncob_ecob_zero
  by unfold_locales (auto simp: f_fx_efx_ncob_ecob_acc_def f_fx_efx_ncob_ecob_zero_def memory_rules)

text \<open>The structures that are compressed.\<close>

abbreviation "s_fx_layout \<equiv> sample_layout DATA_TYPE_S_FX"

interpretation s_fx_mem: sample_view s_fx_acc s_fx_layout s_fx_zero
  by unfold_locales (auto simp: sample_defs memory_rules)

abbreviation "s_fx_efx_layout \<equiv> sample_layout DATA_TYPE_S_FX_EFX"

interpretation s_fx_efx_mem: sample_view s_fx_efx_acc s_fx_efx_layout s_fx_efx_zero
  by unfold_locales (auto simp: sample_defs memory_rules)

abbreviation "s_fx_ncob_layout \<equiv> sample_layout DATA_TYPE_S_FX_NCOB"

interpretation s_fx_ncob_mem: sample_view s_fx_ncob_acc s_fx_ncob_layout s_fx_ncob_zero
  by unfold_locales (auto simp: sample_defs memory_rules)

abbreviation "s_fx_efx_ncob_ecob_layout \<equiv> sample_layout DATA_TYPE_S_FX_EFX_NCOB_ECOB"

interpretation s_fx_efx_ncob_ecob_mem: sample_view s_fx_efx_ncob_ecob_acc s_fx_efx_ncob_ecob_layout s_fx_efx_ncob_ecob_zero
  by unfold_locales (auto simp: sample_defs memory_rules)

abbreviation "l_fx_layout \<equiv> sample_layout DATA_TYPE_L_FX"

interpretation l_fx_mem: sample_view l_fx_acc l_fx_layout l_fx_zero
  by unfold_locales (auto simp: sample_defs memory_rules)

abbreviation "l_fx_efx_layout \<equiv> sample_layout DATA_TYPE_L_FX_EFX"

interpretation l_fx_efx_mem: sample_view l_fx_efx_acc l_fx_efx_layout l_fx_efx_zero
  by unfold_locales (auto simp: sample_defs memory_rules)

abbreviation "l_fx_ncob_layout \<equiv> sample_layout DATA_TYPE_L_FX_NCOB"

interpretation l_fx_ncob_mem: sample_view l_fx_ncob_acc l_fx_ncob_layout l_fx_ncob_zero
  by unfold_locales (auto simp: sample_defs memory_rules)

abbreviation "l_fx_efx_ncob_ecob_layout \<equiv> sample_layout DATA_TYPE_L_FX_EFX_NCOB_ECOB"

interpretation l_fx_efx_ncob_ecob_mem: sample_view l_fx_efx_ncob_ecob_acc l_fx_efx_ncob_ecob_layout l_fx_efx_ncob_ecob_zero
  by unfold_locales (auto simp: sample_defs memory_rules)

abbreviation "offset_layout \<equiv> sample_layout DATA_TYPE_OFFSET"

interpretation offset_mem: sample_view offset_acc offset_layout offset_zero
  by unfold_locales (auto simp: sample_defs memory_rules)

abbreviation "background_layout \<equiv> sample_layout DATA_TYPE_BACKGROUND"

interpretation background_mem: sample_view background_acc background_layout background_zero
  by unfold_locales (auto simp: sample_defs memory_rules)

abbreviation "smearing_layout \<equiv> sample_layout DATA_TYPE_SMEARING"

interpretation smearing_mem: sample_view smearing_acc smearing_layout smearing_zero
  by unfold_locales (auto simp: sample_defs memory_rules)

end
