(* ===== verification/Endianness.thy ===== *)
theory Endianness
  imports Sample_Memory
begin

text \<open>
  The change of the byte order of data in memory, in place (\<open>lib/common/byteorder.h\<close> and the
  last part of \<open>lib/common/cmp_data_types.c\<close>). The structures are swapped field by field, as
  the C functions do; that this reverses the bytes of every field, so that the data read in the
  byte order of the CPU are the big-endian data, is a law every structure keeps.
\<close>

section \<open>Byte swaps\<close>

definition swab16 :: "u16 \<Rightarrow> u16" where
  "swab16 x = push_bit 8 (x AND 0x00ff) OR drop_bit 8 (x AND 0xff00)"

definition swab32 :: "u32 \<Rightarrow> u32" where
  "swab32 x = push_bit 24 (x AND 0x000000ff) OR push_bit 8 (x AND 0x0000ff00) OR
     drop_bit 8 (x AND 0x00ff0000) OR drop_bit 24 (x AND 0xff000000)"

definition be16_to_cpu :: "bool \<Rightarrow> u16 \<Rightarrow> u16" where
  "be16_to_cpu big x = (if big then x else swab16 x)"

definition be32_to_cpu :: "bool \<Rightarrow> u32 \<Rightarrow> u32" where
  "be32_to_cpu big x = (if big then x else swab32 x)"

text \<open>The argument and the result are 24-bit fields, which C widens to \<open>uint32_t\<close>.\<close>

definition be24_to_cpu :: "bool \<Rightarrow> u24 \<Rightarrow> u24" where
  "be24_to_cpu big a = (if big then a else ucast (drop_bit 8 (be32_to_cpu big (ucast a))))"

section \<open>Swapping the entries of one type\<close>

text \<open>The loop over the samples of an array.\<close>

definition for_samples :: "('s \<Rightarrow> 's) \<Rightarrow> 's list \<Rightarrow> nat \<Rightarrow> 's list option" where
  "for_samples f a n = (if n \<le> length a then Some (map f (take n a) @ drop n a) else None)"

definition be_to_cpus_16 :: "bool \<Rightarrow> u16 list \<Rightarrow> nat \<Rightarrow> u16 list option" where
  "be_to_cpus_16 big = for_samples (be16_to_cpu big)"


definition offset_to_cpu :: "bool \<Rightarrow> offset_entry \<Rightarrow> offset_entry" where
  "offset_to_cpu big e = e\<lparr>off_mean := be32_to_cpu big (off_mean e), off_variance := be32_to_cpu big (off_variance e)\<rparr>"

definition be_to_cpus_offset :: "bool \<Rightarrow> offset_entry list \<Rightarrow> nat \<Rightarrow> offset_entry list option" where
  "be_to_cpus_offset big = for_samples (offset_to_cpu big)"

definition background_to_cpu :: "bool \<Rightarrow> background_entry \<Rightarrow> background_entry" where
  "background_to_cpu big e = e\<lparr>bkg_mean := be32_to_cpu big (bkg_mean e),
       bkg_variance := be32_to_cpu big (bkg_variance e),
       bkg_outlier_pixels := be16_to_cpu big (bkg_outlier_pixels e)\<rparr>"

definition be_to_cpus_background :: "bool \<Rightarrow> background_entry list \<Rightarrow> nat \<Rightarrow> background_entry list option" where
  "be_to_cpus_background big = for_samples (background_to_cpu big)"

definition smearing_to_cpu :: "bool \<Rightarrow> smearing_entry \<Rightarrow> smearing_entry" where
  "smearing_to_cpu big e = e\<lparr>smr_mean := be32_to_cpu big (smr_mean e),
       smr_variance_mean := be32_to_cpu big (smr_variance_mean e),
       smr_outlier_pixels := be16_to_cpu big (smr_outlier_pixels e)\<rparr>"

definition be_to_cpus_smearing :: "bool \<Rightarrow> smearing_entry list \<Rightarrow> nat \<Rightarrow> smearing_entry list option" where
  "be_to_cpus_smearing big = for_samples (smearing_to_cpu big)"

definition s_fx_to_cpu :: "bool \<Rightarrow> s_fx \<Rightarrow> s_fx" where
  "s_fx_to_cpu big e = e\<lparr>s_fx_fx := be32_to_cpu big (s_fx_fx e)\<rparr>"

definition be_to_cpus_s_fx :: "bool \<Rightarrow> s_fx list \<Rightarrow> nat \<Rightarrow> s_fx list option" where
  "be_to_cpus_s_fx big = for_samples (s_fx_to_cpu big)"

definition s_fx_efx_to_cpu :: "bool \<Rightarrow> s_fx_efx \<Rightarrow> s_fx_efx" where
  "s_fx_efx_to_cpu big e = e\<lparr>s_fx_efx_fx := be32_to_cpu big (s_fx_efx_fx e),
       s_fx_efx_efx := be32_to_cpu big (s_fx_efx_efx e)\<rparr>"

definition be_to_cpus_s_fx_efx :: "bool \<Rightarrow> s_fx_efx list \<Rightarrow> nat \<Rightarrow> s_fx_efx list option" where
  "be_to_cpus_s_fx_efx big = for_samples (s_fx_efx_to_cpu big)"

definition s_fx_ncob_to_cpu :: "bool \<Rightarrow> s_fx_ncob \<Rightarrow> s_fx_ncob" where
  "s_fx_ncob_to_cpu big e = e\<lparr>s_fx_ncob_fx := be32_to_cpu big (s_fx_ncob_fx e),
       s_fx_ncob_ncob_x := be32_to_cpu big (s_fx_ncob_ncob_x e),
       s_fx_ncob_ncob_y := be32_to_cpu big (s_fx_ncob_ncob_y e)\<rparr>"

definition be_to_cpus_s_fx_ncob :: "bool \<Rightarrow> s_fx_ncob list \<Rightarrow> nat \<Rightarrow> s_fx_ncob list option" where
  "be_to_cpus_s_fx_ncob big = for_samples (s_fx_ncob_to_cpu big)"

definition s_fx_efx_ncob_ecob_to_cpu :: "bool \<Rightarrow> s_fx_efx_ncob_ecob \<Rightarrow> s_fx_efx_ncob_ecob" where
  "s_fx_efx_ncob_ecob_to_cpu big e = e\<lparr>s_fx_efx_ncob_ecob_fx := be32_to_cpu big (s_fx_efx_ncob_ecob_fx e),
       s_fx_efx_ncob_ecob_ncob_x := be32_to_cpu big (s_fx_efx_ncob_ecob_ncob_x e),
       s_fx_efx_ncob_ecob_ncob_y := be32_to_cpu big (s_fx_efx_ncob_ecob_ncob_y e),
       s_fx_efx_ncob_ecob_efx := be32_to_cpu big (s_fx_efx_ncob_ecob_efx e),
       s_fx_efx_ncob_ecob_ecob_x := be32_to_cpu big (s_fx_efx_ncob_ecob_ecob_x e),
       s_fx_efx_ncob_ecob_ecob_y := be32_to_cpu big (s_fx_efx_ncob_ecob_ecob_y e)\<rparr>"

definition be_to_cpus_s_fx_efx_ncob_ecob :: "bool \<Rightarrow> s_fx_efx_ncob_ecob list \<Rightarrow> nat \<Rightarrow> s_fx_efx_ncob_ecob list option" where
  "be_to_cpus_s_fx_efx_ncob_ecob big = for_samples (s_fx_efx_ncob_ecob_to_cpu big)"

definition l_fx_to_cpu :: "bool \<Rightarrow> l_fx \<Rightarrow> l_fx" where
  "l_fx_to_cpu big e = e\<lparr>l_fx_exp_flags := be24_to_cpu big (l_fx_exp_flags e),
       l_fx_fx := be32_to_cpu big (l_fx_fx e),
       l_fx_fx_variance := be32_to_cpu big (l_fx_fx_variance e)\<rparr>"

definition be_to_cpus_l_fx :: "bool \<Rightarrow> l_fx list \<Rightarrow> nat \<Rightarrow> l_fx list option" where
  "be_to_cpus_l_fx big = for_samples (l_fx_to_cpu big)"

definition l_fx_efx_to_cpu :: "bool \<Rightarrow> l_fx_efx \<Rightarrow> l_fx_efx" where
  "l_fx_efx_to_cpu big e = e\<lparr>l_fx_efx_exp_flags := be24_to_cpu big (l_fx_efx_exp_flags e),
       l_fx_efx_fx := be32_to_cpu big (l_fx_efx_fx e),
       l_fx_efx_efx := be32_to_cpu big (l_fx_efx_efx e),
       l_fx_efx_fx_variance := be32_to_cpu big (l_fx_efx_fx_variance e)\<rparr>"

definition be_to_cpus_l_fx_efx :: "bool \<Rightarrow> l_fx_efx list \<Rightarrow> nat \<Rightarrow> l_fx_efx list option" where
  "be_to_cpus_l_fx_efx big = for_samples (l_fx_efx_to_cpu big)"

definition l_fx_ncob_to_cpu :: "bool \<Rightarrow> l_fx_ncob \<Rightarrow> l_fx_ncob" where
  "l_fx_ncob_to_cpu big e = e\<lparr>l_fx_ncob_exp_flags := be24_to_cpu big (l_fx_ncob_exp_flags e),
       l_fx_ncob_fx := be32_to_cpu big (l_fx_ncob_fx e),
       l_fx_ncob_ncob_x := be32_to_cpu big (l_fx_ncob_ncob_x e),
       l_fx_ncob_ncob_y := be32_to_cpu big (l_fx_ncob_ncob_y e),
       l_fx_ncob_fx_variance := be32_to_cpu big (l_fx_ncob_fx_variance e),
       l_fx_ncob_cob_x_variance := be32_to_cpu big (l_fx_ncob_cob_x_variance e),
       l_fx_ncob_cob_y_variance := be32_to_cpu big (l_fx_ncob_cob_y_variance e)\<rparr>"

definition be_to_cpus_l_fx_ncob :: "bool \<Rightarrow> l_fx_ncob list \<Rightarrow> nat \<Rightarrow> l_fx_ncob list option" where
  "be_to_cpus_l_fx_ncob big = for_samples (l_fx_ncob_to_cpu big)"

definition l_fx_efx_ncob_ecob_to_cpu :: "bool \<Rightarrow> l_fx_efx_ncob_ecob \<Rightarrow> l_fx_efx_ncob_ecob" where
  "l_fx_efx_ncob_ecob_to_cpu big e = e\<lparr>l_fx_efx_ncob_ecob_exp_flags := be24_to_cpu big (l_fx_efx_ncob_ecob_exp_flags e),
       l_fx_efx_ncob_ecob_fx := be32_to_cpu big (l_fx_efx_ncob_ecob_fx e),
       l_fx_efx_ncob_ecob_ncob_x := be32_to_cpu big (l_fx_efx_ncob_ecob_ncob_x e),
       l_fx_efx_ncob_ecob_ncob_y := be32_to_cpu big (l_fx_efx_ncob_ecob_ncob_y e),
       l_fx_efx_ncob_ecob_efx := be32_to_cpu big (l_fx_efx_ncob_ecob_efx e),
       l_fx_efx_ncob_ecob_ecob_x := be32_to_cpu big (l_fx_efx_ncob_ecob_ecob_x e),
       l_fx_efx_ncob_ecob_ecob_y := be32_to_cpu big (l_fx_efx_ncob_ecob_ecob_y e),
       l_fx_efx_ncob_ecob_fx_variance := be32_to_cpu big (l_fx_efx_ncob_ecob_fx_variance e),
       l_fx_efx_ncob_ecob_cob_x_variance := be32_to_cpu big (l_fx_efx_ncob_ecob_cob_x_variance e),
       l_fx_efx_ncob_ecob_cob_y_variance := be32_to_cpu big (l_fx_efx_ncob_ecob_cob_y_variance e)\<rparr>"

definition be_to_cpus_l_fx_efx_ncob_ecob :: "bool \<Rightarrow> l_fx_efx_ncob_ecob list \<Rightarrow> nat \<Rightarrow> l_fx_efx_ncob_ecob list option" where
  "be_to_cpus_l_fx_efx_ncob_ecob big = for_samples (l_fx_efx_ncob_ecob_to_cpu big)"

definition f_fx_to_cpu :: "bool \<Rightarrow> f_fx \<Rightarrow> f_fx" where
  "f_fx_to_cpu big e = e\<lparr>f_fx_fx := be32_to_cpu big (f_fx_fx e)\<rparr>"

definition be_to_cpus_f_fx :: "bool \<Rightarrow> f_fx list \<Rightarrow> nat \<Rightarrow> f_fx list option" where
  "be_to_cpus_f_fx big = for_samples (f_fx_to_cpu big)"

definition f_fx_efx_to_cpu :: "bool \<Rightarrow> f_fx_efx \<Rightarrow> f_fx_efx" where
  "f_fx_efx_to_cpu big e = e\<lparr>f_fx_efx_fx := be32_to_cpu big (f_fx_efx_fx e),
       f_fx_efx_efx := be32_to_cpu big (f_fx_efx_efx e)\<rparr>"

definition be_to_cpus_f_fx_efx :: "bool \<Rightarrow> f_fx_efx list \<Rightarrow> nat \<Rightarrow> f_fx_efx list option" where
  "be_to_cpus_f_fx_efx big = for_samples (f_fx_efx_to_cpu big)"

definition f_fx_ncob_to_cpu :: "bool \<Rightarrow> f_fx_ncob \<Rightarrow> f_fx_ncob" where
  "f_fx_ncob_to_cpu big e = e\<lparr>f_fx_ncob_fx := be32_to_cpu big (f_fx_ncob_fx e),
       f_fx_ncob_ncob_x := be32_to_cpu big (f_fx_ncob_ncob_x e),
       f_fx_ncob_ncob_y := be32_to_cpu big (f_fx_ncob_ncob_y e)\<rparr>"

definition be_to_cpus_f_fx_ncob :: "bool \<Rightarrow> f_fx_ncob list \<Rightarrow> nat \<Rightarrow> f_fx_ncob list option" where
  "be_to_cpus_f_fx_ncob big = for_samples (f_fx_ncob_to_cpu big)"

definition f_fx_efx_ncob_ecob_to_cpu :: "bool \<Rightarrow> f_fx_efx_ncob_ecob \<Rightarrow> f_fx_efx_ncob_ecob" where
  "f_fx_efx_ncob_ecob_to_cpu big e = e\<lparr>f_fx_efx_ncob_ecob_fx := be32_to_cpu big (f_fx_efx_ncob_ecob_fx e),
       f_fx_efx_ncob_ecob_ncob_x := be32_to_cpu big (f_fx_efx_ncob_ecob_ncob_x e),
       f_fx_efx_ncob_ecob_ncob_y := be32_to_cpu big (f_fx_efx_ncob_ecob_ncob_y e),
       f_fx_efx_ncob_ecob_efx := be32_to_cpu big (f_fx_efx_ncob_ecob_efx e),
       f_fx_efx_ncob_ecob_ecob_x := be32_to_cpu big (f_fx_efx_ncob_ecob_ecob_x e),
       f_fx_efx_ncob_ecob_ecob_y := be32_to_cpu big (f_fx_efx_ncob_ecob_ecob_y e)\<rparr>"

definition be_to_cpus_f_fx_efx_ncob_ecob :: "bool \<Rightarrow> f_fx_efx_ncob_ecob list \<Rightarrow> nat \<Rightarrow> f_fx_efx_ncob_ecob list option" where
  "be_to_cpus_f_fx_efx_ncob_ecob big = for_samples (f_fx_efx_ncob_ecob_to_cpu big)"

section \<open>Data of any type\<close>

text \<open>A function on an array of samples, applied to the bytes at an address.\<close>

definition on_samples ::
  "bool \<Rightarrow> 's accessors \<Rightarrow> nat list \<Rightarrow> 's \<Rightarrow> ('s list \<Rightarrow> nat \<Rightarrow> 's list option) \<Rightarrow> nat \<Rightarrow> buffer \<Rightarrow>
     (int \<times> buffer option) option" where
  "on_samples big acc layout zero f n bs = do {
     ss \<leftarrow> f (load_samples (sum_list layout) (sample_of_bytes big acc layout zero) bs) n;
     Some (0, Some (store_samples (sum_list layout) (bytes_of_sample big acc layout) ss bs))
   }"

definition be_to_cpu_data_type ::
  "bool \<Rightarrow> buffer option \<Rightarrow> u32 \<Rightarrow> cmp_data_type \<Rightarrow> (int \<times> buffer option) option" where
  "be_to_cpu_data_type big data data_size_byte t =
     (let sample_size = size_of_a_sample t
      in case data of
        None \<Rightarrow> Some (0, None)
      | Some bs \<Rightarrow>
        if sample_size = 0 then Some (- 1, data)
        else if unat data_size_byte mod sample_size \<noteq> 0 then Some (- 1, data)
        else let samples = unat data_size_byte div sample_size in
        if big then Some (0, data)
        else if t \<in> {DATA_TYPE_IMAGETTE, DATA_TYPE_IMAGETTE_ADAPTIVE, DATA_TYPE_SAT_IMAGETTE,
            DATA_TYPE_SAT_IMAGETTE_ADAPTIVE, DATA_TYPE_F_CAM_IMAGETTE, DATA_TYPE_F_CAM_IMAGETTE_ADAPTIVE}
          then on_samples big imagette_acc imagette_layout 0 (be_to_cpus_16 big) samples bs
        else if t = DATA_TYPE_OFFSET \<or> t = DATA_TYPE_F_CAM_OFFSET then on_samples big offset_acc offset_layout offset_zero (be_to_cpus_offset big) samples bs
        else if t = DATA_TYPE_BACKGROUND \<or> t = DATA_TYPE_F_CAM_BACKGROUND then on_samples big background_acc background_layout background_zero (be_to_cpus_background big) samples bs
        else if t = DATA_TYPE_SMEARING then on_samples big smearing_acc smearing_layout smearing_zero (be_to_cpus_smearing big) samples bs
        else if t = DATA_TYPE_S_FX then on_samples big s_fx_acc s_fx_layout s_fx_zero (be_to_cpus_s_fx big) samples bs
        else if t = DATA_TYPE_S_FX_EFX then on_samples big s_fx_efx_acc s_fx_efx_layout s_fx_efx_zero (be_to_cpus_s_fx_efx big) samples bs
        else if t = DATA_TYPE_S_FX_NCOB then on_samples big s_fx_ncob_acc s_fx_ncob_layout s_fx_ncob_zero (be_to_cpus_s_fx_ncob big) samples bs
        else if t = DATA_TYPE_S_FX_EFX_NCOB_ECOB then on_samples big s_fx_efx_ncob_ecob_acc s_fx_efx_ncob_ecob_layout s_fx_efx_ncob_ecob_zero (be_to_cpus_s_fx_efx_ncob_ecob big) samples bs
        else if t = DATA_TYPE_L_FX then on_samples big l_fx_acc l_fx_layout l_fx_zero (be_to_cpus_l_fx big) samples bs
        else if t = DATA_TYPE_L_FX_EFX then on_samples big l_fx_efx_acc l_fx_efx_layout l_fx_efx_zero (be_to_cpus_l_fx_efx big) samples bs
        else if t = DATA_TYPE_L_FX_NCOB then on_samples big l_fx_ncob_acc l_fx_ncob_layout l_fx_ncob_zero (be_to_cpus_l_fx_ncob big) samples bs
        else if t = DATA_TYPE_L_FX_EFX_NCOB_ECOB then on_samples big l_fx_efx_ncob_ecob_acc l_fx_efx_ncob_ecob_layout l_fx_efx_ncob_ecob_zero (be_to_cpus_l_fx_efx_ncob_ecob big) samples bs
        else if t = DATA_TYPE_F_FX then on_samples big f_fx_acc f_fx_layout f_fx_zero (be_to_cpus_f_fx big) samples bs
        else if t = DATA_TYPE_F_FX_EFX then on_samples big f_fx_efx_acc f_fx_efx_layout f_fx_efx_zero (be_to_cpus_f_fx_efx big) samples bs
        else if t = DATA_TYPE_F_FX_NCOB then on_samples big f_fx_ncob_acc f_fx_ncob_layout f_fx_ncob_zero (be_to_cpus_f_fx_ncob big) samples bs
        else if t = DATA_TYPE_F_FX_EFX_NCOB_ECOB then on_samples big f_fx_efx_ncob_ecob_acc f_fx_efx_ncob_ecob_layout f_fx_efx_ncob_ecob_zero (be_to_cpus_f_fx_efx_ncob_ecob big) samples bs
        else Some (- 1, data))"

section \<open>The bytes after a swap\<close>

text \<open>Reversing the bytes of every field of a sample.\<close>

definition swap_sample :: "nat list \<Rightarrow> buffer \<Rightarrow> buffer" where
  "swap_sample layout bs = concat (map rev (split_bytes layout bs))"

definition swap_bytes :: "nat list \<Rightarrow> nat \<Rightarrow> buffer \<Rightarrow> buffer" where
  "swap_bytes layout n bs =
     concat (map (\<lambda>i. swap_sample layout (take (sum_list layout) (drop (i * sum_list layout) bs))) [0..<n]) @
     drop (n * sum_list layout) bs"

definition swab_word :: "nat \<Rightarrow> u32 \<Rightarrow> u32" where
  "swab_word k w = be_word (rev (be_bytes k w))"

end
