(* ===== verification/Byte_Swap.thy ===== *)
theory Byte_Swap
  imports Endianness
begin

text \<open>
  What the conversions of \<open>Endianness\<close> do to the bytes: on a little-endian CPU they reverse the
  bytes of every field. Hence the data read in the order of the CPU are the big-endian data, and
  a second conversion gives the first bytes back.
\<close>

section \<open>Swapping one word\<close>

lemma swab_word_explicit:
  "swab_word 1 w = ucast (ucast w :: u8)"
  "swab_word 2 w = push_bit 8 (ucast (ucast w :: u8)) OR ucast (ucast (drop_bit 8 w) :: u8)"
  "swab_word 3 w = push_bit 8 (push_bit 8 (ucast (ucast w :: u8)) OR ucast (ucast (drop_bit 8 w) :: u8)) OR
     ucast (ucast (drop_bit 16 w) :: u8)"
  "swab_word 4 w = push_bit 8 (push_bit 8 (push_bit 8 (ucast (ucast w :: u8)) OR
     ucast (ucast (drop_bit 8 w) :: u8)) OR ucast (ucast (drop_bit 16 w) :: u8)) OR
     ucast (ucast (drop_bit 24 w) :: u8)"
  by (simp_all add: swab_word_def be_word_def be_bytes_numeral)

lemma less_32_cases:
  assumes "k < (32 :: nat)"
  shows "k \<in> {0, 1, 2, 3, 4, 5, 6, 7, 8, 9, 10, 11, 12, 13, 14, 15, 16, 17, 18, 19, 20, 21, 22, 23,
    24, 25, 26, 27, 28, 29, 30, 31}"
  using assms by (simp only: insert_iff empty_iff) arith

lemma swab_word_1: "swab_word 1 (ucast (x :: u8)) = ucast x"
  unfolding swab_word_explicit by (simp add: ucast_ucast_narrow)

lemma swab_word_4: "swab_word 4 w = swab32 w"
proof (rule bit_word_eqI)
  fix k assume "k < LENGTH(32)"
  then have "k \<in> {0, 1, 2, 3, 4, 5, 6, 7, 8, 9, 10, 11, 12, 13, 14, 15, 16, 17, 18, 19, 20, 21, 22, 23,
      24, 25, 26, 27, 28, 29, 30, 31}" by (intro less_32_cases) simp
  then show "bit (swab_word 4 w) k = bit (swab32 w) k"
    unfolding swab_word_explicit swab32_def
    by (elim insertE) (simp_all add: bit_simps)
qed

lemma swab_word_2: "swab_word 2 (ucast (x :: u16)) = ucast (swab16 x)"
proof (rule bit_word_eqI)
  fix k assume "k < LENGTH(32)"
  then have "k \<in> {0, 1, 2, 3, 4, 5, 6, 7, 8, 9, 10, 11, 12, 13, 14, 15, 16, 17, 18, 19, 20, 21, 22, 23,
      24, 25, 26, 27, 28, 29, 30, 31}" by (intro less_32_cases) simp
  then show "bit (swab_word 2 (ucast x)) k = bit (ucast (swab16 x) :: u32) k"
    unfolding swab_word_explicit swab16_def
    by (elim insertE) (simp_all add: bit_simps)
qed

lemma swab_word_3: "swab_word 3 (ucast (x :: u24)) = ucast (be24_to_cpu False x)"
proof (rule bit_word_eqI)
  fix k assume "k < LENGTH(32)"
  then have "k \<in> {0, 1, 2, 3, 4, 5, 6, 7, 8, 9, 10, 11, 12, 13, 14, 15, 16, 17, 18, 19, 20, 21, 22, 23,
      24, 25, 26, 27, 28, 29, 30, 31}" by (intro less_32_cases) simp
  then show "bit (swab_word 3 (ucast x)) k = bit (ucast (be24_to_cpu False x) :: u32) k"
    unfolding swab_word_explicit be24_to_cpu_def be32_to_cpu_def swab32_def if_False
    by (elim insertE) (simp_all add: bit_simps)
qed

lemma host_bytes_swab_word:
  assumes "k \<le> 4"
  shows "host_bytes False k (swab_word k w) = rev (host_bytes False k w)"
  using be_bytes_be_word [of "rev (be_bytes k w)", where 'a = 32] assms
  by (simp add: host_bytes_def swab_word_def)

section \<open>Swapping samples\<close>

lemma sum_list_lengths: "list_all2 (\<lambda>k b. length b = k) ks bss \<Longrightarrow> length (concat bss) = sum_list ks"
  by (induction ks bss rule: list_all2_induct) simp_all

lemma length_swap_sample: "length bs = sum_list ks \<Longrightarrow> length (swap_sample ks bs) = sum_list ks"
  using lengths_split_bytes [of bs ks]
  by (auto simp: swap_sample_def list_all2_conv_all_nth intro!: sum_list_lengths)

lemma split_swap_sample:
  assumes "length bs = sum_list ks"
  shows "split_bytes ks (swap_sample ks bs) = map rev (split_bytes ks bs)"
  unfolding swap_sample_def using lengths_split_bytes [OF assms]
  by (intro split_bytes_concat) (auto simp: list_all2_conv_all_nth)

lemma swap_sample_twice: "length bs = sum_list ks \<Longrightarrow> swap_sample ks (swap_sample ks bs) = bs"
  using split_swap_sample [of bs ks] concat_split_bytes [of bs ks]
  by (simp add: swap_sample_def [of ks "swap_sample ks bs"] map_idI)

text \<open>The swapped bytes in the order of a little-endian CPU are the big-endian sample.\<close>

lemma sample_of_swapped_bytes:
  assumes "length bs = sum_list ks"
  shows "sample_of_bytes False acc ks zero (swap_sample ks bs) = sample_of_bytes True acc ks zero bs"
proof -
  have "map (host_word False) (map rev bss) = (map (host_word True) bss :: u32 list)" for bss
    by (simp add: host_word_def)
  then show ?thesis by (simp only: sample_of_bytes_def split_swap_sample [OF assms])
qed

lemma length_chunk:
  assumes "n * sz \<le> length bs" and "i < n"
  shows "length (take sz (drop (i * sz) bs)) = sz"
proof -
  have "Suc i * sz \<le> n * sz" using assms(2) by (intro mult_le_mono1) simp
  then show ?thesis using assms(1) by simp
qed

lemma length_swap_bytes:
  assumes "n * sum_list ks \<le> length bs"
  shows "length (swap_bytes ks n bs) = length bs"
proof -
  let ?c = "\<lambda>i. swap_sample ks (take (sum_list ks) (drop (i * sum_list ks) bs))"
  have "length (?c i) = sum_list ks" if "i < n" for i
    using length_chunk [OF assms that] by (rule length_swap_sample)
  then have "length (concat (map ?c [0..<n])) = length [0..<n] * sum_list ks"
    by (intro length_concat_chunks) auto
  then show ?thesis using assms by (simp add: swap_bytes_def)
qed

text \<open>The samples that a CPU reads from a converted buffer.\<close>

lemma swap_bytes_chunk:
  assumes "n * sum_list ks \<le> length bs" and "i < n"
  shows "take (sum_list ks) (drop (i * sum_list ks) (swap_bytes ks n bs)) =
    swap_sample ks (take (sum_list ks) (drop (i * sum_list ks) bs))"
proof -
  let ?sz = "sum_list ks" and ?f = "\<lambda>i. swap_sample ks (take (sum_list ks) (drop (i * sum_list ks) bs))"
  let ?c = "concat (map ?f [0..<n])"
  have len: "length (?f j) = ?sz" if "j < n" for j
    using length_chunk [OF assms(1) that] by (rule length_swap_sample)
  then have lc: "length ?c = n * ?sz" using length_concat_chunks [of "[0..<n]" ?f ?sz] by simp
  have "Suc i * ?sz \<le> n * ?sz" using assms(2) by (intro mult_le_mono1) simp
  then have room: "i * ?sz + ?sz \<le> length ?c" using lc by simp
  have "take ?sz (drop (i * ?sz) (swap_bytes ks n bs)) = take ?sz (drop (i * ?sz) ?c)"
    using room by (simp add: swap_bytes_def)
  also have "\<dots> = ?f i" using nth_chunk [of "[0..<n]" ?f ?sz i] len assms(2) by simp
  finally show ?thesis .
qed

lemma swap_bytes_rest:
  assumes "n * sum_list ks \<le> length bs"
  shows "drop (n * sum_list ks) (swap_bytes ks n bs) = drop (n * sum_list ks) bs"
proof -
  let ?c = "\<lambda>i. swap_sample ks (take (sum_list ks) (drop (i * sum_list ks) bs))"
  have "length (?c i) = sum_list ks" if "i < n" for i
    using length_chunk [OF assms that] by (rule length_swap_sample)
  then have "length (concat (map ?c [0..<n])) = length [0..<n] * sum_list ks"
    by (intro length_concat_chunks) auto
  then show ?thesis by (simp add: swap_bytes_def)
qed

lemma swap_bytes_twice:
  assumes "n * sum_list ks \<le> length bs"
  shows "swap_bytes ks n (swap_bytes ks n bs) = bs"
proof -
  let ?sz = "sum_list ks" and ?b = "swap_bytes ks n bs"
  have "swap_sample ks (take ?sz (drop (i * ?sz) ?b)) = take ?sz (drop (i * ?sz) bs)" if "i < n" for i
    using length_chunk [OF assms that] by (simp add: swap_bytes_chunk [OF assms that] swap_sample_twice)
  then have "map (\<lambda>i. swap_sample ks (take ?sz (drop (i * ?sz) ?b))) [0..<n] =
      map (\<lambda>i. take ?sz (drop (i * ?sz) bs)) [0..<n]" by simp
  then show ?thesis
    by (simp only: swap_bytes_def [of ks n ?b] swap_bytes_rest [OF assms] concat_chunks append_take_drop_id)
qed

text \<open>
  A sample type whose conversion swaps every field; what it does to an array is then a fact about
  the bytes only.
\<close>

locale sample_swap = sample_view acc layout zero
  for acc :: "'s accessors" and layout :: "nat list" and zero :: 's +
  fixes conv :: "'s \<Rightarrow> 's"
  assumes conv_fields: "get_fields acc (conv s) = map2 swab_word layout (get_fields acc s)"
begin

lemma bytes_of_converted:
  assumes "length bs = sum_list layout"
  shows "bytes_of_sample False acc layout (conv (sample_of_bytes False acc layout zero bs)) = swap_sample layout bs"
proof -
  let ?s = "sample_of_bytes False acc layout zero bs" and ?h = "host_bytes False"
  let ?w = "get_fields acc ?s"
  have len: "length ?w = length layout" by (simp add: get_fields_def layout_length)
  have split: "map2 ?h layout ?w = split_bytes layout bs"
  proof -
    have "split_bytes layout (concat (map2 ?h layout ?w)) = map2 ?h layout ?w"
      using len by (intro split_bytes_concat) (auto simp: list_all2_conv_all_nth)
    then show ?thesis using bytes_of_sample_of_bytes [OF assms] by (simp add: bytes_of_sample_def)
  qed
  have "?h (layout ! i) (swab_word (layout ! i) w) = rev (?h (layout ! i) w)" if "i < length layout" for i w
    using layout_size that nth_mem by (intro host_bytes_swab_word) blast
  then have "map2 ?h layout (map2 swab_word layout ?w) = map rev (map2 ?h layout ?w)"
    using len by (intro nth_equalityI) simp_all
  then show ?thesis
    by (simp add: bytes_of_sample_def conv_fields split swap_sample_def)
qed

lemma on_samples_swap:
  assumes "n * sum_list layout \<le> length bs"
  shows "on_samples False acc layout zero (for_samples conv) n bs = Some (0, Some (swap_bytes layout n bs))"
proof -
  let ?sz = "sum_list layout" and ?dec = "sample_of_bytes False acc layout zero"
    and ?enc = "bytes_of_sample False acc layout"
  let ?ss = "load_samples ?sz ?dec bs"
  have sz: "0 < ?sz" by (rule layout_pos)
  have n: "n \<le> length ?ss" using assms sz by (simp add: less_eq_div_iff_mult_less_eq)
  have conv: "map ?enc (map conv (take n ?ss)) =
      map (\<lambda>i. swap_sample layout (take ?sz (drop (i * ?sz) bs))) [0..<n]"
    using n length_chunk [OF assms] by (intro nth_equalityI) (simp_all add: load_samples_def bytes_of_converted)
  have rest: "store_samples ?sz ?enc ?ss bs = bs" by (rule store_load)
  then have all: "concat (map ?enc ?ss) @ drop (length ?ss * ?sz) bs = bs"
    by (simp add: store_samples_def)
  have "concat (map ?enc (take n ?ss)) @ concat (map ?enc (drop n ?ss)) @ drop (length ?ss * ?sz) bs = bs"
    unfolding append_assoc [symmetric] concat_append [symmetric] map_append [symmetric] append_take_drop_id
    by (rule all)
  moreover have "length (concat (map ?enc (take n ?ss))) = n * ?sz"
    using n length_concat_chunks [of "take n ?ss" ?enc ?sz] length_bytes_of_sample by simp
  ultimately have "concat (map ?enc (drop n ?ss)) @ drop (length ?ss * ?sz) bs = drop (n * ?sz) bs"
    by (metis append_eq_conv_conj)
  then have "store_samples ?sz ?enc (map conv (take n ?ss) @ drop n ?ss) bs = swap_bytes layout n bs"
    using n conv by (simp add: store_samples_def swap_bytes_def)
  then show ?thesis using n by (simp add: on_samples_def for_samples_def)
qed

end

lemmas conv_rules = get_fields_def be16_to_cpu_def be32_to_cpu_def swab_word_1 swab_word_1 [simplified One_nat_def] swab_word_2 swab_word_3 swab_word_4

interpretation imagette_swap: sample_swap imagette_acc imagette_layout 0 "be16_to_cpu False"
  by unfold_locales (simp add: sample_defs conv_rules)

interpretation offset_swap: sample_swap offset_acc offset_layout offset_zero "offset_to_cpu False"
  by unfold_locales (simp add: sample_defs offset_to_cpu_def conv_rules)

interpretation background_swap: sample_swap background_acc background_layout background_zero "background_to_cpu False"
  by unfold_locales (simp add: sample_defs background_to_cpu_def conv_rules)

interpretation smearing_swap: sample_swap smearing_acc smearing_layout smearing_zero "smearing_to_cpu False"
  by unfold_locales (simp add: sample_defs smearing_to_cpu_def conv_rules)

interpretation s_fx_swap: sample_swap s_fx_acc s_fx_layout s_fx_zero "s_fx_to_cpu False"
  by unfold_locales (simp add: sample_defs s_fx_to_cpu_def conv_rules)

interpretation s_fx_efx_swap: sample_swap s_fx_efx_acc s_fx_efx_layout s_fx_efx_zero "s_fx_efx_to_cpu False"
  by unfold_locales (simp add: sample_defs s_fx_efx_to_cpu_def conv_rules)

interpretation s_fx_ncob_swap: sample_swap s_fx_ncob_acc s_fx_ncob_layout s_fx_ncob_zero "s_fx_ncob_to_cpu False"
  by unfold_locales (simp add: sample_defs s_fx_ncob_to_cpu_def conv_rules)

interpretation s_fx_efx_ncob_ecob_swap: sample_swap s_fx_efx_ncob_ecob_acc s_fx_efx_ncob_ecob_layout s_fx_efx_ncob_ecob_zero "s_fx_efx_ncob_ecob_to_cpu False"
  by unfold_locales (simp add: sample_defs s_fx_efx_ncob_ecob_to_cpu_def conv_rules)

interpretation l_fx_swap: sample_swap l_fx_acc l_fx_layout l_fx_zero "l_fx_to_cpu False"
  by unfold_locales (simp add: sample_defs l_fx_to_cpu_def conv_rules)

interpretation l_fx_efx_swap: sample_swap l_fx_efx_acc l_fx_efx_layout l_fx_efx_zero "l_fx_efx_to_cpu False"
  by unfold_locales (simp add: sample_defs l_fx_efx_to_cpu_def conv_rules)

interpretation l_fx_ncob_swap: sample_swap l_fx_ncob_acc l_fx_ncob_layout l_fx_ncob_zero "l_fx_ncob_to_cpu False"
  by unfold_locales (simp add: sample_defs l_fx_ncob_to_cpu_def conv_rules)

interpretation l_fx_efx_ncob_ecob_swap: sample_swap l_fx_efx_ncob_ecob_acc l_fx_efx_ncob_ecob_layout l_fx_efx_ncob_ecob_zero "l_fx_efx_ncob_ecob_to_cpu False"
  by unfold_locales (simp add: sample_defs l_fx_efx_ncob_ecob_to_cpu_def conv_rules)

interpretation f_fx_swap: sample_swap f_fx_acc f_fx_layout f_fx_zero "f_fx_to_cpu False"
  by unfold_locales (simp add: sample_defs f_fx_to_cpu_def f_fx_acc_def conv_rules)

interpretation f_fx_efx_swap: sample_swap f_fx_efx_acc f_fx_efx_layout f_fx_efx_zero "f_fx_efx_to_cpu False"
  by unfold_locales (simp add: sample_defs f_fx_efx_to_cpu_def f_fx_efx_acc_def conv_rules)

interpretation f_fx_ncob_swap: sample_swap f_fx_ncob_acc f_fx_ncob_layout f_fx_ncob_zero "f_fx_ncob_to_cpu False"
  by unfold_locales (simp add: sample_defs f_fx_ncob_to_cpu_def f_fx_ncob_acc_def conv_rules)

interpretation f_fx_efx_ncob_ecob_swap: sample_swap f_fx_efx_ncob_ecob_acc f_fx_efx_ncob_ecob_layout f_fx_efx_ncob_ecob_zero "f_fx_efx_ncob_ecob_to_cpu False"
  by unfold_locales (simp add: sample_defs f_fx_efx_ncob_ecob_to_cpu_def f_fx_efx_ncob_ecob_acc_def conv_rules)

section \<open>Data of every type\<close>

lemmas on_samples_swaps =
  imagette_swap.on_samples_swap [simplified]
  offset_swap.on_samples_swap [simplified]
  background_swap.on_samples_swap [simplified]
  smearing_swap.on_samples_swap [simplified]
  s_fx_swap.on_samples_swap [simplified]
  s_fx_efx_swap.on_samples_swap [simplified]
  s_fx_ncob_swap.on_samples_swap [simplified]
  s_fx_efx_ncob_ecob_swap.on_samples_swap [simplified]
  l_fx_swap.on_samples_swap [simplified]
  l_fx_efx_swap.on_samples_swap [simplified]
  l_fx_ncob_swap.on_samples_swap [simplified]
  l_fx_efx_ncob_ecob_swap.on_samples_swap [simplified]
  f_fx_swap.on_samples_swap [simplified]
  f_fx_efx_swap.on_samples_swap [simplified]
  f_fx_ncob_swap.on_samples_swap [simplified]
  f_fx_efx_ncob_ecob_swap.on_samples_swap [simplified]

lemmas be_to_cpus_defs = be_to_cpus_16_def
  be_to_cpus_offset_def
  be_to_cpus_background_def
  be_to_cpus_smearing_def
  be_to_cpus_s_fx_def
  be_to_cpus_s_fx_efx_def
  be_to_cpus_s_fx_ncob_def
  be_to_cpus_s_fx_efx_ncob_ecob_def
  be_to_cpus_l_fx_def
  be_to_cpus_l_fx_efx_def
  be_to_cpus_l_fx_ncob_def
  be_to_cpus_l_fx_efx_ncob_ecob_def
  be_to_cpus_f_fx_def
  be_to_cpus_f_fx_efx_def
  be_to_cpus_f_fx_ncob_def
  be_to_cpus_f_fx_efx_ncob_ecob_def

lemma be_to_cpu_data_type_little:
  assumes "size_of_a_sample t \<noteq> 0" and "unat n mod size_of_a_sample t = 0" and "unat n \<le> length bs"
  shows "be_to_cpu_data_type False (Some bs) n t =
    Some (0, Some (swap_bytes (sample_layout t) (unat n div size_of_a_sample t) bs))"
proof -
  have "unat n div size_of_a_sample t * size_of_a_sample t \<le> length bs"
    using assms(3) div_times_less_eq_dividend le_trans by blast
  then show ?thesis using assms(1,2)
    by (cases t) (simp_all add: be_to_cpu_data_type_def Let_def be_to_cpus_defs size_of_a_sample_def on_samples_swaps)
qed

end
