(* ===== verification/Compress_Internal.thy ===== *)
theory Compress_Internal
  imports Collection_Compress Byte_Swap
begin

text \<open>
  The compression of the data of one collection, \<open>compress_data_internal\<close> of
  \<open>lib/icu_compress/cmp_icu.c\<close>, on bytes: the choice of the routine by the data type, the raw
  mode, the padding of the stream, and the checks of the buffers and of the configuration that
  precede it.
\<close>

section \<open>Buffers\<close>

text \<open>
  A pointer is NULL or an address with the bytes from there to the end of its object. Two
  pointers of the same address are the same object: this is how the model is updated in place.
\<close>

type_synonym ptr = "(nat \<times> buffer) option"

record cmp_bufs =
  src :: ptr
  dst :: ptr
  model_buf :: ptr
  updated_model_buf :: ptr

definition bytes_at :: "ptr \<Rightarrow> buffer" where
  "bytes_at p = (case p of None \<Rightarrow> [] | Some (a, bs) \<Rightarrow> bs)"

definition with_bytes :: "buffer \<Rightarrow> ptr \<Rightarrow> ptr" where
  "with_bytes bs p = map_option (\<lambda>(a, _). (a, bs)) p"

definition in_place :: "cmp_bufs \<Rightarrow> bool" where
  "in_place b \<longleftrightarrow> model_buf b \<noteq> None \<and> map_option fst (updated_model_buf b) = map_option fst (model_buf b)"

definition set_updated_model :: "buffer \<Rightarrow> cmp_bufs \<Rightarrow> cmp_bufs" where
  "set_updated_model bs b =
     (let b' = b\<lparr>updated_model_buf := with_bytes bs (updated_model_buf b)\<rparr>
      in if in_place b then b'\<lparr>model_buf := with_bytes bs (model_buf b)\<rparr> else b')"

definition buffer_overlaps :: "ptr \<Rightarrow> nat \<Rightarrow> ptr \<Rightarrow> nat \<Rightarrow> bool" where
  "buffer_overlaps buf_a size_a buf_b size_b = (case (buf_a, buf_b) of
       (Some (a, _), Some (b, _)) \<Rightarrow> a < b + size_b \<and> b < a + size_a
     | _ \<Rightarrow> False)"

section \<open>Pointers into the buffers\<close>

text \<open>
  A function that is called with pointers behind a header sees the bytes from there on; its
  writes are writes to the object as a whole.
\<close>

definition skip_ptr :: "nat \<Rightarrow> ptr \<Rightarrow> ptr" where
  "skip_ptr n p = map_option (\<lambda>(a, bs). (a + n, drop n bs)) p"

definition rejoin_ptr :: "nat \<Rightarrow> ptr \<Rightarrow> ptr \<Rightarrow> ptr" where
  "rejoin_ptr n q p = map_option (\<lambda>(a, bs). (a, take n bs @ bytes_at q)) p"

definition skip_bufs :: "nat \<Rightarrow> nat \<Rightarrow> nat \<Rightarrow> cmp_bufs \<Rightarrow> cmp_bufs" where
  "skip_bufs n_src n_dst n_model b = \<lparr>src = skip_ptr n_src (src b), dst = skip_ptr n_dst (dst b),
     model_buf = skip_ptr n_model (model_buf b), updated_model_buf = skip_ptr n_model (updated_model_buf b)\<rparr>"

definition rejoin_bufs :: "nat \<Rightarrow> nat \<Rightarrow> cmp_bufs \<Rightarrow> cmp_bufs \<Rightarrow> cmp_bufs" where
  "rejoin_bufs n_dst n_model b' b = b\<lparr>dst := rejoin_ptr n_dst (dst b') (dst b),
     model_buf := rejoin_ptr n_model (model_buf b') (model_buf b),
     updated_model_buf := rejoin_ptr n_model (updated_model_buf b') (updated_model_buf b)\<rparr>"

text \<open>
  \<open>memcpy\<close> of the first \<open>n\<close> bytes at a pointer to the updated model, or to the destination.
\<close>

definition copy_to_updated_model :: "nat \<Rightarrow> ptr \<Rightarrow> cmp_bufs \<Rightarrow> cmp_bufs option" where
  "copy_to_updated_model n from b =
     (if length (bytes_at from) < n then None
      else do {
        bs \<leftarrow> store_bytes 0 (take n (bytes_at from)) (bytes_at (updated_model_buf b));
        Some (set_updated_model bs b)
      })"

definition copy_to_dst :: "nat \<Rightarrow> ptr \<Rightarrow> cmp_bufs \<Rightarrow> cmp_bufs option" where
  "copy_to_dst n from b =
     (if length (bytes_at from) < n then None
      else do {
        bs \<leftarrow> store_bytes 0 (take n (bytes_at from)) (bytes_at (dst b));
        Some (b\<lparr>dst := with_bytes bs (dst b)\<rparr>)
      })"

section \<open>Samples of a type at the pointers\<close>

text \<open>
  The C code casts the pointers to arrays of the sample type. \<open>read_samples\<close> and
  \<open>write_samples\<close> are this view of the bytes.
\<close>

definition read_samples :: "bool \<Rightarrow> 's accessors \<Rightarrow> nat list \<Rightarrow> 's \<Rightarrow> buffer \<Rightarrow> 's list" where
  "read_samples big acc layout zero = load_samples (sum_list layout) (sample_of_bytes big acc layout zero)"

definition write_samples :: "bool \<Rightarrow> 's accessors \<Rightarrow> nat list \<Rightarrow> 's list \<Rightarrow> buffer \<Rightarrow> buffer" where
  "write_samples big acc layout = store_samples (sum_list layout) (bytes_of_sample big acc layout)"

definition up_target :: "(buffer \<Rightarrow> 's list) \<Rightarrow> cmp_bufs \<Rightarrow> 's up_target" where
  "up_target rd b = (case updated_model_buf b of
       None \<Rightarrow> No_up_model
     | Some (_, bs) \<Rightarrow> if in_place b then Up_in_place else Up_model (rd bs))"

text \<open>The model buffers after a function has worked on the samples.\<close>

definition put_model_mem ::
  "('s list \<Rightarrow> buffer \<Rightarrow> buffer) \<Rightarrow> 's model_mem \<Rightarrow> cmp_bufs \<Rightarrow> cmp_bufs" where
  "put_model_mem wr mem b = (case mem of
       (_, No_up_model) \<Rightarrow> b
     | (_, Up_model ub) \<Rightarrow> set_updated_model (wr ub (bytes_at (updated_model_buf b))) b
     | (mb, Up_in_place) \<Rightarrow> set_updated_model (wr mb (bytes_at (model_buf b))) b)"

definition run_samples ::
  "bool \<Rightarrow> 's accessors \<Rightarrow> nat list \<Rightarrow> 's \<Rightarrow>
     ('s list \<Rightarrow> 's model_mem \<Rightarrow> u32 \<Rightarrow> buffer option \<Rightarrow> 's compress_result) \<Rightarrow>
     cmp_bufs \<Rightarrow> u32 \<Rightarrow> (u32 \<times> cmp_bufs) option" where
  "run_samples big acc layout zero f b stream_len =
     (let rd = read_samples big acc layout zero; wr = write_samples big acc layout
      in do {
        (len, d, mem) \<leftarrow> f (rd (bytes_at (src b))) (rd (bytes_at (model_buf b)), up_target rd b)
          stream_len (map_option snd (dst b));
        Some (len, put_model_mem wr mem
          (b\<lparr>dst := (case d of None \<Rightarrow> dst b | Some bs \<Rightarrow> with_bytes bs (dst b))\<rparr>))
      })"

text \<open>A configuration cleared with \<open>memset\<close>, and the size of the field in front of a compressed collection.\<close>

definition cmp_cfg_zero :: cmp_cfg where
  "cmp_cfg_zero = \<lparr>samples = 0, stream_size = 0, data_type = DATA_TYPE_UNKNOWN, cmp_mode = CMP_MODE_RAW,
     model_value = 0, round_par = 0, cmp_par_1 = 0, spill_par_1 = 0, cmp_par_2 = 0, spill_par_2 = 0,
     cmp_par_3 = 0, spill_par_3 = 0, cmp_par_4 = 0, spill_par_4 = 0, cmp_par_5 = 0, spill_par_5 = 0,
     cmp_par_6 = 0, spill_par_6 = 0\<rparr>"

definition CMP_COLLECTION_FILD_SIZE :: nat where
  "CMP_COLLECTION_FILD_SIZE = 2"

section \<open>The compression of the data\<close>

definition pad_bitstream :: "cmp_cfg \<Rightarrow> cmp_bufs \<Rightarrow> u32 \<Rightarrow> (u32 \<times> cmp_bufs) option" where
  "pad_bitstream cfg b cmp_size = (case dst b of
       None \<Rightarrow> Some (cmp_size, b)
     | Some (a, d) \<Rightarrow>
         if cmp_mode cfg = CMP_MODE_RAW then Some (cmp_size, b)
         else
           let output_buf_len_bits = cmp_stream_size_to_bits (stream_size cfg);
               n_pad_bits = 32 - (cmp_size AND 0x1F)
           in if n_pad_bits < 32 then do {
                (r, d') \<leftarrow> put_n_bits32 0 n_pad_bits cmp_size (Some d) output_buf_len_bits;
                let b' = b\<lparr>dst := map_option (\<lambda>d. (a, d)) d'\<rparr>;
                Some (if cmp_is_error r then r else cmp_size, b')
              }
              else Some (cmp_size, b))"

text \<open>The raw mode copies the data and converts them to big-endian byte order.\<close>

definition compress_raw ::
  "bool \<Rightarrow> cmp_cfg \<Rightarrow> cmp_bufs \<Rightarrow> u32 \<Rightarrow> (u32 \<times> cmp_bufs) option" where
  "compress_raw big cfg b stream_len =
     (let raw_size = samples cfg * word_of_nat (size_of_a_sample (data_type cfg));
          bitsize = stream_len + raw_size * 8
      in case dst b of
        None \<Rightarrow> Some (bitsize, b)
      | Some (a, d) \<Rightarrow>
          let offset_bytes = drop_bit 3 stream_len;
              new_stream_size = offset_bytes + raw_size
          in if new_stream_size > stream_size cfg then Some (CMP_ERROR CMP_ERROR_SMALL_BUFFER, b)
             else if length (bytes_at (src b)) < unat raw_size \<or> length d < unat offset_bytes + unat raw_size then None
             else do {
               d1 \<leftarrow> store_bytes (unat offset_bytes) (take (unat raw_size) (bytes_at (src b))) d;
               (err, p) \<leftarrow> be_to_cpu_data_type big (Some (drop (unat offset_bytes) d1)) raw_size (data_type cfg);
               let b' = b\<lparr>dst := Some (a, take (unat offset_bytes) d1 @ (case p of None \<Rightarrow> [] | Some bs \<Rightarrow> bs))\<rparr>;
               if err \<noteq> 0 then Some (CMP_ERROR CMP_ERROR_INT_DATA_TYPE_UNSUPPORTED, b')
               else Some (bitsize, b')
             })"

text \<open>The routine of each data type.\<close>

definition compress_by_type ::
  "bool \<Rightarrow> cmp_cfg \<Rightarrow> cmp_bufs \<Rightarrow> u32 \<Rightarrow> (u32 \<times> cmp_bufs) option" where
  "compress_by_type big cfg b stream_len =
     (let t = data_type cfg
      in if t \<in> {DATA_TYPE_IMAGETTE, DATA_TYPE_IMAGETTE_ADAPTIVE, DATA_TYPE_SAT_IMAGETTE,
            DATA_TYPE_SAT_IMAGETTE_ADAPTIVE, DATA_TYPE_F_CAM_IMAGETTE, DATA_TYPE_F_CAM_IMAGETTE_ADAPTIVE}
        then run_samples big imagette_acc imagette_layout 0 (compress_imagette cfg) b stream_len
        else if t = DATA_TYPE_S_FX then run_samples big s_fx_acc s_fx_layout s_fx_zero (compress_s_fx cfg) b stream_len
        else if t = DATA_TYPE_S_FX_EFX then run_samples big s_fx_efx_acc s_fx_efx_layout s_fx_efx_zero (compress_s_fx_efx cfg) b stream_len
        else if t = DATA_TYPE_S_FX_NCOB then run_samples big s_fx_ncob_acc s_fx_ncob_layout s_fx_ncob_zero (compress_s_fx_ncob cfg) b stream_len
        else if t = DATA_TYPE_S_FX_EFX_NCOB_ECOB then run_samples big s_fx_efx_ncob_ecob_acc s_fx_efx_ncob_ecob_layout s_fx_efx_ncob_ecob_zero (compress_s_fx_efx_ncob_ecob cfg) b stream_len
        else if t = DATA_TYPE_L_FX then run_samples big l_fx_acc l_fx_layout l_fx_zero (compress_l_fx cfg) b stream_len
        else if t = DATA_TYPE_L_FX_EFX then run_samples big l_fx_efx_acc l_fx_efx_layout l_fx_efx_zero (compress_l_fx_efx cfg) b stream_len
        else if t = DATA_TYPE_L_FX_NCOB then run_samples big l_fx_ncob_acc l_fx_ncob_layout l_fx_ncob_zero (compress_l_fx_ncob cfg) b stream_len
        else if t = DATA_TYPE_L_FX_EFX_NCOB_ECOB then run_samples big l_fx_efx_ncob_ecob_acc l_fx_efx_ncob_ecob_layout l_fx_efx_ncob_ecob_zero (compress_l_fx_efx_ncob_ecob cfg) b stream_len
        else if t = DATA_TYPE_OFFSET \<or> t = DATA_TYPE_F_CAM_OFFSET
        then run_samples big offset_acc offset_layout offset_zero (compress_offset cfg) b stream_len
        else if t = DATA_TYPE_BACKGROUND \<or> t = DATA_TYPE_F_CAM_BACKGROUND
        then run_samples big background_acc background_layout background_zero (compress_background cfg) b stream_len
        else if t = DATA_TYPE_SMEARING
        then run_samples big smearing_acc smearing_layout smearing_zero (compress_smearing cfg) b stream_len
        else Some (CMP_ERROR CMP_ERROR_INT_DATA_TYPE_UNSUPPORTED, b))"

definition compress_data_internal ::
  "bool \<Rightarrow> cmp_cfg option \<Rightarrow> cmp_bufs \<Rightarrow> u32 \<Rightarrow> (u32 \<times> cmp_bufs) option" where
  "compress_data_internal big cfg_p b stream_len =
     (if cmp_is_error stream_len then Some (stream_len, b)
      else case cfg_p of
        None \<Rightarrow> Some (CMP_ERROR CMP_ERROR_GENERIC, b)
      | Some cfg \<Rightarrow>
          if stream_len AND 0x7 \<noteq> 0 then Some (CMP_ERROR CMP_ERROR_GENERIC, b)
          else if samples cfg = 0 then Some (stream_len, b)
          else do {
            (bitsize, b) \<leftarrow> (if raw_mode_is_used (cmp_mode cfg) then compress_raw big cfg b stream_len
              else compress_by_type big cfg b stream_len);
            if cmp_is_error bitsize then Some (bitsize, b) else pad_bitstream cfg b bitsize
          })"

section \<open>Checks\<close>

definition check_compression_buffers :: "cmp_cfg option \<Rightarrow> cmp_bufs \<Rightarrow> u32" where
  "check_compression_buffers cfg_p b = (case cfg_p of
       None \<Rightarrow> CMP_ERROR CMP_ERROR_GENERIC
     | Some cfg \<Rightarrow>
         let data_size = size_of_a_sample (data_type cfg) * unat (samples cfg);
             dst_size = unat (stream_size cfg)
         in if src b = None then CMP_ERROR CMP_ERROR_CHUNK_NULL
            else if buffer_overlaps (dst b) dst_size (src b) data_size then CMP_ERROR CMP_ERROR_PAR_BUFFERS
            else if model_mode_is_used (cmp_mode cfg) then
              (if model_buf b = None then CMP_ERROR CMP_ERROR_PAR_NO_MODEL
               else if buffer_overlaps (model_buf b) data_size (src b) data_size then CMP_ERROR CMP_ERROR_PAR_BUFFERS
               else if buffer_overlaps (model_buf b) data_size (dst b) dst_size then CMP_ERROR CMP_ERROR_PAR_BUFFERS
               else if buffer_overlaps (updated_model_buf b) data_size (src b) data_size then CMP_ERROR CMP_ERROR_PAR_BUFFERS
               else if buffer_overlaps (updated_model_buf b) data_size (dst b) dst_size then CMP_ERROR CMP_ERROR_PAR_BUFFERS
               else CMP_ERROR CMP_ERROR_NO_ERROR)
            else CMP_ERROR CMP_ERROR_NO_ERROR)"

definition cmp_cfg_icu_is_invalid_error_code :: "cmp_cfg option \<Rightarrow> cmp_bufs \<Rightarrow> u32" where
  "cmp_cfg_icu_is_invalid_error_code cfg_p b =
     (if cmp_cfg_gen_par_is_invalid cfg_p \<noteq> 0 then CMP_ERROR CMP_ERROR_PAR_GENERIC
      else let t = data_type (the cfg_p) in
        if (if cmp_imagette_data_type_is_used t then cmp_cfg_imagette_is_invalid cfg_p
            else if cmp_fx_cob_data_type_is_used t then cmp_cfg_fx_cob_is_invalid cfg_p
            else cmp_cfg_aux_is_invalid cfg_p) \<noteq> 0
        then CMP_ERROR CMP_ERROR_PAR_SPECIFIC
        else let r = check_compression_buffers cfg_p b
          in if cmp_is_error r then r else CMP_ERROR CMP_ERROR_NO_ERROR)"

end
