(* ===== verification/Collection_Decompress.thy ===== *)
theory Collection_Decompress
  imports Sample_Types
begin

text \<open>
  The twelve functions of \<open>lib/decompress/decmp.c\<close> that decompress the samples of one type,
  \<open>decompress_imagette\<close> to \<open>decompress_smearing\<close>. The buffers are lists of samples, as in
  the compression; the collection header in front of them is left out by the caller.

  The field tables are written separately from those of the compressor, as in the C code:
  that they agree is a theorem.
\<close>

definition decmp_imagette_max_data_bits :: "cmp_data_type \<Rightarrow> u32" where
  "decmp_imagette_max_data_bits t =
     (if t = DATA_TYPE_IMAGETTE \<or> t = DATA_TYPE_IMAGETTE_ADAPTIVE
      then bits_nc_imagette MAX_USED_BITS
      else if t = DATA_TYPE_SAT_IMAGETTE \<or> t = DATA_TYPE_SAT_IMAGETTE_ADAPTIVE
      then bits_saturated_imagette MAX_USED_BITS
      else bits_fc_imagette MAX_USED_BITS)"

definition imagette_decode_fields :: "cmp_cfg \<Rightarrow> u16 decode_field list option" where
  "imagette_decode_fields cfg = do {
     setup \<leftarrow> configure_decoder_setup (cmp_mode cfg) (cmp_par_imagette cfg) (spill_imagette cfg)
       (round_par cfg) (decmp_imagette_max_data_bits (data_type cfg));
     Some [(ucast, \<lambda>v s. ucast v, setup)]
   }"

text \<open>A decompressor of one type, from its field table.\<close>

definition decompress_with ::
  "'s decode_field list option \<Rightarrow> ('s \<Rightarrow> 's \<Rightarrow> 's) \<Rightarrow> 's \<Rightarrow> cmp_cfg \<Rightarrow> 's list \<Rightarrow> 's model_mem \<Rightarrow>
     bit_decoder \<Rightarrow> 's decompress_result" where
  "decompress_with fs up zero cfg data_buf mem dec = do {
     fs \<leftarrow> fs;
     decompress_samples fs up zero cfg data_buf mem dec
   }"

definition decompress_imagette ::
  "cmp_cfg \<Rightarrow> u16 list \<Rightarrow> u16 model_mem \<Rightarrow> bit_decoder \<Rightarrow> u16 decompress_result" where
  "decompress_imagette cfg =
     decompress_with (imagette_decode_fields cfg) (imagette_up_model (model_value cfg) (round_par cfg)) 0 cfg"

definition s_fx_decode_fields :: "cmp_cfg \<Rightarrow> s_fx decode_field list option" where
  "s_fx_decode_fields cfg = do {
     setup_exp_flags \<leftarrow> configure_decoder_setup (cmp_mode cfg) (cmp_par_exp_flags cfg) (spill_exp_flags cfg)
       (round_par cfg) (bits_s_exp_flags MAX_USED_BITS);
     setup_fx \<leftarrow> configure_decoder_setup (cmp_mode cfg) (cmp_par_fx cfg) (spill_fx cfg)
       (round_par cfg) (bits_s_fx MAX_USED_BITS);
     Some [(\<lambda>s. ucast (s_fx_exp_flags s), \<lambda>v s. s\<lparr>s_fx_exp_flags := ucast v\<rparr>, setup_exp_flags),
       (s_fx_fx, \<lambda>v s. s\<lparr>s_fx_fx := v\<rparr>, setup_fx)]
   }"

definition decompress_s_fx ::
  "cmp_cfg \<Rightarrow> s_fx list \<Rightarrow> s_fx model_mem \<Rightarrow> bit_decoder \<Rightarrow> s_fx decompress_result" where
  "decompress_s_fx cfg =
     decompress_with (s_fx_decode_fields cfg) (s_fx_up_model (model_value cfg) (round_par cfg)) s_fx_zero cfg"

definition s_fx_efx_decode_fields :: "cmp_cfg \<Rightarrow> s_fx_efx decode_field list option" where
  "s_fx_efx_decode_fields cfg = do {
     setup_exp_flags \<leftarrow> configure_decoder_setup (cmp_mode cfg) (cmp_par_exp_flags cfg) (spill_exp_flags cfg)
       (round_par cfg) (bits_s_exp_flags MAX_USED_BITS);
     setup_fx \<leftarrow> configure_decoder_setup (cmp_mode cfg) (cmp_par_fx cfg) (spill_fx cfg)
       (round_par cfg) (bits_s_fx MAX_USED_BITS);
     setup_efx \<leftarrow> configure_decoder_setup (cmp_mode cfg) (cmp_par_efx cfg) (spill_efx cfg)
       (round_par cfg) (bits_s_efx MAX_USED_BITS);
     Some [(\<lambda>s. ucast (s_fx_efx_exp_flags s), \<lambda>v s. s\<lparr>s_fx_efx_exp_flags := ucast v\<rparr>, setup_exp_flags),
       (s_fx_efx_fx, \<lambda>v s. s\<lparr>s_fx_efx_fx := v\<rparr>, setup_fx),
       (s_fx_efx_efx, \<lambda>v s. s\<lparr>s_fx_efx_efx := v\<rparr>, setup_efx)]
   }"

definition decompress_s_fx_efx ::
  "cmp_cfg \<Rightarrow> s_fx_efx list \<Rightarrow> s_fx_efx model_mem \<Rightarrow> bit_decoder \<Rightarrow> s_fx_efx decompress_result" where
  "decompress_s_fx_efx cfg =
     decompress_with (s_fx_efx_decode_fields cfg) (s_fx_efx_up_model (model_value cfg) (round_par cfg)) s_fx_efx_zero cfg"

definition s_fx_ncob_decode_fields :: "cmp_cfg \<Rightarrow> s_fx_ncob decode_field list option" where
  "s_fx_ncob_decode_fields cfg = do {
     setup_exp_flags \<leftarrow> configure_decoder_setup (cmp_mode cfg) (cmp_par_exp_flags cfg) (spill_exp_flags cfg)
       (round_par cfg) (bits_s_exp_flags MAX_USED_BITS);
     setup_fx \<leftarrow> configure_decoder_setup (cmp_mode cfg) (cmp_par_fx cfg) (spill_fx cfg)
       (round_par cfg) (bits_s_fx MAX_USED_BITS);
     setup_ncob \<leftarrow> configure_decoder_setup (cmp_mode cfg) (cmp_par_ncob cfg) (spill_ncob cfg)
       (round_par cfg) (bits_s_ncob MAX_USED_BITS);
     Some [(\<lambda>s. ucast (s_fx_ncob_exp_flags s), \<lambda>v s. s\<lparr>s_fx_ncob_exp_flags := ucast v\<rparr>, setup_exp_flags),
       (s_fx_ncob_fx, \<lambda>v s. s\<lparr>s_fx_ncob_fx := v\<rparr>, setup_fx),
       (s_fx_ncob_ncob_x, \<lambda>v s. s\<lparr>s_fx_ncob_ncob_x := v\<rparr>, setup_ncob),
       (s_fx_ncob_ncob_y, \<lambda>v s. s\<lparr>s_fx_ncob_ncob_y := v\<rparr>, setup_ncob)]
   }"

definition decompress_s_fx_ncob ::
  "cmp_cfg \<Rightarrow> s_fx_ncob list \<Rightarrow> s_fx_ncob model_mem \<Rightarrow> bit_decoder \<Rightarrow> s_fx_ncob decompress_result" where
  "decompress_s_fx_ncob cfg =
     decompress_with (s_fx_ncob_decode_fields cfg) (s_fx_ncob_up_model (model_value cfg) (round_par cfg)) s_fx_ncob_zero cfg"

definition s_fx_efx_ncob_ecob_decode_fields :: "cmp_cfg \<Rightarrow> s_fx_efx_ncob_ecob decode_field list option" where
  "s_fx_efx_ncob_ecob_decode_fields cfg = do {
     setup_exp_flags \<leftarrow> configure_decoder_setup (cmp_mode cfg) (cmp_par_exp_flags cfg) (spill_exp_flags cfg)
       (round_par cfg) (bits_s_exp_flags MAX_USED_BITS);
     setup_fx \<leftarrow> configure_decoder_setup (cmp_mode cfg) (cmp_par_fx cfg) (spill_fx cfg)
       (round_par cfg) (bits_s_fx MAX_USED_BITS);
     setup_ncob \<leftarrow> configure_decoder_setup (cmp_mode cfg) (cmp_par_ncob cfg) (spill_ncob cfg)
       (round_par cfg) (bits_s_ncob MAX_USED_BITS);
     setup_efx \<leftarrow> configure_decoder_setup (cmp_mode cfg) (cmp_par_efx cfg) (spill_efx cfg)
       (round_par cfg) (bits_s_efx MAX_USED_BITS);
     setup_ecob \<leftarrow> configure_decoder_setup (cmp_mode cfg) (cmp_par_ecob cfg) (spill_ecob cfg)
       (round_par cfg) (bits_s_ecob MAX_USED_BITS);
     Some [(\<lambda>s. ucast (s_fx_efx_ncob_ecob_exp_flags s), \<lambda>v s. s\<lparr>s_fx_efx_ncob_ecob_exp_flags := ucast v\<rparr>, setup_exp_flags),
       (s_fx_efx_ncob_ecob_fx, \<lambda>v s. s\<lparr>s_fx_efx_ncob_ecob_fx := v\<rparr>, setup_fx),
       (s_fx_efx_ncob_ecob_ncob_x, \<lambda>v s. s\<lparr>s_fx_efx_ncob_ecob_ncob_x := v\<rparr>, setup_ncob),
       (s_fx_efx_ncob_ecob_ncob_y, \<lambda>v s. s\<lparr>s_fx_efx_ncob_ecob_ncob_y := v\<rparr>, setup_ncob),
       (s_fx_efx_ncob_ecob_efx, \<lambda>v s. s\<lparr>s_fx_efx_ncob_ecob_efx := v\<rparr>, setup_efx),
       (s_fx_efx_ncob_ecob_ecob_x, \<lambda>v s. s\<lparr>s_fx_efx_ncob_ecob_ecob_x := v\<rparr>, setup_ecob),
       (s_fx_efx_ncob_ecob_ecob_y, \<lambda>v s. s\<lparr>s_fx_efx_ncob_ecob_ecob_y := v\<rparr>, setup_ecob)]
   }"

definition decompress_s_fx_efx_ncob_ecob ::
  "cmp_cfg \<Rightarrow> s_fx_efx_ncob_ecob list \<Rightarrow> s_fx_efx_ncob_ecob model_mem \<Rightarrow> bit_decoder \<Rightarrow> s_fx_efx_ncob_ecob decompress_result" where
  "decompress_s_fx_efx_ncob_ecob cfg =
     decompress_with (s_fx_efx_ncob_ecob_decode_fields cfg) (s_fx_efx_ncob_ecob_up_model (model_value cfg) (round_par cfg)) s_fx_efx_ncob_ecob_zero cfg"

definition l_fx_decode_fields :: "cmp_cfg \<Rightarrow> l_fx decode_field list option" where
  "l_fx_decode_fields cfg = do {
     setup_exp_flags \<leftarrow> configure_decoder_setup (cmp_mode cfg) (cmp_par_exp_flags cfg) (spill_exp_flags cfg)
       (round_par cfg) (bits_l_exp_flags MAX_USED_BITS);
     setup_fx \<leftarrow> configure_decoder_setup (cmp_mode cfg) (cmp_par_fx cfg) (spill_fx cfg)
       (round_par cfg) (bits_l_fx MAX_USED_BITS);
     setup_fx_var \<leftarrow> configure_decoder_setup (cmp_mode cfg) (cmp_par_fx_cob_variance cfg) (spill_fx_cob_variance cfg)
       (round_par cfg) (bits_l_fx_cob_variance MAX_USED_BITS);
     Some [(\<lambda>s. ucast (l_fx_exp_flags s), \<lambda>v s. s\<lparr>l_fx_exp_flags := ucast v\<rparr>, setup_exp_flags),
       (l_fx_fx, \<lambda>v s. s\<lparr>l_fx_fx := v\<rparr>, setup_fx),
       (l_fx_fx_variance, \<lambda>v s. s\<lparr>l_fx_fx_variance := v\<rparr>, setup_fx_var)]
   }"

definition decompress_l_fx ::
  "cmp_cfg \<Rightarrow> l_fx list \<Rightarrow> l_fx model_mem \<Rightarrow> bit_decoder \<Rightarrow> l_fx decompress_result" where
  "decompress_l_fx cfg =
     decompress_with (l_fx_decode_fields cfg) (l_fx_up_model (model_value cfg) (round_par cfg)) l_fx_zero cfg"

definition l_fx_efx_decode_fields :: "cmp_cfg \<Rightarrow> l_fx_efx decode_field list option" where
  "l_fx_efx_decode_fields cfg = do {
     setup_exp_flags \<leftarrow> configure_decoder_setup (cmp_mode cfg) (cmp_par_exp_flags cfg) (spill_exp_flags cfg)
       (round_par cfg) (bits_l_exp_flags MAX_USED_BITS);
     setup_fx \<leftarrow> configure_decoder_setup (cmp_mode cfg) (cmp_par_fx cfg) (spill_fx cfg)
       (round_par cfg) (bits_l_fx MAX_USED_BITS);
     setup_efx \<leftarrow> configure_decoder_setup (cmp_mode cfg) (cmp_par_efx cfg) (spill_efx cfg)
       (round_par cfg) (bits_l_efx MAX_USED_BITS);
     setup_fx_var \<leftarrow> configure_decoder_setup (cmp_mode cfg) (cmp_par_fx_cob_variance cfg) (spill_fx_cob_variance cfg)
       (round_par cfg) (bits_l_fx_cob_variance MAX_USED_BITS);
     Some [(\<lambda>s. ucast (l_fx_efx_exp_flags s), \<lambda>v s. s\<lparr>l_fx_efx_exp_flags := ucast v\<rparr>, setup_exp_flags),
       (l_fx_efx_fx, \<lambda>v s. s\<lparr>l_fx_efx_fx := v\<rparr>, setup_fx),
       (l_fx_efx_efx, \<lambda>v s. s\<lparr>l_fx_efx_efx := v\<rparr>, setup_efx),
       (l_fx_efx_fx_variance, \<lambda>v s. s\<lparr>l_fx_efx_fx_variance := v\<rparr>, setup_fx_var)]
   }"

definition decompress_l_fx_efx ::
  "cmp_cfg \<Rightarrow> l_fx_efx list \<Rightarrow> l_fx_efx model_mem \<Rightarrow> bit_decoder \<Rightarrow> l_fx_efx decompress_result" where
  "decompress_l_fx_efx cfg =
     decompress_with (l_fx_efx_decode_fields cfg) (l_fx_efx_up_model (model_value cfg) (round_par cfg)) l_fx_efx_zero cfg"

definition l_fx_ncob_decode_fields :: "cmp_cfg \<Rightarrow> l_fx_ncob decode_field list option" where
  "l_fx_ncob_decode_fields cfg = do {
     setup_exp_flags \<leftarrow> configure_decoder_setup (cmp_mode cfg) (cmp_par_exp_flags cfg) (spill_exp_flags cfg)
       (round_par cfg) (bits_l_exp_flags MAX_USED_BITS);
     setup_fx \<leftarrow> configure_decoder_setup (cmp_mode cfg) (cmp_par_fx cfg) (spill_fx cfg)
       (round_par cfg) (bits_l_fx MAX_USED_BITS);
     setup_ncob \<leftarrow> configure_decoder_setup (cmp_mode cfg) (cmp_par_ncob cfg) (spill_ncob cfg)
       (round_par cfg) (bits_l_ncob MAX_USED_BITS);
     setup_fx_var \<leftarrow> configure_decoder_setup (cmp_mode cfg) (cmp_par_fx_cob_variance cfg) (spill_fx_cob_variance cfg)
       (round_par cfg) (bits_l_fx_cob_variance MAX_USED_BITS);
     setup_cob_var \<leftarrow> configure_decoder_setup (cmp_mode cfg) (cmp_par_fx_cob_variance cfg) (spill_fx_cob_variance cfg)
       (round_par cfg) (bits_l_fx_cob_variance MAX_USED_BITS);
     Some [(\<lambda>s. ucast (l_fx_ncob_exp_flags s), \<lambda>v s. s\<lparr>l_fx_ncob_exp_flags := ucast v\<rparr>, setup_exp_flags),
       (l_fx_ncob_fx, \<lambda>v s. s\<lparr>l_fx_ncob_fx := v\<rparr>, setup_fx),
       (l_fx_ncob_ncob_x, \<lambda>v s. s\<lparr>l_fx_ncob_ncob_x := v\<rparr>, setup_ncob),
       (l_fx_ncob_ncob_y, \<lambda>v s. s\<lparr>l_fx_ncob_ncob_y := v\<rparr>, setup_ncob),
       (l_fx_ncob_fx_variance, \<lambda>v s. s\<lparr>l_fx_ncob_fx_variance := v\<rparr>, setup_fx_var),
       (l_fx_ncob_cob_x_variance, \<lambda>v s. s\<lparr>l_fx_ncob_cob_x_variance := v\<rparr>, setup_cob_var),
       (l_fx_ncob_cob_y_variance, \<lambda>v s. s\<lparr>l_fx_ncob_cob_y_variance := v\<rparr>, setup_cob_var)]
   }"

definition decompress_l_fx_ncob ::
  "cmp_cfg \<Rightarrow> l_fx_ncob list \<Rightarrow> l_fx_ncob model_mem \<Rightarrow> bit_decoder \<Rightarrow> l_fx_ncob decompress_result" where
  "decompress_l_fx_ncob cfg =
     decompress_with (l_fx_ncob_decode_fields cfg) (l_fx_ncob_up_model (model_value cfg) (round_par cfg)) l_fx_ncob_zero cfg"

definition l_fx_efx_ncob_ecob_decode_fields :: "cmp_cfg \<Rightarrow> l_fx_efx_ncob_ecob decode_field list option" where
  "l_fx_efx_ncob_ecob_decode_fields cfg = do {
     setup_exp_flags \<leftarrow> configure_decoder_setup (cmp_mode cfg) (cmp_par_exp_flags cfg) (spill_exp_flags cfg)
       (round_par cfg) (bits_l_exp_flags MAX_USED_BITS);
     setup_fx \<leftarrow> configure_decoder_setup (cmp_mode cfg) (cmp_par_fx cfg) (spill_fx cfg)
       (round_par cfg) (bits_l_fx MAX_USED_BITS);
     setup_ncob \<leftarrow> configure_decoder_setup (cmp_mode cfg) (cmp_par_ncob cfg) (spill_ncob cfg)
       (round_par cfg) (bits_l_ncob MAX_USED_BITS);
     setup_efx \<leftarrow> configure_decoder_setup (cmp_mode cfg) (cmp_par_efx cfg) (spill_efx cfg)
       (round_par cfg) (bits_l_efx MAX_USED_BITS);
     setup_ecob \<leftarrow> configure_decoder_setup (cmp_mode cfg) (cmp_par_ecob cfg) (spill_ecob cfg)
       (round_par cfg) (bits_l_ecob MAX_USED_BITS);
     setup_fx_var \<leftarrow> configure_decoder_setup (cmp_mode cfg) (cmp_par_fx_cob_variance cfg) (spill_fx_cob_variance cfg)
       (round_par cfg) (bits_l_fx_cob_variance MAX_USED_BITS);
     setup_cob_var \<leftarrow> configure_decoder_setup (cmp_mode cfg) (cmp_par_fx_cob_variance cfg) (spill_fx_cob_variance cfg)
       (round_par cfg) (bits_l_fx_cob_variance MAX_USED_BITS);
     Some [(\<lambda>s. ucast (l_fx_efx_ncob_ecob_exp_flags s), \<lambda>v s. s\<lparr>l_fx_efx_ncob_ecob_exp_flags := ucast v\<rparr>, setup_exp_flags),
       (l_fx_efx_ncob_ecob_fx, \<lambda>v s. s\<lparr>l_fx_efx_ncob_ecob_fx := v\<rparr>, setup_fx),
       (l_fx_efx_ncob_ecob_ncob_x, \<lambda>v s. s\<lparr>l_fx_efx_ncob_ecob_ncob_x := v\<rparr>, setup_ncob),
       (l_fx_efx_ncob_ecob_ncob_y, \<lambda>v s. s\<lparr>l_fx_efx_ncob_ecob_ncob_y := v\<rparr>, setup_ncob),
       (l_fx_efx_ncob_ecob_efx, \<lambda>v s. s\<lparr>l_fx_efx_ncob_ecob_efx := v\<rparr>, setup_efx),
       (l_fx_efx_ncob_ecob_ecob_x, \<lambda>v s. s\<lparr>l_fx_efx_ncob_ecob_ecob_x := v\<rparr>, setup_ecob),
       (l_fx_efx_ncob_ecob_ecob_y, \<lambda>v s. s\<lparr>l_fx_efx_ncob_ecob_ecob_y := v\<rparr>, setup_ecob),
       (l_fx_efx_ncob_ecob_fx_variance, \<lambda>v s. s\<lparr>l_fx_efx_ncob_ecob_fx_variance := v\<rparr>, setup_fx_var),
       (l_fx_efx_ncob_ecob_cob_x_variance, \<lambda>v s. s\<lparr>l_fx_efx_ncob_ecob_cob_x_variance := v\<rparr>, setup_cob_var),
       (l_fx_efx_ncob_ecob_cob_y_variance, \<lambda>v s. s\<lparr>l_fx_efx_ncob_ecob_cob_y_variance := v\<rparr>, setup_cob_var)]
   }"

definition decompress_l_fx_efx_ncob_ecob ::
  "cmp_cfg \<Rightarrow> l_fx_efx_ncob_ecob list \<Rightarrow> l_fx_efx_ncob_ecob model_mem \<Rightarrow> bit_decoder \<Rightarrow> l_fx_efx_ncob_ecob decompress_result" where
  "decompress_l_fx_efx_ncob_ecob cfg =
     decompress_with (l_fx_efx_ncob_ecob_decode_fields cfg) (l_fx_efx_ncob_ecob_up_model (model_value cfg) (round_par cfg)) l_fx_efx_ncob_ecob_zero cfg"

definition offset_decode_fields :: "cmp_cfg \<Rightarrow> offset_entry decode_field list option" where
  "offset_decode_fields cfg = do {
     let mean_bits_used = (if data_type cfg = DATA_TYPE_F_CAM_OFFSET then bits_fc_offset_mean MAX_USED_BITS else bits_nc_offset_mean MAX_USED_BITS);
     let variance_bits_used = (if data_type cfg = DATA_TYPE_F_CAM_OFFSET then bits_fc_offset_variance MAX_USED_BITS else bits_nc_offset_variance MAX_USED_BITS);
     setup_mean \<leftarrow> configure_decoder_setup (cmp_mode cfg) (cmp_par_offset_mean cfg) (spill_offset_mean cfg)
       (round_par cfg) mean_bits_used;
     setup_var \<leftarrow> configure_decoder_setup (cmp_mode cfg) (cmp_par_offset_variance cfg) (spill_offset_variance cfg)
       (round_par cfg) variance_bits_used;
     Some [(off_mean, \<lambda>v s. s\<lparr>off_mean := v\<rparr>, setup_mean),
       (off_variance, \<lambda>v s. s\<lparr>off_variance := v\<rparr>, setup_var)]
   }"

definition decompress_offset ::
  "cmp_cfg \<Rightarrow> offset_entry list \<Rightarrow> offset_entry model_mem \<Rightarrow> bit_decoder \<Rightarrow> offset_entry decompress_result" where
  "decompress_offset cfg =
     decompress_with (offset_decode_fields cfg) (offset_up_model (model_value cfg) (round_par cfg)) offset_zero cfg"

definition background_decode_fields :: "cmp_cfg \<Rightarrow> background_entry decode_field list option" where
  "background_decode_fields cfg = do {
     let mean_used_bits = (if data_type cfg = DATA_TYPE_F_CAM_BACKGROUND then bits_fc_background_mean MAX_USED_BITS else bits_nc_background_mean MAX_USED_BITS);
     let variance_used_bits = (if data_type cfg = DATA_TYPE_F_CAM_BACKGROUND then bits_fc_background_variance MAX_USED_BITS else bits_nc_background_variance MAX_USED_BITS);
     let pixels_error_used_bits = (if data_type cfg = DATA_TYPE_F_CAM_BACKGROUND then bits_fc_background_outlier_pixels MAX_USED_BITS else bits_nc_background_outlier_pixels MAX_USED_BITS);
     setup_mean \<leftarrow> configure_decoder_setup (cmp_mode cfg) (cmp_par_background_mean cfg) (spill_background_mean cfg)
       (round_par cfg) mean_used_bits;
     setup_var \<leftarrow> configure_decoder_setup (cmp_mode cfg) (cmp_par_background_variance cfg) (spill_background_variance cfg)
       (round_par cfg) variance_used_bits;
     setup_pix \<leftarrow> configure_decoder_setup (cmp_mode cfg) (cmp_par_background_pixels_error cfg) (spill_background_pixels_error cfg)
       (round_par cfg) pixels_error_used_bits;
     Some [(bkg_mean, \<lambda>v s. s\<lparr>bkg_mean := v\<rparr>, setup_mean),
       (bkg_variance, \<lambda>v s. s\<lparr>bkg_variance := v\<rparr>, setup_var),
       (\<lambda>s. ucast (bkg_outlier_pixels s), \<lambda>v s. s\<lparr>bkg_outlier_pixels := ucast v\<rparr>, setup_pix)]
   }"

definition decompress_background ::
  "cmp_cfg \<Rightarrow> background_entry list \<Rightarrow> background_entry model_mem \<Rightarrow> bit_decoder \<Rightarrow> background_entry decompress_result" where
  "decompress_background cfg =
     decompress_with (background_decode_fields cfg) (background_up_model (model_value cfg) (round_par cfg)) background_zero cfg"

definition smearing_decode_fields :: "cmp_cfg \<Rightarrow> smearing_entry decode_field list option" where
  "smearing_decode_fields cfg = do {
     setup_mean \<leftarrow> configure_decoder_setup (cmp_mode cfg) (cmp_par_smearing_mean cfg) (spill_smearing_mean cfg)
       (round_par cfg) (bits_smearing_mean MAX_USED_BITS);
     setup_var \<leftarrow> configure_decoder_setup (cmp_mode cfg) (cmp_par_smearing_variance cfg) (spill_smearing_variance cfg)
       (round_par cfg) (bits_smearing_variance_mean MAX_USED_BITS);
     setup_pix \<leftarrow> configure_decoder_setup (cmp_mode cfg) (cmp_par_smearing_pixels_error cfg) (spill_smearing_pixels_error cfg)
       (round_par cfg) (bits_smearing_outlier_pixels MAX_USED_BITS);
     Some [(smr_mean, \<lambda>v s. s\<lparr>smr_mean := v\<rparr>, setup_mean),
       (smr_variance_mean, \<lambda>v s. s\<lparr>smr_variance_mean := v\<rparr>, setup_var),
       (\<lambda>s. ucast (smr_outlier_pixels s), \<lambda>v s. s\<lparr>smr_outlier_pixels := ucast v\<rparr>, setup_pix)]
   }"

definition decompress_smearing ::
  "cmp_cfg \<Rightarrow> smearing_entry list \<Rightarrow> smearing_entry model_mem \<Rightarrow> bit_decoder \<Rightarrow> smearing_entry decompress_result" where
  "decompress_smearing cfg =
     decompress_with (smearing_decode_fields cfg) (smearing_up_model (model_value cfg) (round_par cfg)) smearing_zero cfg"

end
