(* ===== verification/Collection_Codec.thy ===== *)
theory Collection_Codec
  imports Compress_Internal Collection_Decompress
begin

text \<open>
  Every sample type as a codec of collections: what the checks of the configuration establish
  for the field tables of the compressor and of the decompressor, and what follows for the bytes
  of the stream, the data and the models.
\<close>

section \<open>Checked configurations\<close>

text \<open>The checks of the parameters that both the compressor and the decompressor make.\<close>

definition cfg_valid :: "cmp_cfg \<Rightarrow> bool" where
  "cfg_valid cfg \<longleftrightarrow> cmp_cfg_gen_par_is_invalid (Some cfg) = 0 \<and>
     (if cmp_imagette_data_type_is_used (data_type cfg) then cmp_cfg_imagette_is_invalid (Some cfg)
      else if cmp_fx_cob_data_type_is_used (data_type cfg) then cmp_cfg_fx_cob_is_invalid (Some cfg)
      else cmp_cfg_aux_is_invalid (Some cfg)) = 0"

text \<open>Two configurations that differ at most in the number of samples and the stream size.\<close>

definition same_coding :: "cmp_cfg \<Rightarrow> cmp_cfg \<Rightarrow> bool" where
  "same_coding cfg cfg' \<longleftrightarrow> cfg'\<lparr>samples := 0, stream_size := 0\<rparr> = cfg\<lparr>samples := 0, stream_size := 0\<rparr>"

lemma same_coding_eqs:
  assumes "same_coding cfg cfg'"
  shows "data_type cfg' = data_type cfg" "cmp_mode cfg' = cmp_mode cfg" "model_value cfg' = model_value cfg"
    "round_par cfg' = round_par cfg" "cmp_par_1 cfg' = cmp_par_1 cfg" "spill_par_1 cfg' = spill_par_1 cfg"
    "cmp_par_2 cfg' = cmp_par_2 cfg" "spill_par_2 cfg' = spill_par_2 cfg"
    "cmp_par_3 cfg' = cmp_par_3 cfg" "spill_par_3 cfg' = spill_par_3 cfg"
    "cmp_par_4 cfg' = cmp_par_4 cfg" "spill_par_4 cfg' = spill_par_4 cfg"
    "cmp_par_5 cfg' = cmp_par_5 cfg" "spill_par_5 cfg' = spill_par_5 cfg"
    "cmp_par_6 cfg' = cmp_par_6 cfg" "spill_par_6 cfg' = spill_par_6 cfg"
  using assms unfolding same_coding_def
  by (cases cfg; cases cfg'; simp)+

lemma cmp_pars_valid:
  "cmp_pars_are_invalid m s mode = 0 \<Longrightarrow> mode \<noteq> CMP_MODE_RAW \<Longrightarrow> valid_pars m s"
  by (cases mode)
    (auto simp: cmp_pars_are_invalid_def valid_pars_def limits word_le_nat_alt word_less_nat_alt split: if_splits)

lemma cfg_valid_mode:
  "cfg_valid cfg \<Longrightarrow> cmp_mode cfg \<noteq> CMP_MODE_RAW \<Longrightarrow>
     zero_escape_mech_is_used (cmp_mode cfg) \<or> multi_escape_mech_is_used (cmp_mode cfg)"
  by (cases "cmp_mode cfg")
    (auto simp: cfg_valid_def cmp_cfg_gen_par_is_invalid_def cmp_mode_is_supported_def
      zero_escape_mech_is_used_def multi_escape_mech_is_used_def split: if_splits)

text \<open>The parameters that the fields of each data type use are valid.\<close>

lemma cfg_valid_pars:
  assumes "cfg_valid cfg" and "cmp_mode cfg \<noteq> CMP_MODE_RAW"
  shows "cmp_imagette_data_type_is_used (data_type cfg) \<Longrightarrow> valid_pars (cmp_par_1 cfg) (spill_par_1 cfg)"
    and "data_type cfg \<in> {DATA_TYPE_S_FX, DATA_TYPE_S_FX_EFX, DATA_TYPE_S_FX_NCOB, DATA_TYPE_S_FX_EFX_NCOB_ECOB,
        DATA_TYPE_L_FX, DATA_TYPE_L_FX_EFX, DATA_TYPE_L_FX_NCOB, DATA_TYPE_L_FX_EFX_NCOB_ECOB} \<Longrightarrow>
      valid_pars (cmp_par_1 cfg) (spill_par_1 cfg) \<and> valid_pars (cmp_par_2 cfg) (spill_par_2 cfg)"
    and "data_type cfg \<in> {DATA_TYPE_S_FX_NCOB, DATA_TYPE_S_FX_EFX_NCOB_ECOB,
        DATA_TYPE_L_FX_NCOB, DATA_TYPE_L_FX_EFX_NCOB_ECOB} \<Longrightarrow> valid_pars (cmp_par_3 cfg) (spill_par_3 cfg)"
    and "data_type cfg \<in> {DATA_TYPE_S_FX_EFX, DATA_TYPE_S_FX_EFX_NCOB_ECOB,
        DATA_TYPE_L_FX_EFX, DATA_TYPE_L_FX_EFX_NCOB_ECOB} \<Longrightarrow> valid_pars (cmp_par_4 cfg) (spill_par_4 cfg)"
    and "data_type cfg \<in> {DATA_TYPE_S_FX_EFX_NCOB_ECOB, DATA_TYPE_L_FX_EFX_NCOB_ECOB} \<Longrightarrow>
      valid_pars (cmp_par_5 cfg) (spill_par_5 cfg)"
    and "data_type cfg \<in> {DATA_TYPE_L_FX, DATA_TYPE_L_FX_EFX, DATA_TYPE_L_FX_NCOB, DATA_TYPE_L_FX_EFX_NCOB_ECOB} \<Longrightarrow>
      valid_pars (cmp_par_6 cfg) (spill_par_6 cfg)"
    and "data_type cfg \<in> {DATA_TYPE_OFFSET, DATA_TYPE_F_CAM_OFFSET} \<Longrightarrow>
      valid_pars (cmp_par_2 cfg) (spill_par_2 cfg) \<and> valid_pars (cmp_par_3 cfg) (spill_par_3 cfg)"
    and "data_type cfg \<in> {DATA_TYPE_BACKGROUND, DATA_TYPE_F_CAM_BACKGROUND, DATA_TYPE_SMEARING} \<Longrightarrow>
      valid_pars (cmp_par_4 cfg) (spill_par_4 cfg) \<and> valid_pars (cmp_par_5 cfg) (spill_par_5 cfg) \<and>
      valid_pars (cmp_par_6 cfg) (spill_par_6 cfg)"
  using assms cmp_pars_valid [OF _ assms(2)]
  by (cases "data_type cfg"; simp add: cfg_valid_def cmp_imagette_data_type_is_used_def
      rdcu_supported_data_type_is_used_def cmp_fx_cob_data_type_is_used_def cmp_cfg_imagette_is_invalid_def
      cmp_cfg_fx_cob_is_invalid_def cmp_cfg_fx_cob_get_need_pars_def Let_def cmp_cfg_aux_is_invalid_def)+

lemma fits_setup_bits:
  "unat v < 2 ^ unat (max_data_bits s) \<Longrightarrow> fits_setup s v"
  by (simp add: fits_setup_def round_fwd_def unat_drop_bit) (meson div_le_dividend order_le_less_trans)

section \<open>Decompression at the pointers\<close>

text \<open>
  The routines of the decompressor see the data, model and updated model as arrays of samples;
  the pointers are those behind the collection header.
\<close>

definition run_decoder ::
  "bool \<Rightarrow> 's accessors \<Rightarrow> nat list \<Rightarrow> 's \<Rightarrow>
     ('s list \<Rightarrow> 's model_mem \<Rightarrow> bit_decoder \<Rightarrow> 's decompress_result) \<Rightarrow>
     cmp_bufs \<Rightarrow> bit_decoder \<Rightarrow> (int \<times> cmp_bufs \<times> bit_decoder) option" where
  "run_decoder big acc layout zero f b dec =
     (let rd = read_samples big acc layout zero; wr = write_samples big acc layout
      in do {
        (err, data, mem, dec) \<leftarrow> f (rd (bytes_at (dst b))) (rd (bytes_at (model_buf b)), up_target rd b) dec;
        Some (err, put_model_mem wr mem
          (b\<lparr>dst := with_bytes (wr data (bytes_at (dst b))) (dst b)\<rparr>), dec)
      })"

section \<open>What the routines of a type compute\<close>

text \<open>
  The code of the data \<open>s\<close> with the model \<open>m\<close>, the updated model, and the data after lossy
  compression, as bytes.
\<close>

definition codes_of ::
  "bool \<Rightarrow> 's accessors \<Rightarrow> nat list \<Rightarrow> 's \<Rightarrow> (cmp_cfg \<Rightarrow> 's encode_field list) \<Rightarrow> cmp_cfg \<Rightarrow>
     buffer \<Rightarrow> buffer \<Rightarrow> bool list" where
  "codes_of big acc layout zero fs cfg s m =
     (let data = read_samples big acc layout zero s
      in collection_bits (fs cfg)
        (sample_models (model_mode_is_used (cmp_mode cfg)) zero (read_samples big acc layout zero m) ((!) data))
        data (unat (samples cfg)))"

definition next_model_of ::
  "bool \<Rightarrow> 's accessors \<Rightarrow> nat list \<Rightarrow> 's \<Rightarrow> (u32 \<Rightarrow> u32 \<Rightarrow> 's \<Rightarrow> 's \<Rightarrow> 's) \<Rightarrow> cmp_cfg \<Rightarrow> buffer \<Rightarrow> buffer \<Rightarrow> buffer" where
  "next_model_of big acc layout zero up cfg s m =
     concat (map (\<lambda>j. bytes_of_sample big acc layout
       (up (model_value cfg) (round_par cfg) (read_samples big acc layout zero s ! j)
         (read_samples big acc layout zero m ! j))) [0..<unat (samples cfg)])"

definition lossy_of ::
  "bool \<Rightarrow> 's accessors \<Rightarrow> nat list \<Rightarrow> 's \<Rightarrow> cmp_cfg \<Rightarrow> buffer \<Rightarrow> buffer" where
  "lossy_of big acc layout zero cfg s =
     concat (map (\<lambda>j. bytes_of_sample big acc layout
       (restore acc (round_par cfg) (read_samples big acc layout zero s ! j)
         (read_samples big acc layout zero s ! j))) [0..<unat (samples cfg)])"

record type_ops =
  op_compress :: "cmp_cfg \<Rightarrow> cmp_bufs \<Rightarrow> u32 \<Rightarrow> (u32 \<times> cmp_bufs) option"
  op_decompress :: "cmp_cfg \<Rightarrow> cmp_bufs \<Rightarrow> bit_decoder \<Rightarrow> (int \<times> cmp_bufs \<times> bit_decoder) option"
  op_codes :: "cmp_cfg \<Rightarrow> buffer \<Rightarrow> buffer \<Rightarrow> bool list"
  op_next_model :: "cmp_cfg \<Rightarrow> buffer \<Rightarrow> buffer \<Rightarrow> buffer"
  op_lossy :: "cmp_cfg \<Rightarrow> buffer \<Rightarrow> buffer"

definition ops_of ::
  "bool \<Rightarrow> 's accessors \<Rightarrow> nat list \<Rightarrow> 's \<Rightarrow> (u32 \<Rightarrow> u32 \<Rightarrow> 's \<Rightarrow> 's \<Rightarrow> 's) \<Rightarrow> (cmp_cfg \<Rightarrow> 's encode_field list) \<Rightarrow>
     (cmp_cfg \<Rightarrow> 's decode_field list option) \<Rightarrow> type_ops" where
  "ops_of big acc layout zero up fs ds = \<lparr>
     op_compress = \<lambda>cfg. run_samples big acc layout zero
       (compress_samples (fs cfg) (up (model_value cfg) (round_par cfg)) zero cfg),
     op_decompress = \<lambda>cfg. run_decoder big acc layout zero
       (decompress_with (ds cfg) (up (model_value cfg) (round_par cfg)) zero cfg),
     op_codes = codes_of big acc layout zero fs,
     op_next_model = next_model_of big acc layout zero up,
     op_lossy = lossy_of big acc layout zero\<rparr>"

text \<open>Buffers that hold \<open>n\<close> bytes of data and, where they are used, of models.\<close>

definition models_ok :: "nat \<Rightarrow> cmp_cfg \<Rightarrow> cmp_bufs \<Rightarrow> bool" where
  "models_ok n cfg b \<longleftrightarrow>
     (model_mode_is_used (cmp_mode cfg) \<longrightarrow> n \<le> length (bytes_at (model_buf b)) \<and>
       (updated_model_buf b \<noteq> None \<longrightarrow> n \<le> length (bytes_at (updated_model_buf b)))) \<and>
     (in_place b \<longrightarrow> bytes_at (updated_model_buf b) = bytes_at (model_buf b))"

text \<open>The buffers after a call that changed at most the first \<open>n\<close> bytes of the updated model.\<close>

definition model_frame :: "nat \<Rightarrow> cmp_bufs \<Rightarrow> cmp_bufs \<Rightarrow> bool" where
  "model_frame n b b' \<longleftrightarrow> (\<exists>bs. b'\<lparr>dst := dst b\<rparr> = set_updated_model bs b \<and>
     map_option fst (dst b') = map_option fst (dst b) \<and>
     length bs = length (bytes_at (updated_model_buf b)) \<and>
     drop n bs = drop n (bytes_at (updated_model_buf b)))"

text \<open>The updated model after a call that succeeded.\<close>

definition with_next_model :: "nat \<Rightarrow> cmp_cfg \<Rightarrow> buffer \<Rightarrow> cmp_bufs \<Rightarrow> cmp_bufs" where
  "with_next_model n cfg next b =
     (if model_mode_is_used (cmp_mode cfg)
      then set_updated_model (next @ drop n (bytes_at (updated_model_buf b))) b else b)"

lemma with_bytes_same [simp]: "with_bytes (bytes_at p) p = p"
  by (cases p) (auto simp: with_bytes_def bytes_at_def)

lemma with_bytes_None [simp]: "with_bytes bs None = None"
  by (simp add: with_bytes_def)

lemma bytes_at_with_bytes: "bytes_at (with_bytes bs p) = (if p = None then [] else bs)"
  by (cases p) (auto simp: with_bytes_def bytes_at_def)

lemma with_bytes_twice [simp]: "with_bytes bs (with_bytes cs p) = with_bytes bs p"
  by (cases p) (auto simp: with_bytes_def)

lemma fst_with_bytes [simp]: "map_option fst (with_bytes bs p) = map_option fst p"
  by (cases p) (auto simp: with_bytes_def)

lemma with_bytes_eq_None [simp]: "with_bytes bs p = None \<longleftrightarrow> p = None"
  by (simp add: with_bytes_def)

lemma set_updated_same:
  "models_ok n cfg b \<Longrightarrow> set_updated_model (bytes_at (updated_model_buf b)) b = b"
  by (cases b) (auto simp: set_updated_model_def models_ok_def Let_def with_bytes_same)

lemma in_place_dst [simp]: "in_place (b\<lparr>dst := p\<rparr>) = in_place b"
  by (simp add: in_place_def)

lemma set_updated_dst: "set_updated_model bs (b\<lparr>dst := p\<rparr>) = (set_updated_model bs b)\<lparr>dst := p\<rparr>"
  by (simp add: set_updated_model_def Let_def)

lemma dst_set_updated [simp]: "dst (set_updated_model bs b) = dst b"
  by (simp add: set_updated_model_def Let_def)

lemma dst_put_model_mem [simp]: "dst (put_model_mem wr mem b) = dst b"
  by (auto simp: put_model_mem_def split: prod.split up_target.split)

lemma put_model_mem_dst:
  "(put_model_mem wr mem (b\<lparr>dst := p\<rparr>))\<lparr>dst := q\<rparr> = (put_model_mem wr mem b)\<lparr>dst := q\<rparr>"
  "(put_model_mem wr mem b)\<lparr>dst := dst b\<rparr> = put_model_mem wr mem b"
  by (auto simp: put_model_mem_def set_updated_dst split: prod.split up_target.split)

section \<open>The interface of a sample type\<close>

locale collection_codec =
  sample_codec acc up + sample_view acc layout zero
  for acc :: "'s accessors" and up :: "u32 \<Rightarrow> u32 \<Rightarrow> 's \<Rightarrow> 's \<Rightarrow> 's" and layout :: "nat list" and zero :: 's +
  fixes types :: "cmp_data_type set"
    and fields :: "cmp_cfg \<Rightarrow> 's encode_field list"
    and dfields :: "cmp_cfg \<Rightarrow> 's decode_field list option"
  assumes layout_of: "t \<in> types \<Longrightarrow> sample_layout t = layout"
    and fields_valid: "data_type cfg \<in> types \<Longrightarrow> cfg_valid cfg \<Longrightarrow> cmp_mode cfg \<noteq> CMP_MODE_RAW \<Longrightarrow>
      fields_ok (cmp_stream_size_to_bits (stream_size cfg)) (fields cfg)"
    and fields_fit: "sample_fits (fields cfg) s"
    and fields_acc: "map fst (fields cfg) = map fst acc"
    and fields_coding: "same_coding cfg cfg' \<Longrightarrow> sample_bits (fields cfg') = sample_bits (fields cfg)"
    and fields_match: "data_type cfg \<in> types \<Longrightarrow> cfg_valid cfg \<Longrightarrow> cmp_mode cfg \<noteq> CMP_MODE_RAW \<Longrightarrow>
      same_coding cfg cfg' \<Longrightarrow>
      \<exists>ds. dfields cfg' = Some ds \<and> accessors ds = acc \<and> fields_match (round_par cfg) (fields cfg) ds"
begin

abbreviation "sz \<equiv> sum_list layout"
abbreviation "rd big \<equiv> read_samples big acc layout zero"
abbreviation "wr big \<equiv> write_samples big acc layout"
abbreviation "enc big \<equiv> bytes_of_sample big acc layout"

lemma layout_size_of: "t \<in> types \<Longrightarrow> size_of_a_sample t = sz"
  by (simp add: size_of_a_sample_def layout_of)

lemma write_read [simp]: "wr big (rd big bs) bs = bs"
  using store_load by (simp add: write_samples_def read_samples_def)

lemma length_enc: "length (concat (map (enc big) ss)) = length ss * sz"
  by (rule length_concat_chunks) (simp add: length_bytes_of_sample)

lemma read_samples_prefix:
  assumes "n * sz \<le> length bs" and "i < n"
  shows "rd big bs ! i = sample_of_bytes big acc layout zero (take sz (drop (i * sz) bs))"
proof -
  have "n \<le> length bs div sz" using assms(1) layout_pos by (simp add: less_eq_div_iff_mult_less_eq)
  then have "i < length bs div sz" using assms(2) by simp
  then show ?thesis by (simp add: read_samples_def load_samples_def)
qed

lemma length_read: "length (rd big bs) = length bs div sz"
  by (simp add: read_samples_def)

lemma length_read_ge: "n * sz \<le> length bs \<Longrightarrow> n \<le> length (rd big bs)"
  using layout_pos by (simp add: length_read less_eq_div_iff_mult_less_eq)

lemma write_prefix:
  assumes len: "length ss = length (rd big bs)" and rest: "drop n ss = drop n (rd big bs)"
    and n: "n * sz \<le> length bs"
  shows "wr big ss bs = concat (map (enc big) (take n ss)) @ drop (n * sz) bs"
proof -
  let ?rs = "rd big bs"
  have nl: "n \<le> length ?rs" by (rule length_read_ge [OF n])
  have split: "concat (map (enc big) xs) = concat (map (enc big) (take n xs)) @ concat (map (enc big) (drop n xs))" for xs
    by (metis append_take_drop_id concat_append map_append)
  have "bs = concat (map (enc big) ?rs) @ drop (length ?rs * sz) bs"
    using write_read [of big bs] by (simp add: write_samples_def store_samples_def)
  then have "bs = concat (map (enc big) (take n ?rs)) @ concat (map (enc big) (drop n ?rs)) @ drop (length ?rs * sz) bs"
    by (subst (asm) split) simp
  then have "drop (n * sz) bs = concat (map (enc big) (drop n ?rs)) @ drop (length ?rs * sz) bs"
    using length_enc [of big "take n ?rs"] nl by (metis append_eq_conv_conj length_take min_absorb2)
  then show ?thesis
    using len rest split [of ss] by (simp add: write_samples_def store_samples_def)
qed

lemma write_store_range:
  assumes "n * sz \<le> length bs"
  shows "wr big (store_range 0 n f (rd big bs)) bs = concat (map (\<lambda>j. enc big (f j)) [0..<n]) @ drop (n * sz) bs"
proof -
  have "n \<le> length (rd big bs)" by (rule length_read_ge [OF assms])
  then show ?thesis
    using write_prefix [of "store_range 0 n f (rd big bs)" big bs n] assms
    by (simp add: store_range_def comp_def)
qed

lemma length_write: "length ss = length (rd big bs) \<Longrightarrow> length (wr big ss bs) = length bs"
proof -
  assume len: "length ss = length (rd big bs)"
  have "length (rd big bs) * sz \<le> length bs" by (simp add: length_read)
  then show ?thesis using len by (simp add: write_samples_def store_samples_def length_enc)
qed

lemma drop_write:
  assumes "length ss = length (rd big bs)" and "drop n ss = drop n (rd big bs)" and "n * sz \<le> length bs"
  shows "drop (n * sz) (wr big ss bs) = drop (n * sz) bs"
  using write_prefix [OF assms] length_read_ge [OF assms(3), of big] assms(1) by (simp add: length_enc)

text \<open>The model buffers after a call.\<close>

abbreviation "mem_of big b \<equiv> (rd big (bytes_at (model_buf b)), up_target (rd big) b)"

lemma mem_ok_bufs:
  "models_ok (n * sz) cfg b \<Longrightarrow> model_mode_is_used (cmp_mode cfg) \<Longrightarrow> mem_ok n (mem_of big b)"
  using length_read_ge
  by (cases "updated_model_buf b") (auto simp: models_ok_def up_target_def bytes_at_def split: option.splits)

lemma put_same: "models_ok n cfg b \<Longrightarrow> put_model_mem (wr big) (mem_of big b) b = b"
  using set_updated_same [of n cfg b]
  by (cases "updated_model_buf b") (auto simp: put_model_mem_def up_target_def bytes_at_def models_ok_def write_read
      dest: arg_cong [where f = "wr big _"])

lemma put_final:
  assumes "models_ok (n * sz) cfg b"
  shows "put_model_mem (wr big) (final_mem (model_mode_is_used (cmp_mode cfg)) 0 n f (mem_of big b)) b =
    with_next_model (n * sz) cfg (concat (map (\<lambda>j. enc big (f j)) [0..<n])) b"
proof (cases "model_mode_is_used (cmp_mode cfg)")
  case True
  show ?thesis
  proof (cases "updated_model_buf b")
    case None
    then have "set_updated_model bs b = b" for bs by (cases b) (simp add: set_updated_model_def in_place_def Let_def)
    then show ?thesis using True None by (simp add: final_mem_def up_target_def put_model_mem_def with_next_model_def)
  next
    case (Some p)
    obtain a bs where p: "updated_model_buf b = Some (a, bs)" using Some by (cases p) auto
    have len: "n * sz \<le> length (bytes_at (model_buf b))" "n * sz \<le> length bs"
      and same: "in_place b \<Longrightarrow> bytes_at (model_buf b) = bs"
      using assms True p by (auto simp: models_ok_def bytes_at_def)
    show ?thesis
      using True p write_store_range [OF len(1), of big f] write_store_range [OF len(2), of big f] same
      by (cases "in_place b")
        (simp_all add: final_mem_def up_target_def put_model_mem_def with_next_model_def bytes_at_def)
  qed
next
  case False
  then show ?thesis using put_same [OF assms] by (simp add: final_mem_def with_next_model_def)
qed

lemma put_frame:
  assumes ok: "models_ok (n * sz) cfg b" and um: "model_mode_is_used (cmp_mode cfg)"
    and fr: "mem_frame n (mem_of big b) mem'"
  shows "\<exists>bs. put_model_mem (wr big) mem' b = set_updated_model bs b \<and>
    length bs = length (bytes_at (updated_model_buf b)) \<and>
    drop (n * sz) bs = drop (n * sz) (bytes_at (updated_model_buf b))"
proof (cases "updated_model_buf b")
  case None
  then have "put_model_mem (wr big) mem' b = set_updated_model (bytes_at (updated_model_buf b)) b"
    using fr set_updated_same [OF ok] by (cases mem') (simp add: up_target_def put_model_mem_def)
  then show ?thesis by blast
next
  case (Some p)
  obtain a bs where p: "updated_model_buf b = Some (a, bs)" using Some by (cases p) auto
  have len: "n * sz \<le> length (bytes_at (model_buf b))" "n * sz \<le> length bs"
    and same: "in_place b \<Longrightarrow> bytes_at (model_buf b) = bs"
    using ok um p by (auto simp: models_ok_def bytes_at_def)
  obtain mb t where m: "mem' = (mb, t)" by fastforce
  show ?thesis
  proof (cases "in_place b")
    case True
    then have fr': "t = Up_in_place" "length mb = length (rd big bs)" "drop n mb = drop n (rd big bs)"
      using fr m p same by (simp_all add: up_target_def)
    then have "put_model_mem (wr big) mem' b = set_updated_model (wr big mb bs) b"
      using m same [OF True] by (simp add: put_model_mem_def)
    then show ?thesis using length_write [OF fr'(2)] drop_write [OF fr'(2,3) len(2)] p by (auto simp: bytes_at_def)
  next
    case False
    then obtain ub where fr': "t = Up_model ub" "length ub = length (rd big bs)" "drop n ub = drop n (rd big bs)"
      using fr m p by (auto simp: up_target_def)
    then have "put_model_mem (wr big) mem' b = set_updated_model (wr big ub bs) b"
      using m p by (simp add: put_model_mem_def bytes_at_def)
    then show ?thesis using length_write [OF fr'(2)] drop_write [OF fr'(2,3) len(2)] p by (auto simp: bytes_at_def)
  qed
qed

end

end
