(* ===== verification/Collection_Laws.thy ===== *)
theory Collection_Laws
  imports Collection_Codec
begin

text \<open>
  The contract between the collections and the routines of a sample type, and the proof that every
  codec of collections keeps it: the compression appends the code of the data, whatever happens
  only the updated model changes beside the stream, and the decompression of the code gives back
  the data and the updated model.
\<close>

section \<open>The contract\<close>

definition data_bytes :: "cmp_cfg \<Rightarrow> nat" where
  "data_bytes cfg = unat (samples cfg) * size_of_a_sample (data_type cfg)"

text \<open>The bytes of the model that the routines may change.\<close>

definition model_bytes :: "cmp_cfg \<Rightarrow> nat" where
  "model_bytes cfg = (if model_mode_is_used (cmp_mode cfg) then data_bytes cfg else 0)"

definition coding_cfg :: "cmp_cfg \<Rightarrow> bool" where
  "coding_cfg cfg \<longleftrightarrow> cfg_valid cfg \<and> cmp_mode cfg \<noteq> CMP_MODE_RAW \<and> samples cfg \<noteq> 0"

text \<open>The bytes of the data and of the model of a call.\<close>

definition same_input :: "cmp_cfg \<Rightarrow> buffer \<Rightarrow> buffer \<Rightarrow> buffer \<Rightarrow> buffer \<Rightarrow> bool" where
  "same_input cfg s m s' m' \<longleftrightarrow>
     data_bytes cfg \<le> length s \<and> take (data_bytes cfg) s' = take (data_bytes cfg) s \<and>
     (model_mode_is_used (cmp_mode cfg) \<longrightarrow>
       data_bytes cfg \<le> length m \<and> take (data_bytes cfg) m' = take (data_bytes cfg) m)"

definition stream_written :: "(u32 \<times> cmp_bufs) option \<Rightarrow> write_result" where
  "stream_written r = map_option (\<lambda>(l, b). (l, map_option snd (dst b))) r"

locale type_codec =
  fixes ops :: "cmp_data_type \<Rightarrow> type_ops" and types :: "cmp_data_type set"
  assumes codes_cong: "data_type cfg \<in> types \<Longrightarrow> same_input cfg s m s' m' \<Longrightarrow>
      op_codes (ops (data_type cfg)) cfg s' m' = op_codes (ops (data_type cfg)) cfg s m"
    and next_model_cong: "data_type cfg \<in> types \<Longrightarrow> same_input cfg s m s' m' \<Longrightarrow>
      model_mode_is_used (cmp_mode cfg) \<Longrightarrow>
      op_next_model (ops (data_type cfg)) cfg s' m' = op_next_model (ops (data_type cfg)) cfg s m"
    and codes_coding: "same_coding cfg cfg' \<Longrightarrow> samples cfg' = samples cfg \<Longrightarrow> data_type cfg \<in> types \<Longrightarrow>
      op_codes (ops (data_type cfg)) cfg' s m = op_codes (ops (data_type cfg)) cfg s m"
    and next_model_coding: "same_coding cfg cfg' \<Longrightarrow> samples cfg' = samples cfg \<Longrightarrow> data_type cfg \<in> types \<Longrightarrow>
      op_next_model (ops (data_type cfg)) cfg' s m = op_next_model (ops (data_type cfg)) cfg s m"
    and length_next_model: "data_type cfg \<in> types \<Longrightarrow>
      length (op_next_model (ops (data_type cfg)) cfg s m) = data_bytes cfg"
    and length_lossy: "data_type cfg \<in> types \<Longrightarrow> length (op_lossy (ops (data_type cfg)) cfg s) = data_bytes cfg"
    and lossless: "data_type cfg \<in> types \<Longrightarrow> round_par cfg = 0 \<Longrightarrow> data_bytes cfg \<le> length s \<Longrightarrow>
      op_lossy (ops (data_type cfg)) cfg s = take (data_bytes cfg) s"
    and compress_writes: "data_type cfg \<in> types \<Longrightarrow> coding_cfg cfg \<Longrightarrow>
      data_bytes cfg \<le> length (bytes_at (src b)) \<Longrightarrow> models_ok (data_bytes cfg) cfg b \<Longrightarrow>
      wrote (op_codes (ops (data_type cfg)) cfg (bytes_at (src b)) (bytes_at (model_buf b))) off
        (cmp_stream_size_to_bits (stream_size cfg)) (map_option snd (dst b))
        (stream_written (op_compress (ops (data_type cfg)) cfg b off))"
    and compress_frame: "data_type cfg \<in> types \<Longrightarrow> coding_cfg cfg \<Longrightarrow> models_ok (data_bytes cfg) cfg b \<Longrightarrow>
      op_compress (ops (data_type cfg)) cfg b off = Some (l, b') \<Longrightarrow> model_frame (model_bytes cfg) b b'"
    and compress_models: "data_type cfg \<in> types \<Longrightarrow> coding_cfg cfg \<Longrightarrow>
      data_bytes cfg \<le> length (bytes_at (src b)) \<Longrightarrow> models_ok (data_bytes cfg) cfg b \<Longrightarrow>
      op_compress (ops (data_type cfg)) cfg b off = Some (l, b') \<Longrightarrow> \<not> cmp_is_error l \<Longrightarrow>
      b'\<lparr>dst := dst b\<rparr> = with_next_model (data_bytes cfg) cfg
        (op_next_model (ops (data_type cfg)) cfg (bytes_at (src b)) (bytes_at (model_buf b))) b"
    and decompress_reads: "data_type cfg \<in> types \<Longrightarrow> coding_cfg cfg \<Longrightarrow> same_coding cfg cfg' \<Longrightarrow>
      samples cfg' = samples cfg \<Longrightarrow> data_bytes cfg \<le> length s \<Longrightarrow> models_ok (data_bytes cfg) cfg b \<Longrightarrow>
      data_bytes cfg \<le> length (bytes_at (dst b)) \<Longrightarrow>
      ready_at dec (op_codes (ops (data_type cfg)) cfg s (bytes_at (model_buf b)) @ rest) \<Longrightarrow>
      \<exists>dec'. op_decompress (ops (data_type cfg)) cfg' b dec = Some (0, with_next_model (data_bytes cfg) cfg
          (op_next_model (ops (data_type cfg)) cfg s (bytes_at (model_buf b)))
          (b\<lparr>dst := with_bytes (op_lossy (ops (data_type cfg)) cfg s @ drop (data_bytes cfg) (bytes_at (dst b))) (dst b)\<rparr>), dec') \<and>
        ready_at dec' rest"
    and decompress_safe: "data_type cfg \<in> types \<Longrightarrow> coding_cfg cfg \<Longrightarrow> models_ok (data_bytes cfg) cfg b \<Longrightarrow>
      data_bytes cfg \<le> length (bytes_at (dst b)) \<Longrightarrow> reader_inv dec \<Longrightarrow>
      \<exists>err b' dec'. op_decompress (ops (data_type cfg)) cfg b dec = Some (err, b', dec') \<and> reader_inv dec' \<and>
        model_frame (model_bytes cfg) b b' \<and> length (bytes_at (dst b')) = length (bytes_at (dst b)) \<and>
        drop (data_bytes cfg) (bytes_at (dst b')) = drop (data_bytes cfg) (bytes_at (dst b))"

text \<open>Codecs of different types make up a codec of all of these types.\<close>

lemma type_codec_on:
  assumes "type_codec (\<lambda>_. f) T'" and "\<And>t. t \<in> T' \<Longrightarrow> ops t = f" and "t \<in> T'"
  shows "\<exists>f T'. t \<in> T' \<and> type_codec (\<lambda>_. f) T' \<and> ops t = f"
  using assms by blast

lemma type_codec_by_type:
  assumes codec: "\<And>t. t \<in> T \<Longrightarrow> \<exists>f T'. t \<in> T' \<and> type_codec (\<lambda>_. f) T' \<and> ops t = f"
  shows "type_codec ops T"
proof -
  have one: "\<exists>T'. t \<in> T' \<and> type_codec (\<lambda>_. ops t) T'" if "t \<in> T" for t using codec [OF that] by blast
  show ?thesis
  proof (unfold_locales, goal_cases)
    case (1 cfg s m s' m')
    then show ?case using one [OF 1(1)] type_codec.codes_cong by fastforce
  next
    case (2 cfg s m s' m')
    then show ?case using one [OF 2(1)] type_codec.next_model_cong by fastforce
  next
    case (3 cfg cfg' s m)
    then show ?case using one [OF 3(3)] type_codec.codes_coding by fastforce
  next
    case (4 cfg cfg' s m)
    then show ?case using one [OF 4(3)] type_codec.next_model_coding by fastforce
  next
    case (5 cfg s m)
    then show ?case using one [OF 5(1)] type_codec.length_next_model by fastforce
  next
    case (6 cfg s)
    then show ?case using one [OF 6(1)] type_codec.length_lossy by fastforce
  next
    case (7 cfg s)
    then show ?case using one [OF 7(1)] type_codec.lossless by fastforce
  next
    case (8 cfg b off)
    obtain T' where "data_type cfg \<in> T'" "type_codec (\<lambda>_. ops (data_type cfg)) T'" using one [OF 8(1)] by blast
    from type_codec.compress_writes [OF this(2,1) 8(2-4)] show ?case .
  next
    case (9 cfg b off l b')
    obtain T' where "data_type cfg \<in> T'" "type_codec (\<lambda>_. ops (data_type cfg)) T'" using one [OF 9(1)] by blast
    from type_codec.compress_frame [OF this(2,1) 9(2-4)] show ?case .
  next
    case (10 cfg b off l b')
    obtain T' where "data_type cfg \<in> T'" "type_codec (\<lambda>_. ops (data_type cfg)) T'" using one [OF 10(1)] by blast
    from type_codec.compress_models [OF this(2,1) 10(2-6)] show ?case .
  next
    case (11 cfg cfg' s b dec rest)
    obtain T' where "data_type cfg \<in> T'" "type_codec (\<lambda>_. ops (data_type cfg)) T'" using one [OF 11(1)] by blast
    from type_codec.decompress_reads [OF this(2,1) 11(2-8)] show ?case .
  next
    case (12 cfg b dec)
    obtain T' where "data_type cfg \<in> T'" "type_codec (\<lambda>_. ops (data_type cfg)) T'" using one [OF 12(1)] by blast
    from type_codec.decompress_safe [OF this(2,1) 12(2-5)] show ?case .
  qed
qed

section \<open>The codecs of collections keep the contract\<close>

context collection_codec begin

abbreviation "ops big \<equiv> ops_of big acc layout zero up fields dfields"

lemma data_bytes_eq: "data_type cfg \<in> types \<Longrightarrow> data_bytes cfg = unat (samples cfg) * sz"
  by (simp add: data_bytes_def layout_size_of)

lemma rd_take:
  assumes len: "n * sz \<le> length s" and eq: "take (n * sz) s' = take (n * sz) s" and j: "j < n"
  shows "rd big s' ! j = rd big s ! j"
proof -
  have len': "n * sz \<le> length s'" using arg_cong [OF eq, of length] len by simp
  have "(j + 1) * sz \<le> n * sz" using j by (intro mult_le_mono1) simp
  then have cut: "take sz (drop (j * sz) bs) = take sz (drop (j * sz) (take (n * sz) bs))" for bs :: buffer
    by (simp add: drop_take min_def)
  have "take sz (drop (j * sz) s') = take sz (drop (j * sz) s)" by (subst (1 2) cut) (simp only: eq)
  then show ?thesis by (simp only: read_samples_prefix [OF len j] read_samples_prefix [OF len' j])
qed

lemma input_cong:
  assumes "data_type cfg \<in> types" and "same_input cfg s m s' m'" and "j < unat (samples cfg)"
  shows "rd big s' ! j = rd big s ! j"
    and "model_mode_is_used (cmp_mode cfg) \<Longrightarrow> rd big m' ! j = rd big m ! j"
proof -
  note len = assms(2) [unfolded same_input_def data_bytes_eq [OF assms(1)]]
  show "rd big s' ! j = rd big s ! j" using len assms(3) by (intro rd_take) simp_all
  show "model_mode_is_used (cmp_mode cfg) \<Longrightarrow> rd big m' ! j = rd big m ! j"
    using len assms(3) by (intro rd_take) simp_all
qed

lemma codes_of_cong:
  assumes "data_type cfg \<in> types" and "same_input cfg s m s' m'"
  shows "codes_of big acc layout zero fields cfg s' m' = codes_of big acc layout zero fields cfg s m"
  unfolding codes_of_def Let_def collection_bits_def
  by (intro arg_cong [where f = concat] map_cong refl arg_cong2 [where f = "sample_bits (fields cfg)"])
    (auto simp: sample_models_def input_cong [OF assms])

lemma codes_of_coding:
  assumes "same_coding cfg cfg'" and "samples cfg' = samples cfg"
  shows "codes_of big acc layout zero fields cfg' s m = codes_of big acc layout zero fields cfg s m"
  by (simp add: codes_of_def collection_bits_def fields_coding [OF assms(1)] same_coding_eqs [OF assms(1)] assms(2))

lemma next_model_of_cong:
  assumes "data_type cfg \<in> types" and "same_input cfg s m s' m'" and "model_mode_is_used (cmp_mode cfg)"
  shows "next_model_of big acc layout zero up cfg s' m' = next_model_of big acc layout zero up cfg s m"
  unfolding next_model_of_def
  by (intro arg_cong [where f = concat] map_cong refl) (auto simp: input_cong [OF assms(1,2)] assms(3))

lemma length_map_enc: "length (concat (map (\<lambda>j. enc big (f j)) [0..<n])) = n * sz"
  using length_enc [of big "map f [0..<n]"] by (simp add: comp_def)

lemma lossy_of_0:
  assumes "data_type cfg \<in> types" and "round_par cfg = 0" and "data_bytes cfg \<le> length s"
  shows "lossy_of big acc layout zero cfg s = take (data_bytes cfg) s"
proof -
  let ?n = "unat (samples cfg)"
  have n: "?n * sz \<le> length s" using assms by (simp add: data_bytes_eq)
  have "lossy_of big acc layout zero cfg s = concat (map (enc big) (take ?n (rd big s)))"
    using length_read_ge [OF n, of big] assms(2)
    by (auto simp: lossy_of_def restore_0 intro!: arg_cong [where f = concat] nth_equalityI)
  also have "\<dots> = take (data_bytes cfg) s"
  proof -
    let ?c = "concat (map (enc big) (take ?n (rd big s)))"
    have len: "length ?c = ?n * sz"
      using length_enc [of big "take ?n (rd big s)"] length_read_ge [OF n, of big] by simp
    have "s = ?c @ drop (?n * sz) s" using write_prefix [OF refl refl n, of big] by simp
    then have "take (?n * sz) s = take (?n * sz) (?c @ drop (?n * sz) s)" by (rule arg_cong)
    then show ?thesis using len by (simp add: data_bytes_eq [OF assms(1)])
  qed
  finally show ?thesis .
qed

lemma input_ok_bufs:
  assumes "data_type cfg \<in> types" and "coding_cfg cfg" and "data_bytes cfg \<le> length s"
    and "models_ok (data_bytes cfg) cfg b"
  shows "input_ok (fields cfg) zero cfg (rd big s) (mem_of big b)"
  using assms length_read_ge [of "unat (samples cfg)" s big] mem_ok_bufs [of "unat (samples cfg)" cfg b big]
  by (auto simp: input_ok_def coding_cfg_def data_bytes_eq fields_fit)

lemma wrote_run_samples:
  assumes "wrote code off lim (map_option snd (dst b))
      (stream_of (f (rd big (bytes_at (src b))) (mem_of big b) off (map_option snd (dst b))))"
  shows "wrote code off lim (map_option snd (dst b)) (stream_written (run_samples big acc layout zero f b off))"
proof (cases "dst b")
  case None
  then show ?thesis using assms
    by (auto simp: wrote_def stream_of_def stream_written_def run_samples_def Let_def dst_put_model_mem)
next
  case (Some p)
  obtain a d where p: "p = (a, d)" by fastforce
  show ?thesis
    unfolding wrote_def Some option.case option.map p snd_conv
  proof (intro impI)
    assume "writable d lim" and "\<not> cmp_is_error off"
    then obtain d' where len: "length d' = length d"
      and res: "if unat off + length code \<le> unat lim
        then stream_of (f (rd big (bytes_at (src b))) (mem_of big b) off (Some d)) = Some (off + word_of_nat (length code), Some d') \<and>
          bits_of_bytes d' = put_bits (unat off) code (bits_of_bytes d)
        else stream_of (f (rd big (bytes_at (src b))) (mem_of big b) off (Some d)) = Some (CMP_ERROR CMP_ERROR_SMALL_BUFFER, Some d') \<and>
          take (unat off) (bits_of_bytes d') = take (unat off) (bits_of_bytes d)"
      using assms unfolding wrote_def Some option.case option.map p snd_conv by blast
    have "stream_written (run_samples big acc layout zero f b off) = Some (l, Some d')"
      if "stream_of (f (rd big (bytes_at (src b))) (mem_of big b) off (Some d)) = Some (l, Some d')" for l
      using that by (auto simp: stream_of_def stream_written_def run_samples_def Let_def dst_put_model_mem Some p with_bytes_def)
    then show "\<exists>buf'. length buf' = length d \<and>
        (if unat off + length code \<le> unat lim
         then stream_written (run_samples big acc layout zero f b off) = Some (off + word_of_nat (length code), Some buf') \<and>
           bits_of_bytes buf' = put_bits (unat off) code (bits_of_bytes d)
         else stream_written (run_samples big acc layout zero f b off) = Some (CMP_ERROR CMP_ERROR_SMALL_BUFFER, Some buf') \<and>
           take (unat off) (bits_of_bytes buf') = take (unat off) (bits_of_bytes d))"
      using len res by (intro exI [of _ d']) (simp split: if_splits)
  qed
qed

lemma ops_compress_writes:
  assumes "data_type cfg \<in> types" and "coding_cfg cfg" and "data_bytes cfg \<le> length (bytes_at (src b))"
    and "models_ok (data_bytes cfg) cfg b"
  shows "wrote (op_codes (ops big) cfg (bytes_at (src b)) (bytes_at (model_buf b))) off
    (cmp_stream_size_to_bits (stream_size cfg)) (map_option snd (dst b)) (stream_written (op_compress (ops big) cfg b off))"
proof -
  have "fields_ok (cmp_stream_size_to_bits (stream_size cfg)) (fields cfg)"
    using assms(1,2) by (auto simp: coding_cfg_def intro: fields_valid)
  from wrote_compress_samples [OF this input_ok_bufs [OF assms]]
  show ?thesis unfolding ops_of_def codes_of_def Let_def type_ops.simps fst_conv by (rule wrote_run_samples)
qed

lemma ops_compressE:
  assumes "op_compress (ops big) cfg b off = Some (l, b')"
  obtains d mem where
    "compress_samples (fields cfg) (up (model_value cfg) (round_par cfg)) zero cfg (rd big (bytes_at (src b)))
       (mem_of big b) off (map_option snd (dst b)) = Some (l, d, mem)"
    "b' = put_model_mem (wr big) mem (b\<lparr>dst := (case d of None \<Rightarrow> dst b | Some bs \<Rightarrow> with_bytes bs (dst b))\<rparr>)"
  using assms by (auto simp: ops_of_def run_samples_def Let_def bind_eq_Some_conv)

lemma ops_compress_models:
  assumes "data_type cfg \<in> types" and "coding_cfg cfg" and "data_bytes cfg \<le> length (bytes_at (src b))"
    and "models_ok (data_bytes cfg) cfg b" and "op_compress (ops big) cfg b off = Some (l, b')" and "\<not> cmp_is_error l"
  shows "b'\<lparr>dst := dst b\<rparr> = with_next_model (data_bytes cfg) cfg
    (op_next_model (ops big) cfg (bytes_at (src b)) (bytes_at (model_buf b))) b"
proof -
  let ?um = "model_mode_is_used (cmp_mode cfg)" and ?n = "unat (samples cfg)"
  let ?up = "\<lambda>ms j. up (model_value cfg) (round_par cfg) (rd big (bytes_at (src b)) ! j) (ms j)"
  from assms(5) obtain d mem where run: "compress_samples (fields cfg) (up (model_value cfg) (round_par cfg)) zero cfg
      (rd big (bytes_at (src b))) (mem_of big b) off (map_option snd (dst b)) = Some (l, d, mem)"
    and b': "b' = put_model_mem (wr big) mem (b\<lparr>dst := (case d of None \<Rightarrow> dst b | Some bs \<Rightarrow> with_bytes bs (dst b))\<rparr>)"
    by (rule ops_compressE)
  have "mem = final_mem ?um 0 ?n (?up (sample_models ?um zero (rd big (bytes_at (model_buf b))) ((!) (rd big (bytes_at (src b)))))) (mem_of big b)"
    using compress_samples_models [OF input_ok_bufs [OF assms(1-4)] run assms(6)] by simp
  also have "\<dots> = final_mem ?um 0 ?n (?up (\<lambda>j. rd big (bytes_at (model_buf b)) ! j)) (mem_of big b)"
    by (simp add: final_mem_def sample_models_def)
  finally have "put_model_mem (wr big) mem b = with_next_model (data_bytes cfg) cfg
      (op_next_model (ops big) cfg (bytes_at (src b)) (bytes_at (model_buf b))) b"
    using put_final [of ?n cfg b big] assms(4)
    by (simp add: data_bytes_eq [OF assms(1)] ops_of_def next_model_of_def)
  moreover have "b'\<lparr>dst := dst b\<rparr> = put_model_mem (wr big) mem b" by (simp add: b' put_model_mem_dst)
  ultimately show ?thesis by (simp only:)
qed

lemma ops_compress_frame:
  assumes "data_type cfg \<in> types" and "coding_cfg cfg" and ok: "models_ok (data_bytes cfg) cfg b"
    and run: "op_compress (ops big) cfg b off = Some (l, b')"
  shows "model_frame (model_bytes cfg) b b'"
proof -
  let ?um = "model_mode_is_used (cmp_mode cfg)" and ?n = "unat (samples cfg)"
  from run obtain d mem m where run: "compress_loop (encode_fields (fields cfg)) (up (model_value cfg) (round_par cfg)) ?um
      (rd big (bytes_at (src b))) (unat (samples cfg - 1)) 0 m off (map_option snd (dst b)) (mem_of big b) = Some (l, d, mem)"
    and b': "b' = put_model_mem (wr big) mem (b\<lparr>dst := (case d of None \<Rightarrow> dst b | Some bs \<Rightarrow> with_bytes bs (dst b))\<rparr>)"
    by (elim ops_compressE) (auto simp: compress_samples_def Let_def bind_eq_Some_conv)
  have n: "unat (samples cfg - 1) < ?n" "0 < ?n"
    using assms(2) unat_samples [of cfg] by (auto simp: coding_cfg_def)
  note fr = compress_loop_frame [OF run n(2,1)]
  have b'': "b'\<lparr>dst := dst b\<rparr> = put_model_mem (wr big) mem b"
    and d: "map_option fst (dst b') = map_option fst (dst b)"
    by (auto simp: b' put_model_mem_dst dst_put_model_mem split: option.split)
  show ?thesis
  proof (cases ?um)
    case True
    from put_frame [OF ok [unfolded data_bytes_eq [OF assms(1)]] True fr] show ?thesis
      unfolding model_frame_def b'' model_bytes_def if_P [OF True] data_bytes_eq [OF assms(1)] using d by blast
  next
    case False
    have "mem = mem_of big b" using compress_loop_no_model [of _ _ "rd big (bytes_at (src b))"] run False by simp
    then have "b'\<lparr>dst := dst b\<rparr> = set_updated_model (bytes_at (updated_model_buf b)) b"
      unfolding b'' by (simp add: put_same [OF ok] set_updated_same [OF ok])
    then show ?thesis using d unfolding model_frame_def by blast
  qed
qed

lemma run_decoder_eq:
  assumes "dfields cfg = Some ds"
  shows "op_decompress (ops big) cfg b dec =
    map_option (\<lambda>(err, data, mem, dec). (err, put_model_mem (wr big) mem
        (b\<lparr>dst := with_bytes (wr big data (bytes_at (dst b))) (dst b)\<rparr>), dec))
      (decompress_samples ds (up (model_value cfg) (round_par cfg)) zero cfg (rd big (bytes_at (dst b))) (mem_of big b) dec)"
  using assms
  by (cases "decompress_samples ds (up (model_value cfg) (round_par cfg)) zero cfg (rd big (bytes_at (dst b))) (mem_of big b) dec")
    (auto simp: ops_of_def run_decoder_def decompress_with_def Let_def)

lemma put_model_mem_put_dst: "put_model_mem (wr big) mem (b\<lparr>dst := p\<rparr>) = (put_model_mem (wr big) mem b)\<lparr>dst := p\<rparr>"
  by (auto simp: put_model_mem_def set_updated_dst split: prod.split up_target.split)

lemma ops_decompress_reads:
  assumes "data_type cfg \<in> types" and "coding_cfg cfg" and same: "same_coding cfg cfg'" "samples cfg' = samples cfg"
    and s: "data_bytes cfg \<le> length s" and ok: "models_ok (data_bytes cfg) cfg b"
    and d: "data_bytes cfg \<le> length (bytes_at (dst b))"
    and at: "ready_at dec (op_codes (ops big) cfg s (bytes_at (model_buf b)) @ rest)"
  shows "\<exists>dec'. op_decompress (ops big) cfg' b dec = Some (0, with_next_model (data_bytes cfg) cfg
      (op_next_model (ops big) cfg s (bytes_at (model_buf b)))
      (b\<lparr>dst := with_bytes (op_lossy (ops big) cfg s @ drop (data_bytes cfg) (bytes_at (dst b))) (dst b)\<rparr>), dec') \<and>
    ready_at dec' rest"
proof -
  let ?um = "model_mode_is_used (cmp_mode cfg)" and ?n = "unat (samples cfg)" and ?m = "bytes_at (model_buf b)"
  let ?out = "\<lambda>j. restore acc (round_par cfg) (rd big s ! j) (rd big s ! j)"
  let ?up = "\<lambda>j. up (model_value cfg) (round_par cfg) (rd big s ! j) (rd big ?m ! j)"
  note nb = data_bytes_eq [OF assms(1)]
  from fields_match [OF assms(1) _ _ same(1)] assms(2) obtain ds where ds: "dfields cfg' = Some ds" "accessors ds = acc"
    and match: "fields_match (round_par cfg) (fields cfg) ds" by (auto simp: coding_cfg_def)
  have s': "?n * sz \<le> length s" and d': "?n * sz \<le> length (bytes_at (dst b))" using s d by (simp_all add: nb)
  have inp: "input_ok (fields cfg) zero cfg (rd big s) (mem_of big b)" by (rule input_ok_bufs [OF assms(1,2) s ok])
  have mem: "?um \<longrightarrow> mem_ok ?n (mem_of big b)" using inp by (simp add: input_ok_def)
  have buf: "?n \<le> length (rd big (bytes_at (dst b)))" by (rule length_read_ge [OF d'])
  have at': "ready_at dec (collection_bits (fields cfg) (sample_models ?um zero (fst (mem_of big b)) ((!) (rd big s))) (rd big s) ?n @ rest)"
    using at by (simp add: ops_of_def codes_of_def Let_def)
  from decompress_samples_reads [OF match ds(2) fields_acc inp same_coding_eqs(2) [OF same(1)] same(2) refl buf mem at', of "model_value cfg"]
  obtain dec' where run: "decompress_samples ds (up (model_value cfg) (round_par cfg)) zero cfg' (rd big (bytes_at (dst b))) (mem_of big b) dec =
      Some (0, map (\<lambda>d. restore acc (round_par cfg) d d) (take ?n (rd big s)) @ drop ?n (rd big (bytes_at (dst b))),
        final_mem ?um 0 ?n ?up (mem_of big b), dec')" and at': "ready_at dec' rest"
    by auto
  have "map (\<lambda>d. restore acc (round_par cfg) d d) (take ?n (rd big s)) @ drop ?n (rd big (bytes_at (dst b))) =
      store_range 0 ?n ?out (rd big (bytes_at (dst b)))"
    using length_read_ge [OF s', of big] by (auto simp: store_range_def intro!: nth_equalityI)
  then have "wr big (map (\<lambda>d. restore acc (round_par cfg) d d) (take ?n (rd big s)) @ drop ?n (rd big (bytes_at (dst b)))) (bytes_at (dst b)) =
      op_lossy (ops big) cfg s @ drop (data_bytes cfg) (bytes_at (dst b))"
    by (simp add: write_store_range [OF d'] ops_of_def lossy_of_def nb)
  moreover have "put_model_mem (wr big) (final_mem ?um 0 ?n ?up (mem_of big b)) b =
      with_next_model (data_bytes cfg) cfg (op_next_model (ops big) cfg s ?m) b"
    using put_final [of ?n cfg b big] ok by (simp add: nb ops_of_def next_model_of_def)
  moreover have "with_next_model k cfg nm (b\<lparr>dst := p\<rparr>) = (with_next_model k cfg nm b)\<lparr>dst := p\<rparr>" for k nm p
    by (simp add: with_next_model_def set_updated_dst)
  ultimately show ?thesis
    using at' run by (simp add: run_decoder_eq [OF ds(1)] same_coding_eqs [OF same(1)] put_model_mem_put_dst)
qed

lemma ops_decompress_safe:
  assumes "data_type cfg \<in> types" and "coding_cfg cfg" and ok: "models_ok (data_bytes cfg) cfg b"
    and d: "data_bytes cfg \<le> length (bytes_at (dst b))" and inv: "reader_inv dec"
  shows "\<exists>err b' dec'. op_decompress (ops big) cfg b dec = Some (err, b', dec') \<and> reader_inv dec' \<and>
    model_frame (model_bytes cfg) b b' \<and> length (bytes_at (dst b')) = length (bytes_at (dst b)) \<and>
    drop (data_bytes cfg) (bytes_at (dst b')) = drop (data_bytes cfg) (bytes_at (dst b))"
proof -
  let ?um = "model_mode_is_used (cmp_mode cfg)" and ?n = "unat (samples cfg)" and ?d = "bytes_at (dst b)"
  note nb = data_bytes_eq [OF assms(1)]
  from fields_match [OF assms(1), of cfg] assms(2) obtain ds where ds: "dfields cfg = Some ds"
    and match: "fields_match (round_par cfg) (fields cfg) ds" by (auto simp: coding_cfg_def same_coding_def)
  have safe: "decoder_usable s" if "(g, p, s) \<in> set ds" for g p s
  proof -
    from that obtain i where i: "i < length ds" "ds ! i = (g, p, s)" by (auto simp: in_set_conv_nth)
    obtain g' s' where "fields cfg ! i = (g', s')" by fastforce
    then have "decoder_ok s (setup_pars s')"
      using list_all2_nthD2 [OF match [unfolded fields_match_def] i(1)] i(2) by simp
    then show ?thesis by (rule decoder_ok_usable)
  qed
  have d': "?n * sz \<le> length ?d" using d by (simp add: nb)
  have buf: "?n \<le> length (rd big ?d)" by (rule length_read_ge [OF d'])
  have n: "0 < ?n" "unat (samples cfg - 1) < ?n" "samples cfg \<noteq> 0"
    using assms(2) unat_samples [of cfg] by (auto simp: coding_cfg_def)
  have mem: "?um \<longrightarrow> mem_ok ?n (mem_of big b)" using ok mem_ok_bufs [of ?n cfg b big] by (simp add: nb)
  have "(if ?um then nth_opt (fst (mem_of big b)) 0 else Some zero) =
      Some (sample_models ?um zero (fst (mem_of big b)) (\<lambda>_. zero) 0)" by (rule first_model [OF n(3) mem])
  then obtain m where m: "(if ?um then nth_opt (fst (mem_of big b)) 0 else Some zero) = Some m" by blast
  have "\<exists>err buf' mem' dec'. decompress_loop (decode_fields ds) (up (model_value cfg) (round_par cfg)) ?um
      (unat (samples cfg - 1)) 0 m (rd big ?d) (mem_of big b) dec = Some (err, buf', mem', dec') \<and>
    reader_inv dec' \<and> length buf' = length (rd big ?d) \<and> drop ?n buf' = drop ?n (rd big ?d) \<and> mem_frame ?n (mem_of big b) mem'"
    by (rule decompress_loop_safe [OF decode_fields_safe [OF safe] buf n(1,2) mem inv])
  then obtain err buf' mem' dec' where run: "decompress_samples ds (up (model_value cfg) (round_par cfg)) zero cfg (rd big ?d) (mem_of big b) dec =
      Some (err, buf', mem', dec')" and inv': "reader_inv dec'"
    and len: "length buf' = length (rd big ?d)" "drop ?n buf' = drop ?n (rd big ?d)" and fr: "mem_frame ?n (mem_of big b) mem'"
    unfolding decompress_samples_def Let_def m bind.bind_lunit by blast
  let ?b = "b\<lparr>dst := with_bytes (wr big buf' ?d) (dst b)\<rparr>"
  have frame: "model_frame (model_bytes cfg) b (put_model_mem (wr big) mem' ?b)"
  proof (cases ?um)
    case True
    from put_frame [OF ok [unfolded nb] True fr] show ?thesis
      unfolding model_frame_def model_bytes_def if_P [OF True] nb by (auto simp: put_model_mem_put_dst put_model_mem_dst)
  next
    case False
    have "mem' = mem_of big b" using decompress_loop_no_model run False
      by (fastforce simp: decompress_samples_def Let_def)
    then have "(put_model_mem (wr big) mem' ?b)\<lparr>dst := dst b\<rparr> = set_updated_model (bytes_at (updated_model_buf b)) b"
      by (simp add: put_model_mem_put_dst put_same [OF ok] set_updated_same [OF ok])
    then show ?thesis unfolding model_frame_def by (auto intro!: exI [of _ "bytes_at (updated_model_buf b)"])
  qed
  have "dst b \<noteq> None"
  proof
    assume "dst b = None"
    then have "length ?d = 0" by (simp add: bytes_at_def)
    then show False using d' mult_pos_pos [OF n(1) layout_pos] by linarith
  qed
  then have "bytes_at (with_bytes (wr big buf' ?d) (dst b)) = wr big buf' ?d" by (simp only: bytes_at_with_bytes if_False)
  then show ?thesis
    using run inv' frame length_write [OF len(1)] drop_write [OF len d']
    by (simp add: run_decoder_eq [OF ds] nb)
qed

end

sublocale collection_codec \<subseteq> coded: type_codec "\<lambda>_. ops_of big acc layout zero up fields dfields" types for big
proof (unfold_locales, goal_cases)
  case (1 cfg s m s' m')
  then show ?case by (simp add: ops_of_def codes_of_cong)
next
  case (2 cfg s m s' m')
  then show ?case by (simp add: ops_of_def next_model_of_cong)
next
  case (3 cfg cfg' s m)
  then show ?case by (simp add: ops_of_def codes_of_coding)
next
  case (4 cfg cfg' s m)
  then show ?case by (simp add: ops_of_def next_model_of_def same_coding_eqs)
next
  case (5 cfg s m)
  then show ?case by (simp add: ops_of_def next_model_of_def length_map_enc data_bytes_eq)
next
  case (6 cfg s)
  then show ?case by (simp add: ops_of_def lossy_of_def length_map_enc data_bytes_eq)
next
  case (7 cfg s)
  then show ?case by (simp add: ops_of_def lossy_of_0)
next
  case (8 cfg b off)
  then show ?case by (rule ops_compress_writes)
next
  case (9 cfg b off l b')
  then show ?case by (rule ops_compress_frame)
next
  case (10 cfg b off l b')
  then show ?case by (rule ops_compress_models)
next
  case (11 cfg cfg' s b dec rest)
  then show ?case by (rule ops_decompress_reads)
next
  case (12 cfg b dec)
  then show ?case by (rule ops_decompress_safe)
qed

end
