(* ===== verification/Collection_Types.thy ===== *)
theory Collection_Types
  imports Collection_Laws
begin

text \<open>
  The twelve sample types satisfy the interface \<open>collection_codec\<close>: the field tables of
  \<open>cmp_icu.c\<close> and of \<open>decmp.c\<close> fit to each other, to the layout of the structures and to the
  checks of the parameters.
\<close>

lemma field_values_fit:
  "unat (ucast (x :: u8) :: u32) < 256" "unat (ucast (y :: u16) :: u32) < 65536"
  "unat (ucast (z :: u24) :: u32) < 16777216"
  using unat_ucast_less_low [of x] unat_ucast_less_low [of y] unat_ucast_less_low [of z] by simp_all

lemma configured_setup [simp]:
  "max_data_bits (configure_encoder_setup m s r n cfg) = n"
  "max_stream_len (configure_encoder_setup m s r n cfg) = cmp_stream_size_to_bits (stream_size cfg)"
  by (simp_all add: configure_encoder_setup_def)

lemma fields_match_simps:
  "fields_match r [] []"
  "fields_match r ((g, s) # fs) ((g', p, s') # ds) \<longleftrightarrow>
     g' = g \<and> decoder_ok s' (setup_pars s) \<and> lossy_par s = r \<and> dec_lossy_par s' = r \<and> fields_match r fs ds"
  by (simp_all add: fields_match_def)

lemma bits_of_fields:
  "bits_s_exp_flags MAX_USED_BITS = 8" "bits_s_fx MAX_USED_BITS = 32" "bits_s_efx MAX_USED_BITS = 32"
  "bits_s_ncob MAX_USED_BITS = 32" "bits_s_ecob MAX_USED_BITS = 32"
  "bits_l_exp_flags MAX_USED_BITS = 24" "bits_l_fx MAX_USED_BITS = 32"
  "bits_l_fx_cob_variance MAX_USED_BITS = 32" "bits_l_efx MAX_USED_BITS = 32"
  "bits_l_ncob MAX_USED_BITS = 32" "bits_l_ecob MAX_USED_BITS = 32"
  "imagette_max_data_bits t = 16" "decmp_imagette_max_data_bits t = 16"
  "bits_nc_offset_mean MAX_USED_BITS = 32" "bits_nc_offset_variance MAX_USED_BITS = 32"
  "bits_fc_offset_mean MAX_USED_BITS = 32" "bits_fc_offset_variance MAX_USED_BITS = 32"
  "bits_nc_background_mean MAX_USED_BITS = 32" "bits_nc_background_variance MAX_USED_BITS = 32"
  "bits_nc_background_outlier_pixels MAX_USED_BITS = 16"
  "bits_fc_background_mean MAX_USED_BITS = 32" "bits_fc_background_variance MAX_USED_BITS = 32"
  "bits_fc_background_outlier_pixels MAX_USED_BITS = 16"
  "bits_smearing_mean MAX_USED_BITS = 32" "bits_smearing_variance_mean MAX_USED_BITS = 32"
  "bits_smearing_outlier_pixels MAX_USED_BITS = 16"
  by (simp_all add: MAX_USED_BITS_def imagette_max_data_bits_def decmp_imagette_max_data_bits_def)

text \<open>The decoder of a checked field.\<close>

definition decoder_for :: "cmp_cfg \<Rightarrow> u32 \<Rightarrow> u32 \<Rightarrow> u32 \<Rightarrow> decoder_setup" where
  "decoder_for cfg m s n = the (configure_decoder_setup (cmp_mode cfg) m s (round_par cfg) n)"

lemma decoder_for:
  assumes "cfg_valid cfg" and "cmp_mode cfg \<noteq> CMP_MODE_RAW" and "valid_pars m s" and "0 < unat n" and "unat n \<le> 32"
  shows "configure_decoder_setup (cmp_mode cfg) m s (round_par cfg) n = Some (decoder_for cfg m s n)"
    and "decoder_ok (decoder_for cfg m s n) (setup_pars (configure_encoder_setup m s (round_par cfg) n cfg))"
    and "lossy_par (configure_encoder_setup m s (round_par cfg) n cfg) = round_par cfg"
    and "dec_lossy_par (decoder_for cfg m s n) = round_par cfg"
proof -
  have "m \<noteq> 0" using assms(3) by (auto simp: valid_pars_def)
  then obtain ds where ds: "configure_decoder_setup (cmp_mode cfg) m s (round_par cfg) n = Some ds"
    using configure_decoder_setup_Some [OF cfg_valid_mode [OF assms(1,2)] _ assms(4,5)] by blast
  then show "configure_decoder_setup (cmp_mode cfg) m s (round_par cfg) n = Some (decoder_for cfg m s n)"
    by (simp add: decoder_for_def)
  have d: "decoder_for cfg m s n = ds" using ds by (simp add: decoder_for_def)
  show "decoder_ok (decoder_for cfg m s n) (setup_pars (configure_encoder_setup m s (round_par cfg) n cfg))"
    "lossy_par (configure_encoder_setup m s (round_par cfg) n cfg) = round_par cfg"
    "dec_lossy_par (decoder_for cfg m s n) = round_par cfg"
    unfolding d by (rule configure_setups_match [OF assms(3-5) ds])+
qed

lemma sample_code_configured:
  "cmp_mode cfg' = cmp_mode cfg \<Longrightarrow>
     sample_code (configure_encoder_setup m s r n cfg') = sample_code (configure_encoder_setup m s r n cfg)"
  by (intro ext) (simp add: sample_code_def setup_pars_def configure_encoder_setup_def Let_def)

lemmas table_rules = fields_ok_def Let_def configure_encoder_setup_ok bits_of_fields accessors_def
  fields_match_simps sample_fits_def

interpretation imagette_col: collection_codec imagette_acc imagette_up_model imagette_layout 0
  "{DATA_TYPE_IMAGETTE, DATA_TYPE_IMAGETTE_ADAPTIVE, DATA_TYPE_SAT_IMAGETTE, DATA_TYPE_SAT_IMAGETTE_ADAPTIVE,
    DATA_TYPE_F_CAM_IMAGETTE, DATA_TYPE_F_CAM_IMAGETTE_ADAPTIVE}" imagette_fields imagette_decode_fields
proof unfold_locales
  fix cfg cfg' :: cmp_cfg and t
  show "t \<in> {DATA_TYPE_IMAGETTE, DATA_TYPE_IMAGETTE_ADAPTIVE, DATA_TYPE_SAT_IMAGETTE, DATA_TYPE_SAT_IMAGETTE_ADAPTIVE,
    DATA_TYPE_F_CAM_IMAGETTE, DATA_TYPE_F_CAM_IMAGETTE_ADAPTIVE} \<Longrightarrow> sample_layout t = imagette_layout" by auto
  assume v: "data_type cfg \<in> {DATA_TYPE_IMAGETTE, DATA_TYPE_IMAGETTE_ADAPTIVE, DATA_TYPE_SAT_IMAGETTE, DATA_TYPE_SAT_IMAGETTE_ADAPTIVE,
    DATA_TYPE_F_CAM_IMAGETTE, DATA_TYPE_F_CAM_IMAGETTE_ADAPTIVE}" "cfg_valid cfg" "cmp_mode cfg \<noteq> CMP_MODE_RAW"
  note p = cfg_valid_pars [OF v(2,3), unfolded cmp_imagette_data_type_is_used_def rdcu_supported_data_type_is_used_def]
  show "fields_ok (cmp_stream_size_to_bits (stream_size cfg)) (imagette_fields cfg)"
    using v(1) p by (auto simp: table_rules imagette_fields_def)
  assume c: "same_coding cfg cfg'"
  show "\<exists>ds. imagette_decode_fields cfg' = Some ds \<and> accessors ds = imagette_acc \<and>
      fields_match (round_par cfg) (imagette_fields cfg) ds"
    using v(1) p decoder_for [OF v(2,3)]
    by (auto simp: same_coding_eqs [OF c] imagette_decode_fields_def imagette_fields_def table_rules imagette_acc_def)
next
  show "sample_bits (imagette_fields cfg') = sample_bits (imagette_fields cfg)" if "same_coding cfg cfg'" for cfg cfg'
    by (intro ext) (simp add: sample_bits_def imagette_fields_def Let_def same_coding_eqs [OF that] sample_code_configured [OF same_coding_eqs(2) [OF that]])
next
  show "sample_fits (imagette_fields cfg) s" "map fst (imagette_fields cfg) = map fst imagette_acc" for cfg s
    by (auto simp: imagette_fields_def imagette_acc_def table_rules field_values_fit intro!: fits_setup_bits)
qed

interpretation s_fx_col: collection_codec s_fx_acc s_fx_up_model s_fx_layout s_fx_zero
  "{DATA_TYPE_S_FX}" s_fx_fields s_fx_decode_fields
proof unfold_locales
  fix cfg cfg' :: cmp_cfg and t
  show "t \<in> {DATA_TYPE_S_FX} \<Longrightarrow> sample_layout t = s_fx_layout" by auto
  assume v: "data_type cfg \<in> {DATA_TYPE_S_FX}" "cfg_valid cfg" "cmp_mode cfg \<noteq> CMP_MODE_RAW"
  note p = cfg_valid_pars [OF v(2,3), unfolded cmp_imagette_data_type_is_used_def rdcu_supported_data_type_is_used_def]
  show "fields_ok (cmp_stream_size_to_bits (stream_size cfg)) (s_fx_fields cfg)"
    using v(1) p by (auto simp: table_rules s_fx_fields_def)
  assume c: "same_coding cfg cfg'"
  show "\<exists>ds. s_fx_decode_fields cfg' = Some ds \<and> accessors ds = s_fx_acc \<and>
      fields_match (round_par cfg) (s_fx_fields cfg) ds"
    using v(1) p decoder_for [OF v(2,3)]
    by (auto simp: same_coding_eqs [OF c] s_fx_decode_fields_def s_fx_fields_def table_rules s_fx_acc_def)
next
  show "sample_bits (s_fx_fields cfg') = sample_bits (s_fx_fields cfg)" if "same_coding cfg cfg'" for cfg cfg'
    by (intro ext) (simp add: sample_bits_def s_fx_fields_def Let_def same_coding_eqs [OF that] sample_code_configured [OF same_coding_eqs(2) [OF that]])
next
  show "sample_fits (s_fx_fields cfg) s" "map fst (s_fx_fields cfg) = map fst s_fx_acc" for cfg s
    by (auto simp: s_fx_fields_def s_fx_acc_def table_rules field_values_fit intro!: fits_setup_bits)
qed

interpretation s_fx_efx_col: collection_codec s_fx_efx_acc s_fx_efx_up_model s_fx_efx_layout s_fx_efx_zero
  "{DATA_TYPE_S_FX_EFX}" s_fx_efx_fields s_fx_efx_decode_fields
proof unfold_locales
  fix cfg cfg' :: cmp_cfg and t
  show "t \<in> {DATA_TYPE_S_FX_EFX} \<Longrightarrow> sample_layout t = s_fx_efx_layout" by auto
  assume v: "data_type cfg \<in> {DATA_TYPE_S_FX_EFX}" "cfg_valid cfg" "cmp_mode cfg \<noteq> CMP_MODE_RAW"
  note p = cfg_valid_pars [OF v(2,3), unfolded cmp_imagette_data_type_is_used_def rdcu_supported_data_type_is_used_def]
  show "fields_ok (cmp_stream_size_to_bits (stream_size cfg)) (s_fx_efx_fields cfg)"
    using v(1) p by (auto simp: table_rules s_fx_efx_fields_def)
  assume c: "same_coding cfg cfg'"
  show "\<exists>ds. s_fx_efx_decode_fields cfg' = Some ds \<and> accessors ds = s_fx_efx_acc \<and>
      fields_match (round_par cfg) (s_fx_efx_fields cfg) ds"
    using v(1) p decoder_for [OF v(2,3)]
    by (auto simp: same_coding_eqs [OF c] s_fx_efx_decode_fields_def s_fx_efx_fields_def table_rules s_fx_efx_acc_def)
next
  show "sample_bits (s_fx_efx_fields cfg') = sample_bits (s_fx_efx_fields cfg)" if "same_coding cfg cfg'" for cfg cfg'
    by (intro ext) (simp add: sample_bits_def s_fx_efx_fields_def Let_def same_coding_eqs [OF that] sample_code_configured [OF same_coding_eqs(2) [OF that]])
next
  show "sample_fits (s_fx_efx_fields cfg) s" "map fst (s_fx_efx_fields cfg) = map fst s_fx_efx_acc" for cfg s
    by (auto simp: s_fx_efx_fields_def s_fx_efx_acc_def table_rules field_values_fit intro!: fits_setup_bits)
qed

interpretation s_fx_ncob_col: collection_codec s_fx_ncob_acc s_fx_ncob_up_model s_fx_ncob_layout s_fx_ncob_zero
  "{DATA_TYPE_S_FX_NCOB}" s_fx_ncob_fields s_fx_ncob_decode_fields
proof unfold_locales
  fix cfg cfg' :: cmp_cfg and t
  show "t \<in> {DATA_TYPE_S_FX_NCOB} \<Longrightarrow> sample_layout t = s_fx_ncob_layout" by auto
  assume v: "data_type cfg \<in> {DATA_TYPE_S_FX_NCOB}" "cfg_valid cfg" "cmp_mode cfg \<noteq> CMP_MODE_RAW"
  note p = cfg_valid_pars [OF v(2,3), unfolded cmp_imagette_data_type_is_used_def rdcu_supported_data_type_is_used_def]
  show "fields_ok (cmp_stream_size_to_bits (stream_size cfg)) (s_fx_ncob_fields cfg)"
    using v(1) p by (auto simp: table_rules s_fx_ncob_fields_def)
  assume c: "same_coding cfg cfg'"
  show "\<exists>ds. s_fx_ncob_decode_fields cfg' = Some ds \<and> accessors ds = s_fx_ncob_acc \<and>
      fields_match (round_par cfg) (s_fx_ncob_fields cfg) ds"
    using v(1) p decoder_for [OF v(2,3)]
    by (auto simp: same_coding_eqs [OF c] s_fx_ncob_decode_fields_def s_fx_ncob_fields_def table_rules s_fx_ncob_acc_def)
next
  show "sample_bits (s_fx_ncob_fields cfg') = sample_bits (s_fx_ncob_fields cfg)" if "same_coding cfg cfg'" for cfg cfg'
    by (intro ext) (simp add: sample_bits_def s_fx_ncob_fields_def Let_def same_coding_eqs [OF that] sample_code_configured [OF same_coding_eqs(2) [OF that]])
next
  show "sample_fits (s_fx_ncob_fields cfg) s" "map fst (s_fx_ncob_fields cfg) = map fst s_fx_ncob_acc" for cfg s
    by (auto simp: s_fx_ncob_fields_def s_fx_ncob_acc_def table_rules field_values_fit intro!: fits_setup_bits)
qed

interpretation s_fx_efx_ncob_ecob_col: collection_codec s_fx_efx_ncob_ecob_acc s_fx_efx_ncob_ecob_up_model s_fx_efx_ncob_ecob_layout s_fx_efx_ncob_ecob_zero
  "{DATA_TYPE_S_FX_EFX_NCOB_ECOB}" s_fx_efx_ncob_ecob_fields s_fx_efx_ncob_ecob_decode_fields
proof unfold_locales
  fix cfg cfg' :: cmp_cfg and t
  show "t \<in> {DATA_TYPE_S_FX_EFX_NCOB_ECOB} \<Longrightarrow> sample_layout t = s_fx_efx_ncob_ecob_layout" by auto
  assume v: "data_type cfg \<in> {DATA_TYPE_S_FX_EFX_NCOB_ECOB}" "cfg_valid cfg" "cmp_mode cfg \<noteq> CMP_MODE_RAW"
  note p = cfg_valid_pars [OF v(2,3), unfolded cmp_imagette_data_type_is_used_def rdcu_supported_data_type_is_used_def]
  show "fields_ok (cmp_stream_size_to_bits (stream_size cfg)) (s_fx_efx_ncob_ecob_fields cfg)"
    using v(1) p by (auto simp: table_rules s_fx_efx_ncob_ecob_fields_def)
  assume c: "same_coding cfg cfg'"
  show "\<exists>ds. s_fx_efx_ncob_ecob_decode_fields cfg' = Some ds \<and> accessors ds = s_fx_efx_ncob_ecob_acc \<and>
      fields_match (round_par cfg) (s_fx_efx_ncob_ecob_fields cfg) ds"
    using v(1) p decoder_for [OF v(2,3)]
    by (auto simp: same_coding_eqs [OF c] s_fx_efx_ncob_ecob_decode_fields_def s_fx_efx_ncob_ecob_fields_def table_rules s_fx_efx_ncob_ecob_acc_def)
next
  show "sample_bits (s_fx_efx_ncob_ecob_fields cfg') = sample_bits (s_fx_efx_ncob_ecob_fields cfg)" if "same_coding cfg cfg'" for cfg cfg'
    by (intro ext) (simp add: sample_bits_def s_fx_efx_ncob_ecob_fields_def Let_def same_coding_eqs [OF that] sample_code_configured [OF same_coding_eqs(2) [OF that]])
next
  show "sample_fits (s_fx_efx_ncob_ecob_fields cfg) s" "map fst (s_fx_efx_ncob_ecob_fields cfg) = map fst s_fx_efx_ncob_ecob_acc" for cfg s
    by (auto simp: s_fx_efx_ncob_ecob_fields_def s_fx_efx_ncob_ecob_acc_def table_rules field_values_fit intro!: fits_setup_bits)
qed

interpretation l_fx_col: collection_codec l_fx_acc l_fx_up_model l_fx_layout l_fx_zero
  "{DATA_TYPE_L_FX}" l_fx_fields l_fx_decode_fields
proof unfold_locales
  fix cfg cfg' :: cmp_cfg and t
  show "t \<in> {DATA_TYPE_L_FX} \<Longrightarrow> sample_layout t = l_fx_layout" by auto
  assume v: "data_type cfg \<in> {DATA_TYPE_L_FX}" "cfg_valid cfg" "cmp_mode cfg \<noteq> CMP_MODE_RAW"
  note p = cfg_valid_pars [OF v(2,3), unfolded cmp_imagette_data_type_is_used_def rdcu_supported_data_type_is_used_def]
  show "fields_ok (cmp_stream_size_to_bits (stream_size cfg)) (l_fx_fields cfg)"
    using v(1) p by (auto simp: table_rules l_fx_fields_def)
  assume c: "same_coding cfg cfg'"
  show "\<exists>ds. l_fx_decode_fields cfg' = Some ds \<and> accessors ds = l_fx_acc \<and>
      fields_match (round_par cfg) (l_fx_fields cfg) ds"
    using v(1) p decoder_for [OF v(2,3)]
    by (auto simp: same_coding_eqs [OF c] l_fx_decode_fields_def l_fx_fields_def table_rules l_fx_acc_def)
next
  show "sample_bits (l_fx_fields cfg') = sample_bits (l_fx_fields cfg)" if "same_coding cfg cfg'" for cfg cfg'
    by (intro ext) (simp add: sample_bits_def l_fx_fields_def Let_def same_coding_eqs [OF that] sample_code_configured [OF same_coding_eqs(2) [OF that]])
next
  show "sample_fits (l_fx_fields cfg) s" "map fst (l_fx_fields cfg) = map fst l_fx_acc" for cfg s
    by (auto simp: l_fx_fields_def l_fx_acc_def table_rules field_values_fit intro!: fits_setup_bits)
qed

interpretation l_fx_efx_col: collection_codec l_fx_efx_acc l_fx_efx_up_model l_fx_efx_layout l_fx_efx_zero
  "{DATA_TYPE_L_FX_EFX}" l_fx_efx_fields l_fx_efx_decode_fields
proof unfold_locales
  fix cfg cfg' :: cmp_cfg and t
  show "t \<in> {DATA_TYPE_L_FX_EFX} \<Longrightarrow> sample_layout t = l_fx_efx_layout" by auto
  assume v: "data_type cfg \<in> {DATA_TYPE_L_FX_EFX}" "cfg_valid cfg" "cmp_mode cfg \<noteq> CMP_MODE_RAW"
  note p = cfg_valid_pars [OF v(2,3), unfolded cmp_imagette_data_type_is_used_def rdcu_supported_data_type_is_used_def]
  show "fields_ok (cmp_stream_size_to_bits (stream_size cfg)) (l_fx_efx_fields cfg)"
    using v(1) p by (auto simp: table_rules l_fx_efx_fields_def)
  assume c: "same_coding cfg cfg'"
  show "\<exists>ds. l_fx_efx_decode_fields cfg' = Some ds \<and> accessors ds = l_fx_efx_acc \<and>
      fields_match (round_par cfg) (l_fx_efx_fields cfg) ds"
    using v(1) p decoder_for [OF v(2,3)]
    by (auto simp: same_coding_eqs [OF c] l_fx_efx_decode_fields_def l_fx_efx_fields_def table_rules l_fx_efx_acc_def)
next
  show "sample_bits (l_fx_efx_fields cfg') = sample_bits (l_fx_efx_fields cfg)" if "same_coding cfg cfg'" for cfg cfg'
    by (intro ext) (simp add: sample_bits_def l_fx_efx_fields_def Let_def same_coding_eqs [OF that] sample_code_configured [OF same_coding_eqs(2) [OF that]])
next
  show "sample_fits (l_fx_efx_fields cfg) s" "map fst (l_fx_efx_fields cfg) = map fst l_fx_efx_acc" for cfg s
    by (auto simp: l_fx_efx_fields_def l_fx_efx_acc_def table_rules field_values_fit intro!: fits_setup_bits)
qed

interpretation l_fx_ncob_col: collection_codec l_fx_ncob_acc l_fx_ncob_up_model l_fx_ncob_layout l_fx_ncob_zero
  "{DATA_TYPE_L_FX_NCOB}" l_fx_ncob_fields l_fx_ncob_decode_fields
proof unfold_locales
  fix cfg cfg' :: cmp_cfg and t
  show "t \<in> {DATA_TYPE_L_FX_NCOB} \<Longrightarrow> sample_layout t = l_fx_ncob_layout" by auto
  assume v: "data_type cfg \<in> {DATA_TYPE_L_FX_NCOB}" "cfg_valid cfg" "cmp_mode cfg \<noteq> CMP_MODE_RAW"
  note p = cfg_valid_pars [OF v(2,3), unfolded cmp_imagette_data_type_is_used_def rdcu_supported_data_type_is_used_def]
  show "fields_ok (cmp_stream_size_to_bits (stream_size cfg)) (l_fx_ncob_fields cfg)"
    using v(1) p by (auto simp: table_rules l_fx_ncob_fields_def)
  assume c: "same_coding cfg cfg'"
  show "\<exists>ds. l_fx_ncob_decode_fields cfg' = Some ds \<and> accessors ds = l_fx_ncob_acc \<and>
      fields_match (round_par cfg) (l_fx_ncob_fields cfg) ds"
    using v(1) p decoder_for [OF v(2,3)]
    by (auto simp: same_coding_eqs [OF c] l_fx_ncob_decode_fields_def l_fx_ncob_fields_def table_rules l_fx_ncob_acc_def)
next
  show "sample_bits (l_fx_ncob_fields cfg') = sample_bits (l_fx_ncob_fields cfg)" if "same_coding cfg cfg'" for cfg cfg'
    by (intro ext) (simp add: sample_bits_def l_fx_ncob_fields_def Let_def same_coding_eqs [OF that] sample_code_configured [OF same_coding_eqs(2) [OF that]])
next
  show "sample_fits (l_fx_ncob_fields cfg) s" "map fst (l_fx_ncob_fields cfg) = map fst l_fx_ncob_acc" for cfg s
    by (auto simp: l_fx_ncob_fields_def l_fx_ncob_acc_def table_rules field_values_fit intro!: fits_setup_bits)
qed

interpretation l_fx_efx_ncob_ecob_col: collection_codec l_fx_efx_ncob_ecob_acc l_fx_efx_ncob_ecob_up_model l_fx_efx_ncob_ecob_layout l_fx_efx_ncob_ecob_zero
  "{DATA_TYPE_L_FX_EFX_NCOB_ECOB}" l_fx_efx_ncob_ecob_fields l_fx_efx_ncob_ecob_decode_fields
proof unfold_locales
  fix cfg cfg' :: cmp_cfg and t
  show "t \<in> {DATA_TYPE_L_FX_EFX_NCOB_ECOB} \<Longrightarrow> sample_layout t = l_fx_efx_ncob_ecob_layout" by auto
  assume v: "data_type cfg \<in> {DATA_TYPE_L_FX_EFX_NCOB_ECOB}" "cfg_valid cfg" "cmp_mode cfg \<noteq> CMP_MODE_RAW"
  note p = cfg_valid_pars [OF v(2,3), unfolded cmp_imagette_data_type_is_used_def rdcu_supported_data_type_is_used_def]
  show "fields_ok (cmp_stream_size_to_bits (stream_size cfg)) (l_fx_efx_ncob_ecob_fields cfg)"
    using v(1) p by (auto simp: table_rules l_fx_efx_ncob_ecob_fields_def)
  assume c: "same_coding cfg cfg'"
  show "\<exists>ds. l_fx_efx_ncob_ecob_decode_fields cfg' = Some ds \<and> accessors ds = l_fx_efx_ncob_ecob_acc \<and>
      fields_match (round_par cfg) (l_fx_efx_ncob_ecob_fields cfg) ds"
    using v(1) p decoder_for [OF v(2,3)]
    by (auto simp: same_coding_eqs [OF c] l_fx_efx_ncob_ecob_decode_fields_def l_fx_efx_ncob_ecob_fields_def table_rules l_fx_efx_ncob_ecob_acc_def)
next
  show "sample_bits (l_fx_efx_ncob_ecob_fields cfg') = sample_bits (l_fx_efx_ncob_ecob_fields cfg)" if "same_coding cfg cfg'" for cfg cfg'
    by (intro ext) (simp add: sample_bits_def l_fx_efx_ncob_ecob_fields_def Let_def same_coding_eqs [OF that] sample_code_configured [OF same_coding_eqs(2) [OF that]])
next
  show "sample_fits (l_fx_efx_ncob_ecob_fields cfg) s" "map fst (l_fx_efx_ncob_ecob_fields cfg) = map fst l_fx_efx_ncob_ecob_acc" for cfg s
    by (auto simp: l_fx_efx_ncob_ecob_fields_def l_fx_efx_ncob_ecob_acc_def table_rules field_values_fit intro!: fits_setup_bits)
qed

interpretation offset_data_col: collection_codec offset_acc offset_up_model offset_layout offset_zero
  "{DATA_TYPE_OFFSET, DATA_TYPE_F_CAM_OFFSET}" offset_fields offset_decode_fields
proof unfold_locales
  fix cfg cfg' :: cmp_cfg and t
  show "t \<in> {DATA_TYPE_OFFSET, DATA_TYPE_F_CAM_OFFSET} \<Longrightarrow> sample_layout t = offset_layout" by auto
  assume v: "data_type cfg \<in> {DATA_TYPE_OFFSET, DATA_TYPE_F_CAM_OFFSET}" "cfg_valid cfg" "cmp_mode cfg \<noteq> CMP_MODE_RAW"
  note p = cfg_valid_pars [OF v(2,3), unfolded cmp_imagette_data_type_is_used_def rdcu_supported_data_type_is_used_def]
  show "fields_ok (cmp_stream_size_to_bits (stream_size cfg)) (offset_fields cfg)"
    using v(1) p by (auto simp: table_rules offset_fields_def)
  assume c: "same_coding cfg cfg'"
  show "\<exists>ds. offset_decode_fields cfg' = Some ds \<and> accessors ds = offset_acc \<and>
      fields_match (round_par cfg) (offset_fields cfg) ds"
    using v(1) p decoder_for [OF v(2,3)]
    by (auto simp: same_coding_eqs [OF c] offset_decode_fields_def offset_fields_def table_rules offset_acc_def)
next
  show "sample_bits (offset_fields cfg') = sample_bits (offset_fields cfg)" if "same_coding cfg cfg'" for cfg cfg'
    by (intro ext) (simp add: sample_bits_def offset_fields_def Let_def same_coding_eqs [OF that] sample_code_configured [OF same_coding_eqs(2) [OF that]])
next
  show "sample_fits (offset_fields cfg) s" "map fst (offset_fields cfg) = map fst offset_acc" for cfg s
    by (auto simp: offset_fields_def offset_acc_def table_rules field_values_fit intro!: fits_setup_bits)
qed

interpretation background_data_col: collection_codec background_acc background_up_model background_layout background_zero
  "{DATA_TYPE_BACKGROUND, DATA_TYPE_F_CAM_BACKGROUND}" background_fields background_decode_fields
proof unfold_locales
  fix cfg cfg' :: cmp_cfg and t
  show "t \<in> {DATA_TYPE_BACKGROUND, DATA_TYPE_F_CAM_BACKGROUND} \<Longrightarrow> sample_layout t = background_layout" by auto
  assume v: "data_type cfg \<in> {DATA_TYPE_BACKGROUND, DATA_TYPE_F_CAM_BACKGROUND}" "cfg_valid cfg" "cmp_mode cfg \<noteq> CMP_MODE_RAW"
  note p = cfg_valid_pars [OF v(2,3), unfolded cmp_imagette_data_type_is_used_def rdcu_supported_data_type_is_used_def]
  show "fields_ok (cmp_stream_size_to_bits (stream_size cfg)) (background_fields cfg)"
    using v(1) p by (auto simp: table_rules background_fields_def)
  assume c: "same_coding cfg cfg'"
  show "\<exists>ds. background_decode_fields cfg' = Some ds \<and> accessors ds = background_acc \<and>
      fields_match (round_par cfg) (background_fields cfg) ds"
    using v(1) p decoder_for [OF v(2,3)]
    by (auto simp: same_coding_eqs [OF c] background_decode_fields_def background_fields_def table_rules background_acc_def)
next
  show "sample_bits (background_fields cfg') = sample_bits (background_fields cfg)" if "same_coding cfg cfg'" for cfg cfg'
    by (intro ext) (simp add: sample_bits_def background_fields_def Let_def same_coding_eqs [OF that] sample_code_configured [OF same_coding_eqs(2) [OF that]])
next
  show "sample_fits (background_fields cfg) s" "map fst (background_fields cfg) = map fst background_acc" for cfg s
    by (auto simp: background_fields_def background_acc_def table_rules field_values_fit intro!: fits_setup_bits)
qed

interpretation smearing_data_col: collection_codec smearing_acc smearing_up_model smearing_layout smearing_zero
  "{DATA_TYPE_SMEARING}" smearing_fields smearing_decode_fields
proof unfold_locales
  fix cfg cfg' :: cmp_cfg and t
  show "t \<in> {DATA_TYPE_SMEARING} \<Longrightarrow> sample_layout t = smearing_layout" by auto
  assume v: "data_type cfg \<in> {DATA_TYPE_SMEARING}" "cfg_valid cfg" "cmp_mode cfg \<noteq> CMP_MODE_RAW"
  note p = cfg_valid_pars [OF v(2,3), unfolded cmp_imagette_data_type_is_used_def rdcu_supported_data_type_is_used_def]
  show "fields_ok (cmp_stream_size_to_bits (stream_size cfg)) (smearing_fields cfg)"
    using v(1) p by (auto simp: table_rules smearing_fields_def)
  assume c: "same_coding cfg cfg'"
  show "\<exists>ds. smearing_decode_fields cfg' = Some ds \<and> accessors ds = smearing_acc \<and>
      fields_match (round_par cfg) (smearing_fields cfg) ds"
    using v(1) p decoder_for [OF v(2,3)]
    by (auto simp: same_coding_eqs [OF c] smearing_decode_fields_def smearing_fields_def table_rules smearing_acc_def)
next
  show "sample_bits (smearing_fields cfg') = sample_bits (smearing_fields cfg)" if "same_coding cfg cfg'" for cfg cfg'
    by (intro ext) (simp add: sample_bits_def smearing_fields_def Let_def same_coding_eqs [OF that] sample_code_configured [OF same_coding_eqs(2) [OF that]])
next
  show "sample_fits (smearing_fields cfg) s" "map fst (smearing_fields cfg) = map fst smearing_acc" for cfg s
    by (auto simp: smearing_fields_def smearing_acc_def table_rules field_values_fit intro!: fits_setup_bits)
qed

section \<open>The routines by data type\<close>

definition coded_types :: "cmp_data_type set" where
  "coded_types =
    {DATA_TYPE_IMAGETTE, DATA_TYPE_IMAGETTE_ADAPTIVE, DATA_TYPE_SAT_IMAGETTE, DATA_TYPE_SAT_IMAGETTE_ADAPTIVE, DATA_TYPE_F_CAM_IMAGETTE, DATA_TYPE_F_CAM_IMAGETTE_ADAPTIVE,
     DATA_TYPE_S_FX,
     DATA_TYPE_S_FX_EFX,
     DATA_TYPE_S_FX_NCOB,
     DATA_TYPE_S_FX_EFX_NCOB_ECOB,
     DATA_TYPE_L_FX,
     DATA_TYPE_L_FX_EFX,
     DATA_TYPE_L_FX_NCOB,
     DATA_TYPE_L_FX_EFX_NCOB_ECOB,
     DATA_TYPE_OFFSET, DATA_TYPE_F_CAM_OFFSET,
     DATA_TYPE_BACKGROUND, DATA_TYPE_F_CAM_BACKGROUND,
     DATA_TYPE_SMEARING}"

definition coded_ops :: "bool \<Rightarrow> cmp_data_type \<Rightarrow> type_ops" where
  "coded_ops big t =
    (if t \<in> {DATA_TYPE_IMAGETTE, DATA_TYPE_IMAGETTE_ADAPTIVE, DATA_TYPE_SAT_IMAGETTE, DATA_TYPE_SAT_IMAGETTE_ADAPTIVE,
    DATA_TYPE_F_CAM_IMAGETTE, DATA_TYPE_F_CAM_IMAGETTE_ADAPTIVE} then ops_of big imagette_acc imagette_layout 0 imagette_up_model imagette_fields imagette_decode_fields
     else if t \<in> {DATA_TYPE_S_FX} then ops_of big s_fx_acc s_fx_layout s_fx_zero s_fx_up_model s_fx_fields s_fx_decode_fields
     else if t \<in> {DATA_TYPE_S_FX_EFX} then ops_of big s_fx_efx_acc s_fx_efx_layout s_fx_efx_zero s_fx_efx_up_model s_fx_efx_fields s_fx_efx_decode_fields
     else if t \<in> {DATA_TYPE_S_FX_NCOB} then ops_of big s_fx_ncob_acc s_fx_ncob_layout s_fx_ncob_zero s_fx_ncob_up_model s_fx_ncob_fields s_fx_ncob_decode_fields
     else if t \<in> {DATA_TYPE_S_FX_EFX_NCOB_ECOB} then ops_of big s_fx_efx_ncob_ecob_acc s_fx_efx_ncob_ecob_layout s_fx_efx_ncob_ecob_zero s_fx_efx_ncob_ecob_up_model s_fx_efx_ncob_ecob_fields s_fx_efx_ncob_ecob_decode_fields
     else if t \<in> {DATA_TYPE_L_FX} then ops_of big l_fx_acc l_fx_layout l_fx_zero l_fx_up_model l_fx_fields l_fx_decode_fields
     else if t \<in> {DATA_TYPE_L_FX_EFX} then ops_of big l_fx_efx_acc l_fx_efx_layout l_fx_efx_zero l_fx_efx_up_model l_fx_efx_fields l_fx_efx_decode_fields
     else if t \<in> {DATA_TYPE_L_FX_NCOB} then ops_of big l_fx_ncob_acc l_fx_ncob_layout l_fx_ncob_zero l_fx_ncob_up_model l_fx_ncob_fields l_fx_ncob_decode_fields
     else if t \<in> {DATA_TYPE_L_FX_EFX_NCOB_ECOB} then ops_of big l_fx_efx_ncob_ecob_acc l_fx_efx_ncob_ecob_layout l_fx_efx_ncob_ecob_zero l_fx_efx_ncob_ecob_up_model l_fx_efx_ncob_ecob_fields l_fx_efx_ncob_ecob_decode_fields
     else if t \<in> {DATA_TYPE_OFFSET, DATA_TYPE_F_CAM_OFFSET} then ops_of big offset_acc offset_layout offset_zero offset_up_model offset_fields offset_decode_fields
     else if t \<in> {DATA_TYPE_BACKGROUND, DATA_TYPE_F_CAM_BACKGROUND} then ops_of big background_acc background_layout background_zero background_up_model background_fields background_decode_fields
     else ops_of big smearing_acc smearing_layout smearing_zero smearing_up_model smearing_fields smearing_decode_fields)"

lemma coded_by_type:
  assumes "t \<in> coded_types"
  shows "\<exists>f T'. t \<in> T' \<and> type_codec (\<lambda>_. f) T' \<and> coded_ops big t = f"
proof -
  have "\<exists>f T'. t \<in> T' \<and> type_codec (\<lambda>_. f) T' \<and> coded_ops big t = f" if "t \<in> {DATA_TYPE_IMAGETTE, DATA_TYPE_IMAGETTE_ADAPTIVE, DATA_TYPE_SAT_IMAGETTE, DATA_TYPE_SAT_IMAGETTE_ADAPTIVE,
    DATA_TYPE_F_CAM_IMAGETTE, DATA_TYPE_F_CAM_IMAGETTE_ADAPTIVE}"
    by (rule type_codec_on [OF imagette_col.coded.type_codec_axioms _ that]) (auto simp: coded_ops_def)
  moreover
  have "\<exists>f T'. t \<in> T' \<and> type_codec (\<lambda>_. f) T' \<and> coded_ops big t = f" if "t \<in> {DATA_TYPE_S_FX}"
    by (rule type_codec_on [OF s_fx_col.coded.type_codec_axioms _ that]) (auto simp: coded_ops_def)
  moreover
  have "\<exists>f T'. t \<in> T' \<and> type_codec (\<lambda>_. f) T' \<and> coded_ops big t = f" if "t \<in> {DATA_TYPE_S_FX_EFX}"
    by (rule type_codec_on [OF s_fx_efx_col.coded.type_codec_axioms _ that]) (auto simp: coded_ops_def)
  moreover
  have "\<exists>f T'. t \<in> T' \<and> type_codec (\<lambda>_. f) T' \<and> coded_ops big t = f" if "t \<in> {DATA_TYPE_S_FX_NCOB}"
    by (rule type_codec_on [OF s_fx_ncob_col.coded.type_codec_axioms _ that]) (auto simp: coded_ops_def)
  moreover
  have "\<exists>f T'. t \<in> T' \<and> type_codec (\<lambda>_. f) T' \<and> coded_ops big t = f" if "t \<in> {DATA_TYPE_S_FX_EFX_NCOB_ECOB}"
    by (rule type_codec_on [OF s_fx_efx_ncob_ecob_col.coded.type_codec_axioms _ that]) (auto simp: coded_ops_def)
  moreover
  have "\<exists>f T'. t \<in> T' \<and> type_codec (\<lambda>_. f) T' \<and> coded_ops big t = f" if "t \<in> {DATA_TYPE_L_FX}"
    by (rule type_codec_on [OF l_fx_col.coded.type_codec_axioms _ that]) (auto simp: coded_ops_def)
  moreover
  have "\<exists>f T'. t \<in> T' \<and> type_codec (\<lambda>_. f) T' \<and> coded_ops big t = f" if "t \<in> {DATA_TYPE_L_FX_EFX}"
    by (rule type_codec_on [OF l_fx_efx_col.coded.type_codec_axioms _ that]) (auto simp: coded_ops_def)
  moreover
  have "\<exists>f T'. t \<in> T' \<and> type_codec (\<lambda>_. f) T' \<and> coded_ops big t = f" if "t \<in> {DATA_TYPE_L_FX_NCOB}"
    by (rule type_codec_on [OF l_fx_ncob_col.coded.type_codec_axioms _ that]) (auto simp: coded_ops_def)
  moreover
  have "\<exists>f T'. t \<in> T' \<and> type_codec (\<lambda>_. f) T' \<and> coded_ops big t = f" if "t \<in> {DATA_TYPE_L_FX_EFX_NCOB_ECOB}"
    by (rule type_codec_on [OF l_fx_efx_ncob_ecob_col.coded.type_codec_axioms _ that]) (auto simp: coded_ops_def)
  moreover
  have "\<exists>f T'. t \<in> T' \<and> type_codec (\<lambda>_. f) T' \<and> coded_ops big t = f" if "t \<in> {DATA_TYPE_OFFSET, DATA_TYPE_F_CAM_OFFSET}"
    by (rule type_codec_on [OF offset_data_col.coded.type_codec_axioms _ that]) (auto simp: coded_ops_def)
  moreover
  have "\<exists>f T'. t \<in> T' \<and> type_codec (\<lambda>_. f) T' \<and> coded_ops big t = f" if "t \<in> {DATA_TYPE_BACKGROUND, DATA_TYPE_F_CAM_BACKGROUND}"
    by (rule type_codec_on [OF background_data_col.coded.type_codec_axioms _ that]) (auto simp: coded_ops_def)
  moreover
  have "\<exists>f T'. t \<in> T' \<and> type_codec (\<lambda>_. f) T' \<and> coded_ops big t = f" if "t \<in> {DATA_TYPE_SMEARING}"
    by (rule type_codec_on [OF smearing_data_col.coded.type_codec_axioms _ that]) (auto simp: coded_ops_def)
  ultimately show ?thesis using assms unfolding coded_types_def by blast
qed

interpretation codec: type_codec "coded_ops big" coded_types for big
  by (rule type_codec_by_type) (rule coded_by_type)

lemma compress_by_type_ops:
  "data_type cfg \<in> coded_types \<Longrightarrow>
     compress_by_type big cfg b off = op_compress (coded_ops big (data_type cfg)) cfg b off"
  by (cases "data_type cfg")
    (simp_all add: coded_types_def coded_ops_def compress_by_type_def ops_of_def
      compress_imagette_def compress_s_fx_def compress_s_fx_efx_def compress_s_fx_ncob_def compress_s_fx_efx_ncob_ecob_def compress_l_fx_def compress_l_fx_efx_def compress_l_fx_ncob_def compress_l_fx_efx_ncob_ecob_def compress_offset_def compress_background_def compress_smearing_def)

end
