(* ===== verification/Compress_Laws.thy ===== *)
theory Compress_Laws
  imports Collection_Types
begin

text \<open>
  What \<open>compress_data_internal\<close> leaves in its buffers: the code of the data followed by zero bits
  up to a word boundary, or in raw mode the data in big-endian byte order.
\<close>

section \<open>Data in big-endian byte order\<close>

definition raw_data :: "bool \<Rightarrow> cmp_data_type \<Rightarrow> buffer \<Rightarrow> buffer" where
  "raw_data big t s =
     (if big then s else swap_bytes (sample_layout t) (length s div size_of_a_sample t) s)"

lemma length_raw_data [simp]: "length (raw_data big t s) = length s"
  by (simp add: raw_data_def size_of_a_sample_def length_swap_bytes)

lemma raw_data_twice [simp]: "raw_data big t (raw_data big t s) = s"
  by (simp add: raw_data_def size_of_a_sample_def swap_bytes_twice length_swap_bytes)

lemma swap_bytes_append:
  assumes "n * sum_list ks \<le> length s"
  shows "swap_bytes ks n (s @ rest) = swap_bytes ks n s @ rest"
proof -
  let ?sz = "sum_list ks"
  have "take ?sz (drop (i * ?sz) (s @ rest)) = take ?sz (drop (i * ?sz) s)" if "i < n" for i
  proof -
    have "Suc i * ?sz \<le> n * ?sz" using that by (intro mult_le_mono1) simp
    then have "i * ?sz + ?sz \<le> length s" using assms by simp
    then show ?thesis by simp
  qed
  then have "map (\<lambda>i. swap_sample ks (take ?sz (drop (i * ?sz) (s @ rest)))) [0..<n] =
      map (\<lambda>i. swap_sample ks (take ?sz (drop (i * ?sz) s))) [0..<n]"
    by (intro map_cong refl) (simp only: atLeastLessThan_iff set_upt)
  then show ?thesis using assms by (simp only: swap_bytes_def drop_append) simp
qed

lemma be_to_cpu_data_type_prefix:
  assumes "size_of_a_sample t \<noteq> 0" and "length s mod size_of_a_sample t = 0" and "unat n = length s"
  shows "be_to_cpu_data_type big (Some (s @ rest)) n t = Some (0, Some (raw_data big t s @ rest))"
proof (cases big)
  case True
  then show ?thesis using assms by (simp add: be_to_cpu_data_type_def Let_def raw_data_def)
next
  case False
  have "length s div size_of_a_sample t * sum_list (sample_layout t) \<le> length s"
    by (simp add: size_of_a_sample_def)
  then show ?thesis using False assms be_to_cpu_data_type_little [of t n "s @ rest"]
    by (simp add: raw_data_def swap_bytes_append)
qed

section \<open>Raw mode\<close>

lemma data_bytes_raw:
  assumes "data_bytes cfg < 2 ^ 32"
  shows "unat (samples cfg * word_of_nat (size_of_a_sample (data_type cfg))) = data_bytes cfg"
proof -
  have "size_of_a_sample (data_type cfg) < 2 ^ 32" using size_of_a_sample_le [of "data_type cfg"] by simp
  then show ?thesis using assms by (simp add: unat_word_ariths data_bytes_def unat_of_nat take_bit_eq_mod)
qed

lemma compress_raw_NULL:
  assumes "dst b = None"
  shows "compress_raw big cfg b off = Some (off + word_of_nat (8 * data_bytes cfg), b)"
  using assms by (simp add: compress_raw_def Let_def data_bytes_def algebra_simps)

lemma compress_raw_small:
  assumes "dst b = Some p" and "unat off div 8 + data_bytes cfg < 2 ^ 32"
    and "unat (stream_size cfg) < unat off div 8 + data_bytes cfg"
  shows "compress_raw big cfg b off = Some (CMP_ERROR CMP_ERROR_SMALL_BUFFER, b)"
proof -
  have "unat (drop_bit 3 off + samples cfg * word_of_nat (size_of_a_sample (data_type cfg))) = unat off div 8 + data_bytes cfg"
    using assms(2) data_bytes_raw [of cfg] by (subst unat_add_small) (simp_all add: unat_drop_bit)
  then show ?thesis using assms(1,3)
    by (cases p) (simp add: compress_raw_def Let_def word_less_nat_alt)
qed

lemma compress_raw_ok:
  assumes dst: "dst b = Some (a, d)" and k: "k = unat off div 8" and n: "n = data_bytes cfg"
    and size: "size_of_a_sample (data_type cfg) \<noteq> 0"
    and src: "n \<le> length (bytes_at (src b))" and fits: "k + n \<le> length d" "k + n \<le> unat (stream_size cfg)"
  shows "compress_raw big cfg b off = Some (off + word_of_nat (8 * n),
    b\<lparr>dst := Some (a, take k d @ raw_data big (data_type cfg) (take n (bytes_at (src b))) @ drop (k + n) d)\<rparr>)"
proof -
  let ?raw = "samples cfg * word_of_nat (size_of_a_sample (data_type cfg)) :: u32"
  let ?s = "take n (bytes_at (src b))"
  have small: "k + n < 4294967296" by (rule le_less_trans [OF fits(2) unat_u32_less])
  then have raw: "unat ?raw = n" using data_bytes_raw [of cfg] by (simp add: n)
  have off: "unat (drop_bit 3 off) = k" by (simp add: unat_drop_bit k)
  have "unat (drop_bit 3 off + ?raw) = k + n" using small raw off by (subst unat_add_small) simp_all
  then have room: "\<not> stream_size cfg < drop_bit 3 off + ?raw" using fits(2) by (simp add: word_less_nat_alt)
  have "n mod size_of_a_sample (data_type cfg) = 0" by (simp add: n data_bytes_def)
  then have be: "be_to_cpu_data_type big (Some (?s @ drop (k + n) d)) ?raw (data_type cfg) =
      Some (0, Some (raw_data big (data_type cfg) ?s @ drop (k + n) d))"
    using src raw size by (intro be_to_cpu_data_type_prefix) simp_all
  have "off + ?raw * 8 = off + word_of_nat (8 * n)" by (simp add: n data_bytes_def algebra_simps)
  then show ?thesis
    using src fits room be by (simp add: compress_raw_def Let_def dst raw off store_bytes_def)
qed

section \<open>Coded data\<close>

text \<open>The bytes that begin with the bits of a code.\<close>

definition holds_code :: "bool list \<Rightarrow> buffer \<Rightarrow> bool" where
  "holds_code code p \<longleftrightarrow> length code \<le> 8 * length p \<and> take (length code) (bits_of_bytes p) = code"

lemma pad_bits: "unat (32 - (x AND 0x1F) :: u32) = 32 - unat x mod 32"
  by (subst unat_sub) (simp_all add: unat_and_31 word_le_nat_alt)

lemma pad_room: "L mod 32 = 0 \<Longrightarrow> k \<le> L \<Longrightarrow> k mod 32 \<noteq> 0 \<Longrightarrow> k + (32 - k mod 32) \<le> (L :: nat)"
proof -
  assume L: "L mod 32 = 0" and k: "k \<le> L" "k mod 32 \<noteq> 0"
  have "k div 32 < L div 32"
  proof (rule ccontr)
    assume "\<not> k div 32 < L div 32"
    then have "L div 32 * 32 \<le> k div 32 * 32" by simp
    then show False using L k div_mult_mod_eq [of k 32] div_mult_mod_eq [of L 32] by linarith
  qed
  then have "(k div 32 + 1) * 32 \<le> L div 32 * 32" by (intro mult_le_mono1) simp
  moreover have "k mod 32 < 32" by simp
  ultimately show ?thesis using L div_mult_mod_eq [of k 32] div_mult_mod_eq [of L 32]
    by (simp only: add_mult_distrib)
qed

lemma pad_bitstream_ok:
  assumes mode: "cmp_mode cfg \<noteq> CMP_MODE_RAW" and dst: "dst b = Some (a, d)"
    and lim: "lim = cmp_stream_size_to_bits (stream_size cfg)" "writable d lim"
    and fit: "unat len \<le> unat lim"
  obtains d' where "pad_bitstream cfg b len = Some (len, b\<lparr>dst := Some (a, d')\<rparr>)"
    and "length d' = length d" and "take (unat len) (bits_of_bytes d') = take (unat len) (bits_of_bytes d)"
proof (cases "unat len mod 32 = 0")
  case True
  then have "\<not> 32 - (len AND 0x1F) < (32 :: u32)" by (simp add: word_less_nat_alt pad_bits)
  then show ?thesis using that [of d] mode dst
    by (cases b) (simp add: pad_bitstream_def Let_def)
next
  case False
  let ?n = "32 - (len AND 0x1F) :: u32"
  have n: "0 < unat ?n" "unat ?n \<le> 32" "unat ?n < 32" using False by (simp_all add: pad_bits)
  have "unat lim mod 32 = 0" using lim(2) by (simp add: writable_def)
  then have "unat len + unat ?n \<le> unat lim" using fit False unfolding pad_bits by (intro pad_room)
  from put_n_bits32_fits [OF n(1,2) this lim(2), of 0] obtain d'
    where put: "put_n_bits32 0 ?n len (Some d) lim = Some (?n + len, Some d')" and ld: "length d' = length d"
      and bits: "bits_of_bytes d' = put_bits (unat len) (bits_msb (unat ?n) (0 :: u32)) (bits_of_bytes d)"
    by blast
  have "\<not> cmp_is_error (?n + len)"
  proof -
    have "unat len + unat ?n < 4294967296"
      by (rule le_less_trans [OF \<open>unat len + unat ?n \<le> unat lim\<close> unat_u32_less])
    then have "unat (?n + len) = unat ?n + unat len" by (subst unat_add_small) simp_all
    then show ?thesis using \<open>unat len + unat ?n \<le> unat lim\<close> lim(2) by (simp add: cmp_is_error_iff writable_def)
  qed
  moreover have "?n < 32" using n(3) by (simp add: word_less_nat_alt)
  ultimately have "pad_bitstream cfg b len = Some (len, b\<lparr>dst := Some (a, d')\<rparr>)"
    using mode dst put by (simp add: pad_bitstream_def Let_def lim(1))
  moreover have "take (unat len) (bits_of_bytes d') = take (unat len) (bits_of_bytes d)"
    using fit lim(2) by (simp add: bits put_bits_def writable_def min_def)
  ultimately show ?thesis using that ld by blast
qed

lemma pad_bitstream_NULL: "dst b = None \<Longrightarrow> pad_bitstream cfg b l = Some (l, b)"
  by (simp add: pad_bitstream_def)

abbreviation codes :: "bool \<Rightarrow> cmp_cfg \<Rightarrow> buffer \<Rightarrow> buffer \<Rightarrow> bool list" where
  "codes big cfg \<equiv> op_codes (coded_ops big (data_type cfg)) cfg"

abbreviation next_model :: "bool \<Rightarrow> cmp_cfg \<Rightarrow> buffer \<Rightarrow> buffer \<Rightarrow> buffer" where
  "next_model big cfg \<equiv> op_next_model (coded_ops big (data_type cfg)) cfg"

text \<open>The conditions on a call that the checks of the compressor establish.\<close>

definition call_ok :: "cmp_cfg \<Rightarrow> cmp_bufs \<Rightarrow> u32 \<Rightarrow> bool" where
  "call_ok cfg b off \<longleftrightarrow> data_type cfg \<in> coded_types \<and> coding_cfg cfg \<and>
     data_bytes cfg \<le> length (bytes_at (src b)) \<and> models_ok (data_bytes cfg) cfg b \<and>
     unat off mod 8 = 0 \<and> \<not> cmp_is_error off"

lemma compress_data_internal_coded:
  assumes "call_ok cfg b off"
  shows "compress_data_internal big (Some cfg) b off = do {
      (size, b) \<leftarrow> op_compress (coded_ops big (data_type cfg)) cfg b off;
      if cmp_is_error size then Some (size, b) else pad_bitstream cfg b size
    }"
proof -
  have "unat (off AND 7) = 0" using assms by (simp only: unat_and_7 call_ok_def)
  then have "off AND 7 = 0" by (simp only: unsigned_eq_0_iff)
  then show ?thesis using assms
    by (simp add: compress_data_internal_def call_ok_def coding_cfg_def raw_mode_is_used_def compress_by_type_ops)
qed

lemma mult_div_8: "k mod 8 = 0 \<Longrightarrow> 8 * (k div 8) = (k :: nat)"
  by (metis dvd_mult_div_cancel mod_0_imp_dvd)

lemma compress_coded_fits:
  fixes big :: bool
  assumes call: "call_ok cfg b off" and dst: "dst b = Some (a, d)"
    and wr: "writable d (cmp_stream_size_to_bits (stream_size cfg))"
  defines "code \<equiv> codes big cfg (bytes_at (src b)) (bytes_at (model_buf b))"
  assumes fits: "unat off + length code \<le> unat (cmp_stream_size_to_bits (stream_size cfg))"
  obtains b' d' where "compress_data_internal big (Some cfg) b off = Some (off + word_of_nat (length code), b')"
    and "dst b' = Some (a, d')" and "length d' = length d" and "take (unat off div 8) d' = take (unat off div 8) d"
    and "holds_code code (drop (unat off div 8) d')"
    and "b'\<lparr>dst := dst b\<rparr> = with_next_model (data_bytes cfg) cfg
      (next_model big cfg (bytes_at (src b)) (bytes_at (model_buf b))) b"
proof -
  let ?lim = "cmp_stream_size_to_bits (stream_size cfg)" and ?ops = "coded_ops big (data_type cfg)"
  note c = call [unfolded call_ok_def]
  have ne: "\<not> cmp_is_error off" using c by simp
  have "wrote code off ?lim (map_option snd (dst b)) (stream_written (op_compress ?ops cfg b off))"
    unfolding code_def using c by (intro codec.compress_writes) auto
  then obtain d1 where len1: "length d1 = length d"
    and "stream_written (op_compress ?ops cfg b off) = Some (off + word_of_nat (length code), Some d1)"
    and bits1: "bits_of_bytes d1 = put_bits (unat off) code (bits_of_bytes d)"
    using fits wr ne by (auto simp: wrote_def dst)
  then obtain b1 a1 where run: "op_compress ?ops cfg b off = Some (off + word_of_nat (length code), b1)"
    and b1: "dst b1 = Some (a1, d1)" by (auto simp: stream_written_def)
  have "model_frame (model_bytes cfg) b b1" using c run by (intro codec.compress_frame) auto
  then have a1: "a1 = a" using b1 dst by (auto simp: model_frame_def)
  have lim: "unat ?lim \<le> 4294967168" "unat ?lim \<le> 8 * length d" using wr by (simp_all add: writable_def)
  have size: "unat (off + word_of_nat (length code)) = unat off + length code"
    using fits lim by (subst unat_add_small) (simp_all add: unat_of_nat take_bit_eq_mod)
  have err: "\<not> cmp_is_error (off + word_of_nat (length code))"
    using fits lim by (simp add: cmp_is_error_iff size)
  have models: "b1\<lparr>dst := dst b\<rparr> = with_next_model (data_bytes cfg) cfg
      (next_model big cfg (bytes_at (src b)) (bytes_at (model_buf b))) b"
    using c run err by (intro codec.compress_models) auto
  obtain d' where pad: "pad_bitstream cfg b1 (off + word_of_nat (length code)) =
      Some (off + word_of_nat (length code), b1\<lparr>dst := Some (a, d')\<rparr>)" and len': "length d' = length d1"
    and bits': "take (unat off + length code) (bits_of_bytes d') = take (unat off + length code) (bits_of_bytes d1)"
    using pad_bitstream_ok [of cfg b1 a1 d1 ?lim "off + word_of_nat (length code)"] c b1 a1 wr fits len1
    by (auto simp: size writable_def coding_cfg_def)
  have bits: "take (unat off + length code) (bits_of_bytes d') = take (unat off) (bits_of_bytes d) @ code"
    using fits lim by (simp add: bits' bits1 put_bits_def)
  have o8: "8 * (unat off div 8) = unat off" using c by (intro mult_div_8) simp
  have "take (unat off) (bits_of_bytes d') = take (unat off) (bits_of_bytes d)"
    using arg_cong [OF bits, of "take (unat off)"] fits lim by (simp add: min_def)
  then have "bits_of_bytes (take (unat off div 8) d') = bits_of_bytes (take (unat off div 8) d)"
    by (simp add: bits_of_bytes_take o8)
  then have t: "take (unat off div 8) d' = take (unat off div 8) d" by (rule bits_of_bytes_inj)
  have "take (length code) (drop (unat off) (bits_of_bytes d')) = code"
    using arg_cong [OF bits, of "drop (unat off)"] fits lim by (simp add: drop_take)
  then have "holds_code code (drop (unat off div 8) d')"
    using fits lim len' len1 by (auto simp: holds_code_def bits_of_bytes_drop o8)
  moreover have "compress_data_internal big (Some cfg) b off =
      Some (off + word_of_nat (length code), b1\<lparr>dst := Some (a, d')\<rparr>)"
    using err by (simp add: compress_data_internal_coded [OF call] run pad)
  ultimately show ?thesis using that [of "b1\<lparr>dst := Some (a, d')\<rparr>" d'] t len' len1 models by simp
qed

lemma compress_coded_small:
  assumes call: "call_ok cfg b off" and dst: "dst b = Some (a, d)"
    and wr: "writable d (cmp_stream_size_to_bits (stream_size cfg))"
    and big: "unat (cmp_stream_size_to_bits (stream_size cfg)) <
      unat off + length (codes big cfg (bytes_at (src b)) (bytes_at (model_buf b)))"
    and off: "unat off \<le> 8 * length d"
  obtains b' d' where "compress_data_internal big (Some cfg) b off = Some (CMP_ERROR CMP_ERROR_SMALL_BUFFER, b')"
    and "dst b' = Some (a, d')" and "length d' = length d" and "take (unat off div 8) d' = take (unat off div 8) d"
    and "model_frame (model_bytes cfg) b b'"
proof -
  let ?lim = "cmp_stream_size_to_bits (stream_size cfg)" and ?ops = "coded_ops big (data_type cfg)"
  let ?code = "codes big cfg (bytes_at (src b)) (bytes_at (model_buf b))"
  note c = call [unfolded call_ok_def]
  have ne: "\<not> cmp_is_error off" using c by simp
  have "wrote ?code off ?lim (map_option snd (dst b)) (stream_written (op_compress ?ops cfg b off))"
    using c by (intro codec.compress_writes) auto
  then obtain d' where len: "length d' = length d"
    and "stream_written (op_compress ?ops cfg b off) = Some (CMP_ERROR CMP_ERROR_SMALL_BUFFER, Some d')"
    and bits: "take (unat off) (bits_of_bytes d') = take (unat off) (bits_of_bytes d)"
    using big wr ne by (auto simp: wrote_def dst)
  then obtain b' a' where run: "op_compress ?ops cfg b off = Some (CMP_ERROR CMP_ERROR_SMALL_BUFFER, b')"
    and b': "dst b' = Some (a', d')" by (auto simp: stream_written_def)
  have fr: "model_frame (model_bytes cfg) b b'" using c run by (intro codec.compress_frame) auto
  then have a': "a' = a" using b' dst by (auto simp: model_frame_def)
  have o8: "8 * (unat off div 8) = unat off" using c by (intro mult_div_8) simp
  have "bits_of_bytes (take (unat off div 8) d') = bits_of_bytes (take (unat off div 8) d)"
    using bits by (simp add: bits_of_bytes_take o8)
  then have t: "take (unat off div 8) d' = take (unat off div 8) d" by (rule bits_of_bytes_inj)
  have "compress_data_internal big (Some cfg) b off = Some (CMP_ERROR CMP_ERROR_SMALL_BUFFER, b')"
    by (simp add: compress_data_internal_coded [OF call] run)
  then show ?thesis using that b' a' len t fr by blast
qed

lemma compress_coded_NULL:
  fixes big :: bool
  assumes call: "call_ok cfg b off" and dst: "dst b = None"
  defines "code \<equiv> codes big cfg (bytes_at (src b)) (bytes_at (model_buf b))"
  assumes fits: "unat off + length code \<le> 4294967168"
  obtains b' where "compress_data_internal big (Some cfg) b off = Some (off + word_of_nat (length code), b')"
    and "dst b' = None"
    and "b'\<lparr>dst := dst b\<rparr> = with_next_model (data_bytes cfg) cfg
      (next_model big cfg (bytes_at (src b)) (bytes_at (model_buf b))) b"
proof -
  let ?ops = "coded_ops big (data_type cfg)"
  note c = call [unfolded call_ok_def]
  have "wrote code off (cmp_stream_size_to_bits (stream_size cfg)) (map_option snd (dst b))
      (stream_written (op_compress ?ops cfg b off))"
    unfolding code_def using c by (intro codec.compress_writes) auto
  then have "stream_written (op_compress ?ops cfg b off) = Some (off + word_of_nat (length code), None)"
    using fits by (simp add: wrote_def dst)
  then obtain b' where run: "op_compress ?ops cfg b off = Some (off + word_of_nat (length code), b')"
    and b': "dst b' = None" by (auto simp: stream_written_def)
  have size: "unat (off + word_of_nat (length code)) = unat off + length code"
    using fits by (subst unat_add_small) (simp_all add: unat_of_nat take_bit_eq_mod)
  have err: "\<not> cmp_is_error (off + word_of_nat (length code))"
    using fits by (simp add: cmp_is_error_iff size)
  have models: "b'\<lparr>dst := dst b\<rparr> = with_next_model (data_bytes cfg) cfg
      (next_model big cfg (bytes_at (src b)) (bytes_at (model_buf b))) b"
    using c run err by (intro codec.compress_models) auto
  have "compress_data_internal big (Some cfg) b off = Some (off + word_of_nat (length code), b')"
    using err by (simp add: compress_data_internal_coded [OF call] run pad_bitstream_NULL [OF b'])
  then show ?thesis using that b' models by blast
qed

end
