(* ===== verification/Header_Fields.thy ===== *)
theory Header_Fields
  imports Byte_Swap
begin

text \<open>
  Fields of packed headers. The C code keeps the collection header and the compression entity in
  big-endian byte order: it assigns a value converted with \<open>cpu_to_be..\<close> to a field of a packed
  structure, which the CPU stores in its own byte order, and reads it the same way
  (\<open>lib/common/byteorder.h\<close>). The model follows these two steps; that they amount to a
  big-endian load or store, on either CPU, is a law of every field.
\<close>

section \<open>Conversions\<close>

definition swab64 :: "u64 \<Rightarrow> u64" where
  "swab64 x = push_bit 56 (x AND 0x00000000000000ff) OR push_bit 40 (x AND 0x000000000000ff00) OR
     push_bit 24 (x AND 0x0000000000ff0000) OR push_bit 8 (x AND 0x00000000ff000000) OR
     drop_bit 8 (x AND 0x000000ff00000000) OR drop_bit 24 (x AND 0x0000ff0000000000) OR
     drop_bit 40 (x AND 0x00ff000000000000) OR drop_bit 56 (x AND 0xff00000000000000)"

definition be64_to_cpu :: "bool \<Rightarrow> u64 \<Rightarrow> u64" where
  "be64_to_cpu big x = (if big then x else swab64 x)"

abbreviation "cpu_to_be16 \<equiv> be16_to_cpu"
abbreviation "cpu_to_be32 \<equiv> be32_to_cpu"
abbreviation "cpu_to_be64 \<equiv> be64_to_cpu"

text \<open>Reading and assigning a member of \<open>n\<close> bytes at the offset \<open>off\<close> of a packed structure.\<close>

definition load_field :: "bool \<Rightarrow> nat \<Rightarrow> nat \<Rightarrow> buffer \<Rightarrow> 'a::len word option" where
  "load_field big n off buf =
     (if off + n \<le> length buf then Some (host_word big (take n (drop off buf))) else None)"

definition store_field :: "bool \<Rightarrow> nat \<Rightarrow> nat \<Rightarrow> 'a::len word \<Rightarrow> buffer \<Rightarrow> buffer option" where
  "store_field big n off w buf = store_bytes off (host_bytes big n w) buf"

text \<open>
  Members of 8, 16, 24, 32 and 48 bits. On a little-endian CPU the 24-bit members are converted
  as 32-bit words and shifted, the 48-bit members as 64-bit words.
\<close>

definition get_be8 :: "bool \<Rightarrow> nat \<Rightarrow> buffer \<Rightarrow> u8 option" where
  "get_be8 big off buf = load_field big 1 off buf"

definition set_be8 :: "bool \<Rightarrow> nat \<Rightarrow> u8 \<Rightarrow> buffer \<Rightarrow> buffer option" where
  "set_be8 big off v buf = store_field big 1 off v buf"

definition get_be16 :: "bool \<Rightarrow> nat \<Rightarrow> buffer \<Rightarrow> u16 option" where
  "get_be16 big off buf = map_option (be16_to_cpu big) (load_field big 2 off buf)"

definition set_be16 :: "bool \<Rightarrow> nat \<Rightarrow> u16 \<Rightarrow> buffer \<Rightarrow> buffer option" where
  "set_be16 big off v buf = store_field big 2 off (cpu_to_be16 big v) buf"

definition get_be24 :: "bool \<Rightarrow> nat \<Rightarrow> buffer \<Rightarrow> u32 option" where
  "get_be24 big off buf =
     (if big then load_field big 3 off buf
      else map_option (\<lambda>x. drop_bit 8 (be32_to_cpu big x)) (load_field big 3 off buf))"

definition set_be24 :: "bool \<Rightarrow> nat \<Rightarrow> u32 \<Rightarrow> buffer \<Rightarrow> buffer option" where
  "set_be24 big off v buf =
     (if big then store_field big 3 off v buf
      else store_field big 3 off (drop_bit 8 (cpu_to_be32 big v)) buf)"

definition get_be32 :: "bool \<Rightarrow> nat \<Rightarrow> buffer \<Rightarrow> u32 option" where
  "get_be32 big off buf = map_option (be32_to_cpu big) (load_field big 4 off buf)"

definition set_be32 :: "bool \<Rightarrow> nat \<Rightarrow> u32 \<Rightarrow> buffer \<Rightarrow> buffer option" where
  "set_be32 big off v buf = store_field big 4 off (cpu_to_be32 big v) buf"

definition get_be48 :: "bool \<Rightarrow> nat \<Rightarrow> buffer \<Rightarrow> u64 option" where
  "get_be48 big off buf =
     (if big then load_field big 6 off buf
      else map_option (\<lambda>x. drop_bit 16 (be64_to_cpu big x)) (load_field big 6 off buf))"

definition set_be48 :: "bool \<Rightarrow> nat \<Rightarrow> u64 \<Rightarrow> buffer \<Rightarrow> buffer option" where
  "set_be48 big off v buf =
     (if big then store_field big 6 off v buf
      else store_field big 6 off (drop_bit 16 (cpu_to_be64 big v)) buf)"

section \<open>Converted members are big-endian\<close>

text \<open>The bytes of a word, as the bits of the lists they are made of.\<close>

lemma bit_ucast_drop_bit:
  fixes w :: "'a::len word"
  shows "bit (ucast (drop_bit m w) :: u8) j \<longleftrightarrow> j < 8 \<and> bit w (m + j)"
  by (auto simp: bit_ucast_iff bit_drop_bit_eq dest: bit_imp_le_length)

lemma nth_be_bytes: "i < n \<Longrightarrow> be_bytes n w ! i = ucast (drop_bit (8 * (n - 1 - i)) w)"
  by (simp add: be_bytes_def rev_nth)

lemma be_bytes_eqI:
  fixes v :: "'a::len word" and w :: "'b::len word"
  assumes "\<And>i j. i < n \<Longrightarrow> j < 8 \<Longrightarrow> bit v (8 * i + j) = bit w (8 * (n - 1 - i) + j)"
  shows "rev (be_bytes n v) = be_bytes n w"
proof (rule nth_equalityI)
  fix i assume "i < length (rev (be_bytes n v))"
  then have i: "i < n" by simp
  show "rev (be_bytes n v) ! i = be_bytes n w ! i"
    using i assms [OF i] by (intro bit_word_eqI) (simp add: rev_nth nth_be_bytes bit_ucast_drop_bit)
qed simp

lemma less_8_cases: "j < (8 :: nat) \<Longrightarrow> j \<in> {0, 1, 2, 3, 4, 5, 6, 7}"
  by (simp only: insert_iff empty_iff) arith

lemma swab_bytes_16: "rev (be_bytes 2 (swab16 v)) = be_bytes 2 v"
proof (rule be_bytes_eqI)
  fix i j :: nat assume "i < 2" "j < 8"
  then have "i = 0 \<or> i = 1" "j \<in> {0, 1, 2, 3, 4, 5, 6, 7}" by (auto intro: less_8_cases)
  then show "bit (swab16 v) (8 * i + j) = bit v (8 * (2 - 1 - i) + j)"
    unfolding swab16_def by (elim insertE disjE) (simp_all add: bit_simps numeral_2_eq_2)
qed

lemma bit_masked_byte:
  fixes x :: "'a::len word"
  shows "bit (push_bit s (x AND push_bit m (mask 8))) k \<longleftrightarrow>
      s + m \<le> k \<and> k < s + m + 8 \<and> k < LENGTH('a) \<and> bit x (k - s)"
    and "bit (drop_bit s (x AND push_bit m (mask 8))) k \<longleftrightarrow> m \<le> s + k \<and> s + k < m + 8 \<and> bit x (s + k)"
  by (auto simp: bit_push_bit_iff bit_drop_bit_eq bit_and_iff bit_mask_iff dest: bit_imp_le_length)

lemma byte_masks:
  "(0x00000000000000ff :: u64) = push_bit 0 (mask 8)" "(0x000000000000ff00 :: u64) = push_bit 8 (mask 8)"
  "(0x0000000000ff0000 :: u64) = push_bit 16 (mask 8)" "(0x00000000ff000000 :: u64) = push_bit 24 (mask 8)"
  "(0x000000ff00000000 :: u64) = push_bit 32 (mask 8)" "(0x0000ff0000000000 :: u64) = push_bit 40 (mask 8)"
  "(0x00ff000000000000 :: u64) = push_bit 48 (mask 8)" "(0xff00000000000000 :: u64) = push_bit 56 (mask 8)"
  by (simp_all add: mask_numeral)

lemma byte_masks_32:
  "(0x000000ff :: u32) = push_bit 0 (mask 8)" "(0x0000ff00 :: u32) = push_bit 8 (mask 8)"
  "(0x00ff0000 :: u32) = push_bit 16 (mask 8)" "(0xff000000 :: u32) = push_bit 24 (mask 8)"
  by (simp_all add: mask_numeral)

lemma bit_swab32: "q < 4 \<Longrightarrow> r < 8 \<Longrightarrow> bit (swab32 v) (8 * q + r) = bit v (8 * (3 - q) + r)"
proof -
  assume "q < 4" and r: "r < 8"
  then consider "q = 0" | "q = 1" | "q = 2" | "q = 3" by linarith
  then show ?thesis
    unfolding swab32_def byte_masks_32 bit_or_iff bit_masked_byte
    by cases (use r in \<open>simp_all add: add.commute\<close>)
qed

lemma bit_swab64: "q < 8 \<Longrightarrow> r < 8 \<Longrightarrow> bit (swab64 v) (8 * q + r) = bit v (8 * (7 - q) + r)"
proof -
  assume "q < 8" and r: "r < 8"
  then have "q \<in> {0, 1, 2, 3, 4, 5, 6, 7}" by (intro less_8_cases)
  then show ?thesis
    unfolding swab64_def byte_masks bit_or_iff bit_masked_byte
    by (elim insertE) (use r in \<open>simp_all add: add.commute\<close>)
qed

lemma swab_bytes_32: "rev (be_bytes 4 (swab32 v)) = be_bytes 4 v"
  by (rule be_bytes_eqI) (subst bit_swab32, simp_all)

lemma swab_bytes_24: "rev (be_bytes 3 (drop_bit 8 (swab32 v))) = be_bytes 3 v"
proof (rule be_bytes_eqI)
  fix i j :: nat assume ij: "i < 3" "j < 8"
  have k: "8 + (8 * i + j) = 8 * (i + 1) + j" by simp
  show "bit (drop_bit 8 (swab32 v)) (8 * i + j) = bit v (8 * (3 - 1 - i) + j)"
    unfolding bit_drop_bit_eq comp_def k using ij bit_swab32 [of "i + 1" j v] by simp
qed

lemma swab_bytes_48: "rev (be_bytes 6 (drop_bit 16 (swab64 v))) = be_bytes 6 v"
proof (rule be_bytes_eqI)
  fix i j :: nat assume ij: "i < 6" "j < 8"
  have k: "16 + (8 * i + j) = 8 * (i + 2) + j" by simp
  show "bit (drop_bit 16 (swab64 v)) (8 * i + j) = bit v (8 * (6 - 1 - i) + j)"
    unfolding bit_drop_bit_eq comp_def k using ij by (subst bit_swab64) simp_all
qed

text \<open>Storing and loading the members.\<close>

lemma host_bytes_8: "host_bytes big 1 w = be_bytes 1 w"
  by (simp add: host_bytes_def be_bytes_def)

lemma host_bytes_be:
  "host_bytes big 2 (be16_to_cpu big u) = be_bytes 2 u"
  "host_bytes big 4 (be32_to_cpu big v) = be_bytes 4 v"
  "host_bytes False 3 (drop_bit 8 (be32_to_cpu False v)) = be_bytes 3 v"
  "host_bytes False 6 (drop_bit 16 (be64_to_cpu False w)) = be_bytes 6 w"
  by (simp_all add: host_bytes_def be16_to_cpu_def be32_to_cpu_def be64_to_cpu_def
      swab_bytes_16 swab_bytes_24 swab_bytes_32 swab_bytes_48)

lemma set_be_store:
  "set_be8 big off b buf = store_be 1 off b buf"
  "set_be16 big off h buf = store_be 2 off h buf"
  "set_be24 big off v buf = store_be 3 off v buf"
  "set_be32 big off v buf = store_be 4 off v buf"
  "set_be48 big off w buf = store_be 6 off w buf"
  by (simp_all add: set_be8_def set_be16_def set_be24_def set_be32_def set_be48_def store_field_def
      store_be_def host_bytes_be host_bytes_8 [simplified One_nat_def]) (simp_all add: host_bytes_def)

text \<open>
  A word whose bytes in memory are the given ones is the big-endian word of these bytes; so is
  every conversion of a word in the order of the CPU.
\<close>

lemma be_word_of_bytes:
  fixes v :: "'a::len word"
  assumes "be_bytes n v = bs" and "8 * n \<le> LENGTH('a)" and "unat v < 2 ^ (8 * n)"
  shows "v = be_word bs"
  using be_word_be_bytes [of n v] assms by (auto simp: unat_less_iff_bits)

lemma unat_drop_bit_less:
  fixes v :: "'a::len word"
  assumes "LENGTH('a) = m + k"
  shows "unat (drop_bit m v) < 2 ^ k"
  using unat_less_2p [of v] by (simp add: unat_drop_bit assms power_add less_mult_imp_div_less mult.commute)

lemma swapped_word:
  fixes x v :: "'a::len word"
  assumes "rev (be_bytes n v) = be_bytes n x" and "x = be_word (rev bs)" and "length bs = n"
    and "8 * n \<le> LENGTH('a)" and "unat v < 2 ^ (8 * n)"
  shows "v = be_word bs"
proof -
  have "be_bytes n x = rev bs" using be_bytes_be_word [of "rev bs", where 'a = 'a] assms by simp
  then have "be_bytes n v = bs" using assms(1) by simp
  then show ?thesis using assms(4,5) by (rule be_word_of_bytes)
qed

lemma host_word_be:
  "length bs = 2 \<Longrightarrow> be16_to_cpu big (host_word big bs) = be_word bs"
  "length bs = 4 \<Longrightarrow> be32_to_cpu big (host_word big bs) = be_word bs"
  "length bs = 3 \<Longrightarrow> drop_bit 8 (be32_to_cpu False (host_word False bs)) = be_word bs"
  "length bs = 6 \<Longrightarrow> drop_bit 16 (be64_to_cpu False (host_word False bs)) = be_word bs"
  using swapped_word [OF swab_bytes_16 refl, of bs] swapped_word [OF swab_bytes_32 refl, of bs]
    swapped_word [OF swab_bytes_24 refl, of bs] swapped_word [OF swab_bytes_48 refl, of bs]
    unat_less_2p [of "swab16 (be_word (rev bs))"] unat_less_2p [of "swab32 (be_word (rev bs))"]
    unat_drop_bit_less [of 8 24 "swab32 (be_word (rev bs))"]
    unat_drop_bit_less [of 16 48 "swab64 (be_word (rev bs))"]
  by (auto simp: host_word_def be16_to_cpu_def be32_to_cpu_def be64_to_cpu_def)

lemma get_be_load:
  "get_be8 big off buf = load_be 1 off buf"
  "get_be16 big off buf = load_be 2 off buf"
  "get_be24 big off buf = load_be 3 off buf"
  "get_be32 big off buf = load_be 4 off buf"
  "get_be48 big off buf = load_be 6 off buf"
proof -
  have one: "length bs = 1 \<Longrightarrow> host_word big bs = be_word bs" for bs
    by (auto simp: host_word_def length_Suc_conv)
  show "get_be8 big off buf = load_be 1 off buf"
    by (simp add: get_be8_def load_field_def load_be_def one)
  show "get_be16 big off buf = load_be 2 off buf" "get_be24 big off buf = load_be 3 off buf"
    "get_be32 big off buf = load_be 4 off buf" "get_be48 big off buf = load_be 6 off buf"
    by (auto simp: get_be16_def get_be24_def get_be32_def get_be48_def load_field_def load_be_def host_word_be
        host_word_def [of True])
qed

section \<open>Loads and stores of members\<close>

lemma load_store_same:
  fixes v :: "'a::len word"
  assumes "store_be n off v buf = Some buf'" and "8 * n \<le> LENGTH('a)" and "unat v < 2 ^ (8 * n)"
  shows "load_be n off buf' = Some v"
proof -
  have "be_word (be_bytes n v) = v"
    using assms(2,3) by (intro be_word_be_bytes) (auto simp: unat_less_iff_bits)
  then show ?thesis
    using assms(1) by (auto simp: store_be_def store_bytes_def load_be_def split: if_splits)
qed

lemma load_store_other:
  assumes "store_be n off v buf = Some buf'" and "m + k \<le> off \<or> off + n \<le> m"
  shows "load_be k m buf' = load_be k m buf"
proof -
  have off: "off + n \<le> length buf" and b: "buf' = take off buf @ be_bytes n v @ drop (off + n) buf"
    using assms(1) by (auto simp: store_be_def store_bytes_def split: if_splits)
  have len: "length buf' = length buf" using off b by simp
  have "take k (drop m buf') = take k (drop m buf)" if "m + k \<le> length buf"
  proof (rule nth_equalityI)
    show "take k (drop m buf') ! i = take k (drop m buf) ! i" if "i < length (take k (drop m buf'))" for i
      using that off assms(2) \<open>m + k \<le> length buf\<close> by (auto simp: b nth_append)
  qed (simp add: len)
  then show ?thesis by (simp add: load_be_def len)
qed

lemma store_be_drop:
  "store_be n off v buf = Some buf' \<Longrightarrow> off + n \<le> k \<Longrightarrow> drop k buf' = drop k buf"
  by (auto simp: store_be_def store_bytes_def split: if_splits)

lemma store_be_take:
  "store_be n off v buf = Some buf' \<Longrightarrow> k \<le> off \<Longrightarrow> take k buf' = take k buf"
  by (auto simp: store_be_def store_bytes_def split: if_splits)

text \<open>
  A member of a header: its getter and its setter, on either CPU, load and store it in big-endian
  byte order. What a client may rely on follows: a stored value is read back on any CPU, the
  header keeps its size, and no other member changes.
\<close>

locale be_member =
  fixes n off :: nat
    and getf :: "bool \<Rightarrow> buffer \<Rightarrow> 'a::len word option"
    and setf :: "bool \<Rightarrow> 'a word \<Rightarrow> buffer \<Rightarrow> buffer option"
  assumes width: "8 * n \<le> LENGTH('a)"
    and getf: "getf big buf = load_be n off buf"
    and setf: "setf big v buf = store_be n off v buf"
begin

lemma get_set:
  "setf big v buf = Some buf' \<Longrightarrow> unat v < 2 ^ (8 * n) \<Longrightarrow> getf big' buf' = Some v"
  using load_store_same width by (auto simp: getf setf)

lemma set_length: "setf big v buf = Some buf' \<Longrightarrow> length buf' = length buf"
  using store_be_length by (auto simp: setf)

lemma set_Some: "off + n \<le> length buf \<Longrightarrow> \<exists>buf'. setf big v buf = Some buf'"
  using store_be_Some by (simp add: setf)

lemma get_Some: "off + n \<le> length buf \<Longrightarrow> \<exists>v. getf big buf = Some v"
  using load_be_Some by (simp add: getf)

lemma set_other:
  "setf big v buf = Some buf' \<Longrightarrow> m + k \<le> off \<or> off + n \<le> m \<Longrightarrow> load_be k m buf' = load_be k m buf"
  unfolding setf by (rule load_store_other)

lemma get_less:
  assumes "getf big buf = Some v"
  shows "unat v < 2 ^ (8 * n)"
proof -
  have v: "v = be_word (take n (drop off buf))" "off + n \<le> length buf"
    using assms by (auto simp: getf load_be_def split: if_splits)
  then have len: "length (take n (drop off buf)) = n" by simp
  show ?thesis unfolding unat_less_iff_bits v(1)
    using bit_be_word_high [of "take n (drop off buf)"] len by metis
qed

end

interpretation be8: be_member 1 off "\<lambda>big. get_be8 big off" "\<lambda>big. set_be8 big off" for off
  by unfold_locales (simp_all add: get_be_load set_be_store)

interpretation be16: be_member 2 off "\<lambda>big. get_be16 big off" "\<lambda>big. set_be16 big off" for off
  by unfold_locales (simp_all add: get_be_load set_be_store)

interpretation be24: be_member 3 off "\<lambda>big. get_be24 big off" "\<lambda>big. set_be24 big off" for off
  by unfold_locales (simp_all add: get_be_load set_be_store)

interpretation be32: be_member 4 off "\<lambda>big. get_be32 big off" "\<lambda>big. set_be32 big off" for off
  by unfold_locales (simp_all add: get_be_load set_be_store)

interpretation be48: be_member 6 off "\<lambda>big. get_be48 big off" "\<lambda>big. set_be48 big off" for off
  by unfold_locales (simp_all add: get_be_load set_be_store)

section \<open>Setters of headers\<close>

text \<open>
  The result of a setter is its return value and the header after the call. \<open>hdr_set err p ok st\<close>
  is the shape of all of them: \<open>err\<close> for a NULL pointer, -1 for a value that is not \<open>ok\<close>, and
  0 after the store.
\<close>

type_synonym set_result = "(int \<times> buffer option) option"

definition hdr_set ::
  "int \<Rightarrow> buffer option \<Rightarrow> bool \<Rightarrow> (buffer \<Rightarrow> buffer option) \<Rightarrow> set_result" where
  "hdr_set err p ok st = (case p of
       None \<Rightarrow> Some (err, None)
     | Some b \<Rightarrow> if ok then map_option (\<lambda>b. (0, Some b)) (st b) else Some (- 1, Some b))"

end
