(* ===== verification/Bit_Fields.thy ===== *)
theory Bit_Fields
  imports Prelude
begin

text \<open>
  Bit fields of a word, as members of a C structure or as a mask and a shift in a register: the
  \<open>width\<close> bits above the lowest \<open>shift\<close> ones.
\<close>

definition get_bits :: "nat \<Rightarrow> nat \<Rightarrow> 'a::len word \<Rightarrow> 'a word" where
  "get_bits shift width w = drop_bit shift w AND mask width"

definition set_bits :: "nat \<Rightarrow> nat \<Rightarrow> 'a::len word \<Rightarrow> 'a word \<Rightarrow> 'a word" where
  "set_bits shift width v w =
     (w AND NOT (push_bit shift (mask width))) OR push_bit shift (v AND mask width)"

lemma bit_get_bits: "bit (get_bits s n w) k \<longleftrightarrow> k < n \<and> bit w (s + k)"
  by (auto simp: get_bits_def bit_and_iff bit_drop_bit_eq bit_mask_iff dest: bit_imp_le_length)

lemma bit_set_bits:
  "bit (set_bits s n v w) k \<longleftrightarrow>
     k < LENGTH('a) \<and> (if s \<le> k \<and> k < s + n then bit v (k - s) else bit w k)"
  for v w :: "'a::len word"
  by (auto simp: set_bits_def bit_or_iff bit_and_iff bit_not_iff bit_push_bit_iff bit_mask_iff
      dest: bit_imp_le_length)

text \<open>
  The contract of a field inside of a word: a value that fits is read back, other fields keep
  their value, and a value that was read and stored again changes nothing.
\<close>

locale bit_field =
  fixes shift width :: nat and getf :: "'a::len word \<Rightarrow> 'a word" and setf :: "'a word \<Rightarrow> 'a word \<Rightarrow> 'a word"
  assumes getf: "getf w = get_bits shift width w"
    and setf: "setf v w = set_bits shift width v w"
    and inside: "shift + width \<le> LENGTH('a)"
begin

lemma get_set: "getf (setf v w) = take_bit width v"
  using inside
  by (intro bit_word_eqI) (auto simp: getf setf bit_get_bits bit_set_bits bit_take_bit_iff)

lemma get_set_fits: "unat v < 2 ^ width \<Longrightarrow> getf (setf v w) = v"
  by (simp add: get_set take_bit_word_eq_self_iff)

lemma set_get: "setf (getf w) w = w"
  by (intro bit_word_eqI) (auto simp: getf setf bit_get_bits bit_set_bits)

lemma set_set: "setf v (setf u w) = setf v w"
  by (intro bit_word_eqI) (auto simp: setf bit_set_bits)

lemma set_other: "s + n \<le> shift \<or> shift + width \<le> s \<Longrightarrow> get_bits s n (setf v w) = get_bits s n w"
  using inside
  by (intro bit_word_eqI) (auto simp: setf bit_get_bits bit_set_bits dest: bit_imp_le_length)

lemma get_less: "unat (getf w) < 2 ^ width"
  by (auto simp: unat_less_iff_bits getf bit_get_bits)

end

end
