(* ===== verification/Collection_Header.thy ===== *)
theory Collection_Header
  imports Header_Fields Bit_Fields Cmp_Error
begin

text \<open>
  The header of a collection (\<open>struct collection_hdr\<close> and the \<open>cmp_col_get_..\<close> and
  \<open>cmp_col_set_..\<close> functions of \<open>lib/common/cmp_data_types.c\<close>): a 48-bit timestamp, the
  configuration id, the collection id with four bit fields, and the length of the data behind
  the header. A collection is the buffer that starts with its header; the setters take a pointer
  that may be NULL.
\<close>

definition COLLECTION_HDR_SIZE :: nat where
  "COLLECTION_HDR_SIZE = 12"

section \<open>Reading the header\<close>

definition cmp_col_get_timestamp :: "bool \<Rightarrow> buffer \<Rightarrow> u64 option" where
  "cmp_col_get_timestamp big col = get_be48 big 0 col"

definition cmp_col_get_configuration_id :: "bool \<Rightarrow> buffer \<Rightarrow> u16 option" where
  "cmp_col_get_configuration_id big col = get_be16 big 6 col"

definition cmp_col_get_col_id :: "bool \<Rightarrow> buffer \<Rightarrow> u16 option" where
  "cmp_col_get_col_id big col = get_be16 big 8 col"

text \<open>The members of \<open>union collection_id\<close>, whose layout does not depend on the CPU.\<close>

definition field_pkt_type :: "u16 \<Rightarrow> u16" where "field_pkt_type = get_bits 15 1"
definition field_subservice :: "u16 \<Rightarrow> u16" where "field_subservice = get_bits 9 6"
definition field_ccd_id :: "u16 \<Rightarrow> u16" where "field_ccd_id = get_bits 7 2"
definition field_sequence_num :: "u16 \<Rightarrow> u16" where "field_sequence_num = get_bits 0 7"

definition set_field_pkt_type :: "u16 \<Rightarrow> u16 \<Rightarrow> u16" where "set_field_pkt_type = set_bits 15 1"
definition set_field_subservice :: "u16 \<Rightarrow> u16 \<Rightarrow> u16" where "set_field_subservice = set_bits 9 6"
definition set_field_ccd_id :: "u16 \<Rightarrow> u16 \<Rightarrow> u16" where "set_field_ccd_id = set_bits 7 2"
definition set_field_sequence_num :: "u16 \<Rightarrow> u16 \<Rightarrow> u16" where "set_field_sequence_num = set_bits 0 7"

definition cmp_col_get_pkt_type :: "bool \<Rightarrow> buffer \<Rightarrow> u8 option" where
  "cmp_col_get_pkt_type big col = do {
     cid \<leftarrow> get_be16 big 8 col;
     Some (ucast (field_pkt_type cid))
   }"

definition cmp_col_get_subservice :: "bool \<Rightarrow> buffer \<Rightarrow> u8 option" where
  "cmp_col_get_subservice big col = do {
     cid \<leftarrow> get_be16 big 8 col;
     Some (ucast (field_subservice cid))
   }"

definition cmp_col_get_ccd_id :: "bool \<Rightarrow> buffer \<Rightarrow> u8 option" where
  "cmp_col_get_ccd_id big col = do {
     cid \<leftarrow> get_be16 big 8 col;
     Some (ucast (field_ccd_id cid))
   }"

definition cmp_col_get_sequence_num :: "bool \<Rightarrow> buffer \<Rightarrow> u8 option" where
  "cmp_col_get_sequence_num big col = do {
     cid \<leftarrow> get_be16 big 8 col;
     Some (ucast (field_sequence_num cid))
   }"

definition cmp_col_get_data_length :: "bool \<Rightarrow> buffer \<Rightarrow> u16 option" where
  "cmp_col_get_data_length big col = get_be16 big 10 col"

definition cmp_col_get_size :: "bool \<Rightarrow> buffer \<Rightarrow> u32 option" where
  "cmp_col_get_size big col = do {
     len \<leftarrow> cmp_col_get_data_length big col;
     Some (word_of_nat COLLECTION_HDR_SIZE + ucast len)
   }"

section \<open>Writing the header\<close>

definition cmp_col_set_timestamp :: "bool \<Rightarrow> buffer option \<Rightarrow> u64 \<Rightarrow> set_result" where
  "cmp_col_set_timestamp big col timestamp =
     hdr_set (- 1) col (drop_bit 48 timestamp = 0) (set_be48 big 0 timestamp)"

definition cmp_col_set_configuration_id :: "bool \<Rightarrow> buffer option \<Rightarrow> u16 \<Rightarrow> set_result" where
  "cmp_col_set_configuration_id big col configuration_id =
     hdr_set 1 col True (set_be16 big 6 configuration_id)"

definition cmp_col_set_col_id :: "bool \<Rightarrow> buffer option \<Rightarrow> u16 \<Rightarrow> set_result" where
  "cmp_col_set_col_id big col collection_id = hdr_set (- 1) col True (set_be16 big 8 collection_id)"

definition set_id_field ::
  "bool \<Rightarrow> buffer option \<Rightarrow> bool \<Rightarrow> (u16 \<Rightarrow> u16) \<Rightarrow> set_result" where
  "set_id_field big col ok upd = (case col of
       None \<Rightarrow> Some (- 1, None)
     | Some b \<Rightarrow> if ok then do {
         cid \<leftarrow> get_be16 big 8 b;
         (r, col) \<leftarrow> cmp_col_set_col_id big (Some b) (upd cid);
         Some (0, col)
       } else Some (- 1, Some b))"

definition cmp_col_set_pkt_type :: "bool \<Rightarrow> buffer option \<Rightarrow> u8 \<Rightarrow> set_result" where
  "cmp_col_set_pkt_type big col pkt_type =
     set_id_field big col (drop_bit 1 pkt_type = 0) (set_field_pkt_type (ucast pkt_type))"

definition cmp_col_set_subservice :: "bool \<Rightarrow> buffer option \<Rightarrow> u8 \<Rightarrow> set_result" where
  "cmp_col_set_subservice big col subservice =
     set_id_field big col (drop_bit 6 subservice = 0) (set_field_subservice (ucast subservice))"

definition cmp_col_set_ccd_id :: "bool \<Rightarrow> buffer option \<Rightarrow> u8 \<Rightarrow> set_result" where
  "cmp_col_set_ccd_id big col ccd_id =
     set_id_field big col (drop_bit 2 ccd_id = 0) (set_field_ccd_id (ucast ccd_id))"

definition cmp_col_set_sequence_num :: "bool \<Rightarrow> buffer option \<Rightarrow> u8 \<Rightarrow> set_result" where
  "cmp_col_set_sequence_num big col sequence_num =
     set_id_field big col (drop_bit 7 sequence_num = 0) (set_field_sequence_num (ucast sequence_num))"

definition cmp_col_set_data_length :: "bool \<Rightarrow> buffer option \<Rightarrow> u16 \<Rightarrow> set_result" where
  "cmp_col_set_data_length big col len = hdr_set (- 1) col True (set_be16 big 10 len)"

section \<open>The fields of the collection id\<close>

interpretation pkt_type_field: bit_field 15 1 field_pkt_type set_field_pkt_type
  by unfold_locales (simp_all add: field_pkt_type_def set_field_pkt_type_def)

interpretation subservice_field: bit_field 9 6 field_subservice set_field_subservice
  by unfold_locales (simp_all add: field_subservice_def set_field_subservice_def)

interpretation ccd_id_field: bit_field 7 2 field_ccd_id set_field_ccd_id
  by unfold_locales (simp_all add: field_ccd_id_def set_field_ccd_id_def)

interpretation sequence_num_field: bit_field 0 7 field_sequence_num set_field_sequence_num
  by unfold_locales (simp_all add: field_sequence_num_def set_field_sequence_num_def)

section \<open>The header as a record\<close>

text \<open>What the header says, independent of its bytes.\<close>

record collection_view =
  cv_timestamp :: u64
  cv_configuration_id :: u16
  cv_pkt_type :: u8
  cv_subservice :: u8
  cv_ccd_id :: u8
  cv_sequence_num :: u8
  cv_data_length :: u16

definition collection_view :: "bool \<Rightarrow> buffer \<Rightarrow> collection_view option" where
  "collection_view big col = do {
     t \<leftarrow> cmp_col_get_timestamp big col;
     c \<leftarrow> cmp_col_get_configuration_id big col;
     p \<leftarrow> cmp_col_get_pkt_type big col;
     s \<leftarrow> cmp_col_get_subservice big col;
     d \<leftarrow> cmp_col_get_ccd_id big col;
     q \<leftarrow> cmp_col_get_sequence_num big col;
     l \<leftarrow> cmp_col_get_data_length big col;
     Some \<lparr>cv_timestamp = t, cv_configuration_id = c, cv_pkt_type = p, cv_subservice = s,
       cv_ccd_id = d, cv_sequence_num = q, cv_data_length = l\<rparr>
   }"

definition view_of_words :: "u64 \<Rightarrow> u16 \<Rightarrow> u16 \<Rightarrow> u16 \<Rightarrow> collection_view" where
  "view_of_words t c i l = \<lparr>cv_timestamp = t, cv_configuration_id = c,
     cv_pkt_type = ucast (field_pkt_type i), cv_subservice = ucast (field_subservice i),
     cv_ccd_id = ucast (field_ccd_id i), cv_sequence_num = ucast (field_sequence_num i), cv_data_length = l\<rparr>"

lemma collection_view_words:
  "collection_view big col = do {
     t \<leftarrow> load_be 6 0 col; c \<leftarrow> load_be 2 6 col; i \<leftarrow> load_be 2 8 col; l \<leftarrow> load_be 2 10 col;
     Some (view_of_words t c i l)
   }"
  by (simp add: collection_view_def cmp_col_get_timestamp_def cmp_col_get_configuration_id_def
      cmp_col_get_pkt_type_def cmp_col_get_subservice_def cmp_col_get_ccd_id_def
      cmp_col_get_sequence_num_def cmp_col_get_data_length_def get_be_load view_of_words_def
      split: Option.bind_split)

lemma collection_view_Some:
  assumes "COLLECTION_HDR_SIZE \<le> length col"
  obtains t c i l where "load_be 6 0 col = Some t" "load_be 2 6 col = Some c"
    "load_be 2 8 col = Some i" "load_be 2 10 col = Some l"
    "collection_view big col = Some (view_of_words t c i l)"
  using assms load_be_Some [of 0 6 col, where ?'a = 64] load_be_Some [of 6 2 col, where ?'a = 16]
    load_be_Some [of 8 2 col, where ?'a = 16] load_be_Some [of 10 2 col, where ?'a = 16] that
  by (fastforce simp: collection_view_words COLLECTION_HDR_SIZE_def)

text \<open>What a store into the header does to the four words of the view.\<close>

lemma view_after_store:
  assumes "collection_view big col = Some (view_of_words t c i l)"
    and "load_be 6 0 col = Some t" "load_be 2 6 col = Some c" "load_be 2 8 col = Some i" "load_be 2 10 col = Some l"
  shows "store_be 6 0 t' col = Some col' \<Longrightarrow> unat t' < 2 ^ 48 \<Longrightarrow>
      collection_view big' col' = Some (view_of_words t' c i l)"
    and "store_be 2 6 c' col = Some col' \<Longrightarrow> collection_view big' col' = Some (view_of_words t c' i l)"
    and "store_be 2 8 i' col = Some col' \<Longrightarrow> collection_view big' col' = Some (view_of_words t c i' l)"
    and "store_be 2 10 l' col = Some col' \<Longrightarrow> collection_view big' col' = Some (view_of_words t c i l')"
  using assms(2-) unat_less_2p [of c'] unat_less_2p [of i'] unat_less_2p [of l']
  by (simp_all add: collection_view_words load_store_same [where n = 6] load_store_same [where n = 2]
      load_store_other [where n = 6 and off = 0] load_store_other [where n = 2])

text \<open>
  \<open>sets_view upd col r\<close>: the call succeeded, changed the header as \<open>upd\<close> says and nothing else.
\<close>

definition sets_view ::
  "(collection_view \<Rightarrow> collection_view) \<Rightarrow> buffer \<Rightarrow> set_result \<Rightarrow> bool" where
  "sets_view upd col r \<longleftrightarrow> (\<exists>col'. r = Some (0, Some col') \<and> length col' = length col \<and>
     drop COLLECTION_HDR_SIZE col' = drop COLLECTION_HDR_SIZE col \<and>
     (\<forall>big. collection_view big col' = map_option upd (collection_view big col)))"

lemma unat_less_if_drop_bit_0: "drop_bit n (w :: 'a::len word) = 0 \<Longrightarrow> unat w < 2 ^ n"
  by (metis div_eq_0_iff power_not_zero unat_0 unat_drop_bit zero_neq_numeral)

lemma sets_viewI:
  assumes "COLLECTION_HDR_SIZE \<le> length col" and "n + off \<le> COLLECTION_HDR_SIZE"
    and r: "\<And>col'. store_be n off v col = Some col' \<Longrightarrow> r = Some (0, Some col')"
    and view: "\<And>big col'. store_be n off v col = Some col' \<Longrightarrow>
      collection_view big col' = map_option upd (collection_view big col)"
  shows "sets_view upd col r"
proof -
  obtain col' where s: "store_be n off v col = Some col'"
    using assms(1,2) store_be_Some [of off n col v] by auto
  have "off + n \<le> COLLECTION_HDR_SIZE" using assms(2) by simp
  then show ?thesis unfolding sets_view_def
    using r [OF s] view [OF s] store_be_length [OF s] store_be_drop [OF s] by blast
qed

lemma sets_timestamp:
  assumes len: "COLLECTION_HDR_SIZE \<le> length col" and fits: "drop_bit 48 v = 0"
  shows "sets_view (\<lambda>w. w\<lparr>cv_timestamp := v\<rparr>) col (cmp_col_set_timestamp big (Some col) v)"
proof (rule sets_viewI [where n = 6 and off = 0 and v = v, OF len])
  fix b col' assume s: "store_be 6 0 v col = Some col'"
  obtain t c i l where w: "load_be 6 0 col = Some t" "load_be 2 6 col = Some c" "load_be 2 8 col = Some i"
      "load_be 2 10 col = Some l" "collection_view b col = Some (view_of_words t c i l)"
    using collection_view_Some [OF len] by metis
  show "collection_view b col' = map_option (\<lambda>w. w\<lparr>cv_timestamp := v\<rparr>) (collection_view b col)"
    using view_after_store(1) [OF w(5,1-4) s unat_less_if_drop_bit_0 [OF fits]] w(5) by (simp add: view_of_words_def)
qed (use assms in \<open>simp_all add: COLLECTION_HDR_SIZE_def cmp_col_set_timestamp_def hdr_set_def set_be_store\<close>)

lemma sets_configuration_id:
  assumes len: "COLLECTION_HDR_SIZE \<le> length col"
  shows "sets_view (\<lambda>w. w\<lparr>cv_configuration_id := v\<rparr>) col (cmp_col_set_configuration_id big (Some col) v)"
proof (rule sets_viewI [where n = 2 and off = 6 and v = v, OF len])
  fix b col' assume s: "store_be 2 6 v col = Some col'"
  obtain t c i l where w: "load_be 6 0 col = Some t" "load_be 2 6 col = Some c" "load_be 2 8 col = Some i"
      "load_be 2 10 col = Some l" "collection_view b col = Some (view_of_words t c i l)"
    using collection_view_Some [OF len] by metis
  show "collection_view b col' = map_option (\<lambda>w. w\<lparr>cv_configuration_id := v\<rparr>) (collection_view b col)"
    using view_after_store(2) [OF w(5,1-4) s] w(5) by (simp add: view_of_words_def)
qed (use assms in \<open>simp_all add: COLLECTION_HDR_SIZE_def cmp_col_set_configuration_id_def hdr_set_def set_be_store\<close>)

lemma sets_data_length:
  assumes len: "COLLECTION_HDR_SIZE \<le> length col"
  shows "sets_view (\<lambda>w. w\<lparr>cv_data_length := v\<rparr>) col (cmp_col_set_data_length big (Some col) v)"
proof (rule sets_viewI [where n = 2 and off = 10 and v = v, OF len])
  fix b col' assume s: "store_be 2 10 v col = Some col'"
  obtain t c i l where w: "load_be 6 0 col = Some t" "load_be 2 6 col = Some c" "load_be 2 8 col = Some i"
      "load_be 2 10 col = Some l" "collection_view b col = Some (view_of_words t c i l)"
    using collection_view_Some [OF len] by metis
  show "collection_view b col' = map_option (\<lambda>w. w\<lparr>cv_data_length := v\<rparr>) (collection_view b col)"
    using view_after_store(4) [OF w(5,1-4) s] w(5) by (simp add: view_of_words_def)
qed (use assms in \<open>simp_all add: COLLECTION_HDR_SIZE_def cmp_col_set_data_length_def hdr_set_def set_be_store\<close>)

text \<open>A field of the collection id: the other three keep their values.\<close>

lemma ucast_u8_fits: "unat (v :: u8) < 2 ^ n \<Longrightarrow> unat (ucast v :: u16) < 2 ^ n"
  by (auto simp: unat_less_iff_bits bit_ucast_iff)

lemma ucast_u8_u16 [simp]: "ucast (ucast (v :: u8) :: u16) = v"
  by (rule bit_word_eqI) (simp add: bit_ucast_iff)

lemma sets_id_field:
  assumes len: "COLLECTION_HDR_SIZE \<le> length col"
    and upd: "\<And>t c i l. view_of_words t c (updi i) l = upd (view_of_words t c i l)"
  shows "sets_view upd col (set_id_field big (Some col) True updi)"
proof -
  obtain t c i l where w: "load_be 6 0 col = Some t" "load_be 2 6 col = Some c" "load_be 2 8 col = Some i"
      "load_be 2 10 col = Some l" "collection_view big col = Some (view_of_words t c i l)"
    using collection_view_Some [OF len] by metis
  show ?thesis
  proof (rule sets_viewI [where n = 2 and off = 8 and v = "updi i", OF len])
    fix b col' assume s: "store_be 2 8 (updi i) col = Some col'"
    have v: "collection_view b col = Some (view_of_words t c i l)" using w(1-4) by (simp add: collection_view_words)
    show "collection_view b col' = map_option upd (collection_view b col)"
      using view_after_store(3) [OF v w(1-4) s] v by (simp add: upd)
  qed (simp_all add: COLLECTION_HDR_SIZE_def set_id_field_def cmp_col_set_col_id_def hdr_set_def
      set_be_store get_be_load w)
qed

lemmas id_field_others =
  pkt_type_field.set_other subservice_field.set_other ccd_id_field.set_other sequence_num_field.set_other

lemmas id_field_getters = pkt_type_field.getf subservice_field.getf ccd_id_field.getf sequence_num_field.getf

lemma sets_pkt_type:
  assumes len: "COLLECTION_HDR_SIZE \<le> length col" and fits: "drop_bit 1 v = 0"
  shows "sets_view (\<lambda>w. w\<lparr>cv_pkt_type := v\<rparr>) col (cmp_col_set_pkt_type big (Some col) v)"
proof -
  have "view_of_words t c (set_field_pkt_type (ucast v) i) l = (view_of_words t c i l)\<lparr>cv_pkt_type := v\<rparr>" for t c i l
    using pkt_type_field.get_set_fits [of "ucast v" i] ucast_u8_fits [OF unat_less_if_drop_bit_0 [OF fits]]
      pkt_type_field.set_other [of _ _ "ucast v" i]
    by (simp add: view_of_words_def id_field_getters)
  from sets_id_field [OF len this] show ?thesis using fits by (simp add: cmp_col_set_pkt_type_def)
qed

lemma sets_subservice:
  assumes len: "COLLECTION_HDR_SIZE \<le> length col" and fits: "drop_bit 6 v = 0"
  shows "sets_view (\<lambda>w. w\<lparr>cv_subservice := v\<rparr>) col (cmp_col_set_subservice big (Some col) v)"
proof -
  have "view_of_words t c (set_field_subservice (ucast v) i) l = (view_of_words t c i l)\<lparr>cv_subservice := v\<rparr>" for t c i l
    using subservice_field.get_set_fits [of "ucast v" i] ucast_u8_fits [OF unat_less_if_drop_bit_0 [OF fits]]
      subservice_field.set_other [of _ _ "ucast v" i]
    by (simp add: view_of_words_def id_field_getters)
  from sets_id_field [OF len this] show ?thesis using fits by (simp add: cmp_col_set_subservice_def)
qed

lemma sets_ccd_id:
  assumes len: "COLLECTION_HDR_SIZE \<le> length col" and fits: "drop_bit 2 v = 0"
  shows "sets_view (\<lambda>w. w\<lparr>cv_ccd_id := v\<rparr>) col (cmp_col_set_ccd_id big (Some col) v)"
proof -
  have "view_of_words t c (set_field_ccd_id (ucast v) i) l = (view_of_words t c i l)\<lparr>cv_ccd_id := v\<rparr>" for t c i l
    using ccd_id_field.get_set_fits [of "ucast v" i] ucast_u8_fits [OF unat_less_if_drop_bit_0 [OF fits]]
      ccd_id_field.set_other [of _ _ "ucast v" i]
    by (simp add: view_of_words_def id_field_getters)
  from sets_id_field [OF len this] show ?thesis using fits by (simp add: cmp_col_set_ccd_id_def)
qed

lemma sets_sequence_num:
  assumes len: "COLLECTION_HDR_SIZE \<le> length col" and fits: "drop_bit 7 v = 0"
  shows "sets_view (\<lambda>w. w\<lparr>cv_sequence_num := v\<rparr>) col (cmp_col_set_sequence_num big (Some col) v)"
proof -
  have "view_of_words t c (set_field_sequence_num (ucast v) i) l = (view_of_words t c i l)\<lparr>cv_sequence_num := v\<rparr>" for t c i l
    using sequence_num_field.get_set_fits [of "ucast v" i] ucast_u8_fits [OF unat_less_if_drop_bit_0 [OF fits]]
      sequence_num_field.set_other [of _ _ "ucast v" i]
    by (simp add: view_of_words_def id_field_getters)
  from sets_id_field [OF len this] show ?thesis using fits by (simp add: cmp_col_set_sequence_num_def)
qed

end
