(* ===== verification/Entity_Header.thy ===== *)
theory Entity_Header
  imports Collection_Header
begin

text \<open>
  The header of a compression entity (\<open>struct cmp_entity\<close> of \<open>lib/common/cmp_entity.h\<close> and the
  \<open>cmp_ent_set_..\<close> and \<open>cmp_ent_get_..\<close> functions of \<open>cmp_entity.c\<close>). The entity is the buffer
  that starts with the packed header; every function takes a pointer that may be NULL. The
  members of the unions (the two parts of a time stamp, the imagette and the non-imagette
  specific header) share their bytes.
\<close>

section \<open>Setting the fields\<close>

definition CMP_ENTITY_MAX_SIZE :: u32 where "CMP_ENTITY_MAX_SIZE = 0xFFFFFF"

definition cmp_ent_set_version_id :: "bool \<Rightarrow> buffer option \<Rightarrow> u32 \<Rightarrow> set_result" where
  "cmp_ent_set_version_id big ent v = hdr_set (- 1) ent (True) (set_be32 big 0 v)"

definition cmp_ent_set_size :: "bool \<Rightarrow> buffer option \<Rightarrow> u32 \<Rightarrow> set_result" where
  "cmp_ent_set_size big ent v = hdr_set (- 1) ent (v \<le> CMP_ENTITY_MAX_SIZE) (set_be24 big 4 v)"

definition cmp_ent_set_original_size :: "bool \<Rightarrow> buffer option \<Rightarrow> u32 \<Rightarrow> set_result" where
  "cmp_ent_set_original_size big ent v = hdr_set (- 1) ent (v \<le> 0xFFFFFF) (set_be24 big 7 v)"

definition cmp_ent_set_start_timestamp :: "bool \<Rightarrow> buffer option \<Rightarrow> u64 \<Rightarrow> set_result" where
  "cmp_ent_set_start_timestamp big ent v = hdr_set (- 1) ent (v \<le> 0xFFFFFFFFFFFF) (set_be48 big 10 v)"

definition cmp_ent_set_coarse_start_time :: "bool \<Rightarrow> buffer option \<Rightarrow> u32 \<Rightarrow> set_result" where
  "cmp_ent_set_coarse_start_time big ent v = hdr_set (- 1) ent (True) (set_be32 big 10 v)"

definition cmp_ent_set_fine_start_time :: "bool \<Rightarrow> buffer option \<Rightarrow> u16 \<Rightarrow> set_result" where
  "cmp_ent_set_fine_start_time big ent v = hdr_set (- 1) ent (True) (set_be16 big 14 v)"

definition cmp_ent_set_end_timestamp :: "bool \<Rightarrow> buffer option \<Rightarrow> u64 \<Rightarrow> set_result" where
  "cmp_ent_set_end_timestamp big ent v = hdr_set (- 1) ent (v \<le> 0xFFFFFFFFFFFF) (set_be48 big 16 v)"

definition cmp_ent_set_coarse_end_time :: "bool \<Rightarrow> buffer option \<Rightarrow> u32 \<Rightarrow> set_result" where
  "cmp_ent_set_coarse_end_time big ent v = hdr_set (- 1) ent (True) (set_be32 big 16 v)"

definition cmp_ent_set_fine_end_time :: "bool \<Rightarrow> buffer option \<Rightarrow> u16 \<Rightarrow> set_result" where
  "cmp_ent_set_fine_end_time big ent v = hdr_set (- 1) ent (True) (set_be16 big 20 v)"

definition cmp_ent_set_model_value :: "bool \<Rightarrow> buffer option \<Rightarrow> u32 \<Rightarrow> set_result" where
  "cmp_ent_set_model_value big ent v = hdr_set (- 1) ent (v \<le> 0xFF) (set_be8 big 25 (ucast v))"

definition cmp_ent_set_model_id :: "bool \<Rightarrow> buffer option \<Rightarrow> u32 \<Rightarrow> set_result" where
  "cmp_ent_set_model_id big ent v = hdr_set (- 1) ent (v \<le> 0xFFFF) (set_be16 big 26 (ucast v))"

definition cmp_ent_set_model_counter :: "bool \<Rightarrow> buffer option \<Rightarrow> u32 \<Rightarrow> set_result" where
  "cmp_ent_set_model_counter big ent v = hdr_set (- 1) ent (v \<le> 0xFF) (set_be8 big 28 (ucast v))"

definition cmp_ent_set_reserved :: "bool \<Rightarrow> buffer option \<Rightarrow> u8 \<Rightarrow> set_result" where
  "cmp_ent_set_reserved big ent v = hdr_set (- 1) ent (True) (set_be8 big 29 v)"

definition cmp_ent_set_lossy_cmp_par :: "bool \<Rightarrow> buffer option \<Rightarrow> u32 \<Rightarrow> set_result" where
  "cmp_ent_set_lossy_cmp_par big ent v = hdr_set (- 1) ent (v \<le> 0xFFFF) (set_be16 big 30 (ucast v))"

definition cmp_ent_set_ima_spill :: "bool \<Rightarrow> buffer option \<Rightarrow> u32 \<Rightarrow> set_result" where
  "cmp_ent_set_ima_spill big ent v = hdr_set (- 1) ent (v \<le> 0xFFFF) (set_be16 big 32 (ucast v))"

definition cmp_ent_set_ima_golomb_par :: "bool \<Rightarrow> buffer option \<Rightarrow> u32 \<Rightarrow> set_result" where
  "cmp_ent_set_ima_golomb_par big ent v = hdr_set (- 1) ent (v \<le> 0xFF) (set_be8 big 34 (ucast v))"

definition cmp_ent_set_ima_ap1_spill :: "bool \<Rightarrow> buffer option \<Rightarrow> u32 \<Rightarrow> set_result" where
  "cmp_ent_set_ima_ap1_spill big ent v = hdr_set (- 1) ent (v \<le> 0xFFFF) (set_be16 big 35 (ucast v))"

definition cmp_ent_set_ima_ap1_golomb_par :: "bool \<Rightarrow> buffer option \<Rightarrow> u32 \<Rightarrow> set_result" where
  "cmp_ent_set_ima_ap1_golomb_par big ent v = hdr_set (- 1) ent (v \<le> 0xFF) (set_be8 big 37 (ucast v))"

definition cmp_ent_set_ima_ap2_spill :: "bool \<Rightarrow> buffer option \<Rightarrow> u32 \<Rightarrow> set_result" where
  "cmp_ent_set_ima_ap2_spill big ent v = hdr_set (- 1) ent (v \<le> 0xFFFF) (set_be16 big 38 (ucast v))"

definition cmp_ent_set_ima_ap2_golomb_par :: "bool \<Rightarrow> buffer option \<Rightarrow> u32 \<Rightarrow> set_result" where
  "cmp_ent_set_ima_ap2_golomb_par big ent v = hdr_set (- 1) ent (v \<le> 0xFF) (set_be8 big 40 (ucast v))"

definition cmp_ent_set_non_ima_spill1 :: "bool \<Rightarrow> buffer option \<Rightarrow> u32 \<Rightarrow> set_result" where
  "cmp_ent_set_non_ima_spill1 big ent v = hdr_set (- 1) ent (v \<le> 0xFFFFFF) (set_be24 big 32 v)"

definition cmp_ent_set_non_ima_cmp_par1 :: "bool \<Rightarrow> buffer option \<Rightarrow> u32 \<Rightarrow> set_result" where
  "cmp_ent_set_non_ima_cmp_par1 big ent v = hdr_set (- 1) ent (v \<le> 0xFFFF) (set_be16 big 35 (ucast v))"

definition cmp_ent_set_non_ima_spill2 :: "bool \<Rightarrow> buffer option \<Rightarrow> u32 \<Rightarrow> set_result" where
  "cmp_ent_set_non_ima_spill2 big ent v = hdr_set (- 1) ent (v \<le> 0xFFFFFF) (set_be24 big 37 v)"

definition cmp_ent_set_non_ima_cmp_par2 :: "bool \<Rightarrow> buffer option \<Rightarrow> u32 \<Rightarrow> set_result" where
  "cmp_ent_set_non_ima_cmp_par2 big ent v = hdr_set (- 1) ent (v \<le> 0xFFFF) (set_be16 big 40 (ucast v))"

definition cmp_ent_set_non_ima_spill3 :: "bool \<Rightarrow> buffer option \<Rightarrow> u32 \<Rightarrow> set_result" where
  "cmp_ent_set_non_ima_spill3 big ent v = hdr_set (- 1) ent (v \<le> 0xFFFFFF) (set_be24 big 42 v)"

definition cmp_ent_set_non_ima_cmp_par3 :: "bool \<Rightarrow> buffer option \<Rightarrow> u32 \<Rightarrow> set_result" where
  "cmp_ent_set_non_ima_cmp_par3 big ent v = hdr_set (- 1) ent (v \<le> 0xFFFF) (set_be16 big 45 (ucast v))"

definition cmp_ent_set_non_ima_spill4 :: "bool \<Rightarrow> buffer option \<Rightarrow> u32 \<Rightarrow> set_result" where
  "cmp_ent_set_non_ima_spill4 big ent v = hdr_set (- 1) ent (v \<le> 0xFFFFFF) (set_be24 big 47 v)"

definition cmp_ent_set_non_ima_cmp_par4 :: "bool \<Rightarrow> buffer option \<Rightarrow> u32 \<Rightarrow> set_result" where
  "cmp_ent_set_non_ima_cmp_par4 big ent v = hdr_set (- 1) ent (v \<le> 0xFFFF) (set_be16 big 50 (ucast v))"

definition cmp_ent_set_non_ima_spill5 :: "bool \<Rightarrow> buffer option \<Rightarrow> u32 \<Rightarrow> set_result" where
  "cmp_ent_set_non_ima_spill5 big ent v = hdr_set (- 1) ent (v \<le> 0xFFFFFF) (set_be24 big 52 v)"

definition cmp_ent_set_non_ima_cmp_par5 :: "bool \<Rightarrow> buffer option \<Rightarrow> u32 \<Rightarrow> set_result" where
  "cmp_ent_set_non_ima_cmp_par5 big ent v = hdr_set (- 1) ent (v \<le> 0xFFFF) (set_be16 big 55 (ucast v))"

definition cmp_ent_set_non_ima_spill6 :: "bool \<Rightarrow> buffer option \<Rightarrow> u32 \<Rightarrow> set_result" where
  "cmp_ent_set_non_ima_spill6 big ent v = hdr_set (- 1) ent (v \<le> 0xFFFFFF) (set_be24 big 57 v)"

definition cmp_ent_set_non_ima_cmp_par6 :: "bool \<Rightarrow> buffer option \<Rightarrow> u32 \<Rightarrow> set_result" where
  "cmp_ent_set_non_ima_cmp_par6 big ent v = hdr_set (- 1) ent (v \<le> 0xFFFF) (set_be16 big 60 (ucast v))"

section \<open>Reading the fields\<close>

definition hdr_get :: "buffer option \<Rightarrow> (buffer \<Rightarrow> 'a::len word option) \<Rightarrow> 'a word option" where
  "hdr_get p ld = (case p of None \<Rightarrow> Some 0 | Some b \<Rightarrow> ld b)"

definition cmp_ent_get_version_id :: "bool \<Rightarrow> buffer option \<Rightarrow> u32 option" where
  "cmp_ent_get_version_id big ent = hdr_get ent (get_be32 big 0)"

definition cmp_ent_get_size :: "bool \<Rightarrow> buffer option \<Rightarrow> u32 option" where
  "cmp_ent_get_size big ent = hdr_get ent (get_be24 big 4)"

definition cmp_ent_get_original_size :: "bool \<Rightarrow> buffer option \<Rightarrow> u32 option" where
  "cmp_ent_get_original_size big ent = hdr_get ent (get_be24 big 7)"

definition cmp_ent_get_start_timestamp :: "bool \<Rightarrow> buffer option \<Rightarrow> u64 option" where
  "cmp_ent_get_start_timestamp big ent = hdr_get ent (get_be48 big 10)"

definition cmp_ent_get_coarse_start_time :: "bool \<Rightarrow> buffer option \<Rightarrow> u32 option" where
  "cmp_ent_get_coarse_start_time big ent = hdr_get ent (get_be32 big 10)"

definition cmp_ent_get_fine_start_time :: "bool \<Rightarrow> buffer option \<Rightarrow> u16 option" where
  "cmp_ent_get_fine_start_time big ent = hdr_get ent (get_be16 big 14)"

definition cmp_ent_get_end_timestamp :: "bool \<Rightarrow> buffer option \<Rightarrow> u64 option" where
  "cmp_ent_get_end_timestamp big ent = hdr_get ent (get_be48 big 16)"

definition cmp_ent_get_coarse_end_time :: "bool \<Rightarrow> buffer option \<Rightarrow> u32 option" where
  "cmp_ent_get_coarse_end_time big ent = hdr_get ent (get_be32 big 16)"

definition cmp_ent_get_fine_end_time :: "bool \<Rightarrow> buffer option \<Rightarrow> u16 option" where
  "cmp_ent_get_fine_end_time big ent = hdr_get ent (get_be16 big 20)"

definition cmp_ent_get_model_value :: "bool \<Rightarrow> buffer option \<Rightarrow> u8 option" where
  "cmp_ent_get_model_value big ent = hdr_get ent (get_be8 big 25)"

definition cmp_ent_get_model_id :: "bool \<Rightarrow> buffer option \<Rightarrow> u16 option" where
  "cmp_ent_get_model_id big ent = hdr_get ent (get_be16 big 26)"

definition cmp_ent_get_model_counter :: "bool \<Rightarrow> buffer option \<Rightarrow> u8 option" where
  "cmp_ent_get_model_counter big ent = hdr_get ent (get_be8 big 28)"

definition cmp_ent_get_reserved :: "bool \<Rightarrow> buffer option \<Rightarrow> u8 option" where
  "cmp_ent_get_reserved big ent = hdr_get ent (get_be8 big 29)"

definition cmp_ent_get_lossy_cmp_par :: "bool \<Rightarrow> buffer option \<Rightarrow> u16 option" where
  "cmp_ent_get_lossy_cmp_par big ent = hdr_get ent (get_be16 big 30)"

definition cmp_ent_get_ima_spill :: "bool \<Rightarrow> buffer option \<Rightarrow> u16 option" where
  "cmp_ent_get_ima_spill big ent = hdr_get ent (get_be16 big 32)"

definition cmp_ent_get_ima_golomb_par :: "bool \<Rightarrow> buffer option \<Rightarrow> u8 option" where
  "cmp_ent_get_ima_golomb_par big ent = hdr_get ent (get_be8 big 34)"

definition cmp_ent_get_ima_ap1_spill :: "bool \<Rightarrow> buffer option \<Rightarrow> u16 option" where
  "cmp_ent_get_ima_ap1_spill big ent = hdr_get ent (get_be16 big 35)"

definition cmp_ent_get_ima_ap1_golomb_par :: "bool \<Rightarrow> buffer option \<Rightarrow> u8 option" where
  "cmp_ent_get_ima_ap1_golomb_par big ent = hdr_get ent (get_be8 big 37)"

definition cmp_ent_get_ima_ap2_spill :: "bool \<Rightarrow> buffer option \<Rightarrow> u16 option" where
  "cmp_ent_get_ima_ap2_spill big ent = hdr_get ent (get_be16 big 38)"

definition cmp_ent_get_ima_ap2_golomb_par :: "bool \<Rightarrow> buffer option \<Rightarrow> u8 option" where
  "cmp_ent_get_ima_ap2_golomb_par big ent = hdr_get ent (get_be8 big 40)"

definition cmp_ent_get_non_ima_spill1 :: "bool \<Rightarrow> buffer option \<Rightarrow> u32 option" where
  "cmp_ent_get_non_ima_spill1 big ent = hdr_get ent (get_be24 big 32)"

definition cmp_ent_get_non_ima_cmp_par1 :: "bool \<Rightarrow> buffer option \<Rightarrow> u16 option" where
  "cmp_ent_get_non_ima_cmp_par1 big ent = hdr_get ent (get_be16 big 35)"

definition cmp_ent_get_non_ima_spill2 :: "bool \<Rightarrow> buffer option \<Rightarrow> u32 option" where
  "cmp_ent_get_non_ima_spill2 big ent = hdr_get ent (get_be24 big 37)"

definition cmp_ent_get_non_ima_cmp_par2 :: "bool \<Rightarrow> buffer option \<Rightarrow> u16 option" where
  "cmp_ent_get_non_ima_cmp_par2 big ent = hdr_get ent (get_be16 big 40)"

definition cmp_ent_get_non_ima_spill3 :: "bool \<Rightarrow> buffer option \<Rightarrow> u32 option" where
  "cmp_ent_get_non_ima_spill3 big ent = hdr_get ent (get_be24 big 42)"

definition cmp_ent_get_non_ima_cmp_par3 :: "bool \<Rightarrow> buffer option \<Rightarrow> u16 option" where
  "cmp_ent_get_non_ima_cmp_par3 big ent = hdr_get ent (get_be16 big 45)"

definition cmp_ent_get_non_ima_spill4 :: "bool \<Rightarrow> buffer option \<Rightarrow> u32 option" where
  "cmp_ent_get_non_ima_spill4 big ent = hdr_get ent (get_be24 big 47)"

definition cmp_ent_get_non_ima_cmp_par4 :: "bool \<Rightarrow> buffer option \<Rightarrow> u16 option" where
  "cmp_ent_get_non_ima_cmp_par4 big ent = hdr_get ent (get_be16 big 50)"

definition cmp_ent_get_non_ima_spill5 :: "bool \<Rightarrow> buffer option \<Rightarrow> u32 option" where
  "cmp_ent_get_non_ima_spill5 big ent = hdr_get ent (get_be24 big 52)"

definition cmp_ent_get_non_ima_cmp_par5 :: "bool \<Rightarrow> buffer option \<Rightarrow> u16 option" where
  "cmp_ent_get_non_ima_cmp_par5 big ent = hdr_get ent (get_be16 big 55)"

definition cmp_ent_get_non_ima_spill6 :: "bool \<Rightarrow> buffer option \<Rightarrow> u32 option" where
  "cmp_ent_get_non_ima_spill6 big ent = hdr_get ent (get_be24 big 57)"

definition cmp_ent_get_non_ima_cmp_par6 :: "bool \<Rightarrow> buffer option \<Rightarrow> u16 option" where
  "cmp_ent_get_non_ima_cmp_par6 big ent = hdr_get ent (get_be16 big 60)"

section \<open>The layout of the header\<close>

text \<open>
  The abstract header: a value for every field. A field is a range of bytes; the fields that
  share bytes are the ones of the unions.
\<close>

datatype ent_field =
    F_VERSION_ID
  | F_SIZE
  | F_ORIGINAL_SIZE
  | F_START_TIMESTAMP
  | F_COARSE_START_TIME
  | F_FINE_START_TIME
  | F_END_TIMESTAMP
  | F_COARSE_END_TIME
  | F_FINE_END_TIME
  | F_MODEL_VALUE
  | F_MODEL_ID
  | F_MODEL_COUNTER
  | F_RESERVED
  | F_LOSSY_CMP_PAR
  | F_IMA_SPILL
  | F_IMA_GOLOMB_PAR
  | F_IMA_AP1_SPILL
  | F_IMA_AP1_GOLOMB_PAR
  | F_IMA_AP2_SPILL
  | F_IMA_AP2_GOLOMB_PAR
  | F_NON_IMA_SPILL1
  | F_NON_IMA_CMP_PAR1
  | F_NON_IMA_SPILL2
  | F_NON_IMA_CMP_PAR2
  | F_NON_IMA_SPILL3
  | F_NON_IMA_CMP_PAR3
  | F_NON_IMA_SPILL4
  | F_NON_IMA_CMP_PAR4
  | F_NON_IMA_SPILL5
  | F_NON_IMA_CMP_PAR5
  | F_NON_IMA_SPILL6
  | F_NON_IMA_CMP_PAR6
  | F_DATA_TYPE
  | F_CMP_MODE

fun field_off :: "ent_field \<Rightarrow> nat" where
  "field_off F_VERSION_ID = 0"
| "field_off F_SIZE = 4"
| "field_off F_ORIGINAL_SIZE = 7"
| "field_off F_START_TIMESTAMP = 10"
| "field_off F_COARSE_START_TIME = 10"
| "field_off F_FINE_START_TIME = 14"
| "field_off F_END_TIMESTAMP = 16"
| "field_off F_COARSE_END_TIME = 16"
| "field_off F_FINE_END_TIME = 20"
| "field_off F_MODEL_VALUE = 25"
| "field_off F_MODEL_ID = 26"
| "field_off F_MODEL_COUNTER = 28"
| "field_off F_RESERVED = 29"
| "field_off F_LOSSY_CMP_PAR = 30"
| "field_off F_IMA_SPILL = 32"
| "field_off F_IMA_GOLOMB_PAR = 34"
| "field_off F_IMA_AP1_SPILL = 35"
| "field_off F_IMA_AP1_GOLOMB_PAR = 37"
| "field_off F_IMA_AP2_SPILL = 38"
| "field_off F_IMA_AP2_GOLOMB_PAR = 40"
| "field_off F_NON_IMA_SPILL1 = 32"
| "field_off F_NON_IMA_CMP_PAR1 = 35"
| "field_off F_NON_IMA_SPILL2 = 37"
| "field_off F_NON_IMA_CMP_PAR2 = 40"
| "field_off F_NON_IMA_SPILL3 = 42"
| "field_off F_NON_IMA_CMP_PAR3 = 45"
| "field_off F_NON_IMA_SPILL4 = 47"
| "field_off F_NON_IMA_CMP_PAR4 = 50"
| "field_off F_NON_IMA_SPILL5 = 52"
| "field_off F_NON_IMA_CMP_PAR5 = 55"
| "field_off F_NON_IMA_SPILL6 = 57"
| "field_off F_NON_IMA_CMP_PAR6 = 60"
| "field_off F_DATA_TYPE = 22"
| "field_off F_CMP_MODE = 24"

fun field_len :: "ent_field \<Rightarrow> nat" where
  "field_len F_VERSION_ID = 4"
| "field_len F_SIZE = 3"
| "field_len F_ORIGINAL_SIZE = 3"
| "field_len F_START_TIMESTAMP = 6"
| "field_len F_COARSE_START_TIME = 4"
| "field_len F_FINE_START_TIME = 2"
| "field_len F_END_TIMESTAMP = 6"
| "field_len F_COARSE_END_TIME = 4"
| "field_len F_FINE_END_TIME = 2"
| "field_len F_MODEL_VALUE = 1"
| "field_len F_MODEL_ID = 2"
| "field_len F_MODEL_COUNTER = 1"
| "field_len F_RESERVED = 1"
| "field_len F_LOSSY_CMP_PAR = 2"
| "field_len F_IMA_SPILL = 2"
| "field_len F_IMA_GOLOMB_PAR = 1"
| "field_len F_IMA_AP1_SPILL = 2"
| "field_len F_IMA_AP1_GOLOMB_PAR = 1"
| "field_len F_IMA_AP2_SPILL = 2"
| "field_len F_IMA_AP2_GOLOMB_PAR = 1"
| "field_len F_NON_IMA_SPILL1 = 3"
| "field_len F_NON_IMA_CMP_PAR1 = 2"
| "field_len F_NON_IMA_SPILL2 = 3"
| "field_len F_NON_IMA_CMP_PAR2 = 2"
| "field_len F_NON_IMA_SPILL3 = 3"
| "field_len F_NON_IMA_CMP_PAR3 = 2"
| "field_len F_NON_IMA_SPILL4 = 3"
| "field_len F_NON_IMA_CMP_PAR4 = 2"
| "field_len F_NON_IMA_SPILL5 = 3"
| "field_len F_NON_IMA_CMP_PAR5 = 2"
| "field_len F_NON_IMA_SPILL6 = 3"
| "field_len F_NON_IMA_CMP_PAR6 = 2"
| "field_len F_DATA_TYPE = 2"
| "field_len F_CMP_MODE = 1"

definition disjoint_fields :: "ent_field \<Rightarrow> ent_field \<Rightarrow> bool" where
  "disjoint_fields f g \<longleftrightarrow> field_off f + field_len f \<le> field_off g \<or> field_off g + field_len g \<le> field_off f"

definition ent_value :: "ent_field \<Rightarrow> buffer \<Rightarrow> nat option" where
  "ent_value f e = map_option (unat :: u64 \<Rightarrow> nat) (load_be (field_len f) (field_off f) e)"

definition ent_store :: "ent_field \<Rightarrow> nat \<Rightarrow> buffer \<Rightarrow> buffer option" where
  "ent_store f n e = store_be (field_len f) (field_off f) (word_of_nat n :: u64) e"

lemma field_len_bounds: "0 < field_len f" "field_len f \<le> 6"
  by (cases f; simp)+

lemma field_inside: "field_off f + field_len f \<le> 64"
  by (cases f) simp_all

lemma be_bytes_word_of_unat:
  fixes w :: "'a::len word"
  assumes "8 * n \<le> LENGTH('a)" and "8 * n \<le> LENGTH('b::len)"
  shows "be_bytes n (word_of_nat (unat w) :: 'b word) = be_bytes n w"
proof (rule nth_equalityI)
  fix i assume "i < length (be_bytes n (word_of_nat (unat w) :: 'b word))"
  then show "be_bytes n (word_of_nat (unat w) :: 'b word) ! i = be_bytes n w ! i"
    using assms by (intro bit_word_eqI) (auto simp: nth_be_bytes bit_drop_bit_eq bit_ucast_iff)
qed simp

lemma unat_be_word_wide:
  assumes "8 * length bs \<le> LENGTH('a)" and "8 * length bs \<le> LENGTH('b)"
  shows "unat (be_word bs :: 'a::len word) = unat (be_word bs :: 'b::len word)"
proof -
  have "bits_msb (8 * length bs) (be_word bs :: 'a word) = bits_msb (8 * length bs) (be_word bs :: 'b word)"
    using bits_msb_be_word [of bs, where 'a = 'a] bits_msb_be_word [of bs, where 'a = 'b] assms by simp
  then have "bit (be_word bs :: 'a word) k = bit (be_word bs :: 'b word) k" for k
    using bits_msb_eqD bit_be_word_high [of bs k, where 'a = 'a] bit_be_word_high [of bs k, where 'a = 'b]
    by (cases "k < 8 * length bs") (blast, simp)
  then show ?thesis by (intro bit_eqI) (auto simp: bit_unsigned_iff dest: bit_imp_le_length)
qed

lemma store_be_ent_store:
  fixes w :: "'a::len word"
  assumes "8 * field_len f \<le> LENGTH('a)"
  shows "store_be (field_len f) (field_off f) w e = ent_store f (unat w) e"
  using be_bytes_word_of_unat [of "field_len f" w, where 'b = 64] assms field_len_bounds [of f]
  by (simp add: ent_store_def store_be_def)

lemma load_be_ent_value:
  assumes "8 * field_len f \<le> LENGTH('a)"
  shows "map_option unat (load_be (field_len f) (field_off f) e :: 'a::len word option) = ent_value f e"
  using unat_be_word_wide [of "take (field_len f) (drop (field_off f) e)", where 'a = 'a and 'b = 64]
    assms field_len_bounds [of f]
  by (auto simp: ent_value_def load_be_def)

lemma ent_store_Some:
  assumes "64 \<le> length e"
  obtains e' where "ent_store f n e = Some e'" "length e' = length e" "drop 64 e' = drop 64 e"
proof -
  obtain e' where e': "store_be (field_len f) (field_off f) (word_of_nat n :: u64) e = Some e'"
    using store_be_Some order_trans [OF field_inside assms] by blast
  show thesis
    by (rule that [of e']) (use e' in \<open>simp_all add: ent_store_def store_be_length store_be_drop field_inside\<close>)
qed

lemma ent_value_Some: "64 \<le> length e \<Longrightarrow> \<exists>n. ent_value f e = Some n"
  using field_inside [of f] load_be_Some [of "field_off f" "field_len f" e, where 'a = 64]
  by (fastforce simp: ent_value_def)

lemma ent_value_store_same:
  assumes "ent_store f n e = Some e'" and "n < 2 ^ (8 * field_len f)"
  shows "ent_value f e' = Some n"
proof -
  have "8 * field_len f \<le> 48" using field_len_bounds [of f] by simp
  then have "(2 :: nat) ^ (8 * field_len f) \<le> 2 ^ 48" by (rule power_increasing) simp
  then have u: "unat (word_of_nat n :: u64) = n"
    using assms(2) by (simp add: unsigned_of_nat take_bit_nat_eq_self_iff)
  show ?thesis
    using load_store_same [of "field_len f" "field_off f" "word_of_nat n :: u64" e e'] assms field_len_bounds [of f]
    by (simp add: ent_value_def ent_store_def u)
qed

lemma ent_value_store_other:
  "ent_store f n e = Some e' \<Longrightarrow> disjoint_fields f g \<Longrightarrow> ent_value g e' = ent_value g e"
  unfolding ent_store_def ent_value_def disjoint_fields_def
  by (rule arg_cong [where f = "map_option unat"]) (rule load_store_other, auto)

text \<open>
  \<open>sets_field f n e r\<close>: the call succeeded, gave the field \<open>f\<close> the value \<open>n\<close> and left the fields
  disjoint from it and the data behind the header alone.
\<close>

definition sets_field :: "ent_field \<Rightarrow> nat \<Rightarrow> buffer \<Rightarrow> set_result \<Rightarrow> bool" where
  "sets_field f n e r \<longleftrightarrow> (\<exists>e'. r = Some (0, Some e') \<and> ent_store f n e = Some e' \<and>
     length e' = length e \<and> drop 64 e' = drop 64 e \<and> ent_value f e' = Some n \<and>
     (\<forall>g. disjoint_fields f g \<longrightarrow> ent_value g e' = ent_value g e))"

text \<open>\<open>keeps_behind k e r\<close>: whatever the call returned, the bytes from the offset \<open>k\<close> on are those of \<open>e\<close>.\<close>

definition keeps_behind :: "nat \<Rightarrow> buffer \<Rightarrow> set_result \<Rightarrow> bool" where
  "keeps_behind k e r \<longleftrightarrow> (\<forall>v p. r = Some (v, p) \<longrightarrow> (\<exists>e'. p = Some e' \<and> drop k e' = drop k e))"

text \<open>
  The contract of a field with its two functions: the setter refuses a NULL pointer and a value
  that does not fit and then changes nothing; otherwise it stores the value in big-endian byte
  order; the getter reads 0 from a NULL pointer and else the value of the field.
\<close>

locale entity_field =
  fixes f :: ent_field
    and getf :: "bool \<Rightarrow> buffer option \<Rightarrow> 'a::len word option"
    and setf :: "bool \<Rightarrow> buffer option \<Rightarrow> 'b::len word \<Rightarrow> set_result"
  assumes get_width: "8 * field_len f \<le> LENGTH('a)"
    and get_None: "getf big None = Some 0"
    and get_Some: "getf big (Some e) = load_be (field_len f) (field_off f) e"
    and set_None: "setf big None v = Some (- 1, None)"
    and set_fits: "unat v < 2 ^ (8 * field_len f) \<Longrightarrow>
      setf big (Some e) v = map_option (\<lambda>e. (0, Some e)) (ent_store f (unat v) e)"
    and set_too_large: "\<not> unat v < 2 ^ (8 * field_len f) \<Longrightarrow> setf big (Some e) v = Some (- 1, Some e)"
begin

lemma get_value: "map_option unat (getf big (Some e)) = ent_value f e"
  by (simp add: get_Some load_be_ent_value [OF get_width])

lemma get_eqI: "ent_value f e = Some (unat w) \<Longrightarrow> getf big (Some e) = Some w"
  using get_value [of big e] by (auto simp: map_option_eq_Some intro: unsigned_word_eqI)

lemma sets:
  assumes "64 \<le> length e" and "unat v < 2 ^ (8 * field_len f)"
  shows "sets_field f (unat v) e (setf big (Some e) v)"
proof -
  obtain e' where e': "ent_store f (unat v) e = Some e'" "length e' = length e" "drop 64 e' = drop 64 e"
    using ent_store_Some [OF assms(1)] by blast
  then show ?thesis
    using ent_value_store_same [OF e'(1) assms(2)] ent_value_store_other [OF e'(1)] set_fits [OF assms(2)]
    by (simp add: sets_field_def)
qed

lemma behind:
  assumes "field_off f + field_len f \<le> k"
  shows "keeps_behind k e (setf big (Some e) v)"
  using set_fits [of v big e] set_too_large [of v big e] assms
  by (cases "unat v < 2 ^ (8 * field_len f)") (auto simp: keeps_behind_def ent_store_def store_be_drop)

lemma get_set:
  assumes "64 \<le> length e" and "unat v < 2 ^ (8 * field_len f)"
  shows "\<exists>e'. setf big (Some e) v = Some (0, Some e') \<and> getf big' (Some e') = Some (ucast v)"
proof -
  have "unat (ucast v :: 'a word) = unat v"
    using assms(2) get_width
    by (simp add: unsigned_ucast_eq take_bit_nat_eq_self_iff)
      (meson order_less_le_trans one_le_numeral power_increasing)
  then show ?thesis using sets [OF assms, of big] get_eqI by (fastforce simp: sets_field_def)
qed

end

text \<open>Every pair of a getter and a setter satisfies the contract.\<close>

lemma store_be_ucast:
  fixes v :: "'a::len word"
  assumes "8 * n \<le> LENGTH('a)" and "8 * n \<le> LENGTH('b)"
  shows "store_be n off (ucast v :: 'b::len word) e = store_be n off v e"
  using be_bytes_word_of_unat [OF assms, of v] by (simp add: store_be_def)

lemmas store_be_narrowed =
  store_be_ucast [where ?'a = 32 and ?'b = 8 and n = "Suc 0", simplified]
  store_be_ucast [where ?'a = 32 and ?'b = 16 and n = 2, simplified]

lemma unat_le_max:
  "v \<le> 0xFF \<longleftrightarrow> unat v < 2 ^ 8" "v \<le> 0xFFFF \<longleftrightarrow> unat v < 2 ^ 16" "v \<le> 0xFFFFFF \<longleftrightarrow> unat v < 2 ^ 24"
  "w \<le> 0xFFFFFFFFFFFF \<longleftrightarrow> unat w < 2 ^ 48"
  for v :: u32 and w :: u64
  by (auto simp: word_le_nat_alt)

lemma entity_fieldI:
  fixes getf :: "bool \<Rightarrow> buffer option \<Rightarrow> 'a::len word option"
    and setf :: "bool \<Rightarrow> buffer option \<Rightarrow> 'b::len word \<Rightarrow> set_result"
  assumes "n = field_len f" and "off = field_off f" and "8 * n \<le> LENGTH('a)" and "8 * n \<le> LENGTH('b)"
    and "\<And>big p. getf big p = hdr_get p (load_be n off)"
    and "\<And>big v. setf big None v = Some (- 1, None)"
    and "\<And>big e v. unat v < 2 ^ (8 * n) \<Longrightarrow> setf big (Some e) v = map_option (\<lambda>e. (0, Some e)) (store_be n off v e)"
    and "\<And>big e v. \<not> unat v < 2 ^ (8 * n) \<Longrightarrow> setf big (Some e) v = Some (- 1, Some e)"
  shows "entity_field f getf setf"
  by unfold_locales (use assms in \<open>simp_all add: hdr_get_def store_be_ent_store\<close>)

lemma get_be_load_fun:
  "get_be8 big off = load_be 1 off" "get_be16 big off = load_be 2 off" "get_be24 big off = load_be 3 off"
  "get_be32 big off = load_be 4 off" "get_be48 big off = load_be 6 off"
  by (simp_all add: fun_eq_iff get_be_load)

lemma unat_word_less: "unat (x :: u8) < 256" "unat (y :: u16) < 65536" "unat (z :: u32) < 4294967296"
  using unat_less_2p [of x] unat_less_2p [of y] unat_less_2p [of z] by simp_all

lemmas entity_field_eval =
  unat_word_less hdr_set_def set_be_store get_be_load_fun CMP_ENTITY_MAX_SIZE_def unat_le_max store_be_narrowed

interpretation ef_version_id: entity_field F_VERSION_ID cmp_ent_get_version_id cmp_ent_set_version_id
  by (rule entity_fieldI [where n = 4 and off = 0])
    (simp_all add: cmp_ent_get_version_id_def cmp_ent_set_version_id_def entity_field_eval)

interpretation ef_size: entity_field F_SIZE cmp_ent_get_size cmp_ent_set_size
  by (rule entity_fieldI [where n = 3 and off = 4])
    (simp_all add: cmp_ent_get_size_def cmp_ent_set_size_def entity_field_eval)

interpretation ef_original_size: entity_field F_ORIGINAL_SIZE cmp_ent_get_original_size cmp_ent_set_original_size
  by (rule entity_fieldI [where n = 3 and off = 7])
    (simp_all add: cmp_ent_get_original_size_def cmp_ent_set_original_size_def entity_field_eval)

interpretation ef_start_timestamp: entity_field F_START_TIMESTAMP cmp_ent_get_start_timestamp cmp_ent_set_start_timestamp
  by (rule entity_fieldI [where n = 6 and off = 10])
    (simp_all add: cmp_ent_get_start_timestamp_def cmp_ent_set_start_timestamp_def entity_field_eval)

interpretation ef_coarse_start_time: entity_field F_COARSE_START_TIME cmp_ent_get_coarse_start_time cmp_ent_set_coarse_start_time
  by (rule entity_fieldI [where n = 4 and off = 10])
    (simp_all add: cmp_ent_get_coarse_start_time_def cmp_ent_set_coarse_start_time_def entity_field_eval)

interpretation ef_fine_start_time: entity_field F_FINE_START_TIME cmp_ent_get_fine_start_time cmp_ent_set_fine_start_time
  by (rule entity_fieldI [where n = 2 and off = 14])
    (simp_all add: cmp_ent_get_fine_start_time_def cmp_ent_set_fine_start_time_def entity_field_eval)

interpretation ef_end_timestamp: entity_field F_END_TIMESTAMP cmp_ent_get_end_timestamp cmp_ent_set_end_timestamp
  by (rule entity_fieldI [where n = 6 and off = 16])
    (simp_all add: cmp_ent_get_end_timestamp_def cmp_ent_set_end_timestamp_def entity_field_eval)

interpretation ef_coarse_end_time: entity_field F_COARSE_END_TIME cmp_ent_get_coarse_end_time cmp_ent_set_coarse_end_time
  by (rule entity_fieldI [where n = 4 and off = 16])
    (simp_all add: cmp_ent_get_coarse_end_time_def cmp_ent_set_coarse_end_time_def entity_field_eval)

interpretation ef_fine_end_time: entity_field F_FINE_END_TIME cmp_ent_get_fine_end_time cmp_ent_set_fine_end_time
  by (rule entity_fieldI [where n = 2 and off = 20])
    (simp_all add: cmp_ent_get_fine_end_time_def cmp_ent_set_fine_end_time_def entity_field_eval)

interpretation ef_model_value: entity_field F_MODEL_VALUE cmp_ent_get_model_value cmp_ent_set_model_value
  by (rule entity_fieldI [where n = 1 and off = 25])
    (simp_all add: cmp_ent_get_model_value_def cmp_ent_set_model_value_def entity_field_eval)

interpretation ef_model_id: entity_field F_MODEL_ID cmp_ent_get_model_id cmp_ent_set_model_id
  by (rule entity_fieldI [where n = 2 and off = 26])
    (simp_all add: cmp_ent_get_model_id_def cmp_ent_set_model_id_def entity_field_eval)

interpretation ef_model_counter: entity_field F_MODEL_COUNTER cmp_ent_get_model_counter cmp_ent_set_model_counter
  by (rule entity_fieldI [where n = 1 and off = 28])
    (simp_all add: cmp_ent_get_model_counter_def cmp_ent_set_model_counter_def entity_field_eval)

interpretation ef_reserved: entity_field F_RESERVED cmp_ent_get_reserved cmp_ent_set_reserved
  by (rule entity_fieldI [where n = 1 and off = 29])
    (simp_all add: cmp_ent_get_reserved_def cmp_ent_set_reserved_def entity_field_eval)

interpretation ef_lossy_cmp_par: entity_field F_LOSSY_CMP_PAR cmp_ent_get_lossy_cmp_par cmp_ent_set_lossy_cmp_par
  by (rule entity_fieldI [where n = 2 and off = 30])
    (simp_all add: cmp_ent_get_lossy_cmp_par_def cmp_ent_set_lossy_cmp_par_def entity_field_eval)

interpretation ef_ima_spill: entity_field F_IMA_SPILL cmp_ent_get_ima_spill cmp_ent_set_ima_spill
  by (rule entity_fieldI [where n = 2 and off = 32])
    (simp_all add: cmp_ent_get_ima_spill_def cmp_ent_set_ima_spill_def entity_field_eval)

interpretation ef_ima_golomb_par: entity_field F_IMA_GOLOMB_PAR cmp_ent_get_ima_golomb_par cmp_ent_set_ima_golomb_par
  by (rule entity_fieldI [where n = 1 and off = 34])
    (simp_all add: cmp_ent_get_ima_golomb_par_def cmp_ent_set_ima_golomb_par_def entity_field_eval)

interpretation ef_ima_ap1_spill: entity_field F_IMA_AP1_SPILL cmp_ent_get_ima_ap1_spill cmp_ent_set_ima_ap1_spill
  by (rule entity_fieldI [where n = 2 and off = 35])
    (simp_all add: cmp_ent_get_ima_ap1_spill_def cmp_ent_set_ima_ap1_spill_def entity_field_eval)

interpretation ef_ima_ap1_golomb_par: entity_field F_IMA_AP1_GOLOMB_PAR cmp_ent_get_ima_ap1_golomb_par cmp_ent_set_ima_ap1_golomb_par
  by (rule entity_fieldI [where n = 1 and off = 37])
    (simp_all add: cmp_ent_get_ima_ap1_golomb_par_def cmp_ent_set_ima_ap1_golomb_par_def entity_field_eval)

interpretation ef_ima_ap2_spill: entity_field F_IMA_AP2_SPILL cmp_ent_get_ima_ap2_spill cmp_ent_set_ima_ap2_spill
  by (rule entity_fieldI [where n = 2 and off = 38])
    (simp_all add: cmp_ent_get_ima_ap2_spill_def cmp_ent_set_ima_ap2_spill_def entity_field_eval)

interpretation ef_ima_ap2_golomb_par: entity_field F_IMA_AP2_GOLOMB_PAR cmp_ent_get_ima_ap2_golomb_par cmp_ent_set_ima_ap2_golomb_par
  by (rule entity_fieldI [where n = 1 and off = 40])
    (simp_all add: cmp_ent_get_ima_ap2_golomb_par_def cmp_ent_set_ima_ap2_golomb_par_def entity_field_eval)

interpretation ef_non_ima_spill1: entity_field F_NON_IMA_SPILL1 cmp_ent_get_non_ima_spill1 cmp_ent_set_non_ima_spill1
  by (rule entity_fieldI [where n = 3 and off = 32])
    (simp_all add: cmp_ent_get_non_ima_spill1_def cmp_ent_set_non_ima_spill1_def entity_field_eval)

interpretation ef_non_ima_cmp_par1: entity_field F_NON_IMA_CMP_PAR1 cmp_ent_get_non_ima_cmp_par1 cmp_ent_set_non_ima_cmp_par1
  by (rule entity_fieldI [where n = 2 and off = 35])
    (simp_all add: cmp_ent_get_non_ima_cmp_par1_def cmp_ent_set_non_ima_cmp_par1_def entity_field_eval)

interpretation ef_non_ima_spill2: entity_field F_NON_IMA_SPILL2 cmp_ent_get_non_ima_spill2 cmp_ent_set_non_ima_spill2
  by (rule entity_fieldI [where n = 3 and off = 37])
    (simp_all add: cmp_ent_get_non_ima_spill2_def cmp_ent_set_non_ima_spill2_def entity_field_eval)

interpretation ef_non_ima_cmp_par2: entity_field F_NON_IMA_CMP_PAR2 cmp_ent_get_non_ima_cmp_par2 cmp_ent_set_non_ima_cmp_par2
  by (rule entity_fieldI [where n = 2 and off = 40])
    (simp_all add: cmp_ent_get_non_ima_cmp_par2_def cmp_ent_set_non_ima_cmp_par2_def entity_field_eval)

interpretation ef_non_ima_spill3: entity_field F_NON_IMA_SPILL3 cmp_ent_get_non_ima_spill3 cmp_ent_set_non_ima_spill3
  by (rule entity_fieldI [where n = 3 and off = 42])
    (simp_all add: cmp_ent_get_non_ima_spill3_def cmp_ent_set_non_ima_spill3_def entity_field_eval)

interpretation ef_non_ima_cmp_par3: entity_field F_NON_IMA_CMP_PAR3 cmp_ent_get_non_ima_cmp_par3 cmp_ent_set_non_ima_cmp_par3
  by (rule entity_fieldI [where n = 2 and off = 45])
    (simp_all add: cmp_ent_get_non_ima_cmp_par3_def cmp_ent_set_non_ima_cmp_par3_def entity_field_eval)

interpretation ef_non_ima_spill4: entity_field F_NON_IMA_SPILL4 cmp_ent_get_non_ima_spill4 cmp_ent_set_non_ima_spill4
  by (rule entity_fieldI [where n = 3 and off = 47])
    (simp_all add: cmp_ent_get_non_ima_spill4_def cmp_ent_set_non_ima_spill4_def entity_field_eval)

interpretation ef_non_ima_cmp_par4: entity_field F_NON_IMA_CMP_PAR4 cmp_ent_get_non_ima_cmp_par4 cmp_ent_set_non_ima_cmp_par4
  by (rule entity_fieldI [where n = 2 and off = 50])
    (simp_all add: cmp_ent_get_non_ima_cmp_par4_def cmp_ent_set_non_ima_cmp_par4_def entity_field_eval)

interpretation ef_non_ima_spill5: entity_field F_NON_IMA_SPILL5 cmp_ent_get_non_ima_spill5 cmp_ent_set_non_ima_spill5
  by (rule entity_fieldI [where n = 3 and off = 52])
    (simp_all add: cmp_ent_get_non_ima_spill5_def cmp_ent_set_non_ima_spill5_def entity_field_eval)

interpretation ef_non_ima_cmp_par5: entity_field F_NON_IMA_CMP_PAR5 cmp_ent_get_non_ima_cmp_par5 cmp_ent_set_non_ima_cmp_par5
  by (rule entity_fieldI [where n = 2 and off = 55])
    (simp_all add: cmp_ent_get_non_ima_cmp_par5_def cmp_ent_set_non_ima_cmp_par5_def entity_field_eval)

interpretation ef_non_ima_spill6: entity_field F_NON_IMA_SPILL6 cmp_ent_get_non_ima_spill6 cmp_ent_set_non_ima_spill6
  by (rule entity_fieldI [where n = 3 and off = 57])
    (simp_all add: cmp_ent_get_non_ima_spill6_def cmp_ent_set_non_ima_spill6_def entity_field_eval)

interpretation ef_non_ima_cmp_par6: entity_field F_NON_IMA_CMP_PAR6 cmp_ent_get_non_ima_cmp_par6 cmp_ent_set_non_ima_cmp_par6
  by (rule entity_fieldI [where n = 2 and off = 60])
    (simp_all add: cmp_ent_get_non_ima_cmp_par6_def cmp_ent_set_non_ima_cmp_par6_def entity_field_eval)

end
