(* ===== verification/Cmp_Entity.thy ===== *)
theory Cmp_Entity
  imports Entity_Header Cmp_Support
begin

text \<open>
  The compression entity (\<open>lib/common/cmp_entity.c\<close>): the size of its header, the location and
  the size of its data, its creation and the parameters of a hardware compression. The setters
  and getters of the single fields are in \<open>Entity_Header\<close>; the two fields that hold an
  enumerator are here.
\<close>

section \<open>Enumerators as numbers\<close>

text \<open>
  The enumerators are consecutive numbers; a number that is none of them is an integer value of
  the enumeration type, which the C code can hold too.
\<close>

definition data_types :: "cmp_data_type list" where
  "data_types = [DATA_TYPE_UNKNOWN, DATA_TYPE_IMAGETTE, DATA_TYPE_IMAGETTE_ADAPTIVE,
     DATA_TYPE_SAT_IMAGETTE, DATA_TYPE_SAT_IMAGETTE_ADAPTIVE, DATA_TYPE_OFFSET,
     DATA_TYPE_BACKGROUND, DATA_TYPE_SMEARING, DATA_TYPE_S_FX, DATA_TYPE_S_FX_EFX,
     DATA_TYPE_S_FX_NCOB, DATA_TYPE_S_FX_EFX_NCOB_ECOB, DATA_TYPE_L_FX, DATA_TYPE_L_FX_EFX,
     DATA_TYPE_L_FX_NCOB, DATA_TYPE_L_FX_EFX_NCOB_ECOB, DATA_TYPE_F_FX, DATA_TYPE_F_FX_EFX,
     DATA_TYPE_F_FX_NCOB, DATA_TYPE_F_FX_EFX_NCOB_ECOB, DATA_TYPE_F_CAM_IMAGETTE,
     DATA_TYPE_F_CAM_IMAGETTE_ADAPTIVE, DATA_TYPE_F_CAM_OFFSET, DATA_TYPE_F_CAM_BACKGROUND,
     DATA_TYPE_CHUNK]"

definition data_type_of :: "u32 \<Rightarrow> cmp_data_type" where
  "data_type_of n = (if unat n < length data_types then data_types ! unat n else DATA_TYPE_OTHER n)"

fun data_type_value :: "cmp_data_type \<Rightarrow> u32" where
  "data_type_value DATA_TYPE_UNKNOWN = 0"
| "data_type_value DATA_TYPE_IMAGETTE = 1"
| "data_type_value DATA_TYPE_IMAGETTE_ADAPTIVE = 2"
| "data_type_value DATA_TYPE_SAT_IMAGETTE = 3"
| "data_type_value DATA_TYPE_SAT_IMAGETTE_ADAPTIVE = 4"
| "data_type_value DATA_TYPE_OFFSET = 5"
| "data_type_value DATA_TYPE_BACKGROUND = 6"
| "data_type_value DATA_TYPE_SMEARING = 7"
| "data_type_value DATA_TYPE_S_FX = 8"
| "data_type_value DATA_TYPE_S_FX_EFX = 9"
| "data_type_value DATA_TYPE_S_FX_NCOB = 10"
| "data_type_value DATA_TYPE_S_FX_EFX_NCOB_ECOB = 11"
| "data_type_value DATA_TYPE_L_FX = 12"
| "data_type_value DATA_TYPE_L_FX_EFX = 13"
| "data_type_value DATA_TYPE_L_FX_NCOB = 14"
| "data_type_value DATA_TYPE_L_FX_EFX_NCOB_ECOB = 15"
| "data_type_value DATA_TYPE_F_FX = 16"
| "data_type_value DATA_TYPE_F_FX_EFX = 17"
| "data_type_value DATA_TYPE_F_FX_NCOB = 18"
| "data_type_value DATA_TYPE_F_FX_EFX_NCOB_ECOB = 19"
| "data_type_value DATA_TYPE_F_CAM_IMAGETTE = 20"
| "data_type_value DATA_TYPE_F_CAM_IMAGETTE_ADAPTIVE = 21"
| "data_type_value DATA_TYPE_F_CAM_OFFSET = 22"
| "data_type_value DATA_TYPE_F_CAM_BACKGROUND = 23"
| "data_type_value DATA_TYPE_CHUNK = 24"
| "data_type_value (DATA_TYPE_OTHER n) = n"

definition cmp_mode_of :: "u32 \<Rightarrow> cmp_mode" where
  "cmp_mode_of n =
     (if n = 0 then CMP_MODE_RAW else if n = 1 then CMP_MODE_MODEL_ZERO
      else if n = 2 then CMP_MODE_DIFF_ZERO else if n = 3 then CMP_MODE_MODEL_MULTI
      else if n = 4 then CMP_MODE_DIFF_MULTI else CMP_MODE_OTHER n)"

fun cmp_mode_value :: "cmp_mode \<Rightarrow> u32" where
  "cmp_mode_value CMP_MODE_RAW = 0"
| "cmp_mode_value CMP_MODE_MODEL_ZERO = 1"
| "cmp_mode_value CMP_MODE_DIFF_ZERO = 2"
| "cmp_mode_value CMP_MODE_MODEL_MULTI = 3"
| "cmp_mode_value CMP_MODE_DIFF_MULTI = 4"
| "cmp_mode_value (CMP_MODE_OTHER n) = n"

section \<open>Information of a hardware compression\<close>

text \<open>
  \<open>struct rdcu_cfg\<close> and \<open>struct cmp_info\<close> of \<open>lib/common/cmp_support.h\<close>; the buffer pointers of
  the configuration are arguments of the functions that use them.
\<close>

record rdcu_cfg =
  rc_samples :: u32
  rc_buffer_length :: u32
  rdcu_data_adr :: u32
  rdcu_model_adr :: u32
  rdcu_new_model_adr :: u32
  rdcu_buffer_adr :: u32
  rc_cmp_mode :: cmp_mode
  rc_model_value :: u32
  rc_round :: u32
  rc_golomb_par :: u32
  rc_spill :: u32
  rc_ap1_golomb_par :: u32
  rc_ap1_spill :: u32
  rc_ap2_golomb_par :: u32
  rc_ap2_spill :: u32

record cmp_info =
  cmp_mode_used :: u32
  spill_used :: u32
  golomb_par_used :: u32
  samples_used :: u32
  cmp_size :: u32
  ap1_cmp_size :: u32
  ap2_cmp_size :: u32
  rdcu_new_model_adr_used :: u32
  rdcu_cmp_adr_used :: u32
  model_value_used :: u8
  round_used :: u8
  cmp_err :: u16

section \<open>Size of the header\<close>

definition GENERIC_HEADER_SIZE :: u32 where "GENERIC_HEADER_SIZE = 32"
definition IMAGETTE_HEADER_SIZE :: u32 where "IMAGETTE_HEADER_SIZE = GENERIC_HEADER_SIZE + 4"
definition IMAGETTE_ADAPTIVE_HEADER_SIZE :: u32 where
  "IMAGETTE_ADAPTIVE_HEADER_SIZE = GENERIC_HEADER_SIZE + 12"
definition NON_IMAGETTE_HEADER_SIZE :: u32 where
  "NON_IMAGETTE_HEADER_SIZE = GENERIC_HEADER_SIZE + 32"

lemmas header_sizes = GENERIC_HEADER_SIZE_def IMAGETTE_HEADER_SIZE_def
  IMAGETTE_ADAPTIVE_HEADER_SIZE_def NON_IMAGETTE_HEADER_SIZE_def

definition cmp_ent_cal_hdr_size :: "cmp_data_type \<Rightarrow> bool \<Rightarrow> u32" where
  "cmp_ent_cal_hdr_size t raw_mode_flag =
     (if raw_mode_flag then (if \<not> cmp_data_type_is_invalid t then GENERIC_HEADER_SIZE else 0)
      else case t of
        DATA_TYPE_IMAGETTE \<Rightarrow> IMAGETTE_HEADER_SIZE
      | DATA_TYPE_SAT_IMAGETTE \<Rightarrow> IMAGETTE_HEADER_SIZE
      | DATA_TYPE_F_CAM_IMAGETTE \<Rightarrow> IMAGETTE_HEADER_SIZE
      | DATA_TYPE_IMAGETTE_ADAPTIVE \<Rightarrow> IMAGETTE_ADAPTIVE_HEADER_SIZE
      | DATA_TYPE_SAT_IMAGETTE_ADAPTIVE \<Rightarrow> IMAGETTE_ADAPTIVE_HEADER_SIZE
      | DATA_TYPE_F_CAM_IMAGETTE_ADAPTIVE \<Rightarrow> IMAGETTE_ADAPTIVE_HEADER_SIZE
      | DATA_TYPE_UNKNOWN \<Rightarrow> 0
      | DATA_TYPE_OTHER _ \<Rightarrow> 0
      | _ \<Rightarrow> NON_IMAGETTE_HEADER_SIZE)"

section \<open>Data type and compression mode\<close>

definition cmp_ent_set_data_type :: "bool \<Rightarrow> buffer option \<Rightarrow> cmp_data_type \<Rightarrow> bool \<Rightarrow> set_result" where
  "cmp_ent_set_data_type big ent t raw_mode_flag =
     hdr_set (- 1) ent (data_type_value t \<le> 0x7FF)
       (set_be16 big 22 (ucast (if raw_mode_flag then data_type_value t OR push_bit 15 1 else data_type_value t)))"

definition cmp_ent_set_cmp_mode :: "bool \<Rightarrow> buffer option \<Rightarrow> cmp_mode \<Rightarrow> set_result" where
  "cmp_ent_set_cmp_mode big ent mode =
     hdr_set (- 1) ent (cmp_mode_value mode \<le> 0xFF) (set_be8 big 24 (ucast (cmp_mode_value mode)))"

definition cmp_ent_get_data_type :: "bool \<Rightarrow> buffer option \<Rightarrow> cmp_data_type option" where
  "cmp_ent_get_data_type big ent = (case ent of
       None \<Rightarrow> Some DATA_TYPE_UNKNOWN
     | Some e \<Rightarrow> do {
         v \<leftarrow> get_be16 big 22 e;
         let t = data_type_of (ucast v AND (push_bit 15 1 - 1));
         Some (if cmp_data_type_is_invalid t then DATA_TYPE_UNKNOWN else t)
       })"

definition cmp_ent_get_data_type_raw_bit :: "bool \<Rightarrow> buffer option \<Rightarrow> bool option" where
  "cmp_ent_get_data_type_raw_bit big ent = (case ent of
       None \<Rightarrow> Some False
     | Some e \<Rightarrow> map_option (\<lambda>v. drop_bit 15 v AND 1 \<noteq> 0) (get_be16 big 22 e))"

definition cmp_ent_get_cmp_mode :: "bool \<Rightarrow> buffer option \<Rightarrow> u8 option" where
  "cmp_ent_get_cmp_mode big ent = hdr_get ent (get_be8 big 24)"

section \<open>The data of an entity\<close>

definition cmp_ent_get_hdr_size :: "bool \<Rightarrow> buffer option \<Rightarrow> u32 option" where
  "cmp_ent_get_hdr_size big ent = do {
     t \<leftarrow> cmp_ent_get_data_type big ent;
     raw \<leftarrow> cmp_ent_get_data_type_raw_bit big ent;
     Some (cmp_ent_cal_hdr_size t raw)
   }"

text \<open>The address of the data is the offset into the entity; the inner \<open>None\<close> is NULL.\<close>

definition cmp_ent_get_data_buf :: "bool \<Rightarrow> buffer option \<Rightarrow> u32 option option" where
  "cmp_ent_get_data_buf big ent = do {
     hdr_size \<leftarrow> cmp_ent_get_hdr_size big ent;
     Some (if hdr_size = 0 then None else Some hdr_size)
   }"

definition cmp_ent_get_data_buf_const :: "bool \<Rightarrow> buffer option \<Rightarrow> u32 option option" where
  "cmp_ent_get_data_buf_const big ent = do {
     hdr_size \<leftarrow> cmp_ent_get_hdr_size big ent;
     Some (if hdr_size = 0 then None else Some hdr_size)
   }"

definition cmp_ent_get_cmp_data_size :: "bool \<Rightarrow> buffer option \<Rightarrow> u32 option" where
  "cmp_ent_get_cmp_data_size big ent = do {
     header_size \<leftarrow> cmp_ent_get_hdr_size big ent;
     cmp_ent_size \<leftarrow> cmp_ent_get_size big ent;
     Some (if header_size > cmp_ent_size then 0 else cmp_ent_size - header_size)
   }"

text \<open>
  Copies the data and converts its 32-bit words; the result is the size or -1, and the
  destination after the call.
\<close>

fun be32_to_cpus :: "bool \<Rightarrow> nat list \<Rightarrow> buffer \<Rightarrow> buffer option" where
  "be32_to_cpus big [] b = Some b"
| "be32_to_cpus big (i # is) b = do {
     x \<leftarrow> load_field big 4 (4 * i) b;
     b \<leftarrow> store_field big 4 (4 * i) (be32_to_cpu big x) b;
     be32_to_cpus big is b
   }"

definition cmp_ent_get_cmp_data ::
  "bool \<Rightarrow> buffer option \<Rightarrow> buffer option \<Rightarrow> u32 \<Rightarrow> (int \<times> buffer option) option" where
  "cmp_ent_get_cmp_data big ent data_buf data_buf_size = (case ent of
       None \<Rightarrow> Some (- 1, data_buf)
     | Some e \<Rightarrow> do {
         adr \<leftarrow> cmp_ent_get_data_buf big ent;
         case adr of
           None \<Rightarrow> Some (- 1, data_buf)
         | Some off \<Rightarrow> do {
             cmp_size_byte \<leftarrow> cmp_ent_get_cmp_data_size big ent;
             if cmp_size_byte AND 3 \<noteq> 0 then Some (- 1, data_buf)
             else case data_buf of
               None \<Rightarrow> Some (uint cmp_size_byte, None)
             | Some d \<Rightarrow>
                 if cmp_size_byte > data_buf_size then Some (- 1, data_buf)
                 else if length e < unat off + unat cmp_size_byte then None
                 else do {
                   d \<leftarrow> store_bytes 0 (take (unat cmp_size_byte) (drop (unat off) e)) d;
                   d \<leftarrow> be32_to_cpus big [0..<unat (cmp_size_byte div 4)] d;
                   Some (uint cmp_size_byte, Some d)
                 }
           }
       })"

section \<open>Creating an entity\<close>

text \<open>The result is the size of the entity, or 0 on an error, and the entity after the call.\<close>

definition cmp_ent_create ::
  "bool \<Rightarrow> buffer option \<Rightarrow> cmp_data_type \<Rightarrow> bool \<Rightarrow> u32 \<Rightarrow> (u32 \<times> buffer option) option" where
  "cmp_ent_create big ent t raw_mode_flag cmp_size_byte =
     (let hdr_size = cmp_ent_cal_hdr_size t raw_mode_flag;
          ent_size_cpy = hdr_size + cmp_size_byte
      in if hdr_size = 0 then Some (0, ent)
         else if cmp_size_byte > CMP_ENTITY_MAX_SIZE then Some (0, ent)
         else if ent_size_cpy > CMP_ENTITY_MAX_SIZE then Some (0, ent)
         else let ent_size = if ent_size_cpy < NON_IMAGETTE_HEADER_SIZE then NON_IMAGETTE_HEADER_SIZE
                else ent_size_cpy
         in case ent of
              None \<Rightarrow> Some (ent_size, None)
            | Some e \<Rightarrow> do {
                e \<leftarrow> store_bytes 0 (replicate (unat hdr_size) 0) e;
                (_, p) \<leftarrow> cmp_ent_set_size big (Some e) ent_size_cpy;
                (_, p) \<leftarrow> cmp_ent_set_data_type big p t raw_mode_flag;
                Some (ent_size, p)
              })"

section \<open>Parameters of a hardware compression\<close>

text \<open>
  A call in a condition, \<open>if (f(ent, ..)) return -1;\<close>, and a call whose result is not used.
\<close>

definition try_set :: "set_result \<Rightarrow> (buffer option \<Rightarrow> set_result) \<Rightarrow> set_result" where
  "try_set r k = do { (x, p) \<leftarrow> r; if x \<noteq> 0 then Some (- 1, p) else k p }"

definition just_set :: "set_result \<Rightarrow> (buffer option \<Rightarrow> set_result) \<Rightarrow> set_result" where
  "just_set r k = do { (x, p) \<leftarrow> r; k p }"

text \<open>The part of \<open>cmp_ent_write_rdcu_cmp_pars\<close> for the imagette specific header.\<close>

definition write_imagette_pars ::
  "bool \<Rightarrow> buffer option \<Rightarrow> cmp_data_type \<Rightarrow> cmp_info \<Rightarrow> rdcu_cfg option \<Rightarrow> set_result" where
  "write_imagette_pars big ent t info rcfg =
     try_set (cmp_ent_set_ima_spill big ent (spill_used info)) (\<lambda>p.
     try_set (cmp_ent_set_ima_golomb_par big p (golomb_par_used info)) (\<lambda>p.
     if cmp_ap_imagette_data_type_is_used t then
       (case rcfg of
          None \<Rightarrow> Some (- 1, p)
        | Some r \<Rightarrow>
            try_set (cmp_ent_set_ima_ap1_spill big p (rc_ap1_spill r)) (\<lambda>p.
            try_set (cmp_ent_set_ima_ap1_golomb_par big p (rc_ap1_golomb_par r)) (\<lambda>p.
            try_set (cmp_ent_set_ima_ap2_spill big p (rc_ap2_spill r)) (\<lambda>p.
            try_set (cmp_ent_set_ima_ap2_golomb_par big p (rc_ap2_golomb_par r)) (\<lambda>p.
            Some (0, p))))))
     else Some (0, p)))"

definition cmp_ent_write_rdcu_cmp_pars ::
  "bool \<Rightarrow> buffer option \<Rightarrow> cmp_info option \<Rightarrow> rdcu_cfg option \<Rightarrow> set_result" where
  "cmp_ent_write_rdcu_cmp_pars big ent info_p rcfg = (case (ent, info_p) of
       (None, _) \<Rightarrow> Some (- 1, ent)
     | (_, None) \<Rightarrow> Some (- 1, ent)
     | (Some e, Some info) \<Rightarrow>
         if cmp_err info \<noteq> 0 then Some (- 1, ent)
         else do {
           t \<leftarrow> cmp_ent_get_data_type big ent;
           if \<not> rdcu_supported_data_type_is_used t then Some (- 1, ent)
           else do {
             raw_bit \<leftarrow> cmp_ent_get_data_type_raw_bit big ent;
             if raw_bit \<noteq> raw_mode_is_used (cmp_mode_of (cmp_mode_used info)) then Some (- 1, ent)
             else do {
               ent_cmp_data_size \<leftarrow> cmp_ent_get_cmp_data_size big ent;
               if ent_cmp_data_size < cmp_bit_to_byte (cmp_size info) then Some (- 2, ent)
               else
                 try_set (cmp_ent_set_original_size big ent (samples_used info * 2)) (\<lambda>p.
                 try_set (cmp_ent_set_cmp_mode big p (cmp_mode_of (cmp_mode_used info))) (\<lambda>p.
                 just_set (cmp_ent_set_model_value big p (ucast (model_value_used info))) (\<lambda>p.
                 just_set (cmp_ent_set_reserved big p 0) (\<lambda>p.
                 just_set (cmp_ent_set_lossy_cmp_par big p (ucast (round_used info))) (\<lambda>p.
                 if raw_mode_is_used (cmp_mode_of (cmp_mode_used info)) then Some (0, p)
                 else write_imagette_pars big p t info rcfg)))))
             }
           }
         })"

section \<open>Enumerators\<close>

lemma data_type_value_of [simp]: "data_type_value (data_type_of n) = n"
proof (cases "unat n < 25")
  case True
  have "map (\<lambda>t. unat (data_type_value t)) data_types = [0..<25]" by (simp add: data_types_def upt_rec)
  then have "unat (data_type_value (data_types ! unat n)) = [0..<25] ! unat n"
    using True by (metis length_upt diff_zero length_map nth_map)
  then have "unat (data_type_value (data_types ! unat n)) = unat n" using True by simp
  then show ?thesis using True by (simp add: data_type_of_def data_types_def word_unat_eq_iff)
qed (simp add: data_type_of_def data_types_def)

lemma data_type_of_value: "\<not> cmp_data_type_is_invalid t \<Longrightarrow> data_type_of (data_type_value t) = t"
  by (cases t) (simp_all add: data_type_of_def data_types_def cmp_data_type_is_invalid_def)

lemma data_type_value_le: "\<not> cmp_data_type_is_invalid t \<Longrightarrow> unat (data_type_value t) \<le> 24"
  by (cases t) (simp_all add: cmp_data_type_is_invalid_def)

lemma cmp_data_type_valid: "cmp_data_type_is_invalid (DATA_TYPE_OTHER n)" "cmp_data_type_is_invalid DATA_TYPE_UNKNOWN"
  by (simp_all add: cmp_data_type_is_invalid_def)

lemma cmp_mode_value_of [simp]: "cmp_mode_value (cmp_mode_of n) = n"
  by (simp add: cmp_mode_of_def)

lemma cmp_mode_of_value: "cmp_mode_is_supported m \<Longrightarrow> cmp_mode_of (cmp_mode_value m) = m"
  by (cases m) (simp_all add: cmp_mode_of_def cmp_mode_is_supported_def)

section \<open>Sequences of setters\<close>

text \<open>
  \<open>writes vs e r\<close>: the call succeeded, the fields in \<open>vs\<close> have the given values afterwards, and
  the fields disjoint from them and the data behind the header are what they were.
\<close>

definition writes :: "(ent_field \<times> nat) list \<Rightarrow> buffer \<Rightarrow> set_result \<Rightarrow> bool" where
  "writes vs e r \<longleftrightarrow> (64 \<le> length e \<longrightarrow> (\<exists>e'. r = Some (0, Some e') \<and> length e' = length e \<and>
     drop 64 e' = drop 64 e \<and> (\<forall>(f, n) \<in> set vs. ent_value f e' = Some n) \<and>
     (\<forall>g. (\<forall>(f, n) \<in> set vs. disjoint_fields f g) \<longrightarrow> ent_value g e' = ent_value g e)))"

lemma writesE:
  assumes "writes vs e r" and "64 \<le> length e"
  obtains e' where "r = Some (0, Some e')" "length e' = length e" "drop 64 e' = drop 64 e"
    "\<And>f n. (f, n) \<in> set vs \<Longrightarrow> ent_value f e' = Some n"
    "\<And>g. (\<And>f n. (f, n) \<in> set vs \<Longrightarrow> disjoint_fields f g) \<Longrightarrow> ent_value g e' = ent_value g e"
  using assms unfolding writes_def by fastforce

lemma writes_done: "writes [] e (Some (0, Some e))"
  by (simp add: writes_def)

lemma writes_sets_field: "(64 \<le> length e \<Longrightarrow> sets_field f n e r) \<Longrightarrow> writes [(f, n)] e r"
  by (auto simp: writes_def sets_field_def)

lemma disjoint_fields_sym: "disjoint_fields f g \<Longrightarrow> disjoint_fields g f"
  by (auto simp: disjoint_fields_def)

lemma writes_step:
  assumes r: "writes [(f, n)] e r" and k: "\<And>e'. writes vs e' (k (Some e'))"
    and dis: "\<And>g m. (g, m) \<in> set vs \<Longrightarrow> disjoint_fields g f"
  shows "writes ((f, n) # vs) e (try_set r k)" and "writes ((f, n) # vs) e (just_set r k)"
proof -
  have "\<exists>e' e''. r = Some (0, Some e') \<and> k (Some e') = Some (0, Some e'') \<and> length e'' = length e \<and>
      drop 64 e'' = drop 64 e \<and> (\<forall>(g, m) \<in> set ((f, n) # vs). ent_value g e'' = Some m) \<and>
      (\<forall>g. (\<forall>(h, m) \<in> set ((f, n) # vs). disjoint_fields h g) \<longrightarrow> ent_value g e'' = ent_value g e)"
    if len: "64 \<le> length e"
  proof -
    obtain e' where e': "r = Some (0, Some e')" "length e' = length e" "drop 64 e' = drop 64 e"
        "ent_value f e' = Some n" "\<And>g. disjoint_fields f g \<Longrightarrow> ent_value g e' = ent_value g e"
      using r len by (auto elim!: writesE)
    have "64 \<le> length e'" using e'(2) len by simp
    then obtain e'' where e'': "k (Some e') = Some (0, Some e'')" "length e'' = length e'" "drop 64 e'' = drop 64 e'"
        "\<And>g m. (g, m) \<in> set vs \<Longrightarrow> ent_value g e'' = Some m"
        "\<And>g. (\<And>h m. (h, m) \<in> set vs \<Longrightarrow> disjoint_fields h g) \<Longrightarrow> ent_value g e'' = ent_value g e'"
      using k [of e'] by (auto elim!: writesE)
    have "ent_value f e'' = Some n" using e''(5) [OF dis] e'(4) by simp
    moreover have "ent_value g e'' = ent_value g e"
      if "\<forall>(h, m) \<in> set ((f, n) # vs). disjoint_fields h g" for g
      using that e'(5) [of g] e''(5) [of g] by auto
    ultimately show ?thesis using e' e'' by auto
  qed
  then show "writes ((f, n) # vs) e (try_set r k)" "writes ((f, n) # vs) e (just_set r k)"
    unfolding writes_def try_set_def just_set_def by fastforce+
qed

lemma writes_last: "writes [(f, n)] e r \<Longrightarrow> writes [(f, n)] e (try_set r (\<lambda>p. Some (0, p)))"
  by (rule writes_step(1)) (simp_all add: writes_done)

section \<open>Data type and compression mode\<close>

lemma hdr_set_store:
  fixes v :: "'a::len word"
  assumes "64 \<le> length e" and "unat v < 2 ^ (8 * field_len f)" and "8 * field_len f \<le> LENGTH('a)"
    and "ok" and "\<And>b. st b = store_be (field_len f) (field_off f) v b"
  shows "sets_field f (unat v) e (hdr_set err (Some e) ok st)"
proof -
  obtain e' where e': "ent_store f (unat v) e = Some e'" "length e' = length e" "drop 64 e' = drop 64 e"
    using ent_store_Some [OF assms(1)] by blast
  then show ?thesis
    using ent_value_store_same [OF e'(1) assms(2)] ent_value_store_other [OF e'(1)] assms(4,5)
      store_be_ent_store [OF assms(3)]
    by (simp add: sets_field_def hdr_set_def)
qed

definition data_type_code :: "cmp_data_type \<Rightarrow> bool \<Rightarrow> nat" where
  "data_type_code t raw = unat (data_type_value t) + (if raw then 32768 else 0)"

lemma unat_or_high:
  fixes x :: "'a::len word"
  assumes "unat x < 2 ^ n" and "n < LENGTH('a)"
  shows "unat (x OR push_bit n 1) = unat x + 2 ^ n"
proof -
  have "x AND push_bit n 1 = 0"
    using assms(1) by (intro bit_word_eqI) (auto simp: bit_and_iff bit_exp_iff unat_less_iff_bits)
  then have "x OR push_bit n 1 = x + push_bit n 1" by (rule disjunctive_add_eq_or [symmetric])
  moreover have "unat (push_bit n 1 :: 'a word) = 2 ^ n"
    using assms(2) by (subst unat_push_bit) simp_all
  moreover have "unat x + 2 ^ n < 2 ^ LENGTH('a)"
  proof -
    have "unat x + 2 ^ n < 2 ^ Suc n" using assms(1) by simp
    also have "\<dots> \<le> 2 ^ LENGTH('a)" using assms(2) by (intro power_increasing) simp_all
    finally show ?thesis .
  qed
  ultimately show ?thesis by (simp add: unat_word_ariths)
qed

lemma sets_data_type:
  assumes "64 \<le> length e" and "unat (data_type_value t) \<le> 0x7FF"
  shows "sets_field F_DATA_TYPE (data_type_code t raw) e (cmp_ent_set_data_type big (Some e) t raw)"
proof -
  let ?v = "if raw then data_type_value t OR push_bit 15 1 else data_type_value t"
  have u: "unat ?v = data_type_code t raw"
    using assms(2) unat_or_high [of "data_type_value t" 15] by (simp add: data_type_code_def)
  then have "unat (ucast ?v :: u16) = data_type_code t raw"
    using assms(2) by (simp add: unsigned_ucast_eq data_type_code_def take_bit_nat_eq_self_iff)
  moreover have "data_type_value t \<le> 0x7FF" using assms(2) by (simp add: word_le_nat_alt)
  ultimately show ?thesis
    unfolding cmp_ent_set_data_type_def
    using hdr_set_store [where f = F_DATA_TYPE and v = "ucast ?v :: u16" and e = e and err = "- 1"
        and ok = "data_type_value t \<le> 0x7FF" and st = "set_be16 big 22 (ucast ?v)"] assms(1) unat_less_2p [of "ucast ?v :: u16"]
    by (simp add: set_be_store)
qed

lemma sets_cmp_mode:
  assumes "64 \<le> length e" and "unat (cmp_mode_value m) < 256"
  shows "sets_field F_CMP_MODE (unat (cmp_mode_value m)) e (cmp_ent_set_cmp_mode big (Some e) m)"
proof -
  have "unat (ucast (cmp_mode_value m) :: u8) = unat (cmp_mode_value m)"
    using assms(2) by (simp add: unsigned_ucast_eq take_bit_nat_eq_self_iff)
  moreover have "cmp_mode_value m \<le> 0xFF" using assms(2) by (simp add: word_le_nat_alt)
  ultimately show ?thesis
    unfolding cmp_ent_set_cmp_mode_def
    using hdr_set_store [where f = F_CMP_MODE and v = "ucast (cmp_mode_value m) :: u8" and e = e and err = "- 1"
        and ok = "cmp_mode_value m \<le> 0xFF" and st = "set_be8 big 24 (ucast (cmp_mode_value m))"] assms
    by (simp add: set_be_store)
qed

lemma get_data_type:
  assumes "ent_value F_DATA_TYPE e = Some (data_type_code t raw)" and "unat (data_type_value t) \<le> 0x7FF"
    and "\<not> cmp_data_type_is_invalid t"
  shows "cmp_ent_get_data_type big (Some e) = Some t"
    and "cmp_ent_get_data_type_raw_bit big (Some e) = Some raw"
proof -
  obtain v where v: "load_be 2 22 e = Some (v :: u16)" "unat v = data_type_code t raw"
    using assms(1) load_be_ent_value [of F_DATA_TYPE e, where 'a = 16] by (auto simp: map_option_eq_Some)
  have low: "unat (ucast v AND 0x7FFF :: u32) = unat v mod 2 ^ 15"
  proof -
    have "(ucast v AND 0x7FFF :: u32) = take_bit 15 (ucast v)" by (simp add: take_bit_eq_mask mask_numeral)
    moreover have "unat (ucast v :: u32) = unat v"
      using unat_less_2p [of v] by (simp add: unsigned_ucast_eq take_bit_nat_eq_self_iff)
    ultimately show ?thesis by (simp only: unsigned_take_bit_eq) (simp add: take_bit_eq_mod)
  qed
  have "ucast v AND 0x7FFF = data_type_value t"
    unfolding word_unat_eq_iff low v(2) using assms(2) by (simp add: data_type_code_def)
  then show "cmp_ent_get_data_type big (Some e) = Some t"
    using v(1) assms(3) by (simp add: cmp_ent_get_data_type_def get_be_load data_type_of_value)
  have "unat (drop_bit 15 v AND 1) = unat v div 2 ^ 15 mod 2"
    by (simp add: unat_drop_bit flip: take_bit_eq_mask [of 1, simplified] ) (simp add: and_one_eq unat_mod unat_drop_bit)
  then have "(drop_bit 15 v AND 1 \<noteq> 0) = raw"
    unfolding word_unat_eq_iff using v(2) assms(2) by (simp add: data_type_code_def div_add1_eq)
  then show "cmp_ent_get_data_type_raw_bit big (Some e) = Some raw"
    using v(1) by (simp add: cmp_ent_get_data_type_raw_bit_def get_be_load)
qed

section \<open>The header of an entity\<close>

lemma cmp_ent_cal_hdr_size_0: "cmp_ent_cal_hdr_size t raw = 0 \<longleftrightarrow> cmp_data_type_is_invalid t"
  by (cases t) (simp_all add: cmp_ent_cal_hdr_size_def cmp_data_type_is_invalid_def header_sizes)

lemma cmp_ent_cal_hdr_size_le: "unat (cmp_ent_cal_hdr_size t raw) \<le> 64"
  by (cases t) (simp_all add: cmp_ent_cal_hdr_size_def cmp_data_type_is_invalid_def header_sizes)

lemma cmp_ent_cal_hdr_size_raw: "\<not> cmp_data_type_is_invalid t \<Longrightarrow> unat (cmp_ent_cal_hdr_size t True) = 32"
  by (simp add: cmp_ent_cal_hdr_size_def header_sizes)

text \<open>What the header says about the entity: its size, its data type and the raw bit.\<close>

definition entity_of :: "cmp_data_type \<Rightarrow> bool \<Rightarrow> nat \<Rightarrow> buffer \<Rightarrow> bool" where
  "entity_of t raw n e \<longleftrightarrow> \<not> cmp_data_type_is_invalid t \<and> n < 2 ^ 24 \<and>
     ent_value F_SIZE e = Some n \<and> ent_value F_DATA_TYPE e = Some (data_type_code t raw)"

lemma entity_of_getters:
  assumes "entity_of t raw n e"
  shows "cmp_ent_get_data_type big (Some e) = Some t"
    and "cmp_ent_get_data_type_raw_bit big (Some e) = Some raw"
    and "cmp_ent_get_size big (Some e) = Some (word_of_nat n)"
    and "cmp_ent_get_hdr_size big (Some e) = Some (cmp_ent_cal_hdr_size t raw)"
    and "cmp_ent_get_data_buf big (Some e) = Some (Some (cmp_ent_cal_hdr_size t raw))"
proof -
  have t: "\<not> cmp_data_type_is_invalid t" "unat (data_type_value t) \<le> 0x7FF"
    using assms data_type_value_le [of t] by (auto simp: entity_of_def)
  have v: "ent_value F_DATA_TYPE e = Some (data_type_code t raw)" "ent_value F_SIZE e = Some n" "n < 2 ^ 24"
    using assms by (simp_all add: entity_of_def)
  show d: "cmp_ent_get_data_type big (Some e) = Some t" "cmp_ent_get_data_type_raw_bit big (Some e) = Some raw"
    using get_data_type [OF v(1) t(2,1)] by simp_all
  have "unat (word_of_nat n :: u32) = n" using v(3) by (simp add: unsigned_of_nat take_bit_nat_eq_self_iff)
  then show "cmp_ent_get_size big (Some e) = Some (word_of_nat n)"
    using v(2) by (intro ef_size.get_eqI) simp
  show h: "cmp_ent_get_hdr_size big (Some e) = Some (cmp_ent_cal_hdr_size t raw)"
    by (simp add: cmp_ent_get_hdr_size_def d)
  show "cmp_ent_get_data_buf big (Some e) = Some (Some (cmp_ent_cal_hdr_size t raw))"
    using t(1) by (simp add: cmp_ent_get_data_buf_def h cmp_ent_cal_hdr_size_0)
qed

lemma entity_of_data_size:
  assumes "entity_of t raw n e" and "unat (cmp_ent_cal_hdr_size t raw) \<le> n"
  shows "cmp_ent_get_cmp_data_size big (Some e) = Some (word_of_nat (n - unat (cmp_ent_cal_hdr_size t raw)))"
proof -
  let ?h = "cmp_ent_cal_hdr_size t raw"
  have "n < 2 ^ 24" using assms(1) by (simp add: entity_of_def)
  then have u: "unat (word_of_nat n :: u32) = n" by (simp add: unsigned_of_nat take_bit_nat_eq_self_iff)
  then have le: "?h \<le> word_of_nat n" using assms(2) by (simp add: word_le_nat_alt)
  have "word_of_nat n - ?h = (word_of_nat (n - unat ?h) :: u32)"
    using assms(2) by (simp add: of_nat_diff)
  then show ?thesis
    using le entity_of_getters [OF assms(1)] by (simp add: cmp_ent_get_cmp_data_size_def not_less)
qed

text \<open>\<open>cmp_ent_create\<close> writes these three facts and clears the rest of the header.\<close>

lemma store_zeros:
  assumes "store_bytes 0 (replicate h 0) e = Some e'" and "field_off f + field_len f \<le> h"
  shows "ent_value f e' = Some 0"
proof -
  have e': "e' = replicate h 0 @ drop h e" "h \<le> length e" using assms(1) by (auto simp: store_bytes_def split: if_splits)
  have "take (field_len f) (drop (field_off f) e') = replicate (field_len f) 0"
    using assms(2) by (simp add: e')
  moreover have "be_word (replicate k 0) = (0 :: u64)" for k
    by (induction k) (simp_all add: be_word_def)
  ultimately show ?thesis using assms(2) e' by (simp add: ent_value_def load_be_def)
qed

lemma cmp_ent_create_writes:
  assumes t: "\<not> cmp_data_type_is_invalid t" and len: "64 \<le> length e"
    and n: "unat n + unat (cmp_ent_cal_hdr_size t raw) < 2 ^ 24"
  shows "\<exists>e'. cmp_ent_create big (Some e) t raw n = Some (max 64 (cmp_ent_cal_hdr_size t raw + n), Some e') \<and>
    entity_of t raw (unat (cmp_ent_cal_hdr_size t raw) + unat n) e' \<and> length e' = length e \<and>
    drop 64 e' = drop 64 e \<and>
    (\<forall>f. field_off f + field_len f \<le> unat (cmp_ent_cal_hdr_size t raw) \<longrightarrow>
       disjoint_fields F_SIZE f \<longrightarrow> disjoint_fields F_DATA_TYPE f \<longrightarrow> ent_value f e' = Some 0)"
proof -
  let ?h = "cmp_ent_cal_hdr_size t raw"
  have h: "?h \<noteq> 0" "unat ?h \<le> 64" using t cmp_ent_cal_hdr_size_le by (simp_all add: cmp_ent_cal_hdr_size_0)
  have u: "unat (?h + n) = unat ?h + unat n" using n h by (intro unat_add_small) simp
  obtain e1 where e1: "store_bytes 0 (replicate (unat ?h) 0) e = Some e1" using h len by (simp add: store_bytes_def)
  then have l1: "length e1 = length e" "drop 64 e1 = drop 64 e"
    using h(2) by (auto simp: store_bytes_def split: if_splits)
  obtain e2 where e2: "cmp_ent_set_size big (Some e1) (?h + n) = Some (0, Some e2)" "length e2 = length e1"
      "drop 64 e2 = drop 64 e1" "ent_value F_SIZE e2 = Some (unat ?h + unat n)"
      "\<And>g. disjoint_fields F_SIZE g \<Longrightarrow> ent_value g e2 = ent_value g e1"
    using ef_size.sets [of e1 "?h + n" big] n len l1 u by (auto simp: sets_field_def)
  obtain e3 where e3: "cmp_ent_set_data_type big (Some e2) t raw = Some (0, Some e3)" "length e3 = length e2"
      "drop 64 e3 = drop 64 e2" "ent_value F_DATA_TYPE e3 = Some (data_type_code t raw)"
      "\<And>g. disjoint_fields F_DATA_TYPE g \<Longrightarrow> ent_value g e3 = ent_value g e2"
    using sets_data_type [of e2 t raw big] data_type_value_le [OF t] len l1 e2(2) by (auto simp: sets_field_def)
  have "cmp_ent_create big (Some e) t raw n = Some (max 64 (?h + n), Some e3)"
    using h(1) n u e1 e2(1) e3(1)
    by (simp add: cmp_ent_create_def Let_def CMP_ENTITY_MAX_SIZE_def word_less_nat_alt header_sizes max_def word_le_nat_alt)
  moreover have "entity_of t raw (unat ?h + unat n) e3"
    using t n e3(4,5) e2(4) by (simp add: entity_of_def disjoint_fields_def)
  moreover have "ent_value f e3 = Some 0" if "field_off f + field_len f \<le> unat ?h" "disjoint_fields F_SIZE f"
      "disjoint_fields F_DATA_TYPE f" for f
    using that e3(5) e2(5) store_zeros [OF e1] by simp
  ultimately show ?thesis using e3(2,3) e2(2,3) l1 by auto
qed

text \<open>Every byte of the header it leaves: zero except for the size and the data type.\<close>

lemma store_bytes_middle:
  "length xs = k \<Longrightarrow> length ys = length zs \<Longrightarrow> store_bytes k ys (xs @ zs @ rest) = Some (xs @ ys @ rest)"
  by (simp add: store_bytes_def)

definition data_type_word :: "cmp_data_type \<Rightarrow> bool \<Rightarrow> u16" where
  "data_type_word t raw = word_of_nat (data_type_code t raw)"

lemma data_type_word_stored:
  assumes "unat (data_type_value t) \<le> 0x7FF"
  shows "ucast (if raw then data_type_value t OR push_bit 15 1 else data_type_value t) = data_type_word t raw"
proof (rule word_unat_eq_iff [THEN iffD2])
  have "unat (if raw then data_type_value t OR push_bit 15 1 else data_type_value t) = data_type_code t raw"
    using assms unat_or_high [of "data_type_value t" 15] by (simp add: data_type_code_def)
  then show "unat (ucast (if raw then data_type_value t OR push_bit 15 1 else data_type_value t) :: u16) =
      unat (data_type_word t raw)"
    by (simp add: data_type_word_def unsigned_ucast_eq unsigned_of_nat)
qed

lemma cmp_ent_create_bytes:
  assumes t: "\<not> cmp_data_type_is_invalid t" and len: "64 \<le> length e"
    and n: "unat n + unat (cmp_ent_cal_hdr_size t raw) < 2 ^ 24"
    and run: "cmp_ent_create big (Some e) t raw n = Some (k, Some e')"
  shows "e' = replicate 4 0 @ be_bytes 3 (cmp_ent_cal_hdr_size t raw + n) @ replicate 15 0 @
    be_bytes 2 (data_type_word t raw) @ replicate (unat (cmp_ent_cal_hdr_size t raw) - 24) 0 @
    drop (unat (cmp_ent_cal_hdr_size t raw)) e"
proof -
  define h where "h = cmp_ent_cal_hdr_size t raw"
  have h: "h \<noteq> 0" "32 \<le> unat h" "unat h \<le> 64"
    using t cmp_ent_cal_hdr_size_le [of t raw] unfolding h_def
    by (cases t; auto simp: cmp_ent_cal_hdr_size_def header_sizes cmp_data_type_is_invalid_def)+
  have u: "unat (h + n) = unat h + unat n" using n h by (intro unat_add_small) (simp add: h_def [symmetric])
  have z: "replicate (unat h) 0 = replicate 4 0 @ replicate 3 0 @ replicate 15 0 @ replicate 2 0 @ replicate (unat h - 24) (0 :: u8)"
    unfolding replicate_add [symmetric] using h(2) by (intro arg_cong [where f = "\<lambda>k. replicate k 0"]) linarith
  have e1: "store_bytes 0 (replicate (unat h) 0) e = Some (replicate 4 0 @ replicate 3 0 @ replicate 15 0 @
      replicate 2 0 @ replicate (unat h - 24) 0 @ drop (unat h) e)"
    using h(2,3) len by (simp add: store_bytes_def z [symmetric])
  have e2: "set_be24 big 4 (h + n) (replicate 4 0 @ replicate 3 0 @ r) = Some (replicate 4 0 @ be_bytes 3 (h + n) @ r)" for r
    unfolding set_be_store store_be_def by (rule store_bytes_middle) simp_all
  have e3: "set_be16 big 22 w (replicate 4 0 @ be_bytes 3 (h + n) @ replicate 15 0 @ replicate 2 0 @ r) =
      Some (replicate 4 0 @ be_bytes 3 (h + n) @ replicate 15 0 @ be_bytes 2 w @ r)" for w r
    using store_bytes_middle [of "replicate 4 0 @ be_bytes 3 (h + n) @ replicate 15 0" 22 "be_bytes 2 w" "replicate 2 0" r]
    unfolding set_be_store store_be_def by simp
  have v7: "unat (data_type_value t) \<le> 0x7FF" using data_type_value_le [OF t] by simp
  have v: "data_type_value t \<le> 0x7FF" using data_type_value_le [OF t] by (simp add: word_le_nat_alt)
  show ?thesis
    using run h(1) n u v
    unfolding cmp_ent_create_def h_def [symmetric] data_type_word_stored [OF v7, symmetric]
    by (simp add: Let_def CMP_ENTITY_MAX_SIZE_def word_less_nat_alt word_le_nat_alt e1 cmp_ent_set_size_def
        cmp_ent_set_data_type_def hdr_set_def e2 e3)
qed

lemma cmp_ent_create_error:
  "cmp_ent_create big ent t raw n = Some (0, ent)"
  if "cmp_data_type_is_invalid t \<or> 2 ^ 24 \<le> unat n + unat (cmp_ent_cal_hdr_size t raw)"
proof -
  let ?h = "cmp_ent_cal_hdr_size t raw"
  have "CMP_ENTITY_MAX_SIZE < ?h + n" if "\<not> CMP_ENTITY_MAX_SIZE < n" "2 ^ 24 \<le> unat n + unat ?h"
  proof -
    have "unat (?h + n) = unat ?h + unat n"
      using that(1) cmp_ent_cal_hdr_size_le [of t raw]
      by (intro unat_add_small) (simp add: CMP_ENTITY_MAX_SIZE_def word_less_nat_alt)
    then show ?thesis using that(2) by (simp add: CMP_ENTITY_MAX_SIZE_def word_less_nat_alt)
  qed
  then show ?thesis using that by (auto simp: cmp_ent_create_def Let_def cmp_ent_cal_hdr_size_0)
qed

section \<open>The parameters of a hardware compression\<close>

definition imagette_pars_fit :: "cmp_data_type \<Rightarrow> cmp_info \<Rightarrow> rdcu_cfg \<Rightarrow> bool" where
  "imagette_pars_fit t info r \<longleftrightarrow> unat (spill_used info) < 2 ^ 16 \<and> unat (golomb_par_used info) < 2 ^ 8 \<and>
     (cmp_ap_imagette_data_type_is_used t \<longrightarrow>
       unat (rc_ap1_spill r) < 2 ^ 16 \<and> unat (rc_ap1_golomb_par r) < 2 ^ 8 \<and>
       unat (rc_ap2_spill r) < 2 ^ 16 \<and> unat (rc_ap2_golomb_par r) < 2 ^ 8)"

definition ima_header_fields :: "cmp_data_type \<Rightarrow> cmp_info \<Rightarrow> rdcu_cfg \<Rightarrow> (ent_field \<times> nat) list" where
  "ima_header_fields t info r =
     (F_IMA_SPILL, unat (spill_used info)) # (F_IMA_GOLOMB_PAR, unat (golomb_par_used info)) #
      (if cmp_ap_imagette_data_type_is_used t then
         [(F_IMA_AP1_SPILL, unat (rc_ap1_spill r)), (F_IMA_AP1_GOLOMB_PAR, unat (rc_ap1_golomb_par r)),
          (F_IMA_AP2_SPILL, unat (rc_ap2_spill r)), (F_IMA_AP2_GOLOMB_PAR, unat (rc_ap2_golomb_par r))]
       else [])"

lemmas ima_sets = ef_ima_spill.sets ef_ima_golomb_par.sets ef_ima_ap1_spill.sets
  ef_ima_ap1_golomb_par.sets ef_ima_ap2_spill.sets ef_ima_ap2_golomb_par.sets

lemma write_imagette_pars_writes:
  assumes "imagette_pars_fit t info r"
  shows "writes (ima_header_fields t info r) e (write_imagette_pars big (Some e) t info (Some r))"
proof -
  have rest: "writes
      (if cmp_ap_imagette_data_type_is_used t then
         [(F_IMA_AP1_SPILL, unat (rc_ap1_spill r)), (F_IMA_AP1_GOLOMB_PAR, unat (rc_ap1_golomb_par r)),
          (F_IMA_AP2_SPILL, unat (rc_ap2_spill r)), (F_IMA_AP2_GOLOMB_PAR, unat (rc_ap2_golomb_par r))]
       else []) e
      (if cmp_ap_imagette_data_type_is_used t then
        try_set (cmp_ent_set_ima_ap1_spill big (Some e) (rc_ap1_spill r)) (\<lambda>p.
        try_set (cmp_ent_set_ima_ap1_golomb_par big p (rc_ap1_golomb_par r)) (\<lambda>p.
        try_set (cmp_ent_set_ima_ap2_spill big p (rc_ap2_spill r)) (\<lambda>p.
        try_set (cmp_ent_set_ima_ap2_golomb_par big p (rc_ap2_golomb_par r)) (\<lambda>p.
        Some (0, p)))))
       else Some (0, Some e))" for e
  proof (cases "cmp_ap_imagette_data_type_is_used t")
    case True
    show ?thesis
      unfolding if_P [OF True]
      by (intro writes_last writes_step writes_sets_field)
        (use assms True in \<open>auto simp: imagette_pars_fit_def disjoint_fields_def intro: ima_sets\<close>)
  qed (simp add: writes_done)
  show ?thesis
    unfolding write_imagette_pars_def ima_header_fields_def option.case
    by (intro writes_step writes_sets_field rest)
      (use assms in \<open>auto simp: imagette_pars_fit_def disjoint_fields_def intro: ima_sets split: if_splits\<close>)
qed

definition rdcu_fields :: "cmp_data_type \<Rightarrow> cmp_info \<Rightarrow> rdcu_cfg \<Rightarrow> (ent_field \<times> nat) list" where
  "rdcu_fields t info r =
     (F_ORIGINAL_SIZE, 2 * unat (samples_used info)) # (F_CMP_MODE, unat (cmp_mode_used info)) #
     (F_MODEL_VALUE, unat (model_value_used info)) # (F_RESERVED, 0) #
     (F_LOSSY_CMP_PAR, unat (round_used info)) #
     (if raw_mode_is_used (cmp_mode_of (cmp_mode_used info)) then [] else ima_header_fields t info r)"

lemma unat_ucast_wide: "LENGTH('a) \<le> LENGTH('b) \<Longrightarrow> unat (ucast (x :: 'a::len word) :: 'b::len word) = unat x"
proof -
  assume "LENGTH('a) \<le> LENGTH('b)"
  then have "unat x < 2 ^ LENGTH('b)"
    using unat_less_2p [of x] by (meson order_less_le_trans one_le_numeral power_increasing)
  then show ?thesis by (simp add: unsigned_ucast_eq take_bit_nat_eq_self_iff)
qed

lemma ima_header_fields_specific: "(g, n) \<in> set (ima_header_fields t info r) \<Longrightarrow> 32 \<le> field_off g"
  by (auto simp: ima_header_fields_def split: if_splits)

lemma write_rdcu_cmp_pars_writes:
  assumes e: "entity_of t (raw_mode_is_used (cmp_mode_of (cmp_mode_used info))) n e"
    and t: "rdcu_supported_data_type_is_used t" and ok: "cmp_err info = 0"
    and fits: "imagette_pars_fit t info r" "unat (cmp_mode_used info) < 2 ^ 8" "unat (samples_used info) < 2 ^ 23"
    and n: "unat (cmp_ent_cal_hdr_size t (raw_mode_is_used (cmp_mode_of (cmp_mode_used info)))) +
      unat (cmp_bit_to_byte (cmp_size info)) \<le> n"
  shows "writes (rdcu_fields t info r) e (cmp_ent_write_rdcu_cmp_pars big (Some e) (Some info) (Some r))"
proof -
  let ?raw = "raw_mode_is_used (cmp_mode_of (cmp_mode_used info))" and ?h = "cmp_ent_cal_hdr_size t (raw_mode_is_used (cmp_mode_of (cmp_mode_used info)))"
  have "n < 2 ^ 24" using e by (simp add: entity_of_def)
  then have "n - unat ?h < 2 ^ 24" by linarith
  then have "unat (word_of_nat (n - unat ?h) :: u32) = n - unat ?h"
    by (simp add: unsigned_of_nat take_bit_nat_eq_self_iff)
  then have size: "cmp_ent_get_cmp_data_size big (Some e) = Some (word_of_nat (n - unat ?h))"
      "\<not> word_of_nat (n - unat ?h) < cmp_bit_to_byte (cmp_size info)"
    using n by (simp_all add: entity_of_data_size [OF e] word_less_nat_alt)
  have s: "unat (samples_used info * 2) = 2 * unat (samples_used info)"
    using fits(3) by (simp add: unat_word_ariths)
  have gen: "64 \<le> length e \<Longrightarrow> sets_field F_ORIGINAL_SIZE (2 * unat (samples_used info)) e (cmp_ent_set_original_size big (Some e) (samples_used info * 2))"
    "64 \<le> length e \<Longrightarrow> sets_field F_CMP_MODE (unat (cmp_mode_used info)) e (cmp_ent_set_cmp_mode big (Some e) (cmp_mode_of (cmp_mode_used info)))"
    "64 \<le> length e \<Longrightarrow> sets_field F_MODEL_VALUE (unat (model_value_used info)) e (cmp_ent_set_model_value big (Some e) (ucast (model_value_used info)))"
    "64 \<le> length e \<Longrightarrow> sets_field F_RESERVED 0 e (cmp_ent_set_reserved big (Some e) 0)"
    "64 \<le> length e \<Longrightarrow> sets_field F_LOSSY_CMP_PAR (unat (round_used info)) e (cmp_ent_set_lossy_cmp_par big (Some e) (ucast (round_used info)))" for e
    using ef_original_size.sets [of e "samples_used info * 2" big] sets_cmp_mode [of e "cmp_mode_of (cmp_mode_used info)" big]
      ef_model_value.sets [of e "ucast (model_value_used info)" big] ef_reserved.sets [of e 0 big]
      ef_lossy_cmp_par.sets [of e "ucast (round_used info)" big] fits(2,3) s unat_less_2p [of "model_value_used info"]
      unat_less_2p [of "round_used info"]
    by (simp_all add: unat_ucast_wide)
  have rest: "writes (if ?raw then [] else ima_header_fields t info r) e
      (if ?raw then Some (0, Some e) else write_imagette_pars big (Some e) t info (Some r))" for e
    using write_imagette_pars_writes [OF fits(1)] writes_done by simp
  have "cmp_ent_write_rdcu_cmp_pars big (Some e) (Some info) (Some r) =
      try_set (cmp_ent_set_original_size big (Some e) (samples_used info * 2)) (\<lambda>p.
      try_set (cmp_ent_set_cmp_mode big p (cmp_mode_of (cmp_mode_used info))) (\<lambda>p.
      just_set (cmp_ent_set_model_value big p (ucast (model_value_used info))) (\<lambda>p.
      just_set (cmp_ent_set_reserved big p 0) (\<lambda>p.
      just_set (cmp_ent_set_lossy_cmp_par big p (ucast (round_used info))) (\<lambda>p.
      if ?raw then Some (0, p) else write_imagette_pars big p t info (Some r))))))"
    using entity_of_getters [OF e] size t ok by (simp add: cmp_ent_write_rdcu_cmp_pars_def)
  moreover have "writes (rdcu_fields t info r) e \<dots>"
    unfolding rdcu_fields_def
    by (intro writes_step writes_sets_field gen rest)
      (auto simp: disjoint_fields_def split: if_splits dest: ima_header_fields_specific)
  ultimately show ?thesis by simp
qed

text \<open>None of the calls touches the data behind the header of the entity.\<close>

lemma behind_done: "keeps_behind k e (Some (v, Some e))"
  by (simp add: keeps_behind_def)

lemma behind_set:
  assumes r: "keeps_behind k e r" and c: "\<And>e'. keeps_behind k e' (c (Some e'))"
  shows "keeps_behind k e (try_set r c)" and "keeps_behind k e (just_set r c)"
proof -
  have "keeps_behind k e (try_set r c) \<and> keeps_behind k e (just_set r c)"
  proof (cases r)
    case None
    then show ?thesis by (simp add: keeps_behind_def try_set_def just_set_def)
  next
    case (Some xp)
    then obtain x e' where e': "r = Some (x, Some e')" "drop k e' = drop k e"
      using r by (cases xp) (auto simp: keeps_behind_def)
    then show ?thesis using c [of e'] by (simp add: keeps_behind_def try_set_def just_set_def)
  qed
  then show "keeps_behind k e (try_set r c)" "keeps_behind k e (just_set r c)" by blast+
qed

lemma behind_bind: "(\<And>x. m = Some x \<Longrightarrow> keeps_behind k e (c x)) \<Longrightarrow> keeps_behind k e (m \<bind> c)"
  by (cases m) (simp_all add: keeps_behind_def)

lemma behind_cmp_mode: "25 \<le> k \<Longrightarrow> keeps_behind k e (cmp_ent_set_cmp_mode big (Some e) m)"
  by (auto simp: keeps_behind_def cmp_ent_set_cmp_mode_def hdr_set_def set_be_store store_be_drop)

lemma write_imagette_pars_behind:
  assumes "unat (cmp_ent_cal_hdr_size t False) \<le> k" and "rdcu_supported_data_type_is_used t"
  shows "keeps_behind k e (write_imagette_pars big (Some e) t info (Some r))"
proof -
  have k: "35 \<le> k" "cmp_ap_imagette_data_type_is_used t \<Longrightarrow> 41 \<le> k"
    using assms by (cases t; simp add: cmp_ent_cal_hdr_size_def header_sizes rdcu_supported_data_type_is_used_def
      cmp_ap_imagette_data_type_is_used_def)+
  show ?thesis
    unfolding write_imagette_pars_def using k(1)
    by (cases "cmp_ap_imagette_data_type_is_used t")
      (auto intro!: behind_set behind_done ef_ima_spill.behind ef_ima_golomb_par.behind ef_ima_ap1_spill.behind
      ef_ima_ap1_golomb_par.behind ef_ima_ap2_spill.behind ef_ima_ap2_golomb_par.behind dest!: k(2))
qed

lemma write_rdcu_cmp_pars_behind:
  assumes "cmp_ent_get_data_type big (Some e) = Some t" and "rdcu_supported_data_type_is_used t"
    and k: "unat (cmp_ent_cal_hdr_size t (raw_mode_is_used (cmp_mode_of (cmp_mode_used info)))) \<le> k"
  shows "keeps_behind k e (cmp_ent_write_rdcu_cmp_pars big (Some e) (Some info) (Some r))"
proof -
  have "32 \<le> unat (cmp_ent_cal_hdr_size t raw)" for raw
    using assms(2) by (cases t) (auto simp: cmp_ent_cal_hdr_size_def header_sizes rdcu_supported_data_type_is_used_def cmp_data_type_is_invalid_def)
  then have "32 \<le> k" using k order_trans by blast
  then show ?thesis
    using assms
    by (auto simp: cmp_ent_write_rdcu_cmp_pars_def behind_done intro!: behind_set behind_bind ef_original_size.behind behind_cmp_mode
      ef_model_value.behind ef_reserved.behind ef_lossy_cmp_par.behind write_imagette_pars_behind)
qed


lemma ima_header_fields_in:
  assumes "\<not> raw_mode_is_used (cmp_mode_of (cmp_mode_used info))"
  shows "set (ima_header_fields t info r) \<subseteq> set (rdcu_fields t info r)"
  using assms by (auto simp: rdcu_fields_def)

section \<open>Copying the data out\<close>

lemma store_field_length: "store_field big n off w b = Some b' \<Longrightarrow> length b' = length b"
  unfolding store_field_def by (rule store_bytes_length)

lemma be32_word_of_copy:
  assumes "4 * i + 4 \<le> length b"
  shows "\<exists>b'. (do { x \<leftarrow> load_field big 4 (4 * i) b; store_field big 4 (4 * i) (be32_to_cpu big x) b }) = Some b' \<and>
    length b' = length b \<and> host_word big (take 4 (drop (4 * i) b')) = (be_word (take 4 (drop (4 * i) b)) :: u32) \<and>
    (\<forall>j. j \<noteq> i \<longrightarrow> take 4 (drop (4 * j) b') = take 4 (drop (4 * j) b))"
proof -
  let ?x = "be32_to_cpu big (host_word big (take 4 (drop (4 * i) b)))"
  have x: "?x = be_word (take 4 (drop (4 * i) b))" using assms by (intro host_word_be) simp
  have l: "load_field big 4 (4 * i) b = Some (host_word big (take 4 (drop (4 * i) b)) :: u32)"
    using assms by (simp add: load_field_def)
  let ?b = "take (4 * i) b @ host_bytes big 4 ?x @ drop (4 * i + 4) b"
  have s: "store_field big 4 (4 * i) ?x b = Some ?b" using assms by (simp add: store_field_def store_bytes_def)
  have "take 4 (drop (4 * i) ?b) = host_bytes big 4 ?x" using assms by simp
  then have "host_word big (take 4 (drop (4 * i) ?b)) = ?x" by simp
  moreover have "take 4 (drop (4 * j) ?b) = take 4 (drop (4 * j) b)" if "j \<noteq> i" for j
  proof (cases "j < i")
    case True
    then have "4 * j + 4 \<le> 4 * i" by simp
    then show ?thesis using assms by (simp add: drop_append take_append drop_take)
  next
    case False
    then have "4 * j = 4 * i + 4 + 4 * (j - i - 1)" using that by simp
    then show ?thesis using assms by (simp add: drop_append ac_simps)
  qed
  ultimately show ?thesis using l s x assms by simp
qed

lemma be32_to_cpus_words:
  assumes "distinct is" and "\<And>i. i \<in> set is \<Longrightarrow> 4 * i + 4 \<le> length b"
  shows "\<exists>b'. be32_to_cpus big is b = Some b' \<and> length b' = length b \<and>
    (\<forall>i \<in> set is. host_word big (take 4 (drop (4 * i) b')) = (be_word (take 4 (drop (4 * i) b)) :: u32)) \<and>
    (\<forall>j. j \<notin> set is \<longrightarrow> take 4 (drop (4 * j) b') = take 4 (drop (4 * j) b))"
  using assms
proof (induction "is" arbitrary: b)
  case (Cons i "is")
  have "4 * i + 4 \<le> length b" using Cons.prems by simp
  from be32_word_of_copy [OF this, of big] obtain b1 where b1:
      "(do { x \<leftarrow> load_field big 4 (4 * i) b; store_field big 4 (4 * i) (be32_to_cpu big x) b }) = Some b1"
      "length b1 = length b" "host_word big (take 4 (drop (4 * i) b1)) = (be_word (take 4 (drop (4 * i) b)) :: u32)"
      "\<And>j. j \<noteq> i \<Longrightarrow> take 4 (drop (4 * j) b1) = take 4 (drop (4 * j) b)" by blast
  obtain b2 where b2: "be32_to_cpus big is b1 = Some b2" "length b2 = length b1"
      "\<And>j. j \<in> set is \<Longrightarrow> host_word big (take 4 (drop (4 * j) b2)) = (be_word (take 4 (drop (4 * j) b1)) :: u32)"
      "\<And>j. j \<notin> set is \<Longrightarrow> take 4 (drop (4 * j) b2) = take 4 (drop (4 * j) b1)"
    using Cons.IH [of b1] Cons.prems b1(2) by auto
  have "be32_to_cpus big (i # is) b = Some b2" using b1(1) b2(1) by (auto split: Option.bind_splits)
  moreover have "j \<noteq> i" if "j \<in> set is" for j using that Cons.prems(1) by auto
  ultimately show ?case using b1 b2 Cons.prems(1) by auto
qed simp

lemma cmp_ent_get_cmp_data_words:
  assumes e: "entity_of t raw n e" "n \<le> length e"
    and h: "unat (cmp_ent_cal_hdr_size t raw) = h" "h \<le> n" "4 dvd n - h"
    and d: "n - h \<le> unat lim" "unat lim \<le> length d"
  shows "\<exists>d'. cmp_ent_get_cmp_data big (Some e) (Some d) lim = Some (int (n - h), Some d') \<and>
    length d' = length d \<and>
    (\<forall>i < (n - h) div 4. host_word big (take 4 (drop (4 * i) d')) = (be_word (take 4 (drop (h + 4 * i) e)) :: u32))"
proof -
  let ?sz = "word_of_nat (n - h) :: u32"
  have "n < 2 ^ 24" using e(1) by (simp add: entity_of_def)
  then have n: "n - h < 2 ^ 24" by linarith
  have u: "unat ?sz = n - h" using n by (simp add: unsigned_of_nat take_bit_nat_eq_self_iff)
  have w: "?sz AND 3 = 0"
  proof -
    have "?sz AND 3 = take_bit 2 ?sz" by (simp add: take_bit_eq_mask mask_numeral)
    then have "unat (?sz AND 3) = (n - h) mod 2 ^ 2" using u by (simp only: unsigned_take_bit_eq) (simp add: take_bit_eq_mod)
    then show ?thesis using h(3) by (simp add: unat_eq_0)
  qed
  have q: "unat (?sz div 4) = (n - h) div 4" using u by (simp add: unat_div)
  let ?src = "take (n - h) (drop h e)"
  define d1 where "d1 = ?src @ drop (n - h) d"
  have c: "store_bytes 0 ?src d = Some d1" using d e(2) h(2) by (simp add: store_bytes_def d1_def)
  have l1: "length d1 = length d" using store_bytes_length [OF c] .
  have inside: "4 * i + 4 \<le> length d1" if "i \<in> set [0..<(n - h) div 4]" for i
    using that l1 d by auto
  obtain d2 where d2: "be32_to_cpus big [0..<(n - h) div 4] d1 = Some d2" "length d2 = length d1"
      "\<And>i. i < (n - h) div 4 \<Longrightarrow> host_word big (take 4 (drop (4 * i) d2)) = (be_word (take 4 (drop (4 * i) d1)) :: u32)"
    using be32_to_cpus_words [where b = d1 and big = big, OF distinct_upt [of 0 "(n - h) div 4"] inside] by (auto simp: atLeast0LessThan)
  have src: "take 4 (drop (4 * i) d1) = take 4 (drop (h + 4 * i) e)" if "i < (n - h) div 4" for i
  proof -
    have "4 * i + 4 \<le> n - h" using that by simp
    then have "4 * i + 4 \<le> length ?src" "h + 4 * i + 4 \<le> length e" using e(2) h(2) by simp_all
    then show ?thesis by (intro nth_equalityI) (auto simp: d1_def nth_append add.assoc)
  qed
  have "\<not> ?sz > lim" using u d(1) by (simp add: word_less_nat_alt)
  then have "cmp_ent_get_cmp_data big (Some e) (Some d) lim = Some (int (n - h), Some d2)"
    using entity_of_getters(5) [OF e(1), of big] entity_of_data_size [OF e(1), of big] h(1,2) w u q c d2(1) e(2)
    by (simp add: cmp_ent_get_cmp_data_def uint_nat)
  then show ?thesis using d2 src l1 by auto
qed

end
