(* ===== verification/Chunk_Compress.thy ===== *)
theory Chunk_Compress
  imports Compress_Internal Cmp_Entity
begin

text \<open>
  The compression of a chunk of collections: \<open>lib/icu_compress/cmp_chunk_type.c\<close>, the parameters
  \<open>struct cmp_par\<close> of \<open>lib/cmp_chunk.h\<close> and the functions of \<open>lib/icu_compress/cmp_icu.c\<close> from
  \<open>cmp_best_zero_spill\<close> on.
\<close>

section \<open>Chunk types\<close>

datatype chunk_type =
    CHUNK_TYPE_UNKNOWN
  | CHUNK_TYPE_NCAM_IMAGETTE
  | CHUNK_TYPE_SHORT_CADENCE
  | CHUNK_TYPE_LONG_CADENCE
  | CHUNK_TYPE_SAT_IMAGETTE
  | CHUNK_TYPE_OFFSET_BACKGROUND
  | CHUNK_TYPE_SMEARING
  | CHUNK_TYPE_F_CHAIN

definition chunk_type_of_subservice :: "u8 \<Rightarrow> chunk_type" where
  "chunk_type_of_subservice s =
     (if s = SST_NCxx_S_SCIENCE_IMAGETTE then CHUNK_TYPE_NCAM_IMAGETTE
      else if s = SST_NCxx_S_SCIENCE_SAT_IMAGETTE then CHUNK_TYPE_SAT_IMAGETTE
      else if s \<in> {SST_NCxx_S_SCIENCE_OFFSET, SST_NCxx_S_SCIENCE_BACKGROUND} then CHUNK_TYPE_OFFSET_BACKGROUND
      else if s = SST_NCxx_S_SCIENCE_SMEARING then CHUNK_TYPE_SMEARING
      else if s \<in> {SST_NCxx_S_SCIENCE_S_FX, SST_NCxx_S_SCIENCE_S_FX_EFX, SST_NCxx_S_SCIENCE_S_FX_NCOB,
          SST_NCxx_S_SCIENCE_S_FX_EFX_NCOB_ECOB} then CHUNK_TYPE_SHORT_CADENCE
      else if s \<in> {SST_NCxx_S_SCIENCE_L_FX, SST_NCxx_S_SCIENCE_L_FX_EFX, SST_NCxx_S_SCIENCE_L_FX_NCOB,
          SST_NCxx_S_SCIENCE_L_FX_EFX_NCOB_ECOB} then CHUNK_TYPE_LONG_CADENCE
      else if s \<in> {SST_FCx_S_SCIENCE_IMAGETTE, SST_FCx_S_SCIENCE_OFFSET_VALUES, SST_FCx_S_BACKGROUND_VALUES}
      then CHUNK_TYPE_F_CHAIN
      else CHUNK_TYPE_UNKNOWN)"

definition cmp_col_get_chunk_type :: "bool \<Rightarrow> buffer \<Rightarrow> chunk_type option" where
  "cmp_col_get_chunk_type big col = map_option chunk_type_of_subservice (cmp_col_get_subservice big col)"

section \<open>Parameters\<close>

record cmp_par =
  par_cmp_mode :: cmp_mode
  par_model_value :: u32
  par_lossy_par :: u32
  par_nc_imagette :: u32
  par_s_exp_flags :: u32
  par_s_fx :: u32
  par_s_ncob :: u32
  par_s_efx :: u32
  par_s_ecob :: u32
  par_l_exp_flags :: u32
  par_l_fx :: u32
  par_l_ncob :: u32
  par_l_efx :: u32
  par_l_ecob :: u32
  par_l_fx_cob_variance :: u32
  par_saturated_imagette :: u32
  par_nc_offset_mean :: u32
  par_nc_offset_variance :: u32
  par_nc_background_mean :: u32
  par_nc_background_variance :: u32
  par_nc_background_outlier_pixels :: u32
  par_smearing_mean :: u32
  par_smearing_variance_mean :: u32
  par_smearing_outlier_pixels :: u32
  par_fc_imagette :: u32
  par_fc_offset_mean :: u32
  par_fc_offset_variance :: u32
  par_fc_background_mean :: u32
  par_fc_background_variance :: u32
  par_fc_background_outlier_pixels :: u32

definition cmp_best_zero_spill :: "u32 \<Rightarrow> u32 \<Rightarrow> u32" where
  "cmp_best_zero_spill golomb_par max_bits =
     (let max_spill = cmp_icu_max_spill golomb_par
      in if golomb_par < MIN_NON_IMA_GOLOMB_PAR then 0
         else if golomb_par > MAX_NON_IMA_GOLOMB_PAR then 0
         else let cutoff = push_bit (unat (ilog_2 golomb_par)) 2 - golomb_par;
                  spill = max_bits * golomb_par + cutoff
           in if spill > max_spill then max_spill else spill)"

definition cmp_get_spill :: "u32 \<Rightarrow> cmp_mode \<Rightarrow> u32 \<Rightarrow> u32" where
  "cmp_get_spill golomb_par mode max_bits =
     (if zero_escape_mech_is_used mode then cmp_best_zero_spill golomb_par max_bits
      else cmp_icu_max_spill golomb_par)"

text \<open>
  A Golomb parameter and its spillover threshold. The members of the unions of the configuration
  share the six pairs: pair 1 is imagette or exposure flags, 2 flux or offset mean, 3 centre of
  brightness or offset variance, 4 to 6 the further flux data, background or smearing.
\<close>

definition set_pars_1 :: "u32 \<Rightarrow> u32 \<Rightarrow> cmp_cfg \<Rightarrow> cmp_cfg" where
  "set_pars_1 m bits cfg = cfg\<lparr>cmp_par_1 := m, spill_par_1 := cmp_get_spill m (cmp_mode cfg) bits\<rparr>"

definition set_pars_2 :: "u32 \<Rightarrow> u32 \<Rightarrow> cmp_cfg \<Rightarrow> cmp_cfg" where
  "set_pars_2 m bits cfg = cfg\<lparr>cmp_par_2 := m, spill_par_2 := cmp_get_spill m (cmp_mode cfg) bits\<rparr>"

definition set_pars_3 :: "u32 \<Rightarrow> u32 \<Rightarrow> cmp_cfg \<Rightarrow> cmp_cfg" where
  "set_pars_3 m bits cfg = cfg\<lparr>cmp_par_3 := m, spill_par_3 := cmp_get_spill m (cmp_mode cfg) bits\<rparr>"

definition set_pars_4 :: "u32 \<Rightarrow> u32 \<Rightarrow> cmp_cfg \<Rightarrow> cmp_cfg" where
  "set_pars_4 m bits cfg = cfg\<lparr>cmp_par_4 := m, spill_par_4 := cmp_get_spill m (cmp_mode cfg) bits\<rparr>"

definition set_pars_5 :: "u32 \<Rightarrow> u32 \<Rightarrow> cmp_cfg \<Rightarrow> cmp_cfg" where
  "set_pars_5 m bits cfg = cfg\<lparr>cmp_par_5 := m, spill_par_5 := cmp_get_spill m (cmp_mode cfg) bits\<rparr>"

definition set_pars_6 :: "u32 \<Rightarrow> u32 \<Rightarrow> cmp_cfg \<Rightarrow> cmp_cfg" where
  "set_pars_6 m bits cfg = cfg\<lparr>cmp_par_6 := m, spill_par_6 := cmp_get_spill m (cmp_mode cfg) bits\<rparr>"

definition cfg_for_chunk_type :: "chunk_type \<Rightarrow> cmp_par \<Rightarrow> cmp_cfg \<Rightarrow> cmp_cfg" where
  "cfg_for_chunk_type t par = (case t of
       CHUNK_TYPE_NCAM_IMAGETTE \<Rightarrow> set_pars_1 (par_nc_imagette par) (bits_nc_imagette MAX_USED_BITS)
     | CHUNK_TYPE_SAT_IMAGETTE \<Rightarrow> set_pars_1 (par_saturated_imagette par) (bits_saturated_imagette MAX_USED_BITS)
     | CHUNK_TYPE_SHORT_CADENCE \<Rightarrow>
         set_pars_5 (par_s_ecob par) (bits_s_ecob MAX_USED_BITS) \<circ>
         set_pars_4 (par_s_efx par) (bits_s_efx MAX_USED_BITS) \<circ>
         set_pars_3 (par_s_ncob par) (bits_s_ncob MAX_USED_BITS) \<circ>
         set_pars_2 (par_s_fx par) (bits_s_fx MAX_USED_BITS) \<circ>
         set_pars_1 (par_s_exp_flags par) (bits_s_exp_flags MAX_USED_BITS)
     | CHUNK_TYPE_LONG_CADENCE \<Rightarrow>
         set_pars_6 (par_l_fx_cob_variance par) (bits_l_fx_cob_variance MAX_USED_BITS) \<circ>
         set_pars_5 (par_l_ecob par) (bits_l_ecob MAX_USED_BITS) \<circ>
         set_pars_4 (par_l_efx par) (bits_l_efx MAX_USED_BITS) \<circ>
         set_pars_3 (par_l_ncob par) (bits_l_ncob MAX_USED_BITS) \<circ>
         set_pars_2 (par_l_fx par) (bits_l_fx MAX_USED_BITS) \<circ>
         set_pars_1 (par_l_exp_flags par) (bits_l_exp_flags MAX_USED_BITS)
     | CHUNK_TYPE_OFFSET_BACKGROUND \<Rightarrow>
         set_pars_6 (par_nc_background_outlier_pixels par) (bits_nc_background_outlier_pixels MAX_USED_BITS) \<circ>
         set_pars_5 (par_nc_background_variance par) (bits_nc_background_variance MAX_USED_BITS) \<circ>
         set_pars_4 (par_nc_background_mean par) (bits_nc_background_mean MAX_USED_BITS) \<circ>
         set_pars_3 (par_nc_offset_variance par) (bits_nc_offset_variance MAX_USED_BITS) \<circ>
         set_pars_2 (par_nc_offset_mean par) (bits_nc_offset_mean MAX_USED_BITS)
     | CHUNK_TYPE_SMEARING \<Rightarrow>
         set_pars_6 (par_smearing_outlier_pixels par) (bits_smearing_outlier_pixels MAX_USED_BITS) \<circ>
         set_pars_5 (par_smearing_variance_mean par) (bits_smearing_variance_mean MAX_USED_BITS) \<circ>
         set_pars_4 (par_smearing_mean par) (bits_smearing_mean MAX_USED_BITS)
     | CHUNK_TYPE_F_CHAIN \<Rightarrow>
         set_pars_6 (par_fc_background_outlier_pixels par) (bits_fc_background_outlier_pixels MAX_USED_BITS) \<circ>
         set_pars_5 (par_fc_background_variance par) (bits_fc_background_variance MAX_USED_BITS) \<circ>
         set_pars_4 (par_fc_background_mean par) (bits_fc_background_mean MAX_USED_BITS) \<circ>
         set_pars_3 (par_fc_offset_variance par) (bits_fc_offset_variance MAX_USED_BITS) \<circ>
         set_pars_2 (par_fc_offset_mean par) (bits_fc_offset_mean MAX_USED_BITS) \<circ>
         set_pars_1 (par_fc_imagette par) (bits_fc_imagette MAX_USED_BITS)
     | CHUNK_TYPE_UNKNOWN \<Rightarrow> (\<lambda>cfg. cfg))"

text \<open>The warning about a lossy parameter, which is ignored, is output only.\<close>

definition init_cmp_cfg_from_cmp_par :: "bool \<Rightarrow> buffer \<Rightarrow> cmp_par \<Rightarrow> (chunk_type \<times> cmp_cfg) option" where
  "init_cmp_cfg_from_cmp_par big col par = do {
     chunk_type \<leftarrow> cmp_col_get_chunk_type big col;
     let cfg = cmp_cfg_zero\<lparr>cmp_mode := par_cmp_mode par, model_value := par_model_value par, round_par := 0\<rparr>;
     Some (chunk_type, cfg_for_chunk_type chunk_type par cfg)
   }"

section \<open>A collection\<close>

definition set_cmp_col_size :: "bool \<Rightarrow> nat \<Rightarrow> u32 \<Rightarrow> buffer \<Rightarrow> (u32 \<times> buffer) option" where
  "set_cmp_col_size big off cmp_col_size d =
     (let v = be16_to_cpu big (ucast cmp_col_size)
      in if cmp_col_size > 0xFFFF then Some (CMP_ERROR CMP_ERROR_INT_CMP_COL_TOO_LARGE, d)
         else map_option (Pair 0) (store_field big CMP_COLLECTION_FILD_SIZE off v d))"

text \<open>
  The data of a collection: coded, or in raw mode if the code is not smaller than the data. The
  buffers are behind the collection header; \<open>dst_size\<close> bytes of the destination are used.
\<close>

definition cmp_collection_data ::
  "bool \<Rightarrow> cmp_cfg \<Rightarrow> u32 \<Rightarrow> u32 \<Rightarrow> u16 \<Rightarrow> cmp_bufs \<Rightarrow> (u32 \<times> cmp_cfg \<times> cmp_bufs) option" where
  "cmp_collection_data big cfg dst_capacity dst_size col_data_length b =
     (if (dst b = None \<or> dst_capacity \<ge> dst_size + ucast col_data_length) \<and> cmp_mode cfg \<noteq> CMP_MODE_RAW
      then do {
        let cfg = cfg\<lparr>stream_size := dst_size + ucast col_data_length - 1\<rparr>;
        (dst_size_bits, b) \<leftarrow> compress_data_internal big (Some cfg) b (push_bit 3 dst_size);
        if cmp_get_error_code dst_size_bits = cmp_error_value CMP_ERROR_SMALL_BUFFER \<or>
          (dst b = None \<and> dst_size_bits > cmp_stream_size_to_bits (stream_size cfg))
        then do {
          let cfg = cfg\<lparr>stream_size := dst_size + ucast col_data_length\<rparr>;
          (dst_size_bits, b) \<leftarrow>
            compress_data_internal big (Some (cfg\<lparr>cmp_mode := CMP_MODE_RAW\<rparr>)) b (push_bit 3 dst_size);
          b \<leftarrow> (if model_mode_is_used (cmp_mode cfg) \<and> updated_model_buf b \<noteq> None
             then copy_to_updated_model (unat col_data_length) (src b) b else Some b);
          Some (dst_size_bits, cfg, b)
        }
        else Some (dst_size_bits, cfg, b)
      }
      else do {
        let cfg = cfg\<lparr>stream_size := dst_capacity\<rparr>;
        (dst_size_bits, b) \<leftarrow> compress_data_internal big (Some cfg) b (push_bit 3 dst_size);
        Some (dst_size_bits, cfg, b)
      })"

text \<open>
  The buffers are those of the collection: the source is its header, the destination the whole
  output. A collection whose sub-service is unknown has samples of size 0, by which the C code
  divides; this is no result here.
\<close>

definition cmp_collection ::
  "bool \<Rightarrow> cmp_bufs \<Rightarrow> u32 \<Rightarrow> cmp_cfg \<Rightarrow> u32 \<Rightarrow> (u32 \<times> cmp_cfg \<times> cmp_bufs) option" where
  "cmp_collection big b dst_capacity cfg dst_size = do {
     let dst_size_begin = dst_size;
     col_data_length \<leftarrow> cmp_col_get_data_length big (bytes_at (src b));
     subservice \<leftarrow> cmp_col_get_subservice big (bytes_at (src b));
     let cfg = cfg\<lparr>data_type := convert_subservice_to_cmp_data_type subservice\<rparr>;
     let sample_size = (word_of_nat (size_of_a_sample (data_type cfg)) :: u16);
     if sample_size = 0 then None
     else if col_data_length mod sample_size \<noteq> 0 then Some (CMP_ERROR CMP_ERROR_COL_SIZE_INCONSISTENT, cfg, b)
     else do {
       let cfg = cfg\<lparr>samples := ucast (col_data_length div sample_size), stream_size := dst_capacity\<rparr>;
       let err = cmp_cfg_icu_is_invalid_error_code (Some cfg) (skip_bufs COLLECTION_HDR_SIZE 0 COLLECTION_HDR_SIZE b);
       if cmp_is_error err then Some (err, cfg, b)
       else do {
         let dst_size = (if cmp_mode cfg \<noteq> CMP_MODE_RAW then dst_size + word_of_nat CMP_COLLECTION_FILD_SIZE else dst_size);
         let hdr = take COLLECTION_HDR_SIZE (bytes_at (src b));
         if dst b \<noteq> None \<and> dst_size + word_of_nat COLLECTION_HDR_SIZE > dst_capacity
         then Some (CMP_ERROR CMP_ERROR_SMALL_BUFFER, cfg, b)
         else do {
           b \<leftarrow> (case dst b of
               None \<Rightarrow> Some b
             | Some (a, d) \<Rightarrow> map_option (\<lambda>d. b\<lparr>dst := Some (a, d)\<rparr>) (store_bytes (unat dst_size) hdr d));
           let dst_size = dst_size + word_of_nat COLLECTION_HDR_SIZE;
           b \<leftarrow> (if model_mode_is_used (cmp_mode cfg) \<and> updated_model_buf b \<noteq> None
             then copy_to_updated_model COLLECTION_HDR_SIZE (src b) b else Some b);
           (dst_size_bits, cfg, b') \<leftarrow> cmp_collection_data big cfg dst_capacity dst_size col_data_length
             (skip_bufs COLLECTION_HDR_SIZE 0 COLLECTION_HDR_SIZE b);
           let b = rejoin_bufs 0 COLLECTION_HDR_SIZE b' b;
           if cmp_is_error dst_size_bits then Some (dst_size_bits, cfg, b)
           else
             let dst_size = cmp_bit_to_byte dst_size_bits
             in case dst b of
                 None \<Rightarrow> Some (dst_size, cfg, b)
               | Some (a, d) \<Rightarrow>
                   if cmp_mode cfg = CMP_MODE_RAW then Some (dst_size, cfg, b)
                   else do {
                     let cmp_col_size = dst_size - dst_size_begin - word_of_nat COLLECTION_HDR_SIZE
                       - word_of_nat CMP_COLLECTION_FILD_SIZE;
                     (err, d) \<leftarrow> set_cmp_col_size big (unat dst_size_begin) cmp_col_size d;
                     let b = b\<lparr>dst := Some (a, d)\<rparr>;
                     Some (if cmp_is_error err then err else dst_size, cfg, b)
                   }
         }
       }
     }
   }"

section \<open>The header of the entity\<close>

text \<open>
  \<open>err |= f(..)\<close> for several functions: all of them are called, the errors are collected.
\<close>

fun set_all :: "(buffer option \<Rightarrow> set_result) list \<Rightarrow> int \<Rightarrow> buffer option \<Rightarrow> set_result" where
  "set_all [] err p = Some (err, p)"
| "set_all (f # fs) err p = do { (x, p) \<leftarrow> f p; set_all fs (err OR x) p }"

definition chunk_header_setters :: "bool \<Rightarrow> u32 \<Rightarrow> u32 \<Rightarrow> cmp_cfg \<Rightarrow> u32 \<Rightarrow> (buffer option \<Rightarrow> set_result) list" where
  "chunk_header_setters big version_identifier chunk_size cfg cmp_ent_size_byte =
     [\<lambda>ent. cmp_ent_set_version_id big ent version_identifier,
      \<lambda>ent. cmp_ent_set_size big ent cmp_ent_size_byte,
      \<lambda>ent. cmp_ent_set_original_size big ent chunk_size,
      \<lambda>ent. cmp_ent_set_data_type big ent DATA_TYPE_CHUNK (cmp_mode cfg = CMP_MODE_RAW),
      \<lambda>ent. cmp_ent_set_cmp_mode big ent (cmp_mode cfg),
      \<lambda>ent. cmp_ent_set_model_value big ent (model_value cfg),
      \<lambda>ent. cmp_ent_set_model_id big ent 0,
      \<lambda>ent. cmp_ent_set_model_counter big ent 0,
      \<lambda>ent. cmp_ent_set_reserved big ent 0,
      \<lambda>ent. cmp_ent_set_lossy_cmp_par big ent (round_par cfg)] @
     (if cmp_mode cfg \<noteq> CMP_MODE_RAW then
       [\<lambda>ent. cmp_ent_set_non_ima_spill1 big ent (spill_par_1 cfg),
        \<lambda>ent. cmp_ent_set_non_ima_cmp_par1 big ent (cmp_par_1 cfg),
        \<lambda>ent. cmp_ent_set_non_ima_spill2 big ent (spill_par_2 cfg),
        \<lambda>ent. cmp_ent_set_non_ima_cmp_par2 big ent (cmp_par_2 cfg),
        \<lambda>ent. cmp_ent_set_non_ima_spill3 big ent (spill_par_3 cfg),
        \<lambda>ent. cmp_ent_set_non_ima_cmp_par3 big ent (cmp_par_3 cfg),
        \<lambda>ent. cmp_ent_set_non_ima_spill4 big ent (spill_par_4 cfg),
        \<lambda>ent. cmp_ent_set_non_ima_cmp_par4 big ent (cmp_par_4 cfg),
        \<lambda>ent. cmp_ent_set_non_ima_spill5 big ent (spill_par_5 cfg),
        \<lambda>ent. cmp_ent_set_non_ima_cmp_par5 big ent (cmp_par_5 cfg),
        \<lambda>ent. cmp_ent_set_non_ima_spill6 big ent (spill_par_6 cfg),
        \<lambda>ent. cmp_ent_set_non_ima_cmp_par6 big ent (cmp_par_6 cfg)]
      else [])"

text \<open>
  \<open>compress_chunk_init\<close> stores a function that returns the time, and the version. The model of
  the function is the time that its \<open>k\<close>-th call during a compression returns.
\<close>

record compress_state =
  get_timestamp :: "nat \<Rightarrow> u64"
  version_identifier :: u32

definition initial_compress_state :: compress_state where
  "initial_compress_state = \<lparr>get_timestamp = \<lambda>_. 0, version_identifier = 0\<rparr>"

definition compress_chunk_init :: "(nat \<Rightarrow> u64) option \<Rightarrow> u32 \<Rightarrow> compress_state \<Rightarrow> compress_state" where
  "compress_chunk_init return_timestamp version_id st =
     (let st = (case return_timestamp of None \<Rightarrow> st | Some f \<Rightarrow> st\<lparr>get_timestamp := f\<rparr>)
      in st\<lparr>version_identifier := version_id\<rparr>)"

text \<open>The end time is the second call of the time function during a compression.\<close>

definition cmp_ent_build_chunk_header ::
  "bool \<Rightarrow> compress_state \<Rightarrow> buffer option \<Rightarrow> u32 \<Rightarrow> cmp_cfg \<Rightarrow> u64 \<Rightarrow> u32 \<Rightarrow> (u32 \<times> buffer option) option" where
  "cmp_ent_build_chunk_header big st entity chunk_size cfg start_timestamp cmp_ent_size_byte =
     (let hdr_size = (if cmp_mode cfg = CMP_MODE_RAW then GENERIC_HEADER_SIZE else NON_IMAGETTE_HEADER_SIZE)
      in case entity of
        None \<Rightarrow> Some (hdr_size, None)
      | Some _ \<Rightarrow> do {
          (err, ent) \<leftarrow> set_all (chunk_header_setters big (version_identifier st) chunk_size cfg cmp_ent_size_byte)
            0 entity;
          if err \<noteq> 0 then Some (CMP_ERROR CMP_ERROR_ENTITY_HEADER, ent)
          else do {
            (err, ent) \<leftarrow> cmp_ent_set_start_timestamp big ent start_timestamp;
            if err \<noteq> 0 then Some (CMP_ERROR CMP_ERROR_ENTITY_TIMESTAMP, ent)
            else do {
              (err, ent) \<leftarrow> cmp_ent_set_end_timestamp big ent (get_timestamp st 1);
              if err \<noteq> 0 then Some (CMP_ERROR CMP_ERROR_ENTITY_TIMESTAMP, ent)
              else Some (hdr_size, ent)
            }
          }
        })"

section \<open>A chunk\<close>

definition CMP_ENTITY_MAX_ORIGINAL_SIZE :: u32 where "CMP_ENTITY_MAX_ORIGINAL_SIZE = 0xFFFFFF"

text \<open>
  The loop over the collections. It returns an error (\<open>Inl\<close>), or the number of bytes it has
  read with the size of the output and the configuration.
\<close>

type_synonym chunk_result = "(u32 + nat \<times> cmp_cfg \<times> u32) \<times> cmp_bufs"

function compress_collections ::
  "bool \<Rightarrow> nat \<Rightarrow> chunk_type \<Rightarrow> u32 \<Rightarrow> nat \<Rightarrow> cmp_cfg \<Rightarrow> u32 \<Rightarrow> cmp_bufs \<Rightarrow> chunk_result option" where
  "compress_collections big chunk_size chunk_type dst_capacity read_bytes cfg cmp_size_byte b =
     (if read_bytes \<le> chunk_size - COLLECTION_HDR_SIZE then do {
        let col = skip_bufs read_bytes 0 read_bytes b;
        t \<leftarrow> cmp_col_get_chunk_type big (bytes_at (src col));
        if t \<noteq> chunk_type then Some (Inl (CMP_ERROR CMP_ERROR_CHUNK_SUBSERVICE_INCONSISTENT), b)
        else do {
          len \<leftarrow> cmp_col_get_data_length big (bytes_at (src col));
          if read_bytes + (COLLECTION_HDR_SIZE + unat len) > chunk_size
          then Some (Inr (read_bytes, cfg, cmp_size_byte), b)
          else do {
            (cmp_size_byte, cfg, b') \<leftarrow> cmp_collection big col dst_capacity cfg cmp_size_byte;
            let b = rejoin_bufs 0 read_bytes b' b;
            if cmp_is_error cmp_size_byte then Some (Inl cmp_size_byte, b)
            else compress_collections big chunk_size chunk_type dst_capacity
              (read_bytes + (COLLECTION_HDR_SIZE + unat len)) cfg cmp_size_byte b
          }
        }
      }
      else Some (Inr (read_bytes, cfg, cmp_size_byte), b))"
  by pat_completeness auto

termination
  by (relation "measure (\<lambda>(_, chunk_size, _, _, read_bytes, _). chunk_size + 1 - read_bytes)")
    (auto simp: COLLECTION_HDR_SIZE_def)

declare compress_collections.simps [simp del]

definition compress_chunk ::
  "bool \<Rightarrow> compress_state \<Rightarrow> cmp_bufs \<Rightarrow> u32 \<Rightarrow> u32 \<Rightarrow> cmp_par option \<Rightarrow> (u32 \<times> cmp_bufs) option" where
  "compress_chunk big st b chunk_size dst_capacity cmp_par_p =
     (let start_timestamp = get_timestamp st 0
      in case cmp_par_p of
        None \<Rightarrow> Some (if src b = None then CMP_ERROR CMP_ERROR_CHUNK_NULL else CMP_ERROR CMP_ERROR_PAR_NULL, b)
      | Some par \<Rightarrow>
        if src b = None then Some (CMP_ERROR CMP_ERROR_CHUNK_NULL, b)
        else if chunk_size < word_of_nat COLLECTION_HDR_SIZE then Some (CMP_ERROR CMP_ERROR_CHUNK_SIZE_INCONSISTENT, b)
        else if chunk_size > CMP_ENTITY_MAX_ORIGINAL_SIZE then Some (CMP_ERROR CMP_ERROR_CHUNK_TOO_LARGE, b)
        else do {
          (chunk_type, cfg) \<leftarrow> init_cmp_cfg_from_cmp_par big (bytes_at (src b)) par;
          if chunk_type = CHUNK_TYPE_UNKNOWN then Some (CMP_ERROR CMP_ERROR_COL_SUBSERVICE_UNSUPPORTED, b)
          else do {
            (cmp_size_byte, _) \<leftarrow> cmp_ent_build_chunk_header big st None chunk_size cfg start_timestamp 0;
            if dst b \<noteq> None \<and> dst_capacity < cmp_size_byte then Some (CMP_ERROR CMP_ERROR_SMALL_BUFFER, b)
            else do {
              (r, b) \<leftarrow> compress_collections big (unat chunk_size) chunk_type dst_capacity 0 cfg cmp_size_byte b;
              case r of
                Inl err \<Rightarrow> Some (err, b)
              | Inr (read_bytes, cfg, cmp_size_byte) \<Rightarrow>
                  if read_bytes \<noteq> unat chunk_size then Some (CMP_ERROR CMP_ERROR_CHUNK_SIZE_INCONSISTENT, b)
                  else do {
                    (hdr, ent) \<leftarrow> cmp_ent_build_chunk_header big st (map_option snd (dst b)) chunk_size cfg
                      start_timestamp cmp_size_byte;
                    let b = b\<lparr>dst := (case ent of None \<Rightarrow> dst b | Some d \<Rightarrow> with_bytes d (dst b))\<rparr>;
                    Some (if cmp_is_error hdr then hdr else cmp_size_byte, b)
                  }
            }
          }
        })"

section \<open>The size of the output\<close>

definition round_up_to_4 :: "nat \<Rightarrow> nat" where
  "round_up_to_4 x = 4 * ((x + 3) div 4)"

definition COMPRESS_CHUNK_BOUND_UNSAFE :: "nat \<Rightarrow> nat \<Rightarrow> nat" where
  "COMPRESS_CHUNK_BOUND_UNSAFE chunk_size num_col =
     round_up_to_4 (unat NON_IMAGETTE_HEADER_SIZE + num_col * CMP_COLLECTION_FILD_SIZE + chunk_size)"

definition COMPRESS_CHUNK_BOUND :: "nat \<Rightarrow> nat \<Rightarrow> nat" where
  "COMPRESS_CHUNK_BOUND chunk_size num_col =
     (if num_col > 0 \<and> num_col \<le> unat CMP_ENTITY_MAX_SIZE div COLLECTION_HDR_SIZE \<and>
        chunk_size \<ge> COLLECTION_HDR_SIZE * num_col \<and> chunk_size \<le> unat CMP_ENTITY_MAX_SIZE \<and>
        COMPRESS_CHUNK_BOUND_UNSAFE chunk_size num_col \<le> unat CMP_ENTITY_MAX_SIZE
      then COMPRESS_CHUNK_BOUND_UNSAFE chunk_size num_col else 0)"

text \<open>The collections of a chunk: the position behind the last one and their number.\<close>

function count_collections :: "bool \<Rightarrow> buffer \<Rightarrow> nat \<Rightarrow> nat \<Rightarrow> nat \<Rightarrow> (nat \<times> nat) option" where
  "count_collections big chunk chunk_size read_bytes num_col =
     (if read_bytes \<le> chunk_size - COLLECTION_HDR_SIZE then do {
        len \<leftarrow> cmp_col_get_data_length big (drop read_bytes chunk);
        count_collections big chunk chunk_size (read_bytes + (COLLECTION_HDR_SIZE + unat len)) (num_col + 1)
      }
      else Some (read_bytes, num_col))"
  by pat_completeness auto

termination
  by (relation "measure (\<lambda>(_, _, chunk_size, read_bytes, _). chunk_size + 1 - read_bytes)")
    (auto simp: COLLECTION_HDR_SIZE_def)

declare count_collections.simps [simp del]

definition compress_chunk_cmp_size_bound :: "bool \<Rightarrow> buffer option \<Rightarrow> nat \<Rightarrow> u32 option" where
  "compress_chunk_cmp_size_bound big chunk chunk_size =
     (let max_chunk_size = unat (CMP_ENTITY_MAX_ORIGINAL_SIZE - NON_IMAGETTE_HEADER_SIZE - word_of_nat CMP_COLLECTION_FILD_SIZE)
      in case chunk of
        None \<Rightarrow> Some (CMP_ERROR CMP_ERROR_CHUNK_NULL)
      | Some c \<Rightarrow>
          if chunk_size < COLLECTION_HDR_SIZE then Some (CMP_ERROR CMP_ERROR_CHUNK_SIZE_INCONSISTENT)
          else if chunk_size > max_chunk_size then Some (CMP_ERROR CMP_ERROR_CHUNK_TOO_LARGE)
          else do {
            (read_bytes, num_col) \<leftarrow> count_collections big c chunk_size 0 0;
            if read_bytes \<noteq> chunk_size then Some (CMP_ERROR CMP_ERROR_CHUNK_SIZE_INCONSISTENT)
            else let bound = COMPRESS_CHUNK_BOUND_UNSAFE chunk_size num_col
              in if bound > unat CMP_ENTITY_MAX_SIZE then Some (CMP_ERROR CMP_ERROR_CHUNK_TOO_LARGE)
                 else Some (word_of_nat bound)
          })"

definition compress_chunk_set_model_id_and_counter ::
  "bool \<Rightarrow> buffer option \<Rightarrow> u32 \<Rightarrow> u16 \<Rightarrow> u8 \<Rightarrow> (u32 \<times> buffer option) option" where
  "compress_chunk_set_model_id_and_counter big ent dst_size model_id model_counter =
     (if ent = None then Some (CMP_ERROR CMP_ERROR_ENTITY_NULL, ent)
      else if cmp_is_error dst_size then Some (dst_size, ent)
      else if dst_size < GENERIC_HEADER_SIZE then Some (CMP_ERROR CMP_ERROR_ENTITY_TOO_SMALL, ent)
      else do {
        (_, ent) \<leftarrow> cmp_ent_set_model_id big ent (ucast model_id);
        (_, ent) \<leftarrow> cmp_ent_set_model_counter big ent (ucast model_counter);
        Some (dst_size, ent)
      })"

section \<open>Compression like the hardware compressor\<close>

text \<open>
  The buffers are those of the configuration: the input, the output, the model and the new
  model. The two calls for the adaptive parameters have no output and no updated model. The
  information may be NULL; it is the second component of the result.
\<close>

definition rdcu_like_cfg :: "rdcu_cfg \<Rightarrow> u32 \<Rightarrow> u32 \<Rightarrow> cmp_cfg" where
  "rdcu_like_cfg rcfg golomb_par spill = cmp_cfg_zero\<lparr>data_type := DATA_TYPE_IMAGETTE,
     samples := rc_samples rcfg, stream_size := rc_buffer_length rcfg * 2, cmp_mode := rc_cmp_mode rcfg,
     model_value := rc_model_value rcfg, round_par := rc_round rcfg, cmp_par_1 := golomb_par, spill_par_1 := spill\<rparr>"

definition ap_cmp_size :: "bool \<Rightarrow> cmp_cfg \<Rightarrow> cmp_bufs \<Rightarrow> u32 option" where
  "ap_cmp_size big cfg b =
     (let b = b\<lparr>dst := None, updated_model_buf := None\<rparr>
      in if cmp_par_1 cfg \<noteq> 0 \<and> cmp_cfg_icu_is_invalid_error_code (Some cfg) b = CMP_ERROR CMP_ERROR_NO_ERROR
         then map_option fst (compress_data_internal big (Some cfg) b 0)
         else Some 0)"

definition info_zero :: cmp_info where
  "info_zero = \<lparr>cmp_mode_used = 0, spill_used = 0, golomb_par_used = 0, samples_used = 0, cmp_size = 0,
     ap1_cmp_size = 0, ap2_cmp_size = 0, rdcu_new_model_adr_used = 0, rdcu_cmp_adr_used = 0,
     model_value_used = 0, round_used = 0, cmp_err = 0\<rparr>"

definition compress_like_rdcu ::
  "bool \<Rightarrow> rdcu_cfg option \<Rightarrow> bool \<Rightarrow> cmp_bufs \<Rightarrow> (u32 \<times> cmp_info option \<times> cmp_bufs) option" where
  "compress_like_rdcu big rcfg_p with_info b = (case rcfg_p of
       None \<Rightarrow> map_option (\<lambda>(r, b). (r, if with_info then Some info_zero else None, b))
         (compress_data_internal big None b 0)
     | Some rcfg \<Rightarrow> do {
         info \<leftarrow> (if with_info then do {
             ap1 \<leftarrow> ap_cmp_size big (rdcu_like_cfg rcfg (rc_ap1_golomb_par rcfg) (rc_ap1_spill rcfg)) b;
             ap2 \<leftarrow> ap_cmp_size big (rdcu_like_cfg rcfg (rc_ap2_golomb_par rcfg) (rc_ap2_spill rcfg)) b;
             Some (Some (info_zero\<lparr>cmp_mode_used := ucast (ucast (cmp_mode_value (rc_cmp_mode rcfg)) :: u8),
               model_value_used := ucast (rc_model_value rcfg), round_used := ucast (rc_round rcfg),
               spill_used := rc_spill rcfg, golomb_par_used := rc_golomb_par rcfg, samples_used := rc_samples rcfg,
               rdcu_new_model_adr_used := rdcu_new_model_adr rcfg, rdcu_cmp_adr_used := rdcu_buffer_adr rcfg,
               ap1_cmp_size := ap1, ap2_cmp_size := ap2\<rparr>))
           } else Some None);
         let cfg = rdcu_like_cfg rcfg (rc_golomb_par rcfg) (rc_spill rcfg);
         let err = cmp_cfg_icu_is_invalid_error_code (Some cfg) b;
         if cmp_is_error err then Some (err, info, b)
         else do {
           (cmp_size_bit, b) \<leftarrow> compress_data_internal big (Some cfg) b 0;
           let info = map_option (\<lambda>i.
             let i = (if cmp_get_error_code cmp_size_bit = cmp_error_value CMP_ERROR_SMALL_BUFFER
               then i\<lparr>cmp_err := cmp_err i OR 1\<rparr> else i)
             in if cmp_is_error cmp_size_bit then i\<lparr>cmp_size := 0, ap1_cmp_size := 0, ap2_cmp_size := 0\<rparr>
                else i\<lparr>cmp_size := cmp_size_bit\<rparr>) info;
           Some (cmp_size_bit, info, b)
         }
       })"

end
