(* ===== verification/Collection_Entry.thy ===== *)
theory Collection_Entry
  imports Compress_Laws Chunk_Compress
begin

text \<open>
  What the compression of one collection leaves in the output: the data in raw form, or their
  code in fewer bytes, and the updated model that belongs to it.
\<close>

section \<open>Payloads\<close>

text \<open>
  The bytes behind the header of a compressed collection with the data \<open>s\<close> and the model \<open>m\<close>,
  and the updated model.
\<close>

definition payload_ok :: "bool \<Rightarrow> cmp_cfg \<Rightarrow> buffer \<Rightarrow> buffer \<Rightarrow> buffer \<Rightarrow> bool" where
  "payload_ok big cfg s m p \<longleftrightarrow>
     p = raw_data big (data_type cfg) (take (data_bytes cfg) s) \<and> length p = data_bytes cfg \<or>
     coding_cfg cfg \<and> length p < data_bytes cfg \<and> holds_code (codes big cfg s m) p"

definition payload_model :: "bool \<Rightarrow> cmp_cfg \<Rightarrow> buffer \<Rightarrow> buffer \<Rightarrow> buffer \<Rightarrow> buffer" where
  "payload_model big cfg s m p =
     (if length p = data_bytes cfg then take (data_bytes cfg) s else next_model big cfg s m)"

lemma holds_code_take:
  assumes "holds_code code q" and "k = (length code + 7) div 8"
  shows "holds_code code (take k q)" and "length (take k q) = k"
proof -
  have len: "length code \<le> 8 * k" using assms(2) by arith
  have "k \<le> length q" using assms by (simp add: holds_code_def) arith
  then show "length (take k q) = k" by simp
  then show "holds_code code (take k q)"
    using assms(1) len by (simp add: holds_code_def bits_of_bytes_take min_def)
qed

lemma unat_shift_3: "unat (k :: u32) < 2 ^ 28 \<Longrightarrow> unat (push_bit 3 k) = 8 * unat k"
  by (subst unat_push_bit) simp_all

lemma unat_stream_bits:
  "unat n < 2 ^ 29 - 16 \<Longrightarrow> unat (cmp_stream_size_to_bits n) = 32 * (unat n div 4)"
proof -
  assume n: "unat n < 2 ^ 29 - 16"
  have "unat (n AND NOT 3) * unat (8 :: u32) = 32 * (unat n div 4)" by (simp only: unat_and_not_3) simp
  moreover have "32 * (unat n div 4) < 2 ^ 32"
  proof -
    have "4 * (unat n div 4) \<le> unat n" by simp
    then show ?thesis using n by simp
  qed
  ultimately show ?thesis
    unfolding cmp_stream_size_to_bits_def by (subst unat_mult_small) simp_all
qed

lemma writable_stream_bits:
  "unat n < 2 ^ 29 - 16 \<Longrightarrow> unat n \<le> length d \<Longrightarrow> writable d (cmp_stream_size_to_bits n)"
  by (simp add: writable_def unat_stream_bits) arith

lemma cmp_bit_to_byte_sum:
  assumes "unat off mod 8 = 0" and "unat off + n < 2 ^ 32 - 8"
  shows "unat (cmp_bit_to_byte (off + word_of_nat n)) = unat off div 8 + (n + 7) div 8"
proof -
  have a: "unat (off + word_of_nat n) = unat off + n"
    using assms(2) by (subst unat_add_small) (simp_all add: unat_of_nat take_bit_eq_mod)
  then have "unat (off + word_of_nat n + 7) = unat off + n + 7"
    using assms(2) by (subst unat_add_small) simp_all
  moreover have "(unat off + n + 7) div 8 = unat off div 8 + (n + 7) div 8"
    using assms(1) div_add1_eq [of "unat off" "n + 7" 8] by (simp add: add.assoc)
  ultimately show ?thesis by (simp add: cmp_bit_to_byte_def unat_div)
qed

section \<open>The data of a collection\<close>

text \<open>
  A call with \<open>ds\<close> bytes of the output used, which ends with the payload \<open>p\<close> behind them.
\<close>

definition entry_written ::
  "bool \<Rightarrow> cmp_cfg \<Rightarrow> nat \<Rightarrow> buffer \<Rightarrow> cmp_bufs \<Rightarrow> u32 \<Rightarrow> cmp_bufs \<Rightarrow> bool" where
  "entry_written big cfg ds p b l b' \<longleftrightarrow>
     payload_ok big cfg (bytes_at (src b)) (bytes_at (model_buf b)) p \<and>
     \<not> cmp_is_error l \<and> unat (cmp_bit_to_byte l) = ds + length p \<and>
     (\<forall>a d. dst b = Some (a, d) \<longrightarrow> (\<exists>d'. dst b' = Some (a, d') \<and> length d' = length d \<and>
        take (ds + length p) d' = take ds d @ p)) \<and>
     b'\<lparr>dst := dst b\<rparr> = with_next_model (data_bytes cfg) cfg
       (payload_model big cfg (bytes_at (src b)) (bytes_at (model_buf b)) p) b"

definition entry_call :: "cmp_cfg \<Rightarrow> u32 \<Rightarrow> cmp_bufs \<Rightarrow> bool" where
  "entry_call cfg ds b \<longleftrightarrow> data_type cfg \<in> coded_types \<and> cfg_valid cfg \<and> data_bytes cfg < 2 ^ 16 \<and>
     data_bytes cfg \<le> length (bytes_at (src b)) \<and> models_ok (data_bytes cfg) cfg b \<and> unat ds < 2 ^ 28 - 2 ^ 16"

lemma cfg_valid_coding: "same_coding cfg cfg' \<Longrightarrow> cfg_valid cfg' = cfg_valid cfg"
  by (simp add: cfg_valid_def cmp_cfg_gen_par_is_invalid_def cmp_cfg_imagette_is_invalid_def
      cmp_cfg_fx_cob_is_invalid_def cmp_cfg_aux_is_invalid_def same_coding_eqs Let_def)

lemma same_coding_stream_size [simp]: "same_coding cfg (cfg\<lparr>stream_size := n\<rparr>)"
  by (simp add: same_coding_def)

lemmas cfg_valid_stream_size [simp] = cfg_valid_coding [OF same_coding_stream_size]

lemma data_bytes_update [simp]:
  "data_bytes (cfg\<lparr>stream_size := n\<rparr>) = data_bytes cfg" "data_bytes (cfg\<lparr>cmp_mode := mode\<rparr>) = data_bytes cfg"
  by (simp_all add: data_bytes_def)

lemma coded_type_size: "t \<in> coded_types \<Longrightarrow> size_of_a_sample t \<noteq> 0"
  by (cases t) (simp_all add: coded_types_def size_of_a_sample_def)

lemma data_bytes_0: "t = data_type cfg \<Longrightarrow> t \<in> coded_types \<Longrightarrow> data_bytes cfg = 0 \<longleftrightarrow> samples cfg = 0"
  using coded_type_size [of t] by (auto simp: data_bytes_def unat_eq_0)

lemma with_next_model_0: "models_ok 0 cfg b \<Longrightarrow> with_next_model 0 cfg [] b = b"
  by (simp add: with_next_model_def set_updated_same)

lemma push_3_facts:
  assumes "unat (ds :: u32) < 2 ^ 28 - 2 ^ 16"
  shows "unat (push_bit 3 ds) = 8 * unat ds" and "\<not> cmp_is_error (push_bit 3 ds)"
    and "push_bit 3 ds AND 7 = 0"
proof -
  show u: "unat (push_bit 3 ds) = 8 * unat ds" using assms by (intro unat_shift_3) simp
  show "\<not> cmp_is_error (push_bit 3 ds)" using assms by (simp add: cmp_is_error_iff u)
  have "unat (push_bit 3 ds AND 7) = 0" unfolding unat_and_7 u by simp
  then show "push_bit 3 ds AND 7 = 0" by (simp only: unsigned_eq_0_iff)
qed

text \<open>No samples, and raw mode.\<close>

lemma compress_no_samples:
  assumes "unat ds < 2 ^ 28 - 2 ^ 16" and "samples cfg = 0"
  shows "compress_data_internal big (Some cfg) b (push_bit 3 ds) = Some (push_bit 3 ds, b)"
  using assms push_3_facts [OF assms(1)] by (simp add: compress_data_internal_def)

lemma unat_push_add:
  assumes "unat (ds :: u32) < 2 ^ 28 - 2 ^ 16" and "n \<le> 2 ^ 19"
  shows "unat (push_bit 3 ds + word_of_nat n) = 8 * unat ds + n"
proof -
  have "unat (word_of_nat n :: u32) = n" using assms(2) by (intro unat_of_nat_small) simp
  then show ?thesis using assms push_3_facts(1) [OF assms(1)] by (subst unat_add_small) simp_all
qed

lemma byte_of_push:
  assumes "unat ds < 2 ^ 28 - 2 ^ 16" and "n < 2 ^ 19"
  shows "unat (cmp_bit_to_byte (push_bit 3 ds + word_of_nat n)) = unat ds + (n + 7) div 8"
  using assms push_3_facts(1) [OF assms(1)] by (subst cmp_bit_to_byte_sum) simp_all

lemma compress_raw_data:
  assumes call: "entry_call cfg ds b" and raw: "cmp_mode cfg' = CMP_MODE_RAW"
    and same: "samples cfg' = samples cfg" "data_type cfg' = data_type cfg"
    and dst: "dst b = Some (a, d)" and fits: "unat ds + data_bytes cfg \<le> length d"
      "unat ds + data_bytes cfg \<le> unat (stream_size cfg')"
  shows "compress_data_internal big (Some cfg') b (push_bit 3 ds) =
    Some (push_bit 3 ds + word_of_nat (8 * data_bytes cfg),
      b\<lparr>dst := Some (a, take (unat ds) d @ raw_data big (data_type cfg) (take (data_bytes cfg) (bytes_at (src b))) @
        drop (unat ds + data_bytes cfg) d)\<rparr>)"
proof (cases "samples cfg' = 0")
  case True
  note c = call [unfolded entry_call_def]
  have "data_bytes cfg = 0" using True same by (simp add: data_bytes_def)
  moreover have "b\<lparr>dst := Some (a, d)\<rparr> = b" using dst by (cases b) simp
  ultimately show ?thesis using compress_no_samples [of ds cfg' big b] True c by (simp add: raw_data_def swap_bytes_def)
next
  case False
  note c = call [unfolded entry_call_def]
  note ps = push_3_facts [of ds]
  have n: "data_bytes cfg' = data_bytes cfg" using same by (simp add: data_bytes_def)
  let ?size = "push_bit 3 ds + word_of_nat (8 * data_bytes cfg) :: u32"
  have u: "unat ?size = 8 * unat ds + 8 * data_bytes cfg"
    using c by (intro unat_push_add) simp_all
  have "\<not> cmp_is_error ?size" using c unfolding cmp_is_error_iff u by simp
  moreover have "compress_raw big cfg' b (push_bit 3 ds) = Some (?size, b\<lparr>dst := Some (a, take (unat ds) d @
      raw_data big (data_type cfg) (take (data_bytes cfg) (bytes_at (src b))) @ drop (unat ds + data_bytes cfg) d)\<rparr>)"
    using c ps coded_type_size fits compress_raw_ok [of b a d "unat ds" "push_bit 3 ds" "data_bytes cfg" cfg' big] dst n same
    by simp
  ultimately show ?thesis
    using ps c False raw by (simp add: compress_data_internal_def raw_mode_is_used_def pad_bitstream_def)
qed

text \<open>Coded data.\<close>

lemma call_ok_entry:
  assumes "entry_call cfg ds b" and "coding_cfg cfg"
  shows "call_ok (cfg\<lparr>stream_size := k\<rparr>) b (push_bit 3 ds)"
proof -
  have m: "models_ok n (cfg\<lparr>stream_size := k\<rparr>) b = models_ok n cfg b" for n by (simp add: models_ok_def)
  show ?thesis using assms push_3_facts [of ds] by (simp add: call_ok_def entry_call_def coding_cfg_def m)
qed

lemma codes_stream_size:
  "data_type cfg \<in> coded_types \<Longrightarrow>
     op_codes (coded_ops big (data_type cfg)) (cfg\<lparr>stream_size := k\<rparr>) s m = codes big cfg s m"
  using codec.codes_coding [OF same_coding_stream_size [of cfg k]] by simp

lemma next_model_stream_size:
  "data_type cfg \<in> coded_types \<Longrightarrow>
     op_next_model (coded_ops big (data_type cfg)) (cfg\<lparr>stream_size := k\<rparr>) s m = next_model big cfg s m"
  using codec.next_model_coding [OF same_coding_stream_size [of cfg k]] by simp

lemma model_bytes_stream_size [simp]: "model_bytes (cfg\<lparr>stream_size := k\<rparr>) = model_bytes cfg"
  by (simp add: model_bytes_def)

lemma with_next_model_stream_size [simp]: "with_next_model n (cfg\<lparr>stream_size := k\<rparr>) nm b = with_next_model n cfg nm b"
  by (simp add: with_next_model_def)

text \<open>Whether the code fits into an output of \<open>k\<close> bytes.\<close>

definition code_fits :: "bool \<Rightarrow> cmp_cfg \<Rightarrow> nat \<Rightarrow> nat \<Rightarrow> cmp_bufs \<Rightarrow> bool" where
  "code_fits big cfg ds k b \<longleftrightarrow>
     8 * ds + length (codes big cfg (bytes_at (src b)) (bytes_at (model_buf b))) \<le> 32 * (k div 4)"

lemma code_fits_bytes:
  assumes "8 * ds + l \<le> 32 * (k div 4 :: nat)"
  shows "ds + (l + 7) div 8 \<le> k"
proof -
  have "4 * (k div 4) \<le> k" by simp
  then have "8 * ds + l \<le> 8 * k" using assms by linarith
  then show ?thesis by arith
qed

lemma compress_entry_fits:
  assumes call: "entry_call cfg ds b" and coding: "coding_cfg cfg" and dst: "dst b = Some (a, d)"
    and k: "unat k \<le> length d" "unat k < unat ds + data_bytes cfg" and fits: "code_fits big cfg (unat ds) (unat k) b"
  obtains l b' p where "compress_data_internal big (Some (cfg\<lparr>stream_size := k\<rparr>)) b (push_bit 3 ds) = Some (l, b')"
    and "entry_written big cfg (unat ds) p b l b'" and "length p < data_bytes cfg"
    and "length p = (length (codes big cfg (bytes_at (src b)) (bytes_at (model_buf b))) + 7) div 8"
proof -
  let ?cfg = "cfg\<lparr>stream_size := k\<rparr>" and ?s = "bytes_at (src b)" and ?m = "bytes_at (model_buf b)"
  note c = call [unfolded entry_call_def]
  have k29: "unat k < 2 ^ 29 - 16" using k(2) c by simp
  note ps = push_3_facts [of ds] and lim = unat_stream_bits [OF k29]
  define code where "code = codes big cfg ?s ?m"
  have code: "op_codes (coded_ops big (data_type cfg)) ?cfg ?s ?m = code" using c by (simp add: code_def codes_stream_size)
  have f: "8 * unat ds + length code \<le> 32 * (unat k div 4)" using fits by (simp add: code_fits_def code_def)
  have wr: "writable d (cmp_stream_size_to_bits (stream_size ?cfg))" using k29 k(1) by (simp add: writable_stream_bits)
  have fit: "unat (push_bit 3 ds) + length (codes big ?cfg ?s ?m) \<le> unat (cmp_stream_size_to_bits (stream_size ?cfg))"
    using f ps c by (simp add: lim code)
  obtain b' d' where run: "compress_data_internal big (Some ?cfg) b (push_bit 3 ds) = Some (push_bit 3 ds + word_of_nat (length code), b')"
    and d': "dst b' = Some (a, d')" "length d' = length d" "take (unat ds) d' = take (unat ds) d"
    and h: "holds_code code (drop (unat ds) d')"
    and models: "b'\<lparr>dst := dst b\<rparr> = with_next_model (data_bytes cfg) cfg (next_model big cfg ?s ?m) b"
    using compress_coded_fits [OF call_ok_entry [OF call coding] dst wr fit] ps c
    by (simp add: code next_model_stream_size) blast
  define n where "n = (length code + 7) div 8"
  define p where "p = take n (drop (unat ds) d')"
  have p: "holds_code code p" "length p = n" using holds_code_take [OF h n_def] by (simp_all add: p_def)
  have kb: "unat ds + n \<le> unat k" unfolding n_def by (rule code_fits_bytes [OF f])
  then have small: "n < data_bytes cfg" using k(2) by simp
  have L: "length code \<le> 2 ^ 19" using small c by (simp add: n_def) arith
  have "\<not> cmp_is_error (push_bit 3 ds + word_of_nat (length code))"
    using unat_push_add [OF _ L, of ds] c L by (simp add: cmp_is_error_iff)
  moreover have "unat (cmp_bit_to_byte (push_bit 3 ds + word_of_nat (length code))) = unat ds + length p"
  proof -
    have "unat (push_bit 3 ds) + length code < 2 ^ 32 - 8" using ps c L by simp
    then show ?thesis using ps c p by (subst cmp_bit_to_byte_sum) (simp_all add: n_def)
  qed
  moreover have "take (unat ds + length p) d' = take (unat ds) d @ p"
    using d'(3) p(2) by (simp add: take_add p_def)
  moreover have "payload_ok big cfg ?s ?m p"
    using coding small p by (simp add: payload_ok_def code_def)
  moreover have "payload_model big cfg ?s ?m p = next_model big cfg ?s ?m"
    using small p(2) by (simp add: payload_model_def)
  ultimately have "entry_written big cfg (unat ds) p b (push_bit 3 ds + word_of_nat (length code)) b'"
    using d' dst models by (simp add: entry_written_def)
  then show ?thesis using that run small p(2) by (simp add: n_def code_def)
qed

lemma compress_entry_small:
  assumes call: "entry_call cfg ds b" and coding: "coding_cfg cfg" and dst: "dst b = Some (a, d)"
    and k: "unat k \<le> length d" "unat k < unat ds + data_bytes cfg" "unat ds \<le> length d"
    and fits: "\<not> code_fits big cfg (unat ds) (unat k) b"
  obtains b' d' where "compress_data_internal big (Some (cfg\<lparr>stream_size := k\<rparr>)) b (push_bit 3 ds) =
      Some (CMP_ERROR CMP_ERROR_SMALL_BUFFER, b')"
    and "dst b' = Some (a, d')" "length d' = length d" "take (unat ds) d' = take (unat ds) d"
    and "model_frame (model_bytes cfg) b b'"
proof -
  let ?cfg = "cfg\<lparr>stream_size := k\<rparr>" and ?s = "bytes_at (src b)" and ?m = "bytes_at (model_buf b)"
  note c = call [unfolded entry_call_def]
  have k29: "unat k < 2 ^ 29 - 16" using k(2) c by simp
  note ps = push_3_facts [of ds] and lim = unat_stream_bits [OF k29]
  have wr: "writable d (cmp_stream_size_to_bits (stream_size ?cfg))" using k29 k(1) by (simp add: writable_stream_bits)
  have big: "unat (cmp_stream_size_to_bits (stream_size ?cfg)) < unat (push_bit 3 ds) + length (codes big ?cfg ?s ?m)"
    using fits ps c by (simp add: lim codes_stream_size code_fits_def)
  have off: "unat (push_bit 3 ds) \<le> 8 * length d" using ps c k(3) by simp
  have ds: "unat (push_bit 3 ds) div 8 = unat ds" using ps c by simp
  obtain b' d' where "compress_data_internal big (Some ?cfg) b (push_bit 3 ds) = Some (CMP_ERROR CMP_ERROR_SMALL_BUFFER, b')"
    and "dst b' = Some (a, d')" "length d' = length d" "take (unat (push_bit 3 ds) div 8) d' = take (unat (push_bit 3 ds) div 8) d"
    and "model_frame (model_bytes ?cfg) b b'"
    using compress_coded_small [OF call_ok_entry [OF call coding] dst wr big off] by blast
  then show ?thesis unfolding ds model_bytes_stream_size by (rule that)
qed

section \<open>The result for a collection\<close>

lemma bytes_at_None [simp]: "bytes_at None = []"
  by (simp add: bytes_at_def)

lemma in_place_set_updated [simp]: "in_place (set_updated_model bs b) = in_place b"
  by (simp add: set_updated_model_def in_place_def Let_def del: not_None_eq)

lemma set_updated_twice: "set_updated_model bs (set_updated_model cs b) = set_updated_model bs b"
  using in_place_set_updated [of cs b] by (simp add: set_updated_model_def [of bs]) (simp add: set_updated_model_def Let_def)

lemma set_updated_simps [simp]:
  "src (set_updated_model bs b) = src b"
  "bytes_at (updated_model_buf (set_updated_model bs b)) = (if updated_model_buf b = None then [] else bs)"
  "updated_model_buf (set_updated_model bs b) = None \<longleftrightarrow> updated_model_buf b = None"
  by (simp_all add: set_updated_model_def Let_def bytes_at_with_bytes)

lemma bytes_model_set_updated:
  "bytes_at (model_buf (set_updated_model bs b)) = (if in_place b then bs else bytes_at (model_buf b))"
  by (auto simp: set_updated_model_def Let_def bytes_at_with_bytes in_place_def)

text \<open>The buffers after a call that has changed some bytes of the updated model.\<close>

lemma model_frame_ok:
  assumes fr: "model_frame k b b'" and ok: "models_ok n cfg b"
  shows "models_ok n cfg b'" and "src b' = src b" and "updated_model_buf b' = None \<longleftrightarrow> updated_model_buf b = None"
    and "length (bytes_at (updated_model_buf b')) = length (bytes_at (updated_model_buf b))"
    and "drop k (bytes_at (updated_model_buf b')) = drop k (bytes_at (updated_model_buf b))"
    and "set_updated_model bs b' = (set_updated_model bs b)\<lparr>dst := dst b'\<rparr>"
    and "k = 0 \<Longrightarrow> b' = b\<lparr>dst := dst b'\<rparr>"
proof -
  obtain cs where cs: "b'\<lparr>dst := dst b\<rparr> = set_updated_model cs b"
    "length cs = length (bytes_at (updated_model_buf b))" "drop k cs = drop k (bytes_at (updated_model_buf b))"
    using fr by (auto simp: model_frame_def)
  then have b': "b' = (set_updated_model cs b)\<lparr>dst := dst b'\<rparr>" by (metis cmp_bufs.surjective cmp_bufs.update_convs(2) cmp_bufs.select_convs)
  show "src b' = src b" "updated_model_buf b' = None \<longleftrightarrow> updated_model_buf b = None"
    by (subst b', simp)+
  show l: "length (bytes_at (updated_model_buf b')) = length (bytes_at (updated_model_buf b))"
    using cs(2) by (subst b') (simp split: if_splits)
  show "drop k (bytes_at (updated_model_buf b')) = drop k (bytes_at (updated_model_buf b))"
    using cs(3) by (subst b') simp
  show "set_updated_model bs b' = (set_updated_model bs b)\<lparr>dst := dst b'\<rparr>"
    by (subst b') (simp add: set_updated_dst set_updated_twice)
  have "in_place b' = in_place b" by (subst b') simp
  moreover have "bytes_at (model_buf b') = (if in_place b then cs else bytes_at (model_buf b))"
    by (subst b') (simp add: bytes_model_set_updated)
  moreover have "bytes_at (updated_model_buf b') = (if updated_model_buf b = None then [] else cs)" by (subst b') simp
  moreover have "updated_model_buf b' = None \<longleftrightarrow> updated_model_buf b = None" by (subst b') simp
  ultimately show "models_ok n cfg b'"
    using ok cs(2) by (auto simp: models_ok_def in_place_def bytes_at_def split: option.splits)
  show "b' = b\<lparr>dst := dst b'\<rparr>" if "k = 0"
    using cs that set_updated_same [OF ok] by (subst b') simp
qed

lemma entry_raw:
  assumes call: "entry_call cfg ds b" and dst: "dst b = Some (a, d)" and n: "unat ds + data_bytes cfg \<le> length d"
    and l: "l = push_bit 3 ds + word_of_nat (8 * data_bytes cfg)"
    and dst': "dst b' = Some (a, take (unat ds) d @ raw_data big (data_type cfg) (take (data_bytes cfg) (bytes_at (src b))) @ e)"
      "unat ds + data_bytes cfg + length e = length d"
    and models: "b'\<lparr>dst := dst b\<rparr> = with_next_model (data_bytes cfg) cfg (take (data_bytes cfg) (bytes_at (src b))) b"
  shows "entry_written big cfg (unat ds) (raw_data big (data_type cfg) (take (data_bytes cfg) (bytes_at (src b)))) b l b'"
proof -
  let ?p = "raw_data big (data_type cfg) (take (data_bytes cfg) (bytes_at (src b)))"
  note c = call [unfolded entry_call_def]
  have lp: "length ?p = data_bytes cfg" using c by simp
  have u: "unat l = 8 * unat ds + 8 * data_bytes cfg" unfolding l using c by (intro unat_push_add) simp_all
  have "\<not> cmp_is_error l" using c unfolding cmp_is_error_iff u by simp
  moreover have "unat (cmp_bit_to_byte l) = unat ds + data_bytes cfg"
    unfolding l using c by (subst byte_of_push) simp_all
  ultimately show ?thesis
    using lp dst dst' models n by (simp add: entry_written_def payload_ok_def payload_model_def)
qed

lemma cmp_collection_data_raw:
  assumes call: "entry_call cfg ds b" and mode: "cmp_mode cfg = CMP_MODE_RAW" and dst: "dst b = Some (a, d)"
    and cap: "unat ds \<le> unat cap" "unat cap \<le> length d"
  shows "\<exists>l cfg' b'. cmp_collection_data big cfg cap ds len b = Some (l, cfg', b') \<and>
    same_coding cfg cfg' \<and> samples cfg' = samples cfg \<and>
    (l = CMP_ERROR CMP_ERROR_SMALL_BUFFER \<and> unat cap < unat ds + data_bytes cfg \<or>
     (\<exists>p. (cmp_mode cfg = CMP_MODE_RAW \<longrightarrow> length p = data_bytes cfg) \<and> entry_written big cfg (unat ds) p b l b'))"
proof -
  let ?cfg = "cfg\<lparr>stream_size := cap\<rparr>" and ?s = "take (data_bytes cfg) (bytes_at (src b))"
  note c = call [unfolded entry_call_def]
  have m: "\<not> model_mode_is_used (cmp_mode cfg)" using mode by (simp add: model_mode_is_used_def)
  have run: "cmp_collection_data big cfg cap ds len b =
      map_option (\<lambda>(l, b). (l, ?cfg, b)) (compress_data_internal big (Some ?cfg) b (push_bit 3 ds))"
    using mode by (cases "compress_data_internal big (Some ?cfg) b (push_bit 3 ds)")
      (auto simp: cmp_collection_data_def)
  show ?thesis
  proof (cases "unat ds + data_bytes cfg \<le> unat cap")
    case True
    let ?b = "b\<lparr>dst := Some (a, take (unat ds) d @ raw_data big (data_type cfg) ?s @ drop (unat ds + data_bytes cfg) d)\<rparr>"
    have fits: "unat ds + data_bytes cfg \<le> length d" using True cap by simp
    have "compress_data_internal big (Some ?cfg) b (push_bit 3 ds) = Some (push_bit 3 ds + word_of_nat (8 * data_bytes cfg), ?b)"
      using True mode by (intro compress_raw_data [OF call _ _ _ dst fits]) simp_all
    moreover have "entry_written big cfg (unat ds) (raw_data big (data_type cfg) ?s) b (push_bit 3 ds + word_of_nat (8 * data_bytes cfg)) ?b"
      using dst m fits by (intro entry_raw [OF call dst fits refl, where e = "drop (unat ds + data_bytes cfg) d"])
        (simp_all add: with_next_model_def)
    moreover have "length (raw_data big (data_type cfg) ?s) = data_bytes cfg" using c by simp
    ultimately show ?thesis unfolding run by (auto simp del: length_raw_data)
  next
    case False
    then have "samples ?cfg \<noteq> 0" using cap by (auto simp: data_bytes_def)
    moreover have "compress_raw big ?cfg b (push_bit 3 ds) = Some (CMP_ERROR CMP_ERROR_SMALL_BUFFER, b)"
      using False c push_3_facts [of ds] by (intro compress_raw_small [OF dst]) simp_all
    ultimately have "compress_data_internal big (Some ?cfg) b (push_bit 3 ds) = Some (CMP_ERROR CMP_ERROR_SMALL_BUFFER, b)"
      using c push_3_facts [of ds] mode by (simp add: compress_data_internal_def raw_mode_is_used_def)
    then show ?thesis unfolding run using False by simp
  qed
qed

lemma set_updated_None: "updated_model_buf b = None \<Longrightarrow> set_updated_model bs b = b"
  by (cases b) (simp add: set_updated_model_def in_place_def Let_def)

lemma copy_model_raw:
  assumes fr: "model_frame (model_bytes cfg) b b1" and ok: "models_ok (data_bytes cfg) cfg b"
    and n: "unat len = data_bytes cfg" "data_bytes cfg \<le> length (bytes_at (src b))" and b2: "b2 = b1\<lparr>dst := p\<rparr>"
  obtains b3 where "(if model_mode_is_used (cmp_mode cfg) \<and> updated_model_buf b2 \<noteq> None
      then copy_to_updated_model (unat (len :: u16)) (src b2) b2 else Some b2) = Some b3"
    and "dst b3 = p" and "b3\<lparr>dst := dst b\<rparr> = with_next_model (data_bytes cfg) cfg (take (data_bytes cfg) (bytes_at (src b))) b"
proof (cases "model_mode_is_used (cmp_mode cfg) \<and> updated_model_buf b \<noteq> None")
  case True
  note f = model_frame_ok [OF fr ok]
  have k: "model_bytes cfg = data_bytes cfg" using True by (simp add: model_bytes_def)
  let ?bs = "take (data_bytes cfg) (bytes_at (src b)) @ drop (data_bytes cfg) (bytes_at (updated_model_buf b))"
  have "copy_to_updated_model (unat len) (src b2) b2 = Some (set_updated_model ?bs b2)"
    using True n ok f by (simp add: copy_to_updated_model_def b2 store_bytes_def models_ok_def k min_def)
  moreover have "set_updated_model ?bs b2 = (set_updated_model ?bs b)\<lparr>dst := p\<rparr>"
    unfolding b2 set_updated_dst f(6) by simp
  moreover have "(set_updated_model ?bs b)\<lparr>dst := dst b\<rparr> = set_updated_model ?bs b"
    by (metis cmp_bufs.surjective cmp_bufs.update_convs(2) dst_set_updated)
  ultimately show ?thesis using True f(3) that [of "set_updated_model ?bs b2"]
    by (simp add: b2 with_next_model_def del: not_None_eq)
next
  case False
  note f = model_frame_ok [OF fr ok]
  have "b1\<lparr>dst := dst b\<rparr> = with_next_model (data_bytes cfg) cfg (take (data_bytes cfg) (bytes_at (src b))) b"
  proof (cases "model_mode_is_used (cmp_mode cfg)")
    case True
    then have "updated_model_buf b = None" using False by blast
    then show ?thesis using fr True by (auto simp: model_frame_def with_next_model_def set_updated_None)
  next
    case False
    then have "b1 = b\<lparr>dst := dst b1\<rparr>" by (intro f(7)) (simp add: model_bytes_def)
    then have "b1\<lparr>dst := dst b\<rparr> = (b\<lparr>dst := dst b1\<rparr>)\<lparr>dst := dst b\<rparr>" by (rule arg_cong)
    then show ?thesis using False by (simp add: with_next_model_def)
  qed
  then have models: "b2\<lparr>dst := dst b\<rparr> = with_next_model (data_bytes cfg) cfg (take (data_bytes cfg) (bytes_at (src b))) b"
    by (simp add: b2)
  have "updated_model_buf b2 = None \<longleftrightarrow> updated_model_buf b = None" using f(3) by (simp add: b2 del: not_None_eq)
  then have "(if model_mode_is_used (cmp_mode cfg) \<and> updated_model_buf b2 \<noteq> None
      then copy_to_updated_model (unat len) (src b2) b2 else Some b2) = Some b2" using False by argo
  then show ?thesis by (rule that) (use models in \<open>simp_all add: b2\<close>)
qed

lemma entry_call_frame:
  assumes call: "entry_call cfg ds b" and fr: "model_frame (model_bytes cfg) b b1"
  shows "entry_call cfg ds b1"
  using call model_frame_ok(1,2) [OF fr, of "data_bytes cfg" cfg] by (simp add: entry_call_def)

end
