(* ===== verification/Collection_Result.thy ===== *)
theory Collection_Result
  imports Collection_Entry
begin

text \<open>
  The result of the compression of one collection: its header, the size of what follows, the payload.
  It fails only for lack of space, and then there was not even space for the raw data.
\<close>

section \<open>The data\<close>

lemma data_result:
  assumes "r = Some (l, cfg', b')" and "same_coding cfg cfg'" and "samples cfg' = samples cfg"
    and "cmp_mode cfg \<noteq> CMP_MODE_RAW"
    and "l = CMP_ERROR CMP_ERROR_SMALL_BUFFER \<and> unat cap < unat ds + data_bytes cfg \<or> entry_written big cfg (unat ds) p b l b'"
  shows "\<exists>l cfg' b'. r = Some (l, cfg', b') \<and> same_coding cfg cfg' \<and> samples cfg' = samples cfg \<and>
    (l = CMP_ERROR CMP_ERROR_SMALL_BUFFER \<and> unat cap < unat ds + data_bytes cfg \<or>
     (\<exists>p. (cmp_mode cfg = CMP_MODE_RAW \<longrightarrow> length p = data_bytes cfg) \<and> entry_written big cfg (unat ds) p b l b'))"
  using assms by blast

text \<open>The data are coded, or fall back to raw data.\<close>

lemma collection_data_coded:
  fixes big :: bool
  assumes call: "entry_call cfg ds b" and coding: "coding_cfg cfg" and dst: "dst b = Some (a, d)"
    and n: "unat len = data_bytes cfg" and cap: "unat ds \<le> unat cap" "unat cap \<le> length d"
    and fits: "code_fits big cfg (unat ds) k b"
    and k: "k = (if unat ds + data_bytes cfg \<le> unat cap then unat ds + data_bytes cfg - 1 else unat cap)"
    and cond: "cap \<ge> ds + ucast len \<longleftrightarrow> unat ds + data_bytes cfg \<le> unat cap"
    and k': "unat (ds + ucast len - 1) = unat ds + data_bytes cfg - 1"
  obtains l k' b' p where "cmp_collection_data big cfg cap ds len b = Some (l, cfg\<lparr>stream_size := k'\<rparr>, b')"
    and "entry_written big cfg (unat ds) p b l b'"
proof -
  let ?k = "if cap \<ge> ds + ucast len then ds + ucast len - 1 else cap"
  have n0: "data_bytes cfg \<noteq> 0" using call coding data_bytes_0 [of "data_type cfg" cfg]
    by (simp add: entry_call_def coding_cfg_def)
  have kk: "unat ?k = k" using k k' cond by simp
  have bound: "unat ?k \<le> length d" "unat ?k < unat ds + data_bytes cfg"
    unfolding kk k using cap n0 by (simp_all split: if_splits) linarith+
  obtain l b' p where run: "compress_data_internal big (Some (cfg\<lparr>stream_size := ?k\<rparr>)) b (push_bit 3 ds) = Some (l, b')"
    and w: "entry_written big cfg (unat ds) p b l b'"
    using compress_entry_fits [OF call coding dst bound, unfolded kk, OF fits] by blast
  have "\<not> cmp_is_error l" using w by (simp add: entry_written_def)
  then have "cmp_get_error_code l \<noteq> cmp_error_value CMP_ERROR_SMALL_BUFFER" by (simp add: cmp_get_error_code_def)
  moreover have "dst b' \<noteq> None" using w dst by (auto simp: entry_written_def)
  ultimately have "cmp_collection_data big cfg cap ds len b = Some (l, cfg\<lparr>stream_size := ?k\<rparr>, b')"
    using run dst coding by (auto simp: cmp_collection_data_def coding_cfg_def)
  then show ?thesis using that w by blast
qed

lemma collection_data_fallback:
  fixes big :: bool
  assumes call: "entry_call cfg ds b" and coding: "coding_cfg cfg" and dst: "dst b = Some (a, d)"
    and n: "unat len = data_bytes cfg" and cap: "unat ds + data_bytes cfg \<le> unat cap" "unat cap \<le> length d"
    and fits: "\<not> code_fits big cfg (unat ds) (unat ds + data_bytes cfg - 1) b"
    and cond: "cap \<ge> ds + ucast len" and len: "unat (ds + ucast len) = unat ds + data_bytes cfg"
    and k': "unat (ds + ucast len - 1) = unat ds + data_bytes cfg - 1"
  obtains l k' b' p where "cmp_collection_data big cfg cap ds len b = Some (l, cfg\<lparr>stream_size := k'\<rparr>, b')"
    and "entry_written big cfg (unat ds) p b l b'"
proof -
  let ?raw = "raw_data big (data_type cfg) (take (data_bytes cfg) (bytes_at (src b)))"
  let ?k = "ds + ucast len - 1"
  note c = call [unfolded entry_call_def]
  have n0: "data_bytes cfg \<noteq> 0" using call coding data_bytes_0 [of "data_type cfg" cfg]
    by (simp add: entry_call_def coding_cfg_def)
  have bound: "unat ?k \<le> length d" "unat ?k < unat ds + data_bytes cfg" "unat ds \<le> length d"
    unfolding k' using cap n0 by simp_all
  obtain b1 d1 where run: "compress_data_internal big (Some (cfg\<lparr>stream_size := ?k\<rparr>)) b (push_bit 3 ds) =
      Some (CMP_ERROR CMP_ERROR_SMALL_BUFFER, b1)"
    and d1: "dst b1 = Some (a, d1)" "length d1 = length d" "take (unat ds) d1 = take (unat ds) d"
    and fr: "model_frame (model_bytes cfg) b b1"
    using compress_entry_small [OF call coding dst bound, of big] fits by (auto simp only: k')
  note f = model_frame_ok [OF fr conjunct1 [OF conjunct2 [OF conjunct2 [OF conjunct2 [OF conjunct2 [OF c]]]]]]
  let ?cfg = "cfg\<lparr>stream_size := ds + ucast len, cmp_mode := CMP_MODE_RAW\<rparr>"
  let ?b2 = "b1\<lparr>dst := Some (a, take (unat ds) d @ ?raw @ drop (unat ds + data_bytes cfg) d1)\<rparr>"
  let ?l = "push_bit 3 ds + word_of_nat (8 * data_bytes cfg) :: u32"
  have raw: "compress_data_internal big (Some ?cfg) b1 (push_bit 3 ds) = Some (?l, ?b2)"
    using compress_raw_data [OF entry_call_frame [OF call fr], of ?cfg a d1 big] d1 cap f(2) len by simp
  obtain b3 where copy: "(if model_mode_is_used (cmp_mode cfg) \<and> updated_model_buf ?b2 \<noteq> None
      then copy_to_updated_model (unat len) (src ?b2) ?b2 else Some ?b2) = Some b3"
    and d3: "dst b3 = Some (a, take (unat ds) d @ ?raw @ drop (unat ds + data_bytes cfg) d1)"
    and m3: "b3\<lparr>dst := dst b\<rparr> = with_next_model (data_bytes cfg) cfg (take (data_bytes cfg) (bytes_at (src b))) b"
    using copy_model_raw [OF fr _ n _ refl] c by blast
  have "cmp_get_error_code (CMP_ERROR CMP_ERROR_SMALL_BUFFER) = cmp_error_value CMP_ERROR_SMALL_BUFFER"
    by (rule cmp_get_error_code_CMP_ERROR) simp
  then have "cmp_collection_data big cfg cap ds len b = Some (?l, cfg\<lparr>stream_size := ds + ucast len\<rparr>, b3)"
    using run raw copy cond coding by (simp add: cmp_collection_data_def coding_cfg_def)
  moreover have "entry_written big cfg (unat ds) ?raw b ?l b3"
    using d3 m3 cap d1(2) by (intro entry_raw [OF call dst _ refl, where e = "drop (unat ds + data_bytes cfg) d1"]) simp_all
  ultimately show ?thesis by (rule that)
qed

lemma cmp_collection_data_ok:
  assumes call: "entry_call cfg ds b" and dst: "dst b = Some (a, d)" and n: "unat len = data_bytes cfg"
    and cap: "unat ds \<le> unat cap" "unat cap \<le> length d"
  shows "\<exists>l cfg' b'. cmp_collection_data big cfg cap ds len b = Some (l, cfg', b') \<and>
    same_coding cfg cfg' \<and> samples cfg' = samples cfg \<and>
    (l = CMP_ERROR CMP_ERROR_SMALL_BUFFER \<and> unat cap < unat ds + data_bytes cfg \<or>
     (\<exists>p. (cmp_mode cfg = CMP_MODE_RAW \<longrightarrow> length p = data_bytes cfg) \<and> entry_written big cfg (unat ds) p b l b'))"
proof (cases "cmp_mode cfg = CMP_MODE_RAW")
  case True
  then show ?thesis by (rule cmp_collection_data_raw [OF call _ dst cap])
next
  case mode: False
  note c = call [unfolded entry_call_def]
  have len: "unat (ds + ucast len) = unat ds + data_bytes cfg"
    using c n by (subst unat_add_small) (simp_all add: unat_ucast_wide)
  have cond: "cap \<ge> ds + ucast len \<longleftrightarrow> unat ds + data_bytes cfg \<le> unat cap"
    by (simp add: word_le_nat_alt len)
  have n0: "samples cfg \<noteq> 0 \<Longrightarrow> data_bytes cfg \<noteq> 0" using c data_bytes_0 [of "data_type cfg" cfg] by simp
  show ?thesis
  proof (cases "unat ds + data_bytes cfg \<le> unat cap")
    case room: True
    let ?cfg = "cfg\<lparr>stream_size := ds + ucast len - 1\<rparr>"
    show ?thesis
    proof (cases "samples cfg = 0")
      case True
      then have n0: "data_bytes cfg = 0" by (simp add: data_bytes_def)
      note ps = push_3_facts [of ds]
      have run: "compress_data_internal big (Some ?cfg) b (push_bit 3 ds) = Some (push_bit 3 ds, b)"
        using c True by (intro compress_no_samples) simp_all
      have e: "cmp_get_error_code (push_bit 3 ds) \<noteq> cmp_error_value CMP_ERROR_SMALL_BUFFER"
        using ps c by (simp add: cmp_get_error_code_def)
      show ?thesis
      proof (rule data_result [where p = "[]"])
        show "cmp_collection_data big cfg cap ds len b = Some (push_bit 3 ds, ?cfg, b)"
          using room mode e dst by (simp add: cmp_collection_data_def cond run)
        have "unat (cmp_bit_to_byte (push_bit 3 ds)) = unat ds"
          using byte_of_push [of ds 0] c by simp
        moreover have "models_ok 0 cfg b" using c n0 by simp
        ultimately show "push_bit 3 ds = CMP_ERROR CMP_ERROR_SMALL_BUFFER \<and> unat cap < unat ds + data_bytes cfg \<or>
            entry_written big cfg (unat ds) [] b (push_bit 3 ds) b"
          using ps c n0 by (simp add: entry_written_def payload_ok_def payload_model_def raw_data_def swap_bytes_def
              with_next_model_0)
      qed (simp_all add: mode)
    next
      case False
      have coding: "coding_cfg cfg" using c mode False by (simp add: coding_cfg_def)
      have k': "unat (ds + ucast len - 1) = unat ds + data_bytes cfg - 1"
        using n0 [OF False] len by (subst unat_sub) (simp_all add: word_le_nat_alt)
      obtain l k' b' p where run: "cmp_collection_data big cfg cap ds len b = Some (l, cfg\<lparr>stream_size := k'\<rparr>, b')"
        and w: "entry_written big cfg (unat ds) p b l b'"
      proof (cases "code_fits big cfg (unat ds) (unat ds + data_bytes cfg - 1) b")
        case True
        show ?thesis
          by (rule collection_data_coded [OF call coding dst n cap True _ cond k']) (simp add: room, rule that)
      next
        case False
        show ?thesis
          by (rule collection_data_fallback [OF call coding dst n room cap(2) False _ len k']) (simp add: cond room, rule that)
      qed
      show ?thesis by (rule data_result [OF run _ _ mode disjI2 [OF w]]) simp_all
    qed
  next
    case small: False
    then have "samples cfg \<noteq> 0" using cap by (auto simp: data_bytes_def)
    then have coding: "coding_cfg cfg" and nz: "data_bytes cfg \<noteq> 0" using c mode n0 by (simp_all add: coding_cfg_def)
    have k': "unat (ds + ucast len - 1) = unat ds + data_bytes cfg - 1"
      using nz len by (subst unat_sub) (simp_all add: word_le_nat_alt)
    show ?thesis
    proof (cases "code_fits big cfg (unat ds) (unat cap) b")
      case True
      obtain l k' b' p where run: "cmp_collection_data big cfg cap ds len b = Some (l, cfg\<lparr>stream_size := k'\<rparr>, b')"
        and w: "entry_written big cfg (unat ds) p b l b'"
        by (rule collection_data_coded [OF call coding dst n cap True _ cond k']) (simp add: small, rule that)
      show ?thesis by (rule data_result [OF run _ _ mode disjI2 [OF w]]) simp_all
    next
      case False
      obtain b' where run: "compress_data_internal big (Some (cfg\<lparr>stream_size := cap\<rparr>)) b (push_bit 3 ds) =
          Some (CMP_ERROR CMP_ERROR_SMALL_BUFFER, b')"
        using compress_entry_small [OF call coding dst cap(2) _ _ False] small cap by auto
      have "cmp_collection_data big cfg cap ds len b = Some (CMP_ERROR CMP_ERROR_SMALL_BUFFER, cfg\<lparr>stream_size := cap\<rparr>, b')"
        using run dst small cond by (simp add: cmp_collection_data_def)
      then show ?thesis by (rule data_result [OF _ _ _ mode]) (use small in simp_all)
    qed
  qed
qed

section \<open>Pointers behind the header\<close>

lemma bytes_at_skip [simp]: "bytes_at (skip_ptr n p) = drop n (bytes_at p)"
  by (cases p) (auto simp: skip_ptr_def bytes_at_def)

lemma skip_bufs_simps [simp]:
  "src (skip_bufs i j k b) = skip_ptr i (src b)" "dst (skip_bufs i j k b) = skip_ptr j (dst b)"
  "model_buf (skip_bufs i j k b) = skip_ptr k (model_buf b)"
  "updated_model_buf (skip_bufs i j k b) = skip_ptr k (updated_model_buf b)"
  by (simp_all add: skip_bufs_def)

lemma skip_ptr_0 [simp]: "skip_ptr 0 p = p"
  by (cases p) (auto simp: skip_ptr_def)

lemma skip_ptr_None [simp]: "skip_ptr n p = None \<longleftrightarrow> p = None"
  by (simp add: skip_ptr_def)

lemma skip_ptr_addr: "map_option fst (skip_ptr n p) = map_option (\<lambda>a. a + n) (map_option fst p)"
  by (cases p) (auto simp: skip_ptr_def)

lemma in_place_skip [simp]: "in_place (skip_bufs i j k b) = in_place b"
proof -
  have "inj (map_option (\<lambda>a :: nat. a + k))" by (rule option.inj_map) (simp add: inj_on_def)
  then show ?thesis by (simp add: in_place_def skip_ptr_addr inj_eq)
qed

lemma models_ok_skip: "models_ok (k + n) cfg b \<Longrightarrow> models_ok n cfg (skip_bufs i j k b)"
  by (auto simp: models_ok_def simp del: not_None_eq)

lemma rejoin_bytes: "rejoin_ptr k (with_bytes bs (skip_ptr k p)) p = with_bytes (take k (bytes_at p) @ bs) p"
  by (cases p) (auto simp: rejoin_ptr_def with_bytes_def skip_ptr_def bytes_at_def)

lemma rejoin_same: "rejoin_ptr k (skip_ptr k p) p = p"
  by (cases p) (auto simp: rejoin_ptr_def skip_ptr_def bytes_at_def)

lemma rejoin_set_updated:
  assumes "models_ok n cfg b"
  shows "rejoin_bufs j k ((set_updated_model bs (skip_bufs i j k b))\<lparr>dst := p\<rparr>) b =
    (set_updated_model (take k (bytes_at (updated_model_buf b)) @ bs) b)\<lparr>dst := rejoin_ptr j p (dst b)\<rparr>"
  using assms
  by (simp add: rejoin_bufs_def set_updated_model_def Let_def rejoin_bytes rejoin_same models_ok_def del: not_None_eq)

lemma rejoin_ptr_0: "rejoin_ptr 0 (Some (a, d')) (Some (a, d)) = Some (a, d')"
  by (simp add: rejoin_ptr_def bytes_at_def)

section \<open>Bytes put into a buffer\<close>

definition put_bytes :: "nat \<Rightarrow> buffer \<Rightarrow> buffer \<Rightarrow> buffer" where
  "put_bytes k xs bs = take k bs @ xs @ drop (k + length xs) bs"

lemma length_put_bytes [simp]: "k + length xs \<le> length bs \<Longrightarrow> length (put_bytes k xs bs) = length bs"
  by (simp add: put_bytes_def)

lemma put_bytes_append: "length xs = k \<Longrightarrow> k \<le> length bs \<Longrightarrow> put_bytes k ys (put_bytes 0 xs bs) = put_bytes 0 (xs @ ys) bs"
  by (simp add: put_bytes_def add.commute)

lemma store_put_bytes: "k + length xs \<le> length bs \<Longrightarrow> store_bytes k xs bs = Some (put_bytes k xs bs)"
  by (simp add: store_bytes_def put_bytes_def)

lemma put_bytes_skip: "take k bs @ put_bytes 0 xs (drop k bs) = put_bytes k xs bs"
  by (simp add: put_bytes_def add.commute)

lemma drop_put_bytes: "k + length xs \<le> length bs \<Longrightarrow> k + length xs \<le> n \<Longrightarrow> drop n (put_bytes k xs bs) = drop n bs"
  by (simp add: put_bytes_def)

text \<open>The updated model with some bytes put in, where it is used.\<close>

definition put_model :: "cmp_cfg \<Rightarrow> nat \<Rightarrow> buffer \<Rightarrow> cmp_bufs \<Rightarrow> cmp_bufs" where
  "put_model cfg k xs b =
     (if model_mode_is_used (cmp_mode cfg)
      then set_updated_model (put_bytes k xs (bytes_at (updated_model_buf b))) b else b)"

lemma with_next_model_put: "length nm = n \<Longrightarrow> with_next_model n cfg nm b = put_model cfg 0 nm b"
  by (simp add: with_next_model_def put_model_def put_bytes_def)

lemma put_model_dst: "put_model cfg k xs (b\<lparr>dst := p\<rparr>) = (put_model cfg k xs b)\<lparr>dst := p\<rparr>"
  by (simp add: put_model_def set_updated_dst)

lemma dst_put_model [simp]: "dst (put_model cfg k xs b) = dst b" "src (put_model cfg k xs b) = src b"
  by (simp_all add: put_model_def)

lemma skip_rejoin_put:
  assumes "models_ok n cfg b"
  shows "rejoin_bufs j k ((put_model cfg 0 xs (skip_bufs i j k b))\<lparr>dst := p\<rparr>) b =
    (put_model cfg k xs b)\<lparr>dst := rejoin_ptr j p (dst b)\<rparr>"
proof (cases "model_mode_is_used (cmp_mode cfg)")
  case True
  then show ?thesis by (simp add: put_model_def rejoin_set_updated [OF assms] put_bytes_skip)
next
  case False
  show ?thesis
    using rejoin_set_updated [OF assms, where j = j and k = k and i = i and p = p and
        bs = "bytes_at (updated_model_buf (skip_bufs i j k b))"] False
      set_updated_same [OF assms] set_updated_same [OF models_ok_skip [of k 0 cfg b i j]] assms
    by (simp add: put_model_def models_ok_def)
qed

section \<open>Collections\<close>

text \<open>What the header of a collection says about the data behind it.\<close>

definition col_length :: "bool \<Rightarrow> buffer \<Rightarrow> nat" where
  "col_length big col = (case cmp_col_get_data_length big col of None \<Rightarrow> 0 | Some n \<Rightarrow> unat n)"

definition col_type :: "bool \<Rightarrow> buffer \<Rightarrow> cmp_data_type" where
  "col_type big col = (case cmp_col_get_subservice big col of None \<Rightarrow> DATA_TYPE_UNKNOWN
     | Some s \<Rightarrow> convert_subservice_to_cmp_data_type s)"

text \<open>The configuration for the data of a collection, and well-formed collections.\<close>

definition col_cfg :: "bool \<Rightarrow> cmp_cfg \<Rightarrow> buffer \<Rightarrow> cmp_cfg" where
  "col_cfg big cfg col = cfg\<lparr>data_type := col_type big col,
     samples := word_of_nat (col_length big col div size_of_a_sample (col_type big col))\<rparr>"

definition collection_ok :: "bool \<Rightarrow> buffer \<Rightarrow> bool" where
  "collection_ok big col \<longleftrightarrow> col_type big col \<in> coded_types \<and>
     col_length big col mod size_of_a_sample (col_type big col) = 0 \<and>
     COLLECTION_HDR_SIZE + col_length big col \<le> length col"

lemma col_length_less: "col_length big col < 2 ^ 16"
  by (cases "cmp_col_get_data_length big col") (use unat_less_2p [where 'a = 16] in \<open>simp_all add: col_length_def\<close>)

lemma data_bytes_col_cfg: "collection_ok big col \<Longrightarrow> data_bytes (col_cfg big cfg col) = col_length big col"
proof -
  assume ok: "collection_ok big col"
  let ?q = "col_length big col div size_of_a_sample (col_type big col)"
  have "?q \<le> col_length big col" by (rule div_le_dividend)
  then have "?q < 2 ^ 16" using col_length_less [of big col] by (rule order_le_less_trans)
  then have "unat (word_of_nat ?q :: u32) = ?q" by (intro unat_of_nat_small) simp
  then show ?thesis using ok by (simp add: data_bytes_def col_cfg_def collection_ok_def div_mult_mod_eq
      mod_0_imp_dvd [of "col_length big col"])
qed

text \<open>The entry of a collection in the chunk: the size of the payload unless it is raw, the header, the payload.\<close>

definition compressed_entry :: "cmp_cfg \<Rightarrow> buffer \<Rightarrow> buffer \<Rightarrow> buffer" where
  "compressed_entry cfg hdr p =
     (if cmp_mode cfg = CMP_MODE_RAW then hdr @ p else be_bytes 2 (word_of_nat (length p) :: u16) @ hdr @ p)"

end
