(* ===== verification/Collection_Written.thy ===== *)
theory Collection_Written
  imports Collection_Result
begin

text \<open>
  What \<open>cmp_collection\<close> writes: the entry of a collection in the compressed chunk and the updated
  model with the header in front, or an error that leaves the decision to the caller.
\<close>


lemma collection_getters:
  assumes ok: "collection_ok big col"
  obtains len ss where "cmp_col_get_data_length big col = Some len" and "unat len = col_length big col"
    and "cmp_col_get_subservice big col = Some ss" and "convert_subservice_to_cmp_data_type ss = col_type big col"
    and "(word_of_nat (size_of_a_sample (col_type big col)) :: u16) \<noteq> 0"
    and "len mod word_of_nat (size_of_a_sample (col_type big col)) = 0"
    and "ucast (len div word_of_nat (size_of_a_sample (col_type big col))) =
      (word_of_nat (col_length big col div size_of_a_sample (col_type big col)) :: u32)"
proof -
  let ?t = "col_type big col" and ?sz = "size_of_a_sample (col_type big col)"
  have t: "?t \<in> coded_types" and hdr: "COLLECTION_HDR_SIZE \<le> length col"
    and md: "col_length big col mod ?sz = 0" using ok by (simp_all add: collection_ok_def)
  have "?t \<noteq> DATA_TYPE_UNKNOWN" using t by (auto simp: coded_types_def)
  then obtain ss where ss: "cmp_col_get_subservice big col = Some ss"
    by (cases "cmp_col_get_subservice big col") (auto simp: col_type_def)
  then have ct: "convert_subservice_to_cmp_data_type ss = ?t" by (simp add: col_type_def)
  obtain len where len: "cmp_col_get_data_length big col = Some len"
    using hdr load_be_Some [of 10 2 col, where ?'a = 16]
    by (auto simp: cmp_col_get_data_length_def get_be_load COLLECTION_HDR_SIZE_def)
  then have n: "unat len = col_length big col" by (simp add: col_length_def)
  have "?sz < 2 ^ 16" using size_of_a_sample_le [of ?t] by simp
  then have sz: "unat (word_of_nat ?sz :: u16) = ?sz" by (simp add: unat_of_nat take_bit_eq_mod)
  have "(word_of_nat ?sz :: u16) \<noteq> 0" using coded_type_size [OF t] sz by (metis unat_0)
  moreover have "unat (len mod word_of_nat ?sz) = 0" by (simp only: unat_mod sz n md)
  then have "len mod word_of_nat ?sz = 0" by (simp only: unsigned_eq_0_iff)
  moreover have "ucast (len div word_of_nat ?sz) = (word_of_nat (col_length big col div ?sz) :: u32)"
    by (subst of_nat_unat [symmetric]) (simp only: unat_div sz n)
  ultimately show ?thesis by (rule that [OF len n ss ct])
qed



lemma cmp_collection_checked:
  fixes big :: bool and b :: cmp_bufs and cfg :: cmp_cfg and cap :: u32
  assumes ok: "collection_ok big (bytes_at (src b))"
  defines "cc \<equiv> (col_cfg big cfg (bytes_at (src b)))\<lparr>stream_size := cap\<rparr>"
  defines "err \<equiv> cmp_cfg_icu_is_invalid_error_code (Some cc) (skip_bufs COLLECTION_HDR_SIZE 0 COLLECTION_HDR_SIZE b)"
  assumes bad: "cmp_is_error err"
  shows "cmp_collection big b cap cfg ds = Some (err, cc, b)"
proof -
  obtain len ss where h: "cmp_col_get_data_length big (bytes_at (src b)) = Some len" "unat len = col_length big (bytes_at (src b))"
    "cmp_col_get_subservice big (bytes_at (src b)) = Some ss"
    "convert_subservice_to_cmp_data_type ss = col_type big (bytes_at (src b))"
    "(word_of_nat (size_of_a_sample (col_type big (bytes_at (src b)))) :: u16) \<noteq> 0"
    "len mod word_of_nat (size_of_a_sample (col_type big (bytes_at (src b)))) = 0"
    "ucast (len div word_of_nat (size_of_a_sample (col_type big (bytes_at (src b))))) =
      (word_of_nat (col_length big (bytes_at (src b)) div size_of_a_sample (col_type big (bytes_at (src b)))) :: u32)"
    by (rule collection_getters [OF ok])
  then show ?thesis using bad
    by (simp add: cmp_collection_def Let_def err_def cc_def col_cfg_def)
qed


lemma unat_hdr_add:
  assumes "unat (ds :: u32) < 2 ^ 28 - 2 ^ 17" and "k \<le> 2 ^ 16"
  shows "unat (ds + word_of_nat k) = unat ds + k"
proof -
  have "unat (word_of_nat k :: u32) = k" using assms(2) by (intro unat_of_nat_small) simp
  then show ?thesis using assms by (subst unat_add_small) simp_all
qed

text \<open>The header in the output and in the updated model.\<close>

definition field_size :: "cmp_cfg \<Rightarrow> nat" where
  "field_size cfg = (if cmp_mode cfg = CMP_MODE_RAW then 0 else CMP_COLLECTION_FILD_SIZE)"

definition with_header :: "cmp_cfg \<Rightarrow> nat \<Rightarrow> cmp_bufs \<Rightarrow> cmp_bufs" where
  "with_header cfg ds b = 
     (let hdr = take COLLECTION_HDR_SIZE (bytes_at (src b));
          b1 = (case dst b of None \<Rightarrow> b | Some (a, d) \<Rightarrow>
            b\<lparr>dst := Some (a, take ds d @ hdr @ drop (ds + COLLECTION_HDR_SIZE) d)\<rparr>)
      in if model_mode_is_used (cmp_mode cfg)
         then set_updated_model (hdr @ drop COLLECTION_HDR_SIZE (bytes_at (updated_model_buf b))) b1 else b1)"

lemma cmp_collection_header:
  fixes big :: bool and b :: cmp_bufs and cfg :: cmp_cfg and cap :: u32
  assumes ok: "collection_ok big (bytes_at (src b))" and ds: "unat ds < 2 ^ 28 - 2 ^ 17"
    and models: "models_ok (COLLECTION_HDR_SIZE + col_length big (bytes_at (src b))) cfg b"
    and dst: "dst b = Some (a, d)" and cap: "unat cap \<le> length d"
  defines "cc \<equiv> (col_cfg big cfg (bytes_at (src b)))\<lparr>stream_size := cap\<rparr>"
  assumes good: "\<not> cmp_is_error (cmp_cfg_icu_is_invalid_error_code (Some cc)
      (skip_bufs COLLECTION_HDR_SIZE 0 COLLECTION_HDR_SIZE b))"
    and len: "unat len = col_length big (bytes_at (src b))" "cmp_col_get_data_length big (bytes_at (src b)) = Some len"
  defines "ds' \<equiv> ds + word_of_nat (field_size cfg) + word_of_nat COLLECTION_HDR_SIZE"
  shows "cmp_collection big b cap cfg ds = (if unat cap < unat ds + field_size cfg + COLLECTION_HDR_SIZE
      then Some (CMP_ERROR CMP_ERROR_SMALL_BUFFER, cc, b)
      else do {
        let b = with_header cfg (unat ds + field_size cfg) b;
        (dst_size_bits, cfg, b') \<leftarrow> cmp_collection_data big cc cap ds' len
          (skip_bufs COLLECTION_HDR_SIZE 0 COLLECTION_HDR_SIZE b);
        let b = rejoin_bufs 0 COLLECTION_HDR_SIZE b' b;
        if cmp_is_error dst_size_bits then Some (dst_size_bits, cfg, b)
        else
          let dst_size = cmp_bit_to_byte dst_size_bits
          in case dst b of
              None \<Rightarrow> Some (dst_size, cfg, b)
            | Some (a, d) \<Rightarrow>
                if cmp_mode cfg = CMP_MODE_RAW then Some (dst_size, cfg, b)
                else do {
                  let cmp_col_size = dst_size - ds - word_of_nat COLLECTION_HDR_SIZE - word_of_nat CMP_COLLECTION_FILD_SIZE;
                  (err, d) \<leftarrow> set_cmp_col_size big (unat ds) cmp_col_size d;
                  let b = b\<lparr>dst := Some (a, d)\<rparr>;
                  Some (if cmp_is_error err then err else dst_size, cfg, b)
                }
      })"
proof -
  let ?col = "bytes_at (src b)"
  obtain ss where h: 
    "cmp_col_get_subservice big ?col = Some ss" "convert_subservice_to_cmp_data_type ss = col_type big ?col"
    "(word_of_nat (size_of_a_sample (col_type big ?col)) :: u16) \<noteq> 0"
    "len mod word_of_nat (size_of_a_sample (col_type big ?col)) = 0"
    "ucast (len div word_of_nat (size_of_a_sample (col_type big ?col))) =
      (word_of_nat (col_length big ?col div size_of_a_sample (col_type big ?col)) :: u32)"
    using collection_getters [OF ok] len(2) by (metis option.inject)
  have hl: "COLLECTION_HDR_SIZE \<le> length ?col" using ok by (simp add: collection_ok_def)
  let ?ds = "if cmp_mode cfg \<noteq> CMP_MODE_RAW then ds + word_of_nat CMP_COLLECTION_FILD_SIZE else ds"
  have ds1: "?ds = ds + word_of_nat (field_size cfg)" by (simp add: field_size_def)
  have u1: "unat ?ds = unat ds + field_size cfg" unfolding ds1
    using ds by (intro unat_hdr_add) (simp_all add: field_size_def CMP_COLLECTION_FILD_SIZE_def)
  have u2: "unat (?ds + word_of_nat COLLECTION_HDR_SIZE) = unat ds + field_size cfg + COLLECTION_HDR_SIZE"
    using ds u1 by (subst unat_add_small) (simp_all add: field_size_def CMP_COLLECTION_FILD_SIZE_def COLLECTION_HDR_SIZE_def)
  have full: "?ds + word_of_nat COLLECTION_HDR_SIZE > cap \<longleftrightarrow> unat cap < unat ds + field_size cfg + COLLECTION_HDR_SIZE"
    unfolding word_less_nat_alt u2 ..
  have b1: "with_header cfg (unat ds + field_size cfg) b = (if model_mode_is_used (cmp_mode cfg)
      then set_updated_model (take COLLECTION_HDR_SIZE ?col @ drop COLLECTION_HDR_SIZE (bytes_at (updated_model_buf b)))
        (b\<lparr>dst := Some (a, take (unat ?ds) d @ take COLLECTION_HDR_SIZE ?col @ drop (unat ?ds + COLLECTION_HDR_SIZE) d)\<rparr>)
      else b\<lparr>dst := Some (a, take (unat ?ds) d @ take COLLECTION_HDR_SIZE ?col @ drop (unat ?ds + COLLECTION_HDR_SIZE) d)\<rparr>)"
    unfolding u1 by (simp add: with_header_def dst Let_def)
  have st: "store_bytes (unat ?ds) (take COLLECTION_HDR_SIZE ?col) d =
      Some (take (unat ?ds) d @ take COLLECTION_HDR_SIZE ?col @ drop (unat ?ds + COLLECTION_HDR_SIZE) d)"
    if "\<not> unat cap < unat ds + field_size cfg + COLLECTION_HDR_SIZE"
    unfolding u1 using that hl cap by (simp add: store_bytes_def)
  have cp: "(if model_mode_is_used (cmp_mode cfg) \<and> updated_model_buf b1 \<noteq> None
      then copy_to_updated_model COLLECTION_HDR_SIZE (src b1) b1 else Some b1) =
    Some (if model_mode_is_used (cmp_mode cfg)
      then set_updated_model (take COLLECTION_HDR_SIZE ?col @ drop COLLECTION_HDR_SIZE (bytes_at (updated_model_buf b))) b1 else b1)"
    if "b1 = b\<lparr>dst := p\<rparr>" for b1 p
    using models hl that by (cases "updated_model_buf b = None")
      (auto simp: copy_to_updated_model_def set_updated_None store_bytes_def models_ok_def min_def simp del: not_None_eq)
  have cc: "cfg\<lparr>data_type := col_type big ?col, samples := word_of_nat (col_length big ?col div size_of_a_sample (col_type big ?col)),
      stream_size := cap\<rparr> = cc" by (simp add: cc_def col_cfg_def)
  have mode: "cmp_mode cc = cmp_mode cfg" by (simp add: cc_def col_cfg_def)
  show ?thesis
  proof (cases "unat cap < unat ds + field_size cfg + COLLECTION_HDR_SIZE")
    case True
    then show ?thesis using full h len good
      by (simp add: cmp_collection_def cc mode dst)
  next
    case False
    note f = False [folded full]
    have src: "src (b\<lparr>dst := p\<rparr>) = src b" for p by simp
    have upd: "updated_model_buf (b\<lparr>dst := p\<rparr>) = updated_model_buf b" for p by simp
    have cpi: "copy_to_updated_model COLLECTION_HDR_SIZE (src b) (b\<lparr>dst := p\<rparr>) =
        Some (set_updated_model (take COLLECTION_HDR_SIZE ?col @ drop COLLECTION_HDR_SIZE (bytes_at (updated_model_buf b)))
          (b\<lparr>dst := p\<rparr>))" if "model_mode_is_used (cmp_mode cfg)" "updated_model_buf b \<noteq> None" for p
      using cp [OF refl, of p] unfolding upd using that by simp
    have none: "set_updated_model bs (b\<lparr>dst := p\<rparr>) = b\<lparr>dst := p\<rparr>" if "updated_model_buf b = None" for p bs
      using that by (intro set_updated_None) simp
    show ?thesis
    proof (cases "cmp_mode cfg = CMP_MODE_RAW")
      case True
      then have "\<not> model_mode_is_used (cmp_mode cfg)" by (simp add: model_mode_is_used_def)
      then show ?thesis
        using False f h(3,4) good st [OF False] b1 True
        by (simp add: cmp_collection_def len h(1,2,5) cc mode dst ds'_def field_size_def Let_def)
    next
      case coded: False
      note facts = False f h(3,4) good st [OF False] b1 coded
      note defs = cmp_collection_def len h(1,2,5) cc mode dst ds'_def field_size_def Let_def
      consider "\<not> model_mode_is_used (cmp_mode cfg)" | "updated_model_buf b = None" "model_mode_is_used (cmp_mode cfg)"
        | "updated_model_buf b \<noteq> None" "model_mode_is_used (cmp_mode cfg)" by blast
      then show ?thesis
      proof cases
        case 1
        then show ?thesis using facts by (simp add: defs del: not_None_eq)
      next
        case 2
        then show ?thesis using facts none [OF 2(1)] by (simp add: defs del: not_None_eq)
      next
        case 3
        then show ?thesis using facts cpi [OF 3(2,1)] by (simp add: defs del: not_None_eq)
      qed
    qed
  qed
qed

section \<open>Bytes of the updated model\<close>

lemma put_model_simps [simp]:
  "in_place (put_model cfg k xs b) = in_place b"
  "updated_model_buf (put_model cfg k xs b) = None \<longleftrightarrow> updated_model_buf b = None"
  "bytes_at (updated_model_buf (put_model cfg k xs b)) =
     (if model_mode_is_used (cmp_mode cfg) \<and> updated_model_buf b \<noteq> None
      then put_bytes k xs (bytes_at (updated_model_buf b)) else bytes_at (updated_model_buf b))"
  by (simp_all add: put_model_def del: not_None_eq)

lemma model_put_model:
  "bytes_at (model_buf (put_model cfg k xs b)) =
     (if model_mode_is_used (cmp_mode cfg) \<and> in_place b
      then put_bytes k xs (bytes_at (updated_model_buf b)) else bytes_at (model_buf b))"
  by (simp add: put_model_def bytes_model_set_updated del: not_None_eq)

lemma in_place_updated: "in_place b \<Longrightarrow> updated_model_buf b \<noteq> None"
  by (auto simp: in_place_def)

lemma models_ok_put:
  assumes "models_ok n cfg b" and "k + length xs \<le> n"
  shows "models_ok n cfg (put_model cfg k xs b)"
  using assms in_place_updated [of b]
  by (auto simp: models_ok_def model_put_model simp del: not_None_eq)

lemma drop_model_put:
  assumes "models_ok n cfg b" and "k + length xs \<le> n" and "k + length xs \<le> j"
  shows "drop j (bytes_at (model_buf (put_model cfg k xs b))) = drop j (bytes_at (model_buf b))"
proof (cases "model_mode_is_used (cmp_mode cfg) \<and> in_place b")
  case True
  then have "bytes_at (model_buf b) = bytes_at (updated_model_buf b)" "n \<le> length (bytes_at (updated_model_buf b))"
    using assms(1) by (simp_all add: models_ok_def)
  then show ?thesis using True assms(2,3) by (simp add: model_put_model drop_put_bytes)
qed (auto simp: model_put_model)

lemma put_model_append:
  assumes "models_ok n cfg b" and "length xs = k" and "k \<le> n"
  shows "put_model cfg k ys (put_model cfg 0 xs b) = put_model cfg 0 (xs @ ys) b"
proof (cases "model_mode_is_used (cmp_mode cfg)")
  case True
  show ?thesis
  proof (cases "updated_model_buf b = None")
    case True
    then show ?thesis by (simp add: put_model_def set_updated_None)
  next
    case False
    then have "n \<le> length (bytes_at (updated_model_buf b))" using assms(1) True by (simp add: models_ok_def)
    then show ?thesis using True False assms(2,3) by (simp add: put_model_def set_updated_twice put_bytes_append del: not_None_eq)
  qed
qed (simp add: put_model_def)

lemma with_header_put:
  assumes "dst b = Some (a, d)" and "COLLECTION_HDR_SIZE \<le> length (bytes_at (src b))"
  shows "with_header cfg k b = (put_model cfg 0 (take COLLECTION_HDR_SIZE (bytes_at (src b))) b)
    \<lparr>dst := Some (a, put_bytes k (take COLLECTION_HDR_SIZE (bytes_at (src b))) d)\<rparr>"
  using assms by (simp add: with_header_def Let_def put_model_def put_bytes_def set_updated_dst min_def)

lemma cmp_cfg_check_valid:
  assumes "\<not> cmp_is_error (cmp_cfg_icu_is_invalid_error_code (Some cfg) b)"
  shows "cfg_valid cfg"
proof -
  have e: "cmp_is_error (CMP_ERROR CMP_ERROR_PAR_GENERIC)" "cmp_is_error (CMP_ERROR CMP_ERROR_PAR_SPECIFIC)"
    by (simp_all add: cmp_is_error_CMP_ERROR)
  show ?thesis using assms e
    by (auto simp: cmp_cfg_icu_is_invalid_error_code_def cfg_valid_def Let_def split: if_splits)
qed

section \<open>The result\<close>

definition collection_written ::
  "bool \<Rightarrow> cmp_cfg \<Rightarrow> nat \<Rightarrow> buffer \<Rightarrow> cmp_bufs \<Rightarrow> u32 \<Rightarrow> cmp_bufs \<Rightarrow> bool" where
  "collection_written big cfg ds p b l b' \<longleftrightarrow>
     (let col = bytes_at (src b); hdr = take COLLECTION_HDR_SIZE col; cc = col_cfg big cfg col;
          s = drop COLLECTION_HDR_SIZE col; m = drop COLLECTION_HDR_SIZE (bytes_at (model_buf b));
          e = compressed_entry cfg hdr p
      in payload_ok big cc s m p \<and> (cmp_mode cfg = CMP_MODE_RAW \<longrightarrow> length p = data_bytes cc) \<and>
        \<not> cmp_is_error l \<and> unat l = ds + length e \<and>
        (\<forall>a d. dst b = Some (a, d) \<longrightarrow> (\<exists>d'. dst b' = Some (a, d') \<and> length d' = length d \<and>
           take (ds + length e) d' = take ds d @ e)) \<and>
        b'\<lparr>dst := dst b\<rparr> = put_model cfg 0 (hdr @ payload_model big cc s m p) b)"

text \<open>The size of the payload fits into its field.\<close>

lemma set_col_size_ok:
  assumes "unat nb = n" and "n < 2 ^ 16" and "k + 2 \<le> length d"
  shows "set_cmp_col_size big k nb d = Some (0, put_bytes k (be_bytes 2 (word_of_nat n :: u16)) d)"
proof -
  have "\<not> nb > 0xFFFF" using assms(1,2) by (simp add: word_less_nat_alt)
  moreover have "store_field big CMP_COLLECTION_FILD_SIZE k (be16_to_cpu big (ucast nb)) d =
      Some (put_bytes k (be_bytes 2 (ucast nb :: u16)) d)"
    using set_be_store(2) [of big k "ucast nb" d] assms(3)
    by (simp add: set_be16_def CMP_COLLECTION_FILD_SIZE_def store_be_def store_put_bytes)
  moreover have "(ucast nb :: u16) = word_of_nat n" using assms(1) by (metis of_nat_unat)
  ultimately show ?thesis by (simp add: set_cmp_col_size_def Let_def)
qed

lemma same_coding_trans: "same_coding cfg cfg' \<Longrightarrow> same_coding cfg' cfg'' \<Longrightarrow> same_coding cfg cfg''"
  by (simp add: same_coding_def)

lemma payload_stream_size [simp]:
  assumes "data_type cfg \<in> coded_types"
  shows "payload_ok big (cfg\<lparr>stream_size := k\<rparr>) s m p = payload_ok big cfg s m p"
    and "payload_model big (cfg\<lparr>stream_size := k\<rparr>) s m p = payload_model big cfg s m p"
  using assms by (simp_all add: payload_ok_def payload_model_def codes_stream_size next_model_stream_size coding_cfg_def)

lemma payload_length: "payload_ok big cfg s m p \<Longrightarrow> length p \<le> data_bytes cfg"
  by (auto simp: payload_ok_def)

text \<open>After the header: the data, then the size.\<close>

lemma collection_room:
  fixes big :: bool and b :: cmp_bufs and cfg :: cmp_cfg and cap :: u32
  assumes ok: "collection_ok big (bytes_at (src b))" and ds: "unat ds < 2 ^ 28 - 2 ^ 17"
    and models: "models_ok (COLLECTION_HDR_SIZE + col_length big (bytes_at (src b))) cfg b"
    and dst: "dst b = Some (a, d)" and cap: "unat cap \<le> length d"
      "unat ds + field_size cfg + COLLECTION_HDR_SIZE \<le> unat cap"
    and valid: "cfg_valid (col_cfg big cfg (bytes_at (src b)))"
    and b1: "b1 = with_header cfg (unat ds + field_size cfg) b"
    and ds': "ds' = ds + word_of_nat (field_size cfg) + word_of_nat COLLECTION_HDR_SIZE"
    and hdr: "hdr = take COLLECTION_HDR_SIZE (bytes_at (src b))"
    and c: "c = skip_bufs COLLECTION_HDR_SIZE 0 COLLECTION_HDR_SIZE b1"
  shows "entry_call ((col_cfg big cfg (bytes_at (src b)))\<lparr>stream_size := cap\<rparr>) ds' c"
    and "unat ds' = unat ds + field_size cfg + COLLECTION_HDR_SIZE"
    and "dst c = Some (a, put_bytes (unat ds + field_size cfg) hdr d)"
    and "b1 = (put_model cfg 0 hdr b)\<lparr>dst := Some (a, put_bytes (unat ds + field_size cfg) hdr d)\<rparr>"
    and "bytes_at (src c) = drop COLLECTION_HDR_SIZE (bytes_at (src b))"
    and "bytes_at (model_buf c) = drop COLLECTION_HDR_SIZE (bytes_at (model_buf b))"
    and "models_ok (COLLECTION_HDR_SIZE + col_length big (bytes_at (src b))) cfg b1"
proof -
  have hl: "COLLECTION_HDR_SIZE \<le> length (bytes_at (src b))" using ok by (simp add: collection_ok_def)
  then have lh: "length hdr = COLLECTION_HDR_SIZE" by (simp add: hdr)
  have f: "field_size cfg \<le> 2" by (simp add: field_size_def CMP_COLLECTION_FILD_SIZE_def)
  have "unat (ds + word_of_nat (field_size cfg)) = unat ds + field_size cfg"
    using ds f by (intro unat_hdr_add) simp_all
  then show u: "unat ds' = unat ds + field_size cfg + COLLECTION_HDR_SIZE"
    using ds f unfolding ds' by (subst unat_add_small) (simp_all add: COLLECTION_HDR_SIZE_def)
  show b1eq: "b1 = (put_model cfg 0 hdr b)\<lparr>dst := Some (a, put_bytes (unat ds + field_size cfg) hdr d)\<rparr>"
    unfolding b1 hdr by (rule with_header_put [OF dst hl])
  then show "dst c = Some (a, put_bytes (unat ds + field_size cfg) hdr d)"
    by (simp add: c)
  show s: "bytes_at (src c) = drop COLLECTION_HDR_SIZE (bytes_at (src b))" by (simp add: c b1eq)
  show m: "bytes_at (model_buf c) = drop COLLECTION_HDR_SIZE (bytes_at (model_buf b))"
    using drop_model_put [OF models, of 0 hdr COLLECTION_HDR_SIZE] by (simp add: c b1eq lh)
  have "models_ok (COLLECTION_HDR_SIZE + col_length big (bytes_at (src b))) cfg (put_model cfg 0 hdr b)"
    by (rule models_ok_put [OF models]) (simp add: lh)
  then show m1: "models_ok (COLLECTION_HDR_SIZE + col_length big (bytes_at (src b))) cfg b1"
    by (simp add: b1eq models_ok_def)
  have "models_ok (col_length big (bytes_at (src b))) ((col_cfg big cfg (bytes_at (src b)))\<lparr>stream_size := cap\<rparr>) c"
    using models_ok_skip [OF m1] by (simp add: c models_ok_def col_cfg_def)
  then show "entry_call ((col_cfg big cfg (bytes_at (src b)))\<lparr>stream_size := cap\<rparr>) ds' c"
    using ok valid ds f u col_length_less [of big "bytes_at (src b)"]
    by (simp add: entry_call_def data_bytes_col_cfg s) (simp add: collection_ok_def col_cfg_def COLLECTION_HDR_SIZE_def, linarith)
qed

lemma collection_behind_header:
  fixes big :: bool and b :: cmp_bufs and cfg :: cmp_cfg and cap :: u32
  assumes models: "models_ok (COLLECTION_HDR_SIZE + n) cfg b" "models_ok (COLLECTION_HDR_SIZE + n) cfg b1"
    and hdr: "length hdr = COLLECTION_HDR_SIZE"
    and b1: "b1 = (put_model cfg 0 hdr b)\<lparr>dst := Some (a, put_bytes k hdr d)\<rparr>"
    and k: "k + COLLECTION_HDR_SIZE \<le> length d"
    and c: "c = skip_bufs COLLECTION_HDR_SIZE 0 COLLECTION_HDR_SIZE b1"
    and w: "entry_written big cs (k + COLLECTION_HDR_SIZE) p c l b2"
    and cs: "cmp_mode cs = cmp_mode cfg" "data_bytes cs = n" "data_type cs \<in> coded_types"
      "n \<le> length (bytes_at (src c))"
  obtains d2 where "rejoin_bufs 0 COLLECTION_HDR_SIZE b2 b1 =
      (put_model cfg 0 (hdr @ payload_model big cs (bytes_at (src c)) (bytes_at (model_buf c)) p) b)\<lparr>dst := Some (a, d2)\<rparr>"
    and "length d2 = length d" and "take (k + COLLECTION_HDR_SIZE + length p) d2 = take k d @ hdr @ p"
proof -
  define pm where "pm = payload_model big cs (bytes_at (src c)) (bytes_at (model_buf c)) p"
  note e = w [unfolded entry_written_def]
  have dc: "dst c = Some (a, put_bytes k hdr d)" by (simp add: c b1)
  then obtain d2 where d2: "dst b2 = Some (a, d2)" "length d2 = length d"
    "take (k + COLLECTION_HDR_SIZE + length p) d2 = take (k + COLLECTION_HDR_SIZE) (put_bytes k hdr d) @ p"
    using e k hdr by auto
  have lpm: "length pm = n" using cs codec.length_next_model [of cs big]
    by (simp add: payload_model_def pm_def)
  have "b2\<lparr>dst := dst c\<rparr> = put_model cfg 0 pm c"
    using e [folded pm_def] cs lpm by (simp add: with_next_model_put) (simp add: put_model_def)
  then have "b2 = (put_model cfg 0 pm c)\<lparr>dst := Some (a, d2)\<rparr>"
    using d2(1) by (metis cmp_bufs.surjective cmp_bufs.update_convs(2) cmp_bufs.select_convs(2))
  then have b2: "b2 = (put_model cfg 0 pm (skip_bufs COLLECTION_HDR_SIZE 0 COLLECTION_HDR_SIZE b1))\<lparr>dst := Some (a, d2)\<rparr>"
    unfolding c .
  have "dst b1 = Some (a, put_bytes k hdr d)" by (simp add: b1)
  then have "rejoin_bufs 0 COLLECTION_HDR_SIZE b2 b1 =
      (put_model cfg COLLECTION_HDR_SIZE pm b1)\<lparr>dst := Some (a, d2)\<rparr>"
    unfolding b2 skip_rejoin_put [OF models(2)] by (simp add: rejoin_ptr_0)
  also have "\<dots> = (put_model cfg COLLECTION_HDR_SIZE pm (put_model cfg 0 hdr b))\<lparr>dst := Some (a, d2)\<rparr>"
    unfolding b1 put_model_dst by simp
  also have "\<dots> = (put_model cfg 0 (hdr @ pm) b)\<lparr>dst := Some (a, d2)\<rparr>"
    by (simp add: put_model_append [OF models(1) hdr])
  finally show ?thesis using d2(2,3) k hdr that by (simp add: put_bytes_def pm_def)
qed

lemma put_model_same: "dst b = p \<Longrightarrow> (put_model cfg k xs b)\<lparr>dst := p\<rparr> = put_model cfg k xs b"
  by (metis cmp_bufs.surjective cmp_bufs.update_convs(2) dst_put_model(1))

lemma take_put_bytes:
  assumes pre: "take (k + j + n) d2 = take (k + j) d @ ys" and len: "length xs = j" "k + j + n \<le> length d2" "length d2 = length d"
  shows "take (k + j + n) (put_bytes k xs d2) = take k d @ xs @ ys"
proof -
  have "take k d2 = take k (take (k + j + n) d2)" by (simp add: min_def)
  then have t: "take k d2 = take k d" unfolding pre using len by (simp add: min_def)
  have "drop (k + j) (take (k + j + n) d2) = ys" unfolding pre using len by simp
  then have d: "take n (drop (k + j) d2) = ys" by (simp add: drop_take)
  have "take (k + j + n) (put_bytes k xs d2) = take k d2 @ xs @ take n (drop (k + j) d2)"
    using len by (simp add: put_bytes_def)
  then show ?thesis by (simp only: t d)
qed

lemma collection_writtenI:
  assumes "payload_ok big (col_cfg big cfg (bytes_at (src b))) (drop COLLECTION_HDR_SIZE (bytes_at (src b)))
      (drop COLLECTION_HDR_SIZE (bytes_at (model_buf b))) p"
    and "cmp_mode cfg = CMP_MODE_RAW \<longrightarrow> length p = data_bytes (col_cfg big cfg (bytes_at (src b)))"
    and "\<not> cmp_is_error l" and "unat l = ds + length (compressed_entry cfg (take COLLECTION_HDR_SIZE (bytes_at (src b))) p)"
    and "dst b = Some (a, d)" and "length d' = length d"
    and "take (ds + length (compressed_entry cfg (take COLLECTION_HDR_SIZE (bytes_at (src b))) p)) d' =
      take ds d @ compressed_entry cfg (take COLLECTION_HDR_SIZE (bytes_at (src b))) p"
    and "b' = (put_model cfg 0 (take COLLECTION_HDR_SIZE (bytes_at (src b)) @
        payload_model big (col_cfg big cfg (bytes_at (src b))) (drop COLLECTION_HDR_SIZE (bytes_at (src b)))
          (drop COLLECTION_HDR_SIZE (bytes_at (model_buf b))) p) b)\<lparr>dst := Some (a, d')\<rparr>"
  shows "collection_written big cfg ds p b l b'"
  using assms put_model_same [OF assms(5), of cfg 0]
  by (simp add: collection_written_def Let_def del: length_append)

lemma length_entry:
  "length hdr = COLLECTION_HDR_SIZE \<Longrightarrow> length (compressed_entry cfg hdr p) = field_size cfg + COLLECTION_HDR_SIZE + length p"
  by (simp add: compressed_entry_def field_size_def CMP_COLLECTION_FILD_SIZE_def)

lemma payload_size_word:
  assumes "unat (x :: u32) = unat ds + 2 + COLLECTION_HDR_SIZE + n" and "n < 2 ^ 16"
  shows "unat (x - ds - word_of_nat COLLECTION_HDR_SIZE - word_of_nat CMP_COLLECTION_FILD_SIZE) = n"
proof -
  have "x = word_of_nat (unat x)" by simp
  also have "\<dots> = ds + word_of_nat 2 + word_of_nat COLLECTION_HDR_SIZE + word_of_nat n"
    unfolding assms(1) by simp
  finally have "x - ds - word_of_nat COLLECTION_HDR_SIZE - word_of_nat CMP_COLLECTION_FILD_SIZE = word_of_nat n"
    by (simp add: CMP_COLLECTION_FILD_SIZE_def)
  then show ?thesis using assms(2) by simp
qed

lemma cmp_collection_ok:
  fixes big :: bool and b :: cmp_bufs and cfg :: cmp_cfg and cap :: u32
  assumes ok: "collection_ok big (bytes_at (src b))" and ds: "unat ds < 2 ^ 28 - 2 ^ 17"
    and models: "models_ok (COLLECTION_HDR_SIZE + col_length big (bytes_at (src b))) cfg b"
    and dst: "dst b = Some (a, d)" and cap: "unat cap \<le> length d"
  shows "\<exists>l cfg' b'. cmp_collection big b cap cfg ds = Some (l, cfg', b') \<and>
    same_coding (col_cfg big cfg (bytes_at (src b))) cfg' \<and>
    (l = cmp_cfg_icu_is_invalid_error_code (Some ((col_cfg big cfg (bytes_at (src b)))\<lparr>stream_size := cap\<rparr>))
        (skip_bufs COLLECTION_HDR_SIZE 0 COLLECTION_HDR_SIZE b) \<and> cmp_is_error l \<or>
     l = CMP_ERROR CMP_ERROR_SMALL_BUFFER \<and>
       unat cap < unat ds + field_size cfg + COLLECTION_HDR_SIZE + col_length big (bytes_at (src b)) \<or>
     cfg_valid (col_cfg big cfg (bytes_at (src b))) \<and> (\<exists>p. collection_written big cfg (unat ds) p b l b'))"
proof -
  let ?col = "bytes_at (src b)"
  let ?cc = "col_cfg big cfg ?col"
  let ?cs = "?cc\<lparr>stream_size := cap\<rparr>"
  let ?err = "cmp_cfg_icu_is_invalid_error_code (Some ?cs) (skip_bufs COLLECTION_HDR_SIZE 0 COLLECTION_HDR_SIZE b)"
  let ?hdr = "take COLLECTION_HDR_SIZE ?col"
  show ?thesis
  proof (cases "cmp_is_error ?err")
    case True
    then show ?thesis using cmp_collection_checked [OF ok True] by (intro exI [of _ ?err] exI [of _ ?cs] exI [of _ b]) simp
  next
    case good: False
    have valid: "cfg_valid ?cc" using cmp_cfg_check_valid [OF good] by simp
    obtain len where len: "unat len = col_length big ?col" "cmp_col_get_data_length big ?col = Some len"
      using collection_getters [OF ok] by metis
    note run = cmp_collection_header [OF ok ds models dst cap good len]
    show ?thesis
    proof (cases "unat cap < unat ds + field_size cfg + COLLECTION_HDR_SIZE")
      case True
      then show ?thesis using run by (intro exI [of _ "CMP_ERROR CMP_ERROR_SMALL_BUFFER"] exI [of _ ?cs] exI [of _ b]) simp
    next
      case room: False
      define b1 where "b1 = with_header cfg (unat ds + field_size cfg) b"
      define c where "c = skip_bufs COLLECTION_HDR_SIZE 0 COLLECTION_HDR_SIZE b1"
      define ds' where "ds' = ds + word_of_nat (field_size cfg) + word_of_nat COLLECTION_HDR_SIZE"
      have room': "unat ds + field_size cfg + COLLECTION_HDR_SIZE \<le> unat cap" using room by simp
      note r = collection_room [OF ok ds models dst cap room' valid b1_def ds'_def refl c_def]
      have n: "unat len = data_bytes ?cs" using len(1) ok by (simp add: data_bytes_col_cfg)
      have "unat ds' \<le> unat cap" "unat cap \<le> length (put_bytes (unat ds + field_size cfg) ?hdr d)"
        using room' cap ok r(2) by (simp_all add: collection_ok_def)
      note data = cmp_collection_data_ok [OF r(1,3) n this, of big]
      obtain l cfg' b2 where data: "cmp_collection_data big ?cs cap ds' len c = Some (l, cfg', b2)"
        and sc: "same_coding ?cs cfg'"
        and cases: "l = CMP_ERROR CMP_ERROR_SMALL_BUFFER \<and> unat cap < unat ds' + data_bytes ?cs \<or>
          (\<exists>p. (cmp_mode ?cs = CMP_MODE_RAW \<longrightarrow> length p = data_bytes ?cs) \<and> entry_written big ?cs (unat ds') p c l b2)"
        using data by blast
      have sc': "same_coding ?cc cfg'" by (rule same_coding_trans [OF same_coding_stream_size sc])
      have mode: "cmp_mode cfg' = cmp_mode cfg" using same_coding_eqs(2) [OF sc] by (simp add: col_cfg_def)
      let ?b2 = "rejoin_bufs 0 COLLECTION_HDR_SIZE b2 b1"
      show ?thesis
      proof (cases "cmp_is_error l")
        case True
        then have "l = CMP_ERROR CMP_ERROR_SMALL_BUFFER \<and> unat cap < unat ds' + data_bytes ?cs"
          using cases by (auto simp: entry_written_def)
        moreover have "cmp_collection big b cap cfg ds = Some (l, cfg', ?b2)"
          using run room True data by (simp add: b1_def [symmetric] c_def [symmetric] ds'_def [symmetric])
        ultimately show ?thesis using sc' r(2) n len(1) by (intro exI [of _ l] exI [of _ cfg'] exI [of _ ?b2]) simp
      next
        case False
        then obtain p where p: "cmp_mode ?cs = CMP_MODE_RAW \<longrightarrow> length p = data_bytes ?cs"
          and w: "entry_written big ?cs (unat ds') p c l b2" using cases by auto
        define pm where "pm = payload_model big ?cs (bytes_at (src c)) (bytes_at (model_buf c)) p"
        have w': "entry_written big ?cs (unat ds + field_size cfg + COLLECTION_HDR_SIZE) p c l b2" using w r(2) by simp
        have lh: "length ?hdr = COLLECTION_HDR_SIZE" using ok by (simp add: collection_ok_def)
        have cs: "cmp_mode ?cs = cmp_mode cfg" "data_bytes ?cs = col_length big ?col" "data_type ?cs \<in> coded_types"
          "col_length big ?col \<le> length (bytes_at (src c))"
          using ok by (simp_all add: data_bytes_col_cfg r(5)) (simp_all add: col_cfg_def collection_ok_def, linarith)
        obtain d2 where b2: "?b2 = (put_model cfg 0 (?hdr @ pm) b)\<lparr>dst := Some (a, d2)\<rparr>" and ld: "length d2 = length d"
          and d2: "take (unat ds + field_size cfg + COLLECTION_HDR_SIZE + length p) d2 = take (unat ds + field_size cfg) d @ ?hdr @ p"
          by (rule collection_behind_header [OF models r(7) lh r(4) order_trans [OF room' cap] c_def w' cs, folded pm_def])
        have bytes: "unat (cmp_bit_to_byte l) = unat ds + field_size cfg + COLLECTION_HDR_SIZE + length p"
          using w' by (simp add: entry_written_def)
        have dt: "data_type ?cc \<in> coded_types" using ok by (simp add: col_cfg_def collection_ok_def)
        have "payload_ok big ?cs (bytes_at (src c)) (bytes_at (model_buf c)) p" using w' by (simp only: entry_written_def)
        then have ok_p: "payload_ok big ?cc (drop COLLECTION_HDR_SIZE ?col) (drop COLLECTION_HDR_SIZE (bytes_at (model_buf b))) p"
          unfolding r(5,6) payload_stream_size(1) [OF dt] .
        have pm: "pm = payload_model big ?cc (drop COLLECTION_HDR_SIZE ?col) (drop COLLECTION_HDR_SIZE (bytes_at (model_buf b))) p"
          unfolding pm_def r(5,6) payload_stream_size(2) [OF dt] ..
        have lp: "length p \<le> col_length big ?col" using payload_length [OF ok_p] ok by (simp add: data_bytes_col_cfg)
        have f: "field_size cfg \<le> 2" by (simp add: field_size_def CMP_COLLECTION_FILD_SIZE_def)
        have ne: "\<not> cmp_is_error (cmp_bit_to_byte l)"
          using ds lp col_length_less [of big ?col] f unfolding cmp_is_error_iff bytes by (simp add: COLLECTION_HDR_SIZE_def)
        have raw: "cmp_mode cfg = CMP_MODE_RAW \<longrightarrow> length p = data_bytes ?cc" using p by (simp add: col_cfg_def data_bytes_def)
        show ?thesis
        proof (cases "cmp_mode cfg = CMP_MODE_RAW")
          case True
          then have f0: "field_size cfg = 0" by (simp add: field_size_def)
          have "cmp_collection big b cap cfg ds = Some (cmp_bit_to_byte l, cfg', ?b2)"
            using run room False data True mode b2
            by (simp add: b1_def [symmetric] c_def [symmetric] ds'_def [symmetric])
          moreover have "collection_written big cfg (unat ds) p b (cmp_bit_to_byte l) ?b2"
            using bytes d2 True f0 b2 unfolding pm
            by (intro collection_writtenI [OF ok_p raw ne _ dst ld])
              (simp_all add: length_entry [OF lh] add.assoc, simp add: compressed_entry_def)
          ultimately show ?thesis using sc' valid by blast
        next
          case False
          let ?d = "put_bytes (unat ds) (be_bytes 2 (word_of_nat (length p) :: u16)) d2"
          have f2: "field_size cfg = 2" using False by (simp add: field_size_def CMP_COLLECTION_FILD_SIZE_def)
          have small: "length p < 2 ^ 16" using lp col_length_less [of big ?col] by simp
          have "unat (cmp_bit_to_byte l - ds - word_of_nat COLLECTION_HDR_SIZE - word_of_nat CMP_COLLECTION_FILD_SIZE) = length p"
            using bytes by (intro payload_size_word [OF _ small]) (simp only: f2)
          note size = set_col_size_ok [OF this, of "unat ds" d2 big]
          have lim: "length p < 2 ^ 16" "unat ds + 2 \<le> length d2"
            using lp col_length_less [of big ?col] room' cap ld f2 by simp_all
          have "cmp_collection big b cap cfg ds = Some (cmp_bit_to_byte l, cfg', ?b2\<lparr>dst := Some (a, ?d)\<rparr>)"
            using run room \<open>\<not> cmp_is_error l\<close> data False mode b2 size [OF lim]
            by (simp add: b1_def [symmetric] c_def [symmetric] ds'_def [symmetric])
          moreover have fill: "unat ds + 2 + (COLLECTION_HDR_SIZE + length p) \<le> length d2"
            using arg_cong [OF d2, of length] lh lim f2 ld by simp
          moreover have entry: "take (unat ds + (field_size cfg + COLLECTION_HDR_SIZE + length p)) ?d =
              take (unat ds) d @ compressed_entry cfg ?hdr p"
            using take_put_bytes [of "unat ds" 2 "COLLECTION_HDR_SIZE + length p" d2 d "?hdr @ p"] d2 f2 lim ld False fill
            by (simp add: compressed_entry_def add.assoc)
          moreover have "collection_written big cfg (unat ds) p b (cmp_bit_to_byte l) (?b2\<lparr>dst := Some (a, ?d)\<rparr>)"
            using bytes b2 ld lim
            by (intro collection_writtenI [OF ok_p raw ne _ dst])
              (simp_all add: length_entry [OF lh] pm entry)
          ultimately show ?thesis using sc' valid by blast
        qed
      qed
    qed
  qed
qed

end
