(* ===== verification/Chunk_Endianness.thy ===== *)
theory Chunk_Endianness
  imports Byte_Swap Collection_Header
begin

text \<open>
  The byte order of the data of a chunk of collections: \<open>be_to_cpu_chunk\<close> and
  \<open>cmp_input_big_to_cpu_endianness\<close> of \<open>lib/common/cmp_data_types.c\<close>. The collection headers
  are big-endian everywhere and are not converted.
\<close>

section \<open>Conversion\<close>

function swap_collections :: "bool \<Rightarrow> nat \<Rightarrow> nat \<Rightarrow> buffer \<Rightarrow> (int \<times> buffer) option" where
  "swap_collections big chunk_size pos chunk =
     (if pos \<le> chunk_size - COLLECTION_HDR_SIZE then do {
        subservice \<leftarrow> cmp_col_get_subservice big (drop pos chunk);
        data_size \<leftarrow> cmp_col_get_data_length big (drop pos chunk);
        let entry = pos + COLLECTION_HDR_SIZE;
        if entry + unat data_size > chunk_size then Some (- 1, chunk)
        else do {
          (err, p) \<leftarrow> be_to_cpu_data_type big (Some (drop entry chunk)) (ucast data_size)
            (convert_subservice_to_cmp_data_type subservice);
          let chunk = take entry chunk @ (case p of None \<Rightarrow> [] | Some bs \<Rightarrow> bs);
          if err \<noteq> 0 then Some (- 1, chunk)
          else swap_collections big chunk_size (entry + unat data_size) chunk
        }
      }
      else Some (if pos \<noteq> chunk_size then - 1 else 0, chunk))"
  by pat_completeness auto

termination
  by (relation "measure (\<lambda>(_, chunk_size, pos, _). chunk_size + 1 - pos)") (auto simp: COLLECTION_HDR_SIZE_def)

declare swap_collections.simps [simp del]

definition be_to_cpu_chunk :: "bool \<Rightarrow> buffer option \<Rightarrow> nat \<Rightarrow> (int \<times> buffer option) option" where
  "be_to_cpu_chunk big chunk_p chunk_size = (case chunk_p of
       None \<Rightarrow> Some (0, None)
     | Some chunk \<Rightarrow>
         if chunk_size < COLLECTION_HDR_SIZE then Some (- 1, chunk_p)
         else map_option (\<lambda>(err, chunk). (err, Some chunk)) (swap_collections big chunk_size 0 chunk))"

definition cmp_input_big_to_cpu_endianness ::
  "bool \<Rightarrow> buffer option \<Rightarrow> u32 \<Rightarrow> cmp_data_type \<Rightarrow> (int \<times> buffer option) option" where
  "cmp_input_big_to_cpu_endianness big data data_size_byte t = (case data of
       None \<Rightarrow> be_to_cpu_data_type big None data_size_byte t
     | Some bs \<Rightarrow>
         if rdcu_supported_data_type_is_used t then be_to_cpu_data_type big data data_size_byte t
         else if data_size_byte < word_of_nat COLLECTION_HDR_SIZE then Some (- 1, data)
         else if length bs < COLLECTION_HDR_SIZE then None
         else map_option (\<lambda>(err, p). (err, map_option ((@) (take COLLECTION_HDR_SIZE bs)) p))
           (be_to_cpu_data_type big (Some (drop COLLECTION_HDR_SIZE bs))
             (data_size_byte - word_of_nat COLLECTION_HDR_SIZE) t))"

end
