(* ===== verification/Chunk_Decompress.thy ===== *)
theory Chunk_Decompress
  imports Compress_Internal Collection_Decompress Collection_Codec Chunk_Endianness Cmp_Entity
begin

text \<open>
  The decompression of a collection, of a compression entity and of the data of the hardware
  compressor: the functions of \<open>lib/decompress/decmp.c\<close> from \<open>decompress_collection_hdr\<close> on.
\<close>

section \<open>A collection\<close>

datatype decmp_type = ICU_DECOMRESSION | RDCU_DECOMPRESSION

definition decompress_collection_hdr :: "cmp_cfg \<Rightarrow> cmp_bufs \<Rightarrow> (int \<times> cmp_bufs) option" where
  "decompress_collection_hdr cfg b =
     (if stream_size cfg < word_of_nat COLLECTION_HDR_SIZE then Some (- 1, b)
      else if src b = None then Some (int COLLECTION_HDR_SIZE, b)
      else do {
        b \<leftarrow> (if dst b \<noteq> None then copy_to_dst COLLECTION_HDR_SIZE (src b) b else Some b);
        b \<leftarrow> (if model_mode_is_used (cmp_mode cfg) \<and> updated_model_buf b \<noteq> None
          then copy_to_updated_model COLLECTION_HDR_SIZE (src b) b else Some b);
        Some (int COLLECTION_HDR_SIZE, b)
      })"

text \<open>The routine of each data type.\<close>

definition decompress_by_type ::
  "bool \<Rightarrow> cmp_cfg \<Rightarrow> cmp_bufs \<Rightarrow> bit_decoder \<Rightarrow> (int \<times> cmp_bufs \<times> bit_decoder) option" where
  "decompress_by_type big cfg b dec =
     (let t = data_type cfg
      in if t \<in> {DATA_TYPE_IMAGETTE, DATA_TYPE_IMAGETTE_ADAPTIVE, DATA_TYPE_SAT_IMAGETTE,
            DATA_TYPE_SAT_IMAGETTE_ADAPTIVE, DATA_TYPE_F_CAM_IMAGETTE, DATA_TYPE_F_CAM_IMAGETTE_ADAPTIVE}
        then run_decoder big imagette_acc imagette_layout 0 (decompress_imagette cfg) b dec
        else if t = DATA_TYPE_S_FX then run_decoder big s_fx_acc s_fx_layout s_fx_zero (decompress_s_fx cfg) b dec
        else if t = DATA_TYPE_S_FX_EFX then run_decoder big s_fx_efx_acc s_fx_efx_layout s_fx_efx_zero (decompress_s_fx_efx cfg) b dec
        else if t = DATA_TYPE_S_FX_NCOB then run_decoder big s_fx_ncob_acc s_fx_ncob_layout s_fx_ncob_zero (decompress_s_fx_ncob cfg) b dec
        else if t = DATA_TYPE_S_FX_EFX_NCOB_ECOB then run_decoder big s_fx_efx_ncob_ecob_acc s_fx_efx_ncob_ecob_layout s_fx_efx_ncob_ecob_zero (decompress_s_fx_efx_ncob_ecob cfg) b dec
        else if t = DATA_TYPE_L_FX then run_decoder big l_fx_acc l_fx_layout l_fx_zero (decompress_l_fx cfg) b dec
        else if t = DATA_TYPE_L_FX_EFX then run_decoder big l_fx_efx_acc l_fx_efx_layout l_fx_efx_zero (decompress_l_fx_efx cfg) b dec
        else if t = DATA_TYPE_L_FX_NCOB then run_decoder big l_fx_ncob_acc l_fx_ncob_layout l_fx_ncob_zero (decompress_l_fx_ncob cfg) b dec
        else if t = DATA_TYPE_L_FX_EFX_NCOB_ECOB then run_decoder big l_fx_efx_ncob_ecob_acc l_fx_efx_ncob_ecob_layout l_fx_efx_ncob_ecob_zero (decompress_l_fx_efx_ncob_ecob cfg) b dec
        else if t = DATA_TYPE_OFFSET \<or> t = DATA_TYPE_F_CAM_OFFSET
        then run_decoder big offset_acc offset_layout offset_zero (decompress_offset cfg) b dec
        else if t = DATA_TYPE_BACKGROUND \<or> t = DATA_TYPE_F_CAM_BACKGROUND
        then run_decoder big background_acc background_layout background_zero (decompress_background cfg) b dec
        else if t = DATA_TYPE_SMEARING
        then run_decoder big smearing_acc smearing_layout smearing_zero (decompress_smearing cfg) b dec
        else Some (- 1, b, dec))"

text \<open>
  The source, destination and models of a collection begin with its header; the routines of the
  types work behind it. The stream is what is left of \<open>stream_size\<close> bytes. The refill at the end
  serves the messages about the rest of the stream.
\<close>

definition decompress_coded ::
  "bool \<Rightarrow> cmp_cfg \<Rightarrow> nat \<Rightarrow> cmp_bufs \<Rightarrow> (int \<times> cmp_bufs) option" where
  "decompress_coded big cfg hdr_size b =
     (let stream_len = unat (stream_size cfg - word_of_nat hdr_size);
          stream = drop hdr_size (bytes_at (src b))
      in if length stream < stream_len then None
         else do {
           dec \<leftarrow> bit_init_decoder (take stream_len stream);
           (err, b', dec) \<leftarrow> decompress_by_type big cfg (skip_bufs hdr_size hdr_size hdr_size b) dec;
           _ \<leftarrow> bit_refill dec;
           Some (err, rejoin_bufs hdr_size hdr_size b' b)
         })"

definition decompressed_data_internal ::
  "bool \<Rightarrow> cmp_cfg option \<Rightarrow> decmp_type \<Rightarrow> cmp_bufs \<Rightarrow> (int \<times> cmp_bufs) option" where
  "decompressed_data_internal big cfg_p decmp b = (case cfg_p of
       None \<Rightarrow> Some (- 1, b)
     | Some cfg \<Rightarrow>
       if src b = None then Some (- 1, b)
       else if cmp_cfg_gen_par_is_invalid cfg_p \<noteq> 0 then Some (- 1, b)
       else if (if cmp_imagette_data_type_is_used (data_type cfg) then cmp_cfg_imagette_is_invalid cfg_p
             else if cmp_fx_cob_data_type_is_used (data_type cfg) then cmp_cfg_fx_cob_is_invalid cfg_p
             else if cmp_aux_data_type_is_used (data_type cfg) then cmp_cfg_aux_is_invalid cfg_p
             else 1) \<noteq> 0 then Some (- 1, b)
       else if model_mode_is_used (cmp_mode cfg) \<and> model_buf b = None then Some (- 1, b)
       else
         let data_size = samples cfg * word_of_nat (size_of_a_sample (data_type cfg));
             data_size = (if decmp = ICU_DECOMRESSION then data_size + word_of_nat COLLECTION_HDR_SIZE else data_size)
         in if cmp_mode cfg = CMP_MODE_RAW then
              (if dst b = None then Some (sint data_size, b)
               else do {
                 b \<leftarrow> copy_to_dst (unat data_size) (src b) b;
                 (err, p) \<leftarrow> (case decmp of
                     ICU_DECOMRESSION \<Rightarrow> be_to_cpu_chunk big (Some (bytes_at (dst b))) (unat data_size)
                   | RDCU_DECOMPRESSION \<Rightarrow> be_to_cpu_data_type big (Some (bytes_at (dst b))) data_size (data_type cfg));
                 let b = b\<lparr>dst := with_bytes (case p of None \<Rightarrow> [] | Some bs \<Rightarrow> bs) (dst b)\<rparr>;
                 Some (if err \<noteq> 0 then - 1 else sint data_size, b)
               })
            else if dst b = None then Some (sint data_size, b)
            else do {
              (hdr_size, b) \<leftarrow> (if decmp = ICU_DECOMRESSION then decompress_collection_hdr cfg b else Some (0, b));
              if hdr_size < 0 then Some (- 1, b)
              else do {
                (err, b) \<leftarrow> decompress_coded big cfg (nat hdr_size) b;
                Some (if err \<noteq> 0 then - 1 else sint data_size, b)
              }
            })"

section \<open>The header of an entity\<close>

text \<open>
  The result is the error code, the configuration as far as it was set, and the offset of the
  data in the entity.
\<close>

definition read_imagette_pars :: "bool \<Rightarrow> buffer \<Rightarrow> cmp_cfg \<Rightarrow> cmp_cfg option" where
  "read_imagette_pars big e cfg = do {
     m \<leftarrow> cmp_ent_get_ima_golomb_par big (Some e);
     s \<leftarrow> cmp_ent_get_ima_spill big (Some e);
     Some (cfg\<lparr>cmp_par_1 := ucast m, spill_par_1 := ucast s\<rparr>)
   }"

definition read_non_imagette_pars :: "bool \<Rightarrow> buffer \<Rightarrow> cmp_cfg \<Rightarrow> cmp_cfg option" where
  "read_non_imagette_pars big e cfg = do {
     m1 \<leftarrow> cmp_ent_get_non_ima_cmp_par1 big (Some e);
     s1 \<leftarrow> cmp_ent_get_non_ima_spill1 big (Some e);
     m2 \<leftarrow> cmp_ent_get_non_ima_cmp_par2 big (Some e);
     s2 \<leftarrow> cmp_ent_get_non_ima_spill2 big (Some e);
     m3 \<leftarrow> cmp_ent_get_non_ima_cmp_par3 big (Some e);
     s3 \<leftarrow> cmp_ent_get_non_ima_spill3 big (Some e);
     m4 \<leftarrow> cmp_ent_get_non_ima_cmp_par4 big (Some e);
     s4 \<leftarrow> cmp_ent_get_non_ima_spill4 big (Some e);
     m5 \<leftarrow> cmp_ent_get_non_ima_cmp_par5 big (Some e);
     s5 \<leftarrow> cmp_ent_get_non_ima_spill5 big (Some e);
     m6 \<leftarrow> cmp_ent_get_non_ima_cmp_par6 big (Some e);
     s6 \<leftarrow> cmp_ent_get_non_ima_spill6 big (Some e);
     Some (cfg\<lparr>cmp_par_1 := ucast m1, spill_par_1 := s1, cmp_par_2 := ucast m2, spill_par_2 := s2,
       cmp_par_3 := ucast m3, spill_par_3 := s3, cmp_par_4 := ucast m4, spill_par_4 := s4,
       cmp_par_5 := ucast m5, spill_par_5 := s5, cmp_par_6 := ucast m6, spill_par_6 := s6\<rparr>)
   }"

definition cmp_ent_read_header ::
  "bool \<Rightarrow> buffer \<Rightarrow> cmp_cfg \<Rightarrow> (int \<times> cmp_cfg \<times> nat) option" where
  "cmp_ent_read_header big e cfg = do {
     t \<leftarrow> cmp_ent_get_data_type big (Some e);
     let cfg = cfg\<lparr>data_type := t\<rparr>;
     if t \<noteq> DATA_TYPE_CHUNK \<and> \<not> rdcu_supported_data_type_is_used t then Some (- 1, cfg, 0)
     else do {
       mode \<leftarrow> cmp_ent_get_cmp_mode big (Some e);
       let cfg = cfg\<lparr>cmp_mode := cmp_mode_of (ucast mode)\<rparr>;
       raw_bit \<leftarrow> cmp_ent_get_data_type_raw_bit big (Some e);
       if raw_bit \<noteq> (cmp_mode cfg = CMP_MODE_RAW) then Some (- 1, cfg, 0)
       else do {
         mv \<leftarrow> cmp_ent_get_model_value big (Some e);
         lossy \<leftarrow> cmp_ent_get_lossy_cmp_par big (Some e);
         size \<leftarrow> cmp_ent_get_cmp_data_size big (Some e);
         let cfg = cfg\<lparr>model_value := ucast mv, round_par := ucast lossy, stream_size := size\<rparr>;
         if cmp_cfg_gen_par_is_invalid (Some cfg) \<noteq> 0 then Some (- 1, cfg, 0)
         else do {
           org_size \<leftarrow> cmp_ent_get_original_size big (Some e);
           let hdr = word_of_nat COLLECTION_HDR_SIZE;
           let bad = (if t = DATA_TYPE_CHUNK
             then (stream_size cfg < hdr + word_of_nat CMP_COLLECTION_FILD_SIZE \<and> cmp_mode cfg \<noteq> CMP_MODE_RAW) \<or>
               (stream_size cfg < hdr \<and> cmp_mode cfg = CMP_MODE_RAW) \<or> org_size < hdr
             else org_size mod 2 \<noteq> 0);
           let cfg = cfg\<lparr>samples := (if t = DATA_TYPE_CHUNK \<or> org_size mod 2 \<noteq> 0 then 0 else org_size div 2)\<rparr>;
           if bad then Some (- 1, cfg, 0)
           else do {
             adr \<leftarrow> cmp_ent_get_data_buf_const big (Some e);
             let off = (case adr of None \<Rightarrow> 0 | Some a \<Rightarrow> unat a);
             _ \<leftarrow> cmp_ent_get_reserved big (Some e);
             if cmp_mode cfg = CMP_MODE_RAW then
               Some (if org_size \<noteq> size then - 1 else 0, cfg, off)
             else do {
               ent_size \<leftarrow> cmp_ent_get_size big (Some e);
               if cmp_ent_cal_hdr_size t (cmp_mode cfg = CMP_MODE_RAW) > ent_size then Some (- 1, cfg, off)
               else do {
                 cfg \<leftarrow> (if t = DATA_TYPE_CHUNK then read_non_imagette_pars big e cfg else read_imagette_pars big e cfg);
                 Some (0, cfg, off)
               }
             }
           }
         }
       }
     }
   }"

section \<open>The collections of an entity\<close>

definition get_cmp_collection_data_length :: "bool \<Rightarrow> buffer \<Rightarrow> u16 option" where
  "get_cmp_collection_data_length big cmp_col = map_option (be16_to_cpu big) (load_field big CMP_COLLECTION_FILD_SIZE 0 cmp_col)"

definition get_cmp_collection_size :: "bool \<Rightarrow> buffer \<Rightarrow> u32 option" where
  "get_cmp_collection_size big cmp_col = do {
     len \<leftarrow> get_cmp_collection_data_length big cmp_col;
     Some (word_of_nat CMP_COLLECTION_FILD_SIZE + word_of_nat COLLECTION_HDR_SIZE + ucast len)
   }"

lemma get_cmp_collection_size_pos:
  "get_cmp_collection_size big c = Some n \<Longrightarrow> 14 \<le> unat n"
proof -
  assume "get_cmp_collection_size big c = Some n"
  then obtain len :: u16 where n: "n = 14 + ucast len"
    by (auto simp: get_cmp_collection_size_def COLLECTION_HDR_SIZE_def CMP_COLLECTION_FILD_SIZE_def bind_eq_Some_conv)
  have "unat (ucast len :: u32) < 2 ^ 16" using unat_less_2p [of len] by (simp add: unat_ucast_wide)
  then have "unat (14 + ucast len :: u32) = 14 + unat (ucast len :: u32)" by (subst unat_add_small) simp_all
  then show ?thesis using n by simp
qed

function count_chunks :: "bool \<Rightarrow> buffer \<Rightarrow> nat \<Rightarrow> nat \<Rightarrow> nat \<Rightarrow> (nat \<times> nat) option" where
  "count_chunks big data cmp_data_size p n =
     (if p + COLLECTION_HDR_SIZE < cmp_data_size then do {
        s \<leftarrow> get_cmp_collection_size big (drop p data);
        count_chunks big data cmp_data_size (p + unat s) (n + 1)
      }
      else Some (p, n))"
  by pat_completeness auto

termination
  by (relation "measure (\<lambda>(_, _, cmp_data_size, p, _). cmp_data_size - p)")
    (use get_cmp_collection_size_pos in fastforce)+

declare count_chunks.simps [simp del]

definition get_num_of_chunks :: "bool \<Rightarrow> buffer \<Rightarrow> nat \<Rightarrow> u32 \<Rightarrow> int option" where
  "get_num_of_chunks big e off cmp_data_size = do {
     (p, n) \<leftarrow> count_chunks big (drop off e) (unat cmp_data_size) 0 0;
     Some (if p \<noteq> unat cmp_data_size then - 1 else int n)
   }"

text \<open>
  The position of the \<open>n\<close>th compressed collection in the data of the entity, and where its
  data go.
\<close>

fun find_collection :: "bool \<Rightarrow> buffer \<Rightarrow> nat \<Rightarrow> nat \<Rightarrow> nat \<Rightarrow> (nat \<times> nat) option" where
  "find_collection big data 0 pos decmp_pos = Some (pos, decmp_pos)"
| "find_collection big data (Suc n) pos decmp_pos = do {
     org \<leftarrow> cmp_col_get_size big (drop (pos + CMP_COLLECTION_FILD_SIZE) data);
     s \<leftarrow> get_cmp_collection_size big (drop pos data);
     find_collection big data n (pos + unat s) (decmp_pos + unat org)
   }"

text \<open>
  The result: the offset of the decompressed data or -1, the configuration, whether the
  collection is stored uncompressed, and the position of its header in the data of the entity.
\<close>

definition parse_cmp_collection ::
  "bool \<Rightarrow> buffer \<Rightarrow> nat \<Rightarrow> cmp_cfg \<Rightarrow> int \<Rightarrow> (int \<times> cmp_cfg \<times> bool \<times> nat) option" where
  "parse_cmp_collection big data n cfg decmp_size = do {
     (pos, decmp_pos) \<leftarrow> find_collection big data n 0 0;
     let col_hdr = drop (pos + CMP_COLLECTION_FILD_SIZE) data;
     cmp_data_size \<leftarrow> get_cmp_collection_data_length big (drop pos data);
     original_col_size \<leftarrow> cmp_col_get_data_length big col_hdr;
     if cmp_data_size > original_col_size then Some (- 1, cfg, False, 0)
     else do {
       let coll_uncompressed = (cmp_data_size = original_col_size);
       subservice \<leftarrow> cmp_col_get_subservice big col_hdr;
       let cfg = cfg\<lparr>stream_size := ucast cmp_data_size + word_of_nat COLLECTION_HDR_SIZE,
         data_type := convert_subservice_to_cmp_data_type subservice\<rparr>;
       let sample_size = size_of_a_sample (data_type cfg);
       if sample_size = 0 then Some (- 1, cfg, coll_uncompressed, pos + CMP_COLLECTION_FILD_SIZE)
       else if unat original_col_size mod sample_size \<noteq> 0 then Some (- 1, cfg, coll_uncompressed, pos + CMP_COLLECTION_FILD_SIZE)
       else
         let cfg = cfg\<lparr>samples := word_of_nat (unat original_col_size div sample_size)\<rparr>
         in if int decmp_pos + int (unat original_col_size) + int COLLECTION_HDR_SIZE > decmp_size
            then Some (- 1, cfg, coll_uncompressed, pos + CMP_COLLECTION_FILD_SIZE)
            else Some (int decmp_pos, cfg, coll_uncompressed, pos + CMP_COLLECTION_FILD_SIZE)
     }
   }"

section \<open>An entity\<close>

text \<open>
  One turn of the loop over the collections. The source is the entity, whose data begin at
  \<open>off\<close>; the result is negative on a failure.
\<close>

definition decompress_nth_collection ::
  "bool \<Rightarrow> nat \<Rightarrow> cmp_cfg \<Rightarrow> int \<Rightarrow> nat \<Rightarrow> cmp_bufs \<Rightarrow> (int \<times> cmp_bufs) option" where
  "decompress_nth_collection big off cfg decmp_size i b = do {
     (offset, cfg, col_uncompressed, src_pos) \<leftarrow>
       parse_cmp_collection big (drop off (bytes_at (src b))) i cfg decmp_size;
     if offset < 0 then Some (- 1, b)
     else do {
       let pos = nat offset;
       let c = skip_bufs (off + src_pos) pos pos b;
       (err, c) \<leftarrow> (if col_uncompressed \<and> updated_model_buf c \<noteq> None \<and> model_mode_is_used (cmp_mode cfg) then do {
           c \<leftarrow> copy_to_updated_model (unat (stream_size cfg)) (src c) c;
           (err, p) \<leftarrow> be_to_cpu_chunk big (Some (bytes_at (updated_model_buf c))) (unat (stream_size cfg));
           Some (err, set_updated_model (case p of None \<Rightarrow> [] | Some bs \<Rightarrow> bs) c)
         } else Some (0, c));
       if err \<noteq> 0 then Some (- 1, rejoin_bufs pos pos c b)
       else do {
         let cfg = (if col_uncompressed then cfg\<lparr>cmp_mode := CMP_MODE_RAW\<rparr> else cfg);
         (r, c) \<leftarrow> decompressed_data_internal big (Some cfg) ICU_DECOMRESSION c;
         Some (r, rejoin_bufs pos pos c b)
       }
     }
   }"

fun decompress_collections ::
  "bool \<Rightarrow> nat \<Rightarrow> cmp_cfg \<Rightarrow> int \<Rightarrow> nat \<Rightarrow> nat \<Rightarrow> cmp_bufs \<Rightarrow> (int \<times> cmp_bufs) option" where
  "decompress_collections big off cfg decmp_size i 0 b = Some (decmp_size, b)"
| "decompress_collections big off cfg decmp_size i (Suc n) b = do {
     (r, b) \<leftarrow> decompress_nth_collection big off cfg decmp_size i b;
     if r < 0 then Some (r, b) else decompress_collections big off cfg decmp_size (i + 1) n b
   }"

text \<open>The source is the entity; the configuration starts with all bytes zero.\<close>

definition decompress_cmp_entiy :: "bool \<Rightarrow> cmp_bufs \<Rightarrow> (int \<times> cmp_bufs) option" where
  "decompress_cmp_entiy big b = (case src b of
       None \<Rightarrow> Some (- 1, b)
     | Some (_, e) \<Rightarrow> do {
         org \<leftarrow> cmp_ent_get_original_size big (Some e);
         let decmp_size = sint org;
         if decmp_size < 0 then Some (- 1, b)
         else if decmp_size = 0 then Some (0, b)
         else do {
           (err, cfg, off) \<leftarrow> cmp_ent_read_header big e cmp_cfg_zero;
           if err \<noteq> 0 then Some (- 1, b)
           else if data_type cfg \<noteq> DATA_TYPE_CHUNK then
             (if cmp_mode cfg = CMP_MODE_RAW then
                let data_size = samples cfg * 2
                in if dst b = None then Some (sint data_size, b)
                   else do {
                     b \<leftarrow> copy_to_dst (unat data_size) (skip_ptr off (src b)) b;
                     (err, p) \<leftarrow> cmp_input_big_to_cpu_endianness big (Some (bytes_at (dst b))) data_size (data_type cfg);
                     let b = b\<lparr>dst := with_bytes (case p of None \<Rightarrow> [] | Some bs \<Rightarrow> bs) (dst b)\<rparr>;
                     Some (if err \<noteq> 0 then - 1 else sint data_size, b)
                   }
              else do {
                (r, c) \<leftarrow> decompressed_data_internal big (Some cfg) RDCU_DECOMPRESSION (skip_bufs off 0 0 b);
                Some (r, rejoin_bufs 0 0 c b)
              })
           else if cmp_mode cfg = CMP_MODE_RAW then
             (if dst b = None then Some (sint (stream_size cfg), b)
              else do {
                b \<leftarrow> copy_to_dst (unat (stream_size cfg)) (skip_ptr off (src b)) b;
                (_, p) \<leftarrow> be_to_cpu_chunk big (Some (bytes_at (dst b))) (unat (stream_size cfg));
                let b = b\<lparr>dst := with_bytes (case p of None \<Rightarrow> [] | Some bs \<Rightarrow> bs) (dst b)\<rparr>;
                Some (sint (stream_size cfg), b)
              })
           else do {
             n_chunks \<leftarrow> get_num_of_chunks big e off (stream_size cfg);
             if n_chunks \<le> 0 then Some (- 1, b)
             else decompress_collections big off cfg decmp_size 0 (nat n_chunks) b
           }
         }
       })"

section \<open>Data of the hardware compressor\<close>

definition decompress_rdcu_data :: "bool \<Rightarrow> cmp_info option \<Rightarrow> cmp_bufs \<Rightarrow> (int \<times> cmp_bufs) option" where
  "decompress_rdcu_data big info_p b = (case (src b, info_p) of
       (None, _) \<Rightarrow> Some (- 1, b)
     | (_, None) \<Rightarrow> Some (- 1, b)
     | (_, Some info) \<Rightarrow>
         if cmp_err info \<noteq> 0 then Some (- 1, b)
         else decompressed_data_internal big
           (Some (cmp_cfg_zero\<lparr>data_type := DATA_TYPE_IMAGETTE, cmp_mode := cmp_mode_of (cmp_mode_used info),
              model_value := ucast (model_value_used info), round_par := ucast (round_used info),
              spill_par_1 := spill_used info, cmp_par_1 := golomb_par_used info,
              samples := samples_used info, stream_size := (cmp_size info + 7) div 8\<rparr>))
           RDCU_DECOMPRESSION b)"

end
