(* ===== verification/Collection_Round.thy ===== *)
theory Collection_Round
  imports Collection_Written Chunk_Decompress
begin

text \<open>
  The decompression of one collection: what the decompressor makes of the entry that the
  compressor has written, for coded and for raw payloads.
\<close>

section \<open>Coded payloads\<close>

lemma decompress_by_type_ops:
  "data_type cfg \<in> coded_types \<Longrightarrow>
     decompress_by_type big cfg b dec = op_decompress (coded_ops big (data_type cfg)) cfg b dec"
  by (cases "data_type cfg")
    (simp_all add: coded_types_def coded_ops_def decompress_by_type_def ops_of_def
      decompress_imagette_def decompress_s_fx_def decompress_s_fx_efx_def decompress_s_fx_ncob_def
      decompress_s_fx_efx_ncob_ecob_def decompress_l_fx_def decompress_l_fx_efx_def decompress_l_fx_ncob_def
      decompress_l_fx_efx_ncob_ecob_def decompress_offset_def decompress_background_def decompress_smearing_def)

lemma decoder_of_code:
  assumes "holds_code code p"
  obtains dec rest where "bit_init_decoder p = Some dec" and "ready_at dec (code @ rest)"
proof -
  obtain dec where "bit_init_decoder p = Some dec" "ready dec" "remaining dec = bits_of_bytes p"
    using bit_init_decoder_ready [of p] by blast
  moreover have "bits_of_bytes p = code @ drop (length code) (bits_of_bytes p)"
    using assms by (metis append_take_drop_id holds_code_def)
  ultimately show ?thesis using that by (simp add: ready_at_def)
qed

lemma refill_ready: "ready_at dec rest \<Longrightarrow> \<exists>r. bit_refill dec = Some r"
  using bit_refill_safe [of dec] by (auto simp: ready_at_def ready_def)

lemma decompress_coded_ok:
  fixes big :: bool
  assumes coding: "coding_cfg cc" "data_type cc \<in> coded_types" and sc: "same_coding cc cfg'" "samples cfg' = samples cc"
    and n: "data_bytes cc = n"
    and src: "bytes_at (src b) = hdr @ p @ rest" "length hdr = h"
    and st: "unat (stream_size cfg' - word_of_nat h) = length p"
    and s: "n \<le> length s" and models: "models_ok (h + n) cc b" and dst: "dst b = Some (a, d)" "h + n \<le> length d"
    and code: "holds_code (codes big cc s (drop h (bytes_at (model_buf b)))) p"
  shows "decompress_coded big cfg' h b =
    Some (0, (put_model cc h (next_model big cc s (drop h (bytes_at (model_buf b)))) b)
      \<lparr>dst := Some (a, put_bytes h (op_lossy (coded_ops big (data_type cc)) cc s) d)\<rparr>)"
proof -
  let ?c = "skip_bufs h h h b"
  let ?ops = "coded_ops big (data_type cc)"
  let ?nm = "next_model big cc s (drop h (bytes_at (model_buf b)))" and ?ls = "op_lossy ?ops cc s"
  have t: "data_type cfg' = data_type cc" using same_coding_eqs(1) [OF sc(1)] .
  obtain dec r where dec: "bit_init_decoder p = Some dec" and at: "ready_at dec (codes big cc s (bytes_at (model_buf ?c)) @ r)"
    using decoder_of_code [OF code] by (metis bytes_at_skip skip_bufs_simps(3))
  have mc: "models_ok (data_bytes cc) cc ?c" unfolding n by (rule models_ok_skip [OF models])
  have dc: "bytes_at (dst ?c) = drop h d" by (simp add: dst(1)) (simp add: bytes_at_def)
  then have room: "data_bytes cc \<le> length (bytes_at (dst ?c))" using dst(2) n by simp
  have s': "data_bytes cc \<le> length s" using s n by simp
  obtain dec' where run: "op_decompress ?ops cfg' ?c dec = Some (0, with_next_model (data_bytes cc) cc ?nm
        (?c\<lparr>dst := with_bytes (?ls @ drop (data_bytes cc) (bytes_at (dst ?c))) (dst ?c)\<rparr>), dec')"
    and fin: "ready_at dec' r"
    using codec.decompress_reads [OF coding(2,1) sc s' mc room at] by auto
  obtain x where x: "bit_refill dec' = Some x" using refill_ready [OF fin] by blast
  have lens: "length ?ls = n" "length ?nm = n"
    using codec.length_lossy [OF coding(2)] codec.length_next_model [OF coding(2)] n by simp_all
  have "with_next_model (data_bytes cc) cc ?nm (?c\<lparr>dst := with_bytes (?ls @ drop (data_bytes cc) (bytes_at (dst ?c))) (dst ?c)\<rparr>) =
      (put_model cc 0 ?nm ?c)\<lparr>dst := with_bytes (put_bytes 0 ?ls (drop h d)) (skip_ptr h (dst b))\<rparr>"
    using lens n by (simp only: dc) (simp add: with_next_model_put put_model_dst put_bytes_def)
  then have "decompress_by_type big cfg' ?c dec = Some (0, (put_model cc 0 ?nm ?c)
      \<lparr>dst := with_bytes (put_bytes 0 ?ls (drop h d)) (skip_ptr h (dst b))\<rparr>, dec')"
    using run coding(2) by (simp only: decompress_by_type_ops t)
  moreover have "rejoin_bufs h h ((put_model cc 0 ?nm ?c)\<lparr>dst := with_bytes (put_bytes 0 ?ls (drop h d)) (skip_ptr h (dst b))\<rparr>) b =
      (put_model cc h ?nm b)\<lparr>dst := Some (a, put_bytes h ?ls d)\<rparr>"
    by (simp add: skip_rejoin_put [OF models] rejoin_bytes)
      (simp add: dst(1) bytes_at_def with_bytes_def put_bytes_skip)
  ultimately show ?thesis
    using dec x src st by (simp add: decompress_coded_def Let_def split_beta)
qed


section \<open>Raw payloads\<close>

text \<open>A collection of exactly the size that its header says.\<close>

definition exact_collection :: "bool \<Rightarrow> buffer \<Rightarrow> bool" where
  "exact_collection big col \<longleftrightarrow> collection_ok big col \<and> length col = COLLECTION_HDR_SIZE + col_length big col"

lemma get_be16_append: "off + 2 \<le> length xs \<Longrightarrow> get_be16 big off (xs @ ys) = get_be16 big off xs"
  by (simp add: get_be16_def load_field_def)

lemma col_append [simp]:
  assumes "COLLECTION_HDR_SIZE \<le> length col"
  shows "col_length big (col @ rest) = col_length big col" and "col_type big (col @ rest) = col_type big col"
    and "cmp_col_get_subservice big (col @ rest) = cmp_col_get_subservice big col"
    and "cmp_col_get_data_length big (col @ rest) = cmp_col_get_data_length big col"
proof -
  have "10 + 2 \<le> length col" "8 + 2 \<le> length col" using assms by (simp_all add: COLLECTION_HDR_SIZE_def)
  note e = this [THEN get_be16_append]
  show "cmp_col_get_subservice big (col @ rest) = cmp_col_get_subservice big col"
    and "cmp_col_get_data_length big (col @ rest) = cmp_col_get_data_length big col"
    by (simp_all add: cmp_col_get_subservice_def cmp_col_get_data_length_def e)
  then show "col_length big (col @ rest) = col_length big col" and "col_type big (col @ rest) = col_type big col"
    by (simp_all add: col_length_def col_type_def)
qed

text \<open>A collection with the byte order of its data changed.\<close>

definition swapped :: "bool \<Rightarrow> buffer \<Rightarrow> buffer" where
  "swapped big col = take COLLECTION_HDR_SIZE col @ raw_data big (col_type big col) (drop COLLECTION_HDR_SIZE col)"

lemma length_swapped [simp]: "COLLECTION_HDR_SIZE \<le> length col \<Longrightarrow> length (swapped big col) = length col"
  by (simp add: swapped_def)

lemma swap_one:
  assumes ex: "exact_collection big col" and p: "length pre = pos"
    and room: "pos + length col \<le> k"
  shows "swap_collections big k pos (pre @ col @ rest) =
    swap_collections big k (pos + length col) (pre @ swapped big col @ rest)"
proof -
  have ok: "collection_ok big col" and l: "length col = COLLECTION_HDR_SIZE + col_length big col"
    using ex by (simp_all add: exact_collection_def)
  obtain len ss where h: "cmp_col_get_data_length big col = Some len" "unat len = col_length big col"
    "cmp_col_get_subservice big col = Some ss" "convert_subservice_to_cmp_data_type ss = col_type big col"
    using collection_getters [OF ok] by metis
  have t: "col_type big col \<in> coded_types" and md: "col_length big col mod size_of_a_sample (col_type big col) = 0"
    using ok by (simp_all add: collection_ok_def)
  have u: "unat (ucast len :: u32) = length (drop COLLECTION_HDR_SIZE col)" using h(2) l by (simp add: unat_ucast_wide)
  have be: "be_to_cpu_data_type big (Some (drop COLLECTION_HDR_SIZE col @ rest)) (ucast len) (col_type big col) =
      Some (0, Some (raw_data big (col_type big col) (drop COLLECTION_HDR_SIZE col) @ rest))"
    using coded_type_size [OF t] md l by (intro be_to_cpu_data_type_prefix [OF _ _ u]) simp_all
  have "pos \<le> k - COLLECTION_HDR_SIZE" using room l by simp
  then show ?thesis
    using h l p room be
    by (subst swap_collections.simps) (simp add: Let_def swapped_def add.assoc)
qed

lemma swap_collections_all:
  assumes "\<forall>col \<in> set cols. exact_collection big col" and "length pre + length (concat cols) = k"
    and "COLLECTION_HDR_SIZE \<le> k"
  shows "swap_collections big k (length pre) (pre @ concat cols @ rest) =
    Some (0, pre @ concat (map (swapped big) cols) @ rest)"
  using assms
proof (induction cols arbitrary: pre)
  case Nil
  then have "\<not> k \<le> k - COLLECTION_HDR_SIZE" by (simp add: COLLECTION_HDR_SIZE_def)
  then show ?case using Nil by (subst swap_collections.simps) simp
next
  case (Cons col cols)
  have ex: "exact_collection big col" using Cons.prems(1) by simp
  then have l: "COLLECTION_HDR_SIZE \<le> length col" by (simp add: exact_collection_def)
  have "swap_collections big k (length pre) (pre @ concat (col # cols) @ rest) =
      swap_collections big k (length (pre @ swapped big col)) ((pre @ swapped big col) @ concat cols @ rest)"
    using swap_one [OF ex refl, of pre k "concat cols @ rest"] Cons.prems(2) l by simp
  also have "\<dots> = Some (0, (pre @ swapped big col) @ concat (map (swapped big) cols) @ rest)"
    using Cons.prems l by (intro Cons.IH) (auto simp: COLLECTION_HDR_SIZE_def)
  finally show ?case by simp
qed

section \<open>One collection\<close>

text \<open>The checks of the decompressor hold for a configuration that the compressor accepted.\<close>

lemma decompress_checks:
  assumes "cfg_valid cfg" and "data_type cfg \<in> coded_types"
  shows "cmp_cfg_gen_par_is_invalid (Some cfg) = 0"
    and "(if cmp_imagette_data_type_is_used (data_type cfg) then cmp_cfg_imagette_is_invalid (Some cfg)
      else if cmp_fx_cob_data_type_is_used (data_type cfg) then cmp_cfg_fx_cob_is_invalid (Some cfg)
      else if cmp_aux_data_type_is_used (data_type cfg) then cmp_cfg_aux_is_invalid (Some cfg)
      else 1) = 0"
proof -
  show "cmp_cfg_gen_par_is_invalid (Some cfg) = 0" using assms(1) by (simp add: cfg_valid_def)
  have "cmp_imagette_data_type_is_used (data_type cfg) \<or> cmp_fx_cob_data_type_is_used (data_type cfg) \<or>
      cmp_aux_data_type_is_used (data_type cfg)"
    using assms(2) by (cases "data_type cfg") (simp_all add: coded_types_def cmp_imagette_data_type_is_used_def
        rdcu_supported_data_type_is_used_def cmp_fx_cob_data_type_is_used_def cmp_aux_data_type_is_used_def)
  then show "(if cmp_imagette_data_type_is_used (data_type cfg) then cmp_cfg_imagette_is_invalid (Some cfg)
      else if cmp_fx_cob_data_type_is_used (data_type cfg) then cmp_cfg_fx_cob_is_invalid (Some cfg)
      else if cmp_aux_data_type_is_used (data_type cfg) then cmp_cfg_aux_is_invalid (Some cfg)
      else 1) = 0"
    using assms(1) by (auto simp: cfg_valid_def split: if_splits)
qed

lemma data_size_word:
  assumes "data_bytes cfg < 2 ^ 16"
  shows "unat (samples cfg * word_of_nat (size_of_a_sample (data_type cfg)) + word_of_nat COLLECTION_HDR_SIZE :: u32) =
      COLLECTION_HDR_SIZE + data_bytes cfg"
    and "sint (samples cfg * word_of_nat (size_of_a_sample (data_type cfg)) + word_of_nat COLLECTION_HDR_SIZE :: u32) =
      int (COLLECTION_HDR_SIZE + data_bytes cfg)"
proof -
  have "unat (samples cfg * word_of_nat (size_of_a_sample (data_type cfg)) :: u32) = data_bytes cfg"
    using assms by (intro data_bytes_raw) simp
  then show u: "unat (samples cfg * word_of_nat (size_of_a_sample (data_type cfg)) + word_of_nat COLLECTION_HDR_SIZE :: u32) =
      COLLECTION_HDR_SIZE + data_bytes cfg"
    using assms by (subst unat_add_small) (simp_all add: COLLECTION_HDR_SIZE_def)
  then show "sint (samples cfg * word_of_nat (size_of_a_sample (data_type cfg)) + word_of_nat COLLECTION_HDR_SIZE :: u32) =
      int (COLLECTION_HDR_SIZE + data_bytes cfg)"
    using assms by (simp add: sint_uint signed_take_bit_int_eq_self_iff uint_nat COLLECTION_HDR_SIZE_def del: of_nat_unat)
qed

lemma decompress_hdr_ok:
  assumes "word_of_nat COLLECTION_HDR_SIZE \<le> stream_size cfg" and "src b = Some (as, hdr @ rest)"
    and "length hdr = COLLECTION_HDR_SIZE" and "dst b = Some (a, d)" and "COLLECTION_HDR_SIZE \<le> length d"
    and "models_ok (COLLECTION_HDR_SIZE + n) cfg b"
  shows "decompress_collection_hdr cfg b = Some (int COLLECTION_HDR_SIZE,
    (put_model cfg 0 hdr b)\<lparr>dst := Some (a, put_bytes 0 hdr d)\<rparr>)"
proof -
  have sb: "bytes_at (src b) = hdr @ rest" "bytes_at (dst b) = d" using assms(2,4) by (simp_all add: bytes_at_def)
  have "copy_to_dst COLLECTION_HDR_SIZE (src b) b = Some (b\<lparr>dst := Some (a, put_bytes 0 hdr d)\<rparr>)"
    using assms(3-5) by (simp add: copy_to_dst_def sb(1)) (simp add: bytes_at_def store_put_bytes with_bytes_def)
  moreover have "copy_to_updated_model COLLECTION_HDR_SIZE (src b) (b\<lparr>dst := p\<rparr>) = Some ((put_model cfg 0 hdr b)\<lparr>dst := p\<rparr>)"
    if "model_mode_is_used (cmp_mode cfg)" "updated_model_buf b \<noteq> None" for p
    using assms(3,6) that
    by (simp add: copy_to_updated_model_def sb(1) store_put_bytes models_ok_def put_model_def set_updated_dst del: not_None_eq)
  moreover have "put_model cfg 0 hdr b = b" if "\<not> (model_mode_is_used (cmp_mode cfg) \<and> updated_model_buf b \<noteq> None)"
    using that by (cases "updated_model_buf b = None") (auto simp: put_model_def set_updated_None)
  ultimately show ?thesis
    using assms(1,2,4) unfolding decompress_collection_hdr_def
    by (cases "model_mode_is_used (cmp_mode cfg) \<and> updated_model_buf b \<noteq> None")
      (auto simp: word_less_nat_alt word_le_nat_alt linorder_not_less simp del: not_None_eq)
qed


lemma put_model_2: "models_ok n cfg b \<Longrightarrow> length xs \<le> n \<Longrightarrow>
    put_model cfg (length xs) ys (put_model cfg 0 xs b) = put_model cfg 0 (xs @ ys) b"
  by (rule put_model_append) simp_all

lemma decompress_entry_coded:
  fixes big :: bool
  assumes coding: "coding_cfg cc" "data_type cc \<in> coded_types" and sc: "same_coding cc cfg'" "samples cfg' = samples cc"
    and n: "data_bytes cc = n" "n < 2 ^ 16" and p: "length p < n"
    and st: "stream_size cfg' = word_of_nat (COLLECTION_HDR_SIZE + length p)"
    and src: "src b = Some (as, hdr @ p @ rest)" and hdr: "length hdr = COLLECTION_HDR_SIZE"
    and s: "n \<le> length s" and models: "models_ok (COLLECTION_HDR_SIZE + n) cc b" "model_mode_is_used (cmp_mode cc) \<Longrightarrow> model_buf b \<noteq> None"
    and dst: "dst b = Some (a, d)" "COLLECTION_HDR_SIZE + n \<le> length d"
    and code: "holds_code (codes big cc s (drop COLLECTION_HDR_SIZE (bytes_at (model_buf b)))) p"
  shows "decompressed_data_internal big (Some cfg') ICU_DECOMRESSION b =
    Some (int (COLLECTION_HDR_SIZE + n), (put_model cc 0
        (hdr @ next_model big cc s (drop COLLECTION_HDR_SIZE (bytes_at (model_buf b)))) b)
      \<lparr>dst := Some (a, put_bytes 0 (hdr @ op_lossy (coded_ops big (data_type cc)) cc s) d)\<rparr>)"
proof -
  note eqs = same_coding_eqs [OF sc(1)]
  let ?m = "drop COLLECTION_HDR_SIZE (bytes_at (model_buf b))"
  let ?nm = "next_model big cc s ?m" and ?ls = "op_lossy (coded_ops big (data_type cc)) cc s"
  have v: "cfg_valid cfg'" "data_type cfg' \<in> coded_types"
    using coding cfg_valid_coding [OF sc(1)] eqs by (simp_all add: coding_cfg_def)
  note checks = decompress_checks [OF v]
  have n': "data_bytes cfg' = n" using n sc(2) eqs by (simp add: data_bytes_def)
  have mode: "cmp_mode cfg' \<noteq> CMP_MODE_RAW" "cmp_mode cfg' = cmp_mode cc" using coding(1) eqs by (simp_all add: coding_cfg_def)
  note size = data_size_word [of cfg', unfolded n', OF n(2)]
  have small: "COLLECTION_HDR_SIZE + length p < 2 ^ 32" using p n(2) by (simp add: COLLECTION_HDR_SIZE_def)
  have ss: "unat (stream_size cfg') = COLLECTION_HDR_SIZE + length p" unfolding st by (rule unat_of_nat_small [OF small])
  have hle: "word_of_nat COLLECTION_HDR_SIZE \<le> stream_size cfg'"
    unfolding word_le_nat_alt ss by (simp add: COLLECTION_HDR_SIZE_def)
  then have sub: "unat (stream_size cfg' - word_of_nat COLLECTION_HDR_SIZE) = length p"
    by (subst unat_sub) (simp_all add: ss COLLECTION_HDR_SIZE_def)
  define b1 where "b1 = (put_model cfg' 0 hdr b)\<lparr>dst := Some (a, put_bytes 0 hdr d)\<rparr>"
  have m': "models_ok k cfg' x = models_ok k cc x" "put_model cfg' k y x = put_model cc k y x" for k x y
    using mode(2) by (simp_all add: models_ok_def put_model_def)
  have h: "decompress_collection_hdr cfg' b = Some (int COLLECTION_HDR_SIZE, b1)"
    unfolding b1_def by (rule decompress_hdr_ok [OF hle src hdr dst(1)]) (use dst models in \<open>simp_all add: m'\<close>)
  have b1: "bytes_at (src b1) = hdr @ p @ rest" "dst b1 = Some (a, put_bytes 0 hdr d)"
    by (simp_all add: b1_def src) (simp add: bytes_at_def)
  have mb: "drop COLLECTION_HDR_SIZE (bytes_at (model_buf b1)) = ?m"
    using drop_model_put [OF models(1), of 0 hdr COLLECTION_HDR_SIZE] hdr by (simp add: b1_def m')
  have mok: "models_ok (COLLECTION_HDR_SIZE + n) cc b1"
    using models_ok_put [OF models(1), of 0 hdr] hdr by (simp add: b1_def m' models_ok_def)
  have "decompress_coded big cfg' COLLECTION_HDR_SIZE b1 = Some (0, (put_model cc COLLECTION_HDR_SIZE ?nm b1)
      \<lparr>dst := Some (a, put_bytes COLLECTION_HDR_SIZE ?ls (put_bytes 0 hdr d))\<rparr>)"
    using decompress_coded_ok [OF coding sc n(1) b1(1) hdr sub s mok b1(2)] dst(2) code hdr mb by simp
  also have "put_bytes COLLECTION_HDR_SIZE ?ls (put_bytes 0 hdr d) = put_bytes 0 (hdr @ ?ls) d"
    using hdr dst(2) by (intro put_bytes_append) simp_all
  also have "(put_model cc COLLECTION_HDR_SIZE ?nm b1)\<lparr>dst := q\<rparr> = (put_model cc 0 (hdr @ ?nm) b)\<lparr>dst := q\<rparr>" for q
    using put_model_2 [OF models(1), of hdr ?nm] hdr by (simp add: b1_def m' put_model_dst)
  finally have c: "decompress_coded big cfg' COLLECTION_HDR_SIZE b1 = Some (0, (put_model cc 0 (hdr @ ?nm) b)
      \<lparr>dst := Some (a, put_bytes 0 (hdr @ ?ls) d)\<rparr>)" .
  show ?thesis
    using checks mode models(2) src dst(1) h c size(2)
    by (simp add: decompressed_data_internal_def Let_def del: not_None_eq)
qed


lemma bytes_at_Some [simp]: "bytes_at (Some (a, d)) = d"
  by (simp add: bytes_at_def)

lemma pars_raw [simp]: "cmp_pars_are_invalid m s CMP_MODE_RAW = 0"
  by (simp add: cmp_pars_are_invalid_def)

lemma cfg_valid_raw:
  assumes "cfg_valid cfg"
  shows "cfg_valid (cfg\<lparr>cmp_mode := CMP_MODE_RAW\<rparr>)"
proof -
  let ?raw = "cfg\<lparr>cmp_mode := CMP_MODE_RAW\<rparr>"
  have "cmp_cfg_gen_par_is_invalid (Some ?raw) = 0" if "cmp_cfg_gen_par_is_invalid (Some cfg) = 0"
    using that by (simp add: cmp_cfg_gen_par_is_invalid_def cmp_mode_is_supported_def model_mode_is_used_def split: if_splits)
  moreover have "cmp_cfg_imagette_is_invalid (Some ?raw) = 0" if "cmp_cfg_imagette_is_invalid (Some cfg) = 0"
    using that by (simp add: cmp_cfg_imagette_is_invalid_def split: if_splits)
  moreover have "cmp_cfg_fx_cob_is_invalid (Some ?raw) = 0" if "cmp_cfg_fx_cob_is_invalid (Some cfg) = 0"
    using that by (simp add: cmp_cfg_fx_cob_is_invalid_def Let_def split: if_splits)
  moreover have "cmp_cfg_aux_is_invalid (Some ?raw) = 0" if "cmp_cfg_aux_is_invalid (Some cfg) = 0"
    using that by (simp add: cmp_cfg_aux_is_invalid_def Let_def split: cmp_data_type.splits)
  ultimately show ?thesis using assms by (simp add: cfg_valid_def split: if_splits)
qed

lemma exact_same_header:
  assumes "exact_collection big (hdr @ x)" and "length hdr = COLLECTION_HDR_SIZE" and "length y = length x"
  shows "exact_collection big (hdr @ y)"
  using assms by (simp add: exact_collection_def collection_ok_def)

lemma swapped_hdr:
  assumes "length hdr = COLLECTION_HDR_SIZE"
  shows "swapped big (hdr @ x) = hdr @ raw_data big (col_type big hdr) x"
  using assms by (simp add: swapped_def)

lemma swap_all_0:
  assumes "\<forall>col \<in> set cols. exact_collection big col" and "length (concat cols) = k" and "COLLECTION_HDR_SIZE \<le> k"
  shows "be_to_cpu_chunk big (Some (concat cols @ rest)) k = Some (0, Some (concat (map (swapped big) cols) @ rest))"
  using swap_collections_all [of cols big "[]" k rest] assms by (simp add: be_to_cpu_chunk_def)

lemma decompress_entry_raw:
  fixes big :: bool
  assumes v: "cfg_valid cfg'" "data_type cfg' \<in> coded_types" and mode: "cmp_mode cfg' = CMP_MODE_RAW"
    and n: "data_bytes cfg' = n" "n < 2 ^ 16"
    and col: "exact_collection big (hdr @ x)" "length x = n" and hdr: "length hdr = COLLECTION_HDR_SIZE"
    and src: "src b = Some (as, hdr @ raw_data big (col_type big hdr) x @ rest)"
    and dst: "dst b = Some (a, d)" "COLLECTION_HDR_SIZE + n \<le> length d"
  shows "decompressed_data_internal big (Some cfg') ICU_DECOMRESSION b =
    Some (int (COLLECTION_HDR_SIZE + n), b\<lparr>dst := Some (a, put_bytes 0 (hdr @ x) d)\<rparr>)"
proof -
  note checks = decompress_checks [OF v]
  note size = data_size_word [of cfg', unfolded n(1), OF n(2)]
  let ?p = "raw_data big (col_type big hdr) x"
  let ?k = "COLLECTION_HDR_SIZE + n"
  have sb: "bytes_at (src b) = hdr @ ?p @ rest" "bytes_at (dst b) = d" by (simp_all add: src dst bytes_at_def)
  have copy: "copy_to_dst ?k (src b) b = Some (b\<lparr>dst := Some (a, (hdr @ ?p) @ drop ?k d)\<rparr>)"
    using hdr col(2) dst by (simp add: copy_to_dst_def sb store_bytes_def with_bytes_def)
  have ex: "exact_collection big (hdr @ ?p)" by (rule exact_same_header [OF col(1) hdr]) simp
  have "be_to_cpu_chunk big (Some (concat [hdr @ ?p] @ drop ?k d)) ?k =
      Some (0, Some (concat (map (swapped big) [hdr @ ?p]) @ drop ?k d))"
    using ex hdr col(2) by (intro swap_all_0) simp_all
  then have be: "be_to_cpu_chunk big (Some ((hdr @ ?p) @ drop ?k d)) ?k = Some (0, Some (hdr @ x @ drop ?k d))"
    by (simp add: swapped_hdr [OF hdr])
  have "model_mode_is_used CMP_MODE_RAW = False" by (simp add: model_mode_is_used_def)
  then show ?thesis
    using checks mode src dst copy be size hdr col(2)
    by (simp add: decompressed_data_internal_def Let_def with_bytes_def put_bytes_def bytes_at_def add.commute)
qed

end
