(* ===== verification/Chunk_Written.thy ===== *)
theory Chunk_Written
  imports Collection_Round
begin

text \<open>
  The compression of a chunk of collections: the loop of \<open>compress_chunk\<close> writes the entries of
  the collections one after the other and their updated models.
\<close>

section \<open>Collections in a row\<close>

text \<open>Configurations with the same parameters, which the loop passes on.\<close>

definition same_pars :: "cmp_cfg \<Rightarrow> cmp_cfg \<Rightarrow> bool" where
  "same_pars cfg cfg' \<longleftrightarrow> cfg'\<lparr>data_type := DATA_TYPE_UNKNOWN, samples := 0, stream_size := 0\<rparr> =
     cfg\<lparr>data_type := DATA_TYPE_UNKNOWN, samples := 0, stream_size := 0\<rparr>"

lemma same_pars_refl [simp]: "same_pars cfg cfg"
  by (simp add: same_pars_def)

lemma same_pars_trans: "same_pars a b \<Longrightarrow> same_pars b c \<Longrightarrow> same_pars a c"
  by (simp add: same_pars_def)

lemma same_pars_eqs:
  assumes "same_pars cfg cfg'"
  shows "cmp_mode cfg' = cmp_mode cfg" "model_value cfg' = model_value cfg"
    "round_par cfg' = round_par cfg" "cmp_par_1 cfg' = cmp_par_1 cfg" "spill_par_1 cfg' = spill_par_1 cfg"
    "cmp_par_2 cfg' = cmp_par_2 cfg" "spill_par_2 cfg' = spill_par_2 cfg"
    "cmp_par_3 cfg' = cmp_par_3 cfg" "spill_par_3 cfg' = spill_par_3 cfg"
    "cmp_par_4 cfg' = cmp_par_4 cfg" "spill_par_4 cfg' = spill_par_4 cfg"
    "cmp_par_5 cfg' = cmp_par_5 cfg" "spill_par_5 cfg' = spill_par_5 cfg"
    "cmp_par_6 cfg' = cmp_par_6 cfg" "spill_par_6 cfg' = spill_par_6 cfg"
  using assms unfolding same_pars_def by (cases cfg; cases cfg'; simp)+

lemma same_pars_col_cfg:
  assumes "same_pars cfg cfg'"
  shows "col_cfg big cfg' col = (col_cfg big cfg col)\<lparr>stream_size := stream_size cfg'\<rparr>"
  using assms by (cases cfg; cases cfg') (simp add: same_pars_def col_cfg_def)

lemma same_coding_pars:
  assumes "same_coding (col_cfg big cfg col) cfg'"
  shows "same_pars cfg cfg'"
  using assms by (cases cfg; cases cfg') (simp add: same_pars_def same_coding_def col_cfg_def)

lemma col_cfg_mode: "cmp_mode (col_cfg big cfg col) = cmp_mode cfg" "round_par (col_cfg big cfg col) = round_par cfg"
  by (simp_all add: col_cfg_def)

text \<open>Pairs of a collection and its payload in the output; \<open>s\<close> and \<open>m\<close> are the whole chunk and the whole model.\<close>

fun payloads_ok :: "bool \<Rightarrow> cmp_cfg \<Rightarrow> buffer \<Rightarrow> buffer \<Rightarrow> nat \<Rightarrow> (buffer \<times> buffer) list \<Rightarrow> bool" where
  "payloads_ok big cfg s m pos [] \<longleftrightarrow> True"
| "payloads_ok big cfg s m pos ((col, p) # xs) \<longleftrightarrow>
     cfg_valid (col_cfg big cfg col) \<and>
     payload_ok big (col_cfg big cfg col) (drop (pos + COLLECTION_HDR_SIZE) s) (drop (pos + COLLECTION_HDR_SIZE) m) p \<and>
     (cmp_mode cfg = CMP_MODE_RAW \<longrightarrow> length p = col_length big col) \<and>
     payloads_ok big cfg s m (pos + length col) xs"

definition entries :: "cmp_cfg \<Rightarrow> (buffer \<times> buffer) list \<Rightarrow> buffer" where
  "entries cfg xs = concat (map (\<lambda>(col, p). compressed_entry cfg (take COLLECTION_HDR_SIZE col) p) xs)"

fun chunk_models :: "bool \<Rightarrow> cmp_cfg \<Rightarrow> buffer \<Rightarrow> buffer \<Rightarrow> nat \<Rightarrow> (buffer \<times> buffer) list \<Rightarrow> buffer" where
  "chunk_models big cfg s m pos [] = []"
| "chunk_models big cfg s m pos ((col, p) # xs) = take COLLECTION_HDR_SIZE col @
     payload_model big (col_cfg big cfg col) (drop (pos + COLLECTION_HDR_SIZE) s) (drop (pos + COLLECTION_HDR_SIZE) m) p @
     chunk_models big cfg s m (pos + length col) xs"

lemma drop_cong_le: "drop i xs = drop i ys \<Longrightarrow> i \<le> j \<Longrightarrow> drop j xs = drop j ys"
  by (metis drop_drop le_add_diff_inverse2)

lemma payloads_cong:
  "drop pos m' = drop pos m \<Longrightarrow> payloads_ok big cfg s m' pos xs = payloads_ok big cfg s m pos xs \<and>
     chunk_models big cfg s m' pos xs = chunk_models big cfg s m pos xs"
proof (induction xs arbitrary: pos)
  case (Cons x xs)
  have "drop (pos + COLLECTION_HDR_SIZE) m' = drop (pos + COLLECTION_HDR_SIZE) m"
    "drop (pos + length (fst x)) m' = drop (pos + length (fst x)) m"
    by (rule drop_cong_le [OF Cons.prems], simp)+
  then show ?case using Cons.IH by (cases x) simp
qed simp

lemma put_bytes_more:
  "k + length xs \<le> length bs \<Longrightarrow> put_bytes (k + length xs) ys (put_bytes k xs bs) = put_bytes k (xs @ ys) bs"
  by (simp add: put_bytes_def add.assoc add.left_commute add.commute)

lemma put_model_more:
  assumes "models_ok n cfg b" and "k + length xs \<le> n"
  shows "put_model cfg (k + length xs) ys (put_model cfg k xs b) = put_model cfg k (xs @ ys) b"
proof (cases "model_mode_is_used (cmp_mode cfg) \<and> updated_model_buf b \<noteq> None")
  case True
  then have "n \<le> length (bytes_at (updated_model_buf b))" using assms(1) by (simp add: models_ok_def)
  then have "k + length xs \<le> length (bytes_at (updated_model_buf b))" using assms(2) by simp
  from put_bytes_more [OF this] True show ?thesis by (simp add: put_model_def set_updated_twice del: not_None_eq)
next
  case False
  then show ?thesis by (cases "updated_model_buf b = None") (auto simp: put_model_def set_updated_None)
qed

lemma put_model_nil: "models_ok n cfg b \<Longrightarrow> put_model cfg k [] b = b"
  by (simp add: put_model_def put_bytes_def set_updated_same)

lemma put_model_pars: "same_pars cfg cfg' \<Longrightarrow> put_model cfg' k xs b = put_model cfg k xs b"
  by (simp add: put_model_def same_pars_eqs)

lemma models_ok_pars: "same_pars cfg cfg' \<Longrightarrow> models_ok n cfg' b = models_ok n cfg b"
  by (simp add: models_ok_def same_pars_eqs)

lemma models_ok_le: "models_ok n cfg b \<Longrightarrow> k \<le> n \<Longrightarrow> models_ok k cfg b"
  by (auto simp: models_ok_def)

lemma length_payload_model:
  assumes "data_type cfg \<in> coded_types" and "data_bytes cfg \<le> length s"
  shows "length (payload_model big cfg s m p) = data_bytes cfg"
  using assms codec.length_next_model [of cfg big] by (simp add: payload_model_def)

lemma col_ok_append: "collection_ok big col \<Longrightarrow> collection_ok big (col @ rest)"
  by (auto simp: collection_ok_def)

lemma col_cfg_append: "COLLECTION_HDR_SIZE \<le> length col \<Longrightarrow> col_cfg big cfg (col @ rest) = col_cfg big cfg col"
  by (simp add: col_cfg_def)

text \<open>One turn of the loop.\<close>

definition entry_at ::
  "bool \<Rightarrow> cmp_cfg \<Rightarrow> nat \<Rightarrow> buffer \<Rightarrow> buffer \<Rightarrow> nat \<Rightarrow> cmp_bufs \<Rightarrow> u32 \<Rightarrow> cmp_bufs \<Rightarrow> bool" where
  "entry_at big cfg pos col p ds b l b' \<longleftrightarrow>
     payloads_ok big cfg (bytes_at (src b)) (bytes_at (model_buf b)) pos [(col, p)] \<and>
     \<not> cmp_is_error l \<and> unat l = ds + length (entries cfg [(col, p)]) \<and>
     (\<forall>a d. dst b = Some (a, d) \<longrightarrow> (\<exists>d'. b' = (put_model cfg pos
           (chunk_models big cfg (bytes_at (src b)) (bytes_at (model_buf b)) pos [(col, p)]) b)\<lparr>dst := Some (a, d')\<rparr> \<and>
         length d' = length d \<and> take (ds + length (entries cfg [(col, p)])) d' = take ds d @ entries cfg [(col, p)]))"

lemma collection_turn:
  assumes col: "exact_collection big col" and src: "drop pos (bytes_at (src b)) = col @ rest"
    and models: "models_ok k cfg b" "pos + length col \<le> k" and dst: "dst b = Some (a, d)" and cap: "unat cap \<le> length d"
    and ds: "unat ds < 2 ^ 28 - 2 ^ 17" and pars: "same_pars cfg cfg1"
  shows "\<exists>l cfg' b'. cmp_collection big (skip_bufs pos 0 pos b) cap cfg1 ds = Some (l, cfg', b') \<and>
    (cmp_is_error l \<or> same_pars cfg cfg' \<and> (\<exists>p. entry_at big cfg pos col p (unat ds) b l (rejoin_bufs 0 pos b' b)))"
proof -
  let ?c = "skip_bufs pos 0 pos b"
  have ok: "collection_ok big col" and l: "length col = COLLECTION_HDR_SIZE + col_length big col"
    using col by (simp_all add: exact_collection_def)
  have h: "COLLECTION_HDR_SIZE \<le> length col" using l by simp
  have sc: "bytes_at (src ?c) = col @ rest" by (simp add: src)
  have okc: "collection_ok big (bytes_at (src ?c))" unfolding sc by (rule col_ok_append [OF ok])
  have mc: "models_ok (COLLECTION_HDR_SIZE + col_length big (bytes_at (src ?c))) cfg1 ?c"
    unfolding sc col_append(1) [OF h] models_ok_pars [OF pars]
    by (rule models_ok_skip, rule models_ok_le [OF models(1)]) (use models(2) l in simp)
  have dc: "dst ?c = Some (a, d)" by (simp add: dst)
  obtain l cfg' b' where run: "cmp_collection big ?c cap cfg1 ds = Some (l, cfg', b')"
    and sc': "same_coding (col_cfg big cfg1 (bytes_at (src ?c))) cfg'"
    and res: "cmp_is_error l \<or> cfg_valid (col_cfg big cfg1 (bytes_at (src ?c))) \<and> (\<exists>p. collection_written big cfg1 (unat ds) p ?c l b')"
    using cmp_collection_ok [OF okc ds mc dc cap] by (auto simp: cmp_is_error_CMP_ERROR)
  show ?thesis
  proof (cases "cmp_is_error l")
    case True
    then show ?thesis using run by blast
  next
    case False
    then obtain p where w: "collection_written big cfg1 (unat ds) p ?c l b'" and v: "cfg_valid (col_cfg big cfg1 (bytes_at (src ?c)))"
      using res by blast
    let ?s = "drop (pos + COLLECTION_HDR_SIZE) (bytes_at (src b))" and ?m = "drop (pos + COLLECTION_HDR_SIZE) (bytes_at (model_buf b))"
    let ?cc = "col_cfg big cfg col" and ?hdr = "take COLLECTION_HDR_SIZE col"
    let ?pm = "payload_model big ?cc ?s ?m p" and ?e = "compressed_entry cfg ?hdr p"
    have cc: "col_cfg big cfg1 (bytes_at (src ?c)) = ?cc\<lparr>stream_size := stream_size cfg1\<rparr>"
      unfolding sc col_cfg_append [OF h] by (rule same_pars_col_cfg [OF pars])
    have dt: "data_type ?cc \<in> coded_types" using ok by (simp add: col_cfg_def collection_ok_def)
    have hdr: "take COLLECTION_HDR_SIZE (bytes_at (src ?c)) = ?hdr" unfolding sc using h by simp
    have bufs: "drop COLLECTION_HDR_SIZE (bytes_at (src ?c)) = ?s" "drop COLLECTION_HDR_SIZE (bytes_at (model_buf ?c)) = ?m"
      by (simp_all add: add.commute)
    have e: "compressed_entry cfg1 ?hdr p = ?e" by (simp add: compressed_entry_def same_pars_eqs [OF pars])
    note w1 = w [unfolded collection_written_def Let_def cc hdr bufs e payload_stream_size [OF dt] data_bytes_update
        put_model_pars [OF pars] same_pars_eqs(1) [OF pars]]
    obtain d' where d': "dst b' = Some (a, d')" "length d' = length d" "take (unat ds + length ?e) d' = take (unat ds) d @ ?e"
      using w1 dc by blast
    have "b'\<lparr>dst := dst ?c\<rparr> = put_model cfg 0 (?hdr @ ?pm) ?c" using w1 by blast
    then have b': "b' = (put_model cfg 0 (?hdr @ ?pm) ?c)\<lparr>dst := Some (a, d')\<rparr>"
      using d'(1) by (metis cmp_bufs.surjective cmp_bufs.update_convs(2) cmp_bufs.select_convs(2))
    have "rejoin_bufs 0 pos b' b = (put_model cfg pos (?hdr @ ?pm) b)\<lparr>dst := Some (a, d')\<rparr>"
      unfolding b' skip_rejoin_put [OF models(1)] by (simp add: dst rejoin_ptr_0)
    then have "entry_at big cfg pos col p (unat ds) b l (rejoin_bufs 0 pos b' b)"
      using w1 v d'(2,3) dst cc data_bytes_col_cfg [OF ok, of cfg]
      by (simp add: entry_at_def entries_def) blast
    then show ?thesis using run same_pars_trans [OF pars same_coding_pars [OF sc']] by blast
  qed
qed

section \<open>Separate buffers\<close>

text \<open>The regions of a call do not overlap: \<open>n\<close> bytes of the data and the models, \<open>cap\<close> bytes of the output.\<close>

definition buffers_apart :: "nat \<Rightarrow> nat \<Rightarrow> cmp_mode \<Rightarrow> cmp_bufs \<Rightarrow> bool" where
  "buffers_apart n cap mode b \<longleftrightarrow> src b \<noteq> None \<and> \<not> buffer_overlaps (dst b) cap (src b) n \<and>
     (model_mode_is_used mode \<longrightarrow> model_buf b \<noteq> None \<and>
       \<not> buffer_overlaps (model_buf b) n (src b) n \<and> \<not> buffer_overlaps (model_buf b) n (dst b) cap \<and>
       \<not> buffer_overlaps (updated_model_buf b) n (src b) n \<and> \<not> buffer_overlaps (updated_model_buf b) n (dst b) cap)"

lemma overlaps_skip:
  "buffer_overlaps (skip_ptr i p) k (skip_ptr i q) k \<Longrightarrow> i + k \<le> n \<Longrightarrow> buffer_overlaps p n q n"
  "buffer_overlaps p k (skip_ptr i q) j \<Longrightarrow> i + j \<le> n \<Longrightarrow> buffer_overlaps p k q n"
  "buffer_overlaps (skip_ptr i p) k q j \<Longrightarrow> i + k \<le> n \<Longrightarrow> buffer_overlaps p n q j"
  by (cases p; cases q; auto simp: buffer_overlaps_def skip_ptr_def)+

lemma buffers_apart_skip:
  assumes "buffers_apart n cap mode b" and "i + k \<le> n"
  shows "buffers_apart k cap mode (skip_bufs i 0 i b)"
  using assms overlaps_skip [where i = i and k = k and n = n] overlaps_skip(2) [where i = i and j = k and n = n]
  by (auto simp: buffers_apart_def simp del: not_None_eq)

lemma overlaps_addr:
  "map_option fst p' = map_option fst p \<Longrightarrow> map_option fst q' = map_option fst q \<Longrightarrow>
     buffer_overlaps p' n q' k = buffer_overlaps p n q k"
  by (cases p; cases p'; cases q; cases q') (auto simp: buffer_overlaps_def)

lemma buffers_apart_addr:
  assumes "map_option fst (src b') = map_option fst (src b)" and "map_option fst (dst b') = map_option fst (dst b)"
    and "map_option fst (model_buf b') = map_option fst (model_buf b)"
    and "map_option fst (updated_model_buf b') = map_option fst (updated_model_buf b)"
  shows "buffers_apart n cap mode b' = buffers_apart n cap mode b"
proof -
  have none: "(p' = None) = (p = None)" if "map_option fst p' = map_option fst p" for p p' :: ptr
    using that by (cases p; cases p') auto
  show ?thesis
    unfolding buffers_apart_def
    by (simp only: overlaps_addr [OF assms(2,1)] overlaps_addr [OF assms(3,1)] overlaps_addr [OF assms(3,2)]
        overlaps_addr [OF assms(4,1)] overlaps_addr [OF assms(4,2)] none [OF assms(1)] none [OF assms(3)])
qed

lemma buffers_apart_put:
  assumes "dst b = Some (a, d)"
  shows "buffers_apart n cap mode ((put_model cfg k xs b)\<lparr>dst := Some (a, d')\<rparr>) = buffers_apart n cap mode b"
  by (rule buffers_apart_addr) (simp_all add: assms, simp_all add: put_model_def set_updated_model_def Let_def)

lemma check_passes:
  assumes "cfg_valid cfg" and "buffers_apart n cap (cmp_mode cfg) b" and "data_bytes cfg \<le> n" and "unat (stream_size cfg) \<le> cap"
  shows "\<not> cmp_is_error (cmp_cfg_icu_is_invalid_error_code (Some cfg) b)"
proof -
  have mono: "buffer_overlaps p i q j \<Longrightarrow> i \<le> i' \<Longrightarrow> j \<le> j' \<Longrightarrow> buffer_overlaps p i' q j'" for p q i j i' j'
    by (cases p; cases q) (auto simp: buffer_overlaps_def)
  have n: "size_of_a_sample (data_type cfg) * unat (samples cfg) \<le> n" using assms(3) by (simp add: data_bytes_def mult.commute)
  have "check_compression_buffers (Some cfg) b = CMP_ERROR CMP_ERROR_NO_ERROR"
    using assms(2) n assms(4) mono
    by (auto simp: check_compression_buffers_def buffers_apart_def Let_def)
  moreover have "\<not> cmp_is_error (CMP_ERROR CMP_ERROR_NO_ERROR)" by (simp add: cmp_is_error_CMP_ERROR)
  ultimately show ?thesis using assms(1) by (simp add: cmp_cfg_icu_is_invalid_error_code_def cfg_valid_def Let_def)
qed


section \<open>A collection fits\<close>

lemma collection_turn_fits:
  assumes col: "exact_collection big col" and src: "drop pos (bytes_at (src b)) = col @ rest"
    and models: "models_ok k cfg b" "pos + length col \<le> k" and dst: "dst b = Some (a, d)" and cap: "unat cap \<le> length d"
    and ds: "unat ds < 2 ^ 28 - 2 ^ 17" and pars: "same_pars cfg cfg1"
    and valid: "cfg_valid (col_cfg big cfg col)" and apart: "buffers_apart k (unat cap) (cmp_mode cfg) b"
    and room: "unat ds + field_size cfg + length col \<le> unat cap"
    and run: "cmp_collection big (skip_bufs pos 0 pos b) cap cfg1 ds = Some (l, cfg', b')"
  shows "\<not> cmp_is_error l"
proof -
  let ?c = "skip_bufs pos 0 pos b"
  have ok: "collection_ok big col" and l: "length col = COLLECTION_HDR_SIZE + col_length big col"
    using col by (simp_all add: exact_collection_def)
  have h: "COLLECTION_HDR_SIZE \<le> length col" using l by simp
  have sc: "bytes_at (src ?c) = col @ rest" by (simp add: src)
  have okc: "collection_ok big (bytes_at (src ?c))" unfolding sc by (rule col_ok_append [OF ok])
  have mc: "models_ok (COLLECTION_HDR_SIZE + col_length big (bytes_at (src ?c))) cfg1 ?c"
    unfolding sc col_append(1) [OF h] models_ok_pars [OF pars]
    by (rule models_ok_skip, rule models_ok_le [OF models(1)]) (use models(2) l in simp)
  have dc: "dst ?c = Some (a, d)" by (simp add: dst)
  let ?cc = "(col_cfg big cfg1 (bytes_at (src ?c)))\<lparr>stream_size := cap\<rparr>"
  have cc: "?cc = (col_cfg big cfg col)\<lparr>stream_size := cap\<rparr>"
    unfolding sc col_cfg_append [OF h] same_pars_col_cfg [OF pars] by simp
  have "buffers_apart (length col) (unat cap) (cmp_mode cfg) ?c" by (rule buffers_apart_skip [OF apart models(2)])
  then have "buffers_apart (col_length big col) (unat cap) (cmp_mode cfg) (skip_bufs COLLECTION_HDR_SIZE 0 COLLECTION_HDR_SIZE ?c)"
    by (rule buffers_apart_skip) (simp add: l)
  then have "\<not> cmp_is_error (cmp_cfg_icu_is_invalid_error_code (Some ?cc) (skip_bufs COLLECTION_HDR_SIZE 0 COLLECTION_HDR_SIZE ?c))"
    unfolding cc using valid data_bytes_col_cfg [OF ok, of cfg]
    by (intro check_passes [where n = "col_length big col" and cap = "unat cap"])
      (simp_all add: col_cfg_mode cfg_valid_coding [OF same_coding_stream_size] data_bytes_update)
  moreover have "\<not> unat cap < unat ds + field_size cfg1 + COLLECTION_HDR_SIZE + col_length big (bytes_at (src ?c))"
    unfolding sc col_append(1) [OF h] using room l by (simp add: field_size_def same_pars_eqs [OF pars])
  ultimately show ?thesis
    using cmp_collection_ok [OF okc ds mc dc cap] run by (auto simp: collection_written_def Let_def)
qed

section \<open>The loop\<close>

definition chunk_written ::
  "bool \<Rightarrow> cmp_cfg \<Rightarrow> nat \<Rightarrow> (buffer \<times> buffer) list \<Rightarrow> nat \<Rightarrow> cmp_bufs \<Rightarrow> u32 \<Rightarrow> cmp_bufs \<Rightarrow> bool" where
  "chunk_written big cfg pos xs ds b l b' \<longleftrightarrow>
     payloads_ok big cfg (bytes_at (src b)) (bytes_at (model_buf b)) pos xs \<and>
     \<not> cmp_is_error l \<and> unat l = ds + length (entries cfg xs) \<and>
     (\<forall>a d. dst b = Some (a, d) \<longrightarrow> (\<exists>d'. b' = (put_model cfg pos
           (chunk_models big cfg (bytes_at (src b)) (bytes_at (model_buf b)) pos xs) b)\<lparr>dst := Some (a, d')\<rparr> \<and>
         length d' = length d \<and> take (ds + length (entries cfg xs)) d' = take ds d @ entries cfg xs))"

lemma entries_Cons: "entries cfg (x # xs) = entries cfg [x] @ entries cfg xs"
  by (simp add: entries_def)

lemma length_entry_bound:
  assumes "exact_collection big col" and "payloads_ok big cfg s m pos [(col, p)]"
  shows "length (entries cfg [(col, p)]) \<le> field_size cfg + length col"
proof -
  have l: "length col = COLLECTION_HDR_SIZE + col_length big col" and ok: "collection_ok big col"
    using assms(1) by (simp_all add: exact_collection_def)
  have "length p \<le> col_length big col"
    using assms(2) payload_length [of big "col_cfg big cfg col"] data_bytes_col_cfg [OF ok, of cfg] by auto
  moreover have "length (entries cfg [(col, p)]) = field_size cfg + COLLECTION_HDR_SIZE + length p"
    using l by (simp add: entries_def length_entry)
  ultimately show ?thesis using l by simp
qed

lemma length_entry_le:
  assumes "exact_collection big col" and "payloads_ok big cfg s m pos [(col, p)]"
  shows "length (entries cfg [(col, p)]) \<le> 2 * length col"
  using length_entry_bound [OF assms] assms(1)
  by (simp add: exact_collection_def field_size_def CMP_COLLECTION_FILD_SIZE_def COLLECTION_HDR_SIZE_def split: if_splits)

lemma length_chunk_models_1:
  assumes "exact_collection big col" and "drop pos s = col @ rest"
  shows "length (chunk_models big cfg s m pos [(col, p)]) = length col"
proof -
  have l: "length col = COLLECTION_HDR_SIZE + col_length big col" and ok: "collection_ok big col"
    using assms(1) by (simp_all add: exact_collection_def)
  have "drop (pos + COLLECTION_HDR_SIZE) s = drop COLLECTION_HDR_SIZE (col @ rest)"
    by (simp add: assms(2) [symmetric] add.commute)
  then have "data_bytes (col_cfg big cfg col) \<le> length (drop (pos + COLLECTION_HDR_SIZE) s)"
    using l data_bytes_col_cfg [OF ok, of cfg] by simp
  moreover have "data_type (col_cfg big cfg col) \<in> coded_types" using ok by (simp add: col_cfg_def collection_ok_def)
  ultimately show ?thesis using length_payload_model [of "col_cfg big cfg col"] l data_bytes_col_cfg [OF ok, of cfg] by simp
qed

text \<open>An entry followed by the others.\<close>

lemma chunk_written_Cons:
  assumes e: "entry_at big cfg pos col p (unat ds) b l b1" and rest: "chunk_written big cfg (pos + length col) xs (unat l) b1 l' b2"
    and col: "exact_collection big col" and src: "drop pos (bytes_at (src b)) = col @ tail"
    and models: "models_ok k cfg b" "pos + length col \<le> k" and dst: "dst b = Some (a, d)"
  shows "chunk_written big cfg pos ((col, p) # xs) (unat ds) b l' b2"
proof -
  let ?s = "bytes_at (src b)" and ?m = "bytes_at (model_buf b)" and ?e = "entries cfg [(col, p)]"
  let ?X = "chunk_models big cfg ?s ?m pos [(col, p)]" and ?Y = "chunk_models big cfg ?s ?m (pos + length col) xs"
  have lX: "length ?X = length col" by (rule length_chunk_models_1 [OF col src])
  obtain d1 where b1: "b1 = (put_model cfg pos ?X b)\<lparr>dst := Some (a, d1)\<rparr>" and d1: "length d1 = length d"
    "take (unat ds + length ?e) d1 = take (unat ds) d @ ?e"
    using e dst unfolding entry_at_def by blast
  have s1: "bytes_at (src b1) = ?s" by (simp add: b1)
  have "drop (pos + length col) (bytes_at (model_buf b1)) = drop (pos + length col) ?m"
    using drop_model_put [OF models(1), of pos ?X "pos + length col"] models(2) lX by (simp add: b1)
  note cong = payloads_cong [OF this]
  have l: "unat l = unat ds + length ?e" using e by (simp add: entry_at_def)
  have d1b: "dst b1 = Some (a, d1)" by (simp add: b1)
  obtain d2 where b2: "b2 = (put_model cfg (pos + length col) ?Y b1)\<lparr>dst := Some (a, d2)\<rparr>" and d2: "length d2 = length d1"
    "take (unat l + length (entries cfg xs)) d2 = take (unat l) d1 @ entries cfg xs"
    using rest d1b unfolding chunk_written_def s1 conjunct2 [OF cong] by blast
  have "b2 = (put_model cfg pos (?X @ ?Y) b)\<lparr>dst := Some (a, d2)\<rparr>"
    using put_model_more [OF models(1), of pos ?X ?Y] models(2) lX by (simp add: b2 b1 put_model_dst)
  moreover have "take (unat ds + length (entries cfg ((col, p) # xs))) d2 = take (unat ds) d @ entries cfg ((col, p) # xs)"
    using d2(2) d1(2) l by (simp add: entries_Cons [of _ _ xs] add.assoc)
  moreover have "?X @ ?Y = chunk_models big cfg ?s ?m pos ((col, p) # xs)" by simp
  ultimately show ?thesis
    using e rest d1(1) d2(1) l dst cong unfolding chunk_written_def entry_at_def s1
    by (simp add: entries_Cons [of _ _ xs]) blast
qed

lemma chunk_type_append [simp]:
  "COLLECTION_HDR_SIZE \<le> length col \<Longrightarrow> cmp_col_get_chunk_type big (col @ rest) = cmp_col_get_chunk_type big col"
  by (simp add: cmp_col_get_chunk_type_def)

text \<open>
  The collections fit: their parameters are valid, the buffers do not overlap, and there is room
  even if no collection can be compressed.
\<close>

definition chunk_fits :: "bool \<Rightarrow> cmp_cfg \<Rightarrow> nat \<Rightarrow> nat \<Rightarrow> buffer list \<Rightarrow> nat \<Rightarrow> cmp_bufs \<Rightarrow> bool" where
  "chunk_fits big cfg k cap cols ds b \<longleftrightarrow>
     (\<forall>col \<in> set cols. cfg_valid (col_cfg big cfg col)) \<and> buffers_apart k cap (cmp_mode cfg) b \<and>
     ds + field_size cfg * length cols + length (concat cols) \<le> cap"

text \<open>Either an error, which needs a reason, or all entries are written.\<close>

definition chunk_result :: "bool \<Rightarrow> cmp_cfg \<Rightarrow> nat \<Rightarrow> nat \<Rightarrow> nat \<Rightarrow> buffer list \<Rightarrow> nat \<Rightarrow> cmp_bufs \<Rightarrow>
    ((u32 + nat \<times> cmp_cfg \<times> u32) \<times> cmp_bufs) option \<Rightarrow> bool" where
  "chunk_result big cfg k cap pos cols ds b r \<longleftrightarrow> (\<exists>b'.
     (\<exists>e. r = Some (Inl e, b') \<and> cmp_is_error e \<and> \<not> chunk_fits big cfg k cap cols ds b) \<or>
     (\<exists>cfg' l xs. r = Some (Inr (k, cfg', l), b') \<and> same_pars cfg cfg' \<and> map fst xs = cols \<and>
        chunk_written big cfg pos xs ds b l b'))"

lemma compress_collections_ok:
  assumes "\<forall>col \<in> set cols. exact_collection big col \<and> cmp_col_get_chunk_type big col = Some t"
    and "drop pos (bytes_at (src b)) = concat cols @ rest" and "k = pos + length (concat cols)" and "COLLECTION_HDR_SIZE \<le> k"
    and "models_ok k cfg b" and "dst b = Some (a, d)" and "unat cap \<le> length d"
    and "unat ds + 2 * length (concat cols) < 2 ^ 28 - 2 ^ 17" and "same_pars cfg cfg1"
  shows "chunk_result big cfg k (unat cap) pos cols (unat ds) b (compress_collections big k t cap pos cfg1 ds b)"
  using assms
proof (induction cols arbitrary: pos cfg1 ds b d)
  case Nil
  then have "\<not> pos \<le> k - COLLECTION_HDR_SIZE" by (simp add: COLLECTION_HDR_SIZE_def)
  then have run: "compress_collections big k t cap pos cfg1 ds b = Some (Inr (pos, cfg1, ds), b)"
    by (subst compress_collections.simps) simp
  have "\<not> cmp_is_error ds" using Nil.prems(8) by (simp add: cmp_is_error_iff)
  moreover have eq: "b\<lparr>dst := Some (a, d)\<rparr> = b" using Nil.prems(6) by (cases b) simp
  ultimately have "chunk_written big cfg pos [] (unat ds) b ds b"
    using Nil.prems(6) put_model_nil [OF Nil.prems(5)] by (simp add: chunk_written_def entries_def) (rule exI [of _ d], simp add: eq)
  then have "\<exists>cfg' l xs. Some (Inr (pos, cfg1, ds), b) = Some (Inr (pos, cfg', l), b) \<and> same_pars cfg cfg' \<and>
      map fst xs = [] \<and> chunk_written big cfg pos xs (unat ds) b l b" using Nil.prems(9) by blast
  then show ?case using Nil.prems(3) unfolding chunk_result_def run by auto
next
  case (Cons col cols)
  let ?n = "length col"
  have ex: "exact_collection big col" and t: "cmp_col_get_chunk_type big col = Some t" using Cons.prems(1) by simp_all
  then have l: "?n = COLLECTION_HDR_SIZE + col_length big col" and ok: "collection_ok big col"
    by (simp_all add: exact_collection_def)
  have h: "COLLECTION_HDR_SIZE \<le> ?n" using l by simp
  have src: "drop pos (bytes_at (src b)) = col @ (concat cols @ rest)" using Cons.prems(2) by simp
  obtain len where len: "cmp_col_get_data_length big col = Some len" "unat len = col_length big col"
    using collection_getters [OF ok] by metis
  have pk: "pos + ?n \<le> k" "pos \<le> k - COLLECTION_HDR_SIZE" using Cons.prems(3) h by simp_all
  have ds: "unat ds < 2 ^ 28 - 2 ^ 17" using Cons.prems(8) by simp
  obtain l cfg' b' where run: "cmp_collection big (skip_bufs pos 0 pos b) cap cfg1 ds = Some (l, cfg', b')"
    and res: "cmp_is_error l \<or> same_pars cfg cfg' \<and> (\<exists>p. entry_at big cfg pos col p (unat ds) b l (rejoin_bufs 0 pos b' b))"
    using collection_turn [OF ex src Cons.prems(5) pk(1) Cons.prems(6,7) ds Cons.prems(9)] by blast
  let ?b1 = "rejoin_bufs 0 pos b' b"
  have step: "compress_collections big k t cap pos cfg1 ds b =
      (if cmp_is_error l then Some (Inl l, ?b1) else compress_collections big k t cap (pos + ?n) cfg' l ?b1)"
    using pk len t h run src by (subst compress_collections.simps) (simp add: l Let_def)
  show ?case
  proof (cases "cmp_is_error l")
    case True
    have "\<not> chunk_fits big cfg k (unat cap) (col # cols) (unat ds) b"
      using collection_turn_fits [OF ex src Cons.prems(5) pk(1) Cons.prems(6,7) ds Cons.prems(9) _ _ _ run] True
      by (auto simp: chunk_fits_def)
    then show ?thesis using True unfolding chunk_result_def step by auto
  next
    case False
    then obtain p where pars: "same_pars cfg cfg'" and e: "entry_at big cfg pos col p (unat ds) b l ?b1" using res by blast
    have pl: "payloads_ok big cfg (bytes_at (src b)) (bytes_at (model_buf b)) pos [(col, p)]" using e by (simp add: entry_at_def)
    let ?X = "chunk_models big cfg (bytes_at (src b)) (bytes_at (model_buf b)) pos [(col, p)]"
    have lX: "length ?X = ?n" by (rule length_chunk_models_1 [OF ex src])
    obtain d1 where b1: "?b1 = (put_model cfg pos ?X b)\<lparr>dst := Some (a, d1)\<rparr>" and d1: "length d1 = length d"
      using e Cons.prems(6) unfolding entry_at_def by blast
    have m1: "models_ok k cfg ?b1"
      using models_ok_put [OF Cons.prems(5), of pos ?X] lX pk(1) by (simp add: b1 models_ok_def)
    have "drop (pos + ?n) (bytes_at (src ?b1)) = concat cols @ rest"
      unfolding b1 using src by (metis (no_types) append_eq_conv_conj drop_drop add.commute dst_put_model(2) cmp_bufs.select_convs(1) cmp_bufs.surjective cmp_bufs.update_convs(2))
    moreover have "unat l + 2 * length (concat cols) < 2 ^ 28 - 2 ^ 17"
      using length_entry_le [OF ex pl] e Cons.prems(8) by (simp add: entry_at_def)
    ultimately have IH: "chunk_result big cfg k (unat cap) (pos + ?n) cols (unat l) ?b1 (compress_collections big k t cap (pos + ?n) cfg' l ?b1)"
      using Cons.prems(1,3,4,7) m1 d1 pars by (intro Cons.IH [where d = d1]) (simp_all add: b1)
    have step': "compress_collections big k t cap pos cfg1 ds b = compress_collections big k t cap (pos + ?n) cfg' l ?b1"
      using step False by simp
    have fits: "chunk_fits big cfg k (unat cap) cols (unat l) ?b1" if "chunk_fits big cfg k (unat cap) (col # cols) (unat ds) b"
      using that length_entry_bound [OF ex pl] e Cons.prems(6)
      by (auto simp: chunk_fits_def entry_at_def b1 buffers_apart_put)
    show ?thesis using IH unfolding chunk_result_def step'
    proof (elim exE disjE conjE)
      fix cfg2 l2 xs b2
      assume r: "compress_collections big k t cap (pos + ?n) cfg' l ?b1 = Some (Inr (k, cfg2, l2), b2)" "same_pars cfg cfg2"
        and xs: "map fst xs = cols" and w: "chunk_written big cfg (pos + ?n) xs (unat l) ?b1 l2 b2"
      have "chunk_written big cfg pos ((col, p) # xs) (unat ds) b l2 b2"
        by (rule chunk_written_Cons [OF e w ex src Cons.prems(5) pk(1) Cons.prems(6)])
      moreover have "map fst ((col, p) # xs) = col # cols" using xs by simp
      ultimately show "\<exists>b'. (\<exists>e. compress_collections big k t cap (pos + ?n) cfg' l ?b1 = Some (Inl e, b') \<and> cmp_is_error e \<and>
          \<not> chunk_fits big cfg k (unat cap) (col # cols) (unat ds) b) \<or>
        (\<exists>cfg2 l2 xs. compress_collections big k t cap (pos + ?n) cfg' l ?b1 = Some (Inr (k, cfg2, l2), b') \<and>
          same_pars cfg cfg2 \<and> map fst xs = col # cols \<and> chunk_written big cfg pos xs (unat ds) b l2 b')"
        using r by (intro exI [of _ b2] disjI2 exI [of _ cfg2] exI [of _ l2] exI [of _ "(col, p) # xs"] conjI)
    qed (use fits in auto)
  qed
qed

end
