(* ===== verification/Chunk_Header.thy ===== *)
theory Chunk_Header
  imports Chunk_Written
begin

text \<open>
  The header of the entity of a chunk: what \<open>cmp_ent_build_chunk_header\<close> writes is what
  \<open>cmp_ent_read_header\<close> reads.
\<close>

section \<open>Setters one after the other\<close>

text \<open>A call that writes the fields, or fails and leaves the data behind the header alone.\<close>

definition try_writes :: "(ent_field \<times> nat) list \<Rightarrow> buffer \<Rightarrow> set_result \<Rightarrow> bool" where
  "try_writes vs e r \<longleftrightarrow> (64 \<le> length e \<longrightarrow> writes vs e r \<or>
     (\<exists>e'. r = Some (- 1, Some e') \<and> length e' = length e \<and> drop 64 e' = drop 64 e))"

lemma try_writesE:
  assumes "try_writes vs e r" and "64 \<le> length e"
  obtains e' x where "r = Some (x, Some e')" "length e' = length e" "drop 64 e' = drop 64 e"
    "x = - 1 \<or> x = 0 \<and> writes vs e r"
  using assms unfolding try_writes_def writes_def by blast

lemma set_all_failed:
  assumes "\<And>e g f n. (f, n, g) \<in> set ts \<Longrightarrow> try_writes [(f, n)] e (g (Some e))" and "64 \<le> length e"
  shows "\<exists>e'. set_all (map (\<lambda>(f, n, g). g) ts) (- 1) (Some e) = Some (- 1, Some e') \<and>
    length e' = length e \<and> drop 64 e' = drop 64 e"
  using assms
proof (induction ts arbitrary: e)
  case (Cons t ts)
  obtain f n g where t: "t = (f, n, g)" by (cases t)
  have "try_writes [(f, n)] e (g (Some e))" using Cons.prems(1) t by simp
  then obtain e1 x where e1: "g (Some e) = Some (x, Some e1)" "length e1 = length e" "drop 64 e1 = drop 64 e"
    by (rule try_writesE [OF _ Cons.prems(2)])
  then have "\<exists>e'. set_all (map (\<lambda>(f, n, g). g) ts) (- 1) (Some e1) = Some (- 1, Some e') \<and>
      length e' = length e1 \<and> drop 64 e' = drop 64 e1"
    using Cons.prems by (intro Cons.IH) auto
  then show ?case using e1 t by auto
qed simp

lemma writes_then:
  assumes r: "writes [(f, n)] e (Some (0, Some e1))" and k: "writes vs e1 r"
    and dis: "\<And>g m. (g, m) \<in> set vs \<Longrightarrow> disjoint_fields g f"
  shows "writes ((f, n) # vs) e r"
proof -
  have "\<exists>e''. r = Some (0, Some e'') \<and> length e'' = length e \<and>
      drop 64 e'' = drop 64 e \<and> (\<forall>(g, m) \<in> set ((f, n) # vs). ent_value g e'' = Some m) \<and>
      (\<forall>g. (\<forall>(h, m) \<in> set ((f, n) # vs). disjoint_fields h g) \<longrightarrow> ent_value g e'' = ent_value g e)"
    if len: "64 \<le> length e"
  proof -
    have e1: "length e1 = length e" "drop 64 e1 = drop 64 e" "ent_value f e1 = Some n"
        "\<And>g. disjoint_fields f g \<Longrightarrow> ent_value g e1 = ent_value g e"
      using r len by (auto elim!: writesE)
    have "64 \<le> length e1" using e1(1) len by simp
    then obtain e2 where e2: "r = Some (0, Some e2)" "length e2 = length e1" "drop 64 e2 = drop 64 e1"
        "\<And>g m. (g, m) \<in> set vs \<Longrightarrow> ent_value g e2 = Some m"
        "\<And>g. (\<And>h m. (h, m) \<in> set vs \<Longrightarrow> disjoint_fields h g) \<Longrightarrow> ent_value g e2 = ent_value g e1"
      using k by (auto elim!: writesE)
    have "ent_value f e2 = Some n" using e2(5) [OF dis] e1(3) by simp
    moreover have "ent_value g e2 = ent_value g e"
      if "\<forall>(h, m) \<in> set ((f, n) # vs). disjoint_fields h g" for g
      using that e1(4) [of g] e2(5) [of g] by auto
    ultimately show ?thesis using e1 e2 by auto
  qed
  then show ?thesis unfolding writes_def by blast
qed

lemma set_all_writes:
  assumes "\<And>e g f n. (f, n, g) \<in> set ts \<Longrightarrow> try_writes [(f, n)] e (g (Some e))"
    and "sorted_wrt disjoint_fields (map fst ts)"
  shows "try_writes (map (\<lambda>(f, n, g). (f, n)) ts) e (set_all (map (\<lambda>(f, n, g). g) ts) 0 (Some e))"
  using assms
proof (induction ts arbitrary: e)
  case (Cons t ts)
  obtain f n g where t: "t = (f, n, g)" by (cases t)
  let ?vs = "map (\<lambda>(f, n, g). (f, n)) ts" and ?gs = "map (\<lambda>(f, n, g). g) ts"
  have IH: "try_writes ?vs e' (set_all ?gs 0 (Some e'))" for e' using Cons by auto
  have dis: "disjoint_fields h f" if "(h, m) \<in> set ?vs" for h m
    using Cons.prems(2) that t by (force intro: disjoint_fields_sym)
  show ?case unfolding try_writes_def
  proof
    assume len: "64 \<le> length e"
    have "try_writes [(f, n)] e (g (Some e))" using Cons.prems(1) t by simp
    then obtain e1 x where e1: "g (Some e) = Some (x, Some e1)" "length e1 = length e" "drop 64 e1 = drop 64 e"
      and x: "x = - 1 \<or> x = 0 \<and> writes [(f, n)] e (g (Some e))" by (rule try_writesE [OF _ len])
    show "writes (map (\<lambda>(f, n, g). (f, n)) (t # ts)) e (set_all (map (\<lambda>(f, n, g). g) (t # ts)) 0 (Some e)) \<or>
        (\<exists>e'. set_all (map (\<lambda>(f, n, g). g) (t # ts)) 0 (Some e) = Some (- 1, Some e') \<and> length e' = length e \<and> drop 64 e' = drop 64 e)"
    proof (cases "x = - 1")
      case True
      have "\<exists>e'. set_all ?gs (- 1) (Some e1) = Some (- 1, Some e') \<and> length e' = length e1 \<and> drop 64 e' = drop 64 e1"
        using Cons.prems(1) len e1 by (intro set_all_failed) auto
      then show ?thesis using e1 t True by auto
    next
      case False
      then have x0: "x = 0" and w: "writes [(f, n)] e (g (Some e))" using x by auto
      have run: "set_all (map (\<lambda>(f, n, g). g) (t # ts)) 0 (Some e) = set_all ?gs 0 (Some e1)" using e1 t x0 by simp
      obtain e2 y where e2: "set_all ?gs 0 (Some e1) = Some (y, Some e2)" "length e2 = length e1" "drop 64 e2 = drop 64 e1"
        and y: "y = - 1 \<or> y = 0 \<and> writes ?vs e1 (set_all ?gs 0 (Some e1))"
        using IH [of e1] len e1 by (auto elim!: try_writesE)
      show ?thesis
      proof (cases "y = - 1")
        case True
        then show ?thesis using run e1 e2 by auto
      next
        case False
        then have w2: "writes ?vs e1 (set_all ?gs 0 (Some e1))" using y by blast
        have "writes ((f, n) # ?vs) e (set_all ?gs 0 (Some e1))"
          using w e1(1) x0 by (intro writes_then [OF _ w2 dis]) simp_all
        then show ?thesis using run t by simp
      qed
    qed
  qed
qed (simp add: try_writes_def writes_done)

section \<open>The fields of the header\<close>

context entity_field
begin

lemma try_sets: "try_writes [(f, unat v)] e (setf big (Some e) v)"
  using sets [of e v big] writes_sets_field [of e f "unat v" "setf big (Some e) v"] set_too_large [of v big e]
  by (auto simp: try_writes_def)

end

lemma try_cmp_mode: "try_writes [(F_CMP_MODE, unat (cmp_mode_value m))] e (cmp_ent_set_cmp_mode big (Some e) m)"
proof (cases "unat (cmp_mode_value m) < 256")
  case True
  then show ?thesis using writes_sets_field [OF sets_cmp_mode [OF _ True]] by (simp add: try_writes_def)
next
  case False
  then have "\<not> cmp_mode_value m \<le> 0xFF" by (simp add: word_le_nat_alt)
  then show ?thesis by (simp add: try_writes_def cmp_ent_set_cmp_mode_def hdr_set_def)
qed

lemma try_data_type_chunk:
  "try_writes [(F_DATA_TYPE, data_type_code DATA_TYPE_CHUNK raw)] e (cmp_ent_set_data_type big (Some e) DATA_TYPE_CHUNK raw)"
  using writes_sets_field [OF sets_data_type, of e DATA_TYPE_CHUNK raw big] by (simp add: try_writes_def)

text \<open>The setters of a header that is not raw, with their fields and values.\<close>

definition chunk_setters ::
  "bool \<Rightarrow> u32 \<Rightarrow> u32 \<Rightarrow> cmp_cfg \<Rightarrow> u32 \<Rightarrow> (ent_field \<times> nat \<times> (buffer option \<Rightarrow> set_result)) list" where
  "chunk_setters big version chunk_size cfg ent_size =
     [(F_VERSION_ID, unat version, \<lambda>ent. cmp_ent_set_version_id big ent version),
        (F_SIZE, unat ent_size, \<lambda>ent. cmp_ent_set_size big ent ent_size),
        (F_ORIGINAL_SIZE, unat chunk_size, \<lambda>ent. cmp_ent_set_original_size big ent chunk_size),
        (F_DATA_TYPE, data_type_code DATA_TYPE_CHUNK (cmp_mode cfg = CMP_MODE_RAW),
          \<lambda>ent. cmp_ent_set_data_type big ent DATA_TYPE_CHUNK (cmp_mode cfg = CMP_MODE_RAW)),
        (F_CMP_MODE, unat (cmp_mode_value (cmp_mode cfg)), \<lambda>ent. cmp_ent_set_cmp_mode big ent (cmp_mode cfg)),
        (F_MODEL_VALUE, unat (model_value cfg), \<lambda>ent. cmp_ent_set_model_value big ent (model_value cfg)),
        (F_MODEL_ID, unat (0 :: u32), \<lambda>ent. cmp_ent_set_model_id big ent 0),
        (F_MODEL_COUNTER, unat (0 :: u32), \<lambda>ent. cmp_ent_set_model_counter big ent 0),
        (F_RESERVED, unat (0 :: u8), \<lambda>ent. cmp_ent_set_reserved big ent 0),
        (F_LOSSY_CMP_PAR, unat (round_par cfg), \<lambda>ent. cmp_ent_set_lossy_cmp_par big ent (round_par cfg))] @
     (if cmp_mode cfg \<noteq> CMP_MODE_RAW then
       [(F_NON_IMA_SPILL1, unat (spill_par_1 cfg), \<lambda>ent. cmp_ent_set_non_ima_spill1 big ent (spill_par_1 cfg)),
        (F_NON_IMA_CMP_PAR1, unat (cmp_par_1 cfg), \<lambda>ent. cmp_ent_set_non_ima_cmp_par1 big ent (cmp_par_1 cfg)),
        (F_NON_IMA_SPILL2, unat (spill_par_2 cfg), \<lambda>ent. cmp_ent_set_non_ima_spill2 big ent (spill_par_2 cfg)),
        (F_NON_IMA_CMP_PAR2, unat (cmp_par_2 cfg), \<lambda>ent. cmp_ent_set_non_ima_cmp_par2 big ent (cmp_par_2 cfg)),
        (F_NON_IMA_SPILL3, unat (spill_par_3 cfg), \<lambda>ent. cmp_ent_set_non_ima_spill3 big ent (spill_par_3 cfg)),
        (F_NON_IMA_CMP_PAR3, unat (cmp_par_3 cfg), \<lambda>ent. cmp_ent_set_non_ima_cmp_par3 big ent (cmp_par_3 cfg)),
        (F_NON_IMA_SPILL4, unat (spill_par_4 cfg), \<lambda>ent. cmp_ent_set_non_ima_spill4 big ent (spill_par_4 cfg)),
        (F_NON_IMA_CMP_PAR4, unat (cmp_par_4 cfg), \<lambda>ent. cmp_ent_set_non_ima_cmp_par4 big ent (cmp_par_4 cfg)),
        (F_NON_IMA_SPILL5, unat (spill_par_5 cfg), \<lambda>ent. cmp_ent_set_non_ima_spill5 big ent (spill_par_5 cfg)),
        (F_NON_IMA_CMP_PAR5, unat (cmp_par_5 cfg), \<lambda>ent. cmp_ent_set_non_ima_cmp_par5 big ent (cmp_par_5 cfg)),
        (F_NON_IMA_SPILL6, unat (spill_par_6 cfg), \<lambda>ent. cmp_ent_set_non_ima_spill6 big ent (spill_par_6 cfg)),
        (F_NON_IMA_CMP_PAR6, unat (cmp_par_6 cfg), \<lambda>ent. cmp_ent_set_non_ima_cmp_par6 big ent (cmp_par_6 cfg))] else [])"

lemma chunk_setters_eq:
  "chunk_header_setters big version chunk_size cfg ent_size = map (\<lambda>(f, n, g). g) (chunk_setters big version chunk_size cfg ent_size)"
  by (simp add: chunk_header_setters_def chunk_setters_def)

definition chunk_fields :: "u32 \<Rightarrow> u32 \<Rightarrow> cmp_cfg \<Rightarrow> u32 \<Rightarrow> (ent_field \<times> nat) list" where
  "chunk_fields version chunk_size cfg ent_size =
     map (\<lambda>(f, n, g). (f, n)) (chunk_setters True version chunk_size cfg ent_size)"

lemma chunk_fields_eq: "map (\<lambda>(f, n, g). (f, n)) (chunk_setters big version chunk_size cfg ent_size) =
    chunk_fields version chunk_size cfg ent_size"
  by (simp add: chunk_fields_def chunk_setters_def)

lemmas chunk_try_sets = ef_version_id.try_sets ef_size.try_sets ef_original_size.try_sets try_data_type_chunk try_cmp_mode
  ef_model_value.try_sets ef_model_id.try_sets ef_model_counter.try_sets ef_reserved.try_sets ef_lossy_cmp_par.try_sets
  ef_non_ima_spill1.try_sets ef_non_ima_cmp_par1.try_sets ef_non_ima_spill2.try_sets ef_non_ima_cmp_par2.try_sets
  ef_non_ima_spill3.try_sets ef_non_ima_cmp_par3.try_sets ef_non_ima_spill4.try_sets ef_non_ima_cmp_par4.try_sets
  ef_non_ima_spill5.try_sets ef_non_ima_cmp_par5.try_sets ef_non_ima_spill6.try_sets ef_non_ima_cmp_par6.try_sets

lemmas chunk_try_zero = ef_model_id.try_sets [where v = 0, simplified]
  ef_model_counter.try_sets [where v = 0, simplified] try_cmp_mode [where m = CMP_MODE_RAW, simplified]
  ef_reserved.try_sets [where v = 0, simplified]

lemma chunk_setters_write:
  "try_writes (chunk_fields version chunk_size cfg ent_size) e
     (set_all (chunk_header_setters big version chunk_size cfg ent_size) 0 (Some e))"
  unfolding chunk_setters_eq chunk_fields_eq [symmetric, of version chunk_size cfg ent_size big]
proof (rule set_all_writes)
  have "list_all (\<lambda>(f, n, g). \<forall>e. try_writes [(f, n)] e (g (Some e))) (chunk_setters big version chunk_size cfg ent_size)"
    by (cases "cmp_mode cfg = CMP_MODE_RAW") (simp_all add: chunk_setters_def chunk_try_sets chunk_try_zero)
  then show "try_writes [(f, n)] e (g (Some e))"
    if "(f, n, g) \<in> set (chunk_setters big version chunk_size cfg ent_size)" for e g f n
    using that by (auto simp: list_all_iff)
next
  show "sorted_wrt disjoint_fields (map fst (chunk_setters big version chunk_size cfg ent_size))"
    by (cases "cmp_mode cfg = CMP_MODE_RAW") (simp_all add: chunk_setters_def disjoint_fields_def)
qed

lemma chunk_field_disjoint:
  "(f, n) \<in> set (chunk_fields version chunk_size cfg ent_size) \<Longrightarrow>
     disjoint_fields F_START_TIMESTAMP f \<and> disjoint_fields F_END_TIMESTAMP f"
  by (cases "cmp_mode cfg = CMP_MODE_RAW") (auto simp: chunk_fields_def chunk_setters_def disjoint_fields_def)

lemma build_chunk_header_writes:
  assumes len: "64 \<le> length d"
  shows "\<exists>r e'. cmp_ent_build_chunk_header big st (Some d) chunk_size cfg t0 ent_size = Some (r, Some e') \<and>
    length e' = length d \<and> drop 64 e' = drop 64 d \<and>
    (cmp_is_error r \<or>
      r = (if cmp_mode cfg = CMP_MODE_RAW then GENERIC_HEADER_SIZE else NON_IMAGETTE_HEADER_SIZE) \<and>
      (\<forall>(f, n) \<in> set (chunk_fields (version_identifier st) chunk_size cfg ent_size). ent_value f e' = Some n))"
proof -
  let ?fs = "chunk_fields (version_identifier st) chunk_size cfg ent_size"
  let ?set = "set_all (chunk_header_setters big (version_identifier st) chunk_size cfg ent_size) 0 (Some d)"
  obtain e1 x where e1: "?set = Some (x, Some e1)" "length e1 = length d" "drop 64 e1 = drop 64 d"
    and x: "x = - 1 \<or> x = 0 \<and> writes ?fs d ?set" by (rule try_writesE [OF chunk_setters_write len])
  have l1: "64 \<le> length e1" using e1(2) len by simp
  obtain e2 y where e2: "cmp_ent_set_start_timestamp big (Some e1) t0 = Some (y, Some e2)" "length e2 = length e1" "drop 64 e2 = drop 64 e1"
    and y: "y = - 1 \<or> y = 0 \<and> writes [(F_START_TIMESTAMP, unat t0)] e1 (cmp_ent_set_start_timestamp big (Some e1) t0)"
    by (rule try_writesE [OF ef_start_timestamp.try_sets l1])
  have l2: "64 \<le> length e2" using e2(2) l1 by simp
  obtain e3 z where e3: "cmp_ent_set_end_timestamp big (Some e2) (get_timestamp st 1) = Some (z, Some e3)" "length e3 = length e2" "drop 64 e3 = drop 64 e2"
    and z: "z = - 1 \<or> z = 0 \<and> writes [(F_END_TIMESTAMP, unat (get_timestamp st 1))] e2 (cmp_ent_set_end_timestamp big (Some e2) (get_timestamp st 1))"
    by (rule try_writesE [OF ef_end_timestamp.try_sets l2])
  show ?thesis
  proof (cases "x = 0 \<and> y = 0 \<and> z = 0")
    case True
    have "ent_value f e3 = Some n" if f: "(f, n) \<in> set ?fs" for f n
    proof -
      have "ent_value f e1 = Some n" using x True e1(1) f len by (auto elim!: writesE)
      moreover have "ent_value f e2 = ent_value f e1"
        using y True e2(1) l1 chunk_field_disjoint [OF f] by (auto elim!: writesE)
      moreover have "ent_value f e3 = ent_value f e2"
        using z True e3(1) l2 chunk_field_disjoint [OF f] by (auto elim!: writesE)
      ultimately show ?thesis by simp
    qed
    then show ?thesis using True e1 e2 e3 by (auto simp: cmp_ent_build_chunk_header_def Let_def)
  next
    case False
    then consider "x = - 1" | "x = 0" "y = - 1" | "x = 0" "y = 0" "z = - 1" using x y z by auto
    then show ?thesis
      by cases (use e1 e2 e3 in \<open>simp_all add: cmp_ent_build_chunk_header_def Let_def cmp_is_error_CMP_ERROR\<close>)
  qed
qed

section \<open>Headers that fit\<close>

lemma set_all_fits:
  assumes "list_all (\<lambda>(f, n, g). \<forall>e. 64 \<le> length e \<longrightarrow> (\<exists>e'. g (Some e) = Some (0, Some e') \<and> length e' = length e)) ts"
    and "64 \<le> length e"
  shows "\<exists>e'. set_all (map (\<lambda>(f, n, g). g) ts) 0 (Some e) = Some (0, Some e') \<and> length e' = length e"
  using assms
proof (induction ts arbitrary: e)
  case (Cons t ts)
  obtain f n g where t: "t = (f, n, g)" by (cases t)
  then obtain e1 where e1: "g (Some e) = Some (0, Some e1)" "length e1 = length e"
    using Cons.prems by auto
  have "\<exists>e'. set_all (map (\<lambda>(f, n, g). g) ts) 0 (Some e1) = Some (0, Some e') \<and> length e' = length e1"
    using Cons.prems e1(2) by (intro Cons.IH) simp_all
  then show ?case using e1 t by auto
qed simp

lemma sets_field_result: "sets_field f n e r \<Longrightarrow> \<exists>e'. r = Some (0, Some e') \<and> length e' = length e"
  by (auto simp: sets_field_def)

context entity_field
begin

lemma set_ok:
  "unat v < 2 ^ (8 * field_len f) \<Longrightarrow> 64 \<le> length e \<Longrightarrow> \<exists>e'. setf big (Some e) v = Some (0, Some e') \<and> length e' = length e"
  by (rule sets_field_result, rule sets)

end

lemma set_mode_ok:
  "unat (cmp_mode_value m) < 2 ^ (8 * field_len F_CMP_MODE) \<Longrightarrow> 64 \<le> length e \<Longrightarrow>
     \<exists>e'. cmp_ent_set_cmp_mode big (Some e) m = Some (0, Some e') \<and> length e' = length e"
  by (rule sets_field_result, rule sets_cmp_mode) simp_all

lemma set_chunk_type_ok:
  "64 \<le> length e \<Longrightarrow> \<exists>e'. cmp_ent_set_data_type big (Some e) DATA_TYPE_CHUNK raw = Some (0, Some e') \<and> length e' = length e"
  by (rule sets_field_result, rule sets_data_type) simp_all

lemmas chunk_set_ok = ef_version_id.set_ok ef_size.set_ok ef_original_size.set_ok set_chunk_type_ok set_mode_ok
  ef_model_value.set_ok ef_model_id.set_ok ef_model_counter.set_ok ef_reserved.set_ok ef_lossy_cmp_par.set_ok
  ef_non_ima_spill1.set_ok ef_non_ima_cmp_par1.set_ok ef_non_ima_spill2.set_ok ef_non_ima_cmp_par2.set_ok
  ef_non_ima_spill3.set_ok ef_non_ima_cmp_par3.set_ok ef_non_ima_spill4.set_ok ef_non_ima_cmp_par4.set_ok
  ef_non_ima_spill5.set_ok ef_non_ima_cmp_par5.set_ok ef_non_ima_spill6.set_ok ef_non_ima_cmp_par6.set_ok

definition fields_fit :: "(ent_field \<times> nat) list \<Rightarrow> bool" where
  "fields_fit fs \<longleftrightarrow> (\<forall>(f, n) \<in> set fs. n < 2 ^ (8 * field_len f))"

lemma build_chunk_header_fits:
  assumes len: "64 \<le> length d" and fit: "fields_fit (chunk_fields (version_identifier st) chunk_size cfg ent_size)"
    and times: "unat t0 < 2 ^ 48" "unat (get_timestamp st 1) < 2 ^ 48"
  shows "\<exists>e. cmp_ent_build_chunk_header big st (Some d) chunk_size cfg t0 ent_size =
    Some (if cmp_mode cfg = CMP_MODE_RAW then GENERIC_HEADER_SIZE else NON_IMAGETTE_HEADER_SIZE, Some e)"
proof -
  let ?ts = "chunk_setters big (version_identifier st) chunk_size cfg ent_size"
  have "list_all (\<lambda>(f, n, g). n < 2 ^ (8 * field_len f) \<longrightarrow>
      (\<forall>e. 64 \<le> length e \<longrightarrow> (\<exists>e'. g (Some e) = Some (0, Some e') \<and> length e' = length e))) ?ts"
    unfolding chunk_setters_def
    by (cases "cmp_mode cfg = CMP_MODE_RAW") (simp_all only: if_True if_False simp_thms append.simps list.pred_inject prod.case,
      (intro conjI impI allI TrueI chunk_set_ok; assumption)+)
  moreover have "list_all (\<lambda>(f, n, g). n < 2 ^ (8 * field_len f)) ?ts"
    using fit by (auto simp: fields_fit_def chunk_fields_eq [of big, symmetric] list_all_iff)
  ultimately have ok: "list_all (\<lambda>(f, n, g). \<forall>e. 64 \<le> length e \<longrightarrow> (\<exists>e'. g (Some e) = Some (0, Some e') \<and> length e' = length e)) ?ts"
    by (auto simp: list_all_iff)
  obtain e1 where e1: "set_all (chunk_header_setters big (version_identifier st) chunk_size cfg ent_size) 0 (Some d) = Some (0, Some e1)"
    "length e1 = length d" using set_all_fits [OF ok len] by (auto simp: chunk_setters_eq)
  obtain e2 where e2: "cmp_ent_set_start_timestamp big (Some e1) t0 = Some (0, Some e2)" "length e2 = length e1"
    using ef_start_timestamp.set_ok [of t0 e1 big] times(1) e1(2) len by auto
  obtain e3 where "cmp_ent_set_end_timestamp big (Some e2) (get_timestamp st 1) = Some (0, Some e3)"
    using ef_end_timestamp.set_ok [of "get_timestamp st 1" e2 big] times(2) e2(2) e1(2) len by auto
  then show ?thesis using e1 e2 by (simp add: cmp_ent_build_chunk_header_def Let_def)
qed

section \<open>Reading the header\<close>

lemma ucast_of_unat: "unat (w :: 'a::len word) = unat (v :: 'b::len word) \<Longrightarrow> (ucast w :: 'b word) = v"
  by (metis of_nat_unat unsigned_of_nat word_unat_eq_iff of_nat_inverse ucast_id)

context entity_field
begin

lemma get_ucast:
  assumes "ent_value f e = Some (unat (v :: 'c::len word))"
  obtains w where "getf big (Some e) = Some w" and "(ucast w :: 'c word) = v"
proof -
  obtain w where w: "getf big (Some e) = Some w" "unat w = unat v"
    using get_value [of big e] assms by (auto simp: map_option_eq_Some)
  then show ?thesis using that ucast_of_unat by blast
qed

end

lemma ent_value_less: "ent_value f e = Some n \<Longrightarrow> n < 2 ^ (8 * field_len f)"
proof -
  assume "ent_value f e = Some n"
  then obtain w :: u64 where w: "load_be (field_len f) (field_off f) e = Some w" "n = unat w"
    by (auto simp: ent_value_def)
  then have "w = be_word (take (field_len f) (drop (field_off f) e))" by (auto simp: load_be_def split: if_splits)
  then have "\<not> bit w k" if "8 * field_len f \<le> k" for k
    using that bit_be_word_high [of "take (field_len f) (drop (field_off f) e)" k, where 'a = 64] by simp
  then show ?thesis using w(2) by (simp add: unat_less_iff_bits)
qed

lemma read_chunk_header:
  assumes fields: "\<forall>(f, n) \<in> set (chunk_fields version chunk_size cfg ent_size). ent_value f e = Some n"
    and mode: "cmp_mode_is_supported (cmp_mode cfg)" "cmp_mode cfg \<noteq> CMP_MODE_RAW"
    and pars: "cmp_cfg_gen_par_is_invalid (Some (cfg\<lparr>data_type := DATA_TYPE_CHUNK\<rparr>)) = 0"
    and size: "78 \<le> unat ent_size" and chunk: "12 \<le> unat chunk_size"
  shows "\<exists>cfg'. cmp_ent_read_header big e cmp_cfg_zero = Some (0, cfg', 64) \<and> same_pars cfg cfg' \<and>
    data_type cfg' = DATA_TYPE_CHUNK \<and> stream_size cfg' = word_of_nat (unat ent_size - 64)"
proof -
  have val: "ent_value f e = Some n" if "(f, n) \<in> set (chunk_fields version chunk_size cfg ent_size)" for f n
    using fields that by auto
  have sz: "ent_value F_SIZE e = Some (unat ent_size)" by (rule val) (simp add: chunk_fields_def chunk_setters_def)
  have ent: "entity_of DATA_TYPE_CHUNK False (unat ent_size) e"
    using ent_value_less [OF sz] sz val [of F_DATA_TYPE] mode(2)
    by (simp add: entity_of_def cmp_data_type_is_invalid_def) (simp add: chunk_fields_def chunk_setters_def)
  have h: "cmp_ent_cal_hdr_size DATA_TYPE_CHUNK False = 64" by (simp add: cmp_ent_cal_hdr_size_def header_sizes)
  have size_get: "cmp_ent_get_cmp_data_size big (Some e) = Some (word_of_nat (unat ent_size - 64))"
    using entity_of_data_size [OF ent] size by (simp add: h)
  have in_fields: "(F_NON_IMA_CMP_PAR1, unat (cmp_par_1 cfg)) \<in> set (chunk_fields version chunk_size cfg ent_size)"
    "(F_NON_IMA_CMP_PAR2, unat (cmp_par_2 cfg)) \<in> set (chunk_fields version chunk_size cfg ent_size)"
    "(F_NON_IMA_CMP_PAR3, unat (cmp_par_3 cfg)) \<in> set (chunk_fields version chunk_size cfg ent_size)"
    "(F_NON_IMA_CMP_PAR4, unat (cmp_par_4 cfg)) \<in> set (chunk_fields version chunk_size cfg ent_size)"
    "(F_NON_IMA_CMP_PAR5, unat (cmp_par_5 cfg)) \<in> set (chunk_fields version chunk_size cfg ent_size)"
    "(F_NON_IMA_CMP_PAR6, unat (cmp_par_6 cfg)) \<in> set (chunk_fields version chunk_size cfg ent_size)"
    "(F_NON_IMA_SPILL1, unat (spill_par_1 cfg)) \<in> set (chunk_fields version chunk_size cfg ent_size)"
    "(F_NON_IMA_SPILL2, unat (spill_par_2 cfg)) \<in> set (chunk_fields version chunk_size cfg ent_size)"
    "(F_NON_IMA_SPILL3, unat (spill_par_3 cfg)) \<in> set (chunk_fields version chunk_size cfg ent_size)"
    "(F_NON_IMA_SPILL4, unat (spill_par_4 cfg)) \<in> set (chunk_fields version chunk_size cfg ent_size)"
    "(F_NON_IMA_SPILL5, unat (spill_par_5 cfg)) \<in> set (chunk_fields version chunk_size cfg ent_size)"
    "(F_NON_IMA_SPILL6, unat (spill_par_6 cfg)) \<in> set (chunk_fields version chunk_size cfg ent_size)"
    "(F_MODEL_VALUE, unat (model_value cfg)) \<in> set (chunk_fields version chunk_size cfg ent_size)"
    "(F_LOSSY_CMP_PAR, unat (round_par cfg)) \<in> set (chunk_fields version chunk_size cfg ent_size)"
    "(F_ORIGINAL_SIZE, unat chunk_size) \<in> set (chunk_fields version chunk_size cfg ent_size)"
    "(F_RESERVED, unat (0 :: u8)) \<in> set (chunk_fields version chunk_size cfg ent_size)"
    "(F_CMP_MODE, unat (cmp_mode_value (cmp_mode cfg))) \<in> set (chunk_fields version chunk_size cfg ent_size)"
    using mode(2) by (simp_all add: chunk_fields_def chunk_setters_def)
  note v = in_fields [THEN val]
  obtain m1 where m1: "cmp_ent_get_non_ima_cmp_par1 big (Some e) = Some m1" "(ucast m1 :: u32) = cmp_par_1 cfg"
    by (rule ef_non_ima_cmp_par1.get_ucast [OF v(1)])
  obtain m2 where m2: "cmp_ent_get_non_ima_cmp_par2 big (Some e) = Some m2" "(ucast m2 :: u32) = cmp_par_2 cfg"
    by (rule ef_non_ima_cmp_par2.get_ucast [OF v(2)])
  obtain m3 where m3: "cmp_ent_get_non_ima_cmp_par3 big (Some e) = Some m3" "(ucast m3 :: u32) = cmp_par_3 cfg"
    by (rule ef_non_ima_cmp_par3.get_ucast [OF v(3)])
  obtain m4 where m4: "cmp_ent_get_non_ima_cmp_par4 big (Some e) = Some m4" "(ucast m4 :: u32) = cmp_par_4 cfg"
    by (rule ef_non_ima_cmp_par4.get_ucast [OF v(4)])
  obtain m5 where m5: "cmp_ent_get_non_ima_cmp_par5 big (Some e) = Some m5" "(ucast m5 :: u32) = cmp_par_5 cfg"
    by (rule ef_non_ima_cmp_par5.get_ucast [OF v(5)])
  obtain m6 where m6: "cmp_ent_get_non_ima_cmp_par6 big (Some e) = Some m6" "(ucast m6 :: u32) = cmp_par_6 cfg"
    by (rule ef_non_ima_cmp_par6.get_ucast [OF v(6)])
  note spills = ef_non_ima_spill1.get_eqI [OF v(7)] ef_non_ima_spill2.get_eqI [OF v(8)] ef_non_ima_spill3.get_eqI [OF v(9)] ef_non_ima_spill4.get_eqI [OF v(10)] ef_non_ima_spill5.get_eqI [OF v(11)] ef_non_ima_spill6.get_eqI [OF v(12)]
  obtain mv where mv: "cmp_ent_get_model_value big (Some e) = Some mv" "(ucast mv :: u32) = model_value cfg"
    by (rule ef_model_value.get_ucast [OF v(13)])
  obtain ro where ro: "cmp_ent_get_lossy_cmp_par big (Some e) = Some ro" "(ucast ro :: u32) = round_par cfg"
    by (rule ef_lossy_cmp_par.get_ucast [OF v(14)])
  note org = ef_original_size.get_eqI [OF v(15)] and res = ef_reserved.get_eqI [OF v(16)]
  have "map_option unat (cmp_ent_get_cmp_mode big (Some e)) = Some (unat (cmp_mode_value (cmp_mode cfg)))"
    using load_be_ent_value [of F_CMP_MODE e, where 'a = 8] v(17) by (simp add: cmp_ent_get_cmp_mode_def hdr_get_def get_be_load)
  then obtain md where md: "cmp_ent_get_cmp_mode big (Some e) = Some md" "(ucast md :: u32) = cmp_mode_value (cmp_mode cfg)"
    using ucast_of_unat by (auto simp: map_option_eq_Some)
  have md2: "cmp_mode_of (cmp_mode_value (cmp_mode cfg)) = cmp_mode cfg"
    using mode by (cases "cmp_mode cfg") (simp_all add: cmp_mode_of_def cmp_mode_is_supported_def)
  let ?c = "cmp_cfg_zero\<lparr>data_type := DATA_TYPE_CHUNK, cmp_mode := cmp_mode cfg, model_value := model_value cfg,
      round_par := round_par cfg, stream_size := word_of_nat (unat ent_size - 64)\<rparr>"
  have gen: "cmp_cfg_gen_par_is_invalid (Some ?c) = 0"
    using pars by (simp add: cmp_cfg_gen_par_is_invalid_def split: if_splits)
  have u: "unat (word_of_nat (unat ent_size - 64) :: u32) = unat ent_size - 64"
    using ent by (intro unat_of_nat_small) (simp add: entity_of_def, linarith)
  have u': "unat (ent_size - 64) = unat ent_size - 64"
    using size by (subst unat_sub) (simp_all add: word_le_nat_alt)
  have bad: "\<not> word_of_nat (unat ent_size - 64) < (word_of_nat COLLECTION_HDR_SIZE + word_of_nat CMP_COLLECTION_FILD_SIZE :: u32)"
    "\<not> chunk_size < word_of_nat COLLECTION_HDR_SIZE" "\<not> ent_size < 64"
    using size chunk by (simp_all add: word_less_nat_alt u u' COLLECTION_HDR_SIZE_def CMP_COLLECTION_FILD_SIZE_def)
  have adr: "cmp_ent_get_data_buf_const big (Some e) = Some (Some 64)"
    using entity_of_getters(4) [OF ent, of big] by (simp add: cmp_ent_get_data_buf_const_def h)
  have es: "cmp_ent_get_size big (Some e) = Some ent_size"
    using entity_of_getters(3) [OF ent, of big] by simp
  have nonima: "read_non_imagette_pars big e c = Some (c\<lparr>cmp_par_1 := cmp_par_1 cfg, spill_par_1 := spill_par_1 cfg,
      cmp_par_2 := cmp_par_2 cfg, spill_par_2 := spill_par_2 cfg, cmp_par_3 := cmp_par_3 cfg, spill_par_3 := spill_par_3 cfg,
      cmp_par_4 := cmp_par_4 cfg, spill_par_4 := spill_par_4 cfg, cmp_par_5 := cmp_par_5 cfg, spill_par_5 := spill_par_5 cfg,
      cmp_par_6 := cmp_par_6 cfg, spill_par_6 := spill_par_6 cfg\<rparr>)" for c
    using m1 m2 m3 m4 m5 m6 spills by (simp add: read_non_imagette_pars_def)
  have m: "cmp_mode_of (ucast md) = cmp_mode cfg" using md(2) md2 by simp
  have "cmp_ent_read_header big e cmp_cfg_zero = Some (0, ?c\<lparr>samples := 0,
      cmp_par_1 := cmp_par_1 cfg, spill_par_1 := spill_par_1 cfg,
      cmp_par_2 := cmp_par_2 cfg, spill_par_2 := spill_par_2 cfg, cmp_par_3 := cmp_par_3 cfg, spill_par_3 := spill_par_3 cfg,
      cmp_par_4 := cmp_par_4 cfg, spill_par_4 := spill_par_4 cfg, cmp_par_5 := cmp_par_5 cfg, spill_par_5 := spill_par_5 cfg,
      cmp_par_6 := cmp_par_6 cfg, spill_par_6 := spill_par_6 cfg\<rparr>, 64)"
    using entity_of_getters(1,2) [OF ent, of big] md(1) m mode(2) mv ro size_get gen org res bad adr es h
    by (simp add: cmp_ent_read_header_def Let_def nonima)
  then show ?thesis by (cases cfg) (simp add: same_pars_def cmp_cfg_zero_def)
qed

end
