(* ===== verification/Chunk_Round.thy ===== *)
theory Chunk_Round
  imports Chunk_Header
begin

text \<open>
  The decompression of a chunk: the entries that the compressor has written one after the other
  are found, decompressed and put together again.
\<close>

section \<open>Entries in the data of the entity\<close>

lemma hdr_getters:
  assumes "COLLECTION_HDR_SIZE \<le> length col"
  shows "cmp_col_get_data_length big (take COLLECTION_HDR_SIZE col @ x) = cmp_col_get_data_length big col"
    and "cmp_col_get_subservice big (take COLLECTION_HDR_SIZE col @ x) = cmp_col_get_subservice big col"
    and "col_length big (take COLLECTION_HDR_SIZE col @ x) = col_length big col"
    and "col_type big (take COLLECTION_HDR_SIZE col @ x) = col_type big col"
    and "cmp_col_get_size big (take COLLECTION_HDR_SIZE col @ x) = cmp_col_get_size big col"
proof -
  have h: "COLLECTION_HDR_SIZE \<le> length (take COLLECTION_HDR_SIZE col)" using assms by simp
  have "col = take COLLECTION_HDR_SIZE col @ drop COLLECTION_HDR_SIZE col" by simp
  then show "cmp_col_get_data_length big (take COLLECTION_HDR_SIZE col @ x) = cmp_col_get_data_length big col"
    "cmp_col_get_subservice big (take COLLECTION_HDR_SIZE col @ x) = cmp_col_get_subservice big col"
    "col_length big (take COLLECTION_HDR_SIZE col @ x) = col_length big col"
    "col_type big (take COLLECTION_HDR_SIZE col @ x) = col_type big col"
    "cmp_col_get_size big (take COLLECTION_HDR_SIZE col @ x) = cmp_col_get_size big col"
    using col_append [OF h, of big x] col_append [OF h, of big "drop COLLECTION_HDR_SIZE col"]
    by (simp_all add: cmp_col_get_size_def)
qed

lemma exact_size:
  assumes "exact_collection big col"
  shows "\<exists>n. cmp_col_get_size big col = Some n \<and> unat n = length col"
proof -
  have ok: "collection_ok big col" and l: "length col = COLLECTION_HDR_SIZE + col_length big col"
    using assms by (simp_all add: exact_collection_def)
  obtain len where len: "cmp_col_get_data_length big col = Some len" "unat len = col_length big col"
    using collection_getters [OF ok] by metis
  have "unat (ucast len :: u32) = col_length big col" using len(2) by (simp add: unat_ucast_wide)
  then have "unat (word_of_nat COLLECTION_HDR_SIZE + ucast len :: u32) = length col"
    using l col_length_less [of big col] by (subst unat_add_small) (simp_all add: COLLECTION_HDR_SIZE_def)
  then show ?thesis using len(1) by (simp add: cmp_col_get_size_def)
qed

lemma payload_size_field:
  assumes "n < 2 ^ 16"
  shows "get_cmp_collection_data_length big (be_bytes 2 (word_of_nat n :: u16) @ x) = Some (word_of_nat n)"
    and "\<exists>m. get_cmp_collection_size big (be_bytes 2 (word_of_nat n :: u16) @ x) = Some m \<and>
      unat m = CMP_COLLECTION_FILD_SIZE + COLLECTION_HDR_SIZE + n"
proof -
  have "be_word (be_bytes 2 (y :: u16)) = y" for y by (rule be_word_be_bytes) (auto dest: bit_imp_le_length)
  then have "get_be16 big 0 (be_bytes 2 (word_of_nat n :: u16) @ x) = Some (word_of_nat n)"
    by (simp add: get_be_load load_be_def)
  then show l: "get_cmp_collection_data_length big (be_bytes 2 (word_of_nat n :: u16) @ x) = Some (word_of_nat n)"
    by (simp add: get_cmp_collection_data_length_def get_be16_def CMP_COLLECTION_FILD_SIZE_def)
  have "unat (word_of_nat n :: u16) = n" using assms by (simp add: unat_of_nat take_bit_eq_mod)
  then have "unat (ucast (word_of_nat n :: u16) :: u32) = n" by (simp add: unat_ucast_wide)
  then have "unat (word_of_nat CMP_COLLECTION_FILD_SIZE + word_of_nat COLLECTION_HDR_SIZE + ucast (word_of_nat n :: u16) :: u32) =
      CMP_COLLECTION_FILD_SIZE + COLLECTION_HDR_SIZE + n"
    using assms by (subst unat_add_small) (simp_all add: CMP_COLLECTION_FILD_SIZE_def COLLECTION_HDR_SIZE_def)
  then show "\<exists>m. get_cmp_collection_size big (be_bytes 2 (word_of_nat n :: u16) @ x) = Some m \<and>
      unat m = CMP_COLLECTION_FILD_SIZE + COLLECTION_HDR_SIZE + n"
    by (simp add: get_cmp_collection_size_def l)
qed

text \<open>Entries of exact collections with payloads that are not longer than the data.\<close>

definition entries_ok :: "bool \<Rightarrow> (buffer \<times> buffer) list \<Rightarrow> bool" where
  "entries_ok big xs \<longleftrightarrow> (\<forall>(col, p) \<in> set xs. exact_collection big col \<and> length p \<le> col_length big col)"

lemma entries_append [simp]: "entries cfg (xs @ ys) = entries cfg xs @ entries cfg ys"
  by (simp add: entries_def)

lemma entries_nil [simp]: "entries cfg [] = []"
  by (simp add: entries_def)

lemma entries_coded:
  "cmp_mode cfg \<noteq> CMP_MODE_RAW \<Longrightarrow> entries cfg ((col, p) # xs) =
     be_bytes 2 (word_of_nat (length p) :: u16) @ take COLLECTION_HDR_SIZE col @ p @ entries cfg xs"
  by (simp add: entries_def compressed_entry_def)

lemma entries_okD:
  assumes "entries_ok big ((col, p) # xs)"
  shows "exact_collection big col" "COLLECTION_HDR_SIZE \<le> length col" "length p \<le> col_length big col" "length p < 2 ^ 16"
    "entries_ok big xs" "length col = COLLECTION_HDR_SIZE + col_length big col"
  using assms col_length_less [of big col] by (auto simp: entries_ok_def exact_collection_def)

lemma length_entries_coded:
  "cmp_mode cfg \<noteq> CMP_MODE_RAW \<Longrightarrow> entries_ok big ((col, p) # xs) \<Longrightarrow>
     length (entries cfg ((col, p) # xs)) = CMP_COLLECTION_FILD_SIZE + COLLECTION_HDR_SIZE + length p + length (entries cfg xs)"
  using entries_okD(2) [of big col p xs] by (simp add: entries_coded CMP_COLLECTION_FILD_SIZE_def min_def)

text \<open>The entries are counted and found.\<close>

lemma count_chunks_entries:
  assumes "cmp_mode cfg \<noteq> CMP_MODE_RAW" and "entries_ok big xs" and "drop pos data = entries cfg xs @ rest"
    and "k = pos + length (entries cfg xs)"
  shows "count_chunks big data k pos n = Some (k, n + length xs)"
  using assms(2-)
proof (induction xs arbitrary: pos n)
  case Nil
  then show ?case by (subst count_chunks.simps) simp
next
  case (Cons x xs)
  obtain col p where x: "x = (col, p)" by (cases x)
  note ok = entries_okD [OF Cons.prems(1) [unfolded x]]
  note l = length_entries_coded [OF assms(1) Cons.prems(1) [unfolded x]]
  obtain m where m: "get_cmp_collection_size big (drop pos data) = Some m"
    "unat m = CMP_COLLECTION_FILD_SIZE + COLLECTION_HDR_SIZE + length p"
    using payload_size_field(2) [OF ok(4), of big] Cons.prems(2) by (auto simp: x entries_coded [OF assms(1)])
  have "drop (pos + unat m) data = drop (unat m) (drop pos data)" by (simp add: add.commute)
  also have "\<dots> = entries cfg xs @ rest"
    unfolding Cons.prems(2) x entries_coded [OF assms(1)] m(2) using ok(2)
    by (simp add: CMP_COLLECTION_FILD_SIZE_def)
  finally have "count_chunks big data k (pos + unat m) (n + 1) = Some (k, n + 1 + length xs)"
    using Cons.prems l ok(5) m(2) x by (intro Cons.IH) simp_all
  moreover have "pos + COLLECTION_HDR_SIZE < k" using Cons.prems(3) l x by (simp add: CMP_COLLECTION_FILD_SIZE_def)
  ultimately show ?case using m(1) by (subst count_chunks.simps) simp
qed

lemma find_collection_entries:
  assumes "cmp_mode cfg \<noteq> CMP_MODE_RAW" and "entries_ok big xs" and "drop pos data = entries cfg xs @ rest"
  shows "find_collection big data (length xs) pos dpos =
    Some (pos + length (entries cfg xs), dpos + length (concat (map fst xs)))"
  using assms(2-)
proof (induction xs arbitrary: pos dpos)
  case (Cons x xs)
  obtain col p where x: "x = (col, p)" by (cases x)
  note ok = entries_okD [OF Cons.prems(1) [unfolded x]]
  note l = length_entries_coded [OF assms(1) Cons.prems(1) [unfolded x]]
  have data: "drop pos data = be_bytes 2 (word_of_nat (length p) :: u16) @ take COLLECTION_HDR_SIZE col @ p @ entries cfg xs @ rest"
    using Cons.prems(2) by (simp add: x entries_coded [OF assms(1)])
  obtain m where m: "get_cmp_collection_size big (drop pos data) = Some m"
    "unat m = CMP_COLLECTION_FILD_SIZE + COLLECTION_HDR_SIZE + length p"
    using payload_size_field(2) [OF ok(4), of big] data by auto
  have "drop (pos + CMP_COLLECTION_FILD_SIZE) data = drop CMP_COLLECTION_FILD_SIZE (drop pos data)" by (simp add: add.commute)
  then have hd: "drop (pos + CMP_COLLECTION_FILD_SIZE) data = take COLLECTION_HDR_SIZE col @ p @ entries cfg xs @ rest"
    unfolding data by (simp add: CMP_COLLECTION_FILD_SIZE_def)
  obtain n where n: "cmp_col_get_size big (drop (pos + CMP_COLLECTION_FILD_SIZE) data) = Some n" "unat n = length col"
    using exact_size [OF ok(1)] hdr_getters(5) [OF ok(2)] hd by auto
  have "drop (pos + unat m) data = drop (unat m) (drop pos data)" by (simp add: add.commute)
  also have "\<dots> = entries cfg xs @ rest"
    unfolding data m(2) using ok(2) by (simp add: CMP_COLLECTION_FILD_SIZE_def)
  finally have "find_collection big data (length xs) (pos + unat m) (dpos + unat n) =
      Some (pos + unat m + length (entries cfg xs), dpos + unat n + length (concat (map fst xs)))"
    using ok(5) by (intro Cons.IH)
  then show ?case using m n l by (simp add: x)
qed simp

text \<open>The entry of a collection is parsed.\<close>

lemma parse_entry:
  assumes mode: "cmp_mode cfg \<noteq> CMP_MODE_RAW" and ok: "entries_ok big (pre @ (col, p) # post)"
    and data: "data = entries cfg (pre @ (col, p) # post) @ rest"
    and room: "int (length (concat (map fst pre)) + length col) \<le> decmp_size"
  shows "parse_cmp_collection big data (length pre) cfg1 decmp_size =
    Some (int (length (concat (map fst pre))), (col_cfg big cfg1 col)\<lparr>stream_size := word_of_nat (COLLECTION_HDR_SIZE + length p)\<rparr>,
      length p = col_length big col, length (entries cfg pre) + CMP_COLLECTION_FILD_SIZE)"
proof -
  have okp: "entries_ok big pre" and okc: "entries_ok big ((col, p) # post)" using ok by (simp_all add: entries_ok_def)
  note o = entries_okD [OF okc]
  have cok: "collection_ok big col" using o(1) by (simp add: exact_collection_def)
  obtain len ss where g: "cmp_col_get_data_length big col = Some len" "unat len = col_length big col"
    "cmp_col_get_subservice big col = Some ss" "convert_subservice_to_cmp_data_type ss = col_type big col"
    using collection_getters [OF cok] by metis
  have t: "col_type big col \<in> coded_types" and md: "col_length big col mod size_of_a_sample (col_type big col) = 0"
    using cok by (simp_all add: collection_ok_def)
  have find: "find_collection big data (length pre) 0 0 = Some (length (entries cfg pre), length (concat (map fst pre)))"
    using find_collection_entries [OF mode okp, of 0 data "entries cfg ((col, p) # post) @ rest" 0] data by simp
  have d: "drop (length (entries cfg pre)) data =
      be_bytes 2 (word_of_nat (length p) :: u16) @ take COLLECTION_HDR_SIZE col @ p @ entries cfg post @ rest"
    using data by (simp add: entries_coded [OF mode])
  have "drop (length (entries cfg pre) + CMP_COLLECTION_FILD_SIZE) data =
      drop CMP_COLLECTION_FILD_SIZE (drop (length (entries cfg pre)) data)" by (simp add: add.commute)
  then have hd: "drop (length (entries cfg pre) + CMP_COLLECTION_FILD_SIZE) data = take COLLECTION_HDR_SIZE col @ p @ entries cfg post @ rest"
    unfolding d by (simp add: CMP_COLLECTION_FILD_SIZE_def)
  have u: "unat (word_of_nat (length p) :: u16) = length p" using o(4) by (simp add: unat_of_nat take_bit_eq_mod)
  have gt: "\<not> word_of_nat (length p) > len" using o(3) g(2) by (simp add: word_less_nat_alt u)
  have eq: "(word_of_nat (length p) = len) = (length p = col_length big col)"
    by (simp add: word_unat_eq_iff u g(2))
  have "ucast (word_of_nat (length p) :: u16) = (word_of_nat (length p) :: u32)"
    by (subst of_nat_unat [symmetric]) (simp only: u)
  then have st: "ucast (word_of_nat (length p) :: u16) + word_of_nat COLLECTION_HDR_SIZE = (word_of_nat (COLLECTION_HDR_SIZE + length p) :: u32)"
    by (simp add: add.commute)
  note get = payload_size_field(1) [OF o(4), of big] hdr_getters [OF o(2), of big]
  show ?thesis
    using find gt coded_type_size [OF t] md room o(6) g
    by (cases cfg1) (simp add: parse_cmp_collection_def Let_def d hd get eq st col_cfg_def)
qed

end
