(* ===== verification/Chunk_Entry.thy ===== *)
theory Chunk_Entry
  imports Chunk_Round
begin

text \<open>
  The turn of the decompression loop for one entry: a coded payload is decoded, an uncompressed one
  is copied and converted, and the updated model becomes the one of the compressor.
\<close>

section \<open>One entry\<close>

lemma put_model_unused:
  "\<not> (model_mode_is_used (cmp_mode cfg) \<and> updated_model_buf b \<noteq> None) \<Longrightarrow> put_model cfg k xs b = b"
  by (cases "updated_model_buf b = None") (auto simp: put_model_def set_updated_None)

text \<open>An uncompressed entry is copied to the updated model and converted there.\<close>

lemma raw_entry_to_model:
  fixes big :: bool
  assumes models: "models_ok (COLLECTION_HDR_SIZE + n) cfg c"
    and col: "exact_collection big (hdr @ x)" "length x = n" and hdr: "length hdr = COLLECTION_HDR_SIZE"
    and src: "src c = Some (as, hdr @ raw_data big (col_type big hdr) x @ rest)"
    and used: "model_mode_is_used (cmp_mode cfg)" "updated_model_buf c \<noteq> None"
  shows "do {
      c \<leftarrow> copy_to_updated_model (COLLECTION_HDR_SIZE + n) (src c) c;
      (err, p) \<leftarrow> be_to_cpu_chunk big (Some (bytes_at (updated_model_buf c))) (COLLECTION_HDR_SIZE + n);
      Some (err, set_updated_model (case p of None \<Rightarrow> [] | Some bs \<Rightarrow> bs) c)
    } = Some (0, put_model cfg 0 (hdr @ x) c)"
proof -
  let ?p = "raw_data big (col_type big hdr) x" and ?k = "COLLECTION_HDR_SIZE + n"
  let ?u = "bytes_at (updated_model_buf c)"
  have lu: "?k \<le> length ?u" using models used by (simp add: models_ok_def)
  have copy: "copy_to_updated_model ?k (src c) c = Some (set_updated_model ((hdr @ ?p) @ drop ?k ?u) c)"
    using hdr col(2) lu by (simp add: copy_to_updated_model_def src store_bytes_def)
  have ex: "exact_collection big (hdr @ ?p)" by (rule exact_same_header [OF col(1) hdr]) simp
  have "be_to_cpu_chunk big (Some (concat [hdr @ ?p] @ drop ?k ?u)) ?k =
      Some (0, Some (concat (map (swapped big) [hdr @ ?p]) @ drop ?k ?u))"
    using ex hdr col(2) by (intro swap_all_0) simp_all
  then have be: "be_to_cpu_chunk big (Some ((hdr @ ?p) @ drop ?k ?u)) ?k = Some (0, Some (hdr @ x @ drop ?k ?u))"
    by (simp add: swapped_hdr [OF hdr])
  have "put_bytes 0 (hdr @ x) ?u = hdr @ x @ drop ?k ?u" using hdr col(2) by (simp add: put_bytes_def)
  then show ?thesis using copy be used by (simp add: set_updated_twice put_model_def del: not_None_eq)
qed


lemma same_coding_of_pars:
  assumes "same_pars cc cfg" and "round_par cc = 0"
  shows "same_coding (col_cfg big cc col) ((col_cfg big cfg col)\<lparr>stream_size := n\<rparr>)"
    and "samples ((col_cfg big cfg col)\<lparr>stream_size := n\<rparr>) = samples (col_cfg big cc col)"
  using assms by (cases cc; cases cfg; simp add: same_pars_def same_coding_def col_cfg_def)+

lemma set_rejoin_dst: "rejoin_ptr pos (Some (x, put_bytes 0 col (drop pos d))) (Some (a, d)) = Some (a, put_bytes pos col d)"
  by (simp add: rejoin_ptr_def put_bytes_skip)

lemma nth_collection_steps:
  assumes parse: "parse_cmp_collection big (drop off (bytes_at (src b))) i cfg decmp_size = Some (int pos, cfg', unc, sp)"
    and c: "c = skip_bufs (off + sp) pos pos b"
    and copy: "(if unc \<and> updated_model_buf c \<noteq> None \<and> model_mode_is_used (cmp_mode cfg') then do {
           c \<leftarrow> copy_to_updated_model (unat (stream_size cfg')) (src c) c;
           (err, p) \<leftarrow> be_to_cpu_chunk big (Some (bytes_at (updated_model_buf c))) (unat (stream_size cfg'));
           Some (err, set_updated_model (case p of None \<Rightarrow> [] | Some bs \<Rightarrow> bs) c)
         } else Some (0, c)) = Some (0, c1)"
    and run: "decompressed_data_internal big (Some (if unc then cfg'\<lparr>cmp_mode := CMP_MODE_RAW\<rparr> else cfg')) ICU_DECOMRESSION c1 = Some (r, c2)"
  shows "decompress_nth_collection big off cfg decmp_size i b = Some (r, rejoin_bufs pos pos c2 b)"
  unfolding decompress_nth_collection_def parse
  by (simp only: Option.bind.simps prod.case Let_def nat_int c [symmetric] copy run of_nat_less_0_iff if_False simp_thms)

text \<open>
  The turn of the loop for one entry: \<open>cc\<close> are the parameters of the compressor, \<open>s\<close> and \<open>m\<close> the
  chunk and its model.
\<close>

lemma decompress_entry:
  fixes big :: bool
  assumes mode: "cmp_mode cc \<noteq> CMP_MODE_RAW" "round_par cc = 0" and pars: "same_pars cc cfg"
    and ok: "entries_ok big (pre @ (col, p) # post)"
    and src: "src b = Some (as, e)" "drop off e = entries cfg (pre @ (col, p) # post) @ rest"
    and pos: "pos = length (concat (map fst pre))" and room: "int (pos + length col) \<le> decmp_size"
    and s: "drop pos s = col @ tail" and payload: "payloads_ok big cc s m pos [(col, p)]"
    and models: "models_ok k cfg b" "pos + length col \<le> k"
    and m: "model_mode_is_used (cmp_mode cc) \<Longrightarrow>
      length col \<le> length (drop pos m) \<and> take (length col) (drop pos (bytes_at (model_buf b))) = take (length col) (drop pos m)"
    and dst: "dst b = Some (a, d)" "pos + length col \<le> length d"
  shows "decompress_nth_collection big off cfg decmp_size (length pre) b = Some (int (length col),
    (put_model cc pos (chunk_models big cc s m pos [(col, p)]) b)\<lparr>dst := Some (a, put_bytes pos col d)\<rparr>)"
proof -
  have okc: "entries_ok big ((col, p) # post)" using ok by (simp add: entries_ok_def)
  note o = entries_okD [OF okc]
  have cok: "collection_ok big col" using o(1) by (simp add: exact_collection_def)
  have modec: "cmp_mode cfg \<noteq> CMP_MODE_RAW" "cmp_mode cfg = cmp_mode cc" using mode same_pars_eqs(1) [OF pars] by simp_all
  define n where "n = col_length big col"
  define hdr where "hdr = take COLLECTION_HDR_SIZE col"
  define x where "x = drop COLLECTION_HDR_SIZE col"
  have col: "col = hdr @ x" and lh: "length hdr = COLLECTION_HDR_SIZE" and lx: "length x = n" and lc: "length col = COLLECTION_HDR_SIZE + n"
    using o(2,6) by (simp_all add: hdr_def x_def n_def)
  have n16: "n < 2 ^ 16" using col_length_less by (simp add: n_def)
  define cfg' where "cfg' = (col_cfg big cfg col)\<lparr>stream_size := word_of_nat (COLLECTION_HDR_SIZE + length p)\<rparr>"
  define sp where "sp = length (entries cfg pre) + CMP_COLLECTION_FILD_SIZE"
  have parse: "parse_cmp_collection big (drop off e) (length pre) cfg decmp_size = Some (int pos, cfg', length p = n, sp)"
    unfolding cfg'_def sp_def n_def pos using parse_entry [OF modec(1) ok src(2)] room pos by simp
  define c where "c = skip_bufs (off + sp) pos pos b"
  have "drop (off + sp) e = drop sp (drop off e)" by (simp add: add.commute)
  also have "\<dots> = hdr @ p @ entries cfg post @ rest"
    unfolding src(2) sp_def by (simp add: entries_coded [OF modec(1)] CMP_COLLECTION_FILD_SIZE_def hdr_def)
  finally have sc: "src c = Some (as + (off + sp), hdr @ p @ entries cfg post @ rest)"
    by (simp add: c_def src(1) skip_ptr_def)
  have dc: "dst c = Some (a + pos, drop pos d)" by (simp add: c_def dst skip_ptr_def)
  have ld: "COLLECTION_HDR_SIZE + n \<le> length (drop pos d)" using dst(2) lc by simp
  have mok: "models_ok (pos + (COLLECTION_HDR_SIZE + n)) cc b"
    using models lc models_ok_le [OF models(1), of "pos + (COLLECTION_HDR_SIZE + n)"] models_ok_pars [OF pars] by simp
  then have mc: "models_ok (COLLECTION_HDR_SIZE + n) cc c" unfolding c_def by (rule models_ok_skip)
  let ?s = "drop (pos + COLLECTION_HDR_SIZE) s" and ?m = "drop (pos + COLLECTION_HDR_SIZE) m"
  let ?cc = "col_cfg big cc col"
  have sx: "?s = x @ tail"
  proof -
    have "?s = drop COLLECTION_HDR_SIZE (drop pos s)" by (simp add: add.commute)
    then show ?thesis by (simp add: s col lh)
  qed
  have db: "data_bytes ?cc = n" using data_bytes_col_cfg [OF cok] by (simp add: n_def)
  have dt: "data_type ?cc \<in> coded_types" "data_type ?cc = col_type big col" using cok by (simp_all add: col_cfg_def collection_ok_def)
  have pl: "payload_ok big ?cc ?s ?m p" and v: "cfg_valid ?cc" using payload by simp_all
  define res where "res = chunk_models big cc s m pos [(col, p)]"
  have goal: "decompress_nth_collection big off cfg decmp_size (length pre) b = Some (int (length col),
      rejoin_bufs pos pos ((put_model cc 0 res c)\<lparr>dst := Some (a + pos, put_bytes 0 col (drop pos d))\<rparr>) b)"
  proof (cases "length p = n")
    case True
    then have p: "p = raw_data big (col_type big hdr) x"
      using pl sx lx db dt(2) hdr_getters(4) [OF o(2), of big "[]"] by (auto simp: payload_ok_def hdr_def)
    have res: "res = col" using True sx lx db by (simp add: res_def payload_model_def col lh)
    have ex: "exact_collection big (hdr @ x)" using o(1) by (simp add: col)
    have u: "unat (stream_size cfg') = COLLECTION_HDR_SIZE + n"
    proof -
      have "COLLECTION_HDR_SIZE + n < 2 ^ 32" using n16 by (simp add: COLLECTION_HDR_SIZE_def)
      from unat_of_nat_small [OF this] show ?thesis by (simp add: cfg'_def True)
    qed
    have mode': "cmp_mode cfg' = cmp_mode cc" by (simp add: cfg'_def col_cfg_def modec)
    have copy: "(if length p = n \<and> updated_model_buf c \<noteq> None \<and> model_mode_is_used (cmp_mode cfg') then do {
          c \<leftarrow> copy_to_updated_model (unat (stream_size cfg')) (src c) c;
          (err, p) \<leftarrow> be_to_cpu_chunk big (Some (bytes_at (updated_model_buf c))) (unat (stream_size cfg'));
          Some (err, set_updated_model (case p of None \<Rightarrow> [] | Some bs \<Rightarrow> bs) c)
        } else Some (0, c)) = Some (0, put_model cc 0 col c)"
      using raw_entry_to_model [OF mc ex lx lh sc [unfolded p]] put_model_unused [of cc c 0 col]
      unfolding u mode' col using True by (cases "model_mode_is_used (cmp_mode cc) \<and> updated_model_buf c \<noteq> None") (simp_all only: conj_commute simp_thms if_True if_False)
    have v': "cfg_valid (cfg'\<lparr>cmp_mode := CMP_MODE_RAW\<rparr>)"
    proof (rule cfg_valid_raw)
      show "cfg_valid cfg'"
        using v cfg_valid_coding [OF same_coding_of_pars(1) [OF pars mode(2)]] by (simp add: cfg'_def)
    qed
    have db': "data_bytes (cfg'\<lparr>cmp_mode := CMP_MODE_RAW\<rparr>) = n"
      using data_bytes_col_cfg [OF cok, of cfg] by (simp add: cfg'_def n_def data_bytes_def)
    have dt': "data_type (cfg'\<lparr>cmp_mode := CMP_MODE_RAW\<rparr>) \<in> coded_types" using dt by (simp add: cfg'_def col_cfg_def)
    have run: "decompressed_data_internal big (Some (cfg'\<lparr>cmp_mode := CMP_MODE_RAW\<rparr>)) ICU_DECOMRESSION (put_model cc 0 col c) =
        Some (int (COLLECTION_HDR_SIZE + n), (put_model cc 0 col c)\<lparr>dst := Some (a + pos, put_bytes 0 (hdr @ x) (drop pos d))\<rparr>)"
      by (rule decompress_entry_raw [OF v' dt' _ db' n16 ex lx lh]) (use sc dc ld p in \<open>simp_all\<close>)
    show ?thesis
      using nth_collection_steps [OF _ c_def copy] parse run
      by (simp add: src(1) True res col [symmetric] lc [symmetric])
  next
    case False
    then have cod: "coding_cfg ?cc" and p: "length p < n" and hc: "holds_code (codes big ?cc ?s ?m) p"
      using pl db by (auto simp: payload_ok_def)
    let ?mc = "drop COLLECTION_HDR_SIZE (bytes_at (model_buf c))"
    have same: "same_input ?cc ?s ?m (x @ tail) ?mc"
    proof -
      have "n \<le> length ?m \<and> take n ?mc = take n ?m" if "model_mode_is_used (cmp_mode cc)"
      proof -
        have e: "?mc = drop COLLECTION_HDR_SIZE (drop pos (bytes_at (model_buf b)))" "?m = drop COLLECTION_HDR_SIZE (drop pos m)"
          by (simp_all add: c_def add.commute)
        have "take n (drop COLLECTION_HDR_SIZE y) = drop COLLECTION_HDR_SIZE (take (length col) y)" for y :: buffer
          by (simp add: lc drop_take)
        then show ?thesis using m [OF that] by (simp only: e) (simp add: lc, linarith)
      qed
      then show ?thesis using sx lx by (simp add: same_input_def db col_cfg_mode)
    qed
    note cong = codec.codes_cong [OF dt(1) same] codec.next_model_cong [OF dt(1) same]
    have mb: "model_buf c \<noteq> None" if "model_mode_is_used (cmp_mode ?cc)"
    proof -
      have "COLLECTION_HDR_SIZE \<le> length (bytes_at (model_buf c))"
        using mc that by (simp add: models_ok_def col_cfg_mode)
      then show ?thesis by (cases "model_buf c") (simp_all add: COLLECTION_HDR_SIZE_def)
    qed
    have mok': "models_ok (COLLECTION_HDR_SIZE + n) ?cc c" using mc by (simp add: models_ok_def col_cfg_mode)
    have put': "put_model ?cc i y z = put_model cc i y z" for i y z by (simp add: put_model_def col_cfg_mode)
    have lossy: "op_lossy (coded_ops big (data_type ?cc)) ?cc (x @ tail) = x"
      using codec.lossless [OF dt(1), of "x @ tail"] mode(2) db lx by (simp add: col_cfg_mode)
    have hc': "holds_code (codes big ?cc (x @ tail) ?mc) p" using hc cong(1) by simp
    have run: "decompressed_data_internal big (Some cfg') ICU_DECOMRESSION c = Some (int (COLLECTION_HDR_SIZE + n),
        (put_model ?cc 0 (hdr @ next_model big ?cc (x @ tail) ?mc) c)
          \<lparr>dst := Some (a + pos, put_bytes 0 (hdr @ op_lossy (coded_ops big (data_type ?cc)) ?cc (x @ tail)) (drop pos d))\<rparr>)"
      using decompress_entry_coded [OF cod dt(1) same_coding_of_pars [OF pars mode(2), folded cfg'_def] db n16 p _ sc lh _ mok' mb dc ld hc']
        lx by (simp add: cfg'_def)
    have res: "put_model cc 0 (hdr @ next_model big ?cc (x @ tail) ?mc) c = put_model cc 0 res c"
    proof (cases "model_mode_is_used (cmp_mode cc)")
      case True
      then show ?thesis using cong(2) False db by (simp add: res_def payload_model_def hdr_def col_cfg_mode)
    qed (simp add: put_model_unused)
    show ?thesis
      using nth_collection_steps [OF _ c_def, where unc = "length p = n" and cfg' = cfg' and ?c1.0 = c] parse run False
      by (simp add: src(1) put' lossy res col [symmetric] lc [symmetric])
  qed
  have "rejoin_bufs pos pos ((put_model cc 0 res c)\<lparr>dst := Some (a + pos, put_bytes 0 col (drop pos d))\<rparr>) b =
      (put_model cc pos res b)\<lparr>dst := Some (a, put_bytes pos col d)\<rparr>"
    unfolding c_def skip_rejoin_put [OF mok] by (simp add: dst set_rejoin_dst)
  with goal show ?thesis by (simp add: res_def)
qed

section \<open>The loop over the entries\<close>

lemma entries_ok_append [simp]: "entries_ok big (xs @ ys) \<longleftrightarrow> entries_ok big xs \<and> entries_ok big ys"
  by (auto simp: entries_ok_def)

lemma take_drop_part:
  assumes "take (i + n) (drop k xs) = take (i + n) (drop k ys)"
  shows "take n (drop (k + i) xs) = take n (drop (k + i) ys)"
proof -
  have "take n (drop (k + i) zs) = drop i (take (i + n) (drop k zs))" for zs :: "'a list"
    by (simp add: drop_take add.commute)
  then show ?thesis using assms by simp
qed

lemma decompress_collections_ok:
  fixes big :: bool
  assumes mode: "cmp_mode cc \<noteq> CMP_MODE_RAW" "round_par cc = 0" and pars: "same_pars cc cfg"
    and "entries_ok big (pre @ xs)" and "src b = Some (as, e)" and "drop off e = entries cfg (pre @ xs) @ rest"
    and "pos = length (concat (map fst pre))" and "int (pos + length (concat (map fst xs))) \<le> decmp_size"
    and "drop pos s = concat (map fst xs) @ tail" and "payloads_ok big cc s m pos xs"
    and "models_ok k cfg b" and "pos + length (concat (map fst xs)) \<le> k"
    and "model_mode_is_used (cmp_mode cc) \<Longrightarrow> pos + length (concat (map fst xs)) \<le> length m \<and>
      take (length (concat (map fst xs))) (drop pos (bytes_at (model_buf b))) = take (length (concat (map fst xs))) (drop pos m)"
    and "dst b = Some (a, d)" and "pos + length (concat (map fst xs)) \<le> length d"
  shows "decompress_collections big off cfg decmp_size (length pre) (length xs) b = Some (decmp_size,
    (put_model cc pos (chunk_models big cc s m pos xs) b)\<lparr>dst := Some (a, put_bytes pos (concat (map fst xs)) d)\<rparr>)"
  using assms(4-)
proof (induction xs arbitrary: pre pos b d)
  case Nil
  have "b\<lparr>dst := Some (a, put_bytes pos [] d)\<rparr> = b" using Nil.prems(11) by (cases b) (simp add: put_bytes_def)
  moreover have "models_ok k cc b" using Nil.prems(8) models_ok_pars [OF pars] by simp
  ultimately show ?case by (simp add: put_model_nil)
next
  case (Cons x xs)
  obtain col p where x: "x = (col, p)" by (cases x)
  let ?n = "length col" and ?L = "length (concat (map fst xs))"
  let ?X = "chunk_models big cc s m pos [(col, p)]" and ?Y = "chunk_models big cc s m (pos + ?n) xs"
  have okc: "entries_ok big ((col, p) # xs)" using Cons.prems(1) by (simp add: x)
  have s: "drop pos s = col @ (concat (map fst xs) @ tail)" using Cons.prems(6) by (simp add: x)
  have pl: "payloads_ok big cc s m pos [(col, p)]" "payloads_ok big cc s m (pos + ?n) xs" using Cons.prems(7) by (simp_all add: x)
  have m: "pos + ?n + ?L \<le> length m \<and> take (?n + ?L) (drop pos (bytes_at (model_buf b))) = take (?n + ?L) (drop pos m)"
    if "model_mode_is_used (cmp_mode cc)" using Cons.prems(10) [OF that] by (simp add: x add.assoc)
  have m1: "?n \<le> length (drop pos m) \<and> take ?n (drop pos (bytes_at (model_buf b))) = take ?n (drop pos m)"
    if "model_mode_is_used (cmp_mode cc)"
    using m [OF that] take_drop_part [of 0 ?n pos] by (auto dest: arg_cong [where f = "take ?n"])
  define b1 where "b1 = (put_model cc pos ?X b)\<lparr>dst := Some (a, put_bytes pos col d)\<rparr>"
  have step: "decompress_nth_collection big off cfg decmp_size (length pre) b = Some (int ?n, b1)"
    unfolding b1_def
    by (rule decompress_entry [OF mode pars _ Cons.prems(2) _ Cons.prems(4) _ s pl(1) Cons.prems(8) _ m1 Cons.prems(11)])
      (use Cons.prems(1,3,5,9,12) x in \<open>simp_all\<close>)
  have lX: "length ?X = ?n" by (rule length_chunk_models_1 [OF entries_okD(1) [OF okc] s])
  have mk: "models_ok k cc b" using Cons.prems(8) models_ok_pars [OF pars] by simp
  have room: "pos + length ?X \<le> k" using Cons.prems(9) lX by (simp add: x)
  have "models_ok k cc b1" using models_ok_put [OF mk room] by (simp add: b1_def models_ok_def)
  then have mk1: "models_ok k cfg b1" using models_ok_pars [OF pars] by simp
  have dm: "drop (pos + ?n) (bytes_at (model_buf b1)) = drop (pos + ?n) (bytes_at (model_buf b))"
    using drop_model_put [OF mk room, of "pos + ?n"] lX by (simp add: b1_def)
  have s1: "drop (pos + ?n) s = concat (map fst xs) @ tail"
    using arg_cong [OF s, of "drop ?n"] by (simp add: add.commute)
  have IH: "decompress_collections big off cfg decmp_size (length (pre @ [(col, p)])) (length xs) b1 = Some (decmp_size,
    (put_model cc (pos + ?n) ?Y b1)\<lparr>dst := Some (a, put_bytes (pos + ?n) (concat (map fst xs)) (put_bytes pos col d))\<rparr>)"
  proof (rule Cons.IH [OF _ _ _ _ _ s1 pl(2) mk1])
    show "model_mode_is_used (cmp_mode cc) \<Longrightarrow> pos + ?n + ?L \<le> length m \<and>
        take ?L (drop (pos + ?n) (bytes_at (model_buf b1))) = take ?L (drop (pos + ?n) m)"
      unfolding dm by (intro conjI, use m in blast) (rule take_drop_part, use m in blast)
  qed (use Cons.prems x in \<open>simp_all add: b1_def\<close>)
  have "put_model cc (pos + ?n) ?Y b1 = (put_model cc pos (?X @ ?Y) b)\<lparr>dst := Some (a, put_bytes pos col d)\<rparr>"
    using put_model_more [OF mk room, of ?Y] lX by (simp add: b1_def put_model_dst)
  moreover have "put_bytes (pos + ?n) (concat (map fst xs)) (put_bytes pos col d) = put_bytes pos (col @ concat (map fst xs)) d"
    by (rule put_bytes_more) (use Cons.prems(12) x in simp)
  ultimately show ?case using step IH by (simp add: x)
qed

end
