(* ===== verification/Chunk_Trip.thy ===== *)
theory Chunk_Trip
  imports Chunk_Entry
begin

text \<open>
  The way of a whole chunk: what \<open>compress_chunk\<close> leaves behind a successful call, and that
  \<open>decompress_cmp_entiy\<close> restores the chunk and computes the same updated model from it.
\<close>

section \<open>The compressed chunk\<close>

lemma set_pars_general [simp]:
  "cmp_mode (set_pars_1 m bits cfg) = cmp_mode cfg" "round_par (set_pars_1 m bits cfg) = round_par cfg"
  "cmp_mode (set_pars_2 m bits cfg) = cmp_mode cfg" "round_par (set_pars_2 m bits cfg) = round_par cfg"
  "cmp_mode (set_pars_3 m bits cfg) = cmp_mode cfg" "round_par (set_pars_3 m bits cfg) = round_par cfg"
  "cmp_mode (set_pars_4 m bits cfg) = cmp_mode cfg" "round_par (set_pars_4 m bits cfg) = round_par cfg"
  "cmp_mode (set_pars_5 m bits cfg) = cmp_mode cfg" "round_par (set_pars_5 m bits cfg) = round_par cfg"
  "cmp_mode (set_pars_6 m bits cfg) = cmp_mode cfg" "round_par (set_pars_6 m bits cfg) = round_par cfg"
  by (simp_all add: set_pars_1_def set_pars_2_def set_pars_3_def set_pars_4_def set_pars_5_def set_pars_6_def)

lemma cfg_for_chunk_type_general [simp]:
  "cmp_mode (cfg_for_chunk_type t par cfg) = cmp_mode cfg" "round_par (cfg_for_chunk_type t par cfg) = round_par cfg"
  by (cases t; simp add: cfg_for_chunk_type_def)+

lemma init_cmp_cfg_pars:
  assumes "init_cmp_cfg_from_cmp_par big col par = Some (t, cfg)"
  shows "cmp_mode cfg = par_cmp_mode par" and "round_par cfg = 0" and "cmp_col_get_chunk_type big col = Some t"
  using assms by (auto simp: init_cmp_cfg_from_cmp_par_def Let_def bind_eq_Some_conv)

lemma chunk_fields_pars: "same_pars cfg cfg' \<Longrightarrow> chunk_fields v n cfg' k = chunk_fields v n cfg k"
  by (simp add: chunk_fields_def chunk_setters_def same_pars_eqs)

lemma build_chunk_header_NULL:
  "cmp_ent_build_chunk_header big st None chunk_size cfg t0 n =
     Some (if cmp_mode cfg = CMP_MODE_RAW then GENERIC_HEADER_SIZE else NON_IMAGETTE_HEADER_SIZE, None)"
  by (simp add: cmp_ent_build_chunk_header_def)

text \<open>A chunk: complete collections of one chunk type, one behind the other.\<close>

definition chunk_of :: "bool \<Rightarrow> buffer list \<Rightarrow> bool" where
  "chunk_of big cols \<longleftrightarrow> cols \<noteq> [] \<and> (\<forall>col \<in> set cols. exact_collection big col \<and>
     cmp_col_get_chunk_type big col = cmp_col_get_chunk_type big (hd cols))"

text \<open>What \<open>compress_chunk\<close> leaves in the buffers.\<close>

definition chunk_compressed ::
  "bool \<Rightarrow> cmp_cfg \<Rightarrow> u32 \<Rightarrow> (buffer \<times> buffer) list \<Rightarrow> cmp_bufs \<Rightarrow> u32 \<Rightarrow> cmp_bufs \<Rightarrow> bool" where
  "chunk_compressed big cfg chunk_size xs b r b' \<longleftrightarrow>
     payloads_ok big cfg (bytes_at (src b)) (bytes_at (model_buf b)) 0 xs \<and>
     unat r = 64 + length (entries cfg xs) \<and> unat r \<le> length (bytes_at (dst b')) \<and>
     take (length (entries cfg xs)) (drop 64 (bytes_at (dst b'))) = entries cfg xs \<and>
     b'\<lparr>dst := dst b\<rparr> = put_model cfg 0 (chunk_models big cfg (bytes_at (src b)) (bytes_at (model_buf b)) 0 xs) b \<and>
     (\<exists>version. \<forall>(f, n) \<in> set (chunk_fields version chunk_size cfg r). ent_value f (bytes_at (dst b')) = Some n)"

lemma chunk_compressedI:
  assumes run: "compress_chunk big st b chunk_size cap (Some par) = Some (r, b')" "\<not> cmp_is_error r"
    and cols: "chunk_of big cols" and src: "bytes_at (src b) = concat cols @ rest" "src b \<noteq> None" "unat chunk_size = length (concat cols)"
    and mode: "par_cmp_mode par \<noteq> CMP_MODE_RAW" and models: "models_ok (unat chunk_size) (cmp_cfg_zero\<lparr>cmp_mode := par_cmp_mode par\<rparr>) b"
    and dst: "dst b = Some (a, d)" "unat cap \<le> length d"
  shows "\<exists>cfg xs. cmp_mode cfg = par_cmp_mode par \<and> round_par cfg = 0 \<and> map fst xs = cols \<and>
    12 \<le> unat chunk_size \<and> unat chunk_size < 2 ^ 24 \<and> chunk_compressed big cfg chunk_size xs b r b'"
proof -
  obtain col cols' where c: "cols = col # cols'" and ex: "exact_collection big col" using cols by (cases cols) (auto simp: chunk_of_def)
  have h: "COLLECTION_HDR_SIZE \<le> length col" using ex by (simp add: exact_collection_def)
  obtain ss where "cmp_col_get_subservice big col = Some ss"
    using collection_getters [of big col] ex by (metis exact_collection_def)
  then obtain t where t: "cmp_col_get_chunk_type big col = Some t" by (simp add: cmp_col_get_chunk_type_def)
  have small: "\<not> chunk_size < word_of_nat COLLECTION_HDR_SIZE" "\<not> chunk_size > CMP_ENTITY_MAX_ORIGINAL_SIZE"
    using run src(2) unfolding compress_chunk_def by (auto simp: Let_def cmp_is_error_CMP_ERROR split: if_splits)
  then have chunk_size: "12 \<le> unat chunk_size" "unat chunk_size < 2 ^ 24"
    by (simp_all add: word_less_nat_alt COLLECTION_HDR_SIZE_def CMP_ENTITY_MAX_ORIGINAL_SIZE_def)
  obtain cfg where init: "init_cmp_cfg_from_cmp_par big (bytes_at (src b)) par = Some (t, cfg)"
    using t h by (simp add: init_cmp_cfg_from_cmp_par_def Let_def src c)
  note pars = init_cmp_cfg_pars(1,2) [OF init]
  let ?run = "compress_collections big (unat chunk_size) t cap 0 cfg NON_IMAGETTE_HEADER_SIZE b"
  have models': "models_ok (unat chunk_size) cfg b" using models pars(1) by (simp add: models_ok_def)
  have "chunk_result big cfg (unat chunk_size) (unat cap) 0 cols (unat NON_IMAGETTE_HEADER_SIZE) b ?run"
    by (rule compress_collections_ok [OF _ _ _ _ models' dst])
      (use cols t c src chunk_size in \<open>simp_all add: chunk_of_def header_sizes COLLECTION_HDR_SIZE_def\<close>)
  moreover have cap: "\<not> cap < NON_IMAGETTE_HEADER_SIZE" and "\<nexists>b1 e. ?run = Some (Inl e, b1) \<and> cmp_is_error e"
    and un: "t \<noteq> CHUNK_TYPE_UNKNOWN"
    using run src(2) small init mode pars dst(1) unfolding compress_chunk_def
    by (auto simp: Let_def cmp_is_error_CMP_ERROR build_chunk_header_NULL split: if_splits)
  ultimately obtain b1 cfg' l xs where loop: "?run = Some (Inr (unat chunk_size, cfg', l), b1)" and same: "same_pars cfg cfg'"
    and xs: "map fst xs = cols" and w: "chunk_written big cfg 0 xs (unat NON_IMAGETTE_HEADER_SIZE) b l b1"
    unfolding chunk_result_def by blast
  let ?E = "entries cfg xs"
  obtain d1 where b1: "b1 = (put_model cfg 0 (chunk_models big cfg (bytes_at (src b)) (bytes_at (model_buf b)) 0 xs) b)\<lparr>dst := Some (a, d1)\<rparr>"
    and d1: "length d1 = length d" "take (64 + length ?E) d1 = take 64 d @ ?E"
    using w dst unfolding chunk_written_def by (auto simp: header_sizes)
  have l: "unat l = 64 + length ?E" "\<not> cmp_is_error l" using w by (simp_all add: chunk_written_def header_sizes)
  have d64: "64 \<le> length d" using cap dst(2) by (simp add: header_sizes word_less_nat_alt)
  have room: "64 + length ?E \<le> length d" using arg_cong [OF d1(2), of length] d1(1) d64 by simp
  obtain hdr e where build: "cmp_ent_build_chunk_header big st (Some d1) chunk_size cfg' (get_timestamp st 0) l = Some (hdr, Some e)"
    and e: "length e = length d1" "drop 64 e = drop 64 d1"
    and fields: "cmp_is_error hdr \<or> (\<forall>(f, n) \<in> set (chunk_fields (version_identifier st) chunk_size cfg' l). ent_value f e = Some n)"
    using build_chunk_header_writes [of d1 big st chunk_size cfg' "get_timestamp st 0" l] d64 d1(1) by auto
  have "compress_chunk big st b chunk_size cap (Some par) =
      Some (if cmp_is_error hdr then hdr else l, b1\<lparr>dst := Some (a, e)\<rparr>)"
    using src(2) small init un cap loop build mode pars unfolding compress_chunk_def
    by (simp add: Let_def build_chunk_header_NULL b1 with_bytes_def del: not_None_eq)
  then have r: "r = l" "\<not> cmp_is_error hdr" "b' = b1\<lparr>dst := Some (a, e)\<rparr>" using run by (auto split: if_splits)
  note chunk_fields_pars [OF same]
  moreover have "take (length ?E) (drop 64 e) = drop 64 (take (64 + length ?E) d1)" by (simp add: e(2) drop_take)
  ultimately have "chunk_compressed big cfg chunk_size xs b r b'"
    using w fields r l room d1 d64 e(1) by (auto simp: chunk_compressed_def chunk_written_def b1 dst(1)[symmetric])
  then show ?thesis using pars xs chunk_size by blast
qed


section \<open>A buffer of the bound is enough\<close>

lemma length_entries_bound:
  assumes "\<forall>col \<in> set (map fst xs). exact_collection big col" and "payloads_ok big cfg s m pos xs"
  shows "length (entries cfg xs) \<le> field_size cfg * length xs + length (concat (map fst xs))"
  using assms
proof (induction xs arbitrary: pos)
  case (Cons x xs)
  obtain col p where x: "x = (col, p)" by (cases x)
  have "length (entries cfg [(col, p)]) \<le> field_size cfg + length col"
    by (rule length_entry_bound [of big col cfg s m pos]) (use Cons.prems x in simp_all)
  moreover have "length (entries cfg xs) \<le> field_size cfg * length xs + length (concat (map fst xs))"
    by (rule Cons.IH [of "pos + length col"]) (use Cons.prems x in simp_all)
  moreover have "length (entries cfg (x # xs)) = length (entries cfg [(col, p)]) + length (entries cfg xs)"
    using entries_Cons [of cfg x xs] by (simp add: x)
  ultimately show ?case by (simp add: x)
qed (simp add: entries_def)

lemma fields_fit_size:
  "fields_fit (chunk_fields v n cfg 0) \<Longrightarrow> unat k < 2 ^ 24 \<Longrightarrow> fields_fit (chunk_fields v n cfg k)"
  by (cases "cmp_mode cfg = CMP_MODE_RAW") (simp_all add: fields_fit_def chunk_fields_def chunk_setters_def)

lemma round_up_to_4_ge: "x \<le> round_up_to_4 x"
  unfolding round_up_to_4_def by linarith

lemma bound_room:
  "field_size cfg * n + k \<le> COMPRESS_CHUNK_BOUND_UNSAFE k n - 64" "64 \<le> COMPRESS_CHUNK_BOUND_UNSAFE k n"
proof -
  from round_up_to_4_ge [of "64 + n * 2 + k"] have "64 + n * 2 + k \<le> COMPRESS_CHUNK_BOUND_UNSAFE k n"
    by (simp add: COMPRESS_CHUNK_BOUND_UNSAFE_def header_sizes CMP_COLLECTION_FILD_SIZE_def)
  moreover have "field_size cfg * n \<le> n * 2" by (simp add: field_size_def CMP_COLLECTION_FILD_SIZE_def)
  ultimately show "field_size cfg * n + k \<le> COMPRESS_CHUNK_BOUND_UNSAFE k n - 64" "64 \<le> COMPRESS_CHUNK_BOUND_UNSAFE k n"
    by linarith+
qed

lemma compress_chunk_fits:
  fixes big :: bool and chunk_size :: u32 and cols :: "buffer list"
  defines "bound \<equiv> COMPRESS_CHUNK_BOUND_UNSAFE (unat chunk_size) (length cols)"
  assumes cols: "chunk_of big cols" and src: "bytes_at (src b) = concat cols @ rest" "unat chunk_size = length (concat cols)"
    and init: "init_cmp_cfg_from_cmp_par big (bytes_at (src b)) par = Some (t, cfg)" "t \<noteq> CHUNK_TYPE_UNKNOWN"
    and models: "models_ok (unat chunk_size) cfg b" and dst: "dst b = Some (a, d)" "unat cap \<le> length d"
    and valid: "\<forall>col \<in> set cols. cfg_valid (col_cfg big cfg col)" and apart: "buffers_apart (unat chunk_size) (unat cap) (cmp_mode cfg) b"
    and cap: "bound \<le> unat cap" "bound < 2 ^ 24"
    and fit: "fields_fit (chunk_fields (version_identifier st) chunk_size cfg 0)"
      "unat (get_timestamp st 0) < 2 ^ 48" "unat (get_timestamp st 1) < 2 ^ 48"
  shows "\<exists>r b'. compress_chunk big st b chunk_size cap (Some par) = Some (r, b') \<and> \<not> cmp_is_error r \<and> unat r \<le> bound"
proof -
  let ?hdr = "if cmp_mode cfg = CMP_MODE_RAW then GENERIC_HEADER_SIZE else NON_IMAGETTE_HEADER_SIZE"
  let ?run = "compress_collections big (unat chunk_size) t cap 0 cfg ?hdr b"
  obtain col cols' where c: "cols = col # cols'" and ex: "exact_collection big col" using cols by (cases cols) (auto simp: chunk_of_def)
  have h: "COLLECTION_HDR_SIZE \<le> length col" using ex by (simp add: exact_collection_def)
  have t: "cmp_col_get_chunk_type big col = Some t" using init_cmp_cfg_pars(3) [OF init(1)] h by (simp add: src c)
  have n: "12 \<le> unat chunk_size" "unat chunk_size < 2 ^ 24" "unat ?hdr \<le> 64"
    using src(2) h c bound_room(1) [of cfg "length cols" "unat chunk_size"] bound_room(2) [of "unat chunk_size" "length cols"] cap(2)
    by (simp_all add: bound_def COLLECTION_HDR_SIZE_def header_sizes)
  have small: "\<not> chunk_size < word_of_nat COLLECTION_HDR_SIZE" "\<not> chunk_size > CMP_ENTITY_MAX_ORIGINAL_SIZE"
    using n by (simp_all add: word_less_nat_alt COLLECTION_HDR_SIZE_def CMP_ENTITY_MAX_ORIGINAL_SIZE_def)
  have res: "chunk_result big cfg (unat chunk_size) (unat cap) 0 cols (unat ?hdr) b ?run"
    by (rule compress_collections_ok [OF _ _ _ _ models dst])
      (use cols t c src n in \<open>simp_all add: chunk_of_def header_sizes COLLECTION_HDR_SIZE_def\<close>)
  have room: "64 + (field_size cfg * length cols + length (concat cols)) \<le> bound"
    using bound_room(1) [of cfg "length cols" "length (concat cols)"] bound_room(2) [of "length (concat cols)" "length cols"] unfolding bound_def src(2) by linarith
  have "chunk_fits big cfg (unat chunk_size) (unat cap) cols (unat ?hdr) b"
    using valid apart room n(3) cap(1) unfolding chunk_fits_def by linarith
  then obtain b1 cfg' l xs where loop: "?run = Some (Inr (unat chunk_size, cfg', l), b1)" and same: "same_pars cfg cfg'"
    and xs: "map fst xs = cols" and w: "chunk_written big cfg 0 xs (unat ?hdr) b l b1"
    using res unfolding chunk_result_def by blast
  have "length (entries cfg xs) \<le> field_size cfg * length xs + length (concat (map fst xs))"
    by (rule length_entries_bound) (use w cols xs in \<open>auto simp: chunk_written_def chunk_of_def\<close>)
  moreover have "length xs = length cols" using arg_cong [OF xs, of length] by simp
  ultimately have l: "unat l \<le> bound" "\<not> cmp_is_error l" using w room n(3) xs by (simp_all add: chunk_written_def)
  obtain d1 where d1: "dst b1 = Some (a, d1)" "length d1 = length d" using w dst unfolding chunk_written_def by auto
  have c64: "64 \<le> unat cap" using cap(1) room by linarith
  then have capn: "\<not> cap < ?hdr" using n(3) by (simp add: word_less_nat_alt)
  have "fields_fit (chunk_fields (version_identifier st) chunk_size cfg' l)"
    unfolding chunk_fields_pars [OF same] by (rule fields_fit_size [OF fit(1)]) (use l cap(2) in simp)
  from build_chunk_header_fits [OF _ this fit(2,3), of d1 big] obtain e where
    build: "cmp_ent_build_chunk_header big st (Some d1) chunk_size cfg' (get_timestamp st 0) l = Some (?hdr, Some e)"
    using c64 d1(2) dst(2) by (auto simp: same_pars_eqs [OF same])
  have "\<not> cmp_is_error ?hdr" by (simp add: cmp_is_error_iff header_sizes)
  then have "compress_chunk big st b chunk_size cap (Some par) = Some (l, b1\<lparr>dst := Some (a, e)\<rparr>)"
    using apart small init capn loop build unfolding compress_chunk_def
    by (simp add: Let_def build_chunk_header_NULL d1 with_bytes_def buffers_apart_def del: not_None_eq)
  then show ?thesis using l by blast
qed

section \<open>The updated model\<close>

lemma length_chunk_models:
  assumes "\<forall>col \<in> set (map fst xs). exact_collection big col" and "drop pos s = concat (map fst xs) @ rest"
  shows "length (chunk_models big cfg s m pos xs) = length (concat (map fst xs))"
  using assms
proof (induction xs arbitrary: pos)
  case (Cons x xs)
  obtain col p where x: "x = (col, p)" by (cases x)
  have "length (chunk_models big cfg s m pos [(col, p)]) = length col"
    by (rule length_chunk_models_1) (use Cons.prems x in auto)
  moreover have "drop (pos + length col) s = concat (map fst xs) @ rest"
    using arg_cong [OF Cons.prems(2), of "drop (length col)"] by (simp add: x add.commute)
  then have "length (chunk_models big cfg s m (pos + length col) xs) = length (concat (map fst xs))"
    using Cons.prems(1) by (intro Cons.IH) simp_all
  ultimately show ?case by (simp add: x)
qed simp

lemma updated_put_model:
  assumes "model_mode_is_used (cmp_mode cfg)" and "updated_model_buf b \<noteq> None"
  shows "take (length xs) (bytes_at (updated_model_buf ((put_model cfg 0 xs b)\<lparr>dst := p\<rparr>))) = xs"
  using assms by (simp add: put_model_def put_bytes_def del: not_None_eq)

section \<open>Decompression of the chunk\<close>

lemma ent_value_prefix:
  assumes "take n e = take n e'" and "64 \<le> n" and "n \<le> length e" and "n \<le> length e'"
  shows "ent_value f e = ent_value f e'"
proof -
  have l: "field_off f + field_len f \<le> n" using field_inside [of f] assms(2) by simp
  have "take (field_len f) (drop (field_off f) ys) = drop (field_off f) (take (field_off f + field_len f) (take n ys))" for ys :: buffer
    using l by (simp add: drop_take min_def)
  then have "take (field_len f) (drop (field_off f) e) = take (field_len f) (drop (field_off f) e')" by (simp only: assms(1))
  then show ?thesis using assms(3,4) l by (simp add: ent_value_def load_be_def)
qed

lemma payloads_length:
  assumes "\<forall>col \<in> set (map fst xs). exact_collection big col" and "payloads_ok big cfg s m pos xs"
  shows "entries_ok big xs"
  using assms
proof (induction xs arbitrary: pos)
  case (Cons x xs)
  obtain col p where x: "x = (col, p)" by (cases x)
  have ok: "collection_ok big col" using Cons.prems(1) by (simp add: x exact_collection_def)
  have "length p \<le> data_bytes (col_cfg big cfg col)" by (rule payload_length) (use Cons.prems(2) x in auto)
  then have "length p \<le> col_length big col" by (simp add: data_bytes_col_cfg [OF ok])
  then show ?case using Cons.IH [of "pos + length col"] Cons.prems by (simp add: x entries_ok_def)
qed (simp add: entries_ok_def)

lemma chunk_decompressed:
  fixes big :: bool
  assumes written: "chunk_compressed big cfg chunk_size xs b r b'" and xs: "map fst xs = cols"
    and mode: "cmp_mode cfg \<noteq> CMP_MODE_RAW" "round_par cfg = 0" and cols: "chunk_of big cols"
    and src: "bytes_at (src b) = concat cols @ rest" and n: "unat chunk_size = length (concat cols)" "unat chunk_size < 2 ^ 24"
    and m: "model_mode_is_used (cmp_mode cfg) \<Longrightarrow> unat chunk_size \<le> length (bytes_at (model_buf b)) \<and>
      take (unat chunk_size) (bytes_at (model_buf c)) = take (unat chunk_size) (bytes_at (model_buf b))"
    and ent: "src c = Some (as, e)" "unat r \<le> length e" "take (unat r) e = take (unat r) (bytes_at (dst b'))"
    and models: "models_ok (unat chunk_size) cfg c" and dst: "dst c = Some (a, d)" "unat chunk_size \<le> length d"
  shows "decompress_cmp_entiy big c = Some (int (unat chunk_size),
    (put_model cfg 0 (chunk_models big cfg (bytes_at (src b)) (bytes_at (model_buf b)) 0 xs) c)
      \<lparr>dst := Some (a, put_bytes 0 (concat cols) d)\<rparr>)"
proof -
  let ?E = "entries cfg xs" and ?s = "bytes_at (src b)" and ?m = "bytes_at (model_buf b)"
  obtain col p xs' where x: "xs = (col, p) # xs'" using cols xs by (cases xs) (auto simp: chunk_of_def)
  have pl: "payloads_ok big cfg ?s ?m 0 xs" and r: "unat r = 64 + length ?E" using written by (simp_all add: chunk_compressed_def)
  have ok: "entries_ok big xs" by (rule payloads_length [OF _ pl]) (use cols xs in \<open>simp add: chunk_of_def\<close>)
  note o = entries_okD [OF ok [unfolded x]]
  have "14 \<le> length ?E"
    using length_entries_coded [OF mode(1) ok [unfolded x]] by (simp add: x CMP_COLLECTION_FILD_SIZE_def COLLECTION_HDR_SIZE_def)
  then have r78: "78 \<le> unat r" by (simp add: r)
  have s12: "12 \<le> unat chunk_size" using n(1) o(2) xs by (auto simp: x COLLECTION_HDR_SIZE_def)
  have room: "unat r \<le> length (bytes_at (dst b'))" using written by (simp add: chunk_compressed_def)
  obtain version where "\<forall>(f, k) \<in> set (chunk_fields version chunk_size cfg r). ent_value f (bytes_at (dst b')) = Some k"
    using written by (auto simp: chunk_compressed_def)
  then have fields: "\<forall>(f, k) \<in> set (chunk_fields version chunk_size cfg r). ent_value f e = Some k"
    using ent_value_prefix [OF ent(3) _ ent(2) room] r78 by simp
  have "cfg_valid (col_cfg big cfg col)" using pl by (simp add: x)
  then have gen: "cmp_cfg_gen_par_is_invalid (Some (cfg\<lparr>data_type := DATA_TYPE_CHUNK\<rparr>)) = 0" "cmp_mode_is_supported (cmp_mode cfg)"
    by (simp_all add: cfg_valid_def cmp_cfg_gen_par_is_invalid_def col_cfg_def cmp_data_type_is_invalid_def split: if_splits)
  obtain cfg' where hdr: "cmp_ent_read_header big e cmp_cfg_zero = Some (0, cfg', 64)" and same: "same_pars cfg cfg'"
    and t: "data_type cfg' = DATA_TYPE_CHUNK" "stream_size cfg' = word_of_nat (unat r - 64)"
    using read_chunk_header [OF fields gen(2) mode(1) gen(1) r78 s12] by blast
  have size: "unat (stream_size cfg') = length ?E"
    using r unat_less_2p [of r] unfolding t(2) by (subst unat_of_nat_small) simp_all
  have mode': "cmp_mode cfg' \<noteq> CMP_MODE_RAW" using mode(1) same_pars_eqs(1) [OF same] by simp
  have E: "entries cfg' xs = ?E" using same_pars_eqs(1) [OF same] by (simp add: entries_def compressed_entry_def)
  have "take (length ?E) (drop 64 e) = drop 64 (take (unat r) e)" by (simp add: r drop_take)
  also have "\<dots> = take (length ?E) (drop 64 (bytes_at (dst b')))" unfolding ent(3) by (simp add: r drop_take)
  also have "\<dots> = ?E" using written by (simp add: chunk_compressed_def)
  finally obtain rest' where data: "drop 64 e = entries cfg' xs @ rest'" unfolding E by (metis append_take_drop_id)
  have "get_num_of_chunks big e 64 (stream_size cfg') = Some (int (length xs))"
    using count_chunks_entries [OF mode' ok, of 0 "drop 64 e" _ "length ?E" 0] data
    by (simp add: get_num_of_chunks_def size E)
  moreover have "cmp_ent_get_original_size big (Some e) = Some chunk_size"
    by (rule ef_original_size.get_eqI) (use fields in \<open>auto simp: chunk_fields_def chunk_setters_def\<close>)
  moreover have "sint chunk_size = int (unat chunk_size)" 
    using n(2) by (simp add: sint_uint signed_take_bit_int_eq_self_iff uint_nat del: of_nat_unat)
  moreover have "decompress_collections big 64 cfg' (int (unat chunk_size)) (length ([] :: (buffer \<times> buffer) list)) (length xs) c =
      Some (int (unat chunk_size), (put_model cfg 0 (chunk_models big cfg ?s ?m 0 xs) c)
        \<lparr>dst := Some (a, put_bytes 0 (concat (map fst xs)) d)\<rparr>)"
    by (rule decompress_collections_ok [OF mode same _ ent(1) _ _ _ _ pl, where k = "unat chunk_size" and tail = rest and rest = rest'])
      (use ok data xs n(1) src m models models_ok_pars [OF same] dst in \<open>simp_all\<close>)
  moreover have "0 < length xs" by (simp add: x)
  ultimately show ?thesis
    using hdr t(1) mode' s12 xs by (simp add: decompress_cmp_entiy_def Let_def ent(1) del: of_nat_unat)
qed

end
