(* ===== verification/Chunk_Facts.thy ===== *)
theory Chunk_Facts
  imports Chunk_Trip
begin

text \<open>
  Facts about the parameters and the sizes of a chunk: the configuration for a chunk type is valid
  for every data type of the chunk, and the bound counts the collections.
\<close>

section \<open>Spillover thresholds\<close>

lemma cmp_icu_max_spill_ge_2:
  assumes "MIN_NON_IMA_GOLOMB_PAR \<le> m" and "m \<le> MAX_NON_IMA_GOLOMB_PAR"
  shows "2 \<le> unat (cmp_icu_max_spill m)"
proof -
  have m: "m \<noteq> 0" "unat m \<le> 65535" using assms by (auto simp: limits word_le_nat_alt)
  have l: "2 ^ ilog m \<le> unat m" "unat m < 2 ^ (ilog m + 1)" using ilog_lower [OF m(1)] ilog_upper [OF m(1)] by simp_all
  have i: "ilog m \<le> 15" by (rule ilog_16 [OF m])
  have "16 * unat m \<le> (31 - ilog m) * unat m" using i by (intro mult_right_mono) simp_all
  show ?thesis
  proof (cases "unat m = 1")
    case True
    then have "ilog m = 0" using l by (intro ilog_unique) simp_all
    then show ?thesis using unat_cmp_icu_max_spill [OF m] True by simp
  next
    case False
    then have "2 \<le> unat m" using m(1) by (cases "unat m") (auto simp: unat_eq_0)
    then show ?thesis using unat_cmp_icu_max_spill [OF m] l(2) \<open>16 * unat m \<le> _\<close> by linarith
  qed
qed

lemma zero_spill_at_least_2:
  assumes "MIN_NON_IMA_GOLOMB_PAR \<le> m" and "m \<le> MAX_NON_IMA_GOLOMB_PAR" and "1 \<le> bits" and "bits \<le> 64"
  shows "2 \<le> unat (cmp_best_zero_spill m bits)"
proof -
  have m: "m \<noteq> 0" "unat m \<le> 65535" using assms(1,2) by (auto simp: limits word_le_nat_alt)
  have b: "1 \<le> unat bits" "unat bits \<le> 64" using assms(3,4) by (simp_all add: word_le_nat_alt)
  note l = ilog_lower [OF m(1)] ilog_upper [OF m(1)] ilog_16 [OF m]
  have p: "unat (push_bit (ilog m) 2 :: u32) = 2 ^ (ilog m + 1)"
  proof -
    have "2 ^ (ilog m + 1) < (2 :: nat) ^ 32" using l(3) by (intro power_strict_increasing) simp_all
    then show ?thesis by (subst unat_push_bit) (simp_all add: mult.commute)
  qed
  have c: "unat (push_bit (ilog m) 2 - m) = 2 ^ (ilog m + 1) - unat m"
    using l(2) p by (subst unat_sub) (simp_all add: word_le_nat_alt)
  have le: "(2 :: nat) ^ (ilog m + 1) \<le> 2 ^ 16" using l(3) by (intro power_increasing) simp_all
  have prod: "unat bits * unat m \<le> 64 * 65535" using b(2) m(2) by (intro mult_mono) simp_all
  have bm: "unat (bits * m) = unat bits * unat m" using prod by (subst unat_mult_small) simp_all
  have "unat (bits * m + (push_bit (ilog m) 2 - m)) = unat bits * unat m + (2 ^ (ilog m + 1) - unat m)"
    using prod le by (subst unat_add_small) (simp_all add: bm c)
  moreover have "1 \<le> unat m" using m(1) unat_eq_0 [of m] by linarith
  then have "1 \<le> unat bits * unat m" using b(1) by simp
  ultimately have "2 \<le> unat (bits * m + (push_bit (ilog m) 2 - m))" using l(2) by linarith
  moreover have "\<not> m < MIN_NON_IMA_GOLOMB_PAR" "\<not> m > MAX_NON_IMA_GOLOMB_PAR" using assms(1,2) by simp_all
  ultimately show ?thesis
    using cmp_icu_max_spill_ge_2 [OF assms(1,2)] by (simp add: cmp_best_zero_spill_def Let_def ilog_def)
qed

lemma cmp_get_spill_valid:
  assumes "MIN_NON_IMA_GOLOMB_PAR \<le> m" and "m \<le> MAX_NON_IMA_GOLOMB_PAR" and "1 \<le> bits" and "bits \<le> 64"
    and "cmp_mode_is_supported mode"
  shows "cmp_pars_are_invalid m (cmp_get_spill m mode bits) mode = 0"
proof -
  have "MIN_NON_IMA_SPILL \<le> cmp_get_spill m mode bits"
    using zero_spill_at_least_2 [OF assms(1-4)] cmp_icu_max_spill_ge_2 [OF assms(1,2)]
    by (simp add: cmp_get_spill_def word_le_nat_alt limits)
  moreover have "cmp_get_spill m mode bits \<le> cmp_icu_max_spill m"
    by (simp add: cmp_get_spill_def cmp_best_zero_spill_def Let_def linorder_not_less)
  ultimately show ?thesis
    using assms(1,2,5) by (cases mode) (simp_all add: cmp_pars_are_invalid_def cmp_mode_is_supported_def linorder_not_less)
qed

section \<open>The configuration for a chunk type\<close>

lemma model_value_set_pars [simp]:
  "model_value (set_pars_1 m bits cfg) = model_value cfg" "model_value (set_pars_2 m bits cfg) = model_value cfg"
  "model_value (set_pars_3 m bits cfg) = model_value cfg" "model_value (set_pars_4 m bits cfg) = model_value cfg"
  "model_value (set_pars_5 m bits cfg) = model_value cfg" "model_value (set_pars_6 m bits cfg) = model_value cfg"
  by (simp_all add: set_pars_1_def set_pars_2_def set_pars_3_def set_pars_4_def set_pars_5_def set_pars_6_def)

lemma model_value_cfg_for_chunk_type [simp]: "model_value (cfg_for_chunk_type t par cfg) = model_value cfg"
  by (cases t) (simp_all add: cfg_for_chunk_type_def)

definition bits_ok :: "u32 \<Rightarrow> bool" where
  "bits_ok bits \<longleftrightarrow> 1 \<le> bits \<and> bits \<le> 64"

lemma used_bits_ok:
  "bits_ok (bits_nc_imagette MAX_USED_BITS)"
  "bits_ok (bits_saturated_imagette MAX_USED_BITS)"
  "bits_ok (bits_s_exp_flags MAX_USED_BITS)"
  "bits_ok (bits_s_fx MAX_USED_BITS)"
  "bits_ok (bits_s_ncob MAX_USED_BITS)"
  "bits_ok (bits_s_efx MAX_USED_BITS)"
  "bits_ok (bits_s_ecob MAX_USED_BITS)"
  "bits_ok (bits_l_exp_flags MAX_USED_BITS)"
  "bits_ok (bits_l_fx MAX_USED_BITS)"
  "bits_ok (bits_l_ncob MAX_USED_BITS)"
  "bits_ok (bits_l_efx MAX_USED_BITS)"
  "bits_ok (bits_l_ecob MAX_USED_BITS)"
  "bits_ok (bits_l_fx_cob_variance MAX_USED_BITS)"
  "bits_ok (bits_nc_offset_mean MAX_USED_BITS)"
  "bits_ok (bits_nc_offset_variance MAX_USED_BITS)"
  "bits_ok (bits_nc_background_mean MAX_USED_BITS)"
  "bits_ok (bits_nc_background_variance MAX_USED_BITS)"
  "bits_ok (bits_nc_background_outlier_pixels MAX_USED_BITS)"
  "bits_ok (bits_smearing_mean MAX_USED_BITS)"
  "bits_ok (bits_smearing_variance_mean MAX_USED_BITS)"
  "bits_ok (bits_smearing_outlier_pixels MAX_USED_BITS)"
  "bits_ok (bits_fc_imagette MAX_USED_BITS)"
  "bits_ok (bits_fc_offset_mean MAX_USED_BITS)"
  "bits_ok (bits_fc_offset_variance MAX_USED_BITS)"
  "bits_ok (bits_fc_background_mean MAX_USED_BITS)"
  "bits_ok (bits_fc_background_variance MAX_USED_BITS)"
  "bits_ok (bits_fc_background_outlier_pixels MAX_USED_BITS)"
  by (simp_all add: MAX_USED_BITS_def bits_ok_def)

text \<open>The Golomb parameters that a chunk of each type uses.\<close>

definition chunk_golomb_pars :: "chunk_type \<Rightarrow> cmp_par \<Rightarrow> u32 list" where
  "chunk_golomb_pars t par = (case t of
       CHUNK_TYPE_NCAM_IMAGETTE \<Rightarrow> [par_nc_imagette par]
     | CHUNK_TYPE_SAT_IMAGETTE \<Rightarrow> [par_saturated_imagette par]
     | CHUNK_TYPE_SHORT_CADENCE \<Rightarrow> [par_s_exp_flags par, par_s_fx par, par_s_ncob par, par_s_efx par, par_s_ecob par]
     | CHUNK_TYPE_LONG_CADENCE \<Rightarrow> [par_l_exp_flags par, par_l_fx par, par_l_ncob par, par_l_efx par, par_l_ecob par,
         par_l_fx_cob_variance par]
     | CHUNK_TYPE_OFFSET_BACKGROUND \<Rightarrow> [par_nc_offset_mean par, par_nc_offset_variance par, par_nc_background_mean par,
         par_nc_background_variance par, par_nc_background_outlier_pixels par]
     | CHUNK_TYPE_SMEARING \<Rightarrow> [par_smearing_mean par, par_smearing_variance_mean par, par_smearing_outlier_pixels par]
     | CHUNK_TYPE_F_CHAIN \<Rightarrow> [par_fc_imagette par, par_fc_offset_mean par, par_fc_offset_variance par,
         par_fc_background_mean par, par_fc_background_variance par, par_fc_background_outlier_pixels par]
     | CHUNK_TYPE_UNKNOWN \<Rightarrow> [])"

definition golomb_ok :: "u32 \<Rightarrow> bool" where
  "golomb_ok m \<longleftrightarrow> MIN_NON_IMA_GOLOMB_PAR \<le> m \<and> m \<le> MAX_NON_IMA_GOLOMB_PAR"

lemma spill_valid: "golomb_ok m \<Longrightarrow> bits_ok bits \<Longrightarrow> cmp_mode_is_supported mode \<Longrightarrow>
    cmp_pars_are_invalid m (cmp_get_spill m mode bits) mode = 0"
  by (rule cmp_get_spill_valid) (simp_all add: golomb_ok_def bits_ok_def)

text \<open>The data types that the collections of each chunk type have.\<close>

definition types_of_chunk :: "chunk_type \<Rightarrow> cmp_data_type list" where
  "types_of_chunk t = (case t of
       CHUNK_TYPE_NCAM_IMAGETTE \<Rightarrow> [DATA_TYPE_IMAGETTE]
     | CHUNK_TYPE_SAT_IMAGETTE \<Rightarrow> [DATA_TYPE_SAT_IMAGETTE]
     | CHUNK_TYPE_SHORT_CADENCE \<Rightarrow> [DATA_TYPE_S_FX, DATA_TYPE_S_FX_EFX, DATA_TYPE_S_FX_NCOB, DATA_TYPE_S_FX_EFX_NCOB_ECOB]
     | CHUNK_TYPE_LONG_CADENCE \<Rightarrow> [DATA_TYPE_L_FX, DATA_TYPE_L_FX_EFX, DATA_TYPE_L_FX_NCOB, DATA_TYPE_L_FX_EFX_NCOB_ECOB]
     | CHUNK_TYPE_OFFSET_BACKGROUND \<Rightarrow> [DATA_TYPE_OFFSET, DATA_TYPE_BACKGROUND]
     | CHUNK_TYPE_SMEARING \<Rightarrow> [DATA_TYPE_SMEARING]
     | CHUNK_TYPE_F_CHAIN \<Rightarrow> [DATA_TYPE_F_CAM_IMAGETTE, DATA_TYPE_F_CAM_OFFSET, DATA_TYPE_F_CAM_BACKGROUND]
     | CHUNK_TYPE_UNKNOWN \<Rightarrow> [])"

lemma chunk_type_types:
  "chunk_type_of_subservice s = t \<Longrightarrow> t \<noteq> CHUNK_TYPE_UNKNOWN \<Longrightarrow>
     convert_subservice_to_cmp_data_type s \<in> set (types_of_chunk t)"
  by (auto simp: chunk_type_of_subservice_def convert_subservice_to_cmp_data_type_def types_of_chunk_def sst
      split: if_splits)

lemma types_of_chunk_coded: "set (types_of_chunk t) \<subseteq> coded_types"
  by (cases t) (simp_all add: types_of_chunk_def coded_types_def)

definition chunk_cfg :: "chunk_type \<Rightarrow> cmp_par \<Rightarrow> cmp_cfg" where
  "chunk_cfg t par = cfg_for_chunk_type t par
     (cmp_cfg_zero\<lparr>cmp_mode := par_cmp_mode par, model_value := par_model_value par, round_par := 0\<rparr>)"

lemmas set_pars_defs = set_pars_1_def set_pars_2_def set_pars_3_def set_pars_4_def set_pars_5_def set_pars_6_def

lemma chunk_cfg_valid:
  assumes mode: "cmp_mode_is_supported (par_cmp_mode par)" and
    mv: "model_mode_is_used (par_cmp_mode par) \<Longrightarrow> par_model_value par \<le> MAX_MODEL_VALUE"
    and pars: "\<forall>m \<in> set (chunk_golomb_pars t par). golomb_ok m" and dt: "dt \<in> set (types_of_chunk t)"
  shows "cfg_valid ((chunk_cfg t par)\<lparr>data_type := dt, samples := n, stream_size := k\<rparr>)"
proof -
  let ?cfg = "(chunk_cfg t par)\<lparr>data_type := dt, samples := n, stream_size := k\<rparr>"
  have m: "cmp_mode ?cfg = par_cmp_mode par" "model_value ?cfg = par_model_value par" "round_par ?cfg = 0"
    by (simp_all add: chunk_cfg_def)
  have "\<not> cmp_data_type_is_invalid dt" using dt by (cases t) (auto simp: types_of_chunk_def cmp_data_type_is_invalid_def)
  then have gen: "cmp_cfg_gen_par_is_invalid (Some ?cfg) = 0"
    using mode mv by (auto simp: cmp_cfg_gen_par_is_invalid_def m limits)
  have p: "golomb_ok m \<Longrightarrow> bits_ok bits \<Longrightarrow> cmp_pars_are_invalid m (cmp_get_spill m (par_cmp_mode par) bits) (par_cmp_mode par) = 0" for m bits
    by (rule spill_valid [OF _ _ mode])
  have "(if cmp_imagette_data_type_is_used dt then cmp_cfg_imagette_is_invalid (Some ?cfg)
      else if cmp_fx_cob_data_type_is_used dt then cmp_cfg_fx_cob_is_invalid (Some ?cfg)
      else cmp_cfg_aux_is_invalid (Some ?cfg)) = 0"
  proof (cases t)
    case CHUNK_TYPE_NCAM_IMAGETTE
    then show ?thesis using dt pars
      by (simp add: types_of_chunk_def chunk_golomb_pars_def chunk_cfg_def cfg_for_chunk_type_def set_pars_defs p used_bits_ok
        cmp_imagette_data_type_is_used_def rdcu_supported_data_type_is_used_def cmp_ap_imagette_data_type_is_used_def cmp_cfg_imagette_is_invalid_def)
  next
    case CHUNK_TYPE_SAT_IMAGETTE
    then show ?thesis using dt pars
      by (simp add: types_of_chunk_def chunk_golomb_pars_def chunk_cfg_def cfg_for_chunk_type_def set_pars_defs p used_bits_ok
        cmp_imagette_data_type_is_used_def rdcu_supported_data_type_is_used_def cmp_ap_imagette_data_type_is_used_def cmp_cfg_imagette_is_invalid_def)
  next
    case CHUNK_TYPE_SHORT_CADENCE
    then show ?thesis using dt pars
      by (auto simp: types_of_chunk_def chunk_golomb_pars_def chunk_cfg_def cfg_for_chunk_type_def set_pars_defs p used_bits_ok
        cmp_imagette_data_type_is_used_def rdcu_supported_data_type_is_used_def cmp_ap_imagette_data_type_is_used_def
        cmp_fx_cob_data_type_is_used_def cmp_cfg_fx_cob_is_invalid_def cmp_cfg_fx_cob_get_need_pars_def Let_def)
  next
    case CHUNK_TYPE_LONG_CADENCE
    then show ?thesis using dt pars
      by (auto simp: types_of_chunk_def chunk_golomb_pars_def chunk_cfg_def cfg_for_chunk_type_def set_pars_defs p used_bits_ok
        cmp_imagette_data_type_is_used_def rdcu_supported_data_type_is_used_def cmp_ap_imagette_data_type_is_used_def
        cmp_fx_cob_data_type_is_used_def cmp_cfg_fx_cob_is_invalid_def cmp_cfg_fx_cob_get_need_pars_def Let_def)
  qed (use dt pars in \<open>auto simp: types_of_chunk_def chunk_golomb_pars_def chunk_cfg_def cfg_for_chunk_type_def set_pars_defs p used_bits_ok
        cmp_imagette_data_type_is_used_def rdcu_supported_data_type_is_used_def cmp_ap_imagette_data_type_is_used_def cmp_cfg_imagette_is_invalid_def
        cmp_fx_cob_data_type_is_used_def cmp_cfg_aux_is_invalid_def Let_def\<close>)
  then show ?thesis using gen by (auto simp: cfg_valid_def split: if_splits)
qed

lemma init_chunk_cfg:
  "init_cmp_cfg_from_cmp_par big col par = Some (t, cfg) \<longleftrightarrow> cmp_col_get_chunk_type big col = Some t \<and> cfg = chunk_cfg t par"
  by (auto simp: init_cmp_cfg_from_cmp_par_def chunk_cfg_def bind_eq_Some_conv)

lemma col_type_of_chunk:
  assumes "cmp_col_get_chunk_type big col = Some t" and "t \<noteq> CHUNK_TYPE_UNKNOWN"
  shows "col_type big col \<in> set (types_of_chunk t)"
  using assms chunk_type_types by (auto simp: cmp_col_get_chunk_type_def col_type_def)

lemma col_cfg_of_chunk_valid:
  assumes "cmp_mode_is_supported (par_cmp_mode par)"
    and "model_mode_is_used (par_cmp_mode par) \<Longrightarrow> par_model_value par \<le> MAX_MODEL_VALUE"
    and "\<forall>m \<in> set (chunk_golomb_pars t par). golomb_ok m"
    and "cmp_col_get_chunk_type big col = Some t" and "t \<noteq> CHUNK_TYPE_UNKNOWN"
  shows "cfg_valid (col_cfg big (chunk_cfg t par) col)"
proof -
  have "col_cfg big (chunk_cfg t par) col = (chunk_cfg t par)\<lparr>data_type := col_type big col,
      samples := samples (col_cfg big (chunk_cfg t par) col), stream_size := stream_size (chunk_cfg t par)\<rparr>"
    by (simp add: col_cfg_def)
  then show ?thesis
    using chunk_cfg_valid [OF assms(1-3) col_type_of_chunk [OF assms(4,5)]] by metis
qed

section \<open>The bound of the size\<close>

lemma count_collections_chunk:
  assumes "\<forall>col \<in> set cols. exact_collection big col" and "drop pos chunk = concat cols @ rest"
    and "k = pos + length (concat cols)" and "COLLECTION_HDR_SIZE \<le> k"
  shows "count_collections big chunk k pos n = Some (k, n + length cols)"
  using assms
proof (induction cols arbitrary: pos n)
  case Nil
  then have "\<not> pos \<le> k - COLLECTION_HDR_SIZE" by (simp add: COLLECTION_HDR_SIZE_def)
  then show ?case using Nil.prems by (subst count_collections.simps) simp
next
  case (Cons col cols)
  have ex: "exact_collection big col" using Cons.prems(1) by simp
  then have l: "length col = COLLECTION_HDR_SIZE + col_length big col" and ok: "collection_ok big col"
    by (simp_all add: exact_collection_def)
  have h: "COLLECTION_HDR_SIZE \<le> length col" using l by simp
  obtain len where len: "cmp_col_get_data_length big col = Some len" "unat len = col_length big col"
    using collection_getters [OF ok] by metis
  have "cmp_col_get_data_length big (drop pos chunk) = Some len"
    using len(1) Cons.prems(2) h by simp
  moreover have "drop (pos + length col) chunk = concat cols @ rest"
    using arg_cong [OF Cons.prems(2), of "drop (length col)"] by (simp add: add.commute)
  then have "count_collections big chunk k (pos + length col) (n + 1) = Some (k, n + 1 + length cols)"
    using Cons.prems by (intro Cons.IH) simp_all
  moreover have "pos \<le> k - COLLECTION_HDR_SIZE" using Cons.prems(3) h by simp
  ultimately show ?case using len(2) l by (subst count_collections.simps) simp
qed

end
