(* ===== verification/Ground_Values.thy ===== *)
theory Ground_Values
  imports Collection_Compress Collection_Decompress Cmp_Entity
begin

text \<open>
  Evaluation of the encoder and the decoder at concrete inputs by the simplifier, for the
  instances of the properties: the definitions to unfold (\<open>ground\<close>), and closed forms of the
  functions whose recursion counts bits.
\<close>

named_theorems ground \<open>definitions to unfold at concrete inputs\<close>

lemmas [ground] = be_bytes_numeral

lemma clz_eval:
  fixes x :: u32
  assumes "x \<noteq> 0" "2 ^ k \<le> unat x" "unat x < 2 ^ (k + 1)" "k \<le> 31"
  shows "clz x = 31 - k"
proof -
  have "ilog x = k" using assms by (intro ilog_unique)
  then show ?thesis using ilog_eq [OF assms(1)] ilog_le [OF assms(1)] clz_bounds [OF assms(1)] by simp
qed

lemma ilog_3 [ground]: "ilog 3 = 1"
  by (rule ilog_unique) simp_all

lemma ilog_2_3 [ground]: "ilog_2 3 = 1"
  using ilog_3 by (simp add: ilog_def word_unat_eq_iff)

lemma cmp_icu_max_spill_3 [ground]: "cmp_icu_max_spill 3 = 75"
  unfolding word_unat_eq_iff by (subst unat_cmp_icu_max_spill) (simp_all add: ilog_3)

lemma valid_pars_3_10: "valid_pars 3 10"
  by (simp add: valid_pars_def ground)

lemmas encoder_eval [ground] =
  put_n_bits32_def load_be_def be_word_def store_be_def store_bytes_def map_to_pos_def mask_numeral
  encode_value_def encode_value_zero_def encode_value_multi_def encode_normal_def unless_error_def
  golomb_encoder_def rice_encoder_def configure_encoder_setup_def is_a_pow_of_2_def
  cmp_stream_size_to_bits_def round_fwd_def cmp_is_error_iff Let_def

lemmas mode_eval [ground] =
  zero_escape_mech_is_used_def multi_escape_mech_is_used_def model_mode_is_used_def raw_mode_is_used_def

text \<open>A configuration with the same Golomb parameter 3 and spillover threshold 10 for every field.\<close>

definition witness_cfg :: "cmp_data_type \<Rightarrow> cmp_mode \<Rightarrow> u32 \<Rightarrow> u32 \<Rightarrow> cmp_cfg" where
  "witness_cfg t mode n sz = \<lparr>samples = n, stream_size = sz, data_type = t, cmp_mode = mode,
     model_value = 8, round_par = 0, cmp_par_1 = 3, spill_par_1 = 10, cmp_par_2 = 3,
     spill_par_2 = 10, cmp_par_3 = 3, spill_par_3 = 10, cmp_par_4 = 3, spill_par_4 = 10,
     cmp_par_5 = 3, spill_par_5 = 10, cmp_par_6 = 3, spill_par_6 = 10\<rparr>"

lemmas [ground] = witness_cfg_def

text \<open>The information and the configuration of a hardware compression.\<close>

definition witness_info :: cmp_info where
  "witness_info = \<lparr>cmp_mode_used = 1, spill_used = 48, golomb_par_used = 4, samples_used = 10, cmp_size = 40,
     ap1_cmp_size = 0, ap2_cmp_size = 0, rdcu_new_model_adr_used = 0, rdcu_cmp_adr_used = 0,
     model_value_used = 8, round_used = 0, cmp_err = 0\<rparr>"

definition witness_rcfg :: rdcu_cfg where
  "witness_rcfg = \<lparr>rc_samples = 10, rc_buffer_length = 10, rdcu_data_adr = 0, rdcu_model_adr = 0x200000,
     rdcu_new_model_adr = 0x400000, rdcu_buffer_adr = 0x600000, rc_cmp_mode = CMP_MODE_MODEL_ZERO,
     rc_model_value = 8, rc_round = 0, rc_golomb_par = 4, rc_spill = 48, rc_ap1_golomb_par = 3,
     rc_ap1_spill = 35, rc_ap2_golomb_par = 5, rc_ap2_spill = 60\<rparr>"

end
