(* ===== verification/Ground_Chunk.thy ===== *)
theory Ground_Chunk
  imports Chunk_Facts Ground_Values
begin

text \<open>
  A chunk of one collection with one imagette sample, on a big-endian host, for the instances of the
  properties of chunks.
\<close>

definition witness_col :: buffer where
  "witness_col = [0, 0, 0, 0, 0, 0, 0, 0, 6, 0, 0, 2, 0, 5]"

definition witness_par :: cmp_par where
  "witness_par = \<lparr>par_cmp_mode = CMP_MODE_DIFF_ZERO, par_model_value = 0, par_lossy_par = 0,
     par_nc_imagette = 3, par_s_exp_flags = 0, par_s_fx = 0, par_s_ncob = 0, par_s_efx = 0, par_s_ecob = 0,
     par_l_exp_flags = 0, par_l_fx = 0, par_l_ncob = 0, par_l_efx = 0, par_l_ecob = 0, par_l_fx_cob_variance = 0,
     par_saturated_imagette = 0, par_nc_offset_mean = 0, par_nc_offset_variance = 0, par_nc_background_mean = 0,
     par_nc_background_variance = 0, par_nc_background_outlier_pixels = 0, par_smearing_mean = 0,
     par_smearing_variance_mean = 0, par_smearing_outlier_pixels = 0, par_fc_imagette = 0, par_fc_offset_mean = 0,
     par_fc_offset_variance = 0, par_fc_background_mean = 0, par_fc_background_variance = 0,
     par_fc_background_outlier_pixels = 0\<rparr>"

definition witness_bufs :: cmp_bufs where
  "witness_bufs = \<lparr>src = Some (0, witness_col), dst = Some (100, replicate 80 0), model_buf = None, updated_model_buf = None\<rparr>"

lemma witness_col_getters:
  "cmp_col_get_subservice True witness_col = Some SST_NCxx_S_SCIENCE_IMAGETTE"
  "cmp_col_get_data_length True witness_col = Some 2"
  by (simp_all add: cmp_col_get_subservice_def cmp_col_get_data_length_def get_be_load witness_col_def load_be_def be_word_def
     field_subservice_def get_bits_def SST_NCxx_S_SCIENCE_IMAGETTE_def mask_numeral)

lemma witness_col_type:
  "col_type True witness_col = DATA_TYPE_IMAGETTE" "col_length True witness_col = 2"
  "cmp_col_get_chunk_type True witness_col = Some CHUNK_TYPE_NCAM_IMAGETTE"
  by (simp_all add: col_type_def col_length_def cmp_col_get_chunk_type_def witness_col_getters
      convert_subservice_to_cmp_data_type_def chunk_type_of_subservice_def)

lemma length_witness_col [simp]: "length witness_col = 14"
  by (simp add: witness_col_def)

lemma witness_exact: "exact_collection True witness_col"
  by (simp add: exact_collection_def collection_ok_def witness_col_type coded_types_def size_of_a_sample_def
      COLLECTION_HDR_SIZE_def)

definition witness_chunk_cfg :: cmp_cfg where
  "witness_chunk_cfg = cmp_cfg_zero\<lparr>cmp_mode := CMP_MODE_DIFF_ZERO, cmp_par_1 := 3, spill_par_1 := 49\<rparr>"

lemma witness_init:
  "init_cmp_cfg_from_cmp_par True witness_col witness_par = Some (CHUNK_TYPE_NCAM_IMAGETTE, witness_chunk_cfg)"
  by (simp add: init_cmp_cfg_from_cmp_par_def witness_col_type cfg_for_chunk_type_def set_pars_1_def witness_par_def
      witness_chunk_cfg_def cmp_get_spill_def cmp_best_zero_spill_def ground cmp_cfg_zero_def
      MIN_NON_IMA_GOLOMB_PAR_def MAX_NON_IMA_GOLOMB_PAR_def MAX_USED_BITS_def)

lemma witness_valid: "cfg_valid (col_cfg True witness_chunk_cfg witness_col)"
  by (simp add: cfg_valid_def col_cfg_def witness_col_type witness_chunk_cfg_def cmp_cfg_gen_par_is_invalid_def
      cmp_data_type_is_invalid_def cmp_mode_is_supported_def model_mode_is_used_def cmp_imagette_data_type_is_used_def
      rdcu_supported_data_type_is_used_def cmp_ap_imagette_data_type_is_used_def
      cmp_cfg_imagette_is_invalid_def cmp_pars_are_invalid_def ground cmp_cfg_zero_def size_of_a_sample_def
      MIN_NON_IMA_GOLOMB_PAR_def MAX_NON_IMA_GOLOMB_PAR_def MIN_NON_IMA_SPILL_def)

lemma witness_apart: "buffers_apart 14 80 CMP_MODE_DIFF_ZERO witness_bufs"
  by (simp add: buffers_apart_def witness_bufs_def buffer_overlaps_def model_mode_is_used_def)

lemma witness_fits: "fields_fit (chunk_fields 0 14 witness_chunk_cfg 0)"
  by (simp add: fields_fit_def chunk_fields_def chunk_setters_def witness_chunk_cfg_def cmp_cfg_zero_def
      data_type_code_def)

lemma witness_mode [simp]: "cmp_mode witness_chunk_cfg = CMP_MODE_DIFF_ZERO"
  by (simp add: witness_chunk_cfg_def)

lemma witness_compressed:
  "\<exists>r b'. compress_chunk True initial_compress_state witness_bufs 14 80 (Some witness_par) = Some (r, b') \<and>
     \<not> cmp_is_error r \<and> unat r \<le> 80"
proof -
  have b: "COMPRESS_CHUNK_BOUND_UNSAFE (unat (14 :: u32)) (length [witness_col]) = 80"
    by (simp add: COMPRESS_CHUNK_BOUND_UNSAFE_def round_up_to_4_def header_sizes CMP_COLLECTION_FILD_SIZE_def)
  show ?thesis
    using compress_chunk_fits [of True "[witness_col]" witness_bufs "[]" 14 witness_par CHUNK_TYPE_NCAM_IMAGETTE
        witness_chunk_cfg 100 "replicate 80 0" 80 initial_compress_state]
      witness_exact witness_valid witness_apart witness_fits witness_init
    by (simp add: b [simplified] chunk_of_def witness_bufs_def models_ok_def model_mode_is_used_def in_place_def
        initial_compress_state_def)
qed

lemma witness_models: "models_ok n (cmp_cfg_zero\<lparr>cmp_mode := par_cmp_mode witness_par\<rparr>) witness_bufs"
  by (simp add: models_ok_def witness_par_def model_mode_is_used_def in_place_def witness_bufs_def)

end
