(* ===== verification/Hardware_Trip.thy ===== *)
theory Hardware_Trip
  imports Collection_Round
begin

unbundle bit_operations_syntax

text \<open>
  Compression in the format of the hardware compressor: \<open>compress_like_rdcu\<close> codes imagette samples without a
  collection header and reports how in a \<open>cmp_info\<close>; from the stream and this information \<open>decompress_rdcu_data\<close>
  restores the samples, up to the bits that lossy rounding clears.
\<close>

abbreviation rdcu_cfg_used :: "rdcu_cfg \<Rightarrow> cmp_cfg" where
  "rdcu_cfg_used c \<equiv> rdcu_like_cfg c (rc_golomb_par c) (rc_spill c)"

lemma rdcu_like_cfg_simps [simp]:
  "data_type (rdcu_like_cfg c g s) = DATA_TYPE_IMAGETTE" "samples (rdcu_like_cfg c g s) = rc_samples c"
  "stream_size (rdcu_like_cfg c g s) = rc_buffer_length c * 2" "cmp_mode (rdcu_like_cfg c g s) = rc_cmp_mode c"
  "round_par (rdcu_like_cfg c g s) = rc_round c" "model_value (rdcu_like_cfg c g s) = rc_model_value c"
  by (simp_all add: rdcu_like_cfg_def)

lemma data_bytes_rdcu [simp]: "data_bytes (rdcu_like_cfg c g s) = 2 * unat (rc_samples c)"
  by (simp add: data_bytes_def size_of_a_sample_def)

lemma imagette_coded [simp]: "DATA_TYPE_IMAGETTE \<in> coded_types"
  by (simp add: coded_types_def)

text \<open>The samples with the lowest \<open>r\<close> bits cleared.\<close>

definition cleared_samples :: "bool \<Rightarrow> nat \<Rightarrow> nat \<Rightarrow> buffer \<Rightarrow> buffer" where
  "cleared_samples big r n s =
     concat (map (\<lambda>i. host_bytes big 2 ((host_word big (take 2 (drop (2 * i) s)) :: u16) AND NOT (mask r))) [0..<n])"

lemma rounded_clears: "rounded r (ucast (x :: u16)) = ucast (x AND NOT (mask (unat r)))"
  by (rule bit_word_eqI)
    (auto simp: rounded_def round_inv_def round_fwd_def bit_ucast_iff bit_push_bit_iff bit_drop_bit_eq
      bit_and_iff bit_not_iff bit_mask_iff dest: bit_imp_le_length)

lemma host_bytes_wider: "host_bytes big 2 (ucast (x :: u16) :: u32) = host_bytes big 2 x"
  by (simp add: host_bytes_def be_bytes_numeral bit_eq_iff bit_ucast_iff bit_drop_bit_eq)

lemma host_word_narrower: "length bs = 2 \<Longrightarrow> ucast (host_word big bs :: u32) = (host_word big bs :: u16)"
  by (rule bit_word_eqI, cases big)
    (auto simp: host_word_def be_word_def length_Suc_conv numeral_2_eq_2 bit_ucast_iff bit_or_iff bit_push_bit_iff)

lemma imagette_lossy:
  assumes "data_type cfg = DATA_TYPE_IMAGETTE" and "data_bytes cfg \<le> length s"
  shows "op_lossy (coded_ops big DATA_TYPE_IMAGETTE) cfg s =
    cleared_samples big (unat (round_par cfg)) (unat (samples cfg)) s"
proof -
  have n: "2 * unat (samples cfg) \<le> length s" using assms by (simp add: data_bytes_def size_of_a_sample_def)
  have read: "read_samples big imagette_acc imagette_layout 0 s ! i = host_word big (take 2 (drop (2 * i) s))"
    if "i < unat (samples cfg)" for i
    using that n host_word_narrower [of "take 2 (drop (2 * i) s)" big]
      nth_upt [of 0 i "length s div 2"]
    by (simp add: read_samples_def load_samples_def sample_of_bytes_def imagette_acc_def put_fields_def mult.commute)
  have "bytes_of_sample big imagette_acc imagette_layout (restore imagette_acc r x x) =
      host_bytes big 2 (x AND NOT (mask (unat r)))" for x r
    by (simp add: restore_def imagette_acc_def bytes_of_sample_def get_fields_def rounded_clears ucast_ucast_narrow
        host_bytes_wider)
  then show ?thesis
    using read by (auto simp: cleared_samples_def coded_ops_def ops_of_def lossy_of_def intro!: arg_cong [of _ _ concat])
qed

section \<open>Compression\<close>

text \<open>A successful compression leaves the code of the samples and the information that belongs to it.\<close>

definition info_fits :: "rdcu_cfg \<Rightarrow> u32 \<Rightarrow> cmp_info \<Rightarrow> bool" where
  "info_fits c r info \<longleftrightarrow> cmp_err info = 0 \<and> cmp_size info = r \<and>
     cmp_mode_used info = ucast (ucast (cmp_mode_value (rc_cmp_mode c)) :: u8) \<and>
     model_value_used info = ucast (rc_model_value c) \<and> round_used info = ucast (rc_round c) \<and>
     spill_used info = rc_spill c \<and> golomb_par_used info = rc_golomb_par c \<and> samples_used info = rc_samples c"

lemma compress_like_rdcu_code:
  assumes run: "compress_like_rdcu big (Some c) True b = Some (r, Some info, b')" "\<not> cmp_is_error r"
    and mode: "rc_cmp_mode c \<noteq> CMP_MODE_RAW" and some: "rc_samples c \<noteq> 0"
    and src: "2 * unat (rc_samples c) \<le> length (bytes_at (src b))"
    and models: "models_ok (2 * unat (rc_samples c)) (rdcu_cfg_used c) b"
    and dst: "dst b = Some (a, d)" "2 * unat (rc_buffer_length c) \<le> length d" "unat (rc_buffer_length c) < 2 ^ 28 - 8"
  defines "code \<equiv> codes big (rdcu_cfg_used c) (bytes_at (src b)) (bytes_at (model_buf b))"
  shows "coding_cfg (rdcu_cfg_used c) \<and> info_fits c r info \<and> unat r = length code \<and>
    holds_code code (bytes_at (dst b')) \<and> b'\<lparr>dst := dst b\<rparr> = with_next_model (2 * unat (rc_samples c))
      (rdcu_cfg_used c) (next_model big (rdcu_cfg_used c) (bytes_at (src b)) (bytes_at (model_buf b))) b"
proof -
  let ?cfg = "rdcu_cfg_used c"
  let ?lim = "cmp_stream_size_to_bits (stream_size ?cfg)"
  have no_err: "cmp_get_error_code r \<noteq> cmp_error_value CMP_ERROR_SMALL_BUFFER"
    using run(2) by (simp add: cmp_get_error_code_def)
  have valid: "\<not> cmp_is_error (cmp_cfg_icu_is_invalid_error_code (Some ?cfg) b)"
    using run by (auto simp: compress_like_rdcu_def Let_def split: if_splits Option.bind_splits)
  have cmp: "compress_data_internal big (Some ?cfg) b 0 = Some (r, b')"
    using run valid by (auto simp: compress_like_rdcu_def Let_def split: Option.bind_splits)
  have info: "info_fits c r info"
    using run valid cmp no_err
    by (auto simp: compress_like_rdcu_def Let_def info_fits_def info_zero_def split: Option.bind_splits)
  have coding: "coding_cfg ?cfg" using cmp_cfg_check_valid [OF valid] mode some by (simp add: coding_cfg_def)
  then have call: "call_ok ?cfg b 0" using src models by (simp add: call_ok_def)
  have ss: "unat (stream_size ?cfg) = 2 * unat (rc_buffer_length c)"
    using dst(3) by (simp add: unat_word_ariths)
  have wr: "writable d ?lim" by (rule writable_stream_bits) (use ss dst in simp_all)
  have fits: "unat (0 :: u32) + length (codes big ?cfg (bytes_at (src b)) (bytes_at (model_buf b))) \<le> unat ?lim"
  proof (rule ccontr)
    assume "\<not> ?thesis"
    then have long: "unat ?lim < unat (0 :: u32) + length (codes big ?cfg (bytes_at (src b)) (bytes_at (model_buf b)))"
      by (simp only: not_le)
    have "unat (0 :: u32) \<le> 8 * length d" by simp
    then obtain b1 where "compress_data_internal big (Some ?cfg) b 0 = Some (CMP_ERROR CMP_ERROR_SMALL_BUFFER, b1)"
      using compress_coded_small [OF call dst(1) wr long] by blast
    then have "r = CMP_ERROR CMP_ERROR_SMALL_BUFFER" using cmp by simp
    then show False using run(2) by (simp add: cmp_is_error_CMP_ERROR)
  qed
  have small: "length code < 2 ^ 32"
    using le_less_trans [OF fits unat_less_2p] by (simp add: code_def)
  from compress_coded_fits [OF call dst(1) wr fits] obtain d' where
    "r = word_of_nat (length code)" "dst b' = Some (a, d')" "holds_code code d'"
    "b'\<lparr>dst := dst b\<rparr> = with_next_model (data_bytes ?cfg) ?cfg (next_model big ?cfg (bytes_at (src b)) (bytes_at (model_buf b))) b"
    using cmp by (auto simp: code_def)
  then show ?thesis using coding info small by (simp add: unat_of_nat_small)
qed

section \<open>Decompression\<close>

lemma rdcu_info_coding:
  assumes coding: "coding_cfg (rdcu_cfg_used c)" and "info_fits c r info" and "unat (rc_model_value c) < 256"
  defines "cfg' \<equiv> cmp_cfg_zero\<lparr>data_type := DATA_TYPE_IMAGETTE, cmp_mode := cmp_mode_of (cmp_mode_used info),
    model_value := ucast (model_value_used info), round_par := ucast (round_used info),
    spill_par_1 := spill_used info, cmp_par_1 := golomb_par_used info,
    samples := samples_used info, stream_size := (cmp_size info + 7) div 8\<rparr>"
  shows "same_coding (rdcu_cfg_used c) cfg'"
proof -
  have v: "cmp_cfg_gen_par_is_invalid (Some (rdcu_cfg_used c)) = 0" using coding by (simp add: coding_cfg_def cfg_valid_def)
  then have m: "cmp_mode_is_supported (rc_cmp_mode c)" and r: "\<not> rc_round c > MAX_ICU_ROUND"
    by (simp_all add: cmp_cfg_gen_par_is_invalid_def split: if_splits)
  have "ucast (ucast (cmp_mode_value (rc_cmp_mode c)) :: u8) = cmp_mode_value (rc_cmp_mode c)"
    using m by (cases "rc_cmp_mode c") (simp_all add: cmp_mode_is_supported_def)
  then have "cmp_mode_of (cmp_mode_used info) = rc_cmp_mode c"
    using assms(2) m by (simp add: info_fits_def cmp_mode_of_value)
  moreover have "ucast (ucast (rc_model_value c) :: u8) = rc_model_value c"
    using assms(3) by (intro ucast_ucast_small(1)) simp
  moreover have "ucast (ucast (rc_round c) :: u8) = rc_round c"
    using r by (intro ucast_ucast_small(1)) (simp add: MAX_ICU_ROUND_def word_less_nat_alt)
  ultimately show ?thesis
    using assms(2) by (simp add: cfg'_def info_fits_def same_coding_def rdcu_like_cfg_def)
qed

lemma holds_code_prefix:
  assumes "holds_code code q" and "k = (length code + 7) div 8" and "k \<le> length e" and "take k e = take k q"
  shows "holds_code code e"
proof -
  have l: "length code \<le> 8 * k" using assms(2) by arith
  have "take (length code) (bits_of_bytes e) = take (length code) (take (8 * k) (bits_of_bytes e))" using l by (simp add: min_def)
  also have "\<dots> = take (length code) (bits_of_bytes (take k e))" by (simp add: bits_of_bytes_take)
  also have "\<dots> = code" using holds_code_take(1) [OF assms(1,2)] assms(4) by (simp add: holds_code_def)
  finally show ?thesis using l assms(3) by (simp add: holds_code_def)
qed

lemma rdcu_data_decompressed:
  assumes coding: "coding_cfg (rdcu_cfg_used c)" and info: "info_fits c r info" and mv: "unat (rc_model_value c) < 256"
    and n: "n = 2 * unat (rc_samples c)" "n < 2 ^ 31" and r: "unat r = length code" "\<not> cmp_is_error r"
    and code: "code = codes big (rdcu_cfg_used c) s (bytes_at (model_buf x))" "n \<le> length s"
    and src: "src x = Some (as, e)" "holds_code code e"
    and models: "models_ok n (rdcu_cfg_used c) x" "model_mode_is_used (rc_cmp_mode c) \<Longrightarrow> model_buf x \<noteq> None"
    and dst: "dst x = Some (a, d)" "n \<le> length d"
  shows "decompress_rdcu_data big (Some info) x = Some (int n,
    (put_model (rdcu_cfg_used c) 0 (next_model big (rdcu_cfg_used c) s (bytes_at (model_buf x))) x)
      \<lparr>dst := Some (a, put_bytes 0 (cleared_samples big (unat (rc_round c)) (unat (rc_samples c)) s) d)\<rparr>)"
proof -
  let ?c = "rdcu_cfg_used c"
  define cfg' where "cfg' = cmp_cfg_zero\<lparr>data_type := DATA_TYPE_IMAGETTE, cmp_mode := cmp_mode_of (cmp_mode_used info),
    model_value := ucast (model_value_used info), round_par := ucast (round_used info),
    spill_par_1 := spill_used info, cmp_par_1 := golomb_par_used info,
    samples := samples_used info, stream_size := (cmp_size info + 7) div 8\<rparr>"
  have sc: "same_coding ?c cfg'" unfolding cfg'_def by (rule rdcu_info_coding [OF coding info mv])
  note eqs = same_coding_eqs [OF sc, simplified]
  have smp: "samples cfg' = rc_samples c" using info by (simp add: cfg'_def info_fits_def)
  define k where "k = (length code + 7) div 8"
  have k: "unat (stream_size cfg') = k"
  proof -
    have "unat (r + 7) = unat r + 7" using r(2) by (subst unat_add_small) (simp_all add: cmp_is_error_iff)
    then show ?thesis using info r(1) by (simp add: cfg'_def info_fits_def unat_div k_def)
  qed
  note p = holds_code_take [OF src(2) k_def]
  have v: "cfg_valid cfg'" "data_type cfg' \<in> coded_types"
    using coding cfg_valid_coding [OF sc] eqs by (simp_all add: coding_cfg_def)
  note checks = decompress_checks [OF v]
  have size: "sint (samples cfg' * word_of_nat (size_of_a_sample (data_type cfg')) :: u32) = int n"
  proof -
    have "unat (samples cfg' * word_of_nat (size_of_a_sample (data_type cfg')) :: u32) = n"
      using n smp eqs(1) data_bytes_raw [of cfg'] by (simp add: data_bytes_def size_of_a_sample_def mult.commute)
    then show ?thesis using n(2)
      by (simp add: sint_uint signed_take_bit_int_eq_self_iff uint_nat del: of_nat_unat)
  qed
  have l: "op_lossy (coded_ops big (data_type ?c)) ?c s = cleared_samples big (unat (rc_round c)) (unat (rc_samples c)) s"
    using imagette_lossy [of ?c s big] code(2) n(1) by simp
  have "decompress_coded big cfg' 0 x = Some (0, (put_model ?c 0 (next_model big ?c s (drop 0 (bytes_at (model_buf x)))) x)
      \<lparr>dst := Some (a, put_bytes 0 (op_lossy (coded_ops big (data_type ?c)) ?c s) d)\<rparr>)"
    by (rule decompress_coded_ok [OF coding _ sc, where n = n and hdr = "[]" and p = "take k e" and rest = "drop k e"])
      (use smp n src p k code models dst in simp_all)
  then have "decompressed_data_internal big (Some cfg') RDCU_DECOMPRESSION x = Some (int n,
    (put_model ?c 0 (next_model big ?c s (bytes_at (model_buf x))) x)
      \<lparr>dst := Some (a, put_bytes 0 (cleared_samples big (unat (rc_round c)) (unat (rc_samples c)) s) d)\<rparr>)"
    using checks coding models(2) src dst(1) size l eqs
    by (simp add: decompressed_data_internal_def Let_def coding_cfg_def del: not_None_eq)
  then show ?thesis
    using info src(1) by (simp add: decompress_rdcu_data_def info_fits_def cfg'_def)
qed

end
