(* ===== verification/Ground_Hardware.thy ===== *)
theory Ground_Hardware
  imports Hardware_Trip Ground_Values
begin

text \<open>
  One imagette sample, compressed in the format of the hardware compressor on a big-endian host, for the
  instance of the round trip of that format.
\<close>

definition hw_cfg :: rdcu_cfg where
  "hw_cfg = witness_rcfg\<lparr>rc_cmp_mode := CMP_MODE_DIFF_ZERO, rc_model_value := 0, rc_golomb_par := 3, rc_spill := 10, rc_samples := 1,
     rc_buffer_length := 4, rc_ap1_golomb_par := 0, rc_ap2_golomb_par := 0\<rparr>"
definition hw_bufs :: cmp_bufs where
  "hw_bufs = \<lparr>src = Some (0, [0, 2]), dst = Some (100, replicate 8 0), model_buf = None, updated_model_buf = None\<rparr>"

lemma hw_valid: "\<not> cmp_is_error (cmp_cfg_icu_is_invalid_error_code (Some (rdcu_cfg_used hw_cfg)) hw_bufs)"
  by (simp add: cmp_cfg_icu_is_invalid_error_code_def hw_cfg_def hw_bufs_def witness_rcfg_def rdcu_like_cfg_def cmp_cfg_gen_par_is_invalid_def
      cmp_data_type_is_invalid_def cmp_mode_is_supported_def model_mode_is_used_def cmp_imagette_data_type_is_used_def
      rdcu_supported_data_type_is_used_def cmp_ap_imagette_data_type_is_used_def
      cmp_cfg_imagette_is_invalid_def cmp_pars_are_invalid_def ground cmp_cfg_zero_def CMP_ERROR_def size_of_a_sample_def
      check_compression_buffers_def buffer_overlaps_def
      MIN_NON_IMA_GOLOMB_PAR_def MAX_NON_IMA_GOLOMB_PAR_def MIN_NON_IMA_SPILL_def)

lemma hw_ap: "ap_cmp_size True (rdcu_like_cfg hw_cfg (rc_ap1_golomb_par hw_cfg) s) b = Some 0"
  "ap_cmp_size True (rdcu_like_cfg hw_cfg (rc_ap2_golomb_par hw_cfg) s) b = Some 0"
  by (simp_all add: ap_cmp_size_def rdcu_like_cfg_def hw_cfg_def)

lemma hw_code: "length (codes True (rdcu_cfg_used hw_cfg) [0, 2] m) \<le> 64"
proof -
  have "read_samples True imagette_acc imagette_layout 0 [0, 2] = [2]"
    by (simp add: read_samples_def load_samples_def sample_of_bytes_def put_fields_def imagette_acc_def host_word_def be_word_def)
  then show ?thesis
    by (simp add: coded_ops_def ops_of_def codes_of_def hw_cfg_def witness_rcfg_def rdcu_like_cfg_def collection_bits_def
        imagette_fields_def sample_bits_def sample_models_def sample_code_def setup_pars_def ground cmp_cfg_zero_def
        value_code_def length_golomb_code imagette_max_data_bits_def golomb_cutoff_def MAX_USED_BITS_def cmp_ap_imagette_data_type_is_used_def)
qed

lemma hw_run: "\<exists>r info b'. compress_like_rdcu True (Some hw_cfg) True hw_bufs = Some (r, Some info, b') \<and> \<not> cmp_is_error r \<and>
    unat r \<le> 64 \<and> (\<exists>e. dst b' = Some (100, e) \<and> length e = 8)"
proof -
  let ?c = "rdcu_cfg_used hw_cfg"
  have ss: "stream_size ?c = 8" by (simp add: hw_cfg_def)
  have fits: "unat (0 :: u32) + length (codes True ?c (bytes_at (src hw_bufs)) (bytes_at (model_buf hw_bufs))) \<le>
      unat (cmp_stream_size_to_bits (stream_size ?c))"
    using hw_code [of "bytes_at (model_buf hw_bufs)"] unfolding ss
    by (simp add: hw_bufs_def bytes_at_def cmp_stream_size_to_bits_def)
  have wr: "writable (replicate 8 0) (cmp_stream_size_to_bits (stream_size ?c))"
    unfolding ss by (rule writable_stream_bits) simp_all
  have call: "call_ok ?c hw_bufs 0"
    using cmp_cfg_check_valid [OF hw_valid]
    by (simp add: call_ok_def coding_cfg_def)
      (simp add: hw_cfg_def hw_bufs_def bytes_at_def models_ok_def model_mode_is_used_def in_place_def)
  have "dst hw_bufs = Some (100, replicate 8 0)" by (simp add: hw_bufs_def)
  from compress_coded_fits [OF call this wr fits] obtain b' d' where "dst b' = Some (100, d')" "length d' = 8"
    "compress_data_internal True (Some ?c) hw_bufs 0 = Some (word_of_nat (length (codes True ?c [0, 2] [])), b')"
    by (metis add_0 length_replicate bytes_at_Some hw_bufs_def cmp_bufs.select_convs(1,3) bytes_at_None)
  moreover have "unat (word_of_nat (length (codes True ?c [0, 2] [])) :: u32) \<le> 64"
    using hw_code [of "[]"] unat_of_nat_small [of "length (codes True ?c [0, 2] [])"] by simp
  ultimately show ?thesis
    using hw_valid by (simp add: compress_like_rdcu_def hw_ap cmp_is_error_iff Let_def)
qed

end
