(* ===== verification/Rmap_Packet.thy ===== *)
theory Rmap_Packet
  imports Prelude
begin

unbundle bit_operations_syntax

text \<open>
  RMAP commands and replies (\<open>lib/rdcu_compress/rmap.c\<close> and \<open>rmap.h\<close>): the command codes, the CRC of
  ECSS-E-ST-50-52C, the packet structure with its setters, and the two functions that turn a
  packet structure into the bytes of a header and received bytes into a packet structure.

  A packet is a value; the buffers it points to are \<open>buffer option\<close>, NULL being \<open>None\<close>. The
  parameter \<open>alloc\<close> is the allocator: for a number of bytes the size of the block that \<open>malloc\<close> or
  \<open>calloc\<close> returns, at least that number, or \<open>None\<close> when there is no memory. The functions that
  print a packet are not modelled.
\<close>

type_synonym malloc = "nat \<Rightarrow> nat option"

section \<open>Command codes and header sizes\<close>

abbreviation (input) "RMAP_CMD_BIT_WRITE \<equiv> 0x8 :: u8"
abbreviation (input) "RMAP_READ_ADDR_SINGLE \<equiv> 0x2 :: u8"
abbreviation (input) "RMAP_READ_ADDR_INC \<equiv> 0x3 :: u8"
abbreviation (input) "RMAP_READ_MODIFY_WRITE_ADDR_INC \<equiv> 0x7 :: u8"
abbreviation (input) "RMAP_WRITE_ADDR_SINGLE \<equiv> 0x8 :: u8"
abbreviation (input) "RMAP_WRITE_ADDR_INC \<equiv> 0x9 :: u8"
abbreviation (input) "RMAP_WRITE_ADDR_SINGLE_REPLY \<equiv> 0xa :: u8"
abbreviation (input) "RMAP_WRITE_ADDR_INC_REPLY \<equiv> 0xb :: u8"
abbreviation (input) "RMAP_WRITE_ADDR_SINGLE_VERIFY \<equiv> 0xc :: u8"
abbreviation (input) "RMAP_WRITE_ADDR_INC_VERIFY \<equiv> 0xd :: u8"
abbreviation (input) "RMAP_WRITE_ADDR_SINGLE_VERIFY_REPLY \<equiv> 0xe :: u8"
abbreviation (input) "RMAP_WRITE_ADDR_INC_VERIFY_REPLY \<equiv> 0xf :: u8"

abbreviation (input) "RMAP_HDR_MIN_SIZE_WRITE_CMD \<equiv> 15 :: int"
abbreviation (input) "RMAP_HDR_MIN_SIZE_WRITE_REP \<equiv> 7 :: int"
abbreviation (input) "RMAP_HDR_MIN_SIZE_READ_CMD \<equiv> 15 :: int"
abbreviation (input) "RMAP_HDR_MIN_SIZE_READ_REP \<equiv> 11 :: int"

abbreviation (input) "RMAP_DEST_ADDRESS \<equiv> 0x00 :: nat"
abbreviation (input) "RMAP_PROTOCOL_ID \<equiv> 0x01 :: nat"
abbreviation (input) "RMAP_INSTRUCTION \<equiv> 0x02 :: nat"
abbreviation (input) "RMAP_CMD_DESTKEY \<equiv> 0x03 :: nat"
abbreviation (input) "RMAP_REPLY_ADDR_START \<equiv> 0x04 :: nat"
abbreviation (input) "RMAP_SRC_ADDR \<equiv> 0x04 :: nat"
abbreviation (input) "RMAP_TRANS_ID_BYTE0 \<equiv> 0x05 :: nat"
abbreviation (input) "RMAP_TRANS_ID_BYTE1 \<equiv> 0x06 :: nat"
abbreviation (input) "RMAP_ADDR_BYTE0 \<equiv> 0x08 :: nat"
abbreviation (input) "RMAP_ADDR_BYTE1 \<equiv> 0x09 :: nat"
abbreviation (input) "RMAP_ADDR_BYTE2 \<equiv> 0x0a :: nat"
abbreviation (input) "RMAP_ADDR_BYTE3 \<equiv> 0x0b :: nat"
abbreviation (input) "RMAP_DATALEN_BYTE0 \<equiv> 0x08 :: nat"
abbreviation (input) "RMAP_DATALEN_BYTE1 \<equiv> 0x09 :: nat"
abbreviation (input) "RMAP_DATALEN_BYTE2 \<equiv> 0x0a :: nat"
abbreviation (input) "RMAP_HEADER_CRC \<equiv> 0x0b :: nat"
abbreviation (input) "RMAP_DATA_START \<equiv> 0x0c :: nat"

abbreviation (input) "RMAP_MAX_PATH_LEN \<equiv> 15 :: u8"
abbreviation (input) "RMAP_MAX_REPLY_PATH_LEN \<equiv> 12 :: u8"
abbreviation (input) "RMAP_MAX_DATA_LEN \<equiv> 0xFFFFFF :: u32"

definition rmap_validate_cmd_code :: "u8 \<Rightarrow> int" where
  "rmap_validate_cmd_code cmd =
     (if cmd \<in> {RMAP_READ_ADDR_SINGLE, RMAP_READ_ADDR_INC, RMAP_READ_MODIFY_WRITE_ADDR_INC,
        RMAP_WRITE_ADDR_SINGLE, RMAP_WRITE_ADDR_INC, RMAP_WRITE_ADDR_SINGLE_REPLY,
        RMAP_WRITE_ADDR_INC_REPLY, RMAP_WRITE_ADDR_SINGLE_VERIFY, RMAP_WRITE_ADDR_INC_VERIFY,
        RMAP_WRITE_ADDR_SINGLE_VERIFY_REPLY, RMAP_WRITE_ADDR_INC_VERIFY_REPLY}
      then 0 else -1)"

section \<open>The packet structure\<close>

text \<open>The bit fields of the instruction byte; the two layouts of the source, one for each byte
  order, put them at the same places.\<close>

definition ri_reply_addr_len :: "u8 \<Rightarrow> u8" where
  "ri_reply_addr_len instr = instr AND 0x3"

definition ri_cmd :: "u8 \<Rightarrow> u8" where
  "ri_cmd instr = drop_bit 2 instr AND 0xF"

definition ri_cmd_resp :: "u8 \<Rightarrow> bool" where
  "ri_cmd_resp instr = bit instr 6"

definition set_ri_reply_addr_len :: "u8 \<Rightarrow> u8 \<Rightarrow> u8" where
  "set_ri_reply_addr_len v instr = (instr AND NOT 0x3) OR (v AND 0x3)"

definition set_ri_cmd :: "u8 \<Rightarrow> u8 \<Rightarrow> u8" where
  "set_ri_cmd v instr = (instr AND NOT 0x3C) OR push_bit 2 (v AND 0xF)"

definition set_ri_cmd_resp :: "u8 \<Rightarrow> u8" where
  "set_ri_cmd_resp instr = instr OR 0x40"

record rmap_pkt =
  rp_path :: "buffer option"
  rp_path_len :: u8
  rp_dst :: u8
  rp_proto_id :: u8
  rp_instruction :: u8
  rp_key :: u8
  rp_src :: u8
  rp_rpath :: "buffer option"
  rp_rpath_len :: u8
  rp_tr_id :: u16
  rp_addr :: u32
  rp_data :: "buffer option"
  rp_data_len :: u32
  rp_hdr_crc :: u8
  rp_data_crc :: u8

definition rmap_get_min_hdr_size :: "rmap_pkt \<Rightarrow> int" where
  "rmap_get_min_hdr_size pkt =
     (let cmd = ri_cmd (rp_instruction pkt); cmd_resp = ri_cmd_resp (rp_instruction pkt) in
      if cmd \<in> {RMAP_READ_ADDR_SINGLE, RMAP_READ_ADDR_INC, RMAP_READ_MODIFY_WRITE_ADDR_INC}
      then (if cmd_resp then RMAP_HDR_MIN_SIZE_READ_CMD else RMAP_HDR_MIN_SIZE_READ_REP)
      else if cmd \<in> {RMAP_WRITE_ADDR_SINGLE, RMAP_WRITE_ADDR_INC, RMAP_WRITE_ADDR_SINGLE_REPLY,
        RMAP_WRITE_ADDR_INC_REPLY, RMAP_WRITE_ADDR_SINGLE_VERIFY, RMAP_WRITE_ADDR_INC_VERIFY,
        RMAP_WRITE_ADDR_SINGLE_VERIFY_REPLY, RMAP_WRITE_ADDR_INC_VERIFY_REPLY}
      then (if cmd_resp then RMAP_HDR_MIN_SIZE_WRITE_CMD else RMAP_HDR_MIN_SIZE_WRITE_REP)
      else -1)"

section \<open>The CRC\<close>

definition crc8_lt :: "u8 list" where
  "crc8_lt = [
     0x00, 0x91, 0xe3, 0x72, 0x07, 0x96, 0xe4, 0x75, 0x0e, 0x9f, 0xed, 0x7c,
     0x09, 0x98, 0xea, 0x7b, 0x1c, 0x8d, 0xff, 0x6e, 0x1b, 0x8a, 0xf8, 0x69,
     0x12, 0x83, 0xf1, 0x60, 0x15, 0x84, 0xf6, 0x67, 0x38, 0xa9, 0xdb, 0x4a,
     0x3f, 0xae, 0xdc, 0x4d, 0x36, 0xa7, 0xd5, 0x44, 0x31, 0xa0, 0xd2, 0x43,
     0x24, 0xb5, 0xc7, 0x56, 0x23, 0xb2, 0xc0, 0x51, 0x2a, 0xbb, 0xc9, 0x58,
     0x2d, 0xbc, 0xce, 0x5f, 0x70, 0xe1, 0x93, 0x02, 0x77, 0xe6, 0x94, 0x05,
     0x7e, 0xef, 0x9d, 0x0c, 0x79, 0xe8, 0x9a, 0x0b, 0x6c, 0xfd, 0x8f, 0x1e,
     0x6b, 0xfa, 0x88, 0x19, 0x62, 0xf3, 0x81, 0x10, 0x65, 0xf4, 0x86, 0x17,
     0x48, 0xd9, 0xab, 0x3a, 0x4f, 0xde, 0xac, 0x3d, 0x46, 0xd7, 0xa5, 0x34,
     0x41, 0xd0, 0xa2, 0x33, 0x54, 0xc5, 0xb7, 0x26, 0x53, 0xc2, 0xb0, 0x21,
     0x5a, 0xcb, 0xb9, 0x28, 0x5d, 0xcc, 0xbe, 0x2f, 0xe0, 0x71, 0x03, 0x92,
     0xe7, 0x76, 0x04, 0x95, 0xee, 0x7f, 0x0d, 0x9c, 0xe9, 0x78, 0x0a, 0x9b,
     0xfc, 0x6d, 0x1f, 0x8e, 0xfb, 0x6a, 0x18, 0x89, 0xf2, 0x63, 0x11, 0x80,
     0xf5, 0x64, 0x16, 0x87, 0xd8, 0x49, 0x3b, 0xaa, 0xdf, 0x4e, 0x3c, 0xad,
     0xd6, 0x47, 0x35, 0xa4, 0xd1, 0x40, 0x32, 0xa3, 0xc4, 0x55, 0x27, 0xb6,
     0xc3, 0x52, 0x20, 0xb1, 0xca, 0x5b, 0x29, 0xb8, 0xcd, 0x5c, 0x2e, 0xbf,
     0x90, 0x01, 0x73, 0xe2, 0x97, 0x06, 0x74, 0xe5, 0x9e, 0x0f, 0x7d, 0xec,
     0x99, 0x08, 0x7a, 0xeb, 0x8c, 0x1d, 0x6f, 0xfe, 0x8b, 0x1a, 0x68, 0xf9,
     0x82, 0x13, 0x61, 0xf0, 0x85, 0x14, 0x66, 0xf7, 0xa8, 0x39, 0x4b, 0xda,
     0xaf, 0x3e, 0x4c, 0xdd, 0xa6, 0x37, 0x45, 0xd4, 0xa1, 0x30, 0x42, 0xd3,
     0xb4, 0x25, 0x57, 0xc6, 0xb3, 0x22, 0x50, 0xc1, 0xba, 0x2b, 0x59, 0xc8,
     0xbd, 0x2c, 0x5e, 0xcf]"

text \<open>\<open>buf\<close> is NULL or the first \<open>len\<close> bytes of the buffer.\<close>

fun rmap_crc8_loop :: "u8 \<Rightarrow> buffer \<Rightarrow> u8" where
  "rmap_crc8_loop crc8 [] = crc8"
| "rmap_crc8_loop crc8 (b # bs) = rmap_crc8_loop (crc8_lt ! unat (crc8 XOR b)) bs"

definition rmap_crc8 :: "buffer option \<Rightarrow> u8" where
  "rmap_crc8 buf = (case buf of None \<Rightarrow> 0 | Some bs \<Rightarrow> rmap_crc8_loop 0 bs)"

section \<open>Creating packets and setting their members\<close>

text \<open>The size of the structure on a machine with 8-byte pointers.\<close>

abbreviation (input) "SIZEOF_RMAP_PKT \<equiv> 48 :: nat"

definition rmap_create_packet :: "malloc \<Rightarrow> rmap_pkt option" where
  "rmap_create_packet alloc =
     (if alloc SIZEOF_RMAP_PKT \<noteq> None
      then Some \<lparr>rp_path = None, rp_path_len = 0, rp_dst = 0, rp_proto_id = 1,
        rp_instruction = 0, rp_key = 0, rp_src = 0, rp_rpath = None, rp_rpath_len = 0,
        rp_tr_id = 0, rp_addr = 0, rp_data = None, rp_data_len = 0, rp_hdr_crc = 0,
        rp_data_crc = 0\<rparr>
      else None)"

text \<open>The setters take the packet \<open>pkt\<close> points to; a NULL pointer is \<open>None\<close> and stays unchanged.\<close>

definition rmap_set_dst :: "u8 \<Rightarrow> rmap_pkt option \<Rightarrow> rmap_pkt option" where
  "rmap_set_dst a pkt = map_option (\<lambda>p. p\<lparr>rp_dst := a\<rparr>) pkt"

definition rmap_set_src :: "u8 \<Rightarrow> rmap_pkt option \<Rightarrow> rmap_pkt option" where
  "rmap_set_src a pkt = map_option (\<lambda>p. p\<lparr>rp_src := a\<rparr>) pkt"

definition rmap_set_key :: "u8 \<Rightarrow> rmap_pkt option \<Rightarrow> rmap_pkt option" where
  "rmap_set_key k pkt = map_option (\<lambda>p. p\<lparr>rp_key := k\<rparr>) pkt"

definition rmap_set_tr_id :: "u16 \<Rightarrow> rmap_pkt option \<Rightarrow> rmap_pkt option" where
  "rmap_set_tr_id i pkt = map_option (\<lambda>p. p\<lparr>rp_tr_id := i\<rparr>) pkt"

definition rmap_set_data_addr :: "u32 \<Rightarrow> rmap_pkt option \<Rightarrow> rmap_pkt option" where
  "rmap_set_data_addr a pkt = map_option (\<lambda>p. p\<lparr>rp_addr := a\<rparr>) pkt"

text \<open>The setters that can fail return the result of the C function and the packet. The copy of
  a path reads \<open>len\<close> bytes of the source: \<open>None\<close> when the source has fewer.\<close>

definition copy_path :: "buffer option \<Rightarrow> u8 \<Rightarrow> buffer option" where
  "copy_path src len =
     (case src of None \<Rightarrow> None
      | Some bs \<Rightarrow> if unat len \<le> length bs then Some (take (unat len) bs) else None)"

definition rmap_set_reply_path ::
  "malloc \<Rightarrow> buffer option \<Rightarrow> u8 \<Rightarrow> rmap_pkt option \<Rightarrow> (int \<times> rmap_pkt option) option" where
  "rmap_set_reply_path alloc rpath len pkt =
     (case pkt of None \<Rightarrow> Some (-1, None)
      | Some p \<Rightarrow>
         if rpath = None \<and> len \<noteq> 0 then Some (-1, pkt)
         else if len > RMAP_MAX_REPLY_PATH_LEN then Some (-1, pkt)
         else if len AND 0x3 \<noteq> 0 then Some (-1, pkt)
         else
           let p = p\<lparr>rp_rpath_len := len\<rparr>;
               ri = set_ri_reply_addr_len (drop_bit 2 len) (rp_instruction p) in
           if len = 0 then Some (0, Some (p\<lparr>rp_instruction := ri\<rparr>))
           else if alloc (unat len) = None then Some (-1, Some (p\<lparr>rp_rpath := None\<rparr>))
           else do {
             path \<leftarrow> copy_path rpath len;
             Some (0, Some (p\<lparr>rp_rpath := Some path, rp_instruction := ri\<rparr>))
           })"

definition rmap_set_dest_path ::
  "malloc \<Rightarrow> buffer option \<Rightarrow> u8 \<Rightarrow> rmap_pkt option \<Rightarrow> (int \<times> rmap_pkt option) option" where
  "rmap_set_dest_path alloc path len pkt =
     (case pkt of None \<Rightarrow> Some (-1, None)
      | Some p \<Rightarrow>
         if path = None \<and> len \<noteq> 0 then Some (-1, pkt)
         else if len > RMAP_MAX_PATH_LEN then Some (-1, pkt)
         else
           let p = p\<lparr>rp_path_len := len\<rparr> in
           if len = 0 then Some (0, Some p)
           else if alloc (unat len) = None then Some (-1, Some (p\<lparr>rp_path := None\<rparr>))
           else do {
             path \<leftarrow> copy_path path len;
             Some (0, Some (p\<lparr>rp_path := Some path\<rparr>))
           })"

definition rmap_set_cmd :: "u8 \<Rightarrow> rmap_pkt option \<Rightarrow> int \<times> rmap_pkt option" where
  "rmap_set_cmd cmd pkt =
     (case pkt of None \<Rightarrow> (-1, None)
      | Some p \<Rightarrow>
         if rmap_validate_cmd_code cmd \<noteq> 0 then (-1, pkt)
         else (0, Some (p\<lparr>rp_instruction :=
           set_ri_cmd_resp (set_ri_cmd (cmd AND 0xF) (rp_instruction p))\<rparr>)))"

definition rmap_set_data_len :: "u32 \<Rightarrow> rmap_pkt option \<Rightarrow> int \<times> rmap_pkt option" where
  "rmap_set_data_len len pkt =
     (case pkt of None \<Rightarrow> (-1, None)
      | Some p \<Rightarrow> if len > RMAP_MAX_DATA_LEN then (-1, pkt) else (0, Some (p\<lparr>rp_data_len := len\<rparr>)))"

section \<open>Building a header\<close>

text \<open>The bytes the function writes one after the other; \<open>None\<close> when a path is shorter than its length
  or NULL.\<close>

definition rmap_hdr_bytes :: "rmap_pkt \<Rightarrow> buffer option" where
  "rmap_hdr_bytes pkt =
     (let path_bytes = \<lambda>p len. if len = 0 then Some [] else copy_path p len;
          cmd_resp = ri_cmd_resp (rp_instruction pkt);
          write = ri_cmd (rp_instruction pkt) AND RMAP_CMD_BIT_WRITE \<noteq> 0 in
      do {
        path \<leftarrow> path_bytes (rp_path pkt) (rp_path_len pkt);
        rpath \<leftarrow> path_bytes (rp_rpath pkt) (rp_rpath_len pkt);
        Some (path @
          [rp_dst pkt, rp_proto_id pkt, rp_instruction pkt, rp_key pkt] @
          rpath @
          [rp_src pkt, ucast (drop_bit 8 (rp_tr_id pkt)), ucast (rp_tr_id pkt)] @
          (let data_len = [ucast (drop_bit 16 (rp_data_len pkt)),
                 ucast (drop_bit 8 (rp_data_len pkt)), ucast (rp_data_len pkt)] in
           if cmd_resp then
             [0, ucast (drop_bit 24 (rp_addr pkt)), ucast (drop_bit 16 (rp_addr pkt)),
                 ucast (drop_bit 8 (rp_addr pkt)), ucast (rp_addr pkt)] @ data_len
           else if write then []
           else 0 # data_len))
      })"

text \<open>With NULL for \<open>hdr\<close> the function returns the needed size; otherwise it writes to the buffer.\<close>

definition rmap_build_hdr :: "rmap_pkt option \<Rightarrow> buffer option \<Rightarrow> (int \<times> buffer option) option" where
  "rmap_build_hdr pkt hdr =
     (case pkt of None \<Rightarrow> Some (-1, hdr)
      | Some p \<Rightarrow>
         (case hdr of
            None \<Rightarrow> Some (rmap_get_min_hdr_size p + uint (rp_path_len p) + uint (rp_rpath_len p), None)
          | Some h \<Rightarrow> do {
              bytes \<leftarrow> rmap_hdr_bytes p;
              h \<leftarrow> store_bytes 0 bytes h;
              Some (int (length bytes), Some h)
            }))"

section \<open>Reading a packet\<close>

definition byte_at :: "buffer \<Rightarrow> nat \<Rightarrow> u8 option" where
  "byte_at buf i = (if i < length buf then Some (buf ! i) else None)"

text \<open>The reply path of a command: the packet with the path and the number of bytes to skip behind
  it. The outer \<open>None\<close> is a read behind the buffer, the inner one an error of the function.\<close>

definition read_reply_path ::
  "malloc \<Rightarrow> buffer \<Rightarrow> u32 \<Rightarrow> u32 \<Rightarrow> rmap_pkt \<Rightarrow> (rmap_pkt \<times> nat) option option" where
  "read_reply_path alloc buf len min_hdr_size pkt =
     (if ri_cmd_resp (rp_instruction pkt) then
        let rpath_len = push_bit 2 (ri_reply_addr_len (rp_instruction pkt)) AND 0xFF;
            pkt = pkt\<lparr>rp_rpath_len := rpath_len\<rparr> in
        if len < min_hdr_size + ucast rpath_len then Some None
        else if alloc (unat rpath_len) = None then Some None
        else if RMAP_REPLY_ADDR_START + unat rpath_len \<le> length buf
        then Some (Some (pkt\<lparr>rp_rpath := Some (take (unat rpath_len) (drop RMAP_REPLY_ADDR_START buf))\<rparr>,
          unat rpath_len))
        else None
      else Some (Some (pkt, 0)))"

text \<open>The members behind the reply path and the number of bytes to skip from there on.\<close>

definition read_hdr_fields :: "buffer \<Rightarrow> nat \<Rightarrow> rmap_pkt \<Rightarrow> (rmap_pkt \<times> nat) option" where
  "read_hdr_fields buf n pkt =
     (let cmd_resp = ri_cmd_resp (rp_instruction pkt);
          write = ri_cmd (rp_instruction pkt) AND RMAP_CMD_BIT_WRITE \<noteq> 0 in
      do {
        src \<leftarrow> byte_at buf (RMAP_SRC_ADDR + n);
        tr_id \<leftarrow> load_be 2 (RMAP_TRANS_ID_BYTE0 + n) buf;
        let pkt = pkt\<lparr>rp_src := src, rp_tr_id := tr_id\<rparr>;
        (pkt, n) \<leftarrow>
          (if cmd_resp then do {
             addr \<leftarrow> load_be 4 (RMAP_ADDR_BYTE0 + n) buf;
             Some (pkt\<lparr>rp_addr := addr\<rparr>, n + 4)
           } else Some (pkt, n));
        pkt \<leftarrow>
          (if \<not> (\<not> cmd_resp \<and> write) then do {
             data_len \<leftarrow> load_be 3 (RMAP_DATALEN_BYTE0 + n) buf;
             Some (pkt\<lparr>rp_data_len := data_len\<rparr>)
           } else Some pkt);
        hdr_crc \<leftarrow> byte_at buf RMAP_HEADER_CRC;
        Some (pkt\<lparr>rp_hdr_crc := hdr_crc\<rparr>, n)
      })"

definition read_data :: "malloc \<Rightarrow> buffer \<Rightarrow> u32 \<Rightarrow> nat \<Rightarrow> rmap_pkt \<Rightarrow> rmap_pkt option option" where
  "read_data alloc buf len n pkt =
     (let data_len = unat (rp_data_len pkt) in
      if data_len = 0 then Some (Some pkt)
      else
        let pkt_size = RMAP_DATA_START + n + data_len + 1 in
        if unat len < pkt_size then Some None
        else if alloc data_len = None then Some None
        else do {
          data_crc \<leftarrow> byte_at buf (RMAP_DATA_START + n + data_len);
          Some (Some (pkt\<lparr>rp_data := Some (take data_len (drop (RMAP_DATA_START + n) buf)),
            rp_data_crc := data_crc\<rparr>))
        })"

definition rmap_pkt_from_buffer ::
  "malloc \<Rightarrow> buffer option \<Rightarrow> u32 \<Rightarrow> rmap_pkt option option" where
  "rmap_pkt_from_buffer alloc buf len =
     (case buf of None \<Rightarrow> Some None
      | Some bs \<Rightarrow>
         if len < 7 then Some None
         else do {
           proto_id \<leftarrow> byte_at bs RMAP_PROTOCOL_ID;
           if proto_id \<noteq> 1 then Some None
           else case rmap_create_packet alloc of
             None \<Rightarrow> Some None
           | Some pkt \<Rightarrow> do {
               dest \<leftarrow> byte_at bs RMAP_DEST_ADDRESS;
               instr \<leftarrow> byte_at bs RMAP_INSTRUCTION;
               key \<leftarrow> byte_at bs RMAP_CMD_DESTKEY;
               let pkt = pkt\<lparr>rp_dst := dest, rp_proto_id := proto_id, rp_instruction := instr,
                 rp_key := key\<rparr>;
               let min_hdr_size = rmap_get_min_hdr_size pkt;
               if min_hdr_size < 0 then Some None
               else if len < word_of_int min_hdr_size then Some None
               else do {
                 r \<leftarrow> read_reply_path alloc bs len (word_of_int min_hdr_size) pkt;
                 case r of None \<Rightarrow> Some None
                 | Some (pkt, n) \<Rightarrow> do {
                     (pkt, n) \<leftarrow> read_hdr_fields bs n pkt;
                     read_data alloc bs len n pkt
                   }
               }
             }
         })"

end
