(* ===== verification/Rdcu_Mirror.thy ===== *)
theory Rdcu_Mirror
  imports Endianness
begin

unbundle bit_operations_syntax

text \<open>
  The mirror of the RDCU (\<open>struct rdcu_mirror\<close> of \<open>lib/rdcu_compress/rdcu_ctrl.h\<close>) and the local
  addresses into it that the transaction log keeps. The 32-bit members of the structure are
  named by a datatype, in the order of the structure, so that the address of a member is a
  value: the members are the function \<open>regs\<close>, \<open>&rdcu->compr_status\<close> is \<open>REGISTER Compr_status\<close>.
  The SRAM is a function of the offset; every access is checked against its size.
\<close>

section \<open>The structure\<close>

datatype rdcu_register =
    Fpga_version | Rdcu_status | Lvds_core_status | Spw_link_status | Spw_err_cntrs
  | Rmap_last_err | Rmap_no_reply_err_cntrs | Rmap_pckt_err_cntrs
  | Adc_values_1 | Adc_values_2 | Adc_values_3 | Adc_values_4 | Adc_status | Compr_status
  | Rdcu_reset | Spw_link_ctrl | Lvds_ctrl | Core_ctrl | Adc_ctrl | Compr_ctrl
  | Compressor_param1 | Compressor_param2 | Adaptive_param1 | Adaptive_param2
  | Data_start_addr | Model_start_addr | Num_samples | New_model_start_addr
  | Compr_data_buf_start_addr | Compr_data_buf_len
  | Used_param1 | Used_param2 | Compr_data_start_addr | Compr_data_size
  | Compr_data_adaptive_1_size | Compr_data_adaptive_2_size | Compr_error
  | New_model_addr_used | Samples_used
  | Sram_edac_ctrl | Sram_edac_status

text \<open>The members in the order of the structure, without gaps.\<close>

definition rdcu_registers :: "rdcu_register list" where
  "rdcu_registers =
     [Fpga_version, Rdcu_status, Lvds_core_status, Spw_link_status, Spw_err_cntrs,
      Rmap_last_err, Rmap_no_reply_err_cntrs, Rmap_pckt_err_cntrs,
      Adc_values_1, Adc_values_2, Adc_values_3, Adc_values_4, Adc_status, Compr_status,
      Rdcu_reset, Spw_link_ctrl, Lvds_ctrl, Core_ctrl, Adc_ctrl, Compr_ctrl,
      Compressor_param1, Compressor_param2, Adaptive_param1, Adaptive_param2,
      Data_start_addr, Model_start_addr, Num_samples, New_model_start_addr,
      Compr_data_buf_start_addr, Compr_data_buf_len,
      Used_param1, Used_param2, Compr_data_start_addr, Compr_data_size,
      Compr_data_adaptive_1_size, Compr_data_adaptive_2_size, Compr_error,
      New_model_addr_used, Samples_used,
      Sram_edac_ctrl, Sram_edac_status]"

record rdcu_mirror =
  regs :: "rdcu_register \<Rightarrow> u32"
  sram :: "nat \<Rightarrow> u8"

abbreviation (input) "RDCU_SRAM_START \<equiv> 0x00000000 :: u32"
abbreviation (input) "RDCU_SRAM_END \<equiv> 0x007FFFFF :: u32"

definition RDCU_SRAM_SIZE :: u32 where
  "RDCU_SRAM_SIZE = RDCU_SRAM_END - RDCU_SRAM_START + 1"

definition set_reg :: "rdcu_register \<Rightarrow> u32 \<Rightarrow> rdcu_mirror \<Rightarrow> rdcu_mirror" where
  "set_reg r v m = m\<lparr>regs := (regs m)(r := v)\<rparr>"

section \<open>Local addresses\<close>

datatype local_addr = NULL_ADDR | REGISTER rdcu_register | SRAM nat

text \<open>The members from a register on: what a copy of several words to its address reaches.\<close>

definition registers_from :: "rdcu_register \<Rightarrow> rdcu_register list" where
  "registers_from r = dropWhile (\<lambda>x. x \<noteq> r) rdcu_registers"

text \<open>32-bit words in memory.\<close>

definition words_of_bytes :: "bool \<Rightarrow> buffer \<Rightarrow> u32 list" where
  "words_of_bytes big bs = map (\<lambda>i. host_word big (take 4 (drop (4 * i) bs))) [0..<length bs div 4]"

definition bytes_of_words :: "bool \<Rightarrow> u32 list \<Rightarrow> buffer" where
  "bytes_of_words big ws = concat (map (host_bytes big 4) ws)"

text \<open>Reading \<open>n\<close> bytes at a local address and copying bytes to one (\<open>memcpy\<close>), as far as they
  belong to the SRAM or to whole registers.\<close>

definition sram_bytes :: "nat \<Rightarrow> nat \<Rightarrow> rdcu_mirror \<Rightarrow> buffer option" where
  "sram_bytes a n m =
     (if a + n \<le> unat RDCU_SRAM_SIZE then Some (map (sram m) [a..<a + n]) else None)"

definition store_sram :: "nat \<Rightarrow> buffer \<Rightarrow> rdcu_mirror \<Rightarrow> rdcu_mirror option" where
  "store_sram a bs m =
     (if a + length bs \<le> unat RDCU_SRAM_SIZE
      then Some (m\<lparr>sram := \<lambda>i. if a \<le> i \<and> i < a + length bs then bs ! (i - a) else sram m i\<rparr>)
      else None)"

definition load_local :: "bool \<Rightarrow> local_addr \<Rightarrow> nat \<Rightarrow> rdcu_mirror \<Rightarrow> buffer option" where
  "load_local big addr n m =
     (case addr of
        NULL_ADDR \<Rightarrow> None
      | SRAM a \<Rightarrow> sram_bytes a n m
      | REGISTER r \<Rightarrow>
          if n mod 4 = 0 \<and> n div 4 \<le> length (registers_from r)
          then Some (bytes_of_words big (map (regs m) (take (n div 4) (registers_from r))))
          else None)"

definition store_local :: "bool \<Rightarrow> local_addr \<Rightarrow> buffer \<Rightarrow> rdcu_mirror \<Rightarrow> rdcu_mirror option" where
  "store_local big addr bs m =
     (case addr of
        NULL_ADDR \<Rightarrow> None
      | SRAM a \<Rightarrow> store_sram a bs m
      | REGISTER r \<Rightarrow>
          if length bs mod 4 = 0 \<and> length bs div 4 \<le> length (registers_from r)
          then Some (fold (\<lambda>(r, w). set_reg r w) (zip (registers_from r) (words_of_bytes big bs)) m)
          else None)"

end
