(* ===== verification/Rdcu_Rmap.thy ===== *)
theory Rdcu_Rmap
  imports Rmap_Packet Rdcu_Mirror
begin

unbundle bit_operations_syntax

text \<open>
  RMAP transactions with the RDCU (\<open>lib/rdcu_compress/rdcu_rmap.c\<close>): the transaction log, the processing
  of received packets, the submission of commands, and the set-up of paths and link functions.

  The static variables of the file, the mirror of the RDCU and the SpaceWire link form one
  state. The link functions \<open>rmap_tx\<close> and \<open>rmap_rx\<close> are supplied by the user of the library: they
  are arbitrary functions on a state of the link, of a type that is a parameter. The loop over
  the pending packets ends when \<open>rmap_rx\<close> reports none, so it is a partial function: \<open>None\<close> is a loop
  that never ends, or an access outside of a buffer.
\<close>

section \<open>The transaction log\<close>

abbreviation (input) "TRANS_LOG_SIZE \<equiv> 64 :: nat"

record trans_log =
  in_use :: "bool list"
  log_addr :: "local_addr list"
  pending :: int

definition trans_log_init :: trans_log where
  "trans_log_init = \<lparr>in_use = replicate TRANS_LOG_SIZE False,
     log_addr = replicate TRANS_LOG_SIZE NULL_ADDR, pending = 0\<rparr>"

text \<open>The loop over the slots from \<open>i\<close> on, stopping at the first free one.\<close>

fun free_slot :: "nat \<Rightarrow> bool list \<Rightarrow> nat option" where
  "free_slot i [] = None"
| "free_slot i (used # us) = (if used then free_slot (Suc i) us else Some i)"

definition trans_log_grab_slot :: "local_addr \<Rightarrow> trans_log \<Rightarrow> int \<times> trans_log" where
  "trans_log_grab_slot local_addr log =
     (case free_slot 0 (in_use log) of
        None \<Rightarrow> (-1, log)
      | Some slot \<Rightarrow> (int slot, log\<lparr>in_use := (in_use log)[slot := True],
          log_addr := (log_addr log)[slot := local_addr], pending := pending log + 1\<rparr>))"

definition trans_log_release_slot :: "int \<Rightarrow> trans_log \<Rightarrow> trans_log" where
  "trans_log_release_slot slot log =
     (if slot < 0 then log
      else if slot \<ge> int TRANS_LOG_SIZE then log
      else if \<not> in_use log ! nat slot then log
      else log\<lparr>in_use := (in_use log)[nat slot := False], pending := pending log - 1\<rparr>)"

definition trans_log_get_addr :: "int \<Rightarrow> trans_log \<Rightarrow> local_addr" where
  "trans_log_get_addr slot log =
     (if slot < 0 then NULL_ADDR
      else if slot \<ge> int TRANS_LOG_SIZE then NULL_ADDR
      else if \<not> in_use log ! nat slot then NULL_ADDR
      else log_addr log ! nat slot)"

section \<open>The state\<close>

text \<open>\<open>rmap_tx\<close> gets the header, its size, the number of leading bytes outside of the CRC, the data
  and their size; it returns 0 on success. \<open>rmap_rx\<close> gets NULL and returns the size of the next
  packet, 0 if there is none; or it gets a buffer, fills it and returns the size.\<close>

type_synonym 'w tx_function = "buffer \<Rightarrow> u32 \<Rightarrow> u8 \<Rightarrow> buffer option \<Rightarrow> u32 \<Rightarrow> 'w \<Rightarrow> int \<times> 'w"
type_synonym 'w rx_function = "buffer option \<Rightarrow> 'w \<Rightarrow> u32 \<times> buffer option \<times> 'w"

record 'w rdcu_state =
  rdcu_addr :: u8
  icu_addr :: u8
  dpath :: "buffer option"
  rpath :: "buffer option"
  dpath_len :: u8
  rpath_len :: u8
  dst_key :: u8
  rmap_tx :: "'w tx_function option"
  rmap_rx :: "'w rx_function option"
  data_mtu :: u32
  trans_log :: trans_log
  mirror :: rdcu_mirror
  link :: 'w

definition rdcu_set_destination_logical_address :: "u8 \<Rightarrow> 'w rdcu_state \<Rightarrow> 'w rdcu_state" where
  "rdcu_set_destination_logical_address a st = st\<lparr>rdcu_addr := a\<rparr>"

definition rdcu_set_source_logical_address :: "u8 \<Rightarrow> 'w rdcu_state \<Rightarrow> 'w rdcu_state" where
  "rdcu_set_source_logical_address a st = st\<lparr>icu_addr := a\<rparr>"

definition rdcu_set_destination_path :: "buffer option \<Rightarrow> u8 \<Rightarrow> 'w rdcu_state \<Rightarrow> int \<times> 'w rdcu_state" where
  "rdcu_set_destination_path path len st =
     (if len > RMAP_MAX_PATH_LEN then (-1, st)
      else if path = None \<or> len = 0 then (0, st\<lparr>dpath := None, dpath_len := 0\<rparr>)
      else (0, st\<lparr>dpath := path, dpath_len := len\<rparr>))"

definition rdcu_set_return_path :: "buffer option \<Rightarrow> u8 \<Rightarrow> 'w rdcu_state \<Rightarrow> int \<times> 'w rdcu_state" where
  "rdcu_set_return_path path len st =
     (if len > RMAP_MAX_REPLY_PATH_LEN then (-1, st)
      else if len AND 0x3 \<noteq> 0 then (-1, st)
      else if path = None \<or> len = 0 then (0, st\<lparr>rpath := None, rpath_len := 0\<rparr>)
      else (0, st\<lparr>rpath := path, rpath_len := len\<rparr>))"

definition rdcu_set_destination_key :: "u8 \<Rightarrow> 'w rdcu_state \<Rightarrow> 'w rdcu_state" where
  "rdcu_set_destination_key key st = st\<lparr>dst_key := key\<rparr>"

definition rdcu_get_data_mtu :: "'w rdcu_state \<Rightarrow> u32" where
  "rdcu_get_data_mtu st = data_mtu st"

definition rdcu_rmap_reset_log :: "'w rdcu_state \<Rightarrow> 'w rdcu_state" where
  "rdcu_rmap_reset_log st =
     st\<lparr>trans_log := (trans_log st)\<lparr>in_use := replicate TRANS_LOG_SIZE False, pending := 0\<rparr>\<rparr>"

definition rdcu_rmap_init ::
  "u32 \<Rightarrow> 'w tx_function option \<Rightarrow> 'w rx_function option \<Rightarrow> 'w rdcu_state \<Rightarrow> int \<times> 'w rdcu_state" where
  "rdcu_rmap_init mtu tx rx st =
     (if tx = None then (-1, st)
      else if rx = None then (-1, st)
      else (0, st\<lparr>rmap_tx := tx, rmap_rx := rx, data_mtu := mtu\<rparr>))"

section \<open>Processing received packets\<close>

text \<open>The data of a packet, in place, from the order of the packet to the one of the CPU; the
  conversion is compiled for little-endian CPUs only.\<close>

definition data_to_cpu :: "bool \<Rightarrow> buffer \<Rightarrow> buffer" where
  "data_to_cpu big d =
     (if big then d else bytes_of_words big (map (be32_to_cpu big) (words_of_bytes big d)))"

text \<open>The rest of the turn of the loop for a received packet: whether the loop goes on, and the
  state.\<close>

definition process_packet :: "bool \<Rightarrow> rmap_pkt \<Rightarrow> 'w rdcu_state \<Rightarrow> (bool \<times> 'w rdcu_state) option" where
  "process_packet big rp st =
     (let tr_id = uint (rp_tr_id rp);
          local_addr = trans_log_get_addr tr_id (trans_log st);
          released = st\<lparr>trans_log := trans_log_release_slot tr_id (trans_log st)\<rparr> in
      if local_addr = NULL_ADDR then Some (True, st)
      else if rp_data_len rp AND 0x3 \<noteq> 0 then Some (False, released)
      else if rp_data_len rp = 0 then Some (True, released)
      else do {
        d \<leftarrow> rp_data rp;
        let d = data_to_cpu big d;
        if rmap_crc8 (Some d) \<noteq> rp_data_crc rp then Some (False, released)
        else do {
          m \<leftarrow> store_local big local_addr d (mirror st);
          Some (True, released\<lparr>mirror := m\<rparr>)
        }
      })"

partial_function (option) process_rx_loop ::
  "bool \<Rightarrow> malloc \<Rightarrow> 'w rx_function \<Rightarrow> int \<Rightarrow> 'w rdcu_state \<Rightarrow> (int \<times> 'w rdcu_state) option" where
  [code]: "process_rx_loop big alloc rx cnt st =
     (case rx None (link st) of (n, _, w) \<Rightarrow>
        let st = st\<lparr>link := w\<rparr> in
        if n = 0 then Some (cnt, st)
        else case alloc (unat n) of
          None \<Rightarrow> Some (-1, st)
        | Some block \<Rightarrow>
            (case rx (Some (replicate block 0)) (link st) of (n, spw_pckt, w) \<Rightarrow>
               let st = st\<lparr>link := w\<rparr> in
               if n = 0 then Some (-1, st)
               else Option.bind (rmap_pkt_from_buffer alloc spw_pckt n) (\<lambda>rp.
                 case rp of
                   None \<Rightarrow> process_rx_loop big alloc rx (cnt + 1) st
                 | Some rp \<Rightarrow> Option.bind (process_packet big rp st) (\<lambda>(go_on, st).
                     if go_on then process_rx_loop big alloc rx (cnt + 1) st
                     else Some (-1, st)))))"

definition rdcu_process_rx :: "bool \<Rightarrow> malloc \<Rightarrow> 'w rdcu_state \<Rightarrow> (int \<times> 'w rdcu_state) option" where
  "rdcu_process_rx big alloc st =
     (case rmap_rx st of None \<Rightarrow> Some (-1, st) | Some rx \<Rightarrow> process_rx_loop big alloc rx 0 st)"

definition rdcu_rmap_sync_status :: "bool \<Rightarrow> malloc \<Rightarrow> 'w rdcu_state \<Rightarrow> (int \<times> 'w rdcu_state) option" where
  "rdcu_rmap_sync_status big alloc st = do {
     (_, st) \<leftarrow> rdcu_process_rx big alloc st;
     Some (pending (trans_log st), st)
   }"

section \<open>Submitting commands\<close>

definition rdcu_submit_tx ::
  "bool \<Rightarrow> malloc \<Rightarrow> buffer \<Rightarrow> u32 \<Rightarrow> buffer option \<Rightarrow> u32 \<Rightarrow> 'w rdcu_state \<Rightarrow>
    (int \<times> 'w rdcu_state) option" where
  "rdcu_submit_tx big alloc cmd cmd_size data data_size st = do {
     (_, st) \<leftarrow> rdcu_process_rx big alloc st;
     case rmap_tx st of
       None \<Rightarrow> Some (-1, st)
     | Some tx \<Rightarrow>
         (case tx cmd cmd_size (dpath_len st) data data_size (link st) of (ret, w) \<Rightarrow>
            Some (if ret \<noteq> 0 then -1 else 0, st\<lparr>link := w\<rparr>))
   }"

text \<open>The command generators get a transaction identifier and the command buffer, NULL to ask for
  the size only; they return the size and the buffer.\<close>

type_synonym cmd_buffer = "buffer option"
type_synonym gen_result = "(int \<times> cmd_buffer) option"

definition rdcu_gen_cmd ::
  "malloc \<Rightarrow> 'w rdcu_state \<Rightarrow> u16 \<Rightarrow> cmd_buffer \<Rightarrow> u8 \<Rightarrow> u32 \<Rightarrow> u32 \<Rightarrow> gen_result" where
  "rdcu_gen_cmd alloc st trans_id cmd rmap_cmd_type addr n_bytes =
     (case rmap_create_packet alloc of
        None \<Rightarrow> Some (0, cmd)
      | Some p \<Rightarrow> do {
          let pkt = rmap_set_src (icu_addr st) (rmap_set_dst (rdcu_addr st) (Some p));
          (_, pkt) \<leftarrow> rmap_set_dest_path alloc (dpath st) (dpath_len st) pkt;
          (_, pkt) \<leftarrow> rmap_set_reply_path alloc (rpath st) (rpath_len st) pkt;
          let pkt = rmap_set_key (dst_key st) pkt;
          let pkt = snd (rmap_set_cmd rmap_cmd_type pkt);
          let pkt = rmap_set_data_addr addr (rmap_set_tr_id trans_id pkt);
          let pkt = snd (rmap_set_data_len n_bytes pkt);
          (n, _) \<leftarrow> rmap_build_hdr pkt None;
          case cmd of
            None \<Rightarrow> Some (n, cmd)
          | Some buf \<Rightarrow>
              if n \<le> 0 then Some (n, cmd)
              else do {
                buf \<leftarrow> store_bytes 0 (replicate (nat n) 0) buf;
                rmap_build_hdr pkt (Some buf)
              }
        })"

text \<open>The payload in the byte order of the packet: on a little-endian CPU a copy of the words at
  the local address, byte by byte in the other order. For a read command the address goes to the
  link together with the size 0.\<close>

definition payload_at :: "bool \<Rightarrow> local_addr \<Rightarrow> u32 \<Rightarrow> rdcu_mirror \<Rightarrow> buffer option option" where
  "payload_at big addr data_len m =
     (if data_len = 0 then Some (case addr of NULL_ADDR \<Rightarrow> None | _ \<Rightarrow> Some [])
      else do {
        bs \<leftarrow> load_local big addr (unat data_len) m;
        Some (Some (if big then bs
          else bytes_of_words big (map (be32_to_cpu big) (words_of_bytes big bs))))
      })"

text \<open>The allocation of the command buffer, and the second call of the generator that fills it;
  \<open>Inl\<close> is the return value on a failure.\<close>

definition make_cmd ::
  "malloc \<Rightarrow> (u16 \<Rightarrow> cmd_buffer \<Rightarrow> gen_result) \<Rightarrow> int \<Rightarrow> (int + buffer \<times> int) option" where
  "make_cmd alloc fn slot = do {
     (n, _) \<leftarrow> fn (word_of_int slot) None;
     if n \<le> 0 then Some (Inl (-1))
     else case alloc (nat n) of
       None \<Rightarrow> Some (Inl (-1))
     | Some block \<Rightarrow> do {
         (n, cmd) \<leftarrow> fn (word_of_int slot) (Some (replicate block 0));
         if n \<le> 0 then Some (Inl (-1))
         else case cmd of None \<Rightarrow> None | Some cmd \<Rightarrow> Some (Inr (cmd, n))
       }
   }"

definition rdcu_sync ::
  "bool \<Rightarrow> malloc \<Rightarrow> (malloc \<Rightarrow> 'w rdcu_state \<Rightarrow> u16 \<Rightarrow> cmd_buffer \<Rightarrow> gen_result) \<Rightarrow> local_addr \<Rightarrow> u32 \<Rightarrow>
    'w rdcu_state \<Rightarrow> (int \<times> 'w rdcu_state) option" where
  "rdcu_sync big alloc fn addr data_len st =
     (if data_len AND 0x3 \<noteq> 0 then Some (-1, st)
      else case trans_log_grab_slot addr (trans_log st) of (slot, log) \<Rightarrow>
        let st = st\<lparr>trans_log := log\<rparr> in
        if slot < 0 \<or> slot > 0xFFFF then Some (-1, st)
        else do {
          r \<leftarrow> make_cmd alloc (fn alloc st) slot;
          case r of
            Inl e \<Rightarrow> Some (e, st)
          | Inr (cmd, n) \<Rightarrow> do {
              data \<leftarrow> payload_at big addr data_len (mirror st);
              rdcu_submit_tx big alloc cmd (word_of_int n) data data_len st
            }
        })"

definition rdcu_sync_data ::
  "bool \<Rightarrow> malloc \<Rightarrow> (malloc \<Rightarrow> 'w rdcu_state \<Rightarrow> u16 \<Rightarrow> cmd_buffer \<Rightarrow> u32 \<Rightarrow> u32 \<Rightarrow> gen_result) \<Rightarrow>
    u32 \<Rightarrow> local_addr \<Rightarrow> u32 \<Rightarrow> bool \<Rightarrow> 'w rdcu_state \<Rightarrow> (int \<times> 'w rdcu_state) option" where
  "rdcu_sync_data big alloc fn addr data data_len is_read st = do {
     (_, st) \<leftarrow> rdcu_process_rx big alloc st;
     case trans_log_grab_slot data (trans_log st) of (slot, log) \<Rightarrow>
       let st = st\<lparr>trans_log := log\<rparr> in
       if slot < 0 \<or> slot > 0xFFFF then Some (1, st)
       else do {
         r \<leftarrow> make_cmd alloc (\<lambda>trans_id cmd. fn alloc st trans_id cmd addr data_len) slot;
         case r of
           Inl e \<Rightarrow> Some (e, st)
         | Inr (cmd, n) \<Rightarrow>
             if is_read then rdcu_submit_tx big alloc cmd (word_of_int n) None 0 st
             else do {
               bs \<leftarrow> load_local big data (unat data_len) (mirror st);
               rdcu_submit_tx big alloc cmd (word_of_int n) (Some bs) data_len st
             }
       }
   }"

section \<open>Complete packets\<close>

definition has_data_crc :: "u8 \<Rightarrow> bool" where
  "has_data_crc cmd \<longleftrightarrow> cmd \<in> {RMAP_READ_MODIFY_WRITE_ADDR_INC, RMAP_WRITE_ADDR_SINGLE,
     RMAP_WRITE_ADDR_INC, RMAP_WRITE_ADDR_SINGLE_VERIFY, RMAP_WRITE_ADDR_INC_VERIFY,
     RMAP_WRITE_ADDR_SINGLE_VERIFY_REPLY, RMAP_WRITE_ADDR_INC_VERIFY_REPLY,
     RMAP_WRITE_ADDR_INC_REPLY}"

text \<open>The size and the blob; with NULL for \<open>blob\<close> only the size.\<close>

definition rdcu_package ::
  "buffer option \<Rightarrow> buffer \<Rightarrow> u32 \<Rightarrow> u8 \<Rightarrow> buffer option \<Rightarrow> u32 \<Rightarrow> (u32 \<times> buffer option) option" where
  "rdcu_package blob cmd cmd_size non_crc_bytes data data_size =
     (if data_size AND 0x3 \<noteq> 0 then Some (0, blob)
      else
        let data = (if data_size = 0 then None else data) in
        if cmd_size = 0 then Some (0, blob)
        else do {
          instr \<leftarrow> byte_at cmd (unat non_crc_bytes + RMAP_INSTRUCTION);
          let crc_field = has_data_crc (ri_cmd instr);
          let n = cmd_size + 1 + (if crc_field then 1 else 0) + (if data = None then 0 else data_size);
          case blob of
            None \<Rightarrow> Some (n, None)
          | Some b \<Rightarrow>
              if unat cmd_size > length cmd \<or> cmd_size < ucast non_crc_bytes then None
              else do {
                let hdr = take (unat cmd_size) cmd;
                b \<leftarrow> store_bytes 0 hdr b;
                b \<leftarrow> store_bytes (unat cmd_size) [rmap_crc8 (Some (drop (unat non_crc_bytes) hdr))] b;
                b \<leftarrow> (case data of
                  Some d \<Rightarrow>
                    if unat data_size > length d then None
                    else do {
                      let d = take (unat data_size) d;
                      b \<leftarrow> store_bytes (unat cmd_size + 1) d b;
                      store_bytes (unat cmd_size + 1 + unat data_size) [rmap_crc8 (Some d)] b
                    }
                | None \<Rightarrow> if crc_field then store_bytes (unat cmd_size + 1) [0] b else Some b);
                Some (n, Some b)
              }
        })"

end
