(* ===== verification/Rdcu_Cmd.thy ===== *)
theory Rdcu_Cmd
  imports Rdcu_Rmap
begin

text \<open>
  The command generators of the RDCU (\<open>lib/rdcu_compress/rdcu_cmd.c\<close> and \<open>rdcu_cmd.h\<close>): the addresses of the
  registers, and for every register the function that generates its read or write command.
\<close>

section \<open>Register addresses\<close>

definition FPGA_VERSION :: u32 where
  "FPGA_VERSION = 0x10000000"

definition RDCU_STATUS :: u32 where
  "RDCU_STATUS = 0x10000004"

definition LVDS_CORE_STATUS :: u32 where
  "LVDS_CORE_STATUS = 0x10000008"

definition SPW_LINK_STATUS :: u32 where
  "SPW_LINK_STATUS = 0x1000000C"

definition SPW_ERR_CNTRS :: u32 where
  "SPW_ERR_CNTRS = 0x10000010"

definition RMAP_LAST_ERR :: u32 where
  "RMAP_LAST_ERR = 0x10000014"

definition RMAP_NO_REPLY_ERR_CNTRS :: u32 where
  "RMAP_NO_REPLY_ERR_CNTRS = 0x10000018"

definition RMAP_PCKT_ERR_CNTRS :: u32 where
  "RMAP_PCKT_ERR_CNTRS = 0x1000001C"

definition ADC_VALUES_1 :: u32 where
  "ADC_VALUES_1 = 0x10000020"

definition ADC_VALUES_2 :: u32 where
  "ADC_VALUES_2 = 0x10000024"

definition ADC_VALUES_3 :: u32 where
  "ADC_VALUES_3 = 0x10000028"

definition ADC_VALUES_4 :: u32 where
  "ADC_VALUES_4 = 0x1000002C"

definition ADC_STATUS :: u32 where
  "ADC_STATUS = 0x10000030"

definition COMPR_STATUS :: u32 where
  "COMPR_STATUS = 0x10000038"

definition RDCU_RESET :: u32 where
  "RDCU_RESET = 0x10000040"

definition SPW_LINK_CTRL :: u32 where
  "SPW_LINK_CTRL = 0x10000044"

definition LVDS_CTRL :: u32 where
  "LVDS_CTRL = 0x10000048"

definition CORE_CTRL :: u32 where
  "CORE_CTRL = 0x1000004C"

definition ADC_CTRL :: u32 where
  "ADC_CTRL = 0x10000050"

definition COMPR_CTRL :: u32 where
  "COMPR_CTRL = 0x10000058"

definition COMPR_PARAM_1 :: u32 where
  "COMPR_PARAM_1 = 0x11000000"

definition COMPR_PARAM_2 :: u32 where
  "COMPR_PARAM_2 = 0x11000004"

definition ADAPTIVE_PARAM_1 :: u32 where
  "ADAPTIVE_PARAM_1 = 0x11000008"

definition ADAPTIVE_PARAM_2 :: u32 where
  "ADAPTIVE_PARAM_2 = 0x1100000C"

definition DATA_START_ADDR :: u32 where
  "DATA_START_ADDR = 0x11000010"

definition MODEL_START_ADDR :: u32 where
  "MODEL_START_ADDR = 0x11000014"

definition NUM_SAMPLES :: u32 where
  "NUM_SAMPLES = 0x11000018"

definition UPDATED_MODEL_START_ADDR :: u32 where
  "UPDATED_MODEL_START_ADDR = 0x1100001C"

definition COMPR_DATA_BUF_START_ADDR :: u32 where
  "COMPR_DATA_BUF_START_ADDR = 0x11000020"

definition COMPR_DATA_BUF_LEN :: u32 where
  "COMPR_DATA_BUF_LEN = 0x11000024"

definition USED_COMPR_PARAM_1 :: u32 where
  "USED_COMPR_PARAM_1 = 0x11000030"

definition USED_COMPR_PARAM_2 :: u32 where
  "USED_COMPR_PARAM_2 = 0x11000034"

definition COMPR_DATA_START_ADDR :: u32 where
  "COMPR_DATA_START_ADDR = 0x11000038"

definition COMPR_DATA_SIZE :: u32 where
  "COMPR_DATA_SIZE = 0x1100003C"

definition COMPR_DATA_ADAPTIVE_1_SIZE :: u32 where
  "COMPR_DATA_ADAPTIVE_1_SIZE = 0x11000040"

definition COMPR_DATA_ADAPTIVE_2_SIZE :: u32 where
  "COMPR_DATA_ADAPTIVE_2_SIZE = 0x11000044"

definition COMPR_ERROR :: u32 where
  "COMPR_ERROR = 0x11000048"

definition USED_UPDATED_MODEL_START_ADDR :: u32 where
  "USED_UPDATED_MODEL_START_ADDR = 0x1100004C"

definition USED_NUMBER_OF_SAMPLES :: u32 where
  "USED_NUMBER_OF_SAMPLES = 0x11000050"

definition SRAM_EDAC_CTRL :: u32 where
  "SRAM_EDAC_CTRL = 0x01000000"

definition SRAM_EDAC_STATUS :: u32 where
  "SRAM_EDAC_STATUS = 0x01000008"

section \<open>Generic commands\<close>

type_synonym 'w cmd_generator = "malloc \<Rightarrow> 'w rdcu_state \<Rightarrow> u16 \<Rightarrow> cmd_buffer \<Rightarrow> gen_result"
type_synonym 'w register_cmd = "malloc \<Rightarrow> 'w rdcu_state \<Rightarrow> u16 \<Rightarrow> cmd_buffer \<Rightarrow> u32 \<Rightarrow> gen_result"
type_synonym 'w data_cmd = "malloc \<Rightarrow> 'w rdcu_state \<Rightarrow> u16 \<Rightarrow> cmd_buffer \<Rightarrow> u32 \<Rightarrow> u32 \<Rightarrow> gen_result"

definition rdcu_read_cmd_register_internal :: "'w register_cmd" where
  "rdcu_read_cmd_register_internal alloc st trans_id cmd addr =
     rdcu_gen_cmd alloc st trans_id cmd RMAP_READ_ADDR_INC addr 4"

definition rdcu_write_cmd_register_internal :: "'w register_cmd" where
  "rdcu_write_cmd_register_internal alloc st trans_id cmd addr =
     rdcu_gen_cmd alloc st trans_id cmd RMAP_WRITE_ADDR_INC_VERIFY_REPLY addr 4"

definition rdcu_write_cmd_data_internal :: "'w data_cmd" where
  "rdcu_write_cmd_data_internal alloc st trans_id cmd addr n_bytes =
     rdcu_gen_cmd alloc st trans_id cmd RMAP_WRITE_ADDR_INC_REPLY addr n_bytes"

definition rdcu_read_cmd_data_internal :: "'w data_cmd" where
  "rdcu_read_cmd_data_internal alloc st trans_id cmd addr n_bytes =
     rdcu_gen_cmd alloc st trans_id cmd RMAP_READ_ADDR_INC addr n_bytes"

definition rdcu_write_cmd_data :: "'w data_cmd" where
  "rdcu_write_cmd_data alloc st trans_id cmd addr n_bytes =
     rdcu_write_cmd_data_internal alloc st trans_id cmd addr n_bytes"

definition rdcu_read_cmd_data :: "'w data_cmd" where
  "rdcu_read_cmd_data alloc st trans_id cmd addr n_bytes =
     rdcu_read_cmd_data_internal alloc st trans_id cmd addr n_bytes"

definition rdcu_read_cmd_register :: "'w register_cmd" where
  "rdcu_read_cmd_register alloc st trans_id cmd addr =
     rdcu_read_cmd_register_internal alloc st trans_id cmd addr"

definition rdcu_write_cmd_register :: "'w register_cmd" where
  "rdcu_write_cmd_register alloc st trans_id cmd addr =
     rdcu_write_cmd_register_internal alloc st trans_id cmd addr"

section \<open>The commands of the registers\<close>

definition rdcu_read_cmd_fpga_version :: "'w cmd_generator" where
  "rdcu_read_cmd_fpga_version alloc st trans_id cmd =
     rdcu_read_cmd_register_internal alloc st trans_id cmd FPGA_VERSION"

definition rdcu_read_cmd_rdcu_status :: "'w cmd_generator" where
  "rdcu_read_cmd_rdcu_status alloc st trans_id cmd =
     rdcu_read_cmd_register_internal alloc st trans_id cmd RDCU_STATUS"

definition rdcu_read_cmd_lvds_core_status :: "'w cmd_generator" where
  "rdcu_read_cmd_lvds_core_status alloc st trans_id cmd =
     rdcu_read_cmd_register_internal alloc st trans_id cmd LVDS_CORE_STATUS"

definition rdcu_read_cmd_spw_link_status :: "'w cmd_generator" where
  "rdcu_read_cmd_spw_link_status alloc st trans_id cmd =
     rdcu_read_cmd_register_internal alloc st trans_id cmd SPW_LINK_STATUS"

definition rdcu_read_cmd_spw_err_cntrs :: "'w cmd_generator" where
  "rdcu_read_cmd_spw_err_cntrs alloc st trans_id cmd =
     rdcu_read_cmd_register_internal alloc st trans_id cmd SPW_ERR_CNTRS"

definition rdcu_read_cmd_rmap_last_err :: "'w cmd_generator" where
  "rdcu_read_cmd_rmap_last_err alloc st trans_id cmd =
     rdcu_read_cmd_register_internal alloc st trans_id cmd RMAP_LAST_ERR"

definition rdcu_read_cmd_rmap_no_reply_err_cntrs :: "'w cmd_generator" where
  "rdcu_read_cmd_rmap_no_reply_err_cntrs alloc st trans_id cmd =
     rdcu_read_cmd_register_internal alloc st trans_id cmd RMAP_NO_REPLY_ERR_CNTRS"

definition rdcu_read_cmd_rmap_pckt_err_cntrs :: "'w cmd_generator" where
  "rdcu_read_cmd_rmap_pckt_err_cntrs alloc st trans_id cmd =
     rdcu_read_cmd_register_internal alloc st trans_id cmd RMAP_PCKT_ERR_CNTRS"

definition rdcu_read_cmd_adc_values_1 :: "'w cmd_generator" where
  "rdcu_read_cmd_adc_values_1 alloc st trans_id cmd =
     rdcu_read_cmd_register_internal alloc st trans_id cmd ADC_VALUES_1"

definition rdcu_read_cmd_adc_values_2 :: "'w cmd_generator" where
  "rdcu_read_cmd_adc_values_2 alloc st trans_id cmd =
     rdcu_read_cmd_register_internal alloc st trans_id cmd ADC_VALUES_2"

definition rdcu_read_cmd_adc_values_3 :: "'w cmd_generator" where
  "rdcu_read_cmd_adc_values_3 alloc st trans_id cmd =
     rdcu_read_cmd_register_internal alloc st trans_id cmd ADC_VALUES_3"

definition rdcu_read_cmd_adc_values_4 :: "'w cmd_generator" where
  "rdcu_read_cmd_adc_values_4 alloc st trans_id cmd =
     rdcu_read_cmd_register_internal alloc st trans_id cmd ADC_VALUES_4"

definition rdcu_read_cmd_adc_status :: "'w cmd_generator" where
  "rdcu_read_cmd_adc_status alloc st trans_id cmd =
     rdcu_read_cmd_register_internal alloc st trans_id cmd ADC_STATUS"

definition rdcu_read_cmd_compr_status :: "'w cmd_generator" where
  "rdcu_read_cmd_compr_status alloc st trans_id cmd =
     rdcu_read_cmd_register_internal alloc st trans_id cmd COMPR_STATUS"

definition rdcu_write_cmd_rdcu_reset :: "'w cmd_generator" where
  "rdcu_write_cmd_rdcu_reset alloc st trans_id cmd =
     rdcu_write_cmd_register_internal alloc st trans_id cmd RDCU_RESET"

definition rdcu_write_cmd_spw_link_ctrl :: "'w cmd_generator" where
  "rdcu_write_cmd_spw_link_ctrl alloc st trans_id cmd =
     rdcu_write_cmd_register_internal alloc st trans_id cmd SPW_LINK_CTRL"

definition rdcu_write_cmd_lvds_ctrl :: "'w cmd_generator" where
  "rdcu_write_cmd_lvds_ctrl alloc st trans_id cmd =
     rdcu_write_cmd_register_internal alloc st trans_id cmd LVDS_CTRL"

definition rdcu_write_cmd_core_ctrl :: "'w cmd_generator" where
  "rdcu_write_cmd_core_ctrl alloc st trans_id cmd =
     rdcu_write_cmd_register_internal alloc st trans_id cmd CORE_CTRL"

definition rdcu_write_cmd_adc_ctrl :: "'w cmd_generator" where
  "rdcu_write_cmd_adc_ctrl alloc st trans_id cmd =
     rdcu_write_cmd_register_internal alloc st trans_id cmd ADC_CTRL"

definition rdcu_write_cmd_compr_ctrl :: "'w cmd_generator" where
  "rdcu_write_cmd_compr_ctrl alloc st trans_id cmd =
     rdcu_write_cmd_register_internal alloc st trans_id cmd COMPR_CTRL"

definition rdcu_write_cmd_compressor_param1 :: "'w cmd_generator" where
  "rdcu_write_cmd_compressor_param1 alloc st trans_id cmd =
     rdcu_write_cmd_register_internal alloc st trans_id cmd COMPR_PARAM_1"

definition rdcu_write_cmd_compressor_param2 :: "'w cmd_generator" where
  "rdcu_write_cmd_compressor_param2 alloc st trans_id cmd =
     rdcu_write_cmd_register_internal alloc st trans_id cmd COMPR_PARAM_2"

definition rdcu_write_cmd_adaptive_param1 :: "'w cmd_generator" where
  "rdcu_write_cmd_adaptive_param1 alloc st trans_id cmd =
     rdcu_write_cmd_register_internal alloc st trans_id cmd ADAPTIVE_PARAM_1"

definition rdcu_write_cmd_adaptive_param2 :: "'w cmd_generator" where
  "rdcu_write_cmd_adaptive_param2 alloc st trans_id cmd =
     rdcu_write_cmd_register_internal alloc st trans_id cmd ADAPTIVE_PARAM_2"

definition rdcu_write_cmd_data_start_addr :: "'w cmd_generator" where
  "rdcu_write_cmd_data_start_addr alloc st trans_id cmd =
     rdcu_write_cmd_register_internal alloc st trans_id cmd DATA_START_ADDR"

definition rdcu_write_cmd_model_start_addr :: "'w cmd_generator" where
  "rdcu_write_cmd_model_start_addr alloc st trans_id cmd =
     rdcu_write_cmd_register_internal alloc st trans_id cmd MODEL_START_ADDR"

definition rdcu_write_cmd_num_samples :: "'w cmd_generator" where
  "rdcu_write_cmd_num_samples alloc st trans_id cmd =
     rdcu_write_cmd_register_internal alloc st trans_id cmd NUM_SAMPLES"

definition rdcu_write_cmd_new_model_start_addr :: "'w cmd_generator" where
  "rdcu_write_cmd_new_model_start_addr alloc st trans_id cmd =
     rdcu_write_cmd_register_internal alloc st trans_id cmd UPDATED_MODEL_START_ADDR"

definition rdcu_write_cmd_compr_data_buf_start_addr :: "'w cmd_generator" where
  "rdcu_write_cmd_compr_data_buf_start_addr alloc st trans_id cmd =
     rdcu_write_cmd_register_internal alloc st trans_id cmd COMPR_DATA_BUF_START_ADDR"

definition rdcu_write_cmd_compr_data_buf_len :: "'w cmd_generator" where
  "rdcu_write_cmd_compr_data_buf_len alloc st trans_id cmd =
     rdcu_write_cmd_register_internal alloc st trans_id cmd COMPR_DATA_BUF_LEN"

definition rdcu_read_cmd_used_param1 :: "'w cmd_generator" where
  "rdcu_read_cmd_used_param1 alloc st trans_id cmd =
     rdcu_read_cmd_register_internal alloc st trans_id cmd USED_COMPR_PARAM_1"

definition rdcu_read_cmd_used_param2 :: "'w cmd_generator" where
  "rdcu_read_cmd_used_param2 alloc st trans_id cmd =
     rdcu_read_cmd_register_internal alloc st trans_id cmd USED_COMPR_PARAM_2"

definition rdcu_read_cmd_compr_data_start_addr :: "'w cmd_generator" where
  "rdcu_read_cmd_compr_data_start_addr alloc st trans_id cmd =
     rdcu_read_cmd_register_internal alloc st trans_id cmd COMPR_DATA_START_ADDR"

definition rdcu_read_cmd_compr_data_size :: "'w cmd_generator" where
  "rdcu_read_cmd_compr_data_size alloc st trans_id cmd =
     rdcu_read_cmd_register_internal alloc st trans_id cmd COMPR_DATA_SIZE"

definition rdcu_read_cmd_compr_data_adaptive_1_size :: "'w cmd_generator" where
  "rdcu_read_cmd_compr_data_adaptive_1_size alloc st trans_id cmd =
     rdcu_read_cmd_register_internal alloc st trans_id cmd COMPR_DATA_ADAPTIVE_1_SIZE"

definition rdcu_read_cmd_compr_data_adaptive_2_size :: "'w cmd_generator" where
  "rdcu_read_cmd_compr_data_adaptive_2_size alloc st trans_id cmd =
     rdcu_read_cmd_register_internal alloc st trans_id cmd COMPR_DATA_ADAPTIVE_2_SIZE"

definition rdcu_read_cmd_compr_error :: "'w cmd_generator" where
  "rdcu_read_cmd_compr_error alloc st trans_id cmd =
     rdcu_read_cmd_register_internal alloc st trans_id cmd COMPR_ERROR"

definition rdcu_read_cmd_new_model_addr_used :: "'w cmd_generator" where
  "rdcu_read_cmd_new_model_addr_used alloc st trans_id cmd =
     rdcu_read_cmd_register_internal alloc st trans_id cmd USED_UPDATED_MODEL_START_ADDR"

definition rdcu_read_cmd_samples_used :: "'w cmd_generator" where
  "rdcu_read_cmd_samples_used alloc st trans_id cmd =
     rdcu_read_cmd_register_internal alloc st trans_id cmd USED_NUMBER_OF_SAMPLES"

definition rdcu_write_cmd_sram_edac_ctrl :: "'w cmd_generator" where
  "rdcu_write_cmd_sram_edac_ctrl alloc st trans_id cmd =
     rdcu_write_cmd_register_internal alloc st trans_id cmd SRAM_EDAC_CTRL"

definition rdcu_read_cmd_sram_edac_status :: "'w cmd_generator" where
  "rdcu_read_cmd_sram_edac_status alloc st trans_id cmd =
     rdcu_read_cmd_register_internal alloc st trans_id cmd SRAM_EDAC_STATUS"

end
