(* ===== verification/Rmap_Laws.thy ===== *)
theory Rmap_Laws
  imports Rmap_Packet
begin

unbundle bit_operations_syntax

text \<open>
  Laws of RMAP packets: the size of a header, the bytes of the commands the library builds, and what is
  read from commands and replies of the standard form.
\<close>

section \<open>Sizes\<close>

text \<open>A path of the given length is there.\<close>

definition path_ok :: "buffer option \<Rightarrow> u8 \<Rightarrow> bool" where
  "path_ok p len \<longleftrightarrow> len = 0 \<or> (\<exists>bs. p = Some bs \<and> unat len \<le> length bs)"

definition path_bytes :: "buffer option \<Rightarrow> u8 \<Rightarrow> buffer" where
  "path_bytes p len = (if len = 0 then [] else take (unat len) (the p))"

lemma copy_path_ok: "path_ok p len \<Longrightarrow> len \<noteq> 0 \<Longrightarrow> copy_path p len = Some (path_bytes p len)"
  by (auto simp: path_ok_def copy_path_def path_bytes_def)

lemma length_path_bytes: "path_ok p len \<Longrightarrow> length (path_bytes p len) = unat len"
  by (auto simp: path_ok_def path_bytes_def)

lemma path_bytes_0 [simp]: "path_bytes p 0 = []"
  by (simp add: path_bytes_def)

definition hdr_tail :: "rmap_pkt \<Rightarrow> buffer" where
  "hdr_tail p =
     [rp_src p] @ be_bytes 2 (rp_tr_id p) @
     (if ri_cmd_resp (rp_instruction p) then 0 # be_bytes 4 (rp_addr p) @ be_bytes 3 (rp_data_len p)
      else if ri_cmd (rp_instruction p) AND RMAP_CMD_BIT_WRITE \<noteq> 0 then []
      else 0 # be_bytes 3 (rp_data_len p))"

lemma be_bytes_2: "be_bytes 2 (w :: 'a::len word) = [ucast (drop_bit 8 w), ucast w]"
  by (simp add: be_bytes_def numeral_eq_Suc)

lemma be_bytes_3: "be_bytes 3 (w :: 'a::len word) = [ucast (drop_bit 16 w), ucast (drop_bit 8 w), ucast w]"
  by (simp add: be_bytes_def numeral_eq_Suc)

lemma be_bytes_4:
  "be_bytes 4 (w :: 'a::len word) =
    [ucast (drop_bit 24 w), ucast (drop_bit 16 w), ucast (drop_bit 8 w), ucast w]"
  by (simp add: be_bytes_def numeral_eq_Suc)

lemma rmap_hdr_bytes_ok:
  assumes "path_ok (rp_path p) (rp_path_len p)" "path_ok (rp_rpath p) (rp_rpath_len p)"
  shows "rmap_hdr_bytes p =
    Some (path_bytes (rp_path p) (rp_path_len p) @
      [rp_dst p, rp_proto_id p, rp_instruction p, rp_key p] @
      path_bytes (rp_rpath p) (rp_rpath_len p) @ hdr_tail p)"
  using assms
  by (cases "rp_path_len p = 0"; cases "rp_rpath_len p = 0")
    (simp_all add: rmap_hdr_bytes_def copy_path_ok hdr_tail_def be_bytes_2 be_bytes_3 be_bytes_4 Let_def)

lemma min_hdr_size_cases:
  assumes "rmap_get_min_hdr_size p \<noteq> -1"
  shows "rmap_get_min_hdr_size p = int (4 + length (hdr_tail p))"
  using assms
  by (auto simp: rmap_get_min_hdr_size_def hdr_tail_def Let_def split: if_splits)

text \<open>The size the function reports without a buffer is the number of bytes it writes.\<close>

lemma hdr_bytes_size:
  assumes "path_ok (rp_path p) (rp_path_len p)" "path_ok (rp_rpath p) (rp_rpath_len p)"
    and "rmap_get_min_hdr_size p \<noteq> -1"
  obtains h where "rmap_hdr_bytes p = Some h"
    and "rmap_build_hdr (Some p) None = Some (int (length h), None)"
proof -
  have "uint w = int (unat w)" for w :: u8 by simp
  then show ?thesis
    using that [OF rmap_hdr_bytes_ok [OF assms(1,2)]] min_hdr_size_cases [OF assms(3)]
    by (simp add: rmap_build_hdr_def length_path_bytes [OF assms(1)] length_path_bytes [OF assms(2)]
        del: of_nat_unat)
qed

section \<open>Reading\<close>

lemma byte_at_append: "byte_at (pre @ t) (length pre + i) = byte_at t i"
  by (simp add: byte_at_def)

lemma byte_at_skip: "length pre = m \<Longrightarrow> k = m + i \<Longrightarrow> byte_at (pre @ t) k = byte_at t i"
  using byte_at_append [of pre t i] by simp

lemma load_be_skip: "length pre = m \<Longrightarrow> k = m + i \<Longrightarrow> load_be n k (pre @ t) = load_be n i t"
  by (auto simp: load_be_def)

lemma load_be_here: "be_word (be_bytes n v) = v \<Longrightarrow> load_be n 0 (be_bytes n v @ t) = Some v"
  by (simp add: load_be_def)

lemma be_word_bytes_2 [simp]: "be_word (be_bytes 2 (v :: u16)) = v"
  by (rule be_word_be_bytes) (auto dest: bit_imp_le_length)

lemma be_word_bytes_4 [simp]: "be_word (be_bytes 4 (v :: u32)) = v"
  by (rule be_word_be_bytes) (auto dest: bit_imp_le_length)

lemma be_word_bytes_3: "v \<le> 0xFFFFFF \<Longrightarrow> be_word (be_bytes 3 (v :: u32)) = v"
proof (rule be_word_be_bytes)
  fix k :: nat assume v: "v \<le> 0xFFFFFF" and k: "8 * 3 \<le> k"
  have "unat v < 2 ^ 24" using v by (simp add: word_le_nat_alt)
  then show "\<not> bit v k" using k unat_less_iff_bits [of v 24] by simp
qed simp

text \<open>The packet as read from the header of \<open>p\<close>, starting from the packet \<open>q\<close>.\<close>

definition read_as :: "rmap_pkt \<Rightarrow> u8 \<Rightarrow> rmap_pkt \<Rightarrow> rmap_pkt" where
  "read_as p crc q = q\<lparr>rp_src := rp_src p, rp_tr_id := rp_tr_id p,
     rp_addr := (if ri_cmd_resp (rp_instruction p) then rp_addr p else rp_addr q),
     rp_data_len := (if \<not> ri_cmd_resp (rp_instruction p) \<and>
       ri_cmd (rp_instruction p) AND RMAP_CMD_BIT_WRITE \<noteq> 0 then rp_data_len q else rp_data_len p),
     rp_hdr_crc := crc\<rparr>"

lemma load_be_at:
  "length pre = k \<Longrightarrow> be_word (be_bytes n v) = v \<Longrightarrow> load_be n k (pre @ be_bytes n v @ t) = Some v"
  by (subst load_be_skip [where m = k and i = 0]) (simp_all add: load_be_here)

lemma byte_at_here: "length pre = k \<Longrightarrow> byte_at (pre @ b # t) k = Some b"
  by (auto simp: byte_at_def)

lemma read_hdr_fields_tail:
  assumes q: "rp_instruction q = rp_instruction p"
    and len: "rp_data_len p \<le> 0xFFFFFF"
    and buf: "buf = pre @ hdr_tail p @ tail" "length pre = 4 + n" "12 \<le> length buf"
  shows "read_hdr_fields buf n q =
    Some (read_as p (buf ! 11) q, if ri_cmd_resp (rp_instruction p) then n + 4 else n)"
proof -
  let ?id = "be_bytes 2 (rp_tr_id p)" and ?addr = "be_bytes 4 (rp_addr p)"
    and ?len = "be_bytes 3 (rp_data_len p)"
  have crc: "byte_at buf 11 = Some (buf ! 11)" using buf(3) by (simp add: byte_at_def)
  have src: "byte_at buf (4 + n) = Some (rp_src p)"
    using byte_at_here [OF buf(2)] by (simp add: buf(1) hdr_tail_def)
  have id: "load_be 2 (5 + n) buf = Some (rp_tr_id p)"
    using load_be_at [of "pre @ [rp_src p]" "5 + n" 2 "rp_tr_id p"] buf(2)
    by (simp add: buf(1) hdr_tail_def)
  note word = be_word_bytes_3 [OF len]
  consider (cmd) "ri_cmd_resp (rp_instruction p)"
    | (wrep) "\<not> ri_cmd_resp (rp_instruction p)" "ri_cmd (rp_instruction p) AND 8 \<noteq> 0"
    | (rrep) "\<not> ri_cmd_resp (rp_instruction p)" "ri_cmd (rp_instruction p) AND 8 = 0" by blast
  then show ?thesis
  proof cases
    case cmd
    have "load_be 4 (8 + n) buf = Some (rp_addr p)"
      using load_be_at [of "pre @ [rp_src p] @ ?id @ [0]" "8 + n" 4 "rp_addr p"] buf(2) cmd
      by (simp add: buf(1) hdr_tail_def)
    moreover have "load_be 3 (8 + (n + 4)) buf = Some (rp_data_len p)"
      using load_be_at [of "pre @ [rp_src p] @ ?id @ [0] @ ?addr" "8 + (n + 4)" 3 "rp_data_len p"]
        buf(2) cmd word by (simp add: buf(1) hdr_tail_def)
    ultimately show ?thesis
      using cmd src id crc q by (simp add: read_hdr_fields_def Let_def read_as_def)
  next
    case wrep
    then show ?thesis
      using src id crc q by (simp add: read_hdr_fields_def Let_def read_as_def)
  next
    case rrep
    have "load_be 3 (8 + n) buf = Some (rp_data_len p)"
      using load_be_at [of "pre @ [rp_src p] @ ?id @ [0]" "8 + n" 3 "rp_data_len p"] buf(2) rrep word
      by (simp add: buf(1) hdr_tail_def)
    then show ?thesis
      using rrep src id crc q by (simp add: read_hdr_fields_def Let_def read_as_def)
  qed
qed

lemma length_hdr_tail:
  "length (hdr_tail p) =
    (if ri_cmd_resp (rp_instruction p) then 11
     else if ri_cmd (rp_instruction p) AND RMAP_CMD_BIT_WRITE \<noteq> 0 then 3 else 7)"
  by (simp add: hdr_tail_def)

lemma ri_reply_addr_len_le: "unat (ri_reply_addr_len instr) \<le> 3"
proof -
  have "ri_reply_addr_len instr = take_bit 2 instr"
    by (simp add: ri_reply_addr_len_def take_bit_eq_mask mask_numeral)
  then have "unat (ri_reply_addr_len instr) < 2 ^ 2"
    using take_bit_nat_less_exp [of 2 "unat instr"] by (simp add: unsigned_take_bit_eq)
  then show ?thesis by simp
qed

lemma reply_path_len:
  "unat (push_bit 2 (ri_reply_addr_len instr) AND 0xFF) = 4 * unat (ri_reply_addr_len instr)"
proof -
  have "push_bit 2 (ri_reply_addr_len instr) AND 0xFF = push_bit 2 (ri_reply_addr_len instr)"
    by (rule bit_word_eqI) (auto simp: bit_and_iff bit_numeral_rec less_Suc_eq numeral_eq_Suc)
  moreover have "unat (push_bit 2 (ri_reply_addr_len instr)) = unat (ri_reply_addr_len instr) * 2 ^ 2"
    using ri_reply_addr_len_le [of instr] by (intro unat_push_bit) simp
  ultimately show ?thesis by simp
qed

lemma ri_cmd_resp_min:
  assumes "rmap_get_min_hdr_size q \<noteq> -1"
  shows "0 \<le> rmap_get_min_hdr_size q" "rmap_get_min_hdr_size q \<le> 15"
    "unat (word_of_int (rmap_get_min_hdr_size q) :: u32) = 4 + length (hdr_tail q)"
proof -
  note eq = min_hdr_size_cases [OF assms]
  have le: "length (hdr_tail q) \<le> 11" by (simp add: length_hdr_tail)
  show "0 \<le> rmap_get_min_hdr_size q" "rmap_get_min_hdr_size q \<le> 15" using eq le by simp_all
  have "(word_of_int (rmap_get_min_hdr_size q) :: u32) = word_of_nat (4 + length (hdr_tail q))"
    by (simp only: eq of_int_of_nat_eq)
  also have "unat \<dots> = 4 + length (hdr_tail q)" using le by (intro unat_of_nat_small) simp
  finally show "unat (word_of_int (rmap_get_min_hdr_size q) :: u32) = 4 + length (hdr_tail q)" .
qed

text \<open>The reply path of a received packet.\<close>

definition rpath_of :: "rmap_pkt \<Rightarrow> buffer \<Rightarrow> bool" where
  "rpath_of p rp \<longleftrightarrow> length rp =
     (if ri_cmd_resp (rp_instruction p) then 4 * unat (ri_reply_addr_len (rp_instruction p)) else 0)"

lemma read_reply_path_ok:
  assumes alloc: "\<And>n. alloc n \<noteq> None"
    and min: "rmap_get_min_hdr_size p \<noteq> -1" and q: "rp_instruction q = rp_instruction p"
    and rp: "rpath_of p rp"
    and buf: "buf = [a, b, c, d] @ rp @ t" and len: "4 + length rp + length (hdr_tail p) \<le> unat len"
  shows "read_reply_path alloc buf len (word_of_int (rmap_get_min_hdr_size p)) q =
    Some (Some (if ri_cmd_resp (rp_instruction p)
      then q\<lparr>rp_rpath_len := word_of_nat (length rp), rp_rpath := Some rp\<rparr> else q, length rp))"
proof (cases "ri_cmd_resp (rp_instruction p)")
  case True
  let ?w = "push_bit 2 (ri_reply_addr_len (rp_instruction p)) AND 0xFF"
  have w: "unat ?w = length rp" using rp True by (simp add: rpath_of_def reply_path_len)
  have n: "length rp \<le> 12" using rp True ri_reply_addr_len_le [of "rp_instruction p"] by (simp add: rpath_of_def)
  have eq: "?w = word_of_nat (length rp)" by (simp add: w [symmetric])
  have u: "unat (ucast ?w :: u32) = length rp" using w by (simp add: unat_ucast_8_32)
  have tail: "length (hdr_tail p) = 11" using True by (simp add: length_hdr_tail)
  have "unat (word_of_int (rmap_get_min_hdr_size p) + ucast ?w :: u32) = 4 + length (hdr_tail p) + length rp"
    using ri_cmd_resp_min(3) [OF min] u n tail by (simp add: unat_word_ariths)
  then have "\<not> len < word_of_int (rmap_get_min_hdr_size p) + ucast ?w"
    using len by (simp add: word_less_nat_alt)
  then show ?thesis
    using True q alloc w eq by (simp add: read_reply_path_def Let_def buf)
next
  case False
  then show ?thesis using q rp by (simp add: read_reply_path_def rpath_of_def)
qed

text \<open>The bytes of a packet behind its target path: header, CRC of the header, and what follows.\<close>

definition frame :: "rmap_pkt \<Rightarrow> buffer \<Rightarrow> u8 \<Rightarrow> buffer \<Rightarrow> buffer" where
  "frame p rp crc tail =
     [rp_dst p, rp_proto_id p, rp_instruction p, rp_key p] @ rp @ hdr_tail p @ crc # tail"

lemma length_frame: "length (frame p rp crc tail) = 5 + length rp + length (hdr_tail p) + length tail"
  by (simp add: frame_def)

text \<open>The structure before the data are read.\<close>

definition frame_pkt :: "rmap_pkt \<Rightarrow> buffer \<Rightarrow> u8 \<Rightarrow> rmap_pkt" where
  "frame_pkt p rp crc = read_as p crc
     \<lparr>rp_path = None, rp_path_len = 0, rp_dst = rp_dst p, rp_proto_id = 1,
      rp_instruction = rp_instruction p, rp_key = rp_key p, rp_src = 0,
      rp_rpath = (if ri_cmd_resp (rp_instruction p) then Some rp else None),
      rp_rpath_len = (if ri_cmd_resp (rp_instruction p) then word_of_nat (length rp) else 0),
      rp_tr_id = 0, rp_addr = 0, rp_data = None, rp_data_len = 0, rp_hdr_crc = 0, rp_data_crc = 0\<rparr>"

lemma rmap_pkt_from_buffer_frame:
  assumes alloc: "\<And>n. alloc n \<noteq> None"
    and min: "rmap_get_min_hdr_size p \<noteq> -1" and id: "rp_proto_id p = 1"
    and rp: "rpath_of p rp" and n: "rp_data_len p \<le> 0xFFFFFF"
    and len: "4 + length rp + length (hdr_tail p) \<le> unat len"
    and room: "12 \<le> length (frame p rp crc tail)"
  shows "rmap_pkt_from_buffer alloc (Some (frame p rp crc tail)) len =
    read_data alloc (frame p rp crc tail) len
      (if ri_cmd_resp (rp_instruction p) then length rp + 4 else length rp)
      (frame_pkt p rp (frame p rp crc tail ! 11))"
proof -
  let ?f = "frame p rp crc tail"
  let ?q = "\<lparr>rp_path = None, rp_path_len = 0, rp_dst = rp_dst p, rp_proto_id = 1,
      rp_instruction = rp_instruction p, rp_key = rp_key p, rp_src = 0, rp_rpath = None,
      rp_rpath_len = 0, rp_tr_id = 0, rp_addr = 0, rp_data = None, rp_data_len = 0,
      rp_hdr_crc = 0, rp_data_crc = 0\<rparr>"
  let ?r = "if ri_cmd_resp (rp_instruction p)
      then ?q\<lparr>rp_rpath_len := word_of_nat (length rp), rp_rpath := Some rp\<rparr> else ?q"
  have head: "byte_at ?f 0 = Some (rp_dst p)" "byte_at ?f (Suc 0) = Some 1"
    "byte_at ?f 2 = Some (rp_instruction p)" "byte_at ?f 3 = Some (rp_key p)"
    by (simp_all add: frame_def byte_at_def id)
  have size: "rmap_get_min_hdr_size ?q = rmap_get_min_hdr_size p"
    by (simp add: rmap_get_min_hdr_size_def)
  have tail: "3 \<le> length (hdr_tail p)" by (simp add: length_hdr_tail)
  then have "\<not> len < 7" using len by (simp add: word_less_nat_alt)
  moreover have "\<not> len < word_of_int (rmap_get_min_hdr_size p)"
    using ri_cmd_resp_min(3) [OF min] len by (simp add: word_less_nat_alt)
  moreover have "read_reply_path alloc ?f len (word_of_int (rmap_get_min_hdr_size p)) ?q =
      Some (Some (?r, length rp))"
    by (rule read_reply_path_ok [OF alloc min _ rp _ len]) (simp_all add: frame_def)
  moreover have "read_hdr_fields ?f (length rp) ?r = Some (read_as p (?f ! 11) ?r,
      if ri_cmd_resp (rp_instruction p) then length rp + 4 else length rp)"
    by (rule read_hdr_fields_tail [OF _ n _ _ room, where tail = "crc # tail" and
        pre = "[rp_dst p, rp_proto_id p, rp_instruction p, rp_key p] @ rp"]) (simp_all add: frame_def)
  moreover have "read_as p (?f ! 11) ?r = frame_pkt p rp (?f ! 11)"
    by (simp add: frame_pkt_def read_as_def)
  ultimately show ?thesis
    using ri_cmd_resp_min(1) [OF min] alloc [of 48] head
    by (simp add: rmap_pkt_from_buffer_def rmap_create_packet_def size)
qed

lemma read_data_none: "rp_data_len q = 0 \<Longrightarrow> read_data alloc buf len n q = Some (Some q)"
  by (simp add: read_data_def)

lemma read_data_some:
  assumes alloc: "\<And>n. alloc n \<noteq> None"
    and buf: "buf = pre @ d @ dc # rest" "length pre = 12 + n"
    and d: "length d = unat (rp_data_len q)" "d \<noteq> []"
    and len: "12 + n + length d + 1 \<le> unat len"
  shows "read_data alloc buf len n q = Some (Some (q\<lparr>rp_data := Some d, rp_data_crc := dc\<rparr>))"
proof -
  have "byte_at buf (12 + n + unat (rp_data_len q)) = Some dc"
    using byte_at_here [of "pre @ d" "12 + n + unat (rp_data_len q)"] d(1) buf by simp
  then show ?thesis
    using d len alloc [of "unat (rp_data_len q)"] buf by (auto simp: read_data_def Let_def)
qed

section \<open>Replies and write commands\<close>

lemma frame_pkt_simps [simp]:
  "rp_dst (frame_pkt p rp c) = rp_dst p" "rp_key (frame_pkt p rp c) = rp_key p"
  "rp_src (frame_pkt p rp c) = rp_src p" "rp_tr_id (frame_pkt p rp c) = rp_tr_id p"
  "rp_instruction (frame_pkt p rp c) = rp_instruction p"
  by (simp_all add: frame_pkt_def read_as_def)

text \<open>A packet with data, \<open>d\<close>, followed by their CRC.\<close>

lemma frame_with_data:
  assumes alloc: "\<And>n. alloc n \<noteq> None"
    and min: "rmap_get_min_hdr_size p \<noteq> -1" and id: "rp_proto_id p = 1"
    and rp: "rpath_of p rp" and n: "rp_data_len p \<le> 0xFFFFFF"
    and kind: "ri_cmd_resp (rp_instruction p) \<or> ri_cmd (rp_instruction p) AND RMAP_CMD_BIT_WRITE = 0"
    and d: "length d = unat (rp_data_len p)" "d \<noteq> []"
    and len: "length (frame p rp crc (d @ [dc])) \<le> unat len"
  shows "rmap_pkt_from_buffer alloc (Some (frame p rp crc (d @ dc # rest))) len =
    Some (Some ((frame_pkt p rp (frame p rp crc (d @ [dc]) ! 11))
      \<lparr>rp_data := Some d, rp_data_crc := dc\<rparr>))"
proof -
  let ?f = "frame p rp crc (d @ dc # rest)"
  have tail: "length (hdr_tail p) = (if ri_cmd_resp (rp_instruction p) then 11 else 7)"
    using kind by (auto simp: length_hdr_tail)
  have 11: "?f ! 11 = frame p rp crc (d @ [dc]) ! 11"
    using tail d(2) by (auto simp: frame_def nth_append nth_Cons split: nat.splits)
  have q: "rp_data_len (frame_pkt p rp c) = rp_data_len p" for c
    using kind by (auto simp: frame_pkt_def read_as_def)
  have "rmap_pkt_from_buffer alloc (Some ?f) len =
      read_data alloc ?f len (if ri_cmd_resp (rp_instruction p) then length rp + 4 else length rp)
        (frame_pkt p rp (?f ! 11))"
    using len tail d(2)
    by (intro rmap_pkt_from_buffer_frame [OF alloc min id rp n])
      (auto simp: length_frame Suc_le_eq split: if_splits)
  also have "\<dots> = Some (Some ((frame_pkt p rp (?f ! 11))\<lparr>rp_data := Some d, rp_data_crc := dc\<rparr>))"
    by (rule read_data_some [OF alloc, where pre = "frame p rp crc []"])
      (use len tail d q in \<open>auto simp: frame_def length_frame\<close>)
  finally show ?thesis unfolding 11 .
qed

text \<open>With a size that is one byte too small a packet with data is refused.\<close>

lemma frame_cut_short:
  assumes alloc: "\<And>n. alloc n \<noteq> None"
    and min: "rmap_get_min_hdr_size p \<noteq> -1" and id: "rp_proto_id p = 1"
    and rp: "rpath_of p rp" and n: "rp_data_len p \<le> 0xFFFFFF" and kind: "ri_cmd_resp (rp_instruction p)"
    and d: "length d = unat (rp_data_len p)" "d \<noteq> []"
    and len: "unat len + 1 = length (frame p rp crc (d @ [dc]))"
  shows "rmap_pkt_from_buffer alloc (Some (frame p rp crc (d @ dc # rest))) len = Some None"
proof -
  let ?f = "frame p rp crc (d @ dc # rest)"
  have tail: "length (hdr_tail p) = 11" using kind by (simp add: length_hdr_tail)
  have "0 < length d" using d(2) by simp
  then have "rmap_pkt_from_buffer alloc (Some ?f) len =
      read_data alloc ?f len (length rp + 4) (frame_pkt p rp (?f ! 11))"
    using rmap_pkt_from_buffer_frame [where alloc = alloc and tail = "d @ dc # rest" and len = len and crc = crc,
        OF alloc min id rp n] len tail kind
    by (simp add: length_frame)
  moreover have "unat (rp_data_len p) \<noteq> 0" using d by (metis length_0_conv)
  ultimately show ?thesis
    using len tail d kind by (simp add: read_data_def frame_pkt_def read_as_def length_frame Let_def)
qed

text \<open>The reply to a write command has no data; the three bytes behind its eighth and last byte and
  the next one are accessed.\<close>

definition write_reply :: "rmap_pkt \<Rightarrow> bool" where
  "write_reply p \<longleftrightarrow> rmap_get_min_hdr_size p \<noteq> -1 \<and> rp_proto_id p = 1 \<and>
     \<not> ri_cmd_resp (rp_instruction p) \<and> ri_cmd (rp_instruction p) AND RMAP_CMD_BIT_WRITE \<noteq> 0"

lemma write_reply_read:
  assumes alloc: "\<And>n. alloc n \<noteq> None" and p: "write_reply p"
    and len: "7 \<le> unat len" and tail: "4 \<le> length tail"
  shows "rmap_pkt_from_buffer alloc (Some (frame p [] crc tail)) len =
    Some (Some (frame_pkt p [] (tail ! 3)))"
proof -
  let ?p = "p\<lparr>rp_data_len := 0\<rparr>" and ?f = "frame p [] crc tail"
  have hdr: "length (hdr_tail p) = 3" and same: "hdr_tail ?p = hdr_tail p"
    using p by (simp_all add: length_hdr_tail write_reply_def) (simp add: hdr_tail_def write_reply_def)
  have f: "frame ?p [] crc tail = ?f" by (simp add: frame_def same)
  have 11: "?f ! 11 = tail ! 3"
    using hdr nth_append_length_plus [of "[rp_dst p, rp_proto_id p, rp_instruction p, rp_key p] @ hdr_tail p @ [crc]" tail 3]
    by (simp add: frame_def)
  have q: "frame_pkt ?p [] c = frame_pkt p [] c" "rp_data_len (frame_pkt p [] c) = 0" for c
    using p by (auto simp: frame_pkt_def read_as_def write_reply_def)
  have "rmap_get_min_hdr_size ?p = rmap_get_min_hdr_size p" by (simp add: rmap_get_min_hdr_size_def)
  then have "rmap_get_min_hdr_size ?p \<noteq> -1" using p by (simp add: write_reply_def)
  then have "rmap_pkt_from_buffer alloc (Some (frame ?p [] crc tail)) len =
      read_data alloc ?f len 0 (frame_pkt ?p [] (?f ! 11))"
    using p len hdr same tail
    by (subst rmap_pkt_from_buffer_frame [OF alloc])
      (simp_all add: f write_reply_def rpath_of_def length_frame)
  then show ?thesis by (simp add: f 11 q read_data_none)
qed

lemma write_reply_overread:
  assumes alloc: "\<And>n. alloc n \<noteq> None" and p: "write_reply p"
    and len: "7 \<le> unat len" and tail: "length tail < 4"
  shows "rmap_pkt_from_buffer alloc (Some (frame p [] crc tail)) len = None"
proof -
  let ?f = "frame p [] crc tail"
  have hdr: "length (hdr_tail p) = 3" using p by (simp add: length_hdr_tail write_reply_def)
  have "byte_at ?f 11 = None" using tail by (simp add: byte_at_def length_frame hdr)
  then have fields: "read_hdr_fields ?f n q = None" for n q
    by (simp add: read_hdr_fields_def Let_def split: Option.bind_splits)
  let ?q = "\<lparr>rp_path = None, rp_path_len = 0, rp_dst = rp_dst p, rp_proto_id = 1,
      rp_instruction = rp_instruction p, rp_key = rp_key p, rp_src = 0, rp_rpath = None,
      rp_rpath_len = 0, rp_tr_id = 0, rp_addr = 0, rp_data = None, rp_data_len = 0,
      rp_hdr_crc = 0, rp_data_crc = 0\<rparr>"
  have head: "byte_at ?f 0 = Some (rp_dst p)" "byte_at ?f (Suc 0) = Some 1"
    "byte_at ?f 2 = Some (rp_instruction p)" "byte_at ?f 3 = Some (rp_key p)"
    using p by (simp_all add: frame_def byte_at_def write_reply_def)
  have size: "rmap_get_min_hdr_size ?q = rmap_get_min_hdr_size p"
    by (simp add: rmap_get_min_hdr_size_def)
  have min: "rmap_get_min_hdr_size p = 7" 
    using min_hdr_size_cases [of p] p hdr by (simp add: write_reply_def)
  have "\<not> len < 7" using len by (simp add: word_less_nat_alt)
  moreover have "read_reply_path alloc ?f len w ?q = Some (Some (?q, 0))" for w
    using p by (simp add: read_reply_path_def write_reply_def)
  ultimately show ?thesis
    using alloc [of 48] head by (simp add: rmap_pkt_from_buffer_def rmap_create_packet_def size min fields)
qed

end
