(* ===== verification/Rdcu_Cmd_Laws.thy ===== *)
theory Rdcu_Cmd_Laws
  imports Rdcu_Cmd Rmap_Laws
begin

unbundle bit_operations_syntax

text \<open>
  The bytes of the commands to the RDCU: the header every generator builds, and how the generators
  of registers and of data transfers come down to one of three kinds of headers.
\<close>

section \<open>The instruction of a command\<close>

definition cmd_instruction :: "u8 \<Rightarrow> u8 \<Rightarrow> u8" where
  "cmd_instruction cmd rlen =
     set_ri_cmd_resp (set_ri_cmd (cmd AND 0xF) (set_ri_reply_addr_len (drop_bit 2 rlen) 0))"

lemma valid_cmd: "rmap_validate_cmd_code cmd = 0 \<Longrightarrow> cmd AND 0xF = cmd"
  by (auto simp: rmap_validate_cmd_code_def split: if_splits)

lemma instruction_masks:
  "(0x3 :: u8) = mask 2" "(0xF :: u8) = mask 4" "(0x3C :: u8) = push_bit 2 (mask 4)"
  "(0x40 :: u8) = push_bit 6 1"
  by (simp_all add: mask_numeral)

lemma ri_cmd_instruction [simp]: "ri_cmd (cmd_instruction cmd rlen) = cmd AND 0xF"
  unfolding ri_cmd_def cmd_instruction_def set_ri_cmd_resp_def set_ri_cmd_def set_ri_reply_addr_len_def instruction_masks
  by (rule bit_word_eqI)
    (auto simp: bit_and_iff bit_or_iff bit_not_iff bit_drop_bit_eq bit_push_bit_iff bit_mask_iff bit_numeral_rec
      split: nat.splits)

lemma ri_cmd_resp_instruction [simp]: "ri_cmd_resp (cmd_instruction cmd rlen)"
  by (simp add: ri_cmd_resp_def cmd_instruction_def set_ri_cmd_resp_def bit_or_iff bit_numeral_rec)

lemma ri_reply_addr_len_instruction [simp]:
  "ri_reply_addr_len (cmd_instruction cmd rlen) = drop_bit 2 rlen AND 3"
  unfolding ri_reply_addr_len_def cmd_instruction_def set_ri_cmd_resp_def set_ri_cmd_def
      set_ri_reply_addr_len_def instruction_masks
  by (rule bit_word_eqI)
    (auto simp: bit_and_iff bit_or_iff bit_not_iff bit_drop_bit_eq bit_push_bit_iff bit_mask_iff bit_numeral_rec
      split: nat.splits)

section \<open>The header\<close>

definition paths_ok :: "'w rdcu_state \<Rightarrow> bool" where
  "paths_ok st \<longleftrightarrow> path_ok (dpath st) (dpath_len st) \<and> dpath_len st \<le> 15 \<and>
     path_ok (rpath st) (rpath_len st) \<and> rpath_len st \<le> 12 \<and> rpath_len st AND 3 = 0"

definition cmd_pkt :: "'w rdcu_state \<Rightarrow> u16 \<Rightarrow> u8 \<Rightarrow> u32 \<Rightarrow> u32 \<Rightarrow> rmap_pkt" where
  "cmd_pkt st trans_id cmd addr n =
     \<lparr>rp_path = (if dpath_len st = 0 then None else Some (path_bytes (dpath st) (dpath_len st))),
      rp_path_len = dpath_len st, rp_dst = rdcu_addr st, rp_proto_id = 1,
      rp_instruction = cmd_instruction cmd (rpath_len st), rp_key = dst_key st,
      rp_src = icu_addr st,
      rp_rpath = (if rpath_len st = 0 then None else Some (path_bytes (rpath st) (rpath_len st))),
      rp_rpath_len = rpath_len st, rp_tr_id = trans_id, rp_addr = addr, rp_data = None,
      rp_data_len = n, rp_hdr_crc = 0, rp_data_crc = 0\<rparr>"

definition cmd_header :: "'w rdcu_state \<Rightarrow> u16 \<Rightarrow> u8 \<Rightarrow> u32 \<Rightarrow> u32 \<Rightarrow> buffer" where
  "cmd_header st trans_id cmd addr n =
     path_bytes (dpath st) (dpath_len st) @
     [rdcu_addr st, 1, cmd_instruction cmd (rpath_len st), dst_key st] @
     path_bytes (rpath st) (rpath_len st) @
     icu_addr st # be_bytes 2 trans_id @ 0 # be_bytes 4 addr @ be_bytes 3 n"

lemma set_dest_path_ok:
  assumes "path_ok path len" "len \<le> 15" "alloc (unat len) \<noteq> None"
  shows "rmap_set_dest_path alloc path len (Some p) =
    Some (0, Some (p\<lparr>rp_path_len := len, rp_path := if len = 0 then rp_path p else Some (path_bytes path len)\<rparr>))"
proof -
  have "\<not> 15 < len" using assms(2) by simp
  then show ?thesis
    using assms(1,3)
    by (auto simp: rmap_set_dest_path_def Let_def path_ok_def copy_path_def path_bytes_def simp del: not_less)
qed

lemma set_reply_path_ok:
  assumes "path_ok path len" "len \<le> 12" "len AND 3 = 0" "alloc (unat len) \<noteq> None"
  shows "rmap_set_reply_path alloc path len (Some p) =
    Some (0, Some (p\<lparr>rp_rpath_len := len, rp_rpath := if len = 0 then rp_rpath p else Some (path_bytes path len),
      rp_instruction := set_ri_reply_addr_len (drop_bit 2 len) (rp_instruction p)\<rparr>))"
proof -
  have "\<not> 12 < len" using assms(2) by simp
  then show ?thesis
    using assms(1,3,4)
    by (auto simp: rmap_set_reply_path_def Let_def path_ok_def copy_path_def path_bytes_def simp del: not_less)
qed

lemma path_bytes_again: "path_ok p len \<Longrightarrow> path_bytes (Some (path_bytes p len)) len = path_bytes p len"
  by (auto simp: path_bytes_def)

lemma cmd_pkt_bytes:
  assumes "paths_ok st"
  shows "rmap_hdr_bytes (cmd_pkt st trans_id cmd addr n) = Some (cmd_header st trans_id cmd addr n)"
proof -
  have "path_ok (rp_path (cmd_pkt st trans_id cmd addr n)) (dpath_len st)"
    "path_ok (rp_rpath (cmd_pkt st trans_id cmd addr n)) (rpath_len st)"
    using assms by (auto simp: paths_ok_def cmd_pkt_def path_ok_def path_bytes_def)
  then have "rmap_hdr_bytes (cmd_pkt st trans_id cmd addr n) =
    Some (path_bytes (rp_path (cmd_pkt st trans_id cmd addr n)) (dpath_len st) @
      [rdcu_addr st, 1, cmd_instruction cmd (rpath_len st), dst_key st] @
      path_bytes (rp_rpath (cmd_pkt st trans_id cmd addr n)) (rpath_len st) @
      hdr_tail (cmd_pkt st trans_id cmd addr n))"
    using rmap_hdr_bytes_ok [of "cmd_pkt st trans_id cmd addr n"] by (simp add: cmd_pkt_def)
  moreover have "hdr_tail (cmd_pkt st trans_id cmd addr n) =
      icu_addr st # be_bytes 2 trans_id @ 0 # be_bytes 4 addr @ be_bytes 3 n"
    by (simp add: hdr_tail_def cmd_pkt_def)
  moreover have "path_bytes (rp_path (cmd_pkt st trans_id cmd addr n)) (dpath_len st) =
      path_bytes (dpath st) (dpath_len st)"
    "path_bytes (rp_rpath (cmd_pkt st trans_id cmd addr n)) (rpath_len st) =
      path_bytes (rpath st) (rpath_len st)"
    using assms by (auto simp: cmd_pkt_def paths_ok_def path_bytes_again)
  ultimately show ?thesis by (simp add: cmd_header_def)
qed

lemma length_cmd_header:
  "paths_ok st \<Longrightarrow> length (cmd_header st trans_id cmd addr n) = 15 + unat (dpath_len st) + unat (rpath_len st)"
  by (simp add: cmd_header_def paths_ok_def length_path_bytes)

lemma cmd_pkt_size:
  assumes "paths_ok st" and "rmap_validate_cmd_code cmd = 0"
  shows "rmap_build_hdr (Some (cmd_pkt st trans_id cmd addr n)) None =
    Some (int (length (cmd_header st trans_id cmd addr n)), None)"
proof -
  have "rmap_get_min_hdr_size (cmd_pkt st trans_id cmd addr n) = 15"
    using assms(2) valid_cmd [OF assms(2)]
    by (auto simp: rmap_get_min_hdr_size_def Let_def cmd_pkt_def rmap_validate_cmd_code_def split: if_splits)
  moreover have "uint w = int (unat w)" for w :: u8 by simp
  ultimately show ?thesis
    by (simp add: rmap_build_hdr_def length_cmd_header [OF assms(1)] del: of_nat_unat)
      (simp add: cmd_pkt_def)
qed

lemma store_prefix: "length h \<le> length b \<Longrightarrow> store_bytes 0 h b = Some (h @ drop (length h) b)"
  by (simp add: store_bytes_def)

lemma set_cmd_ok:
  "rmap_validate_cmd_code cmd = 0 \<Longrightarrow> snd (rmap_set_cmd cmd (Some p)) =
    Some (p\<lparr>rp_instruction := set_ri_cmd_resp (set_ri_cmd (cmd AND 0xF) (rp_instruction p))\<rparr>)"
  by (simp add: rmap_set_cmd_def)

lemma set_data_len_ok: "n \<le> 0xFFFFFF \<Longrightarrow> snd (rmap_set_data_len n (Some p)) = Some (p\<lparr>rp_data_len := n\<rparr>)"
  by (simp add: rmap_set_data_len_def)

lemma create_packet_ok:
  "alloc 48 \<noteq> None \<Longrightarrow> rmap_create_packet alloc = Some \<lparr>rp_path = None, rp_path_len = 0, rp_dst = 0,
    rp_proto_id = 1, rp_instruction = 0, rp_key = 0, rp_src = 0, rp_rpath = None, rp_rpath_len = 0,
    rp_tr_id = 0, rp_addr = 0, rp_data = None, rp_data_len = 0, rp_hdr_crc = 0, rp_data_crc = 0\<rparr>"
  by (simp add: rmap_create_packet_def)

text \<open>With room for every path the setters fill the packet of the command.\<close>

lemma rdcu_gen_cmd_build:
  fixes st :: "'w rdcu_state"
  assumes alloc: "\<And>k. alloc k \<noteq> None" and st: "paths_ok st"
    and cmd: "rmap_validate_cmd_code cmd = 0" and n: "n \<le> 0xFFFFFF"
  shows "rdcu_gen_cmd alloc st trans_id c cmd addr n = do {
      (n', _) \<leftarrow> rmap_build_hdr (Some (cmd_pkt st trans_id cmd addr n)) None;
      case c of None \<Rightarrow> Some (n', c)
      | Some buf \<Rightarrow> if n' \<le> 0 then Some (n', c)
          else do {
            buf \<leftarrow> store_bytes 0 (replicate (nat n') 0) buf;
            rmap_build_hdr (Some (cmd_pkt st trans_id cmd addr n)) (Some buf) }}"
  using st unfolding paths_ok_def
  by (cases c) (simp_all add: rdcu_gen_cmd_def create_packet_ok alloc rmap_set_dst_def rmap_set_src_def rmap_set_key_def
      rmap_set_tr_id_def rmap_set_data_addr_def set_cmd_ok [OF cmd] set_data_len_ok [OF n]
      set_dest_path_ok set_reply_path_ok Let_def cmd_pkt_def cmd_instruction_def del: not_None_eq cong: if_cong)

lemma rdcu_gen_cmd_ok:
  fixes st :: "'w rdcu_state" and trans_id :: u16 and cmd :: u8 and addr n :: u32
  assumes alloc: "\<And>k. alloc k \<noteq> None" and st: "paths_ok st"
    and cmd: "rmap_validate_cmd_code cmd = 0" and n: "n \<le> 0xFFFFFF"
  defines "h \<equiv> cmd_header st trans_id cmd addr n"
  shows "rdcu_gen_cmd alloc st trans_id None cmd addr n = Some (int (length h), None)"
    and "length h \<le> length b \<Longrightarrow> rdcu_gen_cmd alloc st trans_id (Some b) cmd addr n =
      Some (int (length h), Some (h @ drop (length h) b))"
proof -
  note build = rdcu_gen_cmd_build [where alloc = alloc, OF alloc st cmd n]
  note size = cmd_pkt_size [OF st cmd, of trans_id addr n, folded h_def]
  show "rdcu_gen_cmd alloc st trans_id None cmd addr n = Some (int (length h), None)"
    by (simp add: build size)
  have pos: "0 < length h" by (simp add: h_def length_cmd_header [OF st])
  have b2: "store_bytes 0 h (replicate (length h) 0 @ drop (length h) b) = Some (h @ drop (length h) b)"
    by (simp add: store_bytes_def)
  show "rdcu_gen_cmd alloc st trans_id (Some b) cmd addr n = Some (int (length h), Some (h @ drop (length h) b))"
    if "length h \<le> length b"
    using that pos b2 store_prefix [of "replicate (length h) 0" b]
    by (simp add: build size) (simp add: rmap_build_hdr_def cmd_pkt_bytes [OF st] h_def)
qed

end
