(* ===== verification/Rdcu_Ctrl.thy ===== *)
theory Rdcu_Ctrl
  imports Rdcu_Cmd
begin

unbundle bit_operations_syntax

text \<open>
  Access to the mirror of the RDCU (\<open>lib/rdcu_compress/rdcu_ctrl.c\<close>): the getters and setters of the
  members of the registers and the copies from and to the mirror of the SRAM. They work on the
  mirror the static pointer \<open>rdcu\<close> points to after \<open>rdcu_ctrl_init\<close>. The parameter checks are
  compiled in (\<open>SKIP_CMP_PAR_CHECK\<close> is not defined).
\<close>

section \<open>Registers\<close>

text \<open>The assignments \<open>&=\<close> and \<open>|=\<close> to a member.\<close>

definition reg_and :: "rdcu_register \<Rightarrow> u32 \<Rightarrow> rdcu_mirror \<Rightarrow> rdcu_mirror" where
  "reg_and r v m = set_reg r (regs m r AND v) m"

definition reg_or :: "rdcu_register \<Rightarrow> u32 \<Rightarrow> rdcu_mirror \<Rightarrow> rdcu_mirror" where
  "reg_or r v m = set_reg r (regs m r OR v) m"

definition rdcu_bit_to_byte :: "u32 \<Rightarrow> u32" where
  "rdcu_bit_to_byte cmp_size_bit = (cmp_size_bit + 7) div 8"

definition rdcu_get_lvds_link_enabled :: "u32 \<Rightarrow> rdcu_mirror \<Rightarrow> u32" where
  "rdcu_get_lvds_link_enabled lnk m =
     (if lnk > 7 then -1 else drop_bit (unat lnk) (regs m Lvds_core_status) AND 0x1)"

definition rdcu_get_adc_value :: "int \<Rightarrow> rdcu_mirror \<Rightarrow> u16" where
  "rdcu_get_adc_value i m =
     (if i = 1 then ucast (regs m Adc_values_1 AND 0xFFFF)
      else if i = 2 then ucast (drop_bit 16 (regs m Adc_values_1) AND 0xFFFF)
      else if i = 3 then ucast (regs m Adc_values_2 AND 0xFFFF)
      else if i = 4 then ucast (drop_bit 16 (regs m Adc_values_2) AND 0xFFFF)
      else if i = 5 then ucast (regs m Adc_values_3 AND 0xFFFF)
      else if i = 6 then ucast (drop_bit 16 (regs m Adc_values_3) AND 0xFFFF)
      else if i = 7 then ucast (regs m Adc_values_4 AND 0xFFFF)
      else if i = 8 then ucast (drop_bit 16 (regs m Adc_values_4) AND 0xFFFF)
      else 0xFFFF)"

definition rdcu_get_fpga_version :: "rdcu_mirror \<Rightarrow> u16" where
  "rdcu_get_fpga_version m = ucast (regs m Fpga_version AND 0xFFFF)"

definition rdcu_get_rdcu_status_board_serial_number :: "rdcu_mirror \<Rightarrow> u32" where
  "rdcu_get_rdcu_status_board_serial_number m = (drop_bit 12 (regs m Rdcu_status) AND 0xF)"

definition rdcu_get_rdcu_status_fpga_core_power_good :: "rdcu_mirror \<Rightarrow> u32" where
  "rdcu_get_rdcu_status_fpga_core_power_good m = (drop_bit 6 (regs m Rdcu_status) AND 0x1)"

definition rdcu_get_rdcu_status_core_power_good :: "rdcu_mirror \<Rightarrow> u32" where
  "rdcu_get_rdcu_status_core_power_good m = (drop_bit 5 (regs m Rdcu_status) AND 0x1)"

definition rdcu_get_rdcu_status_io_power_good :: "rdcu_mirror \<Rightarrow> u32" where
  "rdcu_get_rdcu_status_io_power_good m = (drop_bit 4 (regs m Rdcu_status) AND 0x1)"

definition rdcu_get_rdcu_status_reset_by_register :: "rdcu_mirror \<Rightarrow> u32" where
  "rdcu_get_rdcu_status_reset_by_register m = (drop_bit 1 (regs m Rdcu_status) AND 0x1)"

definition rdcu_get_rdcu_status_power_on_reset :: "rdcu_mirror \<Rightarrow> u32" where
  "rdcu_get_rdcu_status_power_on_reset m = (regs m Rdcu_status AND 0x1)"

definition rdcu_get_rmap_target_logical_address :: "rdcu_mirror \<Rightarrow> u8" where
  "rdcu_get_rmap_target_logical_address m = ucast (drop_bit 24 (regs m Lvds_core_status) AND 0xFF)"

definition rdcu_get_rmap_target_cmd_key :: "rdcu_mirror \<Rightarrow> u8" where
  "rdcu_get_rmap_target_cmd_key m = ucast (drop_bit 16 (regs m Lvds_core_status) AND 0xFF)"

definition rdcu_get_spw_empty_pckt_cnt :: "rdcu_mirror \<Rightarrow> u16" where
  "rdcu_get_spw_empty_pckt_cnt m = ucast (drop_bit 16 (regs m Spw_link_status) AND 0xFF)"

definition rdcu_get_spw_run_clk_div :: "rdcu_mirror \<Rightarrow> u8" where
  "rdcu_get_spw_run_clk_div m = ucast (drop_bit 8 (regs m Spw_link_status) AND 0x3F)"

definition rdcu_get_spw_lnk_run_state :: "rdcu_mirror \<Rightarrow> u8" where
  "rdcu_get_spw_lnk_run_state m = ucast (drop_bit 8 (regs m Spw_link_status) AND 0x1)"

definition rdcu_get_spw_lnk_credit_errs :: "rdcu_mirror \<Rightarrow> u8" where
  "rdcu_get_spw_lnk_credit_errs m = ucast (drop_bit 24 (regs m Spw_link_status) AND 0xFF)"

definition rdcu_get_spw_lnk_escape_errs :: "rdcu_mirror \<Rightarrow> u8" where
  "rdcu_get_spw_lnk_escape_errs m = ucast (drop_bit 16 (regs m Spw_link_status) AND 0xFF)"

definition rdcu_get_spw_lnk_parity_errs :: "rdcu_mirror \<Rightarrow> u8" where
  "rdcu_get_spw_lnk_parity_errs m = ucast (drop_bit 8 (regs m Spw_link_status) AND 0xFF)"

definition rdcu_get_spw_lnk_disconnect_errs :: "rdcu_mirror \<Rightarrow> u8" where
  "rdcu_get_spw_lnk_disconnect_errs m = ucast (regs m Spw_link_status AND 0xFF)"

definition rdcu_get_rmap_last_error_user_code :: "rdcu_mirror \<Rightarrow> u8" where
  "rdcu_get_rmap_last_error_user_code m = ucast (drop_bit 8 (regs m Rmap_last_err) AND 0xFF)"

definition rdcu_get_rmap_last_error_standard_code :: "rdcu_mirror \<Rightarrow> u8" where
  "rdcu_get_rmap_last_error_standard_code m = ucast (regs m Rmap_last_err AND 0xFF)"

definition rdcu_get_rmap_incomplete_hdrs :: "rdcu_mirror \<Rightarrow> u8" where
  "rdcu_get_rmap_incomplete_hdrs m = ucast (drop_bit 24 (regs m Rmap_no_reply_err_cntrs) AND 0xFF)"

definition rdcu_get_rmap_recv_reply_pckts :: "rdcu_mirror \<Rightarrow> u8" where
  "rdcu_get_rmap_recv_reply_pckts m = ucast (drop_bit 8 (regs m Rmap_no_reply_err_cntrs) AND 0xFF)"

definition rdcu_get_recv_non_rmap_pckts :: "rdcu_mirror \<Rightarrow> u8" where
  "rdcu_get_recv_non_rmap_pckts m = ucast (regs m Rmap_no_reply_err_cntrs AND 0xFF)"

definition rdcu_get_rmap_pckt_errs :: "rdcu_mirror \<Rightarrow> u8" where
  "rdcu_get_rmap_pckt_errs m = ucast (drop_bit 24 (regs m Rmap_pckt_err_cntrs) AND 0xFF)"

definition rdcu_get_rmap_oper_errs :: "rdcu_mirror \<Rightarrow> u8" where
  "rdcu_get_rmap_oper_errs m = ucast (drop_bit 16 (regs m Rmap_pckt_err_cntrs) AND 0xFF)"

definition rdcu_get_rmap_cmd_auth_errs :: "rdcu_mirror \<Rightarrow> u8" where
  "rdcu_get_rmap_cmd_auth_errs m = ucast (drop_bit 8 (regs m Rmap_pckt_err_cntrs) AND 0xFF)"

definition rdcu_get_rmap_hdr_errs :: "rdcu_mirror \<Rightarrow> u8" where
  "rdcu_get_rmap_hdr_errs m = ucast (regs m Rmap_pckt_err_cntrs AND 0xFF)"

definition rdcu_get_valid_adc_values :: "rdcu_mirror \<Rightarrow> u32" where
  "rdcu_get_valid_adc_values m = (drop_bit 4 (regs m Adc_status) AND 0x1)"

definition rdcu_get_adc_logic_reset :: "rdcu_mirror \<Rightarrow> u32" where
  "rdcu_get_adc_logic_reset m = (drop_bit 1 (regs m Adc_status) AND 0x1)"

definition rdcu_get_adc_logic_enabled :: "rdcu_mirror \<Rightarrow> u32" where
  "rdcu_get_adc_logic_enabled m = (regs m Adc_status AND 0x1)"

definition rdcu_get_rdcu_interrupt_enabled :: "rdcu_mirror \<Rightarrow> u32" where
  "rdcu_get_rdcu_interrupt_enabled m = (drop_bit 8 (regs m Compr_status) AND 0x1)"

definition rdcu_get_compr_status_valid :: "rdcu_mirror \<Rightarrow> u32" where
  "rdcu_get_compr_status_valid m = (drop_bit 5 (regs m Compr_status) AND 0x1)"

definition rdcu_get_data_compr_ready :: "rdcu_mirror \<Rightarrow> u32" where
  "rdcu_get_data_compr_ready m = (drop_bit 4 (regs m Compr_status) AND 0x1)"

definition rdcu_get_data_compr_interrupted :: "rdcu_mirror \<Rightarrow> u32" where
  "rdcu_get_data_compr_interrupted m = (drop_bit 1 (regs m Compr_status) AND 0x1)"

definition rdcu_get_data_compr_active :: "rdcu_mirror \<Rightarrow> u32" where
  "rdcu_get_data_compr_active m = (regs m Compr_status AND 0x1)"

definition rdcu_set_rdcu_board_reset_keyword :: "u8 \<Rightarrow> rdcu_mirror \<Rightarrow> rdcu_mirror" where
  "rdcu_set_rdcu_board_reset_keyword key m =
     reg_or Rdcu_reset (push_bit 24 (ucast key)) (reg_and Rdcu_reset (NOT (push_bit 24 0xF)) m)"

definition rdcu_set_rdcu_bus_reset :: "rdcu_mirror \<Rightarrow> rdcu_mirror" where
  "rdcu_set_rdcu_bus_reset m =
     reg_or Rdcu_reset (push_bit 12 0x1) m"

definition rdcu_clear_rdcu_bus_reset :: "rdcu_mirror \<Rightarrow> rdcu_mirror" where
  "rdcu_clear_rdcu_bus_reset m =
     reg_and Rdcu_reset (NOT (push_bit 12 0x1)) m"

definition rdcu_set_rdcu_rmap_error_cntr_reset :: "rdcu_mirror \<Rightarrow> rdcu_mirror" where
  "rdcu_set_rdcu_rmap_error_cntr_reset m =
     reg_or Rdcu_reset (push_bit 9 0x1) m"

definition rdcu_clear_rdcu_rmap_error_cntr_reset :: "rdcu_mirror \<Rightarrow> rdcu_mirror" where
  "rdcu_clear_rdcu_rmap_error_cntr_reset m =
     reg_and Rdcu_reset (NOT (push_bit 9 0x1)) m"

definition rdcu_set_rdcu_spw_error_cntr_reset :: "rdcu_mirror \<Rightarrow> rdcu_mirror" where
  "rdcu_set_rdcu_spw_error_cntr_reset m =
     reg_or Rdcu_reset (push_bit 8 0x1) m"

definition rdcu_clear_rdcu_spw_error_cntr_reset :: "rdcu_mirror \<Rightarrow> rdcu_mirror" where
  "rdcu_clear_rdcu_spw_error_cntr_reset m =
     reg_and Rdcu_reset (NOT (push_bit 8 0x1)) m"

definition rdcu_set_rdcu_board_reset :: "rdcu_mirror \<Rightarrow> rdcu_mirror" where
  "rdcu_set_rdcu_board_reset m =
     reg_or Rdcu_reset (push_bit 1 0x1) m"

definition rdcu_clear_rdcu_board_reset :: "rdcu_mirror \<Rightarrow> rdcu_mirror" where
  "rdcu_clear_rdcu_board_reset m =
     reg_and Rdcu_reset (NOT (push_bit 1 0x1)) m"

definition rdcu_set_spw_link_run_clkdiv :: "u8 \<Rightarrow> rdcu_mirror \<Rightarrow> int \<times> rdcu_mirror" where
  "rdcu_set_spw_link_run_clkdiv divisor m =
     (if divisor > 49 then (-1, m)
      else (0, reg_or Spw_link_ctrl (push_bit 8 (ucast divisor)) (reg_and Spw_link_ctrl (NOT (push_bit 8 0x3F)) m)))"

definition rdcu_set_lvds_link_enabled :: "u32 \<Rightarrow> rdcu_mirror \<Rightarrow> int \<times> rdcu_mirror" where
  "rdcu_set_lvds_link_enabled lnk m =
     (if lnk > 7 then (-1, m)
      else (0, reg_or Lvds_ctrl (push_bit (unat lnk) 0x1) m))"

definition rdcu_set_lvds_link_disabled :: "u32 \<Rightarrow> rdcu_mirror \<Rightarrow> int \<times> rdcu_mirror" where
  "rdcu_set_lvds_link_disabled lnk m =
     (if lnk > 7 then (-1, m)
      else (0, reg_and Lvds_ctrl (NOT (push_bit (unat lnk) 0x1)) m))"

definition rdcu_set_rmap_target_logical_address :: "u8 \<Rightarrow> rdcu_mirror \<Rightarrow> rdcu_mirror" where
  "rdcu_set_rmap_target_logical_address addr m =
     reg_or Core_ctrl (push_bit 24 (ucast addr)) (reg_and Core_ctrl (NOT (push_bit 24 0xFF)) m)"

definition rdcu_set_rmap_target_cmd_key :: "u8 \<Rightarrow> rdcu_mirror \<Rightarrow> rdcu_mirror" where
  "rdcu_set_rmap_target_cmd_key key m =
     reg_or Core_ctrl (push_bit 16 (ucast key)) (reg_and Core_ctrl (NOT (push_bit 16 0xFF)) m)"

definition rdcu_set_adc_logic_reset :: "rdcu_mirror \<Rightarrow> rdcu_mirror" where
  "rdcu_set_adc_logic_reset m =
     reg_or Adc_ctrl (push_bit 1 0x1) m"

definition rdcu_clear_adc_logic_reset :: "rdcu_mirror \<Rightarrow> rdcu_mirror" where
  "rdcu_clear_adc_logic_reset m =
     reg_and Adc_ctrl (NOT (push_bit 1 0x1)) m"

definition rdcu_set_adc_logic_enabled :: "rdcu_mirror \<Rightarrow> rdcu_mirror" where
  "rdcu_set_adc_logic_enabled m =
     reg_or Adc_ctrl 0x1 m"

definition rdcu_set_adc_logic_disabled :: "rdcu_mirror \<Rightarrow> rdcu_mirror" where
  "rdcu_set_adc_logic_disabled m =
     reg_and Adc_ctrl (NOT (0x1)) m"

definition rdcu_set_rdcu_interrupt :: "rdcu_mirror \<Rightarrow> rdcu_mirror" where
  "rdcu_set_rdcu_interrupt m =
     reg_or Compr_ctrl (push_bit 8 0x1) m"

definition rdcu_clear_rdcu_interrupt :: "rdcu_mirror \<Rightarrow> rdcu_mirror" where
  "rdcu_clear_rdcu_interrupt m =
     reg_and Compr_ctrl (NOT (push_bit 8 0x1)) m"

definition rdcu_set_data_compr_interrupt :: "rdcu_mirror \<Rightarrow> rdcu_mirror" where
  "rdcu_set_data_compr_interrupt m =
     reg_or Compr_ctrl (push_bit 1 0x1) m"

definition rdcu_clear_data_compr_interrupt :: "rdcu_mirror \<Rightarrow> rdcu_mirror" where
  "rdcu_clear_data_compr_interrupt m =
     reg_and Compr_ctrl (NOT (push_bit 1 0x1)) m"

definition rdcu_set_data_compr_start :: "rdcu_mirror \<Rightarrow> rdcu_mirror" where
  "rdcu_set_data_compr_start m =
     reg_or Compr_ctrl 0x1 m"

definition rdcu_clear_data_compr_start :: "rdcu_mirror \<Rightarrow> rdcu_mirror" where
  "rdcu_clear_data_compr_start m =
     reg_and Compr_ctrl (NOT (0x1)) m"

definition rdcu_set_noise_bits_rounded :: "u32 \<Rightarrow> rdcu_mirror \<Rightarrow> int \<times> rdcu_mirror" where
  "rdcu_set_noise_bits_rounded rpar m =
     (if rpar > 3 then (-1, m)
      else (0, reg_or Compressor_param1 (push_bit 16 rpar) (reg_and Compressor_param1 (NOT (push_bit 16 0x3)) m)))"

definition rdcu_set_weighting_param :: "u32 \<Rightarrow> rdcu_mirror \<Rightarrow> int \<times> rdcu_mirror" where
  "rdcu_set_weighting_param mval m =
     (if mval > 16 then (-1, m)
      else (0, reg_or Compressor_param1 (push_bit 8 mval) (reg_and Compressor_param1 (NOT (push_bit 8 0x1F)) m)))"

definition rdcu_set_compression_mode :: "u32 \<Rightarrow> rdcu_mirror \<Rightarrow> int \<times> rdcu_mirror" where
  "rdcu_set_compression_mode cmode m =
     (if cmode > 4 then (-1, m)
      else (0, reg_or Compressor_param1 cmode (reg_and Compressor_param1 (NOT (0xFF)) m)))"

definition rdcu_set_spillover_threshold :: "u32 \<Rightarrow> rdcu_mirror \<Rightarrow> int \<times> rdcu_mirror" where
  "rdcu_set_spillover_threshold spill m =
     (if spill < 2 then (-1, m)
      else if spill > 0x3FF then (-1, m)
      else (0, reg_or Compressor_param2 (push_bit 8 spill) (reg_and Compressor_param2 (NOT (push_bit 8 0x3FF)) m)))"

definition rdcu_set_golomb_param :: "u32 \<Rightarrow> rdcu_mirror \<Rightarrow> int \<times> rdcu_mirror" where
  "rdcu_set_golomb_param gpar m =
     (if gpar = 0 then (-1, m)
      else if gpar > 63 then (-1, m)
      else (0, reg_or Compressor_param2 gpar (reg_and Compressor_param2 (NOT (0x3F)) m)))"

definition rdcu_set_adaptive_1_spillover_threshold :: "u32 \<Rightarrow> rdcu_mirror \<Rightarrow> int \<times> rdcu_mirror" where
  "rdcu_set_adaptive_1_spillover_threshold spill m =
     (if spill < 2 then (-1, m)
      else if spill > 0x3FF then (-1, m)
      else (0, reg_or Adaptive_param1 (push_bit 8 spill) (reg_and Adaptive_param1 (NOT (push_bit 8 0x3FF)) m)))"

definition rdcu_set_adaptive_1_golomb_param :: "u32 \<Rightarrow> rdcu_mirror \<Rightarrow> int \<times> rdcu_mirror" where
  "rdcu_set_adaptive_1_golomb_param gpar m =
     (if gpar = 0 then (-1, m)
      else if gpar > 63 then (-1, m)
      else (0, reg_or Adaptive_param1 gpar (reg_and Adaptive_param1 (NOT (0x3F)) m)))"

definition rdcu_set_adaptive_2_spillover_threshold :: "u32 \<Rightarrow> rdcu_mirror \<Rightarrow> int \<times> rdcu_mirror" where
  "rdcu_set_adaptive_2_spillover_threshold spill m =
     (if spill < 2 then (-1, m)
      else if spill > 0x3FF then (-1, m)
      else (0, reg_or Adaptive_param2 (push_bit 8 spill) (reg_and Adaptive_param2 (NOT (push_bit 8 0x3FF)) m)))"

definition rdcu_set_adaptive_2_golomb_param :: "u32 \<Rightarrow> rdcu_mirror \<Rightarrow> int \<times> rdcu_mirror" where
  "rdcu_set_adaptive_2_golomb_param gpar m =
     (if gpar = 0 then (-1, m)
      else if gpar > 63 then (-1, m)
      else (0, reg_or Adaptive_param2 gpar (reg_and Adaptive_param2 (NOT (0x3F)) m)))"

definition rdcu_set_data_start_addr :: "u32 \<Rightarrow> rdcu_mirror \<Rightarrow> int \<times> rdcu_mirror" where
  "rdcu_set_data_start_addr addr m =
     (if addr > 0x00FFFFFF then (-1, m)
      else if addr AND 0x3 \<noteq> 0 then (-1, m)
      else (0, reg_or Data_start_addr addr (reg_and Data_start_addr (NOT (0x00FFFFFF)) m)))"

definition rdcu_set_model_start_addr :: "u32 \<Rightarrow> rdcu_mirror \<Rightarrow> int \<times> rdcu_mirror" where
  "rdcu_set_model_start_addr addr m =
     (if addr > 0x00FFFFFF then (-1, m)
      else if addr AND 0x3 \<noteq> 0 then (-1, m)
      else (0, reg_or Model_start_addr addr (reg_and Model_start_addr (NOT (0x00FFFFFF)) m)))"

definition rdcu_set_num_samples :: "u32 \<Rightarrow> rdcu_mirror \<Rightarrow> int \<times> rdcu_mirror" where
  "rdcu_set_num_samples n_samples m =
     (if n_samples > 0x00FFFFFF then (-1, m)
      else (0, reg_or Num_samples n_samples (reg_and Num_samples (NOT (0x00FFFFFF)) m)))"

definition rdcu_set_new_model_start_addr :: "u32 \<Rightarrow> rdcu_mirror \<Rightarrow> int \<times> rdcu_mirror" where
  "rdcu_set_new_model_start_addr addr m =
     (if addr > 0x00FFFFFF then (-1, m)
      else if addr AND 0x3 \<noteq> 0 then (-1, m)
      else (0, reg_or New_model_start_addr addr (reg_and New_model_start_addr (NOT (0x00FFFFFF)) m)))"

definition rdcu_set_compr_data_buf_start_addr :: "u32 \<Rightarrow> rdcu_mirror \<Rightarrow> int \<times> rdcu_mirror" where
  "rdcu_set_compr_data_buf_start_addr addr m =
     (if addr > 0x00FFFFFF then (-1, m)
      else if addr AND 0x3 \<noteq> 0 then (-1, m)
      else (0, reg_or Compr_data_buf_start_addr addr (reg_and Compr_data_buf_start_addr (NOT (0x00FFFFFF)) m)))"

definition rdcu_set_compr_data_buf_len :: "u32 \<Rightarrow> rdcu_mirror \<Rightarrow> int \<times> rdcu_mirror" where
  "rdcu_set_compr_data_buf_len n_samples m =
     (if n_samples > 0x00FFFFFF then (-1, m)
      else (0, reg_or Compr_data_buf_len n_samples (reg_and Compr_data_buf_len (NOT (0x00FFFFFF)) m)))"

definition rdcu_get_compression_mode :: "rdcu_mirror \<Rightarrow> u32" where
  "rdcu_get_compression_mode m = (regs m Used_param1 AND 0xFF)"

definition rdcu_get_noise_bits_rounded :: "rdcu_mirror \<Rightarrow> u32" where
  "rdcu_get_noise_bits_rounded m = (drop_bit 16 (regs m Used_param1) AND 0x3)"

definition rdcu_get_weighting_param :: "rdcu_mirror \<Rightarrow> u32" where
  "rdcu_get_weighting_param m = (drop_bit 8 (regs m Used_param1) AND 0x1F)"

definition rdcu_get_spillover_threshold :: "rdcu_mirror \<Rightarrow> u32" where
  "rdcu_get_spillover_threshold m = (drop_bit 8 (regs m Used_param2) AND 0x3FF)"

definition rdcu_get_golomb_param :: "rdcu_mirror \<Rightarrow> u32" where
  "rdcu_get_golomb_param m = (regs m Used_param2 AND 0x3F)"

definition rdcu_get_compr_data_start_addr :: "rdcu_mirror \<Rightarrow> u32" where
  "rdcu_get_compr_data_start_addr m = (regs m Compr_data_start_addr AND 0x00FFFFFF)"

definition rdcu_get_compr_data_size_bit :: "rdcu_mirror \<Rightarrow> u32" where
  "rdcu_get_compr_data_size_bit m = regs m Compr_data_size"

definition rdcu_get_compr_data_size_byte :: "rdcu_mirror \<Rightarrow> u32" where
  "rdcu_get_compr_data_size_byte m = rdcu_bit_to_byte (rdcu_get_compr_data_size_bit m)"

definition rdcu_get_compr_data_adaptive_1_size_bit :: "rdcu_mirror \<Rightarrow> u32" where
  "rdcu_get_compr_data_adaptive_1_size_bit m = regs m Compr_data_adaptive_1_size"

definition rdcu_get_compr_data_adaptive_1_size_byte :: "rdcu_mirror \<Rightarrow> u32" where
  "rdcu_get_compr_data_adaptive_1_size_byte m = rdcu_bit_to_byte (rdcu_get_compr_data_adaptive_1_size_bit m)"

definition rdcu_get_compr_data_adaptive_2_size_bit :: "rdcu_mirror \<Rightarrow> u32" where
  "rdcu_get_compr_data_adaptive_2_size_bit m = regs m Compr_data_adaptive_2_size"

definition rdcu_get_compr_data_adaptive_2_size_byte :: "rdcu_mirror \<Rightarrow> u32" where
  "rdcu_get_compr_data_adaptive_2_size_byte m = rdcu_bit_to_byte (rdcu_get_compr_data_adaptive_2_size_bit m)"

definition rdcu_get_compr_error :: "rdcu_mirror \<Rightarrow> u16" where
  "rdcu_get_compr_error m = ucast (regs m Compr_error AND 0x3FF)"

definition rdcu_get_new_model_addr_used :: "rdcu_mirror \<Rightarrow> u32" where
  "rdcu_get_new_model_addr_used m = (regs m New_model_addr_used AND 0x00FFFFFF)"

definition rdcu_get_samples_used :: "rdcu_mirror \<Rightarrow> u32" where
  "rdcu_get_samples_used m = (regs m Samples_used AND 0x00FFFFFF)"

definition rdcu_edac_set_sub_chip_die_addr :: "u32 \<Rightarrow> rdcu_mirror \<Rightarrow> int \<times> rdcu_mirror" where
  "rdcu_edac_set_sub_chip_die_addr ca m =
     (if ca > 0xF then (-1, m)
      else (0, reg_or Sram_edac_ctrl (push_bit 12 ca) (reg_and Sram_edac_ctrl (NOT (push_bit 12 0xF)) m)))"

definition rdcu_edac_set_ctrl_reg_read_op :: "rdcu_mirror \<Rightarrow> rdcu_mirror" where
  "rdcu_edac_set_ctrl_reg_read_op m =
     reg_or Sram_edac_ctrl (push_bit 9 0x1) m"

definition rdcu_edac_set_ctrl_reg_write_op :: "rdcu_mirror \<Rightarrow> rdcu_mirror" where
  "rdcu_edac_set_ctrl_reg_write_op m =
     reg_and Sram_edac_ctrl (NOT (push_bit 9 0x1)) m"

definition rdcu_edac_set_bypass :: "rdcu_mirror \<Rightarrow> rdcu_mirror" where
  "rdcu_edac_set_bypass m =
     reg_or Sram_edac_ctrl (push_bit 8 0x1) m"

definition rdcu_edac_clear_bypass :: "rdcu_mirror \<Rightarrow> rdcu_mirror" where
  "rdcu_edac_clear_bypass m =
     reg_and Sram_edac_ctrl (NOT (push_bit 8 0x1)) m"

definition rdcu_edac_set_scrub_info :: "u8 \<Rightarrow> rdcu_mirror \<Rightarrow> rdcu_mirror" where
  "rdcu_edac_set_scrub_info nfo m =
     reg_or Sram_edac_ctrl (ucast nfo AND 0xFF) (reg_and Sram_edac_ctrl (NOT (0xFF)) m)"

definition rdcu_edac_get_sub_chip_die_addr :: "rdcu_mirror \<Rightarrow> u32" where
  "rdcu_edac_get_sub_chip_die_addr m = (drop_bit 12 (regs m Sram_edac_status) AND 0xF)"

definition rdcu_edac_get_bypass_status :: "rdcu_mirror \<Rightarrow> u32" where
  "rdcu_edac_get_bypass_status m = (drop_bit 8 (regs m Sram_edac_status) AND 0x1)"

definition rdcu_edac_get_scrub_info :: "rdcu_mirror \<Rightarrow> u8" where
  "rdcu_edac_get_scrub_info m = ucast (regs m Sram_edac_ctrl AND 0xFF)"

section \<open>The mirror of the SRAM\<close>

text \<open>The range checks the three write functions and the read function share.\<close>

definition outside_sram :: "u32 \<Rightarrow> u32 \<Rightarrow> bool" where
  "outside_sram addr n_bytes \<longleftrightarrow>
     addr > RDCU_SRAM_END \<or> n_bytes > RDCU_SRAM_SIZE \<or>
     addr + n_bytes > RDCU_SRAM_START + RDCU_SRAM_SIZE"

text \<open>\<open>memcpy\<close> between a buffer and the SRAM: the content of the buffer after the call.\<close>

definition rdcu_read_sram :: "buffer option \<Rightarrow> u32 \<Rightarrow> u32 \<Rightarrow> rdcu_mirror \<Rightarrow> (int \<times> buffer option) option" where
  "rdcu_read_sram buf addr n_bytes m =
     (if outside_sram addr n_bytes then Some (-1, buf)
      else case buf of
        None \<Rightarrow> Some (uint n_bytes, None)
      | Some b \<Rightarrow> do {
          d \<leftarrow> sram_bytes (unat addr) (unat n_bytes) m;
          b \<leftarrow> store_bytes 0 d b;
          Some (uint n_bytes, Some b)
        })"

definition rdcu_write_sram :: "buffer option \<Rightarrow> u32 \<Rightarrow> u32 \<Rightarrow> rdcu_mirror \<Rightarrow> (int \<times> rdcu_mirror) option" where
  "rdcu_write_sram buf addr n_bytes m =
     (case buf of
        None \<Rightarrow> Some (0, m)
      | Some b \<Rightarrow>
          if outside_sram addr n_bytes then Some (-1, m)
          else if unat n_bytes > length b then None
          else do {
            m \<leftarrow> store_sram (unat addr) (take (unat n_bytes) b) m;
            Some (uint n_bytes, m)
          })"

definition rdcu_write_sram_8 :: "buffer option \<Rightarrow> u32 \<Rightarrow> u32 \<Rightarrow> rdcu_mirror \<Rightarrow> (int \<times> rdcu_mirror) option" where
  "rdcu_write_sram_8 buf addr n_bytes m = rdcu_write_sram buf addr n_bytes m"

text \<open>The loop over the elements of an array of 16-bit or 32-bit values, on a little-endian CPU: the
  element at offset \<open>i\<close> is converted and copied to the same offset of the SRAM.\<close>

fun write_sram_loop :: "(buffer \<Rightarrow> buffer) \<Rightarrow> nat \<Rightarrow> buffer \<Rightarrow> nat \<Rightarrow> nat list \<Rightarrow> rdcu_mirror \<Rightarrow> rdcu_mirror option" where
  "write_sram_loop conv sz buf addr [] m = Some m"
| "write_sram_loop conv sz buf addr (i # is) m =
     (if i * sz + sz > length buf then None
      else do {
        m \<leftarrow> store_sram (addr + i * sz) (conv (take sz (drop (i * sz) buf))) m;
        write_sram_loop conv sz buf addr is m
      })"

definition rdcu_write_sram_16 ::
  "bool \<Rightarrow> buffer option \<Rightarrow> u32 \<Rightarrow> u32 \<Rightarrow> rdcu_mirror \<Rightarrow> (int \<times> rdcu_mirror) option" where
  "rdcu_write_sram_16 big buf addr n_bytes m =
     (case buf of
        None \<Rightarrow> Some (0, m)
      | Some b \<Rightarrow>
          if n_bytes AND 0x1 \<noteq> 0 then Some (-1, m)
          else if outside_sram addr n_bytes then Some (-1, m)
          else if big then rdcu_write_sram buf addr n_bytes m
          else do {
            m \<leftarrow> write_sram_loop
              (\<lambda>x. host_bytes big 2 (be16_to_cpu big (host_word big x))) 2 b (unat addr)
              [0..<unat (n_bytes div 2)] m;
            Some (uint n_bytes, m)
          })"

definition rdcu_write_sram_32 ::
  "bool \<Rightarrow> buffer option \<Rightarrow> u32 \<Rightarrow> u32 \<Rightarrow> rdcu_mirror \<Rightarrow> (int \<times> rdcu_mirror) option" where
  "rdcu_write_sram_32 big buf addr n_bytes m =
     (case buf of
        None \<Rightarrow> Some (0, m)
      | Some b \<Rightarrow>
          if n_bytes AND 0x3 \<noteq> 0 then Some (-1, m)
          else if outside_sram addr n_bytes then Some (-1, m)
          else if big then rdcu_write_sram buf addr n_bytes m
          else do {
            m \<leftarrow> write_sram_loop
              (\<lambda>x. host_bytes big 4 (be32_to_cpu big (host_word big x))) 4 b (unat addr)
              [0..<unat (n_bytes div 4)] m;
            Some (uint n_bytes, m)
          })"

text \<open>The allocation of the mirror and of the SRAM, cleared. The structure has 41 words, four bytes
  of padding and the pointer to the SRAM, which is not an address of the mirror. Without memory
  for the mirror the pointer is NULL, without memory for the SRAM its pointer is NULL; the state
  after a failure is then not a mirror.\<close>

definition rdcu_ctrl_init :: "malloc \<Rightarrow> int \<times> rdcu_mirror option" where
  "rdcu_ctrl_init alloc =
     (if alloc 176 = None then (-1, None)
      else if alloc (unat RDCU_SRAM_SIZE) = None then (-1, None)
      else (0, Some \<lparr>regs = \<lambda>_. 0, sram = \<lambda>_. 0\<rparr>))"

end
