(* ===== verification/Rdcu_Sync.thy ===== *)
theory Rdcu_Sync
  imports Rdcu_Ctrl
begin

unbundle bit_operations_syntax

text \<open>
  Synchronisation of the mirror with the RDCU (the sync functions of
  \<open>lib/rdcu_compress/rdcu_ctrl.c\<close>): one function for every register, which reads it from the RDCU
  or writes it there, and the transfers between the SRAM and its mirror in units of at most \<open>mtu\<close>
  bytes. The loops of the transfers try again while all slots of the transaction log are in use;
  they are partial functions, \<open>None\<close> being a loop that never ends or an invalid access.
\<close>

type_synonym 'w sync_op = "bool \<Rightarrow> malloc \<Rightarrow> 'w rdcu_state \<Rightarrow> (int \<times> 'w rdcu_state) option"

section \<open>Registers\<close>

definition rdcu_sync_fpga_version :: "'w sync_op" where
  "rdcu_sync_fpga_version big alloc =
     rdcu_sync big alloc rdcu_read_cmd_fpga_version (REGISTER Fpga_version) 0"

definition rdcu_sync_rdcu_status :: "'w sync_op" where
  "rdcu_sync_rdcu_status big alloc =
     rdcu_sync big alloc rdcu_read_cmd_rdcu_status (REGISTER Rdcu_status) 0"

definition rdcu_sync_lvds_core_status :: "'w sync_op" where
  "rdcu_sync_lvds_core_status big alloc =
     rdcu_sync big alloc rdcu_read_cmd_lvds_core_status (REGISTER Lvds_core_status) 0"

definition rdcu_sync_spw_link_status :: "'w sync_op" where
  "rdcu_sync_spw_link_status big alloc =
     rdcu_sync big alloc rdcu_read_cmd_spw_link_status (REGISTER Spw_link_status) 0"

definition rdcu_sync_spw_err_cntrs :: "'w sync_op" where
  "rdcu_sync_spw_err_cntrs big alloc =
     rdcu_sync big alloc rdcu_read_cmd_spw_err_cntrs (REGISTER Spw_err_cntrs) 0"

definition rdcu_sync_rmap_last_err :: "'w sync_op" where
  "rdcu_sync_rmap_last_err big alloc =
     rdcu_sync big alloc rdcu_read_cmd_rmap_last_err (REGISTER Rmap_last_err) 0"

definition rdcu_sync_rmap_no_reply_err_cntrs :: "'w sync_op" where
  "rdcu_sync_rmap_no_reply_err_cntrs big alloc =
     rdcu_sync big alloc rdcu_read_cmd_rmap_no_reply_err_cntrs (REGISTER Rmap_no_reply_err_cntrs) 0"

definition rdcu_sync_rmap_pckt_err_cntrs :: "'w sync_op" where
  "rdcu_sync_rmap_pckt_err_cntrs big alloc =
     rdcu_sync big alloc rdcu_read_cmd_rmap_pckt_err_cntrs (REGISTER Rmap_pckt_err_cntrs) 0"

definition rdcu_sync_adc_status :: "'w sync_op" where
  "rdcu_sync_adc_status big alloc =
     rdcu_sync big alloc rdcu_read_cmd_adc_status (REGISTER Adc_status) 0"

definition rdcu_sync_compr_status :: "'w sync_op" where
  "rdcu_sync_compr_status big alloc =
     rdcu_sync big alloc rdcu_read_cmd_compr_status (REGISTER Compr_status) 0"

definition rdcu_sync_rdcu_reset :: "'w sync_op" where
  "rdcu_sync_rdcu_reset big alloc =
     rdcu_sync big alloc rdcu_write_cmd_rdcu_reset (REGISTER Rdcu_reset) 4"

definition rdcu_sync_spw_link_ctrl :: "'w sync_op" where
  "rdcu_sync_spw_link_ctrl big alloc =
     rdcu_sync big alloc rdcu_write_cmd_spw_link_ctrl (REGISTER Spw_link_ctrl) 4"

definition rdcu_sync_lvds_ctrl :: "'w sync_op" where
  "rdcu_sync_lvds_ctrl big alloc =
     rdcu_sync big alloc rdcu_write_cmd_lvds_ctrl (REGISTER Lvds_ctrl) 4"

definition rdcu_sync_core_ctrl :: "'w sync_op" where
  "rdcu_sync_core_ctrl big alloc =
     rdcu_sync big alloc rdcu_write_cmd_core_ctrl (REGISTER Core_ctrl) 4"

definition rdcu_sync_adc_ctrl :: "'w sync_op" where
  "rdcu_sync_adc_ctrl big alloc =
     rdcu_sync big alloc rdcu_write_cmd_adc_ctrl (REGISTER Adc_ctrl) 4"

definition rdcu_sync_compr_ctrl :: "'w sync_op" where
  "rdcu_sync_compr_ctrl big alloc =
     rdcu_sync big alloc rdcu_write_cmd_compr_ctrl (REGISTER Compr_ctrl) 4"

definition rdcu_sync_compressor_param1 :: "'w sync_op" where
  "rdcu_sync_compressor_param1 big alloc =
     rdcu_sync big alloc rdcu_write_cmd_compressor_param1 (REGISTER Compressor_param1) 4"

definition rdcu_sync_compressor_param2 :: "'w sync_op" where
  "rdcu_sync_compressor_param2 big alloc =
     rdcu_sync big alloc rdcu_write_cmd_compressor_param2 (REGISTER Compressor_param2) 4"

definition rdcu_sync_adaptive_param1 :: "'w sync_op" where
  "rdcu_sync_adaptive_param1 big alloc =
     rdcu_sync big alloc rdcu_write_cmd_adaptive_param1 (REGISTER Adaptive_param1) 4"

definition rdcu_sync_adaptive_param2 :: "'w sync_op" where
  "rdcu_sync_adaptive_param2 big alloc =
     rdcu_sync big alloc rdcu_write_cmd_adaptive_param2 (REGISTER Adaptive_param2) 4"

definition rdcu_sync_data_start_addr :: "'w sync_op" where
  "rdcu_sync_data_start_addr big alloc =
     rdcu_sync big alloc rdcu_write_cmd_data_start_addr (REGISTER Data_start_addr) 4"

definition rdcu_sync_model_start_addr :: "'w sync_op" where
  "rdcu_sync_model_start_addr big alloc =
     rdcu_sync big alloc rdcu_write_cmd_model_start_addr (REGISTER Model_start_addr) 4"

definition rdcu_sync_num_samples :: "'w sync_op" where
  "rdcu_sync_num_samples big alloc =
     rdcu_sync big alloc rdcu_write_cmd_num_samples (REGISTER Num_samples) 4"

definition rdcu_sync_new_model_start_addr :: "'w sync_op" where
  "rdcu_sync_new_model_start_addr big alloc =
     rdcu_sync big alloc rdcu_write_cmd_new_model_start_addr (REGISTER New_model_start_addr) 4"

definition rdcu_sync_compr_data_buf_start_addr :: "'w sync_op" where
  "rdcu_sync_compr_data_buf_start_addr big alloc =
     rdcu_sync big alloc rdcu_write_cmd_compr_data_buf_start_addr (REGISTER Compr_data_buf_start_addr) 4"

definition rdcu_sync_compr_data_buf_len :: "'w sync_op" where
  "rdcu_sync_compr_data_buf_len big alloc =
     rdcu_sync big alloc rdcu_write_cmd_compr_data_buf_len (REGISTER Compr_data_buf_len) 4"

definition rdcu_sync_used_param1 :: "'w sync_op" where
  "rdcu_sync_used_param1 big alloc =
     rdcu_sync big alloc rdcu_read_cmd_used_param1 (REGISTER Used_param1) 0"

definition rdcu_sync_used_param2 :: "'w sync_op" where
  "rdcu_sync_used_param2 big alloc =
     rdcu_sync big alloc rdcu_read_cmd_used_param2 (REGISTER Used_param2) 0"

definition rdcu_sync_compr_data_start_addr :: "'w sync_op" where
  "rdcu_sync_compr_data_start_addr big alloc =
     rdcu_sync big alloc rdcu_read_cmd_compr_data_start_addr (REGISTER Compr_data_start_addr) 0"

definition rdcu_sync_compr_data_size :: "'w sync_op" where
  "rdcu_sync_compr_data_size big alloc =
     rdcu_sync big alloc rdcu_read_cmd_compr_data_size (REGISTER Compr_data_size) 0"

definition rdcu_sync_compr_data_adaptive_1_size :: "'w sync_op" where
  "rdcu_sync_compr_data_adaptive_1_size big alloc =
     rdcu_sync big alloc rdcu_read_cmd_compr_data_adaptive_1_size (REGISTER Compr_data_adaptive_1_size) 0"

definition rdcu_sync_compr_data_adaptive_2_size :: "'w sync_op" where
  "rdcu_sync_compr_data_adaptive_2_size big alloc =
     rdcu_sync big alloc rdcu_read_cmd_compr_data_adaptive_2_size (REGISTER Compr_data_adaptive_2_size) 0"

definition rdcu_sync_compr_error :: "'w sync_op" where
  "rdcu_sync_compr_error big alloc =
     rdcu_sync big alloc rdcu_read_cmd_compr_error (REGISTER Compr_error) 0"

definition rdcu_sync_new_model_addr_used :: "'w sync_op" where
  "rdcu_sync_new_model_addr_used big alloc =
     rdcu_sync big alloc rdcu_read_cmd_new_model_addr_used (REGISTER New_model_addr_used) 0"

definition rdcu_sync_samples_used :: "'w sync_op" where
  "rdcu_sync_samples_used big alloc =
     rdcu_sync big alloc rdcu_read_cmd_samples_used (REGISTER Samples_used) 0"

definition rdcu_sync_sram_edac_ctrl :: "'w sync_op" where
  "rdcu_sync_sram_edac_ctrl big alloc =
     rdcu_sync big alloc rdcu_write_cmd_sram_edac_ctrl (REGISTER Sram_edac_ctrl) 4"

definition rdcu_sync_sram_edac_status :: "'w sync_op" where
  "rdcu_sync_sram_edac_status big alloc =
     rdcu_sync big alloc rdcu_read_cmd_sram_edac_status (REGISTER Sram_edac_status) 0"

lemmas register_sync_defs =
  rdcu_sync_fpga_version_def
  rdcu_sync_rdcu_status_def
  rdcu_sync_lvds_core_status_def
  rdcu_sync_spw_link_status_def
  rdcu_sync_spw_err_cntrs_def
  rdcu_sync_rmap_last_err_def
  rdcu_sync_rmap_no_reply_err_cntrs_def
  rdcu_sync_rmap_pckt_err_cntrs_def
  rdcu_sync_adc_status_def
  rdcu_sync_compr_status_def
  rdcu_sync_rdcu_reset_def
  rdcu_sync_spw_link_ctrl_def
  rdcu_sync_lvds_ctrl_def
  rdcu_sync_core_ctrl_def
  rdcu_sync_adc_ctrl_def
  rdcu_sync_compr_ctrl_def
  rdcu_sync_compressor_param1_def
  rdcu_sync_compressor_param2_def
  rdcu_sync_adaptive_param1_def
  rdcu_sync_adaptive_param2_def
  rdcu_sync_data_start_addr_def
  rdcu_sync_model_start_addr_def
  rdcu_sync_num_samples_def
  rdcu_sync_new_model_start_addr_def
  rdcu_sync_compr_data_buf_start_addr_def
  rdcu_sync_compr_data_buf_len_def
  rdcu_sync_used_param1_def
  rdcu_sync_used_param2_def
  rdcu_sync_compr_data_start_addr_def
  rdcu_sync_compr_data_size_def
  rdcu_sync_compr_data_adaptive_1_size_def
  rdcu_sync_compr_data_adaptive_2_size_def
  rdcu_sync_compr_error_def
  rdcu_sync_new_model_addr_used_def
  rdcu_sync_samples_used_def
  rdcu_sync_sram_edac_ctrl_def
  rdcu_sync_sram_edac_status_def

text \<open>The identifier is compared with the characters '1' to '4'.\<close>

definition rdcu_sync_adc_values :: "int \<Rightarrow> 'w sync_op" where
  "rdcu_sync_adc_values i big alloc st =
     (if i = 49 then rdcu_sync big alloc rdcu_read_cmd_adc_values_1 (REGISTER Adc_values_1) 0 st
      else if i = 50 then rdcu_sync big alloc rdcu_read_cmd_adc_values_2 (REGISTER Adc_values_2) 0 st
      else if i = 51 then rdcu_sync big alloc rdcu_read_cmd_adc_values_3 (REGISTER Adc_values_3) 0 st
      else if i = 52 then rdcu_sync big alloc rdcu_read_cmd_adc_values_4 (REGISTER Adc_values_4) 0 st
      else Some (-1, st))"

section \<open>Transfers of the SRAM\<close>

text \<open>The checks of the arguments of both transfers.\<close>

definition transfer_args_invalid :: "u32 \<Rightarrow> u32 \<Rightarrow> u32 \<Rightarrow> bool" where
  "transfer_args_invalid addr n_bytes mtu \<longleftrightarrow>
     mtu AND 0x3 \<noteq> 0 \<or> addr AND 0x3 \<noteq> 0 \<or> n_bytes AND 0x3 \<noteq> 0 \<or> outside_sram addr n_bytes"

text \<open>The first loop: units of \<open>mtu\<close> bytes. \<open>Inl\<close> is the return value on an error, \<open>Inr\<close> what the second
  loop starts with.\<close>

partial_function (option) send_units ::
  "bool \<Rightarrow> malloc \<Rightarrow> u32 \<Rightarrow> u32 \<Rightarrow> u32 \<Rightarrow> u32 \<Rightarrow> 'w rdcu_state \<Rightarrow>
    ((int + u32 \<times> u32) \<times> 'w rdcu_state) option" where
  [code]: "send_units big alloc addr mtu sent tx_bytes st =
     (if tx_bytes \<ge> mtu then
        Option.bind (rdcu_sync_data big alloc rdcu_write_cmd_data (addr + sent)
            (SRAM (unat (addr + sent))) mtu False st) (\<lambda>(ret, st).
          if ret > 0 then send_units big alloc addr mtu sent tx_bytes st
          else if ret < 0 then Some (Inl (-1), st)
          else send_units big alloc addr mtu (sent + mtu) (tx_bytes - mtu) st)
      else Some (Inr (sent, tx_bytes), st))"

text \<open>The second loop: what is left.\<close>

partial_function (option) send_rest ::
  "bool \<Rightarrow> malloc \<Rightarrow> u32 \<Rightarrow> u32 \<Rightarrow> u32 \<Rightarrow> 'w rdcu_state \<Rightarrow> (int \<times> 'w rdcu_state) option" where
  [code]: "send_rest big alloc addr sent tx_bytes st =
     (if tx_bytes \<noteq> 0 then
        Option.bind (rdcu_sync_data big alloc rdcu_write_cmd_data (addr + sent)
            (SRAM (unat (addr + sent))) tx_bytes False st) (\<lambda>(ret, st).
          if ret > 0 then send_rest big alloc addr sent tx_bytes st
          else if ret < 0 then Some (-1, st)
          else Some (0, st))
      else Some (0, st))"

definition rdcu_sync_mirror_to_sram :: "u32 \<Rightarrow> u32 \<Rightarrow> u32 \<Rightarrow> 'w sync_op" where
  "rdcu_sync_mirror_to_sram addr n_bytes mtu big alloc st =
     (if transfer_args_invalid addr n_bytes mtu then Some (-1, st)
      else do {
        (r, st) \<leftarrow> send_units big alloc addr mtu 0 n_bytes st;
        case r of
          Inl e \<Rightarrow> Some (e, st)
        | Inr (sent, tx_bytes) \<Rightarrow> send_rest big alloc addr sent tx_bytes st
      })"

text \<open>The wait for replies between two units of a read transfer.\<close>

partial_function (option) wait_pending :: "bool \<Rightarrow> malloc \<Rightarrow> 'w rdcu_state \<Rightarrow> 'w rdcu_state option" where
  [code]: "wait_pending big alloc st =
     Option.bind (rdcu_rmap_sync_status big alloc st) (\<lambda>(n, st).
       if n > 3 then wait_pending big alloc st else Some st)"

partial_function (option) receive_units ::
  "bool \<Rightarrow> malloc \<Rightarrow> u32 \<Rightarrow> u32 \<Rightarrow> u32 \<Rightarrow> u32 \<Rightarrow> 'w rdcu_state \<Rightarrow>
    ((int + u32 \<times> u32) \<times> 'w rdcu_state) option" where
  [code]: "receive_units big alloc addr mtu recv rx_bytes st =
     (if rx_bytes \<ge> mtu then
        Option.bind (rdcu_sync_data big alloc rdcu_read_cmd_data (addr + recv)
            (SRAM (unat (addr + recv))) mtu True st) (\<lambda>(ret, st).
          Option.bind (wait_pending big alloc st) (\<lambda>st.
            if ret > 0 then receive_units big alloc addr mtu recv rx_bytes st
            else if ret < 0 then Some (Inl (-1), st)
            else receive_units big alloc addr mtu (recv + mtu) (rx_bytes - mtu) st))
      else Some (Inr (recv, rx_bytes), st))"

partial_function (option) receive_rest ::
  "bool \<Rightarrow> malloc \<Rightarrow> u32 \<Rightarrow> u32 \<Rightarrow> u32 \<Rightarrow> 'w rdcu_state \<Rightarrow> (int \<times> 'w rdcu_state) option" where
  [code]: "receive_rest big alloc addr recv rx_bytes st =
     (if rx_bytes \<noteq> 0 then
        Option.bind (rdcu_sync_data big alloc rdcu_read_cmd_data (addr + recv)
            (SRAM (unat (addr + recv))) rx_bytes True st) (\<lambda>(ret, st).
          if ret > 0 then receive_rest big alloc addr recv rx_bytes st
          else if ret < 0 then Some (-1, st)
          else Some (0, st))
      else Some (0, st))"

definition rdcu_sync_sram_to_mirror :: "u32 \<Rightarrow> u32 \<Rightarrow> u32 \<Rightarrow> 'w sync_op" where
  "rdcu_sync_sram_to_mirror addr n_bytes mtu big alloc st =
     (if transfer_args_invalid addr n_bytes mtu then Some (-1, st)
      else do {
        (r, st) \<leftarrow> receive_units big alloc addr mtu 0 n_bytes st;
        case r of
          Inl e \<Rightarrow> Some (e, st)
        | Inr (recv, rx_bytes) \<Rightarrow> receive_rest big alloc addr recv rx_bytes st
      })"

end
