(* ===== verification/Cmp_Rdcu_Cfg.thy ===== *)
theory Cmp_Rdcu_Cfg
  imports Cmp_Entity Rdcu_Mirror
begin

unbundle bit_operations_syntax

text \<open>
  The configuration of the hardware compressor (\<open>lib/rdcu_compress/cmp_rdcu_cfg.c\<close>): its creation, the
  set-up of the buffers and of the imagette parameters, and the checks. The checks count the
  violations; a configuration is valid when the count is 0.

  The buffers of the configuration on the side of the ICU are pointers: NULL or an address with
  the bytes behind it.
\<close>

section \<open>The configuration with its buffers\<close>

record rdcu_cfg_bufs = rdcu_cfg +
  rc_input_buf :: "(nat \<times> buffer) option"
  rc_model_buf :: "(nat \<times> buffer) option"
  rc_icu_new_model_buf :: "(nat \<times> buffer) option"
  rc_icu_output_buf :: "(nat \<times> buffer) option"

abbreviation (input) "MAX_RDCU_ROUND \<equiv> 2 :: u32"
abbreviation (input) "MIN_IMA_GOLOMB_PAR \<equiv> 1 :: u32"
abbreviation (input) "MIN_IMA_SPILL \<equiv> 2 :: u32"
abbreviation (input) "IMA_SAM2BYT \<equiv> 2 :: u32"

text \<open>The value after \<open>memset(rcfg, 0, sizeof(*rcfg))\<close>.\<close>

definition rdcu_cfg_zero :: rdcu_cfg_bufs where
  "rdcu_cfg_zero = \<lparr>rc_samples = 0, rc_buffer_length = 0, rdcu_data_adr = 0, rdcu_model_adr = 0,
     rdcu_new_model_adr = 0, rdcu_buffer_adr = 0, rc_cmp_mode = CMP_MODE_RAW, rc_model_value = 0,
     rc_round = 0, rc_golomb_par = 0, rc_spill = 0, rc_ap1_golomb_par = 0, rc_ap1_spill = 0,
     rc_ap2_golomb_par = 0, rc_ap2_spill = 0, rc_input_buf = None, rc_model_buf = None,
     rc_icu_new_model_buf = None, rc_icu_output_buf = None\<rparr>"

section \<open>General parameters\<close>

definition rdcu_cfg_gen_pars_are_invalid :: "rdcu_cfg_bufs \<Rightarrow> int" where
  "rdcu_cfg_gen_pars_are_invalid rcfg =
     (if \<not> cmp_mode_is_supported (rc_cmp_mode rcfg) then 1 else 0) +
     (if rc_model_value rcfg > MAX_MODEL_VALUE then 1 else 0) +
     (if rc_round rcfg > MAX_RDCU_ROUND then 1 else 0)"

text \<open>The functions that change the configuration return the result and the configuration \<open>rcfg\<close>
  points to; a NULL pointer is \<open>None\<close>.\<close>

definition rdcu_cfg_create ::
  "rdcu_cfg_bufs option \<Rightarrow> cmp_mode \<Rightarrow> u32 \<Rightarrow> u32 \<Rightarrow> int \<times> rdcu_cfg_bufs option" where
  "rdcu_cfg_create rcfg mode model_val rnd =
     (case rcfg of None \<Rightarrow> (1, None)
      | Some _ \<Rightarrow>
          let c = rdcu_cfg_zero\<lparr>rc_cmp_mode := mode, rc_model_value := model_val, rc_round := rnd\<rparr> in
          (rdcu_cfg_gen_pars_are_invalid c, Some c))"

section \<open>Buffers\<close>

definition outside_sram_range :: "u32 \<Rightarrow> u32 \<Rightarrow> bool" where
  "outside_sram_range addr n_bytes \<longleftrightarrow>
     addr + n_bytes > RDCU_SRAM_START + RDCU_SRAM_SIZE \<or> addr > RDCU_SRAM_END \<or>
     n_bytes > RDCU_SRAM_SIZE"

definition buffers_overlap :: "u32 \<Rightarrow> u32 \<Rightarrow> u32 \<Rightarrow> u32 \<Rightarrow> bool" where
  "buffers_overlap start_a end_a start_b end_b \<longleftrightarrow> start_a < end_b \<and> end_a > start_b"

text \<open>The number of the conditions that hold: the checks of the source that increment the count.\<close>

definition count_errors :: "bool list \<Rightarrow> int" where
  "count_errors bs = int (length (filter id bs))"

definition updated_model_errors :: "rdcu_cfg_bufs \<Rightarrow> int" where
  "updated_model_errors rcfg =
     (let n = rc_samples rcfg * IMA_SAM2BYT; len = rc_buffer_length rcfg * IMA_SAM2BYT in
      count_errors
       [rdcu_new_model_adr rcfg AND 0x3 \<noteq> 0,
        outside_sram_range (rdcu_new_model_adr rcfg) n,
        buffers_overlap (rdcu_new_model_adr rcfg) (rdcu_new_model_adr rcfg + n)
          (rdcu_data_adr rcfg) (rdcu_data_adr rcfg + n),
        buffers_overlap (rdcu_new_model_adr rcfg) (rdcu_new_model_adr rcfg + n)
          (rdcu_buffer_adr rcfg) (rdcu_buffer_adr rcfg + len),
        buffers_overlap (rdcu_new_model_adr rcfg) (rdcu_new_model_adr rcfg + n)
          (rdcu_model_adr rcfg) (rdcu_model_adr rcfg + n)])"

definition model_buffer_errors :: "rdcu_cfg_bufs \<Rightarrow> int" where
  "model_buffer_errors rcfg =
     (let n = rc_samples rcfg * IMA_SAM2BYT; len = rc_buffer_length rcfg * IMA_SAM2BYT in
      count_errors
       [rc_model_buf rcfg \<noteq> None \<and>
          map_option fst (rc_model_buf rcfg) = map_option fst (rc_input_buf rcfg),
        rdcu_model_adr rcfg AND 0x3 \<noteq> 0,
        outside_sram_range (rdcu_model_adr rcfg) n,
        buffers_overlap (rdcu_model_adr rcfg) (rdcu_model_adr rcfg + n)
          (rdcu_data_adr rcfg) (rdcu_data_adr rcfg + n),
        buffers_overlap (rdcu_model_adr rcfg) (rdcu_model_adr rcfg + n)
          (rdcu_buffer_adr rcfg) (rdcu_buffer_adr rcfg + len)] +
      (if rdcu_model_adr rcfg \<noteq> rdcu_new_model_adr rcfg then updated_model_errors rcfg else 0))"

definition rdcu_cfg_buffers_is_invalid :: "rdcu_cfg_bufs \<Rightarrow> int" where
  "rdcu_cfg_buffers_is_invalid rcfg =
     (let n = rc_samples rcfg * IMA_SAM2BYT; len = rc_buffer_length rcfg * IMA_SAM2BYT in
      (if rc_cmp_mode rcfg = CMP_MODE_RAW then
         (if rc_buffer_length rcfg < rc_samples rcfg then 1 else 0) else 0) +
      count_errors
       [rdcu_data_adr rcfg AND 0x3 \<noteq> 0,
        rdcu_buffer_adr rcfg AND 0x3 \<noteq> 0,
        outside_sram_range (rdcu_data_adr rcfg) n,
        outside_sram_range (rdcu_buffer_adr rcfg) len,
        buffers_overlap (rdcu_data_adr rcfg) (rdcu_data_adr rcfg + n)
          (rdcu_buffer_adr rcfg) (rdcu_buffer_adr rcfg + len)] +
      (if model_mode_is_used (rc_cmp_mode rcfg) then model_buffer_errors rcfg else 0))"

definition rdcu_cfg_buffers ::
  "rdcu_cfg_bufs option \<Rightarrow> (nat \<times> buffer) option \<Rightarrow> u32 \<Rightarrow> (nat \<times> buffer) option \<Rightarrow>
    u32 \<Rightarrow> u32 \<Rightarrow> u32 \<Rightarrow> u32 \<Rightarrow> u32 \<Rightarrow> int \<times> rdcu_cfg_bufs option" where
  "rdcu_cfg_buffers rcfg data_to_compress data_samples model_of_data data_adr model_adr
     new_model_adr buffer_adr buffer_len =
     (case rcfg of None \<Rightarrow> (-1, None)
      | Some c \<Rightarrow>
          let c = c\<lparr>rc_input_buf := data_to_compress, rc_samples := data_samples,
            rc_model_buf := model_of_data, rdcu_data_adr := data_adr, rdcu_model_adr := model_adr,
            rdcu_new_model_adr := new_model_adr, rdcu_buffer_adr := buffer_adr,
            rc_buffer_length := buffer_len\<rparr> in
          (rdcu_cfg_buffers_is_invalid c, Some c))"

section \<open>Imagette parameters\<close>

definition rdcu_cfg_golomb_spill_are_invalid :: "u32 \<Rightarrow> u32 \<Rightarrow> int" where
  "rdcu_cfg_golomb_spill_are_invalid golomb_par spill =
     (if golomb_par < MIN_IMA_GOLOMB_PAR \<or> golomb_par > MAX_IMA_GOLOMB_PAR then 1 else 0) +
     (if spill < MIN_IMA_SPILL then 1 else 0) +
     (if spill > cmp_ima_max_spill golomb_par then 1 else 0)"

definition rdcu_cfg_imagette_is_invalid :: "rdcu_cfg_bufs \<Rightarrow> int" where
  "rdcu_cfg_imagette_is_invalid rcfg =
     rdcu_cfg_golomb_spill_are_invalid (rc_golomb_par rcfg) (rc_spill rcfg) +
     rdcu_cfg_golomb_spill_are_invalid (rc_ap1_golomb_par rcfg) (rc_ap1_spill rcfg) +
     rdcu_cfg_golomb_spill_are_invalid (rc_ap2_golomb_par rcfg) (rc_ap2_spill rcfg)"

definition rdcu_cfg_imagette ::
  "rdcu_cfg_bufs option \<Rightarrow> u32 \<Rightarrow> u32 \<Rightarrow> u32 \<Rightarrow> u32 \<Rightarrow> u32 \<Rightarrow> u32 \<Rightarrow> int \<times> rdcu_cfg_bufs option" where
  "rdcu_cfg_imagette rcfg golomb_par spillover ap1_golomb_par ap1_spillover_par
     ap2_golomb_par ap2_spillover_par =
     (case rcfg of None \<Rightarrow> (-1, None)
      | Some c \<Rightarrow>
          let c = c\<lparr>rc_golomb_par := golomb_par, rc_spill := spillover,
            rc_ap1_golomb_par := ap1_golomb_par, rc_ap1_spill := ap1_spillover_par,
            rc_ap2_golomb_par := ap2_golomb_par, rc_ap2_spill := ap2_spillover_par\<rparr> in
          (rdcu_cfg_imagette_is_invalid c, Some c))"

definition rdcu_cfg_imagette_default :: "rdcu_cfg_bufs option \<Rightarrow> int \<times> rdcu_cfg_bufs option" where
  "rdcu_cfg_imagette_default rcfg =
     (case rcfg of None \<Rightarrow> (-1, None)
      | Some c \<Rightarrow>
          if model_mode_is_used (rc_cmp_mode c) then rdcu_cfg_imagette rcfg 4 48 3 35 5 60
          else rdcu_cfg_imagette rcfg 7 60 6 48 8 72)"

definition rdcu_cmp_cfg_is_invalid :: "rdcu_cfg_bufs option \<Rightarrow> int" where
  "rdcu_cmp_cfg_is_invalid rcfg =
     (case rcfg of None \<Rightarrow> -1
      | Some c \<Rightarrow>
          (if rc_buffer_length c = 0 then 1 else 0) + rdcu_cfg_gen_pars_are_invalid c +
          rdcu_cfg_buffers_is_invalid c + rdcu_cfg_imagette_is_invalid c)"

end
