(* ===== verification/Cmp_Rdcu.thy ===== *)
theory Cmp_Rdcu
  imports Rdcu_Sync Cmp_Rdcu_Cfg
begin

unbundle bit_operations_syntax

text \<open>
  The interface of the hardware compressor (\<open>lib/rdcu_compress/cmp_rdcu.c\<close>): a compression sets up the registers
  and the SRAM of the RDCU and starts the compressor; later calls read its status, the
  information about the compression, the bitstream and the updated model. The static variable
  \<open>interrupt_signal_enabled\<close> is an argument. Debug output is off (\<open>DEBUGLEVEL\<close> is 0), so the calls
  inside of the messages are not made.
\<close>

section \<open>Sequences of calls\<close>

type_synonym 'w step = "'w rdcu_state \<Rightarrow> (int \<times> 'w rdcu_state) option"

text \<open>Statements \<open>if (f()) return -1;\<close> one after the other, and their end \<open>return 0;\<close>.\<close>

fun run_steps :: "'w step list \<Rightarrow> 'w step" where
  "run_steps [] st = Some (0, st)"
| "run_steps (f # fs) st = do {
     (ret, st) \<leftarrow> f st;
     if ret \<noteq> 0 then Some (-1, st) else run_steps fs st
   }"

text \<open>A call of a setter of the mirror, with and without a result.\<close>

definition set_step :: "(rdcu_mirror \<Rightarrow> int \<times> rdcu_mirror) \<Rightarrow> 'w step" where
  "set_step f st = (case f (mirror st) of (ret, m) \<Rightarrow> Some (ret, st\<lparr>mirror := m\<rparr>))"

definition do_step :: "(rdcu_mirror \<Rightarrow> rdcu_mirror) \<Rightarrow> 'w step" where
  "do_step f st = Some (0, st\<lparr>mirror := f (mirror st)\<rparr>)"

section \<open>Synchronisation\<close>

text \<open>The loop ends when no transaction is pending or in its twelfth turn.\<close>

fun syncing_loop :: "bool \<Rightarrow> malloc \<Rightarrow> nat \<Rightarrow> 'w rdcu_state \<Rightarrow> 'w rdcu_state option" where
  "syncing_loop big alloc k st = do {
     (n, st) \<leftarrow> rdcu_rmap_sync_status big alloc st;
     if n = 0 then Some st
     else case k of 0 \<Rightarrow> Some st | Suc k \<Rightarrow> syncing_loop big alloc k st
   }"

declare syncing_loop.simps [simp del]

definition rdcu_syncing :: "bool \<Rightarrow> malloc \<Rightarrow> 'w step" where
  "rdcu_syncing big alloc st = do {
     st \<leftarrow> syncing_loop big alloc 11 st;
     Some (0, st)
   }"

definition rdcu_interrupt_compression :: "'w sync_op" where
  "rdcu_interrupt_compression big alloc =
     run_steps
       [do_step rdcu_set_data_compr_interrupt,
        rdcu_sync_compr_ctrl big alloc,
        rdcu_syncing big alloc,
        do_step rdcu_clear_data_compr_interrupt]"

section \<open>A compression\<close>

text \<open>The interrupt after a raw compression; its result is ignored.\<close>

definition interrupt_after_raw :: "'w sync_op" where
  "interrupt_after_raw big alloc st =
     (if rdcu_get_compression_mode (mirror st) = cmp_mode_value CMP_MODE_RAW then do {
        (_, st) \<leftarrow> rdcu_interrupt_compression big alloc st;
        Some (0, st)
      } else Some (0, st))"

text \<open>The parameters of the configuration go to the mirror, and from there to the RDCU.\<close>

definition set_parameters :: "rdcu_cfg_bufs \<Rightarrow> 'w step list" where
  "set_parameters c =
     [set_step (rdcu_set_compression_mode (cmp_mode_value (rc_cmp_mode c))),
      set_step (rdcu_set_golomb_param (rc_golomb_par c)),
      set_step (rdcu_set_spillover_threshold (rc_spill c)),
      set_step (rdcu_set_weighting_param (rc_model_value c)),
      set_step (rdcu_set_noise_bits_rounded (rc_round c)),
      set_step (rdcu_set_adaptive_1_golomb_param (rc_ap1_golomb_par c)),
      set_step (rdcu_set_adaptive_1_spillover_threshold (rc_ap1_spill c)),
      set_step (rdcu_set_adaptive_2_golomb_param (rc_ap2_golomb_par c)),
      set_step (rdcu_set_adaptive_2_spillover_threshold (rc_ap2_spill c)),
      set_step (rdcu_set_data_start_addr (rdcu_data_adr c)),
      set_step (rdcu_set_model_start_addr (rdcu_model_adr c)),
      set_step (rdcu_set_num_samples (rc_samples c)),
      set_step (rdcu_set_new_model_start_addr (rdcu_new_model_adr c)),
      set_step (rdcu_set_compr_data_buf_start_addr (rdcu_buffer_adr c)),
      set_step (rdcu_set_compr_data_buf_len (rc_buffer_length c))]"

definition sync_parameters :: "bool \<Rightarrow> malloc \<Rightarrow> 'w step list" where
  "sync_parameters big alloc =
     [rdcu_sync_compressor_param1 big alloc,
      rdcu_sync_compressor_param2 big alloc,
      rdcu_sync_adaptive_param1 big alloc,
      rdcu_sync_adaptive_param2 big alloc,
      rdcu_sync_data_start_addr big alloc,
      rdcu_sync_model_start_addr big alloc,
      rdcu_sync_num_samples big alloc,
      rdcu_sync_new_model_start_addr big alloc,
      rdcu_sync_compr_data_buf_start_addr big alloc,
      rdcu_sync_compr_data_buf_len big alloc]"

definition rdcu_set_compression_register :: "rdcu_cfg_bufs option \<Rightarrow> 'w sync_op" where
  "rdcu_set_compression_register rcfg big alloc st =
     (if rdcu_cmp_cfg_is_invalid rcfg \<noteq> 0 then Some (-1, st)
      else case rcfg of None \<Rightarrow> None
      | Some c \<Rightarrow>
          run_steps
            ([rdcu_sync_used_param1 big alloc,
              rdcu_syncing big alloc,
              interrupt_after_raw big alloc] @
             set_parameters c @
             sync_parameters big alloc @
             [rdcu_syncing big alloc]) st)"

definition rdcu_start_compression :: "bool \<Rightarrow> 'w sync_op" where
  "rdcu_start_compression interrupt_signal_enabled big alloc =
     run_steps
       [do_step (if interrupt_signal_enabled then rdcu_set_rdcu_interrupt else rdcu_clear_rdcu_interrupt),
        do_step rdcu_set_data_compr_start,
        rdcu_sync_compr_ctrl big alloc,
        rdcu_syncing big alloc,
        do_step rdcu_clear_data_compr_start]"

text \<open>Copying a buffer of samples to the mirror of the SRAM and from there to the RDCU.\<close>

definition write_sram_step :: "bool \<Rightarrow> buffer option \<Rightarrow> u32 \<Rightarrow> u32 \<Rightarrow> 'w step" where
  "write_sram_step big buf addr n_bytes st = do {
     (ret, m) \<leftarrow> rdcu_write_sram_16 big buf addr n_bytes (mirror st);
     Some (if ret < 0 then -1 else 0, st\<lparr>mirror := m\<rparr>)
   }"

definition to_sram_step :: "u32 \<Rightarrow> u32 \<Rightarrow> 'w sync_op" where
  "to_sram_step addr n_bytes big alloc st =
     rdcu_sync_mirror_to_sram addr n_bytes (rdcu_get_data_mtu st) big alloc st"

definition transfer_samples :: "(nat \<times> buffer) option \<Rightarrow> u32 \<Rightarrow> u32 \<Rightarrow> 'w sync_op" where
  "transfer_samples buf addr n_samples big alloc =
     run_steps
       [write_sram_step big (map_option snd buf) addr (n_samples * 2),
        to_sram_step addr ((n_samples * 2 + 3) AND NOT 3) big alloc]"

definition rdcu_transfer_sram :: "rdcu_cfg_bufs \<Rightarrow> 'w sync_op" where
  "rdcu_transfer_sram rcfg big alloc =
     run_steps
       ((if rc_input_buf rcfg \<noteq> None
         then [transfer_samples (rc_input_buf rcfg) (rdcu_data_adr rcfg) (rc_samples rcfg) big alloc]
         else []) @
        (if rc_model_buf rcfg \<noteq> None \<and> model_mode_is_used (rc_cmp_mode rcfg)
         then [transfer_samples (rc_model_buf rcfg) (rdcu_model_adr rcfg) (rc_samples rcfg) big alloc]
         else []) @
        [rdcu_syncing big alloc])"

definition rdcu_compress_data :: "bool \<Rightarrow> rdcu_cfg_bufs option \<Rightarrow> 'w sync_op" where
  "rdcu_compress_data interrupt_signal_enabled rcfg big alloc =
     run_steps
       [rdcu_set_compression_register rcfg big alloc,
        \<lambda>st. case rcfg of None \<Rightarrow> None | Some c \<Rightarrow> rdcu_transfer_sram c big alloc st,
        rdcu_start_compression interrupt_signal_enabled big alloc]"

text \<open>The two functions that set the static variable: its new value.\<close>

definition rdcu_enable_interrput_signal :: bool where "rdcu_enable_interrput_signal = True"
definition rdcu_disable_interrput_signal :: bool where "rdcu_disable_interrput_signal = False"

section \<open>Status, information and results\<close>

record cmp_status =
  cmp_ready :: u8
  cmp_active :: u8
  data_valid :: u8
  cmp_interrupted :: u8
  rdcu_interrupt_en :: u8

definition status_of_mirror :: "rdcu_mirror \<Rightarrow> cmp_status" where
  "status_of_mirror m =
     \<lparr>cmp_ready = ucast (rdcu_get_data_compr_ready m),
      cmp_active = ucast (rdcu_get_data_compr_active m),
      data_valid = ucast (rdcu_get_compr_status_valid m),
      cmp_interrupted = ucast (rdcu_get_data_compr_interrupted m),
      rdcu_interrupt_en = ucast (rdcu_get_rdcu_interrupt_enabled m)\<rparr>"

text \<open>\<open>status\<close> and \<open>info\<close> are the structures the pointers point to, \<open>None\<close> for NULL.\<close>

definition rdcu_read_cmp_status ::
  "cmp_status option \<Rightarrow> bool \<Rightarrow> malloc \<Rightarrow> 'w rdcu_state \<Rightarrow> (int \<times> cmp_status option \<times> 'w rdcu_state) option" where
  "rdcu_read_cmp_status status big alloc st = do {
     (ret, st) \<leftarrow> run_steps [rdcu_sync_compr_status big alloc, rdcu_syncing big alloc] st;
     if ret \<noteq> 0 then Some (-1, status, st)
     else Some (0, map_option (\<lambda>_. status_of_mirror (mirror st)) status, st)
   }"

text \<open>The members of the information, with the correction for a raw compression of less than three
  samples.\<close>

definition info_of_mirror :: "rdcu_mirror \<Rightarrow> cmp_info" where
  "info_of_mirror m =
     (let mode = rdcu_get_compression_mode m;
          n = rdcu_get_samples_used m;
          fixed = mode = cmp_mode_value CMP_MODE_RAW \<and> n < 3 in
      \<lparr>cmp_mode_used = mode,
       spill_used = rdcu_get_spillover_threshold m,
       golomb_par_used = rdcu_get_golomb_param m,
       samples_used = n,
       cmp_size = (if fixed then n * IMA_SAM2BYT * 8 else rdcu_get_compr_data_size_bit m),
       ap1_cmp_size = (if fixed then n * IMA_SAM2BYT * 8 else rdcu_get_compr_data_adaptive_1_size_bit m),
       ap2_cmp_size = (if fixed then n * IMA_SAM2BYT * 8 else rdcu_get_compr_data_adaptive_2_size_bit m),
       rdcu_new_model_adr_used = rdcu_get_new_model_addr_used m,
       rdcu_cmp_adr_used = rdcu_get_compr_data_start_addr m,
       model_value_used = ucast (rdcu_get_weighting_param m),
       round_used = ucast (rdcu_get_noise_bits_rounded m),
       cmp_err = rdcu_get_compr_error m\<rparr>)"

definition rdcu_read_cmp_info ::
  "cmp_info option \<Rightarrow> bool \<Rightarrow> malloc \<Rightarrow> 'w rdcu_state \<Rightarrow> (int \<times> cmp_info option \<times> 'w rdcu_state) option" where
  "rdcu_read_cmp_info info big alloc st = do {
     (ret, st) \<leftarrow> run_steps
       [rdcu_sync_used_param1 big alloc,
        rdcu_sync_used_param2 big alloc,
        rdcu_sync_compr_data_start_addr big alloc,
        rdcu_sync_compr_data_size big alloc,
        rdcu_sync_compr_data_adaptive_1_size big alloc,
        rdcu_sync_compr_data_adaptive_2_size big alloc,
        rdcu_sync_compr_error big alloc,
        rdcu_sync_new_model_addr_used big alloc,
        rdcu_sync_samples_used big alloc,
        rdcu_syncing big alloc] st;
     if ret \<noteq> 0 then Some (-1, info, st)
     else Some (0, map_option (\<lambda>_. info_of_mirror (mirror st)) info, st)
   }"

definition cmp_bit_to_4byte :: "u32 \<Rightarrow> u32" where
  "cmp_bit_to_4byte cmp_size_bit = (cmp_bit_to_byte cmp_size_bit + 3) AND NOT 0x3"

text \<open>The end both readers share: the transfer from the RDCU, and the copy of the mirror to the
  buffer of the caller.\<close>

definition read_back ::
  "u32 \<Rightarrow> u32 \<Rightarrow> u32 \<Rightarrow> buffer \<Rightarrow> bool \<Rightarrow> malloc \<Rightarrow> 'w rdcu_state \<Rightarrow>
    (int \<times> buffer option \<times> 'w rdcu_state) option" where
  "read_back addr n_sync n_bytes buf big alloc st = do {
     (ret, st) \<leftarrow> run_steps
       [\<lambda>st. rdcu_sync_sram_to_mirror addr n_sync (rdcu_get_data_mtu st) big alloc st,
        rdcu_syncing big alloc] st;
     if ret \<noteq> 0 then Some (-1, Some buf, st)
     else do {
       (n, b) \<leftarrow> rdcu_read_sram (Some buf) addr n_bytes (mirror st);
       Some (n, b, st)
     }
   }"

definition rdcu_read_cmp_bitstream ::
  "cmp_info option \<Rightarrow> buffer option \<Rightarrow> bool \<Rightarrow> malloc \<Rightarrow> 'w rdcu_state \<Rightarrow>
    (int \<times> buffer option \<times> 'w rdcu_state) option" where
  "rdcu_read_cmp_bitstream info compressed_data big alloc st =
     (case info of None \<Rightarrow> Some (-1, compressed_data, st)
      | Some i \<Rightarrow>
          let s = cmp_bit_to_4byte (cmp_size i) in
          case compressed_data of
            None \<Rightarrow> Some (sint s, None, st)
          | Some buf \<Rightarrow> read_back (rdcu_cmp_adr_used i) s s buf big alloc st)"

definition rdcu_read_model ::
  "cmp_info option \<Rightarrow> buffer option \<Rightarrow> bool \<Rightarrow> malloc \<Rightarrow> 'w rdcu_state \<Rightarrow>
    (int \<times> buffer option \<times> 'w rdcu_state) option" where
  "rdcu_read_model info updated_model big alloc st =
     (case info of None \<Rightarrow> Some (-1, updated_model, st)
      | Some i \<Rightarrow>
          let s = samples_used i * IMA_SAM2BYT in
          case updated_model of
            None \<Rightarrow> Some (sint s, None, st)
          | Some buf \<Rightarrow> read_back (rdcu_new_model_adr_used i) ((s + 3) AND NOT 3) s buf big alloc st)"

section \<open>Injection of an error into the SRAM\<close>

definition check_die_addr :: "u32 \<Rightarrow> 'w step" where
  "check_die_addr die st =
     Some (if rdcu_edac_get_sub_chip_die_addr (mirror st) \<noteq> die then -1 else 0, st)"

text \<open>One turn of the first loop; the result of the setter of the address is ignored.\<close>

definition disable_edac :: "bool \<Rightarrow> malloc \<Rightarrow> u32 \<Rightarrow> 'w step list" where
  "disable_edac big alloc die =
     [do_step (\<lambda>m. snd (rdcu_edac_set_sub_chip_die_addr die m)),
      do_step rdcu_edac_set_ctrl_reg_write_op,
      do_step rdcu_edac_set_bypass,
      rdcu_sync_sram_edac_ctrl big alloc,
      rdcu_syncing big alloc,
      do_step rdcu_edac_set_ctrl_reg_read_op,
      rdcu_sync_sram_edac_ctrl big alloc,
      rdcu_syncing big alloc,
      rdcu_sync_sram_edac_status big alloc,
      rdcu_syncing big alloc,
      check_die_addr die,
      \<lambda>st. Some (if die \<noteq> 2 \<and> die \<noteq> 4 \<and> rdcu_edac_get_bypass_status (mirror st) = 0 then -1 else 0, st)]"

definition enable_edac :: "bool \<Rightarrow> malloc \<Rightarrow> u32 \<Rightarrow> 'w step list" where
  "enable_edac big alloc die =
     [set_step (rdcu_edac_set_sub_chip_die_addr die),
      do_step rdcu_edac_set_ctrl_reg_write_op,
      do_step rdcu_edac_clear_bypass,
      rdcu_sync_sram_edac_ctrl big alloc,
      rdcu_syncing big alloc,
      do_step rdcu_edac_set_ctrl_reg_read_op,
      rdcu_sync_sram_edac_ctrl big alloc,
      rdcu_syncing big alloc,
      rdcu_sync_sram_edac_status big alloc,
      rdcu_syncing big alloc,
      check_die_addr die,
      \<lambda>st. Some (if rdcu_edac_get_bypass_status (mirror st) = 1 then -1 else 0, st)]"

text \<open>Four bytes of the mirror are read, one bit of each is flipped, and they are written back.\<close>

definition flip_bits :: "u32 \<Rightarrow> 'w step" where
  "flip_bits addr st = do {
     (n, buf) \<leftarrow> rdcu_read_sram (Some [0, 0, 0, 0]) addr 4 (mirror st);
     if n < 0 then Some (-1, st)
     else do {
       b \<leftarrow> buf;
       (n, m) \<leftarrow> rdcu_write_sram (Some [b ! 0 XOR 1, b ! 1 XOR 2, b ! 2 XOR 4, b ! 3 XOR 8]) addr 4 (mirror st);
       Some (if n < 0 then -1 else 0, st\<lparr>mirror := m\<rparr>)
     }
   }"

definition rdcu_inject_edac_error :: "rdcu_cfg_bufs option \<Rightarrow> u32 \<Rightarrow> 'w sync_op" where
  "rdcu_inject_edac_error rcfg addr big alloc =
     run_steps
       ([rdcu_set_compression_register rcfg big alloc,
         \<lambda>st. case rcfg of None \<Rightarrow> None | Some c \<Rightarrow> rdcu_transfer_sram c big alloc st] @
        concat (map (disable_edac big alloc) [1, 2, 3, 4]) @
        [\<lambda>st. rdcu_sync_sram_to_mirror addr 4 (rdcu_get_data_mtu st) big alloc st,
         rdcu_syncing big alloc,
         flip_bits addr,
         to_sram_step addr 4 big alloc,
         rdcu_syncing big alloc] @
        concat (map (enable_edac big alloc) [1, 2, 3, 4]))"

end
