(* ===== verification/Rdcu_Invariant.thy ===== *)
theory Rdcu_Invariant
  imports Cmp_Rdcu
begin

text \<open>
  Invariants of the state of the RDCU library. An invariant that survives every change of the link,
  of the mirror and every grabbed or released slot survives every operation, from the processing
  of received packets up to a complete compression, whatever the link delivers. The interface
  is a locale; it is instantiated for the consistency of the transaction log and for the static
  settings.
\<close>

section \<open>The contract\<close>

locale rdcu_invariant =
  fixes I :: "'w rdcu_state \<Rightarrow> bool"
  assumes on_link: "I st \<Longrightarrow> I (st\<lparr>link := w\<rparr>)"
    and on_mirror: "I st \<Longrightarrow> I (st\<lparr>mirror := m\<rparr>)"
    and on_grab: "I st \<Longrightarrow> I (st\<lparr>trans_log := snd (trans_log_grab_slot a (trans_log st))\<rparr>)"
    and on_release: "I st \<Longrightarrow> I (st\<lparr>trans_log := trans_log_release_slot i (trans_log st)\<rparr>)"
begin

definition keeps :: "('w rdcu_state \<Rightarrow> (int \<times> 'w rdcu_state) option) \<Rightarrow> bool" where
  "keeps f \<longleftrightarrow> (\<forall>st ret st'. I st \<longrightarrow> f st = Some (ret, st') \<longrightarrow> I st')"

lemma keepsI: "(\<And>st ret st'. I st \<Longrightarrow> f st = Some (ret, st') \<Longrightarrow> I st') \<Longrightarrow> keeps f"
  by (auto simp: keeps_def)

lemma keepsD: "keeps f \<Longrightarrow> f st = Some (ret, st') \<Longrightarrow> I st \<Longrightarrow> I st'"
  by (auto simp: keeps_def)

section \<open>Packets\<close>

lemma process_packet_keeps:
  "process_packet big rp st = Some (b, st') \<Longrightarrow> I st \<Longrightarrow> I st'"
  by (auto simp: process_packet_def Let_def on_release on_mirror
      split: if_splits Option.bind_splits)

lemma process_rx_loop_keeps:
  "process_rx_loop big alloc rx cnt st = Some y \<Longrightarrow> I st \<longrightarrow> I (snd y)"
  by (rule process_rx_loop.raw_induct
      [where P = "\<lambda>big alloc rx cnt st y. I st \<longrightarrow> I (snd y)", rotated])
    (auto simp: Let_def on_link dest: process_packet_keeps
      split: prod.splits if_splits option.splits Option.bind_splits)

lemma process_rx_keeps: "keeps (rdcu_process_rx big alloc)"
  by (rule keepsI) (auto simp: rdcu_process_rx_def dest: process_rx_loop_keeps split: option.splits)

lemma sync_status_keeps: "keeps (rdcu_rmap_sync_status big alloc)"
  by (rule keepsI)
    (auto simp: rdcu_rmap_sync_status_def dest: keepsD [OF process_rx_keeps] split: Option.bind_splits)

lemma submit_tx_keeps: "keeps (rdcu_submit_tx big alloc cmd k data n)"
  by (rule keepsI)
    (auto simp: rdcu_submit_tx_def on_link dest!: keepsD [OF process_rx_keeps]
      split: Option.bind_splits option.splits prod.splits)

lemma grab_keeps: "trans_log_grab_slot a (trans_log st) = (i, log) \<Longrightarrow> I st \<Longrightarrow> I (st\<lparr>trans_log := log\<rparr>)"
  using on_grab [of st a] by simp

section \<open>Synchronisation\<close>

lemma sync_keeps: "keeps (rdcu_sync big alloc fn a n)"
  by (rule keepsI)
    (auto simp: rdcu_sync_def Let_def dest: keepsD [OF submit_tx_keeps] grab_keeps
      split: Option.bind_splits sum.splits prod.splits if_splits)

lemma sync_data_keeps: "keeps (rdcu_sync_data big alloc fn addr data n is_read)"
  by (rule keepsI)
    (auto simp: rdcu_sync_data_def Let_def dest: keepsD [OF submit_tx_keeps] grab_keeps
      dest!: keepsD [OF process_rx_keeps]
      split: Option.bind_splits sum.splits prod.splits if_splits)

lemma send_units_keeps:
  "send_units big alloc addr mtu sent tx st = Some y \<Longrightarrow> I st \<longrightarrow> I (snd y)"
  by (rule send_units.raw_induct
      [where P = "\<lambda>big alloc addr mtu sent tx st y. I st \<longrightarrow> I (snd y)", rotated])
    (auto dest: keepsD [OF sync_data_keeps] split: prod.splits if_splits Option.bind_splits)

lemma send_rest_keeps:
  "send_rest big alloc addr sent tx st = Some y \<Longrightarrow> I st \<longrightarrow> I (snd y)"
  by (rule send_rest.raw_induct
      [where P = "\<lambda>big alloc addr sent tx st y. I st \<longrightarrow> I (snd y)", rotated])
    (auto dest: keepsD [OF sync_data_keeps] split: prod.splits if_splits Option.bind_splits)

lemma mirror_to_sram_keeps: "keeps (rdcu_sync_mirror_to_sram addr n mtu big alloc)"
  by (rule keepsI)
    (auto simp: rdcu_sync_mirror_to_sram_def dest!: send_units_keeps send_rest_keeps
      split: Option.bind_splits sum.splits prod.splits if_splits)

lemma wait_pending_keeps: "wait_pending big alloc st = Some st' \<Longrightarrow> I st \<longrightarrow> I st'"
  by (rule wait_pending.raw_induct [where P = "\<lambda>big alloc st y. I st \<longrightarrow> I y", rotated])
    (auto dest: keepsD [OF sync_status_keeps] split: prod.splits if_splits Option.bind_splits)

lemma receive_units_keeps:
  "receive_units big alloc addr mtu recv rx st = Some y \<Longrightarrow> I st \<longrightarrow> I (snd y)"
  by (rule receive_units.raw_induct
      [where P = "\<lambda>big alloc addr mtu recv rx st y. I st \<longrightarrow> I (snd y)", rotated])
    (auto dest: keepsD [OF sync_data_keeps] wait_pending_keeps
      split: prod.splits if_splits Option.bind_splits)

lemma receive_rest_keeps:
  "receive_rest big alloc addr recv rx st = Some y \<Longrightarrow> I st \<longrightarrow> I (snd y)"
  by (rule receive_rest.raw_induct
      [where P = "\<lambda>big alloc addr recv rx st y. I st \<longrightarrow> I (snd y)", rotated])
    (auto dest: keepsD [OF sync_data_keeps] split: prod.splits if_splits Option.bind_splits)

lemma sram_to_mirror_keeps: "keeps (rdcu_sync_sram_to_mirror addr n mtu big alloc)"
  by (rule keepsI)
    (auto simp: rdcu_sync_sram_to_mirror_def dest!: receive_units_keeps receive_rest_keeps
      split: Option.bind_splits sum.splits prod.splits if_splits)

section \<open>The compressor interface\<close>

lemma register_syncs_keep:
  "keeps (rdcu_sync_fpga_version big alloc)"
  "keeps (rdcu_sync_rdcu_status big alloc)"
  "keeps (rdcu_sync_lvds_core_status big alloc)"
  "keeps (rdcu_sync_spw_link_status big alloc)"
  "keeps (rdcu_sync_spw_err_cntrs big alloc)"
  "keeps (rdcu_sync_rmap_last_err big alloc)"
  "keeps (rdcu_sync_rmap_no_reply_err_cntrs big alloc)"
  "keeps (rdcu_sync_rmap_pckt_err_cntrs big alloc)"
  "keeps (rdcu_sync_adc_status big alloc)"
  "keeps (rdcu_sync_compr_status big alloc)"
  "keeps (rdcu_sync_rdcu_reset big alloc)"
  "keeps (rdcu_sync_spw_link_ctrl big alloc)"
  "keeps (rdcu_sync_lvds_ctrl big alloc)"
  "keeps (rdcu_sync_core_ctrl big alloc)"
  "keeps (rdcu_sync_adc_ctrl big alloc)"
  "keeps (rdcu_sync_compr_ctrl big alloc)"
  "keeps (rdcu_sync_compressor_param1 big alloc)"
  "keeps (rdcu_sync_compressor_param2 big alloc)"
  "keeps (rdcu_sync_adaptive_param1 big alloc)"
  "keeps (rdcu_sync_adaptive_param2 big alloc)"
  "keeps (rdcu_sync_data_start_addr big alloc)"
  "keeps (rdcu_sync_model_start_addr big alloc)"
  "keeps (rdcu_sync_num_samples big alloc)"
  "keeps (rdcu_sync_new_model_start_addr big alloc)"
  "keeps (rdcu_sync_compr_data_buf_start_addr big alloc)"
  "keeps (rdcu_sync_compr_data_buf_len big alloc)"
  "keeps (rdcu_sync_used_param1 big alloc)"
  "keeps (rdcu_sync_used_param2 big alloc)"
  "keeps (rdcu_sync_compr_data_start_addr big alloc)"
  "keeps (rdcu_sync_compr_data_size big alloc)"
  "keeps (rdcu_sync_compr_data_adaptive_1_size big alloc)"
  "keeps (rdcu_sync_compr_data_adaptive_2_size big alloc)"
  "keeps (rdcu_sync_compr_error big alloc)"
  "keeps (rdcu_sync_new_model_addr_used big alloc)"
  "keeps (rdcu_sync_samples_used big alloc)"
  "keeps (rdcu_sync_sram_edac_ctrl big alloc)"
  "keeps (rdcu_sync_sram_edac_status big alloc)"
  by (simp_all add: register_sync_defs sync_keeps)

lemma adc_values_keeps: "keeps (rdcu_sync_adc_values i big alloc)"
  by (rule keepsI) (auto simp: rdcu_sync_adc_values_def dest: keepsD [OF sync_keeps] split: if_splits)

lemma run_steps_keeps: "list_all keeps fs \<Longrightarrow> keeps (run_steps fs)"
proof (induction fs)
  case (Cons f fs)
  then show ?case
    by (intro keepsI) (auto dest: keepsD split: Option.bind_splits prod.splits if_splits)
qed (simp add: keeps_def)

lemma set_step_keeps: "keeps (set_step f)"
  by (rule keepsI) (auto simp: set_step_def on_mirror split: prod.splits)

lemma do_step_keeps: "keeps (do_step f)"
  by (rule keepsI) (auto simp: do_step_def on_mirror)

lemma syncing_loop_keeps: "syncing_loop big alloc k st = Some st' \<Longrightarrow> I st \<Longrightarrow> I st'"
proof (induction k arbitrary: st)
  case 0
  then show ?case
    by (subst (asm) syncing_loop.simps)
      (auto dest: keepsD [OF sync_status_keeps] split: Option.bind_splits prod.splits if_splits)
next
  case (Suc k)
  then show ?case
    by (subst (asm) syncing_loop.simps)
      (auto dest: keepsD [OF sync_status_keeps] split: Option.bind_splits prod.splits if_splits)
qed

lemma syncing_keeps: "keeps (rdcu_syncing big alloc)"
  by (rule keepsI) (auto simp: rdcu_syncing_def dest: syncing_loop_keeps split: Option.bind_splits)

lemmas step_keeps = register_syncs_keep set_step_keeps do_step_keeps syncing_keeps

lemma interrupt_keeps: "keeps (rdcu_interrupt_compression big alloc)"
  unfolding rdcu_interrupt_compression_def
  by (rule run_steps_keeps) (simp add: step_keeps)

lemma interrupt_after_raw_keeps: "keeps (interrupt_after_raw big alloc)"
  by (rule keepsI)
    (auto simp: interrupt_after_raw_def dest: keepsD [OF interrupt_keeps]
      split: Option.bind_splits prod.splits if_splits)

lemma parameters_keep:
  "list_all keeps (set_parameters c)" "list_all keeps (sync_parameters big alloc)"
  by (simp_all add: set_parameters_def sync_parameters_def step_keeps)

lemma set_compression_register_keeps: "keeps (rdcu_set_compression_register rcfg big alloc)"
proof (rule keepsI)
  fix st ret st'
  assume "I st" and "rdcu_set_compression_register rcfg big alloc st = Some (ret, st')"
  then show "I st'"
    unfolding rdcu_set_compression_register_def
    by (auto simp del: run_steps.simps append_Cons simp: step_keeps interrupt_after_raw_keeps parameters_keep
      dest!: keepsD [OF run_steps_keeps, rotated] split: if_splits option.splits)
qed

lemma start_compression_keeps: "keeps (rdcu_start_compression enabled big alloc)"
  unfolding rdcu_start_compression_def
  by (rule run_steps_keeps) (simp add: step_keeps)

lemma transfer_samples_keeps: "keeps (transfer_samples buf addr n big alloc)"
proof -
  have "keeps (write_sram_step big b a k)" for b a k
    by (rule keepsI) (auto simp: write_sram_step_def on_mirror split: Option.bind_splits)
  moreover have "keeps (to_sram_step a k big alloc)" for a k
    by (rule keepsI) (auto simp: to_sram_step_def dest: keepsD [OF mirror_to_sram_keeps])
  ultimately show ?thesis
    unfolding transfer_samples_def by (intro run_steps_keeps) simp
qed

lemma transfer_sram_keeps: "keeps (rdcu_transfer_sram rcfg big alloc)"
  unfolding rdcu_transfer_sram_def
  by (rule run_steps_keeps) (simp add: step_keeps transfer_samples_keeps)

lemma transfer_of_cfg_keeps:
  "keeps (\<lambda>st. case rcfg of None \<Rightarrow> None | Some c \<Rightarrow> rdcu_transfer_sram c big alloc st)"
  by (cases rcfg) (auto simp: transfer_sram_keeps intro: keepsI)

lemma compress_data_keeps: "keeps (rdcu_compress_data enabled rcfg big alloc)"
  unfolding rdcu_compress_data_def
  by (rule run_steps_keeps)
    (simp add: set_compression_register_keeps transfer_of_cfg_keeps start_compression_keeps)

lemma read_cmp_status_keeps:
  "rdcu_read_cmp_status status big alloc st = Some (ret, status', st') \<Longrightarrow> I st \<Longrightarrow> I st'"
  using keepsD [OF run_steps_keeps [of "[rdcu_sync_compr_status big alloc, rdcu_syncing big alloc]"]]
  by (auto simp: rdcu_read_cmp_status_def step_keeps split: Option.bind_splits prod.splits if_splits
      simp del: run_steps.simps)

lemma read_cmp_info_keeps:
  "rdcu_read_cmp_info info big alloc st = Some (ret, info', st') \<Longrightarrow> I st \<Longrightarrow> I st'"
  unfolding rdcu_read_cmp_info_def
  by (auto simp del: run_steps.simps simp: step_keeps dest!: keepsD [OF run_steps_keeps, rotated]
      split: Option.bind_splits prod.splits if_splits)

lemma read_back_keeps:
  "read_back addr n k buf big alloc st = Some (ret, b, st') \<Longrightarrow> I st \<Longrightarrow> I st'"
proof -
  have "keeps (\<lambda>st. rdcu_sync_sram_to_mirror addr n (rdcu_get_data_mtu st) big alloc st)"
    by (rule keepsI) (auto dest: keepsD [OF sram_to_mirror_keeps])
  then show "read_back addr n k buf big alloc st = Some (ret, b, st') \<Longrightarrow> I st \<Longrightarrow> I st'"
    unfolding read_back_def
    by (auto simp del: run_steps.simps simp: step_keeps dest!: keepsD [OF run_steps_keeps, rotated]
        split: Option.bind_splits prod.splits if_splits)
qed

lemma read_cmp_bitstream_keeps:
  "rdcu_read_cmp_bitstream info buf big alloc st = Some (ret, b, st') \<Longrightarrow> I st \<Longrightarrow> I st'"
  by (auto simp: rdcu_read_cmp_bitstream_def Let_def dest: read_back_keeps split: option.splits)

lemma read_model_keeps:
  "rdcu_read_model info buf big alloc st = Some (ret, b, st') \<Longrightarrow> I st \<Longrightarrow> I st'"
  by (auto simp: rdcu_read_model_def Let_def dest: read_back_keeps split: option.splits)

lemma pure_step_keeps: "keeps (\<lambda>st. Some (f st, st))"
  by (simp add: keeps_def)

lemma inject_edac_error_keeps: "keeps (rdcu_inject_edac_error rcfg addr big alloc)"
proof -
  have "list_all keeps (disable_edac big alloc die)" "list_all keeps (enable_edac big alloc die)" for die
    by (simp_all add: disable_edac_def enable_edac_def step_keeps pure_step_keeps check_die_addr_def [abs_def])
  moreover have "keeps (\<lambda>st. rdcu_sync_sram_to_mirror addr 4 (rdcu_get_data_mtu st) big alloc st)"
    by (rule keepsI) (auto dest: keepsD [OF sram_to_mirror_keeps])
  moreover have "keeps (to_sram_step addr 4 big alloc)"
    by (rule keepsI) (auto simp: to_sram_step_def dest: keepsD [OF mirror_to_sram_keeps])
  moreover have "keeps (flip_bits addr)"
    by (rule keepsI) (auto simp: flip_bits_def on_mirror split: Option.bind_splits if_splits prod.splits)
  ultimately show ?thesis
    unfolding rdcu_inject_edac_error_def
    by (intro run_steps_keeps)
      (simp add: step_keeps set_compression_register_keeps transfer_of_cfg_keeps)
qed

end

section \<open>The transaction log\<close>

definition log_ok :: "trans_log \<Rightarrow> bool" where
  "log_ok log \<longleftrightarrow> length (in_use log) = TRANS_LOG_SIZE \<and> length (log_addr log) = TRANS_LOG_SIZE \<and>
     pending log = int (count_list (in_use log) True)"

lemma count_list_update:
  "i < length xs \<Longrightarrow> int (count_list (xs[i := b]) True) =
    int (count_list xs True) + (if b then 1 else 0) - (if xs ! i then 1 else 0)"
proof (induction xs arbitrary: i)
  case (Cons x xs)
  show ?case
  proof (cases i)
    case (Suc j)
    then show ?thesis using Cons.IH [of j] Cons.prems by (cases b; cases "xs ! j"; simp)
  qed simp
qed simp

lemma free_slot_Some:
  "free_slot k us = Some i \<Longrightarrow> k \<le> i \<and> i - k < length us \<and> \<not> us ! (i - k) \<and> (\<forall>j < i - k. us ! j)"
proof (induction us arbitrary: k)
  case (Cons u us)
  show ?case
  proof (cases u)
    case True
    then have ih: "Suc k \<le> i" "i - Suc k < length us" "\<not> us ! (i - Suc k)" "\<forall>j < i - Suc k. us ! j"
      using Cons.IH [of "Suc k"] Cons.prems by simp_all
    then have "i - k = Suc (i - Suc k)" by simp
    then show ?thesis using ih True by (auto simp: nth_Cons split: nat.splits)
  next
    case False
    then show ?thesis using Cons.prems by simp
  qed
qed simp

lemma free_slot_None: "free_slot k us = None \<longleftrightarrow> list_all id us"
  by (induction us arbitrary: k) auto

lemma log_ok_grab: "log_ok log \<Longrightarrow> log_ok (snd (trans_log_grab_slot a log))"
  by (auto simp: log_ok_def trans_log_grab_slot_def count_list_update dest!: free_slot_Some
      split: option.splits)

lemma log_ok_release: "log_ok log \<Longrightarrow> log_ok (trans_log_release_slot i log)"
  by (auto simp: log_ok_def trans_log_release_slot_def count_list_update)

lemma log_ok_init: "log_ok trans_log_init"
  by (simp add: log_ok_def trans_log_init_def numeral_eq_Suc)

lemma log_ok_reset:
  "length (log_addr (trans_log st)) = TRANS_LOG_SIZE \<Longrightarrow> log_ok (trans_log (rdcu_rmap_reset_log st))"
  by (simp add: log_ok_def rdcu_rmap_reset_log_def numeral_eq_Suc)

lemma pending_0_iff: "log_ok log \<Longrightarrow> pending log = 0 \<longleftrightarrow> list_all Not (in_use log)"
  by (auto simp: log_ok_def list_all_iff count_list_0_iff)

interpretation log: rdcu_invariant "\<lambda>st. log_ok (trans_log st)"
  by unfold_locales (simp_all add: log_ok_grab log_ok_release)

section \<open>The settings\<close>

definition settings :: "'w rdcu_state \<Rightarrow>
    (u8 \<times> u8 \<times> buffer option \<times> buffer option \<times> u8 \<times> u8 \<times> u8 \<times> u32) \<times>
    'w tx_function option \<times> 'w rx_function option" where
  "settings st = ((rdcu_addr st, icu_addr st, dpath st, rpath st, dpath_len st, rpath_len st,
     dst_key st, data_mtu st), rmap_tx st, rmap_rx st)"

interpretation settings: rdcu_invariant "\<lambda>st. settings st = c" for c
  by unfold_locales (simp_all add: settings_def)

end
