(* ===== verification/Rdcu_Cfg_Laws.thy ===== *)
theory Rdcu_Cfg_Laws
  imports Cmp_Rdcu_Cfg
begin

text \<open>
  What a valid configuration of the hardware compressor means: the parameters are in their ranges, and the
  buffers of the data, of the model, of the updated model and of the compressed data are inside
  of the SRAM, aligned, and do not overlap. The addresses and sizes are read as natural numbers
  here; the check itself works on 32-bit words, so that the size it sees is the one of the buffer
  only if the number of samples is below 2^31.
\<close>

section \<open>Counting\<close>

lemma count_errors_nonneg [simp]: "0 \<le> count_errors bs"
  by (simp add: count_errors_def)

lemma count_errors_0: "count_errors bs = 0 \<longleftrightarrow> list_all Not bs"
  by (simp add: count_errors_def list_all_iff filter_empty_conv)

lemma updated_model_errors_nonneg [simp]: "0 \<le> updated_model_errors c"
  by (simp add: updated_model_errors_def Let_def)

lemma model_buffer_errors_nonneg [simp]: "0 \<le> model_buffer_errors c"
  by (simp add: model_buffer_errors_def Let_def)

lemma checks_nonneg [simp]:
  "0 \<le> rdcu_cfg_gen_pars_are_invalid c" "0 \<le> rdcu_cfg_golomb_spill_are_invalid g s"
  "0 \<le> rdcu_cfg_imagette_is_invalid c" "0 \<le> rdcu_cfg_buffers_is_invalid c"
  by (simp_all add: rdcu_cfg_gen_pars_are_invalid_def rdcu_cfg_golomb_spill_are_invalid_def
      rdcu_cfg_imagette_is_invalid_def rdcu_cfg_buffers_is_invalid_def Let_def)

lemma rdcu_cmp_cfg_valid_iff:
  "rdcu_cmp_cfg_is_invalid (Some c) = 0 \<longleftrightarrow>
     rc_buffer_length c \<noteq> 0 \<and> rdcu_cfg_gen_pars_are_invalid c = 0 \<and>
     rdcu_cfg_buffers_is_invalid c = 0 \<and> rdcu_cfg_imagette_is_invalid c = 0"
  using checks_nonneg(1,3,4) [of c] by (auto simp: rdcu_cmp_cfg_is_invalid_def simp del: checks_nonneg)

lemma gen_pars_valid_iff:
  "rdcu_cfg_gen_pars_are_invalid c = 0 \<longleftrightarrow>
     cmp_mode_is_supported (rc_cmp_mode c) \<and> rc_model_value c \<le> 16 \<and> rc_round c \<le> 2"
  by (auto simp: rdcu_cfg_gen_pars_are_invalid_def MAX_MODEL_VALUE_def not_less)

lemma golomb_spill_valid_iff:
  "rdcu_cfg_golomb_spill_are_invalid g s = 0 \<longleftrightarrow>
     g \<noteq> 0 \<and> g \<le> 63 \<and> 2 \<le> s \<and> s \<le> cmp_ima_max_spill g"
  by (auto simp: rdcu_cfg_golomb_spill_are_invalid_def MAX_IMA_GOLOMB_PAR_def not_less)

lemma imagette_valid_iff:
  "rdcu_cfg_imagette_is_invalid c = 0 \<longleftrightarrow>
     rdcu_cfg_golomb_spill_are_invalid (rc_golomb_par c) (rc_spill c) = 0 \<and>
     rdcu_cfg_golomb_spill_are_invalid (rc_ap1_golomb_par c) (rc_ap1_spill c) = 0 \<and>
     rdcu_cfg_golomb_spill_are_invalid (rc_ap2_golomb_par c) (rc_ap2_spill c) = 0"
  using checks_nonneg(2) [of "rc_golomb_par c" "rc_spill c"]
    checks_nonneg(2) [of "rc_ap1_golomb_par c" "rc_ap1_spill c"]
    checks_nonneg(2) [of "rc_ap2_golomb_par c" "rc_ap2_spill c"]
  by (auto simp: rdcu_cfg_imagette_is_invalid_def simp del: checks_nonneg)

lemma LUT_MAX_RDCU_le: "list_all (\<lambda>x. x \<le> 0x3FF) LUT_MAX_RDCU"
  by (simp add: LUT_MAX_RDCU_def)

lemma cmp_ima_max_spill_le: "cmp_ima_max_spill g \<le> 0x3FF"
  using LUT_MAX_RDCU_le by (auto simp: cmp_ima_max_spill_def list_all_length)

section \<open>Buffers in the SRAM\<close>

lemma SRAM_SIZE: "RDCU_SRAM_SIZE = 0x800000" "unat RDCU_SRAM_SIZE = 2 ^ 23"
  by (simp_all add: RDCU_SRAM_SIZE_def)

lemma outside_sram_range_iff: "\<not> outside_sram_range a n \<longleftrightarrow>
    unat a < 2 ^ 23 \<and> unat a + unat n \<le> 2 ^ 23"
proof (cases "unat a < 2 ^ 23 \<and> unat n \<le> 2 ^ 23")
  case True
  then have "unat (a + n) = unat a + unat n" by (intro unat_add_small) simp
  then show ?thesis
    using True by (auto simp: outside_sram_range_def SRAM_SIZE(1) word_less_nat_alt)
next
  case False
  then show ?thesis by (auto simp: outside_sram_range_def SRAM_SIZE(1) word_less_nat_alt)
qed

lemma unat_double: "unat x < 2 ^ 31 \<Longrightarrow> unat (x * 2 :: u32) = 2 * unat x"
  by (simp add: unat_word_ariths)

text \<open>A block of bytes of the SRAM that starts at a multiple of 4, and its addresses.\<close>

definition sram_block :: "u32 \<Rightarrow> nat \<Rightarrow> bool" where
  "sram_block a n \<longleftrightarrow> unat a mod 4 = 0 \<and> unat a < 2 ^ 23 \<and> unat a + n \<le> 2 ^ 23"

definition block_bytes :: "u32 \<Rightarrow> nat \<Rightarrow> nat set" where
  "block_bytes a n = {unat a ..< unat a + n}"

text \<open>The block and the bytes of a buffer of \<open>k\<close> samples.\<close>

definition sram_buffer :: "u32 \<Rightarrow> u32 \<Rightarrow> bool" where
  "sram_buffer a k \<longleftrightarrow> unat a mod 4 = 0 \<and> unat a < 2 ^ 23 \<and> unat a + 2 * unat k \<le> 2 ^ 23"

definition sram_region :: "u32 \<Rightarrow> u32 \<Rightarrow> nat set" where
  "sram_region a k = {unat a ..< unat a + 2 * unat k}"

lemma sram_block_buffer:
  "unat k < 2 ^ 31 \<Longrightarrow> sram_block a (unat (k * 2)) = sram_buffer a k"
  "unat k < 2 ^ 31 \<Longrightarrow> block_bytes a (unat (k * 2)) = sram_region a k"
  by (simp_all add: sram_block_def sram_buffer_def block_bytes_def sram_region_def unat_double)

lemma blocks_disjoint:
  assumes "\<not> buffers_overlap a (a + n) b (b + l)"
    and "\<not> outside_sram_range a n" "\<not> outside_sram_range b l"
  shows "block_bytes a (unat n) \<inter> block_bytes b (unat l) = {}"
proof -
  note out = assms(2,3) [unfolded outside_sram_range_iff]
  have "unat (a + n) = unat a + unat n" "unat (b + l) = unat b + unat l"
    using out by (simp_all add: unat_add_small)
  then show ?thesis
    using assms(1) by (auto simp: buffers_overlap_def block_bytes_def word_less_nat_alt)
qed

lemma sram_blockI:
  "x AND 3 = 0 \<Longrightarrow> \<not> outside_sram_range x n \<Longrightarrow> sram_block x (unat n)"
  by (simp add: sram_block_def and_3_mod_4 outside_sram_range_iff)

lemma sram_buffer_words:
  assumes "sram_buffer a k"
  shows "a \<le> 0x00FFFFFF" "a AND 3 = 0" "k \<le> 0x00FFFFFF"
  using assms by (simp_all add: sram_buffer_def and_3_mod_4 word_le_nat_alt)

text \<open>The blocks a configuration uses, of \<open>n\<close> bytes, and \<open>l\<close> for the compressed data.\<close>

definition blocks_ok :: "nat \<Rightarrow> nat \<Rightarrow> rdcu_cfg_bufs \<Rightarrow> bool" where
  "blocks_ok n l c \<longleftrightarrow>
     (let data = block_bytes (rdcu_data_adr c) n; out = block_bytes (rdcu_buffer_adr c) l;
          model = block_bytes (rdcu_model_adr c) n; updated = block_bytes (rdcu_new_model_adr c) n in
      sram_block (rdcu_data_adr c) n \<and> sram_block (rdcu_buffer_adr c) l \<and> data \<inter> out = {} \<and>
      (rc_cmp_mode c = CMP_MODE_RAW \<longrightarrow> rc_samples c \<le> rc_buffer_length c) \<and>
      (model_mode_is_used (rc_cmp_mode c) \<longrightarrow>
        sram_block (rdcu_model_adr c) n \<and> model \<inter> data = {} \<and> model \<inter> out = {} \<and>
        sram_block (rdcu_new_model_adr c) n \<and> updated \<inter> data = {} \<and> updated \<inter> out = {} \<and>
        (rdcu_new_model_adr c = rdcu_model_adr c \<or> updated \<inter> model = {})))"

text \<open>The same in samples: what the program means to check.\<close>

definition buffers_ok :: "rdcu_cfg_bufs \<Rightarrow> bool" where
  "buffers_ok c \<longleftrightarrow>
     (let n = rc_samples c; l = rc_buffer_length c;
          data = sram_region (rdcu_data_adr c) n; out = sram_region (rdcu_buffer_adr c) l;
          model = sram_region (rdcu_model_adr c) n; updated = sram_region (rdcu_new_model_adr c) n in
      sram_buffer (rdcu_data_adr c) n \<and> sram_buffer (rdcu_buffer_adr c) l \<and> data \<inter> out = {} \<and>
      (rc_cmp_mode c = CMP_MODE_RAW \<longrightarrow> n \<le> l) \<and>
      (model_mode_is_used (rc_cmp_mode c) \<longrightarrow>
        sram_buffer (rdcu_model_adr c) n \<and> model \<inter> data = {} \<and> model \<inter> out = {} \<and>
        sram_buffer (rdcu_new_model_adr c) n \<and> updated \<inter> data = {} \<and> updated \<inter> out = {} \<and>
        (rdcu_new_model_adr c = rdcu_model_adr c \<or> updated \<inter> model = {})))"

lemma sum_0: "0 \<le> x \<Longrightarrow> count_errors bs + x = 0 \<longleftrightarrow> list_all Not bs \<and> x = 0"
  using count_errors_nonneg [of bs] by (auto simp: count_errors_0 [symmetric] simp del: count_errors_nonneg)

lemma updated_model_valid_iff:
  "updated_model_errors c = 0 \<longleftrightarrow>
     rdcu_new_model_adr c AND 3 = 0 \<and>
     \<not> outside_sram_range (rdcu_new_model_adr c) (rc_samples c * 2) \<and>
     \<not> buffers_overlap (rdcu_new_model_adr c) (rdcu_new_model_adr c + rc_samples c * 2)
       (rdcu_data_adr c) (rdcu_data_adr c + rc_samples c * 2) \<and>
     \<not> buffers_overlap (rdcu_new_model_adr c) (rdcu_new_model_adr c + rc_samples c * 2)
       (rdcu_buffer_adr c) (rdcu_buffer_adr c + rc_buffer_length c * 2) \<and>
     \<not> buffers_overlap (rdcu_new_model_adr c) (rdcu_new_model_adr c + rc_samples c * 2)
       (rdcu_model_adr c) (rdcu_model_adr c + rc_samples c * 2)"
  by (simp add: updated_model_errors_def Let_def count_errors_0)

lemma model_buffer_valid_iff:
  "model_buffer_errors c = 0 \<longleftrightarrow>
     \<not> (rc_model_buf c \<noteq> None \<and> map_option fst (rc_model_buf c) = map_option fst (rc_input_buf c)) \<and>
     rdcu_model_adr c AND 3 = 0 \<and>
     \<not> outside_sram_range (rdcu_model_adr c) (rc_samples c * 2) \<and>
     \<not> buffers_overlap (rdcu_model_adr c) (rdcu_model_adr c + rc_samples c * 2)
       (rdcu_data_adr c) (rdcu_data_adr c + rc_samples c * 2) \<and>
     \<not> buffers_overlap (rdcu_model_adr c) (rdcu_model_adr c + rc_samples c * 2)
       (rdcu_buffer_adr c) (rdcu_buffer_adr c + rc_buffer_length c * 2) \<and>
     (rdcu_model_adr c \<noteq> rdcu_new_model_adr c \<longrightarrow> updated_model_errors c = 0)"
  by (simp add: model_buffer_errors_def Let_def sum_0 del: not_None_eq)

lemma buffers_valid_iff:
  "rdcu_cfg_buffers_is_invalid c = 0 \<longleftrightarrow>
     (rc_cmp_mode c = CMP_MODE_RAW \<longrightarrow> rc_samples c \<le> rc_buffer_length c) \<and>
     rdcu_data_adr c AND 3 = 0 \<and> rdcu_buffer_adr c AND 3 = 0 \<and>
     \<not> outside_sram_range (rdcu_data_adr c) (rc_samples c * 2) \<and>
     \<not> outside_sram_range (rdcu_buffer_adr c) (rc_buffer_length c * 2) \<and>
     \<not> buffers_overlap (rdcu_data_adr c) (rdcu_data_adr c + rc_samples c * 2)
       (rdcu_buffer_adr c) (rdcu_buffer_adr c + rc_buffer_length c * 2) \<and>
     (model_mode_is_used (rc_cmp_mode c) \<longrightarrow> model_buffer_errors c = 0)"
proof -
  have raw: "x + (count_errors bs + y) = 0 \<longleftrightarrow> x = 0 \<and> list_all Not bs \<and> y = 0"
    if "0 \<le> x" "0 \<le> y" for x y :: int and bs
    using that sum_0 [of y bs] count_errors_nonneg [of bs] by (auto simp del: count_errors_nonneg)
  show ?thesis
    by (simp add: rdcu_cfg_buffers_is_invalid_def Let_def add.assoc raw not_less) (auto simp: not_less)
qed

lemma valid_blocks_ok:
  assumes valid: "rdcu_cfg_buffers_is_invalid c = 0"
  shows "blocks_ok (unat (rc_samples c * 2)) (unat (rc_buffer_length c * 2)) c"
proof -
  note checks = buffers_valid_iff model_buffer_valid_iff updated_model_valid_iff
  show ?thesis
    using valid
    by (cases "model_mode_is_used (rc_cmp_mode c)"; cases "rdcu_model_adr c = rdcu_new_model_adr c")
      (simp_all add: checks blocks_ok_def Let_def blocks_disjoint sram_blockI del: not_None_eq)
qed

lemma valid_buffers_ok:
  assumes valid: "rdcu_cfg_buffers_is_invalid c = 0"
    and n: "unat (rc_samples c) < 2 ^ 31" "unat (rc_buffer_length c) < 2 ^ 31"
  shows "buffers_ok c"
  using valid_blocks_ok [OF valid] n by (simp add: blocks_ok_def buffers_ok_def Let_def sram_block_buffer)

end
