(* ===== verification/Rdcu_Link.thy ===== *)
theory Rdcu_Link
  imports Rdcu_Cmd_Laws Rdcu_Invariant Rdcu_Cfg_Laws
begin

unbundle bit_operations_syntax

text \<open>
  The RDCU library on a link: what is read from a received packet stays inside of it, the loop that
  processes received packets ends when the link has finitely many. A link delivers a list of packets
  when it answers the questions for the size of the next packet and for the packet itself with the
  packets of the list, one after the other, and then reports that none is left.
\<close>

section \<open>Reading a packet stays inside of it\<close>

lemma byte_at_Some: "i < length bs \<Longrightarrow> byte_at bs i = Some (bs ! i)"
  by (simp add: byte_at_def)

lemma min_hdr_sizes:
  "rmap_get_min_hdr_size p =
    (if ri_cmd_resp (rp_instruction p) then 15
     else if ri_cmd (rp_instruction p) AND RMAP_CMD_BIT_WRITE \<noteq> 0 then 7 else 11) \<or>
   rmap_get_min_hdr_size p = -1"
  using min_hdr_size_cases [of p] by (auto simp: length_hdr_tail)

lemma read_hdr_fields_Some:
  assumes "12 \<le> length bs"
    and "(if ri_cmd_resp (rp_instruction q) then 15 + n
      else if ri_cmd (rp_instruction q) AND RMAP_CMD_BIT_WRITE \<noteq> 0 then 7 + n else 11 + n) \<le> length bs"
  shows "\<exists>r. read_hdr_fields bs n q = Some r"
proof -
  have "\<exists>v. load_be 2 (5 + n) bs = Some (v :: u16)" using assms by (intro load_be_Some) (auto split: if_splits)
  moreover have "\<exists>v. load_be 4 (8 + n) bs = Some (v :: u32)" if "ri_cmd_resp (rp_instruction q)"
    using assms that by (intro load_be_Some) auto
  moreover have "\<exists>v. load_be 3 (8 + (n + 4)) bs = Some (v :: u32)" if "ri_cmd_resp (rp_instruction q)"
    using assms that by (intro load_be_Some) auto
  moreover have "\<exists>v. load_be 3 (8 + n) bs = Some (v :: u32)"
    if "\<not> ri_cmd_resp (rp_instruction q)" "ri_cmd (rp_instruction q) AND RMAP_CMD_BIT_WRITE = 0"
    using assms that by (intro load_be_Some) auto
  moreover have "byte_at bs (4 + n) = Some (bs ! (4 + n))" "byte_at bs 11 = Some (bs ! 11)"
    using assms by (auto intro!: byte_at_Some split: if_splits)
  ultimately show ?thesis
    by (fastforce simp: read_hdr_fields_def Let_def)
qed

lemma read_data_in_bounds: "unat len \<le> length bs \<Longrightarrow> \<exists>r. read_data alloc bs len n q = Some r"
  by (auto simp: read_data_def Let_def byte_at_def)

lemma read_reply_path_in_bounds:
  assumes len: "unat len \<le> length bs" and m: "m = 15"
  shows "\<exists>r. read_reply_path alloc bs len m q = Some r \<and>
    (\<forall>q' n. r = Some (q', n) \<longrightarrow> rp_instruction q' = rp_instruction q \<and>
      (if ri_cmd_resp (rp_instruction q) then 15 + n \<le> unat len else n = 0))"
proof -
  let ?w = "push_bit 2 (ri_reply_addr_len (rp_instruction q)) AND 0xFF"
  have "unat ?w \<le> 12" using ri_reply_addr_len_le [of "rp_instruction q"] by (simp add: reply_path_len)
  then have "unat (15 + ucast ?w :: u32) = 15 + unat ?w"
    by (simp add: unat_word_ariths unat_ucast_8_32)
  then show ?thesis
    using len m by (auto simp: read_reply_path_def Let_def word_less_nat_alt not_less)
qed

lemma rmap_pkt_from_buffer_in_bounds:
  assumes len: "unat len \<le> length bs" and 12: "12 \<le> length bs"
  shows "\<exists>r. rmap_pkt_from_buffer alloc (Some bs) len = Some r"
proof -
  have body: "\<exists>r. (if rmap_get_min_hdr_size q < 0 then Some None
      else if len < word_of_int (rmap_get_min_hdr_size q) then Some None
      else do {
        r \<leftarrow> read_reply_path alloc bs len (word_of_int (rmap_get_min_hdr_size q)) q;
        case r of None \<Rightarrow> Some None
        | Some (pkt, n) \<Rightarrow> do {
            (pkt, n) \<leftarrow> read_hdr_fields bs n pkt;
            read_data alloc bs len n pkt
          }
      }) = Some (r :: rmap_pkt option)" for q
  proof (cases "rmap_get_min_hdr_size q < 0 \<or> len < word_of_int (rmap_get_min_hdr_size q)")
    case False
    let ?cmd = "ri_cmd_resp (rp_instruction q)"
    have size: "rmap_get_min_hdr_size q =
      (if ?cmd then 15 else if ri_cmd (rp_instruction q) AND RMAP_CMD_BIT_WRITE \<noteq> 0 then 7 else 11)"
      using min_hdr_sizes [of q] False by auto
    obtain r where r: "read_reply_path alloc bs len (word_of_int (rmap_get_min_hdr_size q)) q = Some r"
      "\<forall>q' n. r = Some (q', n) \<longrightarrow> rp_instruction q' = rp_instruction q \<and>
        (if ?cmd then 15 + n \<le> unat len else n = 0)"
    proof (cases ?cmd)
      case True
      then show ?thesis using read_reply_path_in_bounds [OF len, of 15 alloc q] that size by auto
    qed (use that in \<open>simp add: read_reply_path_def\<close>)
    show ?thesis
    proof (cases r)
      case (Some qn)
      then obtain q' n where qn: "r = Some (q', n)" by (cases qn) auto
      have "\<exists>x. read_hdr_fields bs n q' = Some x"
        using r(2) qn len 12 size False
        by (intro read_hdr_fields_Some) (auto simp: word_less_nat_alt split: if_splits)
      then show ?thesis
        using False r(1) qn read_data_in_bounds [OF len] by (auto split: prod.splits)
    qed (use False r(1) in simp)
  qed auto
  have "byte_at bs 0 \<noteq> None" "byte_at bs 1 \<noteq> None" "byte_at bs 2 \<noteq> None" "byte_at bs 3 \<noteq> None"
    using 12 by (auto simp: byte_at_def)
  then show ?thesis
    using body by (auto simp: rmap_pkt_from_buffer_def Let_def split: option.splits)
qed

text \<open>What is returned has the data its length field announces, and they were inside of the packet.\<close>

definition has_its_data :: "u32 \<Rightarrow> rmap_pkt \<Rightarrow> bool" where
  "has_its_data len p \<longleftrightarrow> rp_data_len p = 0 \<or>
     (\<exists>d. rp_data p = Some d \<and> length d = unat (rp_data_len p) \<and> 13 + length d \<le> unat len)"

lemma read_data_has_its_data:
  "read_data alloc bs len n q = Some (Some p) \<Longrightarrow> unat len \<le> length bs \<Longrightarrow> has_its_data len p"
  by (auto simp: read_data_def has_its_data_def Let_def unat_eq_0 split: if_splits option.splits Option.bind_splits)

lemma rmap_pkt_from_buffer_data:
  "rmap_pkt_from_buffer alloc (Some bs) len = Some (Some p) \<Longrightarrow> unat len \<le> length bs \<Longrightarrow> has_its_data len p"
  by (auto simp: rmap_pkt_from_buffer_def Let_def dest: read_data_has_its_data
      split: if_splits option.splits Option.bind_splits prod.splits)

section \<open>Processing received packets ends\<close>

text \<open>The receiving side of a link that holds a queue of packets: asked for a size it gives the one
  of the first packet and keeps it, given a buffer that is large enough it copies the packet.\<close>

definition delivers :: "'w rx_function \<Rightarrow> ('w \<Rightarrow> buffer list) \<Rightarrow> bool" where
  "delivers rx queue \<longleftrightarrow>
     (\<forall>w. (case rx None w of (n, _, w') \<Rightarrow>
         n = (case queue w of [] \<Rightarrow> 0 | p # _ \<Rightarrow> word_of_nat (length p)) \<and> queue w' = queue w) \<and>
       (\<forall>b p ps. queue w = p # ps \<and> length p \<le> length b \<longrightarrow>
         (case rx (Some b) w of (n, b', w') \<Rightarrow>
            n = word_of_nat (length p) \<and> b' = Some (p @ drop (length p) b) \<and> queue w' = ps)))"

lemma delivers_None:
  "delivers rx queue \<Longrightarrow> rx None w = (n, b, w') \<Longrightarrow>
    n = (case queue w of [] \<Rightarrow> 0 | p # _ \<Rightarrow> word_of_nat (length p)) \<and> queue w' = queue w"
  by (fastforce simp: delivers_def split: prod.splits)

lemma delivers_Some:
  "delivers rx queue \<Longrightarrow> rx (Some b) w = (n, b', w') \<Longrightarrow> queue w = p # ps \<Longrightarrow> length p \<le> length b \<Longrightarrow>
    n = word_of_nat (length p) \<and> b' = Some (p @ drop (length p) b) \<and> queue w' = ps"
  unfolding delivers_def by (drule spec [of _ w], drule conjunct2) auto

text \<open>A block of memory has at least the size asked for.\<close>

definition enough :: "malloc \<Rightarrow> bool" where
  "enough alloc \<longleftrightarrow> (\<forall>k m. alloc k = Some m \<longrightarrow> k \<le> m)"

text \<open>Room for \<open>k\<close> bytes at a local address.\<close>

fun room_at :: "nat \<Rightarrow> local_addr \<Rightarrow> bool" where
  "room_at k NULL_ADDR \<longleftrightarrow> True"
| "room_at k (REGISTER r) \<longleftrightarrow> k div 4 \<le> length (registers_from r)"
| "room_at k (SRAM a) \<longleftrightarrow> a + k \<le> unat RDCU_SRAM_SIZE"

text \<open>
  A reply whose data would be copied and have no room at the local address of their transaction; a
  packet with such a reply, whatever is behind it in its block of memory.
\<close>

definition reply_overruns :: "bool \<Rightarrow> trans_log \<Rightarrow> rmap_pkt \<Rightarrow> bool" where
  "reply_overruns big log rp \<longleftrightarrow>
     (let addr = trans_log_get_addr (uint (rp_tr_id rp)) log in
      rp_data_len rp \<noteq> 0 \<and> rp_data_len rp AND 3 = 0 \<and>
      (\<exists>d. rp_data rp = Some d \<and> rmap_crc8 (Some (data_to_cpu big d)) = rp_data_crc rp) \<and>
      \<not> room_at (unat (rp_data_len rp)) addr)"

definition packet_overruns :: "bool \<Rightarrow> malloc \<Rightarrow> trans_log \<Rightarrow> buffer \<Rightarrow> bool" where
  "packet_overruns big alloc log p \<longleftrightarrow>
     (\<exists>behind rp. rmap_pkt_from_buffer alloc (Some (p @ behind)) (word_of_nat (length p)) = Some (Some rp) \<and>
       reply_overruns big log rp)"

text \<open>The log only forgets addresses while packets are processed.\<close>

definition log_shrinks :: "trans_log \<Rightarrow> trans_log \<Rightarrow> bool" where
  "log_shrinks log log' \<longleftrightarrow>
     (\<forall>i. trans_log_get_addr i log' = NULL_ADDR \<or> trans_log_get_addr i log' = trans_log_get_addr i log)"

lemma log_shrinks_refl [simp]: "log_shrinks log log"
  by (simp add: log_shrinks_def)

lemma log_shrinks_release:
  "length (in_use log) = TRANS_LOG_SIZE \<Longrightarrow> log_shrinks log (trans_log_release_slot i log)"
  by (auto simp: log_shrinks_def trans_log_release_slot_def trans_log_get_addr_def nth_list_update)

lemma packet_overruns_shrink:
  "packet_overruns big alloc log' p \<Longrightarrow> log_shrinks log log' \<Longrightarrow> packet_overruns big alloc log p"
  unfolding packet_overruns_def reply_overruns_def Let_def log_shrinks_def by (metis room_at.simps(1))

lemma room_at_less: "room_at k a \<Longrightarrow> n \<le> k \<Longrightarrow> room_at n a"
  by (cases a) (auto intro: order_trans [OF div_le_mono])

lemma length_release [simp]: "length (in_use (trans_log_release_slot i log)) = length (in_use log)"
  by (simp add: trans_log_release_slot_def)

lemma length_words_of_bytes [simp]: "length (words_of_bytes big d) = length d div 4"
  by (simp add: words_of_bytes_def)

lemma length_bytes_of_words [simp]: "length (bytes_of_words big ws) = 4 * length ws"
  by (induction ws) (simp_all add: bytes_of_words_def)

lemma length_data_to_cpu: "length d mod 4 = 0 \<Longrightarrow> length (data_to_cpu big d) = length d"
  by (auto simp: data_to_cpu_def)

lemma store_local_Some:
  "room_at (length d) a \<Longrightarrow> a \<noteq> NULL_ADDR \<Longrightarrow> length d mod 4 = 0 \<Longrightarrow> \<exists>m'. store_local big a d m = Some m'"
  by (cases a) (simp_all add: store_local_def store_sram_def)

lemma store_local_None:
  "\<not> room_at (length d) a \<Longrightarrow> store_local big a d m = None"
  by (cases a) (simp_all add: store_local_def store_sram_def)

text \<open>Processing a packet is defined unless the reply overruns its target.\<close>

lemma process_packet_iff:
  assumes p: "has_its_data len p"
  shows "process_packet big p st = None \<longleftrightarrow> reply_overruns big (trans_log st) p"
proof (cases "trans_log_get_addr (uint (rp_tr_id p)) (trans_log st) = NULL_ADDR \<or>
    rp_data_len p AND 3 \<noteq> 0 \<or> rp_data_len p = 0")
  case False
  then obtain d where d: "rp_data p = Some d" "length d = unat (rp_data_len p)"
    using p by (auto simp: has_its_data_def)
  have 4: "length d mod 4 = 0"
    using False d(2) by (simp add: and_3_mod_4)
  let ?a = "trans_log_get_addr (uint (rp_tr_id p)) (trans_log st)"
  have "store_local big ?a (data_to_cpu big d) (mirror st) = None \<longleftrightarrow> \<not> room_at (unat (rp_data_len p)) ?a"
    using False 4 d(2) store_local_Some [of "data_to_cpu big d" ?a big "mirror st"]
      store_local_None [of "data_to_cpu big d" ?a big "mirror st"]
    by (fastforce simp: length_data_to_cpu)
  then show ?thesis
    using False d(1) by (auto simp: process_packet_def reply_overruns_def Let_def)
qed (auto simp: process_packet_def reply_overruns_def Let_def)

text \<open>The state after a packet: the link is the same, and the log is consistent.\<close>

lemma process_packet_log:
  assumes "process_packet big p st = Some (go_on, st')"
    and "length (in_use (trans_log st)) = TRANS_LOG_SIZE"
  shows "link st' = link st" "length (in_use (trans_log st')) = TRANS_LOG_SIZE"
    "log_shrinks (trans_log st) (trans_log st')"
  using assms
  by (auto simp: process_packet_def Let_def log_shrinks_release
      split: if_splits Option.bind_splits)

text \<open>One turn of the loop, for the first packet of the queue.\<close>

lemma process_rx_loop_turn:
  assumes rx: "delivers rx queue" and alloc: "enough alloc"
    and q: "queue (link st) = p # ps" and p: "12 \<le> length p" "length p < 2 ^ 32"
    and block: "alloc (length p) = Some k"
  obtains w r where "queue w = ps"
    and "rmap_pkt_from_buffer alloc (Some (p @ replicate (k - length p) 0)) (word_of_nat (length p)) = Some r"
    and "process_rx_loop big alloc rx cnt st =
      (case r of None \<Rightarrow> process_rx_loop big alloc rx (cnt + 1) (st\<lparr>link := w\<rparr>)
       | Some rp \<Rightarrow> Option.bind (process_packet big rp (st\<lparr>link := w\<rparr>)) (\<lambda>(go_on, st).
           if go_on then process_rx_loop big alloc rx (cnt + 1) st else Some (-1, st)))"
proof -
  obtain n b w where peek: "rx None (link st) = (n, b, w)" by (cases "rx None (link st)") auto
  have n: "n = word_of_nat (length p)" and w: "queue w = p # ps"
    using delivers_None [OF rx peek] q by simp_all
  have un: "unat n = length p" using p by (simp add: n unat_of_nat_small)
  then have n0: "n \<noteq> 0" using p by auto
  have k: "length p \<le> k" using alloc block by (auto simp: enough_def)
  obtain n' b' w' where get: "rx (Some (replicate k 0)) w = (n', b', w')"
    by (cases "rx (Some (replicate k 0)) w") auto
  let ?b = "p @ replicate (k - length p) 0"
  have n': "n' = n" and b': "b' = Some ?b" and w': "queue w' = ps"
    using delivers_Some [OF rx get w] k n by simp_all
  obtain r where r: "rmap_pkt_from_buffer alloc (Some ?b) n = Some r"
    using rmap_pkt_from_buffer_in_bounds [of n ?b alloc] un p by auto
  show thesis
    by (rule that [OF w' r [unfolded n]])
      (use peek n0 un block get n' b' r in \<open>subst process_rx_loop.simps, simp add: Let_def\<close>)
qed

text \<open>The state after the packets: none overruns what is left of the log.\<close>

lemma process_rx_loop_ends:
  assumes rx: "delivers rx queue" and alloc: "enough alloc"
    and log: "length (in_use (trans_log st)) = TRANS_LOG_SIZE"
    and packets: "\<forall>p \<in> set (queue (link st)). 12 \<le> length p \<and> length p < 2 ^ 32 \<and>
      \<not> packet_overruns big alloc (trans_log st) p"
  shows "\<exists>ret st'. process_rx_loop big alloc rx cnt st = Some (ret, st') \<and>
    (ret = -1 \<or> ret = cnt + int (length (queue (link st))) \<and> queue (link st') = [])"
  using log packets
proof (induction "queue (link st)" arbitrary: st cnt)
  case Nil
  obtain n b w where peek: "rx None (link st) = (n, b, w)" by (cases "rx None (link st)") auto
  with delivers_None [OF rx peek] Nil.hyps show ?case
    by (subst process_rx_loop.simps) (simp add: Let_def)
next
  case (Cons p ps)
  have p: "12 \<le> length p" "length p < 2 ^ 32" "\<not> packet_overruns big alloc (trans_log st) p"
    and ps: "\<forall>p\<in>set ps. 12 \<le> length p \<and> length p < 2 ^ 32 \<and> \<not> packet_overruns big alloc (trans_log st) p"
    using Cons.prems(2) Cons.hyps(2) [symmetric] by auto
  have un: "unat (word_of_nat (length p) :: u32) = length p" using p by (simp add: unat_of_nat_small)
  show ?case
  proof (cases "alloc (length p)")
    case None
    obtain n b w where peek: "rx None (link st) = (n, b, w)" by (cases "rx None (link st)") auto
    have n: "n = word_of_nat (length p)"
      using delivers_None [OF rx peek] Cons.hyps(2) [symmetric] by simp
    then have "unat n = length p" using un by simp
    then have "n \<noteq> 0" using p by auto
    then show ?thesis using peek None n un by (subst process_rx_loop.simps) (simp add: Let_def)
  next
    case (Some k)
    obtain w r where w: "queue w = ps"
      and r: "rmap_pkt_from_buffer alloc (Some (p @ replicate (k - length p) 0)) (word_of_nat (length p)) = Some r"
      and loop: "process_rx_loop big alloc rx cnt st =
        (case r of None \<Rightarrow> process_rx_loop big alloc rx (cnt + 1) (st\<lparr>link := w\<rparr>)
         | Some rp \<Rightarrow> Option.bind (process_packet big rp (st\<lparr>link := w\<rparr>)) (\<lambda>(go_on, st).
             if go_on then process_rx_loop big alloc rx (cnt + 1) st else Some (-1, st)))"
      by (rule process_rx_loop_turn [OF rx alloc Cons.hyps(2) [symmetric] p(1,2) Some])
    show ?thesis
    proof (cases r)
      case None
      then show ?thesis
        using Cons.hyps(1) [of "st\<lparr>link := w\<rparr>" "cnt + 1"] Cons.prems(1) ps w Cons.hyps(2) [symmetric] loop
        by (simp add: algebra_simps)
    next
      case (Some rp)
      have "has_its_data (word_of_nat (length p)) rp"
        using rmap_pkt_from_buffer_data [OF r [unfolded Some]] un by simp
      moreover have "\<not> reply_overruns big (trans_log st) rp"
        using p(3) r Some by (auto simp: packet_overruns_def)
      ultimately obtain go_on st' where step: "process_packet big rp (st\<lparr>link := w\<rparr>) = Some (go_on, st')"
        using process_packet_iff [of "word_of_nat (length p)" rp big "st\<lparr>link := w\<rparr>"] by auto
      note log = process_packet_log [OF step, simplified, OF Cons.prems(1)]
      have "\<forall>p\<in>set ps. 12 \<le> length p \<and> length p < 2 ^ 32 \<and> \<not> packet_overruns big alloc (trans_log st') p"
        using ps packet_overruns_shrink [OF _ log(3)] by blast
      then show ?thesis
        using Cons.hyps(1) [of st' "cnt + 1"] log w Cons.hyps(2) [symmetric] loop Some step
        by (cases go_on) (simp_all add: algebra_simps)
    qed
  qed
qed

text \<open>A first reply that overruns its target is copied behind it.\<close>

lemma process_rx_loop_overrun:
  assumes rx: "delivers rx queue" and alloc: "enough alloc"
    and q: "queue (link st) = p # ps" and p: "12 \<le> length p" "length p < 2 ^ 32"
    and block: "alloc (length p) = Some k"
    and rp: "rmap_pkt_from_buffer alloc (Some (p @ replicate (k - length p) 0)) (word_of_nat (length p)) = Some (Some rp)"
      "reply_overruns big (trans_log st) rp"
  shows "process_rx_loop big alloc rx cnt st = None"
proof -
  obtain w r where "queue w = ps"
    and r: "rmap_pkt_from_buffer alloc (Some (p @ replicate (k - length p) 0)) (word_of_nat (length p)) = Some r"
    and loop: "process_rx_loop big alloc rx cnt st =
      (case r of None \<Rightarrow> process_rx_loop big alloc rx (cnt + 1) (st\<lparr>link := w\<rparr>)
       | Some rp \<Rightarrow> Option.bind (process_packet big rp (st\<lparr>link := w\<rparr>)) (\<lambda>(go_on, st).
           if go_on then process_rx_loop big alloc rx (cnt + 1) st else Some (-1, st)))"
    by (rule process_rx_loop_turn [OF rx alloc q p block])
  have "unat (word_of_nat (length p) :: u32) = length p" using p by (simp add: unat_of_nat_small)
  then have "has_its_data (word_of_nat (length p)) rp"
    using rmap_pkt_from_buffer_data [OF rp(1)] by simp
  then have "process_packet big rp (st\<lparr>link := w\<rparr>) = None"
    using process_packet_iff [of "word_of_nat (length p)" rp big "st\<lparr>link := w\<rparr>"] rp by simp
  moreover have "r = Some rp" using r rp(1) by simp
  ultimately show ?thesis using loop by simp
qed

text \<open>Packets that are short enough for all addresses of the log do not overrun.\<close>

lemma short_packet_fits:
  assumes "\<forall>i. room_at k (trans_log_get_addr i log)" and "length p \<le> 13 + k" "length p < 2 ^ 32"
  shows "\<not> packet_overruns big alloc log p"
proof
  assume "packet_overruns big alloc log p"
  then obtain behind rp where rp: "rmap_pkt_from_buffer alloc (Some (p @ behind)) (word_of_nat (length p)) = Some (Some rp)"
    and over: "reply_overruns big log rp" by (auto simp: packet_overruns_def)
  have "unat (word_of_nat (length p) :: u32) = length p" using assms(3) by (simp add: unat_of_nat_small)
  then have "unat (rp_data_len rp) \<le> k"
    using rmap_pkt_from_buffer_data [OF rp] assms(2) by (auto simp: has_its_data_def)
  moreover have "room_at k (trans_log_get_addr (uint (rp_tr_id rp)) log)" using assms(1) by blast
  ultimately show False using over room_at_less by (auto simp: reply_overruns_def Let_def)
qed

end
