(* ===== verification/Rdcu_Parameters.thy ===== *)
theory Rdcu_Parameters
  imports Cmp_Rdcu Rdcu_Cfg_Laws Bit_Fields
begin

unbundle bit_operations_syntax

text \<open>
  The parameters of a compression in the registers of the mirror. Every setter writes one bit
  field of one register; a valid configuration passes the checks of all of them, and afterwards every
  parameter of the configuration is found in its bit field.
\<close>

section \<open>Bit fields of the registers\<close>

definition write_field :: "rdcu_register \<Rightarrow> nat \<Rightarrow> nat \<Rightarrow> u32 \<Rightarrow> rdcu_mirror \<Rightarrow> rdcu_mirror" where
  "write_field r shift width v m = set_reg r (set_bits shift width v (regs m r)) m"

definition read_field :: "rdcu_register \<Rightarrow> nat \<Rightarrow> nat \<Rightarrow> rdcu_mirror \<Rightarrow> u32" where
  "read_field r shift width m = get_bits shift width (regs m r)"

lemma regs_set_reg [simp]: "regs (set_reg r v m) = (regs m)(r := v)" "sram (set_reg r v m) = sram m"
  by (simp_all add: set_reg_def)

lemma set_reg_set_reg [simp]: "set_reg r v (set_reg r u m) = set_reg r v m"
  by (simp add: set_reg_def)

lemma reg_update_field:
  assumes "v AND msk = v" and "msk = mask width"
  shows "reg_or r (push_bit shift v) (reg_and r (NOT (push_bit shift msk)) m) = write_field r shift width v m"
  using assms by (simp add: reg_or_def reg_and_def write_field_def set_bits_def)

lemma reg_update_field_0:
  assumes "v AND msk = v" and "msk = mask width"
  shows "reg_or r v (reg_and r (NOT msk) m) = write_field r 0 width v m"
  using reg_update_field [OF assms, where shift = 0] by simp

lemma and_mask_le:
  fixes v :: u32
  assumes "v \<le> msk" and "unat msk < 2 ^ n \<and> msk = mask n"
  shows "v AND msk = v"
proof -
  have "unat v < 2 ^ n" using assms by (metis le_less_trans word_le_nat_alt)
  then have "take_bit n v = v" by (simp add: take_bit_word_eq_self_iff)
  then show ?thesis using assms(2) by (simp add: take_bit_eq_mask)
qed

lemma field_masks:
  "unat (0x3 :: u32) < 2 ^ 2 \<and> (0x3 :: u32) = mask 2"
  "unat (0xF :: u32) < 2 ^ 4 \<and> (0xF :: u32) = mask 4"
  "unat (0x1F :: u32) < 2 ^ 5 \<and> (0x1F :: u32) = mask 5"
  "unat (0x3F :: u32) < 2 ^ 6 \<and> (0x3F :: u32) = mask 6"
  "unat (0xFF :: u32) < 2 ^ 8 \<and> (0xFF :: u32) = mask 8"
  "unat (0x3FF :: u32) < 2 ^ 10 \<and> (0x3FF :: u32) = mask 10"
  "unat (0x00FFFFFF :: u32) < 2 ^ 24 \<and> (0x00FFFFFF :: u32) = mask 24"
  by (simp_all add: mask_numeral)

lemma get_set_bits:
  fixes v w :: u32
  assumes "s + n \<le> 32" and "v AND mask n = v"
  shows "get_bits s n (set_bits s n v w) = v"
proof (rule bit_word_eqI)
  fix k
  have "bit v k \<longleftrightarrow> bit (v AND mask n) k" using assms(2) by simp
  then show "bit (get_bits s n (set_bits s n v w)) k = bit v k"
    using assms(1) by (auto simp: bit_get_bits bit_set_bits bit_and_iff bit_mask_iff)
qed

lemma get_set_bits_other:
  fixes v w :: u32
  assumes "t + k \<le> s \<or> s + n \<le> t"
  shows "get_bits t k (set_bits s n v w) = get_bits t k w"
  using assms by (intro bit_word_eqI) (auto simp: bit_get_bits bit_set_bits dest: bit_imp_le_length)

lemma read_write_same: "s + n \<le> 32 \<Longrightarrow> v AND mask n = v \<Longrightarrow> read_field r s n (write_field r s n v m) = v"
  by (simp add: read_field_def write_field_def get_set_bits)

lemma read_write_other:
  "r \<noteq> r' \<or> t + k \<le> s \<or> s + n \<le> t \<Longrightarrow> read_field r t k (write_field r' s n v m) = read_field r t k m"
  by (auto simp: read_field_def write_field_def get_set_bits_other)

lemmas field_updates =
  reg_update_field [OF and_mask_le [OF _ field_masks(1)] field_masks(1) [THEN conjunct2]]
  reg_update_field [OF and_mask_le [OF _ field_masks(2)] field_masks(2) [THEN conjunct2]]
  reg_update_field [OF and_mask_le [OF _ field_masks(3)] field_masks(3) [THEN conjunct2]]
  reg_update_field [OF and_mask_le [OF _ field_masks(4)] field_masks(4) [THEN conjunct2]]
  reg_update_field [OF and_mask_le [OF _ field_masks(5)] field_masks(5) [THEN conjunct2]]
  reg_update_field [OF and_mask_le [OF _ field_masks(6)] field_masks(6) [THEN conjunct2]]
  reg_update_field [OF and_mask_le [OF _ field_masks(7)] field_masks(7) [THEN conjunct2]]

lemma word_le_trans: "(v :: u32) \<le> a \<Longrightarrow> a \<le> b \<Longrightarrow> v \<le> b"
  by (rule order_trans)

section \<open>The setters of a compression\<close>

lemma rdcu_set_compression_mode_field:
  "rdcu_set_compression_mode v m = (if v > 4 then (-1, m) else (0, write_field Compressor_param1 0 8 v m))"
  using field_updates(5) [of v Compressor_param1 0 m] word_le_trans [of v 4 255]
  by (auto simp: rdcu_set_compression_mode_def not_less intro: order_trans)

lemma rdcu_set_golomb_param_field:
  "rdcu_set_golomb_param v m = (if v = 0 \<or> v > 63 then (-1, m) else (0, write_field Compressor_param2 0 6 v m))"
  using field_updates(4) [of v Compressor_param2 0 m]
  by (auto simp: rdcu_set_golomb_param_def not_less intro: order_trans)

lemma rdcu_set_spillover_threshold_field:
  "rdcu_set_spillover_threshold v m = (if v < 2 \<or> v > 0x3FF then (-1, m) else (0, write_field Compressor_param2 8 10 v m))"
  using field_updates(6) [of v Compressor_param2 8 m]
  by (auto simp: rdcu_set_spillover_threshold_def not_less intro: order_trans)

lemma rdcu_set_weighting_param_field:
  "rdcu_set_weighting_param v m = (if v > 16 then (-1, m) else (0, write_field Compressor_param1 8 5 v m))"
  using field_updates(3) [of v Compressor_param1 8 m] word_le_trans [of v 16 31]
  by (auto simp: rdcu_set_weighting_param_def not_less intro: order_trans)

lemma rdcu_set_noise_bits_rounded_field:
  "rdcu_set_noise_bits_rounded v m = (if v > 3 then (-1, m) else (0, write_field Compressor_param1 16 2 v m))"
  using field_updates(1) [of v Compressor_param1 16 m]
  by (auto simp: rdcu_set_noise_bits_rounded_def not_less intro: order_trans)

lemma rdcu_set_adaptive_1_golomb_param_field:
  "rdcu_set_adaptive_1_golomb_param v m = (if v = 0 \<or> v > 63 then (-1, m) else (0, write_field Adaptive_param1 0 6 v m))"
  using field_updates(4) [of v Adaptive_param1 0 m]
  by (auto simp: rdcu_set_adaptive_1_golomb_param_def not_less intro: order_trans)

lemma rdcu_set_adaptive_1_spillover_threshold_field:
  "rdcu_set_adaptive_1_spillover_threshold v m = (if v < 2 \<or> v > 0x3FF then (-1, m) else (0, write_field Adaptive_param1 8 10 v m))"
  using field_updates(6) [of v Adaptive_param1 8 m]
  by (auto simp: rdcu_set_adaptive_1_spillover_threshold_def not_less intro: order_trans)

lemma rdcu_set_adaptive_2_golomb_param_field:
  "rdcu_set_adaptive_2_golomb_param v m = (if v = 0 \<or> v > 63 then (-1, m) else (0, write_field Adaptive_param2 0 6 v m))"
  using field_updates(4) [of v Adaptive_param2 0 m]
  by (auto simp: rdcu_set_adaptive_2_golomb_param_def not_less intro: order_trans)

lemma rdcu_set_adaptive_2_spillover_threshold_field:
  "rdcu_set_adaptive_2_spillover_threshold v m = (if v < 2 \<or> v > 0x3FF then (-1, m) else (0, write_field Adaptive_param2 8 10 v m))"
  using field_updates(6) [of v Adaptive_param2 8 m]
  by (auto simp: rdcu_set_adaptive_2_spillover_threshold_def not_less intro: order_trans)

lemma rdcu_set_data_start_addr_field:
  "rdcu_set_data_start_addr v m = (if v > 0xFFFFFF \<or> v AND 3 \<noteq> 0 then (-1, m) else (0, write_field Data_start_addr 0 24 v m))"
  using field_updates(7) [of v Data_start_addr 0 m]
  by (auto simp: rdcu_set_data_start_addr_def not_less intro: order_trans)

lemma rdcu_set_model_start_addr_field:
  "rdcu_set_model_start_addr v m = (if v > 0xFFFFFF \<or> v AND 3 \<noteq> 0 then (-1, m) else (0, write_field Model_start_addr 0 24 v m))"
  using field_updates(7) [of v Model_start_addr 0 m]
  by (auto simp: rdcu_set_model_start_addr_def not_less intro: order_trans)

lemma rdcu_set_num_samples_field:
  "rdcu_set_num_samples v m = (if v > 0xFFFFFF then (-1, m) else (0, write_field Num_samples 0 24 v m))"
  using field_updates(7) [of v Num_samples 0 m]
  by (auto simp: rdcu_set_num_samples_def not_less intro: order_trans)

lemma rdcu_set_new_model_start_addr_field:
  "rdcu_set_new_model_start_addr v m = (if v > 0xFFFFFF \<or> v AND 3 \<noteq> 0 then (-1, m) else (0, write_field New_model_start_addr 0 24 v m))"
  using field_updates(7) [of v New_model_start_addr 0 m]
  by (auto simp: rdcu_set_new_model_start_addr_def not_less intro: order_trans)

lemma rdcu_set_compr_data_buf_start_addr_field:
  "rdcu_set_compr_data_buf_start_addr v m = (if v > 0xFFFFFF \<or> v AND 3 \<noteq> 0 then (-1, m) else (0, write_field Compr_data_buf_start_addr 0 24 v m))"
  using field_updates(7) [of v Compr_data_buf_start_addr 0 m]
  by (auto simp: rdcu_set_compr_data_buf_start_addr_def not_less intro: order_trans)

lemma rdcu_set_compr_data_buf_len_field:
  "rdcu_set_compr_data_buf_len v m = (if v > 0xFFFFFF then (-1, m) else (0, write_field Compr_data_buf_len 0 24 v m))"
  using field_updates(7) [of v Compr_data_buf_len 0 m]
  by (auto simp: rdcu_set_compr_data_buf_len_def not_less intro: order_trans)

lemmas setter_fields =
  rdcu_set_compression_mode_field
  rdcu_set_golomb_param_field
  rdcu_set_spillover_threshold_field
  rdcu_set_weighting_param_field
  rdcu_set_noise_bits_rounded_field
  rdcu_set_adaptive_1_golomb_param_field
  rdcu_set_adaptive_1_spillover_threshold_field
  rdcu_set_adaptive_2_golomb_param_field
  rdcu_set_adaptive_2_spillover_threshold_field
  rdcu_set_data_start_addr_field
  rdcu_set_model_start_addr_field
  rdcu_set_num_samples_field
  rdcu_set_new_model_start_addr_field
  rdcu_set_compr_data_buf_start_addr_field
  rdcu_set_compr_data_buf_len_field

section \<open>A valid configuration\<close>

text \<open>What the setters ask for, beyond the checks of the configuration: that the number of samples and the
  length of the buffer have 24 bits, which the check does not see when their size in bytes wraps around,
  and that the addresses of the model have 24 bits and are aligned also in the modes that do not use them.\<close>

definition encodable :: "rdcu_cfg_bufs \<Rightarrow> bool" where
  "encodable c \<longleftrightarrow> rc_samples c \<le> 0xFFFFFF \<and> rc_buffer_length c \<le> 0xFFFFFF \<and>
     rdcu_model_adr c \<le> 0xFFFFFF \<and> rdcu_model_adr c AND 3 = 0 \<and>
     rdcu_new_model_adr c \<le> 0xFFFFFF \<and> rdcu_new_model_adr c AND 3 = 0"

lemma encodable_size: "encodable c \<Longrightarrow> unat (rc_samples c) < 2 ^ 31 \<and> unat (rc_buffer_length c) < 2 ^ 31"
  by (auto simp: encodable_def word_le_nat_alt)

definition written_parameters :: "rdcu_cfg_bufs \<Rightarrow> rdcu_mirror \<Rightarrow> rdcu_mirror" where
  "written_parameters c m =
     (let m = write_field Compressor_param1 0 8 (cmp_mode_value (rc_cmp_mode c)) m;
          m = write_field Compressor_param2 0 6 (rc_golomb_par c) m;
          m = write_field Compressor_param2 8 10 (rc_spill c) m;
          m = write_field Compressor_param1 8 5 (rc_model_value c) m;
          m = write_field Compressor_param1 16 2 (rc_round c) m;
          m = write_field Adaptive_param1 0 6 (rc_ap1_golomb_par c) m;
          m = write_field Adaptive_param1 8 10 (rc_ap1_spill c) m;
          m = write_field Adaptive_param2 0 6 (rc_ap2_golomb_par c) m;
          m = write_field Adaptive_param2 8 10 (rc_ap2_spill c) m;
          m = write_field Data_start_addr 0 24 (rdcu_data_adr c) m;
          m = write_field Model_start_addr 0 24 (rdcu_model_adr c) m;
          m = write_field Num_samples 0 24 (rc_samples c) m;
          m = write_field New_model_start_addr 0 24 (rdcu_new_model_adr c) m;
          m = write_field Compr_data_buf_start_addr 0 24 (rdcu_buffer_adr c) m in
      write_field Compr_data_buf_len 0 24 (rc_buffer_length c) m)"

definition in_ranges :: "rdcu_cfg_bufs \<Rightarrow> bool" where
  "in_ranges c \<longleftrightarrow>
     cmp_mode_value (rc_cmp_mode c) \<le> 4 \<and> rc_model_value c \<le> 16 \<and> rc_round c \<le> 3 \<and>
     list_all (\<lambda>g. g \<noteq> 0 \<and> g \<le> 63) [rc_golomb_par c, rc_ap1_golomb_par c, rc_ap2_golomb_par c] \<and>
     list_all (\<lambda>s. 2 \<le> s \<and> s \<le> 0x3FF) [rc_spill c, rc_ap1_spill c, rc_ap2_spill c] \<and>
     list_all (\<lambda>a. a \<le> 0xFFFFFF \<and> a AND 3 = 0)
       [rdcu_data_adr c, rdcu_model_adr c, rdcu_new_model_adr c, rdcu_buffer_adr c] \<and>
     rc_samples c \<le> 0xFFFFFF \<and> rc_buffer_length c \<le> 0xFFFFFF"

lemma supported_mode_le: "cmp_mode_is_supported m \<Longrightarrow> cmp_mode_value m \<le> 4"
  by (cases m) (simp_all add: cmp_mode_is_supported_def)

lemma valid_in_ranges:
  assumes valid: "rdcu_cmp_cfg_is_invalid (Some c) = 0"
  shows "in_ranges c \<longleftrightarrow> encodable c"
proof
  assume enc: "encodable c"
  note v = valid [unfolded rdcu_cmp_cfg_valid_iff gen_pars_valid_iff imagette_valid_iff golomb_spill_valid_iff]
  have spill: "2 \<le> s \<and> s \<le> cmp_ima_max_spill g \<Longrightarrow> 2 \<le> s \<and> s \<le> 0x3FF" for s g
    using order_trans [OF _ cmp_ima_max_spill_le] by blast
  have "buffers_ok c" using v encodable_size [OF enc] by (intro valid_buffers_ok) simp_all
  then show "in_ranges c"
    unfolding in_ranges_def
    using v enc supported_mode_le spill order_trans [of "rc_round c" "2 :: u32" 3]
    by (auto simp: buffers_ok_def Let_def encodable_def dest: sram_buffer_words)
qed (simp add: in_ranges_def encodable_def)

lemma valid_model_encodable:
  assumes valid: "rdcu_cmp_cfg_is_invalid (Some c) = 0"
    and "rc_samples c \<le> 0xFFFFFF" "rc_buffer_length c \<le> 0xFFFFFF"
  shows "model_mode_is_used (rc_cmp_mode c) \<Longrightarrow> encodable c"
proof -
  have "buffers_ok c"
    using assms by (intro valid_buffers_ok) (simp_all add: rdcu_cmp_cfg_valid_iff word_le_nat_alt)
  then show "model_mode_is_used (rc_cmp_mode c) \<Longrightarrow> encodable c"
    using assms(2,3) by (auto simp: buffers_ok_def Let_def encodable_def dest: sram_buffer_words)
qed

lemma set_parameters_run:
  assumes "in_ranges c"
  shows "run_steps (set_parameters c) st =
    Some (0, st\<lparr>mirror := written_parameters c (mirror st)\<rparr>)"
  using assms
  by (simp add: in_ranges_def set_parameters_def set_step_def setter_fields not_le [symmetric]
      written_parameters_def)

text \<open>A sequence of setters stops at the first one that refuses its value, and leaves the SRAM alone.\<close>

definition guarded :: "bool \<Rightarrow> (rdcu_mirror \<Rightarrow> int \<times> rdcu_mirror) \<Rightarrow> bool" where
  "guarded b f \<longleftrightarrow> (\<forall>m. \<exists>m'. f m = (if b then (-1, m) else (0, m')) \<and> sram m' = sram m)"

lemma guarded_field: "(\<And>m. f m = (if b then (-1, m) else (0, write_field r s n v m))) \<Longrightarrow> guarded b f"
  unfolding guarded_def by (metis regs_set_reg(2) write_field_def)

lemma run_guarded:
  assumes "list_all2 guarded bs fs"
  shows "\<exists>m. run_steps (map set_step fs) st = Some (if list_all Not bs then 0 else -1, st\<lparr>mirror := m\<rparr>) \<and>
    sram m = sram (mirror st)"
  using assms
proof (induction bs fs arbitrary: st rule: list_all2_induct)
  case Nil
  show ?case by (intro exI [of _ "mirror st"]) simp_all
next
  case (Cons b bs f fs)
  from Cons.hyps(1) obtain m where f: "f (mirror st) = (if b then (-1, mirror st) else (0, m))"
    and m: "sram m = sram (mirror st)" unfolding guarded_def by blast
  show ?case
  proof (cases b)
    case True
    then show ?thesis using f by (intro exI [of _ "mirror st"]) (simp add: set_step_def)
  next
    case False
    then show ?thesis using f m Cons.IH [of "st\<lparr>mirror := m\<rparr>"] by (auto simp: set_step_def)
  qed
qed

lemma set_parameters_outcome:
  fixes st :: "'w rdcu_state"
  shows "\<exists>m. run_steps (set_parameters c) st = Some (if in_ranges c then 0 else -1, st\<lparr>mirror := m\<rparr>) \<and>
    sram m = sram (mirror st)"
proof -
  let ?adr = "\<lambda>a. a > 0xFFFFFF \<or> a AND 3 \<noteq> (0 :: u32)" and ?gol = "\<lambda>g. g = 0 \<or> g > (63 :: u32)"
    and ?spl = "\<lambda>s. s < 2 \<or> s > (0x3FF :: u32)"
  let ?bs = "[cmp_mode_value (rc_cmp_mode c) > 4, ?gol (rc_golomb_par c), ?spl (rc_spill c),
    rc_model_value c > 16, rc_round c > 3, ?gol (rc_ap1_golomb_par c), ?spl (rc_ap1_spill c),
    ?gol (rc_ap2_golomb_par c), ?spl (rc_ap2_spill c), ?adr (rdcu_data_adr c), ?adr (rdcu_model_adr c),
    rc_samples c > 0xFFFFFF, ?adr (rdcu_new_model_adr c), ?adr (rdcu_buffer_adr c), rc_buffer_length c > 0xFFFFFF]"
  let ?fs = "[rdcu_set_compression_mode (cmp_mode_value (rc_cmp_mode c)), rdcu_set_golomb_param (rc_golomb_par c),
    rdcu_set_spillover_threshold (rc_spill c), rdcu_set_weighting_param (rc_model_value c),
    rdcu_set_noise_bits_rounded (rc_round c), rdcu_set_adaptive_1_golomb_param (rc_ap1_golomb_par c),
    rdcu_set_adaptive_1_spillover_threshold (rc_ap1_spill c), rdcu_set_adaptive_2_golomb_param (rc_ap2_golomb_par c),
    rdcu_set_adaptive_2_spillover_threshold (rc_ap2_spill c), rdcu_set_data_start_addr (rdcu_data_adr c),
    rdcu_set_model_start_addr (rdcu_model_adr c), rdcu_set_num_samples (rc_samples c),
    rdcu_set_new_model_start_addr (rdcu_new_model_adr c), rdcu_set_compr_data_buf_start_addr (rdcu_buffer_adr c),
    rdcu_set_compr_data_buf_len (rc_buffer_length c)]"
  have "list_all2 guarded ?bs ?fs"
    by (simp only: list.rel_inject simp_thms) (intro conjI; rule guarded_field, rule setter_fields)
  from run_guarded [OF this] have "\<exists>m. run_steps (map set_step ?fs) st =
      Some (if list_all Not ?bs then 0 else -1, st\<lparr>mirror := m\<rparr>) \<and> sram m = sram (mirror st)"
    by this
  moreover have "(set_parameters c :: 'w step list) = map set_step ?fs" by (simp add: set_parameters_def)
  moreover have "list_all Not ?bs \<longleftrightarrow> in_ranges c" by (auto simp: in_ranges_def not_less not_le)
  ultimately show ?thesis by (simp only:)
qed

lemma regs_write_field [simp]:
  "regs (write_field r s n v m) = (regs m)(r := set_bits s n v (regs m r))"
  "sram (write_field r s n v m) = sram m"
  by (simp_all add: write_field_def)

end
