(* ===== verification/Rdcu_Transfer.thy ===== *)
theory Rdcu_Transfer
  imports Rdcu_Link Rdcu_Parameters
begin

unbundle bit_operations_syntax

text \<open>
  What the library transmits: the calls of the link for the synchronisation of a register, and the
  sequence of commands a transfer of the SRAM consists of. The link records its calls and receives
  nothing.
\<close>

section \<open>A link that records its calls\<close>

record call =
  header :: buffer
  skip :: u8
  payload :: "buffer option"

definition recording_tx :: "call list tx_function" where
  "recording_tx cmd cmd_size non_crc_bytes data data_size calls =
     (0, calls @ [\<lparr>header = take (unat cmd_size) cmd, skip = non_crc_bytes,
       payload = map_option (take (unat data_size)) data\<rparr>])"

definition silent_rx :: "'w rx_function" where
  "silent_rx buf w = (0, buf, w)"

definition recorded :: "u32 \<Rightarrow> call list rdcu_state \<Rightarrow> bool" where
  "recorded u st \<longleftrightarrow> rmap_tx st = Some recording_tx \<and> rmap_rx st = Some silent_rx \<and>
     paths_ok st \<and> data_mtu st = u"

lemma recorded_update [simp]:
  "recorded u (st\<lparr>link := w\<rparr>) = recorded u st" "recorded u (st\<lparr>trans_log := log\<rparr>) = recorded u st"
  "recorded u (st\<lparr>mirror := m\<rparr>) = recorded u st"
  by (simp_all add: recorded_def paths_ok_def)

lemma process_rx_silent: "recorded u st \<Longrightarrow> rdcu_process_rx big alloc st = Some (0, st)"
  by (simp add: recorded_def rdcu_process_rx_def process_rx_loop.simps silent_rx_def)

lemma submit_tx_recorded:
  "recorded u st \<Longrightarrow> rdcu_submit_tx big alloc cmd n data k st =
    Some (0, st\<lparr>link := link st @ [\<lparr>header = take (unat n) cmd, skip = dpath_len st,
      payload = map_option (take (unat k)) data\<rparr>]\<rparr>)"
  by (simp add: rdcu_submit_tx_def process_rx_silent) (simp add: recorded_def recording_tx_def)

section \<open>Commands\<close>

text \<open>Every allocation succeeds.\<close>

definition allocates :: "malloc \<Rightarrow> bool" where
  "allocates alloc \<longleftrightarrow> (\<forall>k. \<exists>m. alloc k = Some m \<and> k \<le> m)"

lemma allocates_not_None: "allocates alloc \<Longrightarrow> alloc k \<noteq> None"
  by (fastforce simp: allocates_def)

lemma cmd_header_update [simp]:
  "cmd_header (st\<lparr>link := w\<rparr>) = cmd_header st" "cmd_header (st\<lparr>trans_log := log\<rparr>) = cmd_header st"
  "cmd_header (st\<lparr>mirror := m\<rparr>) = cmd_header st"
  by (intro ext, simp add: cmd_header_def)+

lemma make_cmd_ok:
  assumes alloc: "allocates alloc" and st: "paths_ok st"
    and cmd: "rmap_validate_cmd_code cmd = 0" and n: "n \<le> 0xFFFFFF"
  shows "\<exists>rest. make_cmd alloc (\<lambda>trans_id c. rdcu_gen_cmd alloc st trans_id c cmd addr n) slot =
    Some (Inr (cmd_header st (word_of_int slot) cmd addr n @ rest,
      int (length (cmd_header st (word_of_int slot) cmd addr n))))"
proof -
  let ?h = "cmd_header st (word_of_int slot) cmd addr n"
  obtain m where m: "alloc (length ?h) = Some m" "length ?h \<le> m" using alloc by (auto simp: allocates_def)
  note gen = rdcu_gen_cmd_ok [where alloc = alloc, OF allocates_not_None [OF alloc] st cmd n]
  have pos: "0 < length ?h" by (simp add: length_cmd_header [OF st])
  show ?thesis
    using m pos gen(2) [of "word_of_int slot" addr "replicate m 0"]
    by (simp add: make_cmd_def gen(1))
qed

lemma unat_length_header:
  "paths_ok st \<Longrightarrow> unat (word_of_nat (length (cmd_header st t cmd addr n)) :: u32) =
    length (cmd_header st t cmd addr n)"
proof -
  assume st: "paths_ok st"
  then have "unat (dpath_len st) \<le> 15" "unat (rpath_len st) \<le> 12"
    by (simp_all add: paths_ok_def word_le_nat_alt)
  then show ?thesis
    using unat_of_nat_small [of "length (cmd_header st t cmd addr n)"]
    by (simp add: length_cmd_header [OF st])
qed

section \<open>Slots in order\<close>

text \<open>The first \<open>i\<close> slots are in use, the others are free.\<close>

definition first_slots :: "nat \<Rightarrow> trans_log \<Rightarrow> bool" where
  "first_slots i log \<longleftrightarrow> in_use log = replicate i True @ replicate (TRANS_LOG_SIZE - i) False"

lemma free_slot_first: "i < n \<Longrightarrow> free_slot k (replicate i True @ replicate (n - i) False) = Some (k + i)"
proof (induction i arbitrary: k n)
  case 0
  then show ?case by (cases n) simp_all
next
  case (Suc i)
  then show ?case using Suc.IH [of "n - 1" "Suc k"] by simp
qed

lemma replicate_update:
  "i < n \<Longrightarrow> (replicate i True @ replicate (n - i) False)[i := True] =
    replicate (Suc i) True @ replicate (n - Suc i) False"
  using list_update_length [of "replicate i True" False "replicate (n - Suc i) False" True]
  by (simp add: replicate_app_Cons_same Suc_diff_Suc [symmetric] del: replicate.simps(2))
    (simp add: replicate_append_same)

lemma grab_first:
  assumes "first_slots i log" "i < TRANS_LOG_SIZE"
  obtains log' where "trans_log_grab_slot a log = (int i, log')" "first_slots (Suc i) log'"
    "pending log' = pending log + 1"
  using assms free_slot_first [of i 64 0] replicate_update [of i 64]
  by (simp add: trans_log_grab_slot_def first_slots_def)

section \<open>Requests\<close>

text \<open>What a command asks the RDCU for, and the call of the link for it with the transaction
  identifier \<open>i\<close>.\<close>

datatype request = READ_REG u32 | WRITE_REG u32 u32 | WRITE_SRAM nat buffer

fun request_call :: "'w rdcu_state \<Rightarrow> nat \<Rightarrow> request \<Rightarrow> call" where
  "request_call st i (READ_REG a) =
     \<lparr>header = cmd_header st (word_of_nat i) RMAP_READ_ADDR_INC a 4,
      skip = dpath_len st, payload = Some []\<rparr>"
| "request_call st i (WRITE_REG a v) =
     \<lparr>header = cmd_header st (word_of_nat i) RMAP_WRITE_ADDR_INC_VERIFY_REPLY a 4,
      skip = dpath_len st, payload = Some (be_bytes 4 v)\<rparr>"
| "request_call st i (WRITE_SRAM a d) =
     \<lparr>header = cmd_header st (word_of_nat i) RMAP_WRITE_ADDR_INC_REPLY (word_of_nat a) (word_of_nat (length d)),
      skip = dpath_len st, payload = Some d\<rparr>"

fun request_calls :: "'w rdcu_state \<Rightarrow> nat \<Rightarrow> request list \<Rightarrow> call list" where
  "request_calls st i [] = []"
| "request_calls st i (r # rs) = request_call st i r # request_calls st (Suc i) rs"

lemma request_calls_append [simp]:
  "request_calls st i (rs @ qs) = request_calls st i rs @ request_calls st (i + length rs) qs"
  by (induction rs arbitrary: i) simp_all

lemma request_call_update [simp]:
  "request_call (st\<lparr>link := w\<rparr>) i r = request_call st i r"
  "request_call (st\<lparr>trans_log := log\<rparr>) i r = request_call st i r"
  "request_call (st\<lparr>mirror := m\<rparr>) i r = request_call st i r"
  by (cases r; simp)+

lemma request_calls_update [simp]:
  "request_calls (st\<lparr>link := w\<rparr>) i rs = request_calls st i rs"
  "request_calls (st\<lparr>trans_log := log\<rparr>) i rs = request_calls st i rs"
  "request_calls (st\<lparr>mirror := m\<rparr>) i rs = request_calls st i rs"
  by (induction rs arbitrary: i) simp_all

text \<open>A step that, with the first \<open>i\<close> slots in use, succeeds, makes the requests \<open>reqs\<close> in the next
  slots, and changes the mirror by \<open>g\<close>. Both depend on the mirror before the step.\<close>

definition emits ::
  "u32 \<Rightarrow> call list step \<Rightarrow> (rdcu_mirror \<Rightarrow> request list) \<Rightarrow> (rdcu_mirror \<Rightarrow> rdcu_mirror) \<Rightarrow> bool" where
  "emits u f reqs g \<longleftrightarrow>
     (\<forall>st i. recorded u st \<longrightarrow> first_slots i (trans_log st) \<longrightarrow>
       i + length (reqs (mirror st)) \<le> TRANS_LOG_SIZE \<longrightarrow>
       (\<exists>log. first_slots (i + length (reqs (mirror st))) log \<and>
         f st = Some (0, st\<lparr>trans_log := log, mirror := g (mirror st),
           link := link st @ request_calls st i (reqs (mirror st))\<rparr>)))"

lemma emitsD:
  assumes "emits u f reqs g" "recorded u st" "first_slots i (trans_log st)"
    "i + length (reqs (mirror st)) \<le> TRANS_LOG_SIZE"
  obtains log where "f st = Some (0, st\<lparr>trans_log := log, mirror := g (mirror st),
      link := link st @ request_calls st i (reqs (mirror st))\<rparr>)"
    and "first_slots (i + length (reqs (mirror st))) log"
  using assms unfolding emits_def by blast

lemma emits_nothing: "(\<And>st. recorded u st \<Longrightarrow> f st = Some (0, st\<lparr>mirror := g (mirror st)\<rparr>)) \<Longrightarrow> emits u f (\<lambda>_. []) g"
  by (auto simp: emits_def intro!: exI [of _ "trans_log _"])

lemma emits_run_Nil: "emits u (run_steps []) (\<lambda>_. []) (\<lambda>m. m)"
  by (rule emits_nothing) simp

lemma emits_run_Cons:
  assumes f: "emits u f reqs g" and fs: "emits u (run_steps fs) reqs' g'"
  shows "emits u (run_steps (f # fs)) (\<lambda>m. reqs m @ reqs' (g m)) (\<lambda>m. g' (g m))"
  unfolding emits_def
proof (intro allI impI)
  fix st :: "call list rdcu_state" and i
  assume st: "recorded u st" "first_slots i (trans_log st)"
    and len: "i + length (reqs (mirror st) @ reqs' (g (mirror st))) \<le> TRANS_LOG_SIZE"
  obtain log where log: "f st = Some (0, st\<lparr>trans_log := log, mirror := g (mirror st),
      link := link st @ request_calls st i (reqs (mirror st))\<rparr>)"
    "first_slots (i + length (reqs (mirror st))) log"
    using emitsD [OF f st] len by auto
  let ?st = "st\<lparr>trans_log := log, mirror := g (mirror st),
      link := link st @ request_calls st i (reqs (mirror st))\<rparr>"
  obtain log' where log': "run_steps fs ?st = Some (0, ?st\<lparr>trans_log := log', mirror := g' (mirror ?st),
      link := link ?st @ request_calls ?st (i + length (reqs (mirror st))) (reqs' (mirror ?st))\<rparr>)"
    "first_slots (i + length (reqs (mirror st)) + length (reqs' (mirror ?st))) log'"
    by (rule emitsD [OF fs, of ?st "i + length (reqs (mirror st))"]) (use st log len in simp_all)
  then show "\<exists>log. first_slots (i + length (reqs (mirror st) @ reqs' (g (mirror st)))) log \<and>
      run_steps (f # fs) st = Some (0, st\<lparr>trans_log := log, mirror := g' (g (mirror st)),
        link := link st @ request_calls st i (reqs (mirror st) @ reqs' (g (mirror st)))\<rparr>)"
    using log by (intro exI [of _ log']) (simp add: add.assoc)
qed

lemma emits_cong: "emits u f reqs g \<Longrightarrow> reqs = reqs' \<Longrightarrow> g = g' \<Longrightarrow> emits u f reqs' g'"
  by simp

lemma run_steps_ret: "run_steps fs st = Some (ret, st') \<Longrightarrow> ret = 0 \<or> ret = -1"
  by (induction fs arbitrary: st) (auto split: Option.bind_splits prod.splits if_splits)

lemma run_steps_append: "run_steps (fs @ hs) = run_steps [run_steps fs, run_steps hs]"
proof
  fix st
  show "run_steps (fs @ hs) st = run_steps [run_steps fs, run_steps hs] st"
    by (induction fs arbitrary: st) (auto split: Option.bind_split prod.split dest: run_steps_ret)
qed

lemma emits_run_append:
  assumes "emits u (run_steps fs) reqs g" and "emits u (run_steps hs) reqs' g'"
  shows "emits u (run_steps (fs @ hs)) (\<lambda>m. reqs m @ reqs' (g m)) (\<lambda>m. g' (g m))"
  unfolding run_steps_append
  by (rule emits_cong, (rule emits_run_Cons assms emits_run_Nil)+) simp_all

section \<open>Units of a transfer\<close>

definition sram_data :: "rdcu_mirror \<Rightarrow> nat \<Rightarrow> nat \<Rightarrow> buffer" where
  "sram_data m a n = map (sram m) [a..<a + n]"

lemma length_sram_data [simp]: "length (sram_data m a n) = n"
  by (simp add: sram_data_def)

lemma sram_data_append: "sram_data m a n @ sram_data m (a + n) k = sram_data m a (n + k)"
  using upt_add_eq_append [of a "a + n" k] by (simp add: sram_data_def add.assoc)

text \<open>The requests of a transfer of \<open>n\<close> bytes from \<open>a\<close> on in units of \<open>u\<close> bytes.\<close>

function sram_requests :: "rdcu_mirror \<Rightarrow> nat \<Rightarrow> nat \<Rightarrow> nat \<Rightarrow> request list" where
  "sram_requests m u a n =
     (if n = 0 \<or> u = 0 then []
      else WRITE_SRAM a (sram_data m a (min u n)) # sram_requests m u (a + min u n) (n - min u n))"
  by pat_completeness auto
termination by (relation "measure (\<lambda>(m, u, a, n). n)") auto

declare sram_requests.simps [simp del]

lemma sram_requests_0 [simp]: "sram_requests m u a 0 = []"
  by (subst sram_requests.simps) simp

lemma sync_data_unit:
  assumes alloc: "allocates alloc" and st: "recorded u st" and slots: "first_slots i (trans_log st)"
    and i: "i < TRANS_LOG_SIZE" and sram: "unat a + unat n \<le> 2 ^ 23"
  obtains log where "rdcu_sync_data big alloc rdcu_write_cmd_data a (SRAM (unat a)) n False st =
      Some (0, st\<lparr>trans_log := log, link := link st @
        [request_call st i (WRITE_SRAM (unat a) (sram_data (mirror st) (unat a) (unat n)))]\<rparr>)"
    and "first_slots (Suc i) log"
proof -
  obtain log where log: "trans_log_grab_slot (SRAM (unat a)) (trans_log st) = (int i, log)"
    "first_slots (Suc i) log"
    using grab_first [OF slots i] by metis
  have paths: "paths_ok st" using st by (simp add: recorded_def)
  have n: "n \<le> 0xFFFFFF" using sram by (simp add: word_le_nat_alt)
  have cmd: "rmap_validate_cmd_code RMAP_WRITE_ADDR_INC_REPLY = 0" by (simp add: rmap_validate_cmd_code_def)
  let ?st = "st\<lparr>trans_log := log\<rparr>"
  have paths': "paths_ok ?st" using paths by (simp add: paths_ok_def)
  obtain rest where make:
    "make_cmd alloc (\<lambda>trans_id c. rdcu_write_cmd_data alloc ?st trans_id c a n) (int i) =
      Some (Inr (cmd_header st (word_of_nat i) RMAP_WRITE_ADDR_INC_REPLY a n @ rest,
        int (length (cmd_header st (word_of_nat i) RMAP_WRITE_ADDR_INC_REPLY a n))))"
    using make_cmd_ok [OF alloc paths' cmd n, of a "int i"]
    by (auto simp: rdcu_write_cmd_data_def rdcu_write_cmd_data_internal_def)
  have load: "load_local big (SRAM (unat a)) (unat n) (mirror st) = Some (sram_data (mirror st) (unat a) (unat n))"
    using sram by (simp add: load_local_def sram_bytes_def SRAM_SIZE sram_data_def)
  show thesis
  proof (rule that [of log])
    show "rdcu_sync_data big alloc rdcu_write_cmd_data a (SRAM (unat a)) n False st =
      Some (0, st\<lparr>trans_log := log, link := link st @
        [request_call st i (WRITE_SRAM (unat a) (sram_data (mirror st) (unat a) (unat n)))]\<rparr>)"
      using i st paths
      by (simp add: rdcu_sync_data_def process_rx_silent log(1) Let_def make load submit_tx_recorded
          unat_length_header)
  qed (use log in simp_all)
qed

section \<open>A complete transfer\<close>

lemma unat_sub_ge: "b \<le> a \<Longrightarrow> unat (a - b) = unat a - unat (b :: u32)"
  by (simp add: unat_sub)

lemma unat_add_inside: "unat a + unat b \<le> 2 ^ 23 \<Longrightarrow> unat (a + b :: u32) = unat a + unat b"
  by (simp add: unat_add_small)

text \<open>The loop over the whole units.\<close>

lemma send_units_requests:
  assumes alloc: "allocates alloc" and mtu: "mtu \<noteq> 0"
  shows "\<lbrakk>recorded u st; first_slots i (trans_log st); unat addr + unat sent + unat n \<le> 2 ^ 23;
      i + length (sram_requests (mirror st) (unat mtu) (unat addr + unat sent) (unat n)) \<le> TRANS_LOG_SIZE\<rbrakk> \<Longrightarrow>
    \<exists>log sent' n' reqs. send_units big alloc addr mtu sent n st = Some (Inr (sent', n'),
        st\<lparr>trans_log := log, link := link st @ request_calls st i reqs\<rparr>) \<and>
      first_slots (i + length reqs) log \<and> n' < mtu \<and> unat sent' + unat n' = unat sent + unat n \<and>
      sram_requests (mirror st) (unat mtu) (unat addr + unat sent) (unat n) =
        reqs @ sram_requests (mirror st) (unat mtu) (unat addr + unat sent') (unat n')"
proof (induction "unat n" arbitrary: i n sent st rule: less_induct)
  case less
  show ?case
  proof (cases "mtu \<le> n")
    case False
    then show ?thesis
      using less.prems
      by (subst send_units.simps)
        (auto intro!: exI [of _ "trans_log st"] exI [of _ sent] exI [of _ n] exI [of _ "[]"])
  next
    case True
    then have mtu_n: "unat mtu \<le> unat n" by (simp add: word_le_nat_alt)
    have m0: "0 < unat mtu" using mtu by (simp add: unat_gt_0)
    let ?a = "unat addr + unat sent"
    let ?w = "WRITE_SRAM ?a (sram_data (mirror st) ?a (unat mtu))"
    have a: "unat (addr + sent) = ?a" using less.prems(3) by (intro unat_add_inside) simp
    have sent: "unat (sent + mtu) = unat sent + unat mtu"
      using less.prems(3) mtu_n by (intro unat_add_inside) simp
    have n': "unat (n - mtu) = unat n - unat mtu" by (rule unat_sub_ge [OF True])
    have split: "sram_requests (mirror st) (unat mtu) ?a (unat n) =
        ?w # sram_requests (mirror st) (unat mtu) (unat addr + unat (sent + mtu)) (unat (n - mtu))"
      using m0 mtu_n by (subst sram_requests.simps) (simp add: min_absorb1 sent n' add.assoc)
    obtain log where unit: "rdcu_sync_data big alloc rdcu_write_cmd_data (addr + sent)
          (SRAM (unat (addr + sent))) mtu False st =
        Some (0, st\<lparr>trans_log := log, link := link st @ [request_call st i ?w]\<rparr>)"
      and log: "first_slots (Suc i) log"
      using sync_data_unit [OF alloc less.prems(1,2), of "addr + sent" mtu big] less.prems(3,4) split a mtu_n
      by auto
    let ?st = "st\<lparr>trans_log := log, link := link st @ [request_call st i ?w]\<rparr>"
    have "\<exists>log sent' n' reqs. send_units big alloc addr mtu (sent + mtu) (n - mtu) ?st = Some (Inr (sent', n'),
        ?st\<lparr>trans_log := log, link := link ?st @ request_calls ?st (Suc i) reqs\<rparr>) \<and>
      first_slots (Suc i + length reqs) log \<and> n' < mtu \<and> unat sent' + unat n' = unat (sent + mtu) + unat (n - mtu) \<and>
      sram_requests (mirror ?st) (unat mtu) (unat addr + unat (sent + mtu)) (unat (n - mtu)) =
        reqs @ sram_requests (mirror ?st) (unat mtu) (unat addr + unat sent') (unat n')"
      by (rule less.hyps) (use m0 mtu_n n' sent log less.prems split in simp_all)
    then obtain log' sent' n'' reqs where loop:
      "send_units big alloc addr mtu (sent + mtu) (n - mtu) ?st = Some (Inr (sent', n''),
        st\<lparr>trans_log := log', link := link st @ request_calls st i (?w # reqs)\<rparr>)"
      and rest: "first_slots (i + length (?w # reqs)) log'" "n'' < mtu"
      "unat sent' + unat n'' = unat sent + unat n"
      "sram_requests (mirror st) (unat mtu) (unat addr + unat (sent + mtu)) (unat (n - mtu)) =
        reqs @ sram_requests (mirror st) (unat mtu) (unat addr + unat sent') (unat n'')"
      using n' sent mtu_n by auto
    have "send_units big alloc addr mtu sent n st = send_units big alloc addr mtu (sent + mtu) (n - mtu) ?st"
      using True unit by (subst send_units.simps) simp
    then show ?thesis
      using loop rest split
      by (intro exI [of _ log'] exI [of _ sent'] exI [of _ n''] exI [of _ "?w # reqs"]) simp
  qed
qed

lemma sram_requests_last:
  "n < u \<Longrightarrow> sram_requests m u a n = (if n = 0 then [] else [WRITE_SRAM a (sram_data m a n)])"
  by (subst sram_requests.simps) simp

lemma mirror_to_sram_emits:
  assumes alloc: "allocates alloc" and args: "\<not> transfer_args_invalid addr n mtu" "mtu \<noteq> 0"
  shows "emits u (rdcu_sync_mirror_to_sram addr n mtu big alloc)
    (\<lambda>m. sram_requests m (unat mtu) (unat addr) (unat n)) (\<lambda>m. m)"
  unfolding emits_def
proof (intro allI impI)
  fix st :: "call list rdcu_state" and i
  let ?reqs = "\<lambda>a k. sram_requests (mirror st) (unat mtu) a k"
  assume st: "recorded u st" "first_slots i (trans_log st)"
    and len: "i + length (?reqs (unat addr) (unat n)) \<le> TRANS_LOG_SIZE"
  have size: "unat addr + unat n \<le> 2 ^ 23"
    using args(1) outside_sram_range_iff [of addr n]
    by (auto simp: transfer_args_invalid_def outside_sram_def outside_sram_range_def word_less_nat_alt
        RDCU_SRAM_SIZE_def not_less)
  obtain log sent' n' reqs where units: "send_units big alloc addr mtu 0 n st = Some (Inr (sent', n'),
        st\<lparr>trans_log := log, link := link st @ request_calls st i reqs\<rparr>)"
    and log: "first_slots (i + length reqs) log" and n': "n' < mtu" "unat sent' + unat n' = unat n"
    and reqs: "?reqs (unat addr) (unat n) = reqs @ ?reqs (unat addr + unat sent') (unat n')"
    using send_units_requests [OF alloc args(2) st, of addr 0 n big] size len by auto
  let ?st = "st\<lparr>trans_log := log, link := link st @ request_calls st i reqs\<rparr>"
  have run: "rdcu_sync_mirror_to_sram addr n mtu big alloc st = send_rest big alloc addr sent' n' ?st"
    using args(1) by (simp add: rdcu_sync_mirror_to_sram_def units)
  have last: "?reqs (unat addr + unat sent') (unat n') = (if n' = 0 then []
      else [WRITE_SRAM (unat addr + unat sent') (sram_data (mirror st) (unat addr + unat sent') (unat n'))])"
    using n'(1) by (simp add: sram_requests_last word_less_nat_alt unat_eq_0)
  show "\<exists>log. first_slots (i + length (?reqs (unat addr) (unat n))) log \<and>
      rdcu_sync_mirror_to_sram addr n mtu big alloc st = Some (0, st\<lparr>trans_log := log, mirror := mirror st,
        link := link st @ request_calls st i (?reqs (unat addr) (unat n))\<rparr>)"
  proof (cases "n' = 0")
    case True
    then have "rdcu_sync_mirror_to_sram addr n mtu big alloc st = Some (0, ?st)"
      unfolding run by (subst send_rest.simps) simp
    then show ?thesis using log reqs last True by (intro exI [of _ log]) simp
  next
    case False
    have a: "unat (addr + sent') = unat addr + unat sent'" using size n'(2) by (intro unat_add_inside) simp
    obtain log' where rest: "rdcu_sync_data big alloc rdcu_write_cmd_data (addr + sent')
          (SRAM (unat (addr + sent'))) n' False ?st =
        Some (0, ?st\<lparr>trans_log := log', link := link ?st @ [request_call ?st (i + length reqs)
          (WRITE_SRAM (unat (addr + sent')) (sram_data (mirror ?st) (unat (addr + sent')) (unat n')))]\<rparr>)"
      "first_slots (Suc (i + length reqs)) log'"
      by (rule sync_data_unit [OF alloc, where st = ?st and i = "i + length reqs" and a = "addr + sent'"
          and n = n' and big = big])
        (use st log len reqs last False size a n' in simp_all)
    have "rdcu_sync_mirror_to_sram addr n mtu big alloc st =
        Some (0, ?st\<lparr>trans_log := log', link := link ?st @ [request_call ?st (i + length reqs)
          (WRITE_SRAM (unat (addr + sent')) (sram_data (mirror ?st) (unat (addr + sent')) (unat n')))]\<rparr>)"
      unfolding run using False rest(1) by (subst send_rest.simps) simp
    then show ?thesis using rest(2) reqs last False by (intro exI [of _ log']) (simp add: a)
  qed
qed

text \<open>The requests together carry the bytes of the transfer, in order, and each the ones of its address.\<close>

lemma sram_requests_data:
  "0 < u \<Longrightarrow> concat (map (\<lambda>r. case r of WRITE_SRAM _ d \<Rightarrow> d | _ \<Rightarrow> []) (sram_requests m u a n)) = sram_data m a n"
proof (induction m u a n rule: sram_requests.induct)
  case (1 m u a n)
  show ?case
  proof (cases "n = 0")
    case False
    then show ?thesis
      using 1 sram_data_append [of m a "min u n" "n - min u n"] by (subst sram_requests.simps) simp
  qed (simp add: sram_data_def)
qed

end
