(* ===== verification/Rdcu_Sequence.thy ===== *)
theory Rdcu_Sequence
  imports Rdcu_Transfer Header_Fields
begin

unbundle bit_operations_syntax

text \<open>
  The commands of a compression. On a link that records its calls, with all slots of the transaction log
  free, a valid configuration makes \<open>rdcu_compress_data\<close> transmit a fixed sequence of requests: the used
  parameters are read, the parameters are written register by register, the samples and the model are
  written to the SRAM, and the last request starts the compressor.
\<close>

section \<open>Registers\<close>

lemma registers_from_Cons: "registers_from r = r # tl (registers_from r)"
  by (cases r) (simp_all add: registers_from_def rdcu_registers_def)

lemma load_register: "load_local big (REGISTER r) 4 m = Some (host_bytes big 4 (regs m r))"
proof -
  obtain rs where rs: "registers_from r = r # rs" using registers_from_Cons by blast
  then show ?thesis by (simp add: load_local_def rs bytes_of_words_def)
qed

lemma words_of_register: "words_of_bytes big (host_bytes big 4 v) = [v :: u32]"
  using unat_less_2p [of v] by (simp add: words_of_bytes_def)

lemma payload_register: "payload_at big (REGISTER r) 4 m = Some (Some (be_bytes 4 (regs m r)))"
  by (cases big)
    (simp_all add: payload_at_def load_register words_of_register bytes_of_words_def host_bytes_be,
      simp add: host_bytes_def)

text \<open>The synchronisation of a register, in either direction.\<close>

lemma valid_register_cmds:
  "rmap_validate_cmd_code RMAP_READ_ADDR_INC = 0"
  "rmap_validate_cmd_code RMAP_WRITE_ADDR_INC_VERIFY_REPLY = 0"
  by (simp_all add: rmap_validate_cmd_code_def)

lemma sync_register:
  assumes alloc: "allocates alloc" and st: "recorded u st" and slots: "first_slots i (trans_log st)"
    and i: "i < TRANS_LOG_SIZE" and cmd: "rmap_validate_cmd_code cmd = 0"
    and fn: "\<And>st trans_id c. fn alloc st trans_id c = rdcu_gen_cmd alloc st trans_id c cmd addr 4"
    and n: "n AND 3 = 0" "payload_at big a n (mirror st) = Some data" "map_option (take (unat n)) data = data"
  obtains log where "rdcu_sync big alloc fn a n st = Some (0, st\<lparr>trans_log := log, link := link st @
      [\<lparr>header = cmd_header st (word_of_nat i) cmd addr 4, skip = dpath_len st, payload = data\<rparr>]\<rparr>)"
    and "first_slots (Suc i) log"
proof -
  obtain log where log: "trans_log_grab_slot a (trans_log st) = (int i, log)" "first_slots (Suc i) log"
    using grab_first [OF slots i] by metis
  let ?st = "st\<lparr>trans_log := log\<rparr>"
  have paths: "paths_ok ?st" using st by (simp add: recorded_def paths_ok_def)
  have fn_eq: "fn alloc ?st = (\<lambda>trans_id c. rdcu_gen_cmd alloc ?st trans_id c cmd addr 4)"
    by (intro ext fn)
  obtain rest where make: "make_cmd alloc (fn alloc ?st) (int i) =
      Some (Inr (cmd_header st (word_of_nat i) cmd addr 4 @ rest,
        int (length (cmd_header st (word_of_nat i) cmd addr 4))))"
    using make_cmd_ok [OF alloc paths cmd, of 4 addr "int i"] by (auto simp: fn_eq)
  show thesis
    by (rule that [of log])
      (use i st log n paths unat_length_header [of st "word_of_nat i" cmd addr 4] in
        \<open>simp_all add: rdcu_sync_def Let_def make submit_tx_recorded recorded_def\<close>)
qed

text \<open>A register is read with a request without data and written with its value in the mirror.\<close>

lemma read_register_emits:
  assumes "allocates alloc"
    and "\<And>st trans_id c. fn alloc st trans_id c = rdcu_read_cmd_register_internal alloc st trans_id c addr"
  shows "emits u (rdcu_sync big alloc fn (REGISTER r) 0) (\<lambda>_. [READ_REG addr]) (\<lambda>m. m)"
  unfolding emits_def
proof (intro allI impI)
  fix st :: "call list rdcu_state" and i
  assume st: "recorded u st" "first_slots i (trans_log st)" and "i + length [READ_REG addr] \<le> TRANS_LOG_SIZE"
  then have i: "i < TRANS_LOG_SIZE" by simp
  show "\<exists>log. first_slots (i + length [READ_REG addr]) log \<and> rdcu_sync big alloc fn (REGISTER r) 0 st =
    Some (0, st\<lparr>trans_log := log, mirror := mirror st, link := link st @ request_calls st i [READ_REG addr]\<rparr>)"
    by (rule sync_register [OF assms(1) st i valid_register_cmds(1), of fn addr 0 big "REGISTER r" "Some []"])
      (auto simp: assms(2) rdcu_read_cmd_register_internal_def payload_at_def)
qed

lemma write_register_emits:
  assumes "allocates alloc"
    and "\<And>st trans_id c. fn alloc st trans_id c = rdcu_write_cmd_register_internal alloc st trans_id c addr"
  shows "emits u (rdcu_sync big alloc fn (REGISTER r) 4) (\<lambda>m. [WRITE_REG addr (regs m r)]) (\<lambda>m. m)"
  unfolding emits_def
proof (intro allI impI)
  fix st :: "call list rdcu_state" and i
  let ?r = "WRITE_REG addr (regs (mirror st) r)"
  assume st: "recorded u st" "first_slots i (trans_log st)" and "i + length [?r] \<le> TRANS_LOG_SIZE"
  then have i: "i < TRANS_LOG_SIZE" by simp
  show "\<exists>log. first_slots (i + length [?r]) log \<and> rdcu_sync big alloc fn (REGISTER r) 4 st =
    Some (0, st\<lparr>trans_log := log, mirror := mirror st, link := link st @ request_calls st i [?r]\<rparr>)"
    by (rule sync_register [OF assms(1) st i valid_register_cmds(2), of fn addr 4 big "REGISTER r"])
      (auto simp: assms(2) rdcu_write_cmd_register_internal_def payload_register)
qed

lemma emits_run: "emits u f reqs g \<Longrightarrow> emits u (run_steps [f]) reqs g"
  by (rule emits_cong, rule emits_run_Cons [OF _ emits_run_Nil], assumption) simp_all

lemma do_step_emits: "emits u (do_step f) (\<lambda>_. []) f"
  by (rule emits_nothing) (simp add: do_step_def)

lemma syncing_loop_silent: "recorded u st \<Longrightarrow> syncing_loop big alloc k st = Some st"
  by (induction k) (subst syncing_loop.simps; simp add: rdcu_rmap_sync_status_def process_rx_silent)+

lemma syncing_emits: "emits u (rdcu_syncing big alloc) (\<lambda>_. []) (\<lambda>m. m)"
  by (rule emits_nothing) (simp add: rdcu_syncing_def syncing_loop_silent)

lemma emits_cond:
  assumes "\<And>st. recorded u st \<Longrightarrow> P (mirror st) \<Longrightarrow> f st = h st" and "\<And>st. recorded u st \<Longrightarrow> \<not> P (mirror st) \<Longrightarrow> f st = k st"
    and h: "emits u h reqs g" and k: "emits u k reqs' g'"
  shows "emits u f (\<lambda>m. if P m then reqs m else reqs' m) (\<lambda>m. if P m then g m else g' m)"
  unfolding emits_def
proof (intro allI impI)
  fix st i
  assume st: "recorded u st" "first_slots i (trans_log st)"
    and len: "i + length (if P (mirror st) then reqs (mirror st) else reqs' (mirror st)) \<le> TRANS_LOG_SIZE"
  show "\<exists>log. first_slots (i + length (if P (mirror st) then reqs (mirror st) else reqs' (mirror st))) log \<and>
      f st = Some (0, st\<lparr>trans_log := log, mirror := if P (mirror st) then g (mirror st) else g' (mirror st),
        link := link st @ request_calls st i (if P (mirror st) then reqs (mirror st) else reqs' (mirror st))\<rparr>)"
    using assms(1,2) st len emitsD [OF h st] emitsD [OF k st] by (cases "P (mirror st)") (simp_all, metis+)
qed

section \<open>Parameters\<close>

definition interrupt_request :: "rdcu_mirror \<Rightarrow> request" where
  "interrupt_request m = WRITE_REG COMPR_CTRL (regs (rdcu_set_data_compr_interrupt m) Compr_ctrl)"

lemma interrupt_emits:
  assumes "allocates alloc"
  shows "emits u (rdcu_interrupt_compression big alloc) (\<lambda>m. [interrupt_request m])
    (\<lambda>m. rdcu_clear_data_compr_interrupt (rdcu_set_data_compr_interrupt m))"
  unfolding rdcu_interrupt_compression_def rdcu_sync_compr_ctrl_def
  by (rule emits_cong,
      rule emits_run_Cons [OF do_step_emits] emits_run_Cons [OF write_register_emits [OF assms]]
        emits_run_Cons [OF syncing_emits] emits_run_Nil,
      (rule emits_run_Cons [OF do_step_emits] emits_run_Cons [OF write_register_emits [OF assms]]
        emits_run_Cons [OF syncing_emits] emits_run_Nil rdcu_write_cmd_compr_ctrl_def)+)
    (simp_all add: interrupt_request_def)

definition raw_used :: "rdcu_mirror \<Rightarrow> bool" where
  "raw_used m \<longleftrightarrow> rdcu_get_compression_mode m = cmp_mode_value CMP_MODE_RAW"

definition after_interrupt :: "rdcu_mirror \<Rightarrow> rdcu_mirror" where
  "after_interrupt m =
     (if raw_used m then rdcu_clear_data_compr_interrupt (rdcu_set_data_compr_interrupt m) else m)"

lemma interrupt_after_raw_emits:
  assumes "allocates alloc"
  shows "emits u (interrupt_after_raw big alloc)
    (\<lambda>m. if raw_used m then [interrupt_request m] else []) after_interrupt"
proof -
  have int: "emits u (\<lambda>st. do { (_, st) \<leftarrow> rdcu_interrupt_compression big alloc st; Some (0, st) })
      (\<lambda>m. [interrupt_request m]) (\<lambda>m. rdcu_clear_data_compr_interrupt (rdcu_set_data_compr_interrupt m))"
    using interrupt_emits [OF assms, of u big] by (fastforce simp: emits_def)
  have skip: "emits u (\<lambda>st. Some (0, st)) (\<lambda>_. []) (\<lambda>m. m)" by (rule emits_nothing) simp
  show ?thesis
    by (rule emits_cong, rule emits_cond [where P = raw_used, OF _ _ int skip])
      (auto simp: interrupt_after_raw_def raw_used_def after_interrupt_def)
qed

text \<open>The parameters: the ten registers of a compression, in the order of the code.\<close>

definition parameter_requests :: "rdcu_mirror \<Rightarrow> request list" where
  "parameter_requests m =
     [WRITE_REG COMPR_PARAM_1 (regs m Compressor_param1),
      WRITE_REG COMPR_PARAM_2 (regs m Compressor_param2),
      WRITE_REG ADAPTIVE_PARAM_1 (regs m Adaptive_param1),
      WRITE_REG ADAPTIVE_PARAM_2 (regs m Adaptive_param2),
      WRITE_REG DATA_START_ADDR (regs m Data_start_addr),
      WRITE_REG MODEL_START_ADDR (regs m Model_start_addr),
      WRITE_REG NUM_SAMPLES (regs m Num_samples),
      WRITE_REG UPDATED_MODEL_START_ADDR (regs m New_model_start_addr),
      WRITE_REG COMPR_DATA_BUF_START_ADDR (regs m Compr_data_buf_start_addr),
      WRITE_REG COMPR_DATA_BUF_LEN (regs m Compr_data_buf_len)]"

lemmas parameter_cmd_defs =
  rdcu_write_cmd_compressor_param1_def rdcu_write_cmd_compressor_param2_def
  rdcu_write_cmd_adaptive_param1_def rdcu_write_cmd_adaptive_param2_def
  rdcu_write_cmd_data_start_addr_def rdcu_write_cmd_model_start_addr_def
  rdcu_write_cmd_num_samples_def rdcu_write_cmd_new_model_start_addr_def
  rdcu_write_cmd_compr_data_buf_start_addr_def rdcu_write_cmd_compr_data_buf_len_def

lemma sync_parameters_emits:
  assumes "allocates alloc"
  shows "emits u (run_steps (sync_parameters big alloc)) parameter_requests (\<lambda>m. m)"
  unfolding sync_parameters_def register_sync_defs
  by (rule emits_cong,
      (rule emits_run_Cons [OF write_register_emits [OF assms]] emits_run_Nil parameter_cmd_defs)+)
    (simp_all add: parameter_requests_def fun_eq_iff)

lemma set_parameters_emits:
  "in_ranges c \<Longrightarrow> emits u (run_steps (set_parameters c)) (\<lambda>_. []) (written_parameters c)"
  by (rule emits_nothing) (simp add: set_parameters_run)

text \<open>The requests before the parameters are set.\<close>

definition first_requests :: "rdcu_mirror \<Rightarrow> request list" where
  "first_requests m = READ_REG USED_COMPR_PARAM_1 # (if raw_used m then [interrupt_request m] else [])"

lemma first_requests_emits:
  assumes alloc: "allocates alloc"
  shows "emits u (run_steps [rdcu_sync_used_param1 big alloc, rdcu_syncing big alloc, interrupt_after_raw big alloc])
    first_requests after_interrupt"
  unfolding rdcu_sync_used_param1_def
  by (rule emits_cong, (rule emits_run_Cons [OF read_register_emits [OF alloc]]
      emits_run_Cons [OF syncing_emits] emits_run_Cons [OF interrupt_after_raw_emits [OF alloc]]
      emits_run_Nil rdcu_read_cmd_used_param1_def)+)
    (simp_all add: fun_eq_iff first_requests_def)

lemma rdcu_set_compression_register_run:
  "rdcu_cmp_cfg_is_invalid (Some c) = 0 \<Longrightarrow>
    (rdcu_set_compression_register (Some c) big alloc :: call list step) =
      run_steps ([rdcu_sync_used_param1 big alloc, rdcu_syncing big alloc, interrupt_after_raw big alloc] @
        set_parameters c @ sync_parameters big alloc @ [rdcu_syncing big alloc])"
  by (simp add: rdcu_set_compression_register_def fun_eq_iff del: run_steps.simps append_Cons)

lemma set_compression_register_emits:
  assumes alloc: "allocates alloc" and c: "rdcu_cmp_cfg_is_invalid (Some c) = 0" "in_ranges c"
  shows "emits u (rdcu_set_compression_register (Some c) big alloc)
    (\<lambda>m. READ_REG USED_COMPR_PARAM_1 # (if raw_used m then [interrupt_request m] else []) @
       parameter_requests (written_parameters c (after_interrupt m)))
    (\<lambda>m. written_parameters c (after_interrupt m))"
proof -
  show ?thesis
    unfolding rdcu_set_compression_register_run [OF c(1)]
    by (rule emits_cong, (rule emits_run_append first_requests_emits [OF alloc] set_parameters_emits [OF c(2)]
        sync_parameters_emits [OF alloc] emits_run [OF syncing_emits])+)
      (simp_all add: fun_eq_iff first_requests_def)
qed

section \<open>Samples\<close>

text \<open>The mirror of the SRAM with \<open>d\<close> at the address \<open>a\<close>.\<close>

definition fill_sram :: "nat \<Rightarrow> buffer \<Rightarrow> rdcu_mirror \<Rightarrow> rdcu_mirror" where
  "fill_sram a d m = m\<lparr>sram := \<lambda>i. if a \<le> i \<and> i < a + length d then d ! (i - a) else sram m i\<rparr>"

lemma store_sram_fill: "a + length d \<le> 2 ^ 23 \<Longrightarrow> store_sram a d m = Some (fill_sram a d m)"
  by (simp add: store_sram_def SRAM_SIZE fill_sram_def)

lemma fill_sram_append: "fill_sram (a + length d) e (fill_sram a d m) = fill_sram a (d @ e) m"
  by (cases m) (auto simp: fill_sram_def fun_eq_iff nth_append)

lemma fill_sram_Nil [simp]: "fill_sram a [] m = m"
  by (cases m) (auto simp: fill_sram_def fun_eq_iff)

text \<open>The 16-bit samples of a buffer in big-endian order.\<close>

definition samples_be :: "bool \<Rightarrow> nat \<Rightarrow> buffer \<Rightarrow> buffer" where
  "samples_be big n b = concat (map (\<lambda>i. be_bytes 2 (host_word big (take 2 (drop (i * 2) b)) :: u16)) [0..<n])"

lemma length_samples_be [simp]: "length (samples_be big n b) = 2 * n"
  by (induction n) (simp_all add: samples_be_def)

lemma samples_be_Suc: "samples_be big (Suc n) b =
    samples_be big n b @ be_bytes 2 (host_word big (take 2 (drop (n * 2) b)) :: u16)"
  by (simp add: samples_be_def)

lemma samples_be_True: "2 * n \<le> length b \<Longrightarrow> samples_be True n b = take (2 * n) b"
proof (induction n)
  case (Suc n)
  have "take 2 (drop (n * 2) b) @ drop (2 + n * 2) b = drop (n * 2) b"
    by (metis append_take_drop_id drop_drop)
  moreover have "host_bytes True 2 (host_word True (take 2 (drop (n * 2) b)) :: u16) = take 2 (drop (n * 2) b)"
    using Suc.prems by simp
  ultimately show ?case
    using Suc take_add [of "2 * n" 2 b] by (simp add: samples_be_Suc host_bytes_def mult.commute)
qed (simp add: samples_be_def)

lemma write_sram_loop_append:
  "write_sram_loop conv sz b a (xs @ ys) m = do {
    m \<leftarrow> write_sram_loop conv sz b a xs m; write_sram_loop conv sz b a ys m }"
  by (induction xs arbitrary: m) (auto split: Option.bind_split)

lemma write_sram_loop_samples:
  "2 * n \<le> length b \<Longrightarrow> a + 2 * n \<le> 2 ^ 23 \<Longrightarrow>
    write_sram_loop (\<lambda>x. host_bytes False 2 (be16_to_cpu False (host_word False x))) 2 b a [0..<n] m =
      Some (fill_sram a (samples_be False n b) m)"
proof (induction n)
  case (Suc n)
  then show ?case
    using fill_sram_append [of a "samples_be False n b" _ m]
    by (simp add: write_sram_loop_append host_bytes_be store_sram_fill samples_be_Suc mult.commute)
qed (simp add: samples_be_def)

text \<open>On either CPU the mirror gets the samples in big-endian order.\<close>

lemma rdcu_write_sram_16_samples:
  assumes "unat a + 2 * unat n \<le> 2 ^ 23" "unat a < 2 ^ 23" "2 * unat n \<le> length b"
  shows "rdcu_write_sram_16 big (Some b) a (n * 2) m =
    Some (uint (n * 2), fill_sram (unat a) (samples_be big (unat n) b) m)"
proof -
  have n: "unat (n * 2) = 2 * unat n" using assms(1) by (intro unat_double) simp
  have "unat (a + n * 2) = unat a + 2 * unat n" using assms(1) n by (simp add: unat_add_small)
  then have inside: "\<not> outside_sram a (n * 2)"
    using assms n by (simp add: outside_sram_def word_less_nat_alt RDCU_SRAM_SIZE_def)
  have "unat ((n * 2) AND 1) = 0" unfolding and_one_eq by (simp only: unat_mod n) simp
  then have "(n * 2) AND 1 = 0" by (simp only: unat_eq_0)
  moreover have "unat (n * 2 div 2) = unat n" by (simp add: unat_div n)
  ultimately show ?thesis
    using inside assms n
    by (cases big) (simp_all add: rdcu_write_sram_16_def rdcu_write_sram_def store_sram_fill
        samples_be_True write_sram_loop_samples)
qed

section \<open>A compression\<close>

definition words_up :: "nat \<Rightarrow> nat" where
  "words_up k = 4 * ((k + 3) div 4)"

text \<open>The unit of a transfer is a positive multiple of 4.\<close>

definition unit_ok :: "u32 \<Rightarrow> bool" where
  "unit_ok u \<longleftrightarrow> u \<noteq> 0 \<and> u AND 3 = 0"

lemma transfer_samples_emits:
  assumes alloc: "allocates alloc" and u: "unit_ok u" and a: "sram_buffer a n" and b: "2 * unat n \<le> length b"
  shows "emits u (transfer_samples (Some (x, b)) a n big alloc)
    (\<lambda>m. sram_requests (fill_sram (unat a) (samples_be big (unat n) b) m) (unat u) (unat a) (words_up (2 * unat n)))
    (fill_sram (unat a) (samples_be big (unat n) b))"
proof -
  let ?k = "(n * 2 + 3) AND NOT 3"
  have size: "unat a + 2 * unat n \<le> 2 ^ 23" "unat a < 2 ^ 23" "unat a mod 4 = 0"
    using a by (simp_all add: sram_buffer_def)
  have n2: "unat (n * 2) = 2 * unat n" using size by (intro unat_double) simp
  then have n3: "unat (n * 2 + 3) = 2 * unat n + 3" using size by (simp add: unat_add_small)
  then have k: "unat ?k = words_up (2 * unat n)" by (simp only: unat_and_not_3 words_up_def)
  have "unat a + words_up (2 * unat n) \<le> 2 ^ 23" using size by (simp add: words_up_def) presburger
  then have "\<not> outside_sram a ?k"
    using size k by (simp add: outside_sram_def word_less_nat_alt RDCU_SRAM_SIZE_def unat_add_small)
  moreover have "?k AND 3 = 0" by (simp only: and_3_mod_4 k words_up_def) simp
  ultimately have args: "\<not> transfer_args_invalid a ?k u"
    using u size(3) by (simp add: transfer_args_invalid_def unit_ok_def and_3_mod_4)
  have store: "emits u (write_sram_step big (Some b) a (n * 2)) (\<lambda>_. [])
      (fill_sram (unat a) (samples_be big (unat n) b))"
    by (rule emits_nothing) (simp add: write_sram_step_def rdcu_write_sram_16_samples [OF size(1,2) b])
  have "emits u (to_sram_step a ?k big alloc) (\<lambda>m. sram_requests m (unat u) (unat a) (unat ?k)) (\<lambda>m. m)"
    using mirror_to_sram_emits [OF alloc args, of u big] u
    by (simp add: emits_def to_sram_step_def rdcu_get_data_mtu_def recorded_def unit_ok_def)
  then have steps: "emits u (run_steps [write_sram_step big (Some b) a (n * 2), to_sram_step a ?k big alloc])
    (\<lambda>m. [] @ sram_requests (fill_sram (unat a) (samples_be big (unat n) b) m) (unat u) (unat a) (unat ?k) @ [])
    (fill_sram (unat a) (samples_be big (unat n) b))"
    by (rule emits_run_Cons [OF store emits_run_Cons [OF _ emits_run_Nil]])
  show ?thesis
    unfolding transfer_samples_def using steps
    by (simp only: k append_Nil append_Nil2 option.map snd_conv)
qed

text \<open>The samples of a configuration in the mirror, and the requests that write them to the SRAM.\<close>

definition buffer_ok :: "u32 \<Rightarrow> (nat \<times> buffer) option \<Rightarrow> bool" where
  "buffer_ok n buf \<longleftrightarrow> (case buf of None \<Rightarrow> True | Some (_, b) \<Rightarrow> 2 * unat n \<le> length b)"

definition with_samples :: "bool \<Rightarrow> (nat \<times> buffer) option \<Rightarrow> u32 \<Rightarrow> u32 \<Rightarrow> rdcu_mirror \<Rightarrow> rdcu_mirror" where
  "with_samples big buf a n m =
     (case buf of None \<Rightarrow> m | Some (_, b) \<Rightarrow> fill_sram (unat a) (samples_be big (unat n) b) m)"

definition samples_requests :: "(nat \<times> buffer) option \<Rightarrow> u32 \<Rightarrow> u32 \<Rightarrow> u32 \<Rightarrow> rdcu_mirror \<Rightarrow> request list" where
  "samples_requests buf u a n m =
     (if buf = None then [] else sram_requests m (unat u) (unat a) (words_up (2 * unat n)))"

definition used_model :: "rdcu_cfg_bufs \<Rightarrow> (nat \<times> buffer) option" where
  "used_model c = (if model_mode_is_used (rc_cmp_mode c) then rc_model_buf c else None)"

lemma samples_step_emits:
  assumes "allocates alloc" "unit_ok u" "buf \<noteq> None \<longrightarrow> sram_buffer a n" "buffer_ok n buf"
  shows "emits u (run_steps (if buf \<noteq> None then [transfer_samples buf a n big alloc] else []))
    (\<lambda>m. samples_requests buf u a n (with_samples big buf a n m)) (with_samples big buf a n)"
proof (cases buf)
  case None
  show ?thesis
    using emits_run_Nil [of u] by (simp add: None samples_requests_def with_samples_def [abs_def])
next
  case (Some xb)
  obtain x b where xb: "xb = (x, b)" by (cases xb)
  have "emits u (run_steps [transfer_samples (Some (x, b)) a n big alloc])
    (\<lambda>m. sram_requests (fill_sram (unat a) (samples_be big (unat n) b) m) (unat u) (unat a) (words_up (2 * unat n)))
    (fill_sram (unat a) (samples_be big (unat n) b))"
    by (intro emits_run transfer_samples_emits assms) (use assms Some xb in \<open>simp_all add: buffer_ok_def\<close>)
  then show ?thesis
    by (simp add: Some xb samples_requests_def with_samples_def [abs_def] del: run_steps.simps)
qed

lemma transfer_sram_emits:
  assumes alloc: "allocates alloc" and u: "unit_ok u" and bufs: "buffers_ok c"
    and data: "buffer_ok (rc_samples c) (rc_input_buf c)" and model: "buffer_ok (rc_samples c) (rc_model_buf c)"
  shows "emits u (rdcu_transfer_sram c big alloc)
    (\<lambda>m. let m1 = with_samples big (rc_input_buf c) (rdcu_data_adr c) (rc_samples c) m;
             m2 = with_samples big (used_model c) (rdcu_model_adr c) (rc_samples c) m1 in
      samples_requests (rc_input_buf c) u (rdcu_data_adr c) (rc_samples c) m1 @
      samples_requests (used_model c) u (rdcu_model_adr c) (rc_samples c) m2)
    (\<lambda>m. with_samples big (used_model c) (rdcu_model_adr c) (rc_samples c)
      (with_samples big (rc_input_buf c) (rdcu_data_adr c) (rc_samples c) m))"
proof -
  have eq: "(if rc_model_buf c \<noteq> None \<and> model_mode_is_used (rc_cmp_mode c)
      then [transfer_samples (rc_model_buf c) (rdcu_model_adr c) (rc_samples c) big alloc] else []) =
    (if used_model c \<noteq> None then [transfer_samples (used_model c) (rdcu_model_adr c) (rc_samples c) big alloc] else [])"
    by (simp add: used_model_def)
  have adr: "rc_input_buf c \<noteq> None \<longrightarrow> sram_buffer (rdcu_data_adr c) (rc_samples c)"
    "used_model c \<noteq> None \<longrightarrow> sram_buffer (rdcu_model_adr c) (rc_samples c)"
    using bufs by (auto simp: buffers_ok_def Let_def used_model_def)
  have m: "buffer_ok (rc_samples c) (used_model c)" using model by (simp add: used_model_def buffer_ok_def)
  show ?thesis
    unfolding rdcu_transfer_sram_def eq
    by (rule emits_cong [OF emits_run_append [OF samples_step_emits [OF alloc u adr(1) data]
          emits_run_append [OF samples_step_emits [OF alloc u adr(2) m] emits_run [OF syncing_emits]]]])
      (simp_all add: fun_eq_iff Let_def)
qed

definition started :: "bool \<Rightarrow> rdcu_mirror \<Rightarrow> rdcu_mirror" where
  "started enabled m = rdcu_set_data_compr_start
     (if enabled then rdcu_set_rdcu_interrupt m else rdcu_clear_rdcu_interrupt m)"

lemma start_compression_emits:
  assumes "allocates alloc"
  shows "emits u (rdcu_start_compression enabled big alloc)
    (\<lambda>m. [WRITE_REG COMPR_CTRL (regs (started enabled m) Compr_ctrl)])
    (\<lambda>m. rdcu_clear_data_compr_start (started enabled m))"
  unfolding rdcu_start_compression_def rdcu_sync_compr_ctrl_def
  by (rule emits_cong,
      (rule emits_run_Cons [OF do_step_emits] emits_run_Cons [OF write_register_emits [OF assms]]
        emits_run_Cons [OF syncing_emits] emits_run_Nil rdcu_write_cmd_compr_ctrl_def)+)
    (auto simp: started_def fun_eq_iff)

text \<open>The complete sequence, and the mirror behind it.\<close>

definition with_parameters :: "rdcu_cfg_bufs \<Rightarrow> rdcu_mirror \<Rightarrow> rdcu_mirror" where
  "with_parameters c m = written_parameters c (after_interrupt m)"

definition with_data :: "bool \<Rightarrow> rdcu_cfg_bufs \<Rightarrow> rdcu_mirror \<Rightarrow> rdcu_mirror" where
  "with_data big c m = with_samples big (rc_input_buf c) (rdcu_data_adr c) (rc_samples c) (with_parameters c m)"

definition with_model :: "bool \<Rightarrow> rdcu_cfg_bufs \<Rightarrow> rdcu_mirror \<Rightarrow> rdcu_mirror" where
  "with_model big c m = with_samples big (used_model c) (rdcu_model_adr c) (rc_samples c) (with_data big c m)"

definition compression_requests :: "bool \<Rightarrow> u32 \<Rightarrow> bool \<Rightarrow> rdcu_cfg_bufs \<Rightarrow> rdcu_mirror \<Rightarrow> request list" where
  "compression_requests big u enabled c m =
     [READ_REG USED_COMPR_PARAM_1] @
     (if raw_used m then [interrupt_request m] else []) @
     parameter_requests (with_parameters c m) @
     samples_requests (rc_input_buf c) u (rdcu_data_adr c) (rc_samples c) (with_data big c m) @
     samples_requests (used_model c) u (rdcu_model_adr c) (rc_samples c) (with_model big c m) @
     [WRITE_REG COMPR_CTRL (regs (started enabled (with_model big c m)) Compr_ctrl)]"

lemma compress_data_emits:
  assumes alloc: "allocates alloc" and u: "unit_ok u"
    and c: "rdcu_cmp_cfg_is_invalid (Some c) = 0" "encodable c"
    and data: "buffer_ok (rc_samples c) (rc_input_buf c)" and model: "buffer_ok (rc_samples c) (rc_model_buf c)"
  shows "emits u (rdcu_compress_data enabled (Some c) big alloc) (compression_requests big u enabled c)
    (\<lambda>m. rdcu_clear_data_compr_start (started enabled (with_model big c m)))"
proof -
  have bufs: "buffers_ok c"
    using c encodable_size [OF c(2)] by (intro valid_buffers_ok) (simp_all add: rdcu_cmp_cfg_valid_iff)
  show ?thesis
    unfolding rdcu_compress_data_def option.case
    by (rule emits_cong [OF emits_run_Cons [OF set_compression_register_emits [OF alloc c(1) valid_in_ranges [OF c(1), THEN iffD2, OF c(2)]]
          emits_run_Cons [OF transfer_sram_emits [OF alloc u bufs data model]
          emits_run_Cons [OF start_compression_emits [OF alloc] emits_run_Nil]]]])
      (simp_all add: fun_eq_iff Let_def compression_requests_def with_parameters_def with_data_def with_model_def)
qed

text \<open>
  A configuration that is valid, but has a value that a setter refuses: the call fails behind the first
  requests.
\<close>

lemma compress_data_refused:
  assumes alloc: "allocates alloc" and c: "rdcu_cmp_cfg_is_invalid (Some c) = 0" "\<not> encodable c"
    and st: "recorded u st" "first_slots 0 (trans_log st)"
  shows "\<exists>st'. rdcu_compress_data enabled (Some c) big alloc st = Some (-1, st') \<and>
    link st' = link st @ request_calls st 0 (first_requests (mirror st))"
proof -
  let ?start = "[rdcu_sync_used_param1 big alloc, rdcu_syncing big alloc, interrupt_after_raw big alloc]"
  obtain log where start: "run_steps ?start st = Some (0, st\<lparr>trans_log := log, mirror := after_interrupt (mirror st),
      link := link st @ request_calls st 0 (first_requests (mirror st))\<rparr>)" (is "_ = Some (0, ?st)")
    by (rule emitsD [OF first_requests_emits [OF alloc, of u big] st]) (simp_all add: first_requests_def)
  obtain m where set: "run_steps (set_parameters c) ?st = Some (-1, ?st\<lparr>mirror := m\<rparr>)"
    using set_parameters_outcome [of c ?st] valid_in_ranges [OF c(1)] c(2) by auto
  have "rdcu_set_compression_register (Some c) big alloc st = Some (-1, ?st\<lparr>mirror := m\<rparr>)"
    unfolding rdcu_set_compression_register_run [OF c(1)] run_steps_append
    by (subst run_steps.simps, unfold start, subst run_steps.simps)
      (simp only: bind.bind_lunit prod.case simp_thms if_False set run_steps.simps(2), simp)
  then show ?thesis by (simp add: rdcu_compress_data_def)
qed

end
