(* ===== verification/Rmap_Crc.thy ===== *)
theory Rmap_Crc
  imports Rmap_Packet
begin

unbundle bit_operations_syntax

text \<open>
  The CRC of RMAP packets: the lookup table of the source is the table of the reflected polynomial
  x^8 + x^2 + x + 1 applied bit by bit, a changed byte changes the CRC, and the CRC over a buffer
  with its own CRC appended is 0.
\<close>

section \<open>Bit by bit\<close>

definition crc_step :: "u8 \<Rightarrow> u8" where
  "crc_step c = (if bit c 0 then drop_bit 1 c XOR 0xE0 else drop_bit 1 c)"

definition crc_byte :: "u8 \<Rightarrow> u8" where
  "crc_byte c = (crc_step ^^ 8) c"

fun crc_bits :: "u8 \<Rightarrow> buffer \<Rightarrow> u8" where
  "crc_bits c [] = c"
| "crc_bits c (b # bs) = crc_bits (crc_byte (c XOR b)) bs"

lemma crc_step_XOR: "crc_step (a XOR b) = crc_step a XOR crc_step b"
  by (rule bit_word_eqI) (auto simp: crc_step_def bit_xor_iff bit_drop_bit_eq)

lemma crc_byte_XOR: "crc_byte (a XOR b) = crc_byte a XOR crc_byte b"
  by (simp add: crc_byte_def numeral_eq_Suc crc_step_XOR)

lemma crc_step_0 [simp]: "crc_step 0 = 0"
  by (simp add: crc_step_def)

lemma crc_byte_0 [simp]: "crc_byte 0 = 0"
  by (simp add: crc_byte_def numeral_eq_Suc)

lemma crc_step_eq_0: "crc_step c = 0 \<Longrightarrow> c = 0"
proof (rule bit_word_eqI)
  fix k assume 0: "crc_step c = 0" and k: "k < LENGTH(8)"
  have odd: "\<not> bit c 0"
  proof
    assume "bit c 0"
    then have "bit (crc_step c) 7" by (auto simp: crc_step_def bit_xor_iff bit_drop_bit_eq bit_numeral_rec dest: bit_imp_le_length)
    then show False by (simp add: 0)
  qed
  then have "drop_bit 1 c = 0" using 0 by (simp add: crc_step_def)
  then have "\<not> bit (drop_bit 1 c) (k - 1)" by simp
  then show "bit c k = bit 0 k" using odd by (cases k) (auto simp: bit_drop_bit_eq)
qed

lemma crc_byte_eq_0: "crc_byte c = 0 \<longleftrightarrow> c = 0"
  by (auto simp: crc_byte_def numeral_eq_Suc dest!: crc_step_eq_0)

lemma crc_byte_inj: "crc_byte a = crc_byte b \<longleftrightarrow> a = b"
proof
  assume "crc_byte a = crc_byte b"
  then have "crc_byte (a XOR b) = 0" by (simp add: crc_byte_XOR)
  then have "a XOR b = 0" by (simp add: crc_byte_eq_0)
  then have "(a XOR b) XOR b = 0 XOR b" by simp
  then show "a = b" by (simp add: xor.assoc)
qed simp

section \<open>The table\<close>

lemma crc_byte_steps:
  "crc_byte c =
    crc_step (crc_step (crc_step (crc_step (crc_step (crc_step (crc_step (crc_step c)))))))"
  by (simp add: crc_byte_def numeral_eq_Suc)

lemma crc_step_numeral:
  "crc_step 1 = 0xE0"
  "crc_step (numeral k) =
     (if bit (numeral k :: u8) 0 then drop_bit 1 (numeral k) XOR 0xE0 else drop_bit 1 (numeral k))"
  by (simp_all add: crc_step_def)

lemma crc8_lt_table: "crc8_lt = map (\<lambda>i. crc_byte (word_of_nat i)) [0..<256]"
  by (simp add: upt_conv_Cons crc_byte_steps crc_step_numeral crc8_lt_def)

lemma crc8_lt_nth: "crc8_lt ! unat c = crc_byte (c :: u8)"
proof -
  have "unat c < 256" using unat_less_2p [of c] by simp
  then show ?thesis by (simp add: crc8_lt_table)
qed

lemma rmap_crc8_loop_bits: "rmap_crc8_loop c bs = crc_bits c bs"
  by (induction bs arbitrary: c) (simp_all add: crc8_lt_nth)

section \<open>Detection of errors\<close>

lemma crc_bits_append: "crc_bits c (xs @ ys) = crc_bits (crc_bits c xs) ys"
  by (induction xs arbitrary: c) simp_all

lemma crc_bits_inj: "crc_bits c bs = crc_bits d bs \<longleftrightarrow> c = d"
proof (induction bs arbitrary: c d)
  case (Cons b bs)
  have "c XOR b = d XOR b \<longleftrightarrow> c = d" by (metis xor.assoc xor.right_neutral xor_self_eq)
  then show ?case by (simp add: Cons.IH crc_byte_inj)
qed simp

lemma crc_bits_changed: "crc_bits c (xs @ b # ys) = crc_bits c (xs @ d # ys) \<longleftrightarrow> b = d"
proof -
  have "a XOR b = a XOR d \<longleftrightarrow> b = d" for a :: u8
    by (metis xor.assoc xor.left_neutral xor_self_eq)
  then show ?thesis by (simp add: crc_bits_append crc_bits_inj crc_byte_inj)
qed

lemma crc_bits_own: "crc_bits 0 (bs @ [crc_bits 0 bs]) = 0"
  by (simp add: crc_bits_append)

lemma rmap_crc8_bits: "rmap_crc8 (Some bs) = crc_bits 0 bs"
  by (simp add: rmap_crc8_def rmap_crc8_loop_bits)

end
