(* ===== verification/Rdcu_Packets.thy ===== *)
theory Rdcu_Packets
  imports Rdcu_Sequence Rmap_Crc
begin

unbundle bit_operations_syntax

text \<open>
  Complete packets: what \<open>rdcu_package\<close> makes of a command is read back by \<open>rmap_pkt_from_buffer\<close>, and what a
  reply of the RDCU does to the mirror and the transaction log.
\<close>

section \<open>Commands as frames\<close>

definition cmd_rpath :: "'w rdcu_state \<Rightarrow> buffer" where
  "cmd_rpath st = path_bytes (rpath st) (rpath_len st)"

definition cmd_path :: "'w rdcu_state \<Rightarrow> buffer" where
  "cmd_path st = path_bytes (dpath st) (dpath_len st)"

lemma length_cmd_path: "paths_ok st \<Longrightarrow> length (cmd_path st) = unat (dpath_len st)"
  by (simp add: cmd_path_def paths_ok_def length_path_bytes)

lemma cmd_pkt_simps [simp]:
  "rp_dst (cmd_pkt st t cmd addr n) = rdcu_addr st" "rp_proto_id (cmd_pkt st t cmd addr n) = 1"
  "rp_instruction (cmd_pkt st t cmd addr n) = cmd_instruction cmd (rpath_len st)"
  "rp_key (cmd_pkt st t cmd addr n) = dst_key st" "rp_src (cmd_pkt st t cmd addr n) = icu_addr st"
  "rp_tr_id (cmd_pkt st t cmd addr n) = t" "rp_addr (cmd_pkt st t cmd addr n) = addr"
  "rp_data_len (cmd_pkt st t cmd addr n) = n"
  by (simp_all add: cmd_pkt_def)

lemma cmd_header_frame:
  "cmd_header st t cmd addr n @ crc # tail =
    cmd_path st @ frame (cmd_pkt st t cmd addr n) (cmd_rpath st) crc tail"
  by (simp add: cmd_header_def frame_def cmd_path_def cmd_rpath_def hdr_tail_def)

lemma cmd_rpath_of: "paths_ok st \<Longrightarrow> rpath_of (cmd_pkt st t cmd addr n) (cmd_rpath st)"
proof -
  assume st: "paths_ok st"
  then have "unat (rpath_len st) mod 4 = 0" "unat (rpath_len st) \<le> 12"
    by (simp_all add: paths_ok_def and_3_mod_4 word_le_nat_alt)
  moreover have "drop_bit 2 (rpath_len st) AND 3 = take_bit 2 (drop_bit 2 (rpath_len st))"
    by (simp add: take_bit_eq_mask mask_numeral)
  moreover have "unat (take_bit 2 (drop_bit 2 (rpath_len st))) = unat (rpath_len st) div 4 mod 4"
    unfolding unsigned_take_bit_eq unat_drop_bit by (simp add: take_bit_eq_mod)
  ultimately have "4 * unat (drop_bit 2 (rpath_len st) AND 3) = unat (rpath_len st)"
    by simp presburger
  then show ?thesis
    using st by (simp add: rpath_of_def cmd_rpath_def paths_ok_def length_path_bytes)
qed

lemma cmd_min_hdr_size:
  "rmap_validate_cmd_code cmd = 0 \<Longrightarrow> rmap_get_min_hdr_size (cmd_pkt st t cmd addr n) = 15"
  using valid_cmd [of cmd]
  by (auto simp: rmap_get_min_hdr_size_def Let_def rmap_validate_cmd_code_def split: if_splits)

section \<open>Packages\<close>

definition header_crc :: "'w rdcu_state \<Rightarrow> buffer \<Rightarrow> u8" where
  "header_crc st h = rmap_crc8 (Some (drop (unat (dpath_len st)) h))"

text \<open>The bytes of a package with data.\<close>

definition package :: "'w rdcu_state \<Rightarrow> buffer \<Rightarrow> buffer \<Rightarrow> buffer" where
  "package st h d = h @ [header_crc st h] @ d @ [rmap_crc8 (Some d)]"

lemma store_next: "length pre = k \<Longrightarrow> k + length d \<le> length (pre @ b) \<Longrightarrow>
    store_bytes k d (pre @ b) = Some (pre @ d @ drop (length d) b)"
  by (simp add: store_bytes_def)

lemma cmd_instruction_at: "paths_ok st \<Longrightarrow>
    byte_at (cmd_header st t cmd addr n) (unat (dpath_len st) + RMAP_INSTRUCTION) =
      Some (cmd_instruction cmd (rpath_len st))"
  using byte_at_skip [OF length_cmd_path [of st]]
  by (simp add: cmd_header_def cmd_path_def [symmetric] byte_at_def nth_append length_cmd_path)

lemma length_package [simp]: "length (package st h d) = length h + length d + 2"
  by (simp add: package_def)

lemma rdcu_package_bytes:
  assumes st: "paths_ok st" and cmd: "rmap_validate_cmd_code cmd = 0"
    and d: "d \<noteq> []" "length d mod 4 = 0" "length d \<le> 0xFFFFFF"
    and room: "length (package st (cmd_header st t cmd addr n) d) \<le> length blob"
  defines "h \<equiv> cmd_header st t cmd addr n"
  shows "rdcu_package (Some blob) h (word_of_nat (length h)) (dpath_len st) (Some d) (word_of_nat (length d)) =
    Some (word_of_nat (length h + length d + (if has_data_crc cmd then 2 else 1)), Some (package st h d @ drop (length (package st h d)) blob))"
proof -
  have len: "length h = 15 + unat (dpath_len st) + unat (rpath_len st)" "unat (dpath_len st) \<le> 15"
    "unat (rpath_len st) \<le> 12"
    using st by (simp_all add: h_def length_cmd_header paths_ok_def word_le_nat_alt)
  have ul: "unat (word_of_nat (length h) :: u32) = length h" "unat (word_of_nat (length d) :: u32) = length d"
    by (rule unat_of_nat_small, use len d(3) in simp)+
  have 0: "(word_of_nat (length h) :: u32) \<noteq> 0" "(word_of_nat (length d) :: u32) \<noteq> 0"
    using ul len(1) d(1) by (metis unat_0 add_is_0 zero_neq_numeral, metis length_0_conv unat_0)
  have skip: "\<not> (word_of_nat (length h) :: u32) < ucast (dpath_len st)"
    using ul(1) len(1) by (simp add: word_less_nat_alt unat_ucast_8_32)
  have 4: "(word_of_nat (length d) :: u32) AND 3 = 0" using d(2) ul(2) by (simp add: and_3_mod_4)
  have size: "length h + length d + 2 \<le> length blob" using room by (simp add: h_def)
  have s1: "store_bytes 0 h blob = Some (h @ drop (length h) blob)"
    using store_next [of "[]" 0 h blob] size by simp
  have s2: "store_bytes (length h) [header_crc st h] (h @ drop (length h) blob) =
      Some ((h @ [header_crc st h]) @ drop (length h + 1) blob)"
    using store_next [of h "length h" "[header_crc st h]" "drop (length h) blob"] size by simp
  have s3: "store_bytes (length h + 1) d ((h @ [header_crc st h]) @ drop (length h + 1) blob) =
      Some ((h @ [header_crc st h] @ d) @ drop (length h + 1 + length d) blob)"
    using store_next [of "h @ [header_crc st h]" "length h + 1" d "drop (length h + 1) blob"] size
    by (simp add: add.commute)
  have s4: "store_bytes (length h + 1 + length d) [rmap_crc8 (Some d)]
      ((h @ [header_crc st h] @ d) @ drop (length h + 1 + length d) blob) =
      Some (package st h d @ drop (length (package st h d)) blob)"
    using store_next [of "h @ [header_crc st h] @ d" "length h + 1 + length d" "[rmap_crc8 (Some d)]"
        "drop (length h + 1 + length d) blob"] size
    by (simp add: package_def add.commute)
  show ?thesis
    using 0 4 skip cmd_instruction_at [OF st, of t cmd addr n] valid_cmd [OF cmd] s1 s2 s3 s4
    by (simp add: rdcu_package_def Let_def ul h_def [symmetric] header_crc_def [symmetric] add.assoc)
qed

text \<open>What the receiver of the package reads from it.\<close>

definition received :: "'w rdcu_state \<Rightarrow> u16 \<Rightarrow> u8 \<Rightarrow> u32 \<Rightarrow> buffer \<Rightarrow> rmap_pkt \<Rightarrow> bool" where
  "received st t cmd addr d p \<longleftrightarrow>
     rp_dst p = rdcu_addr st \<and> rp_src p = icu_addr st \<and> rp_key p = dst_key st \<and> rp_tr_id p = t \<and>
     ri_cmd_resp (rp_instruction p) \<and> ri_cmd (rp_instruction p) = cmd \<and>
     rp_addr p = addr \<and> rp_rpath p = Some (cmd_rpath st) \<and> unat (rp_data_len p) = length d \<and>
     rp_data p = Some d \<and> rp_data_crc p = rmap_crc8 (Some d)"

lemma package_received:
  fixes t :: u16 and addr :: u32
  assumes alloc: "\<And>k. alloc k \<noteq> None" and st: "paths_ok st" and cmd: "rmap_validate_cmd_code cmd = 0"
    and d: "d \<noteq> []" "length d \<le> 0xFFFFFF"
  defines "h \<equiv> cmd_header st t cmd addr (word_of_nat (length d))"
  shows "\<exists>p. rmap_pkt_from_buffer alloc (Some (drop (unat (dpath_len st)) (package st h d @ rest)))
      (word_of_nat (length (package st h d) - unat (dpath_len st))) = Some (Some p) \<and> received st t cmd addr d p"
    and "rmap_pkt_from_buffer alloc (Some (drop (unat (dpath_len st)) (package st h d @ rest)))
      (word_of_nat (length (package st h d) - unat (dpath_len st) - 1)) = Some None"
proof -
  let ?p = "cmd_pkt st t cmd addr (word_of_nat (length d))" and ?c = "header_crc st h"
    and ?dc = "rmap_crc8 (Some d)"
  have ud: "unat (word_of_nat (length d) :: u32) = length d" using d(2) by (simp add: unat_of_nat_small)
  have "package st h d @ rest = cmd_path st @ frame ?p (cmd_rpath st) ?c (d @ ?dc # rest)"
    using cmd_header_frame [of st t cmd addr "word_of_nat (length d)" ?c "d @ ?dc # rest"] by (simp add: package_def h_def)
  then have bytes: "drop (unat (dpath_len st)) (package st h d @ rest) = frame ?p (cmd_rpath st) ?c (d @ ?dc # rest)"
    by (simp add: length_cmd_path [OF st])
  have len: "length (package st h d) - unat (dpath_len st) = length (frame ?p (cmd_rpath st) ?c (d @ [?dc]))"
    using st by (simp add: h_def length_cmd_header length_frame length_hdr_tail cmd_rpath_def paths_ok_def
        length_path_bytes)
  have "unat (rpath_len st) \<le> 12" using st by (simp add: paths_ok_def word_le_nat_alt)
  then have small: "length (frame ?p (cmd_rpath st) ?c (d @ [?dc])) < 2 ^ 32"
    using d(2) st by (simp add: length_frame length_hdr_tail cmd_rpath_def paths_ok_def length_path_bytes)
  have "rmap_pkt_from_buffer alloc (Some (frame ?p (cmd_rpath st) ?c (d @ ?dc # rest)))
      (word_of_nat (length (frame ?p (cmd_rpath st) ?c (d @ [?dc])))) =
    Some (Some ((frame_pkt ?p (cmd_rpath st) (frame ?p (cmd_rpath st) ?c (d @ [?dc]) ! 11))
      \<lparr>rp_data := Some d, rp_data_crc := ?dc\<rparr>))"
    by (rule frame_with_data [OF alloc])
      (use cmd d ud small in \<open>simp_all add: cmd_min_hdr_size cmd_rpath_of st unat_of_nat_small word_le_nat_alt\<close>)
  then show "\<exists>p. rmap_pkt_from_buffer alloc (Some (drop (unat (dpath_len st)) (package st h d @ rest)))
      (word_of_nat (length (package st h d) - unat (dpath_len st))) = Some (Some p) \<and> received st t cmd addr d p"
    unfolding bytes len using ud valid_cmd [OF cmd]
    by (auto simp: received_def frame_pkt_def read_as_def)
  have "0 < length (frame ?p (cmd_rpath st) ?c (d @ [?dc]))" by (simp add: length_frame)
  then have cut: "unat (word_of_nat (length (frame ?p (cmd_rpath st) ?c (d @ [?dc])) - 1) :: u32) + 1 =
      length (frame ?p (cmd_rpath st) ?c (d @ [?dc]))"
    using small by (subst unat_of_nat_small) simp_all
  show "rmap_pkt_from_buffer alloc (Some (drop (unat (dpath_len st)) (package st h d @ rest)))
      (word_of_nat (length (package st h d) - unat (dpath_len st) - 1)) = Some None"
    unfolding bytes len
    by (rule frame_cut_short [OF alloc _ _ _ _ _ _ _ cut])
      (use cmd d ud in \<open>simp_all add: cmd_min_hdr_size cmd_rpath_of st word_le_nat_alt\<close>)
qed

section \<open>Replies\<close>

lemma words_of_be_bytes: "words_of_bytes big (be_bytes 4 v) = [host_word big (be_bytes 4 (v :: u32))]"
  by (simp add: words_of_bytes_def)

lemma data_to_cpu_register: "data_to_cpu big (be_bytes 4 v) = host_bytes big 4 (v :: u32)"
  by (cases big)
    (simp_all add: data_to_cpu_def words_of_be_bytes bytes_of_words_def host_word_be, simp add: host_bytes_def)

lemma store_register: "store_local big (REGISTER r) (host_bytes big 4 v) m = Some (set_reg r v m)"
proof -
  obtain rs where "registers_from r = r # rs" using registers_from_Cons by blast
  then show ?thesis by (simp add: store_local_def words_of_register)
qed

text \<open>A reply with the value of a register: to a read command with the identifier \<open>i\<close>.\<close>

definition register_reply :: "rmap_pkt \<Rightarrow> nat \<Rightarrow> bool" where
  "register_reply p i \<longleftrightarrow> rmap_get_min_hdr_size p \<noteq> -1 \<and> rp_proto_id p = 1 \<and>
     \<not> ri_cmd_resp (rp_instruction p) \<and> ri_cmd (rp_instruction p) AND RMAP_CMD_BIT_WRITE = 0 \<and>
     rp_tr_id p = word_of_nat i \<and> rp_data_len p = 4"

definition reply_bytes :: "rmap_pkt \<Rightarrow> u8 \<Rightarrow> u32 \<Rightarrow> u8 \<Rightarrow> buffer" where
  "reply_bytes p crc v dc = frame p [] crc (be_bytes 4 v @ [dc])"

lemma length_reply_bytes: "register_reply p i \<Longrightarrow> length (reply_bytes p crc v dc) = 17"
  by (simp add: reply_bytes_def length_frame length_hdr_tail register_reply_def)

lemma reply_bytes_read:
  assumes alloc: "\<And>k. alloc k \<noteq> None" and p: "register_reply p i"
  shows "\<exists>q. rmap_pkt_from_buffer alloc (Some (reply_bytes p crc v dc @ rest)) 17 = Some (Some q) \<and>
    rp_tr_id q = word_of_nat i \<and> rp_data_len q = 4 \<and> rp_data q = Some (be_bytes 4 v) \<and> rp_data_crc q = dc"
proof -
  have "rmap_pkt_from_buffer alloc (Some (frame p [] crc (be_bytes 4 v @ dc # rest))) 17 =
    Some (Some ((frame_pkt p [] (frame p [] crc (be_bytes 4 v @ [dc]) ! 11))
      \<lparr>rp_data := Some (be_bytes 4 v), rp_data_crc := dc\<rparr>))"
    using p length_reply_bytes [OF p, of crc v dc]
    by (intro frame_with_data [OF alloc])
      (auto simp: register_reply_def rpath_of_def reply_bytes_def simp flip: length_0_conv)
  then show ?thesis
    using p by (auto simp: reply_bytes_def frame_def frame_pkt_def read_as_def register_reply_def)
qed

text \<open>The link delivers one such reply; the slot \<open>i\<close> waits for the register \<open>r\<close>.\<close>

lemma process_rx_register_reply:
  assumes rx: "rmap_rx st = Some rx" "delivers rx queue" "queue (link st) = [reply_bytes p crc v dc]"
    and alloc: "allocates alloc" and p: "register_reply p i"
    and slot: "i < TRANS_LOG_SIZE" "in_use (trans_log st) ! i" "log_addr (trans_log st) ! i = REGISTER r"
  shows "\<exists>w. queue w = [] \<and> rdcu_process_rx big alloc st =
    (if rmap_crc8 (Some (host_bytes big 4 v)) = dc
     then Some (1, st\<lparr>trans_log := trans_log_release_slot (int i) (trans_log st),
       mirror := set_reg r v (mirror st), link := w\<rparr>)
     else Some (-1, st\<lparr>trans_log := trans_log_release_slot (int i) (trans_log st), link := w\<rparr>))"
proof -
  let ?f = "reply_bytes p crc v dc"
  have f: "length ?f = 17" by (rule length_reply_bytes [OF p])
  obtain n b w where peek: "rx None (link st) = (n, b, w)" by (cases "rx None (link st)") auto
  have n: "n = 17" and w: "queue w = [?f]" using delivers_None [OF rx(2) peek] rx(3) f by simp_all
  obtain k where k: "alloc 17 = Some k" "17 \<le> k" using alloc by (auto simp: allocates_def)
  obtain n' b' w' where get: "rx (Some (replicate k 0)) w = (n', b', w')"
    by (cases "rx (Some (replicate k 0)) w") auto
  have n': "n' = 17" and b': "b' = Some (?f @ drop 17 (replicate k 0))" and w': "queue w' = []"
    using delivers_Some [OF rx(2) get w] k f by simp_all
  obtain m c u where last: "rx None w' = (m, c, u)" by (cases "rx None w'") auto
  have m: "m = 0" and u: "queue u = []" using delivers_None [OF rx(2) last] w' by simp_all
  obtain q where q: "rmap_pkt_from_buffer alloc (Some (?f @ drop 17 (replicate k 0))) 17 = Some (Some q)"
    and fields: "rp_tr_id q = word_of_nat i" "rp_data_len q = 4" "rp_data q = Some (be_bytes 4 v)" "rp_data_crc q = dc"
    using reply_bytes_read [where alloc = alloc, OF allocates_not_None [OF alloc] p] by blast
  have id: "uint (word_of_nat i :: u16) = int i"
    using slot(1) by (simp add: uint_nat unat_of_nat take_bit_nat_eq_self_iff del: of_nat_unat)
  have addr: "trans_log_get_addr (int i) (trans_log st) = REGISTER r"
    using slot by (simp add: trans_log_get_addr_def)
  have step: "process_packet big q s = Some (if rmap_crc8 (Some (host_bytes big 4 v)) = dc
      then (True, s\<lparr>trans_log := trans_log_release_slot (int i) (trans_log s), mirror := set_reg r v (mirror s)\<rparr>)
      else (False, s\<lparr>trans_log := trans_log_release_slot (int i) (trans_log s)\<rparr>))"
    if "trans_log s = trans_log st" for s :: "'a rdcu_state"
    using addr that fields by (simp add: process_packet_def id data_to_cpu_register store_register Let_def)
  show ?thesis
  proof (cases "rmap_crc8 (Some (host_bytes big 4 v)) = dc")
    case True
    have "rdcu_process_rx big alloc st = Some (1, st\<lparr>trans_log := trans_log_release_slot (int i) (trans_log st),
       mirror := set_reg r v (mirror st), link := u\<rparr>)"
      using rx(1) peek n k get n' b' q step True last m
      by (simp add: rdcu_process_rx_def process_rx_loop.simps [of big alloc rx] Let_def)
    then show ?thesis using u True by auto
  next
    case False
    have "rdcu_process_rx big alloc st = Some (-1, st\<lparr>trans_log := trans_log_release_slot (int i) (trans_log st),
       link := w'\<rparr>)"
      using rx(1) peek n k get n' b' q step False
      by (simp add: rdcu_process_rx_def process_rx_loop.simps [of big alloc rx] Let_def)
    then show ?thesis using w' False by auto
  qed
qed

end
