(* ===== verification/Ground_Rdcu.thy ===== *)
theory Ground_Rdcu
  imports Rdcu_Packets
begin

text \<open>
  A configuration of the hardware compressor with two samples and a state of the library with an empty
  transaction log, for the instances of its properties.
\<close>

definition demo_cfg :: rdcu_cfg_bufs where
  "demo_cfg = \<lparr>rc_samples = 2, rc_buffer_length = 4, rdcu_data_adr = 0, rdcu_model_adr = 0,
     rdcu_new_model_adr = 0, rdcu_buffer_adr = 16, rc_cmp_mode = CMP_MODE_DIFF_ZERO, rc_model_value = 8,
     rc_round = 1, rc_golomb_par = 7, rc_spill = 60, rc_ap1_golomb_par = 6, rc_ap1_spill = 48,
     rc_ap2_golomb_par = 8, rc_ap2_spill = 72, rc_input_buf = Some (100, [0, 1, 0, 2]), rc_model_buf = None,
     rc_icu_new_model_buf = None, rc_icu_output_buf = None\<rparr>"

definition demo_mirror :: rdcu_mirror where
  "demo_mirror = \<lparr>regs = \<lambda>_. 0, sram = \<lambda>_. 0\<rparr>"

definition demo_state ::
  "'w tx_function option \<Rightarrow> 'w rx_function option \<Rightarrow> trans_log \<Rightarrow> 'w \<Rightarrow> 'w rdcu_state" where
  "demo_state tx rx log w = \<lparr>rdcu_addr = 0xFE, icu_addr = 0xA7, dpath = None, rpath = None, dpath_len = 0,
     rpath_len = 0, dst_key = 0, rmap_tx = tx, rmap_rx = rx, data_mtu = 4, trans_log = log,
     mirror = demo_mirror, link = w\<rparr>"

lemma demo_state_simps [simp]:
  "link (demo_state tx rx log w) = w" "trans_log (demo_state tx rx log w) = log"
  "rmap_rx (demo_state tx rx log w) = rx" "mirror (demo_state tx rx log w) = demo_mirror"
  "rmap_tx (demo_state tx rx log w) = tx"
  "dpath_len (demo_state tx rx log w) = 0" "rpath_len (demo_state tx rx log w) = 0"
  by (simp_all add: demo_state_def)

lemma demo_paths [simp]: "paths_ok (demo_state tx rx log w)"
  by (simp add: paths_ok_def demo_state_def path_ok_def)

lemma demo_recorded: "recorded 4 (demo_state (Some recording_tx) (Some silent_rx) log w)"
  by (simp add: recorded_def) (simp add: demo_state_def)

lemma first_slots_init: "first_slots 0 trans_log_init"
  by (simp add: first_slots_def trans_log_init_def)

lemma allocates_Some: "allocates Some"
  by (simp add: allocates_def)

lemma demo_cfg_valid: "rdcu_cmp_cfg_is_invalid (Some demo_cfg) = 0"
  by (simp add: rdcu_cmp_cfg_valid_iff gen_pars_valid_iff imagette_valid_iff golomb_spill_valid_iff demo_cfg_def
      buffers_valid_iff buffers_overlap_def outside_sram_range_iff cmp_mode_is_supported_def
      model_mode_is_used_def cmp_ima_max_spill_def LUT_MAX_RDCU_def)

text \<open>A configuration in a model mode, and one whose number of samples the check takes for 0.\<close>

definition demo_model_cfg :: rdcu_cfg_bufs where
  "demo_model_cfg = demo_cfg\<lparr>rc_cmp_mode := CMP_MODE_MODEL_MULTI, rdcu_model_adr := 32, rdcu_new_model_adr := 48,
     rc_model_buf := Some (200, [0, 3, 0, 4])\<rparr>"

definition demo_wrapped_cfg :: rdcu_cfg_bufs where
  "demo_wrapped_cfg = demo_cfg\<lparr>rc_samples := 0x80000000\<rparr>"

lemma demo_model_cfg_valid: "rdcu_cmp_cfg_is_invalid (Some demo_model_cfg) = 0"
  by (simp add: rdcu_cmp_cfg_valid_iff gen_pars_valid_iff imagette_valid_iff golomb_spill_valid_iff demo_cfg_def
      demo_model_cfg_def buffers_valid_iff buffers_overlap_def outside_sram_range_iff cmp_mode_is_supported_def
      model_mode_is_used_def model_buffer_valid_iff updated_model_valid_iff cmp_ima_max_spill_def LUT_MAX_RDCU_def)

lemma demo_wrapped_cfg_valid: "rdcu_cmp_cfg_is_invalid (Some demo_wrapped_cfg) = 0"
  by (simp add: rdcu_cmp_cfg_valid_iff gen_pars_valid_iff imagette_valid_iff golomb_spill_valid_iff demo_cfg_def
      demo_wrapped_cfg_def buffers_valid_iff buffers_overlap_def outside_sram_range_iff cmp_mode_is_supported_def
      model_mode_is_used_def cmp_ima_max_spill_def LUT_MAX_RDCU_def)

text \<open>A valid configuration in a mode without a model, with an address of the model that is not aligned.\<close>

definition demo_refused_cfg :: rdcu_cfg_bufs where
  "demo_refused_cfg = demo_cfg\<lparr>rdcu_model_adr := 2\<rparr>"

lemma demo_refused_cfg_valid: "rdcu_cmp_cfg_is_invalid (Some demo_refused_cfg) = 0"
  by (simp add: rdcu_cmp_cfg_valid_iff gen_pars_valid_iff imagette_valid_iff golomb_spill_valid_iff demo_cfg_def
      demo_refused_cfg_def buffers_valid_iff buffers_overlap_def outside_sram_range_iff cmp_mode_is_supported_def
      model_mode_is_used_def cmp_ima_max_spill_def LUT_MAX_RDCU_def)

lemma demo_refused_cfg_encodable: "\<not> encodable demo_refused_cfg"
  by (simp add: encodable_def demo_refused_cfg_def)

lemma demo_refused_buffers: "buffer_ok (rc_samples demo_refused_cfg) (rc_input_buf demo_refused_cfg)"
    "buffer_ok (rc_samples demo_refused_cfg) (rc_model_buf demo_refused_cfg)"
  by (simp_all add: buffer_ok_def demo_cfg_def demo_refused_cfg_def)

lemma demo_cfg_encodable: "encodable demo_cfg"
  by (simp add: encodable_def demo_cfg_def)

lemma demo_buffers: "buffer_ok (rc_samples demo_cfg) (rc_input_buf demo_cfg)"
    "buffer_ok (rc_samples demo_cfg) (rc_model_buf demo_cfg)"
  by (simp_all add: buffer_ok_def demo_cfg_def)

lemma demo_unit: "unit_ok 4"
  by (simp add: unit_ok_def)

text \<open>Two samples are one request, with the mode RAW in the register of the used parameters there is an
  interrupt.\<close>

lemma demo_requests: "length (compression_requests big 4 enabled demo_cfg demo_mirror) = 14"
proof -
  have "used_model demo_cfg = None" by (simp add: used_model_def demo_cfg_def model_mode_is_used_def)
  moreover have "raw_used demo_mirror" by (simp add: raw_used_def rdcu_get_compression_mode_def demo_mirror_def)
  moreover have "length (samples_requests (rc_input_buf demo_cfg) 4 a (rc_samples demo_cfg) m) = 1" for a m
    by (simp add: samples_requests_def demo_cfg_def words_up_def sram_requests.simps [of _ 4 _ 4])
  ultimately show ?thesis
    by (simp add: compression_requests_def parameter_requests_def samples_requests_def)
qed

lemma demo_refused_requests: "length (compression_requests big 4 enabled demo_refused_cfg demo_mirror) = 14"
proof -
  have "used_model demo_refused_cfg = None"
    by (simp add: used_model_def demo_cfg_def demo_refused_cfg_def model_mode_is_used_def)
  moreover have "raw_used demo_mirror" by (simp add: raw_used_def rdcu_get_compression_mode_def demo_mirror_def)
  moreover have "length (samples_requests (rc_input_buf demo_refused_cfg) 4 a (rc_samples demo_refused_cfg) m) = 1" for a m
    by (simp add: samples_requests_def demo_cfg_def demo_refused_cfg_def words_up_def sram_requests.simps [of _ 4 _ 4])
  ultimately show ?thesis
    by (simp add: compression_requests_def parameter_requests_def samples_requests_def)
qed

lemma demo_first_requests:
  "first_requests demo_mirror = [READ_REG USED_COMPR_PARAM_1, interrupt_request demo_mirror]"
  by (simp add: first_requests_def raw_used_def rdcu_get_compression_mode_def demo_mirror_def)

lemma demo_run:
  "\<exists>st'. rdcu_compress_data True (Some demo_cfg) False Some
    (demo_state (Some recording_tx) (Some silent_rx) trans_log_init []) = Some (0, st')"
proof -
  note emits = compress_data_emits [OF allocates_Some demo_unit demo_cfg_valid demo_cfg_encodable demo_buffers,
    of True False]
  show ?thesis
    by (rule emitsD [OF emits demo_recorded, of 0 trans_log_init "[]"])
      (auto simp: demo_requests first_slots_init)
qed

section \<open>Replies\<close>

text \<open>A link that holds the packets to deliver.\<close>

definition queue_rx :: "buffer list rx_function" where
  "queue_rx b w = (case w of
       [] \<Rightarrow> (0, b, w)
     | p # ps \<Rightarrow> (word_of_nat (length p), map_option (\<lambda>b. p @ drop (length p) b) b, if b = None then w else ps))"

lemma queue_rx_delivers: "delivers queue_rx (\<lambda>w. w)"
  by (auto simp: delivers_def queue_rx_def split: list.split)

lemma enough_Some: "enough Some"
  by (simp add: enough_def)

text \<open>A log with one transaction, for the last register, and a reply to it with two words of data.\<close>

definition last_register_log :: trans_log where
  "last_register_log = snd (trans_log_grab_slot (REGISTER Sram_edac_status) trans_log_init)"

definition long_reply :: buffer where
  "long_reply = [0xA7, 1, 0x0C, 0, 0xFE, 0, 0, 0, 0, 0, 8, 0, 1, 2, 3, 4, 5, 6, 7, 8,
     rmap_crc8 (Some [1, 2, 3, 4, 5, 6, 7, 8])]"

lemma last_register_room: "length (registers_from Sram_edac_status) = 1"
  by (simp add: registers_from_def rdcu_registers_def)

lemma last_register_addr:
  "trans_log_get_addr i last_register_log = (if i = 0 then REGISTER Sram_edac_status else NULL_ADDR)"
  by (auto simp: last_register_log_def trans_log_grab_slot_def trans_log_init_def trans_log_get_addr_def
      numeral_eq_Suc nth_Cons split: nat.split)

lemma last_register_slots: "length (in_use last_register_log) = 64"
  by (simp add: last_register_log_def trans_log_grab_slot_def trans_log_init_def numeral_eq_Suc)

lemma long_reply_overruns:
  "\<exists>rp. rmap_pkt_from_buffer Some (Some long_reply) 21 = Some (Some rp) \<and>
    reply_overruns True last_register_log rp"
proof -
  let ?p = "\<lparr>rp_path = None, rp_path_len = 0, rp_dst = 0xA7, rp_proto_id = 1, rp_instruction = 0x0C, rp_key = 0,
    rp_src = 0xFE, rp_rpath = None, rp_rpath_len = 0, rp_tr_id = 0, rp_addr = 0, rp_data = None, rp_data_len = 8,
    rp_hdr_crc = 0, rp_data_crc = 0\<rparr>"
  let ?d = "[1, 2, 3, 4, 5, 6, 7, 8] :: buffer"
  let ?f = "frame ?p [] 0 (?d @ [rmap_crc8 (Some ?d)])"
  have kind: "\<not> ri_cmd_resp 0x0C" "ri_cmd 0x0C AND RMAP_CMD_BIT_WRITE = 0"
    by (simp_all add: ri_cmd_resp_def ri_cmd_def)
  have f: "long_reply = ?f"
    by (simp add: long_reply_def frame_def hdr_tail_def kind be_bytes_2 be_bytes_3 be_bytes_4)
  moreover have "length long_reply = 21" by (simp add: long_reply_def)
  ultimately have "length ?f \<le> unat (21 :: u32)" by simp
  then have "rmap_pkt_from_buffer Some (Some (frame ?p [] 0 (?d @ rmap_crc8 (Some ?d) # []))) 21 =
    Some (Some ((frame_pkt ?p [] (?f ! 11))\<lparr>rp_data := Some ?d, rp_data_crc := rmap_crc8 (Some ?d)\<rparr>))"
    using kind
    by (intro frame_with_data) (simp_all add: rpath_of_def rmap_get_min_hdr_size_def ri_cmd_resp_def ri_cmd_def Let_def)
  moreover have "reply_overruns True last_register_log
      ((frame_pkt ?p [] c)\<lparr>rp_data := Some ?d, rp_data_crc := rmap_crc8 (Some ?d)\<rparr>)" for c
    using last_register_room kind
    by (simp add: reply_overruns_def last_register_addr frame_pkt_def read_as_def data_to_cpu_def)
  ultimately show ?thesis unfolding f by auto
qed

end
