(* ===== verification/Gr718b_Rmap.thy ===== *)
theory Gr718b_Rmap
  imports Rdcu_Rmap
begin

unbundle bit_operations_syntax

text \<open>
  The configuration port of the GR718B SpaceWire router (\<open>lib/rdcu_compress/gr718b_rmap.c\<close>): every
  operation sets or clears bits of one register with a read-modify-write command and waits for
  the response. The static variables and the link form the state; as for the RDCU the link
  functions are arbitrary. The response is only printed, so it does not change the state.
\<close>

section \<open>State and constants\<close>

record 'w gr718b_state =
  src_tla :: u8
  gr_tx :: "'w tx_function option"
  gr_rx :: "'w rx_function option"
  gr_link :: 'w

abbreviation (input) "GR718B_RMAP_CFG_PORT \<equiv> 0 :: u8"
abbreviation (input) "GR718B_PHYS_PORT_END \<equiv> 19 :: u8"
abbreviation (input) "GR718B_LOG_ADDR_START \<equiv> 32 :: u8"
abbreviation (input) "GR718B_RMAP_CFG_PORT_TLA \<equiv> 0xFE :: u8"
abbreviation (input) "GR718B_RMAP_CFG_PORT_DEST_KEY \<equiv> 0x00 :: u8"
abbreviation (input) "GR718B_RMAP_RTPMAP_BASE \<equiv> 0x00000000 :: u32"
abbreviation (input) "GR718B_RMAP_RTACTRL_BASE \<equiv> 0x00000400 :: u32"
abbreviation (input) "GR718B_RMAP_PCTRL_BASE \<equiv> 0x00000800 :: u32"
abbreviation (input) "GR718B_RTACTRL_HDRDEL_BIT \<equiv> 0 :: nat"
abbreviation (input) "GR718B_RTACTRL_ENABLE_BIT \<equiv> 2 :: nat"
abbreviation (input) "GR718B_PCTRL_LINK_START_BIT \<equiv> 1 :: nat"
abbreviation (input) "GR718B_PCTRL_TIME_CODE_ENABLE_BIT \<equiv> 5 :: nat"
abbreviation (input) "GR718B_PCTRL_RUN_CLK_DIV_SHIFT \<equiv> 24 :: nat"
abbreviation (input) "GR718B_PCTRL_RUN_CLK_DIV_WIDTH \<equiv> 8 :: nat"

section \<open>The command\<close>

definition gr718b_gen_cmd ::
  "malloc \<Rightarrow> 'w gr718b_state \<Rightarrow> u16 \<Rightarrow> cmd_buffer \<Rightarrow> u8 \<Rightarrow> u32 \<Rightarrow> u32 \<Rightarrow> gen_result" where
  "gr718b_gen_cmd alloc st trans_id cmd rmap_cmd_type addr n_bytes =
     (case rmap_create_packet alloc of
        None \<Rightarrow> Some (0, cmd)
      | Some p \<Rightarrow> do {
          let pkt = rmap_set_dst GR718B_RMAP_CFG_PORT_TLA (Some p);
          (_, pkt) \<leftarrow> rmap_set_dest_path alloc (Some [GR718B_RMAP_CFG_PORT]) 1 pkt;
          let pkt = rmap_set_key GR718B_RMAP_CFG_PORT_DEST_KEY (rmap_set_src (src_tla st) pkt);
          let pkt = snd (rmap_set_cmd rmap_cmd_type pkt);
          let pkt = rmap_set_data_addr addr (rmap_set_tr_id trans_id pkt);
          let pkt = snd (rmap_set_data_len n_bytes pkt);
          (n, _) \<leftarrow> rmap_build_hdr pkt None;
          case cmd of
            None \<Rightarrow> Some (n, cmd)
          | Some buf \<Rightarrow> do {
              buf \<leftarrow> (if n < 0 then None else store_bytes 0 (replicate (nat n) 0) buf);
              rmap_build_hdr pkt (Some buf)
            }
        })"

text \<open>The wait for a response: \<open>rmap_rx(NULL)\<close> until it reports a packet.\<close>

partial_function (option) wait_response :: "'w rx_function \<Rightarrow> 'w \<Rightarrow> (u32 \<times> 'w) option" where
  [code]: "wait_response rx w =
     (case rx None w of (s, _, w) \<Rightarrow> if s = 0 then wait_response rx w else Some (s, w))"

definition gr718b_rmw_reg ::
  "bool \<Rightarrow> malloc \<Rightarrow> u32 \<Rightarrow> u32 \<Rightarrow> u32 \<Rightarrow> 'w gr718b_state \<Rightarrow> (int \<times> 'w gr718b_state) option" where
  "gr718b_rmw_reg big alloc reg data msk st =
     (case gr_tx st of None \<Rightarrow> Some (-1, st)
      | Some tx \<Rightarrow>
     (case gr_rx st of None \<Rightarrow> Some (-1, st)
      | Some rx \<Rightarrow> do {
          let payload = host_bytes big 4 data @ host_bytes big 4 msk;
          (n, cmd) \<leftarrow> gr718b_gen_cmd alloc st 0 (Some (replicate 32 0))
            RMAP_READ_MODIFY_WRITE_ADDR_INC reg 8;
          hdr \<leftarrow> cmd;
          case tx hdr (word_of_int n) 1 (Some payload) 8 (gr_link st) of (n, w) \<Rightarrow>
            let st = st\<lparr>gr_link := w\<rparr> in
            if n \<noteq> 0 then Some (-1, st)
            else do {
              (s, w) \<leftarrow> wait_response rx (gr_link st);
              if s > 32 then Some (-1, st\<lparr>gr_link := w\<rparr>)
              else case rx (Some hdr) w of (_, _, w) \<Rightarrow> Some (0, st\<lparr>gr_link := w\<rparr>)
            }
        }))"

section \<open>Addresses\<close>

definition gr718b_get_rmap_rtpmap_reg :: "u8 \<Rightarrow> u32" where
  "gr718b_get_rmap_rtpmap_reg spw_addr = GR718B_RMAP_RTPMAP_BASE + ucast spw_addr * 4"

definition gr718b_get_rmap_rtactrl_reg :: "u8 \<Rightarrow> u32" where
  "gr718b_get_rmap_rtactrl_reg spw_addr = GR718B_RMAP_RTACTRL_BASE + ucast spw_addr * 4"

definition gr718b_get_rmap_pctrl_reg :: "u8 \<Rightarrow> u32" where
  "gr718b_get_rmap_pctrl_reg port = GR718B_RMAP_PCTRL_BASE + ucast port * 4"

definition gr718b_verify_port :: "u8 \<Rightarrow> int" where
  "gr718b_verify_port port =
     (if port = 0 then -1 else if port > GR718B_PHYS_PORT_END then -1 else 0)"

definition gr718b_verify_addr :: "u8 \<Rightarrow> int" where
  "gr718b_verify_addr addr =
     (if addr = 0 then -1
      else if addr > GR718B_PHYS_PORT_END \<and> addr < GR718B_LOG_ADDR_START then -1 else 0)"

definition gr718b_verify_port_physical :: "u8 \<Rightarrow> int" where
  "gr718b_verify_port_physical addr =
     (if gr718b_verify_addr addr \<noteq> 0 then -1 else if addr > GR718B_PHYS_PORT_END then -1 else 0)"

section \<open>Operations\<close>

type_synonym 'w gr718b_op = "bool \<Rightarrow> malloc \<Rightarrow> 'w gr718b_state \<Rightarrow> (int \<times> 'w gr718b_state) option"

definition gr718b_set_route_port :: "u8 \<Rightarrow> u8 \<Rightarrow> 'w gr718b_op" where
  "gr718b_set_route_port addr port big alloc st =
     (if gr718b_verify_port port \<noteq> 0 then Some (-1, st)
      else if gr718b_verify_addr addr \<noteq> 0 then Some (-1, st)
      else let bits = push_bit (unat port) 1; reg = gr718b_get_rmap_rtpmap_reg addr in
        gr718b_rmw_reg big alloc reg bits bits st)"

definition gr718b_clear_route_port :: "u8 \<Rightarrow> u8 \<Rightarrow> 'w gr718b_op" where
  "gr718b_clear_route_port addr port big alloc st =
     (if gr718b_verify_port port \<noteq> 0 then Some (-1, st)
      else if gr718b_verify_addr addr \<noteq> 0 then Some (-1, st)
      else let bits = push_bit (unat port) 1; reg = gr718b_get_rmap_rtpmap_reg addr in
        gr718b_rmw_reg big alloc reg 0 bits st)"

definition gr718b_set_addr_header_deletion :: "u8 \<Rightarrow> 'w gr718b_op" where
  "gr718b_set_addr_header_deletion addr big alloc st =
     (if gr718b_verify_addr addr \<noteq> 0 then Some (-1, st)
      else if addr \<le> GR718B_PHYS_PORT_END then Some (0, st)
      else let bits = push_bit GR718B_RTACTRL_HDRDEL_BIT 1; reg = gr718b_get_rmap_rtactrl_reg addr in
        gr718b_rmw_reg big alloc reg bits bits st)"

definition gr718b_clear_addr_header_deletion :: "u8 \<Rightarrow> 'w gr718b_op" where
  "gr718b_clear_addr_header_deletion addr big alloc st =
     (if gr718b_verify_addr addr \<noteq> 0 then Some (-1, st)
      else if addr \<le> GR718B_PHYS_PORT_END then Some (0, st)
      else let bits = push_bit GR718B_RTACTRL_HDRDEL_BIT 1; reg = gr718b_get_rmap_rtactrl_reg addr in
        gr718b_rmw_reg big alloc reg 0 bits st)"

definition gr718b_set_rtactrl_enabled :: "u8 \<Rightarrow> 'w gr718b_op" where
  "gr718b_set_rtactrl_enabled addr big alloc st =
     (if gr718b_verify_addr addr \<noteq> 0 then Some (-1, st)
      else if addr \<le> GR718B_PHYS_PORT_END then Some (0, st)
      else let bits = push_bit GR718B_RTACTRL_ENABLE_BIT 1; reg = gr718b_get_rmap_rtactrl_reg addr in
        gr718b_rmw_reg big alloc reg bits bits st)"

definition gr718b_clear_rtactrl_enabled :: "u8 \<Rightarrow> 'w gr718b_op" where
  "gr718b_clear_rtactrl_enabled addr big alloc st =
     (if gr718b_verify_addr addr \<noteq> 0 then Some (-1, st)
      else if addr \<le> GR718B_PHYS_PORT_END then Some (0, st)
      else let bits = push_bit GR718B_RTACTRL_ENABLE_BIT 1; reg = gr718b_get_rmap_rtactrl_reg addr in
        gr718b_rmw_reg big alloc reg 0 bits st)"

definition gr718b_set_rt_clkdiv :: "u8 \<Rightarrow> u8 \<Rightarrow> 'w gr718b_op" where
  "gr718b_set_rt_clkdiv port clkdiv big alloc st =
     (if gr718b_verify_port_physical port \<noteq> 0 then Some (-1, st)
      else
        let msk = push_bit GR718B_PCTRL_RUN_CLK_DIV_SHIFT (push_bit GR718B_PCTRL_RUN_CLK_DIV_WIDTH 1 - 1);
            data = push_bit GR718B_PCTRL_RUN_CLK_DIV_SHIFT (ucast clkdiv);
            reg = gr718b_get_rmap_pctrl_reg port in
        gr718b_rmw_reg big alloc reg data msk st)"

definition gr718b_set_link_start :: "u8 \<Rightarrow> 'w gr718b_op" where
  "gr718b_set_link_start port big alloc st =
     (if gr718b_verify_port_physical port \<noteq> 0 then Some (-1, st)
      else let bits = push_bit GR718B_PCTRL_LINK_START_BIT 1; reg = gr718b_get_rmap_pctrl_reg port in
        gr718b_rmw_reg big alloc reg bits bits st)"

definition gr718b_clear_link_start :: "u8 \<Rightarrow> 'w gr718b_op" where
  "gr718b_clear_link_start port big alloc st =
     (if gr718b_verify_port_physical port \<noteq> 0 then Some (-1, st)
      else let bits = push_bit GR718B_PCTRL_LINK_START_BIT 1; reg = gr718b_get_rmap_pctrl_reg port in
        gr718b_rmw_reg big alloc reg 0 bits st)"

definition gr718b_set_time_code_enable :: "u8 \<Rightarrow> 'w gr718b_op" where
  "gr718b_set_time_code_enable port big alloc st =
     (if gr718b_verify_port_physical port \<noteq> 0 then Some (-1, st)
      else let bits = push_bit GR718B_PCTRL_TIME_CODE_ENABLE_BIT 1; reg = gr718b_get_rmap_pctrl_reg port in
        gr718b_rmw_reg big alloc reg bits bits st)"

definition gr718b_clear_time_code_enable :: "u8 \<Rightarrow> 'w gr718b_op" where
  "gr718b_clear_time_code_enable port big alloc st =
     (if gr718b_verify_port_physical port \<noteq> 0 then Some (-1, st)
      else let bits = push_bit GR718B_PCTRL_TIME_CODE_ENABLE_BIT 1; reg = gr718b_get_rmap_pctrl_reg port in
        gr718b_rmw_reg big alloc reg 0 bits st)"

definition gr718b_rmap_init ::
  "u8 \<Rightarrow> 'w tx_function option \<Rightarrow> 'w rx_function option \<Rightarrow> 'w gr718b_state \<Rightarrow> int \<times> 'w gr718b_state" where
  "gr718b_rmap_init addr tx rx st =
     (if tx = None then (-1, st)
      else if rx = None then (-1, st)
      else (0, st\<lparr>src_tla := addr, gr_tx := tx, gr_rx := rx\<rparr>))"

end
