(* ===== verification/Gr718b_Laws.thy ===== *)
theory Gr718b_Laws
  imports Rdcu_Cmd_Laws Gr718b_Rmap Header_Fields
begin

unbundle bit_operations_syntax

text \<open>
  The operations on the router as updates of its registers. The router itself is not part of the code:
  \<open>router\<close> states its documented behaviour, that a read-modify-write command for a register replaces the bits
  of the mask by the bits of the data, both read in big-endian order, and that a reply of at most 32 bytes arrives
  after finitely many questions for it. The code sends data and mask in the order of the CPU, so that on a
  little-endian one their bytes arrive reversed.
\<close>

section \<open>The command\<close>

definition rmw_header :: "u8 \<Rightarrow> u32 \<Rightarrow> buffer" where
  "rmw_header src reg = [0, 0xFE, 1, cmd_instruction RMAP_READ_MODIFY_WRITE_ADDR_INC 0, 0, src, 0, 0, 0] @
     be_bytes 4 reg @ [0, 0, 8]"

lemma length_rmw_header [simp]: "length (rmw_header src reg) = 16"
  by (simp add: rmw_header_def)

definition rmw_pkt :: "u8 \<Rightarrow> u32 \<Rightarrow> rmap_pkt" where
  "rmw_pkt src reg = \<lparr>rp_path = Some [0], rp_path_len = 1, rp_dst = 0xFE, rp_proto_id = 1,
     rp_instruction = cmd_instruction RMAP_READ_MODIFY_WRITE_ADDR_INC 0, rp_key = 0, rp_src = src,
     rp_rpath = None, rp_rpath_len = 0, rp_tr_id = 0, rp_addr = reg, rp_data = None,
     rp_data_len = 8, rp_hdr_crc = 0, rp_data_crc = 0\<rparr>"

lemma rmw_pkt_bytes: "rmap_hdr_bytes (rmw_pkt src reg) = Some (rmw_header src reg)"
proof -
  have "rmap_hdr_bytes (rmw_pkt src reg) = Some ([0] @ [0xFE, 1, cmd_instruction RMAP_READ_MODIFY_WRITE_ADDR_INC 0, 0] @
      [] @ hdr_tail (rmw_pkt src reg))"
    using rmap_hdr_bytes_ok [of "rmw_pkt src reg"] by (simp add: rmw_pkt_def path_ok_def path_bytes_def)
  then show ?thesis
    by (simp add: hdr_tail_def rmw_header_def) (simp add: rmw_pkt_def be_bytes_numeral)
qed

lemma rmw_pkt_size: "rmap_build_hdr (Some (rmw_pkt src reg)) None = Some (16, None)"
  by (simp add: rmap_build_hdr_def rmap_get_min_hdr_size_def rmw_pkt_def Let_def)

lemma gr718b_gen_cmd_rmw:
  assumes "\<And>k. alloc k \<noteq> None"
  shows "gr718b_gen_cmd alloc st 0 (Some (replicate 32 0)) RMAP_READ_MODIFY_WRITE_ADDR_INC reg 8 =
    Some (16, Some (rmw_header (src_tla st) reg @ replicate 16 0))"
proof -
  have v: "rmap_validate_cmd_code RMAP_READ_MODIFY_WRITE_ADDR_INC = 0" by (simp add: rmap_validate_cmd_code_def)
  have "gr718b_gen_cmd alloc st 0 (Some (replicate 32 0)) RMAP_READ_MODIFY_WRITE_ADDR_INC reg 8 = do {
      (n, _) \<leftarrow> rmap_build_hdr (Some (rmw_pkt (src_tla st) reg)) None;
      buf \<leftarrow> (if n < 0 then None else store_bytes 0 (replicate (nat n) 0) (replicate 32 0));
      rmap_build_hdr (Some (rmw_pkt (src_tla st) reg)) (Some buf) }"
    using set_dest_path_ok [where alloc = alloc and path = "Some [0]" and len = 1] assms
    by (simp add: gr718b_gen_cmd_def create_packet_ok rmap_set_dst_def rmap_set_src_def rmap_set_key_def
        rmap_set_tr_id_def rmap_set_data_addr_def set_cmd_ok [OF v] set_data_len_ok Let_def path_ok_def path_bytes_def
        rmw_pkt_def cmd_instruction_def set_ri_reply_addr_len_def del: not_None_eq)
  then show ?thesis
    by (simp add: rmw_pkt_size store_bytes_def) (simp add: rmap_build_hdr_def rmw_pkt_bytes store_bytes_def)
qed

section \<open>The router\<close>

text \<open>A reply of at most 32 bytes is there after finitely many questions.\<close>

inductive reply_arrives :: "'w rx_function \<Rightarrow> 'w \<Rightarrow> bool" for rx where
  now: "rx None w = (s, b, w') \<Longrightarrow> s \<noteq> 0 \<Longrightarrow> s \<le> 32 \<Longrightarrow> reply_arrives rx w"
| later: "rx None w = (0, b, w') \<Longrightarrow> reply_arrives rx w' \<Longrightarrow> reply_arrives rx w"

text \<open>
  The registers of the router, and the addresses of the registers for which it has performed commands, are
  functions of the state of the link. Receiving changes neither.
\<close>

definition router ::
  "'w tx_function \<Rightarrow> 'w rx_function \<Rightarrow> u8 \<Rightarrow> ('w \<Rightarrow> u32 \<Rightarrow> u32) \<Rightarrow> ('w \<Rightarrow> u32 list) \<Rightarrow> bool" where
  "router tx rx src view sent \<longleftrightarrow>
     (\<forall>b w. view (snd (snd (rx b w))) = view w \<and> sent (snd (snd (rx b w))) = sent w) \<and>
     (\<forall>reg data msk pad w. \<exists>w'. tx (rmw_header src reg @ pad) 16 1 (Some (be_bytes 4 data @ be_bytes 4 msk)) 8 w = (0, w') \<and>
        view w' = (view w)(reg := (view w reg AND NOT msk) OR (data AND msk)) \<and> sent w' = sent w @ [reg] \<and>
        reply_arrives rx w')"

lemma router_rx: "router tx rx src view sent \<Longrightarrow> rx b w = (s, b', w') \<Longrightarrow> view w' = view w \<and> sent w' = sent w"
  unfolding router_def by (metis snd_conv)

lemma wait_response_arrives:
  assumes "reply_arrives rx w" and "router tx rx src view sent"
  shows "\<exists>s w'. wait_response rx w = Some (s, w') \<and> s \<le> 32 \<and> view w' = view w \<and> sent w' = sent w"
  using assms(1)
proof (induction rule: reply_arrives.induct)
  case (now w s b w')
  then show ?case using router_rx [OF assms(2)] by (subst wait_response.simps) auto
next
  case (later w b w')
  then show ?case using router_rx [OF assms(2) later.hyps(1)] by (subst wait_response.simps) auto
qed

text \<open>The word that arrives at the router, and the place of its bits.\<close>

definition arriving :: "bool \<Rightarrow> u32 \<Rightarrow> u32" where
  "arriving big w = be32_to_cpu big w"

definition arriving_bit :: "bool \<Rightarrow> nat \<Rightarrow> nat" where
  "arriving_bit big n = (if big then n else 8 * (3 - n div 8) + n mod 8)"

lemma payload_arriving: "host_bytes big 4 w = be_bytes 4 (arriving big w)"
proof -
  have "rev (be_bytes 4 w) = be_bytes 4 (swab32 w)"
    using arg_cong [OF swab_bytes_32 [of w], of rev] by simp
  then show ?thesis by (simp add: host_bytes_def arriving_def be32_to_cpu_def)
qed

lemma bit_arriving: "k < 32 \<Longrightarrow> bit (arriving False w) k \<longleftrightarrow> bit w (8 * (3 - k div 8) + k mod 8)"
  using bit_swab32 [of "k div 8" "k mod 8" w] by (simp add: arriving_def be32_to_cpu_def)

lemma arriving_0 [simp]: "arriving big 0 = 0"
  by (simp add: arriving_def be32_to_cpu_def swab32_def)

text \<open>An operation that sends commands for \<open>rs\<close> only, applies \<open>f\<close> to each of these registers, and keeps the settings.\<close>

definition updates ::
  "('w \<Rightarrow> u32 \<Rightarrow> u32) \<Rightarrow> ('w \<Rightarrow> u32 list) \<Rightarrow> bool \<Rightarrow> malloc \<Rightarrow> 'w gr718b_state \<Rightarrow> 'w gr718b_op \<Rightarrow>
    u32 list \<Rightarrow> (u32 \<Rightarrow> u32) \<Rightarrow> bool" where
  "updates view sent big alloc st oper rs f \<longleftrightarrow> (\<exists>w. oper big alloc st = Some (0, st\<lparr>gr_link := w\<rparr>) \<and>
     sent w = sent (gr_link st) @ rs \<and>
     view w = fold (\<lambda>r R. R(r := f (R r))) rs (view (gr_link st)))"

lemma rmw_updates:
  assumes router: "router tx rx (src_tla st) view sent" and link: "gr_tx st = Some tx" "gr_rx st = Some rx"
    and alloc: "\<And>k. alloc k \<noteq> None"
  shows "updates view sent big alloc st (\<lambda>big alloc st. gr718b_rmw_reg big alloc reg data msk st) [reg]
    (\<lambda>v. (v AND NOT (arriving big msk)) OR (arriving big data AND arriving big msk))"
proof -
  let ?hdr = "rmw_header (src_tla st) reg @ replicate 16 0"
  obtain w1 where tx: "tx ?hdr 16 1 (Some (be_bytes 4 (arriving big data) @ be_bytes 4 (arriving big msk))) 8 (gr_link st) = (0, w1)"
    and upd: "view w1 = (view (gr_link st))(reg := (view (gr_link st) reg AND NOT (arriving big msk)) OR
      (arriving big data AND arriving big msk))" "sent w1 = sent (gr_link st) @ [reg]"
    and reply: "reply_arrives rx w1" using router unfolding router_def by blast
  obtain s w2 where wait: "wait_response rx w1 = Some (s, w2)" "s \<le> 32" "view w2 = view w1" "sent w2 = sent w1"
    using wait_response_arrives [OF reply router] by blast
  obtain s' b w3 where rx: "rx (Some ?hdr) w2 = (s', b, w3)" by (metis prod_cases3)
  have "view w3 = view w2 \<and> sent w3 = sent w2" using router_rx [OF router rx] .
  moreover have "gr718b_rmw_reg big alloc reg data msk st = Some (0, st\<lparr>gr_link := w3\<rparr>)"
    using gr718b_gen_cmd_rmw [where alloc = alloc and st = st and reg = reg, OF alloc] tx wait(1,2) rx link
    by (simp add: gr718b_rmw_reg_def payload_arriving linorder_not_less Let_def)
  ultimately show ?thesis using wait(3,4) upd by (auto simp: updates_def)
qed

section \<open>Operations\<close>

lemma rmw_set_bit: "n < 32 \<Longrightarrow> (w AND NOT (push_bit n 1)) OR (push_bit n 1 AND push_bit n 1) = set_bit n (w :: u32)"
  and rmw_clear_bit: "(w AND NOT (push_bit n 1)) OR (0 AND push_bit n 1) = unset_bit n (w :: u32)"
  by (rule bit_word_eqI; auto simp: bit_and_iff bit_or_iff bit_not_iff bit_set_bit_iff bit_unset_bit_iff bit_exp_iff)+

lemma arriving_single_bit:
  assumes "n < 32"
  shows "arriving big (push_bit n 1) = push_bit (arriving_bit big n) 1" and "arriving_bit big n < 32"
proof -
  have "list_all (\<lambda>n. swab32 (push_bit n 1) = push_bit (arriving_bit False n) 1) [0..<32]" by code_simp
  then show "arriving big (push_bit n 1) = push_bit (arriving_bit big n) 1"
    using assms by (auto simp: list_all_iff arriving_def be32_to_cpu_def arriving_bit_def)
  have "8 * (3 - n div 8) + n mod 8 < 32" using assms by presburger
  then show "arriving_bit big n < 32" using assms by (simp add: arriving_bit_def)
qed

definition with_clkdiv :: "bool \<Rightarrow> u8 \<Rightarrow> u32 \<Rightarrow> u32" where
  "with_clkdiv big d w = (if big then take_bit 24 w OR push_bit 24 (ucast d) else (w AND NOT 0xFF) OR ucast d)"

lemma rmw_clkdiv:
  fixes d :: u8
  defines "msk \<equiv> push_bit 24 (push_bit 8 1 - 1) :: u32"
  shows "(w AND NOT (arriving big msk)) OR (arriving big (push_bit 24 (ucast d)) AND arriving big msk) = with_clkdiv big d w"
proof (cases big)
  case True
  have m: "push_bit 8 1 - 1 = (mask 8 :: u32)" by (simp add: mask_numeral)
  show ?thesis unfolding m msk_def arriving_def be32_to_cpu_def if_P [OF True] with_clkdiv_def
    by (rule bit_word_eqI)
      (auto simp: bit_and_iff bit_or_iff bit_not_iff bit_push_bit_iff bit_mask_iff bit_take_bit_iff bit_ucast_iff
        dest: bit_imp_le_length)
next
  case False
  have m: "arriving False msk = 0xFF" by (simp add: arriving_def be32_to_cpu_def msk_def swab32_def)
  have "arriving big (push_bit 24 (ucast d)) AND 0xFF = (ucast d :: u32)"
  proof (rule bit_word_eqI)
    fix k assume "k < LENGTH(32)"
    then have k: "k < 32" by simp
    have ff: "(0xFF :: u32) = mask 8" by (simp add: mask_numeral)
    show "bit (arriving big (push_bit 24 (ucast d)) AND 0xFF) k = bit (ucast d :: u32) k"
    proof (cases "k < 8")
      case True
      then show ?thesis using False k by (simp add: ff bit_and_iff bit_mask_iff bit_arriving bit_push_bit_iff)
    next
      case False
      then have "\<not> bit d k" using bit_imp_le_length [of d k] by auto
      then show ?thesis using False k by (simp add: ff bit_and_iff bit_mask_iff bit_ucast_iff)
    qed
  qed
  then show ?thesis using False by (simp add: m with_clkdiv_def)
qed

definition valid_port :: "u8 \<Rightarrow> bool" where
  "valid_port port \<longleftrightarrow> 1 \<le> unat port \<and> unat port \<le> 19"

definition logical_addr :: "u8 \<Rightarrow> bool" where
  "logical_addr addr \<longleftrightarrow> 32 \<le> unat addr"

lemma verify_iff:
  "gr718b_verify_port port = (if valid_port port then 0 else -1)"
  "gr718b_verify_addr addr = (if valid_port addr \<or> logical_addr addr then 0 else -1)"
  "gr718b_verify_port_physical port = (if valid_port port then 0 else -1)"
  "addr \<le> 19 \<longleftrightarrow> unat addr \<le> 19"
  by (auto simp: gr718b_verify_port_def gr718b_verify_addr_def gr718b_verify_port_physical_def valid_port_def logical_addr_def
      word_less_nat_alt word_le_nat_alt unat_eq_0 simp flip: unat_gt_0)

text \<open>The three addresses of the registers of a port or logical address.\<close>

lemma register_address:
  "gr718b_get_rmap_rtpmap_reg addr = 4 * ucast addr"
  "gr718b_get_rmap_rtactrl_reg addr = 0x400 + 4 * ucast addr"
  "gr718b_get_rmap_pctrl_reg addr = 0x800 + 4 * ucast addr"
  by (simp_all add: gr718b_get_rmap_rtpmap_reg_def gr718b_get_rmap_rtactrl_reg_def gr718b_get_rmap_pctrl_reg_def)

lemma updates_set_bit:
  assumes "router tx rx (src_tla st) view sent" "gr_tx st = Some tx" "gr_rx st = Some rx" "\<And>k. alloc k \<noteq> None" "n < 32"
  shows "updates view sent big alloc st (\<lambda>big alloc st. gr718b_rmw_reg big alloc reg (push_bit n 1) (push_bit n 1) st)
    [reg] (set_bit (arriving_bit big n))"
  using rmw_updates [where alloc = alloc and reg = reg and data = "push_bit n 1" and msk = "push_bit n 1" and big = big, OF assms(1-4)]
  unfolding arriving_single_bit(1) [OF assms(5)] rmw_set_bit [OF arriving_single_bit(2) [OF assms(5)]] .

lemma updates_clear_bit:
  assumes "router tx rx (src_tla st) view sent" "gr_tx st = Some tx" "gr_rx st = Some rx" "\<And>k. alloc k \<noteq> None" "n < 32"
  shows "updates view sent big alloc st (\<lambda>big alloc st. gr718b_rmw_reg big alloc reg 0 (push_bit n 1) st)
    [reg] (unset_bit (arriving_bit big n))"
  using rmw_updates [where alloc = alloc and reg = reg and data = 0 and msk = "push_bit n 1" and big = big, OF assms(1-4)]
  unfolding arriving_single_bit(1) [OF assms(5)] arriving_0 rmw_clear_bit .

text \<open>With valid arguments an operation is an update; else it fails and nothing is transmitted.\<close>

definition performs ::
  "('w \<Rightarrow> u32 \<Rightarrow> u32) \<Rightarrow> ('w \<Rightarrow> u32 list) \<Rightarrow> bool \<Rightarrow> malloc \<Rightarrow> 'w gr718b_state \<Rightarrow> 'w gr718b_op \<Rightarrow> bool \<Rightarrow>
    u32 list \<Rightarrow> (u32 \<Rightarrow> u32) \<Rightarrow> bool" where
  "performs view sent big alloc st oper valid rs f \<longleftrightarrow>
     (if valid then updates view sent big alloc st oper rs f else oper big alloc st = Some (-1, st))"

lemma performsI:
  assumes "\<not> valid \<Longrightarrow> oper big alloc st = Some (-1, st)"
    and "valid \<Longrightarrow> oper big alloc st = oper' big alloc st" and "valid \<Longrightarrow> updates view sent big alloc st oper' rs f"
  shows "performs view sent big alloc st oper valid rs f"
  using assms by (auto simp: performs_def updates_def)

text \<open>The operations with a check of the arguments and one bit to set or to clear.\<close>

lemma performs_bit:
  assumes router: "router tx rx (src_tla st) view sent" "gr_tx st = Some tx" "gr_rx st = Some rx" "\<And>k. alloc k \<noteq> None"
    and oper: "oper big alloc st = (if valid then gr718b_rmw_reg big alloc reg data (push_bit n 1) st else Some (-1, st))"
    and n: "valid \<longrightarrow> n < 32"
  shows "data = push_bit n 1 \<Longrightarrow> performs view sent big alloc st oper valid [reg] (set_bit (arriving_bit big n))"
    and "data = 0 \<Longrightarrow> performs view sent big alloc st oper valid [reg] (unset_bit (arriving_bit big n))"
  using updates_set_bit [where alloc = alloc and reg = reg and n = n and big = big, OF router]
    updates_clear_bit [where alloc = alloc and reg = reg and n = n and big = big, OF router] oper n
  by (auto simp: performs_def updates_def)

lemma performs_logical:
  assumes router: "router tx rx (src_tla st) view sent" "gr_tx st = Some tx" "gr_rx st = Some rx" "\<And>k. alloc k \<noteq> None"
    and oper: "oper big alloc st = (if valid_port addr then Some (0, st)
      else if logical_addr addr then gr718b_rmw_reg big alloc reg data (push_bit n 1) st else Some (-1, st))"
    and n: "n < 32"
  shows "data = push_bit n 1 \<Longrightarrow> performs view sent big alloc st oper (valid_port addr \<or> logical_addr addr)
      (if logical_addr addr then [reg] else []) (set_bit (arriving_bit big n))"
    and "data = 0 \<Longrightarrow> performs view sent big alloc st oper (valid_port addr \<or> logical_addr addr)
      (if logical_addr addr then [reg] else []) (unset_bit (arriving_bit big n))"
  using updates_set_bit [where alloc = alloc and reg = reg and n = n and big = big, OF router]
    updates_clear_bit [where alloc = alloc and reg = reg and n = n and big = big, OF router] oper n
  by (auto simp: performs_def updates_def valid_port_def logical_addr_def intro: exI [of _ "gr_link st"])

lemma performs_clkdiv:
  assumes router: "router tx rx (src_tla st) view sent" "gr_tx st = Some tx" "gr_rx st = Some rx" "\<And>k. alloc k \<noteq> None"
  shows "performs view sent big alloc st (gr718b_set_rt_clkdiv port d) (valid_port port)
    [0x800 + 4 * ucast port] (with_clkdiv big d)"
proof (rule performsI)
  show "updates view sent big alloc st (\<lambda>big alloc st. gr718b_rmw_reg big alloc (0x800 + 4 * ucast port) (push_bit 24 (ucast d))
      (push_bit 24 (push_bit 8 1 - 1)) st) [0x800 + 4 * ucast port] (with_clkdiv big d)"
    using rmw_updates [where alloc = alloc and reg = "0x800 + 4 * ucast port" and data = "push_bit 24 (ucast d)"
        and msk = "push_bit 24 (push_bit 8 1 - 1)" and big = big, OF router]
    unfolding rmw_clkdiv .
qed (simp_all add: gr718b_set_rt_clkdiv_def verify_iff register_address Let_def)

text \<open>The operations fit these forms.\<close>

lemmas gr718b_op_forms = gr718b_set_route_port_def gr718b_clear_route_port_def
  gr718b_set_addr_header_deletion_def gr718b_clear_addr_header_deletion_def
  gr718b_set_rtactrl_enabled_def gr718b_clear_rtactrl_enabled_def
  gr718b_set_link_start_def gr718b_clear_link_start_def
  gr718b_set_time_code_enable_def gr718b_clear_time_code_enable_def verify_iff register_address Let_def

lemma valid_port_less: "valid_port port \<longrightarrow> unat port < 32"
  by (simp add: valid_port_def)

lemma logical_le: "valid_port addr \<Longrightarrow> unat addr \<le> 19" "logical_addr addr \<Longrightarrow> \<not> unat addr \<le> 19"
  "logical_addr addr \<Longrightarrow> \<not> valid_port addr"
  by (simp_all add: valid_port_def logical_addr_def)

end
