(* ===== verification/Ground_Router.thy ===== *)
theory Ground_Router
  imports Gr718b_Laws
begin

unbundle bit_operations_syntax

text \<open>
  A router for the instance of the property of its operations: the registers, the addresses of the commands it
  has performed, and the number of questions until the reply is there.
\<close>

type_synonym sim_link = "(u32 \<Rightarrow> u32) \<times> u32 list \<times> nat"

definition sim_tx :: "sim_link tx_function" where
  "sim_tx hdr n k data sz w = (case data of
       None \<Rightarrow> (-1, w)
     | Some d \<Rightarrow>
         let reg = be_word (take 4 (drop 9 hdr)); v = be_word (take 4 d); m = be_word (drop 4 d)
         in (0, (fst w)(reg := (fst w reg AND NOT m) OR (v AND m)), fst (snd w) @ [reg], 1))"

definition sim_rx :: "sim_link rx_function" where
  "sim_rx b w = (case w of (R, rs, k) \<Rightarrow>
     (case b of
       None \<Rightarrow> if k = 0 then (17, None, w) else (0, None, R, rs, k - 1)
     | Some b \<Rightarrow> (17, Some b, w)))"

lemma be_word_be_bytes_4: "be_word (be_bytes 4 (w :: u32)) = w"
  using be_word_be_bytes [of 4 w] unat_less_2p [of w] by simp

lemma sim_router: "router sim_tx sim_rx src fst (fst \<circ> snd)"
proof -
  have "reply_arrives sim_rx (R, rs, k)" for R rs k
  proof (induction k)
    case 0
    show ?case by (rule reply_arrives.now [of _ _ 17]) (simp_all add: sim_rx_def)
  next
    case (Suc k)
    show ?case by (rule reply_arrives.later [OF _ Suc]) (simp add: sim_rx_def)
  qed
  then show ?thesis
    by (auto simp: router_def sim_tx_def sim_rx_def rmw_header_def be_word_be_bytes_4 Let_def split: option.split prod.split)
qed

definition sim_state :: "sim_link gr718b_state" where
  "sim_state = \<lparr>src_tla = 0x20, gr_tx = Some sim_tx, gr_rx = Some sim_rx, gr_link = (\<lambda>_. 0, [], 0)\<rparr>"

end
