(* ===== verification/Spec2Isabelle.thy ===== *)
theory Spec2Isabelle
  imports Error_Strings Ground_Chunk Ground_Hardware Ground_Rdcu Ground_Router
begin

text \<open>
  A verification library of the PLATO compression software: the lossless and lossy compression of science
  data on the instrument control unit (ICU), its decompression, and the library that operates the
  hardware compressor of the router and data compression unit (RDCU) over SpaceWire. All paths are
  below \<open>src/\<close>; \<open>lib/\<close> stands for \<open>src/lib/\<close>.

  \<^bold>\<open>The program\<close>

  Software compression. \<open>compress_chunk\<close> (\<open>lib/icu_compress/cmp_icu.c\<close>) takes a chunk, a sequence of collections
  of science data of one kind, each with a packed big-endian header. It chooses a configuration
  for the data type of each collection, codes the samples (difference to a model, mapping to non-negative
  numbers, Rice or Golomb code words, one of two escape mechanisms, a big-endian bitstream), falls back
  to the raw data when the code is not shorter, updates the model, and puts the results behind the header
  of a compression entity (\<open>lib/common/cmp_entity.c\<close>).

  Decompression. \<open>decompress_cmp_entiy\<close> (\<open>lib/decompress/decmp.c\<close>) reads the header of the entity, then for every
  collection the bitstream (\<open>lib/decompress/read_bitstream.h\<close>), and inverts each of these steps with the same model.

  Hardware compression. \<open>rdcu_compress_data\<close> (\<open>lib/rdcu_compress/cmp_rdcu.c\<close>) checks a configuration
  (\<open>cmp_rdcu_cfg.c\<close>), writes its parameters to the mirror of the registers of the RDCU (\<open>rdcu_ctrl.c\<close>), synchronises
  the mirror with the RDCU register by register, transfers data and model to the SRAM of the RDCU in units of
  the link, and sets the start bit. A synchronisation takes a slot of the transaction log (\<open>rdcu_rmap.c\<close>),
  generates an RMAP command with the slot as its transaction identifier (\<open>rdcu_cmd.c\<close>, \<open>rmap.c\<close>) and hands it to
  the link; received replies are matched with the log and stored at the local address in the slot. The router
  between the two units is configured the same way (\<open>gr718b_rmap.c\<close>).

  \<^bold>\<open>The theories\<close>

  Shared: \<open>Prelude\<close> (C integers, byte buffers, bits of a buffer, big-endian loads and stores), \<open>Bit_Fields\<close>
  (members of a word, locale \<open>bit_field\<close>), \<open>Header_Fields\<close> (members of packed headers and \<open>byteorder.h\<close>, locale
  \<open>be_member\<close>), \<open>Cmp_Error\<close> and \<open>Error_Strings\<close> (\<open>cmp_error.c\<close>), \<open>Cmp_Support\<close> (\<open>cmp_support.c\<close>, \<open>cmp_support.h\<close>,
  \<open>cmp_max_used_bits.h\<close>), \<open>Cal_Up_Model\<close> (\<open>cmp_cal_up_model.h\<close>), \<open>Data_Types\<close>, \<open>Endianness\<close>, \<open>Chunk_Endianness\<close>
  and \<open>Collection_Header\<close> (\<open>cmp_data_types.c\<close>), \<open>Entity_Header\<close> and \<open>Cmp_Entity\<close> (\<open>cmp_entity.c\<close>); all of \<open>lib/common\<close>.

  Values: \<open>Bit_Writer\<close>, \<open>Codewords\<close>, \<open>Value_Encoder\<close> (\<open>cmp_icu.c\<close>, \<open>put_n_bits32\<close> to \<open>configure_encoder_setup\<close>), \<open>Bit_Reader\<close>
  (\<open>read_bitstream.h\<close>) and \<open>Value_Decoder\<close> (\<open>decmp.c\<close>, \<open>unary_decoder\<close> to \<open>configure_decoder_setup\<close>), which ends
  with the round trip of one value.

  Collections: \<open>Sample_Codec\<close> (what the twelve compression and the twelve decompression loops have in
  common, locale \<open>sample_codec\<close>), \<open>Sample_Types\<close>, \<open>Sample_Memory\<close> (samples as packed structures in memory, locale
  \<open>sample_view\<close>), \<open>Byte_Swap\<close> (locale \<open>sample_swap\<close>), \<open>Collection_Compress\<close> and \<open>Collection_Decompress\<close> (the loops
  of \<open>cmp_icu.c\<close> and of \<open>decmp.c\<close>), \<open>Compress_Internal\<close> (\<open>compress_data_internal\<close> and the checks of the buffers).
  \<open>Collection_Codec\<close> states as a locale what a sample type has to satisfy, \<open>Collection_Types\<close> interprets it for all
  twelve types, \<open>Collection_Laws\<close> proves the contract of the collections (locale \<open>type_codec\<close>) from it as a sublocale.

  Chunks: \<open>Chunk_Compress\<close> (\<open>cmp_chunk_type.c\<close> and \<open>cmp_icu.c\<close> from \<open>cmp_best_zero_spill\<close> on), \<open>Chunk_Decompress\<close>
  (\<open>decmp.c\<close> from \<open>decompress_collection_hdr\<close> on). The way from one collection to a whole chunk: \<open>Compress_Laws\<close>,
  \<open>Collection_Entry\<close>, \<open>Collection_Result\<close>, \<open>Collection_Written\<close>, \<open>Chunk_Facts\<close>, \<open>Chunk_Written\<close>, \<open>Chunk_Header\<close>
  for the compressor, \<open>Collection_Round\<close>, \<open>Chunk_Entry\<close>, \<open>Chunk_Round\<close> for the decompressor, \<open>Chunk_Trip\<close> for both. \<open>Hardware_Trip\<close> is the
  way of imagette samples in the format of the hardware compressor.

  RDCU: \<open>Rmap_Packet\<close> (\<open>rmap.c\<close>), \<open>Rdcu_Mirror\<close> (the mirror and local addresses into it), \<open>Rdcu_Rmap\<close> (\<open>rdcu_rmap.c\<close>),
  \<open>Rdcu_Cmd\<close> (\<open>rdcu_cmd.c\<close>), \<open>Rdcu_Ctrl\<close> and \<open>Rdcu_Sync\<close> (\<open>rdcu_ctrl.c\<close>), \<open>Cmp_Rdcu_Cfg\<close> and \<open>Cmp_Rdcu\<close> (\<open>cmp_rdcu_cfg.c\<close>,
  \<open>cmp_rdcu.c\<close>), \<open>Gr718b_Rmap\<close> (\<open>gr718b_rmap.c\<close>). Laws: \<open>Rmap_Crc\<close>, \<open>Rmap_Laws\<close>, \<open>Rdcu_Cmd_Laws\<close>, \<open>Rdcu_Packets\<close> on the bytes
  of packets; \<open>Rdcu_Cfg_Laws\<close>, \<open>Rdcu_Parameters\<close> on configurations and registers; \<open>Rdcu_Invariant\<close> (locale \<open>rdcu_invariant\<close>,
  interpreted for the transaction log and for the settings); \<open>Rdcu_Link\<close> on received packets, \<open>Rdcu_Transfer\<close>
  and \<open>Rdcu_Sequence\<close> on transmitted commands; \<open>Gr718b_Laws\<close> on the registers of the router.

  \<open>Ground_Values\<close>, \<open>Ground_Chunk\<close>, \<open>Ground_Hardware\<close>, \<open>Ground_Rdcu\<close> and \<open>Ground_Router\<close> hold the concrete inputs at which the properties are instantiated.

  \<^bold>\<open>Modelling conventions\<close>

  Integers are words of the width they have in C; an \<open>int\<close> result is an \<open>int\<close> whose values stay small. A C enum has
  a last constructor for an integer that is none of its enumerators. A structure is a record, a union one field with
  abbreviations for its other names.

  A buffer is the list of its bytes, \<open>None\<close> a NULL pointer. The buffers of a chunk (\<open>cmp_bufs\<close>) carry an address as
  well, because the code compares pointers; two buffers at the same address are the same buffer (the in-place
  update of the model), any other two do not overlap. Buffers of samples are read as lists of structures
  in the byte order of the CPU, which is the parameter \<open>big\<close>. An error is a value: a negated code in the same word,
  -1, or a NULL result, as in C. A result \<open>None\<close> of a whole function means undefined behaviour, an access
  outside of a buffer or of a table, an assertion of the decoder that fails, or a loop that does not end. Hence every equation \<open>f x = Some y\<close> in a property says
  that the call returns and stays inside of its buffers. The shifts of the rounding (\<open>round_fwd\<close>, \<open>round_inv\<close>) are total:
  the checks admit at most 3 bits, and the properties about other parameters assume less than 32.

  The memory allocator is the parameter \<open>alloc\<close>: for a size, the size of the block or \<open>None\<close>; it has no state, so that two
  requests of the same size succeed or fail alike. The link is a state of
  an arbitrary type with two functions \<open>rmap_tx\<close> and \<open>rmap_rx\<close> that the user of the library supplies; both are
  arbitrary in the model. Static variables are the members of the state; the one of \<open>cmp_rdcu.c\<close> is an argument.

  \<^bold>\<open>What the lemmas show\<close>

  Round trips at every level: fields, headers, values, samples, collections, chunks, packets, registers
  (C1, C4, C7, C11).
  Refinement: the bits of the stream are the Golomb code of the mapped differences (C15, C16), the setters of
  a collection are updates of an abstract header (C28), the CRC table is the division by the polynomial (C32), the operations on
  the router are updates of its registers, of the intended bits on a big-endian CPU only (C12).
  Invariants: a predicate on the state of the RDCU library that is kept by the elementary changes is kept
  by every operation up to a complete compression that returns, whatever the link does (C8). Order: the calls of
  the link a compression makes, in their order (C3, C14), by a calculus of functions that emit a list of requests.
  Termination and memory safety: C6, C20,
  C21. Failure: \<open>compress_chunk\<close> succeeds for every well-formed chunk when the
  destination has the size of the bound (C2).

  \<^bold>\<open>Bounds and fuel\<close>

  Loops that count something down are structural recursion or have a measure. \<open>partial_function (option)\<close> is used where
  the C loop may run forever: the processing of received packets (until the link reports none; C6 shows it
  ends for a link that delivers finitely many packets), the wait for the response of the router
  (C12: it ends when a response arrives), and the transfers that are repeated while all slots of the
  transaction log are busy (C3 and C14 show that they end with free slots, C39 that a unit of 0 never succeeds).
  No function has a fuel argument. Chunks are below 2^24 bytes, as the header of the entity and the
  code require. C10 is about the sizes in bytes that the check of the RDCU configuration computes with 32-bit
  words, which are the real ones below 2^31 samples; C6 tells the replies that fit at the local address from those
  that do not (\<open>reply_overruns\<close>), which the code does not check, and C3 the configurations that fit into
  the registers (\<open>encodable\<close>) from those that pass the check and do not.

  \<^bold>\<open>Not modelled\<close>

  \<open>cmp_ent_create_timestamp\<close>: a conversion of the system clock in floating point numbers. \<open>cmp_ent_print\<close>, \<open>cmp_ent_parse\<close>,
  \<open>print_cmp_info\<close>, \<open>rmap_parse_pkt\<close> and the functions they call only print. \<open>cmp_debug.c\<close> and \<open>vsnprintf.c\<close>
  format and emit messages; the arguments of messages have no effect, as debug output is compiled out. \<open>rmap_erase_packet\<close>
  and \<open>free\<close> have no counterpart for values. Models that overlap without being identical are undefined in
  the memory model. The programs below \<open>examples/\<close>, among them the drivers of a LEON board, and the unit tests
  use the library and are not part of it.
\<close>

unbundle bit_operations_syntax

section \<open>Properties\<close>

text \<open>
  C1. The round trip of the whole software. When \<open>compress_chunk\<close> succeeds on a chunk of complete
  collections of one chunk type, then \<open>decompress_cmp_entiy\<close>, given the bytes it wrote, the same model
  and a destination that is large enough, returns the size of the chunk, writes the chunk byte by byte
  and nothing behind it, and leaves the same updated model as the compressor. Collections that the
  compressor stored uncompressed because their code was not shorter are included. The model of the
  decompressor is the one from before the compression: with an in-place update the compressor
  overwrites its own.
\<close>

theorem chunk_round_trip:
  assumes run: "compress_chunk big st b chunk_size cap (Some par) = Some (r, b')" "\<not> cmp_is_error r"
    and chunk: "chunk_of big cols" "src b = Some (x, concat cols @ rest)" "unat chunk_size = length (concat cols)"
    and mode: "par_cmp_mode par \<noteq> CMP_MODE_RAW"
    and bufs: "models_ok (unat chunk_size) (cmp_cfg_zero\<lparr>cmp_mode := par_cmp_mode par\<rparr>) b"
      "dst b = Some (a, d)" "unat cap \<le> length d"
    and ent: "src c = Some (y, e)" "unat r \<le> length e" "take (unat r) e = take (unat r) (bytes_at (dst b'))"
    and out: "dst c = Some (z, out)" "unat chunk_size \<le> length out"
    and models: "models_ok (unat chunk_size) (cmp_cfg_zero\<lparr>cmp_mode := par_cmp_mode par\<rparr>) c"
      "take (unat chunk_size) (bytes_at (model_buf c)) = take (unat chunk_size) (bytes_at (model_buf b))"
  shows "\<exists>c'. decompress_cmp_entiy big c = Some (int (unat chunk_size), c') \<and>
    bytes_at (dst c') = concat cols @ drop (unat chunk_size) out \<and>
    (model_mode_is_used (par_cmp_mode par) \<and> updated_model_buf b \<noteq> None \<and> updated_model_buf c \<noteq> None \<longrightarrow>
      take (unat chunk_size) (bytes_at (updated_model_buf c')) = take (unat chunk_size) (bytes_at (updated_model_buf b')))"
proof -
  have src: "bytes_at (src b) = concat cols @ rest" "src b \<noteq> None" using chunk(2) by simp_all
  obtain cfg xs where cfg: "cmp_mode cfg = par_cmp_mode par" "round_par cfg = 0" and xs: "map fst xs = cols"
    and n: "unat chunk_size < 2 ^ 24" and w: "chunk_compressed big cfg chunk_size xs b r b'"
    using chunk_compressedI [OF run chunk(1) src chunk(3) mode bufs] by blast
  let ?nm = "chunk_models big cfg (bytes_at (src b)) (bytes_at (model_buf b)) 0 xs"
  define c' where "c' = (put_model cfg 0 ?nm c)\<lparr>dst := Some (z, put_bytes 0 (concat cols) out)\<rparr>"
  have "decompress_cmp_entiy big c = Some (int (unat chunk_size), c')"
    unfolding c'_def
    by (rule chunk_decompressed [OF w xs _ cfg(2) chunk(1) src(1) chunk(3) n _ ent _ out])
      (use cfg mode bufs(1) models in \<open>simp_all add: models_ok_def\<close>)
  moreover have "bytes_at (dst c') = concat cols @ drop (unat chunk_size) out"
    by (simp add: c'_def put_bytes_def chunk(3))
  moreover have "length ?nm = unat chunk_size"
    using length_chunk_models [of xs big 0 "bytes_at (src b)" rest cfg] chunk xs src(1) by (simp add: chunk_of_def)
  moreover have "b' = (put_model cfg 0 ?nm b)\<lparr>dst := dst b'\<rparr>"
    using w by (simp add: chunk_compressed_def) (metis cmp_bufs.surjective cmp_bufs.update_convs(2) cmp_bufs.select_convs(2))
  ultimately show ?thesis
    using updated_put_model [of cfg b ?nm "dst b'"] updated_put_model [of cfg c ?nm "dst c'"] cfg(1)
    by (auto simp: c'_def)
qed

lemma chunk_round_trip_witness:
  "\<exists>r b' c'. compress_chunk True initial_compress_state witness_bufs 14 80 (Some witness_par) = Some (r, b') \<and>
    decompress_cmp_entiy True \<lparr>src = Some (0, bytes_at (dst b') @ replicate 80 0), dst = Some (200, replicate 14 1),
      model_buf = None, updated_model_buf = None\<rparr> = Some (14, c') \<and> bytes_at (dst c') = witness_col"
proof -
  obtain r b' where run: "compress_chunk True initial_compress_state witness_bufs 14 80 (Some witness_par) = Some (r, b')"
      "\<not> cmp_is_error r" "unat r \<le> 80" using witness_compressed by blast
  let ?c = "\<lparr>src = Some (0, bytes_at (dst b') @ replicate 80 0), dst = Some (200, replicate 14 1),
      model_buf = None, updated_model_buf = None\<rparr>"
  have "chunk_of True [witness_col]" using witness_exact by (simp add: chunk_of_def)
  moreover have "src witness_bufs = Some (0, concat [witness_col] @ [])" "dst witness_bufs = Some (100, replicate 80 0)"
    by (simp_all add: witness_bufs_def)
  moreover have "unat r \<le> length (bytes_at (dst b'))"
    using chunk_compressedI [OF run(1,2) calculation(1) _ _ _ _ witness_models calculation(3)] calculation(2)
    by (auto simp: chunk_compressed_def witness_par_def)
  ultimately have "\<exists>c'. decompress_cmp_entiy True ?c = Some (int (unat (14 :: u32)), c') \<and>
      bytes_at (dst c') = concat [witness_col] @ drop (unat (14 :: u32)) (replicate 14 1)"
    using chunk_round_trip [OF run(1,2), of "[witness_col]" 0 "[]" 100 "replicate 80 0" ?c] run(3)
    by (auto simp: witness_models) (auto simp: witness_par_def models_ok_def model_mode_is_used_def in_place_def witness_bufs_def)
  then show ?thesis using run(1) by auto
qed

text \<open>
  C2. The bound that the interface offers for the destination is sufficient: for a chunk of
  complete collections of one chunk type, with parameters that the checks accept, buffers that do not
  overlap, header fields that fit and a destination of at least \<open>COMPRESS_CHUNK_BOUND\<close> bytes, the
  compression returns without an error, and the compressed entity is not larger than the bound.
\<close>

theorem compress_chunk_succeeds:
  assumes chunk: "chunk_of big cols" "bytes_at (src b) = concat cols @ rest" "unat chunk_size = length (concat cols)"
    and cfg: "init_cmp_cfg_from_cmp_par big (bytes_at (src b)) par = Some (t, cfg)" "t \<noteq> CHUNK_TYPE_UNKNOWN"
      "\<forall>col \<in> set cols. cfg_valid (col_cfg big cfg col)"
    and bufs: "models_ok (unat chunk_size) cfg b" "dst b = Some (a, d)" "unat cap \<le> length d"
      "buffers_apart (unat chunk_size) (unat cap) (cmp_mode cfg) b"
    and cap: "COMPRESS_CHUNK_BOUND (unat chunk_size) (length cols) = bound" "0 < bound" "bound < 2 ^ 24" "bound \<le> unat cap"
    and hdr: "fields_fit (chunk_fields (version_identifier st) chunk_size cfg 0)"
      "unat (get_timestamp st 0) < 2 ^ 48" "unat (get_timestamp st 1) < 2 ^ 48"
  shows "\<exists>r b'. compress_chunk big st b chunk_size cap (Some par) = Some (r, b') \<and> \<not> cmp_is_error r \<and> unat r \<le> bound"
proof -
  have "COMPRESS_CHUNK_BOUND_UNSAFE (unat chunk_size) (length cols) = bound"
    using cap(1,2) by (auto simp: COMPRESS_CHUNK_BOUND_def split: if_splits)
  then show ?thesis using compress_chunk_fits [OF chunk cfg(1,2) bufs(1-3) cfg(3) bufs(4) _ _ hdr] cap by auto
qed

lemma compress_chunk_succeeds_witness:
  "\<exists>r b'. compress_chunk True initial_compress_state witness_bufs 14 80 (Some witness_par) = Some (r, b') \<and>
    \<not> cmp_is_error r \<and> unat r \<le> 80"
  using compress_chunk_succeeds [of True "[witness_col]" witness_bufs "[]" 14 witness_par CHUNK_TYPE_NCAM_IMAGETTE
      witness_chunk_cfg 100 "replicate 80 0" 80 80 initial_compress_state]
    witness_exact witness_valid witness_apart witness_fits witness_init
  by (simp add: chunk_of_def witness_bufs_def models_ok_def model_mode_is_used_def in_place_def
      initial_compress_state_def COMPRESS_CHUNK_BOUND_def COMPRESS_CHUNK_BOUND_UNSAFE_def round_up_to_4_def
      header_sizes CMP_COLLECTION_FILD_SIZE_def CMP_ENTITY_MAX_SIZE_def COLLECTION_HDR_SIZE_def)

text \<open>
  C3. A compression on the hardware compressor, end to end. The link accepts and records every command and
  delivers nothing, the transaction log is empty, at most 64 requests are needed, memory is available, the
  buffers are as large as the configuration says and the configuration passes the check before a
  compression. If its values can be stored in the registers (\<open>encodable\<close>), \<open>rdcu_compress_data\<close> returns 0, and the calls of the
  transmit function are those of the abstract list \<open>compression_requests\<close>, in this order: the used
  parameters are read, a raw compression is interrupted, the ten registers of the parameters are written,
  the samples and, in a model mode, the model go to the SRAM in units, and the very last request
  starts the compressor; the mirror is left with the parameters and the data, and the start bit cleared.
  Otherwise, which the check does not exclude, it returns -1 after the read and the interrupt: the
  compressor is not started.
\<close>

theorem compression_sequence:
  assumes "rdcu_cmp_cfg_is_invalid (Some c) = 0"
    and "buffer_ok (rc_samples c) (rc_input_buf c)" "buffer_ok (rc_samples c) (rc_model_buf c)"
    and "allocates alloc" "unit_ok u" "recorded u st" "first_slots 0 (trans_log st)"
    and "length (compression_requests big u enabled c (mirror st)) \<le> 64"
  shows "\<exists>ret st'. rdcu_compress_data enabled (Some c) big alloc st = Some (ret, st') \<and>
    (if encodable c
     then ret = 0 \<and> link st' = link st @ request_calls st 0 (compression_requests big u enabled c (mirror st)) \<and>
       mirror st' = rdcu_clear_data_compr_start (started enabled (with_model big c (mirror st)))
     else ret = -1 \<and> link st' = link st @ request_calls st 0 (first_requests (mirror st)))"
proof (cases "encodable c")
  case True
  then show ?thesis
    using emitsD [OF compress_data_emits [OF assms(4,5,1) True assms(2,3), of enabled big] assms(6,7)] assms(8)
    by fastforce
next
  case False
  then show ?thesis using compress_data_refused [OF assms(4,1) False assms(6,7)] by auto
qed

theorem compression_sequence_witness:
  "(\<exists>st'. rdcu_compress_data True (Some demo_cfg) False Some
      (demo_state (Some recording_tx) (Some silent_rx) trans_log_init []) = Some (0, st') \<and>
    link st' = request_calls (demo_state (Some recording_tx) (Some silent_rx) trans_log_init []) 0
      (compression_requests False 4 True demo_cfg demo_mirror)) \<and>
   (\<exists>st'. rdcu_compress_data True (Some demo_refused_cfg) False Some
      (demo_state (Some recording_tx) (Some silent_rx) trans_log_init []) = Some (-1, st') \<and>
    link st' = request_calls (demo_state (Some recording_tx) (Some silent_rx) trans_log_init []) 0
      [READ_REG USED_COMPR_PARAM_1, interrupt_request demo_mirror])"
  using compression_sequence [OF demo_cfg_valid demo_buffers allocates_Some demo_unit
      demo_recorded, of trans_log_init "[]" False True]
    compression_sequence [OF demo_refused_cfg_valid demo_refused_buffers allocates_Some demo_unit
      demo_recorded, of trans_log_init "[]" False True] demo_cfg_encodable demo_refused_cfg_encodable
  by (auto simp: demo_requests demo_refused_requests demo_first_requests first_slots_init)

text \<open>
  C4. A value that the encoder wrote at the start of a buffer is what the decoder, set up
  with the same parameters and the same model, reads from it: exactly when the compression is
  lossless, and without the rounded bits otherwise. This holds for the zero escape and the multi
  escape mechanism, for every Golomb parameter and threshold that pass the parameter checks.
\<close>

theorem value_round_trip:
  assumes pars: "valid_pars m spill" "0 < unat n" "unat n \<le> 32"
    and ds: "configure_decoder_setup (cmp_mode cfg) m spill r n = Some ds"
    and s: "s = configure_encoder_setup m spill r n cfg"
    and fits: "fits_setup s data" "fits_setup s model"
    and buf: "writable buf (max_stream_len s)"
    and enc: "encode_value data model 0 s (Some buf) = Some (len, Some buf')" "\<not> cmp_is_error len"
  shows "\<exists>dec dec'. bit_init_decoder buf' = Some dec \<and>
    decode_value ds model dec = Some (0, rounded r data, dec')"
proof -
  have ok: "encoder_ok s" unfolding s by (rule configure_encoder_setup_ok [OF pars])
  have w: "wrote (sample_code s data model) 0 (max_stream_len s) (Some buf) (Some (len, Some buf'))"
    using wrote_encode_value [OF ok fits, of 0 "Some buf"] enc(1) by simp
  from w buf cmp_is_error_0
  have "bits_of_bytes buf' = put_bits (unat 0) (sample_code s data model) (bits_of_bytes buf)"
    by (cases rule: wroteE) (use enc(2) in auto)
  then obtain rest where bits: "bits_of_bytes buf' = sample_code s data model @ rest"
    by (simp add: put_bits_def)
  obtain dec where dec: "bit_init_decoder buf' = Some dec" "ready_at dec (sample_code s data model @ rest)"
    using bit_init_decoder_ready [of buf'] bits by (auto simp: ready_at_def)
  have match: "decoder_ok ds (setup_pars s)" "lossy_par s = r" "dec_lossy_par ds = r"
    using configure_setups_match [OF pars ds] s by simp_all
  have "\<exists>dec'. decode_value ds model dec = Some (0, rounded r data, dec') \<and> ready_at dec' rest"
    using decode_value_code [OF match(1,3)] dec(2) fits(1) match(2)
    by (simp add: sample_code_def fits_setup_def setup_pars_def)
  then show ?thesis using dec(1) by blast
qed

lemma value_round_trip_witness:
  "\<exists>dec dec'. bit_init_decoder [0xB0, 0, 0, 0, 0, 0, 0, 0] = Some dec \<and>
    decode_value (the (configure_decoder_setup CMP_MODE_DIFF_ZERO 3 10 0 16)) 7 dec = Some (0, rounded 0 9, dec')"
proof (rule value_round_trip)
  let ?cfg = "witness_cfg DATA_TYPE_IMAGETTE CMP_MODE_DIFF_ZERO 1 8"
  show "valid_pars 3 10" by (rule valid_pars_3_10)
  show "configure_decoder_setup (cmp_mode ?cfg) 3 10 0 16 = Some (the (configure_decoder_setup CMP_MODE_DIFF_ZERO 3 10 0 16))"
    by (simp add: configure_decoder_setup_def select_decoder_def zero_escape_mech_is_used_def multi_escape_mech_is_used_def witness_cfg_def)
  show "configure_encoder_setup 3 10 0 16 ?cfg = configure_encoder_setup 3 10 0 16 ?cfg" ..
  show "encode_value 9 7 0 (configure_encoder_setup 3 10 0 16 ?cfg) (Some [0, 0, 0, 0, 0, 0, 0, 0]) =
      Some (4, Some [0xB0, 0, 0, 0, 0, 0, 0, 0])" by (simp add: ground)
  show "fits_setup (configure_encoder_setup 3 10 0 16 ?cfg) 9" "fits_setup (configure_encoder_setup 3 10 0 16 ?cfg) 7"
    by (simp_all add: fits_setup_def ground)
  show "writable [0, 0, 0, 0, 0, 0, 0, 0] (max_stream_len (configure_encoder_setup 3 10 0 16 ?cfg))"
    by (simp add: writable_def ground)
qed (simp_all add: cmp_is_error_iff)

text \<open>
  C5. Encoding a value appends its code, the Golomb code of the mapped difference to the
  model or the escape code of an outlier, to the bits written so far and changes no other bit. It
  reports a too small buffer if and only if the code does not fit, and then keeps the bits
  written before. In both cases the buffer keeps its length and no byte outside is touched.
\<close>

theorem encode_value_writes:
  assumes s: "s = configure_encoder_setup m spill r n cfg"
    and pars: "valid_pars m spill" "0 < unat n" "unat n \<le> 32"
    and fits: "fits_setup s data" "fits_setup s model"
    and buf: "writable buf (max_stream_len s)" and off: "\<not> cmp_is_error off"
  defines "code \<equiv> value_code (setup_pars s) (map_to_pos (round_fwd data r - round_fwd model r) n)"
  shows "\<exists>buf'. length buf' = length buf \<and>
    (if unat off + length code \<le> unat (max_stream_len s)
     then encode_value data model off s (Some buf) = Some (off + word_of_nat (length code), Some buf') \<and>
       bits_of_bytes buf' = put_bits (unat off) code (bits_of_bytes buf)
     else encode_value data model off s (Some buf) = Some (CMP_ERROR CMP_ERROR_SMALL_BUFFER, Some buf') \<and>
       take (unat off) (bits_of_bytes buf') = take (unat off) (bits_of_bytes buf))"
proof -
  have ok: "encoder_ok s" unfolding s by (rule configure_encoder_setup_ok [OF pars])
  have "sample_code s data model = code"
    by (simp add: code_def sample_code_def s configure_encoder_setup_def)
  then have "wrote code off (max_stream_len s) (Some buf) (encode_value data model off s (Some buf))"
    using wrote_encode_value [OF ok fits] by metis
  then show ?thesis using buf off by (simp add: wrote_def)
qed

lemma encode_value_writes_witness:
  "\<exists>buf'. length buf' = length [0xB0, 0, 0, 0, 0, 0, 0, 0 :: u8] \<and>
    encode_value 900 7 4 (configure_encoder_setup 3 10 0 16 (witness_cfg DATA_TYPE_IMAGETTE CMP_MODE_DIFF_MULTI 1 8))
      (Some [0xB0, 0, 0, 0, 0, 0, 0, 0]) = Some (23, Some buf') \<and>
    bits_of_bytes buf' = put_bits 4 (value_code \<lparr>cp_zero = False, cp_golomb = 3, cp_spill = 10, cp_bits = 16\<rparr> 1786)
      (bits_of_bytes [0xB0, 0, 0, 0, 0, 0, 0, 0])"
proof -
  let ?cfg = "witness_cfg DATA_TYPE_IMAGETTE CMP_MODE_DIFF_MULTI 1 8"
  let ?s = "configure_encoder_setup 3 10 0 16 ?cfg"
  have v: "valid_pars 3 10" by (rule valid_pars_3_10)
  have f: "fits_setup ?s 900" "fits_setup ?s 7" by (simp_all add: fits_setup_def ground)
  have w: "writable [0xB0, 0, 0, 0, 0, 0, 0, 0] (max_stream_len ?s)" by (simp add: writable_def ground)
  have p: "setup_pars ?s = \<lparr>cp_zero = False, cp_golomb = 3, cp_spill = 10, cp_bits = 16\<rparr>"
    by (simp add: setup_pars_def configure_encoder_setup_def witness_cfg_def)
  have m: "map_to_pos (round_fwd 900 0 - round_fwd 7 0) 16 = 1786" by (simp add: ground)
  have "ilog (1776 :: u32) = 10" by (rule ilog_unique) simp_all
  then have l: "length (value_code \<lparr>cp_zero = False, cp_golomb = 3, cp_spill = 10, cp_bits = 16\<rparr> 1786) = 19"
    "unat (max_stream_len ?s) = 64"
    by (simp_all add: value_code_def escape_offset_def length_golomb_code golomb_cutoff_def ground)
  show ?thesis
    using encode_value_writes [OF refl v _ _ f w, of 4] unfolding p m l by (simp add: cmp_is_error_iff)
qed

text \<open>
  C6. The loop over received packets ends. The link delivers a finite queue of packets of at least 12 bytes (see
  \<open>delivers\<close>), arbitrary otherwise, and blocks are as large as asked for, while an allocation may fail. If no packet is
  a reply with more data than there is room for behind the local address of its transaction, then
  \<open>rdcu_process_rx\<close> returns: -1, or the number of packets with the queue empty. If the first packet is such a reply,
  the code, which never compares the data length of a reply with the size it asked for
  (\<open>rdcu_rmap.c:316\<close>), copies behind the target: the model has no result.
\<close>

theorem process_rx_terminates:
  assumes "rmap_rx st = Some rx" "delivers rx queue" "enough alloc" "length (in_use (trans_log st)) = 64"
    and "\<forall>p \<in> set (queue (link st)). 12 \<le> length p \<and> length p < 2 ^ 32"
  shows "((\<forall>p \<in> set (queue (link st)). \<not> packet_overruns big alloc (trans_log st) p) \<longrightarrow>
      (\<exists>ret st'. rdcu_process_rx big alloc st = Some (ret, st') \<and>
        (ret = -1 \<or> ret = int (length (queue (link st))) \<and> queue (link st') = []))) \<and>
    (\<forall>p ps k rp. queue (link st) = p # ps \<and> alloc (length p) = Some k \<and>
      rmap_pkt_from_buffer alloc (Some (p @ replicate (k - length p) 0)) (word_of_nat (length p)) = Some (Some rp) \<and>
      reply_overruns big (trans_log st) rp \<longrightarrow> rdcu_process_rx big alloc st = None)"
  using process_rx_loop_ends [OF assms(2-4), of big 0] process_rx_loop_overrun [OF assms(2,3), of st _ _ _ _ big 0] assms(1,5)
  by (auto simp: rdcu_process_rx_def)

theorem process_rx_terminates_witness:
  "(\<exists>ret st'. rdcu_process_rx True Some (demo_state None (Some queue_rx) last_register_log
      [replicate 17 0, replicate 12 1]) = Some (ret, st')) \<and>
    rdcu_process_rx True Some (demo_state None (Some queue_rx) last_register_log [long_reply]) = None"
proof -
  let ?st = "demo_state None (Some queue_rx) last_register_log"
  note terminates = process_rx_terminates [of _ queue_rx "\<lambda>w. w" Some True, OF _ queue_rx_delivers enough_Some]
  have "\<not> packet_overruns True Some last_register_log p" if "length p \<le> 17" for p
    by (rule short_packet_fits [of 4]) (use last_register_addr last_register_room that in simp_all)
  then have "\<exists>ret st'. rdcu_process_rx True Some (?st [replicate 17 0, replicate 12 1]) = Some (ret, st')"
    using terminates [of "?st [replicate 17 0, replicate 12 1]"] last_register_slots by auto
  moreover have l: "length long_reply = 21" by (simp add: long_reply_def)
  have "rdcu_process_rx True Some (?st [long_reply]) = None"
    using terminates [of "?st [long_reply]"] last_register_slots long_reply_overruns l by auto
  ultimately show ?thesis by blast
qed

text \<open>
  C7. The package of a command and its round trip. For every valid command and data of a non-zero
  multiple of 4 bytes, \<open>rdcu_package\<close> puts the header, its CRC, the data and their CRC into the blob and
  nothing behind them. The data are the bytes given, in their order: no conversion to big-endian
  order happens, although the comment of the function announces one. For commands whose packets have data, the
  size it returns is the number of bytes, and when the target path has been removed on the way,
  \<open>rmap_pkt_from_buffer\<close> reads exactly this packet. For the other commands (reads, and the command code
  0xA that the validation accepts) the size leaves out the CRC of the data, and the packet
  of that size is refused.
\<close>

theorem package_round_trip:
  assumes "paths_ok st" "rmap_validate_cmd_code cmd = 0" "\<And>k. alloc k \<noteq> None"
    and "d \<noteq> []" "length d mod 4 = 0" "length d \<le> 0xFFFFFF"
    and "h = cmd_header st t cmd addr (word_of_nat (length d))" "length h + length d + 2 \<le> length blob"
  shows "\<exists>n b. rdcu_package (Some blob) h (word_of_nat (length h)) (dpath_len st) (Some d)
      (word_of_nat (length d)) = Some (n, Some b) \<and>
    b = h @ [rmap_crc8 (Some (drop (unat (dpath_len st)) h))] @ d @ [rmap_crc8 (Some d)] @
      drop (length h + length d + 2) blob \<and>
    unat n = length h + length d + (if has_data_crc cmd then 2 else 1) \<and>
    (let read = rmap_pkt_from_buffer alloc (Some (drop (unat (dpath_len st)) b)) (n - ucast (dpath_len st)) in
     if has_data_crc cmd then \<exists>p. read = Some (Some p) \<and> received st t cmd addr d p else read = Some None)"
proof -
  let ?n = "length h + length d + (if has_data_crc cmd then 2 else 1)"
  let ?b = "package st h d @ drop (length (package st h d)) blob"
  have room: "length (package st (cmd_header st t cmd addr (word_of_nat (length d))) d) \<le> length blob"
    using assms(7,8) by simp
  note run = rdcu_package_bytes [OF assms(1,2,4,5,6) room, folded assms(7)]
  note read = package_received [where alloc = alloc, OF assms(3,1,2,4,6), of t addr, folded assms(7)]
  have h: "length h = 15 + unat (dpath_len st) + unat (rpath_len st)" "unat (dpath_len st) \<le> 15"
    "unat (rpath_len st) \<le> 12"
    using assms(1) by (simp_all add: assms(7) length_cmd_header paths_ok_def word_le_nat_alt)
  have n: "unat (word_of_nat ?n :: u32) = ?n" using h assms(6) by (subst unat_of_nat_small) simp_all
  have "ucast (dpath_len st) = (word_of_nat (unat (dpath_len st)) :: u32)" by simp
  then have "word_of_nat ?n - ucast (dpath_len st) = (word_of_nat (?n - unat (dpath_len st)) :: u32)"
    using h by (simp only: of_nat_diff)
  moreover have "?n - unat (dpath_len st) = (if has_data_crc cmd then length (package st h d) - unat (dpath_len st)
      else length (package st h d) - unat (dpath_len st) - 1)" using h by simp
  ultimately show ?thesis
    using run read n by (intro exI [of _ "word_of_nat ?n"] exI [of _ ?b])
      (simp add: package_def header_crc_def Let_def)
qed

theorem package_round_trip_witness:
  "(\<exists>n b p. rdcu_package (Some (replicate 30 0)) (cmd_header (demo_state None None trans_log_init ()) 5 11 64 4) 15 0
      (Some [1, 2, 3, 4]) 4 = Some (n, Some b) \<and>
    rmap_pkt_from_buffer Some (Some b) n = Some (Some p) \<and> rp_data p = Some [1, 2, 3, 4]) \<and>
   (\<exists>n b. rdcu_package (Some (replicate 30 0)) (cmd_header (demo_state None None trans_log_init ()) 5 10 64 4) 15 0
      (Some [1, 2, 3, 4]) 4 = Some (n, Some b) \<and> unat n = 20 \<and> rmap_pkt_from_buffer Some (Some b) n = Some None)"
proof -
  let ?st = "demo_state None None trans_log_init ()"
  have "has_data_crc 11" "rmap_validate_cmd_code 11 = 0" "\<not> has_data_crc 10" "rmap_validate_cmd_code 10 = 0"
    by (simp_all add: has_data_crc_def rmap_validate_cmd_code_def)
  then show ?thesis
    using package_round_trip [of ?st 11 Some "[1, 2, 3, 4]" "cmd_header ?st 5 11 64 4" 5 64 "replicate 30 0"]
      package_round_trip [of ?st 10 Some "[1, 2, 3, 4]" "cmd_header ?st 5 10 64 4" 5 64 "replicate 30 0"]
      length_cmd_header [of ?st 5 11 64 4] length_cmd_header [of ?st 5 10 64 4]
    by (auto simp: received_def)
qed

text \<open>
  C8. The invariant of the transaction log over a complete compression, with arbitrary link functions, allocator and
  configuration: the counter of pending transactions is the number of slots in use, and the log keeps its
  size. The addresses, paths, key, unit and link functions that were set up are unchanged.
\<close>

theorem compression_keeps_log_and_settings:
  assumes "rdcu_compress_data enabled rcfg big alloc st = Some (ret, st')"
    and "length (in_use (trans_log st)) = 64" "length (log_addr (trans_log st)) = 64"
    and "pending (trans_log st) = int (count_list (in_use (trans_log st)) True)"
  shows "length (in_use (trans_log st')) = 64 \<and> length (log_addr (trans_log st')) = 64 \<and>
    pending (trans_log st') = int (count_list (in_use (trans_log st')) True) \<and>
    settings st' = settings st"
  using log.keepsD [OF log.compress_data_keeps assms(1)] assms(2-4)
    settings.keepsD [OF settings.compress_data_keeps assms(1) refl]
  by (simp add: log_ok_def)

theorem compression_keeps_log_and_settings_witness:
  "\<exists>st'. rdcu_compress_data True (Some demo_cfg) False Some
      (demo_state (Some recording_tx) (Some silent_rx) trans_log_init []) = Some (0, st') \<and>
    pending (trans_log st') = int (count_list (in_use (trans_log st')) True)"
proof -
  obtain st' where run: "rdcu_compress_data True (Some demo_cfg) False Some
      (demo_state (Some recording_tx) (Some silent_rx) trans_log_init []) = Some (0, st')"
    using demo_run by blast
  have "count_list (in_use trans_log_init) True = 0" by (simp add: count_list_0_iff trans_log_init_def)
  then show ?thesis
    using compression_keeps_log_and_settings [OF run] run by (simp add: trans_log_init_def)
qed

text \<open>
  C9. A reply to a read command of a register. Its slot of the transaction log is released in any case. When the
  CRC in the reply is the one of the four bytes in the order of the CPU, the register of the mirror gets the
  value and the packet counts; else the mirror is unchanged and the result is -1. On a little-endian CPU the
  CRC is thus compared with the one of the swapped bytes, not with the one of the bytes received.
\<close>

theorem register_reply_outcome:
  assumes "rmap_rx st = Some rx" "delivers rx queue" "queue (link st) = [frame p [] crc (be_bytes 4 v @ [dc])]"
    and "allocates alloc" "register_reply p i"
    and "i < 64" "in_use (trans_log st) ! i" "log_addr (trans_log st) ! i = REGISTER r"
  shows "\<exists>w. queue w = [] \<and> rdcu_process_rx big alloc st =
    (if rmap_crc8 (Some (if big then be_bytes 4 v else rev (be_bytes 4 v))) = dc
     then Some (1, st\<lparr>trans_log := trans_log_release_slot (int i) (trans_log st),
       mirror := set_reg r v (mirror st), link := w\<rparr>)
     else Some (-1, st\<lparr>trans_log := trans_log_release_slot (int i) (trans_log st), link := w\<rparr>))"
  using process_rx_register_reply [OF assms(1,2) _ assms(4-8), of crc v dc big] assms(3)
  by (simp add: reply_bytes_def host_bytes_def)

theorem register_reply_outcome_witness:
  "\<exists>st'. rdcu_process_rx True Some
      (demo_state None (Some (\<lambda>b w. case w of [] \<Rightarrow> (0, b, w)
        | p # ps \<Rightarrow> (word_of_nat (length p), map_option (\<lambda>b. p @ drop (length p) b) b, if b = None then w else ps)))
        (snd (trans_log_grab_slot (REGISTER Compr_status) trans_log_init))
        [[0xA7, 1, 0x0C, 0, 0xFE, 0, 0, 0, 0, 0, 4, 0, 0, 0, 0, 1, rmap_crc8 (Some [0, 0, 0, 1])]]) = Some (1, st') \<and>
    regs (mirror st') Compr_status = 1 \<and> in_use (trans_log st') = replicate 64 False"
  (is "\<exists>st'. rdcu_process_rx True Some (demo_state None (Some ?rx) ?log [?f]) = Some (1, st') \<and> _ st'")
proof -
  let ?p = "\<lparr>rp_path = None, rp_path_len = 0, rp_dst = 0xA7, rp_proto_id = 1, rp_instruction = 0x0C, rp_key = 0,
    rp_src = 0xFE, rp_rpath = None, rp_rpath_len = 0, rp_tr_id = 0, rp_addr = 0, rp_data = None, rp_data_len = 4,
    rp_hdr_crc = 0, rp_data_crc = 0\<rparr>"
  have "delivers ?rx (\<lambda>w. w)" by (auto simp: delivers_def split: list.split)
  moreover have "register_reply ?p 0"
    by (simp add: register_reply_def rmap_get_min_hdr_size_def ri_cmd_resp_def ri_cmd_def Let_def)
  moreover have "?f = frame ?p [] 0 (be_bytes 4 (1 :: u32) @ [rmap_crc8 (Some [0, 0, 0, 1])])"
    by (simp add: frame_def hdr_tail_def ri_cmd_resp_def ri_cmd_def be_bytes_2 be_bytes_3 be_bytes_4)
  moreover have "in_use ?log ! 0" "log_addr ?log ! 0 = REGISTER Compr_status"
    by (simp_all add: trans_log_grab_slot_def trans_log_init_def numeral_eq_Suc)
  moreover have "in_use (trans_log_release_slot 0 ?log) = replicate 64 False"
    by (simp add: trans_log_release_slot_def trans_log_grab_slot_def trans_log_init_def numeral_eq_Suc)
  ultimately show ?thesis
    using register_reply_outcome [of "demo_state None (Some ?rx) ?log [?f]" ?rx "\<lambda>w. w" ?p 0 1 _ Some 0 Compr_status True]
    by (auto simp: allocates_Some be_bytes_4)
qed

text \<open>
  C10. What the check of a configuration guarantees, in natural numbers: the data, the compressed data and, in a
  model mode, the model and the updated model are at multiples of 4 inside of the 8 MiB of the SRAM and
  do not overlap, except that the updated model may be at the address of the model; a raw
  compression has a buffer as large as its data. The sizes are those that the check computes, in
  32 bits: they are the real ones if and only if the numbers of samples are below 2^31. A larger
  number of samples wraps around, so that the check may pass although the data do not fit into the SRAM;
  the instance shows a configuration with 2^31 samples that passes.
\<close>

theorem valid_configuration_buffers:
  assumes "rdcu_cmp_cfg_is_invalid (Some c) = 0"
  shows "let n = 2 * unat (rc_samples c) mod 2 ^ 32; l = 2 * unat (rc_buffer_length c) mod 2 ^ 32;
      data = block_bytes (rdcu_data_adr c) n; out = block_bytes (rdcu_buffer_adr c) l;
      model = block_bytes (rdcu_model_adr c) n; updated = block_bytes (rdcu_new_model_adr c) n in
    sram_block (rdcu_data_adr c) n \<and> sram_block (rdcu_buffer_adr c) l \<and> data \<inter> out = {} \<and>
    (rc_cmp_mode c = CMP_MODE_RAW \<longrightarrow> rc_samples c \<le> rc_buffer_length c) \<and>
    (model_mode_is_used (rc_cmp_mode c) \<longrightarrow>
      sram_block (rdcu_model_adr c) n \<and> sram_block (rdcu_new_model_adr c) n \<and>
      (model \<union> updated) \<inter> (data \<union> out) = {} \<and>
      (rdcu_new_model_adr c = rdcu_model_adr c \<or> updated \<inter> model = {})) \<and>
    (unat (rc_samples c) < 2 ^ 31 \<longleftrightarrow> n = 2 * unat (rc_samples c)) \<and>
    (unat (rc_buffer_length c) < 2 ^ 31 \<longleftrightarrow> l = 2 * unat (rc_buffer_length c)) \<and>
    (2 ^ 31 \<le> unat (rc_samples c) \<longrightarrow> \<not> sram_block (rdcu_data_adr c) (2 * unat (rc_samples c)))"
proof -
  have size: "unat (k * 2 :: u32) = 2 * unat k mod 2 ^ 32" for k by (simp add: unat_word_ariths mult.commute)
  have mod_id: "x mod 2 ^ 32 = x \<longleftrightarrow> x < 2 ^ 32" for x :: nat
    using mod_less_divisor [of "2 ^ 32" x] mod_less [of x "2 ^ 32"] by (auto simp del: mod_less_divisor)
  obtain n l where n: "n = 2 * unat (rc_samples c) mod 2 ^ 32" and l: "l = 2 * unat (rc_buffer_length c) mod 2 ^ 32"
    by blast
  have wraps: "unat (rc_samples c) < 2 ^ 31 \<longleftrightarrow> n = 2 * unat (rc_samples c)"
    "unat (rc_buffer_length c) < 2 ^ 31 \<longleftrightarrow> l = 2 * unat (rc_buffer_length c)"
    unfolding n l mod_id by simp_all
  have "blocks_ok n l c"
    using valid_blocks_ok [of c, unfolded size, folded n l] assms by (simp only: rdcu_cmp_cfg_valid_iff)
  moreover have "\<not> sram_block (rdcu_data_adr c) (2 * unat (rc_samples c))" if "2 ^ 31 \<le> unat (rc_samples c)"
    using that by (simp add: sram_block_def)
  ultimately show ?thesis
    unfolding n [symmetric] l [symmetric] using wraps
    by (simp add: blocks_ok_def Let_def Int_Un_distrib Int_Un_distrib2)
qed

theorem valid_configuration_buffers_witness:
  "(sram_block (rdcu_model_adr demo_model_cfg) 4 \<and> sram_block (rdcu_new_model_adr demo_model_cfg) 4 \<and>
    (block_bytes (rdcu_model_adr demo_model_cfg) 4 \<union> block_bytes (rdcu_new_model_adr demo_model_cfg) 4) \<inter>
    (block_bytes (rdcu_data_adr demo_model_cfg) 4 \<union> block_bytes (rdcu_buffer_adr demo_model_cfg) 8) = {}) \<and>
   rdcu_cmp_cfg_is_invalid (Some demo_wrapped_cfg) = 0 \<and> sram_block (rdcu_data_adr demo_wrapped_cfg) 0 \<and>
   \<not> sram_block (rdcu_data_adr demo_wrapped_cfg) (2 * unat (rc_samples demo_wrapped_cfg))"
proof -
  have "unat (rc_samples demo_model_cfg) = 2" "unat (rc_buffer_length demo_model_cfg) = 4"
    "model_mode_is_used (rc_cmp_mode demo_model_cfg)" "unat (rc_samples demo_wrapped_cfg) = 2 ^ 31"
    by (simp_all add: demo_model_cfg_def demo_wrapped_cfg_def demo_cfg_def model_mode_is_used_def)
  then show ?thesis
    using valid_configuration_buffers [OF demo_model_cfg_valid] valid_configuration_buffers [OF demo_wrapped_cfg_valid]
      demo_wrapped_cfg_valid by (simp add: Let_def)
qed

text \<open>
  C11. The round trip of the format of the hardware compressor. When \<open>compress_like_rdcu\<close> succeeds on imagette samples in
  a mode that is not raw, then \<open>decompress_rdcu_data\<close>, given the information that it reported, the bytes of its stream and
  the same model, returns the number of bytes of the samples, writes the samples with the bits of the lossy rounding
  cleared and nothing behind them, and leaves the same updated model. Without rounding these are the bytes that were
  compressed. The information keeps 8 bits of the model value, which the code does not check outside of the model modes.
\<close>

theorem rdcu_format_round_trip:
  assumes run: "compress_like_rdcu big (Some c) True b = Some (r, Some info, b')" "\<not> cmp_is_error r"
    and cfg: "rc_cmp_mode c \<noteq> CMP_MODE_RAW" "rc_samples c \<noteq> 0" "unat (rc_model_value c) < 256"
      "n = 2 * unat (rc_samples c)" "n < 2 ^ 31"
    and bufs: "n \<le> length (bytes_at (src b))" "models_ok n (cmp_cfg_zero\<lparr>cmp_mode := rc_cmp_mode c\<rparr>) b"
      "dst b = Some (a, d)" "2 * unat (rc_buffer_length c) \<le> length d" "unat (rc_buffer_length c) < 2 ^ 28 - 8"
    and stream: "src x = Some (y, e)" "k = (unat r + 7) div 8" "k \<le> length e" "take k e = take k (bytes_at (dst b'))"
    and models: "models_ok n (cmp_cfg_zero\<lparr>cmp_mode := rc_cmp_mode c\<rparr>) x"
      "take n (bytes_at (model_buf x)) = take n (bytes_at (model_buf b))"
    and out: "dst x = Some (z, out)" "n \<le> length out"
  shows "\<exists>x'. decompress_rdcu_data big (Some info) x = Some (int n, x') \<and>
    bytes_at (dst x') = cleared_samples big (unat (rc_round c)) (unat (rc_samples c)) (bytes_at (src b)) @ drop n out \<and>
    (rc_round c = 0 \<longrightarrow> take n (bytes_at (dst x')) = take n (bytes_at (src b))) \<and>
    (model_mode_is_used (rc_cmp_mode c) \<and> updated_model_buf b \<noteq> None \<and> updated_model_buf x \<noteq> None \<longrightarrow>
      take n (bytes_at (updated_model_buf x')) = take n (bytes_at (updated_model_buf b')))"
proof -
  let ?c = "rdcu_cfg_used c" and ?s = "bytes_at (src b)"
  let ?nm = "next_model big ?c ?s (bytes_at (model_buf x))"
  let ?ls = "cleared_samples big (unat (rc_round c)) (unat (rc_samples c)) ?s"
  have mok: "models_ok n ?c w = models_ok n (cmp_cfg_zero\<lparr>cmp_mode := rc_cmp_mode c\<rparr>) w" for w
    by (simp add: models_ok_def)
  define code where "code = codes big ?c ?s (bytes_at (model_buf b))"
  have "coding_cfg ?c \<and> info_fits c r info \<and> unat r = length code \<and> holds_code code (bytes_at (dst b')) \<and>
      b'\<lparr>dst := dst b\<rparr> = with_next_model n ?c (next_model big ?c ?s (bytes_at (model_buf b))) b"
    using compress_like_rdcu_code [OF run cfg(1,2) _ _ bufs(3,4,5)] bufs(1,2) cfg(4) mok by (simp add: code_def)
  note w = this [THEN conjunct1] this [THEN conjunct2, THEN conjunct1] this [THEN conjunct2, THEN conjunct2, THEN conjunct1]
    this [THEN conjunct2, THEN conjunct2, THEN conjunct2]
  have input: "same_input ?c ?s (bytes_at (model_buf b)) ?s (bytes_at (model_buf x))"
    using bufs(1,2) models(2) cfg(4) by (auto simp: same_input_def models_ok_def)
  have code: "code = codes big ?c ?s (bytes_at (model_buf x))"
    using codec.codes_cong [OF _ input] by (simp add: code_def)
  have e: "holds_code code e" by (rule holds_code_prefix [OF _ _ stream(3,4)]) (use w(3,4) stream(2) in auto)
  have mb: "model_mode_is_used (rc_cmp_mode c) \<Longrightarrow> model_buf x \<noteq> None"
    using models(1) cfg(2,4) by (cases "model_buf x") (simp_all add: models_ok_def bytes_at_def unat_eq_0)
  have lens: "length ?nm = n" "length ?ls = n"
    using codec.length_next_model [of ?c] codec.length_lossy [of ?c big ?s] imagette_lossy [of ?c ?s big] bufs(1) cfg(4) by simp_all
  let ?x' = "(put_model ?c 0 ?nm x)\<lparr>dst := Some (z, put_bytes 0 ?ls out)\<rparr>"
  have "decompress_rdcu_data big (Some info) x = Some (int n, ?x')"
    by (rule rdcu_data_decompressed [OF w(1,2) cfg(3,4,5) w(3) run(2) code bufs(1) stream(1) e _ mb out]) (use models mok in auto)
  moreover have "bytes_at (dst ?x') = ?ls @ drop n out" using lens by (simp add: put_bytes_def)
  moreover have "?ls = take n ?s" if "rc_round c = 0"
    using that codec.lossless [of ?c ?s big] imagette_lossy [of ?c ?s big] bufs(1) cfg(4) by simp
  moreover have "take n (bytes_at (updated_model_buf ?x')) = take n (bytes_at (updated_model_buf b'))"
    if m: "model_mode_is_used (rc_cmp_mode c)" "updated_model_buf b \<noteq> None" "updated_model_buf x \<noteq> None"
  proof -
    have nm: "next_model big ?c ?s (bytes_at (model_buf b)) = ?nm"
      using codec.next_model_cong [OF _ input] m(1) by simp
    have "b' = (put_model ?c 0 ?nm b)\<lparr>dst := dst b'\<rparr>"
      using w(4) with_next_model_put [OF lens(1), of ?c b] unfolding nm by (metis cmp_bufs.surjective cmp_bufs.update_convs(2) cmp_bufs.select_convs(2))
    then show ?thesis using updated_put_model [of ?c b ?nm "dst b'"] updated_put_model [of ?c x ?nm] m lens by simp
  qed
  ultimately show ?thesis using lens by auto
qed

theorem rdcu_format_round_trip_witness:
  "\<exists>r info b' x'. compress_like_rdcu True (Some hw_cfg) True hw_bufs = Some (r, Some info, b') \<and>
    decompress_rdcu_data True (Some info) \<lparr>src = dst b', dst = Some (200, [7, 7, 7]), model_buf = None,
      updated_model_buf = None\<rparr> = Some (2, x') \<and> bytes_at (dst x') = [0, 2, 7]"
proof -
  obtain r info b' e where run: "compress_like_rdcu True (Some hw_cfg) True hw_bufs = Some (r, Some info, b')"
    "\<not> cmp_is_error r" "unat r \<le> 64" "dst b' = Some (100, e)" "length e = 8" using hw_run by blast
  have "(unat r + 7) div 8 \<le> 8" using run(3) by arith
  then have "\<exists>x'. decompress_rdcu_data True (Some info) \<lparr>src = dst b', dst = Some (200, [7, 7, 7]), model_buf = None,
      updated_model_buf = None\<rparr> = Some (2, x') \<and> bytes_at (dst x') = cleared_samples True 0 1 [0, 2] @ [7]"
    using rdcu_format_round_trip [OF run(1,2), of 2 100 "replicate 8 0" "\<lparr>src = dst b', dst = Some (200, [7, 7, 7]), model_buf = None,
      updated_model_buf = None\<rparr>" 100 e "(unat r + 7) div 8" 200 "[7, 7, 7]"] run(4,5)
    by (auto simp: hw_cfg_def witness_rcfg_def hw_bufs_def models_ok_def model_mode_is_used_def in_place_def)
  then show ?thesis using run(1) by (simp add: cleared_samples_def)
qed

text \<open>
  C12. The operations on the GR718B router refine updates of its registers. The link leads to
  a router that behaves as documented (\<open>router\<close>): it records the address of each command, a read-modify-write command replaces the
  bits of the mask by those of the data, as the words arrive in big-endian order, and a reply of at most 32 bytes arrives after
  finitely many polls; memory is available. Then every operation with valid arguments returns 0 after sending exactly the listed
  commands: one, to the routing, access control or port control register; none for the header
  deletion and the access of physical addresses. On a big-endian CPU this sets or clears the intended bit or
  replaces the clock divisor in the top byte. The code sends data and mask in the byte order of the CPU, so
  that on a little-endian CPU the bit \<open>n\<close> arrives as \<open>arriving_bit False n\<close>, in the opposite byte, and the divisor in the
  lowest byte. With a port or address that does not exist an operation returns -1, and nothing is sent.
\<close>

theorem router_operations:
  assumes router: "router tx rx (src_tla st) view sent" "gr_tx st = Some tx" "gr_rx st = Some rx" "\<And>k. alloc k \<noteq> None"
  shows "performs view sent big alloc st (gr718b_set_route_port addr port) (valid_port port \<and> (valid_port addr \<or> logical_addr addr))
      [4 * ucast addr] (set_bit (arriving_bit big (unat port))) \<and>
    performs view sent big alloc st (gr718b_clear_route_port addr port) (valid_port port \<and> (valid_port addr \<or> logical_addr addr))
      [4 * ucast addr] (unset_bit (arriving_bit big (unat port))) \<and>
    performs view sent big alloc st (gr718b_set_addr_header_deletion addr) (valid_port addr \<or> logical_addr addr)
      (if logical_addr addr then [0x400 + 4 * ucast addr] else []) (set_bit (arriving_bit big 0)) \<and>
    performs view sent big alloc st (gr718b_clear_addr_header_deletion addr) (valid_port addr \<or> logical_addr addr)
      (if logical_addr addr then [0x400 + 4 * ucast addr] else []) (unset_bit (arriving_bit big 0)) \<and>
    performs view sent big alloc st (gr718b_set_rtactrl_enabled addr) (valid_port addr \<or> logical_addr addr)
      (if logical_addr addr then [0x400 + 4 * ucast addr] else []) (set_bit (arriving_bit big 2)) \<and>
    performs view sent big alloc st (gr718b_clear_rtactrl_enabled addr) (valid_port addr \<or> logical_addr addr)
      (if logical_addr addr then [0x400 + 4 * ucast addr] else []) (unset_bit (arriving_bit big 2)) \<and>
    performs view sent big alloc st (gr718b_set_rt_clkdiv port d) (valid_port port)
      [0x800 + 4 * ucast port] (\<lambda>w. if big then take_bit 24 w OR push_bit 24 (ucast d) else (w AND NOT 0xFF) OR ucast d) \<and>
    performs view sent big alloc st (gr718b_set_link_start port) (valid_port port)
      [0x800 + 4 * ucast port] (set_bit (arriving_bit big 1)) \<and>
    performs view sent big alloc st (gr718b_clear_link_start port) (valid_port port)
      [0x800 + 4 * ucast port] (unset_bit (arriving_bit big 1)) \<and>
    performs view sent big alloc st (gr718b_set_time_code_enable port) (valid_port port)
      [0x800 + 4 * ucast port] (set_bit (arriving_bit big 5)) \<and>
    performs view sent big alloc st (gr718b_clear_time_code_enable port) (valid_port port)
      [0x800 + 4 * ucast port] (unset_bit (arriving_bit big 5))"
proof -
  note forms = performs_logical [where alloc = alloc, OF router] performs_bit [where alloc = alloc, OF router]
    performs_clkdiv [where alloc = alloc, OF router, unfolded with_clkdiv_def [abs_def]]
  show ?thesis
    by (intro conjI; (rule forms; auto simp: gr718b_op_forms valid_port_less dest: logical_le; fail))
qed

theorem router_operations_witness:
  "(\<exists>w. gr718b_set_route_port 40 3 True Some sim_state = Some (0, sim_state\<lparr>gr_link := w\<rparr>) \<and>
    fst w = (\<lambda>_. 0)(160 := 8) \<and> fst (snd w) = [160]) \<and>
   (\<exists>w. gr718b_set_route_port 40 3 False Some sim_state = Some (0, sim_state\<lparr>gr_link := w\<rparr>) \<and>
    fst w = (\<lambda>_. 0)(160 := 0x08000000) \<and> fst (snd w) = [160])"
proof -
  have "performs fst (fst \<circ> snd) big Some sim_state (gr718b_set_route_port 40 3)
      (valid_port 3 \<and> (valid_port 40 \<or> logical_addr 40)) [4 * ucast (40 :: u8)]
      (set_bit (arriving_bit big (unat (3 :: u8))))" for big
    using router_operations [of sim_tx sim_rx sim_state fst "fst \<circ> snd" Some big 40 3] sim_router by (simp add: sim_state_def)
  from this [of True] this [of False] show ?thesis
    by (auto simp: performs_def updates_def valid_port_def logical_addr_def sim_state_def set_bit_def arriving_bit_def)
qed

text \<open>
  C13. The parameters of a configuration that passes the check before a compression go into the register mirror. The
  setters demand more than the check: the numbers of samples and both addresses of the model
  must have 24 bits and the addresses must be multiples of 4. If they do, every one of the
  fifteen setters succeeds and each bit field of the registers holds its parameter, so that no setter
  disturbs the field of another one. If not, the result is -1; with sizes of 24 bits this only
  happens outside of the model modes, in which the check ignores the addresses of the model. The
  SRAM keeps its contents in both cases.
\<close>

theorem parameters_reach_registers:
  assumes "rdcu_cmp_cfg_is_invalid (Some c) = 0"
  shows "\<exists>ret m. run_steps (set_parameters c) st = Some (ret, st\<lparr>mirror := m\<rparr>) \<and> sram m = sram (mirror st) \<and>
    (if rc_samples c \<le> 0xFFFFFF \<and> rc_buffer_length c \<le> 0xFFFFFF \<and>
       rdcu_model_adr c \<le> 0xFFFFFF \<and> rdcu_model_adr c AND 3 = 0 \<and>
       rdcu_new_model_adr c \<le> 0xFFFFFF \<and> rdcu_new_model_adr c AND 3 = 0
     then ret = 0 \<and>
       read_field Compressor_param1 0 8 m = cmp_mode_value (rc_cmp_mode c) \<and>
       read_field Compressor_param1 8 5 m = rc_model_value c \<and> read_field Compressor_param1 16 2 m = rc_round c \<and>
       read_field Compressor_param2 0 6 m = rc_golomb_par c \<and> read_field Compressor_param2 8 10 m = rc_spill c \<and>
       read_field Adaptive_param1 0 6 m = rc_ap1_golomb_par c \<and> read_field Adaptive_param1 8 10 m = rc_ap1_spill c \<and>
       read_field Adaptive_param2 0 6 m = rc_ap2_golomb_par c \<and> read_field Adaptive_param2 8 10 m = rc_ap2_spill c \<and>
       read_field Data_start_addr 0 24 m = rdcu_data_adr c \<and> read_field Model_start_addr 0 24 m = rdcu_model_adr c \<and>
       read_field Num_samples 0 24 m = rc_samples c \<and> read_field New_model_start_addr 0 24 m = rdcu_new_model_adr c \<and>
       read_field Compr_data_buf_start_addr 0 24 m = rdcu_buffer_adr c \<and>
       read_field Compr_data_buf_len 0 24 m = rc_buffer_length c
     else ret = -1 \<and>
       (rc_samples c \<le> 0xFFFFFF \<and> rc_buffer_length c \<le> 0xFFFFFF \<longrightarrow> \<not> model_mode_is_used (rc_cmp_mode c)))"
proof (cases "encodable c")
  case True
  then have r: "in_ranges c" by (simp add: valid_in_ranges [OF assms])
  have masks: "v \<le> msk \<Longrightarrow> unat msk < 2 ^ n \<and> msk = mask n \<Longrightarrow> v AND mask n = v" for v msk :: u32 and n
    using and_mask_le [of v msk n] by auto
  have mode: "cmp_mode_value (rc_cmp_mode c) \<le> 0xFF" and model: "rc_model_value c \<le> 0x1F"
    using r by (auto simp: in_ranges_def intro: order_trans)
  note fit = masks [OF _ field_masks(1)] masks [OF _ field_masks(3)] masks [OF _ field_masks(4)]
    masks [OF _ field_masks(5)] masks [OF _ field_masks(6)] masks [OF _ field_masks(7)]
  show ?thesis
    unfolding set_parameters_run [OF r] encodable_def [symmetric] if_P [OF True]
    by (intro exI [of _ "0 :: int"] exI [of _ "written_parameters c (mirror st)"])
      (use r mode model in \<open>simp add: written_parameters_def Let_def read_write_other read_write_same in_ranges_def fit\<close>)
next
  case False
  then have "\<not> in_ranges c" by (simp add: valid_in_ranges [OF assms])
  moreover have "\<not> model_mode_is_used (rc_cmp_mode c)" if "rc_samples c \<le> 0xFFFFFF" "rc_buffer_length c \<le> 0xFFFFFF"
    using valid_model_encodable [OF assms that] False by blast
  ultimately show ?thesis
    unfolding encodable_def [symmetric] if_not_P [OF False] using set_parameters_outcome [of c st] by auto
qed

theorem parameters_reach_registers_witness:
  "(\<exists>m. run_steps (set_parameters demo_cfg) (demo_state None None trans_log_init ()) =
      Some (0, (demo_state None None trans_log_init ())\<lparr>mirror := m\<rparr>) \<and>
    read_field Compressor_param2 0 6 m = 7 \<and> read_field Compressor_param2 8 10 m = 60) \<and>
   (\<exists>m. run_steps (set_parameters demo_refused_cfg) (demo_state None None trans_log_init ()) =
      Some (-1, (demo_state None None trans_log_init ())\<lparr>mirror := m\<rparr>))"
  using parameters_reach_registers [OF demo_cfg_valid, of "demo_state None None trans_log_init ()"]
    parameters_reach_registers [OF demo_refused_cfg_valid, of "demo_state None None trans_log_init ()"]
  by (auto simp: demo_cfg_def demo_refused_cfg_def)

text \<open>
  C14. A transfer of \<open>n\<close> bytes of the mirror to the SRAM with a positive unit and enough free slots succeeds. It
  sends one write command for every unit, in ascending order of the addresses and with consecutive
  transaction identifiers; the payloads of the units, one behind the other, are the \<open>n\<close> bytes of the
  mirror from the address on, and the mirror is unchanged.
\<close>

theorem sram_transfer_units:
  assumes "allocates alloc" "unit_ok u" "recorded u st" "first_slots 0 (trans_log st)"
    and "\<not> transfer_args_invalid addr n u"
    and "length (sram_requests (mirror st) (unat u) (unat addr) (unat n)) \<le> 64"
  shows "\<exists>st'. rdcu_sync_mirror_to_sram addr n u big alloc st = Some (0, st') \<and> mirror st' = mirror st \<and>
    link st' = link st @ request_calls st 0 (sram_requests (mirror st) (unat u) (unat addr) (unat n)) \<and>
    concat (map (\<lambda>r. case r of WRITE_SRAM _ d \<Rightarrow> d | _ \<Rightarrow> [])
      (sram_requests (mirror st) (unat u) (unat addr) (unat n))) =
      map (sram (mirror st)) [unat addr..<unat addr + unat n]"
proof -
  have u: "u \<noteq> 0" "0 < unat u" using assms(2) by (auto simp: unit_ok_def unat_gt_0)
  show ?thesis
    using emitsD [OF mirror_to_sram_emits [OF assms(1,5) u(1), of u big] assms(3,4)] assms(6)
      sram_requests_data [OF u(2), of "mirror st" "unat addr" "unat n"]
    by (fastforce simp: sram_data_def)
qed

theorem sram_transfer_units_witness:
  "\<exists>st'. rdcu_sync_mirror_to_sram 8 12 4 True Some
      (demo_state (Some recording_tx) (Some silent_rx) trans_log_init []) = Some (0, st') \<and>
    map payload (link st') =
      [Some (sram_data demo_mirror 8 4), Some (sram_data demo_mirror 12 4), Some (sram_data demo_mirror 16 4)]"
  using sram_transfer_units [OF allocates_Some demo_unit demo_recorded, of trans_log_init "[]" 8 12 True]
  by (auto simp: first_slots_init transfer_args_invalid_def outside_sram_def RDCU_SRAM_SIZE_def
      sram_requests.simps [of _ 4 _ 12] sram_requests.simps [of _ 4 _ 8] sram_requests.simps [of _ 4 _ 4])

text \<open>
  C15. Writing 1 to 32 bits at a bit offset replaces exactly these bits of the bitstream, in
  one or two 32-bit big-endian words, and returns the new length. If the bits do not fit into the
  stream the function reports a too small buffer and has changed nothing.
\<close>

theorem put_n_bits32_appends:
  assumes "0 < unat n" and "unat n \<le> 32" and "writable buf lim" and "\<not> cmp_is_error off"
  shows "if unat off + unat n \<le> unat lim
    then \<exists>buf'. put_n_bits32 v n off (Some buf) lim = Some (n + off, Some buf') \<and>
      length buf' = length buf \<and>
      bits_of_bytes buf' = put_bits (unat off) (bits_msb (unat n) v) (bits_of_bytes buf)
    else put_n_bits32 v n off (Some buf) lim = Some (CMP_ERROR CMP_ERROR_SMALL_BUFFER, Some buf)"
proof (cases "unat off + unat n \<le> unat lim")
  case True
  then show ?thesis using put_n_bits32_fits [OF assms(1,2) True assms(3)] by simp
next
  case False
  have "unat (n + off) = unat n + unat off"
    using assms(2,4) by (subst unat_add_small) (simp_all add: cmp_is_error_iff)
  then have "lim < n + off" using False by (simp add: word_less_nat_alt)
  then show ?thesis using put_n_bits32_too_long [OF assms(1,2)] False by simp
qed

lemma put_n_bits32_appends_witness:
  "\<exists>buf'. put_n_bits32 0x1F 7 30 (Some [0xFF, 0xFF, 0xFF, 0xFF, 0xFF, 0xFF, 0xFF, 0xFF]) 64 = Some (37, Some buf') \<and>
    length buf' = length [0xFF, 0xFF, 0xFF, 0xFF, 0xFF, 0xFF, 0xFF, 0xFF :: u8] \<and>
    bits_of_bytes buf' = put_bits 30 (bits_msb 7 (0x1F :: u32)) (bits_of_bytes [0xFF, 0xFF, 0xFF, 0xFF, 0xFF, 0xFF, 0xFF, 0xFF])"
  using put_n_bits32_appends [of 7 "[0xFF, 0xFF, 0xFF, 0xFF, 0xFF, 0xFF, 0xFF, 0xFF]" 64 30 "0x1F"]
  by (simp add: writable_def cmp_is_error_iff)

text \<open>
  C16. The branch-free generators of the code words agree with the textbook definition of the
  Golomb code: a unary quotient, a zero and the remainder in truncated binary. This holds for
  every Golomb parameter and threshold that pass the checks, and for all the symbols the two
  escape mechanisms use; none of these code words is longer than the 32 bits of its variable.
\<close>

theorem encoders_compute_golomb_code:
  assumes "valid_pars m spill" and v: "unat v \<le> unat spill + 15"
    and gen: "(if is_a_pow_of_2 m then rice_encoder else golomb_encoder) v m (ilog_2 m) = (len, cw)"
  shows "unat len = length (golomb_code m (unat v)) \<and> unat len \<le> 32 \<and>
    bits_msb (unat len) cw = golomb_code m (unat v)"
proof -
  have m: "m \<noteq> 0" "unat m \<le> 65535" "unat spill \<le> unat (cmp_icu_max_spill m)"
    using assms(1) by (auto simp: valid_pars_def)
  have len: "length (golomb_code m (unat v)) \<le> 32" using v m(3) by (intro golomb_code_le_32 m) linarith
  have "encodes (len, cw) (golomb_code m (unat v))"
    using gen golomb_encoder_code [OF m(1,2) len] rice_encoder_code [OF m(1,2) _ len] by (auto split: if_splits)
  then show ?thesis using len by (auto simp: encodes_def)
qed

lemma encoders_compute_golomb_code_witness:
  "bits_msb (unat (4 :: u32)) (0xB :: u32) = golomb_code 3 (unat (5 :: u32))"
  by (rule encoders_compute_golomb_code [OF valid_pars_3_10, THEN conjunct2, THEN conjunct2]) (simp_all add: ground)

text \<open>
  C17. The decoder that \<open>select_decoder\<close> chooses for a Golomb parameter (unary, Rice or
  Golomb) returns the value whose code word comes next in the stream and consumes exactly that
  code word, although the Golomb decoder looks one bit ahead, possibly beyond the stream.
\<close>

theorem code_words_decode:
  assumes "valid_pars m spill" and "unat v \<le> unat spill + 15"
    and "bits_of_bytes buf = golomb_code m (unat v) @ rest"
  shows "\<exists>dec f dec'. bit_init_decoder buf = Some dec \<and> select_decoder m = Some f \<and>
    f dec m (ilog_2 m) = Some (v, dec') \<and> remaining dec' = rest \<and> reader_inv dec'"
proof -
  have m: "m \<noteq> 0" "unat m \<le> 65535" "unat spill \<le> unat (cmp_icu_max_spill m)"
    using assms(1) by (auto simp: valid_pars_def)
  have len: "length (golomb_code m (unat v)) \<le> 32" using assms(2) m(3) by (intro golomb_code_le_32 m) linarith
  obtain dec where dec: "bit_init_decoder buf = Some dec" "ready_at dec (golomb_code m (unat v) @ rest)"
    using bit_init_decoder_ready [of buf] assms(3) by (auto simp: ready_at_def)
  then show ?thesis using decode_cw_positioned [OF m(1,2) dec(2) len] by (auto simp: positioned_def)
qed

lemma code_words_decode_witness:
  "\<exists>dec f dec'. bit_init_decoder [0xB0] = Some dec \<and> select_decoder 3 = Some f \<and>
    f dec 3 (ilog_2 3) = Some (5, dec') \<and> remaining dec' = [False, False, False, False] \<and> reader_inv dec'"
proof (rule code_words_decode [OF valid_pars_3_10])
  show "bits_of_bytes [0xB0] = golomb_code 3 (unat (5 :: u32)) @ [False, False, False, False]"
    by (simp add: bits_of_bytes_def bits_msb_def golomb_code_def truncated_binary_def golomb_cutoff_def
        ilog_3 upt_rec bit_Suc_0_iff)
qed simp

text \<open>
  C18. The difference to the model, as a signed number of the width of the field, is mapped to
  the non-negative numbers of that width with small magnitudes first, and the decoder's inverse
  gives the difference back modulo the width.
\<close>

theorem mapping_round_trip:
  assumes "0 < unat n" and "unat n \<le> 32"
  shows "unat (map_to_pos x n) =
      (let y = unat x mod 2 ^ unat n in if y < 2 ^ (unat n - 1) then 2 * y else 2 * (2 ^ unat n - y) - 1) \<and>
    unat (map_to_pos x n) < 2 ^ unat n \<and>
    take_bit (unat n) (re_map_to_pos (map_to_pos x n)) = take_bit (unat n) x"
  using unat_map_to_pos [OF assms] unat_map_to_pos_less [OF assms] re_map_to_pos_map_to_pos [OF assms]
  by (simp_all add: Let_def)

lemma mapping_round_trip_witness:
  "take_bit (unat (16 :: u32)) (re_map_to_pos (map_to_pos (7 - 9) 16)) = take_bit (unat (16 :: u32)) (7 - 9 :: u32)"
  using mapping_round_trip [of 16 "7 - 9"] by simp

text \<open>
  C19. The invariant of the bitstream reader: refilling the register moves the window of the
  stream but keeps the sequence of bits still to be read; afterwards at least 57 bits, or all
  that are left, are in the register. It never reads outside of the stream, and it reports that
  all is read if and only if no bit is left.
\<close>

theorem refill_keeps_unread_bits:
  assumes "reader_inv dec" and "unat (bits_consumed dec) \<le> 64"
  shows "\<exists>st dec'. bit_refill dec = Some (st, dec') \<and> st \<noteq> BIT_OVERFLOW \<and> reader_inv dec' \<and>
    remaining dec' = remaining dec \<and>
    (unat (bits_consumed dec') \<le> 7 \<or> length (remaining dec') = 64 - unat (bits_consumed dec')) \<and>
    (st = BIT_ALL_READ_IN \<longleftrightarrow> remaining dec = [])"
proof -
  obtain st dec' where r: "bit_refill dec = Some (st, dec')" "st \<noteq> BIT_OVERFLOW" "ready dec'"
      "remaining dec' = remaining dec" "st = BIT_ALL_READ_IN \<longleftrightarrow> remaining dec = []"
    using bit_refill_ready [OF assms] by blast
  have "unat (bits_consumed dec') \<le> 7 \<or> length (remaining dec') = 64 - unat (bits_consumed dec')"
    using r(3) by (auto simp: ready_def reader_inv_def remaining_def)
  then show ?thesis using r by (auto simp: ready_def)
qed

lemma refill_keeps_unread_bits_witness:
  "\<exists>st dec'. bit_refill \<lparr>dec_buf = [1, 2, 3, 4, 5, 6, 7, 8, 9], bit_container = 0x0102030405060708,
      bits_consumed = 13, cursor = 0, limit_ptr = 1\<rparr> = Some (st, dec') \<and> st \<noteq> BIT_OVERFLOW \<and> reader_inv dec' \<and>
    remaining dec' = remaining \<lparr>dec_buf = [1, 2, 3, 4, 5, 6, 7, 8, 9], bit_container = 0x0102030405060708,
      bits_consumed = 13, cursor = 0, limit_ptr = 1\<rparr>"
proof -
  let ?dec = "\<lparr>dec_buf = [1, 2, 3, 4, 5, 6, 7, 8, 9], bit_container = 0x0102030405060708,
      bits_consumed = 13, cursor = 0, limit_ptr = 1\<rparr>"
  have "reader_inv ?dec" by (simp add: reader_inv_def load_be_def be_word_def)
  from refill_keeps_unread_bits [OF this] show ?thesis by auto
qed

text \<open>
  C20. Decoding is memory safe on every input: with a mode that has an escape mechanism, a Golomb parameter of
  1 to 65535, any threshold, values of 1 to 32 bits and a rounding for which the shifts of C are defined,
  the setup succeeds, and whatever bytes the stream holds, \<open>decode_value\<close> returns: no
  assertion of the readers fails, the table of masks is not left, every read is inside of the stream, and the state it
  leaves allows the next value to be decoded safely. Outside of these parameters the setup fails on an
  assertion, or the headers cannot hold them.
\<close>

theorem decode_value_memory_safe:
  assumes mode: "zero_escape_mech_is_used mode \<or> multi_escape_mech_is_used mode"
    and pars: "m \<noteq> 0" "unat m \<le> 65535" "0 < unat n" "unat n \<le> 32" "unat r < 32"
    and dec: "reader_inv dec"
  shows "\<exists>ds dec0 err v dec'. configure_decoder_setup mode m spill r n = Some ds \<and>
    bit_init_decoder buf = Some dec0 \<and> reader_inv dec0 \<and>
    decode_value ds model dec = Some (err, v, dec') \<and> reader_inv dec'"
proof -
  obtain ds where ds: "configure_decoder_setup mode m spill r n = Some ds"
    using configure_decoder_setup_Some [OF mode pars(1,3,4)] by blast
  have "decoder_usable ds" by (rule configure_decoder_setup_usable [OF ds pars(2)])
  from decode_value_safe [OF this dec, of model] ds bit_init_decoder_ready [of buf]
  show ?thesis by (auto simp: ready_def)
qed

lemma decode_value_memory_safe_witness:
  "\<exists>ds dec0 err v dec'. configure_decoder_setup CMP_MODE_MODEL_MULTI 3 7 2 16 = Some ds \<and>
    bit_init_decoder [] = Some dec0 \<and> reader_inv dec0 \<and>
    decode_value ds 3 (the (bit_init_decoder [0xFF, 0xFF, 0xFF])) = Some (err, v, dec') \<and> reader_inv dec'"
  by (rule decode_value_memory_safe)
    (simp_all add: multi_escape_mech_is_used_def bit_init_decoder_def reader_inv_def)

text \<open>
  C21. Reading a packet is memory safe: for a buffer of at least 12 bytes that has the length given, whatever
  its bytes are and whichever allocation fails, no access is outside of the buffer; and the packet that is
  returned has either no data or as many as its length field says, all of them from inside of the buffer.
\<close>

theorem rmap_read_in_bounds:
  assumes "unat len \<le> length bs" "12 \<le> length bs"
  shows "\<exists>r. rmap_pkt_from_buffer alloc (Some bs) len = Some r \<and>
    (\<forall>p. r = Some p \<longrightarrow> rp_data_len p = 0 \<or>
      (\<exists>d. rp_data p = Some d \<and> length d = unat (rp_data_len p) \<and> 13 + length d \<le> unat len))"
  using rmap_pkt_from_buffer_in_bounds [OF assms, of alloc] rmap_pkt_from_buffer_data [OF _ assms(1), of alloc]
  by (auto simp: has_its_data_def)

theorem rmap_read_in_bounds_witness:
  "\<exists>r. rmap_pkt_from_buffer Some (Some (replicate 20 1)) 20 = Some r"
  using rmap_read_in_bounds [of 20 "replicate 20 1" Some] by auto

text \<open>
  C22. The model update equation computes, at 16 and at 32 bit, the weighted mean of the model
  and the lossy data over the natural numbers: no product or sum overflows, and the result stays
  between the smaller and the larger of the two.
\<close>

theorem model_update_is_weighted_mean:
  assumes v: "v \<le> MAX_MODEL_VALUE"
  shows "unat (cmp_up_model32 d m v r) =
      (unat m * unat v + unat (rounded r d) * (16 - unat v)) div 16 \<and>
    min (unat m) (unat (rounded r d)) \<le> unat (cmp_up_model32 d m v r) \<and>
    unat (cmp_up_model32 d m v r) \<le> max (unat m) (unat (rounded r d)) \<and>
    (unat d < 2 ^ 16 \<longrightarrow> unat m < 2 ^ 16 \<longrightarrow>
      unat (cmp_up_model16 d m v r) = (unat m * unat v + unat (rounded r d) * (16 - unat v)) div 16)"
proof (intro conjI impI)
  have v16: "unat v \<le> 16" using v by (simp add: MAX_MODEL_VALUE_def word_le_nat_alt)
  note eq = unat_cmp_up_model32 [OF v16, of d m r]
  show "unat (cmp_up_model32 d m v r) = (unat m * unat v + unat (rounded r d) * (16 - unat v)) div 16"
    by (rule eq)
  show "unat (cmp_up_model16 d m v r) = (unat m * unat v + unat (rounded r d) * (16 - unat v)) div 16"
    if "unat d < 2 ^ 16" "unat m < 2 ^ 16" using that by (rule unat_cmp_up_model16 [OF v16])
  show "min (unat m) (unat (rounded r d)) \<le> unat (cmp_up_model32 d m v r)"
    and "unat (cmp_up_model32 d m v r) \<le> max (unat m) (unat (rounded r d))"
    unfolding eq using weighted_mean_between [OF v16] by blast+
qed

lemma model_update_is_weighted_mean_witness:
  "unat (cmp_up_model32 0xFFFFFFFF 0xFFFFFFFE 8 2) =
    (unat (0xFFFFFFFE :: u32) * unat (8 :: u32) + unat (rounded 2 0xFFFFFFFF) * (16 - unat (8 :: u32))) div 16"
  by (rule model_update_is_weighted_mean [THEN conjunct1]) (simp add: MAX_MODEL_VALUE_def)

text \<open>
  C23. The chunk type determines the data types: every collection of a known chunk type has a
  data type that the compressor codes, and the configuration made for the chunk type, with the spillover
  thresholds that \<open>cmp_get_spill\<close> computes from the Golomb parameters, passes the parameter checks for
  this data type. The user only has to keep the mode, the model value and the Golomb parameters in
  their ranges.
\<close>

theorem chunk_configuration_valid:
  assumes mode: "cmp_mode_is_supported (par_cmp_mode par)"
      "model_mode_is_used (par_cmp_mode par) \<Longrightarrow> par_model_value par \<le> MAX_MODEL_VALUE"
    and init: "init_cmp_cfg_from_cmp_par big chunk par = Some (t, cfg)" "t \<noteq> CHUNK_TYPE_UNKNOWN"
    and pars: "\<forall>m \<in> set (chunk_golomb_pars t par). MIN_NON_IMA_GOLOMB_PAR \<le> m \<and> m \<le> MAX_NON_IMA_GOLOMB_PAR"
    and col: "cmp_col_get_chunk_type big col = Some t"
  shows "col_type big col \<in> coded_types \<and> cfg_valid (col_cfg big cfg col)"
  using col_cfg_of_chunk_valid [OF mode _ col init(2)] col_type_of_chunk [OF col init(2)] types_of_chunk_coded [of t]
    pars init(1) by (auto simp: golomb_ok_def init_chunk_cfg)

lemma chunk_configuration_valid_witness:
  "cfg_valid (col_cfg True witness_chunk_cfg witness_col)"
  by (rule chunk_configuration_valid [THEN conjunct2, OF _ _ witness_init])
    (simp_all add: witness_par_def cmp_mode_is_supported_def model_mode_is_used_def chunk_golomb_pars_def limits witness_col_type)

text \<open>
  C24. The function that computes the bound at run time walks over the headers of the collections
  and returns the bound for their number, the one that the macro gives.
\<close>

theorem size_bound_of_chunk:
  assumes "chunk_of big cols" and "unat CMP_ENTITY_MAX_SIZE \<ge> COMPRESS_CHUNK_BOUND_UNSAFE (length (concat cols)) (length cols)"
  shows "compress_chunk_cmp_size_bound big (Some (concat cols @ rest)) (length (concat cols)) =
    Some (word_of_nat (COMPRESS_CHUNK_BOUND_UNSAFE (length (concat cols)) (length cols)))"
proof -
  let ?n = "length (concat cols)" and ?k = "length cols"
  obtain col cols' where c: "cols = col # cols'" and ex: "exact_collection big col" using assms(1) by (cases cols) (auto simp: chunk_of_def)
  then have h: "COLLECTION_HDR_SIZE \<le> ?n" by (simp add: exact_collection_def)
  have count: "count_collections big (concat cols @ rest) ?n 0 0 = Some (?n, ?k)"
    using count_collections_chunk [of cols big 0 "concat cols @ rest" rest ?n 0] assms(1) h by (simp add: chunk_of_def)
  have "64 + ?k * 2 + ?n \<le> COMPRESS_CHUNK_BOUND_UNSAFE ?n ?k"
    using round_up_to_4_ge [of "64 + ?k * 2 + ?n"]
    by (simp add: COMPRESS_CHUNK_BOUND_UNSAFE_def header_sizes CMP_COLLECTION_FILD_SIZE_def)
  moreover have "1 \<le> ?k" by (simp add: c)
  ultimately have "?n \<le> 0xFFFFFF - 66" using assms(2) by (simp add: CMP_ENTITY_MAX_SIZE_def)
  then show ?thesis
    using count h assms(2)
    by (simp add: compress_chunk_cmp_size_bound_def Let_def CMP_ENTITY_MAX_ORIGINAL_SIZE_def header_sizes CMP_COLLECTION_FILD_SIZE_def)
qed

lemma size_bound_of_chunk_witness:
  "compress_chunk_cmp_size_bound True (Some witness_col) 14 = Some 80"
  using size_bound_of_chunk [of True "[witness_col]" "[]"] witness_exact
  by (simp add: chunk_of_def COMPRESS_CHUNK_BOUND_UNSAFE_def round_up_to_4_def header_sizes CMP_COLLECTION_FILD_SIZE_def
      CMP_ENTITY_MAX_SIZE_def)

text \<open>
  C25. The header of a compressed chunk carries the configuration: what \<open>cmp_ent_build_chunk_header\<close>
  writes without an error, \<open>cmp_ent_read_header\<close> reads on a host of any byte order as the same mode, model
  value, lossy parameter and six pairs of compression parameters, with the data type of a chunk, the
  offset of the data and their size. The data behind the header are not touched.
\<close>

theorem chunk_header_round_trip:
  assumes len: "64 \<le> length d"
    and run: "cmp_ent_build_chunk_header big st (Some d) chunk_size cfg t0 ent_size = Some (r, Some e)" "\<not> cmp_is_error r"
    and cfg: "cmp_mode_is_supported (cmp_mode cfg)" "cmp_mode cfg \<noteq> CMP_MODE_RAW"
      "cmp_cfg_gen_par_is_invalid (Some (cfg\<lparr>data_type := DATA_TYPE_CHUNK\<rparr>)) = 0"
    and sizes: "78 \<le> unat ent_size" "12 \<le> unat chunk_size"
  shows "r = 64 \<and> drop 64 e = drop 64 d \<and>
    (\<exists>cfg'. cmp_ent_read_header big' e cmp_cfg_zero = Some (0, cfg', 64) \<and>
       cfg'\<lparr>data_type := data_type cfg, samples := samples cfg, stream_size := stream_size cfg\<rparr> = cfg \<and>
       data_type cfg' = DATA_TYPE_CHUNK \<and> stream_size cfg' = word_of_nat (unat ent_size - 64))"
proof -
  obtain r' e' where "cmp_ent_build_chunk_header big st (Some d) chunk_size cfg t0 ent_size = Some (r', Some e')"
    "drop 64 e' = drop 64 d"
    "cmp_is_error r' \<or> r' = NON_IMAGETTE_HEADER_SIZE \<and>
      (\<forall>(f, n) \<in> set (chunk_fields (version_identifier st) chunk_size cfg ent_size). ent_value f e' = Some n)"
    using build_chunk_header_writes [OF len, of big st chunk_size cfg t0 ent_size] cfg(2) by auto
  then have e: "drop 64 e = drop 64 d" "r = 64"
    and f: "\<forall>(f, n) \<in> set (chunk_fields (version_identifier st) chunk_size cfg ent_size). ent_value f e = Some n"
    using run by (auto simp: header_sizes)
  have "cfg'\<lparr>data_type := data_type cfg, samples := samples cfg, stream_size := stream_size cfg\<rparr> = cfg" if "same_pars cfg cfg'" for cfg'
    using that by (cases cfg; cases cfg') (simp add: same_pars_def)
  then show ?thesis using e read_chunk_header [OF f cfg sizes, of big'] by blast
qed

lemma chunk_header_round_trip_witness:
  "\<exists>e cfg'. cmp_ent_build_chunk_header True initial_compress_state (Some (replicate 78 0)) 14 witness_chunk_cfg 0 78 = Some (64, Some e) \<and>
    cmp_ent_read_header False e cmp_cfg_zero = Some (0, cfg', 64) \<and> spill_par_1 cfg' = 49 \<and> stream_size cfg' = 14"
proof -
  have "fields_fit (chunk_fields (version_identifier initial_compress_state) 14 witness_chunk_cfg 78)"
    using fields_fit_size [OF witness_fits, of 78] by (simp add: initial_compress_state_def)
  then obtain e where e: "cmp_ent_build_chunk_header True initial_compress_state (Some (replicate 78 0)) 14 witness_chunk_cfg 0 78 = Some (64, Some e)"
    using build_chunk_header_fits [of "replicate 78 0" initial_compress_state 14 witness_chunk_cfg 78 0 True]
    by (auto simp: initial_compress_state_def header_sizes)
  have valid: "cmp_cfg_gen_par_is_invalid (Some (witness_chunk_cfg\<lparr>data_type := DATA_TYPE_CHUNK\<rparr>)) = 0"
    by (simp add: cmp_cfg_gen_par_is_invalid_def witness_chunk_cfg_def cmp_cfg_zero_def cmp_data_type_is_invalid_def
        cmp_mode_is_supported_def model_mode_is_used_def)
  then obtain cfg' where c: "cmp_ent_read_header False e cmp_cfg_zero = Some (0, cfg', 64)"
    "cfg'\<lparr>data_type := data_type witness_chunk_cfg, samples := samples witness_chunk_cfg, stream_size := stream_size witness_chunk_cfg\<rparr> = witness_chunk_cfg"
    "stream_size cfg' = 14"
    using chunk_header_round_trip [OF _ e, of False] by (auto simp: cmp_is_error_iff cmp_mode_is_supported_def)
  have "spill_par_1 cfg' = 49" using arg_cong [OF c(2), of spill_par_1] by (simp add: witness_chunk_cfg_def)
  then show ?thesis using e c by blast
qed

text \<open>
  C26. A returned word is an error exactly when it is one of the 126 largest words, so that no
  size of a bitstream is mistaken for an error; every error name gives its own code back through
  the return value, and different errors have different return values.
\<close>

theorem error_codes_disjoint:
  "(cmp_is_error c \<longleftrightarrow> 4294967169 < unat c) \<and>
   (cmp_is_error (CMP_ERROR e) \<longleftrightarrow> e \<noteq> CMP_ERROR_NO_ERROR \<and> e \<noteq> CMP_ERROR_MAX_CODE) \<and>
   (e = CMP_ERROR_MAX_CODE \<or> cmp_get_error_code (CMP_ERROR e) = cmp_error_value e) \<and>
   (CMP_ERROR e = CMP_ERROR f \<longleftrightarrow> e = f)"
proof (intro conjI)
  show "cmp_is_error c \<longleftrightarrow> 4294967169 < unat c" by (rule cmp_is_error_iff)
  show "e = CMP_ERROR_MAX_CODE \<or> cmp_get_error_code (CMP_ERROR e) = cmp_error_value e"
    using cmp_get_error_code_CMP_ERROR by auto
qed simp_all

text \<open>
  C27. The limit that the checks put on the spillover threshold is exact: up to it, the code
  words of all values and of the 16 escape symbols have at most 32 bits; with a threshold one
  larger the last escape symbol would have a code word of 33 bits.
\<close>

theorem spillover_limit_is_exact:
  assumes "m \<noteq> 0" and "unat m \<le> 65535"
  shows "(v \<le> unat (cmp_icu_max_spill m) + 15 \<longrightarrow> length (golomb_code m v) \<le> 32) \<and>
    length (golomb_code m (unat (cmp_icu_max_spill m) + 16)) = 33"
  using golomb_code_le_32 [OF assms] golomb_code_33 [OF assms] by simp_all

lemma spillover_limit_is_exact_witness:
  "length (golomb_code 3 (unat (cmp_icu_max_spill 3) + 16)) = 33"
  by (rule spillover_limit_is_exact [THEN conjunct2]) simp_all

text \<open>
  C28. The setters of a collection header implement the updates of an abstract record: a value
  that fits is stored, all the other fields read as before, on a CPU of either byte order, the
  header keeps its size and the data behind it do not change; a value that does not fit into its
  field is refused with -1 and changes nothing.
\<close>

theorem collection_setters_refine:
  assumes "COLLECTION_HDR_SIZE \<le> length col"
  shows "(if drop_bit 48 t = 0
      then sets_view (\<lambda>w. w\<lparr>cv_timestamp := t\<rparr>) col (cmp_col_set_timestamp big (Some col) t)
      else cmp_col_set_timestamp big (Some col) t = Some (- 1, Some col)) \<and>
    (sets_view (\<lambda>w. w\<lparr>cv_configuration_id := c\<rparr>) col (cmp_col_set_configuration_id big (Some col) c)) \<and>
    (if drop_bit 1 p = 0
      then sets_view (\<lambda>w. w\<lparr>cv_pkt_type := p\<rparr>) col (cmp_col_set_pkt_type big (Some col) p)
      else cmp_col_set_pkt_type big (Some col) p = Some (- 1, Some col)) \<and>
    (if drop_bit 6 s = 0
      then sets_view (\<lambda>w. w\<lparr>cv_subservice := s\<rparr>) col (cmp_col_set_subservice big (Some col) s)
      else cmp_col_set_subservice big (Some col) s = Some (- 1, Some col)) \<and>
    (if drop_bit 2 d = 0
      then sets_view (\<lambda>w. w\<lparr>cv_ccd_id := d\<rparr>) col (cmp_col_set_ccd_id big (Some col) d)
      else cmp_col_set_ccd_id big (Some col) d = Some (- 1, Some col)) \<and>
    (if drop_bit 7 q = 0
      then sets_view (\<lambda>w. w\<lparr>cv_sequence_num := q\<rparr>) col (cmp_col_set_sequence_num big (Some col) q)
      else cmp_col_set_sequence_num big (Some col) q = Some (- 1, Some col)) \<and>
    (sets_view (\<lambda>w. w\<lparr>cv_data_length := n\<rparr>) col (cmp_col_set_data_length big (Some col) n))"
  using sets_timestamp sets_configuration_id sets_pkt_type sets_subservice sets_ccd_id sets_sequence_num
    sets_data_length assms
  by (simp add: cmp_col_set_timestamp_def hdr_set_def cmp_col_set_pkt_type_def cmp_col_set_subservice_def
      cmp_col_set_ccd_id_def cmp_col_set_sequence_num_def set_id_field_def)

lemma collection_setters_refine_witness:
  "sets_view (\<lambda>w. w\<lparr>cv_configuration_id := 0x1234\<rparr>) (replicate 12 0)
     (cmp_col_set_configuration_id False (Some (replicate 12 0)) 0x1234)"
  by (rule collection_setters_refine [THEN conjunct2, THEN conjunct1]) (simp add: COLLECTION_HDR_SIZE_def)

text \<open>
  C29. Copying the data out of an entity returns its size in bytes and stores in the
  destination, as words of the CPU, the big-endian words that follow the header, all of them and
  in order, without touching memory outside of the two buffers.
\<close>

theorem entity_data_words:
  assumes "entity_of t raw n e" and "n \<le> length e"
    and "unat (cmp_ent_cal_hdr_size t raw) = h" and "h \<le> n" and "4 dvd n - h"
    and "n - h \<le> unat lim" and "unat lim \<le> length d"
  shows "\<exists>d'. cmp_ent_get_cmp_data big (Some e) (Some d) lim = Some (int (n - h), Some d') \<and>
    length d' = length d \<and>
    (\<forall>i < (n - h) div 4. host_word big (take 4 (drop (4 * i) d')) = (be_word (take 4 (drop (h + 4 * i) e)) :: u32))"
  using cmp_ent_get_cmp_data_words [OF assms] .

lemma entity_data_words_witness:
  "\<exists>e d'. cmp_ent_create False (Some (replicate 72 1)) DATA_TYPE_CHUNK False 8 = Some (72, Some e) \<and>
    cmp_ent_get_cmp_data False (Some e) (Some (replicate 8 0)) 8 = Some (8, Some d') \<and> length d' = 8"
proof -
  obtain e where e: "cmp_ent_create False (Some (replicate 72 1)) DATA_TYPE_CHUNK False 8 = Some (72, Some e)"
      "entity_of DATA_TYPE_CHUNK False 72 e" "length e = 72"
    using cmp_ent_create_writes [of DATA_TYPE_CHUNK "replicate 72 1" 8 False False]
    by (auto simp: cmp_data_type_is_invalid_def cmp_ent_cal_hdr_size_def header_sizes)
  then show ?thesis
    using entity_data_words [OF e(2), of 64 8 "replicate 8 0" False]
    by (auto simp: cmp_ent_cal_hdr_size_def header_sizes)
qed



text \<open>
  C31. Any change of a single byte changes the CRC, whatever the bytes around it are; and the CRC over data with
  their own CRC appended is 0.
\<close>

theorem crc_detects_changed_byte:
  "(rmap_crc8 (Some (xs @ b # ys)) = rmap_crc8 (Some (xs @ b' # ys)) \<longleftrightarrow> b = b') \<and>
    rmap_crc8 (Some (bs @ [rmap_crc8 (Some bs)])) = 0"
  by (simp add: rmap_crc8_bits crc_bits_changed crc_bits_own)

text \<open>
  C32. The optimised CRC with its table of 256 entries equals the reference: eight shift steps for every byte with the
  reflected polynomial x^8 + x^2 + x + 1 of the RMAP standard.
\<close>

theorem crc_is_polynomial:
  "rmap_crc8 (Some bs) = foldl (\<lambda>c b. ((\<lambda>c. if bit c 0 then drop_bit 1 c XOR 0xE0 else drop_bit 1 c) ^^ 8) (c XOR b)) 0 bs"
proof -
  have "crc_bits c bs =
    foldl (\<lambda>c b. ((\<lambda>c. if bit c 0 then drop_bit 1 c XOR 0xE0 else drop_bit 1 c) ^^ 8) (c XOR b)) c bs" for c
    by (induction bs arbitrary: c) (simp_all add: crc_byte_def crc_step_def [abs_def])
  then show ?thesis by (simp add: rmap_crc8_bits)
qed

text \<open>
  C33. Creating a compression entity clears its whole header, generic and specific part, and writes the size, the
  data type with the raw bit: every byte of the result is given. The getters, the header size and the size of the data that other functions
  derive from it are the ones asked for, on a CPU of either byte order. An invalid data type or a size that does not fit into 24
  bits gives 0 and leaves the entity alone. The returned size is at least the largest header.
\<close>

theorem entity_creation:
  fixes t :: cmp_data_type and raw :: bool and n :: u32
  assumes "64 \<le> length e"
  defines "h \<equiv> cmp_ent_cal_hdr_size t raw"
  shows "if cmp_data_type_is_invalid t \<or> 2 ^ 24 \<le> unat n + unat h
    then cmp_ent_create big (Some e) t raw n = Some (0, Some e)
    else \<exists>e'. cmp_ent_create big (Some e) t raw n = Some (max 64 (h + n), Some e') \<and>
      e' = replicate 4 0 @ be_bytes 3 (h + n) @ replicate 15 0 @ be_bytes 2 (data_type_word t raw) @
        replicate (unat h - 24) 0 @ drop (unat h) e \<and>
      length e' = length e \<and> drop 64 e' = drop 64 e \<and>
      cmp_ent_get_data_type big' (Some e') = Some t \<and>
      cmp_ent_get_data_type_raw_bit big' (Some e') = Some raw \<and>
      cmp_ent_get_size big' (Some e') = Some (h + n) \<and>
      cmp_ent_get_data_buf big' (Some e') = Some (Some h) \<and>
      cmp_ent_get_cmp_data_size big' (Some e') = Some n \<and>
      cmp_ent_get_original_size big' (Some e') = Some 0 \<and>
      cmp_ent_get_model_id big' (Some e') = Some 0"
proof (cases "cmp_data_type_is_invalid t \<or> 2 ^ 24 \<le> unat n + unat h")
  case True
  then show ?thesis using cmp_ent_create_error by (simp add: h_def)
next
  case False
  then have t: "\<not> cmp_data_type_is_invalid t" and n: "unat n + unat h < 2 ^ 24" by auto
  obtain e' where c: "cmp_ent_create big (Some e) t raw n = Some (max 64 (h + n), Some e')"
      and e': "entity_of t raw (unat h + unat n) e'" "length e' = length e" "drop 64 e' = drop 64 e"
      and zero: "\<And>f. field_off f + field_len f \<le> unat h \<Longrightarrow> disjoint_fields F_SIZE f \<Longrightarrow>
        disjoint_fields F_DATA_TYPE f \<Longrightarrow> ent_value f e' = Some 0"
    using cmp_ent_create_writes [OF t assms(1), of n raw big] n by (auto simp: h_def)
  have bytes: "e' = replicate 4 0 @ be_bytes 3 (h + n) @ replicate 15 0 @ be_bytes 2 (data_type_word t raw) @
        replicate (unat h - 24) 0 @ drop (unat h) e"
    unfolding h_def by (rule cmp_ent_create_bytes [OF t assms(1) _ c]) (use n in \<open>simp add: h_def\<close>)
  have "32 \<le> unat h" using t by (cases t) (auto simp: h_def cmp_ent_cal_hdr_size_def header_sizes cmp_data_type_is_invalid_def)
  then have "ent_value F_ORIGINAL_SIZE e' = Some (unat (0 :: u32))" "ent_value F_MODEL_ID e' = Some (unat (0 :: u16))"
    using zero by (simp_all add: disjoint_fields_def)
  then have z: "cmp_ent_get_original_size big' (Some e') = Some 0" "cmp_ent_get_model_id big' (Some e') = Some 0"
    using ef_original_size.get_eqI ef_model_id.get_eqI by simp_all
  have "\<not> (cmp_data_type_is_invalid t \<or> 2 ^ 24 \<le> unat n + unat h)" using False .
  moreover have "cmp_ent_get_data_type big' (Some e') = Some t \<and>
      cmp_ent_get_data_type_raw_bit big' (Some e') = Some raw \<and>
      cmp_ent_get_size big' (Some e') = Some (h + n) \<and>
      cmp_ent_get_data_buf big' (Some e') = Some (Some h) \<and>
      cmp_ent_get_cmp_data_size big' (Some e') = Some n"
    using entity_of_getters [OF e'(1), of big'] entity_of_data_size [OF e'(1), of big']
    by (simp add: h_def [symmetric])
  ultimately show ?thesis using c bytes e'(2,3) z by (simp only: if_False) blast
qed

lemma entity_creation_witness:
  "\<exists>e'. cmp_ent_create False (Some (replicate 200 7)) DATA_TYPE_CHUNK False 100 = Some (max 64 164, Some e') \<and>
      e' = replicate 4 0 @ be_bytes 3 (164 :: u32) @ replicate 15 0 @ be_bytes 2 (data_type_word DATA_TYPE_CHUNK False) @
        replicate 40 0 @ drop 64 (replicate 200 7) \<and>
      cmp_ent_get_cmp_data_size True (Some e') = Some 100"
proof -
  have h: "cmp_ent_cal_hdr_size DATA_TYPE_CHUNK False = 64" "\<not> cmp_data_type_is_invalid DATA_TYPE_CHUNK"
    by (simp_all add: cmp_ent_cal_hdr_size_def header_sizes cmp_data_type_is_invalid_def)
  have "64 \<le> length (replicate 200 (7 :: u8))" by simp
  from entity_creation [OF this, where t = DATA_TYPE_CHUNK and raw = False and n = 100 and big = False and big' = True]
  show ?thesis unfolding h by (auto simp: h)
qed

text \<open>
  C34. Setting the model id and counter of a compressed chunk stores both values, returns the size
  it was given, leaves every header field alone that does not overlap with the two, and leaves the data
  behind the header alone.
\<close>

theorem model_id_and_counter_set:
  assumes e: "64 \<le> length e" and size: "\<not> cmp_is_error dst_size" "\<not> dst_size < GENERIC_HEADER_SIZE"
  shows "\<exists>e'. compress_chunk_set_model_id_and_counter big (Some e) dst_size model_id model_counter = Some (dst_size, Some e') \<and>
    ent_value F_MODEL_ID e' = Some (unat model_id) \<and> ent_value F_MODEL_COUNTER e' = Some (unat model_counter) \<and>
    (\<forall>f. disjoint_fields F_MODEL_ID f \<and> disjoint_fields F_MODEL_COUNTER f \<longrightarrow> ent_value f e' = ent_value f e) \<and>
    length e' = length e \<and> drop 64 e' = drop 64 e"
proof -
  have u: "unat (ucast model_id :: u32) = unat model_id" "unat (ucast model_counter :: u32) = unat model_counter"
    by (simp_all add: unat_ucast_wide)
  have b: "unat model_id < 2 ^ 16" "unat model_counter < 2 ^ 8" using unat_less_2p [of model_id] unat_less_2p [of model_counter] by simp_all
  have w1: "writes [(F_MODEL_ID, unat model_id)] e (cmp_ent_set_model_id big (Some e) (ucast model_id))"
    using writes_sets_field [OF ef_model_id.sets, of e "ucast model_id" big] e u b by simp
  then obtain e1 where e1: "cmp_ent_set_model_id big (Some e) (ucast model_id) = Some (0, Some e1)" "length e1 = length e"
    "drop 64 e1 = drop 64 e" "ent_value F_MODEL_ID e1 = Some (unat model_id)"
    "\<And>f. disjoint_fields F_MODEL_ID f \<Longrightarrow> ent_value f e1 = ent_value f e" using e by (auto elim!: writesE)
  have "64 \<le> length e1" using e e1(2) by simp
  moreover have "writes [(F_MODEL_COUNTER, unat model_counter)] e1 (cmp_ent_set_model_counter big (Some e1) (ucast model_counter))"
    using writes_sets_field [OF ef_model_counter.sets, of e1 "ucast model_counter" big] e e1(2) u b by simp
  ultimately obtain e2 where e2: "cmp_ent_set_model_counter big (Some e1) (ucast model_counter) = Some (0, Some e2)" "length e2 = length e1"
    "drop 64 e2 = drop 64 e1" "ent_value F_MODEL_COUNTER e2 = Some (unat model_counter)"
    "\<And>f. disjoint_fields F_MODEL_COUNTER f \<Longrightarrow> ent_value f e2 = ent_value f e1" by (auto elim!: writesE)
  have "ent_value F_MODEL_ID e2 = Some (unat model_id)" using e1(4) e2(5) by (simp add: disjoint_fields_def)
  then show ?thesis using e1 e2 size by (simp add: compress_chunk_set_model_id_and_counter_def)
qed

lemma model_id_and_counter_set_witness:
  "\<exists>e'. compress_chunk_set_model_id_and_counter True (Some (replicate 80 0)) 80 258 7 = Some (80, Some e') \<and>
    ent_value F_MODEL_ID e' = Some 258 \<and> ent_value F_MODEL_COUNTER e' = Some 7"
  using model_id_and_counter_set [of "replicate 80 0" 80 True 258 7] by (auto simp: cmp_is_error_iff header_sizes)

text \<open>
  C35. The parameters of a hardware compression written into the header of an entity with one of the six
  imagette data types, compressed or raw, are read back by the getters: the generic ones always, the
  spillover threshold and the Golomb parameter unless the mode is raw, and the adaptive parameters for
  the adaptive types. The entity keeps its size, its data type and every byte behind its header, which is shorter
  for the types without adaption and for raw data. The entity can hold the compressed data, the hardware reported no error, and the
  parameters fit into the fields of the header.
\<close>

theorem rdcu_parameters_round_trip:
  defines "raw \<equiv> \<lambda>info. raw_mode_is_used (cmp_mode_of (cmp_mode_used info))"
  assumes len: "64 \<le> length e" and e: "entity_of t (raw info) n e"
    and t: "rdcu_supported_data_type_is_used t" and ok: "cmp_err info = 0"
    and fits: "imagette_pars_fit t info r" "unat (cmp_mode_used info) < 2 ^ 8" "unat (samples_used info) < 2 ^ 23"
    and h: "h = unat (cmp_ent_cal_hdr_size t (raw info))" and n: "h + unat (cmp_bit_to_byte (cmp_size info)) \<le> n"
  shows "\<exists>e'. cmp_ent_write_rdcu_cmp_pars big (Some e) (Some info) (Some r) = Some (0, Some e') \<and>
    cmp_ent_get_original_size big' (Some e') = Some (2 * samples_used info) \<and>
    map_option unat (cmp_ent_get_cmp_mode big' (Some e')) = Some (unat (cmp_mode_used info)) \<and>
    cmp_ent_get_model_value big' (Some e') = Some (model_value_used info) \<and>
    cmp_ent_get_lossy_cmp_par big' (Some e') = Some (ucast (round_used info)) \<and>
    (\<not> raw info \<longrightarrow>
      map_option unat (cmp_ent_get_ima_spill big' (Some e')) = Some (unat (spill_used info)) \<and>
      map_option unat (cmp_ent_get_ima_golomb_par big' (Some e')) = Some (unat (golomb_par_used info))) \<and>
    (\<not> raw info \<and> cmp_ap_imagette_data_type_is_used t \<longrightarrow>
      map_option unat (cmp_ent_get_ima_ap1_spill big' (Some e')) = Some (unat (rc_ap1_spill r)) \<and>
      map_option unat (cmp_ent_get_ima_ap1_golomb_par big' (Some e')) = Some (unat (rc_ap1_golomb_par r)) \<and>
      map_option unat (cmp_ent_get_ima_ap2_spill big' (Some e')) = Some (unat (rc_ap2_spill r)) \<and>
      map_option unat (cmp_ent_get_ima_ap2_golomb_par big' (Some e')) = Some (unat (rc_ap2_golomb_par r))) \<and>
    entity_of t (raw info) n e' \<and> length e' = length e \<and> drop h e' = drop h e"
proof -
  have w: "writes (rdcu_fields t info r) e (cmp_ent_write_rdcu_cmp_pars big (Some e) (Some info) (Some r))"
    by (rule write_rdcu_cmp_pars_writes [OF e [unfolded raw_def] t ok fits n [unfolded h raw_def]])
  obtain e' where e': "cmp_ent_write_rdcu_cmp_pars big (Some e) (Some info) (Some r) = Some (0, Some e')"
      "length e' = length e" "\<forall>(f, k) \<in> set (rdcu_fields t info r). ent_value f e' = Some k"
      "\<forall>g. (\<forall>(f, k) \<in> set (rdcu_fields t info r). disjoint_fields f g) \<longrightarrow> ent_value g e' = ent_value g e"
    using w len unfolding writes_def by blast
  have vals: "ent_value f e' = Some k" if "(f, k) \<in> set (rdcu_fields t info r)" for f k
    using e'(3) that by blast
  have "keeps_behind h e (Some (0, Some e'))"
    using write_rdcu_cmp_pars_behind [OF entity_of_getters(1) [OF e] t, of info h big r] h e'(1) by (simp add: raw_def)
  then have behind: "drop h e' = drop h e" by (simp add: keeps_behind_def)
  have "ent_value F_SIZE e' = ent_value F_SIZE e" "ent_value F_DATA_TYPE e' = ent_value F_DATA_TYPE e"
    by (rule e'(4) [rule_format]; auto simp: rdcu_fields_def ima_header_fields_def disjoint_fields_def split: if_splits)+
  then have ent: "entity_of t (raw info) n e'" using e by (simp add: entity_of_def)
  have v: "ent_value F_ORIGINAL_SIZE e' = Some (unat (2 * samples_used info))"
    "ent_value F_LOSSY_CMP_PAR e' = Some (unat (ucast (round_used info) :: u16))"
    "ent_value F_CMP_MODE e' = Some (unat (cmp_mode_used info))"
    "ent_value F_MODEL_VALUE e' = Some (unat (model_value_used info))"
    using vals fits(3) by (simp_all add: rdcu_fields_def unat_word_ariths unat_ucast_wide)
  have m: "map_option unat (cmp_ent_get_cmp_mode big' (Some e')) = ent_value F_CMP_MODE e'"
    using load_be_ent_value [of F_CMP_MODE e', where 'a = 8] by (simp add: cmp_ent_get_cmp_mode_def hdr_get_def get_be_load)
  have ima: "(f, k) \<in> set (ima_header_fields t info r) \<Longrightarrow> ent_value f e' = Some k" if "\<not> raw info" for f k
    by (rule vals) (use that ima_header_fields_in [of info t r] in \<open>auto simp: raw_def\<close>)
  have s: "map_option unat (cmp_ent_get_ima_spill big' (Some e')) = Some (unat (spill_used info)) \<and>
      map_option unat (cmp_ent_get_ima_golomb_par big' (Some e')) = Some (unat (golomb_par_used info))" if "\<not> raw info"
    using ima [OF that] by (simp add: ima_header_fields_def ef_ima_spill.get_value ef_ima_golomb_par.get_value)
  have a: "map_option unat (cmp_ent_get_ima_ap1_spill big' (Some e')) = Some (unat (rc_ap1_spill r)) \<and>
      map_option unat (cmp_ent_get_ima_ap1_golomb_par big' (Some e')) = Some (unat (rc_ap1_golomb_par r)) \<and>
      map_option unat (cmp_ent_get_ima_ap2_spill big' (Some e')) = Some (unat (rc_ap2_spill r)) \<and>
      map_option unat (cmp_ent_get_ima_ap2_golomb_par big' (Some e')) = Some (unat (rc_ap2_golomb_par r))"
    if "\<not> raw info \<and> cmp_ap_imagette_data_type_is_used t"
    using ima that by (simp add: ima_header_fields_def ef_ima_ap1_spill.get_value ef_ima_ap1_golomb_par.get_value
        ef_ima_ap2_spill.get_value ef_ima_ap2_golomb_par.get_value)
  show ?thesis
    using e'(1,2) ent behind m v(3) s a ef_original_size.get_eqI [OF v(1)] ef_lossy_cmp_par.get_eqI [OF v(2)]
      ef_model_value.get_eqI [OF v(4)]
    by (intro exI [of _ e'] conjI impI) simp_all
qed

lemma rdcu_parameters_round_trip_witness:
  "(\<exists>e e'. cmp_ent_create False (Some (replicate 64 0)) DATA_TYPE_IMAGETTE_ADAPTIVE False 8 = Some (64, Some e) \<and>
    cmp_ent_write_rdcu_cmp_pars False (Some e) (Some witness_info) (Some witness_rcfg) = Some (0, Some e') \<and>
    map_option unat (cmp_ent_get_ima_ap1_spill False (Some e')) = Some 35) \<and>
  (\<exists>e e'. cmp_ent_create False (Some (replicate 64 0)) DATA_TYPE_F_CAM_IMAGETTE True 20 = Some (64, Some e) \<and>
    cmp_ent_write_rdcu_cmp_pars False (Some e) (Some (witness_info\<lparr>cmp_mode_used := 0, cmp_size := 160\<rparr>)) (Some witness_rcfg) = Some (0, Some e') \<and>
    cmp_ent_get_original_size False (Some e') = Some 20 \<and> drop 32 e' = drop 32 e)"
proof (rule conjI)
  note facts = rdcu_supported_data_type_is_used_def cmp_ap_imagette_data_type_is_used_def imagette_pars_fit_def
        witness_info_def witness_rcfg_def cmp_ent_cal_hdr_size_def header_sizes cmp_bit_to_byte_def
        cmp_data_type_is_invalid_def raw_mode_is_used_def cmp_mode_of_def
  let ?t = DATA_TYPE_IMAGETTE_ADAPTIVE
  obtain e where e: "cmp_ent_create False (Some (replicate 64 0)) ?t False 8 = Some (64, Some e)"
      "entity_of ?t False 52 e" "length e = 64"
    using cmp_ent_create_writes [of ?t "replicate 64 0" 8 False False] by (auto simp: facts)
  have i: "raw_mode_is_used (cmp_mode_of (cmp_mode_used witness_info)) = False" "cmp_err witness_info = 0"
    "imagette_pars_fit ?t witness_info witness_rcfg" "unat (cmp_mode_used witness_info) < 2 ^ 8"
    "unat (samples_used witness_info) < 2 ^ 23" "44 + unat (cmp_bit_to_byte (cmp_size witness_info)) \<le> 52"
    and t: "rdcu_supported_data_type_is_used ?t" "44 = unat (cmp_ent_cal_hdr_size ?t False)"
      "cmp_ap_imagette_data_type_is_used ?t" "unat (rc_ap1_spill witness_rcfg) = 35" by (simp_all add: facts)
  show "\<exists>e e'. cmp_ent_create False (Some (replicate 64 0)) ?t False 8 = Some (64, Some e) \<and>
    cmp_ent_write_rdcu_cmp_pars False (Some e) (Some witness_info) (Some witness_rcfg) = Some (0, Some e') \<and>
    map_option unat (cmp_ent_get_ima_ap1_spill False (Some e')) = Some 35"
    using rdcu_parameters_round_trip [of e ?t witness_info, unfolded i(1), OF _ e(2) t(1) i(2-5) t(2) i(6), of False False] e(1,3) t(3,4)
    by auto
next
  note facts = rdcu_supported_data_type_is_used_def cmp_ap_imagette_data_type_is_used_def imagette_pars_fit_def
        witness_info_def witness_rcfg_def cmp_ent_cal_hdr_size_def header_sizes cmp_bit_to_byte_def
        cmp_data_type_is_invalid_def raw_mode_is_used_def cmp_mode_of_def
  let ?t = DATA_TYPE_F_CAM_IMAGETTE and ?info = "witness_info\<lparr>cmp_mode_used := 0, cmp_size := 160\<rparr>"
  obtain e where e: "cmp_ent_create False (Some (replicate 64 0)) ?t True 20 = Some (64, Some e)"
      "entity_of ?t True 52 e" "length e = 64"
    using cmp_ent_create_writes [of ?t "replicate 64 0" 20 True False] by (auto simp: facts)
  have i: "raw_mode_is_used (cmp_mode_of (cmp_mode_used ?info)) = True" "cmp_err ?info = 0"
    "imagette_pars_fit ?t ?info witness_rcfg" "unat (cmp_mode_used ?info) < 2 ^ 8"
    "unat (samples_used ?info) < 2 ^ 23" "32 + unat (cmp_bit_to_byte (cmp_size ?info)) \<le> 52"
    and t: "rdcu_supported_data_type_is_used ?t" "32 = unat (cmp_ent_cal_hdr_size ?t True)"
      "2 * samples_used ?info = 20" by (simp_all add: facts)
  show "\<exists>e e'. cmp_ent_create False (Some (replicate 64 0)) ?t True 20 = Some (64, Some e) \<and>
    cmp_ent_write_rdcu_cmp_pars False (Some e) (Some ?info) (Some witness_rcfg) = Some (0, Some e') \<and>
    cmp_ent_get_original_size False (Some e') = Some 20 \<and> drop 32 e' = drop 32 e"
    using rdcu_parameters_round_trip [of e ?t ?info, unfolded i(1), OF _ e(2) t(1) i(2-5) t(2) i(6), of False False] e(1,3) t(3)
    by auto
qed

text \<open>
  C36. The 16-bit samples of a buffer arrive in the mirror of the SRAM in big-endian order, on a CPU of either byte order;
  no other byte of the SRAM and no register changes, and the number of bytes is returned.
\<close>

theorem samples_in_sram_big_endian:
  assumes "unat a < 2 ^ 23" "unat a + 2 * unat n \<le> 2 ^ 23" "2 * unat n \<le> length b"
  shows "\<exists>m'. rdcu_write_sram_16 big (Some b) a (n * 2) m = Some (uint (n * 2), m') \<and> regs m' = regs m \<and>
    (\<forall>i < unat n. [sram m' (unat a + 2 * i), sram m' (unat a + 2 * i + 1)] =
      be_bytes 2 (host_word big (take 2 (drop (2 * i) b)) :: u16)) \<and>
    (\<forall>j. j < unat a \<or> unat a + 2 * unat n \<le> j \<longrightarrow> sram m' j = sram m j)"
proof -
  have "[samples_be big k b ! (2 * i), samples_be big k b ! (2 * i + 1)] =
      be_bytes 2 (host_word big (take 2 (drop (2 * i) b)) :: u16)" if "i < k" for i k
    using that
  proof (induction k)
    case (Suc k)
    show ?case
    proof (cases "i = k")
      case True
      then show ?thesis
        by (simp add: samples_be_Suc nth_append be_bytes_2 mult.commute)
    next
      case False
      then show ?thesis using Suc by (simp add: samples_be_Suc nth_append)
    qed
  qed simp
  then show ?thesis
    unfolding rdcu_write_sram_16_samples [OF assms(2,1,3)]
    by (intro exI [of _ "fill_sram (unat a) (samples_be big (unat n) b) m"]) (auto simp: fill_sram_def)
qed

theorem samples_in_sram_big_endian_witness:
  "\<exists>m'. rdcu_write_sram_16 False (Some [2, 1, 4, 3]) 8 4 demo_mirror = Some (4, m') \<and>
    sram m' 8 = 1 \<and> sram m' 9 = 2"
proof -
  obtain m' where m': "rdcu_write_sram_16 False (Some [2, 1, 4, 3]) 8 4 demo_mirror = Some (4, m')"
    "\<forall>i < 2. [sram m' (8 + 2 * i), sram m' (8 + 2 * i + 1)] =
      be_bytes 2 (host_word False (take 2 (drop (2 * i) [2, 1, 4, 3])) :: u16)"
    using samples_in_sram_big_endian [of 8 2 "[2, 1, 4, 3]" False demo_mirror] by auto
  then have "[sram m' 8, sram m' 9] = be_bytes 2 (be_word [1, 2] :: u16)"
    by (auto simp: host_word_def dest: spec [of _ 0])
  then show ?thesis using m'(1) be_bytes_be_word [of "[1, 2]", where 'a = 16] by (simp add: numeral_2_eq_2)
qed

text \<open>
  C37. Reading \<open>n\<close> zero bits and subtracting one gives the largest number of \<open>n\<close> bits; for four
  bits this is 0xF, where the comment of the function says 0xFF.
\<close>

theorem sub_1_of_zero_bits:
  assumes "0 < unat n" and "unat n \<le> 32" and "bits_of_bytes buf = replicate (unat n) False @ rest"
  shows "\<exists>dec dec'. bit_init_decoder buf = Some dec \<and>
    bit_read_bits32_sub_1 dec n = Some (mask (unat n), dec') \<and> remaining dec' = rest"
proof -
  have low: "take_bit (unat n) (mask (unat n) + 1 :: u32) = 0"
    unfolding mask_eq_exp_minus_1 diff_add_cancel by (rule bit_word_eqI) (simp add: bit_take_bit_iff bit_exp_iff)
  have "bits_msb (unat n) (mask (unat n) + 1 :: u32) = bits_msb (unat n) (take_bit (unat n) (mask (unat n) + 1 :: u32))"
    by (rule bits_msb_take_bit [symmetric]) simp
  also have "\<dots> = replicate (unat n) False" unfolding low by (rule bits_msb_zero)
  finally have b: "bits_of_bytes buf = bits_msb (unat n) (mask (unat n) + 1 :: u32) @ rest" using assms(3) by simp
  obtain dec where dec: "bit_init_decoder buf = Some dec"
      "ready_at dec (bits_msb (unat n) (mask (unat n) + 1 :: u32) @ rest)"
    using bit_init_decoder_ready [of buf] b by (auto simp: ready_at_def)
  have "unat (mask (unat n) :: u32) < 2 ^ unat n"
    by (auto simp: unat_less_iff_bits bit_mask_iff)
  from bit_read_bits32_sub_1_positioned [OF dec(2)] this assms(1,2) dec(1) show ?thesis
    by (auto simp: positioned_def)
qed

lemma sub_1_of_zero_bits_witness:
  "\<exists>dec dec'. bit_init_decoder [0x07] = Some dec \<and>
    bit_read_bits32_sub_1 dec 4 = Some (mask (unat (4 :: u32)), dec') \<and> remaining dec' = [False, True, True, True]"
proof (rule sub_1_of_zero_bits)
  have "replicate 4 False = [False, False, False, False]" by (simp add: numeral_eq_Suc)
  then show "bits_of_bytes [0x07] = replicate (unat (4 :: u32)) False @ [False, True, True, True]"
    by (simp add: bits_of_bytes_def bits_msb_def upt_rec)
qed simp_all

text \<open>
  C38. The correspondence of subservices, data types and sample sizes, in full. The table lists the
  data type and the size of the packed structure of a sample for all twenty subservices; any other number is
  unknown. A known number is what its data type converts back to. The adaptive imagette types, which
  no number stands for, share number and size with the types without adaption. The chunk type and
  the invalid types have no subservice (0xFF) and the sample size 0.
\<close>

theorem subservice_round_trip:
  "map (\<lambda>n. (n, convert_subservice_to_cmp_data_type n, size_of_a_sample (convert_subservice_to_cmp_data_type n)))
      [1, 2, 3, 4, 5, 6, 7, 9, 10, 11, 12, 13, 14, 15, 16, 17, 18, 19, 20, 25] =
     [(1, DATA_TYPE_F_CAM_IMAGETTE, 2), (2, DATA_TYPE_F_CAM_OFFSET, 8), (3, DATA_TYPE_IMAGETTE, 2),
      (4, DATA_TYPE_SAT_IMAGETTE, 2), (5, DATA_TYPE_OFFSET, 8), (6, DATA_TYPE_BACKGROUND, 10),
      (7, DATA_TYPE_SMEARING, 10), (9, DATA_TYPE_S_FX, 5), (10, DATA_TYPE_S_FX_EFX, 9),
      (11, DATA_TYPE_S_FX_NCOB, 13), (12, DATA_TYPE_S_FX_EFX_NCOB_ECOB, 25), (13, DATA_TYPE_L_FX, 11),
      (14, DATA_TYPE_L_FX_EFX, 15), (15, DATA_TYPE_L_FX_NCOB, 27),
      (16, DATA_TYPE_L_FX_EFX_NCOB_ECOB, 39), (17, DATA_TYPE_F_FX, 4), (18, DATA_TYPE_F_FX_EFX, 8),
      (19, DATA_TYPE_F_FX_NCOB, 12), (20, DATA_TYPE_F_FX_EFX_NCOB_ECOB, 24),
      (25, DATA_TYPE_F_CAM_BACKGROUND, 10)] \<and>
   (convert_subservice_to_cmp_data_type s = DATA_TYPE_UNKNOWN \<longleftrightarrow>
      s \<notin> {1, 2, 3, 4, 5, 6, 7, 9, 10, 11, 12, 13, 14, 15, 16, 17, 18, 19, 20, 25}) \<and>
   (convert_subservice_to_cmp_data_type s = DATA_TYPE_UNKNOWN \<or>
      convert_cmp_data_type_to_subservice (convert_subservice_to_cmp_data_type s) = s) \<and>
   map (\<lambda>t. (convert_cmp_data_type_to_subservice t, size_of_a_sample t))
     [DATA_TYPE_IMAGETTE_ADAPTIVE, DATA_TYPE_SAT_IMAGETTE_ADAPTIVE, DATA_TYPE_F_CAM_IMAGETTE_ADAPTIVE] =
     [(3, 2), (4, 2), (1, 2)] \<and>
   (convert_cmp_data_type_to_subservice t = 0xFF \<longleftrightarrow> t = DATA_TYPE_CHUNK \<or> cmp_data_type_is_invalid t) \<and>
   (size_of_a_sample t = 0 \<longleftrightarrow> t = DATA_TYPE_CHUNK \<or> cmp_data_type_is_invalid t)"
proof (intro conjI)
  show "convert_subservice_to_cmp_data_type s = DATA_TYPE_UNKNOWN \<or>
      convert_cmp_data_type_to_subservice (convert_subservice_to_cmp_data_type s) = s"
    using subservice_data_type by auto
qed (rule subservice_unknown_iff subservice_none_iff size_of_a_sample_0_iff
    | simp add: subservice_data_types size_of_a_sample_def sst)+

text \<open>
  C39. The unit of a transfer is not checked to be positive. With 0, the value before \<open>rdcu_rmap_init\<close>, the loop over the
  units never gets to its end: the transfer does not return, or fails, but never succeeds.
\<close>

theorem transfer_unit_zero:
  assumes "rdcu_sync_mirror_to_sram addr n 0 big alloc st = Some (ret, st')"
  shows "ret = -1"
proof -
  have "send_units big alloc addr 0 0 n st = Some y \<Longrightarrow> fst y = Inl (-1)" for y
    by (rule send_units.raw_induct [where P = "\<lambda>big alloc addr u sent n st y. u = 0 \<longrightarrow> fst y = Inl (-1)",
        THEN mp, rotated]) (auto split: if_splits Option.bind_splits)
  then show ?thesis
    using assms by (fastforce simp: rdcu_sync_mirror_to_sram_def split: if_splits Option.bind_splits)
qed

theorem transfer_unit_zero_witness:
  "\<exists>st'. rdcu_sync_mirror_to_sram 0 4 0 True Some
    (demo_state (Some (\<lambda>_ _ _ _ _ w. (1, w))) (Some silent_rx) trans_log_init ()) = Some (-1, st')"
  (is "\<exists>st'. rdcu_sync_mirror_to_sram _ _ _ _ _ ?st = _")
proof -
  obtain log where log: "trans_log_grab_slot (SRAM 0) (trans_log ?st) = (0, log)"
    using grab_first [OF first_slots_init, of "SRAM 0"] by auto
  have "paths_ok (?st\<lparr>trans_log := log\<rparr>)" by (simp add: demo_state_def paths_ok_def path_ok_def)
  then have "\<exists>h. make_cmd Some (\<lambda>t c. rdcu_write_cmd_data Some (?st\<lparr>trans_log := log\<rparr>) t c 0 0) 0 =
      Some (Inr (h :: buffer \<times> int))"
    using make_cmd_ok [OF allocates_Some, of "?st\<lparr>trans_log := log\<rparr>" 11 0 0 0]
    by (auto simp: rdcu_write_cmd_data_def rdcu_write_cmd_data_internal_def rmap_validate_cmd_code_def)
  then obtain h n where make: "make_cmd Some (\<lambda>t c. rdcu_write_cmd_data Some (?st\<lparr>trans_log := log\<rparr>) t c 0 0) 0 =
      Some (Inr (h :: buffer, n :: int))" by auto
  have silent: "rdcu_process_rx True Some s = Some (0, s)" if "rmap_rx s = Some silent_rx" for s :: "unit rdcu_state"
    using that by (simp add: rdcu_process_rx_def process_rx_loop.simps silent_rx_def)
  have "\<exists>st'. send_units True Some 0 0 0 4 ?st = Some (Inl (-1), st')"
    using log make
    by (subst send_units.simps)
      (simp add: rdcu_sync_data_def silent Let_def load_local_def sram_bytes_def rdcu_submit_tx_def)
  then obtain st' where "rdcu_sync_mirror_to_sram 0 4 0 True Some ?st = Some (-1, st')"
    by (auto simp: rdcu_sync_mirror_to_sram_def transfer_args_invalid_def outside_sram_def RDCU_SRAM_SIZE_def)
  with transfer_unit_zero [OF this] show ?thesis by blast
qed

text \<open>
  C40. A flaw the model shows: the reply to a write command is eight bytes long, but the position of the header CRC is
  the one of a read reply, so that the byte with the index 11 is read. The read is out of bounds exactly if
  fewer than four bytes follow the header in the buffer, as for a buffer of the size of the packet.
\<close>

theorem write_reply_read_behind:
  assumes "\<And>k. alloc k \<noteq> None"
    and "rmap_get_min_hdr_size p \<noteq> -1" "rp_proto_id p = 1" "\<not> ri_cmd_resp (rp_instruction p)"
    and "ri_cmd (rp_instruction p) AND RMAP_CMD_BIT_WRITE \<noteq> 0"
    and "7 \<le> unat len"
  shows "rmap_pkt_from_buffer alloc (Some ([rp_dst p, 1, rp_instruction p, rp_key p, rp_src p] @
      be_bytes 2 (rp_tr_id p) @ crc # tail)) len = None \<longleftrightarrow> length tail < 4"
proof -
  have f: "[rp_dst p, 1, rp_instruction p, rp_key p, rp_src p] @ be_bytes 2 (rp_tr_id p) @ crc # tail =
      frame p [] crc tail"
    using assms(3-5) by (simp add: frame_def hdr_tail_def)
  have p: "write_reply p" using assms(2-5) by (simp add: write_reply_def)
  show ?thesis
    unfolding f
    using write_reply_overread [where alloc = alloc, OF assms(1) p assms(6), of tail crc]
      write_reply_read [where alloc = alloc, OF assms(1) p assms(6), of tail crc]
    by (cases "length tail < 4") auto
qed

theorem write_reply_read_behind_witness:
  "rmap_pkt_from_buffer Some (Some [0xA7, 1, 0x2C, 0, 0xFE, 0, 3, 0x55]) 8 = None"
  using write_reply_read_behind [where alloc = Some and p = "\<lparr>rp_path = None, rp_path_len = 0, rp_dst = 0xA7, rp_proto_id = 1,
    rp_instruction = 0x2C, rp_key = 0, rp_src = 0xFE, rp_rpath = None, rp_rpath_len = 0, rp_tr_id = 3, rp_addr = 0,
    rp_data = None, rp_data_len = 0, rp_hdr_crc = 0, rp_data_crc = 0\<rparr>" and len = 8 and crc = "0x55" and tail = "[]"]
  by (simp add: rmap_get_min_hdr_size_def ri_cmd_resp_def ri_cmd_def Let_def be_bytes_2)

end
